(* ===== verification/Prelude.thy ===== *)
theory Prelude
  imports Main "HOL-Library.Word"
begin

text \<open>
  What every component shares: the machine types of the Rust code, results as sums
  (\<open>Err\<close>/\<open>Ok\<close>), the checked, saturating and truncating integer operations of the Rust
  standard library, little-endian integer encodings (\<open>to_le_bytes\<close>/\<open>from_le_bytes\<close>),
  byte slices, and the \<^theory_text>\<open>named_theorems\<close> collections used by the components.
\<close>

unbundle bit_operations_syntax

section \<open>Collections of the development\<close>

named_theorems le_simps \<open>lengths and round trips of little-endian encodings\<close>
named_theorems codec_defs \<open>unfolding of the fixed-layout encoders and decoders\<close>

section \<open>Machine types\<close>

type_synonym u8 = "8 word"
type_synonym u16 = "16 word"
type_synonym u32 = "32 word"
type_synonym u64 = "64 word"

text \<open>An \<open>i64\<close> is a 64-bit word whose value is read with \<^const>\<open>sint\<close>.\<close>

type_synonym i64 = "64 word"

type_synonym bytes = "u8 list"

text \<open>An \<open>Instant\<close> is a number of nanoseconds on the monotonic clock, a \<open>Duration\<close> a number of
  nanoseconds; \<open>duration_since\<close> and \<open>saturating_duration_since\<close> are the truncated difference.\<close>

type_synonym instant = nat
type_synonym duration = nat

definition from_secs :: "u64 \<Rightarrow> duration" where
  "from_secs s = unat s * 10 ^ 9"

text \<open>A \<open>usize\<close> is a \<^typ>\<open>nat\<close>; every checked operation carries the 64-bit bound.\<close>

type_synonym usize = nat

abbreviation usize_max :: nat where "usize_max \<equiv> 2 ^ 64 - 1"
abbreviation u64_max :: nat where "u64_max \<equiv> 2 ^ 64 - 1"
abbreviation i64_max :: i64 where "i64_max \<equiv> 2 ^ 63 - 1"
abbreviation i64_min :: i64 where "i64_min \<equiv> 2 ^ 63"

section \<open>Results\<close>

abbreviation Err :: "'e \<Rightarrow> 'e + 'a" where "Err \<equiv> Inl"
abbreviation Ok :: "'a \<Rightarrow> 'e + 'a" where "Ok \<equiv> Inr"

text \<open>The \<open>?\<close> operator: continue with the value, or return the error.\<close>

definition and_then :: "'e + 'a \<Rightarrow> ('a \<Rightarrow> 'e + 'b) \<Rightarrow> 'e + 'b" where
  "and_then r f = (case r of Inl e \<Rightarrow> Inl e | Inr x \<Rightarrow> f x)"

definition map_err :: "('e \<Rightarrow> 'f) \<Rightarrow> 'e + 'a \<Rightarrow> 'f + 'a" where
  "map_err f r = (case r of Inl e \<Rightarrow> Inl (f e) | Inr x \<Rightarrow> Inr x)"

definition ok_or :: "'a option \<Rightarrow> 'e \<Rightarrow> 'e + 'a" where
  "ok_or x e = (case x of None \<Rightarrow> Inl e | Some y \<Rightarrow> Inr y)"

definition is_ok :: "'e + 'a \<Rightarrow> bool" where
  "is_ok r = (case r of Inl _ \<Rightarrow> False | Inr _ \<Rightarrow> True)"

lemma and_then_simps [simp]:
  "and_then (Inl e) f = Inl e" "and_then (Inr x) f = f x"
  by (simp_all add: and_then_def)

lemma map_err_simps [simp]:
  "map_err g (Inl e) = Inl (g e)" "map_err g (Inr x) = Inr x"
  by (simp_all add: map_err_def)

lemma ok_or_simps [simp]: "ok_or None e = Inl e" "ok_or (Some x) e = Inr x"
  by (simp_all add: ok_or_def)

lemma is_ok_simps [simp]: "\<not> is_ok (Inl e)" "is_ok (Inr x)"
  by (simp_all add: is_ok_def)

lemma is_ok_iff: "is_ok r \<longleftrightarrow> (\<exists>x. r = Inr x)"
  by (cases r) auto

lemma and_then_Ok_iff: "and_then r f = Inr y \<longleftrightarrow> (\<exists>x. r = Inr x \<and> f x = Inr y)"
  by (cases r) auto

lemma map_err_Ok_iff [simp]: "map_err g r = Inr y \<longleftrightarrow> r = Inr y"
  by (cases r) auto

lemma ok_or_Ok_iff [simp]: "ok_or x e = Inr y \<longleftrightarrow> x = Some y"
  by (cases x) auto

section \<open>Words\<close>

lemma unat_lt2p: "unat (w :: 'a::len word) < 2 ^ LENGTH('a)"
  by (rule unsigned_less)

lemma unat_of_nat_u64: "n < 2 ^ 64 \<Longrightarrow> unat (of_nat n :: u64) = n"
  by (simp add: unat_of_nat)

lemma unat_of_nat_u32: "n < 2 ^ 32 \<Longrightarrow> unat (of_nat n :: u32) = n"
  by (simp add: unat_of_nat)

section \<open>Checked and saturating arithmetic\<close>

definition checked_add_usize :: "usize \<Rightarrow> usize \<Rightarrow> usize option" where
  "checked_add_usize a b = (if a + b \<le> usize_max then Some (a + b) else None)"

definition checked_sub_usize :: "usize \<Rightarrow> usize \<Rightarrow> usize option" where
  "checked_sub_usize a b = (if b \<le> a then Some (a - b) else None)"

definition saturating_add_u64 :: "nat \<Rightarrow> nat \<Rightarrow> nat" where
  "saturating_add_u64 a b = min (a + b) u64_max"

definition checked_add_word :: "'a::len word \<Rightarrow> 'a word \<Rightarrow> 'a word option" where
  "checked_add_word a b = (if unat a + unat b < 2 ^ LENGTH('a) then Some (a + b) else None)"

text \<open>\<open>u32::try_from\<close> of a length: an error when the value does not fit.\<close>

definition u32_try_from :: "nat \<Rightarrow> u32 option" where
  "u32_try_from n = (if n < 2 ^ 32 then Some (of_nat n) else None)"

lemma checked_add_usize_Some [simp]:
  "checked_add_usize a b = Some c \<longleftrightarrow> c = a + b \<and> a + b \<le> usize_max"
  by (auto simp: checked_add_usize_def)

lemma checked_sub_usize_Some [simp]:
  "checked_sub_usize a b = Some c \<longleftrightarrow> b \<le> a \<and> c = a - b"
  by (auto simp: checked_sub_usize_def)

lemma checked_add_word_Some:
  "checked_add_word a b = Some c \<Longrightarrow> unat c = unat a + unat b"
  by (auto simp: checked_add_word_def unat_word_ariths split: if_splits)

lemma u32_try_from_Some [simp]:
  "u32_try_from n = Some w \<longleftrightarrow> n = unat w"
proof
  assume "u32_try_from n = Some w"
  then show "n = unat w"
    by (auto simp: u32_try_from_def unat_of_nat split: if_splits)
next
  assume "n = unat w"
  then show "u32_try_from n = Some w"
    using unat_lt2p [of w] by (simp add: u32_try_from_def)
qed

section \<open>Byte slices\<close>

text \<open>
  \<open>slice_of at n bs\<close> is \<open>&bs[at..at+n]\<close>; Rust panics when the range leaves the array, so
  every use is under the bound the code has checked.
\<close>

definition slice_of :: "nat \<Rightarrow> nat \<Rightarrow> 'a list \<Rightarrow> 'a list" where
  "slice_of at n bs = take n (drop at bs)"

lemma length_slice_of [simp]: "length (slice_of at n bs) = min n (length bs - at)"
  by (simp add: slice_of_def min.commute)

lemma slice_of_append_skip:
  "length xs \<le> at \<Longrightarrow> slice_of at n (xs @ ys) = slice_of (at - length xs) n ys"
  by (simp add: slice_of_def)

lemma slice_of_append_hit: "slice_of (length xs) (length ys) (xs @ ys @ zs) = ys"
  by (simp add: slice_of_def)

lemma slice_of_prefix:
  "at + n \<le> length xs \<Longrightarrow> slice_of at n (xs @ ys) = slice_of at n xs"
  by (simp add: slice_of_def)

lemma slice_of_all [simp]: "slice_of 0 (length xs) xs = xs"
  by (simp add: slice_of_def)

section \<open>Little-endian integers\<close>

primrec le_nat :: "nat \<Rightarrow> nat \<Rightarrow> bytes" where
  "le_nat 0 x = []"
| "le_nat (Suc n) x = of_nat (x mod 256) # le_nat n (x div 256)"

fun nat_le :: "bytes \<Rightarrow> nat" where
  "nat_le [] = 0"
| "nat_le (b # bs) = unat b + 256 * nat_le bs"

lemma length_le_nat [simp, le_simps]: "length (le_nat n x) = n"
  by (induction n arbitrary: x) simp_all

lemma nat_le_bound: "nat_le bs < 256 ^ length bs"
proof (induction bs)
  case Nil
  then show ?case by simp
next
  case (Cons b bs)
  have "unat b < 256" using unat_lt2p [of b] by simp
  with Cons show ?case by simp
qed

lemma nat_le_le_nat: "nat_le (le_nat n x) = x mod 256 ^ n"
proof (induction n arbitrary: x)
  case 0
  then show ?case by simp
next
  case (Suc n)
  have "x mod 256 + 256 * (x div 256 mod 256 ^ n) = x mod (256 * 256 ^ n)"
    by (metis mod_mult2_eq add.commute)
  with Suc show ?case by (simp add: unat_of_nat)
qed

lemma le_nat_nat_le: "le_nat (length bs) (nat_le bs) = bs"
proof (induction bs)
  case Nil
  then show ?case by simp
next
  case (Cons b bs)
  have b: "unat b < 256" using unat_lt2p [of b] by simp
  then have "(unat b + 256 * nat_le bs) mod 256 = unat b"
    and "(unat b + 256 * nat_le bs) div 256 = nat_le bs" by simp_all
  with Cons show ?case by simp
qed

text \<open>\<open>to_le_bytes\<close> and \<open>from_le_bytes\<close> of \<open>u32\<close>, \<open>u64\<close> and \<open>i64\<close>.\<close>

definition to_le32 :: "u32 \<Rightarrow> bytes" where [codec_defs]: "to_le32 w = le_nat 4 (unat w)"
definition to_le64 :: "u64 \<Rightarrow> bytes" where [codec_defs]: "to_le64 w = le_nat 8 (unat w)"
definition from_le32 :: "bytes \<Rightarrow> u32" where [codec_defs]: "from_le32 bs = of_nat (nat_le bs)"
definition from_le64 :: "bytes \<Rightarrow> u64" where [codec_defs]: "from_le64 bs = of_nat (nat_le bs)"

lemma length_to_le [simp, le_simps]: "length (to_le32 w) = 4" "length (to_le64 v) = 8"
  by (simp_all add: to_le32_def to_le64_def)

lemma from_to_le32 [simp, le_simps]: "from_le32 (to_le32 w) = w"
  using unat_lt2p [of w] by (simp add: from_le32_def to_le32_def nat_le_le_nat)

lemma from_to_le64 [simp, le_simps]: "from_le64 (to_le64 w) = w"
  using unat_lt2p [of w] by (simp add: from_le64_def to_le64_def nat_le_le_nat)

lemma to_from_le32: "length bs = 4 \<Longrightarrow> to_le32 (from_le32 bs) = bs"
  using nat_le_bound [of bs] le_nat_nat_le [of bs]
  by (simp add: from_le32_def to_le32_def unat_of_nat)

lemma to_from_le64: "length bs = 8 \<Longrightarrow> to_le64 (from_le64 bs) = bs"
  using nat_le_bound [of bs] le_nat_nat_le [of bs]
  by (simp add: from_le64_def to_le64_def unat_of_nat)

lemma to_le32_inject [simp]: "to_le32 v = to_le32 w \<longleftrightarrow> v = w"
  by (metis from_to_le32)

lemma to_le64_inject [simp]: "to_le64 v = to_le64 w \<longleftrightarrow> v = w"
  by (metis from_to_le64)

section \<open>Fixed-layout codecs\<close>

text \<open>
  The contract that the on-disk headers share: the encoder writes exactly \<open>width\<close> bytes and
  the decoder inverts it. Clients use only these laws.
\<close>

locale fixed_codec =
  fixes enc :: "'a \<Rightarrow> bytes"
    and dec :: "bytes \<Rightarrow> 'e + 'a"
    and width :: nat
  assumes enc_length: "length (enc x) = width"
    and dec_enc: "dec (enc x) = Inr x"
begin

lemma enc_inject: "enc x = enc y \<longleftrightarrow> x = y"
  by (metis dec_enc sum.inject(2))

text \<open>A fixed-width code is prefix free: two encodings followed by anything agree at the front.\<close>

lemma enc_append_inject: "enc x @ xs = enc y @ ys \<longleftrightarrow> x = y \<and> xs = ys"
  by (metis enc_inject append_eq_append_conv enc_length)

lemma dec_prefix: "dec (take width (enc x @ rest)) = Inr x"
  by (simp add: enc_length dec_enc)

end

end
