(* ===== verification/Crc.thy ===== *)
theory Crc
  imports Prelude
begin

text \<open>
  CRC32C of \<open>crates/kronika-format/src/crc.rs\<close>. The checksum itself is computed by the
  third-party \<open>crc\<close> crate, so it is a parameter of the model: a record of the four operations
  the code calls (\<open>digest\<close>, \<open>update\<close>, \<open>finalize\<close> and the one-shot
  \<open>checksum\<close>). What the code relies on is their documented relation, \<open>crc_laws\<close>:
  a digest fed in pieces is the checksum of the concatenation. The Castagnoli CRC the code
  selects (\<open>CRC_32_ISCSI\<close>) satisfies it and serves as the instance in witnesses.
\<close>

section \<open>The checksum crate as a parameter\<close>

record 'd crc_alg =
  crc_digest :: 'd
  crc_update :: "'d \<Rightarrow> bytes \<Rightarrow> 'd"
  crc_finalize :: "'d \<Rightarrow> u32"
  crc_checksum :: "bytes \<Rightarrow> u32"

definition crc_laws :: "'d crc_alg \<Rightarrow> bool" where
  "crc_laws A \<longleftrightarrow>
     (\<forall>d xs ys. crc_update A d (xs @ ys) = crc_update A (crc_update A d xs) ys) \<and>
     (\<forall>d. crc_update A d [] = d) \<and>
     (\<forall>xs. crc_checksum A xs = crc_finalize A (crc_update A (crc_digest A) xs))"

locale digest_provider =
  fixes new_digest :: 'd
    and update :: "'d \<Rightarrow> bytes \<Rightarrow> 'd"
    and finalize :: "'d \<Rightarrow> u32"
    and checksum :: "bytes \<Rightarrow> u32"
  assumes update_append: "update d (xs @ ys) = update (update d xs) ys"
    and update_Nil: "update d [] = d"
    and checksum_eq: "checksum xs = finalize (update new_digest xs)"
begin

lemma update_concat: "foldl update d chunks = update d (concat chunks)"
  by (induction chunks arbitrary: d) (simp_all add: update_append update_Nil)

lemma finalize_chunks: "finalize (foldl update new_digest chunks) = checksum (concat chunks)"
  by (simp add: update_concat checksum_eq)

end

lemma digest_provider_of_laws:
  "crc_laws A \<Longrightarrow>
     digest_provider (crc_digest A) (crc_update A) (crc_finalize A) (crc_checksum A)"
  by unfold_locales (simp_all add: crc_laws_def)

section \<open>The code's wrappers\<close>

record 'd crc32c_state =
  digest :: 'd

definition Crc32c_new :: "'d crc_alg \<Rightarrow> 'd crc32c_state" where
  "Crc32c_new A = \<lparr>digest = crc_digest A\<rparr>"

definition Crc32c_update :: "'d crc_alg \<Rightarrow> 'd crc32c_state \<Rightarrow> bytes \<Rightarrow> 'd crc32c_state" where
  "Crc32c_update A s bs = s\<lparr>digest := crc_update A (digest s) bs\<rparr>"

definition Crc32c_finalize :: "'d crc_alg \<Rightarrow> 'd crc32c_state \<Rightarrow> u32" where
  "Crc32c_finalize A s = crc_finalize A (digest s)"

definition crc32c :: "'d crc_alg \<Rightarrow> bytes \<Rightarrow> u32" where
  "crc32c A bs = crc_checksum A bs"

text \<open>
  \<open>&bytes[zero_at + 4..]\<close> and \<open>&bytes[..zero_at]\<close> panic out of range; both callers pass
  a field inside the block.
\<close>

definition crc32c_with_zeroed_field :: "'d crc_alg \<Rightarrow> bytes \<Rightarrow> nat \<Rightarrow> u32" where
  "crc32c_with_zeroed_field A bs zero_at =
     (let d = crc_digest A;
          d = crc_update A d (take zero_at bs);
          d = crc_update A d (replicate 4 0);
          d = crc_update A d (drop (zero_at + 4) bs)
      in crc_finalize A d)"

lemma Crc32c_foldl:
  "digest (foldl (Crc32c_update A) s chunks) = foldl (crc_update A) (digest s) chunks"
  by (induction chunks arbitrary: s) (simp_all add: Crc32c_update_def)

text \<open>The incremental interface computes the one-shot checksum of all the chunks.\<close>

lemma Crc32c_chunks:
  assumes "crc_laws A"
  shows "Crc32c_finalize A (foldl (Crc32c_update A) (Crc32c_new A) chunks) = crc32c A (concat chunks)"
  using digest_provider.finalize_chunks [OF digest_provider_of_laws [OF assms], of chunks]
  by (simp add: Crc32c_finalize_def Crc32c_foldl Crc32c_new_def crc32c_def)

lemma crc32c_with_zeroed_field_eq:
  assumes "crc_laws A"
  shows "crc32c_with_zeroed_field A bs z =
    crc32c A (take z bs @ replicate 4 0 @ drop (z + 4) bs)"
  using digest_provider.finalize_chunks [OF digest_provider_of_laws [OF assms],
      of "[take z bs, replicate 4 0, drop (z + 4) bs]"]
  by (simp add: crc32c_with_zeroed_field_def crc32c_def Let_def)

section \<open>The algorithm the code selects\<close>

text \<open>
  CRC-32/ISCSI, as catalogued: reflected polynomial \<open>0x82F63B78\<close>, initial value and final
  xor \<open>0xFFFFFFFF\<close>. It is used to instantiate the parameter, never by the model itself.
\<close>

definition iscsi_bit :: "u32 \<Rightarrow> u32" where
  "iscsi_bit c = (if bit c 0 then drop_bit 1 c XOR 0x82F63B78 else drop_bit 1 c)"

definition iscsi_byte :: "u32 \<Rightarrow> u8 \<Rightarrow> u32" where
  "iscsi_byte c b =
     iscsi_bit (iscsi_bit (iscsi_bit (iscsi_bit (iscsi_bit (iscsi_bit (iscsi_bit (iscsi_bit
       (c XOR ucast b))))))))"

definition crc_iscsi :: "u32 crc_alg" where
  "crc_iscsi =
     \<lparr>crc_digest = 0xFFFFFFFF,
      crc_update = foldl iscsi_byte,
      crc_finalize = (\<lambda>d. d XOR 0xFFFFFFFF),
      crc_checksum = (\<lambda>bs. foldl iscsi_byte 0xFFFFFFFF bs XOR 0xFFFFFFFF)\<rparr>"

lemma crc_iscsi_laws [simp]: "crc_laws crc_iscsi"
  by (simp add: crc_laws_def crc_iscsi_def)

interpretation iscsi: digest_provider "crc_digest crc_iscsi" "crc_update crc_iscsi"
  "crc_finalize crc_iscsi" "crc_checksum crc_iscsi"
  by (rule digest_provider_of_laws) simp

text \<open>
  A cheap checksum with the same laws, for witnesses that evaluate whole files in the kernel.
\<close>

definition crc_sum :: "u32 crc_alg" where
  "crc_sum =
     \<lparr>crc_digest = 7,
      crc_update = foldl (\<lambda>d b. d + ucast b),
      crc_finalize = (\<lambda>d. d),
      crc_checksum = foldl (\<lambda>d b. d + ucast b) 7\<rparr>"

lemma crc_sum_laws [simp]: "crc_laws crc_sum"
  by (simp add: crc_laws_def crc_sum_def)

text \<open>The check value of the catalogue: the CRC of the nine ASCII digits.\<close>

lemma crc_iscsi_check_value:
  "crc32c crc_iscsi [49, 50, 51, 52, 53, 54, 55, 56, 57] = 0xE3069283"
  by (simp add: crc32c_def crc_iscsi_def iscsi_byte_def iscsi_bit_def)

end
