(* ===== verification/Catalog.thy ===== *)
theory Catalog
  imports Crc
begin

text \<open>
  The end catalog and tail index of a ZMS container
  (\<open>crates/kronika-format/src/catalog.rs\<close>, \<open>catalog/decode.rs\<close>): the fixed-size
  entries, the metadata block with its own checksum inside the checksummed range, the
  eight-byte tail index, their encoders and decoders, and the round trip in both directions.
  The canonical section order is in \<open>Catalog_Layout\<close>.
\<close>

section \<open>Constants and data\<close>

definition MAGIC :: bytes where "MAGIC = [0x5A, 0x4D, 0x53, 0x31]"
definition FORMAT_VERSION :: u32 where "FORMAT_VERSION = 1"

abbreviation (input) ENTRY_LEN :: nat where "ENTRY_LEN \<equiv> 32"
abbreviation (input) META_LEN :: nat where "META_LEN \<equiv> 32"
abbreviation (input) TAIL_INDEX_LEN :: nat where "TAIL_INDEX_LEN \<equiv> 8"
abbreviation (input) META_CRC_OFFSET :: nat where "META_CRC_OFFSET \<equiv> 24"

record entry =
  e_type_id :: u32
  e_flags :: u32
  e_offset :: u64
  e_len :: u64
  e_rows :: u32
  e_crc32c :: u32

record catalog =
  entries :: "entry list"
  min_ts :: i64
  max_ts :: i64
  format_version :: u32
  window_count :: u32

text \<open>The borrowed view keeps the encoded entries instead of a decoded list.\<close>

record catalog_view =
  v_entries :: bytes
  v_min_ts :: i64
  v_max_ts :: i64
  v_entry_count :: u32
  v_format_version :: u32
  v_window_count :: u32

record tail_index =
  catalog_len :: u32

datatype decode_error =
    BadTailMagic bytes
  | BadCatalogLen usize
  | EntryCountMismatch (stored_count: u32) (derived_count: u32)
  | BadCrc (stored_crc: u32) (computed_crc: u32)

datatype io_error = InvalidInput | InvalidData | UnexpectedEof | OsError nat

section \<open>Tail index\<close>

definition TailIndex_encode :: "tail_index \<Rightarrow> bytes" where
  [codec_defs]: "TailIndex_encode t = to_le32 (catalog_len t) @ MAGIC"

text \<open>The Rust argument is an array of exactly eight bytes.\<close>

definition TailIndex_decode :: "bytes \<Rightarrow> decode_error + tail_index" where
  "TailIndex_decode bs =
     (let magic = slice_of 4 4 bs in
      if magic \<noteq> MAGIC then Err (BadTailMagic magic)
      else Ok \<lparr>catalog_len = from_le32 (slice_of 0 4 bs)\<rparr>)"

lemma length_MAGIC [simp]: "length MAGIC = 4"
  by (simp add: MAGIC_def)

interpretation tail: fixed_codec TailIndex_encode TailIndex_decode TAIL_INDEX_LEN
  by unfold_locales (simp_all add: TailIndex_encode_def TailIndex_decode_def slice_of_def)

lemma TailIndex_decode_encode:
  assumes "length bs = 8" and "TailIndex_decode bs = Ok t"
  shows "TailIndex_encode t = bs"
proof -
  from assms have "drop 4 bs = MAGIC" and "t = \<lparr>catalog_len = from_le32 (take 4 bs)\<rparr>"
    by (auto simp: TailIndex_decode_def slice_of_def Let_def split: if_splits)
  then have "TailIndex_encode t = take 4 bs @ drop 4 bs"
    using assms(1) by (simp add: TailIndex_encode_def to_from_le32)
  then show ?thesis by simp
qed

section \<open>Catalog encoding\<close>

definition encoded_len :: "catalog \<Rightarrow> usize" where
  "encoded_len c = length (entries c) * ENTRY_LEN + META_LEN"

text \<open>The 32-byte record the loop of \<open>write_encoded\<close> fills for one entry.\<close>

definition entry_bytes :: "entry \<Rightarrow> bytes" where
  [codec_defs]: "entry_bytes e =
     to_le32 (e_type_id e) @ to_le32 (e_flags e) @ to_le64 (e_offset e) @ to_le64 (e_len e) @
     to_le32 (e_rows e) @ to_le32 (e_crc32c e)"

fun write_entries ::
  "'d crc_alg \<Rightarrow> 'd crc32c_state \<Rightarrow> bytes \<Rightarrow> entry list \<Rightarrow> 'd crc32c_state \<times> bytes" where
  "write_entries A checksum out [] = (checksum, out)"
| "write_entries A checksum out (e # es) =
     write_entries A (Crc32c_update A checksum (entry_bytes e)) (out @ entry_bytes e) es"

text \<open>The metadata block; the checksum field holds \<open>crc\<close> (zero while it is computed).\<close>

definition meta_bytes :: "catalog \<Rightarrow> u32 \<Rightarrow> u32 \<Rightarrow> bytes" where
  [codec_defs]: "meta_bytes c entry_count crc =
     to_le64 (min_ts c) @ to_le64 (max_ts c) @ to_le32 entry_count @ to_le32 (format_version c) @
     to_le32 crc @ to_le32 (window_count c)"

text \<open>The result is what is appended to the writer, here a \<open>Vec\<close>, which cannot fail.\<close>

definition Catalog_write_encoded :: "'d crc_alg \<Rightarrow> catalog \<Rightarrow> io_error + bytes" where
  "Catalog_write_encoded A c =
     and_then (ok_or (u32_try_from (encoded_len c)) InvalidInput) (\<lambda>len.
       let (checksum, out) = write_entries A (Crc32c_new A) [] (entries c) in
       and_then (ok_or (u32_try_from (length (entries c))) InvalidInput) (\<lambda>entry_count.
         let checksum = Crc32c_update A checksum (meta_bytes c entry_count 0);
             meta = meta_bytes c entry_count (Crc32c_finalize A checksum)
         in Ok (out @ meta @ TailIndex_encode \<lparr>catalog_len = len\<rparr>)))"

text \<open>\<open>encode\<close> panics (\<open>None\<close>) when the block does not fit.\<close>

definition Catalog_encode :: "'d crc_alg \<Rightarrow> catalog \<Rightarrow> bytes option" where
  "Catalog_encode A c =
     (case Catalog_write_encoded A c of Inl _ \<Rightarrow> None | Inr bs \<Rightarrow> Some bs)"

section \<open>Catalog decoding\<close>

definition u32_at :: "bytes \<Rightarrow> nat \<Rightarrow> u32" where
  [codec_defs]: "u32_at bs at = from_le32 (slice_of at 4 bs)"

definition u64_at :: "bytes \<Rightarrow> nat \<Rightarrow> u64" where
  [codec_defs]: "u64_at bs at = from_le64 (slice_of at 8 bs)"

definition i64_at :: "bytes \<Rightarrow> nat \<Rightarrow> i64" where
  [codec_defs]: "i64_at bs at = from_le64 (slice_of at 8 bs)"

definition decode_entry :: "bytes \<Rightarrow> entry" where
  "decode_entry bs =
     \<lparr>e_type_id = u32_at bs 0, e_flags = u32_at bs 4, e_offset = u64_at bs 8,
      e_len = u64_at bs 16, e_rows = u32_at bs 24, e_crc32c = u32_at bs 28\<rparr>"

text \<open>\<open>chunks_exact(n)\<close>: consecutive chunks of \<open>n\<close>, a shorter rest is left out.\<close>

function chunks_exact :: "nat \<Rightarrow> 'a list \<Rightarrow> 'a list list" where
  "chunks_exact n xs =
     (if 0 < n \<and> n \<le> length xs then take n xs # chunks_exact n (drop n xs) else [])"
  by pat_completeness auto
termination by (relation "measure (length \<circ> snd)") auto

declare chunks_exact.simps [simp del]

definition CatalogView_entries :: "catalog_view \<Rightarrow> entry list" where
  "CatalogView_entries v = map decode_entry (chunks_exact ENTRY_LEN (v_entries v))"

definition Catalog_view_of :: "'d crc_alg \<Rightarrow> bytes \<Rightarrow> decode_error + catalog_view" where
  "Catalog_view_of A bs =
     (if length bs < META_LEN \<or> (length bs - META_LEN) mod ENTRY_LEN \<noteq> 0
      then Err (BadCatalogLen (length bs))
      else and_then
        (ok_or (u32_try_from ((length bs - META_LEN) div ENTRY_LEN)) (BadCatalogLen (length bs)))
        (\<lambda>derived.
          let meta = drop (length bs - META_LEN) bs;
              stored_count = u32_at meta 16
          in if stored_count \<noteq> derived then Err (EntryCountMismatch stored_count derived)
             else
               let stored_crc = u32_at meta META_CRC_OFFSET;
                   crc_at = length bs - META_LEN + META_CRC_OFFSET;
                   computed = crc32c_with_zeroed_field A bs crc_at
               in if stored_crc \<noteq> computed then Err (BadCrc stored_crc computed)
                  else Ok \<lparr>v_entries = take (length bs - META_LEN) bs,
                           v_min_ts = i64_at meta 0, v_max_ts = i64_at meta 8,
                           v_entry_count = stored_count, v_format_version = u32_at meta 20,
                           v_window_count = u32_at meta 28\<rparr>))"

definition Catalog_decode :: "'d crc_alg \<Rightarrow> bytes \<Rightarrow> decode_error + catalog" where
  "Catalog_decode A bs =
     and_then (Catalog_view_of A bs) (\<lambda>v.
       Ok \<lparr>entries = CatalogView_entries v, min_ts = v_min_ts v, max_ts = v_max_ts v,
           format_version = v_format_version v, window_count = v_window_count v\<rparr>)"

section \<open>Round trips\<close>

lemma length_entry_bytes [simp]: "length (entry_bytes e) = 32"
  by (simp add: entry_bytes_def)

lemma length_meta_bytes [simp]: "length (meta_bytes c n crc) = 32"
  by (simp add: meta_bytes_def)

lemma decode_entry_bytes [simp]: "decode_entry (entry_bytes e) = e"
  by (simp add: decode_entry_def entry_bytes_def u32_at_def u64_at_def slice_of_def)

text \<open>A list is the concatenation of its consecutive slices.\<close>

lemma slice_of_append: "slice_of a m xs @ slice_of (a + m) n xs = slice_of a (m + n) xs"
  by (simp add: slice_of_def take_add add.commute)

lemma slice_of_appends:
  "b = a + m \<Longrightarrow> slice_of a m xs @ slice_of b n xs = slice_of a (m + n) xs"
  "b = a + m \<Longrightarrow> slice_of a m xs @ slice_of b n xs @ ys = slice_of a (m + n) xs @ ys"
  by (simp_all add: slice_of_append flip: append_assoc)

lemma entry_bytes_decode:
  assumes "length bs = 32"
  shows "entry_bytes (decode_entry bs) = bs"
proof -
  have "entry_bytes (decode_entry bs) = slice_of 0 32 bs"
    using assms by (simp add: entry_bytes_def decode_entry_def u32_at_def u64_at_def
        to_from_le32 to_from_le64 slice_of_appends)
  then show ?thesis using assms by (simp add: slice_of_def)
qed

lemma chunks_exact_short: "length xs < n \<Longrightarrow> chunks_exact n xs = []"
  by (simp add: chunks_exact.simps [of n xs])

lemma chunks_exact_step:
  "0 < n \<Longrightarrow> n \<le> length xs \<Longrightarrow> chunks_exact n xs = take n xs # chunks_exact n (drop n xs)"
  by (simp add: chunks_exact.simps [of n xs])

lemma chunks_exact_concat:
  assumes "0 < n" and "\<forall>x \<in> set xss. length x = n"
  shows "chunks_exact n (concat xss) = xss"
  using assms(2)
  by (induction xss) (simp_all add: assms(1) chunks_exact_short chunks_exact_step)

lemma concat_chunks_exact:
  assumes "0 < n" and "length xs mod n = 0"
  shows "concat (chunks_exact n xs) = xs"
  using assms
proof (induction n xs rule: chunks_exact.induct)
  case (1 n xs)
  show ?case
  proof (cases "n \<le> length xs")
    case True
    have "(length xs - n) mod n = 0"
      using True "1.prems" by (simp add: le_mod_geq)
    with True 1 show ?thesis by (simp add: chunks_exact_step)
  next
    case False
    with "1.prems" show ?thesis by (simp add: chunks_exact_short)
  qed
qed

lemma chunks_exact_lengths:
  assumes "0 < n"
  shows "length (chunks_exact n xs) = length xs div n \<and>
    (\<forall>c \<in> set (chunks_exact n xs). length c = n)"
  using assms
proof (induction n xs rule: chunks_exact.induct)
  case (1 n xs)
  show ?case
  proof (cases "n \<le> length xs")
    case True
    let ?cs = "chunks_exact n (drop n xs)"
    have step: "chunks_exact n xs = take n xs # ?cs"
      using "1.prems" True by (rule chunks_exact_step)
    have cs: "length ?cs = length (drop n xs) div n" "\<forall>c \<in> set ?cs. length c = n"
      using "1.IH" "1.prems" True by blast+
    have len: "length xs div n = Suc (length (drop n xs) div n)"
      unfolding length_drop by (rule le_div_geq [OF "1.prems" True])
    have "length (chunks_exact n xs) = length xs div n"
      unfolding step list.size cs(1) using len by linarith
    moreover have "length (take n xs) = n" using True by simp
    then have "\<forall>c \<in> set (chunks_exact n xs). length c = n"
      unfolding step list.set using cs(2) by blast
    ultimately show ?thesis ..
  next
    case False
    with "1.prems" show ?thesis by (simp add: chunks_exact_short)
  qed
qed

lemma write_entries_eq:
  "write_entries A cs out es =
     (foldl (Crc32c_update A) cs (map entry_bytes es), out @ concat (map entry_bytes es))"
  by (induction es arbitrary: cs out) simp_all

lemma length_concat_entries [simp]: "length (concat (map entry_bytes es)) = 32 * length es"
  by (induction es) simp_all

text \<open>The checksum over entries and metadata, with its own field zeroed.\<close>

definition catalog_crc :: "'d crc_alg \<Rightarrow> catalog \<Rightarrow> u32" where
  "catalog_crc A c =
     crc32c A (concat (map entry_bytes (entries c)) @ meta_bytes c (of_nat (length (entries c))) 0)"

definition catalog_block :: "'d crc_alg \<Rightarrow> catalog \<Rightarrow> bytes" where
  "catalog_block A c =
     concat (map entry_bytes (entries c)) @
     meta_bytes c (of_nat (length (entries c))) (catalog_crc A c)"

lemma length_catalog_block [simp]: "length (catalog_block A c) = encoded_len c"
  by (simp add: catalog_block_def encoded_len_def)

text \<open>What \<open>encode\<close> writes: the block and its tail index, or nothing when it does not fit.\<close>

lemma Catalog_write_encoded_eq:
  assumes laws: "crc_laws A"
  shows "Catalog_write_encoded A c =
    (if encoded_len c < 2 ^ 32
     then Ok (catalog_block A c @ TailIndex_encode \<lparr>catalog_len = of_nat (encoded_len c)\<rparr>)
     else Err InvalidInput)"
proof (cases "encoded_len c < 2 ^ 32")
  case True
  then have n: "length (entries c) < 2 ^ 32" by (simp add: encoded_len_def)
  let ?ms = "map entry_bytes (entries c) @ [meta_bytes c (of_nat (length (entries c))) 0]"
  have "Crc32c_finalize A (foldl (Crc32c_update A) (Crc32c_new A) ?ms) = crc32c A (concat ?ms)"
    using laws by (rule Crc32c_chunks)
  with True n show ?thesis
    by (simp add: Catalog_write_encoded_def write_entries_eq u32_try_from_def catalog_block_def
        catalog_crc_def)
next
  case False
  then show ?thesis by (simp add: Catalog_write_encoded_def u32_try_from_def)
qed

lemma Catalog_encode_eq:
  assumes "crc_laws A"
  shows "Catalog_encode A c =
    (if encoded_len c < 2 ^ 32
     then Some (catalog_block A c @ TailIndex_encode \<lparr>catalog_len = of_nat (encoded_len c)\<rparr>)
     else None)"
  using assms by (simp add: Catalog_encode_def Catalog_write_encoded_eq)

lemma meta_bytes_fields:
  "u32_at (meta_bytes c n crc) 16 = n" "u32_at (meta_bytes c n crc) 24 = crc"
  "i64_at (meta_bytes c n crc) 0 = min_ts c" "i64_at (meta_bytes c n crc) 8 = max_ts c"
  "u32_at (meta_bytes c n crc) 20 = format_version c"
  "u32_at (meta_bytes c n crc) 28 = window_count c"
  by (simp_all add: meta_bytes_def u32_at_def i64_at_def slice_of_def)

lemma meta_bytes_zeroed:
  "take 24 (meta_bytes c n crc) @ replicate 4 0 @ drop 28 (meta_bytes c n crc) = meta_bytes c n 0"
proof -
  have "to_le32 0 = replicate 4 (0 :: u8)" by code_simp
  then show ?thesis by (simp add: meta_bytes_def)
qed

lemma decode_catalog_block:
  assumes laws: "crc_laws A" and fits: "length (entries c) < 2 ^ 32"
  shows "Catalog_decode A (catalog_block A c) = Ok c"
proof -
  let ?es = "concat (map entry_bytes (entries c))"
  let ?n = "of_nat (length (entries c)) :: u32"
  let ?m = "meta_bytes c ?n (catalog_crc A c)"
  have blk: "catalog_block A c = ?es @ ?m" by (simp add: catalog_block_def)
  have crc: "crc32c_with_zeroed_field A (?es @ ?m) (32 * length (entries c) + 24) = catalog_crc A c"
    using laws meta_bytes_zeroed [of c ?n "catalog_crc A c"]
    by (simp add: crc32c_with_zeroed_field_eq catalog_crc_def)
  have ents: "map decode_entry (chunks_exact 32 ?es) = entries c"
    by (simp add: chunks_exact_concat comp_def)
  show ?thesis
    using fits crc ents
    by (simp add: Catalog_decode_def Catalog_view_of_def blk u32_try_from_def meta_bytes_fields
        CatalogView_entries_def Let_def)
qed

text \<open>Conversely, a block that decodes is the encoding of what it decodes to.\<close>

lemma meta_bytes_of_fields:
  assumes "length m = 32"
  shows "to_le64 (i64_at m 0) @ to_le64 (i64_at m 8) @ to_le32 (u32_at m 16) @
    to_le32 (u32_at m 20) @ to_le32 (u32_at m 24) @ to_le32 (u32_at m 28) = m"
proof -
  have "to_le64 (i64_at m 0) @ to_le64 (i64_at m 8) @ to_le32 (u32_at m 16) @
    to_le32 (u32_at m 20) @ to_le32 (u32_at m 24) @ to_le32 (u32_at m 28) = slice_of 0 32 m"
    using assms by (simp add: u32_at_def i64_at_def to_from_le32 to_from_le64 slice_of_appends)
  then show ?thesis using assms by (simp add: slice_of_def)
qed

lemma Catalog_view_of_Ok:
  assumes "Catalog_view_of A bs = Ok v"
  obtains body m n where "bs = body @ m" and "length m = 32" and "length body = 32 * n"
    and "n < 2 ^ 32" and "u32_at m 16 = of_nat n"
    and "u32_at m 24 = crc32c_with_zeroed_field A bs (32 * n + 24)"
    and "v = \<lparr>v_entries = body, v_min_ts = i64_at m 0, v_max_ts = i64_at m 8,
      v_entry_count = of_nat n, v_format_version = u32_at m 20, v_window_count = u32_at m 28\<rparr>"
proof -
  let ?k = "length bs - 32"
  let ?m = "drop ?k bs"
  let ?n = "?k div 32"
  from assms have long: "\<not> length bs < 32" and md: "?k mod 32 = 0"
    by (auto simp: Catalog_view_of_def split: if_splits)
  then have k: "?k = 32 * ?n" by (simp add: minus_mod_eq_mult_div [symmetric])
  from assms long md obtain d where d: "u32_try_from ?n = Some d"
    by (cases "u32_try_from ?n") (auto simp: Catalog_view_of_def)
  then have dn: "d = of_nat ?n" and nlt: "?n < 2 ^ 32"
    by (auto simp: u32_try_from_def split: if_splits)
  from assms long md d have cnt: "u32_at ?m 16 = d"
    and crc: "u32_at ?m 24 = crc32c_with_zeroed_field A bs (?k + 24)"
    and v: "v = \<lparr>v_entries = take ?k bs, v_min_ts = i64_at ?m 0, v_max_ts = i64_at ?m 8,
      v_entry_count = d, v_format_version = u32_at ?m 20, v_window_count = u32_at ?m 28\<rparr>"
    by (auto simp: Catalog_view_of_def Let_def split: if_splits)
  have "bs = take ?k bs @ ?m" by simp
  moreover from long have "length ?m = 32" by simp
  moreover have "length (take ?k bs) = 32 * ?n" using k by simp
  ultimately show thesis
    using that nlt cnt crc v dn k by metis
qed

lemma decode_catalog_sound:
  assumes laws: "crc_laws A" and ok: "Catalog_decode A bs = Ok c"
  shows "bs = catalog_block A c" and "length (entries c) < 2 ^ 32"
proof -
  from ok obtain v where v: "Catalog_view_of A bs = Ok v"
    and c: "c = \<lparr>entries = CatalogView_entries v, min_ts = v_min_ts v, max_ts = v_max_ts v,
      format_version = v_format_version v, window_count = v_window_count v\<rparr>"
    by (auto simp: Catalog_decode_def and_then_Ok_iff)
  from v obtain body m n where bs: "bs = body @ m" and m: "length m = 32"
    and body: "length body = 32 * n" and n: "n < 2 ^ 32" and cnt: "u32_at m 16 = of_nat n"
    and crc: "u32_at m 24 = crc32c_with_zeroed_field A bs (32 * n + 24)"
    and veq: "v = \<lparr>v_entries = body, v_min_ts = i64_at m 0, v_max_ts = i64_at m 8,
      v_entry_count = of_nat n, v_format_version = u32_at m 20, v_window_count = u32_at m 28\<rparr>"
    by (rule Catalog_view_of_Ok)
  have chunks: "length (chunks_exact 32 body) = n" "\<forall>x \<in> set (chunks_exact 32 body). length x = 32"
    using chunks_exact_lengths [of 32 body] body by simp_all
  then have enc: "map entry_bytes (entries c) = chunks_exact 32 body"
    by (simp add: c veq CatalogView_entries_def map_idI entry_bytes_decode)
  then have es: "concat (map entry_bytes (entries c)) = body"
    using body by (simp add: concat_chunks_exact)
  have len: "length (entries c) = n"
    using chunks(1) by (simp add: c veq CatalogView_entries_def)
  have meta: "meta_bytes c (of_nat n) (u32_at m 24) = m"
    using meta_bytes_of_fields [OF m] by (simp add: meta_bytes_def c veq cnt)
  have "take (32 * n + 24) bs @ replicate 4 0 @ drop (32 * n + 24 + 4) bs
      = body @ take 24 m @ replicate 4 0 @ drop 28 m"
    by (simp add: bs body)
  also have "\<dots> = body @ meta_bytes c (of_nat n) 0"
    using meta_bytes_zeroed [of c "of_nat n" "u32_at m 24"] by (simp add: meta)
  finally have "u32_at m 24 = catalog_crc A c"
    using laws crc by (simp add: crc32c_with_zeroed_field_eq catalog_crc_def es len)
  then show "bs = catalog_block A c"
    using meta by (simp add: catalog_block_def es len bs)
  from n len show "length (entries c) < 2 ^ 32" by simp
qed

text \<open>
  For every catalog whose block fits the tail index, what \<open>encode\<close> writes decodes back:
  the tail index names the block length, the block decodes to the same entries, timestamps,
  version and window count, and no other block decodes to this catalog.
\<close>

lemma catalog_roundtrip:
  assumes "crc_laws A" and "encoded_len c < 2 ^ 32"
  shows "\<exists>block t. Catalog_encode A c = Some (block @ TailIndex_encode t) \<and>
      unat (catalog_len t) = length block \<and>
      Catalog_decode A block = Ok c \<and>
      TailIndex_decode (TailIndex_encode t) = Ok t \<and>
      (\<forall>bs. Catalog_decode A bs = Ok c \<longrightarrow> bs = block)"
proof -
  let ?b = "catalog_block A c"
  let ?t = "\<lparr>catalog_len = of_nat (encoded_len c)\<rparr>"
  from assms(2) have "length (entries c) < 2 ^ 32" by (simp add: encoded_len_def)
  then have "Catalog_decode A ?b = Ok c" by (rule decode_catalog_block [OF assms(1)])
  moreover have "Catalog_encode A c = Some (?b @ TailIndex_encode ?t)"
    using assms by (simp add: Catalog_encode_eq)
  moreover have "unat (catalog_len ?t) = length ?b"
    using assms(2) by (simp add: unat_of_nat)
  ultimately show ?thesis
    using decode_catalog_sound(1) [OF assms(1)] tail.dec_enc by blast
qed

definition sample_catalog :: catalog where
  "sample_catalog =
     \<lparr>entries = [\<lparr>e_type_id = 1, e_flags = 0, e_offset = 4, e_len = 9, e_rows = 2, e_crc32c = 77\<rparr>],
      min_ts = 5, max_ts = 6, format_version = 1, window_count = 1\<rparr>"

end
