(* ===== verification/Catalog_Layout.thy ===== *)
theory Catalog_Layout
  imports Catalog
begin

text \<open>
  The canonical physical section layout (\<open>crates/kronika-format/src/catalog/layout.rs\<close>):
  the section order, the validation loop, and its equivalence with a declarative
  specification (\<open>canonical_layout\<close>): data sections in ascending type order, then at
  most one strings and one blobs dictionary, bodies contiguous from the opening magic to the
  catalog.
\<close>

definition DICT_STRINGS_TYPE_ID :: u32 where "DICT_STRINGS_TYPE_ID = 3001001"
definition DICT_BLOBS_TYPE_ID :: u32 where "DICT_BLOBS_TYPE_ID = 3002001"

text \<open>\<open>MAX_JOURNAL_LEN as u64\<close>: one gibibyte.\<close>

definition MAX_JOURNAL_LEN :: nat where "MAX_JOURNAL_LEN = 1024 * 1024 * 1024"
definition MAX_PHYSICAL_SECTION_BYTES :: u64 where
  "MAX_PHYSICAL_SECTION_BYTES = of_nat MAX_JOURNAL_LEN"

section \<open>Section order\<close>

datatype section_order = Data u32 | Strings | Blobs

text \<open>The derived \<open>Ord\<close> of the enum: by variant, then by payload.\<close>

fun section_rank :: "section_order \<Rightarrow> nat \<times> nat" where
  "section_rank (Data t) = (0, unat t)"
| "section_rank Strings = (1, 0)"
| "section_rank Blobs = (2, 0)"

instantiation section_order :: linorder
begin

definition less_eq_section_order :: "section_order \<Rightarrow> section_order \<Rightarrow> bool" where
  "a \<le> b \<longleftrightarrow> fst (section_rank a) < fst (section_rank b) \<or>
     fst (section_rank a) = fst (section_rank b) \<and> snd (section_rank a) \<le> snd (section_rank b)"

definition less_section_order :: "section_order \<Rightarrow> section_order \<Rightarrow> bool" where
  "(a :: section_order) < b \<longleftrightarrow> a \<le> b \<and> \<not> b \<le> a"

instance
proof
  fix a b c :: section_order
  show "a < b \<longleftrightarrow> a \<le> b \<and> \<not> b \<le> a" by (rule less_section_order_def)
  show "a \<le> a" by (simp add: less_eq_section_order_def)
  show "a \<le> b \<Longrightarrow> b \<le> c \<Longrightarrow> a \<le> c" by (auto simp: less_eq_section_order_def)
  show "a \<le> b \<or> b \<le> a" by (auto simp: less_eq_section_order_def)
  show "a \<le> b \<Longrightarrow> b \<le> a \<Longrightarrow> a = b"
    by (cases a; cases b) (auto simp: less_eq_section_order_def word_unat_eq_iff)
qed

end

lemma section_order_less_simps [simp]:
  "Data s < Data t \<longleftrightarrow> s < t" "Data s < Strings" "Data s < Blobs" "Strings < Blobs"
  "\<not> Strings < Data s" "\<not> Blobs < Data s" "\<not> Blobs < Strings"
  by (auto simp: less_section_order_def less_eq_section_order_def word_less_nat_alt)

text \<open>The \<open>match entry.type_id\<close> of the loop.\<close>

definition section_order_of :: "u32 \<Rightarrow> section_order" where
  "section_order_of t =
     (if t = DICT_STRINGS_TYPE_ID then Strings
      else if t = DICT_BLOBS_TYPE_ID then Blobs
      else Data t)"

lemma section_order_of_inject: "section_order_of s = section_order_of t \<longleftrightarrow> s = t"
  by (auto simp: section_order_of_def)

section \<open>Validation\<close>

datatype catalog_layout_error = CatalogLayoutError (error_type_id: "u32 option") (reason: string)

abbreviation layout_entry :: "u32 \<Rightarrow> string \<Rightarrow> catalog_layout_error" where
  "layout_entry t r \<equiv> CatalogLayoutError (Some t) r"

abbreviation layout_container :: "string \<Rightarrow> catalog_layout_error" where
  "layout_container r \<equiv> CatalogLayoutError None r"

text \<open>The checks of one iteration that do not look at the preceding entry's order.\<close>

definition check_entry :: "u64 \<Rightarrow> entry \<Rightarrow> catalog_layout_error + unit" where
  "check_entry expected_offset e =
     (if e_flags e \<noteq> 0 then Err (layout_entry (e_type_id e) ''reserved flags are not zero'')
      else if e_rows e = 0
      then Err (layout_entry (e_type_id e) ''populated section has zero rows'')
      else if e_len e = 0 then Err (layout_entry (e_type_id e) ''section body is empty'')
      else if e_len e > MAX_PHYSICAL_SECTION_BYTES
      then Err (layout_entry (e_type_id e) ''body length is above the physical cap'')
      else if e_offset e \<noteq> expected_offset
      then Err (layout_entry (e_type_id e) ''body is not contiguous with the preceding section'')
      else Ok ())"

definition check_order :: "section_order option \<Rightarrow> entry \<Rightarrow> catalog_layout_error + section_order" where
  "check_order previous e =
     (let order = section_order_of (e_type_id e) in
      case previous of
        None \<Rightarrow> Ok order
      | Some previous_order \<Rightarrow>
          if order = previous_order
          then Err (layout_entry (e_type_id e) ''section type occurs more than once'')
          else if order < previous_order
          then Err (layout_entry (e_type_id e) ''section is out of canonical order'')
          else Ok order)"

fun layout_loop ::
  "u64 \<Rightarrow> section_order option \<Rightarrow> entry list \<Rightarrow> catalog_layout_error + u64" where
  "layout_loop expected_offset previous [] = Ok expected_offset"
| "layout_loop expected_offset previous (e # es) =
     and_then (check_entry expected_offset e) (\<lambda>_.
     and_then (check_order previous e) (\<lambda>order.
     and_then (ok_or (checked_add_word (e_offset e) (e_len e))
                 (layout_entry (e_type_id e) ''body range overflows the container''))
       (\<lambda>next_offset. layout_loop next_offset (Some order) es)))"

definition validate_catalog_layout :: "catalog \<Rightarrow> u64 \<Rightarrow> catalog_layout_error + unit" where
  "validate_catalog_layout c catalog_at =
     and_then (layout_loop (of_nat (length MAGIC)) None (entries c)) (\<lambda>expected_offset.
       if expected_offset \<noteq> catalog_at
       then Err (layout_container ''section bodies do not end at the catalog start'')
       else Ok ())"

section \<open>The canonical layout, declaratively\<close>

definition entry_ok :: "entry \<Rightarrow> bool" where
  "entry_ok e \<longleftrightarrow> e_flags e = 0 \<and> e_rows e \<noteq> 0 \<and> e_len e \<noteq> 0 \<and>
     e_len e \<le> MAX_PHYSICAL_SECTION_BYTES"

text \<open>Bodies follow each other from \<open>start\<close>; the result is where the last one ends.\<close>

fun contiguous :: "nat \<Rightarrow> entry list \<Rightarrow> nat \<Rightarrow> bool" where
  "contiguous start [] stop \<longleftrightarrow> start = stop"
| "contiguous start (e # es) stop \<longleftrightarrow>
     unat (e_offset e) = start \<and> contiguous (start + unat (e_len e)) es stop"

definition canonical_layout :: "entry list \<Rightarrow> nat \<Rightarrow> bool" where
  "canonical_layout es stop \<longleftrightarrow>
     (\<forall>e \<in> set es. entry_ok e) \<and>
     sorted_wrt (<) (map (\<lambda>e. section_order_of (e_type_id e)) es) \<and>
     contiguous (length MAGIC) es stop"

lemma check_entry_Ok [simp]:
  "check_entry off e = Ok u \<longleftrightarrow> entry_ok e \<and> e_offset e = off"
  by (auto simp: check_entry_def entry_ok_def)

lemma check_order_Ok [simp]:
  "check_order prev e = Ok k \<longleftrightarrow>
     k = section_order_of (e_type_id e) \<and> (\<forall>p. prev = Some p \<longrightarrow> p < k)"
  by (cases prev) (auto simp: check_order_def Let_def)

lemma contiguous_le: "contiguous a es b \<Longrightarrow> a \<le> b"
  by (induction es arbitrary: a) fastforce+

lemma layout_loop_Ok:
  "layout_loop off prev es = Ok off' \<longleftrightarrow>
     (\<forall>e \<in> set es. entry_ok e) \<and>
     sorted_wrt (<) (map (\<lambda>e. section_order_of (e_type_id e)) es) \<and>
     (\<forall>p. prev = Some p \<longrightarrow> (\<forall>e \<in> set es. p < section_order_of (e_type_id e))) \<and>
     contiguous (unat off) es (unat off')"
proof (induction es arbitrary: off prev)
  case Nil
  show ?case by (auto simp: word_unat_eq_iff)
next
  case (Cons e es)
  let ?k = "section_order_of (e_type_id e)"
  have step: "layout_loop off prev (e # es) = Ok off' \<longleftrightarrow>
      entry_ok e \<and> e_offset e = off \<and> (\<forall>p. prev = Some p \<longrightarrow> p < ?k) \<and>
      (\<exists>next. checked_add_word (e_offset e) (e_len e) = Some next \<and>
        layout_loop next (Some ?k) es = Ok off')"
    by (auto simp: and_then_Ok_iff)
  have add: "(\<exists>next. checked_add_word off (e_len e) = Some next \<and>
        contiguous (unat next) es (unat off')) \<longleftrightarrow>
      contiguous (unat off + unat (e_len e)) es (unat off')"
  proof
    assume "\<exists>next. checked_add_word off (e_len e) = Some next \<and>
        contiguous (unat next) es (unat off')"
    then show "contiguous (unat off + unat (e_len e)) es (unat off')"
      by (auto dest: checked_add_word_Some)
  next
    assume c: "contiguous (unat off + unat (e_len e)) es (unat off')"
    then have "unat off + unat (e_len e) \<le> unat off'" by (rule contiguous_le)
    then have "unat off + unat (e_len e) < 2 ^ 64" using unat_lt2p [of off'] by simp
    with c show "\<exists>next. checked_add_word off (e_len e) = Some next \<and>
        contiguous (unat next) es (unat off')"
      by (auto simp: checked_add_word_def unat_word_ariths)
  qed
  have eq: "e_offset e = off \<longleftrightarrow> unat (e_offset e) = unat off"
    by (simp add: word_unat_eq_iff)
  show ?case
  proof (cases "e_offset e = off")
    case True
    show ?thesis unfolding step Cons.IH True using add eq True
      by (auto dest: less_trans)
  next
    case False
    then show ?thesis unfolding step using eq by simp
  qed
qed

text \<open>
  C17: the validator accepts exactly the canonical layouts: zero flags, non-zero rows, bodies
  of one byte to one gibibyte, strictly ascending canonical order (so no type twice, the
  dictionaries last), and bodies that tile the space from the opening magic to the catalog.
\<close>

theorem validate_catalog_layout_iff:
  "validate_catalog_layout c catalog_at = Ok () \<longleftrightarrow>
     canonical_layout (entries c) (unat catalog_at)"
proof -
  have "validate_catalog_layout c catalog_at = Ok () \<longleftrightarrow>
      layout_loop (of_nat (length MAGIC)) None (entries c) = Ok catalog_at"
    by (auto simp: validate_catalog_layout_def and_then_Ok_iff)
  then show ?thesis
    by (simp add: layout_loop_Ok canonical_layout_def)
qed

section \<open>Consequences for readers\<close>

lemma contiguous_body:
  assumes "contiguous a es b" and "e \<in> set es"
  shows "a \<le> unat (e_offset e) \<and> unat (e_offset e) + unat (e_len e) \<le> b"
  using assms
proof (induction es arbitrary: a)
  case Nil
  then show ?case by simp
next
  case (Cons d ds)
  then show ?case using contiguous_le by fastforce
qed

lemma contiguous_disjoint:
  assumes "contiguous a es b" and "i < j" and "j < length es"
  shows "unat (e_offset (es ! i)) + unat (e_len (es ! i)) \<le> unat (e_offset (es ! j))"
  using assms
proof (induction es arbitrary: a i j)
  case Nil
  then show ?case by simp
next
  case (Cons d ds)
  show ?case
  proof (cases i)
    case 0
    from Cons.prems have "contiguous (a + unat (e_len d)) ds b" "ds ! (j - 1) \<in> set ds"
      by auto
    from contiguous_body [OF this] 0 Cons.prems show ?thesis
      by (simp add: nth_Cons')
  next
    case (Suc k)
    from Cons.IH [of "a + unat (e_len d)" k "j - 1"] Cons.prems Suc show ?thesis
      by (auto simp: nth_Cons')
  qed
qed

lemma contiguous_sum:
  "contiguous a es b \<Longrightarrow> b = a + (\<Sum>e \<leftarrow> es. unat (e_len e))"
  by (induction es arbitrary: a) fastforce+

text \<open>
  In an accepted catalog two different entries never share a type, and their bodies never
  overlap; every body lies between the magic and the catalog.
\<close>

lemma validated_sections_disjoint:
  assumes "validate_catalog_layout c catalog_at = Ok ()"
    and "i < j" and "j < length (entries c)"
  shows "e_type_id (entries c ! i) \<noteq> e_type_id (entries c ! j) \<and>
    4 \<le> unat (e_offset (entries c ! i)) \<and>
    unat (e_offset (entries c ! i)) + unat (e_len (entries c ! i))
      \<le> unat (e_offset (entries c ! j)) \<and>
    unat (e_offset (entries c ! j)) + unat (e_len (entries c ! j)) \<le> unat catalog_at"
proof -
  let ?es = "entries c"
  from assms(1) have can: "canonical_layout ?es (unat catalog_at)"
    by (simp add: validate_catalog_layout_iff)
  then have con: "contiguous 4 ?es (unat catalog_at)" by (simp add: canonical_layout_def)
  have "section_order_of (e_type_id (?es ! i)) < section_order_of (e_type_id (?es ! j))"
    using can assms(2,3) by (auto simp: canonical_layout_def sorted_wrt_iff_nth_less)
  then have "e_type_id (?es ! i) \<noteq> e_type_id (?es ! j)" by auto
  moreover from con assms(2,3) have "unat (e_offset (?es ! i)) + unat (e_len (?es ! i))
      \<le> unat (e_offset (?es ! j))"
    by (rule contiguous_disjoint)
  moreover from assms(2,3) have "?es ! i \<in> set ?es" "?es ! j \<in> set ?es" by simp_all
  ultimately show ?thesis using contiguous_body [OF con] by blast
qed

end
