(* ===== verification/Part_Frame.thy ===== *)
theory Part_Frame
  imports Catalog_Layout
begin

text \<open>
  Journal frames and the parts they carry
  (\<open>crates/kronika-format/src/parts.rs\<close> and \<open>parts/frame.rs\<close>): the 16-byte frame
  header, the assembly of section bodies into a self-contained part, and its validation.
\<close>

section \<open>Frame header\<close>

definition FRAME_MAGIC :: bytes where "FRAME_MAGIC = [0x5A, 0x4D, 0x53, 0x50]"
abbreviation (input) FRAME_HEADER_LEN :: nat where "FRAME_HEADER_LEN \<equiv> 16"

lemma length_FRAME_MAGIC [simp]: "length FRAME_MAGIC = 4"
  by (simp add: FRAME_MAGIC_def)

record frame_header =
  part_len :: u64

datatype frame_error = FrameBadMagic bytes | FrameBadCrc (f_stored: u32) (f_computed: u32)

definition FrameHeader_encode :: "'d crc_alg \<Rightarrow> frame_header \<Rightarrow> bytes" where
  "FrameHeader_encode A h =
     (let meta = FRAME_MAGIC @ to_le64 (part_len h)
      in meta @ to_le32 (crc32c A meta))"

text \<open>The prefix covered by the checksum, and the stored checksum.\<close>

definition split_header :: "bytes \<Rightarrow> bytes \<times> u32" where
  "split_header bs = (take 12 bs, from_le32 (drop 12 bs))"

definition FrameHeader_decode :: "'d crc_alg \<Rightarrow> bytes \<Rightarrow> frame_error + frame_header" where
  "FrameHeader_decode A bs =
     (let (meta, stored_crc) = split_header bs in
      if take 4 meta \<noteq> FRAME_MAGIC then Err (FrameBadMagic (take 4 meta))
      else let computed = crc32c A meta in
        if stored_crc \<noteq> computed then Err (FrameBadCrc stored_crc computed)
        else Ok \<lparr>part_len = from_le64 (slice_of 4 8 meta)\<rparr>)"

interpretation frame: fixed_codec "FrameHeader_encode A" "FrameHeader_decode A" FRAME_HEADER_LEN
  for A :: "'d crc_alg"
  by unfold_locales
    (simp_all add: FrameHeader_encode_def FrameHeader_decode_def split_header_def slice_of_def
      Let_def)

lemma FrameHeader_decode_encode:
  assumes "length bs = 16" and "FrameHeader_decode A bs = Ok h"
  shows "FrameHeader_encode A h = bs"
proof -
  from assms have m: "take 4 bs = FRAME_MAGIC" "part_len h = from_le64 (take 8 (drop 4 bs))"
    and crc: "from_le32 (drop 12 bs) = crc32c A (take 12 bs)"
    by (auto simp: FrameHeader_decode_def split_header_def slice_of_def Let_def drop_take
        split: if_splits)
  have "FRAME_MAGIC @ to_le64 (part_len h) = take 4 bs @ take 8 (drop 4 bs)"
    using assms(1) by (simp add: m to_from_le64)
  also have "\<dots> = take 12 bs" by (simp flip: take_add)
  finally have meta: "FRAME_MAGIC @ to_le64 (part_len h) = take 12 bs" .
  have "to_le32 (crc32c A (take 12 bs)) = drop 12 bs"
    using assms(1) by (simp add: to_from_le32 flip: crc)
  then show ?thesis by (simp add: FrameHeader_encode_def meta Let_def)
qed

section \<open>Part validation\<close>

datatype part_error =
    TooShort usize
  | PartBadMagic bytes
  | Tail decode_error
  | PartBadCatalogLen u32
  | CatalogErr decode_error
  | Layout catalog_layout_error
  | SectionOutOfBounds u32
  | SectionCrc (s_type_id: u32) (s_stored: u32) (s_computed: u32)

definition decode_and_bound :: "'d crc_alg \<Rightarrow> bytes \<Rightarrow> part_error + catalog" where
  "decode_and_bound A bs =
     (if length bs < length MAGIC + META_LEN + TAIL_INDEX_LEN then Err (TooShort (length bs))
      else if take 4 bs \<noteq> MAGIC then Err (PartBadMagic (take 4 bs))
      else and_then
        (map_err Tail (TailIndex_decode (drop (length bs - TAIL_INDEX_LEN) bs))) (\<lambda>tail.
          let body_end = length bs - TAIL_INDEX_LEN in
          case checked_sub_usize body_end (unat (catalog_len tail)) of
            None \<Rightarrow> Err (PartBadCatalogLen (catalog_len tail))
          | Some catalog_start \<Rightarrow>
              if catalog_start < length MAGIC then Err (PartBadCatalogLen (catalog_len tail))
              else and_then
                (map_err CatalogErr
                  (Catalog_decode A (slice_of catalog_start (body_end - catalog_start) bs)))
                (\<lambda>catalog. and_then
                  (map_err Layout (validate_catalog_layout catalog (of_nat catalog_start)))
                  (\<lambda>_. Ok catalog))))"

definition validate_part_catalog :: "'d crc_alg \<Rightarrow> bytes \<Rightarrow> part_error + catalog" where
  "validate_part_catalog A bs = decode_and_bound A bs"

text \<open>The section body an entry names, \<open>&bytes[offset..offset + len]\<close>.\<close>

definition section_body :: "bytes \<Rightarrow> entry \<Rightarrow> bytes" where
  "section_body bs e = slice_of (unat (e_offset e)) (unat (e_offset e + e_len e) - unat (e_offset e)) bs"

fun check_section_crcs :: "'d crc_alg \<Rightarrow> bytes \<Rightarrow> entry list \<Rightarrow> part_error + unit" where
  "check_section_crcs A bs [] = Ok ()"
| "check_section_crcs A bs (e # es) =
     (let computed = crc32c A (section_body bs e) in
      if computed \<noteq> e_crc32c e then Err (SectionCrc (e_type_id e) (e_crc32c e) computed)
      else check_section_crcs A bs es)"

definition validate_part :: "'d crc_alg \<Rightarrow> bytes \<Rightarrow> part_error + catalog" where
  "validate_part A bs =
     and_then (decode_and_bound A bs) (\<lambda>catalog.
     and_then (check_section_crcs A bs (entries catalog)) (\<lambda>_. Ok catalog))"

section \<open>Part assembly\<close>

record section_input =
  si_type_id :: u32
  si_rows :: u32
  si_body :: bytes

record part_meta =
  pm_min_ts :: i64
  pm_max_ts :: i64

text \<open>The \<open>map\<close> over the sections: append each body and record its entry.\<close>

fun place_sections ::
  "'d crc_alg \<Rightarrow> bytes \<Rightarrow> section_input list \<Rightarrow> bytes \<times> entry list" where
  "place_sections A out [] = (out, [])"
| "place_sections A out (s # ss) =
     (let e = \<lparr>e_type_id = si_type_id s, e_flags = 0, e_offset = of_nat (length out),
               e_len = of_nat (length (si_body s)), e_rows = si_rows s,
               e_crc32c = crc32c A (si_body s)\<rparr>;
          (out', es) = place_sections A (out @ si_body s) ss
      in (out', e # es))"

text \<open>\<open>None\<close> is the panic of \<open>expect\<close> when the catalog block does not fit \<open>u32\<close>.\<close>

definition build_part :: "'d crc_alg \<Rightarrow> section_input list \<Rightarrow> part_meta \<Rightarrow> bytes option" where
  "build_part A sections meta =
     (let (out, es) = place_sections A MAGIC sections;
          c = \<lparr>entries = es, min_ts = pm_min_ts meta, max_ts = pm_max_ts meta,
               format_version = FORMAT_VERSION, window_count = 1\<rparr>
      in case Catalog_write_encoded A c of
           Inl _ \<Rightarrow> None
         | Inr encoded \<Rightarrow> Some (out @ encoded))"

section \<open>What a valid part is\<close>

definition part_bytes :: "'d crc_alg \<Rightarrow> bytes \<Rightarrow> catalog \<Rightarrow> bytes" where
  "part_bytes A bodies c =
     MAGIC @ bodies @ catalog_block A c @ TailIndex_encode \<lparr>catalog_len = of_nat (encoded_len c)\<rparr>"

lemma length_part_bytes [simp]:
  "length (part_bytes A bodies c) = 12 + length bodies + encoded_len c"
  by (simp add: part_bytes_def tail.enc_length)

lemma check_section_crcs_Ok:
  "check_section_crcs A bs es = Ok u \<longleftrightarrow> (\<forall>e \<in> set es. crc32c A (section_body bs e) = e_crc32c e)"
  by (induction es) (auto simp: Let_def)

lemma encoded_len_bound: "length (entries c) < 2 ^ 32 \<Longrightarrow> 32 \<le> encoded_len c"
  by (simp add: encoded_len_def)

text \<open>Framing, catalog and layout of the whole body, both ways.\<close>

lemma decode_and_bound_Ok:
  assumes laws: "crc_laws A" and small: "length bs < 2 ^ 64"
  shows "decode_and_bound A bs = Ok c \<longleftrightarrow>
    (\<exists>bodies. bs = part_bytes A bodies c \<and> encoded_len c < 2 ^ 32 \<and>
      canonical_layout (entries c) (4 + length bodies))"
    (is "?l \<longleftrightarrow> ?r")
proof
  assume ?l
  let ?k = "length bs - 8"
  from \<open>?l\<close> have long: "44 \<le> length bs" and magic: "take 4 bs = MAGIC"
    by (auto simp: decode_and_bound_def split: if_splits)
  from \<open>?l\<close> long magic obtain t where t: "TailIndex_decode (drop ?k bs) = Ok t"
    and tle: "unat (catalog_len t) \<le> ?k" and start: "4 \<le> ?k - unat (catalog_len t)"
    and cat: "Catalog_decode A (slice_of (?k - unat (catalog_len t)) (unat (catalog_len t)) bs) = Ok c"
    and lay: "validate_catalog_layout c (of_nat (?k - unat (catalog_len t))) = Ok ()"
    by (auto simp: decode_and_bound_def and_then_Ok_iff checked_sub_usize_def Let_def
        split: if_splits)
  let ?s = "?k - unat (catalog_len t)"
  have blk: "slice_of ?s (unat (catalog_len t)) bs = catalog_block A c"
    using laws cat by (rule decode_catalog_sound)
  have tl: "TailIndex_encode t = drop ?k bs"
    using t long by (intro TailIndex_decode_encode) auto
  have len: "encoded_len c = unat (catalog_len t)"
    using arg_cong [OF blk, of length] tle by simp
  then have tt: "t = \<lparr>catalog_len = of_nat (encoded_len c)\<rparr>" by simp
  have "bs = take 4 bs @ slice_of 4 (?s - 4) bs @ slice_of ?s (unat (catalog_len t)) bs @ drop ?k bs"
  proof -
    have "take 4 bs @ slice_of 4 (?s - 4) bs @ slice_of ?s (unat (catalog_len t)) bs @ drop ?k bs
        = slice_of 0 4 bs @ slice_of 4 (?s - 4) bs @ slice_of ?s (unat (catalog_len t)) bs @ drop ?k bs"
      by (simp add: slice_of_def)
    also have "\<dots> = slice_of 0 ?k bs @ drop ?k bs"
      using start tle by (simp add: slice_of_appends)
    finally show ?thesis by (simp add: slice_of_def)
  qed
  then have "bs = MAGIC @ slice_of 4 (?s - 4) bs @ catalog_block A c @ TailIndex_encode t"
    by (simp only: magic blk tl)
  then have "bs = part_bytes A (slice_of 4 (?s - 4) bs) c"
    unfolding part_bytes_def tt [symmetric] .
  moreover have "encoded_len c < 2 ^ 32" using len unat_lt2p [of "catalog_len t"] by simp
  moreover have "length (slice_of 4 (?s - 4) bs) = ?s - 4" using long by simp
  moreover have "unat (of_nat ?s :: u64) = ?s" using small by (simp add: unat_of_nat)
  ultimately show ?r
    using lay start by (auto simp: validate_catalog_layout_iff)
next
  assume ?r
  then obtain bodies where bs: "bs = part_bytes A bodies c" and enc: "encoded_len c < 2 ^ 32"
    and lay: "canonical_layout (entries c) (4 + length bodies)" by blast
  let ?t = "\<lparr>catalog_len = of_nat (encoded_len c) :: u32\<rparr>"
  let ?k = "4 + length bodies + encoded_len c"
  have n: "length (entries c) < 2 ^ 32" and e32: "32 \<le> encoded_len c"
    using enc by (simp_all add: encoded_len_def)
  have blen: "length bs = ?k + 8" by (simp add: bs)
  have dt: "TailIndex_decode (drop ?k bs) = Ok ?t"
  proof -
    have "drop ?k bs = TailIndex_encode ?t" by (simp add: bs part_bytes_def)
    then show ?thesis by (simp only: tail.dec_enc)
  qed
  have db: "slice_of (4 + length bodies) (encoded_len c) bs = catalog_block A c"
    by (simp add: bs part_bytes_def slice_of_def)
  have "unat (of_nat (4 + length bodies) :: u64) = 4 + length bodies"
    using small blen by (intro unat_of_nat_u64) simp
  then have "validate_catalog_layout c (of_nat (4 + length bodies)) = Ok ()"
    using lay by (simp only: validate_catalog_layout_iff)
  moreover have "unat (of_nat (encoded_len c) :: u32) = encoded_len c"
    using enc by (simp add: unat_of_nat)
  moreover have "take 4 bs = MAGIC" by (simp add: bs part_bytes_def)
  ultimately show ?l
    using e32 dt db decode_catalog_block [OF laws n]
    by (simp add: decode_and_bound_def blen checked_sub_usize_def Let_def add.assoc)
qed

section \<open>Assembled parts validate\<close>

definition sections_ok :: "section_input list \<Rightarrow> bool" where
  "sections_ok ss \<longleftrightarrow>
     (\<forall>s \<in> set ss. si_rows s \<noteq> 0 \<and> si_body s \<noteq> [] \<and> length (si_body s) \<le> MAX_JOURNAL_LEN) \<and>
     sorted_wrt (<) (map (\<lambda>s. section_order_of (si_type_id s)) ss)"

definition bodies_of :: "section_input list \<Rightarrow> bytes" where
  "bodies_of ss = concat (map si_body ss)"

lemma place_sections_out: "fst (place_sections A out ss) = out @ bodies_of ss"
  by (induction ss arbitrary: out) (simp_all add: bodies_of_def Let_def split_beta)

lemma place_sections_Cons:
  "snd (place_sections A out (s # ss)) =
     \<lparr>e_type_id = si_type_id s, e_flags = 0, e_offset = of_nat (length out),
      e_len = of_nat (length (si_body s)), e_rows = si_rows s, e_crc32c = crc32c A (si_body s)\<rparr> #
     snd (place_sections A (out @ si_body s) ss)"
  by (simp add: Let_def split: prod.split)

text \<open>The entries that are written describe the sections that were given.\<close>

lemma place_sections_entries:
  "map e_type_id (snd (place_sections A out ss)) = map si_type_id ss \<and>
   map e_rows (snd (place_sections A out ss)) = map si_rows ss \<and>
   map e_crc32c (snd (place_sections A out ss)) = map (crc32c A \<circ> si_body) ss"
proof (induction ss arbitrary: out)
  case Nil
  then show ?case by simp
next
  case (Cons s ss)
  show ?case unfolding place_sections_Cons using Cons.IH by simp
qed

lemma place_sections_contiguous:
  assumes "length out + length (bodies_of ss) < 2 ^ 64"
  shows "contiguous (length out) (snd (place_sections A out ss)) (length out + length (bodies_of ss))"
  using assms
proof (induction ss arbitrary: out)
  case Nil
  then show ?case by (simp add: bodies_of_def)
next
  case (Cons s ss)
  from Cons.prems have "length (out @ si_body s) + length (bodies_of ss) < 2 ^ 64"
    by (simp add: bodies_of_def)
  from Cons.IH [OF this] Cons.prems show ?case
    unfolding place_sections_Cons
    by (simp add: bodies_of_def unat_of_nat_u64 add.assoc)
qed

lemma place_sections_bodies:
  assumes "length out + length (bodies_of ss) < 2 ^ 64"
  shows "map (section_body (out @ bodies_of ss @ rest)) (snd (place_sections A out ss)) = map si_body ss"
  using assms
proof (induction ss arbitrary: out)
  case Nil
  then show ?case by simp
next
  case (Cons s ss)
  from Cons.prems have b: "length (out @ si_body s) + length (bodies_of ss) < 2 ^ 64"
    by (simp add: bodies_of_def)
  have sum: "of_nat (length out) + of_nat (length (si_body s)) =
      (of_nat (length out + length (si_body s)) :: u64)" by simp
  have "length out + length (si_body s) < 2 ^ 64" "length out < 2 ^ 64" using b by simp_all
  then have "section_body (out @ bodies_of (s # ss) @ rest)
      \<lparr>e_type_id = si_type_id s, e_flags = 0, e_offset = of_nat (length out),
       e_len = of_nat (length (si_body s)), e_rows = si_rows s, e_crc32c = crc32c A (si_body s)\<rparr>
    = si_body s"
    by (simp add: section_body_def sum unat_of_nat_u64 slice_of_def bodies_of_def del: of_nat_add)
  moreover have "out @ bodies_of (s # ss) @ rest = (out @ si_body s) @ bodies_of ss @ rest"
    by (simp add: bodies_of_def)
  ultimately show ?case unfolding place_sections_Cons using Cons.IH [OF b] by simp
qed

lemma place_sections_entry_ok:
  assumes "\<forall>s \<in> set ss. si_rows s \<noteq> 0 \<and> si_body s \<noteq> [] \<and> length (si_body s) \<le> MAX_JOURNAL_LEN"
  shows "\<forall>e \<in> set (snd (place_sections A out ss)). entry_ok e"
  using assms
proof (induction ss arbitrary: out)
  case Nil
  then show ?case by simp
next
  case (Cons s ss)
  let ?n = "length (si_body s)"
  from Cons.prems have n: "0 < ?n" "?n \<le> 1073741824" by (simp_all add: MAX_JOURNAL_LEN_def)
  have "unat (of_nat ?n :: u64) = ?n" using n by (intro unat_of_nat_u64) simp
  with n have "(of_nat ?n :: u64) \<noteq> 0" "(of_nat ?n :: u64) \<le> MAX_PHYSICAL_SECTION_BYTES"
    by (auto simp: word_le_nat_alt MAX_PHYSICAL_SECTION_BYTES_def MAX_JOURNAL_LEN_def
        word_unat_eq_iff)
  then show ?case unfolding place_sections_Cons using Cons
    by (simp add: entry_ok_def)
qed

lemma place_sections_canonical:
  assumes "sections_ok ss" and "4 + length (bodies_of ss) < 2 ^ 64"
  shows "canonical_layout (snd (place_sections A MAGIC ss)) (4 + length (bodies_of ss))"
proof -
  have "map (\<lambda>e. section_order_of (e_type_id e)) (snd (place_sections A MAGIC ss))
      = map section_order_of (map e_type_id (snd (place_sections A MAGIC ss)))"
    by simp
  also have "\<dots> = map (\<lambda>s. section_order_of (si_type_id s)) ss"
    by (simp add: place_sections_entries)
  finally show ?thesis
    using assms place_sections_entry_ok [of ss A MAGIC] place_sections_contiguous [of MAGIC ss A]
    by (simp add: canonical_layout_def sections_ok_def)
qed

text \<open>The catalog \<open>build_part\<close> writes.\<close>

definition part_catalog :: "'d crc_alg \<Rightarrow> section_input list \<Rightarrow> part_meta \<Rightarrow> catalog" where
  "part_catalog A ss meta =
     \<lparr>entries = snd (place_sections A MAGIC ss), min_ts = pm_min_ts meta, max_ts = pm_max_ts meta,
      format_version = FORMAT_VERSION, window_count = 1\<rparr>"

lemma length_place_sections [simp]: "length (snd (place_sections A out ss)) = length ss"
  using arg_cong [OF conjunct1 [OF place_sections_entries [of A out ss]], of length] by simp

lemma encoded_len_part_catalog [simp]:
  "encoded_len (part_catalog A ss meta) = 32 * length ss + 32"
  by (simp add: part_catalog_def encoded_len_def)

lemma build_part_eq:
  assumes "crc_laws A"
  shows "build_part A ss meta =
    (if 32 * length ss + 32 < (2::nat) ^ 32
     then Some (part_bytes A (bodies_of ss) (part_catalog A ss meta)) else None)"
proof -
  have "build_part A ss meta = (case Catalog_write_encoded A (part_catalog A ss meta) of
      Inl _ \<Rightarrow> None | Inr enc \<Rightarrow> Some (MAGIC @ bodies_of ss @ enc))"
    by (simp add: build_part_def part_catalog_def Let_def split_beta place_sections_out
        split: sum.split)
  then show ?thesis
    using assms by (simp add: Catalog_write_encoded_eq part_bytes_def)
qed

lemma validate_part_Ok:
  assumes laws: "crc_laws A" and small: "length bs < 2 ^ 64"
  shows "validate_part A bs = Ok c \<longleftrightarrow>
    (\<exists>bodies. bs = part_bytes A bodies c \<and> encoded_len c < 2 ^ 32 \<and>
      canonical_layout (entries c) (4 + length bodies)) \<and>
    (\<forall>e \<in> set (entries c). crc32c A (section_body bs e) = e_crc32c e)"
  using decode_and_bound_Ok [OF laws small, of c]
  by (auto simp: validate_part_def and_then_Ok_iff check_section_crcs_Ok)

lemma length_build_part:
  assumes "crc_laws A" and "build_part A ss meta = Some bs"
  shows "length bs = 44 + length (bodies_of ss) + 32 * length ss"
  using assms by (auto simp: build_part_eq split: if_splits)

lemma validate_built_part:
  assumes "crc_laws A" and "sections_ok ss" and "length (bodies_of ss) < 2 ^ 63"
    and "build_part A ss meta = Some bs"
  shows "validate_part A bs = Ok (part_catalog A ss meta)"
    and "map (section_body bs) (entries (part_catalog A ss meta)) = map si_body ss"
    and "length bs < 2 ^ 64"
proof -
  let ?c = "part_catalog A ss meta"
  from assms(1,4) have fits: "32 * length ss + 32 < (2::nat) ^ 32"
    and bs: "bs = part_bytes A (bodies_of ss) ?c"
    by (auto simp: build_part_eq split: if_splits)
  show small: "length bs < 2 ^ 64" using fits assms(3) by (simp add: bs)
  have es: "entries ?c = snd (place_sections A MAGIC ss)" by (simp add: part_catalog_def)
  have "length MAGIC + length (bodies_of ss) < 2 ^ 64" using assms(3) by simp
  from place_sections_bodies [OF this] show bod: "map (section_body bs) (entries ?c) = map si_body ss"
    by (simp add: bs part_bytes_def es)
  have "map (crc32c A \<circ> section_body bs) (entries ?c) = map (crc32c A) (map si_body ss)"
    by (simp flip: bod)
  also have "\<dots> = map e_crc32c (entries ?c)" by (simp add: es place_sections_entries)
  finally have crcs: "\<forall>e \<in> set (entries ?c). crc32c A (section_body bs e) = e_crc32c e" by simp
  have "canonical_layout (entries ?c) (4 + length (bodies_of ss))"
    unfolding es using assms(2,3) by (intro place_sections_canonical) simp_all
  moreover have "encoded_len ?c < 2 ^ 32" using fits by simp
  ultimately show "validate_part A bs = Ok ?c"
    unfolding validate_part_Ok [OF assms(1) small] using crcs bs by blast
qed

text \<open>
  Whatever sections the writer assembles, as long as each body is non-empty, within the
  physical cap, has rows, and the types come in canonical order, the assembled part validates;
  its catalog lists the sections in order with their types and row counts, its entries locate
  exactly the given bodies, and it carries the given time range.
\<close>

lemma build_part_validates:
  assumes "crc_laws A" and "sections_ok ss" and "length (bodies_of ss) < 2 ^ 63"
    and "build_part A ss meta = Some bs"
  shows "\<exists>c. validate_part A bs = Ok c \<and>
      map e_type_id (entries c) = map si_type_id ss \<and>
      map e_rows (entries c) = map si_rows ss \<and>
      map (section_body bs) (entries c) = map si_body ss \<and>
      min_ts c = pm_min_ts meta \<and> max_ts c = pm_max_ts meta \<and>
      format_version c = FORMAT_VERSION \<and> window_count c = 1"
  using validate_built_part [OF assms]
  by (intro exI [of _ "part_catalog A ss meta"])
    (simp add: part_catalog_def place_sections_entries)

definition sample_sections :: "section_input list" where
  "sample_sections =
     [\<lparr>si_type_id = 1, si_rows = 2, si_body = [10, 20, 30]\<rparr>,
      \<lparr>si_type_id = 3001001, si_rows = 1, si_body = [7]\<rparr>]"

definition sample_meta :: part_meta where
  "sample_meta = \<lparr>pm_min_ts = 100, pm_max_ts = 200\<rparr>"

lemma sample_sections_ok [simp]: "sections_ok sample_sections"
  unfolding sections_ok_def sample_sections_def
  by (simp add: MAX_JOURNAL_LEN_def section_order_of_def DICT_STRINGS_TYPE_ID_def
      DICT_BLOBS_TYPE_ID_def)

lemma sample_build:
  "build_part crc_iscsi sample_sections sample_meta =
     Some (part_bytes crc_iscsi (bodies_of sample_sections)
       (part_catalog crc_iscsi sample_sections sample_meta))"
  "length (bodies_of sample_sections) < 2 ^ 63"
  by (simp_all add: build_part_eq sample_sections_def bodies_of_def)

text \<open>
  C16: a body that validates is, byte for byte, the opening magic, the section bodies, the
  catalog block that encodes the returned catalog and a tail index naming its length; the
  sections tile the body area canonically and each matches its stored checksum. In particular
  the catalog determines the length, so no valid part is a proper prefix of another with the
  same catalog.
\<close>

theorem validate_part_sound:
  assumes "crc_laws A" and "length bs < 2 ^ 64" and "validate_part A bs = Ok c"
  shows "\<exists>bodies. bs = MAGIC @ bodies @ catalog_block A c @
        TailIndex_encode \<lparr>catalog_len = of_nat (encoded_len c)\<rparr> \<and>
      canonical_layout (entries c) (4 + length bodies) \<and>
      length bs = 12 + (\<Sum>e \<leftarrow> entries c. unat (e_len e)) + encoded_len c \<and>
      (\<forall>e \<in> set (entries c). crc32c A (section_body bs e) = e_crc32c e \<and>
         unat (e_offset e) + unat (e_len e) \<le> length bs)"
proof -
  from assms obtain bodies where bs: "bs = part_bytes A bodies c"
    and can: "canonical_layout (entries c) (4 + length bodies)"
    and crcs: "\<forall>e \<in> set (entries c). crc32c A (section_body bs e) = e_crc32c e"
    by (auto simp: validate_part_Ok)
  then have con: "contiguous 4 (entries c) (4 + length bodies)" by (simp add: canonical_layout_def)
  have "length bodies = (\<Sum>e \<leftarrow> entries c. unat (e_len e))"
    using contiguous_sum [OF con] by simp
  moreover have "\<forall>e \<in> set (entries c). unat (e_offset e) + unat (e_len e) \<le> length bs"
    using contiguous_body [OF con] by (fastforce simp: bs)
  ultimately show ?thesis using can crcs by (auto simp: bs part_bytes_def [symmetric])
qed

theorem validate_part_sound_witness:
  "\<exists>bs c bodies. validate_part crc_iscsi bs = Ok c \<and> length (entries c) = 2 \<and>
     bs = MAGIC @ bodies @ catalog_block crc_iscsi c @
        TailIndex_encode \<lparr>catalog_len = of_nat (encoded_len c)\<rparr>"
proof -
  note v = validate_built_part [OF crc_iscsi_laws sample_sections_ok sample_build(2,1)]
  have "length (entries (part_catalog crc_iscsi sample_sections sample_meta)) = 2"
    by (simp add: part_catalog_def) (simp add: sample_sections_def)
  with validate_part_sound [OF crc_iscsi_laws v(3,1)] v(1) show ?thesis by blast
qed

end
