(* ===== verification/Journal_Header.thy ===== *)
theory Journal_Header
  imports Part_Frame
begin

text \<open>
  The versioned root header of \<open>active.wal\<close> and the reset marker
  (\<open>crates/kronika-format/src/parts/header.rs\<close>): both fixed layouts with their decoders,
  and the classification of a root header seen while a committed reset is being finished.
\<close>

section \<open>Root header\<close>

definition JOURNAL_MAGIC :: bytes where
  "JOURNAL_MAGIC = [0x4B, 0x52, 0x4E, 0x4A, 0x4E, 0x4C, 0x31, 0x00]"
definition JOURNAL_VERSION :: u32 where "JOURNAL_VERSION = 1"
abbreviation (input) JOURNAL_HEADER_LEN :: nat where "JOURNAL_HEADER_LEN \<equiv> 36"

lemma length_JOURNAL_MAGIC [simp]: "length JOURNAL_MAGIC = 8"
  by (simp add: JOURNAL_MAGIC_def)

datatype journal_state = Empty | Active (segment_id: i64)

record journal_header =
  state :: journal_state
  body_len :: u64

definition EMPTY_HEADER :: journal_header where
  "EMPTY_HEADER = \<lparr>state = Empty, body_len = 0\<rparr>"

datatype journal_header_error =
    UnsupportedMagic bytes
  | UnsupportedVersion u32
  | BadChecksum (h_stored: u32) (h_computed: u32)
  | InvalidState u8
  | MissingIdentity
  | UnexpectedIdentity
  | NonZeroReserved

text \<open>Bytes 12 to 24: state, identity flag, two reserved bytes, identity.\<close>

fun state_bytes :: "journal_state \<Rightarrow> bytes" where
  "state_bytes Empty = [0, 0, 0, 0] @ to_le64 0"
| "state_bytes (Active sid) = [1, 1, 0, 0] @ to_le64 sid"

lemma length_state_bytes [simp]: "length (state_bytes st) = 12"
  by (cases st) simp_all

definition header_prefix :: "journal_header \<Rightarrow> bytes" where
  "header_prefix h = JOURNAL_MAGIC @ to_le32 JOURNAL_VERSION @ state_bytes (state h) @
     to_le64 (body_len h)"

lemma length_header_prefix [simp]: "length (header_prefix h) = 32"
  by (simp add: header_prefix_def)

definition JournalHeader_encode :: "'d crc_alg \<Rightarrow> journal_header \<Rightarrow> bytes" where
  "JournalHeader_encode A h = header_prefix h @ to_le32 (crc32c A (header_prefix h))"

definition decode_state :: "u8 \<Rightarrow> u8 \<Rightarrow> i64 \<Rightarrow> journal_header_error + journal_state" where
  "decode_state st id_present sid =
     (if st = 0 \<and> id_present = 0 then (if sid \<noteq> 0 then Err UnexpectedIdentity else Ok Empty)
      else if st = 1 \<and> id_present = 1 then Ok (Active sid)
      else if st = 1 \<and> id_present = 0 then Err MissingIdentity
      else if st = 0 \<and> id_present = 1 then Err UnexpectedIdentity
      else Err (InvalidState st))"

text \<open>The Rust argument is an array of exactly 36 bytes, so the indices are in range.\<close>

definition JournalHeader_decode :: "'d crc_alg \<Rightarrow> bytes \<Rightarrow> journal_header_error + journal_header" where
  "JournalHeader_decode A bs =
     (if take 8 bs \<noteq> JOURNAL_MAGIC then Err (UnsupportedMagic (take 8 bs))
      else let version = from_le32 (slice_of 8 4 bs) in
      if version \<noteq> JOURNAL_VERSION then Err (UnsupportedVersion version)
      else let stored = from_le32 (slice_of 32 4 bs); computed = crc32c A (take 32 bs) in
      if stored \<noteq> computed then Err (BadChecksum stored computed)
      else if bs ! 14 \<noteq> 0 \<or> bs ! 15 \<noteq> 0 then Err NonZeroReserved
      else let sid = from_le64 (slice_of 16 8 bs); blen = from_le64 (slice_of 24 8 bs) in
      and_then (decode_state (bs ! 12) (bs ! 13) sid) (\<lambda>st. Ok \<lparr>state = st, body_len = blen\<rparr>))"

lemma header_prefix_bytes:
  "header_prefix h = JOURNAL_MAGIC @ to_le32 JOURNAL_VERSION @ take 4 (state_bytes (state h)) @
     drop 4 (state_bytes (state h)) @ to_le64 (body_len h)"
  by (simp add: header_prefix_def)

lemma JournalHeader_dec_enc: "JournalHeader_decode A (JournalHeader_encode A h) = Ok h"
proof (cases h)
  case (fields st blen)
  then show ?thesis
    by (cases st)
      (simp_all add: JournalHeader_encode_def JournalHeader_decode_def header_prefix_def Let_def
        slice_of_def decode_state_def nth_append)
qed

interpretation header: fixed_codec "JournalHeader_encode A" "JournalHeader_decode A" JOURNAL_HEADER_LEN
  for A :: "'d crc_alg"
  by unfold_locales (simp add: JournalHeader_encode_def, rule JournalHeader_dec_enc)

text \<open>Four bytes spelled out, so that the flag bytes can be read off.\<close>

lemma slice_of_nth4:
  "n + 4 \<le> length bs \<Longrightarrow> slice_of n 4 bs = [bs ! n, bs ! (n + 1), bs ! (n + 2), bs ! (n + 3)]"
proof -
  assume "n + 4 \<le> length bs"
  then have "drop n bs = bs ! n # bs ! (n + 1) # bs ! (n + 2) # bs ! (n + 3) # drop (n + 4) bs"
    by (simp add: Cons_nth_drop_Suc [symmetric] numeral_eq_Suc)
  then show ?thesis by (simp add: slice_of_def)
qed

lemma JournalHeader_decode_encode:
  assumes len: "length bs = 36" and ok: "JournalHeader_decode A bs = Ok h"
  shows "JournalHeader_encode A h = bs"
proof -
  from ok have magic: "take 8 bs = JOURNAL_MAGIC"
    and version: "from_le32 (slice_of 8 4 bs) = JOURNAL_VERSION"
    and crc: "from_le32 (slice_of 32 4 bs) = crc32c A (take 32 bs)"
    and res: "bs ! 14 = 0" "bs ! 15 = 0"
    and st: "decode_state (bs ! 12) (bs ! 13) (from_le64 (slice_of 16 8 bs)) = Ok (state h)"
    and blen: "body_len h = from_le64 (slice_of 24 8 bs)"
    by (auto simp: JournalHeader_decode_def Let_def and_then_Ok_iff split: if_splits)
  have flags: "slice_of 12 4 bs = [bs ! 12, bs ! 13, 0, 0]"
    using slice_of_nth4 [of 12 bs] len res by simp
  have idb: "to_le64 (from_le64 (slice_of 16 8 bs)) = slice_of 16 8 bs"
    using len by (intro to_from_le64) simp
  have "state_bytes (state h) = slice_of 12 4 bs @ slice_of 16 8 bs"
  proof -
    from st have "state h = Empty \<and> from_le64 (slice_of 16 8 bs) = 0 \<and> bs ! 12 = 0 \<and> bs ! 13 = 0 \<or>
        state h = Active (from_le64 (slice_of 16 8 bs)) \<and> bs ! 12 = 1 \<and> bs ! 13 = 1"
      by (auto simp: decode_state_def split: if_splits)
    then show ?thesis using idb flags by auto
  qed
  then have "header_prefix h = slice_of 0 8 bs @ slice_of 8 4 bs @ slice_of 12 4 bs @
      slice_of 16 8 bs @ slice_of 24 8 bs"
    using len magic version blen
    by (simp add: header_prefix_def to_from_le64 slice_of_def [of 0] flip: version)
      (simp add: to_from_le32)
  also have "\<dots> = take 32 bs" by (simp add: slice_of_appends) (simp add: slice_of_def)
  finally have pre: "header_prefix h = take 32 bs" .
  have "to_le32 (crc32c A (take 32 bs)) = slice_of 32 4 bs"
    using len by (simp add: to_from_le32 flip: crc)
  then show ?thesis
    using len by (simp add: JournalHeader_encode_def pre slice_of_def)
qed

section \<open>Reset marker\<close>

definition RESET_MARKER_MAGIC :: bytes where
  "RESET_MARKER_MAGIC = [0x4B, 0x52, 0x4E, 0x52, 0x53, 0x54, 0x31, 0x00]"
abbreviation (input) RESET_MARKER_LEN :: nat where "RESET_MARKER_LEN \<equiv> 32"

lemma length_RESET_MARKER_MAGIC [simp]: "length RESET_MARKER_MAGIC = 8"
  by (simp add: RESET_MARKER_MAGIC_def)

record reset_marker =
  previous_len :: u64
  previous_segment_id :: i64
  previous_header_crc :: u32

text \<open>The active header whose generation a marker closes.\<close>

definition active_header :: "u64 \<Rightarrow> i64 \<Rightarrow> journal_header" where
  "active_header len sid = \<lparr>state = Active sid, body_len = len - of_nat JOURNAL_HEADER_LEN\<rparr>"

definition ResetMarker_new :: "'d crc_alg \<Rightarrow> u64 \<Rightarrow> i64 \<Rightarrow> reset_marker option" where
  "ResetMarker_new A len sid =
     (if len \<le> of_nat JOURNAL_HEADER_LEN then None
      else Some \<lparr>previous_len = len, previous_segment_id = sid,
             previous_header_crc = crc32c A (JournalHeader_encode A (active_header len sid))\<rparr>)"

definition marker_prefix :: "reset_marker \<Rightarrow> bytes" where
  "marker_prefix m = RESET_MARKER_MAGIC @ to_le64 (previous_len m) @
     to_le64 (previous_segment_id m) @ to_le32 (previous_header_crc m)"

lemma length_marker_prefix [simp]: "length (marker_prefix m) = 28"
  by (simp add: marker_prefix_def)

definition ResetMarker_encode :: "'d crc_alg \<Rightarrow> reset_marker \<Rightarrow> bytes" where
  "ResetMarker_encode A m = marker_prefix m @ to_le32 (crc32c A (marker_prefix m))"

definition ResetMarker_decode :: "'d crc_alg \<Rightarrow> bytes \<Rightarrow> reset_marker option" where
  "ResetMarker_decode A bs =
     (if take 8 bs \<noteq> RESET_MARKER_MAGIC then None
      else if from_le32 (slice_of 28 4 bs) \<noteq> crc32c A (take 28 bs) then None
      else Some \<lparr>previous_len = from_le64 (slice_of 8 8 bs),
             previous_segment_id = from_le64 (slice_of 16 8 bs),
             previous_header_crc = from_le32 (slice_of 24 4 bs)\<rparr>)"

interpretation marker: fixed_codec "ResetMarker_encode A"
  "\<lambda>bs. ok_or (ResetMarker_decode A bs) ()" RESET_MARKER_LEN for A :: "'d crc_alg"
  by unfold_locales
    (simp_all add: ResetMarker_encode_def ResetMarker_decode_def marker_prefix_def slice_of_def)

lemma ResetMarker_decode_encode [simp]: "ResetMarker_decode A (ResetMarker_encode A m) = Some m"
  using marker.dec_enc [of A m] by simp

definition expected_previous_header :: "'d crc_alg \<Rightarrow> reset_marker \<Rightarrow> journal_header option" where
  "expected_previous_header A m =
     (case ResetMarker_new A (previous_len m) (previous_segment_id m) of
        None \<Rightarrow> None
      | Some marker \<Rightarrow>
          if previous_header_crc marker = previous_header_crc m
          then Some (active_header (previous_len m) (previous_segment_id m))
          else None)"

datatype reset_header_transition = Previous | EmptyDone | Torn

text \<open>\<open>(1..JOURNAL_HEADER_LEN).any(..)\<close>: a prefix of the empty header over the previous one.\<close>

definition torn_rewrite :: "bytes \<Rightarrow> bytes \<Rightarrow> bytes \<Rightarrow> bool" where
  "torn_rewrite observed blank previous \<longleftrightarrow>
     list_ex (\<lambda>split. take split observed = take split blank \<and>
                 drop split observed = drop split previous) [1..<JOURNAL_HEADER_LEN]"

definition classify_header_transition ::
  "'d crc_alg \<Rightarrow> reset_marker \<Rightarrow> bytes \<Rightarrow> reset_header_transition option" where
  "classify_header_transition A m observed =
     (case expected_previous_header A m of
        None \<Rightarrow> None
      | Some h \<Rightarrow>
          let previous = JournalHeader_encode A h;
              blank = JournalHeader_encode A EMPTY_HEADER
          in if observed = previous then Some Previous
             else if observed = blank then Some EmptyDone
             else if torn_rewrite observed blank previous then Some Torn
             else None)"

section \<open>Properties\<close>

lemma expected_previous_header_new:
  "ResetMarker_new A len sid = Some m \<Longrightarrow>
     expected_previous_header A m = Some (active_header len sid)"
  by (auto simp: ResetMarker_new_def expected_previous_header_def split: if_splits)

text \<open>
  The root header is a canonical code: decoding inverts encoding, and a 36-byte block that
  decodes is exactly the encoding of the decoded header, so reserved bytes, version, identity
  flag and checksum leave no second representation.
\<close>

lemma journal_header_canonical:
  "JournalHeader_decode A (JournalHeader_encode A h) = Ok h \<and>
   length (JournalHeader_encode A h) = 36 \<and>
   (\<forall>bs. length bs = 36 \<longrightarrow> JournalHeader_decode A bs = Ok h \<longrightarrow> bs = JournalHeader_encode A h)"
  using JournalHeader_decode_encode by (auto simp: header.dec_enc header.enc_length)

lemma torn_rewrite_iff:
  assumes "length observed = 36" "length blank = 36" "length previous = 36"
  shows "torn_rewrite observed blank previous \<longleftrightarrow>
    (\<exists>k. 0 < k \<and> k < 36 \<and> observed = take k blank @ drop k previous)"
proof
  assume "torn_rewrite observed blank previous"
  then obtain k where "1 \<le> k" "k < 36" "take k observed = take k blank"
    "drop k observed = drop k previous"
    by (auto simp: torn_rewrite_def list_ex_iff)
  then show "\<exists>k. 0 < k \<and> k < 36 \<and> observed = take k blank @ drop k previous"
    by (intro exI [of _ k]) (metis append_take_drop_id less_le_trans zero_less_one)
next
  assume "\<exists>k. 0 < k \<and> k < 36 \<and> observed = take k blank @ drop k previous"
  then obtain k where k: "0 < k" "k < 36" and obs: "observed = take k blank @ drop k previous"
    by blast
  then have "take k observed = take k blank" "drop k observed = drop k previous"
    using assms by simp_all
  then show "torn_rewrite observed blank previous"
    using k by (auto simp: torn_rewrite_def list_ex_iff intro!: bexI [of _ k])
qed

lemma splice_cases:
  assumes "length e = 36" "length p = 36"
  shows "x = p \<or> x = e \<or> (\<exists>k. 0 < k \<and> k < 36 \<and> x = take k e @ drop k p) \<longleftrightarrow>
    (\<exists>k \<le> 36. x = take k e @ drop k p)"
    (is "?l \<longleftrightarrow> ?r")
proof
  have "p = take 0 e @ drop 0 p" "e = take 36 e @ drop 36 p" using assms by simp_all
  then show "?l \<Longrightarrow> ?r" by (metis le0 le_refl less_imp_le)
next
  assume ?r
  then obtain k where k: "k \<le> 36" "x = take k e @ drop k p" by blast
  consider "k = 0" | "k = 36" | "0 < k" "k < 36" using k(1) by linarith
  then show ?l using k assms by cases auto
qed

text \<open>The headers that are recognised while a committed reset is finished.\<close>

lemma classify_splice:
  assumes "length observed = 36"
  shows "classify_header_transition A m observed \<noteq> None \<longleftrightarrow>
    (\<exists>h k. expected_previous_header A m = Some h \<and> k \<le> 36 \<and>
       observed = take k (JournalHeader_encode A EMPTY_HEADER) @ drop k (JournalHeader_encode A h))"
proof (cases "expected_previous_header A m")
  case None
  then show ?thesis by (simp add: classify_header_transition_def)
next
  case (Some h)
  let ?e = "JournalHeader_encode A EMPTY_HEADER"
  let ?p = "JournalHeader_encode A h"
  have l: "length ?e = 36" "length ?p = 36" by (simp_all add: header.enc_length)
  have "classify_header_transition A m observed \<noteq> None \<longleftrightarrow>
      observed = ?p \<or> observed = ?e \<or> torn_rewrite observed ?e ?p"
    by (simp add: classify_header_transition_def Some Let_def)
  also have "\<dots> \<longleftrightarrow> (\<exists>k \<le> 36. observed = take k ?e @ drop k ?p)"
    by (simp only: torn_rewrite_iff [OF assms l] splice_cases [OF l])
  finally show ?thesis using Some by auto
qed

lemma expected_previous_header_Some:
  "expected_previous_header A m = Some h \<Longrightarrow> h = active_header (previous_len m) (previous_segment_id m)"
  by (auto simp: expected_previous_header_def split: option.splits if_splits)

text \<open>
  While a committed reset rewrites the root header, exactly the byte strings an
  interrupted rewrite can leave are recognised: the header of the generation named by the
  marker with some prefix of the empty header written over it. Every interruption point is
  accepted, and nothing else is.
\<close>

lemma classify_header_transition_iff:
  assumes "ResetMarker_new A len sid = Some m" and "length observed = 36"
  shows "classify_header_transition A m observed \<noteq> None \<longleftrightarrow>
    (\<exists>k \<le> 36. observed = take k (JournalHeader_encode A EMPTY_HEADER) @
       drop k (JournalHeader_encode A (active_header len sid)))"
  unfolding classify_splice [OF assms(2)] expected_previous_header_new [OF assms(1)] by auto

end
