(* ===== verification/Journal_Scan.thy ===== *)
theory Journal_Scan
  imports Journal_Header
begin

text \<open>
  The streaming journal scanner (\<open>crates/kronika-format/src/read_at.rs\<close> and
  \<open>parts/scan.rs\<close>). The byte source is the trait \<open>ReadAt\<close>: a record of its two
  operations; the locale \<open>byte_source\<close> states what the trait promises and the scanner is
  proved against it. Offsets and lengths are \<open>nat\<close>; \<open>usize\<close> and \<open>u64\<close> coincide on the
  64-bit targets the program is built for, so the \<open>try_from\<close> conversions between them do
  not fail.
\<close>

section \<open>Byte sources\<close>

record read_at =
  read_exact_at :: "nat \<Rightarrow> nat \<Rightarrow> io_error + bytes"
  byte_len :: "io_error + nat"

text \<open>\<open>impl ReadAt for &[u8]\<close>; the first argument is the length of the buffer to fill.\<close>

definition slice_read_exact_at :: "bytes \<Rightarrow> nat \<Rightarrow> nat \<Rightarrow> io_error + bytes" where
  "slice_read_exact_at self buf_len start =
     and_then (ok_or (checked_add_usize start buf_len) UnexpectedEof) (\<lambda>end_at.
       if end_at > length self then Err UnexpectedEof
       else Ok (slice_of start (end_at - start) self))"

definition slice_source :: "bytes \<Rightarrow> read_at" where
  "slice_source self =
     \<lparr>read_exact_at = slice_read_exact_at self, byte_len = Ok (length self)\<rparr>"

text \<open>
  What a client may rely on: a source shows one byte string; a read inside it returns the
  bytes, a read past its end fails.
\<close>

locale byte_source =
  fixes R :: read_at and contents :: bytes
  assumes source_len: "byte_len R = Ok (length contents)"
    and source_read: "length contents < 2 ^ 64 \<Longrightarrow> off + n \<le> length contents \<Longrightarrow>
      read_exact_at R n off = Ok (slice_of off n contents)"
    and source_eof: "length contents < 2 ^ 64 \<Longrightarrow> length contents < off + n \<Longrightarrow>
      read_exact_at R n off = Err UnexpectedEof"

interpretation slice: byte_source "slice_source bs" bs for bs
  by unfold_locales
    (auto simp: slice_source_def slice_read_exact_at_def checked_add_usize_def)

text \<open>A source whose calls may fail in any way, but which shows nothing else when they succeed.\<close>

locale sound_source =
  fixes R :: read_at and contents :: bytes
  assumes len_sound: "byte_len R = Ok n \<Longrightarrow> n = length contents"
    and read_sound: "read_exact_at R n off = Ok bs \<Longrightarrow> off + n \<le> length contents \<and> bs = slice_of off n contents"

lemma byte_source_sound:
  assumes "byte_source R contents" and "length contents < 2 ^ 64"
  shows "sound_source R contents"
proof
  fix n assume "byte_len R = Ok n"
  then show "n = length contents" using byte_source.source_len [OF assms(1)] by simp
next
  fix n off bs assume r: "read_exact_at R n off = Ok bs"
  show "off + n \<le> length contents \<and> bs = slice_of off n contents"
  proof (cases "off + n \<le> length contents")
    case True
    then show ?thesis using byte_source.source_read [OF assms(1,2) True] r by simp
  next
    case False
    then show ?thesis using byte_source.source_eof [OF assms(1,2), of off n] r by simp
  qed
qed

section \<open>The scanner\<close>

record journal_limits =
  max_part_len :: u64

definition MAX_PART_LEN :: u64 where "MAX_PART_LEN = 64 * 1024 * 1024"
definition MAX_JOURNAL_PARTS :: nat where "MAX_JOURNAL_PARTS = 1000000"

definition default_journal_limits :: journal_limits where
  "default_journal_limits = \<lparr>max_part_len = MAX_PART_LEN\<rparr>"

record part_ref =
  p_offset :: nat
  p_len :: nat

record scan_report =
  parts :: "part_ref list"
  valid_len :: nat

datatype journal_scan_error = ScanIo io_error | PartLimitExceeded nat

datatype streaming_frame = Valid nat catalog | Damaged

text \<open>
  The reusable buffer is read completely before it is used, so only its capacity outlives a
  frame; \<open>grow old len\<close> is the capacity after \<open>resize\<close>, chosen by the allocator.
\<close>

definition streaming_frame_at ::
  "'d crc_alg \<Rightarrow> read_at \<Rightarrow> nat \<Rightarrow> nat \<Rightarrow> journal_limits \<Rightarrow> (nat \<Rightarrow> nat \<Rightarrow> nat) \<Rightarrow> nat \<Rightarrow>
     io_error + streaming_frame \<times> nat" where
  "streaming_frame_at A R total_len pos limits grow cap =
     (let rem = total_len - pos in
      if rem < FRAME_HEADER_LEN then Ok (Damaged, cap)
      else and_then (read_exact_at R FRAME_HEADER_LEN pos) (\<lambda>header_bytes.
        case FrameHeader_decode A header_bytes of
          Inl _ \<Rightarrow> Ok (Damaged, cap)
        | Inr h \<Rightarrow>
            if part_len h > max_part_len limits then Ok (Damaged, cap)
            else let blen = unat (part_len h) in
              if rem - FRAME_HEADER_LEN < blen then Ok (Damaged, cap)
              else let cap = grow cap blen in
                and_then (read_exact_at R blen (pos + FRAME_HEADER_LEN)) (\<lambda>part_buf.
                  case validate_part A part_buf of
                    Inl _ \<Rightarrow> Ok (Damaged, cap)
                  | Inr catalog \<Rightarrow> Ok (Valid blen catalog, cap))))"

text \<open>The \<open>while pos < total_len\<close> loop; each valid frame moves \<open>pos\<close> past its header.\<close>

function visit_loop ::
  "'d crc_alg \<Rightarrow> read_at \<Rightarrow> nat \<Rightarrow> journal_limits \<Rightarrow> nat \<Rightarrow> (nat \<Rightarrow> nat \<Rightarrow> nat) \<Rightarrow>
   (part_ref \<Rightarrow> catalog \<Rightarrow> nat \<Rightarrow> 's \<Rightarrow> io_error + 's) \<Rightarrow>
   nat \<Rightarrow> nat \<Rightarrow> nat \<Rightarrow> 's \<Rightarrow> journal_scan_error + nat \<times> 's" where
  "visit_loop A R total_len limits max_parts grow visitor pos part_count cap s =
     (if pos < total_len then
        (case streaming_frame_at A R total_len pos limits grow cap of
           Inl e \<Rightarrow> Err (ScanIo e)
         | Inr (Damaged, cap) \<Rightarrow> Ok (pos, s)
         | Inr (Valid blen catalog, cap) \<Rightarrow>
             if part_count \<ge> max_parts then Err (PartLimitExceeded max_parts)
             else (case visitor \<lparr>p_offset = pos + FRAME_HEADER_LEN, p_len = blen\<rparr> catalog cap s of
                Inl e \<Rightarrow> Err (ScanIo e)
              | Inr s' \<Rightarrow> visit_loop A R total_len limits max_parts grow visitor
                  (pos + (FRAME_HEADER_LEN + blen)) (part_count + 1) cap s'))
      else Ok (pos, s))"
  by pat_completeness auto
termination
  by (relation "measure (\<lambda>(A, R, total_len, l, m, g, v, pos, c, cap, s). total_len - pos)") auto

declare visit_loop.simps [simp del]

definition visit_journal_streaming_strict_from ::
  "'d crc_alg \<Rightarrow> read_at \<Rightarrow> nat \<Rightarrow> journal_limits \<Rightarrow> nat \<Rightarrow> (nat \<Rightarrow> nat \<Rightarrow> nat) \<Rightarrow>
   (part_ref \<Rightarrow> catalog \<Rightarrow> nat \<Rightarrow> 's \<Rightarrow> io_error + 's) \<Rightarrow> 's \<Rightarrow> journal_scan_error + nat \<times> 's" where
  "visit_journal_streaming_strict_from A R start_at limits max_parts grow visitor s =
     and_then (map_err ScanIo (byte_len R)) (\<lambda>total_len.
       if start_at > total_len then Err (ScanIo InvalidInput)
       else visit_loop A R total_len limits max_parts grow visitor start_at 0 0 s)"

definition scan_journal_streaming_strict_from ::
  "'d crc_alg \<Rightarrow> read_at \<Rightarrow> nat \<Rightarrow> journal_limits \<Rightarrow> nat \<Rightarrow> (nat \<Rightarrow> nat \<Rightarrow> nat) \<Rightarrow>
   journal_scan_error + scan_report" where
  "scan_journal_streaming_strict_from A R start_at limits max_parts grow =
     and_then (visit_journal_streaming_strict_from A R start_at limits max_parts grow
         (\<lambda>part catalog cap ps. Ok (ps @ [part])) [])
       (\<lambda>(vlen, ps). Ok \<lparr>parts = ps, valid_len = vlen\<rparr>)"

section \<open>Frames as byte strings\<close>

definition frame_bytes :: "'d crc_alg \<Rightarrow> bytes \<Rightarrow> bytes" where
  "frame_bytes A part = FrameHeader_encode A \<lparr>part_len = of_nat (length part)\<rparr> @ part"

definition frames_bytes :: "'d crc_alg \<Rightarrow> bytes list \<Rightarrow> bytes" where
  "frames_bytes A ps = concat (map (frame_bytes A) ps)"

text \<open>A part the scanner accepts, with its catalog.\<close>

definition good_part :: "'d crc_alg \<Rightarrow> journal_limits \<Rightarrow> bytes \<Rightarrow> bool" where
  "good_part A limits p \<longleftrightarrow> length p \<le> unat (max_part_len limits) \<and> is_ok (validate_part A p)"

fun refs_from :: "nat \<Rightarrow> bytes list \<Rightarrow> part_ref list" where
  "refs_from pos [] = []"
| "refs_from pos (p # ps) =
     \<lparr>p_offset = pos + FRAME_HEADER_LEN, p_len = length p\<rparr> #
     refs_from (pos + FRAME_HEADER_LEN + length p) ps"

lemma length_frame_bytes [simp]: "length (frame_bytes A p) = 16 + length p"
  by (simp add: frame_bytes_def frame.enc_length)

lemma frames_bytes_simps [simp]:
  "frames_bytes A [] = []" "frames_bytes A (p # ps) = frame_bytes A p @ frames_bytes A ps"
  "frames_bytes A (ps @ qs) = frames_bytes A ps @ frames_bytes A qs"
  by (simp_all add: frames_bytes_def)

lemma refs_from_append:
  "refs_from pos (ps @ qs) = refs_from pos ps @ refs_from (pos + length (frames_bytes A ps)) qs"
  by (induction ps arbitrary: pos) (simp_all add: add.assoc)

lemma length_refs_from [simp]: "length (refs_from pos ps) = length ps"
  by (induction ps arbitrary: pos) simp_all

text \<open>No complete valid frame starts at the head of \<open>rest\<close>: what stops the scan.\<close>

definition no_frame :: "'d crc_alg \<Rightarrow> journal_limits \<Rightarrow> bytes \<Rightarrow> bool" where
  "no_frame A limits rest \<longleftrightarrow>
     (\<nexists>p tail. rest = frame_bytes A p @ tail \<and> good_part A limits p)"

section \<open>One frame\<close>

context sound_source
begin

text \<open>A frame that is returned is there, and a run of them that is returned is there.\<close>

lemma frame_at_sound:
  assumes ok: "streaming_frame_at A R (length contents) pos limits grow cap = Ok (Valid n c, cap')"
  shows "\<exists>p rest. drop pos contents = frame_bytes A p @ rest \<and> length p = n \<and>
    n \<le> unat (max_part_len limits) \<and> validate_part A p = Ok c \<and> cap' = grow cap n"
proof -
  have long: "16 \<le> length contents - pos"
    using ok by (auto simp: streaming_frame_at_def Let_def split: if_splits)
  obtain hb where rd: "read_exact_at R 16 pos = Ok hb"
    using ok long by (cases "read_exact_at R 16 pos") (auto simp: streaming_frame_at_def)
  have hb: "hb = slice_of pos 16 contents" using read_sound [OF rd] by simp
  from ok long rd hb obtain h where dec: "FrameHeader_decode A (slice_of pos 16 contents) = Ok h"
    and le: "part_len h \<le> max_part_len limits"
    and fit: "unat (part_len h) \<le> length contents - pos - 16"
    by (auto simp: streaming_frame_at_def Let_def split: if_splits sum.splits)
  obtain pb where rb: "read_exact_at R (unat (part_len h)) (pos + 16) = Ok pb"
    using ok long rd hb dec le [THEN leD] fit [THEN leD]
    by (cases "read_exact_at R (unat (part_len h)) (pos + 16)") (auto simp: streaming_frame_at_def Let_def)
  let ?p = "slice_of (pos + 16) (unat (part_len h)) contents"
  have pb: "pb = ?p" using read_sound [OF rb] by simp
  from ok long rd hb dec le fit rb pb have n: "n = unat (part_len h)" and v: "validate_part A ?p = Ok c"
    and cap: "cap' = grow cap n"
    by (auto simp: streaming_frame_at_def Let_def split: if_splits sum.splits)
  have lp: "length ?p = n" using fit long n by simp
  have "FrameHeader_encode A h = slice_of pos 16 contents"
    using dec long by (intro FrameHeader_decode_encode) auto
  moreover have "h = \<lparr>part_len = of_nat (length ?p)\<rparr>" unfolding lp n by simp
  ultimately have "frame_bytes A ?p = slice_of pos 16 contents @ ?p"
    by (simp add: frame_bytes_def)
  then have "frame_bytes A ?p = slice_of pos (16 + n) contents"
    by (simp add: slice_of_appends n)
  then have "drop pos contents = frame_bytes A ?p @ drop (16 + n) (drop pos contents)"
    using append_take_drop_id [of "16 + n" "drop pos contents"] by (simp only: slice_of_def)
  moreover have "n \<le> unat (max_part_len limits)" using le n by (simp add: word_le_nat_alt)
  ultimately show ?thesis using lp v cap by blast
qed

lemma visit_loop_sound:
  assumes "visit_loop A R (length contents) limits max_parts grow (\<lambda>part catalog cap qs. Ok (qs @ [part])) pos cnt cap acc =
      Ok (v, qs)"
  shows "\<exists>ps rest. drop pos contents = frames_bytes A ps @ rest \<and> (\<forall>p \<in> set ps. good_part A limits p) \<and>
    v = pos + length (frames_bytes A ps) \<and> qs = acc @ refs_from pos ps \<and> (ps = [] \<or> cnt + length ps \<le> max_parts)"
  using assms
proof (induction "length contents - pos" arbitrary: pos cnt cap acc rule: less_induct)
  case less
  let ?f = "streaming_frame_at A R (length contents) pos limits grow cap"
  show ?case
  proof (cases "pos < length contents \<and> (\<exists>n c cap'. ?f = Ok (Valid n c, cap'))")
    case False
    then have "v = pos" "qs = acc"
      using less.prems by (auto simp: visit_loop.simps [of A R "length contents" limits max_parts grow _ pos cnt cap acc]
          split: if_splits sum.splits prod.splits streaming_frame.splits)
    then show ?thesis by (intro exI [where x = "[] :: bytes list"]) simp
  next
    case True
    then obtain n c cap' where f: "?f = Ok (Valid n c, cap')" and lt: "pos < length contents" by blast
    obtain p rest where p: "drop pos contents = frame_bytes A p @ rest" "length p = n" "n \<le> unat (max_part_len limits)"
      "validate_part A p = Ok c"
      using frame_at_sound [OF f] by blast
    let ?ref = "\<lparr>p_offset = pos + 16, p_len = n\<rparr>"
    have cnt: "cnt < max_parts" and tail: "visit_loop A R (length contents) limits max_parts grow (\<lambda>part catalog cap qs. Ok (qs @ [part]))
        (pos + (16 + n)) (cnt + 1) cap' (acc @ [?ref]) = Ok (v, qs)"
      using less.prems f lt by (auto simp: visit_loop.simps [of A R "length contents" limits max_parts grow _ pos cnt cap acc]
          split: if_splits)
    have "length contents - (pos + (16 + n)) < length contents - pos" using lt by simp
    from less.hyps [OF this tail] obtain ps rest' where ps: "drop (pos + (16 + n)) contents = frames_bytes A ps @ rest'"
      "\<forall>p \<in> set ps. good_part A limits p" "v = pos + (16 + n) + length (frames_bytes A ps)"
      "qs = (acc @ [?ref]) @ refs_from (pos + (16 + n)) ps" "ps = [] \<or> cnt + 1 + length ps \<le> max_parts" by blast
    have "drop (pos + (16 + n)) contents = drop (16 + n) (drop pos contents)" by (simp add: add.commute)
    then have "rest = frames_bytes A ps @ rest'" using ps(1) p(1,2) by simp
    moreover have "good_part A limits p" using p by (simp add: good_part_def)
    ultimately show ?thesis
      using p ps cnt by (intro exI [of _ "p # ps"] exI [of _ rest']) (auto simp: add.assoc)
  qed
qed

lemma scan_sound:
  assumes "scan_journal_streaming_strict_from A R start_at limits max_parts grow = Ok report"
  shows "start_at \<le> length contents \<and>
    (\<exists>ps rest. drop start_at contents = frames_bytes A ps @ rest \<and> (\<forall>p \<in> set ps. good_part A limits p) \<and>
      report = \<lparr>parts = refs_from start_at ps, valid_len = start_at + length (frames_bytes A ps)\<rparr> \<and> length ps \<le> max_parts)"
proof -
  obtain v qs where run: "visit_loop A R (length contents) limits max_parts grow (\<lambda>part catalog cap qs. Ok (qs @ [part])) start_at 0 0 [] =
      Ok (v, qs)" and le: "start_at \<le> length contents" and report: "report = \<lparr>parts = qs, valid_len = v\<rparr>"
    using assms len_sound
    by (auto simp: scan_journal_streaming_strict_from_def visit_journal_streaming_strict_from_def and_then_Ok_iff split: if_splits)
  obtain ps rest where "drop start_at contents = frames_bytes A ps @ rest" "\<forall>p \<in> set ps. good_part A limits p"
    "v = start_at + length (frames_bytes A ps)" "qs = refs_from start_at ps" "ps = [] \<or> length ps \<le> max_parts"
    using visit_loop_sound [OF run] by auto
  then show ?thesis using le report by (intro conjI exI [of _ ps] exI [of _ rest]) auto
qed

end

context byte_source
begin

text \<open>What the scanner sees at a position depends on the bytes there only.\<close>

lemma frame_at_valid:
  assumes small: "length contents < 2 ^ 64" and pos: "pos \<le> length contents"
  shows "streaming_frame_at A R (length contents) pos limits grow cap = Ok (Valid n c, cap') \<longleftrightarrow>
    (\<exists>p rest. drop pos contents = frame_bytes A p @ rest \<and> length p = n \<and>
       n \<le> unat (max_part_len limits) \<and> validate_part A p = Ok c \<and> cap' = grow cap n)"
    (is "?l \<longleftrightarrow> ?r")
proof
  assume ?l
  then show ?r by (rule sound_source.frame_at_sound [OF byte_source_sound [OF byte_source_axioms small]])
next
  assume ?r
  then obtain p rest where d: "drop pos contents = frame_bytes A p @ rest" and n: "length p = n"
    and le: "n \<le> unat (max_part_len limits)" and v: "validate_part A p = Ok c"
    and cap: "cap' = grow cap n" by blast
  let ?h = "\<lparr>part_len = of_nat n :: u64\<rparr>"
  have n64: "n < 2 ^ 64" using le unat_lt2p [of "max_part_len limits"] by simp
  then have un: "unat (of_nat n :: u64) = n" by (rule unat_of_nat_u64)
  have lc: "length contents - pos = 16 + n + length rest"
    using arg_cong [OF d, of length] n by simp
  have hb: "slice_of pos 16 contents = FrameHeader_encode A ?h"
    unfolding slice_of_def d by (simp add: frame_bytes_def n frame.enc_length)
  have pb: "slice_of (pos + 16) n contents = p"
  proof -
    have "drop (pos + 16) contents = drop 16 (drop pos contents)" by (simp add: add.commute)
    then show ?thesis unfolding slice_of_def d
      by (simp add: frame_bytes_def n frame.enc_length)
  qed
  have "read_exact_at R 16 pos = Ok (FrameHeader_encode A ?h)"
    using source_read [of pos 16] small lc hb by simp
  moreover have "read_exact_at R n (pos + 16) = Ok p"
    using source_read [of "pos + 16" n] small lc pb by simp
  moreover have "\<not> max_part_len limits < of_nat n"
    using le un by (simp add: word_less_nat_alt)
  ultimately show ?l
    using lc un v cap by (simp add: streaming_frame_at_def Let_def frame.dec_enc)
qed

lemma frame_at_ok:
  assumes "length contents < 2 ^ 64" and "pos \<le> length contents"
  shows "\<exists>f cap'. streaming_frame_at A R (length contents) pos limits grow cap = Ok (f, cap')"
proof (cases "length contents - pos < 16")
  case True
  then show ?thesis by (simp add: streaming_frame_at_def)
next
  case False
  then have rd: "read_exact_at R 16 pos = Ok (slice_of pos 16 contents)"
    using assms by (intro source_read) auto
  have rb: "n \<le> length contents - pos - 16 \<Longrightarrow>
      read_exact_at R n (pos + 16) = Ok (slice_of (pos + 16) n contents)" for n
    using assms False by (intro source_read) auto
  show ?thesis using False rd rb
    by (auto simp: streaming_frame_at_def Let_def split: sum.splits)
qed

lemma frame_at_damaged:
  assumes "length contents < 2 ^ 64" and "pos \<le> length contents"
  shows "(\<exists>cap'. streaming_frame_at A R (length contents) pos limits grow cap = Ok (Damaged, cap'))
    \<longleftrightarrow> no_frame A limits (drop pos contents)"
proof -
  obtain f cap' where f: "streaming_frame_at A R (length contents) pos limits grow cap = Ok (f, cap')"
    using frame_at_ok [OF assms] by blast
  show ?thesis
  proof (cases f)
    case (Valid n c)
    with f frame_at_valid [OF assms, of A limits grow cap n c cap'] show ?thesis
      by (auto simp: no_frame_def good_part_def is_ok_iff)
  next
    case Damaged
    have "no_frame A limits (drop pos contents)"
    proof (rule ccontr)
      assume "\<not> ?thesis"
      then obtain p tail c where "drop pos contents = frame_bytes A p @ tail"
        "length p \<le> unat (max_part_len limits)" "validate_part A p = Ok c"
        by (auto simp: no_frame_def good_part_def is_ok_iff)
      then have "streaming_frame_at A R (length contents) pos limits grow cap =
          Ok (Valid (length p) c, grow cap (length p))"
        using frame_at_valid [OF assms] by blast
      with f Damaged show False by simp
    qed
    with f Damaged show ?thesis by blast
  qed
qed

text \<open>The loop over a run of good frames followed by something that is not one.\<close>

lemma visit_loop_frames:
  assumes "length contents < 2 ^ 64" and "drop pos contents = frames_bytes A ps @ rest"
    and "pos \<le> length contents" and "\<forall>p \<in> set ps. good_part A limits p"
    and "no_frame A limits rest"
  shows "visit_loop A R (length contents) limits max_parts grow
      (\<lambda>part catalog cap qs. Ok (qs @ [part])) pos cnt cap acc =
    (if ps = [] \<or> cnt + length ps \<le> max_parts
     then Ok (pos + length (frames_bytes A ps), acc @ refs_from pos ps)
     else Err (PartLimitExceeded max_parts))"
  using assms
proof (induction ps arbitrary: pos cnt cap acc)
  case Nil
  show ?case
  proof (cases "pos < length contents")
    case True
    obtain cap' where "streaming_frame_at A R (length contents) pos limits grow cap = Ok (Damaged, cap')"
      using frame_at_damaged [of pos A limits grow cap] Nil.prems by auto
    with True show ?thesis by (simp add: visit_loop.simps)
  next
    case False
    then show ?thesis by (simp add: visit_loop.simps)
  qed
next
  case (Cons p ps)
  from Cons.prems obtain c where c: "validate_part A p = Ok c"
    and le: "length p \<le> unat (max_part_len limits)"
    by (auto simp: good_part_def is_ok_iff)
  have d: "drop pos contents = frame_bytes A p @ frames_bytes A ps @ rest"
    using Cons.prems(2) by simp
  have lt: "pos < length contents"
    using arg_cong [OF d, of length] by simp
  have f: "streaming_frame_at A R (length contents) pos limits grow cap =
      Ok (Valid (length p) c, grow cap (length p))"
    using frame_at_valid [OF Cons.prems(1,3)] c le d by blast
  let ?pos = "pos + (16 + length p)"
  have "drop ?pos contents = drop (16 + length p) (drop pos contents)"
    by (simp add: add.commute)
  then have d': "drop ?pos contents = frames_bytes A ps @ rest" unfolding d by simp
  moreover have "?pos \<le> length contents"
    using arg_cong [OF d, of length] by simp
  ultimately have IH: "visit_loop A R (length contents) limits max_parts grow
      (\<lambda>part catalog cap qs. Ok (qs @ [part])) ?pos cnt' cap' acc' =
    (if ps = [] \<or> cnt' + length ps \<le> max_parts
     then Ok (?pos + length (frames_bytes A ps), acc' @ refs_from ?pos ps)
     else Err (PartLimitExceeded max_parts))" for cnt' cap' acc'
    using Cons.IH Cons.prems by simp
  show ?case
    unfolding visit_loop.simps [of A R "length contents" limits max_parts grow _ pos cnt cap acc]
    using lt f IH by (simp add: add.assoc)
qed

lemma scan_frames:
  assumes "length contents < 2 ^ 64" and "contents = pre @ frames_bytes A ps @ rest"
    and "\<forall>p \<in> set ps. good_part A limits p" and "no_frame A limits rest"
  shows "scan_journal_streaming_strict_from A R (length pre) limits max_parts grow =
    (if length ps \<le> max_parts
     then Ok \<lparr>parts = refs_from (length pre) ps,
             valid_len = length pre + length (frames_bytes A ps)\<rparr>
     else Err (PartLimitExceeded max_parts))"
proof -
  have "drop (length pre) contents = frames_bytes A ps @ rest" "length pre \<le> length contents"
    using assms(2) by simp_all
  from visit_loop_frames [OF assms(1) this assms(3,4), of max_parts grow 0 0 "[]"]
  show ?thesis using assms(2)
    by (auto simp: scan_journal_streaming_strict_from_def visit_journal_streaming_strict_from_def
        source_len)
qed

end

section \<open>Every byte string splits into frames and a rest\<close>

lemma frame_bytes_prefix_free:
  assumes "frame_bytes A p @ t = frame_bytes A q @ u"
    and "length p < 2 ^ 64" and "length q < 2 ^ 64"
  shows "p = q \<and> t = u"
proof -
  from assms(1) have "\<lparr>part_len = of_nat (length p)\<rparr> = \<lparr>part_len = of_nat (length q) :: u64\<rparr>"
    and pt: "p @ t = q @ u"
    by (auto simp: frame_bytes_def frame.enc_append_inject)
  then have "(of_nat (length p) :: u64) = of_nat (length q)" by simp
  then have "length p = length q"
    using assms(2,3) by (metis unat_of_nat_u64)
  with pt show ?thesis by simp
qed

lemma good_part_small: "good_part A limits p \<Longrightarrow> length p < 2 ^ 64"
  using unat_lt2p [of "max_part_len limits"] by (simp add: good_part_def)

lemma frames_exist:
  "\<exists>ps rest. bs = frames_bytes A ps @ rest \<and> (\<forall>p \<in> set ps. good_part A limits p) \<and>
     no_frame A limits rest"
proof (induction "length bs" arbitrary: bs rule: less_induct)
  case less
  show ?case
  proof (cases "no_frame A limits bs")
    case True
    then show ?thesis by (intro exI [of _ "[]"] exI [of _ bs]) simp
  next
    case False
    then obtain p tl where bs: "bs = frame_bytes A p @ tl" and p: "good_part A limits p"
      by (auto simp: no_frame_def)
    then obtain ps rest where "tl = frames_bytes A ps @ rest"
      "\<forall>p \<in> set ps. good_part A limits p" "no_frame A limits rest"
      using less [of tl] by auto
    with bs p show ?thesis by (intro exI [of _ "p # ps"]) auto
  qed
qed

lemma frames_unique:
  assumes "frames_bytes A ps @ r = frames_bytes A qs @ s"
    and "\<forall>p \<in> set ps. good_part A limits p" "\<forall>p \<in> set qs. good_part A limits p"
    and "no_frame A limits r" "no_frame A limits s"
  shows "ps = qs \<and> r = s"
  using assms
proof (induction ps arbitrary: qs)
  case Nil
  then show ?case by (cases qs) (auto simp: no_frame_def)
next
  case (Cons p ps)
  show ?case
  proof (cases qs)
    case Nil
    with Cons.prems show ?thesis by (auto simp: no_frame_def)
  next
    case (Cons q qs')
    have "p = q \<and> frames_bytes A ps @ r = frames_bytes A qs' @ s"
      using Cons.prems Cons good_part_small
      by (intro frame_bytes_prefix_free [of A]) auto
    with Cons.IH [of qs'] Cons.prems Cons show ?thesis by auto
  qed
qed

section \<open>Properties\<close>

text \<open>
  C14: the scanner finds the maximal run of valid frames. Over a journal made of any prefix,
  frames of valid parts within the length limit, and a rest that does not start with a valid
  frame, it returns one reference per part, in order and with absolute offsets, and the length
  of the prefix that ends with the last valid frame; one part more than the limit is an error.
  Whatever follows the first damage is never returned.
\<close>

theorem scan_journal_exact:
  assumes "length pre + length (frames_bytes A ps) + length rest < 2 ^ 64"
    and "\<forall>p \<in> set ps. good_part A limits p" and "no_frame A limits rest"
  shows "scan_journal_streaming_strict_from A (slice_source (pre @ frames_bytes A ps @ rest))
      (length pre) limits max_parts grow =
    (if length ps \<le> max_parts
     then Ok \<lparr>parts = refs_from (length pre) ps,
             valid_len = length pre + length (frames_bytes A ps)\<rparr>
     else Err (PartLimitExceeded max_parts))"
  using assms by (intro slice.scan_frames [OF _ refl]) simp_all

lemma sample_lengths [simp]:
  "length (bodies_of sample_sections) = 4" "length sample_sections = 2"
  by (simp_all add: bodies_of_def sample_sections_def)

lemma good_sample_part:
  "good_part crc_iscsi default_journal_limits
     (part_bytes crc_iscsi (bodies_of sample_sections)
       (part_catalog crc_iscsi sample_sections sample_meta))"
proof -
  show ?thesis
    using validate_built_part(1) [OF crc_iscsi_laws sample_sections_ok sample_build(2,1)]
    by (simp add: good_part_def default_journal_limits_def MAX_PART_LEN_def is_ok_iff)
qed

theorem scan_journal_exact_witness:
  "let p = part_bytes crc_iscsi (bodies_of sample_sections)
         (part_catalog crc_iscsi sample_sections sample_meta);
       r = scan_journal_streaming_strict_from crc_iscsi
         (slice_source (replicate 36 0 @ frames_bytes crc_iscsi [p, p] @ [1, 2, 3]))
         36 default_journal_limits 5 (\<lambda>old len. len)
   in r = Ok \<lparr>parts = [\<lparr>p_offset = 52, p_len = 112\<rparr>, \<lparr>p_offset = 180, p_len = 112\<rparr>],
              valid_len = 292\<rparr>"
proof -
  let ?p = "part_bytes crc_iscsi (bodies_of sample_sections)
         (part_catalog crc_iscsi sample_sections sample_meta)"
  have nf: "no_frame crc_iscsi default_journal_limits [1, 2, 3]"
  proof -
    have "[1, 2, 3 :: u8] \<noteq> frame_bytes crc_iscsi p @ t" for p t
      by (rule notI, drule arg_cong [of _ _ length]) simp
    then show ?thesis by (simp add: no_frame_def)
  qed
  from scan_journal_exact [of "replicate 36 0" crc_iscsi "[?p, ?p]" "[1, 2, 3]"
      default_journal_limits 5 "\<lambda>old len. len"] good_sample_part nf
  show ?thesis by simp
qed

text \<open>
  Every byte source holds exactly one such run from any start inside it, so the scan is
  total: it returns the references of that run or the part-limit error, never an I/O error and
  never a partial answer.
\<close>

lemma scan_journal_total:
  assumes "length bs < 2 ^ 64" and "start \<le> length bs"
  shows "\<exists>!(ps, rest). drop start bs = frames_bytes A ps @ rest \<and>
      (\<forall>p \<in> set ps. good_part A limits p) \<and> no_frame A limits rest \<and>
      scan_journal_streaming_strict_from A (slice_source bs) start limits max_parts grow =
        (if length ps \<le> max_parts
         then Ok \<lparr>parts = refs_from start ps, valid_len = start + length (frames_bytes A ps)\<rparr>
         else Err (PartLimitExceeded max_parts))"
proof -
  obtain ps rest where d: "drop start bs = frames_bytes A ps @ rest"
    and good: "\<forall>p \<in> set ps. good_part A limits p" and nf: "no_frame A limits rest"
    using frames_exist by blast
  have bs: "bs = take start bs @ frames_bytes A ps @ rest" by (simp flip: d)
  have "length (take start bs) = start" using assms(2) by simp
  with slice.scan_frames [OF assms(1) bs good nf, of max_parts grow]
  have scan: "scan_journal_streaming_strict_from A (slice_source bs) start limits max_parts grow =
        (if length ps \<le> max_parts
         then Ok \<lparr>parts = refs_from start ps, valid_len = start + length (frames_bytes A ps)\<rparr>
         else Err (PartLimitExceeded max_parts))"
    by simp
  have uniq: "qs = ps \<and> r = rest"
    if "drop start bs = frames_bytes A qs @ r" "\<forall>p \<in> set qs. good_part A limits p"
      "no_frame A limits r" for qs r
    using that d good nf by (intro frames_unique [of A _ _ _ _ limits]) simp_all
  show ?thesis
  proof (rule ex1I [of _ "(ps, rest)"], unfold prod.case)
    show "drop start bs = frames_bytes A ps @ rest \<and> (\<forall>p \<in> set ps. good_part A limits p) \<and>
      no_frame A limits rest \<and>
      scan_journal_streaming_strict_from A (slice_source bs) start limits max_parts grow =
        (if length ps \<le> max_parts
         then Ok \<lparr>parts = refs_from start ps, valid_len = start + length (frames_bytes A ps)\<rparr>
         else Err (PartLimitExceeded max_parts))"
      by (intro conjI d good nf scan)
  qed (use uniq in blast)
qed

end
