(* ===== verification/Journal_File.thy ===== *)
theory Journal_File
  imports Journal_Scan
begin

text \<open>
  The journal's file as the standard library gives it to
  \<open>crates/kronika-writer/src/journal\<close>: bytes, a cursor, and the four mutating calls the code
  issues (\<open>seek\<close>, \<open>write_all\<close>, \<open>set_len\<close>, \<open>sync_data\<close>). Every call may fail; the schedule
  \<open>faults\<close> says which of the coming calls do, and how many bytes a failing \<open>write_all\<close> has
  written before. \<open>durable\<close> is what the last successful \<open>sync_data\<close> made persistent.
\<close>

section \<open>Files and calls\<close>

datatype io_fault = NoFault | Fault io_error nat

record os_file =
  content :: bytes
  cursor :: nat
  durable :: bytes
  faults :: "io_fault list"
  read_fault :: "nat \<Rightarrow> nat \<Rightarrow> io_error option"
  len_fault :: "io_error option"

datatype file_op = SeekTo nat | WriteAll bytes | SetLen nat | SyncData

text \<open>A write past the end fills the gap with zeros, as does an extending \<open>set_len\<close>.\<close>

definition write_at :: "nat \<Rightarrow> bytes \<Rightarrow> bytes \<Rightarrow> bytes" where
  "write_at at bs c =
     (if bs = [] then c
      else take at c @ replicate (at - length c) 0 @ bs @ drop (at + length bs) c)"

definition resize :: "nat \<Rightarrow> bytes \<Rightarrow> bytes" where
  "resize n c = take n c @ replicate (n - length c) 0"

fun apply_op :: "file_op \<Rightarrow> os_file \<Rightarrow> os_file" where
  "apply_op (SeekTo n) f = f\<lparr>cursor := n\<rparr>"
| "apply_op (WriteAll bs) f =
     f\<lparr>content := write_at (cursor f) bs (content f), cursor := cursor f + length bs\<rparr>"
| "apply_op (SetLen n) f = f\<lparr>content := resize n (content f)\<rparr>"
| "apply_op SyncData f = f\<lparr>durable := content f\<rparr>"

text \<open>What a failing call has done: a prefix of the bytes, or nothing.\<close>

fun partial_op :: "nat \<Rightarrow> file_op \<Rightarrow> os_file \<Rightarrow> os_file" where
  "partial_op k (WriteAll bs) f = apply_op (WriteAll (take k bs)) f"
| "partial_op k _ f = f"

definition next_fault :: "os_file \<Rightarrow> io_fault" where
  "next_fault f = (case faults f of [] \<Rightarrow> NoFault | x # _ \<Rightarrow> x)"

definition consume :: "os_file \<Rightarrow> os_file" where
  "consume f = f\<lparr>faults := tl (faults f)\<rparr>"

definition exec_op :: "file_op \<Rightarrow> os_file \<Rightarrow> (io_error + unit) \<times> os_file" where
  "exec_op op f =
     (case next_fault f of
        NoFault \<Rightarrow> (Ok (), apply_op op (consume f))
      | Fault e k \<Rightarrow> (Err e, partial_op k op (consume f)))"

text \<open>A sequence of calls joined by \<open>?\<close>: it stops at the first error.\<close>

fun exec_ops :: "file_op list \<Rightarrow> os_file \<Rightarrow> (io_error + unit) \<times> os_file" where
  "exec_ops [] f = (Ok (), f)"
| "exec_ops (op # ops) f =
     (case exec_op op f of
        (Err e, f) \<Rightarrow> (Err e, f)
      | (Ok _, f) \<Rightarrow> exec_ops ops f)"

section \<open>Reading\<close>

definition file_read_exact_at :: "os_file \<Rightarrow> nat \<Rightarrow> nat \<Rightarrow> io_error + bytes" where
  "file_read_exact_at f n off =
     (case read_fault f n off of
        Some e \<Rightarrow> Err e
      | None \<Rightarrow> slice_read_exact_at (content f) n off)"

definition metadata_len :: "os_file \<Rightarrow> io_error + nat" where
  "metadata_len f = (case len_fault f of Some e \<Rightarrow> Err e | None \<Rightarrow> Ok (length (content f)))"

definition file_source :: "os_file \<Rightarrow> read_at" where
  "file_source f = \<lparr>read_exact_at = file_read_exact_at f, byte_len = metadata_len f\<rparr>"

definition readable :: "os_file \<Rightarrow> bool" where
  "readable f \<longleftrightarrow> read_fault f = (\<lambda>n off. None) \<and> len_fault f = None"

lemma file_source_readable: "readable f \<Longrightarrow> byte_source (file_source f) (content f)"
  by unfold_locales
    (auto simp: readable_def file_source_def metadata_len_def file_read_exact_at_def
      slice_read_exact_at_def checked_add_usize_def)

section \<open>The composite writes of the journal\<close>

definition write_header :: "'d crc_alg \<Rightarrow> journal_header \<Rightarrow> file_op list" where
  "write_header A h = [SeekTo 0, WriteAll (JournalHeader_encode A h)]"

definition write_frame :: "nat \<Rightarrow> bytes \<Rightarrow> bytes \<Rightarrow> file_op list" where
  "write_frame at header part = [SeekTo at, WriteAll header, WriteAll part]"

definition rollback :: "'d crc_alg \<Rightarrow> nat \<Rightarrow> journal_header \<Rightarrow> file_op list" where
  "rollback A end_at header = [SetLen end_at] @ write_header A header @ [SyncData]"

definition finish_committed_reset :: "'d crc_alg \<Rightarrow> file_op list" where
  "finish_committed_reset A =
     write_header A EMPTY_HEADER @ [SyncData, SetLen JOURNAL_HEADER_LEN, SyncData]"

section \<open>Facts\<close>

lemma exec_ops_append:
  "exec_ops (a @ b) f =
     (case exec_ops a f of (Err e, f') \<Rightarrow> (Err e, f') | (Ok _, f') \<Rightarrow> exec_ops b f')"
  by (induction a arbitrary: f) (auto split: prod.splits sum.splits)

text \<open>Parts of the file no call touches.\<close>

lemma apply_op_frame [simp]:
  "read_fault (apply_op op f) = read_fault f" "len_fault (apply_op op f) = len_fault f"
  "faults (apply_op op f) = faults f"
  by (cases op; simp)+

lemma partial_op_frame [simp]:
  "read_fault (partial_op k op f) = read_fault f" "len_fault (partial_op k op f) = len_fault f"
  "durable (partial_op k op f) = durable f"
  by (cases op; simp)+

lemma consume_frame [simp]:
  "content (consume f) = content f" "cursor (consume f) = cursor f" "durable (consume f) = durable f"
  "read_fault (consume f) = read_fault f" "len_fault (consume f) = len_fault f"
  by (simp_all add: consume_def)

lemma exec_op_cases:
  obtains "exec_op op f = (Ok (), apply_op op (consume f))"
  | e k where "exec_op op f = (Err e, partial_op k op (consume f))"
  by (cases "next_fault f") (auto simp: exec_op_def)

lemma exec_op_frame [simp]:
  "read_fault (snd (exec_op op f)) = read_fault f" "len_fault (snd (exec_op op f)) = len_fault f"
  by (rule exec_op_cases [of op f]; simp)+

lemma exec_ops_frame [simp]:
  "read_fault (snd (exec_ops ops f)) = read_fault f \<and> len_fault (snd (exec_ops ops f)) = len_fault f"
proof (induction ops arbitrary: f)
  case (Cons op ops)
  then show ?case
    by (cases "exec_op op f") (use exec_op_frame [of op f] Cons.IH in \<open>auto split: sum.splits\<close>)
qed simp

text \<open>
  The region that a rollback restores from: everything from the root header up to \<open>e\<close>. A
  sequence \<open>keeps\<close> it when each write stays inside the header or begins at \<open>e\<close> or later.
\<close>

definition body_kept :: "nat \<Rightarrow> bytes \<Rightarrow> bytes \<Rightarrow> bool" where
  "body_kept e c c' \<longleftrightarrow> e \<le> length c' \<and> drop JOURNAL_HEADER_LEN (take e c') = drop JOURNAL_HEADER_LEN (take e c)"

fun keeps :: "nat \<Rightarrow> nat \<Rightarrow> file_op list \<Rightarrow> bool" where
  "keeps e cur [] = True"
| "keeps e cur (SeekTo n # ops) = keeps e n ops"
| "keeps e cur (WriteAll bs # ops) =
     ((cur + length bs \<le> JOURNAL_HEADER_LEN \<or> e \<le> cur) \<and> keeps e (cur + length bs) ops)"
| "keeps e cur (SetLen n # ops) = False"
| "keeps e cur (SyncData # ops) = keeps e cur ops"

lemma length_write_at [simp]:
  "length (write_at at bs c) = (if bs = [] then length c else max (length c) (at + length bs))"
  by (auto simp: write_at_def max_def)

lemma write_at_kept:
  assumes "body_kept e c c'" and "at + length bs \<le> 36 \<or> e \<le> at" and "36 \<le> e"
  shows "body_kept e c (write_at at bs c')"
  using assms(2)
proof
  assume "e \<le> at"
  then have "take e (write_at at bs c') = take e c'"
    using assms(1) by (simp add: write_at_def body_kept_def)
  then show ?thesis using assms(1) by (auto simp: body_kept_def)
next
  assume h: "at + length bs \<le> 36"
  have len: "e \<le> length c'" using assms(1) by (simp add: body_kept_def)
  have "drop 36 (write_at at bs c') = drop 36 c'"
    using h len assms(3) by (simp add: write_at_def)
  then have "drop 36 (take e (write_at at bs c')) = drop 36 (take e c')"
    by (simp only: drop_take)
  then show ?thesis using assms(1) len by (auto simp: body_kept_def)
qed

lemma exec_ops_kept:
  assumes "keeps e (cursor f) ops" and "36 \<le> e" and "body_kept e c (content f)"
  shows "body_kept e c (content (snd (exec_ops ops f)))"
  using assms
proof (induction ops arbitrary: f)
  case (Cons op ops)
  show ?case
  proof (rule exec_op_cases [of op f])
    assume ok: "exec_op op f = (Ok (), apply_op op (consume f))"
    have "keeps e (cursor (apply_op op (consume f))) ops \<and> body_kept e c (content (apply_op op (consume f)))"
      using Cons.prems by (cases op) (auto intro: write_at_kept)
    with Cons.IH Cons.prems(2) ok show ?thesis by simp
  next
    fix err k assume "exec_op op f = (Err err, partial_op k op (consume f))"
    moreover have "body_kept e c (content (partial_op k op (consume f)))"
      using Cons.prems by (cases op) (auto intro!: write_at_kept)
    ultimately show ?thesis by simp
  qed
qed simp

text \<open>A sequence that returned \<open>Ok\<close> has made all its calls.\<close>

definition same_file :: "os_file \<Rightarrow> os_file \<Rightarrow> bool" where
  "same_file f g \<longleftrightarrow> content f = content g \<and> cursor f = cursor g \<and> durable f = durable g"

lemma same_file_apply: "same_file f g \<Longrightarrow> same_file (apply_op op f) (apply_op op g)"
  by (cases op) (auto simp: same_file_def)

lemma same_file_fold: "same_file f g \<Longrightarrow> same_file (fold apply_op ops f) (fold apply_op ops g)"
  by (induction ops arbitrary: f g) (auto simp: same_file_apply)

lemma same_file_consume: "same_file (consume f) f" "same_file f f"
  by (simp_all add: same_file_def)

lemma same_file_trans: "same_file f g \<Longrightarrow> same_file g h \<Longrightarrow> same_file f h"
  by (simp add: same_file_def)

lemma exec_ops_Ok: "exec_ops ops f = (Ok u, f') \<Longrightarrow> same_file f' (fold apply_op ops f)"
proof (induction ops arbitrary: f)
  case (Cons op ops)
  have "exec_op op f = (Ok (), apply_op op (consume f))"
    using Cons.prems by (cases rule: exec_op_cases [of op f]) auto
  with Cons.prems have "same_file f' (fold apply_op ops (apply_op op (consume f)))"
    by (intro Cons.IH) simp
  then show ?case
    using same_file_trans same_file_fold [OF same_file_apply [OF same_file_consume(1)]] by fastforce
qed (auto simp: same_file_def)

lemma fold_frame [simp]:
  "read_fault (fold apply_op ops f) = read_fault f" "len_fault (fold apply_op ops f) = len_fault f"
  by (induction ops arbitrary: f) auto

lemma exec_ops_no_faults:
  assumes "faults f = []"
  shows "exec_ops ops f = (Ok (), fold apply_op ops f)"
  using assms
proof (induction ops arbitrary: f)
  case (Cons op ops)
  then have "consume f = f" by (simp add: consume_def)
  with Cons show ?case by (simp add: exec_op_def next_fault_def)
qed simp

section \<open>Crashes\<close>

text \<open>
  The process dies inside a sequence: \<open>k\<close> calls are complete and the next, when it is a write,
  has reached its first \<open>j\<close> bytes.
\<close>

definition crash_at :: "nat \<Rightarrow> nat \<Rightarrow> file_op list \<Rightarrow> os_file \<Rightarrow> os_file" where
  "crash_at k j ops f =
     (let g = fold apply_op (take k ops) f in
      if k < length ops then partial_op j (ops ! k) g else g)"

lemma crash_at_0: "crash_at 0 j (op # ops) f = partial_op j op f"
  by (simp add: crash_at_def)

lemma crash_at_Suc: "crash_at (Suc k) j (op # ops) f = crash_at k j ops (apply_op op f)"
  by (simp add: crash_at_def Let_def)

lemma crash_at_append:
  "crash_at (length a + k) j (a @ b) f = crash_at k j b (fold apply_op a f)"
  by (induction a arbitrary: f) (simp_all add: crash_at_Suc)

text \<open>The text of a file after the writes the journal makes.\<close>

lemma write_at_end: "write_at (length c) bs c = c @ bs"
  by (simp add: write_at_def)

lemma write_at_start: "length bs = length h \<Longrightarrow> write_at 0 bs (h @ c) = bs @ c"
  by (auto simp: write_at_def)

lemma write_at_start_part:
  "k \<le> length bs \<Longrightarrow> length bs = length h \<Longrightarrow>
     write_at 0 (take k bs) (h @ c) = (take k bs @ drop k h) @ c"
  by (auto simp: write_at_def)

lemma resize_cut: "n = length c \<Longrightarrow> resize n (c @ d) = c"
  by (simp add: resize_def)

end
