(* ===== verification/Layout_Civil.thy ===== *)
theory Layout_Civil
  imports Prelude "HOL-Library.Signed_Division"
begin

text \<open>
  The calendar arithmetic of \<open>crates/kronika-layout/src/time.rs\<close>: leap years, month lengths and
  the closed formula from a day number to a civil date. The formula is proved against the
  calendar itself: it maps consecutive day numbers to consecutive calendar days, from
  1 January 1970, and it is strictly monotone.
\<close>

section \<open>Calendar arithmetic\<close>

definition MICROS_PER_DAY :: int where "MICROS_PER_DAY = 86400000000"

text \<open>The Rust arguments are a \<open>u16\<close> year and a \<open>u8\<close> month; the arithmetic is on integers.\<close>

definition is_leap_year :: "int \<Rightarrow> bool" where
  "is_leap_year y \<longleftrightarrow> 4 dvd y \<and> (\<not> 100 dvd y \<or> 400 dvd y)"

definition days_in_month :: "int \<Rightarrow> int \<Rightarrow> int" where
  "days_in_month y m =
     (if m \<in> {1, 3, 5, 7, 8, 10, 12} then 31
      else if m \<in> {4, 6, 9, 11} then 30
      else if m = 2 \<and> is_leap_year y then 29
      else if m = 2 then 28
      else 0)"

text \<open>
  \<open>civil_from_days\<close>; \<open>sdiv\<close> truncates, as Rust's \<open>/\<close> does. For the day numbers of an
  \<open>i64\<close> microsecond timestamp no step leaves the \<open>i64\<close> range.
\<close>

definition year_of_era :: "int \<Rightarrow> int" where
  "year_of_era doe = (doe - doe sdiv 1460 + doe sdiv 36524 - doe sdiv 146096) sdiv 365"

definition month_day :: "int \<Rightarrow> int \<times> int" where
  "month_day day_of_year =
     (let month_prime = (5 * day_of_year + 2) sdiv 153;
          day = day_of_year - (153 * month_prime + 2) sdiv 5 + 1;
          month = month_prime + (if month_prime < 10 then 3 else - 9)
      in (month, day))"

definition civil_from_days :: "int \<Rightarrow> int \<times> int \<times> int" where
  "civil_from_days days_since_epoch =
     (let shifted = days_since_epoch + 719468;
          era = (if shifted \<ge> 0 then shifted else shifted - 146096) sdiv 146097;
          day_of_era = shifted - era * 146097;
          yoe = year_of_era day_of_era;
          year = yoe + era * 400;
          day_of_year = day_of_era - (365 * yoe + yoe sdiv 4 - yoe sdiv 100);
          (month, day) = month_day day_of_year;
          year = (if month \<le> 2 then year + 1 else year)
      in (year, month, day))"

section \<open>The calendar\<close>

definition next_day :: "int \<times> int \<times> int \<Rightarrow> int \<times> int \<times> int" where
  "next_day t = (case t of (y, m, d) \<Rightarrow>
     if d < days_in_month y m then (y, m, d + 1)
     else if m < 12 then (y, m + 1, 1)
     else (y + 1, 1, 1))"

definition valid_date :: "int \<times> int \<times> int \<Rightarrow> bool" where
  "valid_date t = (case t of (y, m, d) \<Rightarrow> 1 \<le> m \<and> m \<le> 12 \<and> 1 \<le> d \<and> d \<le> days_in_month y m)"

lemma sdiv_nonneg: "0 \<le> a \<Longrightarrow> 0 < b \<Longrightarrow> a sdiv b = a div (b :: int)"
  by (cases "a = 0") (simp_all add: signed_divide_int_def)

text \<open>Truncation with the correction for negative day numbers is the floor.\<close>

lemma era_floor:
  "(if x \<ge> 0 then x else x - 146096) sdiv 146097 = x div (146097 :: int)"
proof (cases "x \<ge> 0")
  case True
  then show ?thesis by (simp add: sdiv_nonneg)
next
  case False
  then have "(x - 146096) sdiv 146097 = - ((146096 - x) div 146097)"
    by (simp add: signed_divide_int_def)
  also have "\<dots> = x div 146097" using False by linarith
  finally show ?thesis using False by simp
qed

text \<open>Years that start in March: start day within the era, and length.\<close>

definition year_start :: "int \<Rightarrow> int" where
  "year_start y = 365 * y + y div 4 - y div 100"

definition march_year_len :: "int \<Rightarrow> int" where
  "march_year_len y = (if is_leap_year (y + 1) then 366 else 365)"

text \<open>Quotients of neighbours.\<close>

lemma div_Suc_int:
  assumes "0 < b"
  shows "(y + 1) div b = y div b + (if b dvd y + 1 then 1 else (0::int))"
proof (cases "b dvd y + 1")
  case True
  then obtain k where k: "y + 1 = b * k" by blast
  have "y div b = k - 1"
    by (rule int_div_pos_eq [of _ _ _ "b - 1"]) (use assms k in \<open>auto simp: algebra_simps\<close>)
  moreover have "(y + 1) div b = k" using assms k by simp
  ultimately show ?thesis using True by simp
next
  case False
  have "(y + 1) mod b \<noteq> 0" using False by (simp add: dvd_eq_mod_eq_0)
  then have pos: "0 < (y + 1) mod b" using pos_mod_sign [of b "y + 1"] assms by linarith
  have "y = b * ((y + 1) div b) + ((y + 1) mod b - 1)"
    using mult_div_mod_eq [of b "y + 1"] by linarith
  then have "y div b = (y + 1) div b"
    by (rule int_div_pos_eq) (use pos pos_mod_bound [OF assms, of "y + 1"] in linarith)+
  with False show ?thesis by simp
qed

lemma year_start_Suc:
  assumes "0 \<le> y" "y < 399"
  shows "year_start (y + 1) = year_start y + march_year_len y"
proof -
  have "\<not> 400 dvd y + 1" using assms by (auto dest!: zdvd_imp_le)
  moreover have "100 dvd y + 1 \<Longrightarrow> 4 dvd y + 1" by (rule dvd_trans [of _ 100]) simp_all
  ultimately show ?thesis
    by (auto simp: year_start_def march_year_len_def is_leap_year_def div_Suc_int)
qed

lemma year_start_mono:
  assumes "0 \<le> a" "a < b"
  shows "year_start a + 365 \<le> year_start b"
proof -
  have "year_start (a + int n + 1) \<ge> year_start a + 365" for n
  proof (induction n)
    case 0
    then show ?case by (auto simp: year_start_def div_Suc_int elim: dvd_trans [rotated])
  next
    case (Suc n)
    have "100 dvd a + int n + 2 \<Longrightarrow> 4 dvd a + int n + 2" by (rule dvd_trans [of _ 100]) simp_all
    then have "year_start (a + int n + 1 + 1) \<ge> year_start (a + int n + 1)"
      unfolding year_start_def div_Suc_int [of 4 "a + int n + 1", simplified] div_Suc_int [of 100 "a + int n + 1", simplified]
      by (auto simp: add.assoc)
    with Suc show ?case by (simp add: algebra_simps)
  qed
  from this [of "nat (b - a - 1)"] assms show ?thesis by simp
qed

lemma year_of_era_split:
  assumes c: "0 \<le> c" "c \<le> 3" and q: "0 \<le> q" "q \<le> 24" and s: "0 \<le> s" "s \<le> 1460"
    and last: "q = 24 \<and> s = 1460 \<longrightarrow> c = 3"
  shows "year_of_era (36524 * c + 1461 * q + s) = 100 * c + 4 * q + min 3 (s div 365)"
proof -
  let ?d = "36524 * c + 1461 * q + s"
  define e where "e = (if 24 * c + q + s < 1460 then 0 else 1 :: int)"
  have d0: "0 \<le> ?d" using assms by simp
  have d1460: "?d div 1460 = 25 * c + q + e"
    by (rule int_div_pos_eq [of _ _ _ "24 * c + q + s - 1460 * e"])
      (use assms in \<open>auto simp: e_def\<close>)
  have full: "?d div 36524 - ?d div 146096 = c"
  proof (cases "q = 24 \<and> s = 1460")
    case True
    then show ?thesis using last by simp
  next
    case False
    then have r: "1461 * q + s < 36524" using q s by auto
    have "?d div 36524 = c"
      by (rule int_div_pos_eq [of _ _ _ "1461 * q + s"]) (use q s r in auto)
    moreover have "?d div 146096 = 0"
      using c r d0 by (intro div_pos_pos_trivial) auto
    ultimately show ?thesis by simp
  qed
  have num: "?d - ?d div 1460 + ?d div 36524 - ?d div 146096 = 36500 * c + 1460 * q + s - e"
    using full d1460 by linarith
  have "(36500 * c + 1460 * q + s - e) div 365 = 100 * c + 4 * q + (s - e) div 365"
  proof -
    have "36500 * c + 1460 * q + s - e = (s - e) + 365 * (100 * c + 4 * q)" by simp
    then show ?thesis by (simp only: div_mult_self2)
  qed
  moreover have "(s - e) div 365 = min 3 (s div 365)"
  proof (cases "e = 0")
    case True
    then have "s < 1460" using c q by (auto simp: e_def split: if_splits)
    then have "s div 365 \<le> 3" using s by linarith
    with True show ?thesis by simp
  next
    case False
    then have "e = 1" and "1095 < s" using c q by (auto simp: e_def split: if_splits)
    then show ?thesis using s by (auto simp: int_div_pos_eq [of "s - 1" 365 3 "s - 1096"])
  qed
  ultimately have "(?d - ?d div 1460 + ?d div 36524 - ?d div 146096) div 365
      = 100 * c + 4 * q + min 3 (s div 365)" unfolding num by simp
  moreover have "0 \<le> ?d - ?d div 1460 + ?d div 36524 - ?d div 146096"
    unfolding num using c q s by (auto simp: e_def)
  ultimately show ?thesis
    using d0 by (simp add: year_of_era_def sdiv_nonneg)
qed

lemma era_year:
  assumes "0 \<le> doe" "doe < 146097"
  shows "0 \<le> year_of_era doe \<and> year_of_era doe \<le> 399 \<and>
    year_start (year_of_era doe) \<le> doe \<and>
    doe < year_start (year_of_era doe) + march_year_len (year_of_era doe)"
proof -
  define c where "c = min 3 (doe div 36524)"
  define r where "r = doe - 36524 * c"
  define q where "q = r div 1461"
  define s where "s = r mod 1461"
  define m where "m = min 3 (s div 365)"
  have c: "0 \<le> c" "c \<le> 3" using assms by (simp_all add: c_def)
  have r: "0 \<le> r" "r \<le> 36524" "r = 36524 \<longrightarrow> c = 3"
    using assms by (auto simp: r_def c_def min_def)
  have rq: "r = 1461 * q + s" by (simp add: q_def s_def)
  have q: "0 \<le> q" "q \<le> 24" using r by (auto simp: q_def)
  have s: "0 \<le> s" "s \<le> 1460" by (simp_all add: s_def)
  have doe: "doe = 36524 * c + 1461 * q + s" using rq by (simp add: r_def)
  have last: "q = 24 \<and> s = 1460 \<longrightarrow> c = 3" using r(3) rq by auto
  have y: "year_of_era doe = 100 * c + 4 * q + m"
    unfolding doe m_def by (rule year_of_era_split [OF c q s last])
  have m: "0 \<le> m" "m \<le> 3" "365 * m \<le> s" "s < 365 * m + 365 \<or> m = 3"
    using s by (auto simp: m_def min_def)
  have d100: "(100 * c + 4 * q + m) div 100 = c"
    by (rule int_div_pos_eq [of _ _ _ "4 * q + m"]) (use q m in auto)
  have d4: "(100 * c + 4 * q + m) div 4 = 25 * c + q"
    by (rule int_div_pos_eq [of _ _ _ m]) (use m in auto)
  have st: "year_start (100 * c + 4 * q + m) = 36524 * c + 1461 * q + 365 * m"
    unfolding year_start_def d100 d4 by simp
  have "is_leap_year (100 * c + 4 * q + m + 1)" if "s = 1460"
  proof -
    have m3: "m = 3" using m that by auto
    show ?thesis
    proof (cases "q = 24")
      case True
      then show ?thesis using last that m3 by (simp add: is_leap_year_def)
    next
      case False
      then have "0 < 4 * q + 4" "4 * q + 4 < 100" using q by auto
      then have "\<not> 100 dvd 100 * c + (4 * q + 4)"
        by (simp add: dvd_add_right_iff zdvd_not_zless)
      moreover have "100 * c + 4 * q + m + 1 = 100 * c + (4 * q + 4)" using m3 by simp
      moreover have "4 dvd 100 * c + (4 * q + 4)" by presburger
      ultimately show ?thesis unfolding is_leap_year_def by metis
    qed
  qed
  then have "s - 365 * m < march_year_len (100 * c + 4 * q + m)"
    using m s by (cases "s = 1460") (auto simp: march_year_len_def)
  then show ?thesis unfolding y st using doe c q m by linarith
qed

lemma year_of_era_unique:
  assumes y: "0 \<le> y" "y \<le> 399" and k: "0 \<le> k" "k < march_year_len y"
  shows "year_of_era (year_start y + k) = y"
proof -
  let ?doe = "year_start y + k"
  have "year_start y \<le> year_start 399" using year_start_mono [of y 399] y
    by (cases "y = 399") auto
  have lo: "0 \<le> year_start y" using year_start_mono [of 0 y] y
    by (cases "y = 0") (auto simp: year_start_def)
  have hi: "?doe < 146097"
  proof (cases "y = 399")
    case True
    then show ?thesis using k by (simp add: year_start_def march_year_len_def split: if_splits)
  next
    case False
    then have "year_start y + march_year_len y = year_start (y + 1)"
      using year_start_Suc [of y] y by simp
    moreover have "year_start (y + 1) \<le> 145731"
      using year_start_mono [of "y + 1" 399] y False
      by (cases "y + 1 = 399") (auto simp: year_start_def)
    ultimately show ?thesis using k by simp
  qed
  let ?z = "year_of_era ?doe"
  have z: "0 \<le> ?z" "?z \<le> 399" "year_start ?z \<le> ?doe" "?doe < year_start ?z + march_year_len ?z"
    using era_year [of ?doe] lo k hi by auto
  have step: "year_start a + march_year_len a \<le> year_start b" if "0 \<le> a" "a < b" "b \<le> 399" for a b
    using year_start_Suc [of a] year_start_mono [of "a + 1" b] that by (cases "a + 1 = b") auto
  show ?thesis
    using step [of y ?z] step [of ?z y] z y k by (cases y ?z rule: linorder_cases) auto
qed

lemma civil_eq:
  assumes n: "n + 719468 = 146097 * e + year_start y + k"
    and y: "0 \<le> y" "y \<le> 399" and k: "0 \<le> k" "k < march_year_len y"
  shows "civil_from_days n = (let (m, d) = month_day k in
    (if m \<le> 2 then y + e * 400 + 1 else y + e * 400, m, d))"
proof -
  have lo: "0 \<le> year_start y" using year_start_mono [of 0 y] y
    by (cases "y = 0") (auto simp: year_start_def)
  have z: "year_of_era (year_start y + k) = y" using y k by (rule year_of_era_unique)
  have "year_start y + k < 146097"
  proof (cases "y = 399")
    case True
    then show ?thesis using k by (simp add: year_start_def march_year_len_def split: if_splits)
  next
    case False
    then show ?thesis
      using year_start_Suc [of y] year_start_mono [of "y + 1" 399] y k
      by (cases "y + 1 = 399") (auto simp: year_start_def)
  qed
  then have era: "(n + 719468) div 146097 = e"
    unfolding n by (intro int_div_pos_eq [of _ _ _ "year_start y + k"]) (use lo k in auto)
  have "n + 719468 - e * 146097 = year_start y + k" using n by simp
  then show ?thesis
    using y by (simp add: civil_from_days_def era_floor era z Let_def sdiv_nonneg
        year_start_def [symmetric] split_beta)
qed

definition md_step_ok :: "int \<Rightarrow> bool" where
  "md_step_ok k =
     (let (m, d) = month_day k; (m', d') = month_day (k + 1) in
      1 \<le> m \<and> m \<le> 12 \<and> 1 \<le> d \<and> d \<le> days_in_month 1 m \<and> (m = 2 \<longrightarrow> d < 28) \<and>
      (if d < days_in_month 1 m then m' = m \<and> d' = d + 1
       else m \<noteq> 2 \<and> m' = (if m < 12 then m + 1 else 1) \<and> d' = 1))"

lemma md_table: "list_all md_step_ok [0..363]"
  by code_simp

lemma month_day_step:
  assumes "0 \<le> k" "k < 364"
  shows "md_step_ok k"
  using md_table assms by (simp add: list_all_iff)

lemma month_day_ends:
  "month_day 0 = (3, 1)" "month_day 306 = (1, 1)" "month_day 364 = (2, 28)" "month_day 365 = (2, 29)"
  by code_simp+

text \<open>Where one civil day lies: era, March-based year and day of that year.\<close>

lemma civil_position:
  obtains e y k where "n + 719468 = 146097 * e + year_start y + k"
    "0 \<le> y" "y \<le> 399" "0 \<le> k" "k < march_year_len y"
proof -
  let ?d = "(n + 719468) mod 146097"
  have "n + 719468 = 146097 * ((n + 719468) div 146097) + year_start (year_of_era ?d) + (?d - year_start (year_of_era ?d))"
    by simp
  then show thesis
    by (rule that) (use era_year [of ?d] in auto)
qed

lemma leap_era: "is_leap_year (y + 400 * e) = is_leap_year y"
proof -
  have "(a :: int) dvd y + 400 * e \<longleftrightarrow> a dvd y" if "a dvd 400" for a
    using dvd_mult2 [OF that, of e] by (rule dvd_add_left_iff)
  then show ?thesis by (simp add: is_leap_year_def)
qed

lemma days_in_month_era: "m \<noteq> 2 \<Longrightarrow> days_in_month y m = days_in_month 1 m"
  by (simp add: days_in_month_def)

lemma civil_step_valid: "civil_from_days (n + 1) = next_day (civil_from_days n) \<and> valid_date (civil_from_days n)"
proof -
  obtain e y k where n: "n + 719468 = 146097 * e + year_start y + k"
    and y: "0 \<le> y" "y \<le> 399" and k: "0 \<le> k" "k < march_year_len y"
    by (rule civil_position)
  note here = civil_eq [OF n y k]
  have leap: "is_leap_year (y + e * 400 + 1) = is_leap_year (y + 1)"
    using leap_era [of "y + 1" e] by (simp add: algebra_simps)
  have long: "365 \<le> march_year_len y" by (simp add: march_year_len_def)
  have march: "civil_from_days (n + 1) = (y + e * 400 + 1, 3, 1)" if last: "k + 1 = march_year_len y"
  proof (cases "y = 399")
    case True
    then have "(n + 1) + 719468 = 146097 * (e + 1) + year_start 0 + 0"
      using n last by (simp add: march_year_len_def is_leap_year_def year_start_def)
    from civil_eq [OF this] True show ?thesis
      by (simp add: month_day_ends march_year_len_def)
  next
    case False
    then have "(n + 1) + 719468 = 146097 * e + year_start (y + 1) + 0"
      using n last year_start_Suc [of y] y by simp
    from civil_eq [OF this] y False show ?thesis
      by (simp add: month_day_ends march_year_len_def)
  qed
  have next_eq: "civil_from_days (n + 1) = (let (m, d) = month_day (k + 1) in
      (if m \<le> 2 then y + e * 400 + 1 else y + e * 400, m, d))" if "k + 1 < march_year_len y"
    by (rule civil_eq [of "n + 1"]) (use n y k that in auto)
  consider (low) "k < 364" | (feb28) "k = 364" | (feb29) "k = 365"
  proof -
    have "k < 364 \<or> k = 364 \<or> k = 365"
      using k by (cases "is_leap_year (y + 1)") (simp_all add: march_year_len_def, linarith+)
    then show thesis using that by blast
  qed
  then show ?thesis
  proof cases
    case low
    obtain m d m' d' where md: "month_day k = (m, d)" "month_day (k + 1) = (m', d')"
      by (metis surj_pair)
    have ok: "1 \<le> m" "m \<le> 12" "1 \<le> d" "d \<le> days_in_month 1 m" "m = 2 \<Longrightarrow> d < 28"
      "if d < days_in_month 1 m then m' = m \<and> d' = d + 1
       else m \<noteq> 2 \<and> m' = (if m < 12 then m + 1 else 1) \<and> d' = 1"
      using month_day_step [OF k(1) low] by (auto simp: md_step_ok_def md)
    have nxt: "civil_from_days (n + 1) = (if m' \<le> 2 then y + e * 400 + 1 else y + e * 400, m', d')"
      using next_eq low long by (simp add: md)
    have now: "civil_from_days n = (if m \<le> 2 then y + e * 400 + 1 else y + e * 400, m, d)"
      by (simp add: here md)
    show ?thesis
    proof (cases "m = 2")
      case True
      with ok now nxt show ?thesis
        by (auto simp: next_day_def valid_date_def days_in_month_def split: if_splits)
    next
      case False
      with ok now nxt days_in_month_era [OF False, of "y + e * 400"]
        days_in_month_era [OF False, of "y + e * 400 + 1"]
      show ?thesis
        by (auto simp: next_day_def valid_date_def split: if_splits)
    qed
  next
    case feb28
    then have now: "civil_from_days n = (y + e * 400 + 1, 2, 28)" by (simp add: here month_day_ends)
    show ?thesis
    proof (cases "is_leap_year (y + 1)")
      case True
      then have "civil_from_days (n + 1) = (y + e * 400 + 1, 2, 29)"
        using next_eq feb28 by (simp add: march_year_len_def month_day_ends)
      with now True show ?thesis
        by (simp add: next_day_def valid_date_def days_in_month_def leap)
    next
      case False
      with now march feb28 show ?thesis
        by (simp add: march_year_len_def next_day_def valid_date_def days_in_month_def leap)
    qed
  next
    case feb29
    then have l: "is_leap_year (y + 1)" using k by (auto simp: march_year_len_def split: if_splits)
    moreover have "civil_from_days n = (y + e * 400 + 1, 2, 29)" by (simp add: here month_day_ends feb29)
    moreover have "civil_from_days (n + 1) = (y + e * 400 + 1, 3, 1)"
      using march feb29 l by (simp add: march_year_len_def)
    ultimately show ?thesis by (simp add: next_day_def valid_date_def days_in_month_def leap)
  qed
qed

lemma civil_epoch: "civil_from_days 0 = (1970, 1, 1)"
  by code_simp

text \<open>The order of days: a key that grows by at least one from each day to the next.\<close>

definition date_key :: "int \<times> int \<times> int \<Rightarrow> int" where
  "date_key t = (case t of (y, m, d) \<Rightarrow> (12 * y + (m - 1)) * 31 + (d - 1))"

lemma valid_date_day: "valid_date (y, m, d) \<Longrightarrow> 1 \<le> m \<and> m \<le> 12 \<and> 1 \<le> d \<and> d \<le> 31"
  by (auto simp: valid_date_def days_in_month_def split: if_splits)

lemma date_key_next: "valid_date t \<Longrightarrow> date_key t < date_key (next_day t)"
  using valid_date_day by (cases t) (fastforce simp: date_key_def next_day_def split: if_splits)

lemma civil_valid: "valid_date (civil_from_days n)"
  using civil_step_valid by blast

lemma civil_key_Suc: "date_key (civil_from_days n) < date_key (civil_from_days (n + 1))"
  using civil_step_valid [of n] date_key_next by metis

lemma civil_key_mono: "a < b \<Longrightarrow> date_key (civil_from_days a) < date_key (civil_from_days b)"
proof (induction b rule: int_gr_induct)
  case base
  then show ?case by (rule civil_key_Suc)
next
  case (step i)
  then show ?case using civil_key_Suc [of i] by linarith
qed

lemma civil_key_less_iff:
  "date_key (civil_from_days a) < date_key (civil_from_days b) \<longleftrightarrow> a < b"
  by (metis civil_key_mono linorder_less_linear order_less_asym)

lemma civil_inject: "civil_from_days a = civil_from_days b \<longleftrightarrow> a = b"
  by (metis civil_key_mono linorder_less_linear order_less_irrefl)

lemma date_key_year: "valid_date (y, m, d) \<Longrightarrow> date_key (y, m, d) div 372 = y"
  by (rule int_div_pos_eq [of _ _ _ "31 * (m - 1) + (d - 1)"])
    (use valid_date_day [of y m d] in \<open>auto simp: date_key_def algebra_simps\<close>)

lemma civil_year_less_iff:
  assumes "civil_from_days b = (c, 1, 1)"
  shows "fst (civil_from_days a) < c \<longleftrightarrow> a < b"
proof -
  obtain y m d where a: "civil_from_days a = (y, m, d)" by (metis surj_pair)
  have v: "valid_date (y, m, d)" using civil_valid [of a] by (simp add: a)
  have "date_key (y, m, d) < date_key (c, 1, 1) \<longleftrightarrow> y < c"
    using valid_date_day [OF v] by (auto simp: date_key_def)
  then show ?thesis using civil_key_less_iff [of a b] by (simp add: a assms)
qed

lemma civil_first_years:
  "civil_from_days (- 719528) = (0, 1, 1)" "civil_from_days 2932897 = (10000, 1, 1)"
  by code_simp+

section \<open>Properties\<close>

text \<open>
  \<open>civil_from_days\<close> is the proleptic Gregorian calendar. Day 0 is 1 January 1970, every
  result is a real calendar date, and the day after any day number, before or after the epoch,
  is the calendar successor: the closed formula never skips, repeats or misplaces a day.
\<close>

lemma civil_from_days_calendar:
  "civil_from_days 0 = (1970, 1, 1) \<and> valid_date (civil_from_days n) \<and>
   civil_from_days (n + 1) = next_day (civil_from_days n)"
  using civil_epoch civil_step_valid by blast

end
