(* ===== verification/Decimal.thy ===== *)
theory Decimal
  imports Prelude
begin

text \<open>
  Decimal text as Rust's formatting and \<open>str::parse\<close> treat it, shared by every component that
  writes numbers into file names: rendering of naturals and integers, zero padding, and the
  fallible parsers with their bounds.
\<close>

section \<open>Digits\<close>

definition digit :: "nat \<Rightarrow> char" where "digit n = char_of (48 + n)"

definition is_ascii_digit :: "char \<Rightarrow> bool" where
  "is_ascii_digit c \<longleftrightarrow> 48 \<le> (of_char c :: nat) \<and> (of_char c :: nat) \<le> 57"

definition digit_val :: "char \<Rightarrow> nat" where "digit_val c = of_char c - 48"

lemma of_char_digit [simp]: "n < 10 \<Longrightarrow> of_char (digit n) = (48 + n :: nat)"
  by (simp add: digit_def)

lemma is_ascii_digit_digit [simp]: "n < 10 \<Longrightarrow> is_ascii_digit (digit n)"
  by (simp add: is_ascii_digit_def)

lemma digit_val_digit [simp]: "n < 10 \<Longrightarrow> digit_val (digit n) = n"
  by (simp add: digit_val_def)

lemma digit_digit_val [simp]: "is_ascii_digit c \<Longrightarrow> digit (digit_val c) = c"
  by (simp add: is_ascii_digit_def digit_def digit_val_def)

lemma digit_val_bound: "is_ascii_digit c \<Longrightarrow> digit_val c < 10"
  by (auto simp: is_ascii_digit_def digit_val_def)

lemma digit_zero [simp]: "digit 0 = CHR ''0''"
  by (simp add: digit_def) code_simp

lemma digit_val_0_iff: "is_ascii_digit c \<Longrightarrow> digit_val c = 0 \<longleftrightarrow> c = CHR ''0''"
  by (metis digit_digit_val digit_val_digit digit_zero zero_less_numeral)

section \<open>Rendering and reading naturals\<close>

fun dec :: "nat \<Rightarrow> string" where
  "dec n = (if n < 10 then [digit n] else dec (n div 10) @ [digit (n mod 10)])"

declare dec.simps [simp del]

definition num :: "string \<Rightarrow> nat" where
  "num s = foldl (\<lambda>a c. 10 * a + digit_val c) 0 s"

lemma num_Nil [simp]: "num [] = 0" by (simp add: num_def)

lemma num_snoc [simp]: "num (s @ [c]) = 10 * num s + digit_val c"
  by (simp add: num_def)

lemma num_dec [simp]: "num (dec n) = n"
proof (induction n rule: dec.induct)
  case (1 n)
  show ?case
  proof (cases "n < 10")
    case True
    then show ?thesis using num_snoc [of "[]"] by (simp add: dec.simps [of n])
  next
    case False
    then show ?thesis using 1 by (simp add: dec.simps [of n])
  qed
qed

lemma dec_inject [simp]: "dec m = dec n \<longleftrightarrow> m = n"
  by (metis num_dec)

lemma dec_digits: "list_all is_ascii_digit (dec n)"
proof (induction n rule: dec.induct)
  case (1 n)
  then show ?case by (cases "n < 10") (simp_all add: dec.simps [of n])
qed

lemma dec_nonempty [simp]: "dec n \<noteq> []"
  by (subst dec.simps) simp

lemma hd_dec: "hd (dec n) = CHR ''0'' \<longleftrightarrow> n = 0"
proof (induction n rule: dec.induct)
  case (1 n)
  show ?case
  proof (cases "n < 10")
    case True
    then have "digit n = CHR ''0'' \<longleftrightarrow> n = 0"
      by (metis digit_val_digit digit_zero zero_less_numeral)
    with True show ?thesis by (simp add: dec.simps [of n])
  next
    case False
    then show ?thesis using 1 by (simp add: dec.simps [of n])
  qed
qed

lemma dec_lead: "n \<noteq> 0 \<Longrightarrow> \<exists>c cs. dec n = c # cs \<and> c \<noteq> CHR ''0''"
  using hd_dec [of n] by (cases "dec n") auto

lemma dec_short: "n < 10 \<Longrightarrow> dec n = [digit n]" by (simp add: dec.simps)

text \<open>A digit string is canonical when it has no leading zero, except that zero is \<open>0\<close>.\<close>

definition canonical_digits :: "string \<Rightarrow> bool" where
  "canonical_digits s \<longleftrightarrow> s \<noteq> [] \<and> list_all is_ascii_digit s \<and> (hd s = CHR ''0'' \<longrightarrow> length s = 1)"

lemma canonical_dec: "canonical_digits (dec n)"
  using dec_digits [of n] hd_dec [of n] dec_short [of 0] by (auto simp: canonical_digits_def)

lemma num_pos: "s \<noteq> [] \<Longrightarrow> list_all is_ascii_digit s \<Longrightarrow> hd s \<noteq> CHR ''0'' \<Longrightarrow> 0 < num s"
proof (induction s rule: rev_induct)
  case (snoc c s)
  then show ?case by (cases "s = []") (use num_snoc [of "[]" c] digit_val_0_iff [of c] in auto)
qed simp

lemma dec_num: "canonical_digits s \<Longrightarrow> dec (num s) = s"
proof (induction s rule: rev_induct)
  case (snoc c s)
  then have c: "is_ascii_digit c" and digits: "list_all is_ascii_digit s"
    by (auto simp: canonical_digits_def)
  show ?case
  proof (cases "s = []")
    case True
    then show ?thesis
      using c digit_val_bound [OF c] num_snoc [of "[]" c] by (simp add: dec_short)
  next
    case False
    then have lead: "hd s \<noteq> CHR ''0''" using snoc.prems by (auto simp: canonical_digits_def)
    then have "canonical_digits s" using False digits by (simp add: canonical_digits_def)
    then have IH: "dec (num s) = s" by (rule snoc.IH)
    have "0 < num s" by (rule num_pos [OF False digits lead])
    then show ?thesis using digit_val_bound [OF c] c IH
      by (subst dec.simps) simp
  qed
qed (simp add: canonical_digits_def)

lemma canonical_iff_dec: "canonical_digits s \<longleftrightarrow> (\<exists>n. s = dec n)"
  by (metis canonical_dec dec_num)

section \<open>Padding\<close>

text \<open>\<open>{:0w}\<close>: at least \<open>w\<close> characters, filled with zeros on the left.\<close>

definition zero_pad :: "nat \<Rightarrow> string \<Rightarrow> string" where
  "zero_pad w s = replicate (w - length s) (CHR ''0'') @ s"

lemma digit_val_zero [simp]: "digit_val (CHR ''0'') = 0" by (simp add: digit_val_def)

lemma num_append: "num (a @ b) = num a * 10 ^ length b + num b"
proof (induction b rule: rev_induct)
  case (snoc c b)
  have "num (a @ b @ [c]) = num ((a @ b) @ [c])" by simp
  also have "\<dots> = 10 * num (a @ b) + digit_val c" by (rule num_snoc)
  finally show ?case using snoc by (simp add: algebra_simps)
qed simp

lemma num_zeros [simp]: "num (replicate k (CHR ''0'')) = 0"
  by (induction k) (auto simp: num_def)

lemma num_zero_pad [simp]: "num (zero_pad w s) = num s"
  by (simp add: zero_pad_def num_append)

lemma zero_pad_digits: "list_all is_ascii_digit s \<Longrightarrow> list_all is_ascii_digit (zero_pad w s)"
  by (auto simp: zero_pad_def list_all_iff is_ascii_digit_def)

lemma length_zero_pad: "length (zero_pad w s) = max w (length s)"
  by (simp add: zero_pad_def)

lemma num_bound: "list_all is_ascii_digit s \<Longrightarrow> num s < 10 ^ length s"
proof (induction s rule: rev_induct)
  case (snoc c s)
  then show ?case using digit_val_bound [of c] by simp
qed simp

lemma length_dec_le: "n < 10 ^ w \<Longrightarrow> 0 < w \<Longrightarrow> length (dec n) \<le> w"
proof (induction n arbitrary: w rule: dec.induct)
  case (1 n)
  show ?case
  proof (cases "n < 10")
    case True
    then show ?thesis using "1.prems" by (simp add: dec_short)
  next
    case False
    then obtain v where w: "w = Suc v" "0 < v" using "1.prems" by (cases w; cases "w - 1") auto
    then have "n div 10 < 10 ^ v" using "1.prems" by (simp add: less_mult_imp_div_less mult.commute)
    then have "length (dec (n div 10)) \<le> v" using "1.IH" False w by blast
    then show ?thesis using False w by (simp add: dec.simps [of n])
  qed
qed

lemma digits_unique:
  assumes "length s = length t" "list_all is_ascii_digit s" "list_all is_ascii_digit t" "num s = num t"
  shows "s = t"
  using assms
proof (induction s t rule: rev_induct2)
  case (4 c s d t)
  then have cd: "is_ascii_digit c" "is_ascii_digit d" by auto
  have "10 * num s + digit_val c = 10 * num t + digit_val d" using "4.prems" by simp
  then have "num s = num t" "digit_val c = digit_val d"
    using digit_val_bound [OF cd(1)] digit_val_bound [OF cd(2)] by presburger+
  then show ?case using 4 cd digit_digit_val by (metis butlast_snoc length_butlast list_all_append)
qed auto

section \<open>\<open>str::parse\<close>\<close>

text \<open>
  Parsing an unsigned integer accepts one leading plus sign, needs a digit, and fails above the
  type's maximum; a signed one also accepts a minus sign.
\<close>

definition parse_unsigned :: "nat \<Rightarrow> string \<Rightarrow> nat option" where
  "parse_unsigned max_value s =
     (let d = (case s of c # cs \<Rightarrow> if c = CHR ''+'' then cs else s | [] \<Rightarrow> s) in
      if d \<noteq> [] \<and> list_all is_ascii_digit d \<and> num d \<le> max_value then Some (num d) else None)"

definition parse_i64 :: "string \<Rightarrow> i64 option" where
  "parse_i64 s =
     (case s of
        [] \<Rightarrow> None
      | c # cs \<Rightarrow>
          if c = CHR ''-'' then
            (if cs \<noteq> [] \<and> list_all is_ascii_digit cs \<and> num cs \<le> 2 ^ 63
             then Some (word_of_int (- int (num cs))) else None)
          else map_option of_nat (parse_unsigned (2 ^ 63 - 1) s))"

definition show_i64 :: "i64 \<Rightarrow> string" where
  "show_i64 v = (if sint v < 0 then CHR ''-'' # dec (nat (- sint v)) else dec (nat (sint v)))"

lemma parse_unsigned_digits:
  assumes "s \<noteq> []" "list_all is_ascii_digit s"
  shows "parse_unsigned m s = (if num s \<le> m then Some (num s) else None)"
  using assms by (cases s) (auto simp: parse_unsigned_def is_ascii_digit_def)

lemma sint_bounds: "- (2 ^ 63) \<le> sint (v :: i64)" "sint (v :: i64) < 2 ^ 63"
  using sint_range_size [of v] by (simp_all add: word_size)

lemma show_i64_digits:
  "list_all (\<lambda>c. is_ascii_digit c \<or> c = CHR ''-'') (show_i64 v)"
  using dec_digits by (auto simp: show_i64_def list_all_iff)

lemma dec_not_minus: "dec n \<noteq> CHR ''-'' # s"
  using dec_digits [of n] by (auto simp: is_ascii_digit_def)

lemma parse_show_i64: "parse_i64 (show_i64 v) = Some v"
proof (cases "sint v < 0")
  case True
  then show ?thesis using sint_bounds [of v] dec_digits
    by (simp add: show_i64_def parse_i64_def nat_le_iff)
next
  case False
  obtain c cs where d: "dec (nat (sint v)) = c # cs" by (cases "dec (nat (sint v))") auto
  have "c \<noteq> CHR ''-''" using dec_not_minus d by metis
  have "of_nat (nat (sint v)) = v" using False by simp
  moreover have "nat (sint v) \<le> 2 ^ 63 - 1" using sint_bounds(2) [of v] by (simp add: nat_le_iff)
  moreover have "parse_unsigned (2 ^ 63 - 1) (dec (nat (sint v))) = Some (nat (sint v))"
    using calculation parse_unsigned_digits [OF dec_nonempty dec_digits] by simp
  ultimately show ?thesis using False d \<open>c \<noteq> CHR ''-''\<close>
    by (simp add: show_i64_def parse_i64_def)
qed

end
