(* ===== verification/Layout_Time.thy ===== *)
theory Layout_Time
  imports Layout_Civil Decimal Catalog
begin

text \<open>
  Segment identities and addresses (\<open>crates/kronika-layout/src/time.rs\<close>) and the layout errors
  (\<open>error.rs\<close>): a segment id is a Unix microsecond count whose UTC day has a four-digit year,
  and the address pairs it with that day. The orders are the derived Rust ones.
\<close>

section \<open>Types\<close>

datatype segment_id = SegmentId (get: i64)

datatype utc_day = UtcDay (day_year: u16) (day_month: u8) (day_day: u8)

datatype segment_address = SegmentAddress (addr_id: segment_id) (addr_day: utc_day)

datatype limit_kind = VisitedEntries | EntriesPerDay | Segments | MetadataBytes

datatype owner_kind = Writer | Index

datatype layout_error =
    Io io_error
  | InvalidLimits limit_kind usize usize
  | SegmentIdOutOfRange i64
  | UnsupportedFlatLayout string
  | SymlinkNotAllowed string
  | UnexpectedRootEntry string
  | UnexpectedRootEntryType string
  | MalformedYearDirectory string
  | MalformedMonthDirectory string
  | MalformedDayDirectory string
  | UnexpectedCalendarEntryType string
  | UnexpectedLeafEntry string
  | UnexpectedLeafEntryType string
  | MisbucketedSegment segment_id utc_day utc_day
  | TraversalLimitExceeded limit_kind usize
  | SegmentAlreadyExists segment_id
  | TemporaryChanged string
  | OwnerContended owner_kind
  | SourceChanged segment_id
  | ActiveJournalMissing
  | InvalidSealSeed
  | RecoverySlotsExhausted usize

lemma sint_inject_dest: "sint (get a) = sint (get b) \<Longrightarrow> a = b"
  by (intro segment_id.expand) (rule signed_word_eqI)

instantiation segment_id :: linorder
begin

definition less_eq_segment_id :: "segment_id \<Rightarrow> segment_id \<Rightarrow> bool" where
  "less_eq_segment_id a b \<longleftrightarrow> sint (get a) \<le> sint (get b)"

definition less_segment_id :: "segment_id \<Rightarrow> segment_id \<Rightarrow> bool" where
  "less_segment_id a b \<longleftrightarrow> sint (get a) < sint (get b)"

instance
  by standard
    (auto simp: less_eq_segment_id_def less_segment_id_def dest: sint_inject_dest)

end

definition day_key :: "utc_day \<Rightarrow> nat" where
  "day_key d = (unat (day_year d) * 256 + unat (day_month d)) * 256 + unat (day_day d)"

lemma digit_le_iff:
  fixes u v :: nat
  assumes "u < b" "v < b"
  shows "x * b + u \<le> y * b + v \<longleftrightarrow> x < y \<or> x = y \<and> u \<le> v"
proof (cases x y rule: linorder_cases)
  case less
  then have "(x + 1) * b \<le> y * b" by (intro mult_le_mono1) simp
  with less assms show ?thesis by simp
next
  case equal
  then show ?thesis by simp
next
  case greater
  then have "(y + 1) * b \<le> x * b" by (intro mult_le_mono1) simp
  with greater assms show ?thesis by simp
qed

lemma digit_eq_iff:
  fixes u v :: nat
  assumes "u < b" "v < b"
  shows "x * b + u = y * b + v \<longleftrightarrow> x = y \<and> u = v"
  using digit_le_iff [OF assms, of x y] digit_le_iff [OF assms(2,1), of y x] by auto

lemma digit_less_iff:
  fixes u v :: nat
  assumes "u < b" "v < b"
  shows "x * b + u < y * b + v \<longleftrightarrow> x < y \<or> x = y \<and> u < v"
  using digit_le_iff [OF assms(2,1), of y x] by auto

lemma day_key_lex:
  "day_key a \<le> day_key b \<longleftrightarrow>
     day_year a < day_year b \<or> day_year a = day_year b \<and>
     (day_month a < day_month b \<or> day_month a = day_month b \<and> day_day a \<le> day_day b)"
proof -
  have bound: "unat m < 256" for m :: u8 using unat_lt2p [of m] by simp
  show ?thesis
    unfolding day_key_def word_less_nat_alt word_le_nat_alt word_unat_eq_iff
      digit_le_iff [OF bound bound] digit_eq_iff [OF bound bound] digit_less_iff [OF bound bound]
    by blast
qed

text \<open>The derived \<open>Ord\<close> compares year, month and day in this order.\<close>

instantiation utc_day :: linorder
begin

definition less_eq_utc_day :: "utc_day \<Rightarrow> utc_day \<Rightarrow> bool" where
  "less_eq_utc_day a b \<longleftrightarrow>
     day_year a < day_year b \<or> day_year a = day_year b \<and>
     (day_month a < day_month b \<or> day_month a = day_month b \<and> day_day a \<le> day_day b)"

definition less_utc_day :: "utc_day \<Rightarrow> utc_day \<Rightarrow> bool" where
  "less_utc_day a b \<longleftrightarrow> a \<le> b \<and> \<not> b \<le> a"

instance
  by standard (auto simp: less_eq_utc_day_def less_utc_day_def utc_day.expand)

end

lemma day_key_le: "a \<le> b \<longleftrightarrow> day_key a \<le> day_key b"
  by (simp add: less_eq_utc_day_def day_key_lex)

section \<open>Operations\<close>

definition u16_try_from :: "int \<Rightarrow> u16 option" where
  "u16_try_from y = (if 0 \<le> y \<and> y < 2 ^ 16 then Some (of_int y) else None)"

definition utc_day_of :: "segment_id \<Rightarrow> layout_error + utc_day" where
  "utc_day_of self =
     (let days = sint (get self) div MICROS_PER_DAY;
          (year, month, day) = civil_from_days days in
      if \<not> (0 \<le> year \<and> year \<le> 9999) then Err (SegmentIdOutOfRange (get self))
      else and_then (ok_or (u16_try_from year) (SegmentIdOutOfRange (get self)))
             (\<lambda>year. Ok (UtcDay year (of_int month) (of_int day))))"

definition SegmentId_new :: "i64 \<Rightarrow> layout_error + segment_id" where
  "SegmentId_new value = and_then (utc_day_of (SegmentId value)) (\<lambda>_. Ok (SegmentId value))"

definition show_day :: "u16 \<Rightarrow> u8 \<Rightarrow> u8 \<Rightarrow> string" where
  "show_day year month day =
     zero_pad 4 (dec (unat year)) @ ''/'' @ zero_pad 2 (dec (unat month)) @ ''/'' @
     zero_pad 2 (dec (unat day))"

definition UtcDay_new :: "u16 \<Rightarrow> u8 \<Rightarrow> u8 \<Rightarrow> layout_error + utc_day" where
  "UtcDay_new year month day =
     (if uint year > 9999 \<or> \<not> (1 \<le> uint month \<and> uint month \<le> 12) \<or> day = 0 \<or>
         uint day > days_in_month (uint year) (uint month)
      then Err (MalformedDayDirectory (show_day year month day))
      else Ok (UtcDay year month day))"

definition year_component :: "utc_day \<Rightarrow> string" where
  "year_component d = zero_pad 4 (dec (unat (day_year d)))"

definition month_component :: "utc_day \<Rightarrow> string" where
  "month_component d = zero_pad 2 (dec (unat (day_month d)))"

definition day_component :: "utc_day \<Rightarrow> string" where
  "day_component d = zero_pad 2 (dec (unat (day_day d)))"

definition SegmentAddress_new :: "segment_id \<Rightarrow> layout_error + segment_address" where
  "SegmentAddress_new i = and_then (utc_day_of i) (\<lambda>day. Ok (SegmentAddress i day))"

definition in_day :: "segment_id \<Rightarrow> utc_day \<Rightarrow> layout_error + segment_address" where
  "in_day i day =
     and_then (utc_day_of i) (\<lambda>expected.
       if expected \<noteq> day then Err (MisbucketedSegment i day expected)
       else Ok (SegmentAddress i day))"

definition zms_name :: "segment_address \<Rightarrow> string" where
  "zms_name a = show_i64 (get (addr_id a)) @ ''.zms''"

definition idx_name :: "segment_address \<Rightarrow> string" where
  "idx_name a = show_i64 (get (addr_id a)) @ ''.idx''"

section \<open>Facts\<close>

definition micros_day :: "segment_id \<Rightarrow> int" where
  "micros_day i = sint (get i) div MICROS_PER_DAY"

lemma of_u8: "0 \<le> x \<Longrightarrow> x < 256 \<Longrightarrow> uint (word_of_int x :: u8) = x"
  by (simp add: unsigned_of_int take_bit_int_eq_self unat_eq_nat_uint uint_word_of_int)

lemma of_u16: "0 \<le> x \<Longrightarrow> x < 65536 \<Longrightarrow> uint (word_of_int x :: u16) = x"
  by (simp add: unsigned_of_int take_bit_int_eq_self unat_eq_nat_uint uint_word_of_int)

lemma utc_day_of_cases:
  "utc_day_of i =
     (case civil_from_days (micros_day i) of (y, m, d) \<Rightarrow>
        if 0 \<le> y \<and> y \<le> 9999 then Ok (UtcDay (word_of_int y) (word_of_int m) (word_of_int d))
        else Err (SegmentIdOutOfRange (get i)))"
  by (simp add: utc_day_of_def micros_day_def u16_try_from_def ok_or_def split: prod.split)

text \<open>An accepted day carries the civil date of the timestamp unchanged.\<close>

lemma utc_day_of_fields:
  assumes "utc_day_of i = Ok t"
  shows "civil_from_days (micros_day i)
    = (uint (day_year t), uint (day_month t), uint (day_day t))"
    and "uint (day_year t) \<le> 9999"
proof -
  obtain y m d where c: "civil_from_days (micros_day i) = (y, m, d)" by (metis surj_pair)
  have v: "1 \<le> m \<and> m \<le> 12 \<and> 1 \<le> d \<and> d \<le> 31"
    using civil_valid [of "micros_day i"] by (intro valid_date_day [of y]) (simp add: c)
  have y: "0 \<le> y" "y \<le> 9999" and t: "t = UtcDay (word_of_int y) (word_of_int m) (word_of_int d)"
    using assms by (auto simp: utc_day_of_cases c split: if_splits)
  show "civil_from_days (micros_day i)
    = (uint (day_year t), uint (day_month t), uint (day_day t))"
    using v y by (simp add: c t of_u8 of_u16)
  show "uint (day_year t) \<le> 9999" using of_u16 [of y] y by (simp add: t)
qed

lemma utc_day_of_ok_iff: "is_ok (utc_day_of i) \<longleftrightarrow> - 719528 \<le> micros_day i \<and> micros_day i < 2932897"
  using civil_year_less_iff [OF civil_first_years(1), of "micros_day i"]
    civil_year_less_iff [OF civil_first_years(2), of "micros_day i"]
  by (auto simp: utc_day_of_cases is_ok_def split: prod.split)

lemma utc_day_of_valid: "utc_day_of i = Ok t \<Longrightarrow> UtcDay_new (day_year t) (day_month t) (day_day t) = Ok t"
  using utc_day_of_fields [of i t] civil_valid [of "micros_day i"]
  by (auto simp: UtcDay_new_def valid_date_def)

lemma day_key_date: "int (day_key t) = 65536 * uint (day_year t) + 256 * uint (day_month t) + uint (day_day t)"
  by (simp add: day_key_def)

lemma micros_day_mono: "a \<le> b \<Longrightarrow> micros_day a \<le> micros_day b"
  by (auto simp: micros_day_def less_eq_segment_id_def MICROS_PER_DAY_def intro: zdiv_mono1)

lemma date_keys_agree:
  fixes y m d z n e :: int
  assumes "1 \<le> m \<and> m \<le> 12 \<and> 1 \<le> d \<and> d \<le> 31" "1 \<le> n \<and> n \<le> 12 \<and> 1 \<le> e \<and> e \<le> 31"
  shows "65536 * y + 256 * m + d < 65536 * z + 256 * n + e \<longleftrightarrow> date_key (y, m, d) < date_key (z, n, e)"
proof (cases y z rule: linorder_cases)
  case equal
  then show ?thesis using assms by (cases m n rule: linorder_cases) (auto simp: date_key_def)
qed (use assms in \<open>auto simp: date_key_def\<close>)

lemma day_key_date_key:
  assumes a: "utc_day_of a = Ok s" and b: "utc_day_of b = Ok t"
  shows "s < t \<longleftrightarrow> micros_day a < micros_day b"
proof -
  note fa = utc_day_of_fields [OF a] and fb = utc_day_of_fields [OF b]
  have va: "1 \<le> uint (day_month s) \<and> uint (day_month s) \<le> 12 \<and> 1 \<le> uint (day_day s) \<and> uint (day_day s) \<le> 31"
    using civil_valid [of "micros_day a"] by (intro valid_date_day [of "uint (day_year s)"]) (simp add: fa)
  have vb: "1 \<le> uint (day_month t) \<and> uint (day_month t) \<le> 12 \<and> 1 \<le> uint (day_day t) \<and> uint (day_day t) \<le> 31"
    using civil_valid [of "micros_day b"] by (intro valid_date_day [of "uint (day_year t)"]) (simp add: fb)
  have "s < t \<longleftrightarrow> int (day_key s) < int (day_key t)"
    by (auto simp: less_utc_day_def day_key_le)
  also have "\<dots> \<longleftrightarrow> date_key (civil_from_days (micros_day a)) < date_key (civil_from_days (micros_day b))"
    unfolding day_key_date fa(1) fb(1) by (rule date_keys_agree [OF va vb])
  finally show ?thesis by (simp add: civil_key_less_iff)
qed

section \<open>Properties\<close>

text \<open>
  \<open>SegmentId::new\<close> accepts a timestamp exactly when it lies in the microseconds of the
  years 0000 to 9999 (the end excluded), and then it keeps it unchanged.
\<close>

lemma SegmentId_new_iff:
  "SegmentId_new v = Ok i \<longleftrightarrow>
     i = SegmentId v \<and> - 62167219200000000 \<le> sint v \<and> sint v < 253402300800000000"
proof -
  have "is_ok (utc_day_of (SegmentId v)) \<longleftrightarrow> - 62167219200000000 \<le> sint v \<and> sint v < 253402300800000000"
    unfolding utc_day_of_ok_iff micros_day_def MICROS_PER_DAY_def segment_id.sel
    by (rule arg_cong2 [where f = "(\<and>)"]) linarith+
  moreover have "SegmentId_new v = Ok i \<longleftrightarrow> i = SegmentId v \<and> is_ok (utc_day_of (SegmentId v))"
    by (auto simp: SegmentId_new_def is_ok_iff and_then_Ok_iff)
  ultimately show ?thesis by simp
qed

text \<open>
  The day buckets are ordered as the segment ids: of two accepted ids, the earlier never
  falls into a later day, and both fall into one day exactly when the same count of whole days
  has passed since the epoch. Sorting the tree by day and then by id is sorting by id.
\<close>

lemma utc_day_of_monotone:
  assumes "utc_day_of a = Ok s" "utc_day_of b = Ok t"
  shows "(a \<le> b \<longrightarrow> s \<le> t) \<and>
    (s = t \<longleftrightarrow> sint (get a) div MICROS_PER_DAY = sint (get b) div MICROS_PER_DAY)"
  using day_key_date_key [OF assms] day_key_date_key [OF assms(2,1)] micros_day_mono [of a b]
  unfolding micros_day_def not_less [symmetric, of s t] by (auto simp: antisym_conv3)

text \<open>
  A segment has one address. \<open>SegmentAddress::in_day\<close> succeeds for exactly one directory,
  the one \<open>SegmentAddress::new\<close> computes, which is a date that \<open>UtcDay::new\<close> accepts; for any
  other directory the error names the segment, the directory found and the one expected.
\<close>

lemma in_day_canonical:
  assumes "SegmentAddress_new i = Ok a"
  shows "UtcDay_new (day_year (addr_day a)) (day_month (addr_day a)) (day_day (addr_day a)) = Ok (addr_day a)
    \<and> in_day i day = (if day = addr_day a then Ok a else Err (MisbucketedSegment i day (addr_day a)))"
  using assms utc_day_of_valid by (auto simp: SegmentAddress_new_def in_day_def and_then_Ok_iff)

end
