(* ===== verification/Journal.thy ===== *)
theory Journal
  imports Journal_File Layout_Time
begin

text \<open>
  The file-backed journal \<open>active.wal\<close> (\<open>crates/kronika-writer/src/journal.rs\<close>,
  \<open>journal/open.rs\<close>, \<open>journal/reset.rs\<close>, \<open>journal/error.rs\<close>): the handle, its operations and
  the recovery of a committed reset. Operations take the handle and return it with the result;
  the handle owns the file. The process-wide generation counter is a value passed through the
  operations that draw from it; an exhausted counter is the panic of the code, here \<open>None\<close>.
\<close>

section \<open>Types\<close>

record journal_config =
  jc_limits :: journal_limits
  jc_max_len :: usize
  jc_max_parts :: usize

definition default_journal_config :: journal_config where
  "default_journal_config =
     \<lparr>jc_limits = default_journal_limits, jc_max_len = MAX_JOURNAL_LEN, jc_max_parts = MAX_JOURNAL_PARTS\<rparr>"

record journal_part_ref =
  r_part :: part_ref
  r_generation :: u64

definition JournalPartRef_new :: "part_ref \<Rightarrow> u64 \<Rightarrow> journal_part_ref" where
  "JournalPartRef_new r g = \<lparr>r_part = r, r_generation = g\<rparr>"

definition ref_offset :: "journal_part_ref \<Rightarrow> usize" where "ref_offset r = p_offset (r_part r)"
definition ref_len :: "journal_part_ref \<Rightarrow> usize" where "ref_len r = p_len (r_part r)"

record journal =
  j_file :: os_file
  j_end :: usize
  j_config :: journal_config
  j_parts :: "journal_part_ref list"
  j_generation :: u64
  j_segment_id :: "segment_id option"
  j_poisoned :: bool

datatype journal_error =
    JournalIo io_error
  | JournalLayout layout_error
  | InvalidMaxJournalLen usize usize usize
  | InvalidMaxParts usize usize usize
  | InvalidMaxPartLen u64 u64 u64
  | JournalTooLarge nat usize
  | TooManyParts usize
  | UnsupportedJournalFormat
  | TornHeader nat
  | InvalidHeader journal_header_error
  | BodyLengthMismatch (recorded: u64) (actual: nat)
  | EmptyWithFrames nat
  | ActiveWithoutFirstFrame
  | DamagedBody
  | InvalidSegmentId layout_error
  | SegmentIdMismatch (expected: segment_id) (got: segment_id)
  | PartTooLarge usize u64
  | Full usize usize
  | InvalidPart part_error
  | StalePartRef usize usize
  | RollbackFailed (operation: io_error) (rollback_error: io_error)
  | ResetIncomplete io_error
  | JournalPoisoned

definition map_scan_error :: "journal_scan_error \<Rightarrow> journal_error" where
  "map_scan_error e =
     (case e of ScanIo e \<Rightarrow> JournalIo e | PartLimitExceeded l \<Rightarrow> TooManyParts l)"

section \<open>Configuration and generations\<close>

definition validate_config :: "journal_config \<Rightarrow> journal_error + unit" where
  "validate_config c =
     (if jc_max_len c < JOURNAL_HEADER_LEN \<or> jc_max_len c > MAX_JOURNAL_LEN
      then Err (InvalidMaxJournalLen (jc_max_len c) JOURNAL_HEADER_LEN MAX_JOURNAL_LEN)
      else if jc_max_parts c = 0 \<or> jc_max_parts c > MAX_JOURNAL_PARTS
      then Err (InvalidMaxParts (jc_max_parts c) 1 MAX_JOURNAL_PARTS)
      else if max_part_len (jc_limits c) = 0 \<or> max_part_len (jc_limits c) > MAX_PART_LEN
      then Err (InvalidMaxPartLen (max_part_len (jc_limits c)) 1 MAX_PART_LEN)
      else Ok ())"

text \<open>\<open>fetch_update\<close>: the previous value, and the counter after it.\<close>

definition next_journal_generation :: "u64 \<Rightarrow> (u64 \<times> u64) option" where
  "next_journal_generation current =
     (case checked_add_word current 1 of None \<Rightarrow> None | Some n \<Rightarrow> Some (current, n))"

section \<open>Accessors\<close>

definition ensure_healthy :: "journal \<Rightarrow> journal_error + unit" where
  "ensure_healthy j = (if j_poisoned j then Err JournalPoisoned else Ok ())"

definition journal_is_empty :: "journal \<Rightarrow> bool" where
  "journal_is_empty j \<longleftrightarrow> j_parts j = []"

definition current_header :: "journal \<Rightarrow> journal_header" where
  "current_header j =
     \<lparr>state = (case j_segment_id j of None \<Rightarrow> Empty | Some sid \<Rightarrow> Active (get sid)),
      body_len = of_nat (j_end j - JOURNAL_HEADER_LEN)\<rparr>"

text \<open>
  The references are in ascending offset order, so the binary search finds the one with the
  offset when there is one.
\<close>

definition find_ref :: "nat \<Rightarrow> journal_part_ref list \<Rightarrow> journal_part_ref option" where
  "find_ref off rs = find (\<lambda>r. p_offset (r_part r) = off) rs"

definition check_part_ref :: "journal \<Rightarrow> journal_part_ref \<Rightarrow> journal_error + unit" where
  "check_part_ref j part =
     and_then (ensure_healthy j) (\<lambda>_.
       let minimum = JOURNAL_HEADER_LEN + FRAME_HEADER_LEN;
           is_member = r_generation part = j_generation j \<and>
             (case find_ref (p_offset (r_part part)) (j_parts j) of
                None \<Rightarrow> False | Some r \<Rightarrow> r = part);
           in_bounds = p_offset (r_part part) \<ge> minimum \<and>
             (case checked_add_usize (p_offset (r_part part)) (p_len (r_part part)) of
                None \<Rightarrow> False | Some e \<Rightarrow> e \<le> j_end j)
       in if \<not> is_member \<or> \<not> in_bounds
          then Err (StalePartRef (p_offset (r_part part)) (p_len (r_part part)))
          else Ok ())"

definition read_part :: "journal \<Rightarrow> journal_part_ref \<Rightarrow> journal_error + bytes" where
  "read_part j part =
     and_then (check_part_ref j part) (\<lambda>_.
       map_err JournalIo (file_read_exact_at (j_file j) (p_len (r_part part)) (p_offset (r_part part))))"

definition read_part_range :: "journal \<Rightarrow> journal_part_ref \<Rightarrow> nat \<Rightarrow> nat \<Rightarrow> journal_error + bytes" where
  "read_part_range j part off len =
     and_then (check_part_ref j part) (\<lambda>_.
     and_then (ok_or (checked_add_usize off len) (StalePartRef off len)) (\<lambda>relative_end.
       if relative_end > p_len (r_part part) then Err (StalePartRef off len)
       else and_then (ok_or (checked_add_usize (p_offset (r_part part)) off) (StalePartRef off len))
         (\<lambda>absolute. map_err JournalIo (file_read_exact_at (j_file j) len absolute))))"

section \<open>Append\<close>

text \<open>The checks before anything is written; the result is the end of the new frame.\<close>

definition append_check ::
  "'d crc_alg \<Rightarrow> segment_id \<Rightarrow> bytes \<Rightarrow> journal \<Rightarrow> journal_error + nat" where
  "append_check A sid part j =
     and_then (ensure_healthy j) (\<lambda>_.
     and_then (case j_segment_id j of
         Some e \<Rightarrow> if e \<noteq> sid then Err (SegmentIdMismatch e sid) else Ok ()
       | None \<Rightarrow> Ok ()) (\<lambda>_.
     let plen = of_nat (length part) :: u64; full = Full (j_end j) (jc_max_len (j_config j)) in
     if plen > max_part_len (jc_limits (j_config j))
     then Err (PartTooLarge (length part) (max_part_len (jc_limits (j_config j))))
     else and_then (map_err InvalidPart (validate_part A part)) (\<lambda>_.
     if length (j_parts j) \<ge> jc_max_parts (j_config j) then Err (TooManyParts (jc_max_parts (j_config j)))
     else and_then (ok_or (checked_add_usize FRAME_HEADER_LEN (length part)) full) (\<lambda>frame_len.
     and_then (ok_or (checked_add_usize (j_end j) frame_len) full) (\<lambda>next_end.
     and_then (ok_or (checked_add_usize next_end RESET_MARKER_LEN) full) (\<lambda>reset_end.
     if reset_end > jc_max_len (j_config j) then Err full else Ok next_end))))))"

text \<open>The calls of the write closure; the first append of a generation writes the header first.\<close>

definition append_header :: "segment_id \<Rightarrow> nat \<Rightarrow> journal_header" where
  "append_header sid next_end =
     \<lparr>state = Active (get sid), body_len = of_nat (next_end - JOURNAL_HEADER_LEN)\<rparr>"

definition append_ops :: "'d crc_alg \<Rightarrow> journal \<Rightarrow> segment_id \<Rightarrow> bytes \<Rightarrow> nat \<Rightarrow> file_op list" where
  "append_ops A j sid part next_end =
     (let fh = FrameHeader_encode A \<lparr>part_len = of_nat (length part)\<rparr>;
          hdr = write_header A (append_header sid next_end);
          frame = write_frame (j_end j) fh part
      in (if j_parts j = [] then hdr @ frame else frame @ hdr) @ [SyncData])"

text \<open>A failed write sequence is rolled back to \<open>old_header\<close>, or the handle is poisoned.\<close>

definition roll_back_after ::
  "'d crc_alg \<Rightarrow> io_error \<Rightarrow> journal_header \<Rightarrow> journal \<Rightarrow> journal_error \<times> journal" where
  "roll_back_after A error old_header j =
     (case exec_ops (rollback A (j_end j) old_header) (j_file j) of
        (Ok _, f) \<Rightarrow> (JournalIo error, j\<lparr>j_file := f\<rparr>)
      | (Err e, f) \<Rightarrow> (RollbackFailed error e, j\<lparr>j_file := f, j_poisoned := True\<rparr>))"

definition append_part ::
  "'d crc_alg \<Rightarrow> segment_id \<Rightarrow> bytes \<Rightarrow> journal \<Rightarrow> (journal_error + journal_part_ref) \<times> journal" where
  "append_part A sid part j =
     (case append_check A sid part j of
        Err e \<Rightarrow> (Err e, j)
      | Ok next_end \<Rightarrow>
          (case exec_ops (append_ops A j sid part next_end) (j_file j) of
             (Err e, f) \<Rightarrow>
               (let (e, j) = roll_back_after A e (current_header j) (j\<lparr>j_file := f\<rparr>) in (Err e, j))
           | (Ok _, f) \<Rightarrow>
               (let part_ref = JournalPartRef_new
                      \<lparr>p_offset = j_end j + FRAME_HEADER_LEN, p_len = length part\<rparr> (j_generation j)
                in (Ok part_ref,
                    j\<lparr>j_file := f, j_end := next_end, j_parts := j_parts j @ [part_ref],
                      j_segment_id := Some sid\<rparr>))))"

section \<open>Reset\<close>

definition marker_ops :: "'d crc_alg \<Rightarrow> nat \<Rightarrow> reset_marker \<Rightarrow> file_op list" where
  "marker_ops A e m = [SeekTo e, WriteAll (ResetMarker_encode A m), SyncData]"

text \<open>From the marker to the end of the function.\<close>

definition reset_commit ::
  "'d crc_alg \<Rightarrow> reset_marker \<Rightarrow> u64 \<Rightarrow> journal \<Rightarrow> (journal_error + unit) \<times> journal" where
  "reset_commit A m next_gen j =
     (case exec_ops (marker_ops A (j_end j) m) (j_file j) of
        (Err e, f) \<Rightarrow>
          (let (e, j) = roll_back_after A e (current_header j) (j\<lparr>j_file := f\<rparr>) in (Err e, j))
      | (Ok _, f) \<Rightarrow>
          (case exec_ops (finish_committed_reset A) f of
             (Err e, f) \<Rightarrow> (Err (ResetIncomplete e), j\<lparr>j_file := f, j_poisoned := True\<rparr>)
           | (Ok _, f) \<Rightarrow>
               (Ok (), j\<lparr>j_file := f, j_end := JOURNAL_HEADER_LEN, j_parts := [],
                  j_generation := next_gen, j_segment_id := None\<rparr>)))"

definition reset_journal ::
  "'d crc_alg \<Rightarrow> u64 \<Rightarrow> journal \<Rightarrow> ((journal_error + unit) \<times> journal \<times> u64) option" where
  "reset_journal A counter j =
     (case ensure_healthy j of
        Err e \<Rightarrow> Some (Err e, j, counter)
      | Ok _ \<Rightarrow>
          if j_parts j = [] then Some (Ok (), j, counter)
          else (case j_segment_id j of
             None \<Rightarrow> Some (Err JournalPoisoned, j\<lparr>j_poisoned := True\<rparr>, counter)
           | Some sid \<Rightarrow>
               (case next_journal_generation counter of
                  None \<Rightarrow> None
                | Some (next_gen, counter) \<Rightarrow>
                    if (case checked_add_usize (j_end j) RESET_MARKER_LEN of
                          None \<Rightarrow> True | Some e \<Rightarrow> e > jc_max_len (j_config j))
                    then Some (Err (Full (j_end j) (jc_max_len (j_config j))), j, counter)
                    else (case ResetMarker_new A (of_nat (j_end j)) (get sid) of
                       None \<Rightarrow> Some (Err JournalPoisoned, j\<lparr>j_poisoned := True\<rparr>, counter)
                     | Some m \<Rightarrow>
                         (let (r, j) = reset_commit A m next_gen j in Some (r, j, counter))))))"

end
