(* ===== verification/Journal_Open.thy ===== *)
theory Journal_Open
  imports Journal
begin

text \<open>
  Opening a journal (\<open>crates/kronika-writer/src/journal/open.rs\<close>) and completing a reset that a
  crash interrupted (\<open>journal/reset.rs\<close>). The writer-owner capability hands out the file and
  synchronizes the root directory; its three results are a record.
\<close>

section \<open>Recovery\<close>

text \<open>\<open>PrefixReader\<close>: the first \<open>len\<close> bytes of the file as a byte source.\<close>

definition prefix_source :: "os_file \<Rightarrow> nat \<Rightarrow> read_at" where
  "prefix_source f len =
     \<lparr>read_exact_at = (\<lambda>requested offset.
        case checked_add_usize offset requested of
          None \<Rightarrow> Err UnexpectedEof
        | Some e \<Rightarrow> if e > len then Err UnexpectedEof else file_read_exact_at f requested offset),
      byte_len = Ok len\<rparr>"

text \<open>The decision: whether the file ends in a committed marker of the generation before it.\<close>

definition committed_reset ::
  "'d crc_alg \<Rightarrow> journal_config \<Rightarrow> (nat \<Rightarrow> nat \<Rightarrow> nat) \<Rightarrow> nat \<Rightarrow> os_file \<Rightarrow> journal_error + bool" where
  "committed_reset A cfg grow file_len f =
     (if file_len < JOURNAL_HEADER_LEN + RESET_MARKER_LEN then Ok False
      else let marker_at = file_len - RESET_MARKER_LEN in
      and_then (map_err JournalIo (file_read_exact_at f RESET_MARKER_LEN marker_at)) (\<lambda>bs.
      case ResetMarker_decode A bs of
        None \<Rightarrow> Ok False
      | Some m \<Rightarrow>
          if unat (previous_len m) \<noteq> marker_at \<or> unat (previous_len m) > jc_max_len cfg \<or>
             \<not> is_ok (SegmentId_new (previous_segment_id m))
          then Ok False
          else if expected_previous_header A m = None then Ok False
          else and_then (map_err JournalIo (file_read_exact_at f JOURNAL_HEADER_LEN 0)) (\<lambda>hb.
            if classify_header_transition A m hb = None then Ok False
            else and_then (map_err map_scan_error
                (scan_journal_streaming_strict_from A (prefix_source f (unat (previous_len m)))
                  JOURNAL_HEADER_LEN (jc_limits cfg) (jc_max_parts cfg) grow)) (\<lambda>scan.
              Ok (\<not> (parts scan = [] \<or> valid_len scan \<noteq> unat (previous_len m)))))))"

definition recover_committed_reset ::
  "'d crc_alg \<Rightarrow> journal_config \<Rightarrow> (nat \<Rightarrow> nat \<Rightarrow> nat) \<Rightarrow> nat \<Rightarrow> os_file \<Rightarrow> (journal_error + bool) \<times> os_file" where
  "recover_committed_reset A cfg grow file_len f =
     (case committed_reset A cfg grow file_len f of
        Err e \<Rightarrow> (Err e, f)
      | Ok False \<Rightarrow> (Ok False, f)
      | Ok True \<Rightarrow>
          (case exec_ops (finish_committed_reset A) f of
             (Err e, f) \<Rightarrow> (Err (JournalIo e), f)
           | (Ok _, f) \<Rightarrow> (Ok True, f)))"

section \<open>Open\<close>

record writer_owner =
  clone_lease :: "layout_error + unit"
  open_or_create_journal :: "layout_error + os_file \<times> bool"
  sync_root :: "layout_error + unit"

definition initialize_ops :: "'d crc_alg \<Rightarrow> file_op list" where
  "initialize_ops A = write_header A EMPTY_HEADER @ [SetLen JOURNAL_HEADER_LEN, SyncData]"

text \<open>From the torn-header check to the scanned identity and parts.\<close>

definition open_contents ::
  "'d crc_alg \<Rightarrow> journal_config \<Rightarrow> (nat \<Rightarrow> nat \<Rightarrow> nat) \<Rightarrow> nat \<Rightarrow> os_file \<Rightarrow>
     journal_error + segment_id option \<times> part_ref list" where
  "open_contents A cfg grow file_len f =
     (if file_len < JOURNAL_HEADER_LEN then Err (TornHeader file_len)
      else and_then (map_err JournalIo (file_read_exact_at f JOURNAL_HEADER_LEN 0)) (\<lambda>hb.
      and_then (map_err (\<lambda>e. case e of
            UnsupportedMagic _ \<Rightarrow> UnsupportedJournalFormat
          | UnsupportedVersion _ \<Rightarrow> UnsupportedJournalFormat
          | other \<Rightarrow> InvalidHeader other) (JournalHeader_decode A hb)) (\<lambda>header.
      let actual_body_len = file_len - JOURNAL_HEADER_LEN in
      if unat (body_len header) \<noteq> actual_body_len
      then Err (BodyLengthMismatch (body_len header) actual_body_len)
      else case state header of
        Empty \<Rightarrow>
          if actual_body_len \<noteq> 0 then Err (EmptyWithFrames actual_body_len) else Ok (None, [])
      | Active sid \<Rightarrow>
          and_then (map_err InvalidSegmentId (SegmentId_new sid)) (\<lambda>sid.
          and_then (map_err map_scan_error
              (scan_journal_streaming_strict_from A (file_source f) JOURNAL_HEADER_LEN
                (jc_limits cfg) (jc_max_parts cfg) grow)) (\<lambda>scan.
            if valid_len scan \<noteq> file_len then Err DamagedBody
            else if parts scan = [] then Err ActiveWithoutFirstFrame
            else Ok (Some sid, parts scan))))))"

text \<open>The steps on the open file up to the identity and parts, with the final file length.\<close>

definition open_file ::
  "'d crc_alg \<Rightarrow> journal_config \<Rightarrow> (nat \<Rightarrow> nat \<Rightarrow> nat) \<Rightarrow> bool \<Rightarrow> os_file \<Rightarrow>
     (journal_error + nat \<times> segment_id option \<times> part_ref list) \<times> os_file" where
  "open_file A cfg grow created f =
     (case (if created then exec_ops (initialize_ops A) f else (Ok (), f)) of
        (Err e, f) \<Rightarrow> (Err (JournalIo e), f)
      | (Ok _, f) \<Rightarrow>
     (case metadata_len f of
        Err e \<Rightarrow> (Err (JournalIo e), f)
      | Ok file_len \<Rightarrow>
     if file_len > jc_max_len cfg then (Err (JournalTooLarge file_len (jc_max_len cfg)), f)
     else case recover_committed_reset A cfg grow file_len f of
        (Err e, f) \<Rightarrow> (Err e, f)
      | (Ok recovered, f) \<Rightarrow>
     let file_len = (if recovered then JOURNAL_HEADER_LEN else file_len) in
     case (if file_len = 0 then exec_ops (initialize_ops A) f else (Ok (), f)) of
        (Err e, f) \<Rightarrow> (Err (JournalIo e), f)
      | (Ok _, f) \<Rightarrow>
     let file_len = (if file_len = 0 then JOURNAL_HEADER_LEN else file_len) in
     (and_then (open_contents A cfg grow file_len f) (\<lambda>(sid, ps). Ok (file_len, sid, ps)), f)))"

text \<open>\<open>None\<close> is the panic on an exhausted generation counter.\<close>

definition open_journal ::
  "'d crc_alg \<Rightarrow> writer_owner \<Rightarrow> journal_config \<Rightarrow> (nat \<Rightarrow> nat \<Rightarrow> nat) \<Rightarrow> u64 \<Rightarrow>
     ((journal_error + journal) \<times> os_file option \<times> u64) option" where
  "open_journal A owner cfg grow counter =
     (case validate_config cfg of
        Err e \<Rightarrow> Some (Err e, None, counter)
      | Ok _ \<Rightarrow>
     (case clone_lease owner of
        Err e \<Rightarrow> Some (Err (JournalLayout e), None, counter)
      | Ok _ \<Rightarrow>
     (case open_or_create_journal owner of
        Err e \<Rightarrow> Some (Err (JournalLayout e), None, counter)
      | Ok (f, created) \<Rightarrow>
     (case open_file A cfg grow created f of
        (Err e, f) \<Rightarrow> Some (Err e, Some f, counter)
      | (Ok (flen, sid, ps), f) \<Rightarrow>
     (case sync_root owner of
        Err e \<Rightarrow> Some (Err (JournalLayout e), Some f, counter)
      | Ok _ \<Rightarrow>
     (case next_journal_generation counter of
        None \<Rightarrow> None
      | Some (g, counter) \<Rightarrow>
          Some (Ok \<lparr>j_file = f, j_end = flen, j_config = cfg,
                    j_parts = map (\<lambda>r. JournalPartRef_new r g) ps, j_generation = g,
                    j_segment_id = sid, j_poisoned = False\<rparr>, Some f, counter)))))))"

end
