(* ===== verification/Journal_Repr.thy ===== *)
theory Journal_Repr
  imports Journal_Open
begin

text \<open>
  What a healthy journal handle means: the parts it holds, as byte strings. The relation
  \<open>journal_repr\<close> ties the handle, its references and the bytes of the file to that list, and
  every operation is proved against it under arbitrary failures of the calls it makes.
\<close>

section \<open>The representation\<close>

definition journal_repr :: "'d crc_alg \<Rightarrow> journal \<Rightarrow> bytes list \<Rightarrow> bool" where
  "journal_repr A j ps \<longleftrightarrow>
     \<not> j_poisoned j \<and>
     content (j_file j) = JournalHeader_encode A (current_header j) @ frames_bytes A ps \<and>
     durable (j_file j) = content (j_file j) \<and>
     j_end j = length (content (j_file j)) \<and>
     j_end j \<le> jc_max_len (j_config j) \<and>
     validate_config (j_config j) = Ok () \<and>
     j_parts j = map (\<lambda>r. JournalPartRef_new r (j_generation j)) (refs_from JOURNAL_HEADER_LEN ps) \<and>
     length ps \<le> jc_max_parts (j_config j) \<and>
     (\<forall>p \<in> set ps. good_part A (jc_limits (j_config j)) p) \<and>
     (case j_segment_id j of None \<Rightarrow> ps = [] | Some sid \<Rightarrow> ps \<noteq> [] \<and> is_ok (utc_day_of sid))"

lemma header_length [simp]: "length (JournalHeader_encode A h) = 36"
  by (rule header.enc_length)

lemma marker_length [simp]: "length (ResetMarker_encode A m) = 32"
  by (rule marker.enc_length)

lemma refs_from_empty [simp]: "refs_from n ps = [] \<longleftrightarrow> ps = []"
  by (cases ps) auto

lemma validate_config_Ok:
  "validate_config c = Ok () \<longleftrightarrow>
     36 \<le> jc_max_len c \<and> jc_max_len c \<le> MAX_JOURNAL_LEN \<and> 0 < jc_max_parts c \<and>
     jc_max_parts c \<le> MAX_JOURNAL_PARTS \<and> max_part_len (jc_limits c) \<noteq> 0 \<and>
     max_part_len (jc_limits c) \<le> MAX_PART_LEN"
  by (auto simp: validate_config_def)

lemma repr_facts:
  assumes "journal_repr A j ps"
  shows "j_end j = 36 + length (frames_bytes A ps)" and "36 \<le> j_end j" and "j_end j \<le> 2 ^ 30"
    and "j_parts j = [] \<longleftrightarrow> ps = []" and "length (j_parts j) = length ps"
    and "ps = [] \<longleftrightarrow> j_segment_id j = None"
    and "ensure_healthy j = Ok ()"
  using assms
  by (auto simp: journal_repr_def validate_config_Ok MAX_JOURNAL_LEN_def ensure_healthy_def
      split: option.splits)

section \<open>Rolling back\<close>

lemma rollback_restores:
  assumes run: "exec_ops (rollback A e h) f = (Ok u, f')"
    and kept: "body_kept e (JournalHeader_encode A h @ body) (content f)"
    and len: "e = 36 + length body"
  shows "content f' = JournalHeader_encode A h @ body" and "durable f' = content f'"
proof -
  have c: "36 \<le> length (content f)" "e \<le> length (content f)"
    and d: "drop 36 (take e (content f)) = body"
    using kept len by (auto simp: body_kept_def)
  have "resize e (content f) = take 36 (content f) @ body"
    using c d len append_take_drop_id [of 36 "take e (content f)"] by (simp add: resize_def)
  then have "write_at 0 (JournalHeader_encode A h) (resize e (content f)) = JournalHeader_encode A h @ body"
    using c by (simp add: write_at_start)
  with exec_ops_Ok [OF run]
  show "content f' = JournalHeader_encode A h @ body" "durable f' = content f'"
    by (simp_all add: rollback_def write_header_def same_file_def)
qed

text \<open>The outcome of a failed operation: poisoned, or back in the state before it.\<close>

definition unchanged_file :: "journal \<Rightarrow> journal \<Rightarrow> bool" where
  "unchanged_file j j' \<longleftrightarrow> (\<exists>f. j' = j\<lparr>j_file := f\<rparr> \<and>
     content f = content (j_file j) \<and> durable f = durable (j_file j))"

lemma unchanged_refl: "unchanged_file j j"
  by (auto simp: unchanged_file_def intro: exI [of _ "j_file j"])

lemma current_header_file [simp]: "current_header (j\<lparr>j_file := f\<rparr>) = current_header j"
  by (simp add: current_header_def)

lemma unchanged_repr: "unchanged_file j j' \<Longrightarrow> journal_repr A j ps \<Longrightarrow> journal_repr A j' ps"
  unfolding unchanged_file_def journal_repr_def
  by (elim exE conjE, hypsubst, simp only: current_header_file) simp

lemma roll_back_after_cases:
  assumes repr: "journal_repr A j ps"
    and kept: "body_kept (j_end j) (content (j_file j)) (content f)"
    and r: "roll_back_after A err (current_header j) (j\<lparr>j_file := f\<rparr>) = (e, j')"
  shows "unchanged_file j j' \<or> j_poisoned j' \<and> (\<exists>r. e = RollbackFailed err r)"
proof (cases "exec_ops (rollback A (j_end j) (current_header j)) f")
  case (Pair res g)
  show ?thesis
  proof (cases res)
    case (Inl x)
    then show ?thesis using r Pair by (auto simp: roll_back_after_def)
  next
    case (Inr u)
    have c: "content (j_file j) = JournalHeader_encode A (current_header j) @ frames_bytes A ps"
      and d: "durable (j_file j) = content (j_file j)" using repr by (simp_all add: journal_repr_def)
    from rollback_restores [OF _ kept [unfolded c], of u g] Pair Inr repr_facts(1) [OF repr]
    have "content g = content (j_file j)" "durable g = content g" using c by auto
    then show ?thesis using r Pair Inr d by (auto simp: roll_back_after_def unchanged_file_def)
  qed
qed

section \<open>Append\<close>

lemma append_check_Ok:
  assumes "append_check A sid part j = Ok next_end"
  shows "\<not> j_poisoned j" and "j_segment_id j = None \<or> j_segment_id j = Some sid"
    and "is_ok (validate_part A part)" and "length (j_parts j) < jc_max_parts (j_config j)"
    and "next_end = j_end j + (16 + length part)"
    and "next_end + 32 \<le> jc_max_len (j_config j)"
    and "\<not> (of_nat (length part) :: u64) > max_part_len (jc_limits (j_config j))"
  using assms
  by (auto simp: append_check_def ensure_healthy_def and_then_Ok_iff Let_def is_ok_iff
      split: if_splits option.splits)

lemma append_check_good:
  assumes "append_check A sid part j = Ok next_end" and "journal_repr A j ps"
  shows "good_part A (jc_limits (j_config j)) part"
proof -
  have "length part < 2 ^ 64"
    using append_check_Ok(5,6) [OF assms(1)] assms(2)
    by (auto simp: journal_repr_def validate_config_Ok MAX_JOURNAL_LEN_def)
  then have "unat (of_nat (length part) :: u64) = length part" by (rule unat_of_nat_u64)
  then show ?thesis using append_check_Ok(3,7) [OF assms(1)]
    by (simp add: good_part_def word_less_nat_alt not_less)
qed

lemma append_ops_kept:
  "36 \<le> j_end j \<Longrightarrow> keeps (j_end j) cur (append_ops A j sid part e)"
  by (simp add: append_ops_def write_header_def write_frame_def Let_def frame.enc_length)

lemma append_ops_content:
  assumes "journal_repr A j ps" and "same_file f (fold apply_op (append_ops A j sid part e) (j_file j))"
  shows "content f = JournalHeader_encode A (append_header sid e) @ frames_bytes A (ps @ [part])"
    and "durable f = content f"
proof -
  have c: "content (j_file j) = JournalHeader_encode A (current_header j) @ frames_bytes A ps"
    using assms(1) by (simp add: journal_repr_def)
  note n = repr_facts(1,4) [OF assms(1)]
  have w: "write_at (36 + length x) bs (JournalHeader_encode A h @ x) = JournalHeader_encode A h @ x @ bs"
    for x bs and h using write_at_end [of "JournalHeader_encode A h @ x" bs] by simp
  have w2: "write_at (36 + (length x + length y)) bs (JournalHeader_encode A h @ x @ y) = JournalHeader_encode A h @ x @ y @ bs"
    for x y bs and h using w [of "x @ y" bs h] by simp
  have wf: "write_at (52 + length x) bs (JournalHeader_encode A h @ x @ FrameHeader_encode A fh)
      = JournalHeader_encode A h @ x @ FrameHeader_encode A fh @ bs" for x bs h fh
    using w2 [of x "FrameHeader_encode A fh" bs h] by (simp add: frame.enc_length)
  have "content (fold apply_op (append_ops A j sid part e) (j_file j))
      = JournalHeader_encode A (append_header sid e) @ frames_bytes A (ps @ [part])"
  proof (cases "ps = []")
    case True
    have "write_at 0 (JournalHeader_encode A g) (JournalHeader_encode A h) = JournalHeader_encode A g" for g h
      using write_at_start [of "JournalHeader_encode A g" "JournalHeader_encode A h" "[]"] by simp
    then show ?thesis using True n c w [of "[]"] wf [of "[]"] w2 [of "[]" "FrameHeader_encode A fh" for fh]
      by (simp add: append_ops_def write_header_def write_frame_def Let_def write_at_start
          frame_bytes_def frame.enc_length)
  next
    case False
    then show ?thesis using n c
      by (simp add: append_ops_def write_header_def write_frame_def Let_def write_at_start w wf
          frame_bytes_def frame.enc_length)
  qed
  moreover have "durable (fold apply_op (append_ops A j sid part e) (j_file j))
      = content (fold apply_op (append_ops A j sid part e) (j_file j))"
    by (simp add: append_ops_def Let_def)
  ultimately show "content f = JournalHeader_encode A (append_header sid e) @ frames_bytes A (ps @ [part])"
    and "durable f = content f" using assms(2) by (simp_all add: same_file_def)
qed

lemma append_success:
  assumes repr: "journal_repr A j ps" and sid: "is_ok (utc_day_of sid)"
    and ok: "append_part A sid part j = (Ok r, j')"
  shows "journal_repr A j' (ps @ [part]) \<and> j_segment_id j' = Some sid \<and>
    j_generation j' = j_generation j \<and> j_config j' = j_config j \<and> j_parts j' = j_parts j @ [r] \<and>
    content (j_file j') = JournalHeader_encode A (append_header sid (j_end j')) @ frames_bytes A (ps @ [part])"
proof -
  obtain e f u where chk: "append_check A sid part j = Ok e"
    and run: "exec_ops (append_ops A j sid part e) (j_file j) = (Ok u, f)"
    and r: "r = JournalPartRef_new \<lparr>p_offset = j_end j + 16, p_len = length part\<rparr> (j_generation j)"
    and j': "j' = j\<lparr>j_file := f, j_end := e, j_parts := j_parts j @ [r], j_segment_id := Some sid\<rparr>"
    using ok by (auto simp: append_part_def Let_def split: sum.splits prod.splits)
  note c = append_check_Ok [OF chk] and f = append_ops_content [OF repr exec_ops_Ok [OF run]]
  have hd: "current_header j' = append_header sid e" by (simp add: j' current_header_def append_header_def)
  have "refs_from 36 (ps @ [part]) = refs_from 36 ps @ [\<lparr>p_offset = j_end j + 16, p_len = length part\<rparr>]"
    using repr_facts(1) [OF repr] by (simp add: refs_from_append [of _ _ _ A])
  moreover have "good_part A (jc_limits (j_config j)) part" by (rule append_check_good [OF chk repr])
  moreover have "e = length (content f)" using c(5) repr_facts(1) [OF repr] by (simp add: f)
  ultimately have "journal_repr A j' (ps @ [part])"
    using repr c f sid r unfolding journal_repr_def hd
    by (simp add: j')
  then show ?thesis using f by (simp add: j' r)
qed

lemma append_failure:
  assumes repr: "journal_repr A j ps" and err: "append_part A sid part j = (Err e, j')"
  shows "unchanged_file j j' \<or> j_poisoned j' \<and> (\<exists>x r. e = RollbackFailed x r)"
proof (cases "append_check A sid part j")
  case (Inl x)
  then show ?thesis using err unchanged_refl by (auto simp: append_part_def)
next
  case (Inr n)
  obtain x f where run: "exec_ops (append_ops A j sid part n) (j_file j) = (Err x, f)"
    and rb: "roll_back_after A x (current_header j) (j\<lparr>j_file := f\<rparr>) = (e, j')"
    using err Inr by (auto simp: append_part_def Let_def split: sum.splits prod.splits)
  have "body_kept (j_end j) (content (j_file j)) (content (snd (exec_ops (append_ops A j sid part n) (j_file j))))"
    using repr_facts(2) [OF repr] repr
    by (intro exec_ops_kept append_ops_kept) (auto simp: body_kept_def journal_repr_def)
  then have "body_kept (j_end j) (content (j_file j)) (content f)" by (simp add: run)
  from roll_back_after_cases [OF repr this rb] show ?thesis by blast
qed

section \<open>Reset\<close>

definition EMPTY_FILE :: "'d crc_alg \<Rightarrow> bytes" where
  "EMPTY_FILE A = JournalHeader_encode A EMPTY_HEADER"

lemma finish_content:
  assumes "36 \<le> length (content f)"
  shows "content (fold apply_op (finish_committed_reset A) f) = EMPTY_FILE A"
    and "durable (fold apply_op (finish_committed_reset A) f) = EMPTY_FILE A"
proof -
  have "write_at 0 (JournalHeader_encode A EMPTY_HEADER) (content f) = EMPTY_FILE A @ drop 36 (content f)"
    using write_at_start [of "JournalHeader_encode A EMPTY_HEADER" "take 36 (content f)" "drop 36 (content f)"]
      assms by (simp add: EMPTY_FILE_def)
  then show "content (fold apply_op (finish_committed_reset A) f) = EMPTY_FILE A"
    and "durable (fold apply_op (finish_committed_reset A) f) = EMPTY_FILE A"
    by (simp_all add: finish_committed_reset_def write_header_def resize_cut EMPTY_FILE_def)
qed

lemma marker_ops_kept: "keeps e cur (marker_ops A e m)"
  by (simp add: marker_ops_def)

lemma marker_content:
  assumes "length (content f) = e"
  shows "content (fold apply_op (marker_ops A e m) f) = content f @ ResetMarker_encode A m"
    and "durable (fold apply_op (marker_ops A e m) f) = content f @ ResetMarker_encode A m"
  using assms write_at_end [of "content f" "ResetMarker_encode A m"] by (simp_all add: marker_ops_def)

lemma empty_repr:
  assumes "content (j_file j) = EMPTY_FILE A" "durable (j_file j) = EMPTY_FILE A" "j_end j = 36"
    "j_parts j = []" "j_segment_id j = None" "\<not> j_poisoned j" "validate_config (j_config j) = Ok ()"
  shows "journal_repr A j []"
  using assms by (auto simp: journal_repr_def EMPTY_FILE_def current_header_def EMPTY_HEADER_def validate_config_Ok)

lemma reset_commit_success:
  assumes repr: "journal_repr A j ps" and ok: "reset_commit A m g j = (Ok u, j')"
  shows "journal_repr A j' [] \<and> j_generation j' = g \<and> j_segment_id j' = None \<and> j_config j' = j_config j \<and>
    content (j_file j') = EMPTY_FILE A"
proof -
  obtain f h v w where mk: "exec_ops (marker_ops A (j_end j) m) (j_file j) = (Ok v, f)"
    and fin: "exec_ops (finish_committed_reset A) f = (Ok w, h)"
    and j': "j' = j\<lparr>j_file := h, j_end := 36, j_parts := [], j_generation := g, j_segment_id := None\<rparr>"
    using ok by (auto simp: reset_commit_def Let_def split: sum.splits prod.splits)
  have "content f = content (j_file j) @ ResetMarker_encode A m"
    using exec_ops_Ok [OF mk] marker_content [of "j_file j" "j_end j" A m] repr
    by (simp add: same_file_def journal_repr_def)
  then have "36 \<le> length (content f)" using repr_facts(2) [OF repr] repr by (simp add: journal_repr_def)
  from finish_content [OF this, of A] exec_ops_Ok [OF fin]
  have c: "content h = EMPTY_FILE A" "durable h = EMPTY_FILE A" by (simp_all add: same_file_def)
  have "journal_repr A j' []"
    using c repr by (intro empty_repr) (simp_all add: j' journal_repr_def)
  then show ?thesis using c by (simp add: j')
qed

lemma reset_commit_failure:
  assumes repr: "journal_repr A j ps" and err: "reset_commit A m g j = (Err e, j')"
  shows "unchanged_file j j' \<or> j_poisoned j' \<and> ((\<exists>x r. e = RollbackFailed x r) \<or> (\<exists>x. e = ResetIncomplete x))"
proof (cases "exec_ops (marker_ops A (j_end j) m) (j_file j)")
  case (Pair res f)
  show ?thesis
  proof (cases res)
    case (Inl x)
    have rb: "roll_back_after A x (current_header j) (j\<lparr>j_file := f\<rparr>) = (e, j')"
      using err Pair Inl by (auto simp: reset_commit_def Let_def split: prod.splits)
    have "body_kept (j_end j) (content (j_file j)) (content (snd (exec_ops (marker_ops A (j_end j) m) (j_file j))))"
      using repr_facts(2) [OF repr] repr
      by (intro exec_ops_kept marker_ops_kept) (auto simp: body_kept_def journal_repr_def)
    then have "body_kept (j_end j) (content (j_file j)) (content f)" by (simp add: Pair)
    from roll_back_after_cases [OF repr this rb] show ?thesis by blast
  next
    case (Inr u)
    then show ?thesis using err Pair by (auto simp: reset_commit_def split: sum.splits prod.splits)
  qed
qed

lemma reset_marker_exists:
  assumes "journal_repr A j ps" "ps \<noteq> []"
  shows "\<exists>m. ResetMarker_new A (of_nat (j_end j)) sid = Some m"
proof -
  have "36 < j_end j"
    using repr_facts(1) [OF assms(1)] assms(2) by (cases ps) simp_all
  moreover have "unat (of_nat (j_end j) :: u64) = j_end j"
    using repr_facts(3) [OF assms(1)] by (intro unat_of_nat_u64) simp
  ultimately show ?thesis by (simp add: ResetMarker_new_def word_le_nat_alt)
qed

lemma reset_cases:
  assumes repr: "journal_repr A j ps" and r: "reset_journal A counter j = Some (r, j', counter')"
  shows "r = Ok () \<and> ps = [] \<and> j' = j \<and> counter' = counter \<or>
    r = Ok () \<and> ps \<noteq> [] \<and> journal_repr A j' [] \<and> j_segment_id j' = None \<and>
      j_generation j' = counter \<and> unat counter' = unat counter + 1 \<and> content (j_file j') = EMPTY_FILE A \<or>
    (\<exists>e. r = Err e \<and> unat counter \<le> unat counter' \<and> unat counter' \<le> unat counter + 1 \<and>
      (unchanged_file j j' \<or>
       j_poisoned j' \<and> ((\<exists>x y. e = RollbackFailed x y) \<or> (\<exists>x. e = ResetIncomplete x))))"
proof (cases "ps = []")
  case True
  then show ?thesis using r repr_facts [OF repr] by (simp add: reset_journal_def)
next
  case False
  then obtain sid where sid: "j_segment_id j = Some sid" using repr_facts(6) [OF repr] by auto
  obtain m where m: "ResetMarker_new A (of_nat (j_end j)) (get sid) = Some m"
    using reset_marker_exists [OF repr False] by blast
  obtain g where g: "next_journal_generation counter = Some (counter, g)" "unat g = unat counter + 1"
    using r False sid repr_facts [OF repr]
    by (auto simp: reset_journal_def next_journal_generation_def split: option.splits dest: checked_add_word_Some)
  show ?thesis
  proof (cases "case checked_add_usize (j_end j) 32 of None \<Rightarrow> True | Some e \<Rightarrow> e > jc_max_len (j_config j)")
    case True
    then have "r = Err (Full (j_end j) (jc_max_len (j_config j)))" "j' = j" "counter' = g"
      using r False sid g repr_facts [OF repr] by (auto simp: reset_journal_def)
    then show ?thesis using unchanged_refl g by auto
  next
    case ok: False
    obtain res k where rc: "reset_commit A m counter j = (res, k)" by fastforce
    then have eq: "r = res" "j' = k" "counter' = g"
      using r False ok sid g m repr_facts [OF repr] by (auto simp: reset_journal_def)
    show ?thesis
    proof (cases res)
      case (Inl e)
      then show ?thesis using reset_commit_failure [OF repr, of m counter e k] rc eq g by auto
    next
      case (Inr u)
      then show ?thesis using reset_commit_success [OF repr, of m counter u k] rc eq g False by auto
    qed
  qed
qed

section \<open>References\<close>

lemma find_ref_member:
  assumes "r \<in> set (refs_from n ps)"
  shows "find_ref (p_offset r) (map (\<lambda>r. JournalPartRef_new r g) (refs_from n ps)) = Some (JournalPartRef_new r g)
    \<and> n + 16 \<le> p_offset r"
  using assms
proof (induction ps arbitrary: n)
  case (Cons p ps)
  show ?case
  proof (cases "r = \<lparr>p_offset = n + 16, p_len = length p\<rparr>")
    case True
    then show ?thesis by (simp add: find_ref_def JournalPartRef_new_def)
  next
    case False
    then have "r \<in> set (refs_from (n + 16 + length p) ps)" using Cons.prems by auto
    from Cons.IH [OF this] show ?thesis by (simp add: find_ref_def JournalPartRef_new_def)
  qed
qed simp

lemma refs_from_nth:
  assumes "i < length ps"
  shows "refs_from n ps ! i = \<lparr>p_offset = n + length (frames_bytes A (take i ps)) + 16, p_len = length (ps ! i)\<rparr>"
  using assms
proof (induction ps arbitrary: n i)
  case (Cons p ps)
  then show ?case by (cases i) (simp_all add: add.assoc)
qed simp

lemma part_slice:
  assumes "i < length ps"
  shows "slice_of (36 + length (frames_bytes A (take i ps)) + 16) (length (ps ! i))
      (JournalHeader_encode A h @ frames_bytes A ps) = ps ! i"
    and "36 + length (frames_bytes A (take i ps)) + 16 + length (ps ! i) \<le> 36 + length (frames_bytes A ps)"
proof -
  have "frames_bytes A ps = frames_bytes A (take i ps) @ frame_bytes A (ps ! i) @ frames_bytes A (drop (Suc i) ps)"
    using id_take_nth_drop [OF assms] by (metis frames_bytes_simps(2,3))
  moreover have "\<exists>fh. frame_bytes A (ps ! i) = fh @ ps ! i \<and> length fh = 16"
    by (auto simp: frame_bytes_def frame.enc_length)
  ultimately obtain fh where fb: "frames_bytes A ps = frames_bytes A (take i ps) @ (fh @ ps ! i) @ frames_bytes A (drop (Suc i) ps)"
    and l: "length fh = 16" by auto
  show "slice_of (36 + length (frames_bytes A (take i ps)) + 16) (length (ps ! i))
      (JournalHeader_encode A h @ frames_bytes A ps) = ps ! i"
    unfolding fb by (simp add: slice_of_def l)
  show "36 + length (frames_bytes A (take i ps)) + 16 + length (ps ! i) \<le> 36 + length (frames_bytes A ps)"
    unfolding fb by (simp add: l)
qed

lemma check_ref_iff:
  assumes "journal_repr A j ps"
  shows "check_part_ref j r = Ok () \<longleftrightarrow> r \<in> set (j_parts j)"
proof
  assume "check_part_ref j r = Ok ()"
  then obtain c where "find_ref (p_offset (r_part r)) (j_parts j) = Some c" "c = r"
    by (auto simp: check_part_ref_def and_then_Ok_iff Let_def split: if_splits option.splits)
  then show "r \<in> set (j_parts j)" by (auto simp: find_ref_def find_Some_iff)
next
  assume "r \<in> set (j_parts j)"
  then obtain i where i: "i < length ps" and r: "r = JournalPartRef_new (refs_from 36 ps ! i) (j_generation j)"
    using assms repr_facts(5) [OF assms] by (auto simp: journal_repr_def in_set_conv_nth)
  have mem: "refs_from 36 ps ! i \<in> set (refs_from 36 ps)" using i by simp
  have "p_offset (refs_from 36 ps ! i) + p_len (refs_from 36 ps ! i) \<le> j_end j"
    using part_slice(2) [OF i, of A] refs_from_nth [OF i, of 36 A] repr_facts(1) [OF assms] by simp
  then show "check_part_ref j r = Ok ()"
    using find_ref_member [OF mem, of "j_generation j"] assms repr_facts(3,7) [OF assms]
    by (simp add: check_part_ref_def Let_def r journal_repr_def JournalPartRef_new_def checked_add_usize_def)
qed

end
