(* ===== verification/Journal_Recovery.thy ===== *)
theory Journal_Recovery
  imports Journal_Repr
begin

text \<open>
  Opening the files that a handle leaves behind, after a clean stop and after a crash: lemmas on
  the recovery decision, on the header check and on the scan of the file of a
  \<open>journal_repr\<close> handle.
\<close>

section \<open>Sources\<close>

lemma read_file:
  "readable f \<Longrightarrow> length (content f) < 2 ^ 64 \<Longrightarrow> off + n \<le> length (content f) \<Longrightarrow>
     file_read_exact_at f n off = Ok (slice_of off n (content f))"
  using byte_source.source_read [OF file_source_readable, of f off n] by (simp add: file_source_def)

text \<open>Whatever its calls do, the file shows its bytes and its length when they succeed.\<close>

lemma read_file_sound:
  "file_read_exact_at f n off = Ok bs \<Longrightarrow> off + n \<le> length (content f) \<and> bs = slice_of off n (content f)"
  by (auto simp: file_read_exact_at_def slice_read_exact_at_def and_then_Ok_iff split: option.splits if_splits)

lemma metadata_sound: "metadata_len f = Ok n \<Longrightarrow> n = length (content f)"
  by (auto simp: metadata_len_def split: option.splits)

interpretation os_source: sound_source "file_source f" "content f" for f
  by unfold_locales (simp_all add: file_source_def metadata_sound read_file_sound)

text \<open>A prefix reader is a byte source over the prefix, whatever follows it in the file.\<close>

lemma prefix_source_contents:
  assumes "readable f" "content f = pre @ rest"
  shows "byte_source (prefix_source f (length pre)) pre"
proof
  fix off n assume small: "length pre < 2 ^ 64"
  {
    assume in_pre: "off + n \<le> length pre"
    then have "off + n < 2 ^ 64" using small by simp
    then have "file_read_exact_at f n off = Ok (slice_of off n pre)"
      using assms in_pre
      by (simp add: file_read_exact_at_def readable_def slice_read_exact_at_def checked_add_usize_def
          slice_of_prefix)
    then show "read_exact_at (prefix_source f (length pre)) n off = Ok (slice_of off n pre)"
      using in_pre small by (simp add: prefix_source_def checked_add_usize_def)
  next
    assume "length pre < off + n"
    then show "read_exact_at (prefix_source f (length pre)) n off = Err UnexpectedEof"
      by (simp add: prefix_source_def checked_add_usize_def)
  }
qed (simp add: prefix_source_def)

lemma no_frame_Nil: "no_frame A l []"
  by (auto simp: no_frame_def dest: arg_cong [of _ _ length])

section \<open>What the header bytes show\<close>

lemma header_state_byte:
  "JournalHeader_encode A h ! 12 = (case state h of Empty \<Rightarrow> 0 | Active _ \<Rightarrow> 1)"
  by (cases "state h") (simp_all add: JournalHeader_encode_def header_prefix_def nth_append)

lemma header_body_bytes: "slice_of 24 8 (JournalHeader_encode A h) = to_le64 (body_len h)"
  by (simp add: JournalHeader_encode_def header_prefix_def slice_of_def)

lemma active_not_spliced:
  assumes "JournalHeader_encode A \<lparr>state = Active s, body_len = of_nat (e - 36)\<rparr> =
      take k (JournalHeader_encode A EMPTY_HEADER) @ drop k (JournalHeader_encode A (active_header l s'))"
    and "36 \<le> e" "e < 2 ^ 64"
  shows "unat l = e"
proof (cases "12 < k")
  case True
  have "JournalHeader_encode A \<lparr>state = Active s, body_len = of_nat (e - 36)\<rparr> ! 12 = 0"
    using True by (simp add: assms(1) nth_append header_state_byte EMPTY_HEADER_def)
  then show ?thesis by (simp add: header_state_byte)
next
  case False
  then have k: "k \<le> 24" by simp
  have "slice_of 24 8 (take k E @ drop k p) = slice_of 24 8 p" if "length E = 36" for E p :: bytes
    using k that by (simp add: slice_of_def min_def)
  then have "slice_of 24 8 (JournalHeader_encode A \<lparr>state = Active s, body_len = of_nat (e - 36)\<rparr>)
      = slice_of 24 8 (JournalHeader_encode A (active_header l s'))"
    unfolding assms(1) by simp
  then have "(of_nat (e - 36) :: u64) = l - 36" by (simp add: header_body_bytes active_header_def)
  then have "of_nat (e - 36) + 36 = l" by (simp add: eq_diff_eq)
  moreover have "of_nat (e - 36) + 36 = (of_nat e :: u64)" using assms(2) by (simp add: of_nat_diff)
  ultimately show ?thesis using assms(3) unat_of_nat_u64 by auto
qed

text \<open>A live active generation is never taken for a committed reset of another length.\<close>

lemma no_reset_here:
  assumes "readable f" "length (content f) < 2 ^ 64"
    and "content f = JournalHeader_encode A \<lparr>state = Active s, body_len = of_nat (e - 36)\<rparr> @ rest"
    and "36 \<le> e" "e < 2 ^ 64" "length (content f) \<noteq> e + 32"
  shows "committed_reset A cfg grow (length (content f)) f = Ok False"
proof (cases "length (content f) < 68")
  case True
  then show ?thesis by (simp add: committed_reset_def)
next
  case False
  have "file_read_exact_at f 36 0 = Ok (slice_of 0 36 (content f))"
    using False by (intro read_file [OF assms(1,2)]) simp
  also have "slice_of 0 36 (content f) = JournalHeader_encode A \<lparr>state = Active s, body_len = of_nat (e - 36)\<rparr>"
    using assms(3) by (simp add: slice_of_def)
  finally have hb: "file_read_exact_at f 36 0 = Ok (JournalHeader_encode A \<lparr>state = Active s, body_len = of_nat (e - 36)\<rparr>)" .
  have mb: "file_read_exact_at f 32 (length (content f) - 32) = Ok (slice_of (length (content f) - 32) 32 (content f))"
    using False by (intro read_file [OF assms(1,2)]) simp
  have "classify_header_transition A m (JournalHeader_encode A \<lparr>state = Active s, body_len = of_nat (e - 36)\<rparr>) = None"
    if "unat (previous_len m) = length (content f) - 32" for m
  proof (rule ccontr)
    assume "classify_header_transition A m (JournalHeader_encode A \<lparr>state = Active s, body_len = of_nat (e - 36)\<rparr>) \<noteq> None"
    then obtain h k where "expected_previous_header A m = Some h"
      "JournalHeader_encode A \<lparr>state = Active s, body_len = of_nat (e - 36)\<rparr> =
        take k (JournalHeader_encode A EMPTY_HEADER) @ drop k (JournalHeader_encode A h)"
      by (subst (asm) classify_splice) auto
    with active_not_spliced [of A s e k "previous_len m" "previous_segment_id m"] assms(4,5)
    have "unat (previous_len m) = e" by (auto dest: expected_previous_header_Some)
    with that assms(6) False show False by simp
  qed
  then show ?thesis using False mb hb
    by (auto simp: committed_reset_def Let_def split: option.split)
qed

section \<open>Opening what is there\<close>

lemma SegmentId_new_valid: "is_ok (utc_day_of sid) \<Longrightarrow> SegmentId_new (get sid) = Ok sid"
  by (cases sid) (auto simp: SegmentId_new_def is_ok_iff)

lemma open_header:
  assumes "readable f" "length (content f) < 2 ^ 64" "content f = JournalHeader_encode A h @ rest"
  shows "file_read_exact_at f 36 0 = Ok (JournalHeader_encode A h)"
  using read_file [OF assms(1,2), of 0 36] assms(3) by (simp add: slice_of_def)

lemma open_contents_mismatch:
  assumes "readable f" "length (content f) < 2 ^ 64" "content f = JournalHeader_encode A h @ rest"
    and "unat (body_len h) \<noteq> length rest"
  shows "open_contents A cfg grow (length (content f)) f = Err (BodyLengthMismatch (body_len h) (length rest))"
  using open_header [OF assms(1-3)] assms(3,4)
  by (simp add: open_contents_def header.dec_enc)

lemma open_contents_empty:
  assumes "readable f" "content f = EMPTY_FILE A"
  shows "open_contents A cfg grow 36 f = Ok (None, [])"
  using open_header [of f A EMPTY_HEADER "[]"] assms
  by (simp add: open_contents_def header.dec_enc EMPTY_FILE_def EMPTY_HEADER_def)

lemma scan_live:
  assumes "byte_source R (hb @ frames_bytes A ps)" and "length hb = 36"
    and "36 + length (frames_bytes A ps) < 2 ^ 64"
    and "\<forall>p \<in> set ps. good_part A l p" "length ps \<le> n"
  shows "scan_journal_streaming_strict_from A R 36 l n grow =
    Ok \<lparr>parts = refs_from 36 ps, valid_len = 36 + length (frames_bytes A ps)\<rparr>"
proof -
  have "scan_journal_streaming_strict_from A R (length hb) l n grow =
    (if length ps \<le> n
     then Ok \<lparr>parts = refs_from (length hb) ps, valid_len = length hb + length (frames_bytes A ps)\<rparr>
     else Err (PartLimitExceeded n))"
    by (rule byte_source.scan_frames [OF assms(1) _ _ assms(4) no_frame_Nil])
      (use assms(2,3) in simp_all)
  then show ?thesis using assms(2,5) by simp
qed

lemma open_contents_live:
  assumes "readable f" "length (content f) < 2 ^ 64"
    and c: "content f = JournalHeader_encode A \<lparr>state = Active (get sid), body_len = of_nat (length (frames_bytes A ps))\<rparr>
      @ frames_bytes A ps"
    and "is_ok (utc_day_of sid)" "ps \<noteq> []" "\<forall>p \<in> set ps. good_part A (jc_limits cfg) p"
    and "length ps \<le> jc_max_parts cfg"
  shows "open_contents A cfg grow (length (content f)) f = Ok (Some sid, refs_from 36 ps)"
proof -
  have len: "length (content f) = 36 + length (frames_bytes A ps)" unfolding c by simp
  have small: "36 + length (frames_bytes A ps) < 2 ^ 64" using assms(2) unfolding len .
  have "byte_source (file_source f) (JournalHeader_encode A \<lparr>state = Active (get sid), body_len = of_nat (length (frames_bytes A ps))\<rparr>
      @ frames_bytes A ps)"
    using file_source_readable [OF assms(1)] unfolding c .
  note scan = scan_live [OF this header_length small assms(6,7), of grow]
  have "unat (of_nat (length (frames_bytes A ps)) :: u64) = length (frames_bytes A ps)"
    using small by (intro unat_of_nat_u64) simp
  moreover note len
  moreover note open_header [OF assms(1,2) c] scan SegmentId_new_valid [OF assms(4)] assms(5)
  ultimately show ?thesis
    by (simp add: open_contents_def header.dec_enc del: One_nat_def)
qed

text \<open>A complete marker is recognised at every state of the header rewrite.\<close>

lemma committed_reset_seen:
  assumes f: "readable f" "length (content f) < 2 ^ 64"
    and c: "content f = (hb @ frames_bytes A ps) @ ResetMarker_encode A m"
    and hb: "hb = take k (JournalHeader_encode A EMPTY_HEADER) @ drop k (JournalHeader_encode A (active_header (of_nat e) (get sid)))"
    and k: "k \<le> 36" and e: "e = 36 + length (frames_bytes A ps)"
    and m: "ResetMarker_new A (of_nat e) (get sid) = Some m"
    and sid: "is_ok (utc_day_of sid)" and ps: "ps \<noteq> []" "\<forall>p \<in> set ps. good_part A (jc_limits cfg) p"
      "length ps \<le> jc_max_parts cfg" and cap: "e \<le> jc_max_len cfg"
  shows "committed_reset A cfg grow (length (content f)) f = Ok True"
proof -
  have l36: "length hb = 36" using k by (simp add: hb)
  have len: "length (content f) = e + 32" using c l36 e by simp
  have "unat (of_nat e :: u64) = e" using f(2) len by (intro unat_of_nat_u64) simp
  then have pl: "unat (previous_len m) = e" and psid: "previous_segment_id m = get sid"
    using m by (auto simp: ResetMarker_new_def split: if_splits)
  have rm: "file_read_exact_at f 32 e = Ok (ResetMarker_encode A m)"
    using read_file [OF f, of e 32] len c l36 e by (simp add: slice_of_def)
  have rh: "file_read_exact_at f 36 0 = Ok hb"
    using read_file [OF f, of 0 36] len c l36 by (simp add: slice_of_def)
  have exp: "expected_previous_header A m = Some (active_header (of_nat e) (get sid))"
    by (rule expected_previous_header_new [OF m])
  then have "\<exists>h i. expected_previous_header A m = Some h \<and> i \<le> 36 \<and>
      hb = take i (JournalHeader_encode A EMPTY_HEADER) @ drop i (JournalHeader_encode A h)"
    using k hb by blast
  then have cl: "classify_header_transition A m hb \<noteq> None"
    by (simp only: classify_splice [OF l36])
  have src: "byte_source (prefix_source f e) (hb @ frames_bytes A ps)"
    using prefix_source_contents [OF f(1) c] l36 e by simp
  have "36 + length (frames_bytes A ps) < 2 ^ 64" using f(2) len e by simp
  note scan = scan_live [OF src l36 this ps(2,3), of grow]
  have "\<not> length (content f) < 68" "length (content f) - 32 = e" using len e by simp_all
  moreover have "is_ok (SegmentId_new (previous_segment_id m))" using SegmentId_new_valid [OF sid] by (simp add: psid)
  ultimately show ?thesis
    unfolding committed_reset_def Let_def
    using rm rh cl exp scan pl cap ps(1) e by simp
qed

text \<open>An empty journal is too short for a marker.\<close>

lemma committed_reset_empty: "committed_reset A cfg grow 36 f = Ok False"
  by (simp add: committed_reset_def)

section \<open>Restarts\<close>

definition restart :: "os_file \<Rightarrow> os_file" where
  "restart f = f\<lparr>cursor := 0, faults := [], read_fault := (\<lambda>n off. None), len_fault := None\<rparr>"

lemma restart_simps [simp]:
  "content (restart f) = content f" "readable (restart f)" "faults (restart f) = []"
  "metadata_len (restart f) = Ok (length (content f))"
  by (simp_all add: restart_def readable_def metadata_len_def)

lemma open_file_seen:
  assumes "committed_reset A cfg grow (length (content f)) (restart f) = Ok True"
    and "length (content f) \<le> jc_max_len cfg" "36 \<le> length (content f)"
  shows "\<exists>g. open_file A cfg grow False (restart f) = (Ok (36, None, []), g) \<and> content g = EMPTY_FILE A \<and>
    durable g = EMPTY_FILE A"
proof -
  let ?g = "fold apply_op (finish_committed_reset A) (restart f)"
  have run: "exec_ops (finish_committed_reset A) (restart f) = (Ok (), ?g)"
    by (rule exec_ops_no_faults) simp
  have c: "content ?g = EMPTY_FILE A" "durable ?g = EMPTY_FILE A"
    using finish_content [of "restart f" A] assms(3) by simp_all
  have "readable ?g" by (simp add: readable_def restart_def)
  from open_contents_empty [OF this c(1)] show ?thesis
    using assms run c by (simp add: open_file_def recover_committed_reset_def Let_def)
qed

lemma open_file_unseen:
  assumes "committed_reset A cfg grow (length (content f)) (restart f) = Ok False"
    and "length (content f) \<le> jc_max_len cfg" "36 \<le> length (content f)"
  shows "open_file A cfg grow False (restart f) =
    (and_then (open_contents A cfg grow (length (content f)) (restart f))
       (\<lambda>(sid, ps). Ok (length (content f), sid, ps)), restart f)"
  using assms by (auto simp: open_file_def recover_committed_reset_def Let_def)

text \<open>Opening the file of a healthy handle.\<close>

lemma open_file_live:
  assumes repr: "journal_repr A j ps" and same: "content f = content (j_file j)"
  shows "open_file A (j_config j) grow False (restart f) =
    (Ok (j_end j, j_segment_id j, refs_from 36 ps), restart f)"
proof -
  have c: "content (restart f) = JournalHeader_encode A (current_header j) @ frames_bytes A ps"
    and len: "length (content f) = j_end j" "j_end j \<le> jc_max_len (j_config j)"
    and good: "\<forall>p \<in> set ps. good_part A (jc_limits (j_config j)) p" "length ps \<le> jc_max_parts (j_config j)"
    using repr same unfolding journal_repr_def by auto
  note e = repr_facts(1-3) [OF repr]
  have small: "length (content (restart f)) < 2 ^ 64" using len(1) e(3) by simp
  show ?thesis
  proof (cases "j_segment_id j")
    case None
    then have "ps = []" using repr_facts(6) [OF repr] by simp
    have "content (restart f) = EMPTY_FILE A"
      using c None e(1) \<open>ps = []\<close> by (simp add: EMPTY_FILE_def current_header_def EMPTY_HEADER_def)
    from open_contents_empty [OF restart_simps(2) this] e(1) \<open>ps = []\<close> None len
      open_file_unseen [of A "j_config j" grow f] committed_reset_empty [of A "j_config j" grow "restart f"]
    show ?thesis by simp
  next
    case (Some sid)
    have h: "current_header j = \<lparr>state = Active (get sid), body_len = of_nat (j_end j - 36)\<rparr>"
      by (simp add: current_header_def Some)
    have b: "j_end j - 36 = length (frames_bytes A ps)" using e(1) by simp
    have sid: "is_ok (utc_day_of sid)" "ps \<noteq> []"
      using repr Some unfolding journal_repr_def by auto
    have "committed_reset A (j_config j) grow (length (content (restart f))) (restart f) = Ok False"
      by (rule no_reset_here [OF restart_simps(2) small c [unfolded h]]) (use e len in simp_all)
    moreover have "open_contents A (j_config j) grow (length (content (restart f))) (restart f) = Ok (Some sid, refs_from 36 ps)"
      by (rule open_contents_live [OF restart_simps(2) small c [unfolded h b] sid good])
    ultimately show ?thesis
      using open_file_unseen [of A "j_config j" grow f] len e(2) Some by simp
  qed
qed

section \<open>What an accepted file is\<close>

lemma open_contents_sound:
  assumes ok: "open_contents A cfg grow (length (content f)) f = Ok (sid, refs)"
  shows "(sid = None \<and> refs = [] \<and> content f = EMPTY_FILE A) \<or>
    (\<exists>i ps. sid = Some i \<and> is_ok (utc_day_of i) \<and> ps \<noteq> [] \<and> refs = refs_from 36 ps \<and>
      content f = JournalHeader_encode A \<lparr>state = Active (get i), body_len = of_nat (length (frames_bytes A ps))\<rparr> @ frames_bytes A ps \<and>
      (\<forall>p \<in> set ps. good_part A (jc_limits cfg) p) \<and> length ps \<le> jc_max_parts cfg)"
proof -
  have long: "36 \<le> length (content f)" using ok by (auto simp: open_contents_def split: if_splits)
  obtain hb where rd: "file_read_exact_at f 36 0 = Ok hb"
    using ok long by (auto simp: open_contents_def and_then_Ok_iff)
  have hb: "hb = take 36 (content f)" using read_file_sound [OF rd] by (simp add: slice_of_def)
  from ok long rd hb obtain h where dec: "JournalHeader_decode A (take 36 (content f)) = Ok h"
    and len: "unat (body_len h) = length (content f) - 36"
    by (auto simp: open_contents_def and_then_Ok_iff Let_def split: if_splits)
  have enc: "JournalHeader_encode A h = take 36 (content f)"
    using long by (intro JournalHeader_decode_encode [OF _ dec]) simp
  then have c: "content f = JournalHeader_encode A h @ drop 36 (content f)" by simp
  note header = rd [unfolded hb enc [symmetric]]
  show ?thesis
  proof (cases "state h")
    case Empty
    then have "sid = None" "refs = []" "length (content f) = 36"
      using ok long len header
      by (auto simp: open_contents_def header.dec_enc Let_def split: if_splits)
    moreover have "body_len h = 0" using len \<open>length (content f) = 36\<close> by (simp add: unat_eq_0)
    then have "h = EMPTY_HEADER" using Empty by (simp add: EMPTY_HEADER_def)
    ultimately show ?thesis using c by (simp add: EMPTY_FILE_def)
  next
    case (Active s)
    have "SegmentId_new s = Ok i \<Longrightarrow> i = SegmentId s \<and> is_ok (utc_day_of i)" for i
      by (auto simp: SegmentId_new_def and_then_Ok_iff is_ok_iff)
    then obtain scan where sid: "sid = Some (SegmentId s)" "is_ok (utc_day_of (SegmentId s))" "refs = parts scan" "parts scan \<noteq> []"
      and whole: "valid_len scan = length (content f)"
      and run: "scan_journal_streaming_strict_from A (file_source f) 36 (jc_limits cfg) (jc_max_parts cfg) grow = Ok scan"
      using ok long len Active header
      by (auto simp: open_contents_def header.dec_enc Let_def and_then_Ok_iff split: if_splits)
    from os_source.scan_sound [OF run] obtain ps rest where d: "drop 36 (content f) = frames_bytes A ps @ rest"
      and good: "\<forall>p \<in> set ps. good_part A (jc_limits cfg) p" "length ps \<le> jc_max_parts cfg"
      and scan: "scan = \<lparr>parts = refs_from 36 ps, valid_len = 36 + length (frames_bytes A ps)\<rparr>" by blast
    have r: "36 + length (frames_bytes A ps) = length (content f)" using whole scan by simp
    have "length (content f) - 36 = length (frames_bytes A ps) + length rest" using arg_cong [OF d, of length] by simp
    then have "length rest = 0" using r by linarith
    moreover have "h = \<lparr>state = Active (get (SegmentId s)), body_len = of_nat (length (frames_bytes A ps))\<rparr>"
    proof -
      have "unat (body_len h) = length (frames_bytes A ps)" using len r by simp
      then have "of_nat (unat (body_len h)) = (of_nat (length (frames_bytes A ps)) :: u64)" by (rule arg_cong)
      then have "body_len h = of_nat (length (frames_bytes A ps))" by simp
      then show ?thesis using Active by simp
    qed
    ultimately have "content f = JournalHeader_encode A \<lparr>state = Active (get (SegmentId s)), body_len = of_nat (length (frames_bytes A ps))\<rparr> @ frames_bytes A ps"
      using c d by simp
    then show ?thesis using sid scan good by auto
  qed
qed

lemma init_content:
  assumes "exec_ops (initialize_ops A) f = (Ok u, g)"
  shows "content g = EMPTY_FILE A" "durable g = EMPTY_FILE A"
proof -
  have "resize 36 (write_at 0 (EMPTY_FILE A) c) = EMPTY_FILE A" for c
    using header_length [of A EMPTY_HEADER]
    by (auto simp: write_at_def resize_def EMPTY_FILE_def simp del: header_length)
  then show "content g = EMPTY_FILE A" "durable g = EMPTY_FILE A"
    using exec_ops_Ok [OF assms] by (simp_all add: initialize_ops_def write_header_def EMPTY_FILE_def same_file_def)
qed

lemma recover_cases:
  assumes "recover_committed_reset A cfg grow n f = (Ok b, g)"
  shows "(\<not> b \<and> g = f) \<or> (b \<and> (\<exists>u. exec_ops (finish_committed_reset A) f = (Ok u, g)) \<and> 68 \<le> n)"
  using assms
  by (auto simp: recover_committed_reset_def committed_reset_def split: sum.splits prod.splits bool.splits if_splits)

definition accepted :: "'d crc_alg \<Rightarrow> journal_config \<Rightarrow> os_file \<Rightarrow> segment_id option \<Rightarrow> part_ref list \<Rightarrow> bool" where
  "accepted A cfg f sid refs \<longleftrightarrow>
     length (content f) \<le> jc_max_len cfg \<and>
     ((sid = None \<and> refs = [] \<and> content f = EMPTY_FILE A) \<or>
      (\<exists>i ps. sid = Some i \<and> is_ok (utc_day_of i) \<and> ps \<noteq> [] \<and> refs = refs_from 36 ps \<and>
        content f = JournalHeader_encode A \<lparr>state = Active (get i), body_len = of_nat (length (frames_bytes A ps))\<rparr> @ frames_bytes A ps \<and>
        (\<forall>p \<in> set ps. good_part A (jc_limits cfg) p) \<and> length ps \<le> jc_max_parts cfg))"

text \<open>Whatever calls fail on the way, a file that is opened is one of these, and its bytes are the old ones or the empty file.\<close>

lemma open_file_tail:
  assumes f: "length (content g) \<le> jc_max_len cfg"
    and r: "(and_then (open_contents A cfg grow (length (content g)) g)
        (\<lambda>(sid, ps). Ok (length (content g), sid, ps)), g) = (Ok (n, sid, refs), h)"
  shows "h = g \<and> n = length (content h) \<and> accepted A cfg h sid refs"
proof -
  have "h = g" "n = length (content g)" and o: "open_contents A cfg grow (length (content g)) g = Ok (sid, refs)"
    using r by (auto simp: and_then_Ok_iff)
  then show ?thesis
    using open_contents_sound [OF o] f by (auto simp: accepted_def)
qed

text \<open>A file as the system shows it after a call: the old bytes as they were, or the empty file, synchronized.\<close>

definition same_or_empty :: "'d crc_alg \<Rightarrow> os_file \<Rightarrow> os_file \<Rightarrow> bool" where
  "same_or_empty A f g \<longleftrightarrow>
     (content g = content f \<and> durable g = durable f) \<or> (content g = EMPTY_FILE A \<and> durable g = EMPTY_FILE A)"

lemma same_or_empty_trans: "same_or_empty A f g \<Longrightarrow> same_or_empty A g h \<Longrightarrow> same_or_empty A f h"
  by (auto simp: same_or_empty_def)

lemma open_file_sound:
  assumes cfg: "validate_config cfg = Ok ()"
    and r: "open_file A cfg grow created f = (Ok (n, sid, refs), h)"
  shows "n = length (content h) \<and> accepted A cfg h sid refs \<and> same_or_empty A f h"
proof -
  have cap: "36 \<le> jc_max_len cfg" using cfg by (simp add: validate_config_Ok)
  have l36: "length (EMPTY_FILE A) = 36" by (simp add: EMPTY_FILE_def)
  define g where "g = snd (if created then exec_ops (initialize_ops A) f else (Ok (), f))"
  have g0: "fst (if created then exec_ops (initialize_ops A) f else (Ok (), f)) = Ok ()"
    using r by (auto simp: open_file_def split: prod.splits sum.splits if_splits)
  have g: "same_or_empty A f g"
    using g0 init_content [of A f "()" g]
    by (cases created) (auto simp: g_def prod_eq_iff same_or_empty_def)
  obtain m where m: "metadata_len g = Ok m"
    using r g0 by (cases "metadata_len g") (auto simp: open_file_def g_def split: prod.splits)
  have ml: "metadata_len g = Ok (length (content g))" using m metadata_sound [OF m] by simp
  have fits: "length (content g) \<le> jc_max_len cfg"
    using r g0 ml by (auto simp: open_file_def g_def split: prod.splits sum.splits if_splits)
  obtain b k where k: "recover_committed_reset A cfg grow (length (content g)) g = (Ok b, k)"
    using r g0 ml fits by (auto simp: open_file_def g_def split: prod.splits sum.splits if_splits)
  define n0 where "n0 = (if b then 36 else length (content g))"
  have r1: "(case (if n0 = 0 then exec_ops (initialize_ops A) k else (Ok (), k)) of
        (Err e, f) \<Rightarrow> (Err (JournalIo e), f)
      | (Ok _, f) \<Rightarrow>
     let file_len = (if n0 = 0 then 36 else n0) in
     (and_then (open_contents A cfg grow file_len f) (\<lambda>(sid, ps). Ok (file_len, sid, ps)), f)) = (Ok (n, sid, refs), h)"
    using r g0 ml fits k unfolding open_file_def g_def n0_def by (auto split: prod.splits if_splits)
  have "same_or_empty A g k \<and> length (content k) = n0 \<and> n0 \<le> jc_max_len cfg"
  proof (cases b)
    case True
    then obtain u where fin: "exec_ops (finish_committed_reset A) g = (Ok u, k)" and "36 \<le> length (content g)"
      using recover_cases [OF k] by auto
    then have "content k = EMPTY_FILE A" "durable k = EMPTY_FILE A"
      using exec_ops_Ok [OF fin] finish_content [of g A] by (simp_all add: same_file_def)
    then show ?thesis using True l36 cap by (simp add: n0_def same_or_empty_def)
  next
    case False
    then show ?thesis using recover_cases [OF k] fits by (simp add: n0_def same_or_empty_def)
  qed
  then have kk: "same_or_empty A f k" "length (content k) = n0" "n0 \<le> jc_max_len cfg"
    using same_or_empty_trans [OF g] by auto
  show ?thesis
  proof (cases "n0 = 0")
    case True
    then obtain u l where init: "exec_ops (initialize_ops A) k = (Ok u, l)"
      and r2: "(and_then (open_contents A cfg grow 36 l) (\<lambda>(sid, ps). Ok (36, sid, ps)), l) = (Ok (n, sid, refs), h)"
      using r1 by (auto split: prod.splits sum.splits)
    note c = init_content [OF init]
    have "h = l \<and> n = length (content h) \<and> accepted A cfg h sid refs"
      by (rule open_file_tail [of l cfg A grow n sid refs h])
        (use c l36 cap r2 in \<open>auto simp: and_then_Ok_iff\<close>)
    then show ?thesis using c by (auto simp: same_or_empty_def)
  next
    case False
    then have "(and_then (open_contents A cfg grow n0 k) (\<lambda>(sid, ps). Ok (n0, sid, ps)), k) = (Ok (n, sid, refs), h)"
      using r1 by auto
    then have "h = k \<and> n = length (content h) \<and> accepted A cfg h sid refs"
      by (intro open_file_tail [of k cfg A grow n sid refs h]) (simp_all only: kk)
    then show ?thesis using kk(1) by auto
  qed
qed

section \<open>The file of a healthy handle, whatever calls fail\<close>

lemma no_reset_sound:
  assumes "content f = JournalHeader_encode A \<lparr>state = Active s, body_len = of_nat (e - 36)\<rparr> @ rest"
    and "36 \<le> e" "e < 2 ^ 64" "length (content f) \<noteq> e + 32"
  shows "committed_reset A cfg grow (length (content f)) f \<noteq> Ok True"
proof
  assume seen: "committed_reset A cfg grow (length (content f)) f = Ok True"
  then have long: "68 \<le> length (content f)" by (auto simp: committed_reset_def split: if_splits)
  obtain bs where bs: "file_read_exact_at f 32 (length (content f) - 32) = Ok bs"
    using seen long by (auto simp: committed_reset_def Let_def and_then_Ok_iff)
  obtain m where m: "ResetMarker_decode A bs = Some m"
    using seen long bs by (cases "ResetMarker_decode A bs") (simp_all add: committed_reset_def Let_def)
  obtain hb where rd: "file_read_exact_at f 36 0 = Ok hb"
    and prev: "unat (previous_len m) = length (content f) - 32" and cl: "classify_header_transition A m hb \<noteq> None"
    using seen long bs m by (auto simp: committed_reset_def Let_def and_then_Ok_iff split: if_splits)
  have hb: "hb = JournalHeader_encode A \<lparr>state = Active s, body_len = of_nat (e - 36)\<rparr>"
    using read_file_sound [OF rd] by (simp add: assms(1) slice_of_def)
  from cl obtain h k where "expected_previous_header A m = Some h"
    "JournalHeader_encode A \<lparr>state = Active s, body_len = of_nat (e - 36)\<rparr> =
      take k (JournalHeader_encode A EMPTY_HEADER) @ drop k (JournalHeader_encode A h)"
    unfolding hb classify_splice [OF header_length] by blast
  with active_not_spliced [of A s e k "previous_len m" "previous_segment_id m"] assms(2,3)
  have "unat (previous_len m) = e" by (auto dest: expected_previous_header_Some)
  with prev long assms(4) show False by simp
qed

lemma open_file_keeps:
  assumes "36 \<le> length (content f)" and "committed_reset A cfg grow (length (content f)) f \<noteq> Ok True"
    and "open_file A cfg grow False f = (r, g)"
  shows "g = f"
proof (cases "metadata_len f")
  case (Inl e)
  then show ?thesis using assms(3) by (simp add: open_file_def)
next
  case (Inr n)
  then have "n = length (content f)" by (rule metadata_sound)
  moreover from this have "n \<noteq> 0" using assms(1) by auto
  ultimately show ?thesis
    using assms(2,3) Inr
    by (auto simp: open_file_def recover_committed_reset_def Let_def split: if_splits sum.splits bool.splits)
qed

lemma open_file_healthy:
  assumes repr: "journal_repr A j ps" and same: "content f = content (j_file j)"
    and run: "open_file A cfg grow False f = (r, g)"
  shows "g = f"
proof (rule open_file_keeps [OF _ _ run])
  have len: "length (content f) = j_end j" and c: "content f = JournalHeader_encode A (current_header j) @ frames_bytes A ps"
    using repr same unfolding journal_repr_def by auto
  note e = repr_facts(1-3) [OF repr]
  show "36 \<le> length (content f)" using len e by simp
  show "committed_reset A cfg grow (length (content f)) f \<noteq> Ok True"
  proof (cases "j_segment_id j")
    case None
    then have "length (content f) = 36" using len e(1) repr_facts(6) [OF repr] by simp
    then show ?thesis by (simp add: committed_reset_def)
  next
    case (Some sid)
    then have "current_header j = \<lparr>state = Active (get sid), body_len = of_nat (j_end j - 36)\<rparr>"
      by (simp add: current_header_def)
    from no_reset_sound [OF c [unfolded this]] e len show ?thesis by simp
  qed
qed

text \<open>The bytes of a healthy handle determine its parts and its identifier.\<close>

lemma repr_unique:
  assumes j: "journal_repr A j ps" and k: "journal_repr A k qs" and same: "content (j_file k) = content (j_file j)"
    and limits: "jc_limits (j_config k) = jc_limits (j_config j)"
  shows "qs = ps \<and> j_segment_id k = j_segment_id j"
proof -
  have "JournalHeader_encode A (current_header k) @ frames_bytes A qs = JournalHeader_encode A (current_header j) @ frames_bytes A ps"
    using j k same unfolding journal_repr_def by auto
  then have h: "current_header k = current_header j" and f: "frames_bytes A qs @ [] = frames_bytes A ps @ []"
    by (simp_all add: header.enc_append_inject)
  have "qs = ps"
    using frames_unique [OF f, of "jc_limits (j_config j)"] j k limits no_frame_Nil by (auto simp: journal_repr_def)
  moreover have "j_segment_id k = j_segment_id j"
    using h by (cases "j_segment_id k"; cases "j_segment_id j") (auto simp: current_header_def segment_id.expand)
  ultimately show ?thesis ..
qed

end
