(* ===== verification/Journal_Crash.thy ===== *)
theory Journal_Crash
  imports Journal_Recovery
begin

text \<open>
  A process that dies inside \<open>append\<close> or \<open>reset\<close>: the file it leaves at every interruption
  point, and what the next \<open>open\<close> makes of it.
\<close>

section \<open>The calls of a reset\<close>

definition reset_ops :: "'d crc_alg \<Rightarrow> journal \<Rightarrow> reset_marker \<Rightarrow> file_op list" where
  "reset_ops A j m = marker_ops A (j_end j) m @ finish_committed_reset A"

text \<open>These are the calls \<open>reset\<close> makes when none fails.\<close>

lemma reset_commit_ops:
  assumes "faults (j_file j) = []"
  shows "j_file (snd (reset_commit A m g j)) = fold apply_op (reset_ops A j m) (j_file j)"
proof -
  have "faults (fold apply_op ops f) = []" if "faults f = []" for ops f
    using that by (induction ops arbitrary: f) auto
  then show ?thesis using assms
    by (simp add: reset_commit_def reset_ops_def exec_ops_no_faults)
qed

lemma marker_content_part:
  assumes "length (content f) = e"
  shows "content (crash_at 1 i (marker_ops A e m @ ops) f) = content f @ take i (ResetMarker_encode A m)"
  using assms write_at_end [of "content f" "take i (ResetMarker_encode A m)"]
  by (simp add: marker_ops_def crash_at_def)

text \<open>After the marker: the header partly rewritten, the body and the marker still there; or done.\<close>

lemma finish_crash_content:
  assumes c: "content f = h @ rest" and l: "length h = 36"
  shows "(\<exists>n \<le> 36. content (crash_at k i (finish_committed_reset A) f) = (take n (EMPTY_FILE A) @ drop n h) @ rest)
    \<or> content (crash_at k i (finish_committed_reset A) f) = EMPTY_FILE A"
proof -
  let ?ops = "finish_committed_reset A" and ?E = "EMPTY_FILE A"
  have E: "length ?E = 36" by (simp add: EMPTY_FILE_def)
  have full: "write_at 0 ?E (h @ rest) = ?E @ rest" using E l by (simp add: write_at_start)
  have w: "write_at 0 (take n ?E) (h @ rest) = (take (min n 36) ?E @ drop (min n 36) h) @ rest" for n
    using write_at_start_part [of n ?E h rest] E l full by (cases "n \<le> 36") (simp_all add: min_def)
  have ops: "?ops = [SeekTo 0, WriteAll ?E, SyncData, SetLen 36, SyncData]"
    by (simp add: finish_committed_reset_def write_header_def EMPTY_FILE_def)
  consider "k = 0" | "k = 1" | "k = 2" | "k = 3" | "4 \<le> k" by linarith
  then show ?thesis
  proof cases
    case 1
    then have "content (crash_at k i ?ops f) = (take 0 ?E @ drop 0 h) @ rest"
      by (simp add: ops crash_at_0 c)
    then show ?thesis by blast
  next
    case 2
    then have "content (crash_at k i ?ops f) = (take (min i 36) ?E @ drop (min i 36) h) @ rest"
      by (simp add: ops crash_at_def c w)
    then show ?thesis by (metis min.cobounded2)
  next
    case 3
    then have "content (crash_at k i ?ops f) = (take 36 ?E @ drop 36 h) @ rest"
      using E l by (simp add: ops crash_at_def c full)
    then show ?thesis by blast
  next
    case 4
    then have "content (crash_at k i ?ops f) = (take 36 ?E @ drop 36 h) @ rest"
      using E l by (simp add: ops crash_at_def c full numeral_eq_Suc)
    then show ?thesis by blast
  next
    case 5
    then have "take k ?ops = [SeekTo 0, WriteAll ?E, SyncData, SetLen 36] @ take (k - 4) [SyncData]"
      by (simp add: ops take_Cons')
    then have "content (crash_at k i ?ops f) = ?E"
      using E 5 by (cases "k = 4") (simp_all add: ops crash_at_def Let_def c full resize_cut)
    then show ?thesis by blast
  qed
qed

section \<open>A crash during reset\<close>

text \<open>The side conditions under which \<open>reset\<close> reaches its first call.\<close>

definition reset_ready :: "'d crc_alg \<Rightarrow> journal \<Rightarrow> bytes list \<Rightarrow> segment_id \<Rightarrow> reset_marker \<Rightarrow> bool" where
  "reset_ready A j ps sid m \<longleftrightarrow>
     journal_repr A j ps \<and> j_segment_id j = Some sid \<and>
     ResetMarker_new A (of_nat (j_end j)) (get sid) = Some m \<and> j_end j + 32 \<le> jc_max_len (j_config j)"

lemma reset_ready_facts:
  assumes "reset_ready A j ps sid m"
  shows "content (j_file j) = JournalHeader_encode A \<lparr>state = Active (get sid), body_len = of_nat (j_end j - 36)\<rparr> @ frames_bytes A ps"
    and "length (content (j_file j)) = j_end j" and "j_end j = 36 + length (frames_bytes A ps)"
    and "j_end j + 32 < 2 ^ 64" and "ps \<noteq> []" and "is_ok (utc_day_of sid)"
    and "\<forall>p \<in> set ps. good_part A (jc_limits (j_config j)) p" and "length ps \<le> jc_max_parts (j_config j)"
    and "j_end j + 32 \<le> jc_max_len (j_config j)" and "journal_repr A j ps"
    and "ResetMarker_new A (of_nat (j_end j)) (get sid) = Some m"
proof -
  from assms have repr: "journal_repr A j ps" and sid: "j_segment_id j = Some sid"
    and m: "ResetMarker_new A (of_nat (j_end j)) (get sid) = Some m"
    and cap: "j_end j + 32 \<le> jc_max_len (j_config j)" by (simp_all add: reset_ready_def)
  have "current_header j = \<lparr>state = Active (get sid), body_len = of_nat (j_end j - 36)\<rparr>"
    by (simp add: current_header_def sid)
  then show "content (j_file j) = JournalHeader_encode A \<lparr>state = Active (get sid), body_len = of_nat (j_end j - 36)\<rparr> @ frames_bytes A ps"
    using repr unfolding journal_repr_def by metis
  show "length (content (j_file j)) = j_end j" using repr unfolding journal_repr_def by metis
  show "ps \<noteq> []" "is_ok (utc_day_of sid)" "\<forall>p \<in> set ps. good_part A (jc_limits (j_config j)) p"
    "length ps \<le> jc_max_parts (j_config j)"
    using repr sid unfolding journal_repr_def by auto
qed (use assms repr_facts(1,3) [of A j ps] in \<open>auto simp: reset_ready_def\<close>)

lemma crash_in_marker:
  assumes r: "reset_ready A j ps sid m" and i: "0 < i" "i < 32"
    and f: "content f = content (j_file j) @ take i (ResetMarker_encode A m)"
  shows "open_file A (j_config j) grow False (restart f) =
    (Err (BodyLengthMismatch (of_nat (j_end j - 36)) (j_end j - 36 + i)), restart f)"
proof -
  note t = reset_ready_facts [OF r]
  have c: "content (restart f) = JournalHeader_encode A \<lparr>state = Active (get sid), body_len = of_nat (j_end j - 36)\<rparr> @
      (frames_bytes A ps @ take i (ResetMarker_encode A m))"
    using f t(1) by simp
  have len: "length (content f) = j_end j + i" using f t(2) i by simp
  have "committed_reset A (j_config j) grow (length (content (restart f))) (restart f) = Ok False"
    by (rule no_reset_here [OF restart_simps(2) _ c]) (use t len i in simp_all)
  moreover have "unat (of_nat (j_end j - 36) :: u64) = j_end j - 36"
    using t(4) by (intro unat_of_nat_u64) simp
  then have "open_contents A (j_config j) grow (length (content (restart f))) (restart f) =
      Err (BodyLengthMismatch (of_nat (j_end j - 36)) (length (frames_bytes A ps @ take i (ResetMarker_encode A m))))"
    using open_contents_mismatch [OF restart_simps(2) _ c, of "j_config j" grow] t len i by simp
  ultimately show ?thesis
    using open_file_unseen [of A "j_config j" grow f] len t i by simp
qed

lemma crash_after_marker:
  assumes r: "reset_ready A j ps sid m" and n: "n \<le> 36"
    and f: "content f = (take n (EMPTY_FILE A) @
        drop n (JournalHeader_encode A \<lparr>state = Active (get sid), body_len = of_nat (j_end j - 36)\<rparr>)) @
      frames_bytes A ps @ ResetMarker_encode A m"
  shows "\<exists>g. open_file A (j_config j) grow False (restart f) = (Ok (36, None, []), g) \<and> content g = EMPTY_FILE A"
proof -
  note t = reset_ready_facts [OF r]
  define hb where "hb = take n (JournalHeader_encode A EMPTY_HEADER) @
    drop n (JournalHeader_encode A (active_header (of_nat (j_end j)) (get sid)))"
  have "active_header (of_nat (j_end j)) (get sid) = \<lparr>state = Active (get sid), body_len = of_nat (j_end j - 36)\<rparr>"
    using t(3) by (simp add: active_header_def of_nat_diff)
  then have c: "content (restart f) = (hb @ frames_bytes A ps) @ ResetMarker_encode A m"
    using f by (simp add: hb_def EMPTY_FILE_def)
  have len: "length (content f) = j_end j + 32" using c n t(3) by (simp add: hb_def)
  have "committed_reset A (j_config j) grow (length (content (restart f))) (restart f) = Ok True"
    by (rule committed_reset_seen [OF restart_simps(2) _ c hb_def n t(3,11,6,5,7,8)]) (use t len in simp_all)
  then show ?thesis
    using open_file_seen [of A "j_config j" grow f] len t by fastforce
qed

section \<open>A crash during a later append\<close>

lemma later_append_ops:
  "j_parts j \<noteq> [] \<Longrightarrow> append_ops A j sid part e =
     [SeekTo (j_end j), WriteAll (FrameHeader_encode A \<lparr>part_len = of_nat (length part)\<rparr>), WriteAll part,
      SeekTo 0, WriteAll (JournalHeader_encode A (append_header sid e)), SyncData]"
  by (simp add: append_ops_def write_header_def write_frame_def Let_def)

text \<open>The old and the new header of a generation agree up to the length field.\<close>

lemma header_common_prefix:
  "i \<le> 24 \<Longrightarrow> take i (JournalHeader_encode A \<lparr>state = st, body_len = a\<rparr>) = take i (JournalHeader_encode A \<lparr>state = st, body_len = b\<rparr>)"
  by (simp add: JournalHeader_encode_def header_prefix_def)

text \<open>A torn tail of a frame is not a reset marker: the magic numbers differ.\<close>

lemma frame_not_marker:
  assumes "32 \<le> length (frame_bytes A part)"
  shows "ResetMarker_decode A (take 32 (frame_bytes A part)) = None"
proof -
  have "take 8 (take 32 (frame_bytes A part)) \<noteq> RESET_MARKER_MAGIC"
  proof
    assume "take 8 (take 32 (frame_bytes A part)) = RESET_MARKER_MAGIC"
    moreover have "take 4 (frame_bytes A part) = take 4 (take 8 (take 32 (frame_bytes A part)))"
      by simp
    ultimately have "take 4 (frame_bytes A part) = take 4 RESET_MARKER_MAGIC" by simp
    moreover have "take 4 (frame_bytes A part) = FRAME_MAGIC"
      by (simp add: frame_bytes_def FrameHeader_encode_def)
    ultimately show False by (simp add: FRAME_MAGIC_def RESET_MARKER_MAGIC_def)
  qed
  then show ?thesis by (simp add: ResetMarker_decode_def)
qed

lemma crash_in_frame:
  assumes repr: "journal_repr A j ps" and sid: "j_segment_id j = Some sid"
    and x: "0 < x" "x \<le> 16 + length part" and cap: "j_end j + (16 + length part) \<le> jc_max_len (j_config j)"
    and f: "content f = content (j_file j) @ take x (frame_bytes A part)"
  shows "open_file A (j_config j) grow False (restart f) =
    (Err (BodyLengthMismatch (of_nat (j_end j - 36)) (j_end j - 36 + x)), restart f)"
proof -
  note e = repr_facts(1-3) [OF repr]
  have h: "current_header j = \<lparr>state = Active (get sid), body_len = of_nat (j_end j - 36)\<rparr>"
    by (simp add: current_header_def sid)
  have c0: "content (j_file j) = JournalHeader_encode A (current_header j) @ frames_bytes A ps"
    and l0: "length (content (j_file j)) = j_end j"
    using repr unfolding journal_repr_def by metis+
  have c: "content (restart f) = JournalHeader_encode A \<lparr>state = Active (get sid), body_len = of_nat (j_end j - 36)\<rparr> @
      (frames_bytes A ps @ take x (frame_bytes A part))"
    using f c0 by (simp add: h)
  have len: "length (content f) = j_end j + x" using f l0 x by simp
  have small: "length (content (restart f)) < 2 ^ 64"
    using len x cap repr by (auto simp: journal_repr_def validate_config_Ok MAX_JOURNAL_LEN_def)
  have "committed_reset A (j_config j) grow (length (content (restart f))) (restart f) = Ok False"
  proof (cases "x = 32")
    case False
    then show ?thesis by (intro no_reset_here [OF restart_simps(2) small c]) (use e len in simp_all)
  next
    case True
    have "file_read_exact_at (restart f) 32 (j_end j) = Ok (slice_of (j_end j) 32 (content (restart f)))"
      using len True by (intro read_file [OF restart_simps(2) small]) simp
    moreover have "slice_of (j_end j) 32 (content (restart f)) = take 32 (frame_bytes A part)"
      using f l0 True by (simp add: slice_of_def)
    ultimately show ?thesis
      using frame_not_marker [of A part] len True x e by (simp add: committed_reset_def)
  qed
  moreover have "unat (of_nat (j_end j - 36) :: u64) = j_end j - 36"
    using e(3) by (intro unat_of_nat_u64) simp
  then have "open_contents A (j_config j) grow (length (content (restart f))) (restart f) =
      Err (BodyLengthMismatch (of_nat (j_end j - 36)) (length (frames_bytes A ps @ take x (frame_bytes A part))))"
    using open_contents_mismatch [OF restart_simps(2) small c, of "j_config j" grow] e x by simp
  ultimately show ?thesis
    using open_file_unseen [of A "j_config j" grow f] len e x cap by simp
qed

section \<open>A crash in the header rewrite\<close>

text \<open>The root header is rewritten in place: some bytes of the new one, then the rest of the old one.\<close>

definition torn_header :: "'d crc_alg \<Rightarrow> journal_header \<Rightarrow> journal_header \<Rightarrow> nat \<Rightarrow> bytes" where
  "torn_header A old new i = take i (JournalHeader_encode A new) @ drop i (JournalHeader_encode A old)"

lemma length_torn_header [simp]: "length (torn_header A old new i) = 36"
  by (simp add: torn_header_def min_def)

lemma torn_header_head:
  assumes "24 \<le> i"
  shows "take 24 (torn_header A old new i) = take 24 (JournalHeader_encode A new)"
  using assms by (simp add: torn_header_def)

lemma le_nat_head: "0 < n \<Longrightarrow> le_nat n x ! 0 = of_nat (x mod 256)"
  by (cases n) simp_all

lemma header_low_byte: "JournalHeader_encode A h ! 24 = of_nat (unat (body_len h) mod 256)"
proof -
  have "JournalHeader_encode A h ! 24 = slice_of 24 8 (JournalHeader_encode A h) ! 0" by (simp add: slice_of_def)
  also have "\<dots> = of_nat (unat (body_len h) mod 256)"
    unfolding header_body_bytes to_le64_def by (rule le_nat_head) simp
  finally show ?thesis .
qed

lemma torn_header_low_byte:
  assumes "24 < i"
  shows "torn_header A old new i ! 24 = of_nat (unat (body_len new) mod 256)"
  using assms header_low_byte [of A new] by (simp add: torn_header_def nth_append)

text \<open>A block that starts like a header decodes to its state and to whatever length it shows, if the checksum fits.\<close>

lemma decode_same_head:
  assumes "length bs = 36" and "take 24 bs = take 24 (JournalHeader_encode A h)"
  shows "JournalHeader_decode A bs =
    (if from_le32 (slice_of 32 4 bs) \<noteq> crc32c A (take 32 bs)
     then Err (BadChecksum (from_le32 (slice_of 32 4 bs)) (crc32c A (take 32 bs)))
     else Ok \<lparr>state = state h, body_len = from_le64 (slice_of 24 8 bs)\<rparr>)"
proof -
  have "bs = take 24 bs @ drop 24 bs" by simp
  also have "take 24 bs = JOURNAL_MAGIC @ to_le32 JOURNAL_VERSION @ state_bytes (state h)"
    using assms(2) by (simp add: JournalHeader_encode_def header_prefix_def)
  finally have bs: "bs = JOURNAL_MAGIC @ to_le32 JOURNAL_VERSION @ state_bytes (state h) @ drop 24 bs"
    by simp
  have "take 8 bs = JOURNAL_MAGIC" by (subst bs) simp
  moreover have "slice_of 8 4 bs = to_le32 JOURNAL_VERSION" by (subst bs) (simp add: slice_of_def)
  moreover have "slice_of 16 8 bs = drop 4 (state_bytes (state h))" by (subst bs) (simp add: slice_of_def)
  moreover have "bs ! 12 = state_bytes (state h) ! 0" "bs ! 13 = state_bytes (state h) ! 1"
    "bs ! 14 = state_bytes (state h) ! 2" "bs ! 15 = state_bytes (state h) ! 3"
    by (subst bs, simp add: nth_append)+
  ultimately show ?thesis
    by (cases "state h") (simp_all add: JournalHeader_decode_def Let_def decode_state_def)
qed

text \<open>The torn header never looks like the header of a committed reset, whatever the frame ends with.\<close>

lemma torn_not_spliced:
  assumes "torn_header A old \<lparr>state = Active s, body_len = of_nat (e - 36)\<rparr> i =
      take k (JournalHeader_encode A EMPTY_HEADER) @ drop k (JournalHeader_encode A (active_header l s'))"
    and "24 < i" and "68 \<le> e" "e < 2 ^ 64" and "unat l = e - 32"
  shows False
proof (cases "12 < k")
  let ?new = "\<lparr>state = Active s, body_len = of_nat (e - 36)\<rparr>"
  case True
  have "torn_header A old ?new i ! 12 = JournalHeader_encode A ?new ! 12"
    using assms(2) by (simp add: torn_header_def nth_append)
  moreover have "(take k (JournalHeader_encode A EMPTY_HEADER) @ drop k (JournalHeader_encode A (active_header l s'))) ! 12 =
      JournalHeader_encode A EMPTY_HEADER ! 12" using True by (simp add: nth_append)
  ultimately show False using assms(1) by (simp add: header_state_byte EMPTY_HEADER_def)
next
  case False
  let ?P = "JournalHeader_encode A (active_header l s')"
  have len: "unat (of_nat (e - 36) :: u64) = e - 36" using assms(4) by (intro unat_of_nat_u64) simp
  have "l = of_nat (e - 32)" by (simp flip: assms(5))
  then have "l - 36 = of_nat (e - 68)" using assms(3) by (simp add: of_nat_diff)
  then have old: "unat (l - 36) = e - 68" using assms(4) unat_of_nat_u64 [of "e - 68"] by simp
  have "(take k (JournalHeader_encode A EMPTY_HEADER) @ drop k ?P) ! 24 = ?P ! 24"
    using False by (simp add: nth_append)
  also have "\<dots> = of_nat ((e - 68) mod 256)" unfolding header_low_byte by (simp add: active_header_def old)
  finally have "(of_nat ((e - 36) mod 256) :: u8) = of_nat ((e - 68) mod 256)"
    using torn_header_low_byte [OF assms(2), of A old "\<lparr>state = Active s, body_len = of_nat (e - 36)\<rparr>"] assms(1) len by simp
  moreover have "unat (of_nat (m mod 256) :: u8) = m mod 256" for m :: nat by (simp add: unat_of_nat)
  ultimately have "(e - 36) mod 256 = (e - 68) mod 256" by metis
  then have "256 dvd (e - 36) - (e - 68)" using assms(3) by (subst (asm) mod_eq_dvd_iff_nat) auto
  moreover have "(e - 36) - (e - 68) = 32" using assms(3) by simp
  ultimately show False by simp
qed

text \<open>So the next \<open>open\<close> sees either a bad checksum, a length that is not that of the file, or the new header.\<close>

lemma crash_in_header:
  assumes small: "length (content f) < 2 ^ 64" and fits: "length (content f) \<le> jc_max_len cfg"
    and i: "24 < i" "i < 36" and e: "e = 36 + length rest" "68 \<le> e"
    and f: "content f = torn_header A \<lparr>state = Active s, body_len = a\<rparr> \<lparr>state = Active s, body_len = of_nat (e - 36)\<rparr> i @ rest"
    and differs: "torn_header A \<lparr>state = Active s, body_len = a\<rparr> \<lparr>state = Active s, body_len = of_nat (e - 36)\<rparr> i \<noteq>
      JournalHeader_encode A \<lparr>state = Active s, body_len = of_nat (e - 36)\<rparr>"
  shows "open_file A cfg grow False (restart f) =
    (Err (case JournalHeader_decode A (torn_header A \<lparr>state = Active s, body_len = a\<rparr> \<lparr>state = Active s, body_len = of_nat (e - 36)\<rparr> i) of
        Inl er \<Rightarrow> InvalidHeader er
      | Inr h \<Rightarrow> BodyLengthMismatch (body_len h) (e - 36)), restart f)"
proof -
  let ?new = "\<lparr>state = Active s, body_len = of_nat (e - 36)\<rparr>"
  let ?torn = "torn_header A \<lparr>state = Active s, body_len = a\<rparr> ?new i"
  have len: "length (content f) = e" using f e by simp
  have rd: "file_read_exact_at (restart f) n off = Ok (slice_of off n (content f))" if "off + n \<le> e" for n off
    using read_file [of "restart f" off n] small len that by simp
  have hb: "file_read_exact_at (restart f) 36 0 = Ok ?torn"
    using rd [of 0 36] e f by (simp add: slice_of_def)
  have "classify_header_transition A m ?torn = None" if "unat (previous_len m) = e - 32" for m
  proof (rule ccontr)
    assume "classify_header_transition A m ?torn \<noteq> None"
    then obtain h k where "expected_previous_header A m = Some h"
      "?torn = take k (JournalHeader_encode A EMPTY_HEADER) @ drop k (JournalHeader_encode A h)"
      by (subst (asm) classify_splice) auto
    then have "?torn = take k (JournalHeader_encode A EMPTY_HEADER) @
        drop k (JournalHeader_encode A (active_header (previous_len m) (previous_segment_id m)))"
      by (auto dest: expected_previous_header_Some)
    from torn_not_spliced [OF this i(1) e(2) _ that] small len show False by simp
  qed
  then have unseen: "committed_reset A cfg grow e (restart f) = Ok False"
    using rd [of "e - 32" 32] hb e(2) by (auto simp: committed_reset_def Let_def split: option.split)
  note decode = decode_same_head [OF length_torn_header torn_header_head [OF less_imp_le [OF i(1)]], of A "\<lparr>state = Active s, body_len = a\<rparr>" ?new]
  have "open_contents A cfg grow e (restart f) =
    Err (case JournalHeader_decode A ?torn of Inl er \<Rightarrow> InvalidHeader er | Inr h \<Rightarrow> BodyLengthMismatch (body_len h) (e - 36))"
  proof (cases "JournalHeader_decode A ?torn")
    case (Inl er)
    then have "\<exists>x y. er = BadChecksum x y" using decode by (auto split: if_splits)
    then show ?thesis using Inl hb e(2) by (auto simp: open_contents_def)
  next
    case (Inr h)
    then have st: "state h = Active s" using decode by (auto split: if_splits)
    have "JournalHeader_encode A h = ?torn" using JournalHeader_decode_encode [OF length_torn_header Inr] .
    then have "h \<noteq> ?new" using differs by auto
    then have "body_len h \<noteq> of_nat (e - 36)" using st by (cases h) simp
    moreover have "body_len h = of_nat (e - 36)" if "unat (body_len h) = e - 36"
      using arg_cong [OF that, of "of_nat :: nat \<Rightarrow> u64"] by simp
    ultimately have "unat (body_len h) \<noteq> e - 36" by blast
    then show ?thesis using Inr hb e(2) by (simp add: open_contents_def Let_def)
  qed
  then show ?thesis
    using open_file_unseen [of A cfg grow f] unseen len fits e(2) by simp
qed

text \<open>How much of the frame is in the file at an interruption point.\<close>

definition frame_written :: "nat \<Rightarrow> nat \<Rightarrow> bytes \<Rightarrow> nat" where
  "frame_written k i part =
     (if k = 0 then 0 else if k = 1 then min i 16
      else if k = 2 then 16 + min i (length part) else 16 + length part)"

definition header_done :: "nat \<Rightarrow> nat \<Rightarrow> bool" where
  "header_done k i \<longleftrightarrow> 5 \<le> k \<or> k = 4 \<and> JOURNAL_HEADER_LEN \<le> i"

definition header_untouched :: "nat \<Rightarrow> nat \<Rightarrow> bool" where
  "header_untouched k i \<longleftrightarrow> k < 4 \<or> k = 4 \<and> i \<le> 24"

lemma append_crash_content:
  assumes repr: "journal_repr A j ps" and sid: "j_segment_id j = Some sid"
    and e: "e = j_end j + (16 + length part)"
  shows "header_untouched k i \<Longrightarrow> content (crash_at k i (append_ops A j sid part e) (j_file j)) =
      content (j_file j) @ take (frame_written k i part) (frame_bytes A part)"
    and "header_done k i \<Longrightarrow> content (crash_at k i (append_ops A j sid part e) (j_file j)) =
      JournalHeader_encode A (append_header sid e) @ frames_bytes A (ps @ [part])"
    and "\<not> header_untouched k i \<Longrightarrow> \<not> header_done k i \<Longrightarrow> content (crash_at k i (append_ops A j sid part e) (j_file j)) =
      torn_header A (current_header j) (append_header sid e) i @ frames_bytes A (ps @ [part]) \<and> 24 < i \<and> i < 36"
proof -
  let ?f = "j_file j" and ?fh = "FrameHeader_encode A \<lparr>part_len = of_nat (length part)\<rparr>"
  let ?H = "JournalHeader_encode A (append_header sid e)"
  have ne: "j_parts j \<noteq> []" using repr_facts(4,6) [OF repr] sid by simp
  have c: "content ?f = JournalHeader_encode A (current_header j) @ frames_bytes A ps"
    and l: "length (content ?f) = j_end j"
    using repr unfolding journal_repr_def by metis+
  note ops = later_append_ops [OF ne, of A sid part e]
  have fl: "length ?fh = 16" by (rule frame.enc_length)
  have w1: "write_at (j_end j) bs (content ?f) = content ?f @ bs" for bs
    using write_at_end [of "content ?f" bs] by (simp add: l)
  have w2: "write_at (j_end j + 16) bs (content ?f @ ?fh) = content ?f @ ?fh @ bs" for bs
    using write_at_end [of "content ?f @ ?fh" bs] by (simp add: l fl)
  have fb: "frame_bytes A part = ?fh @ part" by (simp add: frame_bytes_def)
  have H36: "write_at 0 ?H (content ?f @ x) = ?H @ frames_bytes A ps @ x" for x
    unfolding c by (simp add: write_at_start)
  have Hi: "write_at 0 (take n ?H) (content ?f @ x) = content ?f @ x" if "n \<le> 24" for n x
  proof -
    have "take n ?H = take n (JournalHeader_encode A (current_header j))"
      using header_common_prefix [OF that] by (simp add: append_header_def current_header_def sid)
    then show ?thesis unfolding c
      using write_at_start_part [of n ?H "JournalHeader_encode A (current_header j)" "frames_bytes A ps @ x"] that
      by simp
  qed
  have tk: "take i ?fh = take (min i 16) ?fh" using fl by (simp add: min_def)
  have tp: "take (min i (length part)) part = take i part" by (simp add: min_def)
  {
    assume "header_untouched k i"
    then consider "k = 0" | "k = 1" | "k = 2" | "k = 3" | "k = 4" "i \<le> 24"
      unfolding header_untouched_def by linarith
    then show "content (crash_at k i (append_ops A j sid part e) ?f) =
        content ?f @ take (frame_written k i part) (frame_bytes A part)"
      by cases (simp_all add: ops crash_at_def frame_written_def fb fl w1 w2 Hi tk tp)
  next
    assume "header_done k i"
    then consider "k = 4" "36 \<le> i" | "k = 5" | "6 \<le> k" unfolding header_done_def by linarith
    then have "content (crash_at k i (append_ops A j sid part e) ?f) = ?H @ frames_bytes A ps @ ?fh @ part"
      by cases (simp_all add: ops crash_at_def fl w1 w2 H36)
    then show "content (crash_at k i (append_ops A j sid part e) ?f) = ?H @ frames_bytes A (ps @ [part])"
      by (simp add: fb)
  next
    assume "\<not> header_untouched k i" "\<not> header_done k i"
    then have k: "k = 4" and i: "24 < i" "i < 36" unfolding header_untouched_def header_done_def by auto
    have "write_at 0 (take i ?H) (content ?f @ x) = torn_header A (current_header j) (append_header sid e) i @ frames_bytes A ps @ x" for x
      unfolding c torn_header_def
      using write_at_start_part [of i ?H "JournalHeader_encode A (current_header j)" "frames_bytes A ps @ x"] i by simp
    then show "content (crash_at k i (append_ops A j sid part e) ?f) =
        torn_header A (current_header j) (append_header sid e) i @ frames_bytes A (ps @ [part]) \<and> 24 < i \<and> i < 36"
      using i by (simp add: ops crash_at_def fb fl w1 w2 k)
  }
qed

end
