(* ===== verification/Journal_Props.thy ===== *)
theory Journal_Props
  imports Journal_Crash
begin

text \<open>
  The properties of the journal: atomic operations under any failure schedule, exact reads,
  reopening, crash recovery, and the invariant of every reachable handle.
\<close>

section \<open>Sample journals\<close>

definition disk_file :: "bytes \<Rightarrow> os_file" where
  "disk_file bs = \<lparr>content = bs, cursor = 0, durable = bs, faults = [],
     read_fault = (\<lambda>n off. None), len_fault = None\<rparr>"

definition sample_empty :: journal where
  "sample_empty = \<lparr>j_file = disk_file (EMPTY_FILE crc_iscsi), j_end = 36, j_config = default_journal_config,
     j_parts = [], j_generation = 1, j_segment_id = None, j_poisoned = False\<rparr>"

definition sample_part :: bytes where
  "sample_part = part_bytes crc_iscsi (bodies_of sample_sections) (part_catalog crc_iscsi sample_sections sample_meta)"

definition sample_active :: journal where
  "sample_active = \<lparr>j_file = disk_file (JournalHeader_encode crc_iscsi
       \<lparr>state = Active 0, body_len = of_nat (16 + length sample_part)\<rparr> @ frame_bytes crc_iscsi sample_part),
     j_end = 36 + 16 + length sample_part, j_config = default_journal_config,
     j_parts = [JournalPartRef_new \<lparr>p_offset = 52, p_len = length sample_part\<rparr> 1], j_generation = 1,
     j_segment_id = Some (SegmentId 0), j_poisoned = False\<rparr>"

lemma length_sample_part [simp]: "length sample_part = 112"
  by (simp add: sample_part_def)

lemma default_config_ok: "validate_config default_journal_config = Ok ()"
  by (simp add: validate_config_Ok default_journal_config_def default_journal_limits_def MAX_JOURNAL_LEN_def
      MAX_JOURNAL_PARTS_def MAX_PART_LEN_def)

lemma good_sample: "good_part crc_iscsi default_journal_limits sample_part"
  unfolding sample_part_def by (rule good_sample_part)

lemma epoch_ok: "is_ok (utc_day_of (SegmentId 0))"
  by (simp add: utc_day_of_ok_iff micros_day_def MICROS_PER_DAY_def)

lemma sample_empty_repr: "journal_repr crc_iscsi sample_empty []"
  by (rule empty_repr) (simp_all add: sample_empty_def disk_file_def default_config_ok)

lemma sample_active_repr: "journal_repr crc_iscsi sample_active [sample_part]"
proof -
  have "current_header sample_active = \<lparr>state = Active 0, body_len = of_nat (16 + length sample_part)\<rparr>"
    by (simp add: current_header_def sample_active_def)
  moreover have "jc_limits default_journal_config = default_journal_limits" "176 \<le> jc_max_len default_journal_config"
    "1 \<le> jc_max_parts default_journal_config"
    by (simp_all add: default_journal_config_def MAX_JOURNAL_LEN_def MAX_JOURNAL_PARTS_def)
  ultimately show ?thesis
    using good_sample epoch_ok default_config_ok
    unfolding journal_repr_def sample_active_def disk_file_def by simp
qed

section \<open>Append and reset are atomic\<close>

text \<open>
  C4: \<open>append\<close> is atomic under any failures of the calls it makes. On a healthy journal holding
  the parts \<open>ps\<close> it either holds \<open>ps @ [part]\<close> afterwards, synchronized, with one new reference
  under the given identity; or it returns an error and the file, the references and the identity
  are byte for byte as before; or the rollback failed too and the handle is poisoned.
\<close>

theorem append_atomic:
  assumes "journal_repr A j ps" "is_ok (utc_day_of sid)" "append_part A sid part j = (r, j')"
  shows "(\<exists>ref. r = Ok ref \<and> journal_repr A j' (ps @ [part]) \<and> j_segment_id j' = Some sid \<and>
      j_parts j' = j_parts j @ [ref]) \<or>
    (\<exists>e. r = Err e \<and> journal_repr A j' ps \<and> content (j_file j') = content (j_file j) \<and>
      j_parts j' = j_parts j \<and> j_segment_id j' = j_segment_id j) \<or>
    (\<exists>x y. r = Err (RollbackFailed x y) \<and> j_poisoned j')"
proof (cases r)
  case (Inl e)
  with append_failure [OF assms(1), of sid part e j'] assms(3)
  consider "unchanged_file j j'" | "j_poisoned j' \<and> (\<exists>x y. e = RollbackFailed x y)" by auto
  then show ?thesis
  proof cases
    case 1
    then show ?thesis using Inl unchanged_repr [OF 1 assms(1)] by (auto simp: unchanged_file_def)
  qed (use Inl in auto)
qed (use append_success [OF assms(1,2)] assms(3) in auto)

text \<open>A failing schedule: the frame body is torn after five bytes, and the rollback works.\<close>

definition faulty_active :: journal where
  "faulty_active = sample_active\<lparr>j_file := (j_file sample_active)
     \<lparr>faults := [NoFault, NoFault, Fault (OsError 28) 5]\<rparr>\<rparr>"

lemma faulty_active_repr: "journal_repr crc_iscsi faulty_active [sample_part]"
  by (rule unchanged_repr [OF _ sample_active_repr]) (auto simp: unchanged_file_def faulty_active_def)

theorem append_atomic_witness:
  "\<exists>r j'. append_part crc_iscsi (SegmentId 0) sample_part faulty_active = (r, j') \<and>
    ((\<exists>ref. r = Ok ref \<and> journal_repr crc_iscsi j' ([sample_part] @ [sample_part]) \<and>
        j_segment_id j' = Some (SegmentId 0) \<and> j_parts j' = j_parts faulty_active @ [ref]) \<or>
    (\<exists>e. r = Err e \<and> journal_repr crc_iscsi j' [sample_part] \<and>
        content (j_file j') = content (j_file faulty_active) \<and>
        j_parts j' = j_parts faulty_active \<and> j_segment_id j' = j_segment_id faulty_active) \<or>
    (\<exists>x y. r = Err (RollbackFailed x y) \<and> j_poisoned j'))"
proof -
  obtain r j' where r: "append_part crc_iscsi (SegmentId 0) sample_part faulty_active = (r, j')" by fastforce
  from append_atomic [OF faulty_active_repr epoch_ok r] r show ?thesis by blast
qed

text \<open>
  When no call fails, \<open>append\<close> succeeds exactly when the identity is free or the same, the
  part validates and respects the length limit, another part is allowed, and the frame leaves
  room for the reset marker below the file cap; so a journal that accepted a part can always be
  reset.
\<close>

lemma append_admission:
  assumes "journal_repr A j ps" and "faults (j_file j) = []" and "length part < 2 ^ 64"
  shows "is_ok (fst (append_part A sid part j)) \<longleftrightarrow>
    (j_segment_id j = None \<or> j_segment_id j = Some sid) \<and> good_part A (jc_limits (j_config j)) part \<and>
    length ps < jc_max_parts (j_config j) \<and> j_end j + 16 + length part + 32 \<le> jc_max_len (j_config j)"
proof -
  have e: "j_end j \<le> 2 ^ 30" "jc_max_len (j_config j) \<le> 2 ^ 30"
    using repr_facts(3) [OF assms(1)] assms(1) by (auto simp: journal_repr_def validate_config_Ok MAX_JOURNAL_LEN_def)
  have un: "unat (of_nat (length part) :: u64) = length part" using assms(3) by (rule unat_of_nat_u64)
  have "is_ok (fst (append_part A sid part j)) \<longleftrightarrow> is_ok (append_check A sid part j)"
    using exec_ops_no_faults [OF assms(2)] by (auto simp: append_part_def Let_def split: sum.split)
  moreover have "is_ok (append_check A sid part j) \<longleftrightarrow>
    (j_segment_id j = None \<or> j_segment_id j = Some sid) \<and> good_part A (jc_limits (j_config j)) part \<and>
    length ps < jc_max_parts (j_config j) \<and> j_end j + 16 + length part + 32 \<le> jc_max_len (j_config j)"
    using repr_facts(5,7) [OF assms(1)] e un
    by (cases "j_segment_id j"; cases "validate_part A part")
      (auto simp: append_check_def good_part_def Let_def word_less_nat_alt not_less checked_add_usize_def)
  ultimately show ?thesis by simp
qed

text \<open>
  C6: \<open>reset\<close> is atomic under any failures as well. It empties the journal, synchronized, under a
  generation taken from the counter; or it returns an error with file, references and identity
  unchanged; or it poisons the handle because the rollback failed or the committed marker could
  not be reduced to the empty file. An exhausted counter is the only panic.
\<close>

theorem reset_atomic:
  assumes "journal_repr A j ps" "reset_journal A counter j = Some (r, j', counter')"
  shows "r = Ok () \<and> journal_repr A j' [] \<and> j_parts j' = [] \<and> j_segment_id j' = None \<and>
      (j' = j \<or> j_generation j' = counter \<and> unat counter < unat counter') \<or>
    (\<exists>e. r = Err e \<and> journal_repr A j' ps \<and> content (j_file j') = content (j_file j) \<and>
      j_parts j' = j_parts j \<and> j_segment_id j' = j_segment_id j) \<or>
    (\<exists>e. r = Err e \<and> j_poisoned j' \<and> ((\<exists>x y. e = RollbackFailed x y) \<or> (\<exists>x. e = ResetIncomplete x)))"
  using reset_cases [OF assms]
proof (elim disjE exE conjE)
  assume "r = Ok ()" "ps = []" "j' = j"
  then show ?thesis using assms(1) repr_facts(4,6) [OF assms(1)] by simp
next
  assume "r = Ok ()" "journal_repr A j' []" "j_generation j' = counter" "unat counter' = unat counter + 1"
  then show ?thesis using repr_facts(4,6) [of A j' "[]"] by simp
next
  fix e assume "r = Err e" "unchanged_file j j'"
  then show ?thesis using unchanged_repr [OF _ assms(1)] by (auto simp: unchanged_file_def)
qed blast+

lemma reset_commit_no_faults: "faults (j_file j) = [] \<Longrightarrow> \<exists>j'. reset_commit A m g j = (Ok (), j')"
proof -
  have "faults (fold apply_op ops f) = []" if "faults f = []" for ops f
    using that by (induction ops arbitrary: f) auto
  then show "faults (j_file j) = [] \<Longrightarrow> \<exists>j'. reset_commit A m g j = (Ok (), j')"
    by (simp add: reset_commit_def exec_ops_no_faults)
qed

theorem reset_atomic_witness:
  "\<exists>j'. reset_journal crc_iscsi 2 sample_active = Some (Ok (), j', 3) \<and>
    journal_repr crc_iscsi j' [] \<and> j_segment_id j' = None"
proof -
  have "next_journal_generation 2 = Some (2, 3)"
    by (simp add: next_journal_generation_def checked_add_word_def)
  moreover obtain m where "ResetMarker_new crc_iscsi (of_nat (j_end sample_active)) (get (SegmentId 0)) = Some m"
    using reset_marker_exists [OF sample_active_repr] by auto
  moreover obtain j' where "reset_commit crc_iscsi m 2 sample_active = (Ok (), j')"
    using reset_commit_no_faults [of sample_active crc_iscsi m 2] by (auto simp: sample_active_def disk_file_def)
  ultimately have r: "reset_journal crc_iscsi 2 sample_active = Some (Ok (), j', 3)"
    by (auto simp: reset_journal_def sample_active_def ensure_healthy_def Let_def checked_add_usize_def
        default_journal_config_def MAX_JOURNAL_LEN_def)
  from reset_atomic [OF sample_active_repr r] r show ?thesis by auto
qed

section \<open>Reading\<close>

text \<open>
  \<open>read_part\<close> returns the bytes that were appended. On a readable file the \<open>i\<close>-th reference
  of a healthy journal yields the \<open>i\<close>-th part, and a reference that is not one of the current
  generation's is refused as stale without touching the file.
\<close>

lemma read_part_exact:
  assumes "journal_repr A j ps" and "readable (j_file j)"
  shows "(i < length ps \<longrightarrow> read_part j (j_parts j ! i) = Ok (ps ! i)) \<and>
    (r \<notin> set (j_parts j) \<longrightarrow> read_part j r = Err (StalePartRef (p_offset (r_part r)) (p_len (r_part r))))"
proof (intro conjI impI)
  assume i: "i < length ps"
  have "check_part_ref j (j_parts j ! i) = Ok ()"
    using check_ref_iff [OF assms(1)] repr_facts(5) [OF assms(1)] i by (auto intro: nth_mem)
  moreover have "j_parts j ! i = JournalPartRef_new (refs_from 36 ps ! i) (j_generation j)"
    using assms(1) i by (simp add: journal_repr_def)
  moreover have c: "content (j_file j) = JournalHeader_encode A (current_header j) @ frames_bytes A ps"
    using assms(1) by (simp add: journal_repr_def)
  have len: "length (content (j_file j)) = 36 + length (frames_bytes A ps)" unfolding c by simp
  have "file_read_exact_at (j_file j) (length (ps ! i)) (36 + length (frames_bytes A (take i ps)) + 16) =
      Ok (slice_of (36 + length (frames_bytes A (take i ps)) + 16) (length (ps ! i)) (content (j_file j)))"
    using repr_facts(1,3) [OF assms(1)] len part_slice(2) [OF i, of A] by (intro read_file [OF assms(2)]) simp_all
  then have "file_read_exact_at (j_file j) (length (ps ! i)) (36 + length (frames_bytes A (take i ps)) + 16) = Ok (ps ! i)"
    unfolding c part_slice(1) [OF i] .
  ultimately show "read_part j (j_parts j ! i) = Ok (ps ! i)"
    by (simp add: read_part_def JournalPartRef_new_def refs_from_nth [OF i, of 36 A])
next
  assume "r \<notin> set (j_parts j)"
  then have "check_part_ref j r \<noteq> Ok ()" using check_ref_iff [OF assms(1)] by simp
  then show "read_part j r = Err (StalePartRef (p_offset (r_part r)) (p_len (r_part r)))"
    using repr_facts(7) [OF assms(1)] by (auto simp: read_part_def check_part_ref_def Let_def split: if_splits)
qed

section \<open>Opening\<close>

text \<open>
  C9: reopening the file of a healthy journal gives back the same journal: same length, identity
  and parts, under the next generation, with nothing written to the file.
\<close>

theorem reopen_roundtrip:
  assumes "journal_repr A j ps" and "content f = content (j_file j)"
    and "clone_lease owner = Ok ()" and "open_or_create_journal owner = Ok (restart f, False)"
    and "sync_root owner = Ok ()" and "next_journal_generation counter = Some (g, counter')"
  shows "open_journal A owner (j_config j) grow counter =
    Some (Ok \<lparr>j_file = restart f, j_end = j_end j, j_config = j_config j,
              j_parts = map (\<lambda>r. JournalPartRef_new r g) (refs_from 36 ps), j_generation = g,
              j_segment_id = j_segment_id j, j_poisoned = False\<rparr>, Some (restart f), counter')"
proof -
  have "validate_config (j_config j) = Ok ()" using assms(1) by (simp add: journal_repr_def)
  with open_file_live [OF assms(1,2), of grow] assms(3-6) show ?thesis
    by (simp add: open_journal_def)
qed

definition owner_of :: "os_file \<Rightarrow> writer_owner" where
  "owner_of f = \<lparr>clone_lease = Ok (), open_or_create_journal = Ok (f, False), sync_root = Ok ()\<rparr>"

theorem reopen_roundtrip_witness:
  "open_journal crc_iscsi (owner_of (restart (j_file sample_active))) default_journal_config (\<lambda>old len. len) 5 =
    Some (Ok \<lparr>j_file = restart (j_file sample_active), j_end = 164, j_config = default_journal_config,
              j_parts = [JournalPartRef_new \<lparr>p_offset = 52, p_len = 112\<rparr> 5], j_generation = 5,
              j_segment_id = Some (SegmentId 0), j_poisoned = False\<rparr>,
       Some (restart (j_file sample_active)), 6)"
proof -
  have g: "next_journal_generation 5 = Some (5, 6)"
    by (simp add: next_journal_generation_def checked_add_word_def)
  have "j_config sample_active = default_journal_config" "j_end sample_active = 164"
    "j_segment_id sample_active = Some (SegmentId 0)" by (simp_all add: sample_active_def)
  with reopen_roundtrip [OF sample_active_repr refl _ _ _ g, of "owner_of (restart (j_file sample_active))" "\<lambda>old len. len"]
  show ?thesis by (simp add: owner_of_def)
qed

text \<open>
  A handle agrees with its file when it is healthy for the bytes the file has, whether or not all of
  them are synchronized; a handle that agrees with a synchronized file is healthy.
\<close>

definition as_durable :: "os_file \<Rightarrow> os_file" where
  "as_durable f = f\<lparr>durable := content f\<rparr>"

definition journal_agrees :: "'d crc_alg \<Rightarrow> journal \<Rightarrow> bytes list \<Rightarrow> bool" where
  "journal_agrees A j ps \<longleftrightarrow> journal_repr A (j\<lparr>j_file := as_durable (j_file j)\<rparr>) ps"

lemma as_durable_simps [simp]: "content (as_durable f) = content f" "durable (as_durable f) = content f"
  by (simp_all add: as_durable_def)

lemma journal_repr_iff: "journal_repr A j ps \<longleftrightarrow> journal_agrees A j ps \<and> durable (j_file j) = content (j_file j)"
  unfolding journal_agrees_def journal_repr_def current_header_file
  by (simp add: conj_ac)

lemma accepted_agrees:
  assumes cfg: "validate_config cfg = Ok ()" and acc: "accepted A cfg h sid refs"
  shows "\<exists>ps. journal_agrees A \<lparr>j_file = h, j_end = length (content h), j_config = cfg,
    j_parts = map (\<lambda>r. JournalPartRef_new r g) refs, j_generation = g, j_segment_id = sid, j_poisoned = False\<rparr> ps"
    (is "\<exists>ps. journal_agrees A ?j ps")
proof -
  let ?k = "?j\<lparr>j_file := as_durable h\<rparr>"
  have base: "length (content h) \<le> jc_max_len cfg"
    using acc by (auto simp: accepted_def)
  consider "sid = None" "refs = []" "content h = EMPTY_FILE A"
    | i ps where "sid = Some i" "is_ok (utc_day_of i)" "ps \<noteq> []" "refs = refs_from 36 ps"
      "content h = JournalHeader_encode A \<lparr>state = Active (get i), body_len = of_nat (length (frames_bytes A ps))\<rparr> @ frames_bytes A ps"
      "\<forall>p \<in> set ps. good_part A (jc_limits cfg) p" "length ps \<le> jc_max_parts cfg"
    using acc unfolding accepted_def by metis
  then have "\<exists>ps. journal_repr A ?k ps"
  proof cases
    case 1
    then have "journal_repr A ?k []"
      using base cfg by (intro empty_repr) (simp_all add: EMPTY_FILE_def)
    then show ?thesis ..
  next
    case (2 i ps)
    have l: "length (content h) = 36 + length (frames_bytes A ps)" unfolding 2(5) by simp
    have h: "current_header ?k = \<lparr>state = Active (get i), body_len = of_nat (length (frames_bytes A ps))\<rparr>"
      by (simp add: current_header_def 2(1) l)
    have "journal_repr A ?k ps"
      unfolding journal_repr_def h using 2 base cfg by simp
    then show ?thesis ..
  qed
  then show ?thesis by (simp add: journal_agrees_def)
qed

lemma open_journal_parts:
  assumes "open_journal A owner cfg grow counter = Some (Ok j, fo, counter')"
    and "open_or_create_journal owner = Ok (f, b)"
  obtains sid refs h where "j = \<lparr>j_file = h, j_end = length (content h), j_config = cfg,
      j_parts = map (\<lambda>r. JournalPartRef_new r counter) refs, j_generation = counter, j_segment_id = sid, j_poisoned = False\<rparr>"
    and "accepted A cfg h sid refs" and "validate_config cfg = Ok ()" and "unat counter' = unat counter + 1"
    and "same_or_empty A f h"
proof -
  have cfg: "validate_config cfg = Ok ()"
    using assms(1) by (auto simp: open_journal_def split: sum.splits)
  obtain n sid refs h where o: "open_file A cfg grow b f = (Ok (n, sid, refs), h)"
    using assms by (auto simp: open_journal_def split: sum.splits prod.splits)
  from open_file_sound [OF cfg o]
  have n: "n = length (content h)" and acc: "accepted A cfg h sid refs" "same_or_empty A f h" by auto
  have "j = \<lparr>j_file = h, j_end = length (content h), j_config = cfg, j_parts = map (\<lambda>r. JournalPartRef_new r counter) refs,
      j_generation = counter, j_segment_id = sid, j_poisoned = False\<rparr>" "unat counter' = unat counter + 1"
    using assms o n by (auto simp: open_journal_def next_journal_generation_def checked_add_word_Some
        split: sum.splits prod.splits option.splits dest: checked_add_word_Some)
  with acc cfg show thesis by (intro that)
qed

text \<open>
  \<open>open\<close> is sound for any file it finds. Whatever the bytes, whether or not they are synchronized, and whichever
  calls fail, reads included, when it returns a handle the handle agrees with the file: header, identity,
  frames and references are those of its bytes, and every part validates within the limits.
\<close>

lemma open_sound:
  assumes "open_journal A owner cfg grow counter = Some (Ok j, fo, counter')"
    and "open_or_create_journal owner = Ok (f, b)"
  shows "(\<exists>ps. journal_agrees A j ps \<and> (durable f = content f \<longrightarrow> journal_repr A j ps)) \<and> j_config j = cfg \<and>
    j_generation j = counter \<and> unat counter' = unat counter + 1"
proof (rule open_journal_parts [OF assms])
  fix sid refs h
  assume "j = \<lparr>j_file = h, j_end = length (content h), j_config = cfg, j_parts = map (\<lambda>r. JournalPartRef_new r counter) refs,
      j_generation = counter, j_segment_id = sid, j_poisoned = False\<rparr>" and "same_or_empty A f h"
    and "accepted A cfg h sid refs" and "validate_config cfg = Ok ()" and "unat counter' = unat counter + 1"
  moreover from this obtain ps where "journal_agrees A j ps" using accepted_agrees [of cfg A h sid refs counter] by auto
  ultimately show ?thesis
    by (intro conjI exI [of _ ps]) (auto simp: journal_repr_iff same_or_empty_def)
qed

section \<open>Crashes\<close>

text \<open>
  C5: a reset survives a crash at every point. When the process dies before the first byte of
  the marker, the next \<open>open\<close> finds the same parts; when it dies inside the marker, \<open>open\<close>
  refuses the file with a length mismatch and changes nothing; from the last byte of the marker
  on, whatever part of the header rewrite, the truncation or the synchronizations is missing,
  \<open>open\<close> completes the reset and returns an empty journal with the canonical empty file.
\<close>

theorem reset_crash_recovery:
  assumes "reset_ready A j ps sid m"
  shows "let f = crash_at k i (reset_ops A j m) (j_file j);
             (r, g) = open_file A (j_config j) grow False (restart f)
    in if k = 0 \<or> k = 1 \<and> i = 0 then r = Ok (j_end j, Some sid, refs_from 36 ps) \<and> content g = content (j_file j)
       else if k = 1 \<and> i < 32
       then r = Err (BodyLengthMismatch (of_nat (j_end j - 36)) (j_end j - 36 + i)) \<and> content g = content f
       else r = Ok (36, None, []) \<and> content g = EMPTY_FILE A"
proof -
  note t = reset_ready_facts [OF assms]
  let ?M = "ResetMarker_encode A m" and ?f = "crash_at k i (reset_ops A j m) (j_file j)"
  let ?h = "JournalHeader_encode A \<lparr>state = Active (get sid), body_len = of_nat (j_end j - 36)\<rparr>"
  have sid: "j_segment_id j = Some sid" using assms by (simp add: reset_ready_def)
  have mlen: "length (marker_ops A (j_end j) m) = 3" by (simp add: marker_ops_def)
  have "k = 0 \<or> k = 1 \<and> i = 0 \<or> k = 1 \<and> 0 < i \<and> i < 32 \<or> k = 1 \<and> 32 \<le> i \<or> k = 2 \<or> 3 \<le> k" by linarith
  then consider (before) "k = 0 \<or> k = 1 \<and> i = 0" | (torn) "k = 1" "0 < i" "i < 32"
    | (after) "(k = 1 \<and> 32 \<le> i) \<or> k = 2" | (finish) "3 \<le> k" by blast
  then show ?thesis
  proof cases
    case before
    then have "content ?f = content (j_file j)"
      using marker_content_part [OF t(2), of 0 A m "finish_committed_reset A"]
      by (auto simp: reset_ops_def marker_ops_def crash_at_0)
    from open_file_live [OF t(10) this, of grow] before this show ?thesis
      by (auto simp: sid Let_def)
  next
    case torn
    then have f: "content ?f = content (j_file j) @ take i ?M"
      using marker_content_part [OF t(2)] by (simp add: reset_ops_def)
    from crash_in_marker [OF assms torn(2,3) this, of grow] torn f show ?thesis
      by (simp add: Let_def)
  next
    case after
    then have "content ?f = content (j_file j) @ ?M"
    proof
      assume "k = 1 \<and> 32 \<le> i"
      then show ?thesis using marker_content_part [OF t(2), of i A m] by (simp add: reset_ops_def)
    next
      assume "k = 2"
      then show ?thesis using write_at_end [of "content (j_file j)" ?M] t(2)
        by (simp add: reset_ops_def marker_ops_def crash_at_def numeral_2_eq_2)
    qed
    then have f: "content ?f = (take 0 (EMPTY_FILE A) @ drop 0 ?h) @ frames_bytes A ps @ ?M"
      using t(1) by simp
    from crash_after_marker [OF assms _ f, of grow] after show ?thesis by (auto simp: Let_def)
  next
    case finish
    have "?f = crash_at (k - 3) i (finish_committed_reset A) (fold apply_op (marker_ops A (j_end j) m) (j_file j))"
      using crash_at_append [of "marker_ops A (j_end j) m" "k - 3" i "finish_committed_reset A" "j_file j"] finish
      by (simp add: reset_ops_def mlen)
    moreover have "content (fold apply_op (marker_ops A (j_end j) m) (j_file j)) = ?h @ frames_bytes A ps @ ?M"
      using marker_content(1) [OF t(2), of A m] t(1) by simp
    ultimately consider n where "n \<le> 36" "content ?f = (take n (EMPTY_FILE A) @ drop n ?h) @ frames_bytes A ps @ ?M"
      | "content ?f = EMPTY_FILE A"
      using finish_crash_content [of _ ?h "frames_bytes A ps @ ?M" "k - 3" i A] by (metis header_length)
    then have "\<exists>g. open_file A (j_config j) grow False (restart ?f) = (Ok (36, None, []), g) \<and> content g = EMPTY_FILE A"
    proof cases
      case (1 n)
      from crash_after_marker [OF assms this] show ?thesis .
    next
      case 2
      have l: "length (content ?f) = 36" by (simp add: 2 EMPTY_FILE_def)
      have "content (restart ?f) = EMPTY_FILE A" using 2 by simp
      from open_contents_empty [OF restart_simps(2) this, of "j_config j" grow]
        open_file_unseen [of A "j_config j" grow ?f] committed_reset_empty [of A "j_config j" grow "restart ?f"] l t(3,9) 2
      show ?thesis by simp
    qed
    then show ?thesis using finish by (auto simp: Let_def)
  qed
qed

lemma sample_ready: "\<exists>m. reset_ready crc_iscsi sample_active [sample_part] (SegmentId 0) m"
  using reset_marker_exists [OF sample_active_repr, of "get (SegmentId 0)"] sample_active_repr
  by (auto simp: reset_ready_def sample_active_def default_journal_config_def MAX_JOURNAL_LEN_def)

theorem reset_crash_recovery_witness:
  "\<exists>m. let f = crash_at 4 13 (reset_ops crc_iscsi sample_active m) (j_file sample_active);
           (r, g) = open_file crc_iscsi (j_config sample_active) (\<lambda>old len. len) False (restart f)
    in r = Ok (36, None, []) \<and> content g = EMPTY_FILE crc_iscsi"
proof -
  obtain m where "reset_ready crc_iscsi sample_active [sample_part] (SegmentId 0) m" using sample_ready by blast
  from reset_crash_recovery [OF this, of 4 13 "\<lambda>old len. len"] show ?thesis
    by (intro exI [of _ m]) (auto simp: Let_def)
qed

lemma append_check_file: "append_check A sid part (j\<lparr>j_file := f\<rparr>) = append_check A sid part j"
  by (simp add: append_check_def ensure_healthy_def Let_def)

text \<open>
  C8: a later append survives a crash at every point too, and the next \<open>open\<close> never writes to the file. If
  the process dies before any byte of the frame is written, it finds the old parts. While the frame is torn, or
  complete under the old header, it refuses the file with the exact length mismatch, even when the torn
  bytes have the length of a reset marker. When the header itself is torn, some bytes of the new length or checksum
  over the old ones, it refuses the file for a bad checksum or, should the checksum match,
  for the length the torn header shows, unless the torn header happens to be the new one. Once the header is complete it finds the
  old parts and the new one. So it never drops or invents data.
\<close>

theorem append_crash_recovery:
  assumes "journal_repr A j ps" and "j_segment_id j = Some sid" and "append_check A sid part j = Ok e"
  shows "let f = crash_at k i (append_ops A j sid part e) (j_file j);
             x = frame_written k i part;
             torn = torn_header A (current_header j) (append_header sid e) i;
             (r, g) = open_file A (j_config j) grow False (restart f)
    in g = restart f \<and>
      (if header_done k i then r = Ok (e, Some sid, refs_from 36 (ps @ [part]))
       else if header_untouched k i then
         (if x = 0 then r = Ok (j_end j, Some sid, refs_from 36 ps)
          else r = Err (BodyLengthMismatch (of_nat (j_end j - 36)) (j_end j - 36 + x)))
       else if torn = JournalHeader_encode A (append_header sid e) then r = Ok (e, Some sid, refs_from 36 (ps @ [part]))
       else case JournalHeader_decode A torn of
         Err er \<Rightarrow> r = Err (InvalidHeader er)
       | Ok h \<Rightarrow> r = Err (BodyLengthMismatch (body_len h) (e - 36)))"
proof -
  note chk = append_check_Ok [OF assms(3)]
  note cc = append_crash_content [OF assms(1,2) chk(5), of k i]
  let ?f = "crash_at k i (append_ops A j sid part e) (j_file j)"
  let ?torn = "torn_header A (current_header j) (append_header sid e) i"
  have sid: "is_ok (utc_day_of sid)"
    using assms(1,2) by (simp add: journal_repr_def)
  have excl: "\<not> (header_done k i \<and> header_untouched k i)" by (auto simp: header_done_def header_untouched_def)
  have complete: "open_file A (j_config j) grow False (restart ?f) = (Ok (e, Some sid, refs_from 36 (ps @ [part])), restart ?f)"
    if f: "content ?f = JournalHeader_encode A (append_header sid e) @ frames_bytes A (ps @ [part])"
  proof -
    define j0 where "j0 = j\<lparr>j_file := (j_file j)\<lparr>faults := []\<rparr>\<rparr>"
    have r0: "journal_repr A j0 ps"
      by (rule unchanged_repr [OF _ assms(1)]) (auto simp: unchanged_file_def j0_def)
    have chk0: "append_check A sid part j0 = Ok e"
      using assms(3) by (simp add: append_check_file j0_def)
    obtain r j1 where j1: "append_part A sid part j0 = (Ok r, j1)" and e1: "j_end j1 = e"
      using chk0 exec_ops_no_faults [of "j_file j0" "append_ops A j0 sid part e"]
      by (auto simp: append_part_def Let_def j0_def)
    from append_success [OF r0 sid j1] have s: "journal_repr A j1 (ps @ [part])" "j_segment_id j1 = Some sid"
      "j_config j1 = j_config j" "content (j_file j1) = content ?f"
      using f e1 by (simp_all add: j0_def)
    from open_file_live [OF s(1) s(4) [symmetric], of grow] s e1 show ?thesis by simp
  qed
  show ?thesis
  proof (cases "header_done k i")
    case True
    with complete [OF cc(2) [OF True]] show ?thesis by (simp add: Let_def)
  next
    case not_done: False
    show ?thesis
    proof (cases "header_untouched k i")
      case u: True
      show ?thesis
      proof (cases "frame_written k i part = 0")
        case True
        then have "content ?f = content (j_file j)" using cc(1) [OF u] by simp
        from open_file_live [OF assms(1) this, of grow] assms(2) not_done u True show ?thesis by (simp add: Let_def)
      next
        case nz: False
        have "frame_written k i part \<le> 16 + length part" by (auto simp: frame_written_def)
        moreover have "j_end j + (16 + length part) \<le> jc_max_len (j_config j)" using chk(5,6) by simp
        ultimately have "open_file A (j_config j) grow False (restart ?f) =
            (Err (BodyLengthMismatch (of_nat (j_end j - 36)) (j_end j - 36 + frame_written k i part)), restart ?f)"
          using nz by (intro crash_in_frame [OF assms(1,2) _ _ _ cc(1) [OF u]]) simp_all
        then show ?thesis using not_done u nz by (simp add: Let_def)
      qed
    next
      case torn: False
      note f = cc(3) [OF torn not_done, THEN conjunct1] and i = cc(3) [OF torn not_done, THEN conjunct2]
      show ?thesis
      proof (cases "?torn = JournalHeader_encode A (append_header sid e)")
        case True
        from complete [OF f [unfolded True]] torn not_done True show ?thesis by (simp add: Let_def)
      next
        case differs: False
        have e: "e = 36 + length (frames_bytes A (ps @ [part]))" using chk(5) repr_facts(1) [OF assms(1)] by simp
        have l: "length (content ?f) = e" using f e by simp
        have fits: "e \<le> jc_max_len (j_config j)" "e < 2 ^ 64"
          using chk(6) assms(1) by (auto simp: journal_repr_def validate_config_Ok MAX_JOURNAL_LEN_def)
        have "ps \<noteq> []" using repr_facts(6) [OF assms(1)] assms(2) by simp
        then have "68 \<le> e" using e by (cases ps) simp_all
        have old: "current_header j = \<lparr>state = Active (get sid), body_len = of_nat (j_end j - 36)\<rparr>"
          by (simp add: current_header_def assms(2))
        have "open_file A (j_config j) grow False (restart ?f) =
          (Err (case JournalHeader_decode A ?torn of Inl er \<Rightarrow> InvalidHeader er
            | Inr h \<Rightarrow> BodyLengthMismatch (body_len h) (e - 36)), restart ?f)"
          using crash_in_header [OF _ _ _ _ e \<open>68 \<le> e\<close> f [unfolded old append_header_def] differs [unfolded old append_header_def],
              of "j_config j" grow] l fits i
          by (simp add: old append_header_def)
        then show ?thesis using torn not_done differs by (simp add: Let_def split: sum.split)
      qed
    qed
  qed
qed

lemma sample_append_check: "append_check crc_iscsi (SegmentId 0) sample_part sample_active = Ok 292"
proof -
  obtain c where "validate_part crc_iscsi sample_part = Ok c"
    using good_sample by (auto simp: good_part_def is_ok_iff)
  then show ?thesis
    by (simp add: append_check_def sample_active_def ensure_healthy_def Let_def default_journal_config_def
        default_journal_limits_def MAX_PART_LEN_def MAX_JOURNAL_PARTS_def MAX_JOURNAL_LEN_def checked_add_usize_def)
qed

text \<open>After one byte of the new length the header shows neither generation.\<close>

lemma le_nat_second: "1 < n \<Longrightarrow> le_nat n x ! 1 = of_nat (x div 256 mod 256)"
  by (cases n) (simp_all add: le_nat_head)

lemma header_second_byte: "JournalHeader_encode A h ! 25 = of_nat (unat (body_len h) div 256 mod 256)"
proof -
  have "JournalHeader_encode A h ! 25 = slice_of 24 8 (JournalHeader_encode A h) ! 1" by (simp add: slice_of_def)
  also have "\<dots> = of_nat (unat (body_len h) div 256 mod 256)"
    unfolding header_body_bytes to_le64_def by (rule le_nat_second) simp
  finally show ?thesis .
qed

lemma sample_torn:
  "torn_header crc_iscsi (current_header sample_active) (append_header (SegmentId 0) 292) 25 \<noteq>
     JournalHeader_encode crc_iscsi (append_header (SegmentId 0) 292)"
proof -
  have "torn_header crc_iscsi (current_header sample_active) (append_header (SegmentId 0) 292) 25 ! 25 =
      JournalHeader_encode crc_iscsi (current_header sample_active) ! 25" by (simp add: torn_header_def nth_append)
  also have "\<dots> = 0" unfolding header_second_byte by (simp add: current_header_def sample_active_def)
  finally have "torn_header crc_iscsi (current_header sample_active) (append_header (SegmentId 0) 292) 25 ! 25 = 0" .
  moreover have "JournalHeader_encode crc_iscsi (append_header (SegmentId 0) 292) ! 25 = 1"
    unfolding header_second_byte by (simp add: append_header_def)
  ultimately show ?thesis by (metis zero_neq_one)
qed

theorem append_crash_recovery_witness:
  "fst (open_file crc_iscsi (j_config sample_active) (\<lambda>old len. len) False
      (restart (crash_at 2 16 (append_ops crc_iscsi sample_active (SegmentId 0) sample_part 292) (j_file sample_active))))
    = Err (BodyLengthMismatch 128 160) \<and>
   (\<exists>er. fst (open_file crc_iscsi (j_config sample_active) (\<lambda>old len. len) False
      (restart (crash_at 4 25 (append_ops crc_iscsi sample_active (SegmentId 0) sample_part 292) (j_file sample_active))))
    = Err er)"
proof -
  have s: "j_segment_id sample_active = Some (SegmentId 0)" "j_end sample_active = 164"
    by (simp_all add: sample_active_def)
  note recovery = append_crash_recovery [OF sample_active_repr s(1) sample_append_check]
  have "\<not> header_untouched 4 25" "\<not> header_done 4 25" by (simp_all add: header_untouched_def header_done_def)
  then show ?thesis
    using recovery [of 2 16 "\<lambda>old len. len"] recovery [of 4 25 "\<lambda>old len. len"] sample_torn s(2)
    by (auto simp: Let_def header_untouched_def header_done_def frame_written_def split: prod.splits sum.splits)
qed

section \<open>Reachable handles\<close>

text \<open>
  The life of a handle: it is opened on whatever file is there, then appends and resets follow in any order, and
  before each of them the environment may change which calls will fail. The flag says whether the
  bytes of the file were synchronized when it was opened, or have been by a later call.
\<close>

inductive reachable :: "'d crc_alg \<Rightarrow> bool \<Rightarrow> journal \<Rightarrow> u64 \<Rightarrow> bool" for A where
  opened: "open_journal A owner cfg grow counter = Some (Ok j, fo, counter') \<Longrightarrow>
     open_or_create_journal owner = Ok (f, b) \<Longrightarrow> reachable A (durable f = content f) j counter'"
| faults_change: "reachable A synced j counter \<Longrightarrow>
     reachable A synced (j\<lparr>j_file := (j_file j)\<lparr>faults := fs, read_fault := rf, len_fault := lf\<rparr>\<rparr>) counter"
| appended: "reachable A synced j counter \<Longrightarrow> is_ok (utc_day_of sid) \<Longrightarrow>
     append_part A sid part j = (r, j') \<Longrightarrow> reachable A (synced \<or> is_ok r) j' counter"
| reset_done: "reachable A synced j counter \<Longrightarrow> reset_journal A counter j = Some (r, j', counter') \<Longrightarrow>
     reachable A (synced \<or> is_ok r \<and> j_parts j \<noteq> []) j' counter'"

text \<open>No operation looks at what is synchronized, so what is proved for synchronized files carries over.\<close>

definition forget_synced :: "os_file \<Rightarrow> os_file" where
  "forget_synced f = f\<lparr>durable := []\<rparr>"

lemma forget_exec_op:
  assumes "forget_synced f = forget_synced g"
  shows "fst (exec_op op f) = fst (exec_op op g) \<and> forget_synced (snd (exec_op op f)) = forget_synced (snd (exec_op op g))"
proof -
  have next_eq: "next_fault f = next_fault g" and "forget_synced (consume f) = forget_synced (consume g)"
    using assms by (cases f, cases g, simp add: forget_synced_def next_fault_def consume_def)+
  then have "forget_synced (apply_op op (consume f)) = forget_synced (apply_op op (consume g)) \<and>
      (\<forall>k. forget_synced (partial_op k op (consume f)) = forget_synced (partial_op k op (consume g)))"
    by (cases op; cases "consume f"; cases "consume g"; simp add: forget_synced_def)
  then show ?thesis by (cases "next_fault g") (simp_all add: exec_op_def next_eq)
qed

lemma forget_exec_ops:
  "forget_synced f = forget_synced g \<Longrightarrow> fst (exec_ops ops f) = fst (exec_ops ops g) \<and>
     forget_synced (snd (exec_ops ops f)) = forget_synced (snd (exec_ops ops g))"
proof (induction ops arbitrary: f g)
  case (Cons op ops)
  obtain r f' where f: "exec_op op f = (r, f')" by fastforce
  obtain r' g' where g: "exec_op op g = (r', g')" by fastforce
  show ?case using forget_exec_op [OF Cons.prems, of op] Cons.IH [of f' g'] by (simp add: f g split: sum.split)
qed simp

text \<open>A poisoned handle stays as it is.\<close>

lemma poisoned_append: "j_poisoned j \<Longrightarrow> append_part A sid part j = (Err JournalPoisoned, j)"
  by (simp add: append_part_def append_check_def ensure_healthy_def)

lemma poisoned_reset: "j_poisoned j \<Longrightarrow> reset_journal A counter j = Some (Err JournalPoisoned, j, counter)"
  by (simp add: reset_journal_def ensure_healthy_def)

lemma poisoned_check: "j_poisoned j \<Longrightarrow> check_part_ref j r = Err JournalPoisoned"
  by (simp add: check_part_ref_def ensure_healthy_def)

lemma append_generation:
  "append_part A sid part j = (r, j') \<Longrightarrow> j_generation j' = j_generation j \<and> j_config j' = j_config j"
  by (auto simp: append_part_def roll_back_after_def Let_def split: sum.splits prod.splits)

lemma reset_generation:
  assumes "reset_journal A counter j = Some (r, j', counter')"
  shows "(j_generation j' = j_generation j \<and> unat counter \<le> unat counter') \<or>
    (j_generation j' = counter \<and> unat counter < unat counter')"
  using assms
  by (auto simp: reset_journal_def reset_commit_def roll_back_after_def next_journal_generation_def Let_def
      split: sum.splits prod.splits option.splits if_splits dest!: checked_add_word_Some)

lemma roll_back_other_file:
  assumes "forget_synced (j_file j) = forget_synced g" and "roll_back_after A err h j = (e, j')"
  shows "\<exists>g'. roll_back_after A err h (j\<lparr>j_file := g\<rparr>) = (e, j'\<lparr>j_file := g'\<rparr>) \<and> forget_synced (j_file j') = forget_synced g'"
proof -
  obtain x f where f: "exec_ops (rollback A (j_end j) h) (j_file j) = (x, f)" by fastforce
  obtain y g' where g': "exec_ops (rollback A (j_end j) h) g = (y, g')" by fastforce
  show ?thesis
    using forget_exec_ops [OF assms(1), of "rollback A (j_end j) h"] assms(2)
    by (intro exI [of _ g']) (auto simp: roll_back_after_def f g' split: sum.splits)
qed

lemma append_other_file:
  assumes "forget_synced (j_file j) = forget_synced g" and "append_part A sid part j = (r, j')"
  shows "\<exists>g'. append_part A sid part (j\<lparr>j_file := g\<rparr>) = (r, j'\<lparr>j_file := g'\<rparr>) \<and> forget_synced (j_file j') = forget_synced g'"
proof (cases "append_check A sid part j")
  case (Inl e)
  then show ?thesis using assms by (auto simp: append_part_def append_check_file)
next
  case (Inr n)
  have ops: "append_ops A (j\<lparr>j_file := g\<rparr>) sid part n = append_ops A j sid part n" by (simp add: append_ops_def)
  obtain x f where f: "exec_ops (append_ops A j sid part n) (j_file j) = (x, f)" by fastforce
  obtain y h where h: "exec_ops (append_ops A j sid part n) g = (y, h)" by fastforce
  have same: "x = y" "forget_synced f = forget_synced h"
    using forget_exec_ops [OF assms(1), of "append_ops A j sid part n"] f h by simp_all
  show ?thesis
  proof (cases x)
    case (Inl e)
    obtain e' j1 where rb: "roll_back_after A e (current_header j) (j\<lparr>j_file := f\<rparr>) = (e', j1)" by fastforce
    with roll_back_other_file [of "j\<lparr>j_file := f\<rparr>" h A e "current_header j" e' j1] same(2)
    obtain g' where "roll_back_after A e (current_header j) (j\<lparr>j_file := h\<rparr>) = (e', j1\<lparr>j_file := g'\<rparr>)"
      "forget_synced (j_file j1) = forget_synced g'" by auto
    then show ?thesis
      using assms(2) Inl Inr f h ops same(1) rb by (auto simp: append_part_def append_check_file)
  next
    case (Inr u)
    then show ?thesis
      using assms(2) \<open>append_check A sid part j = Ok n\<close> f h ops same
      by (intro exI [of _ h]) (auto simp: append_part_def append_check_file Let_def)
  qed
qed

lemma reset_commit_other_file:
  assumes "forget_synced (j_file j) = forget_synced g" and "reset_commit A m n j = (r, j')"
  shows "\<exists>g'. reset_commit A m n (j\<lparr>j_file := g\<rparr>) = (r, j'\<lparr>j_file := g'\<rparr>) \<and> forget_synced (j_file j') = forget_synced g'"
proof -
  obtain x f where f: "exec_ops (marker_ops A (j_end j) m) (j_file j) = (x, f)" by fastforce
  obtain y h where h: "exec_ops (marker_ops A (j_end j) m) g = (y, h)" by fastforce
  have same: "x = y" "forget_synced f = forget_synced h"
    using forget_exec_ops [OF assms(1), of "marker_ops A (j_end j) m"] f h by simp_all
  show ?thesis
  proof (cases x)
    case (Inl e)
    obtain e' j1 where rb: "roll_back_after A e (current_header j) (j\<lparr>j_file := f\<rparr>) = (e', j1)" by fastforce
    with roll_back_other_file [of "j\<lparr>j_file := f\<rparr>" h A e "current_header j" e' j1] same(2)
    obtain g' where "roll_back_after A e (current_header j) (j\<lparr>j_file := h\<rparr>) = (e', j1\<lparr>j_file := g'\<rparr>)"
      "forget_synced (j_file j1) = forget_synced g'" by auto
    then show ?thesis
      using assms(2) Inl f h same(1) rb by (auto simp: reset_commit_def)
  next
    case (Inr u)
    obtain x' f' where f': "exec_ops (finish_committed_reset A) f = (x', f')" by fastforce
    obtain y' h' where h': "exec_ops (finish_committed_reset A) h = (y', h')" by fastforce
    have "x' = y'" "forget_synced f' = forget_synced h'"
      using forget_exec_ops [OF same(2), of "finish_committed_reset A"] f' h' by simp_all
    then show ?thesis
      using assms(2) Inr f h same(1) f' h'
      by (intro exI [of _ h']) (auto simp: reset_commit_def Let_def split: sum.splits)
  qed
qed

lemma reset_other_file:
  assumes "forget_synced (j_file j) = forget_synced g" and "reset_journal A counter j = Some (r, j', counter')"
  shows "\<exists>g'. reset_journal A counter (j\<lparr>j_file := g\<rparr>) = Some (r, j'\<lparr>j_file := g'\<rparr>, counter') \<and> forget_synced (j_file j') = forget_synced g'"
proof (cases "j_poisoned j \<or> j_parts j = []")
  case True
  then show ?thesis
    using assms by (intro exI [of _ g]) (auto simp: reset_journal_def ensure_healthy_def)
next
  case False
  show ?thesis
  proof (cases "j_segment_id j")
    case None
    then show ?thesis
      using assms False by (intro exI [of _ g]) (auto simp: reset_journal_def ensure_healthy_def)
  next
    case sid: (Some sid)
    then obtain n c where next_gen: "next_journal_generation counter = Some (n, c)"
      using assms(2) False by (auto simp: reset_journal_def ensure_healthy_def split: option.splits)
    show ?thesis
    proof (cases "j_end j + 32 \<le> usize_max \<and> j_end j + 32 \<le> jc_max_len (j_config j)")
      case False
      then show ?thesis
        using assms \<open>\<not> (j_poisoned j \<or> j_parts j = [])\<close> sid next_gen
        by (intro exI [of _ g]) (auto simp: reset_journal_def ensure_healthy_def checked_add_usize_def split: if_splits)
    next
      case fits: True
      show ?thesis
      proof (cases "ResetMarker_new A (of_nat (j_end j)) (get sid)")
        case None
        then show ?thesis
          using assms False sid next_gen fits
          by (intro exI [of _ g]) (auto simp: reset_journal_def ensure_healthy_def checked_add_usize_def)
      next
        case m: (Some m)
        then have "reset_commit A m n j = (r, j')" "c = counter'"
          using assms(2) False sid next_gen fits
          by (simp_all add: reset_journal_def ensure_healthy_def checked_add_usize_def split: prod.splits)
        with reset_commit_other_file [OF assms(1), of A m n r j'] show ?thesis
          using False sid next_gen fits m by (auto simp: reset_journal_def ensure_healthy_def checked_add_usize_def)
      qed
    qed
  qed
qed

text \<open>What an operation does to a handle that agrees with its file.\<close>

lemma forget_as_durable: "forget_synced (as_durable f) = forget_synced f"
  by (simp add: forget_synced_def as_durable_def)

lemma agrees_of_repr:
  assumes "journal_repr A (j\<lparr>j_file := g\<rparr>) ps" and "forget_synced (j_file j) = forget_synced g"
  shows "journal_agrees A j ps"
proof -
  have "durable g = content g" using assms(1) by (simp add: journal_repr_iff)
  moreover from assms(2) have "as_durable (j_file j) = as_durable g"
    by (cases "j_file j"; cases g; simp add: forget_synced_def as_durable_def)
  ultimately have "as_durable (j_file j) = g" by (simp add: as_durable_def)
  then show ?thesis using assms(1) by (simp add: journal_agrees_def)
qed

lemma append_synced:
  assumes "append_part A sid part j = (Ok ref, j')"
  shows "durable (j_file j') = content (j_file j')"
proof -
  obtain n u f where run: "exec_ops (append_ops A j sid part n) (j_file j) = (Ok u, f)" and "j_file j' = f"
    using assms by (auto simp: append_part_def Let_def split: sum.splits prod.splits)
  moreover have "durable (fold apply_op (append_ops A j sid part n) (j_file j)) =
      content (fold apply_op (append_ops A j sid part n) (j_file j))" by (simp add: append_ops_def Let_def)
  ultimately show ?thesis using exec_ops_Ok [OF run] by (simp add: same_file_def)
qed

lemma reset_synced:
  assumes "reset_journal A counter j = Some (Ok (), j', counter')" and "j_parts j \<noteq> []"
  shows "durable (j_file j') = content (j_file j')"
proof -
  obtain m n where "reset_commit A m n j = (Ok (), j')"
    using assms by (auto simp: reset_journal_def Let_def split: sum.splits option.splits if_splits prod.splits)
  then obtain u f h where run: "exec_ops (finish_committed_reset A) f = (Ok u, h)" and "j_file j' = h"
    by (auto simp: reset_commit_def Let_def split: sum.splits prod.splits)
  moreover have "durable (fold apply_op (finish_committed_reset A) f) = content (fold apply_op (finish_committed_reset A) f)"
    by (simp add: finish_committed_reset_def)
  ultimately show ?thesis using exec_ops_Ok [OF run] by (simp add: same_file_def)
qed

lemma append_agrees:
  assumes "journal_agrees A j ps" and sid: "is_ok (utc_day_of sid)" and run: "append_part A sid part j = (r, j')"
  shows "j_poisoned j' \<or> (\<exists>ps'. journal_agrees A j' ps')"
proof -
  let ?k = "j\<lparr>j_file := as_durable (j_file j)\<rparr>"
  have repr: "journal_repr A ?k ps" using assms(1) by (simp add: journal_agrees_def)
  obtain g' where k: "append_part A sid part ?k = (r, j'\<lparr>j_file := g'\<rparr>)" "forget_synced (j_file j') = forget_synced g'"
    using append_other_file [OF forget_as_durable [symmetric] run] by blast
  from append_atomic [OF repr sid k(1)]
  have "j_poisoned (j'\<lparr>j_file := g'\<rparr>) \<or> (\<exists>ps'. journal_repr A (j'\<lparr>j_file := g'\<rparr>) ps')" by blast
  then show ?thesis using agrees_of_repr [OF _ k(2)] by auto
qed

lemma reset_agrees:
  assumes "journal_agrees A j ps" and run: "reset_journal A counter j = Some (r, j', counter')"
  shows "j_poisoned j' \<or> (\<exists>ps'. journal_agrees A j' ps')"
proof -
  let ?k = "j\<lparr>j_file := as_durable (j_file j)\<rparr>"
  have repr: "journal_repr A ?k ps" using assms(1) by (simp add: journal_agrees_def)
  obtain g' where k: "reset_journal A counter ?k = Some (r, j'\<lparr>j_file := g'\<rparr>, counter')" "forget_synced (j_file j') = forget_synced g'"
    using reset_other_file [OF forget_as_durable [symmetric] run] by blast
  from reset_atomic [OF repr k(1)]
  have "j_poisoned (j'\<lparr>j_file := g'\<rparr>) \<or> (\<exists>ps'. journal_repr A (j'\<lparr>j_file := g'\<rparr>) ps')" by blast
  then show "j_poisoned j' \<or> (\<exists>ps'. journal_agrees A j' ps')" using agrees_of_repr [OF _ k(2)] by auto
qed

text \<open>
  C7: every handle that any life can produce, over any file found at the start, synchronized or not, any operations
  and any failures, of the reads while it is opened too, is poisoned or agrees with its file: its references,
  identity, length and configuration are those of the bytes of the file, whose frames all validate. Once an
  append or the reset of a journal with parts has succeeded, or when the file was synchronized at the
  start, all these bytes are synchronized as well. The generation is one the counter has passed, so
  no later generation can equal it. A segment identifier is one whose day exists, as its constructor ensures.
\<close>

theorem reachable_invariant:
  assumes "reachable A synced j counter"
  shows "(j_poisoned j \<or> (\<exists>ps. journal_agrees A j ps \<and> (synced \<longrightarrow> journal_repr A j ps))) \<and>
    unat (j_generation j) < unat counter"
  using assms
proof (induction rule: reachable.induct)
  case (opened owner cfg grow counter j fo counter' f b)
  show ?case using open_sound [OF opened] by auto
next
  case (faults_change synced j counter lf rf fs)
  let ?j = "j\<lparr>j_file := (j_file j)\<lparr>faults := fs, read_fault := rf, len_fault := lf\<rparr>\<rparr>"
  have "unchanged_file (j\<lparr>j_file := as_durable (j_file j)\<rparr>) (?j\<lparr>j_file := as_durable (j_file ?j)\<rparr>)"
    unfolding unchanged_file_def by (rule exI [of _ "as_durable (j_file ?j)"]) simp
  then have "journal_agrees A ?j ps" if "journal_agrees A j ps" for ps
    using that unchanged_repr unfolding journal_agrees_def by blast
  then show ?case using faults_change by (auto simp: journal_repr_iff)
next
  case (appended synced j counter sid part r j')
  have g: "j_generation j' = j_generation j" using append_generation [OF appended(3)] by simp
  show ?case
  proof (cases "j_poisoned j")
    case True
    then have "j' = j" using appended(3) by (simp add: poisoned_append)
    then show ?thesis using appended True by simp
  next
    case False
    then obtain ps where ps: "journal_agrees A j ps" "synced \<longrightarrow> journal_repr A j ps" using appended by blast
    have "durable (j_file j') = content (j_file j')" if "\<not> j_poisoned j'" "synced \<or> is_ok r"
    proof (cases r)
      case (Inl e)
      then have "journal_repr A j ps" using that ps by simp
      then show ?thesis
        using append_failure [of A j ps sid part e j'] appended(3) Inl that(1) unchanged_repr journal_repr_iff by blast
    next
      case (Inr ref)
      then show ?thesis using append_synced appended(3) by simp
    qed
    then show ?thesis using append_agrees [OF ps(1) appended(2,3)] appended g by (auto simp: journal_repr_iff)
  qed
next
  case (reset_done synced j counter r j' counter')
  have g: "unat (j_generation j') < unat counter'" using reset_generation [OF reset_done(2)] reset_done(3) by auto
  show ?case
  proof (cases "j_poisoned j")
    case True
    then have "j' = j" "counter' = counter" using reset_done(2) by (simp_all add: poisoned_reset)
    then show ?thesis using reset_done True by simp
  next
    case False
    then obtain ps where ps: "journal_agrees A j ps" "synced \<longrightarrow> journal_repr A j ps" using reset_done by blast
    have "durable (j_file j') = content (j_file j')" if "\<not> j_poisoned j'" "synced \<or> is_ok r \<and> j_parts j \<noteq> []"
    proof (cases "is_ok r \<and> j_parts j \<noteq> []")
      case True
      then show ?thesis using reset_synced reset_done(2) by (auto simp: is_ok_iff)
    next
      case False
      then have "journal_repr A j ps" using that ps by blast
      from reset_atomic [OF this reset_done(2)] that(1) show ?thesis by (auto simp: journal_repr_iff)
    qed
    then show ?thesis using reset_agrees [OF ps(1) reset_done(2)] g by (auto simp: journal_repr_iff)
  qed
qed

text \<open>A handle that was opened on unsynchronized bytes, with a read of the file that fails later, and appends.\<close>

theorem reachable_invariant_witness:
  "\<exists>j. reachable crc_iscsi False j 6 \<and> (\<exists>ps. journal_agrees crc_iscsi j ps) \<and> durable (j_file j) \<noteq> content (j_file j)"
proof -
  let ?f = "(restart (j_file sample_active))\<lparr>durable := []\<rparr>"
  have same: "?f = restart ((j_file sample_active)\<lparr>durable := []\<rparr>)" "content ?f = content (j_file sample_active)"
    by (simp_all add: restart_def)
  have g: "next_journal_generation 5 = Some (5, 6)"
    by (simp add: next_journal_generation_def checked_add_word_def)
  have "j_config sample_active = default_journal_config" by (simp add: sample_active_def)
  then have "open_file crc_iscsi default_journal_config (\<lambda>old len. len) False ?f = (Ok (j_end sample_active, j_segment_id sample_active, refs_from 36 [sample_part]), ?f)"
    using open_file_live [OF sample_active_repr, of "(j_file sample_active)\<lparr>durable := []\<rparr>" "\<lambda>old len. len"] by (simp add: same(1))
  then obtain j fo where o: "open_journal crc_iscsi (owner_of ?f) default_journal_config (\<lambda>old len. len) 5 = Some (Ok j, fo, 6)"
    and j: "\<not> j_poisoned j" "j_file j = ?f"
    using g default_config_ok by (simp add: open_journal_def owner_of_def)
  have "content ?f \<noteq> []"
    using same(2) by (auto simp: sample_active_def disk_file_def dest: arg_cong [of _ _ length])
  then have ne: "durable ?f \<noteq> content ?f" by simp
  have "open_or_create_journal (owner_of ?f) = Ok (?f, False)" by (simp add: owner_of_def)
  from reachable.opened [OF o this] ne have r: "reachable crc_iscsi False j 6" by simp
  from reachable_invariant [OF r] r j ne show ?thesis by auto
qed

text \<open>
  A poisoned handle is inert: every operation returns the poisoned error, writes nothing, and
  draws no generation; no reference can be read through it.
\<close>

lemma poisoned_inert:
  assumes "j_poisoned j"
  shows "append_part A sid part j = (Err JournalPoisoned, j) \<and>
    reset_journal A counter j = Some (Err JournalPoisoned, j, counter) \<and>
    read_part j r = Err JournalPoisoned \<and> read_part_range j r off len = Err JournalPoisoned"
  using assms by (simp add: poisoned_append poisoned_reset poisoned_check read_part_def read_part_range_def)

end
