(* ===== verification/Layout_Names.thy ===== *)
theory Layout_Names
  imports Layout_Time
begin

text \<open>
  The name grammar of the data tree (\<open>crates/kronika-layout/src/root/names.rs\<close>): canonical
  integers, calendar directory names, segment files and temporaries. Names are the ASCII strings the scan passes on. The grammar is proved to be the
  inverse of the renderers, so a file has one name and a name one meaning.
\<close>

section \<open>Canonical integers\<close>

definition parse_canonical_i64 :: "string \<Rightarrow> i64 option" where
  "parse_canonical_i64 value =
     (let digits = (case value of c # cs \<Rightarrow> if c = CHR ''-'' then cs else value | [] \<Rightarrow> value) in
      if digits = [] \<or> \<not> list_all is_ascii_digit digits \<or> value = ''-0'' \<or>
         (take 1 value = ''0'' \<and> length value > 1) \<or>
         (take 2 value = ''-0'' \<and> length value > 2)
      then None
      else parse_i64 value)"

definition parse_canonical_u64 :: "string \<Rightarrow> u64 option" where
  "parse_canonical_u64 value =
     (if value = [] \<or> \<not> list_all is_ascii_digit value \<or>
         (take 1 value = ''0'' \<and> length value > 1)
      then None
      else map_option of_nat (parse_unsigned (2 ^ 64 - 1) value))"

section \<open>Calendar directories\<close>

definition parse_year :: "string \<Rightarrow> u16 option" where
  "parse_year name =
     (if length name = 4 \<and> list_all is_ascii_digit name
      then map_option of_nat (parse_unsigned (2 ^ 16 - 1) name) else None)"

definition parse_month :: "string \<Rightarrow> u8 option" where
  "parse_month name =
     (if length name \<noteq> 2 \<or> \<not> list_all is_ascii_digit name then None
      else case map_option of_nat (parse_unsigned (2 ^ 8 - 1) name) of
             None \<Rightarrow> None
           | Some month \<Rightarrow> if 1 \<le> (month :: u8) \<and> month \<le> 12 then Some month else None)"

definition parse_day :: "u16 \<Rightarrow> u8 \<Rightarrow> string \<Rightarrow> u8 option" where
  "parse_day year month name =
     (if length name \<noteq> 2 \<or> \<not> list_all is_ascii_digit name then None
      else case map_option of_nat (parse_unsigned (2 ^ 8 - 1) name) of
             None \<Rightarrow> None
           | Some day \<Rightarrow>
               (case UtcDay_new year month day of
                  Err _ \<Rightarrow> None
                | Ok valid \<Rightarrow> Some (day_day valid)))"

section \<open>Leaf names\<close>

datatype temporary_kind = TmpZms | TmpIdx | IndexProbe

datatype parsed_leaf =
    Zms segment_address
  | Idx segment_address
  | Temporary segment_address temporary_kind

fun split_on :: "'a \<Rightarrow> 'a list \<Rightarrow> 'a list list" where
  "split_on c [] = [[]]"
| "split_on c (x # xs) =
     (if x = c then [] # split_on c xs
      else case split_on c xs of p # ps \<Rightarrow> (x # p) # ps | [] \<Rightarrow> [[x]])"

definition parse_address :: "string \<Rightarrow> utc_day \<Rightarrow> layout_error + segment_address" where
  "parse_address i day =
     and_then (ok_or (parse_canonical_i64 i) (UnexpectedLeafEntry i)) (\<lambda>value.
     and_then (SegmentId_new value) (\<lambda>i. in_day i day))"

definition two_numbers :: "string \<Rightarrow> string \<Rightarrow> bool" where
  "two_numbers pid sequence \<longleftrightarrow> parse_canonical_u64 pid \<noteq> None \<and> parse_canonical_u64 sequence \<noteq> None"

definition parse_leaf :: "string \<Rightarrow> utc_day \<Rightarrow> layout_error + parsed_leaf" where
  "parse_leaf name day =
     (case split_on CHR ''.'' name of
        [i, k] \<Rightarrow>
          if k = ''zms'' then and_then (parse_address i day) (\<lambda>a. Ok (Zms a))
          else if k = ''idx'' then and_then (parse_address i day) (\<lambda>a. Ok (Idx a))
          else Err (UnexpectedLeafEntry name)
      | [i, k, pid, sequence, t] \<Rightarrow>
          if k = ''zms'' \<and> t = ''tmp'' \<and> two_numbers pid sequence
          then and_then (parse_address i day) (\<lambda>a. Ok (Temporary a TmpZms))
          else if k = ''idx'' \<and> t = ''tmp'' \<and> two_numbers pid sequence
          then and_then (parse_address i day) (\<lambda>a. Ok (Temporary a TmpIdx))
          else Err (UnexpectedLeafEntry name)
      | [i, k, p, pid, sequence, t] \<Rightarrow>
          if k = ''idx'' \<and> p = ''probe'' \<and> t = ''tmp'' \<and> two_numbers pid sequence
          then and_then (parse_address i day) (\<lambda>a. Ok (Temporary a IndexProbe))
          else Err (UnexpectedLeafEntry name)
      | _ \<Rightarrow> Err (UnexpectedLeafEntry name))"

definition temporary_name :: "segment_address \<Rightarrow> temporary_kind \<Rightarrow> u32 \<Rightarrow> u64 \<Rightarrow> string" where
  "temporary_name address kind pid sequence =
     (case kind of
        TmpZms \<Rightarrow> show_i64 (get (addr_id address)) @ ''.zms.'' @ dec (unat pid) @ ''.'' @ dec (unat sequence) @ ''.tmp''
      | TmpIdx \<Rightarrow> show_i64 (get (addr_id address)) @ ''.idx.'' @ dec (unat pid) @ ''.'' @ dec (unat sequence) @ ''.tmp''
      | IndexProbe \<Rightarrow> show_i64 (get (addr_id address)) @ ''.idx.probe.'' @ dec (unat pid) @ ''.'' @ dec (unat sequence) @ ''.tmp'')"

section \<open>Facts\<close>

lemma canonical_digits_Cons:
  "canonical_digits (c # cs) \<longleftrightarrow> is_ascii_digit c \<and> list_all is_ascii_digit cs \<and> (c = CHR ''0'' \<longrightarrow> cs = [])"
  by (auto simp: canonical_digits_def)

lemma parse_canonical_minus:
  "parse_canonical_i64 (CHR ''-'' # cs) =
     (if canonical_digits cs \<and> cs \<noteq> ''0'' \<and> num cs \<le> 2 ^ 63
      then Some (word_of_int (- int (num cs))) else None)"
  by (cases cs) (auto simp: parse_canonical_i64_def parse_i64_def canonical_digits_Cons canonical_digits_def)

lemma lead_zero:
  "s \<noteq> [] \<Longrightarrow> list_all is_ascii_digit s \<Longrightarrow> canonical_digits s \<longleftrightarrow> \<not> (take 1 s = ''0'' \<and> length s > 1)"
  by (cases s) (auto simp: canonical_digits_def)

lemma parse_canonical_plain:
  assumes "take 1 s \<noteq> ''-''"
  shows "parse_canonical_i64 s =
     (if canonical_digits s \<and> num s < 2 ^ 63 then Some (of_nat (num s)) else None)"
proof (cases s)
  case Nil
  then show ?thesis by (simp add: parse_canonical_i64_def canonical_digits_def)
next
  case (Cons c cs)
  then have c: "c \<noteq> CHR ''-''" using assms by simp
  then have rest: "s \<noteq> ''-0''" "take 2 s \<noteq> ''-0''" using Cons by (cases cs; simp)+
  have i: "parse_i64 s = map_option of_nat (parse_unsigned (2 ^ 63 - 1) s)"
    using c Cons by (simp add: parse_i64_def)
  have d: "(case s of c # cs \<Rightarrow> if c = CHR ''-'' then cs else s | [] \<Rightarrow> s) = s"
    using c Cons by simp
  have ne: "s \<noteq> []" using Cons by simp
  show ?thesis
  proof (cases "canonical_digits s")
    case True
    then have da: "list_all is_ascii_digit s" by (simp add: canonical_digits_def)
    then show ?thesis
      unfolding parse_canonical_i64_def d i Let_def
      using rest ne lead_zero [OF ne da] True by (auto simp: parse_unsigned_digits)
  next
    case False
    then show ?thesis
      unfolding parse_canonical_i64_def d Let_def using lead_zero [OF ne] by auto
  qed
qed

lemma sint_word_of_int_i64:
  "- (2 ^ 63) \<le> k \<Longrightarrow> k < 2 ^ 63 \<Longrightarrow> sint (word_of_int k :: i64) = k"
  by (simp add: signed_of_int signed_take_bit_int_eq_self)

lemma parse_canonical_i64_Some:
  assumes "parse_canonical_i64 s = Some v"
  shows "s = show_i64 v"
proof (cases "take 1 s = ''-''")
  case True
  then obtain cs where s: "s = CHR ''-'' # cs" by (cases s) auto
  then have cs: "canonical_digits cs" "cs \<noteq> ''0''"
    and v: "v = word_of_int (- int (num cs))" "num cs \<le> 2 ^ 63"
    using assms by (auto simp: parse_canonical_minus split: if_splits)
  have "0 < num cs" using cs dec_num dec_short [of 0] by (metis digit_zero gr0I zero_less_numeral)
  then have "sint v = - int (num cs)"
    using v(2) unfolding v(1) by (intro sint_word_of_int_i64) auto
  then show ?thesis using s dec_num [OF cs(1)] \<open>0 < num cs\<close> by (simp add: show_i64_def)
next
  case False
  then have cs: "canonical_digits s" and v: "v = of_nat (num s)" "num s < 2 ^ 63"
    using assms by (auto simp: parse_canonical_plain split: if_splits)
  then have "sint v = int (num s)"
    using sint_word_of_int_i64 [of "int (num s)"] by simp
  then show ?thesis using dec_num [OF cs] by (simp add: show_i64_def)
qed

lemma parse_canonical_i64_show: "parse_canonical_i64 (show_i64 v) = Some v"
proof (cases "sint v < 0")
  case True
  then show ?thesis using sint_bounds [of v] canonical_dec [of "nat (- sint v)"] dec_inject [of _ 0] dec_short [of 0]
    by (auto simp: show_i64_def parse_canonical_minus nat_le_iff)
next
  case False
  moreover have "take 1 (dec (nat (sint v))) \<noteq> ''-''"
    using dec_not_minus by (cases "dec (nat (sint v))") auto
  moreover have "nat (sint v) < 2 ^ 63" using sint_bounds(2) [of v] by (simp add: nat_less_iff)
  ultimately show ?thesis
    by (simp add: show_i64_def parse_canonical_plain canonical_dec)
qed

lemma parse_canonical_u64_dec: "parse_canonical_u64 s = Some v \<longleftrightarrow> s = dec (unat v)"
proof
  assume "parse_canonical_u64 s = Some v"
  then have "canonical_digits s" "num s < 2 ^ 64" "v = of_nat (num s)"
    using lead_zero [of s] by (auto simp: parse_canonical_u64_def parse_unsigned_digits split: if_splits)
  then show "s = dec (unat v)" by (simp add: unat_of_nat_u64 dec_num)
next
  assume s: "s = dec (unat v)"
  have "unat v < 2 ^ 64" using unat_lt2p [of v] by simp
  then show "parse_canonical_u64 s = Some v"
    using canonical_dec [of "unat v"] dec_digits [of "unat v"] lead_zero [of "dec (unat v)"]
    by (auto simp: s parse_canonical_u64_def parse_unsigned_digits)
qed

text \<open>Splitting at a character that the pieces do not contain.\<close>

lemma split_on_plain: "c \<notin> set p \<Longrightarrow> split_on c p = [p]"
  by (induction p) auto

lemma split_on_append: "c \<notin> set p \<Longrightarrow> split_on c (p @ c # rest) = p # split_on c rest"
  by (induction p) auto

fun join_on :: "char \<Rightarrow> string list \<Rightarrow> string" where
  "join_on c [] = []"
| "join_on c [p] = p"
| "join_on c (p # q # ps) = p @ c # join_on c (q # ps)"

lemma split_on_nonempty: "split_on c s \<noteq> []"
  by (induction s) (auto split: list.splits)

lemma join_split: "join_on c (split_on c s) = s"
proof (induction s)
  case (Cons x s)
  then show ?case
    using split_on_nonempty [of c s] by (cases "split_on c s"; cases "tl (split_on c s)") auto
qed simp

lemma split_on_eqD: "split_on c s = ps \<Longrightarrow> s = join_on c ps"
  using join_split [of c s] by simp

lemma no_dot_dec [simp]: "CHR ''.'' \<notin> set (dec n)"
  using dec_digits [of n] by (auto simp: list_all_iff is_ascii_digit_def)

lemma no_dot_i64 [simp]: "CHR ''.'' \<notin> set (show_i64 v)"
  by (simp add: show_i64_def)

section \<open>The grammar\<close>

text \<open>A temporary with any two \<open>u64\<close> numbers; \<open>temporary_name\<close> writes a process id and a count.\<close>

definition tmp_name :: "segment_address \<Rightarrow> temporary_kind \<Rightarrow> nat \<Rightarrow> nat \<Rightarrow> string" where
  "tmp_name a kind p q =
     show_i64 (get (addr_id a)) @
     (case kind of TmpZms \<Rightarrow> ''.zms.'' | TmpIdx \<Rightarrow> ''.idx.'' | IndexProbe \<Rightarrow> ''.idx.probe.'') @
     dec p @ ''.'' @ dec q @ ''.tmp''"

lemma temporary_name_eq: "temporary_name a kind pid q = tmp_name a kind (unat pid) (unat q)"
  by (simp add: temporary_name_def tmp_name_def split: temporary_kind.split)

fun leaf_names :: "parsed_leaf \<Rightarrow> string \<Rightarrow> bool" where
  "leaf_names (Zms a) name \<longleftrightarrow> name = zms_name a"
| "leaf_names (Idx a) name \<longleftrightarrow> name = idx_name a"
| "leaf_names (Temporary a kind) name \<longleftrightarrow>
     (\<exists>p q. p < 2 ^ 64 \<and> q < 2 ^ 64 \<and> name = tmp_name a kind p q)"

fun leaf_address :: "parsed_leaf \<Rightarrow> segment_address" where
  "leaf_address (Zms a) = a"
| "leaf_address (Idx a) = a"
| "leaf_address (Temporary a kind) = a"

lemma parse_address_Ok_iff:
  "parse_address i day = Ok a \<longleftrightarrow>
     i = show_i64 (get (addr_id a)) \<and> addr_day a = day \<and> SegmentAddress_new (addr_id a) = Ok a"
proof -
  have "parse_address (show_i64 (get j)) day = Ok a \<longleftrightarrow> addr_id a = j \<and> addr_day a = day \<and> SegmentAddress_new j = Ok a"
    for j
    by (cases j; cases a)
      (auto simp: parse_address_def parse_canonical_i64_show SegmentId_new_def in_day_def
        SegmentAddress_new_def and_then_Ok_iff)
  moreover have "\<exists>j. i = show_i64 (get j)" if "parse_address i day = Ok a"
    using that by (auto simp: parse_address_def and_then_Ok_iff dest!: parse_canonical_i64_Some
        intro: exI [of _ "SegmentId _"])
  ultimately show ?thesis by metis
qed

lemma two_numbers_iff:
  "two_numbers p q \<longleftrightarrow> (\<exists>m n. m < 2 ^ 64 \<and> n < 2 ^ 64 \<and> p = dec m \<and> q = dec n)"
proof -
  have "parse_canonical_u64 p \<noteq> None \<longleftrightarrow> (\<exists>m < 2 ^ 64. p = dec m)" for p
  proof
    assume "parse_canonical_u64 p \<noteq> None"
    then obtain v where "parse_canonical_u64 p = Some v" by auto
    then have "p = dec (unat v)" by (simp only: parse_canonical_u64_dec)
    then show "\<exists>m < 2 ^ 64. p = dec m" using unat_lt2p [of v] by auto
  next
    assume "\<exists>m < 2 ^ 64. p = dec m"
    then obtain m where m: "m < 2 ^ 64" "p = dec m" by blast
    have "p = dec (unat (of_nat m :: u64))" unfolding m(2) unat_of_nat_u64 [OF m(1)] ..
    then have "parse_canonical_u64 p = Some (of_nat m)" by (subst parse_canonical_u64_dec)
    then show "parse_canonical_u64 p \<noteq> None" by simp
  qed
  then show ?thesis unfolding two_numbers_def by blast
qed

lemma split_zms: "split_on CHR ''.'' (zms_name a) = [show_i64 (get (addr_id a)), ''zms'']"
  and split_idx: "split_on CHR ''.'' (idx_name a) = [show_i64 (get (addr_id a)), ''idx'']"
  by (simp_all add: zms_name_def idx_name_def split_on_append)

lemma split_tmp:
  "split_on CHR ''.'' (tmp_name a kind p q) =
     show_i64 (get (addr_id a)) #
     (case kind of TmpZms \<Rightarrow> [''zms''] | TmpIdx \<Rightarrow> [''idx''] | IndexProbe \<Rightarrow> [''idx'', ''probe'']) @
     [dec p, dec q, ''tmp'']"
  by (cases kind) (simp_all add: tmp_name_def split_on_append)

lemma parse_leaf_intro:
  assumes "leaf_names leaf name" "addr_day (leaf_address leaf) = day"
    "SegmentAddress_new (addr_id (leaf_address leaf)) = Ok (leaf_address leaf)"
  shows "parse_leaf name day = Ok leaf"
proof -
  have a: "parse_address (show_i64 (get (addr_id (leaf_address leaf)))) day = Ok (leaf_address leaf)"
    using assms by (simp add: parse_address_Ok_iff)
  show ?thesis
  proof (cases leaf)
    case (Temporary b kind)
    then obtain p q where n: "name = tmp_name b kind p q" and "two_numbers (dec p) (dec q)"
      using assms(1) by (auto simp: two_numbers_iff)
    then show ?thesis using a Temporary
      by (cases kind) (simp_all add: parse_leaf_def split_tmp and_then_Ok_iff)
  qed (use a assms in \<open>simp_all add: parse_leaf_def split_zms split_idx and_then_Ok_iff\<close>)
qed

lemma parse_leaf_elim:
  assumes "parse_leaf name day = Ok leaf"
  shows "leaf_names leaf name \<and>
    parse_address (hd (split_on CHR ''.'' name)) day = Ok (leaf_address leaf)"
  using assms unfolding parse_leaf_def
  by (auto simp: and_then_Ok_iff parse_address_Ok_iff two_numbers_iff zms_name_def idx_name_def tmp_name_def
      dest!: split_on_eqD split: list.splits if_splits) blast+

lemma split_leaf:
  "leaf_names leaf name \<Longrightarrow> hd (split_on CHR ''.'' name) = show_i64 (get (addr_id (leaf_address leaf)))"
  by (cases leaf) (auto simp: split_zms split_idx split_tmp)

lemma fixed_digits:
  assumes "length s = w" "0 < w" "list_all is_ascii_digit s"
  shows "zero_pad w (dec (num s)) = s"
proof (rule digits_unique)
  have "length (dec (num s)) \<le> w" using assms num_bound [of s] by (intro length_dec_le) auto
  then show "length (zero_pad w (dec (num s))) = length s" using assms by (simp add: length_zero_pad)
qed (simp_all add: assms zero_pad_digits dec_digits)

lemma fixed_digits_text:
  "n < 10 ^ w \<Longrightarrow> 0 < w \<Longrightarrow> length (zero_pad w (dec n)) = w \<and> list_all is_ascii_digit (zero_pad w (dec n))"
  using length_dec_le [of n w] by (simp add: length_zero_pad zero_pad_digits dec_digits)

lemma parse_unsigned_Some:
  "parse_unsigned m s = Some z \<Longrightarrow> list_all is_ascii_digit s \<Longrightarrow> z = num s"
  using parse_unsigned_digits [of s m] by (cases "s = []") (auto simp: parse_unsigned_def [of m "[]"] split: if_splits)

lemma parse_year_iff: "parse_year s = Some y \<longleftrightarrow> s = zero_pad 4 (dec (unat y)) \<and> unat y \<le> 9999"
proof
  assume "parse_year s = Some y"
  then have s: "length s = 4" "list_all is_ascii_digit s" and y: "y = of_nat (num s)"
    by (auto simp: parse_year_def split: if_splits dest: parse_unsigned_Some)
  have "num s < 10 ^ 4" using num_bound [OF s(2)] s(1) by simp
  then have "unat y = num s" by (simp add: y unat_of_nat)
  then show "s = zero_pad 4 (dec (unat y)) \<and> unat y \<le> 9999"
    using fixed_digits [OF s(1) _ s(2)] \<open>num s < 10 ^ 4\<close> by simp
next
  assume y: "s = zero_pad 4 (dec (unat y)) \<and> unat y \<le> 9999"
  then have d: "length s = 4" "list_all is_ascii_digit s" "num s = unat y"
    using fixed_digits_text [of "unat y" 4] by auto
  moreover have "parse_unsigned (2 ^ 16 - 1) s = Some (unat y)"
    using y d by (subst parse_unsigned_digits) auto
  ultimately show "parse_year s = Some y" by (simp add: parse_year_def)
qed

text \<open>The two-digit part that month and day share.\<close>

lemma two_digits_iff:
  "length s = 2 \<and> list_all is_ascii_digit s \<and> map_option of_nat (parse_unsigned 255 s) = Some (v :: u8)
     \<longleftrightarrow> s = zero_pad 2 (dec (unat v)) \<and> unat v \<le> 99"
proof
  assume *: "length s = 2 \<and> list_all is_ascii_digit s \<and> map_option of_nat (parse_unsigned 255 s) = Some v"
  then have s: "length s = 2" "list_all is_ascii_digit s" and v: "v = of_nat (num s)"
    by (auto dest: parse_unsigned_Some)
  have "num s < 10 ^ 2" using num_bound [OF s(2)] s(1) by simp
  then have "unat v = num s" by (simp add: v unat_of_nat)
  then show "s = zero_pad 2 (dec (unat v)) \<and> unat v \<le> 99"
    using fixed_digits [OF s(1) _ s(2)] \<open>num s < 10 ^ 2\<close> by simp
next
  assume v: "s = zero_pad 2 (dec (unat v)) \<and> unat v \<le> 99"
  then have d: "length s = 2" "list_all is_ascii_digit s" "num s = unat v"
    using fixed_digits_text [of "unat v" 2] by auto
  then show "length s = 2 \<and> list_all is_ascii_digit s \<and> map_option of_nat (parse_unsigned 255 s) = Some v"
    using v parse_unsigned_digits [of s 255] by fastforce
qed

lemma parse_month_iff:
  "parse_month s = Some m \<longleftrightarrow> s = zero_pad 2 (dec (unat m)) \<and> 1 \<le> m \<and> m \<le> 12"
proof -
  have "parse_month s = Some m \<longleftrightarrow>
     (length s = 2 \<and> list_all is_ascii_digit s \<and> map_option of_nat (parse_unsigned 255 s) = Some m) \<and> 1 \<le> m \<and> m \<le> 12"
    by (auto simp: parse_month_def split: option.splits)
  also have "\<dots> \<longleftrightarrow> s = zero_pad 2 (dec (unat m)) \<and> 1 \<le> m \<and> m \<le> 12"
    unfolding two_digits_iff by (auto simp: word_le_nat_alt)
  finally show ?thesis .
qed

lemma UtcDay_new_Ok:
  "UtcDay_new y m d = Ok t \<longleftrightarrow> t = UtcDay y m d \<and> is_ok (UtcDay_new y m d)"
  by (auto simp: UtcDay_new_def)

lemma days_in_month_le: "days_in_month y m \<le> 31"
  by (simp add: days_in_month_def)

lemma UtcDay_new_small: "is_ok (UtcDay_new y m d) \<Longrightarrow> unat d \<le> 99 \<and> unat y \<le> 9999 \<and> 1 \<le> m \<and> m \<le> 12"
proof -
  assume ok: "is_ok (UtcDay_new y m d)"
  then have "uint y \<le> 9999" "1 \<le> uint m" "uint m \<le> 12" "uint d \<le> 31"
    using days_in_month_le [of "uint y" "uint m"] by (auto simp: UtcDay_new_def split: if_splits)
  then have "int (unat y) \<le> 9999" "1 \<le> int (unat m)" "int (unat m) \<le> 12" "int (unat d) \<le> 31"
    by simp_all
  then have "unat y \<le> 9999" "1 \<le> unat m" "unat m \<le> 12" "unat d \<le> 99"
    by linarith+
  then show ?thesis by (simp add: word_le_nat_alt)
qed

lemma parse_day_iff:
  "parse_day y m s = Some d \<longleftrightarrow> s = zero_pad 2 (dec (unat d)) \<and> is_ok (UtcDay_new y m d)"
proof -
  have "parse_day y m s = Some d \<longleftrightarrow>
     (length s = 2 \<and> list_all is_ascii_digit s \<and> map_option of_nat (parse_unsigned 255 s) = Some d) \<and> is_ok (UtcDay_new y m d)"
  proof (cases "length s = 2 \<and> list_all is_ascii_digit s")
    case True
    have new: "UtcDay_new y m z = Ok t \<Longrightarrow> day_day t = z" for z t by (auto simp: UtcDay_new_def split: if_splits)
    show ?thesis using True new
      by (cases "parse_unsigned 255 s") (auto simp: parse_day_def is_ok_iff split: sum.splits)
  qed (auto simp: parse_day_def)
  also have "\<dots> \<longleftrightarrow> s = zero_pad 2 (dec (unat d)) \<and> is_ok (UtcDay_new y m d)"
    unfolding two_digits_iff using UtcDay_new_small by auto
  finally show ?thesis .
qed

section \<open>Properties\<close>

lemma parse_leaf_exact:
  "parse_leaf name day = Ok leaf \<longleftrightarrow>
     leaf_names leaf name \<and> addr_day (leaf_address leaf) = day \<and>
     SegmentAddress_new (addr_id (leaf_address leaf)) = Ok (leaf_address leaf)"
proof
  assume "parse_leaf name day = Ok leaf"
  from parse_leaf_elim [OF this] show
    "leaf_names leaf name \<and> addr_day (leaf_address leaf) = day \<and>
     SegmentAddress_new (addr_id (leaf_address leaf)) = Ok (leaf_address leaf)"
    by (auto simp: parse_address_Ok_iff)
qed (use parse_leaf_intro in blast)

text \<open>
  The leaf grammar and the renderers are inverse to each other. \<open>parse_leaf\<close> accepts a name in
  a day directory as a segment, an index sidecar or a temporary exactly when the name is the one
  that the code writes for an address of that day; no other spelling of a number (leading
  zeros, plus signs, \<open>-0\<close>), extension or directory is accepted.
\<close>

lemma parse_leaf_iff:
  "parse_leaf name day = Ok leaf \<longleftrightarrow>
     leaf_names leaf name \<and> addr_day (leaf_address leaf) = day \<and>
     SegmentAddress_new (addr_id (leaf_address leaf)) = Ok (leaf_address leaf)"
  by (rule parse_leaf_exact)

text \<open>
  What the writers publish, the scan recognises: in the day of its address, the name of a
  segment, of its sidecar and of every temporary is read back as that file of that address.
\<close>

lemma leaf_name_roundtrip:
  assumes "SegmentAddress_new i = Ok a"
  shows "parse_leaf (zms_name a) (addr_day a) = Ok (Zms a) \<and>
    parse_leaf (idx_name a) (addr_day a) = Ok (Idx a) \<and>
    parse_leaf (temporary_name a kind pid q) (addr_day a) = Ok (Temporary a kind)"
proof -
  have a: "SegmentAddress_new (addr_id a) = Ok a"
    using assms by (auto simp: SegmentAddress_new_def and_then_Ok_iff)
  have "unat pid < 2 ^ 64" "unat q < 2 ^ 64" using unat_lt2p [of pid] unat_lt2p [of q] by simp_all
  then have "leaf_names (Temporary a kind) (temporary_name a kind pid q)"
    by (auto simp: temporary_name_eq)
  then show ?thesis
    using a parse_leaf_intro [of "Zms a"] parse_leaf_intro [of "Idx a"] parse_leaf_intro [of "Temporary a kind"]
    by simp
qed

definition sample_address :: segment_address where
  "sample_address = SegmentAddress (SegmentId (- 1)) (UtcDay 1969 12 31)"

text \<open>
  The three directory levels spell exactly the valid days: names parse to a year, a month and
  a day of that month if and only if \<open>UtcDay::new\<close> accepts the three numbers and the names are the
  components the code renders for that day.
\<close>

lemma calendar_path_iff:
  "(parse_year ys = Some y \<and> parse_month ms = Some m \<and> parse_day y m ds = Some d) \<longleftrightarrow>
     UtcDay_new y m d = Ok (UtcDay y m d) \<and> ys = year_component (UtcDay y m d) \<and>
     ms = month_component (UtcDay y m d) \<and> ds = day_component (UtcDay y m d)"
  using UtcDay_new_small [of y m d]
  by (auto simp: parse_year_iff parse_month_iff parse_day_iff UtcDay_new_Ok [of y m d "UtcDay y m d"]
      year_component_def month_component_def day_component_def)

end
