(* ===== verification/Layout_Entries.thy ===== *)
theory Layout_Entries
  imports Layout_Names "HOL-Library.List_Lexorder" "HOL-Library.Product_Lexorder"
begin

text \<open>
  What a traversal of the data tree sees and returns (\<open>crates/kronika-layout/src/root/entry.rs\<close>,
  \<open>root/scan.rs\<close>, \<open>limits.rs\<close>, the helpers of \<open>root/names.rs\<close> and \<open>FileIdentity\<close> of \<open>root.rs\<close>).
  A directory is the listing that reading it yields: an I/O error, or entries each with its raw name,
  the result of its no-follow \<open>stat\<close>, the result of opening it, and its own listing. The sizes of the
  Rust structures that the metadata budget charges are parameters.
\<close>

section \<open>Limits\<close>

record layout_limits =
  max_visited_entries :: usize
  max_entries_per_day :: usize
  max_segments :: usize
  max_metadata_bytes :: usize

definition HARD_MAX_VISITED_ENTRIES :: usize where "HARD_MAX_VISITED_ENTRIES = 4000000"
definition HARD_MAX_ENTRIES_PER_DAY :: usize where "HARD_MAX_ENTRIES_PER_DAY = 1000000"
definition HARD_MAX_SEGMENTS :: usize where "HARD_MAX_SEGMENTS = 2000000"
definition HARD_MAX_METADATA_BYTES :: usize where "HARD_MAX_METADATA_BYTES = 128 * 1024 * 1024"

definition validate_limit :: "limit_kind \<Rightarrow> usize \<Rightarrow> usize \<Rightarrow> layout_error + unit" where
  "validate_limit kind val hard_max =
     (if val = 0 \<or> hard_max < val then Err (InvalidLimits kind val hard_max) else Ok ())"

definition LayoutLimits_validate :: "layout_limits \<Rightarrow> layout_error + layout_limits" where
  "LayoutLimits_validate l =
     and_then (validate_limit VisitedEntries (max_visited_entries l) HARD_MAX_VISITED_ENTRIES) (\<lambda>_.
     and_then (validate_limit EntriesPerDay (max_entries_per_day l) HARD_MAX_ENTRIES_PER_DAY) (\<lambda>_.
     and_then (validate_limit Segments (max_segments l) HARD_MAX_SEGMENTS) (\<lambda>_.
     and_then (validate_limit MetadataBytes (max_metadata_bytes l) HARD_MAX_METADATA_BYTES) (\<lambda>_. Ok l))))"

definition default_layout_limits :: layout_limits where
  "default_layout_limits =
     \<lparr>max_visited_entries = 1000000, max_entries_per_day = 10000, max_segments = 500000,
      max_metadata_bytes = HARD_MAX_METADATA_BYTES\<rparr>"

section \<open>Identities and entries\<close>

record file_identity =
  fi_device :: u64
  fi_inode :: u64
  fi_len :: u64
  fi_mtime_seconds :: i64
  fi_mtime_nanoseconds :: i64
  fi_ctime_seconds :: i64
  fi_ctime_nanoseconds :: i64

datatype entry_file_type = RegularFile | Directory | Symlink | OtherType

record file_stat =
  stat_type :: entry_file_type
  stat_identity :: file_identity

datatype dir_entry = DirEntry
  (de_name: bytes) (de_stat: "io_error + file_stat") (de_open: "io_error + unit")
  (de_list: "io_error + (io_error + dir_entry) list")

type_synonym listing = "io_error + (io_error + dir_entry) list"

datatype entry_scope = ScopeRoot | ScopeYear u16 | ScopeMonth u16 u8 | ScopeDay utc_day

datatype entry_parent = ParentRoot | ParentYear u16 | ParentMonth u16 u8 | ParentDay utc_day

fun scope_of :: "entry_parent \<Rightarrow> entry_scope" where
  "scope_of ParentRoot = ScopeRoot"
| "scope_of (ParentYear year) = ScopeYear year"
| "scope_of (ParentMonth year month) = ScopeMonth year month"
| "scope_of (ParentDay day) = ScopeDay day"

record path_identity =
  pi_scope :: entry_scope
  pi_name_hash :: u64
  pi_name_len :: u16
  pi_file_type :: entry_file_type
  pi_file :: file_identity

datatype foreign_entry_reason =
  UnsupportedName | UnsupportedType | SymbolicLink | UnsupportedFlatArtifact | NonAsciiName | ReasonMisbucketed

record foreign_entry =
  fo_path :: path_identity
  fo_reason :: foreign_entry_reason
  fo_parent :: entry_parent
  fo_name :: bytes

record segment_artifacts =
  sa_address :: segment_address
  sa_zms_identity :: file_identity
  sa_zms_bytes :: u64
  sa_idx_bytes :: "u64 option"

record temporary_object =
  to_address :: segment_address
  to_kind :: temporary_kind
  to_identity :: file_identity
  to_file_name :: string

record layout_snapshot =
  snap_days :: "utc_day list"
  snap_segments :: "segment_artifacts list"
  snap_orphan_indexs :: "segment_address list"
  snap_temporaries :: "temporary_object list"
  snap_foreign_entries :: "foreign_entry list"
  snap_visited_entries :: usize
  snap_metadata_bytes :: usize

section \<open>Name helpers\<close>

definition ACTIVE_JOURNAL_NAME :: string where "ACTIVE_JOURNAL_NAME = ''active.wal''"
definition WRITER_OWNER_LOCK_NAME :: string where "WRITER_OWNER_LOCK_NAME = ''.kronika-writer.owner.lock''"
definition INDEX_OWNER_LOCK_NAME :: string where "INDEX_OWNER_LOCK_NAME = ''.kronika-index.owner.lock''"
definition LOG_OFFSETS_NAME :: string where "LOG_OFFSETS_NAME = ''log.offsets''"
definition LOG_OFFSETS_TEMP_NAME :: string where "LOG_OFFSETS_TEMP_NAME = ''log.tmp''"
definition SEAL_SEED_NAME :: string where "SEAL_SEED_NAME = ''seal.seed''"
definition SEAL_SEED_TEMP_NAME :: string where "SEAL_SEED_TEMP_NAME = ''seal.seed.tmp''"

definition is_control_name :: "string \<Rightarrow> bool" where
  "is_control_name name \<longleftrightarrow>
     name \<in> {ACTIVE_JOURNAL_NAME, WRITER_OWNER_LOCK_NAME, INDEX_OWNER_LOCK_NAME, LOG_OFFSETS_NAME,
       LOG_OFFSETS_TEMP_NAME, SEAL_SEED_NAME, SEAL_SEED_TEMP_NAME}"

definition is_dot :: "bytes \<Rightarrow> bool" where
  "is_dot name \<longleftrightarrow> name = [46] \<or> name = [46, 46]"

definition ascii_name :: "bytes \<Rightarrow> string option" where
  "ascii_name name = (if list_all (\<lambda>b. b < 128) name then Some (map (\<lambda>b. char_of (unat b)) name) else None)"

definition foreign_type_reason :: "entry_file_type \<Rightarrow> foreign_entry_reason" where
  "foreign_type_reason t = (if t = Symlink then SymbolicLink else UnsupportedType)"

definition symlink_or_name :: "entry_file_type \<Rightarrow> foreign_entry_reason" where
  "symlink_or_name t = (if t = Symlink then SymbolicLink else UnsupportedName)"

text \<open>The FNV-1a hash of a name; the loop over the bytes is a fold, the multiplication wraps.\<close>

definition hash_name :: "bytes \<Rightarrow> u64" where
  "hash_name bs = foldl (\<lambda>hash b. (hash XOR ucast b) * 0x00000100000001b3) 0xcbf29ce484222325 bs"

definition path_identity_of :: "entry_parent \<Rightarrow> bytes \<Rightarrow> file_stat \<Rightarrow> path_identity" where
  "path_identity_of parent name st =
     \<lparr>pi_scope = scope_of parent, pi_name_hash = hash_name name,
      pi_name_len = (if length name < 2 ^ 16 then of_nat (length name) else 2 ^ 16 - 1),
      pi_file_type = stat_type st, pi_file = stat_identity st\<rparr>"

text \<open>
  \<open>Path::extension\<close> of a single component: what follows the last dot, unless the name has no dot or
  only its first character is one.
\<close>

definition path_extension :: "string \<Rightarrow> string option" where
  "path_extension name =
     (let ext = rev (takeWhile (\<lambda>c. c \<noteq> CHR ''.'') (rev name))
      in if length name \<le> length ext + 1 then None else Some ext)"

section \<open>The traversal state\<close>

record type_sizes =
  size_foreign_entry :: usize
  size_segment_artifacts :: usize
  size_utc_day :: usize
  size_segment_address :: usize

definition ENTRY_METADATA_BYTES :: usize where "ENTRY_METADATA_BYTES = 128"

record scan_state =
  sc_limits :: layout_limits
  sc_visited :: usize
  sc_metadata :: usize
  sc_days :: "utc_day list"
  sc_segments :: "segment_artifacts list"
  sc_orphans :: "segment_address list"
  sc_temporaries :: "temporary_object list"
  sc_foreign :: "foreign_entry list"

definition ScanState_new :: "layout_limits \<Rightarrow> usize \<Rightarrow> scan_state" where
  "ScanState_new l visited =
     \<lparr>sc_limits = l, sc_visited = visited, sc_metadata = 0, sc_days = [], sc_segments = [], sc_orphans = [],
      sc_temporaries = [], sc_foreign = []\<rparr>"

definition account_metadata :: "usize \<Rightarrow> scan_state \<Rightarrow> layout_error + scan_state" where
  "account_metadata n s =
     (case checked_add_usize (sc_metadata s) n of
        None \<Rightarrow> Err (TraversalLimitExceeded MetadataBytes (max_metadata_bytes (sc_limits s)))
      | Some m \<Rightarrow>
          if max_metadata_bytes (sc_limits s) < m
          then Err (TraversalLimitExceeded MetadataBytes (max_metadata_bytes (sc_limits s)))
          else Ok (s\<lparr>sc_metadata := m\<rparr>))"

definition account :: "usize \<Rightarrow> scan_state \<Rightarrow> layout_error + scan_state" where
  "account name_bytes s =
     (case checked_add_usize (sc_visited s) 1 of
        None \<Rightarrow> Err (TraversalLimitExceeded VisitedEntries (max_visited_entries (sc_limits s)))
      | Some v \<Rightarrow>
          if max_visited_entries (sc_limits s) < v
          then Err (TraversalLimitExceeded VisitedEntries (max_visited_entries (sc_limits s)))
          else account_metadata (min (name_bytes + ENTRY_METADATA_BYTES) usize_max) (s\<lparr>sc_visited := v\<rparr>))"

definition account_segment :: "type_sizes \<Rightarrow> scan_state \<Rightarrow> layout_error + scan_state" where
  "account_segment z s =
     (if max_segments (sc_limits s) \<le> length (sc_segments s)
      then Err (TraversalLimitExceeded Segments (max_segments (sc_limits s)))
      else account_metadata (size_segment_artifacts z) s)"

definition record_foreign ::
    "type_sizes \<Rightarrow> entry_parent \<Rightarrow> bytes \<Rightarrow> file_stat \<Rightarrow> foreign_entry_reason \<Rightarrow> scan_state \<Rightarrow> layout_error + scan_state" where
  "record_foreign z parent name st reason s =
     and_then (account_metadata (size_foreign_entry z) s) (\<lambda>s.
       Ok (s\<lparr>sc_foreign := sc_foreign s @
         [\<lparr>fo_path = path_identity_of parent name st, fo_reason = reason, fo_parent = parent, fo_name = name\<rparr>]\<rparr>))"

text \<open>
  The derived orders as sort keys: the fields in declaration order, variants by position. Equal keys
  of the two unstable sorts are equal elements.
\<close>

fun scope_key :: "entry_scope \<Rightarrow> int list" where
  "scope_key ScopeRoot = [0]"
| "scope_key (ScopeYear y) = [1, uint y]"
| "scope_key (ScopeMonth y m) = [2, uint y, uint m]"
| "scope_key (ScopeDay d) = [3, uint (day_year d), uint (day_month d), uint (day_day d)]"

fun type_key :: "entry_file_type \<Rightarrow> int" where
  "type_key RegularFile = 0" | "type_key Directory = 1" | "type_key Symlink = 2" | "type_key OtherType = 3"

definition path_key :: "path_identity \<Rightarrow> int list" where
  "path_key p =
     scope_key (pi_scope p) @
     [uint (pi_name_hash p), uint (pi_name_len p), type_key (pi_file_type p), uint (fi_device (pi_file p)),
      uint (fi_inode (pi_file p)), uint (fi_len (pi_file p)), sint (fi_mtime_seconds (pi_file p)),
      sint (fi_mtime_nanoseconds (pi_file p)), sint (fi_ctime_seconds (pi_file p)), sint (fi_ctime_nanoseconds (pi_file p))]"

fun kind_key :: "temporary_kind \<Rightarrow> nat" where
  "kind_key TmpZms = 0" | "kind_key TmpIdx = 1" | "kind_key IndexProbe = 2"

definition scan_finish :: "scan_state \<Rightarrow> layout_snapshot" where
  "scan_finish s =
     \<lparr>snap_days = sort (sc_days s),
      snap_segments = sort_key (\<lambda>x. addr_id (sa_address x)) (sc_segments s),
      snap_orphan_indexs = sort_key addr_id (sc_orphans s),
      snap_temporaries = sort_key (\<lambda>t. (addr_id (to_address t), kind_key (to_kind t))) (sc_temporaries s),
      snap_foreign_entries = sort_key (\<lambda>e. path_key (fo_path e)) (sc_foreign s),
      snap_visited_entries = sc_visited s, snap_metadata_bytes = sc_metadata s\<rparr>"

end
