(* ===== verification/Ordered_Map.thy ===== *)
theory Ordered_Map
  imports Prelude "HOL-Library.Multiset"
begin

text \<open>
  The ordered map of the standard library (\<open>BTreeMap\<close>) as the components use it: lookup, insert,
  removal and iteration in key order. The interface is the locale \<open>ordered_map\<close>; the model is the
  association list sorted by key, which is what iteration yields. The hash maps of the code are
  modelled by the same list where their iteration order does not reach the outside.
\<close>

section \<open>The interface\<close>

locale ordered_map =
  fixes empty :: 'm
    and get :: "'m \<Rightarrow> 'k :: linorder \<Rightarrow> 'v option"
    and insert :: "'k \<Rightarrow> 'v \<Rightarrow> 'm \<Rightarrow> 'm"
    and remove :: "'k \<Rightarrow> 'm \<Rightarrow> 'm"
    and iter :: "'m \<Rightarrow> ('k \<times> 'v) list"
    and valid :: "'m \<Rightarrow> bool"
  assumes valid_empty: "valid empty"
    and valid_insert: "valid m \<Longrightarrow> valid (insert k v m)"
    and valid_remove: "valid m \<Longrightarrow> valid (remove k m)"
    and get_empty: "get empty k = None"
    and get_insert: "valid m \<Longrightarrow> get (insert k v m) k' = (if k' = k then Some v else get m k')"
    and get_remove: "valid m \<Longrightarrow> get (remove k m) k' = (if k' = k then None else get m k')"
    and iter_sorted: "valid m \<Longrightarrow> sorted_wrt (<) (map fst (iter m))"
    and iter_get: "valid m \<Longrightarrow> (k, v) \<in> set (iter m) \<longleftrightarrow> get m k = Some v"
begin

text \<open>Two maps with the same lookups are iterated alike: contents determine the iteration.\<close>

lemma iter_extensional:
  assumes "valid m" "valid n" "\<And>k. get m k = get n k"
  shows "iter m = iter n"
proof -
  have set_eq: "set (iter m) = set (iter n)"
    using assms iter_get by (metis (no_types, lifting) subsetI subset_antisym surj_pair)
  have "sorted (map fst (iter m))" "distinct (map fst (iter m))" "sorted (map fst (iter n))" "distinct (map fst (iter n))"
    using iter_sorted assms(1,2) by (auto simp: strict_sorted_iff)
  moreover have "inj_on fst (set (iter m) \<union> set (iter n))"
    using assms iter_get by (auto simp: inj_on_def)
  ultimately show ?thesis using set_eq by (intro map_sorted_distinct_set_unique [of fst]) auto
qed

end

section \<open>Sorted association lists\<close>

type_synonym ('k, 'v) omap = "('k \<times> 'v) list"

definition om_valid :: "('k :: linorder, 'v) omap \<Rightarrow> bool" where
  "om_valid m \<longleftrightarrow> sorted_wrt (<) (map fst m)"

fun om_insert :: "'k :: linorder \<Rightarrow> 'v \<Rightarrow> ('k, 'v) omap \<Rightarrow> ('k, 'v) omap" where
  "om_insert k v [] = [(k, v)]"
| "om_insert k v ((k', v') # m) =
     (if k < k' then (k, v) # (k', v') # m
      else if k = k' then (k, v) # m
      else (k', v') # om_insert k v m)"

fun om_remove :: "'k :: linorder \<Rightarrow> ('k, 'v) omap \<Rightarrow> ('k, 'v) omap" where
  "om_remove k [] = []"
| "om_remove k ((k', v') # m) = (if k = k' then m else (k', v') # om_remove k m)"

lemma set_om_insert_keys: "fst ` set (om_insert k v m) = insert k (fst ` set m)"
  by (induction m rule: om_insert.induct) auto

lemma set_om_remove_keys: "fst ` set (om_remove k m) \<subseteq> fst ` set m"
  by (induction k m rule: om_remove.induct) auto

lemma om_valid_Cons: "om_valid ((k, v) # m) \<longleftrightarrow> (\<forall>k' \<in> fst ` set m. k < k') \<and> om_valid m"
  by (auto simp: om_valid_def)

lemma om_valid_insert: "om_valid m \<Longrightarrow> om_valid (om_insert k v m)"
  by (induction k v m rule: om_insert.induct) (auto simp: om_valid_Cons set_om_insert_keys om_valid_def [of "[]"])

lemma om_valid_remove: "om_valid m \<Longrightarrow> om_valid (om_remove k m)"
  using set_om_remove_keys by (induction k m rule: om_remove.induct) (fastforce simp: om_valid_Cons)+

lemma om_get_insert: "om_valid m \<Longrightarrow> map_of (om_insert k v m) k' = (if k' = k then Some v else map_of m k')"
  by (induction k v m rule: om_insert.induct) (auto simp: om_valid_Cons)

lemma om_get_None: "om_valid ((k, v) # m) \<Longrightarrow> map_of m k = None"
  by (auto simp: om_valid_Cons map_of_eq_None_iff)

lemma om_get_remove: "om_valid m \<Longrightarrow> map_of (om_remove k m) k' = (if k' = k then None else map_of m k')"
  using om_get_None by (induction k m rule: om_remove.induct) (auto simp: om_valid_Cons)

lemma om_distinct: "om_valid m \<Longrightarrow> distinct (map fst m)"
  by (simp add: om_valid_def strict_sorted_iff)

lemma om_iter_get: "om_valid m \<Longrightarrow> (k, v) \<in> set m \<longleftrightarrow> map_of m k = Some v"
  by (simp add: om_distinct)

lemma om_sorted: "om_valid m \<Longrightarrow> sorted_wrt (<) (map fst m)"
  by (simp add: om_valid_def)

lemma om_valid_Nil [simp]: "om_valid []"
  by (simp add: om_valid_def)

interpretation om: ordered_map "[]" map_of om_insert om_remove "\<lambda>m. m" om_valid
  by unfold_locales
    (simp_all add: om_valid_insert om_valid_remove om_get_insert om_get_remove om_sorted om_iter_get)

text \<open>Sums over the values, as the components' size counters keep them.\<close>

definition om_sum :: "('k \<Rightarrow> 'v \<Rightarrow> nat) \<Rightarrow> ('k, 'v) omap \<Rightarrow> nat" where
  "om_sum f m = (\<Sum>(k, v) \<leftarrow> m. f k v)"

lemma om_sum_simps [simp]: "om_sum f [] = 0" "om_sum f ((k, v) # m) = f k v + om_sum f m"
  by (simp_all add: om_sum_def)

lemma om_sum_insert_new: "om_valid m \<Longrightarrow> map_of m k = None \<Longrightarrow> om_sum f (om_insert k v m) = om_sum f m + f k v"
  by (induction k v m rule: om_insert.induct) (auto simp: om_valid_Cons split: if_splits)

lemma om_sum_insert_old:
  "om_valid m \<Longrightarrow> map_of m k = Some v' \<Longrightarrow> om_sum f (om_insert k v m) + f k v' = om_sum f m + f k v"
proof (induction k v m rule: om_insert.induct)
  case (2 k v k' w m)
  have "\<not> k < k'"
    using 2(2,3) by (auto simp: om_valid_Cons split: if_splits dest!: map_of_SomeD)
  then show ?case using 2 by (auto simp: om_valid_Cons split: if_splits)
qed simp

lemma om_sum_member: "map_of m k = Some v \<Longrightarrow> f k v \<le> om_sum f m"
  by (induction m) (auto split: if_splits)

lemma om_sum_cong: "(\<And>k v. (k, v) \<in> set m \<Longrightarrow> f k v = g k v) \<Longrightarrow> om_sum f m = om_sum g m"
  by (induction m) auto

end
