(* ===== verification/Layout_Discovery.thy ===== *)
theory Layout_Discovery
  imports Layout_Entries Ordered_Map
begin

text \<open>
  The bounded walk of the calendar tree (\<open>crates/kronika-layout/src/root/discovery.rs\<close> and
  \<open>DataRoot::scan\<close> of \<open>root.rs\<close>). Each level is the loop of the code over one listing; the files of a
  day are paired in a map by segment id.
\<close>

section \<open>The loops\<close>

text \<open>\<open>for entry in &mut entries\<close>: a failing read ends the scan, \<open>.\<close> and \<open>..\<close> are skipped.\<close>

fun fold_entries :: "(dir_entry \<Rightarrow> 's \<Rightarrow> layout_error + 's) \<Rightarrow> (io_error + dir_entry) list \<Rightarrow> 's \<Rightarrow> layout_error + 's" where
  "fold_entries f [] s = Ok s"
| "fold_entries f (Inl e # es) s = Err (Io e)"
| "fold_entries f (Inr de # es) s =
     (if is_dot (de_name de) then fold_entries f es s else and_then (f de s) (fold_entries f es))"

definition fold_listing :: "(dir_entry \<Rightarrow> 's \<Rightarrow> layout_error + 's) \<Rightarrow> listing \<Rightarrow> 's \<Rightarrow> layout_error + 's" where
  "fold_listing f ls s = (case ls of Inl e \<Rightarrow> Err (Io e) | Inr es \<Rightarrow> fold_entries f es s)"

text \<open>\<open>ELOOP\<close> is 40 on Linux.\<close>

definition open_directory_at :: "dir_entry \<Rightarrow> string \<Rightarrow> layout_error + listing" where
  "open_directory_at de name =
     (case de_open de of
        Inl e \<Rightarrow> Err (if e = OsError 40 then SymlinkNotAllowed name else Io e)
      | Inr _ \<Rightarrow> Ok (de_list de))"

definition stat_no_follow_name :: "dir_entry \<Rightarrow> layout_error + file_stat" where
  "stat_no_follow_name de = (case de_stat de of Inl e \<Rightarrow> Err (Io e) | Inr st \<Rightarrow> Ok st)"

record day_artifacts =
  da_zms :: "file_identity option"
  da_idx :: "u64 option"

definition no_artifacts :: day_artifacts where
  "no_artifacts = \<lparr>da_zms = None, da_idx = None\<rparr>"

type_synonym finals = "(segment_id, day_artifacts) omap"

definition artifacts_of :: "segment_id \<Rightarrow> finals \<Rightarrow> day_artifacts" where
  "artifacts_of i m = (case map_of m i of None \<Rightarrow> no_artifacts | Some a \<Rightarrow> a)"

definition day_entry ::
    "type_sizes \<Rightarrow> utc_day \<Rightarrow> dir_entry \<Rightarrow> usize \<times> finals \<times> scan_state \<Rightarrow> layout_error + usize \<times> finals \<times> scan_state" where
  "day_entry z day de acc =
     (let (n, m, s) = acc; l = sc_limits s in
      and_then (ok_or (checked_add_usize n 1) (TraversalLimitExceeded EntriesPerDay (max_entries_per_day l))) (\<lambda>n.
      if max_entries_per_day l < n then Err (TraversalLimitExceeded EntriesPerDay (max_entries_per_day l))
      else
        and_then (account (length (de_name de)) s) (\<lambda>s.
        and_then (stat_no_follow_name de) (\<lambda>st.
          let foreign = (\<lambda>reason. and_then (record_foreign z (ParentDay day) (de_name de) st reason s) (\<lambda>s. Ok (n, m, s)))
          in case ascii_name (de_name de) of
               None \<Rightarrow> foreign NonAsciiName
             | Some name \<Rightarrow>
                 if stat_type st \<noteq> RegularFile then foreign (foreign_type_reason (stat_type st))
                 else
                   (case parse_leaf name day of
                      Inl error \<Rightarrow>
                        foreign (case error of MisbucketedSegment _ _ _ \<Rightarrow> ReasonMisbucketed | _ \<Rightarrow> UnsupportedName)
                    | Inr (Zms a) \<Rightarrow>
                        Ok (n, om_insert (addr_id a) ((artifacts_of (addr_id a) m)\<lparr>da_zms := Some (stat_identity st)\<rparr>) m, s)
                    | Inr (Idx a) \<Rightarrow>
                        Ok (n, om_insert (addr_id a) ((artifacts_of (addr_id a) m)\<lparr>da_idx := Some (fi_len (stat_identity st))\<rparr>) m, s)
                    | Inr (Temporary a kind) \<Rightarrow>
                        and_then (account_metadata ENTRY_METADATA_BYTES s) (\<lambda>s.
                          Ok (n, m, s\<lparr>sc_temporaries := sc_temporaries s @
                            [\<lparr>to_address = a, to_kind = kind, to_identity = stat_identity st, to_file_name = name\<rparr>]\<rparr>)))))))"

fun publish_finals :: "type_sizes \<Rightarrow> utc_day \<Rightarrow> finals \<Rightarrow> scan_state \<Rightarrow> layout_error + scan_state" where
  "publish_finals z day [] s = Ok s"
| "publish_finals z day ((i, a) # m) s =
     and_then (in_day i day) (\<lambda>address.
       case da_zms a of
         Some identity \<Rightarrow>
           and_then (account_segment z s) (\<lambda>s.
             publish_finals z day m (s\<lparr>sc_segments := sc_segments s @
               [\<lparr>sa_address = address, sa_zms_identity = identity, sa_zms_bytes = fi_len identity, sa_idx_bytes = da_idx a\<rparr>]\<rparr>))
       | None \<Rightarrow>
           if da_idx a \<noteq> None then
             and_then (account_metadata (size_segment_address z) s) (\<lambda>s.
               publish_finals z day m (s\<lparr>sc_orphans := sc_orphans s @ [address]\<rparr>))
           else publish_finals z day m s)"

definition scan_day :: "type_sizes \<Rightarrow> utc_day \<Rightarrow> listing \<Rightarrow> scan_state \<Rightarrow> layout_error + scan_state" where
  "scan_day z day ls s =
     and_then (fold_listing (day_entry z day) ls (0, [], s)) (\<lambda>(_, m, s). publish_finals z day m s)"

definition month_entry :: "type_sizes \<Rightarrow> u16 \<Rightarrow> u8 \<Rightarrow> dir_entry \<Rightarrow> scan_state \<Rightarrow> layout_error + scan_state" where
  "month_entry z year month de s =
     and_then (account (length (de_name de)) s) (\<lambda>s.
     and_then (stat_no_follow_name de) (\<lambda>st.
       let foreign = (\<lambda>reason. record_foreign z (ParentMonth year month) (de_name de) st reason s)
       in case ascii_name (de_name de) of
            None \<Rightarrow> foreign NonAsciiName
          | Some name \<Rightarrow>
              (case parse_day year month name of
                 None \<Rightarrow> foreign (symlink_or_name (stat_type st))
               | Some day_number \<Rightarrow>
                   if stat_type st \<noteq> Directory then foreign (foreign_type_reason (stat_type st))
                   else
                     and_then (open_directory_at de name) (\<lambda>ls.
                     and_then (UtcDay_new year month day_number) (\<lambda>day.
                     and_then (account_metadata (size_utc_day z) s) (\<lambda>s.
                       scan_day z day ls (s\<lparr>sc_days := sc_days s @ [day]\<rparr>)))))))"

definition scan_month :: "type_sizes \<Rightarrow> u16 \<Rightarrow> u8 \<Rightarrow> listing \<Rightarrow> scan_state \<Rightarrow> layout_error + scan_state" where
  "scan_month z year month ls s = fold_listing (month_entry z year month) ls s"

definition year_entry :: "type_sizes \<Rightarrow> u16 \<Rightarrow> dir_entry \<Rightarrow> scan_state \<Rightarrow> layout_error + scan_state" where
  "year_entry z year de s =
     and_then (account (length (de_name de)) s) (\<lambda>s.
     and_then (stat_no_follow_name de) (\<lambda>st.
       let foreign = (\<lambda>reason. record_foreign z (ParentYear year) (de_name de) st reason s)
       in case ascii_name (de_name de) of
            None \<Rightarrow> foreign NonAsciiName
          | Some name \<Rightarrow>
              (case parse_month name of
                 None \<Rightarrow> foreign (symlink_or_name (stat_type st))
               | Some month \<Rightarrow>
                   if stat_type st \<noteq> Directory then foreign (foreign_type_reason (stat_type st))
                   else and_then (open_directory_at de name) (\<lambda>ls. scan_month z year month ls s))))"

definition scan_year :: "type_sizes \<Rightarrow> u16 \<Rightarrow> listing \<Rightarrow> scan_state \<Rightarrow> layout_error + scan_state" where
  "scan_year z year ls s = fold_listing (year_entry z year) ls s"

definition root_entry :: "type_sizes \<Rightarrow> dir_entry \<Rightarrow> scan_state \<Rightarrow> layout_error + scan_state" where
  "root_entry z de s =
     and_then (account (length (de_name de)) s) (\<lambda>s.
     and_then (stat_no_follow_name de) (\<lambda>st.
       let foreign = (\<lambda>reason. record_foreign z ParentRoot (de_name de) st reason s)
       in case ascii_name (de_name de) of
            None \<Rightarrow> foreign NonAsciiName
          | Some name \<Rightarrow>
              if is_control_name name then
                (if stat_type st \<noteq> RegularFile then foreign (foreign_type_reason (stat_type st)) else Ok s)
              else if path_extension name = Some ''zms'' \<or> path_extension name = Some ''idx'' then
                foreign (if stat_type st = RegularFile then UnsupportedFlatArtifact
                         else foreign_type_reason (stat_type st))
              else
                (case parse_year name of
                   None \<Rightarrow> foreign (symlink_or_name (stat_type st))
                 | Some year \<Rightarrow>
                     if stat_type st \<noteq> Directory then foreign (foreign_type_reason (stat_type st))
                     else and_then (open_directory_at de name) (\<lambda>ls. scan_year z year ls s))))"

definition scan_once :: "type_sizes \<Rightarrow> layout_limits \<Rightarrow> listing \<Rightarrow> layout_error + layout_snapshot" where
  "scan_once z l ls = and_then (fold_listing (root_entry z) ls (ScanState_new l 0)) (\<lambda>s. Ok (scan_finish s))"

definition SCAN_RACE_ATTEMPTS :: nat where "SCAN_RACE_ATTEMPTS = 4"

text \<open>
  \<open>trees k\<close> is the tree as attempt \<open>k\<close> sees it; \<open>ENOENT\<close> is 2. A vanished entry is retried until the
  last attempt.
\<close>

function scan_from :: "type_sizes \<Rightarrow> layout_limits \<Rightarrow> (nat \<Rightarrow> listing) \<Rightarrow> nat \<Rightarrow> layout_error + layout_snapshot" where
  "scan_from z l trees attempt =
     (case scan_once z l (trees attempt) of
        Inl (Io e) \<Rightarrow>
          if e = OsError 2 \<and> attempt + 1 < SCAN_RACE_ATTEMPTS then scan_from z l trees (attempt + 1) else Err (Io e)
      | r \<Rightarrow> r)"
  by pat_completeness auto
termination by (relation "measure (\<lambda>(_, _, _, attempt). SCAN_RACE_ATTEMPTS - attempt)") auto

declare scan_from.simps [simp del]

definition layout_scan :: "type_sizes \<Rightarrow> layout_limits \<Rightarrow> (nat \<Rightarrow> listing) \<Rightarrow> layout_error + layout_snapshot" where
  "layout_scan z l trees = and_then (LayoutLimits_validate l) (\<lambda>l. scan_from z l trees 0)"

end
