(* ===== verification/Layout_Walk.thy ===== *)
theory Layout_Walk
  imports Layout_Discovery
begin

text \<open>
  What each level of a successful traversal adds to its state: the artifacts of the days below it,
  within the limits.
\<close>

section \<open>Entries that count\<close>

fun kept :: "(io_error + dir_entry) list \<Rightarrow> dir_entry list" where
  "kept [] = []"
| "kept (Inl e # es) = kept es"
| "kept (Inr de # es) = (if is_dot (de_name de) then kept es else de # kept es)"

definition listing_entries :: "listing \<Rightarrow> dir_entry list" where
  "listing_entries ls = (case ls of Inl _ \<Rightarrow> [] | Inr es \<Rightarrow> kept es)"

lemma fold_entries_append:
  assumes "fold_entries f es s = Ok s'"
    and "\<And>de s s'. f de s = Ok s' \<Longrightarrow> g s' = g s @ h de"
  shows "g s' = g s @ concat (map h (kept es))"
  using assms(1)
proof (induction es arbitrary: s rule: kept.induct)
  case (3 de es)
  show ?case
  proof (cases "is_dot (de_name de)")
    case False
    then obtain s1 where "f de s = Ok s1" "fold_entries f es s1 = Ok s'"
      using 3(3) by (auto simp: and_then_Ok_iff)
    then show ?thesis using 3(2) [OF False] assms(2) False by fastforce
  qed (use 3 in simp)
qed simp_all

lemma fold_listing_append:
  assumes "fold_listing f ls s = Ok s'" "\<And>de s s'. f de s = Ok s' \<Longrightarrow> g s' = g s @ h de"
  shows "g s' = g s @ concat (map h (listing_entries ls))"
  using assms fold_entries_append [of f _ s s' g h]
  by (auto simp: fold_listing_def listing_entries_def split: sum.splits)

lemma fold_listing_inv:
  assumes "fold_listing f ls s = Ok s'" "P s" "\<And>de s s'. f de s = Ok s' \<Longrightarrow> P s \<Longrightarrow> P s'"
  shows "P s'"
proof -
  have "fold_entries f es s = Ok s' \<Longrightarrow> P s \<Longrightarrow> P s'" for es
    using assms(3) by (induction es arbitrary: s rule: kept.induct) (auto simp: and_then_Ok_iff split: if_splits)
  then show ?thesis using assms(1,2) by (auto simp: fold_listing_def split: sum.splits)
qed

section \<open>Accounting\<close>

lemma account_metadata_Ok:
  "account_metadata n s = Ok s' \<longleftrightarrow>
     s' = s\<lparr>sc_metadata := sc_metadata s + n\<rparr> \<and> sc_metadata s + n \<le> max_metadata_bytes (sc_limits s) \<and>
     sc_metadata s + n \<le> usize_max"
  by (auto simp: account_metadata_def checked_add_usize_def split: option.splits if_splits)

lemma account_Ok:
  "account n s = Ok s' \<Longrightarrow>
     \<exists>m. s' = s\<lparr>sc_visited := sc_visited s + 1, sc_metadata := m\<rparr> \<and> sc_visited s + 1 \<le> max_visited_entries (sc_limits s) \<and>
       m \<le> max_metadata_bytes (sc_limits s)"
  by (auto simp: account_def account_metadata_Ok split: option.splits if_splits)

lemma record_foreign_Ok:
  "record_foreign z p name st r s = Ok s' \<Longrightarrow>
     \<exists>m e. s' = s\<lparr>sc_metadata := m, sc_foreign := sc_foreign s @ [e]\<rparr> \<and> m \<le> max_metadata_bytes (sc_limits s)"
  by (auto simp: record_foreign_def and_then_Ok_iff account_metadata_Ok)

section \<open>One day\<close>

definition leaf_of :: "utc_day \<Rightarrow> dir_entry \<Rightarrow> (parsed_leaf \<times> file_identity \<times> string) option" where
  "leaf_of day de =
     (case (ascii_name (de_name de), de_stat de) of
        (Some name, Inr st) \<Rightarrow>
          if stat_type st = RegularFile then
            (case parse_leaf name day of Inl _ \<Rightarrow> None | Inr leaf \<Rightarrow> Some (leaf, stat_identity st, name))
          else None
      | _ \<Rightarrow> None)"

definition put_leaf :: "utc_day \<Rightarrow> dir_entry \<Rightarrow> finals \<Rightarrow> finals" where
  "put_leaf day de m =
     (case leaf_of day de of
        Some (Zms a, identity, _) \<Rightarrow> om_insert (addr_id a) ((artifacts_of (addr_id a) m)\<lparr>da_zms := Some identity\<rparr>) m
      | Some (Idx a, identity, _) \<Rightarrow> om_insert (addr_id a) ((artifacts_of (addr_id a) m)\<lparr>da_idx := Some (fi_len identity)\<rparr>) m
      | _ \<Rightarrow> m)"

definition day_finals :: "utc_day \<Rightarrow> dir_entry list \<Rightarrow> finals" where
  "day_finals day des = foldl (\<lambda>m de. put_leaf day de m) [] des"

definition temps_of :: "utc_day \<Rightarrow> dir_entry \<Rightarrow> temporary_object list" where
  "temps_of day de =
     (case leaf_of day de of
        Some (Temporary a kind, identity, name) \<Rightarrow>
          [\<lparr>to_address = a, to_kind = kind, to_identity = identity, to_file_name = name\<rparr>]
      | _ \<Rightarrow> [])"

lemma day_entry_elim:
  assumes "day_entry z day de (n, m, s) = Ok (n', m', s')"
  obtains s1 st where "account (length (de_name de)) s = Ok s1" "de_stat de = Inr st" "n' = n + 1"
      "n + 1 \<le> max_entries_per_day (sc_limits s)"
      "leaf_of day de = None" "m' = m" "\<exists>r. record_foreign z (ParentDay day) (de_name de) st r s1 = Ok s'"
  | a identity name where "account (length (de_name de)) s = Ok s'" "n' = n + 1" "n + 1 \<le> max_entries_per_day (sc_limits s)"
      "leaf_of day de = Some (Zms a, identity, name)"
      "m' = om_insert (addr_id a) ((artifacts_of (addr_id a) m)\<lparr>da_zms := Some identity\<rparr>) m"
  | a identity name where "account (length (de_name de)) s = Ok s'" "n' = n + 1" "n + 1 \<le> max_entries_per_day (sc_limits s)"
      "leaf_of day de = Some (Idx a, identity, name)"
      "m' = om_insert (addr_id a) ((artifacts_of (addr_id a) m)\<lparr>da_idx := Some (fi_len identity)\<rparr>) m"
  | a kind identity name s1 s2 where "account (length (de_name de)) s = Ok s1" "n' = n + 1"
      "n + 1 \<le> max_entries_per_day (sc_limits s)" "leaf_of day de = Some (Temporary a kind, identity, name)" "m' = m"
      "account_metadata ENTRY_METADATA_BYTES s1 = Ok s2"
      "s' = s2\<lparr>sc_temporaries := sc_temporaries s2 @
        [\<lparr>to_address = a, to_kind = kind, to_identity = identity, to_file_name = name\<rparr>]\<rparr>"
proof -
  have n: "n + 1 \<le> max_entries_per_day (sc_limits s)"
    using assms by (auto simp: day_entry_def Let_def and_then_Ok_iff split: if_splits)
  then obtain s1 where s1: "account (length (de_name de)) s = Ok s1"
    using assms by (auto simp: day_entry_def Let_def and_then_Ok_iff)
  obtain st where st: "de_stat de = Inr st"
    using assms by (auto simp: day_entry_def Let_def and_then_Ok_iff stat_no_follow_name_def split: if_splits sum.splits)
  note step = assms [unfolded day_entry_def Let_def, simplified and_then_Ok_iff]
  show ?thesis
  proof (cases "leaf_of day de")
    case None
    then have "\<exists>r. record_foreign z (ParentDay day) (de_name de) st r s1 = Ok s' \<and> n' = n + 1 \<and> m' = m"
      using step s1 st n
      by (auto simp: leaf_of_def stat_no_follow_name_def and_then_Ok_iff split: option.splits if_splits sum.splits parsed_leaf.splits)
    then show ?thesis using that(1) s1 st n None by blast
  next
    case (Some x)
    obtain leaf identity name where x: "x = (leaf, identity, name)" by (cases x)
    have leaf: "ascii_name (de_name de) = Some name" "stat_type st = RegularFile" "parse_leaf name day = Inr leaf"
      "stat_identity st = identity"
      using Some st x by (auto simp: leaf_of_def split: option.splits if_splits sum.splits)
    show ?thesis
    proof (cases leaf)
      case (Zms a)
      then show ?thesis
        using that(2) step s1 st n leaf Some x by (simp add: stat_no_follow_name_def and_then_Ok_iff)
    next
      case (Idx a)
      then show ?thesis
        using that(3) step s1 st n leaf Some x by (simp add: stat_no_follow_name_def and_then_Ok_iff)
    next
      case (Temporary a kind)
      then show ?thesis
        using that(4) step s1 st n leaf Some x by (auto simp: stat_no_follow_name_def and_then_Ok_iff)
    qed
  qed
qed

lemma day_entry_Ok:
  assumes "day_entry z day de (n, m, s) = Ok (n', m', s')"
  shows "m' = put_leaf day de m" "sc_temporaries s' = sc_temporaries s @ temps_of day de"
    "sc_segments s' = sc_segments s" "sc_orphans s' = sc_orphans s" "sc_limits s' = sc_limits s"
    "n' = n + 1" "n' \<le> max_entries_per_day (sc_limits s)"
    "sc_visited s' = sc_visited s + 1" "sc_visited s' \<le> max_visited_entries (sc_limits s)"
    "sc_metadata s' \<le> max_metadata_bytes (sc_limits s)"
proof -
  show "m' = put_leaf day de m"
    using assms by (rule day_entry_elim) (auto simp: put_leaf_def)
  show "sc_temporaries s' = sc_temporaries s @ temps_of day de"
    using assms by (rule day_entry_elim) (auto simp: temps_of_def account_metadata_Ok dest!: account_Ok record_foreign_Ok)
  show "sc_segments s' = sc_segments s" "sc_orphans s' = sc_orphans s" "sc_limits s' = sc_limits s"
    "n' = n + 1" "n' \<le> max_entries_per_day (sc_limits s)"
    "sc_visited s' = sc_visited s + 1" "sc_visited s' \<le> max_visited_entries (sc_limits s)"
    "sc_metadata s' \<le> max_metadata_bytes (sc_limits s)"
    using assms by (rule day_entry_elim, auto simp: account_metadata_Ok dest!: account_Ok record_foreign_Ok)+
qed


definition segs_of :: "utc_day \<Rightarrow> finals \<Rightarrow> segment_artifacts list" where
  "segs_of day m = concat (map (\<lambda>(i, a). case da_zms a of
      Some identity \<Rightarrow> [\<lparr>sa_address = SegmentAddress i day, sa_zms_identity = identity, sa_zms_bytes = fi_len identity,
        sa_idx_bytes = da_idx a\<rparr>]
    | None \<Rightarrow> []) m)"

definition orphans_of :: "utc_day \<Rightarrow> finals \<Rightarrow> segment_address list" where
  "orphans_of day m = concat (map (\<lambda>(i, a). if da_zms a = None \<and> da_idx a \<noteq> None then [SegmentAddress i day] else []) m)"

lemma in_day_Ok: "in_day i day = Ok a \<Longrightarrow> a = SegmentAddress i day"
  by (auto simp: in_day_def and_then_Ok_iff split: if_splits)

definition within_limits :: "scan_state \<Rightarrow> bool" where
  "within_limits s \<longleftrightarrow>
     sc_visited s \<le> max_visited_entries (sc_limits s) \<and> sc_metadata s \<le> max_metadata_bytes (sc_limits s) \<and>
     length (sc_segments s) \<le> max_segments (sc_limits s)"

lemma publish_finals_Ok:
  "publish_finals z day m s = Ok s' \<Longrightarrow>
   sc_segments s' = sc_segments s @ segs_of day m \<and> sc_orphans s' = sc_orphans s @ orphans_of day m \<and>
   sc_temporaries s' = sc_temporaries s \<and> sc_limits s' = sc_limits s \<and> (within_limits s \<longrightarrow> within_limits s')"
proof (induction m arbitrary: s)
  case (Cons x m)
  obtain i a where x: "x = (i, a)" by force
  show ?case
  proof (cases "da_zms a")
    case None
    then show ?thesis
      using Cons by (fastforce simp: x and_then_Ok_iff segs_of_def orphans_of_def account_metadata_Ok within_limits_def
          dest: in_day_Ok split: if_splits)
  next
    case (Some identity)
    then show ?thesis
      using Cons by (fastforce simp: x and_then_Ok_iff segs_of_def orphans_of_def account_segment_def account_metadata_Ok
          within_limits_def dest: in_day_Ok split: if_splits)
  qed
qed (simp add: segs_of_def orphans_of_def)

text \<open>The contents of a day, a month, a year and the tree.\<close>

definition day_segments :: "utc_day \<Rightarrow> listing \<Rightarrow> segment_artifacts list" where
  "day_segments day ls = segs_of day (day_finals day (listing_entries ls))"

definition day_orphans :: "utc_day \<Rightarrow> listing \<Rightarrow> segment_address list" where
  "day_orphans day ls = orphans_of day (day_finals day (listing_entries ls))"

definition day_temps :: "utc_day \<Rightarrow> listing \<Rightarrow> temporary_object list" where
  "day_temps day ls = concat (map (temps_of day) (listing_entries ls))"

definition dir_of :: "(string \<Rightarrow> 'k option) \<Rightarrow> dir_entry \<Rightarrow> ('k \<times> listing) option" where
  "dir_of parse de =
     (case ascii_name (de_name de) of None \<Rightarrow> None | Some name \<Rightarrow>
        (case (parse name, de_stat de) of
           (Some k, Inr st) \<Rightarrow> if stat_type st = Directory then Some (k, de_list de) else None
         | _ \<Rightarrow> None))"

definition on_dir :: "(string \<Rightarrow> 'k option) \<Rightarrow> ('k \<Rightarrow> listing \<Rightarrow> 'x list) \<Rightarrow> dir_entry \<Rightarrow> 'x list" where
  "on_dir parse f de = (case dir_of parse de of None \<Rightarrow> [] | Some (k, ls) \<Rightarrow> f k ls)"

definition tree_contents :: "(utc_day \<Rightarrow> listing \<Rightarrow> 'x list) \<Rightarrow> listing \<Rightarrow> 'x list" where
  "tree_contents f ls =
     concat (map (on_dir parse_year (\<lambda>y ls.
       concat (map (on_dir parse_month (\<lambda>m ls.
         concat (map (on_dir (parse_day y m) (\<lambda>d. f (UtcDay y m d))) (listing_entries ls)))) (listing_entries ls))))
       (listing_entries ls))"

lemma scan_day_Ok:
  assumes "scan_day z day ls s = Ok s'"
  shows "sc_segments s' = sc_segments s @ day_segments day ls" "sc_orphans s' = sc_orphans s @ day_orphans day ls"
    "sc_temporaries s' = sc_temporaries s @ day_temps day ls" "sc_limits s' = sc_limits s"
    "within_limits s \<Longrightarrow> within_limits s'"
proof -
  obtain n m s1 where fold: "fold_listing (day_entry z day) ls (0, [], s) = Ok (n, m, s1)"
    and pub: "publish_finals z day m s1 = Ok s'"
    using assms by (auto simp: scan_day_def and_then_Ok_iff)
  note entry = day_entry_Ok [where z = z and day = day]
  have temps: "sc_temporaries (snd (snd (n, m, s1))) = sc_temporaries (snd (snd (0 :: nat, [] :: finals, s))) @
      concat (map (temps_of day) (listing_entries ls))"
    by (rule fold_listing_append [OF fold]) (auto simp: entry(2))
  have same: "sc_segments s1 = sc_segments s \<and> sc_orphans s1 = sc_orphans s \<and> sc_limits s1 = sc_limits s"
    using fold_listing_inv [OF fold, of "\<lambda>(n, m, s1). sc_segments s1 = sc_segments s \<and> sc_orphans s1 = sc_orphans s \<and>
        sc_limits s1 = sc_limits s"] entry(3-5) by auto
  have lim: "within_limits s1" if "within_limits s"
    using fold_listing_inv [OF fold, of "\<lambda>(n, m, s1). within_limits s1"] that entry(3,5,9,10)
    by (fastforce simp: within_limits_def)
  have finals: "m = day_finals day (listing_entries ls)"
  proof -
    have "fold_entries (day_entry z day) es (k, m0, s0) = Ok (n, m, s1) \<Longrightarrow>
        m = foldl (\<lambda>m de. put_leaf day de m) m0 (kept es)" for es k m0 s0
    proof (induction es arbitrary: k m0 s0 rule: kept.induct)
      case (3 de es)
      show ?case
      proof (cases "is_dot (de_name de)")
        case False
        then obtain k1 m1 s2 where "day_entry z day de (k, m0, s0) = Ok (k1, m1, s2)"
          "fold_entries (day_entry z day) es (k1, m1, s2) = Ok (n, m, s1)"
          using 3(3) by (auto simp: and_then_Ok_iff)
        then show ?thesis using 3(2) [OF False] entry(1) False by simp
      qed (use 3 in simp)
    qed simp_all
    then show ?thesis using fold by (auto simp: fold_listing_def day_finals_def listing_entries_def split: sum.splits)
  qed
  note published = publish_finals_Ok [OF pub]
  show "sc_segments s' = sc_segments s @ day_segments day ls" "sc_orphans s' = sc_orphans s @ day_orphans day ls"
    "sc_temporaries s' = sc_temporaries s @ day_temps day ls" "sc_limits s' = sc_limits s"
    "within_limits s \<Longrightarrow> within_limits s'"
    using published same temps lim by (simp_all add: day_segments_def day_orphans_def day_temps_def finals)
qed


section \<open>The levels above a day\<close>

definition adds ::
    "segment_artifacts list \<Rightarrow> segment_address list \<Rightarrow> temporary_object list \<Rightarrow> scan_state \<Rightarrow> scan_state \<Rightarrow> bool" where
  "adds ss os ts s s' \<longleftrightarrow>
     sc_segments s' = sc_segments s @ ss \<and> sc_orphans s' = sc_orphans s @ os \<and>
     sc_temporaries s' = sc_temporaries s @ ts \<and> sc_limits s' = sc_limits s \<and> (within_limits s \<longrightarrow> within_limits s')"

lemma adds_trans: "adds ss os ts s s1 \<Longrightarrow> adds ss' os' ts' s1 s2 \<Longrightarrow> adds (ss @ ss') (os @ os') (ts @ ts') s s2"
  by (simp add: adds_def)

lemma adds_refl: "adds [] [] [] s s"
  by (simp add: adds_def)

lemma account_adds: "account n s = Ok s' \<Longrightarrow> adds [] [] [] s s'"
  by (auto simp: adds_def within_limits_def dest: account_Ok)

lemma account_metadata_adds: "account_metadata n s = Ok s' \<Longrightarrow> adds [] [] [] s s'"
  by (simp add: adds_def within_limits_def account_metadata_Ok)

lemma record_foreign_adds: "record_foreign z p name st r s = Ok s' \<Longrightarrow> adds [] [] [] s s'"
  by (auto simp: adds_def within_limits_def dest: record_foreign_Ok)

lemma scan_day_adds: "scan_day z day ls s = Ok s' \<Longrightarrow> adds (day_segments day ls) (day_orphans day ls) (day_temps day ls) s s'"
  by (simp add: adds_def scan_day_Ok)

lemma fold_listing_adds:
  assumes "fold_listing f ls s = Ok s'"
    and step: "\<And>de s s'. f de s = Ok s' \<Longrightarrow> adds (hs de) (ho de) (ht de) s s'"
  shows "adds (concat (map hs (listing_entries ls))) (concat (map ho (listing_entries ls)))
    (concat (map ht (listing_entries ls))) s s'"
proof -
  have g: "sc_segments s' = sc_segments s @ concat (map hs (listing_entries ls))"
    "sc_orphans s' = sc_orphans s @ concat (map ho (listing_entries ls))"
    "sc_temporaries s' = sc_temporaries s @ concat (map ht (listing_entries ls))"
    using step by (intro fold_listing_append [OF assms(1)]; simp add: adds_def)+
  moreover have "sc_limits s' = sc_limits s"
    by (rule fold_listing_inv [OF assms(1), of "\<lambda>t. sc_limits t = sc_limits s"]) (auto simp: adds_def dest: step)
  moreover have "within_limits s \<longrightarrow> within_limits s'"
    using fold_listing_inv [OF assms(1), of within_limits] step by (auto simp: adds_def)
  ultimately show ?thesis by (simp add: adds_def)
qed

lemma open_directory_at_Ok: "open_directory_at de name = Ok ls \<Longrightarrow> ls = de_list de"
  by (auto simp: open_directory_at_def split: sum.splits)

lemma month_entry_adds:
  assumes "month_entry z y m de s = Ok s'"
  shows "adds (on_dir (parse_day y m) (\<lambda>d. day_segments (UtcDay y m d)) de)
    (on_dir (parse_day y m) (\<lambda>d. day_orphans (UtcDay y m d)) de)
    (on_dir (parse_day y m) (\<lambda>d. day_temps (UtcDay y m d)) de) s s'"
proof -
  obtain s1 st where s1: "account (length (de_name de)) s = Ok s1" and st: "de_stat de = Inr st"
    using assms by (auto simp: month_entry_def Let_def and_then_Ok_iff stat_no_follow_name_def split: sum.splits)
  note step = assms [unfolded month_entry_def Let_def, simplified s1 st stat_no_follow_name_def, simplified]
  note pre = adds_trans [OF account_adds [OF s1], simplified]
  show ?thesis
  proof (cases "dir_of (parse_day y m) de")
    case None
    then show ?thesis
      using step st by (auto simp: on_dir_def dir_of_def split: option.splits if_splits dest!: record_foreign_adds intro: pre)
  next
    case (Some x)
    then obtain d where x: "x = (d, de_list de)" by (auto simp: dir_of_def split: option.splits sum.splits if_splits)
    then obtain s2 where "account_metadata (size_utc_day z) s1 = Ok s2"
      "scan_day z (UtcDay y m d) (de_list de) (s2\<lparr>sc_days := sc_days s2 @ [UtcDay y m d]\<rparr>) = Ok s'"
      using step st Some
      by (auto simp: dir_of_def and_then_Ok_iff UtcDay_new_Ok dest!: open_directory_at_Ok split: option.splits if_splits)
    then have "adds (day_segments (UtcDay y m d) (de_list de)) (day_orphans (UtcDay y m d) (de_list de))
        (day_temps (UtcDay y m d) (de_list de)) s1 s'"
      using adds_trans [OF account_metadata_adds] by (fastforce simp: adds_def within_limits_def dest!: scan_day_adds account_metadata_adds)
    then show ?thesis using pre Some x by (simp add: on_dir_def)
  qed
qed

definition month_contents :: "(utc_day \<Rightarrow> listing \<Rightarrow> 'x list) \<Rightarrow> u16 \<Rightarrow> u8 \<Rightarrow> listing \<Rightarrow> 'x list" where
  "month_contents f y m ls = concat (map (on_dir (parse_day y m) (\<lambda>d. f (UtcDay y m d))) (listing_entries ls))"

definition year_contents :: "(utc_day \<Rightarrow> listing \<Rightarrow> 'x list) \<Rightarrow> u16 \<Rightarrow> listing \<Rightarrow> 'x list" where
  "year_contents f y ls = concat (map (on_dir parse_month (month_contents f y)) (listing_entries ls))"

lemma scan_month_adds:
  "scan_month z y m ls s = Ok s' \<Longrightarrow>
     adds (month_contents day_segments y m ls) (month_contents day_orphans y m ls) (month_contents day_temps y m ls) s s'"
  unfolding scan_month_def month_contents_def by (erule fold_listing_adds) (rule month_entry_adds)

lemma tree_contents_year: "tree_contents f ls = concat (map (on_dir parse_year (year_contents f)) (listing_entries ls))"
  by (simp add: tree_contents_def year_contents_def [abs_def] month_contents_def [abs_def])

lemma year_entry_adds:
  assumes "year_entry z y de s = Ok s'"
  shows "adds (on_dir parse_month (month_contents day_segments y) de) (on_dir parse_month (month_contents day_orphans y) de)
    (on_dir parse_month (month_contents day_temps y) de) s s'"
proof -
  obtain s1 st where s1: "account (length (de_name de)) s = Ok s1" and st: "de_stat de = Inr st"
    using assms by (auto simp: year_entry_def Let_def and_then_Ok_iff stat_no_follow_name_def split: sum.splits)
  note step = assms [unfolded year_entry_def Let_def, simplified s1 st stat_no_follow_name_def, simplified]
  note pre = adds_trans [OF account_adds [OF s1], simplified]
  show ?thesis
  proof (cases "dir_of parse_month de")
    case None
    then show ?thesis
      using step st by (auto simp: on_dir_def dir_of_def split: option.splits if_splits dest!: record_foreign_adds intro: pre)
  next
    case (Some x)
    then obtain m where x: "x = (m, de_list de)" by (auto simp: dir_of_def split: option.splits sum.splits if_splits)
    then have "scan_month z y m (de_list de) s1 = Ok s'"
      using step st Some by (auto simp: dir_of_def and_then_Ok_iff dest!: open_directory_at_Ok split: option.splits if_splits)
    from scan_month_adds [OF this] show ?thesis using pre Some x by (simp add: on_dir_def month_contents_def)
  qed
qed

lemma scan_year_adds:
  "scan_year z y ls s = Ok s' \<Longrightarrow>
     adds (year_contents day_segments y ls) (year_contents day_orphans y ls) (year_contents day_temps y ls) s s'"
  unfolding scan_year_def year_contents_def by (erule fold_listing_adds) (rule year_entry_adds)

text \<open>A year directory is neither a control file nor a flat artifact.\<close>

lemma parse_year_digits: "parse_year name = Some y \<Longrightarrow> length name = 4 \<and> list_all is_ascii_digit name"
  by (auto simp: parse_year_def split: if_splits)

lemma digits_no_extension:
  assumes "list_all is_ascii_digit name"
  shows "path_extension name = None"
proof -
  have "takeWhile (\<lambda>c. c \<noteq> CHR ''.'') (rev name) = rev name"
    using assms by (subst takeWhile_eq_all_conv) (auto simp: list_all_iff is_ascii_digit_def)
  show ?thesis unfolding path_extension_def Let_def \<open>takeWhile _ _ = _\<close> by simp
qed

lemma control_not_year: "is_control_name name \<Longrightarrow> parse_year name = None"
  by (auto simp: is_control_name_def ACTIVE_JOURNAL_NAME_def WRITER_OWNER_LOCK_NAME_def INDEX_OWNER_LOCK_NAME_def
      LOG_OFFSETS_NAME_def LOG_OFFSETS_TEMP_NAME_def SEAL_SEED_NAME_def SEAL_SEED_TEMP_NAME_def parse_year_def)

lemma root_entry_adds:
  assumes "root_entry z de s = Ok s'"
  shows "adds (on_dir parse_year (year_contents day_segments) de) (on_dir parse_year (year_contents day_orphans) de)
    (on_dir parse_year (year_contents day_temps) de) s s'"
proof -
  obtain s1 st where s1: "account (length (de_name de)) s = Ok s1" and st: "de_stat de = Inr st"
    using assms by (auto simp: root_entry_def Let_def and_then_Ok_iff stat_no_follow_name_def split: sum.splits)
  note step = assms [unfolded root_entry_def Let_def, simplified s1 st stat_no_follow_name_def, simplified]
  note pre = adds_trans [OF account_adds [OF s1], simplified]
  show ?thesis
  proof (cases "dir_of parse_year de")
    case None
    then show ?thesis
      using step st by (auto simp: on_dir_def dir_of_def split: option.splits if_splits dest!: record_foreign_adds
          intro: pre adds_refl)
  next
    case (Some x)
    then obtain y name where x: "x = (y, de_list de)" and name: "ascii_name (de_name de) = Some name" "parse_year name = Some y"
      and dir: "stat_type st = Directory"
      using st by (auto simp: dir_of_def split: option.splits sum.splits if_splits)
    have "\<not> is_control_name name" using name(2) control_not_year by force
    moreover have "path_extension name = None" using name(2) by (auto dest: parse_year_digits intro: digits_no_extension)
    ultimately have "scan_year z y (de_list de) s1 = Ok s'"
      using step name dir by (auto simp: and_then_Ok_iff dest!: open_directory_at_Ok split: if_splits)
    from scan_year_adds [OF this] show ?thesis using pre Some x by (simp add: on_dir_def)
  qed
qed

lemma scan_once_Ok:
  assumes "scan_once z l ls = Ok snap"
  obtains s where "snap = scan_finish s" "sc_segments s = tree_contents day_segments ls"
    "sc_orphans s = tree_contents day_orphans ls" "sc_temporaries s = tree_contents day_temps ls"
    "sc_limits s = l" "within_limits s"
proof -
  obtain s where s: "fold_listing (root_entry z) ls (ScanState_new l 0) = Ok s" "snap = scan_finish s"
    using assms by (auto simp: scan_once_def and_then_Ok_iff)
  have "adds (tree_contents day_segments ls) (tree_contents day_orphans ls) (tree_contents day_temps ls) (ScanState_new l 0) s"
    unfolding tree_contents_year by (rule fold_listing_adds [OF s(1) root_entry_adds])
  moreover have "within_limits (ScanState_new l 0)" by (simp add: within_limits_def ScanState_new_def)
  ultimately show ?thesis using that [OF s(2)] by (simp add: adds_def ScanState_new_def)
qed

end
