(* ===== verification/Layout_Inventory.thy ===== *)
theory Layout_Inventory
  imports Layout_Walk
begin

text \<open>
  What a successful traversal returns: exactly the canonical files of the tree, found by their paths,
  paired and sorted, within the limits.
\<close>

section \<open>Lookup by path\<close>

text \<open>The entry of a directory with a given name, and what the path of a segment leads to.\<close>

definition entry_named :: "dir_entry list \<Rightarrow> string \<Rightarrow> dir_entry option" where
  "entry_named des name = find (\<lambda>de. ascii_name (de_name de) = Some name) des"

definition regular_file :: "dir_entry list \<Rightarrow> string \<Rightarrow> file_identity option" where
  "regular_file des name =
     (case entry_named des name of
        None \<Rightarrow> None
      | Some de \<Rightarrow>
          (case de_stat de of
             Inl _ \<Rightarrow> None
           | Inr st \<Rightarrow> if stat_type st = RegularFile then Some (stat_identity st) else None))"

definition sub_directory :: "listing \<Rightarrow> string \<Rightarrow> listing option" where
  "sub_directory ls name =
     (case entry_named (listing_entries ls) name of
        None \<Rightarrow> None
      | Some de \<Rightarrow>
          (case de_stat de of
             Inl _ \<Rightarrow> None
           | Inr st \<Rightarrow> if stat_type st = Directory then Some (de_list de) else None))"

definition day_directory :: "listing \<Rightarrow> utc_day \<Rightarrow> listing option" where
  "day_directory tree day =
     Option.bind (sub_directory tree (year_component day)) (\<lambda>ls.
     Option.bind (sub_directory ls (month_component day)) (\<lambda>ls. sub_directory ls (day_component day)))"

definition file_in_day :: "listing \<Rightarrow> utc_day \<Rightarrow> string \<Rightarrow> file_identity option" where
  "file_in_day tree day name =
     (case day_directory tree day of None \<Rightarrow> None | Some ls \<Rightarrow> regular_file (listing_entries ls) name)"

definition names_distinct :: "listing \<Rightarrow> bool" where
  "names_distinct ls \<longleftrightarrow> distinct (map de_name (listing_entries ls))"

text \<open>A file system names each entry of a directory once.\<close>

fun tree_distinct :: "nat \<Rightarrow> listing \<Rightarrow> bool" where
  "tree_distinct 0 ls = names_distinct ls"
| "tree_distinct (Suc depth) ls =
     (names_distinct ls \<and> list_all (\<lambda>de. tree_distinct depth (de_list de)) (listing_entries ls))"

lemma ascii_name_inject:
  assumes "ascii_name n = Some s" "ascii_name n' = Some s"
  shows "n = n'"
proof -
  have inj: "inj_on (\<lambda>b :: u8. char_of (unat b)) {b. b < 128}"
  proof (rule inj_onI)
    fix a b :: u8 assume "a \<in> {b. b < 128}" "b \<in> {b. b < 128}" and eq: "(char_of (unat a) :: char) = char_of (unat b)"
    have "of_char (char_of (unat a) :: char) = (of_char (char_of (unat b) :: char) :: nat)" using eq by simp
    moreover have "unat a < 256" "unat b < 256" using unat_lt2p [of a] unat_lt2p [of b] by simp_all
    ultimately have "unat a = unat b" by simp
    then show "a = b" using word_unat_eq_iff by blast
  qed
  have "set n \<subseteq> {b. b < 128}" "set n' \<subseteq> {b. b < 128}" "map (\<lambda>b. char_of (unat b)) n = map (\<lambda>b. (char_of (unat b) :: char)) n'"
    using assms by (auto simp: ascii_name_def list_all_iff split: if_splits)
  then show ?thesis using inj map_inj_on [of _ n n'] by (metis (no_types, lifting) inj_on_subset Un_subset_iff)
qed

lemma entry_named_iff:
  assumes "distinct (map de_name des)"
  shows "entry_named des name = Some de \<longleftrightarrow> de \<in> set des \<and> ascii_name (de_name de) = Some name"
proof
  assume "entry_named des name = Some de"
  then show "de \<in> set des \<and> ascii_name (de_name de) = Some name"
    by (auto simp: entry_named_def find_Some_iff)
next
  assume de: "de \<in> set des \<and> ascii_name (de_name de) = Some name"
  then obtain de' where de': "entry_named des name = Some de'"
    unfolding entry_named_def by (metis (mono_tags, lifting) find_None_iff not_None_eq)
  then have "de' \<in> set des" "ascii_name (de_name de') = Some name" by (auto simp: entry_named_def find_Some_iff)
  then have "de_name de' = de_name de" using de ascii_name_inject by blast
  then have "de' = de" using assms de \<open>de' \<in> set des\<close> by (simp add: distinct_map inj_on_def)
  then show "entry_named des name = Some de" using de' by simp
qed

lemma sub_directory_iff:
  assumes "names_distinct ls" "parse name = Some k"
  shows "sub_directory ls name = Some sub \<longleftrightarrow>
     (\<exists>de \<in> set (listing_entries ls). ascii_name (de_name de) = Some name \<and> dir_of parse de = Some (k, sub))"
proof -
  have dir: "dir_of parse de = Some (k, sub) \<longleftrightarrow>
      (case de_stat de of Inl _ \<Rightarrow> False | Inr st \<Rightarrow> stat_type st = Directory \<and> sub = de_list de)"
    if "ascii_name (de_name de) = Some name" for de
    using assms(2) that by (auto simp: dir_of_def split: sum.splits)
  note named = entry_named_iff [OF assms(1) [unfolded names_distinct_def], of name]
  show ?thesis
  proof (cases "entry_named (listing_entries ls) name")
    case None
    then show ?thesis using named by (auto simp: sub_directory_def)
  next
    case (Some de)
    then have de: "de \<in> set (listing_entries ls)" "ascii_name (de_name de) = Some name" using named by simp_all
    have "de' = de" if "de' \<in> set (listing_entries ls)" "ascii_name (de_name de') = Some name" for de'
      using that named [of de'] Some by simp
    moreover have "sub_directory ls name = Some sub \<longleftrightarrow> dir_of parse de = Some (k, sub)"
      unfolding dir [OF de(2)] sub_directory_def Some by (cases "de_stat de") auto
    ultimately show ?thesis using de by blast
  qed
qed

lemma on_dir_iff:
  assumes "names_distinct ls"
  shows "x \<in> set (concat (map (on_dir parse f) (listing_entries ls))) \<longleftrightarrow>
     (\<exists>name k sub. parse name = Some k \<and> sub_directory ls name = Some sub \<and> x \<in> set (f k sub))"
proof -
  have "x \<in> set (concat (map (on_dir parse f) (listing_entries ls))) \<longleftrightarrow>
     (\<exists>de \<in> set (listing_entries ls). \<exists>name k sub. ascii_name (de_name de) = Some name \<and> parse name = Some k \<and>
        dir_of parse de = Some (k, sub) \<and> x \<in> set (f k sub))"
    by (auto simp: on_dir_def dir_of_def split: option.splits sum.splits if_splits)
  then show ?thesis using sub_directory_iff [OF assms] by metis
qed

section \<open>The files of a day\<close>

definition own_file :: "dir_entry \<Rightarrow> file_identity option" where
  "own_file de =
     (case de_stat de of Inl _ \<Rightarrow> None | Inr st \<Rightarrow> if stat_type st = RegularFile then Some (stat_identity st) else None)"

lemma leaf_of_iff:
  "leaf_of day de = Some (leaf, f, name) \<longleftrightarrow>
     own_file de = Some f \<and> ascii_name (de_name de) = Some name \<and> parse_leaf name day = Ok leaf"
  by (auto simp: leaf_of_def own_file_def split: option.splits sum.splits if_splits)

definition day_address :: "segment_id \<Rightarrow> utc_day \<Rightarrow> bool" where
  "day_address i day \<longleftrightarrow> SegmentAddress_new i = Ok (SegmentAddress i day)"

lemma leaf_of_Zms:
  "(\<exists>name. leaf_of day de = Some (Zms (SegmentAddress i day), f, name)) \<longleftrightarrow>
     day_address i day \<and> own_file de = Some f \<and> ascii_name (de_name de) = Some (zms_name (SegmentAddress i day))"
  by (auto simp: leaf_of_iff parse_leaf_exact day_address_def)

lemma leaf_of_Idx:
  "(\<exists>name. leaf_of day de = Some (Idx (SegmentAddress i day), f, name)) \<longleftrightarrow>
     day_address i day \<and> own_file de = Some f \<and> ascii_name (de_name de) = Some (idx_name (SegmentAddress i day))"
  by (auto simp: leaf_of_iff parse_leaf_exact day_address_def)

lemma leaf_of_day:
  assumes "leaf_of day de = Some (leaf, f, name)"
  shows "leaf_address leaf = SegmentAddress (addr_id (leaf_address leaf)) day" "day_address (addr_id (leaf_address leaf)) day"
  using assms by (cases "leaf_address leaf"; simp add: leaf_of_iff parse_leaf_exact day_address_def; metis segment_address.collapse)+

lemma find_snoc: "find P (xs @ [x]) = (case find P xs of Some y \<Rightarrow> Some y | None \<Rightarrow> if P x then Some x else None)"
  by (induction xs) auto

lemma regular_file_snoc:
  assumes "distinct (map de_name (des @ [de]))"
  shows "regular_file (des @ [de]) name = (if ascii_name (de_name de) = Some name then own_file de else regular_file des name)"
    "ascii_name (de_name de) = Some name \<Longrightarrow> regular_file des name = None"
proof -
  note named = entry_named_iff [OF assms] entry_named_iff [of des]
  have none: "entry_named des name = None" if "ascii_name (de_name de) = Some name"
  proof (rule ccontr)
    assume "entry_named des name \<noteq> None"
    then obtain de' where "de' \<in> set des" "ascii_name (de_name de') = Some name"
      using assms named(2) by fastforce
    then show False using assms that ascii_name_inject by fastforce
  qed
  then show "ascii_name (de_name de) = Some name \<Longrightarrow> regular_file des name = None"
    by (simp add: regular_file_def)
  show "regular_file (des @ [de]) name = (if ascii_name (de_name de) = Some name then own_file de else regular_file des name)"
  proof (cases "ascii_name (de_name de) = Some name")
    case True
    then have "entry_named (des @ [de]) name = Some de" using named(1) by simp
    then show ?thesis using True by (simp add: regular_file_def own_file_def)
  next
    case False
    then have "entry_named (des @ [de]) name = entry_named des name"
      by (simp add: entry_named_def find_snoc split: option.split)
    then show ?thesis using False by (simp add: regular_file_def)
  qed
qed

lemma regular_zms_snoc:
  assumes "distinct (map de_name (des @ [de]))" "day_address i day"
  shows "regular_file (des @ [de]) (zms_name (SegmentAddress i day)) =
    (case leaf_of day de of
       Some (Zms a, f, _) \<Rightarrow> if addr_id a = i then Some f else regular_file des (zms_name (SegmentAddress i day))
     | _ \<Rightarrow> regular_file des (zms_name (SegmentAddress i day)))" (is "_ = ?rhs")
proof (cases "ascii_name (de_name de) = Some (zms_name (SegmentAddress i day))")
  case True
  show ?thesis
  proof (cases "own_file de")
    case None
    then have "leaf_of day de = None" using leaf_of_iff by (cases "leaf_of day de") auto
    then show ?thesis using regular_file_snoc [OF assms(1)] True None by simp
  next
    case (Some f)
    then obtain name where "leaf_of day de = Some (Zms (SegmentAddress i day), f, name)"
      using leaf_of_Zms assms(2) True by blast
    then show ?thesis using regular_file_snoc [OF assms(1)] True Some by simp
  qed
next
  case False
  have "addr_id a \<noteq> i" if "leaf_of day de = Some (Zms a, f, name)" for a f name
    using that leaf_of_day(1) [OF that] leaf_of_Zms [of day de i f] False by auto
  then have "?rhs = regular_file des (zms_name (SegmentAddress i day))"
    by (auto split: option.split parsed_leaf.split)
  then show ?thesis using regular_file_snoc(1) [OF assms(1)] False by simp
qed

lemma regular_idx_snoc:
  assumes "distinct (map de_name (des @ [de]))" "day_address i day"
  shows "regular_file (des @ [de]) (idx_name (SegmentAddress i day)) =
    (case leaf_of day de of
       Some (Idx a, f, _) \<Rightarrow> if addr_id a = i then Some f else regular_file des (idx_name (SegmentAddress i day))
     | _ \<Rightarrow> regular_file des (idx_name (SegmentAddress i day)))" (is "_ = ?rhs")
proof (cases "ascii_name (de_name de) = Some (idx_name (SegmentAddress i day))")
  case True
  show ?thesis
  proof (cases "own_file de")
    case None
    then have "leaf_of day de = None" using leaf_of_iff by (cases "leaf_of day de") auto
    then show ?thesis using regular_file_snoc [OF assms(1)] True None by simp
  next
    case (Some f)
    then obtain name where "leaf_of day de = Some (Idx (SegmentAddress i day), f, name)"
      using leaf_of_Idx assms(2) True by blast
    then show ?thesis using regular_file_snoc [OF assms(1)] True Some by simp
  qed
next
  case False
  have "addr_id a \<noteq> i" if "leaf_of day de = Some (Idx a, f, name)" for a f name
    using that leaf_of_day(1) [OF that] leaf_of_Idx [of day de i f] False by auto
  then have "?rhs = regular_file des (idx_name (SegmentAddress i day))"
    by (auto split: option.split parsed_leaf.split)
  then show ?thesis using regular_file_snoc(1) [OF assms(1)] False by simp
qed

lemma artifacts_of_insert:
  "om_valid m \<Longrightarrow> artifacts_of i (om_insert j a m) = (if i = j then a else artifacts_of i m)"
  by (simp add: artifacts_of_def om_get_insert)

lemma day_finals_artifacts:
  assumes "distinct (map de_name des)"
  shows "om_valid (day_finals day des) \<and>
    artifacts_of i (day_finals day des) =
      (if day_address i day
       then \<lparr>da_zms = regular_file des (zms_name (SegmentAddress i day)),
             da_idx = map_option fi_len (regular_file des (idx_name (SegmentAddress i day)))\<rparr>
       else no_artifacts)"
  using assms
proof (induction des arbitrary: i rule: rev_induct)
  case Nil
  show ?case by (simp add: day_finals_def artifacts_of_def no_artifacts_def regular_file_def entry_named_def)
next
  case (snoc de des)
  have m: "om_valid (day_finals day des)" and IH: "artifacts_of i (day_finals day des) =
      (if day_address i day
       then \<lparr>da_zms = regular_file des (zms_name (SegmentAddress i day)),
             da_idx = map_option fi_len (regular_file des (idx_name (SegmentAddress i day)))\<rparr>
       else no_artifacts)" for i
    using snoc by auto
  have step: "day_finals day (des @ [de]) = put_leaf day de (day_finals day des)" by (simp add: day_finals_def)
  note snoc_simps = regular_zms_snoc [OF snoc.prems] regular_idx_snoc [OF snoc.prems]
  show ?case
  proof (cases "leaf_of day de")
    case None
    then show ?thesis using m IH [of i] snoc_simps by (simp add: step put_leaf_def)
  next
    case (Some x)
    obtain leaf f name where x: "x = (leaf, f, name)" by (cases x)
    note leaf = leaf_of_day(2) [OF Some [unfolded x]]
    show ?thesis
      using m IH Some x leaf snoc_simps
      by (cases leaf) (auto simp: step put_leaf_def om_valid_insert artifacts_of_insert)
  qed
qed

section \<open>Membership\<close>

definition segment_record :: "segment_id \<Rightarrow> utc_day \<Rightarrow> file_identity \<Rightarrow> u64 option \<Rightarrow> segment_artifacts" where
  "segment_record i day f n =
     \<lparr>sa_address = SegmentAddress i day, sa_zms_identity = f, sa_zms_bytes = fi_len f, sa_idx_bytes = n\<rparr>"

lemma artifacts_of_map:
  "(\<exists>a. map_of m i = Some a \<and> da_zms a = Some f \<and> x = segment_record i day f (da_idx a)) \<longleftrightarrow>
     da_zms (artifacts_of i m) = Some f \<and> x = segment_record i day f (da_idx (artifacts_of i m))"
  by (cases "map_of m i") (auto simp: artifacts_of_def no_artifacts_def)

lemma segs_of_iff:
  assumes "om_valid m"
  shows "x \<in> set (segs_of day m) \<longleftrightarrow>
    (\<exists>i f. da_zms (artifacts_of i m) = Some f \<and> x = segment_record i day f (da_idx (artifacts_of i m)))"
proof -
  have "x \<in> set (segs_of day m) \<longleftrightarrow>
      (\<exists>p \<in> set m. x \<in> set (case da_zms (snd p) of None \<Rightarrow> [] | Some f \<Rightarrow> [segment_record (fst p) day f (da_idx (snd p))]))"
    unfolding segs_of_def by (simp add: case_prod_beta segment_record_def)
  also have "\<dots> \<longleftrightarrow> (\<exists>p \<in> set m. \<exists>f. da_zms (snd p) = Some f \<and> x = segment_record (fst p) day f (da_idx (snd p)))"
  proof (rule bex_cong [OF refl])
    fix p show "x \<in> set (case da_zms (snd p) of None \<Rightarrow> [] | Some f \<Rightarrow> [segment_record (fst p) day f (da_idx (snd p))]) \<longleftrightarrow>
        (\<exists>f. da_zms (snd p) = Some f \<and> x = segment_record (fst p) day f (da_idx (snd p)))"
      by (cases "da_zms (snd p)") auto
  qed
  also have "\<dots> \<longleftrightarrow> (\<exists>i f a. map_of m i = Some a \<and> da_zms a = Some f \<and> x = segment_record i day f (da_idx a))"
    unfolding om_iter_get [OF assms, symmetric] by force
  finally show ?thesis unfolding artifacts_of_map .
qed

lemma orphans_of_iff:
  assumes "om_valid m"
  shows "x \<in> set (orphans_of day m) \<longleftrightarrow>
    (\<exists>i. da_zms (artifacts_of i m) = None \<and> da_idx (artifacts_of i m) \<noteq> None \<and> x = SegmentAddress i day)"
proof -
  have "x \<in> set (orphans_of day m) \<longleftrightarrow> (\<exists>i a. map_of m i = Some a \<and> da_zms a = None \<and> da_idx a \<noteq> None \<and> x = SegmentAddress i day)"
    by (auto simp: orphans_of_def om_iter_get [OF assms, symmetric])
  also have "\<dots> \<longleftrightarrow> (\<exists>i. da_zms (artifacts_of i m) = None \<and> da_idx (artifacts_of i m) \<noteq> None \<and> x = SegmentAddress i day)"
  proof -
    have "(\<exists>a. map_of m i = Some a \<and> da_zms a = None \<and> da_idx a \<noteq> None) \<longleftrightarrow>
        da_zms (artifacts_of i m) = None \<and> da_idx (artifacts_of i m) \<noteq> None" for i
      by (cases "map_of m i") (auto simp: artifacts_of_def no_artifacts_def)
    then show ?thesis by blast
  qed
  finally show ?thesis .
qed

lemma day_segments_iff:
  assumes "names_distinct ls"
  shows "x \<in> set (day_segments day ls) \<longleftrightarrow>
    (\<exists>i f. day_address i day \<and> regular_file (listing_entries ls) (zms_name (SegmentAddress i day)) = Some f \<and>
      x = segment_record i day f (map_option fi_len (regular_file (listing_entries ls) (idx_name (SegmentAddress i day)))))"
proof -
  note art = day_finals_artifacts [OF assms [unfolded names_distinct_def], of day]
  show ?thesis
    unfolding day_segments_def segs_of_iff [OF art [THEN conjunct1]] art [THEN conjunct2]
    by (auto simp: no_artifacts_def split: if_splits)
qed

lemma day_orphans_iff:
  assumes "names_distinct ls"
  shows "a \<in> set (day_orphans day ls) \<longleftrightarrow>
    day_address (addr_id a) day \<and> a = SegmentAddress (addr_id a) day \<and>
    regular_file (listing_entries ls) (zms_name a) = None \<and> regular_file (listing_entries ls) (idx_name a) \<noteq> None"
proof -
  note art = day_finals_artifacts [OF assms [unfolded names_distinct_def], of day]
  show ?thesis
    unfolding day_orphans_def orphans_of_iff [OF art [THEN conjunct1]] art [THEN conjunct2]
    by (cases a) (auto simp: no_artifacts_def split: if_splits)
qed

lemma regular_file_iff:
  assumes "names_distinct ls"
  shows "regular_file (listing_entries ls) name = Some f \<longleftrightarrow>
    (\<exists>de \<in> set (listing_entries ls). ascii_name (de_name de) = Some name \<and> own_file de = Some f)"
proof -
  note named = entry_named_iff [OF assms [unfolded names_distinct_def], of name]
  show ?thesis
  proof (cases "entry_named (listing_entries ls) name")
    case None
    then show ?thesis using named by (auto simp: regular_file_def)
  next
    case (Some de)
    then have "regular_file (listing_entries ls) name = own_file de" by (simp add: regular_file_def own_file_def)
    moreover have "de' = de" if "de' \<in> set (listing_entries ls)" "ascii_name (de_name de') = Some name" for de'
      using that named [of de'] Some by simp
    ultimately show ?thesis using named [of de] Some by auto
  qed
qed

lemma day_temps_iff:
  assumes "names_distinct ls"
  shows "x \<in> set (day_temps day ls) \<longleftrightarrow>
    addr_day (to_address x) = day \<and> day_address (addr_id (to_address x)) day \<and>
    leaf_names (Temporary (to_address x) (to_kind x)) (to_file_name x) \<and>
    regular_file (listing_entries ls) (to_file_name x) = Some (to_identity x)"
proof -
  have "x \<in> set (day_temps day ls) \<longleftrightarrow>
      (\<exists>de \<in> set (listing_entries ls). leaf_of day de =
         Some (Temporary (to_address x) (to_kind x), to_identity x, to_file_name x))"
  proof -
    have "x \<in> set (temps_of day de) \<longleftrightarrow>
        leaf_of day de = Some (Temporary (to_address x) (to_kind x), to_identity x, to_file_name x)" for de
      by (cases x) (auto simp: temps_of_def split: option.splits parsed_leaf.splits)
    then show ?thesis by (simp add: day_temps_def)
  qed
  also have "\<dots> \<longleftrightarrow> parse_leaf (to_file_name x) day = Ok (Temporary (to_address x) (to_kind x)) \<and>
      regular_file (listing_entries ls) (to_file_name x) = Some (to_identity x)"
    by (auto simp: leaf_of_iff regular_file_iff [OF assms])
  also have "\<dots> \<longleftrightarrow> addr_day (to_address x) = day \<and> day_address (addr_id (to_address x)) day \<and>
      leaf_names (Temporary (to_address x) (to_kind x)) (to_file_name x) \<and>
      regular_file (listing_entries ls) (to_file_name x) = Some (to_identity x)"
    by (cases "to_address x") (auto simp: parse_leaf_exact day_address_def simp del: leaf_names.simps)
  finally show ?thesis .
qed

lemma sub_directory_distinct:
  assumes "tree_distinct (Suc depth) ls" "sub_directory ls name = Some sub"
  shows "tree_distinct depth sub"
  using assms by (auto simp: sub_directory_def entry_named_def find_Some_iff list_all_length
      split: option.splits sum.splits if_splits)

lemma tree_contents_iff:
  assumes "tree_distinct 3 tree"
  shows "x \<in> set (tree_contents f tree) \<longleftrightarrow>
    (\<exists>day ls. is_ok (UtcDay_new (day_year day) (day_month day) (day_day day)) \<and> day_directory tree day = Some ls \<and>
       x \<in> set (f day ls))"
proof -
  have nd: "names_distinct tree" "tree_distinct (Suc (Suc (Suc 0))) tree" using assms by (simp_all add: eval_nat_numeral)
  have sub: "names_distinct ls" "tree_distinct (Suc (Suc 0)) ls" if "sub_directory tree name = Some ls" for name ls
    using sub_directory_distinct [OF nd(2) that] by simp_all
  have sub2: "names_distinct ls'" if "sub_directory tree name = Some ls" "sub_directory ls name' = Some ls'" for name ls name' ls'
    using sub_directory_distinct [OF sub(2) [OF that(1)] that(2)] by simp
  have "x \<in> set (tree_contents f tree) \<longleftrightarrow>
      (\<exists>ys y ls. parse_year ys = Some y \<and> sub_directory tree ys = Some ls \<and>
        (\<exists>ms m ls'. parse_month ms = Some m \<and> sub_directory ls ms = Some ls' \<and>
          (\<exists>ds d ls''. parse_day y m ds = Some d \<and> sub_directory ls' ds = Some ls'' \<and> x \<in> set (f (UtcDay y m d) ls''))))"
  proof -
    have month: "x \<in> set (month_contents f y m ls') \<longleftrightarrow>
        (\<exists>ds d ls''. parse_day y m ds = Some d \<and> sub_directory ls' ds = Some ls'' \<and> x \<in> set (f (UtcDay y m d) ls''))"
      if "sub_directory tree name = Some ls" "sub_directory ls name' = Some ls'" for name ls name' ls' y m
      unfolding month_contents_def by (rule on_dir_iff) (rule sub2 [OF that])
    have year: "x \<in> set (year_contents f y ls) \<longleftrightarrow>
        (\<exists>ms m ls'. parse_month ms = Some m \<and> sub_directory ls ms = Some ls' \<and>
          (\<exists>ds d ls''. parse_day y m ds = Some d \<and> sub_directory ls' ds = Some ls'' \<and> x \<in> set (f (UtcDay y m d) ls'')))"
      if "sub_directory tree name = Some ls" for name ls y
      unfolding year_contents_def on_dir_iff [OF sub(1) [OF that]] using month [OF that] by blast
    show ?thesis unfolding tree_contents_year on_dir_iff [OF nd(1)]
      by (intro ex_cong1 conj_cong refl) (rule year)
  qed
  also have "\<dots> \<longleftrightarrow> (\<exists>day ls. is_ok (UtcDay_new (day_year day) (day_month day) (day_day day)) \<and>
      day_directory tree day = Some ls \<and> x \<in> set (f day ls))" (is "?l \<longleftrightarrow> ?r")
  proof
    assume ?l
    then obtain ys y ls ms m ls' ds d ls'' where
      h: "parse_year ys = Some y" "sub_directory tree ys = Some ls" "parse_month ms = Some m" "sub_directory ls ms = Some ls'"
        "parse_day y m ds = Some d" "sub_directory ls' ds = Some ls''" "x \<in> set (f (UtcDay y m d) ls'')" by blast
    then show ?r
      by (intro exI [of _ "UtcDay y m d"] exI [of _ ls''])
        (auto simp: parse_year_iff parse_month_iff parse_day_iff day_directory_def year_component_def month_component_def
          day_component_def)
  next
    assume ?r
    then obtain day ls where h: "is_ok (UtcDay_new (day_year day) (day_month day) (day_day day))"
      "day_directory tree day = Some ls" "x \<in> set (f day ls)" by blast
    obtain y m d where day: "day = UtcDay y m d" by (cases day)
    have "parse_year (year_component day) = Some y" "parse_month (month_component day) = Some m"
      "parse_day y m (day_component day) = Some d"
      using h(1) UtcDay_new_small [of y m d]
      by (auto simp: day parse_year_iff parse_month_iff parse_day_iff year_component_def month_component_def day_component_def)
    then show ?l using h(2,3) by (auto simp: day day_directory_def split: Option.bind_splits) blast
  qed
  finally show ?thesis .
qed

section \<open>Distinctness\<close>

lemma level_distinct:
  assumes "names_distinct ls"
    and parse: "\<And>n n' k. parse n = Some k \<Longrightarrow> parse n' = Some k \<Longrightarrow> n = n'"
    and sub: "\<And>name k sub. parse name = Some k \<Longrightarrow> sub_directory ls name = Some sub \<Longrightarrow> distinct (map key (g k sub))"
    and part: "\<And>name k sub x. parse name = Some k \<Longrightarrow> x \<in> set (g k sub) \<Longrightarrow> part (key x) = k"
  shows "distinct (map key (concat (map (on_dir parse g) (listing_entries ls))))"
proof -
  have "distinct (map de_name des) \<Longrightarrow> set des \<subseteq> set (listing_entries ls) \<Longrightarrow>
      distinct (map key (concat (map (on_dir parse g) des)))" for des
  proof (induction des)
    case (Cons de des)
    have own: "distinct (map key (on_dir parse g de))"
    proof (cases "dir_of parse de")
      case None
      then show ?thesis by (simp add: on_dir_def)
    next
      case (Some p)
      then obtain name k where p: "ascii_name (de_name de) = Some name" "parse name = Some k" "p = (k, de_list de)"
        by (auto simp: dir_of_def split: option.splits sum.splits if_splits)
      then have "sub_directory ls name = Some (de_list de)"
        using Some Cons.prems(2) sub_directory_iff [where parse = parse, OF assms(1) p(2)] by auto
      then show ?thesis using sub [OF p(2)] Some p by (simp add: on_dir_def)
    qed
    have "key x \<noteq> key x'" if x: "x \<in> set (on_dir parse g de)" and de': "de' \<in> set des" and x': "x' \<in> set (on_dir parse g de')" for x x' de'
    proof
      assume eq: "key x = key x'"
      obtain name k where k: "ascii_name (de_name de) = Some name" "parse name = Some k" "x \<in> set (g k (de_list de))"
        using x by (auto simp: on_dir_def dir_of_def split: option.splits sum.splits if_splits)
      obtain name' k' where k': "ascii_name (de_name de') = Some name'" "parse name' = Some k'" "x' \<in> set (g k' (de_list de'))"
        using x' by (auto simp: on_dir_def dir_of_def split: option.splits sum.splits if_splits)
      have "k = k'" using part [OF k(2,3)] part [OF k'(2,3)] eq by simp
      then have "de_name de = de_name de'" using k k' parse ascii_name_inject by blast
      then show False using Cons.prems(1) de' by auto
    qed
    then show ?case using own Cons by (fastforce simp: distinct_append)
  qed simp
  then show ?thesis using assms(1) by (simp add: names_distinct_def)
qed

lemma tree_contents_distinct:
  assumes "tree_distinct 3 tree"
    and day: "\<And>day ls x. x \<in> set (f day ls) \<Longrightarrow> addr_day (key x) = day"
    and own: "\<And>day ls. names_distinct ls \<Longrightarrow> distinct (map key (f day ls))"
  shows "distinct (map key (tree_contents f tree))"
proof -
  have nd: "names_distinct tree" "tree_distinct (Suc (Suc (Suc 0))) tree" using assms(1) by (simp_all add: eval_nat_numeral)
  have sub: "names_distinct ls" "tree_distinct (Suc (Suc 0)) ls" if "sub_directory tree name = Some ls" for name ls
    using sub_directory_distinct [OF nd(2) that] by simp_all
  have sub2: "names_distinct ls'" "tree_distinct (Suc 0) ls'"
    if "sub_directory tree name = Some ls" "sub_directory ls name' = Some ls'" for name ls name' ls'
    using sub_directory_distinct [OF sub(2) [OF that(1)] that(2)] by simp_all
  have sub3: "names_distinct ls''"
    if "sub_directory tree name = Some ls" "sub_directory ls name' = Some ls'" "sub_directory ls' name'' = Some ls''"
    for name ls name' ls' name'' ls''
    using sub_directory_distinct [OF sub2(2) [OF that(1,2)] that(3)] by simp
  have in_month: "addr_day (key x) = UtcDay y m (day_day (addr_day (key x)))" if "x \<in> set (month_contents f y m ls)" for x y m ls
    using that by (auto simp: month_contents_def on_dir_def split: option.splits dest!: day)
  have in_year: "day_year (addr_day (key x)) = y" if "x \<in> set (year_contents f y ls)" for x y ls
    using that by (auto simp: year_contents_def on_dir_def split: option.splits dest!: in_month) (metis utc_day.sel(1))
  have month: "distinct (map key (month_contents f y m ls'))"
    if "sub_directory tree name = Some ls" "sub_directory ls name' = Some ls'" for name ls name' ls' y m
    unfolding month_contents_def
  proof (rule level_distinct [where part = "\<lambda>a. day_day (addr_day a)", OF sub2(1) [OF that]])
    show "n = n'" if "parse_day y m n = Some k" "parse_day y m n' = Some k" for n n' k using that by (simp add: parse_day_iff)
  qed (use that own sub3 day in \<open>(blast | force)+\<close>)
  have year: "distinct (map key (year_contents f y ls))" if "sub_directory tree name = Some ls" for name ls y
    unfolding year_contents_def
  proof (rule level_distinct [where part = "\<lambda>a. day_month (addr_day a)", OF sub(1) [OF that]])
    show "n = n'" if "parse_month n = Some k" "parse_month n' = Some k" for n n' k using that by (simp add: parse_month_iff)
    show "day_month (addr_day (key x)) = k" if "x \<in> set (month_contents f y k sub)" for x k sub
      using in_month [OF that] by (metis utc_day.sel(2))
  qed (use that month in blast)
  show ?thesis
    unfolding tree_contents_year
  proof (rule level_distinct [where part = "\<lambda>a. day_year (addr_day a)", OF nd(1)])
    show "n = n'" if "parse_year n = Some k" "parse_year n' = Some k" for n n' k using that by (simp add: parse_year_iff)
  qed (use year in_year in blast)+
qed

lemma segs_of_distinct: "om_valid m \<Longrightarrow> distinct (map sa_address (segs_of day m))"
  by (induction m) (fastforce simp: segs_of_def om_valid_Cons image_iff split: option.splits)+

lemma orphans_of_distinct: "om_valid m \<Longrightarrow> distinct (orphans_of day m)"
  by (induction m) (fastforce simp: orphans_of_def om_valid_Cons image_iff split: if_splits)+

lemma day_lists_distinct:
  assumes "names_distinct ls"
  shows "distinct (map sa_address (day_segments day ls))" "distinct (day_orphans day ls)"
  using day_finals_artifacts [OF assms [unfolded names_distinct_def], of day]
  by (simp_all add: day_segments_def day_orphans_def segs_of_distinct orphans_of_distinct)

lemma day_lists_day:
  "x \<in> set (day_segments day ls) \<Longrightarrow> addr_day (sa_address x) = day" "a \<in> set (day_orphans day ls) \<Longrightarrow> addr_day a = day"
  by (auto simp: day_segments_def segs_of_def day_orphans_def orphans_of_def split: option.splits if_splits)

section \<open>The inventory\<close>

definition is_segment_address :: "segment_address \<Rightarrow> bool" where
  "is_segment_address a \<longleftrightarrow> SegmentAddress_new (addr_id a) = Ok a"

lemma is_segment_address_day:
  assumes "is_segment_address a"
  shows "is_ok (UtcDay_new (day_year (addr_day a)) (day_month (addr_day a)) (day_day (addr_day a)))"
proof -
  obtain d where d: "utc_day_of (addr_id a) = Ok d" "a = SegmentAddress (addr_id a) d"
    using assms by (auto simp: is_segment_address_def SegmentAddress_new_def and_then_Ok_iff)
  have "addr_day a = d" using d(2) by (metis segment_address.sel(2))
  then show ?thesis using utc_day_of_valid [OF d(1)] by simp
qed

lemma day_address_iff: "day_address (addr_id a) (addr_day a) \<longleftrightarrow> is_segment_address a"
  by (simp add: is_segment_address_def day_address_def)

lemma day_directory_distinct:
  assumes "tree_distinct 3 tree" "day_directory tree day = Some ls"
  shows "names_distinct ls"
proof -
  obtain a b where "sub_directory tree (year_component day) = Some a" "sub_directory a (month_component day) = Some b"
    "sub_directory b (day_component day) = Some ls"
    using assms(2) by (auto simp: day_directory_def split: Option.bind_splits)
  moreover have "tree_distinct (Suc (Suc (Suc 0))) tree" using assms(1) by (simp add: eval_nat_numeral)
  ultimately have "tree_distinct 0 ls" by (blast dest: sub_directory_distinct)
  then show ?thesis by simp
qed

lemma tree_at_address:
  assumes "tree_distinct 3 tree"
    and at: "\<And>ls day. names_distinct ls \<Longrightarrow> x \<in> set (f day ls) \<longleftrightarrow> addr_day a = day \<and> is_segment_address a \<and> P ls"
  shows "x \<in> set (tree_contents f tree) \<longleftrightarrow>
    is_segment_address a \<and> (case day_directory tree (addr_day a) of None \<Rightarrow> False | Some ls \<Rightarrow> P ls)"
  unfolding tree_contents_iff [OF assms(1)]
  using at [OF day_directory_distinct [OF assms(1)]] is_segment_address_day [of a] by (auto split: option.splits)

lemma tree_segments_iff:
  assumes "tree_distinct 3 tree"
  shows "x \<in> set (tree_contents day_segments tree) \<longleftrightarrow>
    is_segment_address (sa_address x) \<and>
    file_in_day tree (addr_day (sa_address x)) (zms_name (sa_address x)) = Some (sa_zms_identity x) \<and>
    sa_zms_bytes x = fi_len (sa_zms_identity x) \<and>
    sa_idx_bytes x = map_option fi_len (file_in_day tree (addr_day (sa_address x)) (idx_name (sa_address x)))"
proof -
  have "x \<in> set (day_segments day ls) \<longleftrightarrow>
      addr_day (sa_address x) = day \<and> is_segment_address (sa_address x) \<and>
      regular_file (listing_entries ls) (zms_name (sa_address x)) = Some (sa_zms_identity x) \<and>
      sa_zms_bytes x = fi_len (sa_zms_identity x) \<and>
      sa_idx_bytes x = map_option fi_len (regular_file (listing_entries ls) (idx_name (sa_address x)))"
    if "names_distinct ls" for ls day
    unfolding day_segments_iff [OF that] day_address_iff [symmetric]
    by (cases x; cases "sa_address x") (auto simp: segment_record_def)
  from tree_at_address [OF assms this] show ?thesis
    by (auto simp: file_in_day_def split: option.splits)
qed

lemma tree_orphans_iff:
  assumes "tree_distinct 3 tree"
  shows "a \<in> set (tree_contents day_orphans tree) \<longleftrightarrow>
    is_segment_address a \<and> file_in_day tree (addr_day a) (zms_name a) = None \<and>
    file_in_day tree (addr_day a) (idx_name a) \<noteq> None"
proof -
  have "a \<in> set (day_orphans day ls) \<longleftrightarrow>
      addr_day a = day \<and> is_segment_address a \<and>
      regular_file (listing_entries ls) (zms_name a) = None \<and> regular_file (listing_entries ls) (idx_name a) \<noteq> None"
    if "names_distinct ls" for ls day
    unfolding day_orphans_iff [OF that] day_address_iff [symmetric] by (cases a) auto
  from tree_at_address [OF assms this] show ?thesis
    by (auto simp: file_in_day_def split: option.splits)
qed

lemma tree_temps_iff:
  assumes "tree_distinct 3 tree"
  shows "t \<in> set (tree_contents day_temps tree) \<longleftrightarrow>
    is_segment_address (to_address t) \<and> leaf_names (Temporary (to_address t) (to_kind t)) (to_file_name t) \<and>
    file_in_day tree (addr_day (to_address t)) (to_file_name t) = Some (to_identity t)"
proof -
  have "t \<in> set (day_temps day ls) \<longleftrightarrow>
      addr_day (to_address t) = day \<and> is_segment_address (to_address t) \<and>
      leaf_names (Temporary (to_address t) (to_kind t)) (to_file_name t) \<and>
      regular_file (listing_entries ls) (to_file_name t) = Some (to_identity t)"
    if "names_distinct ls" for ls day
    unfolding day_temps_iff [OF that] day_address_iff [symmetric] by auto
  from tree_at_address [OF assms this] show ?thesis
    by (auto simp: file_in_day_def split: option.splits)
qed

lemma address_of_id: "is_segment_address a \<Longrightarrow> is_segment_address b \<Longrightarrow> addr_id a = addr_id b \<Longrightarrow> a = b"
  by (simp add: is_segment_address_def)

lemma sorted_ids:
  assumes "distinct (map key xs)" "\<And>x. x \<in> set xs \<Longrightarrow> is_segment_address (key x)"
  shows "sorted_wrt (<) (map (\<lambda>x. addr_id (key x)) (sort_key (\<lambda>x. addr_id (key x)) xs))"
proof -
  have "distinct (map (\<lambda>x. addr_id (key x)) xs)"
    using assms address_of_id by (auto simp: distinct_map inj_on_def)
  then have "distinct (map (\<lambda>x. addr_id (key x)) (sort_key (\<lambda>x. addr_id (key x)) xs))"
    by (simp add: distinct_map distinct_sort)
  then show ?thesis unfolding strict_sorted_iff by simp
qed

lemma inventory_facts:
  assumes "scan_once z l tree = Ok snap" "tree_distinct 3 tree"
  shows "(s \<in> set (snap_segments snap) \<longleftrightarrow>
       is_segment_address (sa_address s) \<and>
       file_in_day tree (addr_day (sa_address s)) (zms_name (sa_address s)) = Some (sa_zms_identity s) \<and>
       sa_zms_bytes s = fi_len (sa_zms_identity s) \<and>
       sa_idx_bytes s = map_option fi_len (file_in_day tree (addr_day (sa_address s)) (idx_name (sa_address s)))) \<and>
     (a \<in> set (snap_orphan_indexs snap) \<longleftrightarrow>
       is_segment_address a \<and> file_in_day tree (addr_day a) (zms_name a) = None \<and>
       file_in_day tree (addr_day a) (idx_name a) \<noteq> None) \<and>
     (t \<in> set (snap_temporaries snap) \<longleftrightarrow>
       is_segment_address (to_address t) \<and> leaf_names (Temporary (to_address t) (to_kind t)) (to_file_name t) \<and>
       file_in_day tree (addr_day (to_address t)) (to_file_name t) = Some (to_identity t)) \<and>
     sorted_wrt (<) (map (\<lambda>s. addr_id (sa_address s)) (snap_segments snap)) \<and>
     sorted_wrt (<) (map addr_id (snap_orphan_indexs snap))"
proof -
  obtain st where st: "snap = scan_finish st" "sc_segments st = tree_contents day_segments tree"
    "sc_orphans st = tree_contents day_orphans tree" "sc_temporaries st = tree_contents day_temps tree"
    using scan_once_Ok [OF assms(1)] by blast
  note tree = assms(2)
  note iffs = tree_segments_iff [OF tree] tree_orphans_iff [OF tree] tree_temps_iff [OF tree]
  have "distinct (map sa_address (tree_contents day_segments tree))"
    by (rule tree_contents_distinct [OF tree]) (simp_all add: day_lists_day day_lists_distinct)
  from sorted_ids [OF this] have "sorted_wrt (<) (map (\<lambda>s. addr_id (sa_address s)) (snap_segments snap))"
    by (simp add: st scan_finish_def iffs(1))
  moreover have "distinct (map (\<lambda>a. a) (tree_contents day_orphans tree))"
    by (rule tree_contents_distinct [OF tree]) (simp_all add: day_lists_day day_lists_distinct)
  from sorted_ids [OF this] have "sorted_wrt (<) (map addr_id (snap_orphan_indexs snap))"
    by (simp add: st scan_finish_def iffs(2))
  ultimately show ?thesis by (simp add: st scan_finish_def iffs)
qed

text \<open>
  C23: the snapshot of a successful traversal is the inventory of the tree by canonical paths. A
  segment is listed iff \<open>YYYY/MM/DD/<id>.zms\<close> is a regular file in the directory of its own day, with
  that file's identity and length and the length of the regular file \<open><id>.idx\<close> beside it, if there is
  one; an orphan index iff only the sidecar is there; a temporary iff a regular file of one of the three
  temporary forms is. Segments and orphans are in strictly increasing order of their ids, so none is
  listed twice. The hypothesis says that a directory names each of its entries once.
\<close>

theorem scan_inventory:
  assumes "scan_once z l tree = Ok snap" "tree_distinct 3 tree"
  shows "(s \<in> set (snap_segments snap) \<longleftrightarrow>
       is_segment_address (sa_address s) \<and>
       file_in_day tree (addr_day (sa_address s)) (zms_name (sa_address s)) = Some (sa_zms_identity s) \<and>
       sa_zms_bytes s = fi_len (sa_zms_identity s) \<and>
       sa_idx_bytes s = map_option fi_len (file_in_day tree (addr_day (sa_address s)) (idx_name (sa_address s)))) \<and>
     (a \<in> set (snap_orphan_indexs snap) \<longleftrightarrow>
       is_segment_address a \<and> file_in_day tree (addr_day a) (zms_name a) = None \<and>
       file_in_day tree (addr_day a) (idx_name a) \<noteq> None) \<and>
     (t \<in> set (snap_temporaries snap) \<longleftrightarrow>
       is_segment_address (to_address t) \<and> leaf_names (Temporary (to_address t) (to_kind t)) (to_file_name t) \<and>
       file_in_day tree (addr_day (to_address t)) (to_file_name t) = Some (to_identity t)) \<and>
     sorted_wrt (<) (map (\<lambda>s. addr_id (sa_address s)) (snap_segments snap)) \<and>
     sorted_wrt (<) (map addr_id (snap_orphan_indexs snap))"
  by (rule inventory_facts [OF assms])

definition sample_stat :: "entry_file_type \<Rightarrow> u64 \<Rightarrow> io_error + file_stat" where
  "sample_stat t n =
     Inr \<lparr>stat_type = t, stat_identity = \<lparr>fi_device = 0, fi_inode = 0, fi_len = n, fi_mtime_seconds = 0,
       fi_mtime_nanoseconds = 0, fi_ctime_seconds = 0, fi_ctime_nanoseconds = 0\<rparr>\<rparr>"

definition sample_dir :: "string \<Rightarrow> dir_entry list \<Rightarrow> dir_entry" where
  "sample_dir name des = DirEntry (map of_char name) (sample_stat Directory 0) (Inr ()) (Inr (map Inr des))"

definition sample_file :: "string \<Rightarrow> u64 \<Rightarrow> dir_entry" where
  "sample_file name n = DirEntry (map of_char name) (sample_stat RegularFile n) (Inr ()) (Inl (OsError 20))"

text \<open>A segment with its sidecar, in a tree that also holds the journal.\<close>

definition sample_tree :: listing where
  "sample_tree = Inr (map Inr
     [sample_file ''active.wal'' 48,
      sample_dir ''1970'' [sample_dir ''01'' [sample_dir ''01'' [sample_file ''7.idx'' 3, sample_file ''7.zms'' 5]]]])"

definition sample_sizes :: type_sizes where
  "sample_sizes = \<lparr>size_foreign_entry = 200, size_segment_artifacts = 120, size_utc_day = 4, size_segment_address = 16\<rparr>"

lemmas sample_tree_simps = sample_file_def sample_dir_def sample_stat_def listing_entries_def is_dot_def names_distinct_def

lemma sample_tree_distinct: "tree_distinct 3 sample_tree"
  by (simp add: numeral_3_eq_3 sample_tree_def sample_tree_simps of_char_def)

lemma sample_day: "utc_day_of (SegmentId 7) = Ok (UtcDay 1970 1 1)" "UtcDay_new 1970 1 1 = Ok (UtcDay 1970 1 1)"
  by code_simp+

lemma sample_segment_address: "SegmentAddress_new (SegmentId 7) = Ok (SegmentAddress (SegmentId 7) (UtcDay 1970 1 1))"
  "in_day (SegmentId 7) (UtcDay 1970 1 1) = Ok (SegmentAddress (SegmentId 7) (UtcDay 1970 1 1))"
  by (simp_all add: SegmentAddress_new_def in_day_def sample_day)

lemma sample_names:
  "parse_year ''1970'' = Some 1970" "parse_month ''01'' = Some 1" "parse_day 1970 1 ''01'' = Some 1"
  "parse_leaf ''7.zms'' (UtcDay 1970 1 1) = Ok (Zms (SegmentAddress (SegmentId 7) (UtcDay 1970 1 1)))"
  "parse_leaf ''7.idx'' (UtcDay 1970 1 1) = Ok (Idx (SegmentAddress (SegmentId 7) (UtcDay 1970 1 1)))"
  by (simp_all add: parse_year_iff parse_month_iff parse_day_iff parse_leaf_exact sample_segment_address sample_day zero_pad_def dec.simps
      digit_def zms_name_def idx_name_def show_i64_def char_of_def bit_0)

lemma sample_ascii:
  "ascii_name [49, 57, 55, 48] = Some ''1970''" "ascii_name [48, 49] = Some ''01''"
  "ascii_name [55, 46, 122, 109, 115] = Some ''7.zms''" "ascii_name [55, 46, 105, 100, 120] = Some ''7.idx''"
  "ascii_name [97, 99, 116, 105, 118, 101, 46, 119, 97, 108] = Some ''active.wal''"
  by (simp_all add: ascii_name_def char_of_def bit_0)

lemmas scan_eval = fold_listing_def open_directory_at_def stat_no_follow_name_def account_def account_metadata_def
  account_segment_def is_dot_def checked_add_usize_def default_layout_limits_def ENTRY_METADATA_BYTES_def
  HARD_MAX_METADATA_BYTES_def sample_sizes_def ScanState_new_def sample_file_def sample_dir_def sample_stat_def
  sample_names sample_ascii sample_segment_address sample_day of_char_def

lemma sample_no_year: "is_control_name ''active.wal''" "\<not> is_control_name ''1970''" "path_extension ''1970'' = None"
  by (simp_all add: is_control_name_def ACTIVE_JOURNAL_NAME_def WRITER_OWNER_LOCK_NAME_def INDEX_OWNER_LOCK_NAME_def
      LOG_OFFSETS_NAME_def LOG_OFFSETS_TEMP_NAME_def SEAL_SEED_NAME_def SEAL_SEED_TEMP_NAME_def path_extension_def)

lemma sample_scan: "\<exists>snap. scan_once sample_sizes default_layout_limits sample_tree = Ok snap"
  by (simp add: scan_eval sample_tree_def scan_once_def root_entry_def scan_year_def year_entry_def scan_month_def month_entry_def
      scan_day_def day_entry_def artifacts_of_def no_artifacts_def sample_no_year)

lemma sample_files:
  "file_in_day sample_tree (UtcDay 1970 1 1) ''7.zms'' = Some (stat_identity (projr (sample_stat RegularFile 5)))"
  by (simp add: file_in_day_def day_directory_def sub_directory_def regular_file_def entry_named_def sample_tree_def
      listing_entries_def scan_eval year_component_def month_component_def day_component_def zero_pad_def dec.simps digit_def
      char_of_def bit_0)

theorem scan_inventory_witness:
  "\<exists>snap s. scan_once sample_sizes default_layout_limits sample_tree = Ok snap \<and> s \<in> set (snap_segments snap) \<and>
     addr_id (sa_address s) = SegmentId 7 \<and> sa_zms_bytes s = 5 \<and>
     sorted_wrt (<) (map (\<lambda>s. addr_id (sa_address s)) (snap_segments snap))"
proof -
  obtain snap where snap: "scan_once sample_sizes default_layout_limits sample_tree = Ok snap" using sample_scan by blast
  define s where "s = segment_record (SegmentId 7) (UtcDay 1970 1 1) (stat_identity (projr (sample_stat RegularFile 5)))
    (map_option fi_len (file_in_day sample_tree (UtcDay 1970 1 1) (idx_name (SegmentAddress (SegmentId 7) (UtcDay 1970 1 1)))))"
  have "zms_name (SegmentAddress (SegmentId 7) (UtcDay 1970 1 1)) = ''7.zms''"
    using sample_names(4) by (simp add: parse_leaf_exact)
  then have "s \<in> set (snap_segments snap)"
    using scan_inventory [OF snap sample_tree_distinct, THEN conjunct1, of s] sample_files
    by (simp add: s_def segment_record_def is_segment_address_def sample_segment_address)
  moreover have "addr_id (sa_address s) = SegmentId 7" "sa_zms_bytes s = 5" by (simp_all add: s_def segment_record_def sample_stat_def)
  ultimately show ?thesis using snap scan_inventory [OF snap sample_tree_distinct] by blast
qed

section \<open>Limits and retries\<close>

abbreviation vanished :: "layout_error + layout_snapshot \<Rightarrow> bool" where
  "vanished r \<equiv> r = Err (Io (OsError 2))"

lemma scan_from_cases:
  assumes "attempt < SCAN_RACE_ATTEMPTS"
  shows "\<exists>last' < SCAN_RACE_ATTEMPTS. attempt \<le> last' \<and> scan_from z l trees attempt = scan_once z l (trees last') \<and>
    (\<forall>k. attempt \<le> k \<longrightarrow> k < last' \<longrightarrow> vanished (scan_once z l (trees k))) \<and>
    (vanished (scan_once z l (trees last')) \<longrightarrow> last' + 1 = SCAN_RACE_ATTEMPTS)"
  using assms
proof (induction z l trees attempt rule: scan_from.induct)
  case (1 z l trees attempt)
  show ?case
  proof (cases "vanished (scan_once z l (trees attempt)) \<and> attempt + 1 < SCAN_RACE_ATTEMPTS")
    case True
    then obtain k where IH: "k < SCAN_RACE_ATTEMPTS" "attempt + 1 \<le> k"
      "scan_from z l trees (attempt + 1) = scan_once z l (trees k)"
      "\<forall>j. attempt + 1 \<le> j \<longrightarrow> j < k \<longrightarrow> vanished (scan_once z l (trees j))"
      "vanished (scan_once z l (trees k)) \<longrightarrow> k + 1 = SCAN_RACE_ATTEMPTS"
      using 1(1) by blast
    have "scan_from z l trees attempt = scan_from z l trees (attempt + 1)"
      by (subst scan_from.simps) (simp only: True sum.case layout_error.case HOL.simp_thms if_True)
    moreover have "\<forall>j. attempt \<le> j \<longrightarrow> j < k \<longrightarrow> vanished (scan_once z l (trees j))"
    proof (intro allI impI)
      fix j assume "attempt \<le> j" "j < k"
      then show "vanished (scan_once z l (trees j))"
        using True IH(4) by (cases "j = attempt") auto
    qed
    ultimately show ?thesis using IH by (intro exI [of _ k]) simp
  next
    case False
    then have "scan_from z l trees attempt = scan_once z l (trees attempt)"
      by (subst scan_from.simps) (auto split: sum.split layout_error.split)
    then show ?thesis using False 1(2) by (intro exI [of _ attempt]) auto
  qed
qed

text \<open>
  C24: the retry loop of \<open>scan\<close> ends after at most four attempts, whatever the tree does between them:
  the result is that of one attempt \<open>k\<close>, every earlier attempt lost an entry (\<open>ENOENT\<close>), and
  attempt \<open>k\<close> reports \<open>ENOENT\<close> itself only if it was the fourth.
\<close>

theorem layout_scan_retries:
  assumes "LayoutLimits_validate l = Ok l"
  shows "\<exists>k < 4. layout_scan z l trees = scan_once z l (trees k) \<and>
    (\<forall>j < k. scan_once z l (trees j) = Err (Io (OsError 2))) \<and>
    (scan_once z l (trees k) = Err (Io (OsError 2)) \<longrightarrow> k = 3)"
  using scan_from_cases [of 0 z l trees] by (auto simp: layout_scan_def assms SCAN_RACE_ATTEMPTS_def)

theorem layout_scan_retries_witness:
  "\<exists>k < 4 :: nat. layout_scan sample_sizes default_layout_limits (\<lambda>n. if n = 0 then Inl (OsError 2) else sample_tree) =
       scan_once sample_sizes default_layout_limits (if k = 0 then Inl (OsError 2) else sample_tree)"
proof -
  have "LayoutLimits_validate default_layout_limits = Ok default_layout_limits"
    by (simp add: LayoutLimits_validate_def validate_limit_def default_layout_limits_def HARD_MAX_METADATA_BYTES_def
        HARD_MAX_VISITED_ENTRIES_def HARD_MAX_ENTRIES_PER_DAY_def HARD_MAX_SEGMENTS_def)
  from layout_scan_retries [OF this, of sample_sizes "\<lambda>n. if n = 0 then Inl (OsError 2) else sample_tree"]
  show ?thesis by blast
qed

text \<open>
  A successful scan stayed within its limits, and these within the hard maxima: the segments it
  lists, the entries it visited and the metadata it charged; no limit is zero.
\<close>

lemma layout_scan_bounded:
  assumes "layout_scan z l trees = Ok snap"
  shows "length (snap_segments snap) \<le> max_segments l \<and> snap_visited_entries snap \<le> max_visited_entries l \<and>
    snap_metadata_bytes snap \<le> max_metadata_bytes l \<and>
    max_segments l \<in> {1..HARD_MAX_SEGMENTS} \<and> max_visited_entries l \<in> {1..HARD_MAX_VISITED_ENTRIES} \<and>
    max_entries_per_day l \<in> {1..HARD_MAX_ENTRIES_PER_DAY} \<and> max_metadata_bytes l \<in> {1..HARD_MAX_METADATA_BYTES}"
proof -
  have valid: "LayoutLimits_validate l = Ok l \<and>
    max_segments l \<in> {1..HARD_MAX_SEGMENTS} \<and> max_visited_entries l \<in> {1..HARD_MAX_VISITED_ENTRIES} \<and>
    max_entries_per_day l \<in> {1..HARD_MAX_ENTRIES_PER_DAY} \<and> max_metadata_bytes l \<in> {1..HARD_MAX_METADATA_BYTES}"
    using assms by (auto simp: layout_scan_def LayoutLimits_validate_def validate_limit_def and_then_Ok_iff split: if_splits)
  then obtain k where "scan_once z l (trees k) = Ok snap"
    using assms scan_from_cases [of 0 z l trees] by (force simp: layout_scan_def SCAN_RACE_ATTEMPTS_def)
  then obtain s where "snap = scan_finish s" "sc_limits s = l" "within_limits s" by (rule scan_once_Ok)
  then show ?thesis using valid by (simp add: scan_finish_def within_limits_def)
qed

end
