(* ===== verification/Dictionary.thy ===== *)
theory Dictionary
  imports Ordered_Map
begin

text \<open>
  The in-memory string dictionaries of one segment
  (\<open>crates/kronika-format/src/{str_id,dictionary,dictionary/entry,dictionary/limits}.rs\<close>).
  The hash functions \<open>xxh3_64\<close> and SHA-256 come from other crates and are a parameter record.
  A \<open>StrId\<close> is its raw \<^typ>\<open>u64\<close>; that it is not zero is part of the invariant.
  Every operation returns its result together with the dictionaries after the call.
\<close>

record hashes =
  xxh3_64 :: "bytes \<Rightarrow> u64"
  sha256 :: "bytes \<Rightarrow> bytes"

section \<open>Identifiers and limits\<close>

type_synonym str_id = u64

definition StrId_of :: "hashes \<Rightarrow> bytes \<Rightarrow> str_id option" where
  "StrId_of h v = (if xxh3_64 h v = 0 then None else Some (xxh3_64 h v))"

definition StrId_from_raw :: "u64 \<Rightarrow> str_id option" where
  "StrId_from_raw raw = (if raw = 0 then None else Some raw)"

record dict_limits =
  blob_threshold :: usize
  truncate_limit :: usize
  max_total_bytes :: usize

definition DEFAULT_BLOB_THRESHOLD :: usize where "DEFAULT_BLOB_THRESHOLD = 4 * 1024"
definition DEFAULT_TRUNCATE_LIMIT :: usize where "DEFAULT_TRUNCATE_LIMIT = 1024 * 1024"
definition DEFAULT_MAX_TOTAL_BYTES :: usize where "DEFAULT_MAX_TOTAL_BYTES = 64 * 1024 * 1024"

text \<open>The rejected limits travel in the error.\<close>

definition validate_limits :: "dict_limits \<Rightarrow> dict_limits + dict_limits" where
  "validate_limits l =
     (if blob_threshold l = 0 \<or> truncate_limit l < blob_threshold l \<or> max_total_bytes l < truncate_limit l
      then Err l else Ok l)"

definition DictLimits_new :: "usize \<Rightarrow> usize \<Rightarrow> dict_limits + dict_limits" where
  "DictLimits_new bt trunc =
     validate_limits \<lparr>blob_threshold = bt, truncate_limit = trunc, max_total_bytes = DEFAULT_MAX_TOTAL_BYTES\<rparr>"

definition with_max_total_bytes :: "dict_limits \<Rightarrow> usize \<Rightarrow> dict_limits + dict_limits" where
  "with_max_total_bytes l m = validate_limits (l\<lparr>max_total_bytes := m\<rparr>)"

definition default_dict_limits :: dict_limits where
  "default_dict_limits =
     \<lparr>blob_threshold = DEFAULT_BLOB_THRESHOLD, truncate_limit = DEFAULT_TRUNCATE_LIMIT,
      max_total_bytes = DEFAULT_MAX_TOTAL_BYTES\<rparr>"

section \<open>Entries\<close>

record requirements =
  req_blob :: bool
  req_hot_hard :: bool
  req_hot_soft :: bool

definition no_requirements :: requirements where
  "no_requirements = \<lparr>req_blob = False, req_hot_hard = False, req_hot_soft = False\<rparr>"

definition merge_requirements :: "requirements \<Rightarrow> requirements \<Rightarrow> requirements" where
  "merge_requirements a b =
     \<lparr>req_blob = (req_blob a \<or> req_blob b), req_hot_hard = (req_hot_hard a \<or> req_hot_hard b),
      req_hot_soft = (req_hot_soft a \<or> req_hot_soft b)\<rparr>"

record stored =
  st_bytes :: bytes
  st_full_len :: usize
  st_full_sha256 :: "bytes option"
  st_oversized :: bool
  st_req :: requirements

definition is_blob :: "stored \<Rightarrow> bool" where
  "is_blob s \<longleftrightarrow> req_blob (st_req s) \<or> st_oversized s"

definition is_hot :: "stored \<Rightarrow> bool" where
  "is_hot s \<longleftrightarrow> \<not> is_blob s \<and> (req_hot_hard (st_req s) \<or> req_hot_soft (st_req s))"

datatype dict_error =
    Collision u64
  | PlacementConflict str_id
  | DictFull usize usize

definition id_or_collision :: "str_id option \<Rightarrow> dict_error + str_id" where
  "id_or_collision hashed = ok_or hashed (Collision 0)"

section \<open>The dictionaries\<close>

record segment_dicts =
  sd_limits :: dict_limits
  sd_entries :: "(str_id, stored) omap"
  sd_stored_bytes :: usize

definition SegmentDicts_new :: "dict_limits \<Rightarrow> segment_dicts" where
  "SegmentDicts_new l = \<lparr>sd_limits = l, sd_entries = [], sd_stored_bytes = 0\<rparr>"

definition check_same_value :: "hashes \<Rightarrow> str_id \<Rightarrow> stored \<Rightarrow> bytes \<Rightarrow> dict_error + unit" where
  "check_same_value h i s v =
     (if st_full_len s = length v \<and>
         (case st_full_sha256 s of None \<Rightarrow> st_bytes s = v | Some sha \<Rightarrow> sha256 h v = sha)
      then Ok () else Err (Collision i))"

definition new_stored :: "hashes \<Rightarrow> dict_limits \<Rightarrow> bytes \<Rightarrow> requirements \<Rightarrow> stored" where
  "new_stored h l v rq =
     (let truncated = truncate_limit l < length v
      in \<lparr>st_bytes = (if truncated then take (truncate_limit l) v else v), st_full_len = length v,
          st_full_sha256 = (if truncated then Some (sha256 h v) else None),
          st_oversized = (blob_threshold l \<le> length v), st_req = rq\<rparr>)"

definition saturating_add_usize :: "usize \<Rightarrow> usize \<Rightarrow> usize" where
  "saturating_add_usize a b = min (a + b) usize_max"

definition try_insert ::
    "hashes \<Rightarrow> str_id \<Rightarrow> bytes \<Rightarrow> requirements \<Rightarrow> segment_dicts \<Rightarrow> (dict_error + str_id) \<times> segment_dicts" where
  "try_insert h i v rq d =
     (case map_of (sd_entries d) i of
        Some existing \<Rightarrow>
          (case check_same_value h i existing v of
             Inl e \<Rightarrow> (Err e, d)
           | Inr _ \<Rightarrow>
               let merged = merge_requirements (st_req existing) rq
               in if req_hot_hard merged \<and> (req_blob merged \<or> st_oversized existing)
                  then (Err (PlacementConflict i), d)
                  else (Ok i, d\<lparr>sd_entries := om_insert i (existing\<lparr>st_req := merged\<rparr>) (sd_entries d)\<rparr>))
      | None \<Rightarrow>
          let l = sd_limits d; oversized = blob_threshold l \<le> length v;
              stored_len = min (length v) (truncate_limit l)
          in if req_hot_hard rq \<and> (req_blob rq \<or> oversized) then (Err (PlacementConflict i), d)
             else if \<not> req_hot_hard rq \<and> max_total_bytes l < saturating_add_usize (sd_stored_bytes d) stored_len
             then (Err (DictFull (sd_stored_bytes d) (max_total_bytes l)), d)
             else (Ok i, d\<lparr>sd_stored_bytes := sd_stored_bytes d + stored_len,
                           sd_entries := om_insert i (new_stored h l v rq) (sd_entries d)\<rparr>))"

definition dict_insert ::
    "hashes \<Rightarrow> bytes \<Rightarrow> requirements \<Rightarrow> segment_dicts \<Rightarrow> (dict_error + str_id) \<times> segment_dicts" where
  "dict_insert h v rq d =
     (case id_or_collision (StrId_of h v) of Inl e \<Rightarrow> (Err e, d) | Inr i \<Rightarrow> try_insert h i v rq d)"

definition dict_intern :: "hashes \<Rightarrow> bytes \<Rightarrow> segment_dicts \<Rightarrow> (dict_error + str_id) \<times> segment_dicts" where
  "dict_intern h v d = dict_insert h v no_requirements d"

definition dict_intern_blob :: "hashes \<Rightarrow> bytes \<Rightarrow> segment_dicts \<Rightarrow> (dict_error + str_id) \<times> segment_dicts" where
  "dict_intern_blob h v d = dict_insert h v (no_requirements\<lparr>req_blob := True\<rparr>) d"

definition dict_intern_hot :: "hashes \<Rightarrow> bytes \<Rightarrow> segment_dicts \<Rightarrow> (dict_error + str_id) \<times> segment_dicts" where
  "dict_intern_hot h v d = dict_insert h v (no_requirements\<lparr>req_hot_hard := True\<rparr>) d"

definition dict_intern_hot_best_effort ::
    "hashes \<Rightarrow> bytes \<Rightarrow> segment_dicts \<Rightarrow> (dict_error + str_id \<times> bool) \<times> segment_dicts" where
  "dict_intern_hot_best_effort h v d =
     (case dict_insert h v (no_requirements\<lparr>req_hot_soft := True\<rparr>) d of
        (Inl e, d') \<Rightarrow> (Err e, d')
      | (Inr i, d') \<Rightarrow>
          (Ok (i, case map_of (sd_entries d') i of None \<Rightarrow> False | Some s \<Rightarrow> is_hot s), d'))"

section \<open>Reading\<close>

record blob_entry =
  be_str_id :: str_id
  be_stored_bytes :: bytes
  be_full_len :: nat
  be_truncated :: bool
  be_full_sha256 :: "bytes option"

datatype resolved = ResolvedStr bytes | ResolvedBlob blob_entry

definition blob_entry_of :: "str_id \<Rightarrow> stored \<Rightarrow> blob_entry" where
  "blob_entry_of i s =
     \<lparr>be_str_id = i, be_stored_bytes = st_bytes s, be_full_len = st_full_len s,
      be_truncated = (st_full_sha256 s \<noteq> None), be_full_sha256 = st_full_sha256 s\<rparr>"

definition dict_resolve :: "segment_dicts \<Rightarrow> str_id \<Rightarrow> resolved option" where
  "dict_resolve d i =
     (case map_of (sd_entries d) i of
        None \<Rightarrow> None
      | Some s \<Rightarrow> Some (if is_blob s then ResolvedBlob (blob_entry_of i s) else ResolvedStr (st_bytes s)))"

fun resolved_bytes :: "resolved \<Rightarrow> bytes" where
  "resolved_bytes (ResolvedStr v) = v"
| "resolved_bytes (ResolvedBlob b) = be_stored_bytes b"

definition dict_strings :: "segment_dicts \<Rightarrow> (str_id \<times> bytes) list" where
  "dict_strings d = [(i, st_bytes s). (i, s) \<leftarrow> sd_entries d, \<not> is_blob s]"

definition dict_blobs :: "segment_dicts \<Rightarrow> blob_entry list" where
  "dict_blobs d = [blob_entry_of i s. (i, s) \<leftarrow> sd_entries d, is_blob s]"

definition dict_hot_strings :: "segment_dicts \<Rightarrow> (str_id \<times> bytes) list" where
  "dict_hot_strings d = [(i, st_bytes s). (i, s) \<leftarrow> sd_entries d, is_hot s]"

datatype placement = Strings | Blobs
datatype hot_mark = HotNone | HotSoft | HotHard

record entry_snapshot =
  es_str_id :: str_id
  es_stored_bytes :: bytes
  es_full_len :: nat
  es_truncated :: bool
  es_full_sha256 :: "bytes option"
  es_placement :: placement
  es_hot :: hot_mark
  es_blob_required :: bool

definition snapshot_of :: "str_id \<times> stored \<Rightarrow> entry_snapshot" where
  "snapshot_of = (\<lambda>(i, s).
     \<lparr>es_str_id = i, es_stored_bytes = st_bytes s, es_full_len = st_full_len s,
      es_truncated = (st_full_sha256 s \<noteq> None), es_full_sha256 = st_full_sha256 s,
      es_placement = (if is_blob s then Blobs else Strings),
      es_hot = (if req_hot_hard (st_req s) then HotHard else if req_hot_soft (st_req s) then HotSoft else HotNone),
      es_blob_required = req_blob (st_req s)\<rparr>)"

definition dict_entries :: "segment_dicts \<Rightarrow> entry_snapshot list" where
  "dict_entries d = map snapshot_of (sd_entries d)"

definition dict_len :: "segment_dicts \<Rightarrow> usize" where
  "dict_len d = length (sd_entries d)"

text \<open>The counters of \<open>DictStats\<close>; the sums are below 2^64 in any memory and are kept as naturals.\<close>

record dict_stats =
  string_count :: nat
  blob_count :: nat
  truncated_blob_count :: nat
  hot_count :: nat
  string_bytes :: nat
  blob_bytes :: nat

definition zero_stats :: dict_stats where
  "zero_stats = \<lparr>string_count = 0, blob_count = 0, truncated_blob_count = 0, hot_count = 0,
     string_bytes = 0, blob_bytes = 0\<rparr>"

definition stats_step :: "dict_stats \<Rightarrow> stored \<Rightarrow> dict_stats" where
  "stats_step t s =
     (if is_blob s then
        t\<lparr>blob_count := blob_count t + 1,
          truncated_blob_count := truncated_blob_count t + of_bool (st_full_sha256 s \<noteq> None),
          blob_bytes := blob_bytes t + length (st_bytes s)\<rparr>
      else
        t\<lparr>string_count := string_count t + 1, string_bytes := string_bytes t + length (st_bytes s),
          hot_count := (if is_hot s then hot_count t + 1 else hot_count t)\<rparr>)"

definition dict_stats_of :: "segment_dicts \<Rightarrow> dict_stats" where
  "dict_stats_of d = foldl stats_step zero_stats (map snd (sd_entries d))"

end
