(* ===== verification/Dictionary_Props.thy ===== *)
theory Dictionary_Props
  imports Dictionary
begin

text \<open>
  What the dictionaries guarantee. \<open>dicts_wf\<close> is the invariant of
  \<open>crates/kronika-format/src/dictionary.rs\<close>: sorted ids, every entry stored from a value that hashes
  to its id, no strict-hot blob, and the byte counter equal to the stored bytes. \<open>explains\<close> is the
  abstract specification: the dictionaries are a function of the set of accepted requests.
\<close>

section \<open>The invariant\<close>

definition stored_wf :: "hashes \<Rightarrow> dict_limits \<Rightarrow> str_id \<Rightarrow> stored \<Rightarrow> bool" where
  "stored_wf h l i s \<longleftrightarrow>
     i \<noteq> 0 \<and> (\<exists>v. xxh3_64 h v = i \<and> s = new_stored h l v (st_req s)) \<and>
     \<not> (req_hot_hard (st_req s) \<and> is_blob s)"

definition dicts_wf :: "hashes \<Rightarrow> segment_dicts \<Rightarrow> bool" where
  "dicts_wf h d \<longleftrightarrow>
     om_valid (sd_entries d) \<and>
     (\<forall>i s. map_of (sd_entries d) i = Some s \<longrightarrow> stored_wf h (sd_limits d) i s) \<and>
     sd_stored_bytes d = om_sum (\<lambda>_ s. length (st_bytes s)) (sd_entries d)"

lemma length_new_stored [simp]: "length (st_bytes (new_stored h l v rq)) = min (length v) (truncate_limit l)"
  by (simp add: new_stored_def Let_def)

lemma new_stored_simps [simp]:
  "st_req (new_stored h l v rq) = rq" "st_full_len (new_stored h l v rq) = length v"
  "st_oversized (new_stored h l v rq) = (blob_threshold l \<le> length v)"
  "(new_stored h l v rq)\<lparr>st_req := rq'\<rparr> = new_stored h l v rq'"
  "st_bytes (new_stored h l v rq) = take (truncate_limit l) v"
  "st_full_sha256 (new_stored h l v rq) = (if truncate_limit l < length v then Some (sha256 h v) else None)"
  by (simp_all add: new_stored_def Let_def)

lemma dicts_wf_new [simp]: "dicts_wf h (SegmentDicts_new l)"
  by (simp add: dicts_wf_def SegmentDicts_new_def)

lemma sd_limits_new [simp]: "sd_limits (SegmentDicts_new l) = l" "sd_entries (SegmentDicts_new l) = []"
  "sd_stored_bytes (SegmentDicts_new l) = 0"
  by (simp_all add: SegmentDicts_new_def)

text \<open>The two successful branches of an insertion, and the failing ones.\<close>

definition repeat_ok :: "hashes \<Rightarrow> str_id \<Rightarrow> bytes \<Rightarrow> requirements \<Rightarrow> segment_dicts \<Rightarrow> stored \<Rightarrow> bool" where
  "repeat_ok h i v rq d s \<longleftrightarrow>
     map_of (sd_entries d) i = Some s \<and> check_same_value h i s v = Ok () \<and>
     \<not> (req_hot_hard (merge_requirements (st_req s) rq) \<and>
        (req_blob (merge_requirements (st_req s) rq) \<or> st_oversized s))"

definition fresh_ok :: "str_id \<Rightarrow> bytes \<Rightarrow> requirements \<Rightarrow> segment_dicts \<Rightarrow> bool" where
  "fresh_ok i v rq d \<longleftrightarrow>
     map_of (sd_entries d) i = None \<and>
     \<not> (req_hot_hard rq \<and> (req_blob rq \<or> blob_threshold (sd_limits d) \<le> length v)) \<and>
     (req_hot_hard rq \<or>
      saturating_add_usize (sd_stored_bytes d) (min (length v) (truncate_limit (sd_limits d)))
        \<le> max_total_bytes (sd_limits d))"

definition add_repeat :: "str_id \<Rightarrow> requirements \<Rightarrow> stored \<Rightarrow> segment_dicts \<Rightarrow> segment_dicts" where
  "add_repeat i rq s d =
     d\<lparr>sd_entries := om_insert i (s\<lparr>st_req := merge_requirements (st_req s) rq\<rparr>) (sd_entries d)\<rparr>"

definition add_fresh :: "hashes \<Rightarrow> str_id \<Rightarrow> bytes \<Rightarrow> requirements \<Rightarrow> segment_dicts \<Rightarrow> segment_dicts" where
  "add_fresh h i v rq d =
     d\<lparr>sd_stored_bytes := sd_stored_bytes d + min (length v) (truncate_limit (sd_limits d)),
       sd_entries := om_insert i (new_stored h (sd_limits d) v rq) (sd_entries d)\<rparr>"

lemma try_insert_branches:
  "(\<exists>e. try_insert h i v rq d = (Inl e, d)) \<or>
   (\<exists>s. repeat_ok h i v rq d s \<and> try_insert h i v rq d = (Inr i, add_repeat i rq s d)) \<or>
   (fresh_ok i v rq d \<and> try_insert h i v rq d = (Inr i, add_fresh h i v rq d))"
proof (cases "map_of (sd_entries d) i")
  case None
  then show ?thesis
    by (simp add: try_insert_def fresh_ok_def add_fresh_def Let_def not_less)
next
  case (Some s)
  then show ?thesis
    by (cases "check_same_value h i s v") (simp_all add: try_insert_def repeat_ok_def add_repeat_def Let_def)
qed

lemma try_insert_cases [consumes 1, case_names Failed Repeat Fresh]:
  assumes "try_insert h i v rq d = (r, d')"
  obtains e where "r = Inl e" "d' = d"
  | s where "r = Inr i" "repeat_ok h i v rq d s" "d' = add_repeat i rq s d"
  | "r = Inr i" "fresh_ok i v rq d" "d' = add_fresh h i v rq d"
  using try_insert_branches [of h i v rq d] assms by fastforce

lemma try_insert_repeat: "repeat_ok h i v rq d s \<Longrightarrow> try_insert h i v rq d = (Inr i, add_repeat i rq s d)"
  by (auto simp: try_insert_def repeat_ok_def add_repeat_def Let_def split: sum.splits)

lemma try_insert_fresh: "fresh_ok i v rq d \<Longrightarrow> try_insert h i v rq d = (Inr i, add_fresh h i v rq d)"
  by (auto simp: try_insert_def fresh_ok_def add_fresh_def Let_def)

lemma try_insert_Err: "fst (try_insert h i v rq d) = Inl e \<Longrightarrow> snd (try_insert h i v rq d) = d"
  by (cases "try_insert h i v rq d") (auto elim: try_insert_cases)

lemma dict_insert_def2:
  "dict_insert h v rq d =
     (if xxh3_64 h v = 0 then (Inl (Collision 0), d) else try_insert h (xxh3_64 h v) v rq d)"
  by (simp add: dict_insert_def id_or_collision_def StrId_of_def)

lemma dict_insert_Err: "fst (dict_insert h v rq d) = Inl e \<Longrightarrow> snd (dict_insert h v rq d) = d"
  by (auto simp: dict_insert_def2 try_insert_Err split: if_splits)

lemma dict_insert_id: "fst (dict_insert h v rq d) = Inr i \<Longrightarrow> i = xxh3_64 h v \<and> i \<noteq> 0"
  by (cases "try_insert h (xxh3_64 h v) v rq d")
    (auto simp: dict_insert_def2 elim: try_insert_cases split: if_splits)

lemma add_limits [simp]:
  "sd_limits (add_repeat i rq s d) = sd_limits d" "sd_limits (add_fresh h i v rq d) = sd_limits d"
  by (simp_all add: add_repeat_def add_fresh_def)

lemma dict_insert_limits [simp]: "sd_limits (snd (dict_insert h v rq d)) = sd_limits d"
  by (cases "try_insert h (xxh3_64 h v) v rq d")
    (auto simp: dict_insert_def2 elim: try_insert_cases)

lemma stored_wf_cases:
  "stored_wf h l i s \<Longrightarrow> (\<And>v rq. i = xxh3_64 h v \<Longrightarrow> s = new_stored h l v rq \<Longrightarrow> P) \<Longrightarrow> P"
  by (auto simp: stored_wf_def)

lemma new_stored_upd: "s = new_stored h l v rq \<Longrightarrow> s\<lparr>st_req := rq'\<rparr> = new_stored h l v rq'"
  by simp

lemma wf_add_repeat:
  assumes wf: "dicts_wf h d" and ok: "repeat_ok h i v rq d s"
  shows "dicts_wf h (add_repeat i rq s d)"
proof -
  have s: "map_of (sd_entries d) i = Some s" and valid: "om_valid (sd_entries d)"
    using wf ok by (simp_all add: dicts_wf_def repeat_ok_def)
  have "stored_wf h (sd_limits d) i s" using wf s by (simp add: dicts_wf_def)
  then obtain w where "i \<noteq> 0" "xxh3_64 h w = i" and w: "s = new_stored h (sd_limits d) w (st_req s)"
    by (auto simp: stored_wf_def)
  moreover have "s\<lparr>st_req := merge_requirements (st_req s) rq\<rparr>
      = new_stored h (sd_limits d) w (merge_requirements (st_req s) rq)"
    using w by (rule new_stored_upd)
  moreover have "st_oversized s = (blob_threshold (sd_limits d) \<le> length w)"
    by (subst w) simp
  ultimately have "stored_wf h (sd_limits d) i (s\<lparr>st_req := merge_requirements (st_req s) rq\<rparr>)"
    using ok unfolding stored_wf_def by (auto simp: repeat_ok_def is_blob_def)
  then show ?thesis
    using wf valid s om_sum_insert_old [OF valid s, of "\<lambda>_ s. length (st_bytes s)"
        "s\<lparr>st_req := merge_requirements (st_req s) rq\<rparr>"]
    by (auto simp: dicts_wf_def add_repeat_def om_valid_insert om_get_insert)
qed

lemma wf_add_fresh:
  assumes wf: "dicts_wf h d" and ok: "fresh_ok i v rq d" and "i = xxh3_64 h v" "i \<noteq> 0"
  shows "dicts_wf h (add_fresh h i v rq d)"
proof -
  have none: "map_of (sd_entries d) i = None" and valid: "om_valid (sd_entries d)"
    using wf ok by (simp_all add: dicts_wf_def fresh_ok_def)
  have "stored_wf h (sd_limits d) i (new_stored h (sd_limits d) v rq)"
    using ok assms(3,4) by (auto simp: stored_wf_def fresh_ok_def is_blob_def)
  then show ?thesis
    using wf valid none
    by (auto simp: dicts_wf_def add_fresh_def om_valid_insert om_get_insert om_sum_insert_new)
qed

lemma dict_insert_wf: "dicts_wf h d \<Longrightarrow> dicts_wf h (snd (dict_insert h v rq d))"
  by (cases "try_insert h (xxh3_64 h v) v rq d")
    (auto simp: dict_insert_def2 wf_add_repeat wf_add_fresh elim!: try_insert_cases)

section \<open>Sequences of requests\<close>

type_synonym dict_request = "bytes \<times> requirements"

fun dict_run :: "hashes \<Rightarrow> dict_request list \<Rightarrow> segment_dicts \<Rightarrow> segment_dicts" where
  "dict_run h [] d = d"
| "dict_run h ((v, rq) # rs) d = dict_run h rs (snd (dict_insert h v rq d))"

fun dict_accepted :: "hashes \<Rightarrow> dict_request list \<Rightarrow> segment_dicts \<Rightarrow> dict_request list" where
  "dict_accepted h [] d = []"
| "dict_accepted h ((v, rq) # rs) d =
     (if is_ok (fst (dict_insert h v rq d)) then [(v, rq)] else []) @
     dict_accepted h rs (snd (dict_insert h v rq d))"

lemma dict_run_wf: "dicts_wf h d \<Longrightarrow> dicts_wf h (dict_run h rs d)"
  by (induction h rs d rule: dict_run.induct) (simp_all add: dict_insert_wf)

lemma dict_run_limits [simp]: "sd_limits (dict_run h rs d) = sd_limits d"
  by (induction h rs d rule: dict_run.induct) simp_all

lemma dict_accepted_subset: "set (dict_accepted h rs d) \<subseteq> set rs"
  by (induction h rs d rule: dict_accepted.induct) (auto split: if_splits)

text \<open>An entry, once made, keeps its bytes and length, and its requirements only grow.\<close>

definition req_le :: "requirements \<Rightarrow> requirements \<Rightarrow> bool" where
  "req_le a b \<longleftrightarrow> (req_blob a \<longrightarrow> req_blob b) \<and> (req_hot_hard a \<longrightarrow> req_hot_hard b) \<and>
     (req_hot_soft a \<longrightarrow> req_hot_soft b)"

definition stored_le :: "stored \<Rightarrow> stored \<Rightarrow> bool" where
  "stored_le s t \<longleftrightarrow> t = s\<lparr>st_req := st_req t\<rparr> \<and> req_le (st_req s) (st_req t)"

lemma req_le_refl [simp]: "req_le a a"
  by (simp add: req_le_def)

lemma req_le_merge [simp]: "req_le a (merge_requirements a b)" "req_le b (merge_requirements a b)"
  by (simp_all add: req_le_def merge_requirements_def)

lemma stored_le_refl [simp]: "stored_le s s"
  by (simp add: stored_le_def)

lemma stored_le_trans: "stored_le s t \<Longrightarrow> stored_le t u \<Longrightarrow> stored_le s u"
  by (cases s, cases t, cases u) (auto simp: stored_le_def req_le_def)

lemma dict_insert_grows:
  assumes "dicts_wf h d" "map_of (sd_entries d) i = Some s"
  shows "\<exists>t. map_of (sd_entries (snd (dict_insert h v rq d))) i = Some t \<and> stored_le s t"
proof (cases "xxh3_64 h v = 0")
  case True
  then show ?thesis using assms by (simp add: dict_insert_def2)
next
  case False
  obtain r d' where step: "try_insert h (xxh3_64 h v) v rq d = (r, d')" by force
  have valid: "om_valid (sd_entries d)" using assms(1) by (simp add: dicts_wf_def)
  have "snd (dict_insert h v rq d) = d'" using False step by (simp add: dict_insert_def2)
  with step show ?thesis
    using False assms(2)
    by (cases rule: try_insert_cases)
      (auto simp: dict_insert_def2 add_repeat_def add_fresh_def om_get_insert [OF valid] repeat_ok_def
        fresh_ok_def stored_le_def)
qed

lemma dict_run_grows:
  "dicts_wf h d \<Longrightarrow> map_of (sd_entries d) i = Some s \<Longrightarrow>
   \<exists>t. map_of (sd_entries (dict_run h rs d)) i = Some t \<and> stored_le s t"
proof (induction h rs d arbitrary: s rule: dict_run.induct)
  case (2 h v rq rs d)
  obtain t where t: "map_of (sd_entries (snd (dict_insert h v rq d))) i = Some t" "stored_le s t"
    using dict_insert_grows [OF 2(2,3)] by blast
  then show ?case using 2(1) [OF dict_insert_wf [OF 2(2)] t(1)] by (auto intro: stored_le_trans)
qed auto

section \<open>The specification: dictionaries as a function of the accepted requests\<close>

text \<open>The requirements accumulated for one id by a set of requests.\<close>

definition joined :: "hashes \<Rightarrow> dict_request set \<Rightarrow> str_id \<Rightarrow> requirements" where
  "joined h A i =
     \<lparr>req_blob = (\<exists>(v, rq) \<in> A. xxh3_64 h v = i \<and> req_blob rq),
      req_hot_hard = (\<exists>(v, rq) \<in> A. xxh3_64 h v = i \<and> req_hot_hard rq),
      req_hot_soft = (\<exists>(v, rq) \<in> A. xxh3_64 h v = i \<and> req_hot_soft rq)\<rparr>"

definition explains :: "hashes \<Rightarrow> dict_limits \<Rightarrow> dict_request set \<Rightarrow> (str_id, stored) omap \<Rightarrow> bool" where
  "explains h l A m \<longleftrightarrow>
     om_valid m \<and>
     (\<forall>i. (map_of m i = None \<longleftrightarrow> (\<forall>(v, rq) \<in> A. xxh3_64 h v \<noteq> i)) \<and>
          (\<forall>s. map_of m i = Some s \<longrightarrow>
             (\<forall>(v, rq) \<in> A. xxh3_64 h v = i \<longrightarrow> s = new_stored h l v (joined h A i))))"

text \<open>
  SHA-256 tells apart equally long values with the same id. Only values longer than the truncation
  limit need it: shorter ones are compared byte for byte.
\<close>

definition sha_distinguishes :: "hashes \<Rightarrow> bytes set \<Rightarrow> bool" where
  "sha_distinguishes h V \<longleftrightarrow>
     (\<forall>v \<in> V. \<forall>w \<in> V. length v = length w \<and> xxh3_64 h v = xxh3_64 h w \<and> sha256 h v = sha256 h w \<longrightarrow> v = w)"

lemma explains_empty: "explains h l {} []"
  by (simp add: explains_def)

lemma explains_valid: "explains h l A m \<Longrightarrow> om_valid m"
  by (simp add: explains_def)

lemma explains_None: "explains h l A m \<Longrightarrow> map_of m i = None \<Longrightarrow> (v, rq) \<in> A \<Longrightarrow> xxh3_64 h v \<noteq> i"
  by (auto simp: explains_def)

lemma explains_Some:
  "explains h l A m \<Longrightarrow> map_of m i = Some s \<Longrightarrow> (v, rq) \<in> A \<Longrightarrow> xxh3_64 h v = i \<Longrightarrow>
   s = new_stored h l v (joined h A i)"
  unfolding explains_def by blast

lemma explains_witness:
  assumes "explains h l A m" "map_of m i = Some s"
  obtains v rq where "(v, rq) \<in> A" "xxh3_64 h v = i" "s = new_stored h l v (joined h A i)"
proof -
  have "map_of m i = None \<longleftrightarrow> (\<forall>(v, rq) \<in> A. xxh3_64 h v \<noteq> i)"
    using assms(1) by (simp add: explains_def)
  with assms(2) obtain v rq where v: "(v, rq) \<in> A" "xxh3_64 h v = i" by auto
  show ?thesis by (rule that [OF v explains_Some [OF assms v]])
qed

lemma joined_insert:
  "joined h (insert (v, rq) A) i = (if xxh3_64 h v = i then merge_requirements (joined h A i) rq else joined h A i)"
  by (auto simp: joined_def merge_requirements_def)

lemma joined_none: "(\<And>v rq. (v, rq) \<in> A \<Longrightarrow> xxh3_64 h v \<noteq> i) \<Longrightarrow> joined h A i = no_requirements"
  by (auto simp: joined_def no_requirements_def)

lemma merge_no_requirements [simp]: "merge_requirements no_requirements rq = rq"
  by (simp add: merge_requirements_def no_requirements_def)

text \<open>A value that passes the collision check against a stored one is that value.\<close>

lemma check_same_value_new:
  assumes "sha_distinguishes h V" "v \<in> V" "w \<in> V" "xxh3_64 h v = xxh3_64 h w"
  shows "check_same_value h i (new_stored h l w rq) v = Ok () \<longleftrightarrow> v = w"
  using assms unfolding sha_distinguishes_def check_same_value_def
  by (auto split: if_splits)

lemma explains_unique:
  assumes m: "explains h l A m" and n: "explains h l A n"
  shows "m = n"
proof (rule om.iter_extensional [OF explains_valid [OF m] explains_valid [OF n]])
  fix i
  show "map_of m i = map_of n i"
  proof (cases "map_of m i")
    case None
    then have "\<forall>(v, rq) \<in> A. xxh3_64 h v \<noteq> i" using m by (simp add: explains_def)
    then have "map_of n i = None" using n by (simp add: explains_def)
    with None show ?thesis by simp
  next
    case (Some s)
    obtain v rq where v: "(v, rq) \<in> A" "xxh3_64 h v = i" "s = new_stored h l v (joined h A i)"
      by (rule explains_witness [OF m Some])
    then obtain t where t: "map_of n i = Some t" using explains_None [OF n _ v(1)] by fastforce
    have "t = s" using explains_Some [OF n t v(1,2)] v(3) by simp
    with t Some show ?thesis by simp
  qed
qed

lemma explains_repeat:
  assumes m: "explains h l A m" and s: "map_of m i = Some s" and i: "xxh3_64 h v = i"
    and sha: "sha_distinguishes h (insert v (fst ` A))" and same: "check_same_value h i s v = Ok ()"
  shows "explains h l (insert (v, rq) A) (om_insert i (s\<lparr>st_req := merge_requirements (st_req s) rq\<rparr>) m)"
proof -
  have eq: "w = v" if "(w, rq') \<in> A" "xxh3_64 h w = i" for w rq'
  proof -
    have s': "s = new_stored h l w (joined h A i)" by (rule explains_Some [OF m s that])
    show ?thesis
      using check_same_value_new [OF sha, of v w i l "joined h A i"] same that i
      unfolding s' by (force simp: image_iff)
  qed
  obtain rv where v: "(v, rv) \<in> A" using eq by (rule_tac explains_witness [OF m s]) blast
  then have s': "s = new_stored h l v (joined h A i)" using explains_Some [OF m s] i by blast
  have valid: "om_valid m" by (rule explains_valid [OF m])
  show ?thesis
    unfolding explains_def
  proof (intro conjI allI impI)
    show "om_valid (om_insert i (s\<lparr>st_req := merge_requirements (st_req s) rq\<rparr>) m)"
      by (rule om_valid_insert [OF valid])
  next
    fix j
    have "map_of m j = None \<longleftrightarrow> (\<forall>(v, rq) \<in> A. xxh3_64 h v \<noteq> j)"
      using m by (simp add: explains_def)
    then show "map_of (om_insert i (s\<lparr>st_req := merge_requirements (st_req s) rq\<rparr>) m) j = None
        \<longleftrightarrow> (\<forall>(v, rq) \<in> insert (v, rq) A. xxh3_64 h v \<noteq> j)"
      using i by (auto simp: om_get_insert [OF valid])
  next
    fix j t
    assume t: "map_of (om_insert i (s\<lparr>st_req := merge_requirements (st_req s) rq\<rparr>) m) j = Some t"
    show "\<forall>(w, rq') \<in> insert (v, rq) A. xxh3_64 h w = j \<longrightarrow> t = new_stored h l w (joined h (insert (v, rq) A) j)"
    proof (cases "j = i")
      case True
      then have "t = new_stored h l v (merge_requirements (joined h A i) rq)"
        using t unfolding s' by (simp add: om_get_insert [OF valid])
      then show ?thesis using True i eq by (auto simp: joined_insert)
    next
      case False
      then show ?thesis
        using t i explains_Some [OF m] by (auto simp: om_get_insert [OF valid] joined_insert)
    qed
  qed
qed

lemma explains_fresh:
  assumes m: "explains h l A m" and none: "map_of m i = None" and i: "xxh3_64 h v = i"
  shows "explains h l (insert (v, rq) A) (om_insert i (new_stored h l v rq) m)"
proof -
  have valid: "om_valid m" by (rule explains_valid [OF m])
  have no: "xxh3_64 h w \<noteq> i" if "(w, rq') \<in> A" for w rq' by (rule explains_None [OF m none that])
  show ?thesis
    unfolding explains_def
  proof (intro conjI allI impI)
    show "om_valid (om_insert i (new_stored h l v rq) m)" by (rule om_valid_insert [OF valid])
  next
    fix j
    have "map_of m j = None \<longleftrightarrow> (\<forall>(v, rq) \<in> A. xxh3_64 h v \<noteq> j)"
      using m by (simp add: explains_def)
    then show "map_of (om_insert i (new_stored h l v rq) m) j = None
        \<longleftrightarrow> (\<forall>(v, rq) \<in> insert (v, rq) A. xxh3_64 h v \<noteq> j)"
      using i by (auto simp: om_get_insert [OF valid])
  next
    fix j t
    assume t: "map_of (om_insert i (new_stored h l v rq) m) j = Some t"
    show "\<forall>(w, rq') \<in> insert (v, rq) A. xxh3_64 h w = j \<longrightarrow> t = new_stored h l w (joined h (insert (v, rq) A) j)"
    proof (cases "j = i")
      case True
      then show ?thesis
        using t i no by (auto simp: om_get_insert [OF valid] joined_insert joined_none [OF no])
    next
      case False
      then show ?thesis
        using t i explains_Some [OF m] by (auto simp: om_get_insert [OF valid] joined_insert)
    qed
  qed
qed

lemma explains_step:
  assumes m: "explains h (sd_limits d) A (sd_entries d)" and sha: "sha_distinguishes h (insert v (fst ` A))"
  shows "explains h (sd_limits d) (if is_ok (fst (dict_insert h v rq d)) then insert (v, rq) A else A)
    (sd_entries (snd (dict_insert h v rq d)))"
proof (cases "xxh3_64 h v = 0")
  case True
  then show ?thesis using m by (simp add: dict_insert_def2)
next
  case False
  obtain r d' where step: "try_insert h (xxh3_64 h v) v rq d = (r, d')" by force
  then have eq: "dict_insert h v rq d = (r, d')" using False by (simp add: dict_insert_def2)
  from step show ?thesis
  proof (cases rule: try_insert_cases)
    case (Failed e)
    then show ?thesis using m eq by simp
  next
    case (Repeat s)
    then show ?thesis
      using explains_repeat [OF m _ refl sha, of s rq] eq by (simp add: add_repeat_def repeat_ok_def)
  next
    case Fresh
    then show ?thesis
      using explains_fresh [OF m _ refl, of v rq] eq by (simp add: add_fresh_def fresh_ok_def)
  qed
qed

lemma sha_distinguishes_subset: "sha_distinguishes h V \<Longrightarrow> W \<subseteq> V \<Longrightarrow> sha_distinguishes h W"
  by (auto simp: sha_distinguishes_def)

lemma explains_run:
  "explains h (sd_limits d) A (sd_entries d) \<Longrightarrow> sha_distinguishes h (fst ` (A \<union> set rs)) \<Longrightarrow>
   explains h (sd_limits d) (A \<union> set (dict_accepted h rs d)) (sd_entries (dict_run h rs d))"
proof (induction h rs d arbitrary: A rule: dict_run.induct)
  case (2 h v rq rs d)
  let ?A = "if is_ok (fst (dict_insert h v rq d)) then insert (v, rq) A else A"
  have "explains h (sd_limits d) ?A (sd_entries (snd (dict_insert h v rq d)))"
    by (rule explains_step [OF 2(2)]) (rule sha_distinguishes_subset [OF 2(3)], auto)
  moreover have "sha_distinguishes h (fst ` (?A \<union> set rs))"
    by (rule sha_distinguishes_subset [OF 2(3)]) auto
  ultimately have "explains h (sd_limits d) (?A \<union> set (dict_accepted h rs (snd (dict_insert h v rq d))))
      (sd_entries (dict_run h rs (snd (dict_insert h v rq d))))"
    using 2(1) [of ?A] by simp
  then show ?case by (auto split: if_splits)
qed simp

lemma explains_run_new:
  "sha_distinguishes h (fst ` set rs) \<Longrightarrow>
   explains h l (set (dict_accepted h rs (SegmentDicts_new l))) (sd_entries (dict_run h rs (SegmentDicts_new l)))"
  using explains_run [of h "SegmentDicts_new l" "{}" rs] by (simp add: explains_empty)

lemma dicts_eqI:
  assumes "dicts_wf h d" "dicts_wf h d'" "sd_limits d = sd_limits d'" "sd_entries d = sd_entries d'"
  shows "d = d'"
  using assms by (cases d, cases d') (simp add: dicts_wf_def)

section \<open>Which batches are accepted\<close>

definition compatible :: "hashes \<Rightarrow> dict_limits \<Rightarrow> dict_request set \<Rightarrow> bool" where
  "compatible h l R \<longleftrightarrow>
     (\<forall>(v, rq) \<in> R. xxh3_64 h v \<noteq> 0 \<and>
        (\<forall>(w, rq') \<in> R. xxh3_64 h w = xxh3_64 h v \<longrightarrow> w = v) \<and>
        \<not> (req_hot_hard (joined h R (xxh3_64 h v)) \<and>
           (req_blob (joined h R (xxh3_64 h v)) \<or> blob_threshold l \<le> length v)))"

lemma saturating_add_le: "saturating_add_usize a b \<le> a + b"
  by (simp add: saturating_add_usize_def)

definition batch_bytes :: "dict_limits \<Rightarrow> dict_request list \<Rightarrow> nat" where
  "batch_bytes l rs = (\<Sum>(v, rq) \<leftarrow> rs. min (length v) (truncate_limit l))"

lemma joined_mono: "A \<subseteq> B \<Longrightarrow> req_le (joined h A i) (joined h B i)"
  by (auto simp: joined_def req_le_def)

lemma compatibleD:
  assumes "compatible h l R" "(v, rq) \<in> R"
  shows "xxh3_64 h v \<noteq> 0" "(w, rq') \<in> R \<Longrightarrow> xxh3_64 h w = xxh3_64 h v \<Longrightarrow> w = v"
    "req_hot_hard (joined h R (xxh3_64 h v)) \<Longrightarrow>
     \<not> req_blob (joined h R (xxh3_64 h v)) \<and> length v < blob_threshold l"
  using assms by (auto simp: compatible_def not_le)

lemma compatible_subset:
  assumes B: "compatible h l B" and A: "A \<subseteq> B"
  shows "compatible h l A"
  unfolding compatible_def
proof safe
  fix v rq
  assume "(v, rq) \<in> A"
  then have v: "(v, rq) \<in> B" using A by blast
  note D = compatibleD [OF B v] and mono = joined_mono [OF A, of h "xxh3_64 h v", unfolded req_le_def]
  show "xxh3_64 h v = 0 \<Longrightarrow> False" using D(1) by blast
  show "req_hot_hard (joined h A (xxh3_64 h v)) \<Longrightarrow> req_blob (joined h A (xxh3_64 h v)) \<Longrightarrow> False"
    "req_hot_hard (joined h A (xxh3_64 h v)) \<Longrightarrow> blob_threshold l \<le> length v \<Longrightarrow> False"
    using D(3) mono by auto
  show "w = v" if "(w, rw) \<in> A" "xxh3_64 h w = xxh3_64 h v" for w rw using D(2) that A by blast
qed

lemma merge_joined: "xxh3_64 h v = i \<Longrightarrow> merge_requirements (joined h A i) rq = joined h (insert (v, rq) A) i"
  by (simp add: joined_insert)

lemma compatible_step:
  assumes m: "explains h (sd_limits d) A (sd_entries d)"
    and ok: "compatible h (sd_limits d) (insert (v, rq) A)"
    and room: "sd_stored_bytes d + min (length v) (truncate_limit (sd_limits d)) \<le> max_total_bytes (sd_limits d)"
  shows "is_ok (fst (dict_insert h v rq d)) \<and>
    sd_stored_bytes (snd (dict_insert h v rq d))
      \<le> sd_stored_bytes d + min (length v) (truncate_limit (sd_limits d))"
proof -
  let ?i = "xxh3_64 h v"
  have nz: "?i \<noteq> 0" and same: "\<And>w rq'. (w, rq') \<in> A \<Longrightarrow> xxh3_64 h w = ?i \<Longrightarrow> w = v"
    and place: "\<not> (req_hot_hard (joined h (insert (v, rq) A) ?i) \<and>
      (req_blob (joined h (insert (v, rq) A) ?i) \<or> blob_threshold (sd_limits d) \<le> length v))"
    using ok by (auto simp: compatible_def)
  show ?thesis
  proof (cases "map_of (sd_entries d) ?i")
    case None
    then have "joined h A ?i = no_requirements"
      using explains_None [OF m None] by (intro joined_none) blast
    then have "fresh_ok ?i v rq d"
      using None place room merge_joined [of h v ?i A rq] 
      by (simp add: fresh_ok_def order_trans [OF saturating_add_le])
    then show ?thesis using nz by (simp add: dict_insert_def2 try_insert_fresh add_fresh_def)
  next
    case (Some s)
    obtain w rw where w: "(w, rw) \<in> A" "xxh3_64 h w = ?i" "s = new_stored h (sd_limits d) w (joined h A ?i)"
      by (rule explains_witness [OF m Some])
    then have s: "s = new_stored h (sd_limits d) v (joined h A ?i)" using same by blast
    have "repeat_ok h ?i v rq d s"
      unfolding repeat_ok_def
      using Some place merge_joined [of h v ?i A rq]
      by (simp add: s check_same_value_def del: joined_insert)
    then show ?thesis using nz by (simp add: dict_insert_def2 try_insert_repeat add_repeat_def)
  qed
qed

lemma compatible_run:
  "explains h (sd_limits d) A (sd_entries d) \<Longrightarrow> sha_distinguishes h (fst ` (A \<union> set rs)) \<Longrightarrow>
   compatible h (sd_limits d) (A \<union> set rs) \<Longrightarrow>
   sd_stored_bytes d + batch_bytes (sd_limits d) rs \<le> max_total_bytes (sd_limits d) \<Longrightarrow>
   dict_accepted h rs d = rs"
proof (induction h rs d arbitrary: A rule: dict_run.induct)
  case (2 h v rq rs d)
  have ok: "compatible h (sd_limits d) (insert (v, rq) A)"
    by (rule compatible_subset [OF 2(4)]) auto
  have room: "sd_stored_bytes d + min (length v) (truncate_limit (sd_limits d)) \<le> max_total_bytes (sd_limits d)"
    using 2(5) by (simp add: batch_bytes_def)
  note step = compatible_step [OF 2(2) ok room]
  have "explains h (sd_limits d) (insert (v, rq) A) (sd_entries (snd (dict_insert h v rq d)))"
    using explains_step [OF 2(2) sha_distinguishes_subset [OF 2(3)], of v rq] step by auto
  then have "dict_accepted h rs (snd (dict_insert h v rq d)) = rs"
    using 2(1) [of "insert (v, rq) A"] 2(3-5) step by (simp add: batch_bytes_def)
  then show ?case using step by simp
qed simp

lemma accepted_compatible:
  assumes m: "explains h (sd_limits d) A (sd_entries d)" and wf: "dicts_wf h d" and sha: "sha_distinguishes h (fst ` A)"
  shows "compatible h (sd_limits d) A"
  unfolding compatible_def
proof safe
  fix v rq
  assume v: "(v, rq) \<in> A"
  let ?i = "xxh3_64 h v"
  obtain s where s: "map_of (sd_entries d) ?i = Some s" using explains_None [OF m _ v] by fastforce
  have eq: "s = new_stored h (sd_limits d) v (joined h A ?i)" by (rule explains_Some [OF m s v refl])
  have st: "stored_wf h (sd_limits d) ?i s" using wf s by (simp add: dicts_wf_def)
  then show "?i = 0 \<Longrightarrow> False" by (simp add: stored_wf_def)
  have place: "\<not> (req_hot_hard (joined h A ?i) \<and> (req_blob (joined h A ?i) \<or> blob_threshold (sd_limits d) \<le> length v))"
    using st by (simp add: stored_wf_def is_blob_def eq)
  then show "req_hot_hard (joined h A ?i) \<Longrightarrow> req_blob (joined h A ?i) \<Longrightarrow> False"
    and "req_hot_hard (joined h A ?i) \<Longrightarrow> blob_threshold (sd_limits d) \<le> length v \<Longrightarrow> False"
    by blast+
  fix w rw
  assume w: "(w, rw) \<in> A" "xxh3_64 h w = ?i"
  have "s = new_stored h (sd_limits d) w (joined h A ?i)" by (rule explains_Some [OF m s w])
  then have "check_same_value h ?i (new_stored h (sd_limits d) v (joined h A ?i)) w = Ok ()"
    using eq by (simp add: check_same_value_def)
  moreover have "w \<in> fst ` A" "v \<in> fst ` A" using v w by force+
  ultimately show "w = v"
    using check_same_value_new [OF sha, of w v] w by blast
qed

text \<open>The statistics count every entry once and every stored byte once.\<close>

lemma stats_step_totals:
  "string_count (stats_step t s) + blob_count (stats_step t s) = string_count t + blob_count t + 1"
  "string_bytes (stats_step t s) + blob_bytes (stats_step t s) = string_bytes t + blob_bytes t + length (st_bytes s)"
  by (simp_all add: stats_step_def)

lemma stats_totals_from:
  "string_count (foldl stats_step t (map snd m)) + blob_count (foldl stats_step t (map snd m))
     = string_count t + blob_count t + length m \<and>
   string_bytes (foldl stats_step t (map snd m)) + blob_bytes (foldl stats_step t (map snd m))
     = string_bytes t + blob_bytes t + om_sum (\<lambda>_ s. length (st_bytes s)) m"
proof (induction m arbitrary: t)
  case (Cons a m)
  show ?case
    using Cons [of "stats_step t (snd a)"] stats_step_totals [of t "snd a"] by (cases a) simp
qed simp

lemma stats_totals:
  "string_count (dict_stats_of d) + blob_count (dict_stats_of d) = length (sd_entries d)"
  "string_bytes (dict_stats_of d) + blob_bytes (dict_stats_of d) = om_sum (\<lambda>_ s. length (st_bytes s)) (sd_entries d)"
  using stats_totals_from [of zero_stats "sd_entries d"] by (simp_all add: dict_stats_of_def zero_stats_def)

section \<open>Properties\<close>

text \<open>Stand-ins for the hash functions at concrete inputs: the length plus one, and the value itself.\<close>

definition sample_hashes :: hashes where
  "sample_hashes = \<lparr>xxh3_64 = (\<lambda>v. of_nat (length v) + 1), sha256 = (\<lambda>v. v)\<rparr>"

definition sample_limits :: dict_limits where
  "sample_limits = \<lparr>blob_threshold = 2, truncate_limit = 3, max_total_bytes = 6\<rparr>"

lemmas sample_eval =
  sample_hashes_def sample_limits_def dict_insert_def2 try_insert_def new_stored_def no_requirements_def
  merge_requirements_def check_same_value_def SegmentDicts_new_def saturating_add_usize_def validate_limits_def
  is_blob_def is_hot_def dict_resolve_def blob_entry_of_def batch_bytes_def dict_len_def

lemma sample_sha: "sha_distinguishes sample_hashes V"
  by (simp add: sha_distinguishes_def sample_hashes_def)

text \<open>
  C18: the dictionaries are a function of the set of accepted requests. Two runs from empty
  dictionaries, in any order and with any repetitions and rejected calls in between, that accept the
  same requests end in the same dictionaries (all entries, placements, marks and the byte count).
\<close>

theorem dictionary_of_accepted:
  assumes "sha_distinguishes h (fst ` set rs)" "sha_distinguishes h (fst ` set rs')"
    and "set (dict_accepted h rs (SegmentDicts_new l)) = set (dict_accepted h rs' (SegmentDicts_new l))"
  shows "dict_run h rs (SegmentDicts_new l) = dict_run h rs' (SegmentDicts_new l)"
proof (rule dicts_eqI)
  show "dicts_wf h (dict_run h rs (SegmentDicts_new l))" "dicts_wf h (dict_run h rs' (SegmentDicts_new l))"
    by (simp_all add: dict_run_wf)
  show "sd_entries (dict_run h rs (SegmentDicts_new l)) = sd_entries (dict_run h rs' (SegmentDicts_new l))"
    using explains_run_new [OF assms(1), of l] explains_run_new [OF assms(2), of l] assms(3)
    by (auto intro: explains_unique)
qed simp

theorem dictionary_of_accepted_witness:
  "dict_run sample_hashes [([1, 2], no_requirements), ([3], no_requirements\<lparr>req_hot_soft := True\<rparr>),
       ([4], no_requirements)] (SegmentDicts_new sample_limits)
   = dict_run sample_hashes [([3], no_requirements\<lparr>req_hot_soft := True\<rparr>), ([1, 2], no_requirements)]
       (SegmentDicts_new sample_limits)"
  by (rule dictionary_of_accepted)
    (simp_all add: sample_sha, simp add: sample_eval insert_commute)

text \<open>
  Which batches are accepted. When the batch fits the byte cap, every request of it is accepted
  exactly when no value hashes to zero, no two values share an id, and no strict-hot value is forced
  into the blobs or large enough to be one, whichever request asks for what. The condition does not
  depend on the order of the requests.
\<close>

lemma batch_admission:
  assumes "sha_distinguishes h (fst ` set rs)" "batch_bytes l rs \<le> max_total_bytes l"
  shows "dict_accepted h rs (SegmentDicts_new l) = rs \<longleftrightarrow> compatible h l (set rs)"
proof
  assume "dict_accepted h rs (SegmentDicts_new l) = rs"
  then show "compatible h l (set rs)"
    using accepted_compatible [of h "dict_run h rs (SegmentDicts_new l)" "set rs"]
      explains_run_new [OF assms(1), of l] assms(1) by (simp add: dict_run_wf)
next
  assume "compatible h l (set rs)"
  then show "dict_accepted h rs (SegmentDicts_new l) = rs"
    using compatible_run [of h "SegmentDicts_new l" "{}" rs] assms by (simp add: explains_empty)
qed

text \<open>
  An issued id resolves for the rest of the segment. Once a value is accepted, whatever is
  interned later, its id resolves to the value: in full from the strings when it is shorter than the
  blob threshold and not forced out, otherwise to its blob row with the stored prefix, the full
  length, and the SHA-256 of the full value when it is truncated.
\<close>

lemma interned_resolves:
  assumes "validate_limits l = Ok l" and "d = dict_run h rs (SegmentDicts_new l)"
    and "fst (dict_insert h v rq d) = Ok i"
    and "sha_distinguishes h (insert v (fst ` (set rs \<union> set later)))"
  shows "dict_resolve (dict_run h later (snd (dict_insert h v rq d))) i = Some (ResolvedStr v) \<and>
       length v < blob_threshold l \<or>
     dict_resolve (dict_run h later (snd (dict_insert h v rq d))) i =
       Some (ResolvedBlob \<lparr>be_str_id = i, be_stored_bytes = take (truncate_limit l) v, be_full_len = length v,
         be_truncated = (truncate_limit l < length v),
         be_full_sha256 = (if truncate_limit l < length v then Some (sha256 h v) else None)\<rparr>)"
proof -
  let ?A = "insert (v, rq) (set (dict_accepted h rs (SegmentDicts_new l)))"
  let ?d = "snd (dict_insert h v rq d)"
  have acc: "set (dict_accepted h rs (SegmentDicts_new l)) \<subseteq> set rs" by (rule dict_accepted_subset)
  have lim: "sd_limits d = l" by (simp add: assms(2))
  have i: "xxh3_64 h v = i" using dict_insert_id [OF assms(3)] by simp
  have "explains h l (set (dict_accepted h rs (SegmentDicts_new l))) (sd_entries d)"
    unfolding assms(2)
    by (rule explains_run_new) (rule sha_distinguishes_subset [OF assms(4)], auto)
  then have "explains h l ?A (sd_entries ?d)"
    using explains_step [of h d "set (dict_accepted h rs (SegmentDicts_new l))" v rq] assms(3) lim
      sha_distinguishes_subset [OF assms(4), of "insert v (fst ` set (dict_accepted h rs (SegmentDicts_new l)))"] acc
    by auto
  moreover have "sha_distinguishes h (fst ` (?A \<union> set later))"
    by (rule sha_distinguishes_subset [OF assms(4)]) (use acc in auto)
  ultimately have final: "explains h l (?A \<union> set (dict_accepted h later ?d)) (sd_entries (dict_run h later ?d))"
    using explains_run [of h ?d ?A later] lim by simp
  obtain s where s: "map_of (sd_entries (dict_run h later ?d)) i = Some s"
    using explains_None [OF final, of i v rq] i by fastforce
  obtain q where q: "s = new_stored h l v q"
    using explains_Some [OF final s, of v rq] i by blast
  show ?thesis
    using s assms(1)
    by (auto simp: dict_resolve_def q is_blob_def blob_entry_of_def validate_limits_def not_le split: if_splits)
qed

text \<open>
  The tables of any reachable dictionaries. Ids are strictly sorted, no id is both in the strings
  and in the blobs, the hot strings are among the strings, every strict-hot value is hot, and the
  byte counter equals the bytes that the statistics report.
\<close>

lemma dictionary_tables:
  assumes "d = dict_run h rs (SegmentDicts_new l)"
  shows "sorted_wrt (<) (map fst (sd_entries d)) \<and>
    fst ` set (dict_strings d) \<inter> be_str_id ` set (dict_blobs d) = {} \<and>
    set (dict_hot_strings d) \<subseteq> set (dict_strings d) \<and>
    (\<forall>e \<in> set (dict_entries d). es_hot e = HotHard \<longrightarrow> (es_str_id e, es_stored_bytes e) \<in> set (dict_hot_strings d)) \<and>
    dict_len d = string_count (dict_stats_of d) + blob_count (dict_stats_of d) \<and>
    sd_stored_bytes d = string_bytes (dict_stats_of d) + blob_bytes (dict_stats_of d)"
proof -
  have wf: "dicts_wf h d" by (simp add: assms dict_run_wf)
  then have valid: "om_valid (sd_entries d)" by (simp add: dicts_wf_def)
  have "\<not> (req_hot_hard (st_req s) \<and> is_blob s)" if "(i, s) \<in> set (sd_entries d)" for i s
    using wf that om_iter_get [OF valid] by (auto simp: dicts_wf_def stored_wf_def)
  then have hard: "\<forall>e \<in> set (dict_entries d). es_hot e = HotHard \<longrightarrow>
      (es_str_id e, es_stored_bytes e) \<in> set (dict_hot_strings d)"
    by (force simp: dict_entries_def snapshot_of_def dict_hot_strings_def is_hot_def split: if_splits)
  have disj: "fst ` set (dict_strings d) \<inter> be_str_id ` set (dict_blobs d) = {}"
    using om_iter_get [OF valid]
    by (fastforce simp: dict_strings_def dict_blobs_def blob_entry_of_def)
  have hot: "set (dict_hot_strings d) \<subseteq> set (dict_strings d)"
    by (auto simp: dict_hot_strings_def dict_strings_def is_hot_def)
  show ?thesis
    using om_sorted [OF valid] hard disj hot stats_totals [of d] wf
    by (simp add: dicts_wf_def dict_len_def)
qed

text \<open>
  C19: a failed call changes nothing, and each error means what it says. A collision is a zero hash or
  an id already used for other content; a placement conflict needs a strict-hot request against a blob
  requirement or a large value; the full signal is only given for a new value that does not fit and
  is not strict-hot.
\<close>

theorem dict_insert_failure:
  assumes "dict_insert h v rq d = (Err e, d')"
  shows "d' = d \<and>
    (case e of
       Collision c \<Rightarrow> c = xxh3_64 h v \<and>
         (c = 0 \<or> (case map_of (sd_entries d) c of None \<Rightarrow> False | Some s \<Rightarrow>
            st_full_len s \<noteq> length v \<or> (case st_full_sha256 s of None \<Rightarrow> st_bytes s \<noteq> v | Some x \<Rightarrow> x \<noteq> sha256 h v)))
     | PlacementConflict i \<Rightarrow> i = xxh3_64 h v \<and>
         (\<exists>q. (case map_of (sd_entries d) i of None \<Rightarrow> q = no_requirements | Some s \<Rightarrow> q = st_req s) \<and>
            (req_hot_hard q \<or> req_hot_hard rq) \<and>
            (req_blob q \<or> req_blob rq \<or>
             (case map_of (sd_entries d) i of None \<Rightarrow> blob_threshold (sd_limits d) \<le> length v | Some s \<Rightarrow> st_oversized s)))
     | DictFull n m \<Rightarrow> n = sd_stored_bytes d \<and> m = max_total_bytes (sd_limits d) \<and> \<not> req_hot_hard rq \<and>
         map_of (sd_entries d) (xxh3_64 h v) = None \<and>
         (m < n + min (length v) (truncate_limit (sd_limits d))))"
proof (cases "xxh3_64 h v = 0")
  case True
  then show ?thesis using assms by (auto simp: dict_insert_def2)
next
  case False
  then have step: "try_insert h (xxh3_64 h v) v rq d = (Err e, d')"
    using assms by (simp add: dict_insert_def2)
  show ?thesis
  proof (cases "map_of (sd_entries d) (xxh3_64 h v)")
    case None
    then show ?thesis
      using step
      by (auto simp: try_insert_def Let_def no_requirements_def saturating_add_usize_def split: if_splits)
  next
    case (Some s)
    then show ?thesis
      using step
      by (auto simp: try_insert_def Let_def check_same_value_def merge_requirements_def
          split: if_splits option.splits)
  qed
qed

theorem dict_insert_failure_witness:
  "fst (dict_insert sample_hashes [1, 2] (no_requirements\<lparr>req_hot_hard := True\<rparr>) (SegmentDicts_new sample_limits))
     = Err (PlacementConflict 3) \<and>
   snd (dict_insert sample_hashes [1, 2] (no_requirements\<lparr>req_hot_hard := True\<rparr>) (SegmentDicts_new sample_limits))
     = SegmentDicts_new sample_limits"
proof -
  have *: "fst (dict_insert sample_hashes [1, 2] (no_requirements\<lparr>req_hot_hard := True\<rparr>) (SegmentDicts_new sample_limits))
      = Err (PlacementConflict 3)" by (simp add: sample_eval)
  then have "dict_insert sample_hashes [1, 2] (no_requirements\<lparr>req_hot_hard := True\<rparr>) (SegmentDicts_new sample_limits)
      = (Err (PlacementConflict 3), snd (dict_insert sample_hashes [1, 2] (no_requirements\<lparr>req_hot_hard := True\<rparr>)
          (SegmentDicts_new sample_limits)))" by (simp only: prod_eq_iff fst_conv snd_conv)
  from conjunct1 [OF dict_insert_failure [OF this]] * show ?thesis by (rule conjI [rotated])
qed

end
