(* ===== verification/Interner.thy ===== *)
theory Interner
  imports Dictionary_Props
begin

text \<open>
  The per-segment interner (\<open>crates/kronika-writer/src/interner.rs\<close>): the window is a
  \<^typ>\<open>segment_dicts\<close>; values already written to the journal are remembered by length, the first
  16 bytes of their SHA-256 and their requirements. \<open>Request\<close> has the fields of \<^typ>\<open>requirements\<close>.
  The hash map of flushed records is an ordered map, its iteration order is sorted away by the code.
  The counters are naturals; \<open>remove_stats\<close> never takes more than was added (see the invariant).
\<close>

section \<open>Flushed records and their statistics\<close>

record flushed =
  fl_full_len :: nat
  fl_check :: bytes
  fl_blob_required :: bool
  fl_hot_hard :: bool
  fl_hot_soft :: bool

definition check16 :: "hashes \<Rightarrow> bytes \<Rightarrow> bytes" where
  "check16 h v = take 16 (sha256 h v)"

definition first16 :: "bytes \<Rightarrow> bytes" where
  "first16 digest = take 16 digest"

definition flushed_matches :: "hashes \<Rightarrow> flushed \<Rightarrow> bytes \<Rightarrow> bool" where
  "flushed_matches h f v \<longleftrightarrow> fl_full_len f = length v \<and> check16 h v = fl_check f"

definition flushed_placement :: "flushed \<Rightarrow> dict_limits \<Rightarrow> placement" where
  "flushed_placement f l =
     (if fl_blob_required f \<or> blob_threshold l \<le> fl_full_len f then Blobs else Strings)"

definition flushed_hot :: "flushed \<Rightarrow> hot_mark" where
  "flushed_hot f = (if fl_hot_hard f then HotHard else if fl_hot_soft f then HotSoft else HotNone)"

definition stats_for_flushed :: "flushed \<Rightarrow> dict_limits \<Rightarrow> dict_stats" where
  "stats_for_flushed f l =
     (let stored_len = min (fl_full_len f) (truncate_limit l)
      in case flushed_placement f l of
           Blobs \<Rightarrow> zero_stats\<lparr>blob_count := 1, truncated_blob_count := of_bool (truncate_limit l < fl_full_len f),
                      blob_bytes := stored_len\<rparr>
         | Strings \<Rightarrow> zero_stats\<lparr>string_count := 1, hot_count := of_bool (flushed_hot f \<noteq> HotNone),
                      string_bytes := stored_len\<rparr>)"

definition add_stats :: "dict_stats \<Rightarrow> dict_stats \<Rightarrow> dict_stats" where
  "add_stats t a =
     \<lparr>string_count = string_count t + string_count a, blob_count = blob_count t + blob_count a,
      truncated_blob_count = truncated_blob_count t + truncated_blob_count a, hot_count = hot_count t + hot_count a,
      string_bytes = string_bytes t + string_bytes a, blob_bytes = blob_bytes t + blob_bytes a\<rparr>"

definition remove_stats :: "dict_stats \<Rightarrow> dict_stats \<Rightarrow> dict_stats" where
  "remove_stats t a =
     \<lparr>string_count = string_count t - string_count a, blob_count = blob_count t - blob_count a,
      truncated_blob_count = truncated_blob_count t - truncated_blob_count a, hot_count = hot_count t - hot_count a,
      string_bytes = string_bytes t - string_bytes a, blob_bytes = blob_bytes t - blob_bytes a\<rparr>"

section \<open>The interner\<close>

record interner =
  in_window :: segment_dicts
  in_flushed :: "(str_id, flushed) omap"
  in_flushed_stats :: dict_stats
  in_hot_pinned :: "(str_id, bytes) omap"

definition Interner_new :: "dict_limits \<Rightarrow> interner" where
  "Interner_new l = \<lparr>in_window = SegmentDicts_new l, in_flushed = [], in_flushed_stats = zero_stats, in_hot_pinned = []\<rparr>"

text \<open>
  The window path: the conflict is checked first, then one call per flag; a failing call ends it.
\<close>

definition apply_to_window ::
    "hashes \<Rightarrow> bytes \<Rightarrow> requirements \<Rightarrow> segment_dicts \<Rightarrow> (dict_error + str_id \<times> bool) \<times> segment_dicts" where
  "apply_to_window h v rq w =
     (if req_hot_hard rq \<and> (req_blob rq \<or> blob_threshold (sd_limits w) \<le> length v)
      then (Err (PlacementConflict (xxh3_64 h v)), w)
      else case dict_intern h v w of
             (Inl e, w1) \<Rightarrow> (Err e, w1)
           | (Inr i, w1) \<Rightarrow>
             (case (if req_blob rq then dict_intern_blob h v w1 else (Ok i, w1)) of
                (Inl e, w2) \<Rightarrow> (Err e, w2)
              | (Inr _, w2) \<Rightarrow>
                (case (if req_hot_hard rq then dict_intern_hot h v w2 else (Ok i, w2)) of
                   (Inl e, w3) \<Rightarrow> (Err e, w3)
                 | (Inr _, w3) \<Rightarrow>
                   if req_hot_soft rq then
                     (case dict_intern_hot_best_effort h v w3 of
                        (Inl e, w4) \<Rightarrow> (Err e, w4)
                      | (Inr (_, hot), w4) \<Rightarrow> (Ok (i, hot), w4))
                   else (Ok (i, req_hot_hard rq), w3))))"

definition record_flushed_bits :: "str_id \<Rightarrow> requirements \<Rightarrow> interner \<Rightarrow> interner" where
  "record_flushed_bits i merged st =
     (case map_of (in_flushed st) i of
        None \<Rightarrow> st
      | Some previous \<Rightarrow>
          let updated = previous\<lparr>fl_blob_required := req_blob merged, fl_hot_hard := req_hot_hard merged,
                          fl_hot_soft := req_hot_soft merged\<rparr>;
              l = sd_limits (in_window st)
          in st\<lparr>in_flushed := om_insert i updated (in_flushed st),
               in_flushed_stats := add_stats (remove_stats (in_flushed_stats st) (stats_for_flushed previous l))
                 (stats_for_flushed updated l)\<rparr>)"

definition with_window ::
    "interner \<Rightarrow> (dict_error + str_id \<times> bool) \<times> segment_dicts \<Rightarrow> (dict_error + str_id \<times> bool) \<times> interner" where
  "with_window st rw = (fst rw, st\<lparr>in_window := snd rw\<rparr>)"

definition flushed_request ::
    "hashes \<Rightarrow> str_id \<Rightarrow> bytes \<Rightarrow> requirements \<Rightarrow> flushed \<Rightarrow> interner \<Rightarrow> (dict_error + str_id \<times> bool) \<times> interner" where
  "flushed_request h i v rq f st =
     (if \<not> flushed_matches h f v then (Err (Collision i), st)
      else
        let merged = \<lparr>req_blob = (fl_blob_required f \<or> req_blob rq), req_hot_hard = (fl_hot_hard f \<or> req_hot_hard rq),
              req_hot_soft = (fl_hot_soft f \<or> req_hot_soft rq)\<rparr>;
            oversized = blob_threshold (sd_limits (in_window st)) \<le> fl_full_len f
        in if req_hot_hard merged \<and> (req_blob merged \<or> oversized) then (Err (PlacementConflict i), st)
           else
             let placement_is_blob = req_blob merged \<or> oversized;
                 durable_upgrade = req_blob merged \<noteq> fl_blob_required f \<or> req_hot_hard merged \<noteq> fl_hot_hard f;
                 soft_became_effective = req_hot_soft merged \<noteq> fl_hot_soft f \<and> \<not> placement_is_blob
             in if durable_upgrade then
                  (case with_window st (apply_to_window h v merged (in_window st)) of
                     (Inl e, st') \<Rightarrow> (Err e, st')
                   | (Inr r, st') \<Rightarrow> (Ok r, record_flushed_bits i merged st'))
                else (Ok (i, (req_hot_hard merged \<or> req_hot_soft merged) \<and> \<not> placement_is_blob),
                      if soft_became_effective then record_flushed_bits i merged st else st))"

definition interner_request ::
    "hashes \<Rightarrow> bytes \<Rightarrow> requirements \<Rightarrow> interner \<Rightarrow> (dict_error + str_id \<times> bool) \<times> interner" where
  "interner_request h v rq st =
     (case StrId_of h v of
        None \<Rightarrow> (Err (Collision 0), st)
      | Some i \<Rightarrow>
          if dict_resolve (in_window st) i \<noteq> None then with_window st (apply_to_window h v rq (in_window st))
          else (case map_of (in_flushed st) i of
                  Some f \<Rightarrow> flushed_request h i v rq f st
                | None \<Rightarrow> with_window st (apply_to_window h v rq (in_window st))))"

definition fst_ok :: "(dict_error + str_id \<times> bool) \<times> interner \<Rightarrow> (dict_error + str_id) \<times> interner" where
  "fst_ok r = (case r of (Inl e, st) \<Rightarrow> (Err e, st) | (Inr (i, _), st) \<Rightarrow> (Ok i, st))"

definition interner_intern :: "hashes \<Rightarrow> bytes \<Rightarrow> interner \<Rightarrow> (dict_error + str_id) \<times> interner" where
  "interner_intern h v st = fst_ok (interner_request h v no_requirements st)"

definition interner_intern_blob :: "hashes \<Rightarrow> bytes \<Rightarrow> interner \<Rightarrow> (dict_error + str_id) \<times> interner" where
  "interner_intern_blob h v st = fst_ok (interner_request h v (no_requirements\<lparr>req_blob := True\<rparr>) st)"

text \<open>\<open>entry(id).or_insert_with\<close> keeps a pinned value that is already there.\<close>

definition pin_hot :: "str_id \<Rightarrow> bytes \<Rightarrow> interner \<Rightarrow> interner" where
  "pin_hot i v st =
     (if map_of (in_hot_pinned st) i = None then st\<lparr>in_hot_pinned := om_insert i v (in_hot_pinned st)\<rparr> else st)"

definition interner_intern_hot :: "hashes \<Rightarrow> bytes \<Rightarrow> interner \<Rightarrow> (dict_error + str_id) \<times> interner" where
  "interner_intern_hot h v st =
     (case interner_request h v (no_requirements\<lparr>req_hot_hard := True\<rparr>) st of
        (Inl e, st') \<Rightarrow> (Err e, st')
      | (Inr (i, _), st') \<Rightarrow> (Ok i, pin_hot i v st'))"

definition interner_intern_hot_best_effort ::
    "hashes \<Rightarrow> bytes \<Rightarrow> interner \<Rightarrow> (dict_error + str_id \<times> bool) \<times> interner" where
  "interner_intern_hot_best_effort h v st = interner_request h v (no_requirements\<lparr>req_hot_soft := True\<rparr>) st"

section \<open>Flushing and finishing\<close>

definition flushed_of :: "hashes \<Rightarrow> entry_snapshot \<Rightarrow> flushed" where
  "flushed_of h e =
     \<lparr>fl_full_len = es_full_len e,
      fl_check = (case es_full_sha256 e of None \<Rightarrow> check16 h (es_stored_bytes e) | Some x \<Rightarrow> first16 x),
      fl_blob_required = es_blob_required e, fl_hot_hard = (es_hot e = HotHard), fl_hot_soft = (es_hot e = HotSoft)\<rparr>"

definition flush_entry ::
    "hashes \<Rightarrow> dict_limits \<Rightarrow> (str_id, flushed) omap \<times> dict_stats \<Rightarrow> entry_snapshot \<Rightarrow> (str_id, flushed) omap \<times> dict_stats" where
  "flush_entry h l acc e =
     (let (m, t) = acc; f = flushed_of h e;
          t1 = (case map_of m (es_str_id e) of None \<Rightarrow> t | Some previous \<Rightarrow> remove_stats t (stats_for_flushed previous l))
      in (om_insert (es_str_id e) f m, add_stats t1 (stats_for_flushed f l)))"

definition reinsert_pinned :: "hashes \<Rightarrow> (str_id, bytes) omap \<Rightarrow> segment_dicts \<Rightarrow> segment_dicts" where
  "reinsert_pinned h pins w = foldl (\<lambda>w (_, v). snd (dict_intern_hot h v w)) w pins"

definition flush_window ::
    "hashes \<Rightarrow> (segment_dicts \<Rightarrow> 'e + unit) \<Rightarrow> interner \<Rightarrow> ('e + usize) \<times> interner" where
  "flush_window h write st =
     (case write (in_window st) of
        Inl e \<Rightarrow> (Err e, st)
      | Inr _ \<Rightarrow>
          let w = in_window st; l = sd_limits w;
              (m, t) = foldl (flush_entry h l) (in_flushed st, in_flushed_stats st) (dict_entries w)
          in (Ok (dict_len w),
              st\<lparr>in_flushed := m, in_flushed_stats := t,
                 in_window := reinsert_pinned h (in_hot_pinned st) (SegmentDicts_new l)\<rparr>))"

record flushed_entry =
  fe_str_id :: str_id
  fe_full_len :: nat
  fe_placement :: placement
  fe_hot :: hot_mark

record finished_segment =
  fin_window :: segment_dicts
  fin_flushed :: "flushed_entry list"

definition interner_write_segment :: "interner \<Rightarrow> finished_segment \<times> interner" where
  "interner_write_segment st =
     (let l = sd_limits (in_window st)
      in (\<lparr>fin_window = in_window st,
           fin_flushed = map (\<lambda>(i, f). \<lparr>fe_str_id = i, fe_full_len = fl_full_len f,
             fe_placement = flushed_placement f l, fe_hot = flushed_hot f\<rparr>) (in_flushed st)\<rparr>,
          Interner_new l))"

definition interner_stats :: "interner \<Rightarrow> dict_stats" where
  "interner_stats st =
     (let l = sd_limits (in_window st)
      in foldl (\<lambda>t e. case map_of (in_flushed st) (es_str_id e) of
                  None \<Rightarrow> t | Some previous \<Rightarrow> remove_stats t (stats_for_flushed previous l))
           (add_stats (in_flushed_stats st) (dict_stats_of (in_window st))) (dict_entries (in_window st)))"

definition is_interned :: "interner \<Rightarrow> str_id \<Rightarrow> bool" where
  "is_interned st i \<longleftrightarrow> dict_resolve (in_window st) i \<noteq> None \<or> map_of (in_flushed st) i \<noteq> None"

end
