(* ===== verification/Interner_Window.thy ===== *)
theory Interner_Window
  imports Interner
begin

text \<open>
  The window path of the interner: \<open>apply_to_window\<close>, one dictionary call per flag, behaves as a
  single insertion with all flags, except that a new strict-hot value is also subject to the byte
  cap; and a failing sequence of calls leaves the window as it was.
\<close>

section \<open>Entries and requirements\<close>

lemma om_insert_same: "om_valid m \<Longrightarrow> map_of m k = Some v \<Longrightarrow> om_insert k v m = m"
  by (rule om.iter_extensional) (auto simp: om_valid_insert om_get_insert)

lemma om_insert_twice: "om_valid m \<Longrightarrow> om_insert k v (om_insert k w m) = om_insert k v m"
  by (rule om.iter_extensional) (auto simp: om_valid_insert om_get_insert)

lemma merge_assoc: "merge_requirements (merge_requirements a b) c = merge_requirements a (merge_requirements b c)"
  by (simp add: merge_requirements_def disj_assoc)

lemma merge_no_requirements_right [simp]: "merge_requirements a no_requirements = a"
  by (simp add: merge_requirements_def no_requirements_def)

lemma merge_fields [simp]:
  "req_blob (merge_requirements a b) = (req_blob a \<or> req_blob b)"
  "req_hot_hard (merge_requirements a b) = (req_hot_hard a \<or> req_hot_hard b)"
  "req_hot_soft (merge_requirements a b) = (req_hot_soft a \<or> req_hot_soft b)"
  by (simp_all add: merge_requirements_def)

lemma no_requirements_fields [simp]:
  "\<not> req_blob no_requirements" "\<not> req_hot_hard no_requirements" "\<not> req_hot_soft no_requirements"
  by (simp_all add: no_requirements_def)

definition conflicting :: "requirements \<Rightarrow> bool \<Rightarrow> bool" where
  "conflicting q over \<longleftrightarrow> req_hot_hard q \<and> (req_blob q \<or> over)"

text \<open>The window after the requirements \<open>q\<close> of a value have been added, for an entry or a new value.\<close>

definition put_req :: "hashes \<Rightarrow> str_id \<Rightarrow> bytes \<Rightarrow> segment_dicts \<Rightarrow> requirements \<Rightarrow> segment_dicts" where
  "put_req h i v w q =
     (case map_of (sd_entries w) i of Some s \<Rightarrow> add_repeat i q s w | None \<Rightarrow> add_fresh h i v q w)"

definition entry_with :: "hashes \<Rightarrow> str_id \<Rightarrow> bytes \<Rightarrow> segment_dicts \<Rightarrow> requirements \<Rightarrow> stored" where
  "entry_with h i v w q =
     (case map_of (sd_entries w) i of
        Some s \<Rightarrow> s\<lparr>st_req := merge_requirements (st_req s) q\<rparr> | None \<Rightarrow> new_stored h (sd_limits w) v q)"

definition same_as :: "hashes \<Rightarrow> str_id \<Rightarrow> bytes \<Rightarrow> segment_dicts \<Rightarrow> bool" where
  "same_as h i v w \<longleftrightarrow>
     (case map_of (sd_entries w) i of Some s \<Rightarrow> check_same_value h i s v = Ok () | None \<Rightarrow> True)"

definition base_req :: "str_id \<Rightarrow> segment_dicts \<Rightarrow> requirements" where
  "base_req i w = (case map_of (sd_entries w) i of Some s \<Rightarrow> st_req s | None \<Rightarrow> no_requirements)"

lemma st_req_entry_with: "st_req (entry_with h i v w q) = merge_requirements (base_req i w) q"
  by (simp add: entry_with_def base_req_def split: option.split)

lemma entry_put_req:
  "om_valid (sd_entries w) \<Longrightarrow> map_of (sd_entries (put_req h i v w q)) j =
     (if j = i then Some (entry_with h i v w q) else map_of (sd_entries w) j)"
  by (auto simp: put_req_def entry_with_def add_repeat_def add_fresh_def om_get_insert split: option.splits)

lemma limits_put_req [simp]: "sd_limits (put_req h i v w q) = sd_limits w"
  by (simp add: put_req_def split: option.split)

lemma put_req_none_repeat:
  "om_valid (sd_entries w) \<Longrightarrow> map_of (sd_entries w) i = Some s \<Longrightarrow> put_req h i v w no_requirements = w"
  by (cases w) (simp add: put_req_def add_repeat_def om_insert_same)

lemma merge_entry_with:
  "(entry_with h i v w q)\<lparr>st_req := merge_requirements (st_req (entry_with h i v w q)) q'\<rparr>
     = entry_with h i v w (merge_requirements q q')"
  by (simp add: entry_with_def merge_assoc split: option.splits)

lemma check_entry_with:
  "same_as h i v w \<Longrightarrow> check_same_value h i (entry_with h i v w q) v = Ok ()"
  by (auto simp: same_as_def entry_with_def check_same_value_def split: option.splits if_splits)

lemma oversized_entry_with:
  "dicts_wf h w \<Longrightarrow> same_as h i v w \<Longrightarrow> st_oversized (entry_with h i v w q) = (blob_threshold (sd_limits w) \<le> length v)"
proof (cases "map_of (sd_entries w) i")
  case (Some s)
  assume "dicts_wf h w" "same_as h i v w"
  then obtain u where u: "s = new_stored h (sd_limits w) u (st_req s)" and "check_same_value h i s v = Ok ()"
    using Some by (auto simp: dicts_wf_def stored_wf_def same_as_def)
  moreover have "st_oversized s = (blob_threshold (sd_limits w) \<le> length u)" "st_full_len s = length u"
    by (subst u, simp)+
  ultimately show ?thesis
    using Some by (auto simp: entry_with_def check_same_value_def split: if_splits)
qed (simp add: entry_with_def)

text \<open>A second insertion of a value just put adds its requirements, or conflicts and changes nothing.\<close>

lemma insert_after_put:
  assumes wf: "dicts_wf h w" and same: "same_as h i v w" and i: "i = xxh3_64 h v" "i \<noteq> 0"
  shows "dict_insert h v q' (put_req h i v w q) =
    (if conflicting (st_req (entry_with h i v w (merge_requirements q q'))) (blob_threshold (sd_limits w) \<le> length v)
     then (Inl (PlacementConflict i), put_req h i v w q)
     else (Inr i, put_req h i v w (merge_requirements q q')))"
proof -
  let ?e = "entry_with h i v w q"
  have valid: "om_valid (sd_entries w)" using wf by (simp add: dicts_wf_def)
  have e: "map_of (sd_entries (put_req h i v w q)) i = Some ?e"
    by (simp add: entry_put_req [OF valid])
  have ins: "om_insert i (entry_with h i v w (merge_requirements q q')) (sd_entries (put_req h i v w q))
      = sd_entries (put_req h i v w (merge_requirements q q'))"
    using valid
    by (auto simp: put_req_def entry_with_def add_repeat_def add_fresh_def om_insert_twice split: option.splits)
  have stored: "sd_stored_bytes (put_req h i v w q) = sd_stored_bytes (put_req h i v w (merge_requirements q q'))"
    by (simp add: put_req_def add_repeat_def add_fresh_def split: option.splits)
  have next_eq: "put_req h i v w q\<lparr>sd_entries := sd_entries (put_req h i v w (merge_requirements q q'))\<rparr>
      = put_req h i v w (merge_requirements q q')"
    using stored by (simp add: put_req_def add_repeat_def add_fresh_def split: option.splits)
  have conf: "conflicting (st_req (entry_with h i v w (merge_requirements q q'))) (blob_threshold (sd_limits w) \<le> length v)
    \<longleftrightarrow> req_hot_hard (merge_requirements (st_req ?e) q') \<and> (req_blob (merge_requirements (st_req ?e) q') \<or> st_oversized ?e)"
    unfolding merge_entry_with [symmetric, of h i v w q q'] oversized_entry_with [OF wf same] conflicting_def by simp
  show ?thesis
    using i(2) e check_entry_with [OF same, of q]
    by (simp add: dict_insert_def2 try_insert_def Let_def merge_entry_with ins next_eq conf i(1) [symmetric]
        del: merge_fields)
qed


section \<open>The first call, and the whole sequence\<close>

definition over_cap :: "str_id \<Rightarrow> bytes \<Rightarrow> segment_dicts \<Rightarrow> bool" where
  "over_cap i v w \<longleftrightarrow>
     map_of (sd_entries w) i = None \<and>
     max_total_bytes (sd_limits w) <
       saturating_add_usize (sd_stored_bytes w) (min (length v) (truncate_limit (sd_limits w)))"

lemma intern_first:
  assumes wf: "dicts_wf h w" and i: "i = xxh3_64 h v" "i \<noteq> 0"
  shows "dict_intern h v w =
    (if \<not> same_as h i v w then (Inl (Collision i), w)
     else if over_cap i v w then (Inl (DictFull (sd_stored_bytes w) (max_total_bytes (sd_limits w))), w)
     else (Inr i, put_req h i v w no_requirements))"
proof (cases "map_of (sd_entries w) i")
  case None
  then show ?thesis
    using i(2) by (simp add: dict_intern_def dict_insert_def2 i(1) [symmetric] try_insert_def Let_def same_as_def
        over_cap_def put_req_def add_fresh_def)
next
  case (Some s)
  have "\<not> (req_hot_hard (st_req s) \<and> is_blob s)"
    using wf Some by (simp add: dicts_wf_def stored_wf_def)
  then show ?thesis
    using Some i(2)
    by (cases "check_same_value h i s v")
      (auto simp: dict_intern_def dict_insert_def2 i(1) [symmetric] try_insert_def Let_def same_as_def is_blob_def
        over_cap_def put_req_def add_repeat_def check_same_value_def split: if_splits option.splits)
qed

lemma request_merges:
  "merge_requirements no_requirements q = q"
  "merge_requirements \<lparr>req_blob = b, req_hot_hard = k, req_hot_soft = f\<rparr> \<lparr>req_blob = b', req_hot_hard = k', req_hot_soft = f'\<rparr>
     = \<lparr>req_blob = (b \<or> b'), req_hot_hard = (k \<or> k'), req_hot_soft = (f \<or> f')\<rparr>"
  "no_requirements\<lparr>req_blob := True\<rparr> = \<lparr>req_blob = True, req_hot_hard = False, req_hot_soft = False\<rparr>"
  "no_requirements\<lparr>req_hot_hard := True\<rparr> = \<lparr>req_blob = False, req_hot_hard = True, req_hot_soft = False\<rparr>"
  "no_requirements\<lparr>req_hot_soft := True\<rparr> = \<lparr>req_blob = False, req_hot_hard = False, req_hot_soft = True\<rparr>"
  "\<lparr>req_blob = False, req_hot_hard = False, req_hot_soft = False\<rparr> = no_requirements"
  by (simp_all add: no_requirements_def merge_requirements_def)

lemma apply_to_window_eq:
  assumes wf: "dicts_wf h w" and i: "i = xxh3_64 h v" "i \<noteq> 0"
  shows "apply_to_window h v rq w =
    (if conflicting rq (blob_threshold (sd_limits w) \<le> length v) then (Inl (PlacementConflict i), w)
     else if \<not> same_as h i v w then (Inl (Collision i), w)
     else if over_cap i v w then (Inl (DictFull (sd_stored_bytes w) (max_total_bytes (sd_limits w))), w)
     else if conflicting (st_req (entry_with h i v w rq)) (blob_threshold (sd_limits w) \<le> length v)
     then (Inl (PlacementConflict i), w)
     else (Inr (i, if req_hot_soft rq then is_hot (entry_with h i v w rq) else req_hot_hard rq), put_req h i v w rq))"
proof (cases "same_as h i v w \<and> \<not> over_cap i v w \<and>
    \<not> conflicting rq (blob_threshold (sd_limits w) \<le> length v)")
  case False
  then show ?thesis
    unfolding apply_to_window_def intern_first [OF wf i] by (auto simp: conflicting_def i(1))
next
  case True
  then have same: "same_as h i v w" and first: "dict_intern h v w = (Inr i, put_req h i v w no_requirements)"
    and pre: "\<not> (req_hot_hard rq \<and> (req_blob rq \<or> blob_threshold (sd_limits w) \<le> length v))"
    by (simp_all add: intern_first [OF wf i] conflicting_def)
  have valid: "om_valid (sd_entries w)" using wf by (simp add: dicts_wf_def)
  note after = insert_after_put [OF wf same i]
  let ?conf = "\<lambda>q. conflicting (st_req (entry_with h i v w q)) (blob_threshold (sd_limits w) \<le> length v)"
  have none: "put_req h i v w no_requirements = w" if "?conf rq"
  proof (cases "map_of (sd_entries w) i")
    case None
    then show ?thesis using that pre by (simp add: entry_with_def conflicting_def)
  qed (simp add: put_req_none_repeat [OF valid])
  have hot_entry: "map_of (sd_entries (put_req h i v w q)) i = Some (entry_with h i v w q)" for q
    by (simp add: entry_put_req [OF valid])
  have ok: "\<not> ?conf no_requirements"
  proof (cases "map_of (sd_entries w) i")
    case (Some s)
    then show ?thesis
      using wf oversized_entry_with [OF wf same, of no_requirements]
      by (auto simp: entry_with_def conflicting_def dicts_wf_def stored_wf_def is_blob_def)
  qed (simp add: entry_with_def conflicting_def)
  obtain b k f where rq: "rq = \<lparr>req_blob = b, req_hot_hard = k, req_hot_soft = f\<rparr>" by (cases rq) auto
  have base: "\<not> (req_hot_hard (base_req i w) \<and> (req_blob (base_req i w) \<or> blob_threshold (sd_limits w) \<le> length v))"
    using ok by (simp add: conflicting_def st_req_entry_with)
  show ?thesis
    using True pre none base
    by (cases b; cases k; cases f)
      (auto simp: apply_to_window_def first dict_intern_blob_def dict_intern_hot_def dict_intern_hot_best_effort_def
        after hot_entry rq conflicting_def i(1) [symmetric] st_req_entry_with request_merges)
qed

end
