(* ===== verification/Interner_Stats.thy ===== *)
theory Interner_Stats
  imports Interner_Window
begin

text \<open>
  The running statistics of the interner: adding and removing records keeps the component-wise sums
  over the flushed records, so nothing is ever subtracted that was not added.
\<close>

definition totals :: "('v \<Rightarrow> dict_stats) \<Rightarrow> ('k, 'v) omap \<Rightarrow> dict_stats" where
  "totals g m =
     \<lparr>string_count = om_sum (\<lambda>_ x. string_count (g x)) m, blob_count = om_sum (\<lambda>_ x. blob_count (g x)) m,
      truncated_blob_count = om_sum (\<lambda>_ x. truncated_blob_count (g x)) m, hot_count = om_sum (\<lambda>_ x. hot_count (g x)) m,
      string_bytes = om_sum (\<lambda>_ x. string_bytes (g x)) m, blob_bytes = om_sum (\<lambda>_ x. blob_bytes (g x)) m\<rparr>"

lemma totals_Nil [simp]: "totals g [] = zero_stats"
  by (simp add: totals_def zero_stats_def)

lemma totals_insert_new:
  "om_valid m \<Longrightarrow> map_of m k = None \<Longrightarrow> totals g (om_insert k x m) = add_stats (totals g m) (g x)"
  by (simp add: totals_def add_stats_def om_sum_insert_new)

lemma om_sum_replace:
  "om_valid m \<Longrightarrow> map_of m k = Some y \<Longrightarrow> om_sum f (om_insert k x m) = om_sum f m - f k y + f k x"
  using om_sum_insert_old [of m k y f x] om_sum_member [of m k y f] by linarith

lemma totals_insert_old:
  "om_valid m \<Longrightarrow> map_of m k = Some y \<Longrightarrow>
   totals g (om_insert k x m) = add_stats (remove_stats (totals g m) (g y)) (g x)"
  by (simp add: totals_def add_stats_def remove_stats_def om_sum_replace)

text \<open>Sums depend on the lookups only.\<close>

lemma om_sum_alt: "om_valid m \<Longrightarrow> om_sum f m = (\<Sum>k \<in> fst ` set m. f k (the (map_of m k)))"
proof (induction m)
  case (Cons a m)
  obtain k v where a: "a = (k, v)" by force
  have valid: "om_valid m" and fresh: "k \<notin> fst ` set m"
    using Cons.prems by (auto simp: a om_valid_Cons)
  have "(\<Sum>j \<in> fst ` set m. f j (the (map_of (a # m) j))) = (\<Sum>j \<in> fst ` set m. f j (the (map_of m j)))"
    using fresh by (intro sum.cong) (auto simp: a)
  then show ?case using Cons.IH [OF valid] fresh by (simp add: a)
qed simp

lemma om_dom: "fst ` set m = {k. map_of m k \<noteq> None}"
  by (auto simp: map_of_eq_None_iff)

lemma om_sum_rel:
  assumes "om_valid m" "om_valid n" and rel: "\<And>k. rel_option (\<lambda>x y. f k x = g k y) (map_of m k) (map_of n k)"
  shows "om_sum f m = om_sum g n"
proof -
  have "fst ` set m = fst ` set n"
  proof -
    have "map_of m k = None \<longleftrightarrow> map_of n k = None" for k
      using rel [of k] by (cases "map_of m k"; cases "map_of n k") auto
    then show ?thesis unfolding om_dom by simp
  qed
  moreover have "f k (the (map_of m k)) = g k (the (map_of n k))" if "k \<in> fst ` set m" for k
    using rel [of k] that unfolding om_dom by (cases "map_of m k"; cases "map_of n k") auto
  ultimately show ?thesis
    by (simp add: om_sum_alt assms(1,2))
qed

lemma totals_rel:
  assumes "om_valid m" "om_valid n" "\<And>k. rel_option (\<lambda>x y. f x = g y) (map_of m k) (map_of n k)"
  shows "totals f m = totals g n"
  unfolding totals_def
  by (intro dict_stats.equality) (simp_all, (rule om_sum_rel [OF assms(1,2)], rule option.rel_mono_strong [OF assms(3)], simp)+)

section \<open>Statistics of a dictionary and of a flush\<close>

definition stored_stats :: "stored \<Rightarrow> dict_stats" where
  "stored_stats s = stats_step zero_stats s"

lemma stats_step_add: "stats_step t s = add_stats t (stored_stats s)"
  by (simp add: stats_step_def stored_stats_def add_stats_def zero_stats_def)

lemma add_stats_assoc: "add_stats (add_stats a b) c = add_stats a (add_stats b c)"
  by (simp add: add_stats_def add.assoc)

lemma add_stats_zero [simp]: "add_stats zero_stats a = a" "add_stats a zero_stats = a"
  by (simp_all add: add_stats_def zero_stats_def)

lemma totals_Cons: "totals g ((k, x) # m) = add_stats (g x) (totals g m)"
  by (simp add: totals_def add_stats_def)

lemma foldl_stats_step: "foldl stats_step t (map snd m) = add_stats t (totals stored_stats m)"
proof (induction m arbitrary: t)
  case (Cons a m)
  then show ?case by (cases a) (simp add: totals_Cons stats_step_add add_stats_assoc)
qed simp

lemma dict_stats_totals: "dict_stats_of d = totals stored_stats (sd_entries d)"
  by (simp add: dict_stats_of_def foldl_stats_step)

lemma stats_for_flushed_of:
  assumes "s = new_stored h l v q"
  shows "stats_for_flushed (flushed_of h (snapshot_of (i, s))) l = stored_stats s"
  by (auto simp: assms stats_for_flushed_def flushed_of_def snapshot_of_def flushed_placement_def flushed_hot_def
      stored_stats_def stats_step_def zero_stats_def is_blob_def is_hot_def)

text \<open>A flush overrides the flushed records by the window and keeps the totals.\<close>

definition flush_map :: "hashes \<Rightarrow> (str_id, stored) omap \<Rightarrow> (str_id, flushed) omap \<Rightarrow> (str_id, flushed) omap" where
  "flush_map h ss m = foldl (\<lambda>m e. om_insert (es_str_id e) (flushed_of h e) m) m (map snapshot_of ss)"

lemma snapshot_id [simp]: "es_str_id (snapshot_of (i, s)) = i"
  by (simp add: snapshot_of_def)

lemma flush_entry_totals:
  assumes "om_valid m"
  shows "flush_entry h l (m, totals (\<lambda>f. stats_for_flushed f l) m) e =
    (om_insert (es_str_id e) (flushed_of h e) m,
     totals (\<lambda>f. stats_for_flushed f l) (om_insert (es_str_id e) (flushed_of h e) m))"
  using assms
  by (auto simp: flush_entry_def Let_def totals_insert_new totals_insert_old split: option.split)

lemma flush_map_Cons: "flush_map h ((i, s) # ss) m = flush_map h ss (om_insert i (flushed_of h (snapshot_of (i, s))) m)"
  by (simp add: flush_map_def)

lemma flush_map_valid: "om_valid m \<Longrightarrow> om_valid (flush_map h ss m)"
  by (induction ss arbitrary: m) (auto simp: flush_map_def om_valid_insert)

lemma flush_fold_totals:
  "om_valid m \<Longrightarrow>
   foldl (flush_entry h l) (m, totals (\<lambda>f. stats_for_flushed f l) m) (map snapshot_of ss) =
     (flush_map h ss m, totals (\<lambda>f. stats_for_flushed f l) (flush_map h ss m))"
proof (induction ss arbitrary: m)
  case (Cons a ss)
  then show ?case
    by (cases a) (simp add: flush_entry_totals flush_map_Cons om_valid_insert)
qed (simp add: flush_map_def)

lemma flush_map_get:
  "om_valid ss \<Longrightarrow> om_valid m \<Longrightarrow> map_of (flush_map h ss m) i =
     (case map_of ss i of Some s \<Rightarrow> Some (flushed_of h (snapshot_of (i, s))) | None \<Rightarrow> map_of m i)"
proof (induction ss arbitrary: m)
  case (Cons a ss)
  obtain k s where a: "a = (k, s)" by force
  have valid: "om_valid ss" and "map_of ss k = None"
    using Cons.prems(1) by (auto simp: a om_valid_Cons om_get_None)
  then show ?case
    using Cons.IH [OF valid, of "om_insert k (flushed_of h (snapshot_of (k, s))) m"] Cons.prems(2)
    by (auto simp: a flush_map_Cons om_valid_insert om_get_insert split: option.splits)
qed (simp add: flush_map_def)

text \<open>The statistics of the interner equal those the next flush would leave.\<close>

lemma remove_after_add:
  "om_valid m \<Longrightarrow> map_of m k = Some y \<Longrightarrow>
   remove_stats (add_stats (totals g m) (add_stats (g x) r)) (g y) = add_stats (totals g (om_insert k x m)) r"
proof -
  assume valid: "om_valid m" and y: "map_of m k = Some y"
  have *: "om_sum (\<lambda>_ x. c (g x)) (om_insert k x m) + r = om_sum (\<lambda>_ x. c (g x)) m + (c (g x) + r) - c (g y)"
    for c :: "dict_stats \<Rightarrow> nat" and r :: nat
    using om_sum_member [OF y, of "\<lambda>_ x. c (g x)"]
    by (simp add: om_sum_replace [OF valid y])
  show ?thesis
    by (simp add: totals_def add_stats_def remove_stats_def *)
qed

lemma removal_totals:
  assumes "om_valid ss" "om_valid m" "\<And>i. i \<in> fst ` set ss \<Longrightarrow> map_of m i = map_of m0 i"
    and "\<And>i s. (i, s) \<in> set ss \<Longrightarrow> stats_for_flushed (flushed_of h (snapshot_of (i, s))) l = stored_stats s"
  shows "foldl (\<lambda>t e. case map_of m0 (es_str_id e) of None \<Rightarrow> t | Some f \<Rightarrow> remove_stats t (stats_for_flushed f l))
      (add_stats (totals (\<lambda>f. stats_for_flushed f l) m) (totals stored_stats ss)) (map snapshot_of ss)
    = totals (\<lambda>f. stats_for_flushed f l) (flush_map h ss m)"
  using assms
proof (induction ss arbitrary: m)
  case (Cons a ss)
  obtain k s where a: "a = (k, s)" by force
  let ?g = "\<lambda>f. stats_for_flushed f l" and ?f = "flushed_of h (snapshot_of (k, s))"
  let ?m = "om_insert k ?f m"
  have valid: "om_valid ss" and fresh: "k \<notin> fst ` set ss"
    using Cons.prems(1) by (auto simp: a om_valid_Cons)
  have gs: "?g ?f = stored_stats s" using Cons.prems(4) [of k s] by (simp add: a)
  have step: "(case map_of m0 k of None \<Rightarrow> add_stats (totals ?g m) (add_stats (stored_stats s) (totals stored_stats ss))
      | Some f \<Rightarrow> remove_stats (add_stats (totals ?g m) (add_stats (stored_stats s) (totals stored_stats ss))) (?g f))
    = add_stats (totals ?g ?m) (totals stored_stats ss)"
    using Cons.prems(3) [of k] totals_insert_new [OF Cons.prems(2), of k ?g ?f] gs
      remove_after_add [OF Cons.prems(2), of k _ ?g ?f "totals stored_stats ss"]
    by (auto simp: a add_stats_assoc split: option.splits)
  have "map_of ?m i = map_of m0 i" if "i \<in> fst ` set ss" for i
    using that fresh Cons.prems(3) [of i] by (auto simp: a om_get_insert [OF Cons.prems(2)])
  then show ?case
    using Cons.IH [OF valid om_valid_insert [OF Cons.prems(2)]] Cons.prems(4) step
    by (simp add: a totals_Cons flush_map_Cons)
qed (simp add: flush_map_def)

end
