(* ===== verification/Interner_Refine.thy ===== *)
theory Interner_Refine
  imports Interner_Stats
begin

text \<open>
  The interner refines a single dictionary without a byte cap: whatever is flushed to the journal in
  between, requests succeed, fail and mark values as they would in one \<^typ>\<open>segment_dicts\<close> that
  remembers every value of the segment. The cap shows only as the flow-control error.
\<close>

section \<open>The relation\<close>

definition uncapped :: "dict_limits \<Rightarrow> dict_limits" where
  "uncapped l = l\<lparr>max_total_bytes := usize_max\<rparr>"

lemma uncapped_simps [simp]:
  "blob_threshold (uncapped l) = blob_threshold l" "truncate_limit (uncapped l) = truncate_limit l"
  "new_stored h (uncapped l) v q = new_stored h l v q"
  by (simp_all add: uncapped_def new_stored_def Let_def)

definition flushed_view :: "hashes \<Rightarrow> interner \<Rightarrow> str_id \<Rightarrow> flushed option" where
  "flushed_view h st i =
     (case map_of (sd_entries (in_window st)) i of
        Some s \<Rightarrow> Some (flushed_of h (snapshot_of (i, s))) | None \<Rightarrow> map_of (in_flushed st) i)"

definition stored_check :: "hashes \<Rightarrow> stored \<Rightarrow> bytes" where
  "stored_check h t = (case st_full_sha256 t of None \<Rightarrow> check16 h (st_bytes t) | Some x \<Rightarrow> first16 x)"

definition agrees :: "hashes \<Rightarrow> flushed \<Rightarrow> stored \<Rightarrow> bool" where
  "agrees h f t \<longleftrightarrow>
     fl_full_len f = st_full_len t \<and> fl_check f = stored_check h t \<and>
     fl_blob_required f = req_blob (st_req t) \<and> fl_hot_hard f = req_hot_hard (st_req t) \<and>
     (is_blob t \<or> (fl_hot_hard f \<or> fl_hot_soft f) = (req_hot_hard (st_req t) \<or> req_hot_soft (st_req t)))"

definition check_distinguishes :: "hashes \<Rightarrow> bytes set \<Rightarrow> bool" where
  "check_distinguishes h V \<longleftrightarrow>
     (\<forall>v \<in> V. \<forall>w \<in> V. length v = length w \<and> xxh3_64 h v = xxh3_64 h w \<and> check16 h v = check16 h w \<longrightarrow> v = w)"

definition interner_sim :: "hashes \<Rightarrow> bytes set \<Rightarrow> interner \<Rightarrow> segment_dicts \<Rightarrow> bool" where
  "interner_sim h V st d \<longleftrightarrow>
     (let w = in_window st; l = sd_limits w in
      dicts_wf h d \<and> dicts_wf h w \<and> om_valid (in_flushed st) \<and> om_valid (in_hot_pinned st) \<and>
      sd_limits d = uncapped l \<and> blob_threshold l \<le> truncate_limit l \<and>
      (\<forall>i. rel_option (agrees h) (flushed_view h st i) (map_of (sd_entries d) i)) \<and>
      (\<forall>i t. map_of (sd_entries d) i = Some t \<longrightarrow> (\<exists>v \<in> V. xxh3_64 h v = i \<and> t = new_stored h l v (st_req t))) \<and>
      (\<forall>i s. map_of (sd_entries w) i = Some s \<longrightarrow>
         (\<exists>t. map_of (sd_entries d) i = Some t \<and> s = t\<lparr>st_req := st_req s\<rparr>)) \<and>
      (\<forall>i v. map_of (in_hot_pinned st) i = Some v \<longrightarrow>
         (\<exists>t. map_of (sd_entries d) i = Some t \<and> req_hot_hard (st_req t) \<and> xxh3_64 h v = i \<and>
              t = new_stored h l v (st_req t))) \<and>
      in_flushed_stats st = totals (\<lambda>f. stats_for_flushed f l) (in_flushed st))"

lemma interner_sim_new:
  "blob_threshold l \<le> truncate_limit l \<Longrightarrow> interner_sim h V (Interner_new l) (SegmentDicts_new (uncapped l))"
  by (simp add: interner_sim_def Interner_new_def flushed_view_def)

text \<open>The uncapped dictionary accepts a request exactly when value and placement agree.\<close>

lemma uncapped_not_full: "\<not> usize_max < saturating_add_usize a b"
  by (simp add: saturating_add_usize_def)

lemma insert_uncapped_eq:
  assumes wf: "dicts_wf h d" and lim: "sd_limits d = uncapped l" and i: "i = xxh3_64 h v" "i \<noteq> 0"
  shows "dict_insert h v rq d =
    (if \<not> same_as h i v d then (Inl (Collision i), d)
     else if conflicting (st_req (entry_with h i v d rq)) (blob_threshold l \<le> length v)
     then (Inl (PlacementConflict i), d)
     else (Inr i, put_req h i v d rq))"
proof (cases "map_of (sd_entries d) i")
  case None
  then show ?thesis
    using i(2) uncapped_not_full
    by (simp add: dict_insert_def2 i(1) [symmetric] try_insert_def Let_def same_as_def entry_with_def
        conflicting_def put_req_def add_fresh_def lim uncapped_def [of l])
next
  case (Some s)
  show ?thesis
  proof (cases "same_as h i v d")
    case True
    then have "st_oversized s = (blob_threshold l \<le> length v)"
      using oversized_entry_with [OF wf True, of no_requirements] Some lim
      by (simp add: entry_with_def)
    then show ?thesis
      using Some True i(2)
      by (simp add: dict_insert_def2 i(1) [symmetric] try_insert_def Let_def same_as_def entry_with_def
          conflicting_def put_req_def add_repeat_def)
  next
    case False
    then show ?thesis
      using Some i(2)
      by (cases "check_same_value h i s v")
        (auto simp: dict_insert_def2 i(1) [symmetric] try_insert_def same_as_def check_same_value_def
          split: if_splits option.splits)
  qed
qed

section \<open>Values and their fingerprints\<close>

lemma stored_check_new [simp]: "stored_check h (new_stored h l v q) = check16 h v"
  by (simp add: stored_check_def first16_def check16_def)

lemma stored_check_upd [simp]: "stored_check h (t\<lparr>st_req := q\<rparr>) = stored_check h t"
  by (simp add: stored_check_def split: option.split)

lemma is_blob_upd: "is_blob (t\<lparr>st_req := q\<rparr>) \<longleftrightarrow> req_blob q \<or> st_oversized t"
  by (simp add: is_blob_def)

lemma flushed_of_fields [simp]:
  "fl_full_len (flushed_of h (snapshot_of (i, s))) = st_full_len s"
  "fl_check (flushed_of h (snapshot_of (i, s))) = stored_check h s"
  "fl_blob_required (flushed_of h (snapshot_of (i, s))) = req_blob (st_req s)"
  "fl_hot_hard (flushed_of h (snapshot_of (i, s))) = req_hot_hard (st_req s)"
  "fl_hot_soft (flushed_of h (snapshot_of (i, s))) = (\<not> req_hot_hard (st_req s) \<and> req_hot_soft (st_req s))"
  by (auto simp: flushed_of_def snapshot_of_def stored_check_def split: option.split)

lemma agrees_flushed_of:
  "agrees h (flushed_of h (snapshot_of (i, s))) t \<longleftrightarrow>
     st_full_len s = st_full_len t \<and> stored_check h s = stored_check h t \<and>
     req_blob (st_req s) = req_blob (st_req t) \<and> req_hot_hard (st_req s) = req_hot_hard (st_req t) \<and>
     (is_blob t \<or> (req_hot_hard (st_req s) \<or> req_hot_soft (st_req s)) = (req_hot_hard (st_req t) \<or> req_hot_soft (st_req t)))"
  unfolding agrees_def by auto

lemma check_sha: "check_distinguishes h V \<Longrightarrow> sha_distinguishes h V"
  by (simp add: check_distinguishes_def sha_distinguishes_def check16_def)

lemma flushed_matches_iff:
  assumes "check_distinguishes h V" "v \<in> V" "u \<in> V" "xxh3_64 h v = xxh3_64 h u"
    and "agrees h f t" "t = new_stored h l u q"
  shows "flushed_matches h f v \<longleftrightarrow> v = u"
proof -
  have "fl_full_len f = length u" "fl_check f = check16 h u"
    using assms(5) by (simp_all add: assms(6) agrees_def)
  then show ?thesis
    using assms(1-4) unfolding flushed_matches_def check_distinguishes_def by metis
qed


section \<open>Projections of the relation\<close>

lemma sim_facts:
  assumes "interner_sim h V st d"
  shows "dicts_wf h d" "dicts_wf h (in_window st)" "om_valid (in_flushed st)" "om_valid (in_hot_pinned st)"
    "sd_limits d = uncapped (sd_limits (in_window st))"
    "blob_threshold (sd_limits (in_window st)) \<le> truncate_limit (sd_limits (in_window st))"
    "om_valid (sd_entries d)" "om_valid (sd_entries (in_window st))"
    "in_flushed_stats st = totals (\<lambda>f. stats_for_flushed f (sd_limits (in_window st))) (in_flushed st)"
proof -
  note parts = assms [unfolded interner_sim_def Let_def]
  show "dicts_wf h d" "dicts_wf h (in_window st)" "om_valid (in_flushed st)" "om_valid (in_hot_pinned st)"
    "sd_limits d = uncapped (sd_limits (in_window st))"
    "blob_threshold (sd_limits (in_window st)) \<le> truncate_limit (sd_limits (in_window st))"
    "in_flushed_stats st = totals (\<lambda>f. stats_for_flushed f (sd_limits (in_window st))) (in_flushed st)"
    using parts by blast+
  then show "om_valid (sd_entries d)" "om_valid (sd_entries (in_window st))" by (simp_all add: dicts_wf_def)
qed

lemma sim_rel: "interner_sim h V st d \<Longrightarrow> rel_option (agrees h) (flushed_view h st i) (map_of (sd_entries d) i)"
  by (simp add: interner_sim_def Let_def)

lemma sim_value:
  assumes "interner_sim h V st d" "map_of (sd_entries d) i = Some t"
  obtains v where "v \<in> V" "xxh3_64 h v = i" "t = new_stored h (sd_limits (in_window st)) v (st_req t)"
  using assms(1) [unfolded interner_sim_def Let_def] assms(2) that by blast

lemma sim_window:
  assumes "interner_sim h V st d" "map_of (sd_entries (in_window st)) i = Some s"
  obtains t where "map_of (sd_entries d) i = Some t" "s = t\<lparr>st_req := st_req s\<rparr>"
    "agrees h (flushed_of h (snapshot_of (i, s))) t"
proof -
  obtain t where t: "map_of (sd_entries d) i = Some t" "s = t\<lparr>st_req := st_req s\<rparr>"
    using assms(1) [unfolded interner_sim_def Let_def] assms(2) by blast
  then show ?thesis using that sim_rel [OF assms(1), of i] assms(2) by (simp add: flushed_view_def)
qed

lemma sim_flushed:
  assumes "interner_sim h V st d" "map_of (sd_entries (in_window st)) i = None" "map_of (in_flushed st) i = Some f"
  obtains t where "map_of (sd_entries d) i = Some t" "agrees h f t"
  using sim_rel [OF assms(1), of i] assms(2,3)
  by (cases "map_of (sd_entries d) i") (simp_all add: flushed_view_def)

lemma sim_absent:
  "interner_sim h V st d \<Longrightarrow> map_of (sd_entries (in_window st)) i = None \<Longrightarrow> map_of (in_flushed st) i = None \<Longrightarrow>
   map_of (sd_entries d) i = None"
  using sim_rel [of h V st d i] by (cases "map_of (sd_entries d) i") (simp_all add: flushed_view_def)

lemma sim_pinned:
  assumes "interner_sim h V st d" "map_of (in_hot_pinned st) i = Some v"
  obtains t where "map_of (sd_entries d) i = Some t" "req_hot_hard (st_req t)" "xxh3_64 h v = i"
    "t = new_stored h (sd_limits (in_window st)) v (st_req t)"
  using assms(1) [unfolded interner_sim_def Let_def] assms(2) that by blast

text \<open>The two sides of a request agree about the identity of the value, and the dictionary accepts
  by value and placement alone.\<close>

lemma same_as_value:
  assumes V: "check_distinguishes h V" "v \<in> V" "u \<in> V" and i: "xxh3_64 h v = i" "xxh3_64 h u = i"
    and d: "map_of (sd_entries d) i = Some (new_stored h l u q)"
  shows "same_as h i v d \<longleftrightarrow> v = u"
  using check_same_value_new [OF check_sha [OF V(1)] V(2,3), of i l q] i d by (simp add: same_as_def)

lemma same_as_window:
  assumes "interner_sim h V st d" "map_of (sd_entries (in_window st)) i = Some s"
  shows "same_as h i v (in_window st) \<longleftrightarrow> same_as h i v d"
proof -
  obtain t where t: "map_of (sd_entries d) i = Some t" "s = t\<lparr>st_req := st_req s\<rparr>"
    by (rule sim_window [OF assms])
  have "st_full_len s = st_full_len t" "st_full_sha256 s = st_full_sha256 t" "st_bytes s = st_bytes t"
    by (subst t(2), simp)+
  then show ?thesis
    using assms(2) t(1) by (simp add: same_as_def check_same_value_def split: option.split)
qed

section \<open>What a successful request does to the relation\<close>

text \<open>
  The general step: the dictionary puts the request; the window, the flushed records and the pinned
  values change at this id only, and the view of the id agrees with the new entry.
\<close>

lemma sim_put:
  assumes sim: "interner_sim h V st d" and V: "v \<in> V" "xxh3_64 h v = i" and same: "same_as h i v d" and nz: "i \<noteq> 0"
    and noconf: "\<not> conflicting (st_req (entry_with h i v d rq)) (blob_threshold (sd_limits (in_window st)) \<le> length v)"
    and wf: "dicts_wf h (in_window st')" and lim: "sd_limits (in_window st') = sd_limits (in_window st)"
    and flushed: "om_valid (in_flushed st')" "om_valid (in_hot_pinned st')"
      "in_flushed_stats st' = totals (\<lambda>f. stats_for_flushed f (sd_limits (in_window st))) (in_flushed st')"
    and others: "\<And>j. j \<noteq> i \<Longrightarrow> flushed_view h st' j = flushed_view h st j"
      "\<And>j. j \<noteq> i \<Longrightarrow> map_of (sd_entries (in_window st')) j = map_of (sd_entries (in_window st)) j"
    and here: "\<exists>f. flushed_view h st' i = Some f \<and> agrees h f (entry_with h i v d rq)"
    and window: "\<And>s. map_of (sd_entries (in_window st')) i = Some s \<Longrightarrow> s = (entry_with h i v d rq)\<lparr>st_req := st_req s\<rparr>"
    and pins: "\<And>j u. map_of (in_hot_pinned st') j = Some u \<Longrightarrow> map_of (in_hot_pinned st) j = Some u \<or>
      j = i \<and> u = v \<and> req_hot_hard rq"
    and val_eq: "\<And>t. map_of (sd_entries d) i = Some t \<Longrightarrow> t = new_stored h (sd_limits (in_window st)) v (st_req t)"
  shows "interner_sim h V st' (put_req h i v d rq)"
proof -
  let ?e = "entry_with h i v d rq" and ?l = "sd_limits (in_window st)"
  note facts = sim_facts [OF sim]
  have e: "?e = new_stored h ?l v (st_req ?e)"
  proof (cases "map_of (sd_entries d) i")
    case None
    then show ?thesis by (simp add: entry_with_def facts(5))
  next
    case (Some t)
    have "t\<lparr>st_req := merge_requirements (st_req t) rq\<rparr> = new_stored h ?l v (merge_requirements (st_req t) rq)"
      by (rule new_stored_upd [OF val_eq [OF Some]])
    then show ?thesis by (simp add: entry_with_def Some)
  qed
  have get: "map_of (sd_entries (put_req h i v d rq)) j = (if j = i then Some ?e else map_of (sd_entries d) j)" for j
    by (rule entry_put_req [OF facts(7)])
  have "dict_insert h v rq d = (Inr i, put_req h i v d rq)"
    using insert_uncapped_eq [OF facts(1,5), of i v rq] V(2) same nz noconf by simp
  then have wfd: "dicts_wf h (put_req h i v d rq)"
    using dict_insert_wf [OF facts(1), of v rq] by simp
  have rel: "rel_option (agrees h) (flushed_view h st' j) (map_of (sd_entries (put_req h i v d rq)) j)" for j
    using here others(1) [of j] sim_rel [OF sim, of j] by (cases "j = i") (auto simp: get)
  have vals: "\<exists>u \<in> V. xxh3_64 h u = j \<and> t = new_stored h ?l u (st_req t)"
    if "map_of (sd_entries (put_req h i v d rq)) j = Some t" for j t
    using that e V sim_value [OF sim, of j t] by (cases "j = i") (auto simp: get)
  have win: "\<exists>t. map_of (sd_entries (put_req h i v d rq)) j = Some t \<and> s = t\<lparr>st_req := st_req s\<rparr>"
    if "map_of (sd_entries (in_window st')) j = Some s" for j s
    using that window others(2) [of j] sim_window [OF sim, of j s] by (cases "j = i") (auto simp: get)
  have pin: "\<exists>t. map_of (sd_entries (put_req h i v d rq)) j = Some t \<and> req_hot_hard (st_req t) \<and> xxh3_64 h u = j \<and>
      t = new_stored h ?l u (st_req t)"
    if "map_of (in_hot_pinned st') j = Some u" for j u
    using pins [OF that]
  proof
    assume "map_of (in_hot_pinned st) j = Some u"
    then obtain t where t: "map_of (sd_entries d) j = Some t" "req_hot_hard (st_req t)" "xxh3_64 h u = j"
      "t = new_stored h ?l u (st_req t)" by (rule sim_pinned [OF sim])
    show ?thesis
    proof (cases "j = i")
      case True
      then have "?e = t\<lparr>st_req := merge_requirements (st_req t) rq\<rparr>" using t(1) by (simp add: entry_with_def)
      then have "?e = new_stored h ?l u (merge_requirements (st_req t) rq)"
        using new_stored_upd [OF t(4)] by simp
      then show ?thesis using True t(2,3) by (simp add: get)
    next
      case False
      then show ?thesis using t by (simp add: get)
    qed
  next
    assume "j = i \<and> u = v \<and> req_hot_hard rq"
    then show ?thesis using e V(2) by (auto simp: get st_req_entry_with)
  qed
  show ?thesis
    unfolding interner_sim_def Let_def lim
    using wfd wf flushed facts(5,6) rel vals win pin by (simp add: lim)
qed


section \<open>The three paths of a request\<close>

definition refines_request ::
    "hashes \<Rightarrow> bytes set \<Rightarrow> bytes \<Rightarrow> requirements \<Rightarrow> interner \<Rightarrow> segment_dicts \<Rightarrow>
     (dict_error + str_id \<times> bool) \<times> interner \<Rightarrow> bool" where
  "refines_request h V v rq st d r \<longleftrightarrow>
     (case r of
        (Inl e, st') \<Rightarrow> st' = st \<and> ((\<exists>n m. e = DictFull n m) \<or> \<not> is_ok (fst (dict_insert h v rq d)))
      | (Inr (i, hot), st') \<Rightarrow>
          i = xxh3_64 h v \<and> dict_insert h v rq d = (Inr i, put_req h i v d rq) \<and>
          interner_sim h V st' (put_req h i v d rq) \<and> (req_hot_soft rq \<longrightarrow> hot = is_hot (entry_with h i v d rq)))"

lemma put_wf:
  assumes "dicts_wf h w" "dict_insert h v rq w = (Inr i, put_req h i v w rq)"
  shows "dicts_wf h (put_req h i v w rq)"
  using dict_insert_wf [OF assms(1), of v rq] assms(2) by simp

lemma conflicting_merge: "conflicting rq over \<Longrightarrow> conflicting (merge_requirements q rq) over"
  by (auto simp: conflicting_def)

text \<open>The window after an accepted request is well formed, also when the cap forced nothing.\<close>

lemma put_req_wf:
  assumes wf: "dicts_wf h w" and i: "i = xxh3_64 h v" "i \<noteq> 0" and same: "same_as h i v w"
    and noconf: "\<not> conflicting (st_req (entry_with h i v w rq)) (blob_threshold (sd_limits w) \<le> length v)"
  shows "dicts_wf h (put_req h i v w rq)"
proof (cases "map_of (sd_entries w) i")
  case None
  have "stored_wf h (sd_limits w) i (new_stored h (sd_limits w) v rq)"
    using i noconf None by (auto simp: stored_wf_def entry_with_def conflicting_def is_blob_def)
  then show ?thesis
    using wf None
    by (auto simp: put_req_def add_fresh_def dicts_wf_def om_valid_insert om_get_insert om_sum_insert_new)
next
  case (Some s)
  have over: "st_oversized s = (blob_threshold (sd_limits w) \<le> length v)"
    using oversized_entry_with [OF wf same, of no_requirements] Some by (simp add: entry_with_def)
  have "repeat_ok h i v rq w s"
    using Some same noconf over by (simp add: repeat_ok_def same_as_def entry_with_def conflicting_def)
  then show ?thesis using wf_add_repeat [OF wf] Some by (simp add: put_req_def)
qed

lemma window_path:
  assumes sim: "interner_sim h V st d" and V: "check_distinguishes h V" "v \<in> V" and nz: "xxh3_64 h v \<noteq> 0"
    and s: "map_of (sd_entries (in_window st)) (xxh3_64 h v) = Some s"
  shows "refines_request h V v rq st d (with_window st (apply_to_window h v rq (in_window st)))"
proof -
  let ?i = "xxh3_64 h v" and ?w = "in_window st"
  let ?over = "blob_threshold (sd_limits ?w) \<le> length v"
  note facts = sim_facts [OF sim]
  obtain t where t: "map_of (sd_entries d) ?i = Some t" "s = t\<lparr>st_req := st_req s\<rparr>"
    and ag: "agrees h (flushed_of h (snapshot_of (?i, s))) t" by (rule sim_window [OF sim s])
  have st: "st_oversized s = st_oversized t" "st_full_len s = st_full_len t" "stored_check h s = stored_check h t"
    by (subst t(2), simp)+
  have marks: "req_blob (st_req s) = req_blob (st_req t)" "req_hot_hard (st_req s) = req_hot_hard (st_req t)"
    "is_blob t \<or> (req_hot_hard (st_req s) \<or> req_hot_soft (st_req s)) = (req_hot_hard (st_req t) \<or> req_hot_soft (st_req t))"
    using ag unfolding agrees_flushed_of by blast+
  have win: "apply_to_window h v rq ?w =
    (if conflicting rq ?over then (Inl (PlacementConflict ?i), ?w)
     else if \<not> same_as h ?i v d then (Inl (Collision ?i), ?w)
     else if conflicting (st_req (entry_with h ?i v d rq)) ?over then (Inl (PlacementConflict ?i), ?w)
     else (Inr (?i, if req_hot_soft rq then is_hot (entry_with h ?i v ?w rq) else req_hot_hard rq), put_req h ?i v ?w rq))"
    using apply_to_window_eq [OF facts(2) refl nz, of rq] s t(1) marks same_as_window [OF sim s, of v]
    by (simp add: over_cap_def entry_with_def conflicting_def)
  have dict: "dict_insert h v rq d =
    (if \<not> same_as h ?i v d then (Inl (Collision ?i), d)
     else if conflicting (st_req (entry_with h ?i v d rq)) ?over then (Inl (PlacementConflict ?i), d)
     else (Inr ?i, put_req h ?i v d rq))"
    by (rule insert_uncapped_eq [OF facts(1,5) refl nz])
  show ?thesis
  proof (cases "same_as h ?i v d \<and> \<not> conflicting (st_req (entry_with h ?i v d rq)) ?over")
    case False
    then show ?thesis
      using conflicting_merge [of rq ?over]
      by (auto simp: refines_request_def with_window_def win dict st_req_entry_with)
  next
    case True
    then have noconf: "\<not> conflicting rq ?over" using conflicting_merge by (auto simp: st_req_entry_with)
    have same: "same_as h ?i v d" and noconf_d: "\<not> conflicting (st_req (entry_with h ?i v d rq)) ?over"
      using True by simp_all
    have same_w: "same_as h ?i v ?w" using same same_as_window [OF sim s, of v] by simp
    have noconf_w: "\<not> conflicting (st_req (entry_with h ?i v ?w rq)) ?over"
      using noconf_d s t(1) marks by (simp add: entry_with_def conflicting_def)
    have hot: "is_hot (entry_with h ?i v ?w rq) = is_hot (entry_with h ?i v d rq)"
      using marks st by (auto simp: is_hot_def is_blob_def entry_with_def s t(1))
    obtain u where u: "u \<in> V" "xxh3_64 h u = ?i" "t = new_stored h (sd_limits ?w) u (st_req t)"
      by (rule sim_value [OF sim t(1)])
    have "v = u"
      using same_as_value [OF V(1,2) u(1) refl u(2), of d "sd_limits ?w" "st_req t"] t(1) u(3) same by simp
    let ?st = "st\<lparr>in_window := put_req h ?i v ?w rq\<rparr>"
    have "interner_sim h V ?st (put_req h ?i v d rq)"
    proof (rule sim_put [OF sim V(2) refl same nz noconf_d])
      show "dicts_wf h (in_window ?st)" using put_req_wf [OF facts(2) refl nz same_w noconf_w] by simp
      show "om_valid (in_flushed ?st)" "om_valid (in_hot_pinned ?st)"
        "in_flushed_stats ?st = totals (\<lambda>f. stats_for_flushed f (sd_limits ?w)) (in_flushed ?st)"
        using facts by simp_all
      show "flushed_view h ?st j = flushed_view h st j" if "j \<noteq> ?i" for j
        using that by (simp add: flushed_view_def entry_put_req [OF facts(8)] split: option.split)
      show "\<exists>f. flushed_view h ?st ?i = Some f \<and> agrees h f (entry_with h ?i v d rq)"
        using marks st
        by (auto simp: flushed_view_def entry_put_req [OF facts(8)] agrees_flushed_of entry_with_def s t(1) is_blob_upd
            is_blob_def)
      show "x = (entry_with h ?i v d rq)\<lparr>st_req := st_req x\<rparr>"
        if "map_of (sd_entries (in_window ?st)) ?i = Some x" for x
        using that t(2) by (cases s; cases t) (auto simp: entry_put_req [OF facts(8)] entry_with_def s t(1))
      show "t' = new_stored h (sd_limits ?w) v (st_req t')" if "map_of (sd_entries d) ?i = Some t'" for t'
        using that t(1) u(3) \<open>v = u\<close> by simp
    qed (simp_all add: entry_put_req [OF facts(8)])
    then show ?thesis
      using True noconf hot by (simp add: refines_request_def with_window_def win dict)
  qed
qed


lemma fresh_path:
  assumes sim: "interner_sim h V st d" and V: "check_distinguishes h V" "v \<in> V" and nz: "xxh3_64 h v \<noteq> 0"
    and none: "map_of (sd_entries (in_window st)) (xxh3_64 h v) = None" "map_of (in_flushed st) (xxh3_64 h v) = None"
  shows "refines_request h V v rq st d (with_window st (apply_to_window h v rq (in_window st)))"
proof -
  let ?i = "xxh3_64 h v" and ?w = "in_window st"
  let ?over = "blob_threshold (sd_limits ?w) \<le> length v"
  note facts = sim_facts [OF sim]
  have absent: "map_of (sd_entries d) ?i = None" by (rule sim_absent [OF sim none])
  have same: "same_as h ?i v ?w" "same_as h ?i v d" using none absent by (simp_all add: same_as_def)
  have e: "entry_with h ?i v ?w rq = new_stored h (sd_limits ?w) v rq" "entry_with h ?i v d rq = new_stored h (sd_limits ?w) v rq"
    using none absent by (simp_all add: entry_with_def facts(5))
  have dict: "dict_insert h v rq d =
    (if conflicting rq ?over then (Inl (PlacementConflict ?i), d) else (Inr ?i, put_req h ?i v d rq))"
    using insert_uncapped_eq [OF facts(1,5) refl nz, of rq] same e by simp
  note win = apply_to_window_eq [OF facts(2) refl nz, of rq]
  show ?thesis
  proof (cases "conflicting rq ?over \<or> over_cap ?i v ?w")
    case True
    then show ?thesis using same by (auto simp: refines_request_def with_window_def win dict)
  next
    case False
    let ?st = "st\<lparr>in_window := put_req h ?i v ?w rq\<rparr>"
    have "interner_sim h V ?st (put_req h ?i v d rq)"
    proof (rule sim_put [OF sim V(2) refl same(2) nz])
      show "\<not> conflicting (st_req (entry_with h ?i v d rq)) ?over" using False e by simp
      show "dicts_wf h (in_window ?st)"
        using put_req_wf [OF facts(2) refl nz same(1), of rq] False e by simp
      show "om_valid (in_flushed ?st)" "om_valid (in_hot_pinned ?st)"
        "in_flushed_stats ?st = totals (\<lambda>f. stats_for_flushed f (sd_limits ?w)) (in_flushed ?st)"
        using facts by simp_all
      show "flushed_view h ?st j = flushed_view h st j" if "j \<noteq> ?i" for j
        using that by (simp add: flushed_view_def entry_put_req [OF facts(8)] split: option.split)
      show "\<exists>f. flushed_view h ?st ?i = Some f \<and> agrees h f (entry_with h ?i v d rq)"
        using e by (auto simp: flushed_view_def entry_put_req [OF facts(8)] agrees_flushed_of)
      show "x = (entry_with h ?i v d rq)\<lparr>st_req := st_req x\<rparr>"
        if "map_of (sd_entries (in_window ?st)) ?i = Some x" for x
        using that e by (auto simp: entry_put_req [OF facts(8)])
    qed (simp_all add: entry_put_req [OF facts(8)] absent)
    then show ?thesis
      using False same e by (simp add: refines_request_def with_window_def win dict)
  qed
qed

text \<open>Recording bits touches one flushed record and keeps the statistics in step.\<close>

lemma record_flushed_bits_facts:
  assumes f: "map_of (in_flushed st) i = Some f" and valid: "om_valid (in_flushed st)"
    and stats: "in_flushed_stats st = totals (\<lambda>f. stats_for_flushed f l) (in_flushed st)" and l: "sd_limits (in_window st) = l"
  shows "in_window (record_flushed_bits i q st) = in_window st"
    "in_hot_pinned (record_flushed_bits i q st) = in_hot_pinned st"
    "om_valid (in_flushed (record_flushed_bits i q st))"
    "map_of (in_flushed (record_flushed_bits i q st)) j =
      (if j = i then Some (f\<lparr>fl_blob_required := req_blob q, fl_hot_hard := req_hot_hard q, fl_hot_soft := req_hot_soft q\<rparr>)
       else map_of (in_flushed st) j)"
    "in_flushed_stats (record_flushed_bits i q st) = totals (\<lambda>f. stats_for_flushed f l) (in_flushed (record_flushed_bits i q st))"
  using f valid stats l
  by (simp_all add: record_flushed_bits_def Let_def om_valid_insert om_get_insert totals_insert_old [OF valid f])


text \<open>The flushed branch over its merged request.\<close>

lemma flushed_request_eq:
  assumes "m = \<lparr>req_blob = (fl_blob_required f \<or> req_blob rq), req_hot_hard = (fl_hot_hard f \<or> req_hot_hard rq),
      req_hot_soft = (fl_hot_soft f \<or> req_hot_soft rq)\<rparr>"
    and "over \<longleftrightarrow> blob_threshold (sd_limits (in_window st)) \<le> fl_full_len f"
  shows "flushed_request h i v rq f st =
    (if \<not> flushed_matches h f v then (Inl (Collision i), st)
     else if conflicting m over then (Inl (PlacementConflict i), st)
     else if req_blob m \<noteq> fl_blob_required f \<or> req_hot_hard m \<noteq> fl_hot_hard f then
       (case with_window st (apply_to_window h v m (in_window st)) of
          (Inl e, st') \<Rightarrow> (Inl e, st')
        | (Inr r, st') \<Rightarrow> (Inr r, record_flushed_bits i m st'))
     else (Inr (i, (req_hot_hard m \<or> req_hot_soft m) \<and> \<not> (req_blob m \<or> over)),
           if req_hot_soft m \<noteq> fl_hot_soft f \<and> \<not> (req_blob m \<or> over) then record_flushed_bits i m st else st))"
  unfolding flushed_request_def Let_def assms(1) [symmetric] conflicting_def assms(2) [symmetric] by (rule refl)

lemma flushed_path:
  assumes sim: "interner_sim h V st d" and V: "check_distinguishes h V" "v \<in> V" and nz: "xxh3_64 h v \<noteq> 0"
    and f: "map_of (sd_entries (in_window st)) (xxh3_64 h v) = None" "map_of (in_flushed st) (xxh3_64 h v) = Some f"
  shows "refines_request h V v rq st d (flushed_request h (xxh3_64 h v) v rq f st)"
proof -
  let ?i = "xxh3_64 h v" and ?w = "in_window st"
  let ?l = "sd_limits ?w"
  let ?over = "blob_threshold ?l \<le> length v"
  note facts = sim_facts [OF sim]
  obtain t where t: "map_of (sd_entries d) ?i = Some t" and ag: "agrees h f t" by (rule sim_flushed [OF sim f])
  obtain u where u: "u \<in> V" "xxh3_64 h u = ?i" "t = new_stored h ?l u (st_req t)" by (rule sim_value [OF sim t])
  have matches: "flushed_matches h f v \<longleftrightarrow> v = u"
    by (rule flushed_matches_iff [OF V u(1) u(2) [symmetric] ag u(3)])
  have same: "same_as h ?i v d \<longleftrightarrow> v = u"
    using same_as_value [OF V(1,2) u(1) refl u(2), of d ?l "st_req t"] t u(3) by simp
  have dict: "dict_insert h v rq d =
    (if \<not> same_as h ?i v d then (Inl (Collision ?i), d)
     else if conflicting (st_req (entry_with h ?i v d rq)) ?over then (Inl (PlacementConflict ?i), d)
     else (Inr ?i, put_req h ?i v d rq))"
    by (rule insert_uncapped_eq [OF facts(1,5) refl nz])
  show ?thesis
  proof (cases "v = u")
    case False
    then show ?thesis using matches same by (simp add: flushed_request_def refines_request_def dict)
  next
    case True
    define m where "m = \<lparr>req_blob = (fl_blob_required f \<or> req_blob rq), req_hot_hard = (fl_hot_hard f \<or> req_hot_hard rq),
      req_hot_soft = (fl_hot_soft f \<or> req_hot_soft rq)\<rparr>"
    have mf: "req_blob m = (fl_blob_required f \<or> req_blob rq)" "req_hot_hard m = (fl_hot_hard f \<or> req_hot_hard rq)"
      "req_hot_soft m = (fl_hot_soft f \<or> req_hot_soft rq)" by (simp_all add: m_def)
    have over: "(blob_threshold ?l \<le> fl_full_len f) = ?over" "st_oversized t = ?over"
      using ag True by (simp_all add: agrees_def, (subst u(3), simp)+)
    have e: "st_req (entry_with h ?i v d rq) = merge_requirements (st_req t) rq"
      "st_oversized (entry_with h ?i v d rq) = ?over"
      "st_full_len (entry_with h ?i v d rq) = st_full_len t" "stored_check h (entry_with h ?i v d rq) = stored_check h t"
      using over by (simp_all add: entry_with_def t)
    have u3: "t = new_stored h ?l v (st_req t)" unfolding True by (rule u(3))
    have ed: "entry_with h ?i v d rq = new_stored h ?l v (merge_requirements (st_req t) rq)"
      by (simp add: entry_with_def t new_stored_upd [OF u3])
    have marks: "fl_blob_required f = req_blob (st_req t)" "fl_hot_hard f = req_hot_hard (st_req t)"
      "is_blob t \<or> (fl_hot_hard f \<or> fl_hot_soft f) = (req_hot_hard (st_req t) \<or> req_hot_soft (st_req t))"
      using ag unfolding agrees_def by blast+
    have conf: "conflicting (st_req (entry_with h ?i v d rq)) ?over \<longleftrightarrow> conflicting m ?over"
      using marks by (simp add: e mf conflicting_def)
    have len: "st_full_len t = length v" "stored_check h t = check16 h v"
      using True by (subst u(3), simp)+
    have agm: "agrees h (f\<lparr>fl_blob_required := req_blob m, fl_hot_hard := req_hot_hard m, fl_hot_soft := req_hot_soft m\<rparr>)
        (entry_with h ?i v d rq)"
      using ag marks by (auto simp: agrees_def e mf is_blob_def over)
    have hot: "is_hot (entry_with h ?i v d rq) \<longleftrightarrow> (req_hot_hard m \<or> req_hot_soft m) \<and> \<not> (req_blob m \<or> ?over)"
      using marks over by (auto simp: is_hot_def is_blob_def e mf)
    note request = flushed_request_eq [OF m_def, of ?over st h ?i v, OF over(1) [symmetric]]
    have match: "flushed_matches h f v" using matches True by simp
    show ?thesis
    proof (cases "conflicting m ?over")
      case True
      have "\<not> is_ok (fst (dict_insert h v rq d))" by (simp add: dict conf True)
      moreover have "flushed_request h ?i v rq f st = (Inl (PlacementConflict ?i), st)"
        using True match by (simp add: request)
      ultimately show ?thesis by (simp add: refines_request_def)
    next
      case noconf: False
      have val_eq: "t' = new_stored h ?l v (st_req t')" if "map_of (sd_entries d) ?i = Some t'" for t'
        using that t u(3) True by simp
      have noconf_d: "\<not> conflicting (st_req (entry_with h ?i v d rq)) ?over" using noconf conf by simp
      have same_d: "same_as h ?i v d" using same True by simp
      note put = sim_put [OF sim V(2) refl same_d nz noconf_d]
      note bits = record_flushed_bits_facts [OF _ _ facts(9)]
      show ?thesis
      proof (cases "req_blob m \<noteq> fl_blob_required f \<or> req_hot_hard m \<noteq> fl_hot_hard f")
        case durable: True
        have ew: "entry_with h ?i v ?w m = new_stored h ?l v m" using f(1) by (simp add: entry_with_def)
        have win: "apply_to_window h v m ?w =
          (if over_cap ?i v ?w then (Inl (DictFull (sd_stored_bytes ?w) (max_total_bytes ?l)), ?w)
           else (Inr (?i, if req_hot_soft m then is_hot (new_stored h ?l v m) else req_hot_hard m), put_req h ?i v ?w m))"
          unfolding apply_to_window_eq [OF facts(2) refl nz, of m] ew using noconf f(1) by (simp add: same_as_def)
        show ?thesis
        proof (cases "over_cap ?i v ?w")
          case True
          then have "flushed_request h ?i v rq f st = (Inl (DictFull (sd_stored_bytes ?w) (max_total_bytes ?l)), st)"
            using match noconf durable by (simp add: request with_window_def win True)
          then show ?thesis by (simp add: refines_request_def)
        next
          case False
          define st1 where "st1 = st\<lparr>in_window := put_req h ?i v ?w m\<rparr>"
          define st2 where "st2 = record_flushed_bits ?i m st1"
          have req: "flushed_request h ?i v rq f st =
              (Inr (?i, if req_hot_soft m then is_hot (new_stored h ?l v m) else req_hot_hard m), st2)"
            using match noconf durable by (simp add: request with_window_def win False st1_def st2_def)
          note b = record_flushed_bits_facts [of st1 ?i f ?l m]
          have b: "in_window st2 = put_req h ?i v ?w m" "in_hot_pinned st2 = in_hot_pinned st" "om_valid (in_flushed st2)"
            "in_flushed_stats st2 = totals (\<lambda>f. stats_for_flushed f ?l) (in_flushed st2)"
            "\<And>j. j \<noteq> ?i \<Longrightarrow> map_of (in_flushed st2) j = map_of (in_flushed st) j"
            using b f(2) facts(3,9) by (simp_all add: st1_def st2_def)
          have "interner_sim h V st2 (put_req h ?i v d rq)"
          proof (rule put)
            show "dicts_wf h (in_window st2)"
              using put_req_wf [OF facts(2) refl nz, of m] f(1) noconf ew by (simp add: b same_as_def)
            show "\<exists>x. flushed_view h st2 ?i = Some x \<and> agrees h x (entry_with h ?i v d rq)"
              using marks by (auto simp: flushed_view_def b entry_put_req [OF facts(8)] ew agrees_flushed_of e len is_blob_def over mf)
            show "x = (entry_with h ?i v d rq)\<lparr>st_req := st_req x\<rparr>"
              if "map_of (sd_entries (in_window st2)) ?i = Some x" for x
              using that by (auto simp: b entry_put_req [OF facts(8)] ew ed)
          qed (simp_all add: b facts entry_put_req [OF facts(8)] flushed_view_def val_eq split: option.split)
          moreover have "is_hot (new_stored h ?l v m) = is_hot (entry_with h ?i v d rq)"
            using hot by (auto simp: is_hot_def is_blob_def)
          ultimately show ?thesis
            using same_d noconf_d by (simp add: refines_request_def req dict mf)
        qed
      next
        case light: False
        define eff where "eff = (req_hot_soft m \<noteq> fl_hot_soft f \<and> \<not> (req_blob m \<or> ?over))"
        define st2 where "st2 = (if eff then record_flushed_bits ?i m st else st)"
        have req: "flushed_request h ?i v rq f st = (Inr (?i, is_hot (entry_with h ?i v d rq)), st2)"
          using match noconf light hot by (simp add: request eff_def st2_def)
        have b: "in_window st2 = ?w" "in_hot_pinned st2 = in_hot_pinned st" "om_valid (in_flushed st2)"
          "in_flushed_stats st2 = totals (\<lambda>f. stats_for_flushed f ?l) (in_flushed st2)"
          "\<And>j. j \<noteq> ?i \<Longrightarrow> map_of (in_flushed st2) j = map_of (in_flushed st) j"
          using bits [OF f(2) facts(3) refl] facts(3,9) by (simp_all add: st2_def)
        have "agrees h f (entry_with h ?i v d rq)" if "\<not> eff"
          using that ag light by (auto simp: agrees_def e is_blob_def over eff_def mf)
        then have here: "\<exists>x. flushed_view h st2 ?i = Some x \<and> agrees h x (entry_with h ?i v d rq)"
          using agm f bits(4) [OF f(2) facts(3) refl, of m ?i] by (auto simp: flushed_view_def b(1) st2_def bits(1) [OF f(2) facts(3) refl])
        have "interner_sim h V st2 (put_req h ?i v d rq)"
          
        proof (rule put)
          show "\<exists>x. flushed_view h st2 ?i = Some x \<and> agrees h x (entry_with h ?i v d rq)" by (rule here)
        qed (simp_all add: b facts f flushed_view_def val_eq split: option.split)
        then show ?thesis
          using same_d noconf_d by (simp add: refines_request_def req dict)
      qed
    qed
  qed
qed

lemma request_refines:
  assumes sim: "interner_sim h V st d" and V: "check_distinguishes h V" "v \<in> V"
  shows "refines_request h V v rq st d (interner_request h v rq st)"
proof (cases "xxh3_64 h v = 0")
  case True
  then show ?thesis by (simp add: interner_request_def StrId_of_def refines_request_def dict_insert_def2)
next
  case False
  then show ?thesis
    using window_path [OF sim V False, of _ rq] fresh_path [OF sim V False, of rq] flushed_path [OF sim V False, of _ rq]
    by (cases "map_of (sd_entries (in_window st)) (xxh3_64 h v)"; cases "map_of (in_flushed st) (xxh3_64 h v)")
      (simp_all add: interner_request_def StrId_of_def dict_resolve_def)
qed


lemma request_refines_Ok:
  assumes "interner_sim h V st d" "check_distinguishes h V" "v \<in> V" "interner_request h v rq st = (Inr (i, hot), st')"
  shows "i = xxh3_64 h v" "dict_insert h v rq d = (Inr i, put_req h i v d rq)"
    "interner_sim h V st' (put_req h i v d rq)" "req_hot_soft rq \<Longrightarrow> hot = is_hot (entry_with h i v d rq)"
  using request_refines [OF assms(1-3), of rq] assms(4) by (auto simp: refines_request_def)

lemma request_refines_Err:
  assumes "interner_sim h V st d" "check_distinguishes h V" "v \<in> V" "interner_request h v rq st = (Inl e, st')"
  shows "st' = st" "(\<exists>n m. e = DictFull n m) \<or> \<not> is_ok (fst (dict_insert h v rq d))"
  using request_refines [OF assms(1-3), of rq] assms(4) by (simp_all add: refines_request_def)

section \<open>Pinning and flushing\<close>

lemma sim_pin:
  assumes sim: "interner_sim h V st d" and t: "map_of (sd_entries d) i = Some t" "req_hot_hard (st_req t)"
    and v: "xxh3_64 h v = i" "t = new_stored h (sd_limits (in_window st)) v (st_req t)"
  shows "interner_sim h V (pin_hot i v st) d"
proof (cases "map_of (in_hot_pinned st) i")
  case None
  have pins: "map_of (in_hot_pinned (pin_hot i v st)) j = (if j = i then Some v else map_of (in_hot_pinned st) j)" for j
    using None sim_facts(4) [OF sim] by (simp add: pin_hot_def om_get_insert)
  have same: "in_window (pin_hot i v st) = in_window st" "in_flushed (pin_hot i v st) = in_flushed st"
    "in_flushed_stats (pin_hot i v st) = in_flushed_stats st" "om_valid (in_hot_pinned (pin_hot i v st))"
    using sim_facts(4) [OF sim] by (simp_all add: pin_hot_def om_valid_insert)
  have view: "flushed_view h (pin_hot i v st) j = flushed_view h st j" for j
    by (simp add: flushed_view_def same split: option.split)
  show ?thesis
    unfolding interner_sim_def Let_def same view pins
    using sim [unfolded interner_sim_def Let_def] t v same(4) by auto
next
  case (Some u)
  then show ?thesis using sim by (simp add: pin_hot_def)
qed

lemma reinsert_pinned_list:
  assumes "dicts_wf h w" "distinct (map fst ps)"
    and "\<And>i v. (i, v) \<in> set ps \<Longrightarrow> xxh3_64 h v = i \<and> i \<noteq> 0 \<and> length v < blob_threshold (sd_limits w) \<and>
      map_of (sd_entries w) i = None"
  shows "dicts_wf h (reinsert_pinned h ps w) \<and> sd_limits (reinsert_pinned h ps w) = sd_limits w \<and>
    (\<forall>i. map_of (sd_entries (reinsert_pinned h ps w)) i =
      (case map_of ps i of Some v \<Rightarrow> Some (new_stored h (sd_limits w) v (no_requirements\<lparr>req_hot_hard := True\<rparr>))
       | None \<Rightarrow> map_of (sd_entries w) i))"
  using assms
proof (induction ps arbitrary: w)
  case Nil
  then show ?case by (simp add: reinsert_pinned_def)
next
  case (Cons a ps)
  obtain i v where a: "a = (i, v)" by force
  let ?q = "no_requirements\<lparr>req_hot_hard := True\<rparr>" and ?w = "snd (dict_intern_hot h v w)"
  have i: "xxh3_64 h v = i" "i \<noteq> 0" "length v < blob_threshold (sd_limits w)" "map_of (sd_entries w) i = None"
    using Cons.prems(3) [of i v] by (simp_all add: a)
  have "fresh_ok i v ?q w" using i by (simp add: fresh_ok_def no_requirements_def)
  then have w: "?w = add_fresh h i v ?q w"
    using i by (simp add: dict_intern_hot_def dict_insert_def2 try_insert_fresh)
  have wf: "dicts_wf h ?w" using dict_insert_wf [OF Cons.prems(1), of v ?q] by (simp add: dict_intern_hot_def)
  have valid: "om_valid (sd_entries w)" using Cons.prems(1) by (simp add: dicts_wf_def)
  have get: "map_of (sd_entries ?w) j =
      (if j = i then Some (new_stored h (sd_limits w) v ?q) else map_of (sd_entries w) j)" for j
    by (simp add: w add_fresh_def om_get_insert [OF valid])
  have lim: "sd_limits ?w = sd_limits w" by (simp add: w)
  have no: "i \<notin> fst ` set ps" using Cons.prems(2) by (simp add: a)
  have rec: "reinsert_pinned h (a # ps) w = reinsert_pinned h ps ?w" by (simp add: reinsert_pinned_def a)
  have IH: "dicts_wf h (reinsert_pinned h ps ?w) \<and> sd_limits (reinsert_pinned h ps ?w) = sd_limits ?w \<and>
    (\<forall>i. map_of (sd_entries (reinsert_pinned h ps ?w)) i =
      (case map_of ps i of Some v \<Rightarrow> Some (new_stored h (sd_limits ?w) v ?q) | None \<Rightarrow> map_of (sd_entries ?w) i))"
  proof (rule Cons.IH [OF wf])
    show "distinct (map fst ps)" using Cons.prems(2) by simp
    fix j u assume "(j, u) \<in> set ps"
    then show "xxh3_64 h u = j \<and> j \<noteq> 0 \<and> length u < blob_threshold (sd_limits ?w) \<and> map_of (sd_entries ?w) j = None"
      using Cons.prems(3) [of j u] no by (force simp: get lim)
  qed
  have "map_of ps i = None" using no by (simp add: map_of_eq_None_iff)
  then show ?case
    unfolding rec using IH by (auto simp: a lim get split: option.split)
qed

lemma flush_window_Err: "flush_window h write st = (Inl e, st') \<Longrightarrow> st' = st"
  by (auto simp: flush_window_def Let_def split: sum.splits prod.splits)

text \<open>The window after a flush holds exactly the pinned values, each strict-hot.\<close>

lemma pinned_value:
  assumes sim: "interner_sim h V st d" and pinned: "map_of (in_hot_pinned st) i = Some v"
  shows "\<exists>t. map_of (sd_entries d) i = Some t \<and> req_hot_hard (st_req t) \<and>
      t = new_stored h (sd_limits (in_window st)) v (st_req t) \<and>
      xxh3_64 h v = i \<and> i \<noteq> 0 \<and> length v < blob_threshold (sd_limits (in_window st)) \<and> \<not> is_blob t"
proof -
  let ?l = "sd_limits (in_window st)"
  obtain t where t: "map_of (sd_entries d) i = Some t" "req_hot_hard (st_req t)" "xxh3_64 h v = i"
    "t = new_stored h ?l v (st_req t)" by (rule sim_pinned [OF sim pinned])
  have wf: "stored_wf h (sd_limits d) i t" using sim_facts(1) [OF sim] t(1) by (simp add: dicts_wf_def)
  then have "i \<noteq> 0" "\<not> is_blob t" using t(2) by (auto simp: stored_wf_def)
  moreover have "st_oversized t = (blob_threshold ?l \<le> length v)" by (subst t(4)) simp
  ultimately show ?thesis using t by (auto simp: is_blob_def)
qed

lemma flush_window_pinned:
  assumes sim: "interner_sim h V st d"
  shows "dicts_wf h (reinsert_pinned h (in_hot_pinned st) (SegmentDicts_new (sd_limits (in_window st))))"
    "sd_limits (reinsert_pinned h (in_hot_pinned st) (SegmentDicts_new (sd_limits (in_window st)))) = sd_limits (in_window st)"
    "map_of (sd_entries (reinsert_pinned h (in_hot_pinned st) (SegmentDicts_new (sd_limits (in_window st))))) i =
      (case map_of (in_hot_pinned st) i of
         Some v \<Rightarrow> Some (new_stored h (sd_limits (in_window st)) v (no_requirements\<lparr>req_hot_hard := True\<rparr>)) | None \<Rightarrow> None)"
proof -
  let ?l = "sd_limits (in_window st)"
  note facts = sim_facts [OF sim]
  have pins: "xxh3_64 h v = i \<and> i \<noteq> 0 \<and> length v < blob_threshold (sd_limits (SegmentDicts_new ?l)) \<and>
      map_of (sd_entries (SegmentDicts_new ?l)) i = None" if "(i, v) \<in> set (in_hot_pinned st)" for i v
    using pinned_value [OF sim iffD1 [OF om_iter_get [OF facts(4)] that]] by auto
  note list = reinsert_pinned_list [OF dicts_wf_new om_distinct [OF facts(4)] pins]
  show "dicts_wf h (reinsert_pinned h (in_hot_pinned st) (SegmentDicts_new ?l))"
    "sd_limits (reinsert_pinned h (in_hot_pinned st) (SegmentDicts_new ?l)) = ?l"
    "map_of (sd_entries (reinsert_pinned h (in_hot_pinned st) (SegmentDicts_new ?l))) i =
      (case map_of (in_hot_pinned st) i of
         Some v \<Rightarrow> Some (new_stored h ?l v (no_requirements\<lparr>req_hot_hard := True\<rparr>)) | None \<Rightarrow> None)"
    using list by (simp_all cong: option.case_cong)
qed

lemma flush_refines:
  assumes sim: "interner_sim h V st d" and flush: "flush_window h write st = (Inr n, st')"
  shows "interner_sim h V st' d"
proof -
  let ?w = "in_window st"
  let ?l = "sd_limits ?w" and ?q = "no_requirements\<lparr>req_hot_hard := True\<rparr>"
  note facts = sim_facts [OF sim]
  define m where "m = flush_map h (sd_entries ?w) (in_flushed st)"
  define w where "w = reinsert_pinned h (in_hot_pinned st) (SegmentDicts_new ?l)"
  have fold: "foldl (flush_entry h ?l) (in_flushed st, in_flushed_stats st) (dict_entries ?w)
      = (m, totals (\<lambda>f. stats_for_flushed f ?l) m)"
    unfolding facts(9) dict_entries_def m_def by (rule flush_fold_totals [OF facts(3)])
  have st': "st' = st\<lparr>in_flushed := m, in_flushed_stats := totals (\<lambda>f. stats_for_flushed f ?l) m, in_window := w\<rparr>"
    using flush by (auto simp: flush_window_def Let_def fold w_def split: sum.splits)
  have m: "om_valid m" "\<And>i. map_of m i = flushed_view h st i"
    unfolding m_def flushed_view_def
    by (simp_all add: flush_map_valid facts flush_map_get [OF facts(8,3)])
  note pin = pinned_value [OF sim]
  have w: "dicts_wf h w" "sd_limits w = ?l" and getw: "\<And>i. map_of (sd_entries w) i =
      (case map_of (in_hot_pinned st) i of Some v \<Rightarrow> Some (new_stored h ?l v ?q) | None \<Rightarrow> None)"
    unfolding w_def by (rule flush_window_pinned [OF sim])+
  have rel: "rel_option (agrees h) (flushed_view h st' i) (map_of (sd_entries d) i)" for i
  proof (cases "map_of (in_hot_pinned st) i")
    case None
    then show ?thesis using sim_rel [OF sim, of i] by (simp add: flushed_view_def st' getw m(2) [unfolded flushed_view_def])
  next
    case (Some v)
    then obtain t where t: "map_of (sd_entries d) i = Some t" "req_hot_hard (st_req t)" "t = new_stored h ?l v (st_req t)"
      "\<not> is_blob t" using pin by blast
    have "st_full_len t = length v" "stored_check h t = check16 h v" by (subst t(3), simp)+
    then show ?thesis
      using t(1,2,4) Some
      by (simp add: flushed_view_def st' getw agrees_flushed_of no_requirements_def is_blob_def)
  qed
  have win: "\<exists>t. map_of (sd_entries d) i = Some t \<and> s = t\<lparr>st_req := st_req s\<rparr>" if s: "map_of (sd_entries w) i = Some s" for i s
  proof -
    obtain v where v: "map_of (in_hot_pinned st) i = Some v" "s = new_stored h ?l v ?q"
      using s by (auto simp: getw split: option.splits)
    obtain t where "map_of (sd_entries d) i = Some t" "t = new_stored h ?l v (st_req t)" using pin [OF v(1)] by blast
    then show ?thesis using new_stored_upd [of t h ?l v "st_req t" ?q] v(2) by auto
  qed
  have new: "in_window st' = w" "in_flushed st' = m" "in_hot_pinned st' = in_hot_pinned st"
    "in_flushed_stats st' = totals (\<lambda>f. stats_for_flushed f ?l) m"
    by (simp_all add: st')
  show ?thesis
    unfolding interner_sim_def Let_def new w(2)
    using sim [unfolded interner_sim_def Let_def] w(1) m(1) rel win by blast
qed

end
