(* ===== verification/Interner_Props.thy ===== *)
theory Interner_Props
  imports Interner_Refine
begin

text \<open>
  The interner of \<open>crates/kronika-writer/src/interner.rs\<close> over whole segments: any sequence of the
  four request kinds and of flushes is matched by one uncapped dictionary, and what the segment
  reports at its end is what that dictionary holds.
\<close>

section \<open>Operations as events\<close>

datatype interner_op = OpIntern bytes | OpBlob bytes | OpHot bytes | OpSoft bytes

fun op_value :: "interner_op \<Rightarrow> bytes" where
  "op_value (OpIntern v) = v" | "op_value (OpBlob v) = v" | "op_value (OpHot v) = v" | "op_value (OpSoft v) = v"

fun op_request :: "interner_op \<Rightarrow> requirements" where
  "op_request (OpIntern v) = no_requirements"
| "op_request (OpBlob v) = no_requirements\<lparr>req_blob := True\<rparr>"
| "op_request (OpHot v) = no_requirements\<lparr>req_hot_hard := True\<rparr>"
| "op_request (OpSoft v) = no_requirements\<lparr>req_hot_soft := True\<rparr>"

fun interner_do :: "hashes \<Rightarrow> interner_op \<Rightarrow> interner \<Rightarrow> (dict_error + str_id) \<times> interner" where
  "interner_do h (OpIntern v) st = interner_intern h v st"
| "interner_do h (OpBlob v) st = interner_intern_blob h v st"
| "interner_do h (OpHot v) st = interner_intern_hot h v st"
| "interner_do h (OpSoft v) st = fst_ok (interner_intern_hot_best_effort h v st)"

text \<open>The uncapped dictionary performs the same call.\<close>

definition dict_do :: "hashes \<Rightarrow> interner_op \<Rightarrow> segment_dicts \<Rightarrow> (dict_error + str_id) \<times> segment_dicts" where
  "dict_do h x d = dict_insert h (op_value x) (op_request x) d"

text \<open>
  A segment: requests over values of \<open>V\<close>, accepted or not, and flushes whose journal write succeeds
  or fails, next to the dictionary that performs the accepted requests.
\<close>

inductive segment_run :: "hashes \<Rightarrow> bytes set \<Rightarrow> dict_limits \<Rightarrow> interner \<Rightarrow> segment_dicts \<Rightarrow> bool"
  for h V l where
  start: "segment_run h V l (Interner_new l) (SegmentDicts_new (uncapped l))"
| accepted: "segment_run h V l st d \<Longrightarrow> op_value x \<in> V \<Longrightarrow> interner_do h x st = (Inr i, st') \<Longrightarrow>
    segment_run h V l st' (snd (dict_do h x d))"
| refused: "segment_run h V l st d \<Longrightarrow> op_value x \<in> V \<Longrightarrow> interner_do h x st = (Inl e, st') \<Longrightarrow> segment_run h V l st' d"
| flushed: "segment_run h V l st d \<Longrightarrow> flush_window h (write :: segment_dicts \<Rightarrow> unit + unit) st = (r, st') \<Longrightarrow> segment_run h V l st' d"

lemma interner_do_Err: "interner_do h x st = (Inl e, st') \<Longrightarrow>
   \<exists>v. v = op_value x \<and> interner_request h v (op_request x) st = (Inl e, st')"
  by (cases x) (auto simp: interner_intern_def interner_intern_blob_def interner_intern_hot_def
      interner_intern_hot_best_effort_def fst_ok_def split: prod.splits sum.splits)

lemma interner_do_Ok: "interner_do h x st = (Inr i, st') \<Longrightarrow>
   \<exists>hot st1. interner_request h (op_value x) (op_request x) st = (Inr (i, hot), st1) \<and>
     st' = (if req_hot_hard (op_request x) then pin_hot i (op_value x) st1 else st1)"
  by (cases x) (auto simp: interner_intern_def interner_intern_blob_def interner_intern_hot_def
      interner_intern_hot_best_effort_def fst_ok_def no_requirements_def split: prod.splits sum.splits)

lemma entry_with_value:
  assumes sim: "interner_sim h V st d" and V: "check_distinguishes h V" "v \<in> V"
    and ok: "dict_insert h v rq d = (Inr i, put_req h i v d rq)" and i: "i = xxh3_64 h v"
  shows "entry_with h i v d rq = new_stored h (sd_limits (in_window st)) v (st_req (entry_with h i v d rq))"
proof (cases "map_of (sd_entries d) i")
  case None
  then show ?thesis using sim_facts(5) [OF sim] by (simp add: entry_with_def)
next
  case (Some t)
  let ?l = "sd_limits (in_window st)"
  obtain u where u: "u \<in> V" "xxh3_64 h u = i" "t = new_stored h ?l u (st_req t)" by (rule sim_value [OF sim Some])
  have "i \<noteq> 0" using dict_insert_id [of h v rq d i] ok by auto
  then have "same_as h i v d"
    using insert_uncapped_eq [OF sim_facts(1) [OF sim] sim_facts(5) [OF sim] i, of rq] ok by (auto split: if_splits)
  then have "v = u"
    using same_as_value [OF V u(1) i [symmetric] u(2), of d ?l "st_req t"] Some u(3) by simp
  have "entry_with h i v d rq = t\<lparr>st_req := merge_requirements (st_req t) rq\<rparr>" using Some by (simp add: entry_with_def)
  also have "\<dots> = new_stored h ?l u (merge_requirements (st_req t) rq)" by (rule new_stored_upd [OF u(3)])
  finally show ?thesis using \<open>v = u\<close> by simp
qed

lemma interner_do_refines:
  assumes sim: "interner_sim h V st d" and V: "check_distinguishes h V" "op_value x \<in> V"
    and step: "interner_do h x st = (Inr i, st')"
  shows "dict_do h x d = (Inr i, snd (dict_do h x d))" "interner_sim h V st' (snd (dict_do h x d))"
proof -
  let ?v = "op_value x" and ?q = "op_request x"
  obtain hot st1 where req: "interner_request h ?v ?q st = (Inr (i, hot), st1)"
    and st': "st' = (if req_hot_hard ?q then pin_hot i ?v st1 else st1)"
    using interner_do_Ok [OF step] by blast
  note ok = request_refines_Ok [OF sim V req]
  then show "dict_do h x d = (Inr i, snd (dict_do h x d))" by (simp add: dict_do_def)
  have "uncapped (sd_limits (in_window st1)) = uncapped (sd_limits (in_window st))"
    using sim_facts(5) [OF ok(3)] sim_facts(5) [OF sim] by simp
  then have lim: "new_stored h (sd_limits (in_window st1)) w q = new_stored h (sd_limits (in_window st)) w q" for w q
    by (metis uncapped_simps(3))
  have "interner_sim h V (pin_hot i ?v st1) (put_req h i ?v d ?q)" if hard: "req_hot_hard ?q"
  proof (rule sim_pin [OF ok(3)])
    show "map_of (sd_entries (put_req h i ?v d ?q)) i = Some (entry_with h i ?v d ?q)"
      by (simp add: entry_put_req [OF sim_facts(7) [OF sim]])
    show "req_hot_hard (st_req (entry_with h i ?v d ?q))" using hard by (simp add: st_req_entry_with)
    show "xxh3_64 h ?v = i" using ok(1) by simp
    show "entry_with h i ?v d ?q = new_stored h (sd_limits (in_window st1)) ?v (st_req (entry_with h i ?v d ?q))"
      unfolding lim by (rule entry_with_value [OF sim V ok(2,1)])
  qed
  then show "interner_sim h V st' (snd (dict_do h x d))"
    using ok(2,3) st' by (simp add: dict_do_def)
qed

lemma segment_run_sim:
  assumes "segment_run h V l st d" "check_distinguishes h V" "blob_threshold l \<le> truncate_limit l"
  shows "interner_sim h V st d"
  using assms(1)
proof (induction rule: segment_run.induct)
  case start
  then show ?case by (rule interner_sim_new [OF assms(3)])
next
  case (accepted st d x i st')
  then show ?case using interner_do_refines(2) [OF _ assms(2)] by blast
next
  case (refused st d x e st')
  then show ?case using interner_do_Err request_refines_Err(1) [OF _ assms(2)] by metis
next
  case (flushed st d "write" r st')
  then show ?case by (cases r) (auto dest: flush_window_Err intro: flush_refines)
qed

section \<open>Statistics and directives\<close>

lemma window_stats:
  assumes sim: "interner_sim h V st d" and s: "map_of (sd_entries (in_window st)) i = Some s"
  shows "stats_for_flushed (flushed_of h (snapshot_of (i, s))) (sd_limits (in_window st)) = stored_stats s"
proof -
  have "stored_wf h (sd_limits (in_window st)) i s"
    using sim_facts(2) [OF sim] s by (simp add: dicts_wf_def)
  then show ?thesis by (auto simp: stored_wf_def intro: stats_for_flushed_of)
qed

lemma agrees_stats:
  assumes ag: "agrees h f t" and t: "t = new_stored h l v (st_req t)"
  shows "stats_for_flushed f l = stored_stats t"
proof -
  have t': "st_full_len t = length v" "st_oversized t = (blob_threshold l \<le> length v)"
    "length (st_bytes t) = min (length v) (truncate_limit l)"
    "st_full_sha256 t = (if truncate_limit l < length v then Some (sha256 h v) else None)"
    by (subst t, simp)+
  show ?thesis
    using ag t'
    by (auto simp: agrees_def stats_for_flushed_def flushed_placement_def flushed_hot_def stored_stats_def
        stats_step_def zero_stats_def is_blob_def is_hot_def)
qed

lemma interner_stats_sim:
  assumes sim: "interner_sim h V st d"
  shows "interner_stats st = dict_stats_of d"
proof -
  let ?w = "in_window st"
  let ?l = "sd_limits ?w"
  note facts = sim_facts [OF sim]
  have "interner_stats st = totals (\<lambda>f. stats_for_flushed f ?l) (flush_map h (sd_entries ?w) (in_flushed st))"
    unfolding interner_stats_def Let_def facts(9) dict_stats_totals dict_entries_def
    by (rule removal_totals [OF facts(8,3) refl])
      (rule window_stats [OF sim], simp add: om_iter_get [OF facts(8), symmetric])
  also have "\<dots> = totals stored_stats (sd_entries d)"
  proof (rule totals_rel [OF flush_map_valid [OF facts(3)] facts(7)])
    fix i
    have view: "map_of (flush_map h (sd_entries ?w) (in_flushed st)) i = flushed_view h st i"
      by (simp add: flush_map_get [OF facts(8,3)] flushed_view_def)
    show "rel_option (\<lambda>f t. stats_for_flushed f ?l = stored_stats t)
        (map_of (flush_map h (sd_entries ?w) (in_flushed st)) i) (map_of (sd_entries d) i)"
    proof (cases "map_of (sd_entries d) i")
      case None
      then show ?thesis using sim_rel [OF sim, of i] by (simp add: view)
    next
      case (Some t)
      obtain v where "t = new_stored h ?l v (st_req t)" by (rule sim_value [OF sim Some])
      then show ?thesis using sim_rel [OF sim, of i] Some by (auto simp: view option_rel_Some2 intro: agrees_stats)
    qed
  qed
  finally show ?thesis by (simp add: dict_stats_totals)
qed

lemma agrees_marks:
  assumes ag: "agrees h f t" and t: "t = new_stored h l v (st_req t)"
  shows "flushed_placement f l = Blobs \<longleftrightarrow> is_blob t"
    "is_hot t \<longleftrightarrow> flushed_placement f l = Strings \<and> flushed_hot f \<noteq> HotNone"
proof -
  have t': "st_full_len t = length v" "st_oversized t = (blob_threshold l \<le> length v)" by (subst t, simp)+
  show "flushed_placement f l = Blobs \<longleftrightarrow> is_blob t"
    "is_hot t \<longleftrightarrow> flushed_placement f l = Strings \<and> flushed_hot f \<noteq> HotNone"
    using ag t' by (auto simp: agrees_def flushed_placement_def flushed_hot_def is_blob_def is_hot_def)
qed

section \<open>Strict-hot values are in every window\<close>

definition pinned_inv :: "interner \<Rightarrow> segment_dicts \<Rightarrow> bool" where
  "pinned_inv st d \<longleftrightarrow>
     (\<forall>i t. map_of (sd_entries d) i = Some t \<longrightarrow> req_hot_hard (st_req t) \<longrightarrow> map_of (in_hot_pinned st) i \<noteq> None) \<and>
     (\<forall>i. map_of (in_hot_pinned st) i \<noteq> None \<longrightarrow> map_of (sd_entries (in_window st)) i \<noteq> None)"

lemma apply_to_window_keys:
  assumes "dicts_wf h w" "xxh3_64 h v \<noteq> 0" "apply_to_window h v rq w = (r, w')"
  shows "map_of (sd_entries w) j \<noteq> None \<Longrightarrow> map_of (sd_entries w') j \<noteq> None"
    "is_ok r \<Longrightarrow> map_of (sd_entries w') (xxh3_64 h v) \<noteq> None"
proof -
  have valid: "om_valid (sd_entries w)" using assms(1) by (simp add: dicts_wf_def)
  show "map_of (sd_entries w) j \<noteq> None \<Longrightarrow> map_of (sd_entries w') j \<noteq> None"
    "is_ok r \<Longrightarrow> map_of (sd_entries w') (xxh3_64 h v) \<noteq> None"
    using assms(3) unfolding apply_to_window_eq [OF assms(1) refl assms(2)]
    by (auto simp: entry_put_req [OF valid] split: if_splits)
qed

lemma record_flushed_bits_window [simp]:
  "in_window (record_flushed_bits i q st) = in_window st"
  "in_hot_pinned (record_flushed_bits i q st) = in_hot_pinned st"
  by (simp_all add: record_flushed_bits_def Let_def split: option.split)

lemma request_window:
  assumes wf: "dicts_wf h (in_window st)" and req: "interner_request h v rq st = (Inr (i, hot), st')"
  shows "in_hot_pinned st' = in_hot_pinned st"
    "map_of (sd_entries (in_window st)) j \<noteq> None \<Longrightarrow> map_of (sd_entries (in_window st')) j \<noteq> None"
    "map_of (sd_entries (in_window st')) (xxh3_64 h v) \<noteq> None \<or>
     (\<exists>f. map_of (in_flushed st) (xxh3_64 h v) = Some f \<and> (req_hot_hard rq \<longrightarrow> fl_hot_hard f))"
proof -
  have nz: "xxh3_64 h v \<noteq> 0" using req by (auto simp: interner_request_def StrId_of_def)
  note keys = apply_to_window_keys [OF wf nz]
  show "in_hot_pinned st' = in_hot_pinned st"
    using req
    by (auto simp: interner_request_def flushed_request_def Let_def with_window_def split: option.splits if_splits sum.splits prod.splits)
  show "map_of (sd_entries (in_window st')) j \<noteq> None" if "map_of (sd_entries (in_window st)) j \<noteq> None"
    using req that keys(1) [OF prod.collapse [symmetric] that]
    by (auto simp: interner_request_def flushed_request_def Let_def with_window_def
        split: option.splits if_splits sum.splits prod.splits)
  show "map_of (sd_entries (in_window st')) (xxh3_64 h v) \<noteq> None \<or>
     (\<exists>f. map_of (in_flushed st) (xxh3_64 h v) = Some f \<and> (req_hot_hard rq \<longrightarrow> fl_hot_hard f))"
    using req keys(2) [OF prod.collapse [symmetric]]
    by (auto simp: interner_request_def flushed_request_def Let_def with_window_def StrId_of_def
        split: option.splits if_splits sum.splits prod.splits)
qed

lemma pin_hot_get:
  "om_valid (in_hot_pinned st) \<Longrightarrow> map_of (in_hot_pinned (pin_hot i v st)) j \<noteq> None \<longleftrightarrow>
     j = i \<or> map_of (in_hot_pinned st) j \<noteq> None"
  by (auto simp: pin_hot_def om_get_insert)

lemma pin_hot_window [simp]: "in_window (pin_hot i v st) = in_window st"
  by (simp add: pin_hot_def)

lemma pinned_inv_do:
  assumes sim: "interner_sim h V st d" and V: "check_distinguishes h V" "op_value x \<in> V"
    and inv: "pinned_inv st d" and step: "interner_do h x st = (Inr i, st')"
  shows "pinned_inv st' (snd (dict_do h x d))"
proof -
  let ?v = "op_value x" and ?q = "op_request x"
  obtain hot st1 where req: "interner_request h ?v ?q st = (Inr (i, hot), st1)"
    and st': "st' = (if req_hot_hard ?q then pin_hot i ?v st1 else st1)"
    using interner_do_Ok [OF step] by blast
  note ok = request_refines_Ok [OF sim V req] and win = request_window [OF sim_facts(2) [OF sim] req]
  have i: "xxh3_64 h ?v = i" using ok(1) by simp
  have get: "map_of (sd_entries (snd (dict_do h x d))) j =
      (if j = i then Some (entry_with h i ?v d ?q) else map_of (sd_entries d) j)" for j
    using ok(2) by (simp add: dict_do_def entry_put_req [OF sim_facts(7) [OF sim]])
  have pins: "map_of (in_hot_pinned st') j \<noteq> None \<longleftrightarrow>
      (req_hot_hard ?q \<and> j = i) \<or> map_of (in_hot_pinned st) j \<noteq> None" for j
  proof -
    have "om_valid (in_hot_pinned st1)" using win(1) sim_facts(4) [OF sim] by simp
    then show ?thesis
      using st' win(1) by (cases "req_hot_hard ?q") (simp_all add: pin_hot_get del: not_None_eq)
  qed
  have keeps: "map_of (sd_entries (in_window st')) j \<noteq> None" if "map_of (sd_entries (in_window st)) j \<noteq> None" for j
    using win(2) [OF that] st' by simp
  have here: "map_of (sd_entries (in_window st')) i \<noteq> None" if hard: "req_hot_hard ?q"
  proof (cases "map_of (sd_entries (in_window st)) i")
    case None
    have False if f: "map_of (in_flushed st) i = Some f" "fl_hot_hard f" for f
    proof -
      obtain t where "map_of (sd_entries d) i = Some t" "agrees h f t" by (rule sim_flushed [OF sim None f(1)])
      then have "map_of (in_hot_pinned st) i \<noteq> None" using inv f(2) by (auto simp: pinned_inv_def agrees_def)
      then show False using inv None unfolding pinned_inv_def by blast
    qed
    then show ?thesis using win(3) hard st' unfolding i by auto
  qed (use keeps in auto)
  have "map_of (in_hot_pinned st') j \<noteq> None"
    if "map_of (sd_entries (snd (dict_do h x d))) j = Some t" "req_hot_hard (st_req t)" for j t
  proof (cases "j = i")
    case True
    then have "req_hot_hard (base_req i d) \<or> req_hot_hard ?q"
      using that by (auto simp: get st_req_entry_with)
    then consider "req_hot_hard ?q" | t0 where "map_of (sd_entries d) i = Some t0" "req_hot_hard (st_req t0)"
      by (auto simp: base_req_def split: option.splits)
    then show ?thesis
      using inv True unfolding pins pinned_inv_def by cases blast+
  next
    case False
    then show ?thesis using that inv unfolding get pins pinned_inv_def by simp
  qed
  moreover have "map_of (sd_entries (in_window st')) j \<noteq> None" if "map_of (in_hot_pinned st') j \<noteq> None" for j
    using that here keeps [of j] inv unfolding pins pinned_inv_def by auto
  ultimately show ?thesis unfolding pinned_inv_def by blast
qed

lemma pinned_inv_flush:
  assumes sim: "interner_sim h V st d" and inv: "pinned_inv st d"
    and flush: "flush_window h write st = (Inr n, st')"
  shows "pinned_inv st' d"
proof -
  have st': "in_hot_pinned st' = in_hot_pinned st"
    "in_window st' = reinsert_pinned h (in_hot_pinned st) (SegmentDicts_new (sd_limits (in_window st)))"
    using flush by (auto simp: flush_window_def Let_def split: sum.splits prod.splits)
  have "map_of (sd_entries (in_window st')) i \<noteq> None" if "map_of (in_hot_pinned st) i = Some v" for i v
    using that flush_window_pinned(3) [OF sim, of i] unfolding st'(2) by auto
  then show ?thesis using inv st'(1) unfolding pinned_inv_def by fastforce
qed

lemma segment_run_pinned:
  assumes "segment_run h V l st d" "check_distinguishes h V" "blob_threshold l \<le> truncate_limit l"
  shows "pinned_inv st d"
  using assms(1)
proof (induction rule: segment_run.induct)
  case start
  then show ?case by (simp add: pinned_inv_def Interner_new_def)
next
  case (accepted st d x i st')
  then show ?case using pinned_inv_do [OF segment_run_sim [OF _ assms(2,3)] assms(2)] by blast
next
  case (refused st d x e st')
  then show ?case
    using interner_do_Err request_refines_Err(1) [OF segment_run_sim [OF _ assms(2,3)] assms(2)] by metis
next
  case (flushed st d "write" r st')
  then show ?case
    using pinned_inv_flush [OF segment_run_sim [OF _ assms(2,3)]]
    by (cases r) (auto dest: flush_window_Err)
qed

section \<open>Properties\<close>

text \<open>
  C20: the interner refines one dictionary that remembers the whole segment. In every reachable state
  a request is accepted with the same id as the dictionary's, and a soft-hot request reports what the
  dictionary's entry says; a refused request changes nothing, and it is refused by the dictionary too
  unless the answer is the flow-control signal that the window is full. Values already flushed to the
  journal, known only by length and digest, behave as if they were still in memory.
\<close>

theorem interner_refines_dictionary:
  assumes run: "segment_run h V l st d"
    and V: "check_distinguishes h V" "blob_threshold l \<le> truncate_limit l" "op_value x \<in> V"
  shows "(case interner_do h x st of
      (Inr i, st') \<Rightarrow> fst (dict_do h x d) = Inr i \<and> segment_run h V l st' (snd (dict_do h x d))
    | (Inl e, st') \<Rightarrow> st' = st \<and> ((\<exists>n m. e = DictFull n m) \<or> \<not> is_ok (fst (dict_do h x d)))) \<and>
    (case interner_intern_hot_best_effort h (op_value x) st of
      (Inr (i, hot), _) \<Rightarrow>
        (\<exists>t. map_of (sd_entries (snd (dict_do h (OpSoft (op_value x)) d))) i = Some t \<and> (hot \<longleftrightarrow> is_hot t))
    | (Inl e, _) \<Rightarrow> True)"
proof
  note sim = segment_run_sim [OF run V(1,2)]
  show "case interner_do h x st of
      (Inr i, st') \<Rightarrow> fst (dict_do h x d) = Inr i \<and> segment_run h V l st' (snd (dict_do h x d))
    | (Inl e, st') \<Rightarrow> st' = st \<and> ((\<exists>n m. e = DictFull n m) \<or> \<not> is_ok (fst (dict_do h x d)))"
  proof (cases "interner_do h x st")
    case (Pair r st')
    show ?thesis
    proof (cases r)
      case (Inl e)
      then have "interner_request h (op_value x) (op_request x) st = (Inl e, st')"
        using interner_do_Err [of h x st e st'] Pair by blast
      from request_refines_Err [OF sim V(1,3) this] show ?thesis
        using Pair Inl by (simp add: dict_do_def)
    next
      case (Inr i)
      then have step: "interner_do h x st = (Inr i, st')" using Pair by simp
      have "fst (dict_do h x d) = Inr i"
        by (subst interner_do_refines(1) [OF sim V(1,3) step]) simp
      then show ?thesis using segment_run.accepted [OF run V(3) step] step by simp
    qed
  qed
  show "case interner_intern_hot_best_effort h (op_value x) st of
      (Inr (i, hot), _) \<Rightarrow>
        (\<exists>t. map_of (sd_entries (snd (dict_do h (OpSoft (op_value x)) d))) i = Some t \<and> (hot \<longleftrightarrow> is_hot t))
    | (Inl e, _) \<Rightarrow> True"
  proof (cases "interner_intern_hot_best_effort h (op_value x) st")
    case (Pair r st')
    show ?thesis
    proof (cases r)
      case (Inr ih)
      obtain i hot where ih: "ih = (i, hot)" by force
      have req: "interner_request h (op_value x) (no_requirements\<lparr>req_hot_soft := True\<rparr>) st = (Inr (i, hot), st')"
        using Pair Inr ih by (simp add: interner_intern_hot_best_effort_def)
      note ok = request_refines_Ok [OF sim V(1,3) req]
      have "map_of (sd_entries (snd (dict_do h (OpSoft (op_value x)) d))) i =
          Some (entry_with h i (op_value x) d (no_requirements\<lparr>req_hot_soft := True\<rparr>))"
        using ok(2) by (simp add: dict_do_def entry_put_req [OF sim_facts(7) [OF sim]])
      then show ?thesis using Pair Inr ih ok(4) by simp
    qed (simp add: Pair)
  qed
qed

definition sample_state :: interner where
  "sample_state = snd (flush_window sample_hashes (\<lambda>_. Inr () :: unit + unit)
     (snd (interner_do sample_hashes (OpHot [7]) (Interner_new sample_limits))))"

definition sample_dict :: segment_dicts where
  "sample_dict = snd (dict_do sample_hashes (OpHot [7]) (SegmentDicts_new (uncapped sample_limits)))"

lemmas interner_eval =
  sample_eval sample_state_def sample_dict_def dict_do_def uncapped_def interner_intern_hot_def interner_intern_def
  interner_intern_blob_def interner_intern_hot_best_effort_def interner_request_def StrId_of_def apply_to_window_def
  dict_intern_def dict_intern_hot_def dict_intern_blob_def dict_intern_hot_best_effort_def with_window_def Interner_new_def
  fst_ok_def pin_hot_def flush_window_def flush_entry_def flushed_of_def reinsert_pinned_def dict_entries_def snapshot_of_def
  Let_def

lemma sample_run: "segment_run sample_hashes V sample_limits sample_state sample_dict" if "[7] \<in> V" for V
proof -
  have "interner_do sample_hashes (OpHot [7]) (Interner_new sample_limits) =
      (Inr 2, snd (interner_do sample_hashes (OpHot [7]) (Interner_new sample_limits)))"
    by (simp add: interner_eval)
  from segment_run.accepted [OF segment_run.start _ this, of V]
  have "segment_run sample_hashes V sample_limits
      (snd (interner_do sample_hashes (OpHot [7]) (Interner_new sample_limits))) sample_dict"
    unfolding sample_dict_def using that by simp
  then show ?thesis
    unfolding sample_state_def by (rule segment_run.flushed) (rule prod.collapse [symmetric])
qed

lemma sample_check: "check_distinguishes sample_hashes {[7], [1]}"
  by (auto simp: check_distinguishes_def check16_def sample_hashes_def)

lemma sample_threshold: "blob_threshold sample_limits \<le> truncate_limit sample_limits"
  by (simp add: sample_limits_def)

theorem interner_refines_dictionary_witness:
  "case interner_do sample_hashes (OpBlob [7]) sample_state of
      (Inr i, st') \<Rightarrow> fst (dict_do sample_hashes (OpBlob [7]) sample_dict) = Inr i \<and>
        segment_run sample_hashes {[7], [1]} sample_limits st' (snd (dict_do sample_hashes (OpBlob [7]) sample_dict))
    | (Inl e, st') \<Rightarrow> st' = sample_state \<and>
        ((\<exists>n m. e = DictFull n m) \<or> \<not> is_ok (fst (dict_do sample_hashes (OpBlob [7]) sample_dict)))"
  by (rule conjunct1 [OF interner_refines_dictionary [OF sample_run sample_check sample_threshold]]) simp_all

text \<open>
  C21: the statistics of the interner are those of that dictionary: after any requests and flushes the
  counters kept incrementally equal the counts and byte sums over all values of the segment, each
  value counted once at its final placement. In particular a flush does not change them.
\<close>

theorem interner_stats_exact:
  assumes "segment_run h V l st d" "check_distinguishes h V" "blob_threshold l \<le> truncate_limit l"
  shows "interner_stats st = dict_stats_of d"
  by (rule interner_stats_sim [OF segment_run_sim [OF assms]])

theorem interner_stats_exact_witness:
  "interner_stats sample_state = dict_stats_of sample_dict \<and> hot_count (dict_stats_of sample_dict) = 1"
proof
  show "interner_stats sample_state = dict_stats_of sample_dict"
    by (rule interner_stats_exact [OF sample_run sample_check sample_threshold]) simp
  show "hot_count (dict_stats_of sample_dict) = 1"
    by (simp add: interner_eval dict_stats_of_def stats_step_def zero_stats_def)
qed

text \<open>
  C22: what a finished segment reports is complete and final. The interner is reset; an id is known
  exactly when the dictionary of the segment holds it; a value still in the window has its final
  placement and hot mark there, and for every other value the list of directives has one entry with
  the full length, the final dictionary and the final hot membership.
\<close>

theorem segment_directives:
  assumes "segment_run h V l st d" "check_distinguishes h V" "blob_threshold l \<le> truncate_limit l"
    and "(fin, st') = interner_write_segment st"
  shows "st' = Interner_new (sd_limits (in_window st)) \<and>
    (is_interned st i \<longleftrightarrow> dict_resolve d i \<noteq> None) \<and>
    (case map_of (sd_entries d) i of
       None \<Rightarrow> map_of (sd_entries (fin_window fin)) i = None \<and> i \<notin> fe_str_id ` set (fin_flushed fin)
     | Some t \<Rightarrow>
         (case map_of (sd_entries (fin_window fin)) i of
            Some s \<Rightarrow> st_bytes s = st_bytes t \<and> is_blob s = is_blob t \<and> is_hot s = is_hot t
          | None \<Rightarrow> \<exists>e \<in> set (fin_flushed fin). fe_str_id e = i \<and> fe_full_len e = st_full_len t \<and>
              (fe_placement e = Blobs \<longleftrightarrow> is_blob t) \<and>
              (is_hot t \<longleftrightarrow> fe_placement e = Strings \<and> fe_hot e \<noteq> HotNone)))"
proof -
  note sim = segment_run_sim [OF assms(1-3)]
  note facts = sim_facts [OF sim]
  let ?w = "in_window st"
  have fin: "fin_window fin = ?w" "fe_str_id ` set (fin_flushed fin) = fst ` set (in_flushed st)"
    "\<And>f. (i, f) \<in> set (in_flushed st) \<Longrightarrow> \<lparr>fe_str_id = i, fe_full_len = fl_full_len f,
      fe_placement = flushed_placement f (sd_limits ?w), fe_hot = flushed_hot f\<rparr> \<in> set (fin_flushed fin)"
    and st': "st' = Interner_new (sd_limits ?w)"
    using assms(4) by (force simp: interner_write_segment_def Let_def)+
  show ?thesis
  proof (cases "map_of (sd_entries d) i")
    case None
    then have "flushed_view h st i = None" using sim_rel [OF sim, of i] by simp
    then have "map_of (sd_entries ?w) i = None" "map_of (in_flushed st) i = None"
      by (simp_all add: flushed_view_def split: option.splits)
    moreover from this have "dict_resolve ?w i = None" "dict_resolve d i = None"
      using None by (simp_all add: dict_resolve_def)
    moreover have "i \<notin> fst ` set (in_flushed st)" using calculation(2) by (simp add: map_of_eq_None_iff)
    ultimately show ?thesis using None st' by (simp add: fin is_interned_def)
  next
    case (Some t)
    obtain f where f: "flushed_view h st i = Some f" "agrees h f t"
      using sim_rel [OF sim, of i] Some by (auto simp: option_rel_Some2)
    obtain v where v: "t = new_stored h (sd_limits ?w) v (st_req t)" by (rule sim_value [OF sim Some])
    show ?thesis
    proof (cases "map_of (sd_entries ?w) i")
      case (Some s)
      obtain t' where t': "map_of (sd_entries d) i = Some t'" "s = t'\<lparr>st_req := st_req s\<rparr>"
        "agrees h (flushed_of h (snapshot_of (i, s))) t'" by (rule sim_window [OF sim Some])
      have "t' = t" using t'(1) \<open>map_of (sd_entries d) i = Some t\<close> by simp
      moreover have "st_bytes s = st_bytes t'" "st_oversized s = st_oversized t'" by (subst t'(2), simp)+
      ultimately have "st_bytes s = st_bytes t \<and> is_blob s = is_blob t \<and> is_hot s = is_hot t"
        using t'(3) unfolding agrees_flushed_of is_hot_def is_blob_def by auto
      then show ?thesis
        using Some \<open>map_of (sd_entries d) i = Some t\<close> st' by (simp add: fin is_interned_def dict_resolve_def)
    next
      case None
      then have m: "map_of (in_flushed st) i = Some f" using f(1) by (simp add: flushed_view_def)
      then have "(i, f) \<in> set (in_flushed st)" by (rule map_of_SomeD)
      note listed = fin(3) [OF this]
      have len: "fl_full_len f = st_full_len t" using f(2) unfolding agrees_def by blast
      have "\<exists>e \<in> set (fin_flushed fin). fe_str_id e = i \<and> fe_full_len e = st_full_len t \<and>
          (fe_placement e = Blobs \<longleftrightarrow> is_blob t) \<and> (is_hot t \<longleftrightarrow> fe_placement e = Strings \<and> fe_hot e \<noteq> HotNone)"
        by (rule bexI [OF _ listed]) (simp add: len agrees_marks [OF f(2) v])
      moreover have "is_interned st i" "dict_resolve d i \<noteq> None"
        using m \<open>map_of (sd_entries d) i = Some t\<close> by (simp_all add: is_interned_def dict_resolve_def)
      ultimately show ?thesis
        using None \<open>map_of (sd_entries d) i = Some t\<close> st' by (simp add: fin(1))
    qed
  qed
qed

theorem segment_directives_witness:
  "is_interned sample_state 2 \<longleftrightarrow> dict_resolve sample_dict 2 \<noteq> None"
  using segment_directives [OF sample_run sample_check sample_threshold, of _ _ 2] by (metis insertI1 prod.collapse)

text \<open>
  Strict-hot values are in every window. In every reachable state, also right after a flush, each
  value that was ever accepted as strict-hot in the segment is in the current window and in its hot
  strings, so every part of the segment carries it.
\<close>

lemma strict_hot_in_every_window:
  assumes "segment_run h V l st d" "check_distinguishes h V" "blob_threshold l \<le> truncate_limit l"
    and "map_of (sd_entries d) i = Some t" "req_hot_hard (st_req t)"
  shows "(i, st_bytes t) \<in> set (dict_hot_strings (in_window st))"
proof -
  note sim = segment_run_sim [OF assms(1-3)]
  obtain s where s: "map_of (sd_entries (in_window st)) i = Some s"
    using segment_run_pinned [OF assms(1-3)] assms(4,5) unfolding pinned_inv_def by blast
  obtain t' where t': "map_of (sd_entries d) i = Some t'" "s = t'\<lparr>st_req := st_req s\<rparr>"
    "agrees h (flushed_of h (snapshot_of (i, s))) t'" by (rule sim_window [OF sim s])
  have "t' = t" using t'(1) assms(4) by simp
  have st: "st_bytes s = st_bytes t'" "st_oversized s = st_oversized t'" by (subst t'(2), simp)+
  have "stored_wf h (sd_limits d) i t" using sim_facts(1) [OF sim] assms(4) by (simp add: dicts_wf_def)
  then have "is_hot s"
    using t'(3) assms(5) st \<open>t' = t\<close> unfolding agrees_flushed_of is_hot_def is_blob_def stored_wf_def by auto
  moreover have "(i, s) \<in> set (sd_entries (in_window st))" using s by (rule map_of_SomeD)
  ultimately show ?thesis using st(1) \<open>t' = t\<close> by (force simp: dict_hot_strings_def)
qed

text \<open>
  A strict-hot request can be answered with the flow-control signal: the window path interns the value
  once without its requirements, and that call is subject to the byte cap.
\<close>

lemma strict_hot_full:
  "fst (interner_intern_hot sample_hashes [9] (snd (interner_intern sample_hashes [1, 2]
      (snd (interner_intern sample_hashes [1, 2, 3, 4] (Interner_new (sample_limits\<lparr>max_total_bytes := 5\<rparr>)))))))
    = Err (DictFull 5 5)"
  by (simp add: interner_eval)

end
