(* ===== verification/Scheduler.thy ===== *)
theory Scheduler
  imports Prelude
begin

text \<open>
  The collector's source scheduler (\<open>bins/kronika-collector/src/scheduler.rs\<close> and
  \<open>scheduler/sources.rs\<close>): which source groups are due at a tick. Log output of \<open>probe_psi\<close> is left out.
\<close>

section \<open>Sources and intervals\<close>

datatype source_kind =
    OsCore | OsMountTopo | OsProcesses | OsProcessStatus | OsCgroup | OsCgroupMapping | Logs
  | PgActivity | PgInstance | PgTablesAndIndexes | PgStatementsAndPlans

definition ALL_SOURCES :: "source_kind list" where
  "ALL_SOURCES =
     [OsCore, OsMountTopo, OsProcesses, OsProcessStatus, OsCgroup, OsCgroupMapping, Logs, PgActivity, PgInstance,
      PgTablesAndIndexes, PgStatementsAndPlans]"

definition MIN_PG_STATEMENTS_INTERVAL_SECS :: u64 where
  "MIN_PG_STATEMENTS_INTERVAL_SECS = 300"

record intervals =
  iv_os_core :: u64
  iv_os_mount_topo :: u64
  iv_os_processes :: u64
  iv_os_process_status :: u64
  iv_os_cgroup :: u64
  iv_os_cgroup_mapping :: u64
  iv_logs :: u64
  iv_pg_activity :: u64
  iv_pg_activity_blocked :: u64
  iv_pg_instance :: u64
  iv_pg_tables_and_indexes :: u64
  iv_pg_statements_and_plans :: u64

definition default_intervals :: intervals where
  "default_intervals =
     \<lparr>iv_os_core = 10, iv_os_mount_topo = 60, iv_os_processes = 5, iv_os_process_status = 30, iv_os_cgroup = 30,
      iv_os_cgroup_mapping = 30, iv_logs = 10, iv_pg_activity = 10, iv_pg_activity_blocked = 5, iv_pg_instance = 30,
      iv_pg_tables_and_indexes = 300, iv_pg_statements_and_plans = MIN_PG_STATEMENTS_INTERVAL_SECS\<rparr>"

fun interval_of :: "intervals \<Rightarrow> source_kind \<Rightarrow> u64" where
  "interval_of iv OsCore = iv_os_core iv"
| "interval_of iv OsMountTopo = iv_os_mount_topo iv"
| "interval_of iv OsProcesses = iv_os_processes iv"
| "interval_of iv OsProcessStatus = iv_os_process_status iv"
| "interval_of iv OsCgroup = iv_os_cgroup iv"
| "interval_of iv OsCgroupMapping = iv_os_cgroup_mapping iv"
| "interval_of iv Logs = iv_logs iv"
| "interval_of iv PgActivity = iv_pg_activity iv"
| "interval_of iv PgInstance = iv_pg_instance iv"
| "interval_of iv PgTablesAndIndexes = iv_pg_tables_and_indexes iv"
| "interval_of iv PgStatementsAndPlans = iv_pg_statements_and_plans iv"

section \<open>The scheduler\<close>

datatype collector_mode = Local | Postgresql

definition collect_os :: "collector_mode \<Rightarrow> bool" where
  "collect_os m \<longleftrightarrow> m = Local"

record scheduled_source =
  ss_kind :: source_kind
  ss_interval :: duration
  ss_last_read :: "instant option"

record scheduler =
  sch_sources :: "scheduled_source list"
  sch_collect_psi :: bool
  sch_pg_activity_interval :: duration
  sch_pg_activity_blocked_interval :: duration

record due_set =
  due_kinds :: "source_kind list"
  due_forced :: bool

definition due_has :: "due_set \<Rightarrow> source_kind \<Rightarrow> bool" where
  "due_has due k \<longleftrightarrow> k \<in> set (due_kinds due)"

definition due_is_empty :: "due_set \<Rightarrow> bool" where
  "due_is_empty due \<longleftrightarrow> due_kinds due = []"

definition due_logs :: due_set where
  "due_logs = \<lparr>due_kinds = [Logs], due_forced = False\<rparr>"

definition due_without :: "due_set \<Rightarrow> source_kind \<Rightarrow> due_set" where
  "due_without due excluded = due\<lparr>due_kinds := filter (\<lambda>k. k \<noteq> excluded) (due_kinds due)\<rparr>"

definition initial_seconds :: "intervals \<Rightarrow> source_kind \<Rightarrow> u64" where
  "initial_seconds iv k =
     (if k = PgStatementsAndPlans then max (interval_of iv k) MIN_PG_STATEMENTS_INTERVAL_SECS else interval_of iv k)"

definition Scheduler_new :: "intervals \<Rightarrow> collector_mode \<Rightarrow> bool \<Rightarrow> scheduler" where
  "Scheduler_new iv mode collect_cgroups =
     \<lparr>sch_sources =
        map (\<lambda>k. \<lparr>ss_kind = k, ss_interval = from_secs (initial_seconds iv k), ss_last_read = None\<rparr>)
          (filter (\<lambda>k. collect_cgroups \<or> k \<notin> {OsCgroup, OsCgroupMapping})
            (filter (\<lambda>k. collect_os mode \<or> k \<in> {Logs, PgActivity, PgInstance, PgTablesAndIndexes, PgStatementsAndPlans})
              ALL_SOURCES)),
      sch_collect_psi = collect_os mode,
      sch_pg_activity_interval = from_secs (iv_pg_activity iv),
      sch_pg_activity_blocked_interval = from_secs (iv_pg_activity_blocked iv)\<rparr>"

definition collects_cgroups :: "scheduler \<Rightarrow> bool" where
  "collects_cgroups s \<longleftrightarrow> (\<exists>src \<in> set (sch_sources s). ss_kind src = OsCgroup)"

text \<open>The read yields a count or an \<open>errno\<close>; 95 is \<open>EOPNOTSUPP\<close> on Linux.\<close>

definition EOPNOTSUPP :: nat where "EOPNOTSUPP = 95"

definition probe_psi :: "bool \<Rightarrow> nat option + nat \<Rightarrow> scheduler \<Rightarrow> scheduler" where
  "probe_psi in_container reading s =
     (let s1 = (if in_container \<and> \<not> collects_cgroups s then s\<lparr>sch_collect_psi := False\<rparr> else s)
      in if \<not> sch_collect_psi s1 then s1
         else case reading of
                Inl (Some errno) \<Rightarrow> if errno = EOPNOTSUPP then s1\<lparr>sch_collect_psi := False\<rparr> else s1
              | Inl None \<Rightarrow> s1
              | Inr _ \<Rightarrow> s1)"

definition finish_source :: "scheduler \<Rightarrow> due_set \<Rightarrow> bool option \<Rightarrow> instant \<Rightarrow> scheduled_source \<Rightarrow> scheduled_source" where
  "finish_source s due blocking now src =
     (if ss_kind src = PgStatementsAndPlans \<and> due_has due (ss_kind src) then src\<lparr>ss_last_read := Some now\<rparr>
      else if ss_kind src = PgActivity then
        (case blocking of
           None \<Rightarrow> src
         | Some b \<Rightarrow>
             src\<lparr>ss_interval := (if b then min (sch_pg_activity_interval s) (sch_pg_activity_blocked_interval s)
                                else sch_pg_activity_interval s)\<rparr>)
      else src)"

definition finish_postgres :: "due_set \<Rightarrow> bool option \<Rightarrow> instant \<Rightarrow> scheduler \<Rightarrow> scheduler" where
  "finish_postgres due blocking now s = s\<lparr>sch_sources := map (finish_source s due blocking now) (sch_sources s)\<rparr>"

definition source_due :: "instant \<Rightarrow> bool \<Rightarrow> scheduled_source \<Rightarrow> bool" where
  "source_due now force src \<longleftrightarrow>
     (force \<and> ss_kind src \<noteq> PgStatementsAndPlans) \<or>
     (case ss_last_read src of None \<Rightarrow> True | Some l \<Rightarrow> ss_interval src \<le> now - l)"

definition sched_plan :: "instant \<Rightarrow> bool \<Rightarrow> scheduler \<Rightarrow> due_set \<times> scheduler" where
  "sched_plan now force s =
     (\<lparr>due_kinds = map ss_kind (filter (source_due now force) (sch_sources s)), due_forced = force\<rparr>,
      s\<lparr>sch_sources := map (\<lambda>src. if source_due now force src then src\<lparr>ss_last_read := Some now\<rparr> else src) (sch_sources s)\<rparr>)"

text \<open>The waits of the sources that have been read and have a positive interval.\<close>

definition source_wait :: "instant \<Rightarrow> scheduled_source \<Rightarrow> duration option" where
  "source_wait now src =
     (if ss_interval src = 0 then None
      else map_option (\<lambda>l. ss_interval src - (now - l)) (ss_last_read src))"

definition next_elapsed_due_in :: "instant \<Rightarrow> scheduler \<Rightarrow> duration option" where
  "next_elapsed_due_in now s =
     (case List.map_filter (source_wait now) (sch_sources s) of [] \<Rightarrow> None | w # ws \<Rightarrow> Some (fold min ws w))"

text \<open>\<open>iter_mut().find\<close>: only the first source of the kind is touched.\<close>

fun reset_first :: "scheduled_source list \<Rightarrow> scheduled_source list" where
  "reset_first [] = []"
| "reset_first (src # srcs) =
     (if ss_kind src = OsMountTopo then src\<lparr>ss_last_read := None\<rparr> # srcs else src # reset_first srcs)"

definition mark_segment_opened :: "scheduler \<Rightarrow> scheduler" where
  "mark_segment_opened s = s\<lparr>sch_sources := reset_first (sch_sources s)\<rparr>"

definition recollected :: "due_set \<Rightarrow> scheduled_source \<Rightarrow> bool" where
  "recollected due src \<longleftrightarrow> due_has due (ss_kind src) \<or> ss_kind src = OsMountTopo"

definition recollection_due :: "due_set \<Rightarrow> instant \<Rightarrow> scheduler \<Rightarrow> due_set \<times> scheduler" where
  "recollection_due due now s =
     (\<lparr>due_kinds = map ss_kind (filter (recollected due) (sch_sources s)), due_forced = due_forced due\<rparr>,
      s\<lparr>sch_sources := map (\<lambda>src. if recollected due src \<and> ss_kind src \<noteq> PgStatementsAndPlans
          then src\<lparr>ss_last_read := Some now\<rparr> else src) (sch_sources s)\<rparr>)"

section \<open>Events\<close>

text \<open>
  What the collector does to its scheduler, with the clock reading it passes. Planning answers with
  the due set; the others answer with nothing that is collected from the statement extensions.
\<close>

datatype sched_event =
    Plan instant bool
  | FinishPostgres due_set "bool option" instant
  | SegmentOpened
  | Recollect due_set instant
  | ProbePsi bool "nat option + nat"

fun event_time :: "sched_event \<Rightarrow> instant option" where
  "event_time (Plan now _) = Some now"
| "event_time (FinishPostgres _ _ now) = Some now"
| "event_time (Recollect _ now) = Some now"
| "event_time _ = None"

fun sched_step :: "sched_event \<Rightarrow> scheduler \<Rightarrow> scheduler" where
  "sched_step (Plan now force) s = snd (sched_plan now force s)"
| "sched_step (FinishPostgres due blocking now) s = finish_postgres due blocking now s"
| "sched_step SegmentOpened s = mark_segment_opened s"
| "sched_step (Recollect due now) s = snd (recollection_due due now s)"
| "sched_step (ProbePsi c r) s = probe_psi c r s"

fun sched_run :: "sched_event list \<Rightarrow> scheduler \<Rightarrow> scheduler" where
  "sched_run [] s = s"
| "sched_run (e # es) s = sched_run es (sched_step e s)"

section \<open>Invariants\<close>

text \<open>
  Sources are distinct, and the statement source keeps its interval of at least five minutes. After a
  read of the statements at \<open>t\<close>, the recorded read is not before \<open>t\<close>.
\<close>

definition sources_wf :: "scheduler \<Rightarrow> bool" where
  "sources_wf s \<longleftrightarrow>
     distinct (map ss_kind (sch_sources s)) \<and>
     (\<forall>src \<in> set (sch_sources s). ss_kind src = PgStatementsAndPlans \<longrightarrow> 300 * 10 ^ 9 \<le> ss_interval src)"

definition read_since :: "instant \<Rightarrow> scheduler \<Rightarrow> bool" where
  "read_since t s \<longleftrightarrow>
     (\<forall>src \<in> set (sch_sources s). ss_kind src = PgStatementsAndPlans \<longrightarrow> (\<exists>l. ss_last_read src = Some l \<and> t \<le> l))"

lemma reset_first_kinds [simp]: "map ss_kind (reset_first srcs) = map ss_kind srcs"
  by (induction srcs) auto

lemma reset_first_statements:
  "src \<in> set (reset_first srcs) \<Longrightarrow> ss_kind src = PgStatementsAndPlans \<Longrightarrow> src \<in> set srcs"
  by (induction srcs) (auto split: if_splits)

lemma probe_psi_sources [simp]: "sch_sources (probe_psi c r s) = sch_sources s"
  by (simp add: probe_psi_def Let_def split: sum.split option.split)

lemma finish_source_kind [simp]: "ss_kind (finish_source s due b now src) = ss_kind src"
  by (simp add: finish_source_def split: option.split)

lemma from_secs_mono: "a \<le> b \<Longrightarrow> from_secs a \<le> from_secs b"
  by (simp add: from_secs_def word_le_nat_alt)

lemma sources_wf_new: "sources_wf (Scheduler_new iv mode cg)"
proof -
  have "from_secs MIN_PG_STATEMENTS_INTERVAL_SECS = 300 * 10 ^ 9"
    by (simp add: from_secs_def MIN_PG_STATEMENTS_INTERVAL_SECS_def)
  then have "300 * 10 ^ 9 \<le> from_secs (initial_seconds iv PgStatementsAndPlans)"
    using from_secs_mono [of MIN_PG_STATEMENTS_INTERVAL_SECS "initial_seconds iv PgStatementsAndPlans"]
    by (simp add: initial_seconds_def)
  moreover have "distinct ALL_SOURCES" by (simp add: ALL_SOURCES_def)
  ultimately show ?thesis
    by (auto simp: sources_wf_def Scheduler_new_def comp_def)
qed

lemma sched_step_kinds [simp]: "map ss_kind (sch_sources (sched_step e s)) = map ss_kind (sch_sources s)"
  by (cases e) (simp_all add: sched_plan_def finish_postgres_def recollection_due_def mark_segment_opened_def comp_def
      if_distrib [where f = ss_kind] cong: if_cong)

lemma sched_step_statements:
  assumes "src \<in> set (sch_sources (sched_step e s))" "ss_kind src = PgStatementsAndPlans"
  obtains src0 where "src0 \<in> set (sch_sources s)" "ss_kind src0 = PgStatementsAndPlans"
    "ss_interval src = ss_interval src0"
    "ss_last_read src = ss_last_read src0 \<or> (\<exists>now. event_time e = Some now \<and> ss_last_read src = Some now)"
proof (cases e)
  case SegmentOpened
  then show ?thesis
    using assms that reset_first_statements by (fastforce simp: mark_segment_opened_def)
qed (use assms that in \<open>fastforce simp: sched_plan_def finish_postgres_def recollection_due_def finish_source_def
    split: if_splits option.splits\<close>)+

lemma sched_step_wf: "sources_wf s \<Longrightarrow> sources_wf (sched_step e s)"
  unfolding sources_wf_def by (auto elim!: sched_step_statements)

lemma sched_run_wf: "sources_wf s \<Longrightarrow> sources_wf (sched_run es s)"
  by (induction es s rule: sched_run.induct) (simp_all add: sched_step_wf)

lemma sched_step_read_since:
  "read_since t s \<Longrightarrow> (\<And>now. event_time e = Some now \<Longrightarrow> t \<le> now) \<Longrightarrow> read_since t (sched_step e s)"
  unfolding read_since_def by (force elim!: sched_step_statements)

lemma sched_run_read_since:
  "read_since t s \<Longrightarrow> (\<forall>e \<in> set es. \<forall>now. event_time e = Some now \<longrightarrow> t \<le> now) \<Longrightarrow> read_since t (sched_run es s)"
proof (induction es s rule: sched_run.induct)
  case (2 e es s)
  have "read_since t (sched_step e s)" by (rule sched_step_read_since [OF 2(2)]) (use 2(3) in auto)
  then show ?case using 2(1,3) by simp
qed simp


text \<open>Reads are recorded at the times of the events.\<close>

definition read_by :: "instant \<Rightarrow> scheduler \<Rightarrow> bool" where
  "read_by t s \<longleftrightarrow> (\<forall>src \<in> set (sch_sources s). \<forall>l. ss_last_read src = Some l \<longrightarrow> l \<le> t)"

lemma reset_first_reads: "src \<in> set (reset_first srcs) \<Longrightarrow> src \<in> set srcs \<or> ss_last_read src = None"
  by (induction srcs) (auto split: if_splits)

lemma sched_step_read_by:
  assumes "read_by t s" "\<And>now. event_time e = Some now \<Longrightarrow> now \<le> t"
  shows "read_by t (sched_step e s)"
proof (cases e)
  case SegmentOpened
  then show ?thesis
    using assms reset_first_reads by (fastforce simp: read_by_def mark_segment_opened_def)
qed (use assms in \<open>auto simp: read_by_def sched_plan_def finish_postgres_def recollection_due_def finish_source_def
    split: if_splits option.splits\<close>)

lemma sched_run_read_by:
  "read_by t s \<Longrightarrow> (\<forall>e \<in> set es. \<forall>now. event_time e = Some now \<longrightarrow> now \<le> t) \<Longrightarrow> read_by t (sched_run es s)"
proof (induction es s rule: sched_run.induct)
  case (2 e es s)
  have "read_by t (sched_step e s)" by (rule sched_step_read_by [OF 2(2)]) (use 2(3) in auto)
  then show ?case using 2(1,3) by simp
qed simp

lemma read_by_new: "read_by t (Scheduler_new iv mode cg)"
  by (auto simp: read_by_def Scheduler_new_def)

section \<open>Properties\<close>

lemma statements_read_recorded:
  assumes "(\<exists>force. e = Plan t force \<and> due_has (fst (sched_plan t force s)) PgStatementsAndPlans) \<or>
      (\<exists>due blocking. e = FinishPostgres due blocking t \<and> due_has due PgStatementsAndPlans)"
    and "distinct (map ss_kind (sch_sources s))"
  shows "read_since t (sched_step e s)"
  using assms(1)
proof (elim disjE exE conjE)
  fix force
  assume e: "e = Plan t force" and due: "due_has (fst (sched_plan t force s)) PgStatementsAndPlans"
  then obtain src where src: "src \<in> set (sch_sources s)" "ss_kind src = PgStatementsAndPlans" "source_due t force src"
    by (auto simp: due_has_def sched_plan_def)
  have "x = src" if "x \<in> set (sch_sources s)" "ss_kind x = PgStatementsAndPlans" for x
    using that src(1,2) assms(2) by (metis distinct_map inj_onD)
  then show ?thesis using e src(3) by (auto simp: read_since_def sched_plan_def)
qed (auto simp: read_since_def finish_postgres_def finish_source_def split: option.splits if_splits)

text \<open>
  C28: the statement cooldown. In any history of the scheduler, when the statement source is planned
  (also under SIGUSR2) or its pass finishes at \<open>t1\<close>, then whatever happens in between, no later plan
  before five minutes have passed since \<open>t1\<close> includes it again.
\<close>

theorem statements_cooldown:
  assumes "s = sched_run history (Scheduler_new iv mode cgroups)"
    and "(\<exists>force. e = Plan t1 force \<and> due_has (fst (sched_plan t1 force s)) PgStatementsAndPlans) \<or>
      (\<exists>due blocking. e = FinishPostgres due blocking t1 \<and> due_has due PgStatementsAndPlans)"
    and "\<forall>e' \<in> set between. \<forall>now. event_time e' = Some now \<longrightarrow> t1 \<le> now"
    and "due_has (fst (sched_plan t2 force (sched_run between (sched_step e s)))) PgStatementsAndPlans"
  shows "t1 + 300 * 10 ^ 9 \<le> t2"
proof -
  have wf: "sources_wf s" unfolding assms(1) by (rule sched_run_wf [OF sources_wf_new])
  let ?s = "sched_run between (sched_step e s)"
  have "read_since t1 ?s"
    using sched_run_read_since [OF statements_read_recorded [OF assms(2)] assms(3)] wf by (simp add: sources_wf_def)
  moreover have "sources_wf ?s" using wf by (simp add: sched_step_wf sched_run_wf)
  moreover obtain src where "src \<in> set (sch_sources ?s)" "ss_kind src = PgStatementsAndPlans" "source_due t2 force src"
    using assms(4) by (auto simp: due_has_def sched_plan_def)
  ultimately obtain l where "t1 \<le> l" "ss_last_read src = Some l" "300 * 10 ^ 9 \<le> ss_interval src" "ss_interval src \<le> t2 - l"
    unfolding read_since_def sources_wf_def source_due_def by fastforce
  moreover have "t1 \<le> l \<Longrightarrow> c \<le> i \<Longrightarrow> i \<le> t2 - l \<Longrightarrow> 0 < c \<Longrightarrow> t1 + c \<le> t2" for c i :: nat by linarith
  ultimately show ?thesis by force
qed

definition sample_scheduler :: scheduler where
  "sample_scheduler = Scheduler_new default_intervals Postgresql False"

lemmas sched_eval =
  sample_scheduler_def Scheduler_new_def default_intervals_def ALL_SOURCES_def sched_plan_def source_due_def due_has_def
  from_secs_def initial_seconds_def MIN_PG_STATEMENTS_INTERVAL_SECS_def collect_os_def finish_postgres_def finish_source_def

theorem statements_cooldown_witness:
  "(5::nat) + 300 * 10 ^ 9 \<le> 400 * 10 ^ 9"
proof (rule statements_cooldown [of sample_scheduler "[]" default_intervals Postgresql False "Plan 5 True" 5
      "[Plan 6 True, FinishPostgres \<lparr>due_kinds = [], due_forced = False\<rparr> (Some True) 7]" "400 * 10 ^ 9" False])
  show "due_has (fst (sched_plan (400 * 10 ^ 9) False
      (sched_run [Plan 6 True, FinishPostgres \<lparr>due_kinds = [], due_forced = False\<rparr> (Some True) 7]
        (sched_step (Plan 5 True) sample_scheduler)))) PgStatementsAndPlans"
    by (simp add: sched_eval)
qed (auto simp: sched_eval)

text \<open>
  C29: the wake-up time is exact. In any history whose events are not after \<open>now\<close>, the announced wait
  ends exactly when a source that waits for a positive interval becomes due: at its end a plan selects
  such a source, and at no earlier time does an ordinary plan select one, so the collector neither
  sleeps through an interval nor wakes before one has elapsed.
\<close>

theorem wake_up_exact:
  assumes "s = sched_run history (Scheduler_new iv mode cgroups)"
    and "\<forall>e \<in> set history. \<forall>t. event_time e = Some t \<longrightarrow> t \<le> now"
    and "next_elapsed_due_in now s = Some w"
  shows "(\<exists>src \<in> set (sch_sources s). 0 < ss_interval src \<and> ss_last_read src \<noteq> None \<and>
      due_has (fst (sched_plan (now + w) False s)) (ss_kind src)) \<and>
    (\<forall>t k. now \<le> t \<longrightarrow> t < now + w \<longrightarrow> due_has (fst (sched_plan t False s)) k \<longrightarrow>
      (\<exists>src \<in> set (sch_sources s). ss_kind src = k \<and> (ss_last_read src = None \<or> ss_interval src = 0)))"
proof -
  have past: "read_by now s" unfolding assms(1) by (rule sched_run_read_by [OF read_by_new assms(2)])
  let ?ws = "List.map_filter (source_wait now) (sch_sources s)"
  have ne: "?ws \<noteq> []" and w: "w = Min (set ?ws)"
    using assms(3) by (auto simp: next_elapsed_due_in_def Min.set_eq_fold [symmetric] split: list.splits)
  have "w \<in> set ?ws" unfolding w using ne by (intro Min_in) auto
  then obtain src where src: "src \<in> set (sch_sources s)" "source_wait now src = Some w"
    by (auto simp: List.map_filter_def split: option.splits)
  then obtain l where l: "0 < ss_interval src" "ss_last_read src = Some l" "w = ss_interval src - (now - l)"
    by (auto simp: source_wait_def split: if_splits)
  have "l \<le> now" using past src(1) l(2) by (auto simp: read_by_def)
  then have "source_due (now + w) False src" using l by (simp add: source_due_def)
  then have "due_has (fst (sched_plan (now + w) False s)) (ss_kind src)"
    using src(1) by (auto simp: due_has_def sched_plan_def)
  moreover have "ss_last_read x = None \<or> ss_interval x = 0"
    if "x \<in> set (sch_sources s)" "source_due t False x" "now \<le> t" "t < now + w" for x t
  proof (rule ccontr)
    assume waiting: "\<not> (ss_last_read x = None \<or> ss_interval x = 0)"
    then obtain l where l: "ss_last_read x = Some l" "0 < ss_interval x" by auto
    then have "ss_interval x - (now - l) \<in> set ?ws"
      using that(1) by (force simp: List.map_filter_def source_wait_def)
    then have "w \<le> ss_interval x - (now - l)" unfolding w by (intro Min_le) auto
    moreover have "ss_interval x \<le> t - l" using that(2) l(1) by (simp add: source_due_def)
    moreover have "l \<le> now" using past that(1) l(1) by (auto simp: read_by_def)
    ultimately show False using that(3,4) by linarith
  qed
  ultimately show ?thesis
    using src(1) l(1,2) by (auto simp: due_has_def sched_plan_def)
qed

theorem wake_up_exact_witness:
  "next_elapsed_due_in 7 (sched_run [Plan 5 True] sample_scheduler) = Some (10 * 10 ^ 9 - 2) \<and>
   (\<exists>src \<in> set (sch_sources (sched_run [Plan 5 True] sample_scheduler)). 0 < ss_interval src \<and> ss_last_read src \<noteq> None \<and>
      due_has (fst (sched_plan (7 + (10 * 10 ^ 9 - 2)) False (sched_run [Plan 5 True] sample_scheduler))) (ss_kind src))"
proof -
  let ?s = "sched_run [Plan 5 True] sample_scheduler"
  have w: "next_elapsed_due_in 7 ?s = Some (10 * 10 ^ 9 - 2)"
    by (simp add: sched_eval next_elapsed_due_in_def source_wait_def List.map_filter_def)
  have "\<forall>e \<in> set [Plan 5 True]. \<forall>t. event_time e = Some t \<longrightarrow> t \<le> 7" by simp
  from wake_up_exact [of ?s "[Plan 5 True]" default_intervals Postgresql False 7, OF _ this w] w show ?thesis
    unfolding sample_scheduler_def by blast
qed

end
