(* ===== verification/Tree_Files.thy ===== *)
theory Tree_Files
  imports Layout_Entries "HOL-Library.AList"
begin

text \<open>
  The file operations through which the writer owner removes artifacts
  (\<open>crates/kronika-layout/src/root/fsops.rs\<close>, \<open>root/writer.rs\<close>, \<open>prune_empty_calendar\<close> of
  \<open>root/index.rs\<close>, \<open>open_day\<close> of \<open>root.rs\<close>). The data tree maps paths, relative to the root descriptor,
  to what \<open>stat\<close> reports. Every system call may fail: the tree carries the failures of the calls to come,
  and a failing call changes nothing. Descriptors of directories are paths, since the owner is the
  only process that removes directories.
\<close>

type_synonym path = "string list"

record data_tree =
  dt_entries :: "(path \<times> file_stat) list"
  dt_faults :: "io_error option list"

definition ENOENT :: nat where "ENOENT = 2"
definition EEXIST :: nat where "EEXIST = 17"
definition ENOTDIR :: nat where "ENOTDIR = 20"
definition EISDIR :: nat where "EISDIR = 21"
definition ENOTEMPTY :: nat where "ENOTEMPTY = 39"
definition ELOOP :: nat where "ELOOP = 40"

definition entry_at :: "data_tree \<Rightarrow> path \<Rightarrow> file_stat option" where
  "entry_at t p = map_of (dt_entries t) p"

definition remove_entry :: "path \<Rightarrow> data_tree \<Rightarrow> data_tree" where
  "remove_entry p t = t\<lparr>dt_entries := AList.delete p (dt_entries t)\<rparr>"

definition has_children :: "path \<Rightarrow> data_tree \<Rightarrow> bool" where
  "has_children p t \<longleftrightarrow> list_ex (\<lambda>(q, _). q \<noteq> [] \<and> butlast q = p) (dt_entries t)"

section \<open>Sequencing\<close>

text \<open>A call of the layer takes the state of the tree and may fail; the state type is left open.\<close>

type_synonym ('s, 'a) action = "'s \<Rightarrow> (layout_error + 'a) \<times> 's"
type_synonym 'a call = "(data_tree, 'a) action"

definition return :: "'a \<Rightarrow> ('s, 'a) action" where
  "return x t = (Ok x, t)"

definition fail :: "layout_error \<Rightarrow> ('s, 'a) action" where
  "fail e t = (Err e, t)"

definition seq :: "('s, 'a) action \<Rightarrow> ('a \<Rightarrow> ('s, 'b) action) \<Rightarrow> ('s, 'b) action" where
  "seq m k t = (case m t of (Inl e, t') \<Rightarrow> (Inl e, t') | (Inr x, t') \<Rightarrow> k x t')"

text \<open>A call that handles the errors of another one.\<close>

definition catch ::
  "('s, 'a) action \<Rightarrow> (layout_error \<Rightarrow> ('s, 'b) action) \<Rightarrow> ('a \<Rightarrow> ('s, 'b) action) \<Rightarrow> ('s, 'b) action" where
  "catch m h k t = (case m t of (Inl e, t') \<Rightarrow> h e t' | (Inr x, t') \<Rightarrow> k x t')"

text \<open>A system call: it takes the next fault; without one it does its work.\<close>

definition sys :: "(io_error \<Rightarrow> layout_error + 'a) \<Rightarrow> 'a call \<Rightarrow> 'a call" where
  "sys on_fault work t =
     (let t' = t\<lparr>dt_faults := tl (dt_faults t)\<rparr> in
      case dt_faults t of
        Some e # _ \<Rightarrow> (on_fault e, t')
      | _ \<Rightarrow> work t')"

abbreviation io :: "io_error \<Rightarrow> layout_error + 'a" where "io e \<equiv> Err (Io e)"

section \<open>fsops.rs\<close>

definition open_dir :: "path \<Rightarrow> unit call" where
  "open_dir p =
     sys (\<lambda>e. Err (if e = OsError ELOOP then SymlinkNotAllowed (List.last p) else Io e))
       (\<lambda>t. (case entry_at t p of
          None \<Rightarrow> fail (Io (OsError ENOENT))
        | Some st \<Rightarrow>
            if stat_type st = Directory then return ()
            else if stat_type st = Symlink then fail (SymlinkNotAllowed (List.last p))
            else fail (Io (OsError ENOTDIR))) t)"

definition stat_at :: "path \<Rightarrow> file_stat call" where
  "stat_at p =
     sys io (\<lambda>t. (case entry_at t p of None \<Rightarrow> fail (Io (OsError ENOENT)) | Some st \<Rightarrow> return st) t)"

definition unlink_at :: "path \<Rightarrow> unit call" where
  "unlink_at p =
     sys io (\<lambda>t. case entry_at t p of
        None \<Rightarrow> fail (Io (OsError ENOENT)) t
      | Some st \<Rightarrow> if stat_type st = Directory then fail (Io (OsError EISDIR)) t else return () (remove_entry p t))"

definition sync_dir :: "path \<Rightarrow> unit call" where
  "sync_dir p = sys io (return ())"

definition unlink_regular_capturing_size :: "path \<Rightarrow> string \<Rightarrow> u64 option call" where
  "unlink_regular_capturing_size day name =
     catch (stat_at (day @ [name]))
       (\<lambda>error. if error = Io (OsError ENOENT) then return None else fail error)
       (\<lambda>st.
         if stat_type st = Symlink then fail (SymlinkNotAllowed name)
         else if stat_type st \<noteq> RegularFile then fail (UnexpectedLeafEntryType name)
         else seq (unlink_at (day @ [name])) (\<lambda>_. return (Some (fi_len (stat_identity st)))))"

text \<open>\<open>unlinkat\<close> with \<open>REMOVEDIR\<close>; a missing or non-empty directory is no error.\<close>

definition remove_empty_directory_at :: "path \<Rightarrow> bool call" where
  "remove_empty_directory_at p =
     catch
       (sys io (\<lambda>t. case entry_at t p of
          None \<Rightarrow> fail (Io (OsError ENOENT)) t
        | Some st \<Rightarrow>
            if stat_type st \<noteq> Directory then fail (Io (OsError ENOTDIR)) t
            else if has_children p t then fail (Io (OsError ENOTEMPTY)) t
            else return () (remove_entry p t)))
       (\<lambda>error. if error \<in> {Io (OsError ENOENT), Io (OsError ENOTEMPTY), Io (OsError EEXIST)} then return False else fail error)
       (\<lambda>_. seq (sync_dir (butlast p)) (\<lambda>_. return True))"

section \<open>Days\<close>

definition year_path :: "utc_day \<Rightarrow> path" where
  "year_path day = [year_component day]"

definition month_path :: "utc_day \<Rightarrow> path" where
  "month_path day = [year_component day, month_component day]"

definition day_path :: "utc_day \<Rightarrow> path" where
  "day_path day = [year_component day, month_component day, day_component day]"

definition open_day :: "utc_day \<Rightarrow> unit call" where
  "open_day day = seq (open_dir (year_path day)) (\<lambda>_. seq (open_dir (month_path day)) (\<lambda>_. open_dir (day_path day)))"

definition remove_verified_regular :: "utc_day \<Rightarrow> string \<Rightarrow> unit call" where
  "remove_verified_regular day name =
     seq (open_day day) (\<lambda>_.
     seq (stat_at (day_path day @ [name])) (\<lambda>st.
       if stat_type st = Symlink then fail (SymlinkNotAllowed name)
       else if stat_type st \<noteq> RegularFile then fail (UnexpectedLeafEntryType name)
       else seq (unlink_at (day_path day @ [name])) (\<lambda>_. sync_dir (day_path day))))"

definition missing_ok :: "layout_error \<Rightarrow> unit call" where
  "missing_ok error = (if error = Io (OsError ENOENT) then return () else fail error)"

definition prune_empty_calendar :: "utc_day \<Rightarrow> unit call" where
  "prune_empty_calendar day =
     catch (open_dir (year_path day)) missing_ok (\<lambda>_.
     catch (open_dir (month_path day)) missing_ok (\<lambda>_.
     catch (open_dir (day_path day)) missing_ok (\<lambda>_.
     seq (remove_empty_directory_at (day_path day)) (\<lambda>removed.
       if \<not> removed then return ()
       else seq (remove_empty_directory_at (month_path day)) (\<lambda>removed.
         if \<not> removed then return ()
         else seq (remove_empty_directory_at (year_path day)) (\<lambda>_. return ()))))))"

section \<open>The removals of the writer owner\<close>

record segment_removal =
  rm_zms_bytes :: u64
  rm_idx_bytes :: "u64 option"

definition saturating_add64 :: "u64 \<Rightarrow> u64 \<Rightarrow> u64" where
  "saturating_add64 a b = (if unat a + unat b < 2 ^ 64 then a + b else - 1)"

definition saturating_sub64 :: "u64 \<Rightarrow> u64 \<Rightarrow> u64" where
  "saturating_sub64 a b = (if b \<le> a then a - b else 0)"

definition total_bytes :: "segment_removal \<Rightarrow> u64" where
  "total_bytes r = (case rm_idx_bytes r of Some n \<Rightarrow> saturating_add64 (rm_zms_bytes r) n | None \<Rightarrow> rm_zms_bytes r)"

definition remove_temporary :: "temporary_object \<Rightarrow> unit call" where
  "remove_temporary temp =
     (if to_kind temp \<noteq> TmpZms then fail (UnexpectedLeafEntry (to_file_name temp))
      else remove_verified_regular (addr_day (to_address temp)) (to_file_name temp))"

definition unwrap_or :: "'a \<Rightarrow> 'a option \<Rightarrow> 'a" where
  "unwrap_or d x = (case x of None \<Rightarrow> d | Some y \<Rightarrow> y)"

definition remove_finished_segment :: "segment_address \<Rightarrow> segment_removal call" where
  "remove_finished_segment a =
     catch (open_day (addr_day a))
       (\<lambda>error. if error = Io (OsError ENOENT) then return \<lparr>rm_zms_bytes = 0, rm_idx_bytes = None\<rparr> else fail error)
       (\<lambda>_.
         seq (unlink_regular_capturing_size (day_path (addr_day a)) (zms_name a)) (\<lambda>zms.
         seq (unlink_regular_capturing_size (day_path (addr_day a)) (idx_name a)) (\<lambda>idx.
         seq (sync_dir (day_path (addr_day a))) (\<lambda>_.
         seq (prune_empty_calendar (addr_day a)) (\<lambda>_.
           return \<lparr>rm_zms_bytes = unwrap_or 0 zms, rm_idx_bytes = idx\<rparr>)))))"

definition remove_orphan_index :: "segment_address \<Rightarrow> u64 call" where
  "remove_orphan_index a =
     catch (open_day (addr_day a))
       (\<lambda>error. if error = Io (OsError ENOENT) then return 0 else fail error)
       (\<lambda>_.
         seq (unlink_regular_capturing_size (day_path (addr_day a)) (idx_name a)) (\<lambda>freed.
         seq (sync_dir (day_path (addr_day a))) (\<lambda>_.
         seq (prune_empty_calendar (addr_day a)) (\<lambda>_. return (unwrap_or 0 freed)))))"

end
