(* ===== verification/Rotation.thy ===== *)
theory Rotation
  imports Tree_Files Layout_Discovery
begin

text \<open>
  Storage rotation of the collector (\<open>bins/kronika-collector/src/rotation.rs\<close>,
  \<open>rotation/files.rs\<close>, \<open>config/retention.rs\<close>): the byte counter, the retention target, and the loop that
  deletes candidates until the target is met. The scan of the tree and the \<open>statvfs\<close> readings are
  arguments of one enforcement; the removals act on the data tree with failing system calls. Log
  events are left out, their throttle is kept.
\<close>

section \<open>Configuration\<close>

datatype retention_config = Fixed u64 | Auto u8

definition DEFAULT_AUTO_PERCENT :: u8 where "DEFAULT_AUTO_PERCENT = 80"

definition is_space :: "char \<Rightarrow> bool" where
  "is_space c \<longleftrightarrow> (of_char c :: nat) \<in> {9, 10, 11, 12, 13, 32}"

text \<open>\<open>str::trim\<close> on an ASCII value.\<close>

definition trim :: "string \<Rightarrow> string" where
  "trim s = rev (dropWhile is_space (rev (dropWhile is_space s)))"

definition strip_prefix :: "string \<Rightarrow> string \<Rightarrow> string option" where
  "strip_prefix p s = (if take (length p) s = p then Some (drop (length p) s) else None)"

datatype retention_error = EmptyValue | BadSuffix | BadPercent | PercentOutOfRange | BadSize | BelowFloor u64 u64

text \<open>\<open>byte_size\<close> parses the size with the crate \<open>bsize\<close> and is a parameter.\<close>

definition RetentionConfig_parse :: "(string \<Rightarrow> u64 option) \<Rightarrow> string \<Rightarrow> retention_error + retention_config" where
  "RetentionConfig_parse byte_size raw =
     (let v = trim raw in
      if v = [] then Err EmptyValue
      else case strip_prefix ''auto'' v of
        Some suffix \<Rightarrow>
          and_then
            (if suffix = [] then Ok DEFAULT_AUTO_PERCENT
             else and_then (ok_or (strip_prefix '':'' suffix) BadSuffix) (\<lambda>digits.
               ok_or (map_option of_nat (parse_unsigned 255 digits)) BadPercent))
            (\<lambda>percent. if 1 \<le> percent \<and> percent \<le> 99 then Ok (Auto percent) else Err PercentOutOfRange)
      | None \<Rightarrow> and_then (ok_or (byte_size v) BadSize) (\<lambda>budget. Ok (Fixed budget)))"

definition saturating_mul64 :: "u64 \<Rightarrow> u64 \<Rightarrow> u64" where
  "saturating_mul64 a b = (if unat a * unat b < 2 ^ 64 then a * b else - 1)"

definition RetentionConfig_validate :: "u64 \<Rightarrow> retention_config \<Rightarrow> retention_error + unit" where
  "RetentionConfig_validate segment_max_bytes config =
     (case config of
        Fixed budget \<Rightarrow>
          (let floor_bytes = saturating_mul64 segment_max_bytes 2 in
           if floor_bytes \<le> budget then Ok () else Err (BelowFloor budget floor_bytes))
      | Auto _ \<Rightarrow> Ok ())"

section \<open>Files\<close>

datatype candidate = TemporaryFile temporary_object | OrphanIndex segment_address | SegmentFiles segment_address

definition deletion_candidates :: "layout_snapshot \<Rightarrow> candidate list" where
  "deletion_candidates snap =
     map TemporaryFile (filter (\<lambda>t. to_kind t = TmpZms) (snap_temporaries snap)) @
     map OrphanIndex (snap_orphan_indexs snap) @
     map (\<lambda>s. SegmentFiles (sa_address s)) (take (length (snap_segments snap) - 1) (snap_segments snap))"

definition countable_bytes :: "layout_snapshot \<Rightarrow> u64" where
  "countable_bytes snap =
     foldl saturating_add64 0
       (map (\<lambda>s. saturating_add64 (sa_zms_bytes s) (unwrap_or 0 (sa_idx_bytes s))) (snap_segments snap) @
        map (\<lambda>t. fi_len (to_identity t)) (snap_temporaries snap))"

fun candidate_remove :: "candidate \<Rightarrow> u64 call" where
  "candidate_remove (TemporaryFile t) = seq (remove_temporary t) (\<lambda>_. return (fi_len (to_identity t)))"
| "candidate_remove (OrphanIndex a) = remove_orphan_index a"
| "candidate_remove (SegmentFiles a) = seq (remove_finished_segment a) (\<lambda>r. return (total_bytes r))"

fun counted_in_tree :: "candidate \<Rightarrow> bool" where
  "counted_in_tree (OrphanIndex _) = False"
| "counted_in_tree _ = True"

section \<open>The partition\<close>

record statvfs =
  f_frsize :: u64
  f_blocks :: u64
  f_bfree :: u64
  f_bavail :: u64

record filesystem_usage =
  fu_total_bytes :: u64
  fu_used_bytes :: u64
  fu_available_bytes :: u64

definition filesystem_usage_of :: "statvfs \<Rightarrow> filesystem_usage" where
  "filesystem_usage_of st =
     (let whole = saturating_mul64 (f_blocks st) (f_frsize st); free = saturating_mul64 (f_bfree st) (f_frsize st) in
      \<lparr>fu_total_bytes = whole, fu_used_bytes = saturating_sub64 whole free,
       fu_available_bytes = saturating_mul64 (f_bavail st) (f_frsize st)\<rparr>)"

definition reconcile_pending_reclaim :: "u64 \<Rightarrow> u64 option \<Rightarrow> u64 \<Rightarrow> u64" where
  "reconcile_pending_reclaim pending last_observed_used used_now =
     (let observed_drop = (case last_observed_used of None \<Rightarrow> 0 | Some l \<Rightarrow> saturating_sub64 l used_now) in
      saturating_sub64 pending observed_drop)"

definition used_threshold_bytes :: "u64 \<Rightarrow> u8 \<Rightarrow> u64" where
  "used_threshold_bytes whole percent =
     (let wide = unat whole * unat percent div 100 in if wide < 2 ^ 64 then of_nat wide else - 1)"

section \<open>Rotation\<close>

definition CHECK_INTERVAL :: duration where "CHECK_INTERVAL = 60 * 10 ^ 9"
definition RECOUNT_INTERVAL :: duration where "RECOUNT_INTERVAL = 3600 * 10 ^ 9"

record rotation =
  ro_config :: retention_config
  ro_limits :: layout_limits
  ro_non_journal_bytes :: u64
  ro_last_tick :: instant
  ro_last_recount :: instant
  ro_last_degradation :: "instant option"
  ro_pending_reclaim :: u64
  ro_last_observed_used :: "u64 option"

type_synonym scan_call = "layout_limits \<Rightarrow> data_tree \<Rightarrow> layout_error + layout_snapshot"

definition Rotation_new ::
    "scan_call \<Rightarrow> retention_config option \<Rightarrow> layout_limits \<Rightarrow> instant \<Rightarrow> data_tree \<Rightarrow> layout_error + rotation option" where
  "Rotation_new scan config limits now t =
     (case config of
        None \<Rightarrow> Ok None
      | Some config \<Rightarrow>
          and_then (scan limits t) (\<lambda>snap.
            Ok (Some \<lparr>ro_config = config, ro_limits = limits, ro_non_journal_bytes = countable_bytes snap,
              ro_last_tick = now, ro_last_recount = now, ro_last_degradation = None, ro_pending_reclaim = 0,
              ro_last_observed_used = None\<rparr>)))"

definition time_until_tick :: "instant \<Rightarrow> rotation \<Rightarrow> duration" where
  "time_until_tick now r = CHECK_INTERVAL - (now - ro_last_tick r)"

definition record_publication :: "u64 \<Rightarrow> rotation \<Rightarrow> rotation" where
  "record_publication n r = r\<lparr>ro_non_journal_bytes := saturating_add64 (ro_non_journal_bytes r) n\<rparr>"

text \<open>One reading of the usage; a failed \<open>statvfs\<close> leaves the state alone.\<close>

definition rot_usage ::
    "io_error + statvfs \<Rightarrow> u64 \<Rightarrow> rotation \<Rightarrow> (layout_error + u64 \<times> u64) \<times> rotation" where
  "rot_usage reading journal_bytes r =
     (case ro_config r of
        Fixed budget \<Rightarrow> (Ok (saturating_add64 (ro_non_journal_bytes r) journal_bytes, budget), r)
      | Auto percent \<Rightarrow>
          (case reading of
             Inl e \<Rightarrow> (Err (Io e), r)
           | Inr st \<Rightarrow>
               (let usage = filesystem_usage_of st;
                    r' = r\<lparr>ro_pending_reclaim := reconcile_pending_reclaim (ro_pending_reclaim r) (ro_last_observed_used r)
                             (fu_used_bytes usage),
                           ro_last_observed_used := Some (fu_used_bytes usage)\<rparr>
                in (Ok (saturating_sub64 (fu_used_bytes usage) (ro_pending_reclaim r'),
                        used_threshold_bytes (fu_total_bytes usage) percent), r'))))"

definition credit :: "candidate \<Rightarrow> u64 \<Rightarrow> rotation \<Rightarrow> rotation" where
  "credit c freed r =
     (let r = (if counted_in_tree c then r\<lparr>ro_non_journal_bytes := saturating_sub64 (ro_non_journal_bytes r) freed\<rparr> else r)
      in case ro_config r of
           Auto _ \<Rightarrow> r\<lparr>ro_pending_reclaim := saturating_add64 (ro_pending_reclaim r) freed\<rparr>
         | Fixed _ \<Rightarrow> r)"

text \<open>The loop over the candidates: \<open>None\<close> is the early return after a failed removal.\<close>

fun delete_loop :: "candidate list \<Rightarrow> u64 \<Rightarrow> u64 \<Rightarrow> rotation \<Rightarrow> data_tree \<Rightarrow> u64 option \<times> rotation \<times> data_tree" where
  "delete_loop [] current threshold r t = (Some current, r, t)"
| "delete_loop (c # cs) current threshold r t =
     (if current \<le> threshold then (Some current, r, t)
      else case candidate_remove c t of
             (Inl _, t') \<Rightarrow> (None, r, t')
           | (Inr freed, t') \<Rightarrow> delete_loop cs (saturating_sub64 current freed) threshold (credit c freed r) t')"

definition log_degradation :: "instant \<Rightarrow> rotation \<Rightarrow> rotation" where
  "log_degradation now r =
     (case ro_last_degradation r of
        Some l \<Rightarrow> if now - l < CHECK_INTERVAL then r else r\<lparr>ro_last_degradation := Some now\<rparr>
      | None \<Rightarrow> r\<lparr>ro_last_degradation := Some now\<rparr>)"

definition recount_due :: "instant \<Rightarrow> rotation \<Rightarrow> bool" where
  "recount_due now r \<longleftrightarrow>
     (case ro_config r of Fixed _ \<Rightarrow> RECOUNT_INTERVAL \<le> now - ro_last_recount r | Auto _ \<Rightarrow> False)"

definition enforce ::
    "scan_call \<Rightarrow> io_error + statvfs \<Rightarrow> io_error + statvfs \<Rightarrow> u64 \<Rightarrow> instant \<Rightarrow> rotation \<Rightarrow> data_tree \<Rightarrow>
     (layout_error + unit) \<times> rotation \<times> data_tree" where
  "enforce scan reading1 reading2 journal_bytes now r t =
     (let due = recount_due now r in
      case rot_usage reading1 journal_bytes r of
        (Inl e, r) \<Rightarrow> (Err e, r, t)
      | (Inr (current, threshold), r) \<Rightarrow>
          if current \<le> threshold \<and> \<not> due then (Ok (), r, t)
          else case scan (ro_limits r) t of
            Inl e \<Rightarrow> (Err e, r, t)
          | Inr snap \<Rightarrow>
              (let r = r\<lparr>ro_non_journal_bytes := countable_bytes snap, ro_last_recount := now\<rparr> in
               case rot_usage reading2 journal_bytes r of
                 (Inl e, r) \<Rightarrow> (Err e, r, t)
               | (Inr (current, threshold), r) \<Rightarrow>
                   (case delete_loop (deletion_candidates snap) current threshold r t of
                      (None, r, t) \<Rightarrow> (Ok (), r, t)
                    | (Some current, r, t) \<Rightarrow>
                        (Ok (), if threshold < current then log_degradation now r else r, t))))"

definition maybe_enforce ::
    "scan_call \<Rightarrow> io_error + statvfs \<Rightarrow> io_error + statvfs \<Rightarrow> u64 \<Rightarrow> bool \<Rightarrow> instant \<Rightarrow> rotation \<Rightarrow> data_tree \<Rightarrow>
     rotation \<times> data_tree" where
  "maybe_enforce scan reading1 reading2 journal_bytes published now r t =
     (let tick_due = (time_until_tick now r = 0) in
      if \<not> published \<and> \<not> tick_due then (r, t)
      else
        (let r = (if tick_due then r\<lparr>ro_last_tick := now\<rparr> else r) in
         snd (enforce scan reading1 reading2 journal_bytes now r t)))"

end
