(* ===== verification/Tree_Listing.thy ===== *)
theory Tree_Listing
  imports Tree_Files Layout_Inventory
begin

text \<open>
  The traversal reads the data tree that the removals act on: the listing of a tree, the tree behind a
  path of the listing, and which entries the removals of the writer owner can take away.
\<close>

section \<open>The listing of a tree\<close>

definition children :: "data_tree \<Rightarrow> path \<Rightarrow> (path \<times> file_stat) list" where
  "children t p = filter (\<lambda>(q, _). q \<noteq> [] \<and> butlast q = p) (dt_entries t)"

fun listing_of :: "nat \<Rightarrow> data_tree \<Rightarrow> path \<Rightarrow> listing" where
  "listing_of depth t p =
     Inr (map (\<lambda>(q, st). Inr (DirEntry (map of_char (List.last q)) (Inr st) (Inr ())
       (case depth of 0 \<Rightarrow> Inr [] | Suc n \<Rightarrow> listing_of n t q))) (children t p))"

declare listing_of.simps [simp del]

definition tree_scan :: "type_sizes \<Rightarrow> layout_limits \<Rightarrow> data_tree \<Rightarrow> layout_error + layout_snapshot" where
  "tree_scan z l t = layout_scan z l (\<lambda>_. listing_of 3 t [])"

text \<open>Every path is there once, and what contains an entry is a directory.\<close>

definition tree_wf :: "data_tree \<Rightarrow> bool" where
  "tree_wf t \<longleftrightarrow>
     distinct (map fst (dt_entries t)) \<and>
     (\<forall>q st. entry_at t q = Some st \<longrightarrow> q \<noteq> [] \<and>
        (butlast q \<noteq> [] \<longrightarrow> (\<exists>d. entry_at t (butlast q) = Some d \<and> stat_type d = Directory)))"

definition ascii_text :: "string \<Rightarrow> bool" where
  "ascii_text s \<longleftrightarrow> list_all (\<lambda>c. of_char c < (128 :: nat)) s"

lemma byte_of_char: "unat (of_char c :: u8) = of_char c"
proof -
  have "(of_char c :: nat) mod 256 = of_char c" by (rule of_char_mod_256)
  moreover have "(of_char c :: u8) = of_nat (of_char c :: nat)" by (simp add: of_nat_of_char)
  ultimately show ?thesis by (simp add: unat_of_nat)
qed

lemma byte_of_char_inject: "(of_char a :: u8) = of_char b \<longleftrightarrow> a = b"
  using byte_of_char [of a] byte_of_char [of b] by (metis of_char_eq_iff)

lemma map_byte_inject: "map (of_char :: char \<Rightarrow> u8) a = map of_char b \<longleftrightarrow> a = b"
  by (rule inj_map_eq_map) (simp add: inj_def byte_of_char_inject)

lemma ascii_name_of_char:
  assumes "ascii_text s"
  shows "ascii_name (map of_char s) = Some s"
proof -
  have "(of_char c :: u8) < 128" if "c \<in> set s" for c
    using that assms by (auto simp: ascii_text_def list_all_iff word_less_nat_alt byte_of_char)
  then show ?thesis by (auto simp: ascii_name_def list_all_iff byte_of_char comp_def)
qed

lemma is_dot_of_char: "is_dot (map of_char s) \<longleftrightarrow> s = ''.'' \<or> s = ''..''"
proof -
  have "[46] = map (of_char :: char \<Rightarrow> u8) ''.''" "[46, 46] = map (of_char :: char \<Rightarrow> u8) ''..''" by (simp_all add: of_char_def)
  then show ?thesis unfolding is_dot_def by (simp only: map_byte_inject)
qed

definition plain_name :: "string \<Rightarrow> bool" where
  "plain_name s \<longleftrightarrow> ascii_text s \<and> s \<noteq> ''.'' \<and> s \<noteq> ''..''"

definition child_entry :: "nat \<Rightarrow> data_tree \<Rightarrow> path \<times> file_stat \<Rightarrow> dir_entry" where
  "child_entry depth t c =
     DirEntry (map of_char (List.last (fst c))) (Inr (snd c)) (Inr ())
       (case depth of 0 \<Rightarrow> Inr [] | Suc n \<Rightarrow> listing_of n t (fst c))"

lemma kept_Inr: "kept (map Inr des) = filter (\<lambda>de. \<not> is_dot (de_name de)) des"
  by (induction des) simp_all

lemma listing_entries_of:
  "listing_entries (listing_of depth t p) =
     filter (\<lambda>de. \<not> is_dot (de_name de)) (map (child_entry depth t) (children t p))"
proof -
  have "listing_of depth t p = Inr (map Inr (map (child_entry depth t) (children t p)))"
    by (simp add: listing_of.simps [of depth t p] child_entry_def case_prod_beta)
  then show ?thesis by (simp add: listing_entries_def kept_Inr del: map_map)
qed

lemma child_iff:
  assumes "distinct (map fst (dt_entries t))"
  shows "(q, st) \<in> set (children t p) \<longleftrightarrow> (\<exists>name. q = p @ [name]) \<and> entry_at t q = Some st"
proof -
  have "q \<noteq> [] \<and> butlast q = p \<longleftrightarrow> (\<exists>name. q = p @ [name])"
    by (metis append_butlast_last_id butlast_snoc snoc_eq_iff_butlast)
  then show ?thesis using assms by (auto simp: children_def entry_at_def)
qed

lemma children_distinct:
  assumes "distinct (map fst (dt_entries t))"
  shows "distinct (map (\<lambda>c. List.last (fst c)) (children t p))"
proof -
  have "distinct (map fst (children t p))"
    using assms by (simp add: children_def distinct_map inj_on_def)
  then have "distinct (map List.last (map fst (children t p)))"
    unfolding distinct_map [of List.last]
    by (auto simp: inj_on_def child_iff [OF assms])
  then show ?thesis by (simp add: comp_def)
qed

lemma listing_names_distinct:
  assumes "distinct (map fst (dt_entries t))"
  shows "names_distinct (listing_of depth t p)"
proof -
  have "distinct (map (map of_char :: string \<Rightarrow> bytes) (map (\<lambda>c. List.last (fst c)) (children t p)))"
    using children_distinct [OF assms] by (subst distinct_map) (auto simp: inj_on_def map_byte_inject)
  then have "distinct (map de_name (map (child_entry depth t) (children t p)))"
    by (simp add: child_entry_def comp_def)
  then show ?thesis unfolding names_distinct_def listing_entries_of by (rule distinct_map_filter)
qed

lemma listing_distinct:
  assumes "distinct (map fst (dt_entries t))"
  shows "tree_distinct depth (listing_of depth t p)"
proof (induction depth arbitrary: p)
  case 0
  show ?case by (simp add: listing_names_distinct [OF assms])
next
  case (Suc depth)
  then show ?case
    by (auto simp: listing_names_distinct [OF assms] listing_entries_of list_all_iff child_entry_def)
qed

lemma entry_named_listing:
  assumes "distinct (map fst (dt_entries t))" "plain_name name"
  shows "entry_named (listing_entries (listing_of depth t p)) name =
    map_option (\<lambda>st. child_entry depth t (p @ [name], st)) (entry_at t (p @ [name]))"
proof -
  have named: "entry_named (listing_entries (listing_of depth t p)) name = Some de \<longleftrightarrow>
      (\<exists>st. entry_at t (p @ [name]) = Some st \<and> de = child_entry depth t (p @ [name], st))" for de
  proof -
    have "entry_named (listing_entries (listing_of depth t p)) name = Some de \<longleftrightarrow>
        de \<in> set (listing_entries (listing_of depth t p)) \<and> ascii_name (de_name de) = Some name"
      by (rule entry_named_iff) (use listing_names_distinct [OF assms(1)] in \<open>simp add: names_distinct_def\<close>)
    also have "\<dots> \<longleftrightarrow> (\<exists>q st. (q, st) \<in> set (children t p) \<and> de = child_entry depth t (q, st) \<and>
        \<not> is_dot (de_name de) \<and> ascii_name (de_name de) = Some name)"
      by (auto simp: listing_entries_of image_iff)
    also have "\<dots> \<longleftrightarrow> (\<exists>st. entry_at t (p @ [name]) = Some st \<and> de = child_entry depth t (p @ [name], st))"
    proof -
      have only: "\<not> is_dot (map of_char n) \<and> ascii_name (map of_char n) = Some name \<longleftrightarrow> n = name" for n
      proof
        assume "\<not> is_dot (map of_char n) \<and> ascii_name (map of_char n) = Some name"
        moreover have "ascii_name (map of_char name) = Some name"
          using assms(2) by (simp add: plain_name_def ascii_name_of_char)
        ultimately have "map of_char n = (map of_char name :: bytes)" using ascii_name_inject by blast
        then show "n = name" by (simp add: map_byte_inject)
      next
        assume "n = name"
        then show "\<not> is_dot (map of_char n) \<and> ascii_name (map of_char n) = Some name"
          using assms(2) by (simp add: plain_name_def ascii_name_of_char is_dot_of_char)
      qed
      have "de_name (child_entry depth t (p @ [n], st)) = map of_char n" for n st by (simp add: child_entry_def)
      then show ?thesis unfolding child_iff [OF assms(1)] using only by metis
    qed
    finally show ?thesis .
  qed
  show ?thesis
  proof (cases "entry_at t (p @ [name])")
    case None
    then have "entry_named (listing_entries (listing_of depth t p)) name \<noteq> Some de" for de using named [of de] by simp
    then have "entry_named (listing_entries (listing_of depth t p)) name = None" by (meson not_None_eq)
    then show ?thesis using None by simp
  next
    case (Some st)
    then show ?thesis using named [of "child_entry depth t (p @ [name], st)"] by simp
  qed
qed


definition file_at :: "data_tree \<Rightarrow> path \<Rightarrow> file_identity option" where
  "file_at t p =
     (case entry_at t p of
        None \<Rightarrow> None
      | Some st \<Rightarrow> if stat_type st = RegularFile then Some (stat_identity st) else None)"

lemma regular_file_listing:
  assumes "distinct (map fst (dt_entries t))" "plain_name name"
  shows "regular_file (listing_entries (listing_of depth t p)) name = file_at t (p @ [name])"
  unfolding regular_file_def entry_named_listing [OF assms] file_at_def
  by (simp add: child_entry_def split: option.split)

lemma sub_directory_listing:
  assumes "distinct (map fst (dt_entries t))" "plain_name name"
  shows "sub_directory (listing_of (Suc depth) t p) name =
    (case entry_at t (p @ [name]) of
       None \<Rightarrow> None
     | Some st \<Rightarrow> if stat_type st = Directory then Some (listing_of depth t (p @ [name])) else None)"
  unfolding sub_directory_def entry_named_listing [OF assms]
  by (simp add: child_entry_def split: option.split)

lemma digits_plain: "list_all is_ascii_digit s \<Longrightarrow> plain_name s"
  by (cases s) (auto simp: plain_name_def ascii_text_def is_ascii_digit_def list_all_iff)

lemma component_digits:
  "plain_name (year_component day)" "plain_name (month_component day)" "plain_name (day_component day)"
  by (simp_all add: year_component_def month_component_def day_component_def zero_pad_digits dec_digits digits_plain)

lemma ascii_text_append: "ascii_text (a @ b) \<longleftrightarrow> ascii_text a \<and> ascii_text b"
  by (simp add: ascii_text_def)

lemma ascii_text_dec: "ascii_text (dec n)"
  using dec_digits [of n] by (auto simp: ascii_text_def list_all_iff is_ascii_digit_def)

lemma ascii_text_i64: "ascii_text (show_i64 v)"
  using ascii_text_dec by (simp add: show_i64_def ascii_text_def)

lemma long_plain: "ascii_text s \<Longrightarrow> 2 < length s \<Longrightarrow> plain_name s"
  by (auto simp: plain_name_def)

lemma artifact_plain: "plain_name (zms_name a)" "plain_name (idx_name a)"
  using ascii_text_i64 [of "get (addr_id a)"]
  by (auto intro!: long_plain simp: zms_name_def idx_name_def ascii_text_append ascii_text_def)

lemma temporary_plain:
  assumes "leaf_names (Temporary a kind) name"
  shows "plain_name name"
proof -
  have "ascii_text (tmp_name a kind p q) \<and> 2 < length (tmp_name a kind p q)" for p q
    by (cases kind) (simp_all add: tmp_name_def ascii_text_append ascii_text_i64 ascii_text_dec, simp_all add: ascii_text_def ascii_text_dec [unfolded ascii_text_def])
  then show ?thesis using assms long_plain by auto
qed

lemma tree_wf_parent:
  assumes "tree_wf t" "entry_at t (p @ [name]) = Some st" "p \<noteq> []"
  shows "\<exists>d. entry_at t p = Some d \<and> stat_type d = Directory"
  using assms unfolding tree_wf_def by (metis butlast_snoc)

text \<open>The path of a segment in the listing and in the tree.\<close>

lemma file_in_day_listing:
  assumes "tree_wf t" "plain_name name"
  shows "file_in_day (listing_of 3 t []) day name = file_at t (day_path day @ [name])"
proof -
  have d: "distinct (map fst (dt_entries t))" using assms(1) by (simp add: tree_wf_def)
  note sub = sub_directory_listing [OF d component_digits(1)] sub_directory_listing [OF d component_digits(2)]
    sub_directory_listing [OF d component_digits(3)]
  define yp mp dp where "yp = [] @ [year_component day]" and "mp = yp @ [month_component day]" and "dp = mp @ [day_component day]"
  have paths: "day_path day @ [name] = dp @ [name]" by (simp add: day_path_def dp_def mp_def yp_def)
  show ?thesis
  proof (cases "entry_at t (dp @ [name])")
    case None
    then have "file_at t (dp @ [name]) = None" by (simp add: file_at_def)
    moreover have "file_in_day (listing_of 3 t []) day name \<in> {None, file_at t (dp @ [name])}"
      unfolding file_in_day_def day_directory_def numeral_3_eq_3
      by (simp add: sub regular_file_listing [OF d assms(2)] yp_def mp_def dp_def split: option.split if_split)
    ultimately show ?thesis by (simp add: paths)
  next
    case (Some st)
    then obtain dd where dd: "entry_at t dp = Some dd" "stat_type dd = Directory"
      using tree_wf_parent [OF assms(1)] by (metis append_is_Nil_conv dp_def list.distinct(1))
    then obtain md where md: "entry_at t mp = Some md" "stat_type md = Directory"
      using tree_wf_parent [OF assms(1), of mp] by (metis append_is_Nil_conv dp_def mp_def list.distinct(1))
    then obtain yd where yd: "entry_at t yp = Some yd" "stat_type yd = Directory"
      using tree_wf_parent [OF assms(1), of yp] by (metis append_is_Nil_conv mp_def yp_def list.distinct(1))
    show ?thesis
      unfolding file_in_day_def day_directory_def numeral_3_eq_3
      using dd md yd by (simp add: sub regular_file_listing [OF d assms(2)] paths yp_def mp_def dp_def)
  qed
qed


section \<open>What the calls take away\<close>

text \<open>
  Whatever fails, the call changes no entry except that entries of \<open>P\<close> may go; a directory among them
  goes only when it has no children.
\<close>

definition shrinks :: "path set \<Rightarrow> data_tree \<Rightarrow> data_tree \<Rightarrow> bool" where
  "shrinks P t t' \<longleftrightarrow> (\<forall>q. entry_at t' q = entry_at t q \<or> (q \<in> P \<and> entry_at t' q = None))"

definition shrinks_wf :: "path set \<Rightarrow> data_tree \<Rightarrow> data_tree \<Rightarrow> bool" where
  "shrinks_wf P t t' \<longleftrightarrow> shrinks P t t' \<and> (tree_wf t \<longrightarrow> tree_wf t')"

definition only_removes :: "path set \<Rightarrow> 'a call \<Rightarrow> bool" where
  "only_removes P m \<longleftrightarrow> (\<forall>t. shrinks_wf P t (snd (m t)))"

named_theorems removes \<open>calls that only take entries away\<close>

lemma shrinks_refl: "shrinks_wf P t t"
  by (simp add: shrinks_def shrinks_wf_def)

lemma shrinks_trans: "shrinks_wf P t t' \<Longrightarrow> shrinks_wf P t' t'' \<Longrightarrow> shrinks_wf P t t''"
  unfolding shrinks_def shrinks_wf_def by metis

lemma shrinks_mono: "shrinks_wf P t t' \<Longrightarrow> P \<subseteq> Q \<Longrightarrow> shrinks_wf Q t t'"
  unfolding shrinks_def shrinks_wf_def by blast

lemma only_removesD: "only_removes P m \<Longrightarrow> m t = (r, t') \<Longrightarrow> shrinks_wf P t t'"
  unfolding only_removes_def by (metis snd_conv)

lemma only_removes_mono: "only_removes P m \<Longrightarrow> P \<subseteq> Q \<Longrightarrow> only_removes Q m"
  unfolding only_removes_def using shrinks_mono by blast

lemma entry_at_faults [simp]: "entry_at (t\<lparr>dt_faults := f\<rparr>) q = entry_at t q"
  by (simp add: entry_at_def)

lemma entry_at_remove: "entry_at (remove_entry p t) q = (if q = p then None else entry_at t q)"
  by (simp add: entry_at_def remove_entry_def delete_conv')

lemma only_removes_return [removes]: "only_removes P (return x)" and only_removes_fail [removes]: "only_removes P (fail e)"
  by (simp_all add: only_removes_def return_def fail_def shrinks_refl)

lemma only_removes_seq [removes]:
  assumes "only_removes P m" "\<And>x. only_removes P (k x)"
  shows "only_removes P (seq m k)"
  unfolding only_removes_def
proof
  fix t
  obtain r t' where m: "m t = (r, t')" by force
  show "shrinks_wf P t (snd (seq m k t))"
    using only_removesD [OF assms(1) m] assms(2) shrinks_trans m
    by (cases r) (auto simp: seq_def only_removes_def)
qed

lemma only_removes_catch [removes]:
  assumes "only_removes P m" "\<And>e. only_removes P (h e)" "\<And>x. only_removes P (k x)"
  shows "only_removes P (catch m h k)"
  unfolding only_removes_def
proof
  fix t
  obtain r t' where m: "m t = (r, t')" by force
  show "shrinks_wf P t (snd (catch m h k t))"
    using only_removesD [OF assms(1) m] assms(2,3) shrinks_trans m
    by (cases r) (auto simp: catch_def only_removes_def)
qed

lemma only_removes_sys [removes]:
  assumes "only_removes P work"
  shows "only_removes P (sys on_fault work)"
proof -
  have "shrinks_wf P t (t\<lparr>dt_faults := f\<rparr>)" "shrinks_wf P t (snd (work (t\<lparr>dt_faults := f\<rparr>)))" for t f
  proof -
    show "shrinks_wf P t (t\<lparr>dt_faults := f\<rparr>)" by (simp add: shrinks_def shrinks_wf_def tree_wf_def)
    then show "shrinks_wf P t (snd (work (t\<lparr>dt_faults := f\<rparr>)))"
      using assms shrinks_trans unfolding only_removes_def by blast
  qed
  then show ?thesis by (simp add: only_removes_def sys_def Let_def split: list.split option.split)
qed

lemma only_removes_if [removes]:
  "only_removes P a \<Longrightarrow> only_removes P b \<Longrightarrow> only_removes P (if c then a else b)" by simp

lemma only_removes_open_dir [removes]: "only_removes P (open_dir p)"
  unfolding open_dir_def
  by (intro only_removes_sys) (auto simp: only_removes_def return_def fail_def shrinks_refl split: option.split)

lemma only_removes_stat_at [removes]: "only_removes P (stat_at p)"
  unfolding stat_at_def
  by (intro only_removes_sys) (auto simp: only_removes_def return_def fail_def shrinks_refl split: option.split)

lemma only_removes_sync_dir [removes]: "only_removes P (sync_dir p)"
  unfolding sync_dir_def by (intro removes)

lemma tree_wf_remove:
  assumes "tree_wf t" "\<And>name. entry_at t (p @ [name]) = None"
  shows "tree_wf (remove_entry p t)"
  unfolding tree_wf_def
proof (intro conjI allI impI)
  show "distinct (map fst (dt_entries (remove_entry p t)))"
    using assms(1) by (simp add: tree_wf_def remove_entry_def distinct_delete)
next
  fix q st assume "entry_at (remove_entry p t) q = Some st"
  then have q: "entry_at t q = Some st" by (simp add: entry_at_remove split: if_splits)
  then show "q \<noteq> []" using assms(1) by (auto simp: tree_wf_def)
  then have "butlast q \<noteq> p" using q assms(2) by (metis append_butlast_last_id option.distinct(1))
  moreover assume "butlast q \<noteq> []"
  ultimately show "\<exists>d. entry_at (remove_entry p t) (butlast q) = Some d \<and> stat_type d = Directory"
    using assms(1) q by (simp add: tree_wf_def entry_at_remove)
qed

lemma shrinks_remove:
  assumes "p \<in> P" and "\<And>name. tree_wf t \<Longrightarrow> entry_at t (p @ [name]) = None"
  shows "shrinks_wf P t (remove_entry p t)"
  using assms tree_wf_remove by (auto simp: shrinks_wf_def shrinks_def entry_at_remove)

lemma file_no_children:
  assumes "tree_wf t" "entry_at t p = Some st" "stat_type st \<noteq> Directory"
  shows "entry_at t (p @ [name]) = None"
proof -
  have "p \<noteq> []" using assms(1,2) by (simp add: tree_wf_def)
  then show ?thesis using tree_wf_parent [OF assms(1)] assms(2,3) by (metis not_None_eq option.sel)
qed

lemma no_children:
  assumes "\<not> has_children p t"
  shows "entry_at t (p @ [name]) = None"
proof (rule ccontr)
  assume "entry_at t (p @ [name]) \<noteq> None"
  then obtain st where "(p @ [name], st) \<in> set (dt_entries t)" by (auto simp: entry_at_def dest: map_of_SomeD)
  then show False using assms by (force simp: has_children_def list_ex_iff)
qed

lemma only_removes_unlink_at [removes]: "p \<in> P \<Longrightarrow> only_removes P (unlink_at p)"
  unfolding unlink_at_def
  by (intro only_removes_sys)
    (auto simp: only_removes_def return_def fail_def shrinks_refl file_no_children intro!: shrinks_remove split: option.split)

lemma only_removes_open_day [removes]: "only_removes P (open_day day)"
  unfolding open_day_def by (intro removes)

lemma only_removes_verified [removes]:
  "day_path day @ [name] \<in> P \<Longrightarrow> only_removes P (remove_verified_regular day name)"
  unfolding remove_verified_regular_def by (intro removes)

lemma only_removes_capturing [removes]: "p @ [name] \<in> P \<Longrightarrow> only_removes P (unlink_regular_capturing_size p name)"
  unfolding unlink_regular_capturing_size_def by (intro removes)

lemma only_removes_rmdir [removes]:
  assumes "p \<in> P"
  shows "only_removes P (remove_empty_directory_at p)"
proof -
  have "only_removes P (\<lambda>t. case entry_at t p of
          None \<Rightarrow> fail (Io (OsError ENOENT)) t
        | Some st \<Rightarrow>
            if stat_type st \<noteq> Directory then fail (Io (OsError ENOTDIR)) t
            else if has_children p t then fail (Io (OsError ENOTEMPTY)) t
            else return () (remove_entry p t))"
    using assms by (auto simp: only_removes_def return_def fail_def shrinks_refl no_children intro!: shrinks_remove split: option.split)
  then show ?thesis unfolding remove_empty_directory_at_def by (intro removes)
qed

definition calendar_paths :: "utc_day \<Rightarrow> path set" where
  "calendar_paths day = {year_path day, month_path day, day_path day}"

lemma only_removes_prune [removes]: "only_removes (Q \<union> calendar_paths day) (prune_empty_calendar day)"
  unfolding prune_empty_calendar_def calendar_paths_def missing_ok_def by (intro removes) simp_all

definition segment_paths :: "segment_address \<Rightarrow> path set" where
  "segment_paths a = {day_path (addr_day a) @ [zms_name a], day_path (addr_day a) @ [idx_name a]}"

lemma only_removes_segment:
  "only_removes (segment_paths a \<union> calendar_paths (addr_day a)) (remove_finished_segment a)"
  unfolding remove_finished_segment_def segment_paths_def by (intro removes) simp_all

lemma only_removes_orphan:
  "only_removes ({day_path (addr_day a) @ [idx_name a]} \<union> calendar_paths (addr_day a)) (remove_orphan_index a)"
  unfolding remove_orphan_index_def by (intro removes) simp_all

lemma only_removes_temporary:
  "only_removes {day_path (addr_day (to_address temp)) @ [to_file_name temp]} (remove_temporary temp)"
  unfolding remove_temporary_def by (intro removes) simp_all

end
