(* ===== verification/Rotation_Props.thy ===== *)
theory Rotation_Props
  imports Rotation Tree_Listing
begin

text \<open>
  What rotation can delete, and when: never the newest segment nor a control file, and only while the
  usage is above the target, in retention order.
\<close>

section \<open>Names and paths\<close>

lemma show_i64_inject: "show_i64 a = show_i64 b \<longleftrightarrow> a = b"
  by (metis option.inject parse_show_i64)

lemma zms_name_inject: "zms_name a = zms_name b \<longleftrightarrow> addr_id a = addr_id b"
  by (cases "addr_id a"; cases "addr_id b") (simp add: zms_name_def show_i64_inject)

lemma idx_name_inject: "idx_name a = idx_name b \<longleftrightarrow> addr_id a = addr_id b"
  by (cases "addr_id a"; cases "addr_id b") (simp add: idx_name_def show_i64_inject)

lemma last_of_names: "List.last (zms_name a) = CHR ''s''" "List.last (idx_name a) = CHR ''x''"
  by (simp_all add: zms_name_def idx_name_def)

lemma last_of_tmp: "leaf_names (Temporary a kind) name \<Longrightarrow> List.last name = CHR ''p''"
  by (cases kind) (auto simp: tmp_name_def)

lemma day_path_inject: "day_path d @ [n] = day_path d' @ [n'] \<Longrightarrow> n = n'"
  by (simp add: day_path_def)

lemma calendar_path_short: "p \<in> calendar_paths day \<Longrightarrow> length p \<le> 3"
  by (auto simp: calendar_paths_def year_path_def month_path_def day_path_def)

lemma zms_not_idx: "zms_name a \<noteq> idx_name b"
  using last_of_names [of a] last_of_names [of b] by force

lemma segment_paths_meet:
  assumes "p \<in> segment_paths a" "p \<in> segment_paths b"
  shows "addr_id a = addr_id b"
proof -
  have "List.last p \<in> {zms_name a, idx_name a}" "List.last p \<in> {zms_name b, idx_name b}"
    using assms by (auto simp: segment_paths_def)
  then show ?thesis using zms_not_idx [of a b] zms_not_idx [of b a] by (auto simp: zms_name_inject idx_name_inject)
qed

section \<open>What may go\<close>

definition stored :: "data_tree \<Rightarrow> segment_address \<Rightarrow> bool" where
  "stored t a \<longleftrightarrow> is_segment_address a \<and> file_at t (day_path (addr_day a) @ [zms_name a]) \<noteq> None"

text \<open>
  The calendar directories, the files of a segment that is not the newest, an index without its
  segment, and the temporaries of the writer.
\<close>

definition removable :: "data_tree \<Rightarrow> path set" where
  "removable t =
     (\<Union>day. calendar_paths day) \<union>
     (\<Union>a \<in> {a. \<exists>b. stored t a \<and> stored t b \<and> addr_id a < addr_id b}. segment_paths a) \<union>
     {day_path (addr_day a) @ [idx_name a] | a. is_segment_address a \<and> \<not> stored t a} \<union>
     {day_path (addr_day a) @ [name] | a name. is_segment_address a \<and> leaf_names (Temporary a TmpZms) name}"

lemma segment_paths_idx: "day_path (addr_day a) @ [idx_name a] \<in> segment_paths a"
  by (simp add: segment_paths_def)

lemma newest_not_removable:
  assumes "stored t b" "\<And>c. stored t c \<Longrightarrow> addr_id c \<le> addr_id b"
  shows "segment_paths b \<inter> removable t = {}"
proof -
  have "p \<notin> removable t" if "p \<in> segment_paths b" for p
  proof
    assume r: "p \<in> removable t"
    have "length p = 4" using that by (auto simp: segment_paths_def day_path_def)
    then consider a c where "stored t a" "stored t c" "addr_id a < addr_id c" "p \<in> segment_paths a"
      | a where "\<not> stored t a" "is_segment_address a" "p = day_path (addr_day a) @ [idx_name a]"
      | a name where "leaf_names (Temporary a TmpZms) name" "p = day_path (addr_day a) @ [name]"
      using r calendar_path_short unfolding removable_def by fastforce
    then show False
    proof cases
      case 1
      then have "addr_id a = addr_id b" using segment_paths_meet that by blast
      then show False using 1 assms(2) by fastforce
    next
      case 2
      then have "addr_id a = addr_id b" using segment_paths_meet that by (blast intro: segment_paths_idx)
      then have "a = b" using 2 assms(1) address_of_id by (auto simp: stored_def)
      then show False using 2 assms(1) by simp
    next
      case 3
      have "List.last p = name" using 3(2) by simp
      moreover have "List.last p \<in> {zms_name b, idx_name b}" using that by (auto simp: segment_paths_def)
      ultimately show False using last_of_tmp [OF 3(1)] last_of_names [of b] by auto
    qed
  qed
  then show ?thesis by blast
qed

lemma control_not_removable: "is_control_name n \<Longrightarrow> [n] \<notin> removable t"
proof -
  assume n: "is_control_name n"
  have "[n] \<notin> calendar_paths day" for day
  proof
    assume "[n] \<in> calendar_paths day"
    then have "n = year_component day" by (auto simp: calendar_paths_def year_path_def month_path_def day_path_def)
    then have "list_all is_ascii_digit n" by (simp add: year_component_def zero_pad_digits dec_digits)
    then show False using n
      by (auto simp: is_control_name_def ACTIVE_JOURNAL_NAME_def WRITER_OWNER_LOCK_NAME_def INDEX_OWNER_LOCK_NAME_def
          LOG_OFFSETS_NAME_def LOG_OFFSETS_TEMP_NAME_def SEAL_SEED_NAME_def SEAL_SEED_TEMP_NAME_def is_ascii_digit_def)
  qed
  then show ?thesis by (auto simp: removable_def segment_paths_def day_path_def)
qed


section \<open>Candidates\<close>

fun candidate_paths :: "candidate \<Rightarrow> path set" where
  "candidate_paths (TemporaryFile temp) = {day_path (addr_day (to_address temp)) @ [to_file_name temp]}"
| "candidate_paths (OrphanIndex a) = {day_path (addr_day a) @ [idx_name a]} \<union> calendar_paths (addr_day a)"
| "candidate_paths (SegmentFiles a) = segment_paths a \<union> calendar_paths (addr_day a)"

lemma only_removes_candidate: "only_removes (candidate_paths c) (candidate_remove c)"
proof (cases c)
  case (TemporaryFile temp)
  then show ?thesis using only_removes_temporary by (auto intro!: removes)
next
  case (OrphanIndex a)
  then show ?thesis using only_removes_orphan [of a] by simp
next
  case (SegmentFiles a)
  then show ?thesis using only_removes_segment by (auto intro!: removes)
qed

lemma delete_loop_shrinks:
  "delete_loop cs current threshold r t = (res, r', t') \<Longrightarrow> \<forall>c \<in> set cs. candidate_paths c \<subseteq> P \<Longrightarrow> shrinks_wf P t t'"
proof (induction cs current threshold r t rule: delete_loop.induct)
  case (1 current threshold r t)
  then show ?case by (simp add: shrinks_refl)
next
  case (2 c cs current threshold r t)
  obtain x t1 where rm: "candidate_remove c t = (x, t1)" by force
  then have first: "shrinks_wf P t t1"
    using only_removesD [OF only_removes_candidate rm] shrinks_mono 2(3) by (auto intro: shrinks_mono)
  show ?case
  proof (cases "current \<le> threshold")
    case True
    then show ?thesis using 2(2) by (simp add: shrinks_refl)
  next
    case False
    then show ?thesis
    proof (cases x)
      case (Inl e)
      then show ?thesis using 2(2) False rm first by simp
    next
      case (Inr freed)
      then have "shrinks_wf P t1 t'" using 2(1) [OF False rm [symmetric] Inr] 2(2,3) False rm by simp
      then show ?thesis using first shrinks_trans by blast
    qed
  qed
qed

lemma tree_scan_once:
  assumes "tree_scan z l t = Ok snap"
  shows "scan_once z l (listing_of 3 t []) = Ok snap"
proof -
  have valid: "LayoutLimits_validate l = Ok l"
    using assms by (auto simp: tree_scan_def layout_scan_def LayoutLimits_validate_def and_then_Ok_iff)
  show ?thesis
    using assms scan_from_cases [of 0 z l "\<lambda>_. listing_of 3 t []"]
    by (simp add: tree_scan_def layout_scan_def valid SCAN_RACE_ATTEMPTS_def) (metis zero_less_numeral)
qed

lemma tree_scan_facts:
  assumes "tree_wf t" "tree_scan z l t = Ok snap"
  shows "s \<in> set (snap_segments snap) \<Longrightarrow> stored t (sa_address s)"
    "a \<in> set (snap_orphan_indexs snap) \<Longrightarrow> is_segment_address a \<and> \<not> stored t a"
    "temp \<in> set (snap_temporaries snap) \<Longrightarrow>
       is_segment_address (to_address temp) \<and> leaf_names (Temporary (to_address temp) (to_kind temp)) (to_file_name temp)"
    "sorted_wrt (<) (map (\<lambda>s. addr_id (sa_address s)) (snap_segments snap))"
proof -
  have "tree_distinct 3 (listing_of 3 t [])" using assms(1) by (simp add: tree_wf_def listing_distinct)
  note facts = inventory_facts [OF tree_scan_once [OF assms(2)] this]
  note path = file_in_day_listing [OF assms(1) artifact_plain(1)]
  show "s \<in> set (snap_segments snap) \<Longrightarrow> stored t (sa_address s)"
    using facts [THEN conjunct1, of s] by (simp add: path stored_def)
  show "a \<in> set (snap_orphan_indexs snap) \<Longrightarrow> is_segment_address a \<and> \<not> stored t a"
    using facts [THEN conjunct2, THEN conjunct1, of a] by (simp add: path stored_def)
  show "temp \<in> set (snap_temporaries snap) \<Longrightarrow>
      is_segment_address (to_address temp) \<and> leaf_names (Temporary (to_address temp) (to_kind temp)) (to_file_name temp)"
    using facts [THEN conjunct2, THEN conjunct2, THEN conjunct1, of temp] by (simp del: leaf_names.simps)
  show "sorted_wrt (<) (map (\<lambda>s. addr_id (sa_address s)) (snap_segments snap))" using facts by blast
qed

lemma take_before_last:
  assumes "sorted_wrt (<) (map f xs)" "x \<in> set (take (length xs - 1) xs)"
  shows "f x < f (List.last xs)" "xs \<noteq> []"
proof -
  obtain i where i: "i < length xs - 1" "x = xs ! i" using assms(2) by (auto simp: in_set_conv_nth)
  then show "xs \<noteq> []" by auto
  then have "f (xs ! i) < f (xs ! (length xs - 1))"
    using assms(1) i(1) by (auto simp: sorted_wrt_iff_nth_less)
  then show "f x < f (List.last xs)" using i \<open>xs \<noteq> []\<close> by (simp add: last_conv_nth)
qed

lemma candidates_removable:
  assumes "tree_wf t" "tree_scan z l t = Ok snap" "c \<in> set (deletion_candidates snap)"
  shows "candidate_paths c \<subseteq> removable t"
proof -
  note facts = tree_scan_facts [OF assms(1,2)]
  consider temp where "c = TemporaryFile temp" "to_kind temp = TmpZms" "temp \<in> set (snap_temporaries snap)"
    | a where "c = OrphanIndex a" "a \<in> set (snap_orphan_indexs snap)"
    | s where "c = SegmentFiles (sa_address s)" "s \<in> set (take (length (snap_segments snap) - 1) (snap_segments snap))"
    using assms(3) by (auto simp: deletion_candidates_def)
  then show ?thesis
  proof cases
    case 1
    then show ?thesis using facts(3) [OF 1(3)] by (auto simp: removable_def simp del: leaf_names.simps)
  next
    case 2
    then show ?thesis using facts(2) [OF 2(2)] by (auto simp: removable_def)
  next
    case 3
    note order = take_before_last [OF facts(4) 3(2)]
    have "s \<in> set (snap_segments snap)" using 3(2) by (rule in_set_takeD)
    then have "stored t (sa_address s) \<and> stored t (sa_address (List.last (snap_segments snap))) \<and>
        addr_id (sa_address s) < addr_id (sa_address (List.last (snap_segments snap)))"
      using facts(1) order by simp
    then have "segment_paths (sa_address s) \<subseteq> removable t" unfolding removable_def by blast
    moreover have "calendar_paths (addr_day (sa_address s)) \<subseteq> removable t" unfolding removable_def by blast
    ultimately show ?thesis using 3(1) by simp
  qed
qed

lemma enforce_cases:
  assumes "enforce scan reading1 reading2 journal_bytes now r t = (res, r', t')"
  obtains "t' = t"
  | snap current threshold r1 x r2 where "scan (ro_limits r) t = Ok snap"
      "delete_loop (deletion_candidates snap) current threshold r1 t = (x, r2, t')"
proof -
  have limits: "ro_limits (snd (rot_usage u j r)) = ro_limits r" for u j r
    by (simp add: rot_usage_def Let_def split: retention_config.split sum.split)
  show ?thesis
    using assms limits [of reading1 journal_bytes r] that
    by (auto simp: enforce_def Let_def split: prod.splits sum.splits if_splits option.splits)
qed

text \<open>
  C26: rotation never takes the history that is still being built. Whatever the two usage readings
  say and whichever system calls fail, one enforcement on a well-formed tree leaves the tree
  well-formed (a directory goes only when it is empty), changes no entry other than by removing it,
  and removes only calendar directories, files of a segment that is not the newest, an index whose
  segment is gone, and the writer's temporaries. In particular the newest segment keeps both its
  files, and the control files (the active journal among them) stay.
\<close>

theorem rotation_keeps_newest:
  assumes "tree_wf t" "enforce (tree_scan z) reading1 reading2 journal_bytes now r t = (res, r', t')"
  shows "tree_wf t' \<and> shrinks (removable t) t t' \<and>
    (\<forall>b p. stored t b \<and> (\<forall>c. stored t c \<longrightarrow> addr_id c \<le> addr_id b) \<and> p \<in> segment_paths b \<longrightarrow> entry_at t' p = entry_at t p) \<and>
    (\<forall>n. is_control_name n \<longrightarrow> entry_at t' [n] = entry_at t [n])"
proof -
  have "shrinks_wf (removable t) t t'"
    using assms(2)
  proof (rule enforce_cases)
    assume "t' = t" then show ?thesis by (simp add: shrinks_refl)
  next
    fix snap current threshold r1 x r2
    assume "tree_scan z (ro_limits r) t = Ok snap"
      "delete_loop (deletion_candidates snap) current threshold r1 t = (x, r2, t')"
    then show ?thesis using delete_loop_shrinks candidates_removable [OF assms(1)] by blast
  qed
  then have "shrinks (removable t) t t'" "tree_wf t'" using assms(1) by (auto simp: shrinks_wf_def)
  moreover have "entry_at t' p = entry_at t p" if "p \<notin> removable t" for p
    using that \<open>shrinks (removable t) t t'\<close> by (auto simp: shrinks_def)
  ultimately show ?thesis using newest_not_removable control_not_removable by blast
qed


text \<open>Two segments, the older one with its index, beside the active journal.\<close>

definition sample_entry :: "entry_file_type \<Rightarrow> u64 \<Rightarrow> file_stat" where
  "sample_entry k n = projr (sample_stat k n)"

definition rotation_tree :: data_tree where
  "rotation_tree =
     \<lparr>dt_entries =
        [([''active.wal''], sample_entry RegularFile 48),
         ([''1970''], sample_entry Directory 0), ([''1970'', ''01''], sample_entry Directory 0),
         ([''1970'', ''01'', ''01''], sample_entry Directory 0),
         ([''1970'', ''01'', ''01'', ''7.idx''], sample_entry RegularFile 3),
         ([''1970'', ''01'', ''01'', ''7.zms''], sample_entry RegularFile 5),
         ([''1970'', ''01'', ''01'', ''9.zms''], sample_entry RegularFile 6)],
      dt_faults = []\<rparr>"

definition sample_rotation :: rotation where
  "sample_rotation =
     \<lparr>ro_config = Fixed 10, ro_limits = default_layout_limits, ro_non_journal_bytes = 14, ro_last_tick = 0,
      ro_last_recount = 0, ro_last_degradation = None, ro_pending_reclaim = 0, ro_last_observed_used = None\<rparr>"

definition first_day :: utc_day where "first_day = UtcDay 1970 1 1"

lemma first_day_path: "day_path first_day = [''1970'', ''01'', ''01'']"
  by (simp add: first_day_def day_path_def year_component_def month_component_def day_component_def zero_pad_def dec.simps
      digit_def char_of_def bit_0)

lemma small_names: "zms_name (SegmentAddress (SegmentId 7) d) = ''7.zms''" "zms_name (SegmentAddress (SegmentId 9) d) = ''9.zms''"
  "idx_name (SegmentAddress (SegmentId 7) d) = ''7.idx''" "idx_name (SegmentAddress (SegmentId 9) d) = ''9.idx''"
  by (simp_all add: zms_name_def idx_name_def show_i64_def dec.simps digit_def char_of_def bit_0)

lemma rotation_tree_wf: "tree_wf rotation_tree"
  unfolding tree_wf_def
  by (auto simp: rotation_tree_def entry_at_def sample_entry_def sample_stat_def split: if_splits)

lemma nine_address: "is_segment_address (SegmentAddress (SegmentId 9) first_day)"
proof -
  have "utc_day_of (SegmentId 9) = Ok (UtcDay 1970 1 1)" by code_simp
  then show ?thesis by (simp add: is_segment_address_def SegmentAddress_new_def first_day_def)
qed

lemma nine_newest:
  "stored rotation_tree (SegmentAddress (SegmentId 9) first_day)"
  "stored rotation_tree c \<Longrightarrow> addr_id c \<le> SegmentId 9"
proof -
  show "stored rotation_tree (SegmentAddress (SegmentId 9) first_day)"
    by (simp add: stored_def nine_address first_day_path small_names file_at_def entry_at_def rotation_tree_def
        sample_entry_def sample_stat_def)
  assume "stored rotation_tree c"
  then have "entry_at rotation_tree (day_path (addr_day c) @ [zms_name c]) \<noteq> None"
    by (auto simp: stored_def file_at_def split: option.splits)
  then have "zms_name c \<in> {''7.idx'', ''7.zms'', ''9.zms''}"
    by (auto simp: entry_at_def rotation_tree_def day_path_def split: if_splits)
  then have "zms_name c = ''7.zms'' \<or> zms_name c = ''9.zms''" using last_of_names(1) [of c] by auto
  moreover have "zms_name c = zms_name (SegmentAddress i first_day) \<Longrightarrow> addr_id c = i" for i
    using zms_name_inject [of c "SegmentAddress i first_day"] by simp
  ultimately have "addr_id c = SegmentId 7 \<or> addr_id c = SegmentId 9"
    using small_names(1,2) [of first_day] by metis
  then show "addr_id c \<le> SegmentId 9" by (auto simp: less_eq_segment_id_def)
qed

theorem rotation_keeps_newest_witness:
  "\<exists>res r' t'. enforce (tree_scan sample_sizes) (Inl (OsError 5)) (Inl (OsError 5)) 0 0 sample_rotation rotation_tree = (res, r', t') \<and>
     tree_wf t' \<and> entry_at t' (day_path first_day @ [''9.zms'']) = Some (sample_entry RegularFile 6) \<and>
     entry_at t' [''active.wal''] = Some (sample_entry RegularFile 48)"
proof -
  obtain res r' t' where run: "enforce (tree_scan sample_sizes) (Inl (OsError 5)) (Inl (OsError 5)) 0 0 sample_rotation rotation_tree =
      (res, r', t')" by (metis prod_cases3)
  note holds = rotation_keeps_newest [OF rotation_tree_wf run]
  have "day_path first_day @ [''9.zms''] \<in> segment_paths (SegmentAddress (SegmentId 9) first_day)"
    by (simp add: segment_paths_def small_names)
  then have "entry_at t' (day_path first_day @ [''9.zms'']) = entry_at rotation_tree (day_path first_day @ [''9.zms''])"
  proof -
    have "\<forall>c. stored rotation_tree c \<longrightarrow> addr_id c \<le> addr_id (SegmentAddress (SegmentId 9) first_day)"
      using nine_newest(2) by simp
    then show ?thesis using holds nine_newest(1) \<open>_ \<in> segment_paths _\<close> by blast
  qed
  moreover have "entry_at t' [''active.wal''] = entry_at rotation_tree [''active.wal'']"
    using holds by (simp add: is_control_name_def ACTIVE_JOURNAL_NAME_def)
  ultimately show ?thesis using run holds by (simp add: first_day_path entry_at_def rotation_tree_def)
qed

section \<open>Order and extent\<close>

text \<open>The removals of a run of candidates, with the bytes each one freed.\<close>

inductive removed :: "candidate list \<Rightarrow> data_tree \<Rightarrow> u64 list \<Rightarrow> data_tree \<Rightarrow> bool" where
  removed_Nil: "removed [] t [] t"
| removed_Cons: "candidate_remove c t = (Ok freed, t1) \<Longrightarrow> removed cs t1 fs t' \<Longrightarrow> removed (c # cs) t (freed # fs) t'"

inductive_cases removed_ConsE: "removed (c # cs) t fs t'"

definition freed_bytes :: "u64 list \<Rightarrow> nat" where
  "freed_bytes fs = (\<Sum>f \<leftarrow> fs. unat f)"

lemma freed_bytes_simps [simp]: "freed_bytes [] = 0" "freed_bytes (f # fs) = unat f + freed_bytes fs"
  by (simp_all add: freed_bytes_def)

lemma unat_saturating_sub: "unat (saturating_sub64 a b) = unat a - unat b"
  by (simp add: saturating_sub64_def unat_sub word_le_nat_alt)

definition met :: "u64 \<Rightarrow> u64 \<Rightarrow> u64 list \<Rightarrow> bool" where
  "met current threshold fs \<longleftrightarrow> unat current - freed_bytes fs \<le> unat threshold"

lemma delete_loop_trace:
  assumes "delete_loop cs current threshold r t = (x, r', t')"
  shows "\<exists>gone rest fs t1. cs = gone @ rest \<and> removed gone t fs t1 \<and>
    (\<forall>k < length gone. \<not> met current threshold (take k fs)) \<and>
    (case x of
       Some left \<Rightarrow> t' = t1 \<and> unat left = unat current - freed_bytes fs \<and> (rest = [] \<or> met current threshold fs)
     | None \<Rightarrow> \<not> met current threshold fs \<and> (\<exists>c rest' e. rest = c # rest' \<and> candidate_remove c t1 = (Err e, t')))"
  using assms
proof (induction cs current threshold r t rule: delete_loop.induct)
  case (1 current threshold r t)
  then show ?case
    by (intro exI [of _ "[]"] exI [of _ "[]"] exI [of _ "[] :: u64 list"] exI [of _ t]) (auto intro: removed_Nil)
next
  case (2 c cs current threshold r t)
  show ?case
  proof (cases "current \<le> threshold")
    case True
    then have "met current threshold []" by (simp add: met_def word_le_nat_alt)
    then show ?thesis
      using 2(2) True by (intro exI [of _ "[]"] exI [of _ "c # cs"] exI [of _ "[] :: u64 list"] exI [of _ t]) (auto intro: removed_Nil)
  next
    case False
    then have over: "\<not> met current threshold []" by (simp add: met_def word_le_nat_alt)
    obtain y t1 where rm: "candidate_remove c t = (y, t1)" by force
    show ?thesis
    proof (cases y)
      case (Inl e)
      then have "x = None" "t' = t1" using 2(2) False rm by simp_all
      then show ?thesis
        using over rm Inl by (intro exI [of _ "[]"] exI [of _ "c # cs"] exI [of _ "[] :: u64 list"] exI [of _ t]) (auto intro: removed_Nil)
    next
      case (Inr freed)
      then have "delete_loop cs (saturating_sub64 current freed) threshold (credit c freed r) t1 = (x, r', t')"
        using 2(2) False rm by simp
      from 2(1) [OF False rm [symmetric] Inr this] obtain gone rest fs t2 where IH:
        "cs = gone @ rest" "removed gone t1 fs t2"
        "\<forall>k < length gone. \<not> met (saturating_sub64 current freed) threshold (take k fs)"
        "case x of
           Some left \<Rightarrow> t' = t2 \<and> unat left = unat (saturating_sub64 current freed) - freed_bytes fs \<and>
             (rest = [] \<or> met (saturating_sub64 current freed) threshold fs)
         | None \<Rightarrow> \<not> met (saturating_sub64 current freed) threshold fs \<and>
             (\<exists>c rest' e. rest = c # rest' \<and> candidate_remove c t2 = (Err e, t'))"
        by blast
      have shift: "met (saturating_sub64 current freed) threshold gs \<longleftrightarrow> met current threshold (freed # gs)" for gs
        by (simp add: met_def unat_saturating_sub)
      have "\<forall>k < length (c # gone). \<not> met current threshold (take k (freed # fs))"
        using IH(3) over by (auto simp: shift less_Suc_eq_0_disj)
      moreover have "removed (c # gone) t (freed # fs) t2" using rm Inr IH(2) by (auto intro: removed_Cons)
      ultimately show ?thesis
        using IH(1,4) by (intro exI [of _ "c # gone"] exI [of _ rest] exI [of _ "freed # fs"] exI [of _ t2])
          (auto simp: shift unat_saturating_sub split: option.splits)
    qed
  qed
qed

text \<open>What the second reading compares: the counter with the journal, or the partition.\<close>

definition target ::
    "retention_config \<Rightarrow> layout_snapshot \<Rightarrow> u64 \<Rightarrow> io_error + statvfs \<Rightarrow> rotation \<Rightarrow> u64 \<Rightarrow> u64 \<Rightarrow> bool" where
  "target config snap journal_bytes reading r current threshold \<longleftrightarrow>
     (case config of
        Fixed budget \<Rightarrow> current = saturating_add64 (countable_bytes snap) journal_bytes \<and> threshold = budget
      | Auto percent \<Rightarrow>
          (\<exists>st pending. reading = Inr st \<and> pending \<le> ro_pending_reclaim r \<and>
             current = saturating_sub64 (fu_used_bytes (filesystem_usage_of st)) pending \<and>
             threshold = used_threshold_bytes (fu_total_bytes (filesystem_usage_of st)) percent))"

lemma reconcile_le: "reconcile_pending_reclaim p l u \<le> p"
  by (auto simp: reconcile_pending_reclaim_def saturating_sub64_def word_le_nat_alt unat_sub Let_def split: option.split)

lemma rot_usage_target:
  assumes "rot_usage reading1 j r = (Inr x, r1)"
    "rot_usage reading2 j (r1\<lparr>ro_non_journal_bytes := countable_bytes snap, ro_last_recount := now\<rparr>) = (Inr (current, threshold), r2)"
  shows "target (ro_config r) snap j reading2 r current threshold"
proof (cases "ro_config r")
  case (Fixed budget)
  then show ?thesis using assms by (auto simp: rot_usage_def target_def)
next
  case (Auto percent)
  then obtain st where st: "reading1 = Inr st" using assms(1) by (auto simp: rot_usage_def split: sum.splits)
  have r1: "ro_config r1 = Auto percent" "ro_pending_reclaim r1 \<le> ro_pending_reclaim r"
    using assms(1) Auto st reconcile_le by (auto simp: rot_usage_def Let_def)
  then obtain st2 where st2: "reading2 = Inr st2" using assms(2) by (auto simp: rot_usage_def split: sum.splits)
  define pending where "pending = reconcile_pending_reclaim (ro_pending_reclaim r1) (ro_last_observed_used r1)
    (fu_used_bytes (filesystem_usage_of st2))"
  have "pending \<le> ro_pending_reclaim r" unfolding pending_def using order_trans [OF reconcile_le r1(2)] .
  moreover have "current = saturating_sub64 (fu_used_bytes (filesystem_usage_of st2)) pending"
    "threshold = used_threshold_bytes (fu_total_bytes (filesystem_usage_of st2)) percent"
    using assms(2) r1(1) st2 by (simp_all add: rot_usage_def Let_def pending_def)
  ultimately show ?thesis using st2 by (auto simp: target_def Auto)
qed

lemma enforce_runs:
  assumes "enforce scan reading1 reading2 j now r t = (res, r', t')" "t' \<noteq> t"
  obtains snap current threshold r2 x r3 where "scan (ro_limits r) t = Ok snap" "res = Ok ()"
    "target (ro_config r) snap j reading2 r current threshold"
    "delete_loop (deletion_candidates snap) current threshold r2 t = (x, r3, t')"
proof -
  obtain y r1 where u1: "rot_usage reading1 j r = (y, r1)" by force
  then obtain c0 th0 where y: "y = Inr (c0, th0)" using assms by (cases y) (auto simp: enforce_def Let_def)
  have limits: "ro_limits r1 = ro_limits r"
    using u1 by (auto simp: rot_usage_def Let_def split: retention_config.splits sum.splits)
  note step = assms(1) [unfolded enforce_def Let_def, simplified u1 y, simplified]
  then obtain snap where snap: "scan (ro_limits r) t = Ok snap"
    using assms(2) limits by (auto split: if_splits sum.splits)
  define rs where "rs = r1\<lparr>ro_non_journal_bytes := countable_bytes snap, ro_last_recount := now\<rparr>"
  obtain w r2 where u2: "rot_usage reading2 j rs = (w, r2)" by force
  then obtain current threshold where w: "w = Inr (current, threshold)"
    using step snap limits assms(2) by (cases w) (auto simp: rs_def split: if_splits)
  obtain x r3 t3 where loop: "delete_loop (deletion_candidates snap) current threshold r2 t = (x, r3, t3)" by (metis prod_cases3)
  have "res = Ok () \<and> t' = t3"
    using step snap limits assms(2) u2 w loop by (cases x) (auto simp: rs_def split: if_splits)
  then show ?thesis
    using that [OF snap] rot_usage_target [OF u1 [unfolded y] u2 [unfolded rs_def w]] loop by blast
qed

text \<open>
  C27: rotation deletes in retention order and no more than needed. If an enforcement changed the
  tree, it removed a prefix of the candidates (writer temporaries, then orphan indexes, then
  segments from the oldest), each one while the usage less the bytes freed so far was still above the
  target; and it ended because the target was met, because only protected files were left, or because a
  removal failed. The usage compared is the fresh count of the tree plus the journal against the
  budget, or the partition reading less the credited unlinks against the percentage.
\<close>

theorem rotation_minimal:
  assumes "enforce scan reading1 reading2 journal_bytes now r t = (res, r', t')" "t' \<noteq> t"
  shows "res = Ok () \<and>
    (\<exists>snap current threshold gone rest fs t1. scan (ro_limits r) t = Ok snap \<and>
       target (ro_config r) snap journal_bytes reading2 r current threshold \<and>
       deletion_candidates snap = gone @ rest \<and> removed gone t fs t1 \<and>
       (\<forall>k < length gone. unat threshold < unat current - freed_bytes (take k fs)) \<and>
       (t' = t1 \<and> (unat current - freed_bytes fs \<le> unat threshold \<or> rest = []) \<or>
        (\<exists>c rest' e. rest = c # rest' \<and> candidate_remove c t1 = (Err e, t'))))"
proof -
  from enforce_runs [OF assms] obtain snap current threshold r2 x r3 where run: "scan (ro_limits r) t = Ok snap" "res = Ok ()"
    "target (ro_config r) snap journal_bytes reading2 r current threshold"
    "delete_loop (deletion_candidates snap) current threshold r2 t = (x, r3, t')" .
  from delete_loop_trace [OF run(4)] obtain gone rest fs t1 where trace:
    "deletion_candidates snap = gone @ rest" "removed gone t fs t1"
    "\<forall>k < length gone. \<not> met current threshold (take k fs)"
    "case x of
       Some left \<Rightarrow> t' = t1 \<and> unat left = unat current - freed_bytes fs \<and> (rest = [] \<or> met current threshold fs)
     | None \<Rightarrow> \<not> met current threshold fs \<and> (\<exists>c rest' e. rest = c # rest' \<and> candidate_remove c t1 = (Err e, t'))"
    by blast
  have "\<forall>k < length gone. unat threshold < unat current - freed_bytes (take k fs)"
    using trace(3) by (simp add: met_def not_le)
  moreover have "t' = t1 \<and> (unat current - freed_bytes fs \<le> unat threshold \<or> rest = []) \<or>
     (\<exists>c rest' e. rest = c # rest' \<and> candidate_remove c t1 = (Err e, t'))"
    using trace(4) by (cases x) (simp_all add: met_def, blast)
  ultimately show ?thesis using run trace(1,2) by blast
qed


definition two_segments :: layout_snapshot where
  "two_segments =
     \<lparr>snap_days = [first_day],
      snap_segments = [segment_record (SegmentId 7) first_day (stat_identity (sample_entry RegularFile 5)) (Some 3),
        segment_record (SegmentId 9) first_day (stat_identity (sample_entry RegularFile 6)) None],
      snap_orphan_indexs = [], snap_temporaries = [], snap_foreign_entries = [], snap_visited_entries = 7, snap_metadata_bytes = 0\<rparr>"

lemmas call_eval = seq_def catch_def sys_def return_def fail_def open_dir_def stat_at_def unlink_at_def sync_dir_def
  open_day_def unlink_regular_capturing_size_def remove_empty_directory_at_def prune_empty_calendar_def
  remove_finished_segment_def year_path_def month_path_def entry_at_def remove_entry_def has_children_def missing_ok_def

lemma first_day_components:
  "year_component first_day = ''1970''" "month_component first_day = ''01''" "day_component first_day = ''01''"
  using first_day_path by (simp_all add: day_path_def)

lemma remove_seven:
  "candidate_remove (SegmentFiles (SegmentAddress (SegmentId 7) first_day)) rotation_tree =
     (Ok 8, rotation_tree\<lparr>dt_entries := filter (\<lambda>(q, _). List.last q \<notin> {''7.idx'', ''7.zms''}) (dt_entries rotation_tree)\<rparr>)"
  by (simp add: call_eval first_day_path small_names rotation_tree_def first_day_components sample_entry_def sample_stat_def
      unwrap_or_def total_bytes_def saturating_add64_def)

theorem rotation_minimal_witness:
  "\<exists>r' t'. enforce (\<lambda>_ _. Ok two_segments) (Inl (OsError 5)) (Inl (OsError 5)) 0 0 sample_rotation rotation_tree = (Ok (), r', t') \<and>
     entry_at t' (day_path first_day @ [''7.zms'']) = None \<and>
     (\<exists>gone rest fs t1. deletion_candidates two_segments = gone @ rest \<and> removed gone rotation_tree fs t1)"
proof -
  define t' where "t' = snd (snd (enforce (\<lambda>_ _. Ok two_segments) (Inl (OsError 5)) (Inl (OsError 5)) 0 0 sample_rotation rotation_tree))"
  have cs: "deletion_candidates two_segments = [SegmentFiles (SegmentAddress (SegmentId 7) first_day)]"
    by (simp add: deletion_candidates_def two_segments_def segment_record_def)
  have count: "countable_bytes two_segments = 14"
    by (simp add: countable_bytes_def two_segments_def segment_record_def sample_entry_def sample_stat_def unwrap_or_def
        saturating_add64_def)
  obtain r' where run: "enforce (\<lambda>_ _. Ok two_segments) (Inl (OsError 5)) (Inl (OsError 5)) 0 0 sample_rotation rotation_tree =
      (Ok (), r', t')" "t' = rotation_tree\<lparr>dt_entries := filter (\<lambda>(q, _). List.last q \<notin> {''7.idx'', ''7.zms''}) (dt_entries rotation_tree)\<rparr>"
    by (simp add: t'_def enforce_def rot_usage_def sample_rotation_def recount_due_def RECOUNT_INTERVAL_def cs count
        saturating_add64_def saturating_sub64_def remove_seven del: candidate_remove.simps)
  then have "t' \<noteq> rotation_tree" by (simp add: rotation_tree_def)
  from rotation_minimal [OF run(1) this] run show ?thesis
    by (auto simp: entry_at_def rotation_tree_def first_day_path)
qed

end
