(* ===== verification/Registry_Contract.thy ===== *)
theory Registry_Contract
  imports Catalog_Layout
begin

text \<open>
  Section type ids, type contracts and the registry linter
  (\<open>crates/kronika-registry/src/type_id.rs\<close>, \<open>contract.rs\<close>): the datatypes of a contract, the
  id constructor, and \<open>lint\<close> with the declarative reading of every error it can report.
\<close>

section \<open>Type ids\<close>

datatype section_class = Snapshot | Event | Dictionary | Chart

fun class_digit_of :: "section_class \<Rightarrow> u32" where
  "class_digit_of Snapshot = 1"
| "class_digit_of Event = 2"
| "class_digit_of Dictionary = 3"
| "class_digit_of Chart = 10"

definition from_digit :: "u32 \<Rightarrow> section_class option" where
  "from_digit d =
     (if d = 1 then Some Snapshot else if d = 2 then Some Event
      else if d = 3 then Some Dictionary else if d = 10 then Some Chart else None)"

datatype type_id = TypeId (raw_id: u32)

definition class_digit :: "type_id \<Rightarrow> u32" where
  "class_digit i = raw_id i div 1000000"

definition id_section_class :: "type_id \<Rightarrow> section_class option" where
  "id_section_class i = from_digit (class_digit i)"

definition id_source :: "type_id \<Rightarrow> u32" where
  "id_source i = (raw_id i div 1000) mod 1000"

definition id_version :: "type_id \<Rightarrow> u32" where
  "id_version i = raw_id i mod 1000"

definition TypeId_new :: "u32 \<Rightarrow> type_id option" where
  "TypeId_new raw =
     (let i = TypeId raw in
      if from_digit (class_digit i) \<noteq> None \<and> id_source i \<ge> 1 \<and> id_version i \<ge> 1
      then Some i else None)"

section \<open>Contracts\<close>

datatype column_class = Cumulative | Gauge | Label | Timestamp

datatype column_type =
    I8 | I16 | I32 | I64 | U8 | U16 | U32 | U64 | F32 | F64 | Bool | Ts | StrId | ListI32

text \<open>\<open>Unit::None\<close> is \<open>No_unit\<close> here, next to the \<^const>\<open>None\<close> of options.\<close>

datatype column_unit =
    No_unit | Count | Bytes | Kib | Pages | Sectors | Seconds | Milliseconds | Microseconds
  | Nanoseconds | Jiffies | Hertz | MegabitsPerSecond | MegabytesPerSecond | Percent | Celsius

datatype semantics = SnapshotFull | ConditionalFull | EventStream | Changed | OnChange

fun column_type_code :: "column_type \<Rightarrow> string" where
  "column_type_code I8 = ''i8''"
| "column_type_code I16 = ''i16''"
| "column_type_code I32 = ''i32''"
| "column_type_code I64 = ''i64''"
| "column_type_code U8 = ''u8''"
| "column_type_code U16 = ''u16''"
| "column_type_code U32 = ''u32''"
| "column_type_code U64 = ''u64''"
| "column_type_code F32 = ''f32''"
| "column_type_code F64 = ''f64''"
| "column_type_code Bool = ''bool''"
| "column_type_code Ts = ''timestamp_us''"
| "column_type_code StrId = ''dictionary_value''"
| "column_type_code ListI32 = ''list_i32''"

fun unit_code :: "column_unit \<Rightarrow> string" where
  "unit_code No_unit = ''none''"
| "unit_code Count = ''count''"
| "unit_code Bytes = ''bytes''"
| "unit_code Kib = ''kibibytes''"
| "unit_code Pages = ''pages''"
| "unit_code Sectors = ''sectors''"
| "unit_code Seconds = ''seconds''"
| "unit_code Milliseconds = ''milliseconds''"
| "unit_code Microseconds = ''microseconds''"
| "unit_code Nanoseconds = ''nanoseconds''"
| "unit_code Jiffies = ''jiffies''"
| "unit_code Hertz = ''hertz''"
| "unit_code MegabitsPerSecond = ''megabits_per_second''"
| "unit_code MegabytesPerSecond = ''megabytes_per_second''"
| "unit_code Percent = ''percent''"
| "unit_code Celsius = ''celsius''"

fun column_class_code :: "column_class \<Rightarrow> string" where
  "column_class_code Cumulative = ''cumulative''"
| "column_class_code Gauge = ''gauge''"
| "column_class_code Label = ''label''"
| "column_class_code Timestamp = ''timestamp''"

fun semantics_code :: "semantics \<Rightarrow> string" where
  "semantics_code SnapshotFull = ''snapshot_full''"
| "semantics_code ConditionalFull = ''conditional_full''"
| "semantics_code EventStream = ''event_stream''"
| "semantics_code Changed = ''changed''"
| "semantics_code OnChange = ''on_change''"

record column =
  col_name :: string
  col_ty :: column_type
  col_class :: column_class
  col_nullable :: bool
  col_unit :: "column_unit option"

record type_contract =
  tc_type_id :: type_id
  tc_name :: string
  tc_semantics :: semantics
  tc_columns :: "column list"
  tc_sort_key :: "string list"
  tc_identity :: "string list"
  tc_deprecated :: bool

definition contract_column :: "type_contract \<Rightarrow> string \<Rightarrow> column option" where
  "contract_column c name = find (\<lambda>col. col_name col = name) (tc_columns c)"

section \<open>The linter\<close>

datatype lint_error =
    DuplicateTypeId u32
  | SortKeyColumnMissing u32 string
  | MissingBaseline u32
  | BadTimestampColumn u32 string
  | IdentityColumnMissing u32 string
  | IdentityColumnNotLabel u32 string
  | MissingUnit u32 string

definition lint_sort_key :: "type_contract \<Rightarrow> string \<Rightarrow> lint_error list" where
  "lint_sort_key c name =
     (if contract_column c name = None
      then [SortKeyColumnMissing (raw_id (tc_type_id c)) name] else [])"

definition lint_identity :: "type_contract \<Rightarrow> string \<Rightarrow> lint_error list" where
  "lint_identity c name =
     (case contract_column c name of
        None \<Rightarrow> [IdentityColumnMissing (raw_id (tc_type_id c)) name]
      | Some col \<Rightarrow>
          if col_class col \<noteq> Label then [IdentityColumnNotLabel (raw_id (tc_type_id c)) name] else [])"

definition lint_column :: "type_contract \<Rightarrow> column \<Rightarrow> lint_error list" where
  "lint_column c col =
     (if col_class col = Timestamp \<and> (col_nullable col \<or> col_ty col \<noteq> Ts \<or> col_name col \<noteq> ''ts'')
      then [BadTimestampColumn (raw_id (tc_type_id c)) (col_name col)] else []) @
     (if col_class col \<in> {Cumulative, Gauge} \<and> col_unit col = None
      then [MissingUnit (raw_id (tc_type_id c)) (col_name col)] else [])"

text \<open>What \<open>lint_contract\<close> pushes onto \<open>out\<close>, in order.\<close>

definition lint_contract :: "type_contract \<Rightarrow> lint_error list" where
  "lint_contract c =
     concat (map (lint_sort_key c) (tc_sort_key c)) @
     concat (map (lint_identity c) (tc_identity c)) @
     (if tc_semantics c = Changed \<and> contract_column c ''is_baseline'' = None
      then [MissingBaseline (raw_id (tc_type_id c))] else []) @
     concat (map (lint_column c) (tc_columns c))"

text \<open>The loop of \<open>lint\<close>; \<open>earlier\<close> is \<open>contracts[..i]\<close>.\<close>

fun lint_loop :: "type_contract list \<Rightarrow> type_contract list \<Rightarrow> lint_error list" where
  "lint_loop earlier [] = []"
| "lint_loop earlier (c # cs) =
     lint_contract c @
     (if \<exists>e \<in> set earlier. tc_type_id e = tc_type_id c
      then [DuplicateTypeId (raw_id (tc_type_id c))] else []) @
     lint_loop (earlier @ [c]) cs"

definition lint :: "type_contract list \<Rightarrow> lint_error list + unit" where
  "lint contracts = (let out = lint_loop [] contracts in if out = [] then Ok () else Err out)"

section \<open>What the errors mean\<close>

definition column_names :: "type_contract \<Rightarrow> string set" where
  "column_names c = col_name ` set (tc_columns c)"

definition bad_timestamp :: "column \<Rightarrow> bool" where
  "bad_timestamp col \<longleftrightarrow> col_class col = Timestamp \<and>
     \<not> (col_name col = ''ts'' \<and> col_ty col = Ts \<and> \<not> col_nullable col)"

definition unitless :: "column \<Rightarrow> bool" where
  "unitless col \<longleftrightarrow> (col_class col = Cumulative \<or> col_class col = Gauge) \<and> col_unit col = None"

text \<open>The first column with a name, as the readers look it up.\<close>

definition first_column :: "type_contract \<Rightarrow> string \<Rightarrow> column \<Rightarrow> bool" where
  "first_column c n col \<longleftrightarrow> (\<exists>before after. tc_columns c = before @ col # after \<and> col_name col = n \<and>
     n \<notin> col_name ` set before)"

fun lint_violation :: "type_contract list \<Rightarrow> lint_error \<Rightarrow> bool" where
  "lint_violation cs (DuplicateTypeId t) \<longleftrightarrow>
     (\<exists>i j. i < j \<and> j < length cs \<and> tc_type_id (cs ! i) = TypeId t \<and> tc_type_id (cs ! j) = TypeId t)"
| "lint_violation cs (SortKeyColumnMissing t n) \<longleftrightarrow>
     (\<exists>c \<in> set cs. tc_type_id c = TypeId t \<and> n \<in> set (tc_sort_key c) \<and> n \<notin> column_names c)"
| "lint_violation cs (IdentityColumnMissing t n) \<longleftrightarrow>
     (\<exists>c \<in> set cs. tc_type_id c = TypeId t \<and> n \<in> set (tc_identity c) \<and> n \<notin> column_names c)"
| "lint_violation cs (IdentityColumnNotLabel t n) \<longleftrightarrow>
     (\<exists>c \<in> set cs. tc_type_id c = TypeId t \<and> n \<in> set (tc_identity c) \<and>
        (\<exists>col. first_column c n col \<and> col_class col \<noteq> Label))"
| "lint_violation cs (MissingBaseline t) \<longleftrightarrow>
     (\<exists>c \<in> set cs. tc_type_id c = TypeId t \<and> tc_semantics c = Changed \<and> ''is_baseline'' \<notin> column_names c)"
| "lint_violation cs (BadTimestampColumn t n) \<longleftrightarrow>
     (\<exists>c \<in> set cs. tc_type_id c = TypeId t \<and> (\<exists>col \<in> set (tc_columns c). col_name col = n \<and> bad_timestamp col))"
| "lint_violation cs (MissingUnit t n) \<longleftrightarrow>
     (\<exists>c \<in> set cs. tc_type_id c = TypeId t \<and> (\<exists>col \<in> set (tc_columns c). col_name col = n \<and> unitless col))"

lemma contract_column_None: "contract_column c n = None \<longleftrightarrow> n \<notin> column_names c"
  by (auto simp: contract_column_def find_None_iff column_names_def)

lemma contract_column_Some: "contract_column c n = Some col \<longleftrightarrow> first_column c n col"
proof
  assume "contract_column c n = Some col"
  then obtain i where i: "i < length (tc_columns c)" "col_name (tc_columns c ! i) = n"
      "col = tc_columns c ! i" "\<forall>j < i. col_name (tc_columns c ! j) \<noteq> n"
    unfolding contract_column_def find_Some_iff by blast
  have "tc_columns c = take i (tc_columns c) @ col # drop (Suc i) (tc_columns c)"
    using i(1,3) by (simp add: id_take_nth_drop)
  moreover have "n \<notin> col_name ` set (take i (tc_columns c))"
    using i(1,4) by (fastforce simp: in_set_conv_nth)
  ultimately show "first_column c n col" unfolding first_column_def using i(2,3) by blast
next
  assume "first_column c n col"
  then obtain xs ys where c: "tc_columns c = xs @ col # ys" and n: "col_name col = n"
    and no: "n \<notin> col_name ` set xs"
    unfolding first_column_def by blast
  have "find (\<lambda>col. col_name col = n) (xs @ col # ys) = Some col"
    using n no by (induction xs) auto
  then show "contract_column c n = Some col" by (simp add: contract_column_def c)
qed

text \<open>Every helper of the linter, by membership.\<close>

lemma lint_sort_key_set:
  "e \<in> set (lint_sort_key c n) \<longleftrightarrow>
     n \<notin> column_names c \<and> e = SortKeyColumnMissing (raw_id (tc_type_id c)) n"
  by (auto simp: lint_sort_key_def contract_column_None)

lemma lint_identity_set:
  "e \<in> set (lint_identity c n) \<longleftrightarrow>
     n \<notin> column_names c \<and> e = IdentityColumnMissing (raw_id (tc_type_id c)) n \<or>
     (\<exists>col. first_column c n col \<and> col_class col \<noteq> Label) \<and>
       e = IdentityColumnNotLabel (raw_id (tc_type_id c)) n"
proof (cases "contract_column c n")
  case None
  then have "n \<notin> column_names c" "\<And>col. \<not> first_column c n col"
    using contract_column_None [of c n] contract_column_Some [of c n] by auto
  with None show ?thesis by (auto simp: lint_identity_def)
next
  case (Some col)
  then have "n \<in> column_names c" "\<And>d. first_column c n d \<longleftrightarrow> d = col"
    using contract_column_None [of c n] by (auto simp flip: contract_column_Some)
  with Some show ?thesis by (auto simp: lint_identity_def)
qed

lemma lint_column_set:
  "e \<in> set (lint_column c col) \<longleftrightarrow>
     bad_timestamp col \<and> e = BadTimestampColumn (raw_id (tc_type_id c)) (col_name col) \<or>
     unitless col \<and> e = MissingUnit (raw_id (tc_type_id c)) (col_name col)"
  by (auto simp: lint_column_def bad_timestamp_def unitless_def)

lemma raw_id_eq: "raw_id i = t \<longleftrightarrow> i = TypeId t"
  by (cases i) auto

lemma lint_contract_set: "e \<in> set (lint_contract c) \<longleftrightarrow> lint_violation [c] e"
proof -
  have baseline: "contract_column c ''is_baseline'' = None \<longleftrightarrow> ''is_baseline'' \<notin> column_names c"
    by (rule contract_column_None)
  show ?thesis
    unfolding lint_contract_def baseline
    by (cases e) (auto simp: lint_sort_key_set lint_identity_set lint_column_set raw_id_eq)
qed

lemma ex_Suc_less: "(\<exists>k < Suc n. P k) \<longleftrightarrow> P 0 \<or> (\<exists>k < n. P (Suc k))"
  using less_Suc_eq_0_disj by auto

lemma lint_loop_set:
  "e \<in> set (lint_loop earlier cs) \<longleftrightarrow>
     (\<exists>c \<in> set cs. e \<in> set (lint_contract c)) \<or>
     (\<exists>t. e = DuplicateTypeId t \<and> (\<exists>k < length cs. tc_type_id (cs ! k) = TypeId t \<and>
        (\<exists>d \<in> set (earlier @ take k cs). tc_type_id d = TypeId t)))"
proof (induction cs arbitrary: earlier)
  case (Cons c cs)
  have shift: "(\<exists>k < length (c # cs). tc_type_id ((c # cs) ! k) = TypeId t \<and>
        (\<exists>d \<in> set (earlier @ take k (c # cs)). tc_type_id d = TypeId t)) \<longleftrightarrow>
      tc_type_id c = TypeId t \<and> (\<exists>d \<in> set earlier. tc_type_id d = TypeId t) \<or>
      (\<exists>k < length cs. tc_type_id (cs ! k) = TypeId t \<and>
        (\<exists>d \<in> set ((earlier @ [c]) @ take k cs). tc_type_id d = TypeId t))" for t
    unfolding list.size add_Suc_right add_0_right ex_Suc_less by simp
  have here: "(\<exists>d \<in> set earlier. tc_type_id d = tc_type_id c) \<and> e = DuplicateTypeId (raw_id (tc_type_id c)) \<longleftrightarrow>
      (\<exists>t. e = DuplicateTypeId t \<and> tc_type_id c = TypeId t \<and> (\<exists>d \<in> set earlier. tc_type_id d = TypeId t))"
    by (auto simp: raw_id_eq) (metis raw_id_eq)+
  have "e \<in> set (lint_loop earlier (c # cs)) \<longleftrightarrow> e \<in> set (lint_contract c) \<or>
      ((\<exists>d \<in> set earlier. tc_type_id d = tc_type_id c) \<and> e = DuplicateTypeId (raw_id (tc_type_id c))) \<or>
      e \<in> set (lint_loop (earlier @ [c]) cs)"
    by auto
  then show ?case unfolding Cons.IH here shift list.set bex_simps by blast
qed simp

lemma lint_violation_single:
  assumes "\<And>t. e \<noteq> DuplicateTypeId t"
  shows "lint_violation cs e \<longleftrightarrow> (\<exists>c \<in> set cs. lint_violation [c] e)"
  using assms by (cases e) auto

lemma lint_loop_violation: "e \<in> set (lint_loop [] cs) \<longleftrightarrow> lint_violation cs e"
proof (cases "\<exists>t. e = DuplicateTypeId t")
  case True
  then obtain t where e: "e = DuplicateTypeId t" by blast
  have none: "\<not> (\<exists>c \<in> set cs. e \<in> set (lint_contract c))"
    by (auto simp: e lint_contract_set)
  have "(\<exists>d \<in> set (take k cs). tc_type_id d = TypeId t) \<longleftrightarrow> (\<exists>i < k. tc_type_id (cs ! i) = TypeId t)"
    if "k < length cs" for k
    using that by (fastforce simp: in_set_conv_nth)
  then have "(\<exists>k < length cs. tc_type_id (cs ! k) = TypeId t \<and> (\<exists>d \<in> set (take k cs). tc_type_id d = TypeId t))
      \<longleftrightarrow> lint_violation cs e"
    unfolding e lint_violation.simps by blast
  then show ?thesis unfolding lint_loop_set using none by (simp add: e)
next
  case False
  then have "lint_violation cs e \<longleftrightarrow> (\<exists>c \<in> set cs. lint_violation [c] e)"
    by (intro lint_violation_single) blast
  then show ?thesis unfolding lint_loop_set lint_contract_set using False by blast
qed

text \<open>
  The linter reports exactly the violations of the contract rules: an id declared twice, a
  sort-key or identity name without a column, an identity column (the first of its name) that is
  not a label, a \<open>Changed\<close> type without \<open>is_baseline\<close>, a timestamp column that is not a required
  \<open>ts\<close>, a counter or gauge without a unit. It accepts exactly the registries without one.
\<close>

lemma lint_exact:
  "(case lint cs of Ok _ \<Rightarrow> {} | Err es \<Rightarrow> set es) = {e. lint_violation cs e} \<and>
   (lint cs = Ok () \<longleftrightarrow> (\<forall>e. \<not> lint_violation cs e))"
proof -
  have all: "{e. lint_violation cs e} = set (lint_loop [] cs)"
    using lint_loop_violation by auto
  show ?thesis unfolding all by (auto simp: lint_def Let_def simp flip: lint_loop_violation)
qed

end
