(* ===== verification/Registry_Derive.thy ===== *)
theory Registry_Derive
  imports Registry_Contract
begin

text \<open>
  The contract that \<open>#[derive(Section)]\<close> generates for a row struct
  (\<open>crates/kronika-derive/src/lib.rs\<close>, \<open>parse.rs\<close>, \<open>generate.rs\<close>). A struct is given as it is
  written: its attributes, and its fields with their type expressions. The result is the
  contract, or the compile error of the macro. Of the generated code, the timestamp range and
  the list accounting are modelled; the Parquet encoder and decoder are not.
\<close>

section \<open>Structs as written\<close>

text \<open>
  A type expression is a path: its last segment and its type arguments in angle brackets.
\<close>

datatype rust_type = TPath string "rust_type list"

record rust_field =
  rf_name :: string
  rf_ty :: rust_type
  rf_column :: "(string \<times> (string \<times> string) list) option"

datatype section_meta =
    Meta_id u32
  | Meta_name string
  | Meta_semantics string
  | Meta_sort_key "string list"
  | Meta_identity "string list"
  | Meta_other string

record rust_struct =
  rs_name :: string
  rs_section :: "section_meta list option"
  rs_fields :: "rust_field list"

datatype macro_error =
    SectionAttrMissing
  | UnknownSectionKey string
  | SectionKeyMissing string
  | ColumnAttrMissing
  | ExpectedUnit string
  | DuplicateUnit
  | UnitRequired string
  | UnknownUnit string
  | UnknownClass string
  | NotASimpleType
  | UnsupportedColumnType string
  | TimestampMustBeTs string
  | InvalidTypeId u32
  | UnknownSemantics string

section \<open>Reading the attributes\<close>

record header =
  h_id :: u32
  h_name :: string
  h_semantics :: string
  h_sort_key :: "string list"
  h_identity :: "string list"

text \<open>The accumulators of the closure; a repeated key overwrites.\<close>

record header_acc =
  a_id :: "u32 option"
  a_name :: "string option"
  a_semantics :: "string option"
  a_sort_key :: "string list"
  a_identity :: "string list"

fun read_metas :: "header_acc \<Rightarrow> section_meta list \<Rightarrow> macro_error + header_acc" where
  "read_metas acc [] = Ok acc"
| "read_metas acc (Meta_id i # ms) = read_metas (acc\<lparr>a_id := Some i\<rparr>) ms"
| "read_metas acc (Meta_name s # ms) = read_metas (acc\<lparr>a_name := Some s\<rparr>) ms"
| "read_metas acc (Meta_semantics s # ms) = read_metas (acc\<lparr>a_semantics := Some s\<rparr>) ms"
| "read_metas acc (Meta_sort_key ks # ms) = read_metas (acc\<lparr>a_sort_key := ks\<rparr>) ms"
| "read_metas acc (Meta_identity ks # ms) = read_metas (acc\<lparr>a_identity := ks\<rparr>) ms"
| "read_metas acc (Meta_other k # ms) = Err (UnknownSectionKey k)"

definition empty_header_acc :: header_acc where
  "empty_header_acc =
     \<lparr>a_id = None, a_name = None, a_semantics = None, a_sort_key = [], a_identity = []\<rparr>"

definition parse_header :: "rust_struct \<Rightarrow> macro_error + header" where
  "parse_header s =
     and_then (ok_or (rs_section s) SectionAttrMissing) (\<lambda>metas.
     and_then (read_metas empty_header_acc metas) (\<lambda>acc.
     and_then (ok_or (a_id acc) (SectionKeyMissing ''id'')) (\<lambda>i.
     and_then (ok_or (a_name acc) (SectionKeyMissing ''name'')) (\<lambda>n.
     and_then (ok_or (a_semantics acc) (SectionKeyMissing ''semantics'')) (\<lambda>sem.
       Ok \<lparr>h_id = i, h_name = n, h_semantics = sem, h_sort_key = a_sort_key acc,
           h_identity = a_identity acc\<rparr>)))))"

definition unit_variant :: "string \<Rightarrow> macro_error + column_unit" where
  "unit_variant v =
     (if v = ''none'' then Ok No_unit else if v = ''count'' then Ok Count
      else if v = ''bytes'' then Ok Bytes else if v = ''kib'' then Ok Kib
      else if v = ''pages'' then Ok Pages else if v = ''sectors'' then Ok Sectors
      else if v = ''seconds'' then Ok Seconds else if v = ''milliseconds'' then Ok Milliseconds
      else if v = ''microseconds'' then Ok Microseconds
      else if v = ''nanoseconds'' then Ok Nanoseconds else if v = ''jiffies'' then Ok Jiffies
      else if v = ''hertz'' then Ok Hertz
      else if v = ''megabits_per_second'' then Ok MegabitsPerSecond
      else if v = ''megabytes_per_second'' then Ok MegabytesPerSecond
      else if v = ''percent'' then Ok Percent else if v = ''celsius'' then Ok Celsius
      else Err (UnknownUnit v))"

text \<open>The loop over \<open>, key = value\<close> and the check after it.\<close>

fun column_args_loop ::
  "column_unit option \<Rightarrow> (string \<times> string) list \<Rightarrow> macro_error + column_unit option" where
  "column_args_loop u [] = Ok u"
| "column_args_loop u ((key, v) # rest) =
     (if key \<noteq> ''unit'' then Err (ExpectedUnit key)
      else if u \<noteq> None then Err DuplicateUnit
      else and_then (unit_variant v) (\<lambda>w. column_args_loop (Some w) rest))"

definition ColumnArgs_parse ::
  "string \<Rightarrow> (string \<times> string) list \<Rightarrow> macro_error + column_unit option" where
  "ColumnArgs_parse cls args =
     and_then (column_args_loop None args) (\<lambda>u.
       if (cls = ''c'' \<or> cls = ''g'') \<and> u = None then Err (UnitRequired cls) else Ok u)"

definition parse_column_class :: "string \<Rightarrow> macro_error + column_class" where
  "parse_column_class v =
     (if v = ''c'' then Ok Cumulative else if v = ''g'' then Ok Gauge
      else if v = ''l'' then Ok Label else if v = ''t'' then Ok Timestamp
      else Err (UnknownClass v))"

section \<open>Mapping the field types\<close>

text \<open>\<open>Option<T>\<close> gives \<open>(T, true)\<close>.\<close>

fun unwrap_option :: "rust_type \<Rightarrow> rust_type \<times> bool" where
  "unwrap_option (TPath i (inner # rest)) =
     (if i = ''Option'' then (inner, True) else (TPath i (inner # rest), False))"
| "unwrap_option (TPath i []) = (TPath i [], False)"

fun type_ident :: "rust_type \<Rightarrow> macro_error + string" where
  "type_ident (TPath i args) = (if args = [] then Ok i else Err NotASimpleType)"

fun is_vec_i32 :: "rust_type \<Rightarrow> bool" where
  "is_vec_i32 (TPath i (inner # rest)) \<longleftrightarrow> i = ''Vec'' \<and> type_ident inner = Ok ''i32''"
| "is_vec_i32 (TPath i []) \<longleftrightarrow> False"

text \<open>The column type, the Arrow type token and the wrapper.\<close>

definition base_type :: "string \<Rightarrow> macro_error + column_type \<times> string option \<times> string option" where
  "base_type i =
     (if i = ''i8'' then Ok (I8, Some ''Int8Type'', None)
      else if i = ''i16'' then Ok (I16, Some ''Int16Type'', None)
      else if i = ''i32'' then Ok (I32, Some ''Int32Type'', None)
      else if i = ''i64'' then Ok (I64, Some ''Int64Type'', None)
      else if i = ''u8'' then Ok (U8, Some ''UInt8Type'', None)
      else if i = ''u16'' then Ok (U16, Some ''UInt16Type'', None)
      else if i = ''u32'' then Ok (U32, Some ''UInt32Type'', None)
      else if i = ''u64'' then Ok (U64, Some ''UInt64Type'', None)
      else if i = ''f32'' then Ok (F32, Some ''Float32Type'', None)
      else if i = ''f64'' then Ok (F64, Some ''Float64Type'', None)
      else if i = ''bool'' then Ok (Bool, None, None)
      else if i = ''Ts'' then Ok (Ts, Some ''Int64Type'', Some ''Ts'')
      else if i = ''StrId'' then Ok (StrId, Some ''UInt64Type'', Some ''StrId'')
      else Err (UnsupportedColumnType i))"

definition map_type ::
  "string \<Rightarrow> column_class \<Rightarrow> macro_error + column_type \<times> string option \<times> string option" where
  "map_type i cls =
     and_then (base_type i) (\<lambda>(ty, arrow, wrapper).
       if cls = Timestamp \<and> ty \<noteq> Ts then Err (TimestampMustBeTs i) else Ok (ty, arrow, wrapper))"

record column_def =
  cd_name :: string
  cd_ty :: column_type
  cd_class :: column_class
  cd_arrow :: "string option"
  cd_wrapper :: "string option"
  cd_nullable :: bool
  cd_unit :: "column_unit option"

definition parse_column :: "rust_field \<Rightarrow> macro_error + column_def" where
  "parse_column f =
     and_then (ok_or (rf_column f) ColumnAttrMissing) (\<lambda>(cls, args).
     and_then (ColumnArgs_parse cls args) (\<lambda>u.
     and_then (parse_column_class cls) (\<lambda>c.
       let (inner, nullable) = unwrap_option (rf_ty f) in
       if is_vec_i32 inner
       then Ok \<lparr>cd_name = rf_name f, cd_ty = ListI32, cd_class = c, cd_arrow = None,
                cd_wrapper = None, cd_nullable = False, cd_unit = u\<rparr>
       else and_then (type_ident inner) (\<lambda>i.
         and_then (map_type i c) (\<lambda>(ty, arrow, wrapper).
           Ok \<lparr>cd_name = rf_name f, cd_ty = ty, cd_class = c, cd_arrow = arrow,
               cd_wrapper = wrapper, cd_nullable = nullable, cd_unit = u\<rparr>)))))"

section \<open>The generated contract\<close>

text \<open>\<open>collect\<close> into a result: the first error, or all values.\<close>

fun collect_results :: "('a \<Rightarrow> 'e + 'b) \<Rightarrow> 'a list \<Rightarrow> 'e + 'b list" where
  "collect_results f [] = Ok []"
| "collect_results f (x # xs) =
     and_then (f x) (\<lambda>y. and_then (collect_results f xs) (\<lambda>ys. Ok (y # ys)))"

text \<open>An unknown name is left as it is, so that the enum rejects it.\<close>

definition semantics_variant :: "string \<Rightarrow> macro_error + semantics" where
  "semantics_variant s =
     (if s = ''snapshot_full'' then Ok SnapshotFull
      else if s = ''conditional_full'' then Ok ConditionalFull
      else if s = ''event_stream'' then Ok EventStream
      else if s = ''changed'' then Ok Changed
      else if s = ''on_change'' then Ok OnChange
      else Err (UnknownSemantics s))"

definition column_of :: "column_def \<Rightarrow> column" where
  "column_of d =
     \<lparr>col_name = cd_name d, col_ty = cd_ty d, col_class = cd_class d, col_nullable = cd_nullable d,
      col_unit = cd_unit d\<rparr>"

definition build_contract :: "header \<Rightarrow> column_def list \<Rightarrow> macro_error + type_contract" where
  "build_contract h ds =
     and_then (ok_or (TypeId_new (h_id h)) (InvalidTypeId (h_id h))) (\<lambda>i.
     and_then (semantics_variant (h_semantics h)) (\<lambda>sem.
       Ok \<lparr>tc_type_id = i, tc_name = h_name h, tc_semantics = sem, tc_columns = map column_of ds,
           tc_sort_key = h_sort_key h, tc_identity = h_identity h, tc_deprecated = False\<rparr>))"

definition expand :: "rust_struct \<Rightarrow> macro_error + type_contract" where
  "expand s =
     and_then (parse_header s) (\<lambda>h.
     and_then (collect_results parse_column (rs_fields s)) (\<lambda>ds. build_contract h ds))"

section \<open>Generated row functions\<close>

text \<open>A row, as the generated functions read it: the value of a timestamp field, the length of a list.\<close>

record section_row =
  row_ts :: "string \<Rightarrow> i64"
  row_list_len :: "string \<Rightarrow> usize"

definition ts_field :: "column_def list \<Rightarrow> column_def option" where
  "ts_field ds = find (\<lambda>d. cd_class d = Timestamp \<and> \<not> cd_nullable d) ds"

definition smin :: "i64 \<Rightarrow> i64 \<Rightarrow> i64" where "smin a b = (if sint b < sint a then b else a)"
definition smax :: "i64 \<Rightarrow> i64 \<Rightarrow> i64" where "smax a b = (if sint b < sint a then a else b)"

definition generated_ts_range :: "column_def list \<Rightarrow> section_row list \<Rightarrow> (i64 \<times> i64) option" where
  "generated_ts_range ds rows =
     (case ts_field ds of
        None \<Rightarrow> None
      | Some d \<Rightarrow>
          (case map (\<lambda>r. row_ts r (cd_name d)) rows of
             [] \<Rightarrow> None
           | first # vs \<Rightarrow> Some (foldl (\<lambda>(lo, hi) v. (smin lo v, smax hi v)) (first, first) vs)))"

definition generated_list_i32_child_value_count :: "column_def list \<Rightarrow> section_row list \<Rightarrow> usize" where
  "generated_list_i32_child_value_count ds rows =
     (let fields = filter (\<lambda>d. cd_ty d = ListI32) ds in
      if fields = [] then 0
      else foldl (\<lambda>count r. foldl (\<lambda>count d. min (count + row_list_len r (cd_name d)) usize_max)
             count fields) 0 rows)"

section \<open>Evaluation\<close>

abbreviation Ty :: "string \<Rightarrow> rust_type" where "Ty i \<equiv> TPath i []"
abbreviation Opt :: "string \<Rightarrow> rust_type" where "Opt i \<equiv> TPath ''Option'' [Ty i]"
abbreviation Vec :: "string \<Rightarrow> rust_type" where "Vec i \<equiv> TPath ''Vec'' [Ty i]"

text \<open>A field under \<open>#[column(class)]\<close>, or under \<open>#[column(class, unit = u)]\<close>.\<close>

definition field :: "string \<Rightarrow> rust_type \<Rightarrow> string \<Rightarrow> rust_field" where
  "field n t cls = \<lparr>rf_name = n, rf_ty = t, rf_column = Some (cls, [])\<rparr>"

definition field_in :: "string \<Rightarrow> rust_type \<Rightarrow> string \<Rightarrow> string \<Rightarrow> rust_field" where
  "field_in n t cls u = \<lparr>rf_name = n, rf_ty = t, rf_column = Some (cls, [(''unit'', u)])\<rparr>"

definition section_struct :: "string \<Rightarrow> section_meta list \<Rightarrow> rust_field list \<Rightarrow> rust_struct" where
  "section_struct n ms fs = \<lparr>rs_name = n, rs_section = Some ms, rs_fields = fs\<rparr>"

named_theorems expand_simps \<open>evaluation of the macro on a literal struct\<close>

lemma unit_variant_simps [expand_simps]:
  "unit_variant ''none'' = Ok No_unit" "unit_variant ''count'' = Ok Count"
  "unit_variant ''bytes'' = Ok Bytes" "unit_variant ''kib'' = Ok Kib"
  "unit_variant ''pages'' = Ok Pages" "unit_variant ''sectors'' = Ok Sectors"
  "unit_variant ''seconds'' = Ok Seconds" "unit_variant ''milliseconds'' = Ok Milliseconds"
  "unit_variant ''microseconds'' = Ok Microseconds" "unit_variant ''nanoseconds'' = Ok Nanoseconds"
  "unit_variant ''jiffies'' = Ok Jiffies" "unit_variant ''hertz'' = Ok Hertz"
  "unit_variant ''megabits_per_second'' = Ok MegabitsPerSecond"
  "unit_variant ''megabytes_per_second'' = Ok MegabytesPerSecond"
  "unit_variant ''percent'' = Ok Percent" "unit_variant ''celsius'' = Ok Celsius"
  by (simp_all add: unit_variant_def)

lemma base_type_simps [expand_simps]:
  "base_type ''i8'' = Ok (I8, Some ''Int8Type'', None)"
  "base_type ''i16'' = Ok (I16, Some ''Int16Type'', None)"
  "base_type ''i32'' = Ok (I32, Some ''Int32Type'', None)"
  "base_type ''i64'' = Ok (I64, Some ''Int64Type'', None)"
  "base_type ''u8'' = Ok (U8, Some ''UInt8Type'', None)"
  "base_type ''u16'' = Ok (U16, Some ''UInt16Type'', None)"
  "base_type ''u32'' = Ok (U32, Some ''UInt32Type'', None)"
  "base_type ''u64'' = Ok (U64, Some ''UInt64Type'', None)"
  "base_type ''f32'' = Ok (F32, Some ''Float32Type'', None)"
  "base_type ''f64'' = Ok (F64, Some ''Float64Type'', None)"
  "base_type ''bool'' = Ok (Bool, None, None)"
  "base_type ''Ts'' = Ok (Ts, Some ''Int64Type'', Some ''Ts'')"
  "base_type ''StrId'' = Ok (StrId, Some ''UInt64Type'', Some ''StrId'')"
  by (simp_all add: base_type_def)

text \<open>The column a field becomes.\<close>

definition field_column :: "rust_field \<Rightarrow> macro_error + column" where
  "field_column f = and_then (parse_column f) (\<lambda>d. Ok (column_of d))"

lemma field_column_simps [expand_simps]:
  "field_column (field n (Ty i) ''l'') =
     and_then (base_type i) (\<lambda>(t, a, w). Ok \<lparr>col_name = n, col_ty = t, col_class = Label,
       col_nullable = False, col_unit = None\<rparr>)"
  "field_column (field n (Opt i) ''l'') =
     and_then (base_type i) (\<lambda>(t, a, w). Ok \<lparr>col_name = n, col_ty = t, col_class = Label,
       col_nullable = True, col_unit = None\<rparr>)"
  "field_column (field n (Vec ''i32'') ''l'') =
     Ok \<lparr>col_name = n, col_ty = ListI32, col_class = Label, col_nullable = False, col_unit = None\<rparr>"
  "field_column (field n (Ty ''Ts'') ''t'') =
     Ok \<lparr>col_name = n, col_ty = Ts, col_class = Timestamp, col_nullable = False, col_unit = None\<rparr>"
  by (auto simp: field_column_def field_def parse_column_def ColumnArgs_parse_def parse_column_class_def
      map_type_def column_of_def base_type_def and_then_def split: sum.splits)

lemma field_in_column_simps:
  assumes "(cls, c) \<in> {(''c'', Cumulative), (''g'', Gauge), (''l'', Label)}"
  shows "field_column (field_in n (Ty i) cls u) =
     and_then (unit_variant u) (\<lambda>v. and_then (base_type i) (\<lambda>(t, a, w).
       Ok \<lparr>col_name = n, col_ty = t, col_class = c, col_nullable = False, col_unit = Some v\<rparr>))"
    and "field_column (field_in n (Opt i) cls u) =
     and_then (unit_variant u) (\<lambda>v. and_then (base_type i) (\<lambda>(t, a, w).
       Ok \<lparr>col_name = n, col_ty = t, col_class = c, col_nullable = True, col_unit = Some v\<rparr>))"
  using assms
  by (auto simp: field_column_def field_in_def parse_column_def ColumnArgs_parse_def parse_column_class_def
      map_type_def column_of_def and_then_def split: sum.splits)

lemmas field_in_simps [expand_simps] =
  field_in_column_simps [of "''c''" Cumulative, simplified]
  field_in_column_simps [of "''g''" Gauge, simplified]
  field_in_column_simps [of "''l''" Label, simplified]

lemma collect_results_Ok:
  "collect_results f xs = Ok ys \<longleftrightarrow> list_all2 (\<lambda>x y. f x = Ok y) xs ys"
  by (induction xs arbitrary: ys) (auto simp: and_then_Ok_iff list_all2_Cons1)

lemma collect_field_column:
  "collect_results field_column fs =
     and_then (collect_results parse_column fs) (\<lambda>ds. Ok (map column_of ds))"
  by (induction fs) (simp_all add: field_column_def and_then_def split: sum.splits)

lemma expand_section_struct:
  assumes "read_metas empty_header_acc ms = Ok
      \<lparr>a_id = Some i, a_name = Some nm, a_semantics = Some sem, a_sort_key = sk, a_identity = idn\<rparr>"
    and "TypeId_new i = Some j" and "semantics_variant sem = Ok k"
    and "collect_results field_column fs = Ok cols"
  shows "expand (section_struct n ms fs) =
    Ok \<lparr>tc_type_id = j, tc_name = nm, tc_semantics = k, tc_columns = cols, tc_sort_key = sk,
        tc_identity = idn, tc_deprecated = False\<rparr>"
  using assms
  by (cases "collect_results parse_column fs")
    (simp_all add: expand_def parse_header_def section_struct_def build_contract_def
      collect_field_column)

lemma semantics_variant_simps [expand_simps]:
  "semantics_variant ''snapshot_full'' = Ok SnapshotFull"
  "semantics_variant ''conditional_full'' = Ok ConditionalFull"
  "semantics_variant ''event_stream'' = Ok EventStream"
  "semantics_variant ''changed'' = Ok Changed"
  "semantics_variant ''on_change'' = Ok OnChange"
  by (simp_all add: semantics_variant_def)

section \<open>Checked declarations\<close>

text \<open>
  What readers expect of every contract: the linter finds nothing, the first column is the
  required timestamp \<open>ts\<close> and is the only timestamp column, and no column name repeats.
\<close>

definition contract_checked :: "type_contract \<Rightarrow> bool" where
  "contract_checked c \<longleftrightarrow> lint_contract c = [] \<and> distinct (map col_name (tc_columns c)) \<and>
     (case tc_columns c of [] \<Rightarrow> False
      | col # cols \<Rightarrow> col_name col = ''ts'' \<and> col_class col = Timestamp \<and>
          (\<forall>d \<in> set cols. col_class d \<noteq> Timestamp))"

definition declares :: "rust_struct \<Rightarrow> u32 \<Rightarrow> string \<Rightarrow> bool" where
  "declares s i nm \<longleftrightarrow>
     (\<exists>c. expand s = Ok c \<and> tc_type_id c = TypeId i \<and> tc_name c = nm \<and> contract_checked c)"

lemma declaresI:
  assumes "contract_checked \<lparr>tc_type_id = TypeId i, tc_name = nm, tc_semantics = k, tc_columns = cols,
       tc_sort_key = sk, tc_identity = idn, tc_deprecated = False\<rparr>"
    and "collect_results field_column fs = Ok cols"
    and "semantics_variant sem = Ok k"
    and "TypeId_new i = Some (TypeId i)"
    and "read_metas empty_header_acc ms = Ok
      \<lparr>a_id = Some i, a_name = Some nm, a_semantics = Some sem, a_sort_key = sk, a_identity = idn\<rparr>"
  shows "declares (section_struct n ms fs) i nm"
  using expand_section_struct [OF assms(5,4,3,2)] assms(1) by (simp add: declares_def)

lemmas declare_simps =
  expand_simps empty_header_acc_def TypeId_new_def from_digit_def class_digit_def id_source_def
  id_version_def contract_checked_def lint_contract_def lint_sort_key_def lint_identity_def
  lint_column_def contract_column_def

end
