(* ===== verification/Registry_Os.thy ===== *)
theory Registry_Os
  imports Registry_Derive
begin

text \<open>
  The row structs of the host sections and the instance metadata (\<open>os_*.rs\<close>,
  \<open>instance_metadata.rs\<close>) under \<open>crates/kronika-registry/src/codec\<close>,
  as they are written: the section attributes in order and every field with its column
  attribute. Each is accepted by the macro, and its contract passes the checks.
\<close>

definition struct_InstanceMetadata :: rust_struct where
  "struct_InstanceMetadata = section_struct ''InstanceMetadata''
     [Meta_id 1021002, Meta_name ''instance_metadata'', Meta_semantics ''snapshot_full'',
      Meta_sort_key [''ts'']]
     [field ''ts'' (Ty ''Ts'') ''t'', field ''hostname'' (Ty ''StrId'') ''l'', field
      ''kernel_version'' (Ty ''StrId'') ''l'', field ''environment'' (Ty ''u8'') ''l'', field
      ''clock_ticks_per_sec'' (Ty ''i64'') ''l'', field ''page_size_bytes'' (Ty ''i64'') ''l'',
      field ''boot_id'' (Ty ''StrId'') ''l'', field ''btime'' (Ty ''Ts'') ''l'', field
      ''postgresql_enabled'' (Ty ''bool'') ''l'', field_in ''postgresql_interval_seconds'' (Ty
      ''u64'') ''l'' ''seconds'', field ''postgresql_effective_cpus'' (Opt ''u32'') ''l'']"

lemma declares_InstanceMetadata: "declares struct_InstanceMetadata 1021002 ''instance_metadata''"
  unfolding struct_InstanceMetadata_def by (rule declaresI) (simp_all add: declare_simps)

definition struct_InstanceMetadataV3 :: rust_struct where
  "struct_InstanceMetadataV3 = section_struct ''InstanceMetadataV3''
     [Meta_id 1021003, Meta_name ''instance_metadata'', Meta_semantics ''snapshot_full'',
      Meta_sort_key [''ts'']]
     [field ''ts'' (Ty ''Ts'') ''t'', field ''hostname'' (Opt ''StrId'') ''l'', field
      ''kernel_version'' (Opt ''StrId'') ''l'', field ''environment'' (Opt ''u8'') ''l'', field
      ''clock_ticks_per_sec'' (Opt ''i64'') ''l'', field ''page_size_bytes'' (Opt ''i64'')
      ''l'', field ''boot_id'' (Opt ''StrId'') ''l'', field ''btime'' (Opt ''Ts'') ''l'', field
      ''os_enabled'' (Ty ''bool'') ''l'', field ''postgresql_processes_shared'' (Ty ''bool'')
      ''l'', field ''postgresql_enabled'' (Ty ''bool'') ''l'', field_in
      ''postgresql_interval_seconds'' (Ty ''u64'') ''l'' ''seconds'', field
      ''postgresql_effective_cpus'' (Opt ''u32'') ''l'']"

lemma declares_InstanceMetadataV3: "declares struct_InstanceMetadataV3 1021003 ''instance_metadata''"
  unfolding struct_InstanceMetadataV3_def by (rule declaresI) (simp_all add: declare_simps)

definition struct_InstanceMetadataV4 :: rust_struct where
  "struct_InstanceMetadataV4 = section_struct ''InstanceMetadataV4''
     [Meta_id 1021004, Meta_name ''instance_metadata'', Meta_semantics ''snapshot_full'',
      Meta_sort_key [''ts'']]
     [field ''ts'' (Ty ''Ts'') ''t'', field ''hostname'' (Opt ''StrId'') ''l'', field
      ''kernel_version'' (Opt ''StrId'') ''l'', field ''environment'' (Opt ''u8'') ''l'', field
      ''clock_ticks_per_sec'' (Opt ''i64'') ''l'', field ''page_size_bytes'' (Opt ''i64'')
      ''l'', field ''boot_id'' (Opt ''StrId'') ''l'', field ''btime'' (Opt ''Ts'') ''l'', field
      ''os_enabled'' (Ty ''bool'') ''l'', field ''postgresql_processes_shared'' (Ty ''bool'')
      ''l'', field ''postgresql_enabled'' (Ty ''bool'') ''l'', field_in
      ''postgresql_interval_seconds'' (Ty ''u64'') ''l'' ''seconds'', field
      ''postgresql_effective_cpus'' (Opt ''u32'') ''l'', field_in
      ''postgresql_instance_interval_seconds'' (Ty ''u64'') ''l'' ''seconds'', field_in
      ''postgresql_relations_interval_seconds'' (Ty ''u64'') ''l'' ''seconds'', field_in
      ''postgresql_statements_interval_seconds'' (Ty ''u64'') ''l'' ''seconds'']"

lemma declares_InstanceMetadataV4: "declares struct_InstanceMetadataV4 1021004 ''instance_metadata''"
  unfolding struct_InstanceMetadataV4_def by (rule declaresI) (simp_all add: declare_simps)

definition struct_InstanceMetadataV1 :: rust_struct where
  "struct_InstanceMetadataV1 = section_struct ''InstanceMetadataV1''
     [Meta_id 1021001, Meta_name ''instance_metadata'', Meta_semantics ''snapshot_full'',
      Meta_sort_key [''ts'']]
     [field ''ts'' (Ty ''Ts'') ''t'', field ''hostname'' (Ty ''StrId'') ''l'', field
      ''kernel_version'' (Ty ''StrId'') ''l'', field ''environment'' (Ty ''u8'') ''l'', field
      ''clock_ticks_per_sec'' (Ty ''i64'') ''l'', field ''page_size_bytes'' (Ty ''i64'') ''l'',
      field ''boot_id'' (Ty ''StrId'') ''l'', field ''btime'' (Ty ''Ts'') ''l'']"

lemma declares_InstanceMetadataV1: "declares struct_InstanceMetadataV1 1021001 ''instance_metadata''"
  unfolding struct_InstanceMetadataV1_def by (rule declaresI) (simp_all add: declare_simps)

definition struct_OsBlockTopology :: rust_struct where
  "struct_OsBlockTopology = section_struct ''OsBlockTopology''
     [Meta_id 1123001, Meta_name ''os_block_topology'', Meta_semantics ''on_change'',
      Meta_sort_key [''major'', ''minor'', ''parent_major'', ''parent_minor'', ''ts''],
      Meta_identity [''major'', ''minor'', ''parent_major'', ''parent_minor'']]
     [field ''ts'' (Ty ''Ts'') ''t'', field ''major'' (Ty ''i32'') ''l'', field ''minor'' (Ty
      ''i32'') ''l'', field ''parent_major'' (Ty ''i32'') ''l'', field ''parent_minor'' (Ty
      ''i32'') ''l'', field ''scope'' (Ty ''u8'') ''l'']"

lemma declares_OsBlockTopology: "declares struct_OsBlockTopology 1123001 ''os_block_topology''"
  unfolding struct_OsBlockTopology_def by (rule declaresI) (simp_all add: declare_simps)

definition struct_OsCpu :: rust_struct where
  "struct_OsCpu = section_struct ''OsCpu''
     [Meta_id 1102001, Meta_name ''os_cpu'', Meta_semantics ''snapshot_full'', Meta_sort_key
      [''cpu_id'', ''ts''], Meta_identity [''cpu_id'']]
     [field ''ts'' (Ty ''Ts'') ''t'', field ''cpu_id'' (Ty ''i32'') ''l'', field_in ''user'' (Ty
      ''i64'') ''c'' ''jiffies'', field_in ''nice'' (Ty ''i64'') ''c'' ''jiffies'', field_in
      ''system'' (Ty ''i64'') ''c'' ''jiffies'', field_in ''idle'' (Ty ''i64'') ''c''
      ''jiffies'', field_in ''iowait'' (Ty ''i64'') ''c'' ''jiffies'', field_in ''irq'' (Ty
      ''i64'') ''c'' ''jiffies'', field_in ''softirq'' (Ty ''i64'') ''c'' ''jiffies'', field_in
      ''steal'' (Ty ''i64'') ''c'' ''jiffies'', field_in ''guest'' (Ty ''i64'') ''c''
      ''jiffies'', field_in ''guest_nice'' (Ty ''i64'') ''c'' ''jiffies'', field ''scope'' (Ty
      ''u8'') ''l'']"

lemma declares_OsCpu: "declares struct_OsCpu 1102001 ''os_cpu''"
  unfolding struct_OsCpu_def by (rule declaresI) (simp_all add: declare_simps)

definition struct_OsCpufreqPolicy :: rust_struct where
  "struct_OsCpufreqPolicy = section_struct ''OsCpufreqPolicy''
     [Meta_id 1121001, Meta_name ''os_cpufreq_policy'', Meta_semantics ''on_change'',
      Meta_sort_key [''policy_id'', ''ts''], Meta_identity [''policy_id'']]
     [field ''ts'' (Ty ''Ts'') ''t'', field ''policy_id'' (Ty ''i32'') ''l'', field
      ''related_cpus'' (Opt ''StrId'') ''l'', field ''scaling_driver'' (Opt ''StrId'') ''l'',
      field ''actual_source'' (Opt ''StrId'') ''l'', field_in ''cpuinfo_min_freq_hz'' (Opt
      ''i64'') ''l'' ''hertz'', field_in ''cpuinfo_max_freq_hz'' (Opt ''i64'') ''l'' ''hertz'',
      field ''scope'' (Ty ''u8'') ''l'']"

lemma declares_OsCpufreqPolicy: "declares struct_OsCpufreqPolicy 1121001 ''os_cpufreq_policy''"
  unfolding struct_OsCpufreqPolicy_def by (rule declaresI) (simp_all add: declare_simps)

definition struct_OsCpufreq :: rust_struct where
  "struct_OsCpufreq = section_struct ''OsCpufreq''
     [Meta_id 1122001, Meta_name ''os_cpufreq'', Meta_semantics ''snapshot_full'', Meta_sort_key
      [''policy_id'', ''ts''], Meta_identity [''policy_id'']]
     [field ''ts'' (Ty ''Ts'') ''t'', field ''policy_id'' (Ty ''i32'') ''l'', field
      ''actual_source'' (Opt ''StrId'') ''l'', field_in ''actual_frequency_hz'' (Opt ''i64'')
      ''g'' ''hertz'', field_in ''scaling_cur_freq_hz'' (Opt ''i64'') ''g'' ''hertz'', field_in
      ''scaling_min_freq_hz'' (Opt ''i64'') ''g'' ''hertz'', field_in ''scaling_max_freq_hz''
      (Opt ''i64'') ''g'' ''hertz'', field_in ''online_cpus'' (Opt ''i32'') ''g'' ''count'',
      field ''scope'' (Ty ''u8'') ''l'']"

lemma declares_OsCpufreq: "declares struct_OsCpufreq 1122001 ''os_cpufreq''"
  unfolding struct_OsCpufreq_def by (rule declaresI) (simp_all add: declare_simps)

definition struct_OsDiskstats :: rust_struct where
  "struct_OsDiskstats = section_struct ''OsDiskstats''
     [Meta_id 1108001, Meta_name ''os_diskstats'', Meta_semantics ''snapshot_full'',
      Meta_sort_key [''major'', ''minor'', ''ts''], Meta_identity [''major'', ''minor'']]
     [field ''ts'' (Ty ''Ts'') ''t'', field ''major'' (Ty ''i32'') ''l'', field ''minor'' (Ty
      ''i32'') ''l'', field ''device'' (Ty ''StrId'') ''l'', field_in ''reads'' (Ty ''i64'')
      ''c'' ''count'', field_in ''r_merged'' (Ty ''i64'') ''c'' ''count'', field_in
      ''read_sectors'' (Ty ''i64'') ''c'' ''sectors'', field_in ''read_time_ms'' (Ty ''i64'')
      ''c'' ''milliseconds'', field_in ''writes'' (Ty ''i64'') ''c'' ''count'', field_in
      ''w_merged'' (Ty ''i64'') ''c'' ''count'', field_in ''write_sectors'' (Ty ''i64'') ''c''
      ''sectors'', field_in ''write_time_ms'' (Ty ''i64'') ''c'' ''milliseconds'', field_in
      ''io_in_progress'' (Ty ''i64'') ''g'' ''count'', field_in ''io_time_ms'' (Ty ''i64'')
      ''c'' ''milliseconds'', field_in ''io_weighted_time_ms'' (Ty ''i64'') ''c''
      ''milliseconds'', field_in ''discards'' (Opt ''i64'') ''c'' ''count'', field_in
      ''d_merged'' (Opt ''i64'') ''c'' ''count'', field_in ''discard_sectors'' (Opt ''i64'')
      ''c'' ''sectors'', field_in ''discard_time_ms'' (Opt ''i64'') ''c'' ''milliseconds'',
      field_in ''flushes'' (Opt ''i64'') ''c'' ''count'', field_in ''flush_time_ms'' (Opt
      ''i64'') ''c'' ''milliseconds'', field ''scope'' (Ty ''u8'') ''l'']"

lemma declares_OsDiskstats: "declares struct_OsDiskstats 1108001 ''os_diskstats''"
  unfolding struct_OsDiskstats_def by (rule declaresI) (simp_all add: declare_simps)

definition struct_OsInterrupts :: rust_struct where
  "struct_OsInterrupts = section_struct ''OsInterrupts''
     [Meta_id 1114001, Meta_name ''os_interrupts'', Meta_semantics ''snapshot_full'',
      Meta_sort_key [''irq'', ''ts''], Meta_identity [''irq'']]
     [field ''ts'' (Ty ''Ts'') ''t'', field ''irq'' (Ty ''StrId'') ''l'', field ''device'' (Opt
      ''StrId'') ''l'', field_in ''count'' (Ty ''i64'') ''c'' ''count'', field ''scope'' (Ty
      ''u8'') ''l'']"

lemma declares_OsInterrupts: "declares struct_OsInterrupts 1114001 ''os_interrupts''"
  unfolding struct_OsInterrupts_def by (rule declaresI) (simp_all add: declare_simps)

definition struct_OsKernelLimits :: rust_struct where
  "struct_OsKernelLimits = section_struct ''OsKernelLimits''
     [Meta_id 1116001, Meta_name ''os_kernel_limits'', Meta_semantics ''snapshot_full'',
      Meta_sort_key [''ts'']]
     [field ''ts'' (Ty ''Ts'') ''t'', field_in ''nr_file'' (Opt ''i64'') ''g'' ''count'',
      field_in ''nr_free_file'' (Opt ''i64'') ''g'' ''count'', field_in ''max_file'' (Opt
      ''i64'') ''g'' ''count'', field_in ''nr_inode'' (Opt ''i64'') ''g'' ''count'', field_in
      ''nr_free_inode'' (Opt ''i64'') ''g'' ''count'', field_in ''nr_dentry'' (Opt ''i64'')
      ''g'' ''count'', field_in ''nr_unused_dentry'' (Opt ''i64'') ''g'' ''count'', field
      ''scope'' (Ty ''u8'') ''l'']"

lemma declares_OsKernelLimits: "declares struct_OsKernelLimits 1116001 ''os_kernel_limits''"
  unfolding struct_OsKernelLimits_def by (rule declaresI) (simp_all add: declare_simps)

definition struct_OsLoadavg :: rust_struct where
  "struct_OsLoadavg = section_struct ''OsLoadavg''
     [Meta_id 1105001, Meta_name ''os_loadavg'', Meta_semantics ''snapshot_full'', Meta_sort_key
      [''ts'']]
     [field ''ts'' (Ty ''Ts'') ''t'', field_in ''load1'' (Ty ''f64'') ''g'' ''none'', field_in
      ''load5'' (Ty ''f64'') ''g'' ''none'', field_in ''load15'' (Ty ''f64'') ''g'' ''none'',
      field_in ''running'' (Ty ''i32'') ''g'' ''count'', field_in ''total'' (Ty ''i32'') ''g''
      ''count'', field ''scope'' (Ty ''u8'') ''l'']"

lemma declares_OsLoadavg: "declares struct_OsLoadavg 1105001 ''os_loadavg''"
  unfolding struct_OsLoadavg_def by (rule declaresI) (simp_all add: declare_simps)

definition struct_OsMeminfo :: rust_struct where
  "struct_OsMeminfo = section_struct ''OsMeminfo''
     [Meta_id 1104001, Meta_name ''os_meminfo'', Meta_semantics ''snapshot_full'', Meta_sort_key
      [''ts'']]
     [field ''ts'' (Ty ''Ts'') ''t'', field_in ''mem_total'' (Ty ''i64'') ''g'' ''kib'',
      field_in ''mem_free'' (Opt ''i64'') ''g'' ''kib'', field_in ''mem_available'' (Opt
      ''i64'') ''g'' ''kib'', field_in ''buffers'' (Opt ''i64'') ''g'' ''kib'', field_in
      ''cached'' (Opt ''i64'') ''g'' ''kib'', field_in ''swap_total'' (Opt ''i64'') ''g''
      ''kib'', field_in ''swap_free'' (Opt ''i64'') ''g'' ''kib'', field_in ''active'' (Opt
      ''i64'') ''g'' ''kib'', field_in ''inactive'' (Opt ''i64'') ''g'' ''kib'', field_in
      ''dirty'' (Opt ''i64'') ''g'' ''kib'', field_in ''writeback'' (Opt ''i64'') ''g'' ''kib'',
      field_in ''slab'' (Opt ''i64'') ''g'' ''kib'', field_in ''s_reclaimable'' (Opt ''i64'')
      ''g'' ''kib'', field_in ''s_unreclaim'' (Opt ''i64'') ''g'' ''kib'', field_in
      ''anon_pages'' (Opt ''i64'') ''g'' ''kib'', field_in ''mapped'' (Opt ''i64'') ''g''
      ''kib'', field_in ''shmem'' (Opt ''i64'') ''g'' ''kib'', field_in ''page_tables'' (Opt
      ''i64'') ''g'' ''kib'', field_in ''commit_limit'' (Opt ''i64'') ''g'' ''kib'', field_in
      ''committed_as'' (Opt ''i64'') ''g'' ''kib'', field_in ''huge_pages_total'' (Opt ''i64'')
      ''g'' ''pages'', field_in ''huge_pages_free'' (Opt ''i64'') ''g'' ''pages'', field_in
      ''hugepagesize'' (Opt ''i64'') ''g'' ''kib'', field_in ''swap_cached'' (Opt ''i64'') ''g''
      ''kib'', field_in ''unevictable'' (Opt ''i64'') ''g'' ''kib'', field_in ''mlocked'' (Opt
      ''i64'') ''g'' ''kib'', field_in ''anon_huge_pages'' (Opt ''i64'') ''g'' ''kib'', field_in
      ''shmem_huge_pages'' (Opt ''i64'') ''g'' ''kib'', field_in ''kernel_stack'' (Opt ''i64'')
      ''g'' ''kib'', field_in ''percpu'' (Opt ''i64'') ''g'' ''kib'', field_in ''bounce'' (Opt
      ''i64'') ''g'' ''kib'', field_in ''nfs_unstable'' (Opt ''i64'') ''g'' ''kib'', field_in
      ''writeback_tmp'' (Opt ''i64'') ''g'' ''kib'', field_in ''huge_pages_rsvd'' (Opt ''i64'')
      ''g'' ''pages'', field_in ''huge_pages_surp'' (Opt ''i64'') ''g'' ''pages'', field_in
      ''zswap'' (Opt ''i64'') ''g'' ''kib'', field_in ''zswapped'' (Opt ''i64'') ''g'' ''kib'',
      field_in ''vmalloc_used'' (Opt ''i64'') ''g'' ''kib'', field ''scope'' (Ty ''u8'') ''l'']"

lemma declares_OsMeminfo: "declares struct_OsMeminfo 1104001 ''os_meminfo''"
  unfolding struct_OsMeminfo_def by (rule declaresI) (simp_all add: declare_simps)

definition struct_OsMountinfo :: rust_struct where
  "struct_OsMountinfo = section_struct ''OsMountinfo''
     [Meta_id 1112002, Meta_name ''os_mountinfo'', Meta_semantics ''on_change'', Meta_sort_key
      [''major'', ''minor'', ''mount_point'', ''ts''], Meta_identity [''major'', ''minor'',
      ''mount_point'']]
     [field ''ts'' (Ty ''Ts'') ''t'', field ''major'' (Ty ''i32'') ''l'', field ''minor'' (Ty
      ''i32'') ''l'', field ''mount_point'' (Ty ''StrId'') ''l'', field ''root'' (Ty ''StrId'')
      ''l'', field ''fstype'' (Ty ''StrId'') ''l'', field ''source'' (Ty ''StrId'') ''l'', field
      ''is_k8s_infra'' (Ty ''bool'') ''l'', field_in ''total_bytes'' (Opt ''i64'') ''g''
      ''bytes'', field_in ''free_bytes'' (Opt ''i64'') ''g'' ''bytes'', field_in
      ''total_inodes'' (Opt ''i64'') ''g'' ''count'', field_in ''available_inodes'' (Opt
      ''i64'') ''g'' ''count'', field ''scope'' (Ty ''u8'') ''l'']"

lemma declares_OsMountinfo: "declares struct_OsMountinfo 1112002 ''os_mountinfo''"
  unfolding struct_OsMountinfo_def by (rule declaresI) (simp_all add: declare_simps)

definition struct_OsNetdev :: rust_struct where
  "struct_OsNetdev = section_struct ''OsNetdev''
     [Meta_id 1109001, Meta_name ''os_netdev'', Meta_semantics ''snapshot_full'', Meta_sort_key
      [''iface'', ''ts''], Meta_identity [''iface'']]
     [field ''ts'' (Ty ''Ts'') ''t'', field ''iface'' (Ty ''StrId'') ''l'', field_in
      ''rx_bytes'' (Ty ''i64'') ''c'' ''bytes'', field_in ''rx_packets'' (Ty ''i64'') ''c''
      ''count'', field_in ''rx_errs'' (Ty ''i64'') ''c'' ''count'', field_in ''rx_drop'' (Ty
      ''i64'') ''c'' ''count'', field_in ''rx_fifo'' (Ty ''i64'') ''c'' ''count'', field_in
      ''rx_frame'' (Ty ''i64'') ''c'' ''count'', field_in ''rx_compressed'' (Ty ''i64'') ''c''
      ''count'', field_in ''rx_multicast'' (Ty ''i64'') ''c'' ''count'', field_in ''tx_bytes''
      (Ty ''i64'') ''c'' ''bytes'', field_in ''tx_packets'' (Ty ''i64'') ''c'' ''count'',
      field_in ''tx_errs'' (Ty ''i64'') ''c'' ''count'', field_in ''tx_drop'' (Ty ''i64'') ''c''
      ''count'', field_in ''tx_fifo'' (Ty ''i64'') ''c'' ''count'', field_in ''tx_colls'' (Ty
      ''i64'') ''c'' ''count'', field_in ''tx_carrier'' (Ty ''i64'') ''c'' ''count'', field_in
      ''tx_compressed'' (Ty ''i64'') ''c'' ''count'', field_in ''speed_mbit'' (Opt ''i64'')
      ''g'' ''count'', field ''duplex'' (Ty ''u8'') ''l'', field ''scope'' (Ty ''u8'') ''l'']"

lemma declares_OsNetdev: "declares struct_OsNetdev 1109001 ''os_netdev''"
  unfolding struct_OsNetdev_def by (rule declaresI) (simp_all add: declare_simps)

definition struct_OsNetstat :: rust_struct where
  "struct_OsNetstat = section_struct ''OsNetstat''
     [Meta_id 1111001, Meta_name ''os_netstat'', Meta_semantics ''snapshot_full'', Meta_sort_key
      [''ts'']]
     [field ''ts'' (Ty ''Ts'') ''t'', field_in ''listen_overflows'' (Ty ''i64'') ''c''
      ''count'', field_in ''listen_drops'' (Ty ''i64'') ''c'' ''count'', field_in
      ''tcp_timeouts'' (Ty ''i64'') ''c'' ''count'', field_in ''tcp_fast_retrans'' (Ty ''i64'')
      ''c'' ''count'', field_in ''tcp_slow_start_retrans'' (Ty ''i64'') ''c'' ''count'',
      field_in ''tcp_ofo_queue'' (Ty ''i64'') ''c'' ''count'', field_in ''tcp_syn_retrans'' (Ty
      ''i64'') ''c'' ''count'', field_in ''tcp_lost_retransmit'' (Ty ''i64'') ''c'' ''count'',
      field_in ''tcp_abort_on_timeout'' (Ty ''i64'') ''c'' ''count'', field_in
      ''tcp_abort_on_close'' (Ty ''i64'') ''c'' ''count'', field_in ''tcp_abort_on_memory'' (Ty
      ''i64'') ''c'' ''count'', field_in ''tcp_abort_on_data'' (Ty ''i64'') ''c'' ''count'',
      field_in ''tcp_abort_failed'' (Ty ''i64'') ''c'' ''count'', field_in
      ''tcp_memory_pressures'' (Ty ''i64'') ''c'' ''count'', field_in ''tcp_backlog_drop'' (Ty
      ''i64'') ''c'' ''count'', field_in ''tcp_ofo_drop'' (Ty ''i64'') ''c'' ''count'', field_in
      ''tcp_rcv_pruned'' (Ty ''i64'') ''c'' ''count'', field_in ''tcp_prune_called'' (Ty
      ''i64'') ''c'' ''count'', field_in ''delayed_acks'' (Ty ''i64'') ''c'' ''count'', field_in
      ''time_wait'' (Ty ''i64'') ''c'' ''count'', field_in ''ip_in_octets'' (Ty ''i64'') ''c''
      ''count'', field_in ''ip_out_octets'' (Ty ''i64'') ''c'' ''count'', field ''scope'' (Ty
      ''u8'') ''l'']"

lemma declares_OsNetstat: "declares struct_OsNetstat 1111001 ''os_netstat''"
  unfolding struct_OsNetstat_def by (rule declaresI) (simp_all add: declare_simps)

definition struct_OsNfsClient :: rust_struct where
  "struct_OsNfsClient = section_struct ''OsNfsClient''
     [Meta_id 1119001, Meta_name ''os_nfs_client'', Meta_semantics ''snapshot_full'',
      Meta_sort_key [''ts'']]
     [field ''ts'' (Ty ''Ts'') ''t'', field_in ''rpc_calls'' (Ty ''i64'') ''c'' ''count'',
      field_in ''rpc_retrans'' (Ty ''i64'') ''c'' ''count'', field_in ''rpc_auth_refresh'' (Ty
      ''i64'') ''c'' ''count'', field_in ''op_read'' (Ty ''i64'') ''c'' ''count'', field_in
      ''op_write'' (Ty ''i64'') ''c'' ''count'', field_in ''op_commit'' (Ty ''i64'') ''c''
      ''count'', field ''scope'' (Ty ''u8'') ''l'']"

lemma declares_OsNfsClient: "declares struct_OsNfsClient 1119001 ''os_nfs_client''"
  unfolding struct_OsNfsClient_def by (rule declaresI) (simp_all add: declare_simps)

definition struct_OsNfsServer :: rust_struct where
  "struct_OsNfsServer = section_struct ''OsNfsServer''
     [Meta_id 1120001, Meta_name ''os_nfs_server'', Meta_semantics ''snapshot_full'',
      Meta_sort_key [''ts'']]
     [field ''ts'' (Ty ''Ts'') ''t'', field_in ''rpc_calls'' (Ty ''i64'') ''c'' ''count'',
      field_in ''rpc_bad_calls'' (Ty ''i64'') ''c'' ''count'', field_in ''reply_cache_hits'' (Ty
      ''i64'') ''c'' ''count'', field_in ''reply_cache_misses'' (Ty ''i64'') ''c'' ''count'',
      field_in ''reply_cache_nocache'' (Ty ''i64'') ''c'' ''count'', field_in ''io_read_bytes''
      (Ty ''i64'') ''c'' ''bytes'', field_in ''io_write_bytes'' (Ty ''i64'') ''c'' ''bytes'',
      field_in ''net_count'' (Ty ''i64'') ''c'' ''count'', field ''scope'' (Ty ''u8'') ''l'']"

lemma declares_OsNfsServer: "declares struct_OsNfsServer 1120001 ''os_nfs_server''"
  unfolding struct_OsNfsServer_def by (rule declaresI) (simp_all add: declare_simps)

definition struct_OsNuma :: rust_struct where
  "struct_OsNuma = section_struct ''OsNuma''
     [Meta_id 1117001, Meta_name ''os_numa'', Meta_semantics ''snapshot_full'', Meta_sort_key
      [''node_id'', ''ts''], Meta_identity [''node_id'']]
     [field ''ts'' (Ty ''Ts'') ''t'', field ''node_id'' (Ty ''i32'') ''l'', field_in
      ''mem_total'' (Ty ''i64'') ''g'' ''kib'', field_in ''mem_free'' (Opt ''i64'') ''g''
      ''kib'', field_in ''mem_used'' (Opt ''i64'') ''g'' ''kib'', field_in ''file_pages'' (Opt
      ''i64'') ''g'' ''kib'', field_in ''dirty'' (Opt ''i64'') ''g'' ''kib'', field_in
      ''writeback'' (Opt ''i64'') ''g'' ''kib'', field_in ''anon_pages'' (Opt ''i64'') ''g''
      ''kib'', field_in ''mapped'' (Opt ''i64'') ''g'' ''kib'', field_in ''shmem'' (Opt ''i64'')
      ''g'' ''kib'', field_in ''slab'' (Opt ''i64'') ''g'' ''kib'', field_in ''s_reclaimable''
      (Opt ''i64'') ''g'' ''kib'', field_in ''s_unreclaim'' (Opt ''i64'') ''g'' ''kib'',
      field_in ''anon_huge_pages'' (Opt ''i64'') ''g'' ''kib'', field_in ''huge_pages_total''
      (Opt ''i64'') ''g'' ''pages'', field_in ''huge_pages_free'' (Opt ''i64'') ''g'' ''pages'',
      field ''scope'' (Ty ''u8'') ''l'']"

lemma declares_OsNuma: "declares struct_OsNuma 1117001 ''os_numa''"
  unfolding struct_OsNuma_def by (rule declaresI) (simp_all add: declare_simps)

definition struct_OsProcess :: rust_struct where
  "struct_OsProcess = section_struct ''OsProcess''
     [Meta_id 1100001, Meta_name ''os_process'', Meta_semantics ''snapshot_full'', Meta_sort_key
      [''pid'', ''ts''], Meta_identity [''pid'']]
     [field ''ts'' (Ty ''Ts'') ''t'', field ''pid'' (Ty ''i32'') ''l'', field ''starttime'' (Ty
      ''Ts'') ''l'', field ''ppid'' (Ty ''i32'') ''l'', field ''uid'' (Ty ''u32'') ''l'', field
      ''euid'' (Ty ''u32'') ''l'', field ''gid'' (Ty ''u32'') ''l'', field ''egid'' (Ty ''u32'')
      ''l'', field ''state'' (Ty ''u8'') ''l'', field_in ''num_threads'' (Ty ''u32'') ''g''
      ''count'', field ''tty'' (Ty ''u16'') ''l'', field ''comm'' (Ty ''StrId'') ''l'', field
      ''cmdline'' (Opt ''StrId'') ''l'', field_in ''utime'' (Ty ''i64'') ''c'' ''jiffies'',
      field_in ''stime'' (Ty ''i64'') ''c'' ''jiffies'', field ''nice'' (Ty ''i8'') ''l'', field
      ''prio'' (Ty ''i16'') ''l'', field ''rtprio'' (Ty ''i16'') ''l'', field ''policy'' (Ty
      ''u8'') ''l'', field_in ''curcpu'' (Ty ''i32'') ''g'' ''count'', field_in ''rundelay_ns''
      (Ty ''i64'') ''c'' ''nanoseconds'', field_in ''blkdelay_ticks'' (Ty ''i64'') ''c''
      ''jiffies'', field_in ''nvcsw'' (Ty ''i64'') ''c'' ''count'', field_in ''nivcsw'' (Ty
      ''i64'') ''c'' ''count'', field_in ''minflt'' (Ty ''i64'') ''c'' ''pages'', field_in
      ''majflt'' (Ty ''i64'') ''c'' ''pages'', field_in ''vmem_kb'' (Ty ''i64'') ''g'' ''kib'',
      field_in ''rmem_kb'' (Ty ''i64'') ''g'' ''kib'', field_in ''vswap_kb'' (Ty ''i64'') ''g''
      ''kib'', field_in ''syscr'' (Opt ''i64'') ''c'' ''count'', field_in ''syscw'' (Opt
      ''i64'') ''c'' ''count'', field_in ''rchar'' (Opt ''i64'') ''c'' ''bytes'', field_in
      ''wchar'' (Opt ''i64'') ''c'' ''bytes'', field_in ''read_bytes'' (Opt ''i64'') ''c''
      ''bytes'', field_in ''write_bytes'' (Opt ''i64'') ''c'' ''bytes'', field_in
      ''cancelled_write_bytes'' (Opt ''i64'') ''c'' ''bytes'', field ''exit_signal'' (Ty
      ''i32'') ''l'', field ''scope'' (Ty ''u8'') ''l'']"

lemma declares_OsProcess: "declares struct_OsProcess 1100001 ''os_process''"
  unfolding struct_OsProcess_def by (rule declaresI) (simp_all add: declare_simps)

definition struct_OsProcessStatus :: rust_struct where
  "struct_OsProcessStatus = section_struct ''OsProcessStatus''
     [Meta_id 1101001, Meta_name ''os_process_status'', Meta_semantics ''snapshot_full'',
      Meta_sort_key [''pid'', ''ts''], Meta_identity [''pid'']]
     [field ''ts'' (Ty ''Ts'') ''t'', field ''pid'' (Ty ''i32'') ''l'', field ''starttime'' (Ty
      ''Ts'') ''l'', field_in ''vm_data'' (Ty ''i64'') ''g'' ''count'', field_in ''vm_stk'' (Ty
      ''i64'') ''g'' ''count'', field_in ''vm_lib'' (Ty ''i64'') ''g'' ''count'', field_in
      ''vm_lck'' (Ty ''i64'') ''g'' ''count'', field_in ''vm_pte'' (Ty ''i64'') ''g'' ''pages'',
      field_in ''vm_peak'' (Ty ''i64'') ''g'' ''count'', field_in ''vm_hwm'' (Ty ''i64'') ''g''
      ''count'', field_in ''threads'' (Ty ''u32'') ''g'' ''count'', field_in ''fdsize'' (Ty
      ''u32'') ''g'' ''count'', field_in ''voluntary_ctxt_switches'' (Ty ''i64'') ''c''
      ''count'', field_in ''nonvoluntary_ctxt_switches'' (Ty ''i64'') ''c'' ''count'', field
      ''scope'' (Ty ''u8'') ''l'']"

lemma declares_OsProcessStatus: "declares struct_OsProcessStatus 1101001 ''os_process_status''"
  unfolding struct_OsProcessStatus_def by (rule declaresI) (simp_all add: declare_simps)

definition struct_OsPsi :: rust_struct where
  "struct_OsPsi = section_struct ''OsPsi''
     [Meta_id 1107001, Meta_name ''os_psi'', Meta_semantics ''snapshot_full'', Meta_sort_key
      [''resource'', ''ts''], Meta_identity [''resource'']]
     [field ''ts'' (Ty ''Ts'') ''t'', field ''resource'' (Ty ''u8'') ''l'', field_in
      ''some_avg10'' (Ty ''f64'') ''g'' ''count'', field_in ''some_avg60'' (Ty ''f64'') ''g''
      ''count'', field_in ''some_avg300'' (Ty ''f64'') ''g'' ''count'', field_in ''some_total''
      (Ty ''i64'') ''c'' ''microseconds'', field_in ''full_avg10'' (Opt ''f64'') ''g''
      ''count'', field_in ''full_avg60'' (Opt ''f64'') ''g'' ''count'', field_in ''full_avg300''
      (Opt ''f64'') ''g'' ''count'', field_in ''full_total'' (Opt ''i64'') ''c''
      ''microseconds'', field ''scope'' (Ty ''u8'') ''l'']"

lemma declares_OsPsi: "declares struct_OsPsi 1107001 ''os_psi''"
  unfolding struct_OsPsi_def by (rule declaresI) (simp_all add: declare_simps)

definition struct_OsSnmp :: rust_struct where
  "struct_OsSnmp = section_struct ''OsSnmp''
     [Meta_id 1110001, Meta_name ''os_snmp'', Meta_semantics ''snapshot_full'', Meta_sort_key
      [''ts'']]
     [field ''ts'' (Ty ''Ts'') ''t'', field_in ''tcp_active_opens'' (Ty ''i64'') ''c''
      ''count'', field_in ''tcp_passive_opens'' (Ty ''i64'') ''c'' ''count'', field_in
      ''tcp_attempt_fails'' (Ty ''i64'') ''c'' ''count'', field_in ''tcp_estab_resets'' (Ty
      ''i64'') ''c'' ''count'', field_in ''tcp_in_segs'' (Ty ''i64'') ''c'' ''count'', field_in
      ''tcp_out_segs'' (Ty ''i64'') ''c'' ''count'', field_in ''tcp_retrans_segs'' (Ty ''i64'')
      ''c'' ''count'', field_in ''tcp_in_errs'' (Ty ''i64'') ''c'' ''count'', field_in
      ''tcp_out_rsts'' (Ty ''i64'') ''c'' ''count'', field_in ''tcp_curr_estab'' (Ty ''i64'')
      ''g'' ''count'', field_in ''udp_in_datagrams'' (Ty ''i64'') ''c'' ''count'', field_in
      ''udp_out_datagrams'' (Ty ''i64'') ''c'' ''count'', field_in ''udp_in_errors'' (Ty
      ''i64'') ''c'' ''count'', field_in ''udp_no_ports'' (Ty ''i64'') ''c'' ''count'', field_in
      ''ip_in_receives'' (Opt ''i64'') ''c'' ''count'', field_in ''ip_in_hdr_errors'' (Opt
      ''i64'') ''c'' ''count'', field_in ''ip_in_addr_errors'' (Opt ''i64'') ''c'' ''count'',
      field_in ''ip_forw_datagrams'' (Opt ''i64'') ''c'' ''count'', field_in
      ''ip_in_unknown_protos'' (Opt ''i64'') ''c'' ''count'', field_in ''ip_in_discards'' (Opt
      ''i64'') ''c'' ''count'', field_in ''ip_in_delivers'' (Opt ''i64'') ''c'' ''count'',
      field_in ''ip_out_requests'' (Opt ''i64'') ''c'' ''count'', field_in ''ip_out_discards''
      (Opt ''i64'') ''c'' ''count'', field_in ''ip_out_no_routes'' (Opt ''i64'') ''c''
      ''count'', field_in ''ip_reasm_reqds'' (Opt ''i64'') ''c'' ''count'', field_in
      ''ip_reasm_oks'' (Opt ''i64'') ''c'' ''count'', field_in ''ip_reasm_fails'' (Opt ''i64'')
      ''c'' ''count'', field_in ''ip_frag_oks'' (Opt ''i64'') ''c'' ''count'', field_in
      ''ip_frag_fails'' (Opt ''i64'') ''c'' ''count'', field_in ''ip_frag_creates'' (Opt
      ''i64'') ''c'' ''count'', field_in ''icmp_in_msgs'' (Opt ''i64'') ''c'' ''count'',
      field_in ''icmp_in_errors'' (Opt ''i64'') ''c'' ''count'', field_in ''icmp_out_msgs'' (Opt
      ''i64'') ''c'' ''count'', field_in ''icmp_out_errors'' (Opt ''i64'') ''c'' ''count'',
      field ''scope'' (Ty ''u8'') ''l'']"

lemma declares_OsSnmp: "declares struct_OsSnmp 1110001 ''os_snmp''"
  unfolding struct_OsSnmp_def by (rule declaresI) (simp_all add: declare_simps)

definition struct_OsSnmp6 :: rust_struct where
  "struct_OsSnmp6 = section_struct ''OsSnmp6''
     [Meta_id 1118001, Meta_name ''os_snmp6'', Meta_semantics ''snapshot_full'', Meta_sort_key
      [''ts'']]
     [field ''ts'' (Ty ''Ts'') ''t'', field_in ''ip6_in_receives'' (Opt ''i64'') ''c''
      ''count'', field_in ''ip6_in_hdr_errors'' (Opt ''i64'') ''c'' ''count'', field_in
      ''ip6_in_addr_errors'' (Opt ''i64'') ''c'' ''count'', field_in ''ip6_in_discards'' (Opt
      ''i64'') ''c'' ''count'', field_in ''ip6_in_delivers'' (Opt ''i64'') ''c'' ''count'',
      field_in ''ip6_out_requests'' (Opt ''i64'') ''c'' ''count'', field_in ''ip6_out_discards''
      (Opt ''i64'') ''c'' ''count'', field_in ''ip6_out_no_routes'' (Opt ''i64'') ''c''
      ''count'', field_in ''ip6_reasm_reqds'' (Opt ''i64'') ''c'' ''count'', field_in
      ''ip6_reasm_oks'' (Opt ''i64'') ''c'' ''count'', field_in ''ip6_reasm_fails'' (Opt
      ''i64'') ''c'' ''count'', field_in ''ip6_frag_oks'' (Opt ''i64'') ''c'' ''count'',
      field_in ''ip6_frag_fails'' (Opt ''i64'') ''c'' ''count'', field_in ''icmp6_in_msgs'' (Opt
      ''i64'') ''c'' ''count'', field_in ''icmp6_in_errors'' (Opt ''i64'') ''c'' ''count'',
      field_in ''icmp6_out_msgs'' (Opt ''i64'') ''c'' ''count'', field_in ''icmp6_out_errors''
      (Opt ''i64'') ''c'' ''count'', field_in ''udp6_in_datagrams'' (Opt ''i64'') ''c''
      ''count'', field_in ''udp6_out_datagrams'' (Opt ''i64'') ''c'' ''count'', field_in
      ''udp6_in_errors'' (Opt ''i64'') ''c'' ''count'', field_in ''udp6_no_ports'' (Opt ''i64'')
      ''c'' ''count'', field_in ''udp6_rcvbuf_errors'' (Opt ''i64'') ''c'' ''count'', field_in
      ''udp6_sndbuf_errors'' (Opt ''i64'') ''c'' ''count'', field ''scope'' (Ty ''u8'') ''l'']"

lemma declares_OsSnmp6: "declares struct_OsSnmp6 1118001 ''os_snmp6''"
  unfolding struct_OsSnmp6_def by (rule declaresI) (simp_all add: declare_simps)

definition struct_OsSoftirq :: rust_struct where
  "struct_OsSoftirq = section_struct ''OsSoftirq''
     [Meta_id 1115001, Meta_name ''os_softirq'', Meta_semantics ''snapshot_full'', Meta_sort_key
      [''vector'', ''ts''], Meta_identity [''vector'']]
     [field ''ts'' (Ty ''Ts'') ''t'', field ''vector'' (Ty ''StrId'') ''l'', field_in ''count''
      (Ty ''i64'') ''c'' ''count'', field ''scope'' (Ty ''u8'') ''l'']"

lemma declares_OsSoftirq: "declares struct_OsSoftirq 1115001 ''os_softirq''"
  unfolding struct_OsSoftirq_def by (rule declaresI) (simp_all add: declare_simps)

definition struct_OsStat :: rust_struct where
  "struct_OsStat = section_struct ''OsStat''
     [Meta_id 1103001, Meta_name ''os_stat'', Meta_semantics ''snapshot_full'', Meta_sort_key
      [''ts'']]
     [field ''ts'' (Ty ''Ts'') ''t'', field_in ''ctxt'' (Ty ''i64'') ''c'' ''count'', field_in
      ''processes'' (Ty ''i64'') ''c'' ''count'', field_in ''procs_running'' (Ty ''i64'') ''g''
      ''count'', field_in ''procs_blocked'' (Ty ''i64'') ''g'' ''count'', field_in ''btime'' (Ty
      ''Ts'') ''g'' ''microseconds'', field_in ''intr_total'' (Opt ''i64'') ''c'' ''count'',
      field_in ''softirq_total'' (Opt ''i64'') ''c'' ''count'', field_in ''uptime_us'' (Opt
      ''i64'') ''g'' ''microseconds'', field_in ''idle_us'' (Opt ''i64'') ''g''
      ''microseconds'', field ''scope'' (Ty ''u8'') ''l'']"

lemma declares_OsStat: "declares struct_OsStat 1103001 ''os_stat''"
  unfolding struct_OsStat_def by (rule declaresI) (simp_all add: declare_simps)

definition struct_OsTopology :: rust_struct where
  "struct_OsTopology = section_struct ''OsTopology''
     [Meta_id 1113001, Meta_name ''os_topology'', Meta_semantics ''on_change'', Meta_sort_key
      [''cpu_id'', ''ts''], Meta_identity [''cpu_id'']]
     [field ''ts'' (Ty ''Ts'') ''t'', field ''cpu_id'' (Ty ''i32'') ''l'', field ''model_name''
      (Ty ''StrId'') ''l'', field ''mhz_max'' (Opt ''f64'') ''l'', field ''core_id'' (Ty
      ''i32'') ''l'', field ''socket_id'' (Ty ''i32'') ''l'', field ''numa_node'' (Ty ''i32'')
      ''l'', field ''scope'' (Ty ''u8'') ''l'']"

lemma declares_OsTopology: "declares struct_OsTopology 1113001 ''os_topology''"
  unfolding struct_OsTopology_def by (rule declaresI) (simp_all add: declare_simps)

definition struct_OsUser :: rust_struct where
  "struct_OsUser = section_struct ''OsUser''
     [Meta_id 1124002, Meta_name ''os_user'', Meta_semantics ''on_change'', Meta_sort_key
      [''scope'', ''uid'', ''ts''], Meta_identity [''scope'', ''uid'']]
     [field ''ts'' (Ty ''Ts'') ''t'', field ''uid'' (Ty ''u32'') ''l'', field ''username'' (Ty
      ''StrId'') ''l'', field ''scope'' (Ty ''u8'') ''l'']"

lemma declares_OsUser: "declares struct_OsUser 1124002 ''os_user''"
  unfolding struct_OsUser_def by (rule declaresI) (simp_all add: declare_simps)

definition struct_OsVmstat :: rust_struct where
  "struct_OsVmstat = section_struct ''OsVmstat''
     [Meta_id 1106001, Meta_name ''os_vmstat'', Meta_semantics ''snapshot_full'', Meta_sort_key
      [''ts'']]
     [field ''ts'' (Ty ''Ts'') ''t'', field_in ''pgpgin'' (Opt ''i64'') ''c'' ''pages'',
      field_in ''pgpgout'' (Opt ''i64'') ''c'' ''pages'', field_in ''pswpin'' (Opt ''i64'')
      ''c'' ''pages'', field_in ''pswpout'' (Opt ''i64'') ''c'' ''pages'', field_in ''pgfault''
      (Opt ''i64'') ''c'' ''pages'', field_in ''pgmajfault'' (Opt ''i64'') ''c'' ''pages'',
      field_in ''pgsteal_kswapd'' (Opt ''i64'') ''c'' ''pages'', field_in ''pgsteal_direct''
      (Opt ''i64'') ''c'' ''pages'', field_in ''pgscan_kswapd'' (Opt ''i64'') ''c'' ''pages'',
      field_in ''pgscan_direct'' (Opt ''i64'') ''c'' ''pages'', field_in ''oom_kill'' (Opt
      ''i64'') ''c'' ''count'', field_in ''pgalloc_normal'' (Opt ''i64'') ''c'' ''pages'',
      field_in ''pgrefill'' (Opt ''i64'') ''c'' ''pages'', field_in ''pgactivate'' (Opt ''i64'')
      ''c'' ''pages'', field_in ''pgdeactivate'' (Opt ''i64'') ''c'' ''pages'', field_in
      ''pgscan_khugepaged'' (Opt ''i64'') ''c'' ''count'', field_in ''pgsteal_khugepaged'' (Opt
      ''i64'') ''c'' ''count'', field_in ''allocstall'' (Opt ''i64'') ''c'' ''count'', field_in
      ''compact_stall'' (Opt ''i64'') ''c'' ''count'', field_in ''numa_pages_migrated'' (Opt
      ''i64'') ''c'' ''pages'', field_in ''pgmigrate_success'' (Opt ''i64'') ''c'' ''pages'',
      field_in ''pgmigrate_fail'' (Opt ''i64'') ''c'' ''pages'', field_in ''thp_fault_alloc''
      (Opt ''i64'') ''c'' ''count'', field_in ''thp_collapse_alloc'' (Opt ''i64'') ''c''
      ''count'', field_in ''workingset_refault_file'' (Opt ''i64'') ''c'' ''pages'', field_in
      ''workingset_refault_anon'' (Opt ''i64'') ''c'' ''pages'', field_in
      ''workingset_restore_file'' (Opt ''i64'') ''c'' ''pages'', field_in
      ''workingset_nodereclaim'' (Opt ''i64'') ''c'' ''count'', field_in ''swap_ra'' (Opt
      ''i64'') ''c'' ''pages'', field_in ''swap_ra_hit'' (Opt ''i64'') ''c'' ''pages'', field
      ''scope'' (Ty ''u8'') ''l'']"

lemma declares_OsVmstat: "declares struct_OsVmstat 1106001 ''os_vmstat''"
  unfolding struct_OsVmstat_def by (rule declaresI) (simp_all add: declare_simps)

end
