(* ===== verification/Registry_Cgroup.thy ===== *)
theory Registry_Cgroup
  imports Registry_Derive
begin

text \<open>
  The row structs of the cgroup sections (\<open>os_cgroup_*.rs\<close>) under
  \<open>crates/kronika-registry/src/codec\<close>, as they are written: the section attributes
  in order and every field with its column attribute. Each is accepted by the macro, and its
  contract passes the checks.
\<close>

definition struct_OsCgroupContext :: rust_struct where
  "struct_OsCgroupContext = section_struct ''OsCgroupContext''
     [Meta_id 1205001, Meta_name ''os_cgroup_context'', Meta_semantics ''snapshot_full'',
      Meta_sort_key [''ts'']]
     [field ''ts'' (Ty ''Ts'') ''t'', field ''cgroup_version'' (Ty ''u8'') ''l'', field
      ''cpu_path'' (Opt ''StrId'') ''l'', field ''memory_path'' (Opt ''StrId'') ''l'', field
      ''io_path'' (Opt ''StrId'') ''l'', field_in ''cpuset_cpus'' (Opt ''i64'') ''g'' ''count'',
      field_in ''effective_cpu_quota_usec'' (Opt ''i64'') ''g'' ''microseconds'', field_in
      ''effective_cpu_period_usec'' (Opt ''i64'') ''g'' ''microseconds'', field_in
      ''effective_memory_max'' (Opt ''i64'') ''g'' ''bytes'', field ''scope'' (Ty ''u8'')
      ''l'']"

lemma declares_OsCgroupContext: "declares struct_OsCgroupContext 1205001 ''os_cgroup_context''"
  unfolding struct_OsCgroupContext_def by (rule declaresI) (simp_all add: declare_simps)

definition struct_OsCgroupContextV2 :: rust_struct where
  "struct_OsCgroupContextV2 = section_struct ''OsCgroupContextV2''
     [Meta_id 1205002, Meta_name ''os_cgroup_context'', Meta_semantics ''snapshot_full'',
      Meta_sort_key [''ts'']]
     [field ''ts'' (Ty ''Ts'') ''t'', field ''cgroup_version'' (Ty ''u8'') ''l'', field
      ''cpu_path'' (Opt ''StrId'') ''l'', field ''memory_path'' (Opt ''StrId'') ''l'', field
      ''io_path'' (Opt ''StrId'') ''l'', field_in ''cpuset_cpus'' (Opt ''i64'') ''g'' ''count'',
      field_in ''effective_cpu_quota_usec'' (Opt ''i64'') ''g'' ''microseconds'', field_in
      ''effective_cpu_period_usec'' (Opt ''i64'') ''g'' ''microseconds'', field_in
      ''effective_memory_max'' (Opt ''i64'') ''g'' ''bytes'', field ''pids_path'' (Opt
      ''StrId'') ''l'', field ''cpu_identity'' (Opt ''StrId'') ''l'', field ''memory_identity''
      (Opt ''StrId'') ''l'', field ''io_identity'' (Opt ''StrId'') ''l'', field
      ''pids_identity'' (Opt ''StrId'') ''l'', field ''cpu_root'' (Opt ''StrId'') ''l'', field
      ''memory_root'' (Opt ''StrId'') ''l'', field ''io_root'' (Opt ''StrId'') ''l'', field
      ''pids_root'' (Opt ''StrId'') ''l'', field ''scope'' (Ty ''u8'') ''l'']"

lemma declares_OsCgroupContextV2: "declares struct_OsCgroupContextV2 1205002 ''os_cgroup_context''"
  unfolding struct_OsCgroupContextV2_def by (rule declaresI) (simp_all add: declare_simps)

definition struct_OsCgroupCpu :: rust_struct where
  "struct_OsCgroupCpu = section_struct ''OsCgroupCpu''
     [Meta_id 1201001, Meta_name ''os_cgroup_cpu'', Meta_semantics ''snapshot_full'',
      Meta_sort_key [''cgroup_path'', ''ts''], Meta_identity [''cgroup_path'']]
     [field ''ts'' (Ty ''Ts'') ''t'', field ''cgroup_path'' (Ty ''StrId'') ''l'', field_in
      ''usage_usec'' (Ty ''i64'') ''c'' ''microseconds'', field_in ''user_usec'' (Ty ''i64'')
      ''c'' ''microseconds'', field_in ''system_usec'' (Ty ''i64'') ''c'' ''microseconds'',
      field_in ''throttled_usec'' (Ty ''i64'') ''c'' ''microseconds'', field_in ''nr_throttled''
      (Ty ''i64'') ''c'' ''count'', field_in ''quota_usec'' (Ty ''i64'') ''g'' ''microseconds'',
      field_in ''period_usec'' (Ty ''i64'') ''g'' ''microseconds'', field ''scope'' (Ty ''u8'')
      ''l'']"

lemma declares_OsCgroupCpu: "declares struct_OsCgroupCpu 1201001 ''os_cgroup_cpu''"
  unfolding struct_OsCgroupCpu_def by (rule declaresI) (simp_all add: declare_simps)

definition struct_OsCgroupCpuV3 :: rust_struct where
  "struct_OsCgroupCpuV3 = section_struct ''OsCgroupCpuV3''
     [Meta_id 1201003, Meta_name ''os_cgroup_cpu'', Meta_semantics ''snapshot_full'',
      Meta_sort_key [''cgroup_path'', ''cgroup_identity'', ''ts''], Meta_identity
      [''cgroup_path'', ''cgroup_identity'']]
     [field ''ts'' (Ty ''Ts'') ''t'', field ''cgroup_path'' (Ty ''StrId'') ''l'', field
      ''cgroup_identity'' (Ty ''StrId'') ''l'', field_in ''usage_usec'' (Ty ''i64'') ''c''
      ''microseconds'', field_in ''user_usec'' (Ty ''i64'') ''c'' ''microseconds'', field_in
      ''system_usec'' (Ty ''i64'') ''c'' ''microseconds'', field_in ''throttled_usec'' (Opt
      ''i64'') ''c'' ''microseconds'', field_in ''nr_throttled'' (Opt ''i64'') ''c'' ''count'',
      field_in ''quota_usec'' (Opt ''i64'') ''g'' ''microseconds'', field_in ''period_usec''
      (Opt ''i64'') ''g'' ''microseconds'', field ''scope'' (Ty ''u8'') ''l'']"

lemma declares_OsCgroupCpuV3: "declares struct_OsCgroupCpuV3 1201003 ''os_cgroup_cpu''"
  unfolding struct_OsCgroupCpuV3_def by (rule declaresI) (simp_all add: declare_simps)

definition struct_OsCgroupCpuV2 :: rust_struct where
  "struct_OsCgroupCpuV2 = section_struct ''OsCgroupCpuV2''
     [Meta_id 1201002, Meta_name ''os_cgroup_cpu'', Meta_semantics ''snapshot_full'',
      Meta_sort_key [''cgroup_path'', ''ts''], Meta_identity [''cgroup_path'']]
     [field ''ts'' (Ty ''Ts'') ''t'', field ''cgroup_path'' (Ty ''StrId'') ''l'', field_in
      ''usage_usec'' (Ty ''i64'') ''c'' ''microseconds'', field_in ''user_usec'' (Ty ''i64'')
      ''c'' ''microseconds'', field_in ''system_usec'' (Ty ''i64'') ''c'' ''microseconds'',
      field_in ''throttled_usec'' (Ty ''i64'') ''c'' ''microseconds'', field_in ''nr_throttled''
      (Ty ''i64'') ''c'' ''count'', field_in ''quota_usec'' (Ty ''i64'') ''g'' ''microseconds'',
      field_in ''period_usec'' (Ty ''i64'') ''g'' ''microseconds'', field_in ''cpuset_cpus''
      (Opt ''i64'') ''g'' ''count'', field ''scope'' (Ty ''u8'') ''l'']"

lemma declares_OsCgroupCpuV2: "declares struct_OsCgroupCpuV2 1201002 ''os_cgroup_cpu''"
  unfolding struct_OsCgroupCpuV2_def by (rule declaresI) (simp_all add: declare_simps)

definition struct_OsCgroupIo :: rust_struct where
  "struct_OsCgroupIo = section_struct ''OsCgroupIo''
     [Meta_id 1203002, Meta_name ''os_cgroup_io'', Meta_semantics ''snapshot_full'',
      Meta_sort_key [''cgroup_path'', ''major'', ''minor'', ''ts''], Meta_identity
      [''cgroup_path'', ''major'', ''minor'']]
     [field ''ts'' (Ty ''Ts'') ''t'', field ''cgroup_path'' (Ty ''StrId'') ''l'', field
      ''major'' (Ty ''u32'') ''l'', field ''minor'' (Ty ''u32'') ''l'', field_in ''rbytes'' (Opt
      ''i64'') ''c'' ''bytes'', field_in ''wbytes'' (Opt ''i64'') ''c'' ''bytes'', field_in
      ''rios'' (Opt ''i64'') ''c'' ''count'', field_in ''wios'' (Opt ''i64'') ''c'' ''count'',
      field ''scope'' (Ty ''u8'') ''l'']"

lemma declares_OsCgroupIo: "declares struct_OsCgroupIo 1203002 ''os_cgroup_io''"
  unfolding struct_OsCgroupIo_def by (rule declaresI) (simp_all add: declare_simps)

definition struct_OsCgroupIoV2 :: rust_struct where
  "struct_OsCgroupIoV2 = section_struct ''OsCgroupIoV2''
     [Meta_id 1203003, Meta_name ''os_cgroup_io'', Meta_semantics ''snapshot_full'',
      Meta_sort_key [''cgroup_path'', ''cgroup_identity'', ''major'', ''minor'', ''ts''],
      Meta_identity [''cgroup_path'', ''cgroup_identity'', ''major'', ''minor'']]
     [field ''ts'' (Ty ''Ts'') ''t'', field ''cgroup_path'' (Ty ''StrId'') ''l'', field
      ''cgroup_identity'' (Ty ''StrId'') ''l'', field ''major'' (Ty ''u32'') ''l'', field
      ''minor'' (Ty ''u32'') ''l'', field_in ''rbytes'' (Opt ''i64'') ''c'' ''bytes'', field_in
      ''wbytes'' (Opt ''i64'') ''c'' ''bytes'', field_in ''rios'' (Opt ''i64'') ''c'' ''count'',
      field_in ''wios'' (Opt ''i64'') ''c'' ''count'', field ''scope'' (Ty ''u8'') ''l'']"

lemma declares_OsCgroupIoV2: "declares struct_OsCgroupIoV2 1203003 ''os_cgroup_io''"
  unfolding struct_OsCgroupIoV2_def by (rule declaresI) (simp_all add: declare_simps)

definition struct_OsCgroupMapping :: rust_struct where
  "struct_OsCgroupMapping = section_struct ''OsCgroupMapping''
     [Meta_id 1200001, Meta_name ''os_cgroup_mapping'', Meta_semantics ''snapshot_full'',
      Meta_sort_key [''pid'', ''ts''], Meta_identity [''pid'']]
     [field ''ts'' (Ty ''Ts'') ''t'', field ''pid'' (Ty ''i32'') ''l'', field ''starttime'' (Ty
      ''Ts'') ''l'', field ''cgroup_path'' (Ty ''StrId'') ''l'', field ''scope'' (Ty ''u8'')
      ''l'']"

lemma declares_OsCgroupMapping: "declares struct_OsCgroupMapping 1200001 ''os_cgroup_mapping''"
  unfolding struct_OsCgroupMapping_def by (rule declaresI) (simp_all add: declare_simps)

definition struct_OsCgroupMemory :: rust_struct where
  "struct_OsCgroupMemory = section_struct ''OsCgroupMemory''
     [Meta_id 1202001, Meta_name ''os_cgroup_memory'', Meta_semantics ''snapshot_full'',
      Meta_sort_key [''cgroup_path'', ''ts''], Meta_identity [''cgroup_path'']]
     [field ''ts'' (Ty ''Ts'') ''t'', field ''cgroup_path'' (Ty ''StrId'') ''l'', field_in
      ''current'' (Ty ''i64'') ''g'' ''bytes'', field_in ''max'' (Opt ''i64'') ''g'' ''bytes'',
      field_in ''anon'' (Ty ''i64'') ''g'' ''bytes'', field_in ''file'' (Ty ''i64'') ''g''
      ''bytes'', field_in ''kernel'' (Ty ''i64'') ''g'' ''bytes'', field_in ''slab'' (Ty
      ''i64'') ''g'' ''bytes'', field_in ''low_events'' (Ty ''i64'') ''c'' ''count'', field_in
      ''high_events'' (Ty ''i64'') ''c'' ''count'', field_in ''max_events'' (Ty ''i64'') ''c''
      ''count'', field_in ''oom_events'' (Ty ''i64'') ''c'' ''count'', field_in ''oom_kill'' (Ty
      ''i64'') ''c'' ''count'', field ''scope'' (Ty ''u8'') ''l'']"

lemma declares_OsCgroupMemory: "declares struct_OsCgroupMemory 1202001 ''os_cgroup_memory''"
  unfolding struct_OsCgroupMemory_def by (rule declaresI) (simp_all add: declare_simps)

definition struct_OsCgroupMemoryV3 :: rust_struct where
  "struct_OsCgroupMemoryV3 = section_struct ''OsCgroupMemoryV3''
     [Meta_id 1202003, Meta_name ''os_cgroup_memory'', Meta_semantics ''snapshot_full'',
      Meta_sort_key [''cgroup_path'', ''cgroup_identity'', ''ts''], Meta_identity
      [''cgroup_path'', ''cgroup_identity'']]
     [field ''ts'' (Ty ''Ts'') ''t'', field ''cgroup_path'' (Ty ''StrId'') ''l'', field
      ''cgroup_identity'' (Ty ''StrId'') ''l'', field_in ''current'' (Ty ''i64'') ''g''
      ''bytes'', field_in ''max'' (Opt ''i64'') ''g'' ''bytes'', field_in ''anon'' (Opt ''i64'')
      ''g'' ''bytes'', field_in ''file'' (Opt ''i64'') ''g'' ''bytes'', field_in ''kernel'' (Opt
      ''i64'') ''g'' ''bytes'', field_in ''slab'' (Opt ''i64'') ''g'' ''bytes'', field_in
      ''low_events'' (Opt ''i64'') ''c'' ''count'', field_in ''high_events'' (Opt ''i64'') ''c''
      ''count'', field_in ''max_events'' (Opt ''i64'') ''c'' ''count'', field_in ''oom_events''
      (Opt ''i64'') ''c'' ''count'', field_in ''oom_kill'' (Opt ''i64'') ''c'' ''count'', field
      ''max_unlimited'' (Opt ''bool'') ''l'', field ''scope'' (Ty ''u8'') ''l'']"

lemma declares_OsCgroupMemoryV3: "declares struct_OsCgroupMemoryV3 1202003 ''os_cgroup_memory''"
  unfolding struct_OsCgroupMemoryV3_def by (rule declaresI) (simp_all add: declare_simps)

definition struct_OsCgroupMemoryV2 :: rust_struct where
  "struct_OsCgroupMemoryV2 = section_struct ''OsCgroupMemoryV2''
     [Meta_id 1202002, Meta_name ''os_cgroup_memory'', Meta_semantics ''snapshot_full'',
      Meta_sort_key [''cgroup_path'', ''ts''], Meta_identity [''cgroup_path'']]
     [field ''ts'' (Ty ''Ts'') ''t'', field ''cgroup_path'' (Ty ''StrId'') ''l'', field_in
      ''current'' (Ty ''i64'') ''g'' ''bytes'', field_in ''max'' (Opt ''i64'') ''g'' ''bytes'',
      field_in ''anon'' (Ty ''i64'') ''g'' ''bytes'', field_in ''file'' (Ty ''i64'') ''g''
      ''bytes'', field_in ''kernel'' (Ty ''i64'') ''g'' ''bytes'', field_in ''slab'' (Ty
      ''i64'') ''g'' ''bytes'', field_in ''shmem'' (Ty ''i64'') ''g'' ''bytes'', field_in
      ''low_events'' (Ty ''i64'') ''c'' ''count'', field_in ''high_events'' (Ty ''i64'') ''c''
      ''count'', field_in ''max_events'' (Ty ''i64'') ''c'' ''count'', field_in ''oom_events''
      (Ty ''i64'') ''c'' ''count'', field_in ''oom_kill'' (Ty ''i64'') ''c'' ''count'', field
      ''scope'' (Ty ''u8'') ''l'']"

lemma declares_OsCgroupMemoryV2: "declares struct_OsCgroupMemoryV2 1202002 ''os_cgroup_memory''"
  unfolding struct_OsCgroupMemoryV2_def by (rule declaresI) (simp_all add: declare_simps)

definition struct_OsCgroupPids :: rust_struct where
  "struct_OsCgroupPids = section_struct ''OsCgroupPids''
     [Meta_id 1204001, Meta_name ''os_cgroup_pids'', Meta_semantics ''snapshot_full'',
      Meta_sort_key [''cgroup_path'', ''ts''], Meta_identity [''cgroup_path'']]
     [field ''ts'' (Ty ''Ts'') ''t'', field ''cgroup_path'' (Ty ''StrId'') ''l'', field_in
      ''current'' (Ty ''i64'') ''g'' ''count'', field_in ''max'' (Opt ''i64'') ''g'' ''count'',
      field ''scope'' (Ty ''u8'') ''l'']"

lemma declares_OsCgroupPids: "declares struct_OsCgroupPids 1204001 ''os_cgroup_pids''"
  unfolding struct_OsCgroupPids_def by (rule declaresI) (simp_all add: declare_simps)

definition struct_OsCgroupV2Cpu :: rust_struct where
  "struct_OsCgroupV2Cpu = section_struct ''OsCgroupV2Cpu''
     [Meta_id 1207001, Meta_name ''os_cgroup_v2_cpu'', Meta_semantics ''snapshot_full'',
      Meta_sort_key [''cgroup_path'', ''cgroup_identity'', ''ts''], Meta_identity
      [''cgroup_path'', ''cgroup_identity'']]
     [field ''ts'' (Ty ''Ts'') ''t'', field ''cgroup_path'' (Ty ''StrId'') ''l'', field
      ''cgroup_identity'' (Ty ''StrId'') ''l'', field_in ''usage_usec'' (Opt ''i64'') ''c''
      ''microseconds'', field_in ''user_usec'' (Opt ''i64'') ''c'' ''microseconds'', field_in
      ''system_usec'' (Opt ''i64'') ''c'' ''microseconds'', field_in ''nr_periods'' (Opt
      ''i64'') ''c'' ''count'', field_in ''nr_throttled'' (Opt ''i64'') ''c'' ''count'',
      field_in ''throttled_usec'' (Opt ''i64'') ''c'' ''microseconds'', field_in ''quota_usec''
      (Opt ''i64'') ''g'' ''microseconds'', field_in ''period_usec'' (Opt ''i64'') ''g''
      ''microseconds'', field_in ''cpuset_cpus'' (Opt ''i64'') ''g'' ''count'']"

lemma declares_OsCgroupV2Cpu: "declares struct_OsCgroupV2Cpu 1207001 ''os_cgroup_v2_cpu''"
  unfolding struct_OsCgroupV2Cpu_def by (rule declaresI) (simp_all add: declare_simps)

definition struct_OsCgroupV2Group :: rust_struct where
  "struct_OsCgroupV2Group = section_struct ''OsCgroupV2Group''
     [Meta_id 1206001, Meta_name ''os_cgroup_v2_group'', Meta_semantics ''snapshot_full'',
      Meta_sort_key [''cgroup_path'', ''cgroup_identity'', ''ts''], Meta_identity
      [''cgroup_path'', ''cgroup_identity'']]
     [field ''ts'' (Ty ''Ts'') ''t'', field ''cgroup_path'' (Ty ''StrId'') ''l'', field
      ''cgroup_identity'' (Ty ''StrId'') ''l'', field ''mount_root'' (Ty ''StrId'') ''l'', field
      ''parent_identity'' (Opt ''StrId'') ''l'', field ''memory_localevents'' (Ty ''bool'')
      ''l'', field ''pids_localevents'' (Ty ''bool'') ''l'']"

lemma declares_OsCgroupV2Group: "declares struct_OsCgroupV2Group 1206001 ''os_cgroup_v2_group''"
  unfolding struct_OsCgroupV2Group_def by (rule declaresI) (simp_all add: declare_simps)

definition struct_OsCgroupV2Io :: rust_struct where
  "struct_OsCgroupV2Io = section_struct ''OsCgroupV2Io''
     [Meta_id 1210001, Meta_name ''os_cgroup_v2_io'', Meta_semantics ''snapshot_full'',
      Meta_sort_key [''cgroup_path'', ''cgroup_identity'', ''major'', ''minor'', ''ts''],
      Meta_identity [''cgroup_path'', ''cgroup_identity'', ''major'', ''minor'']]
     [field ''ts'' (Ty ''Ts'') ''t'', field ''cgroup_path'' (Ty ''StrId'') ''l'', field
      ''cgroup_identity'' (Ty ''StrId'') ''l'', field ''major'' (Ty ''u32'') ''l'', field
      ''minor'' (Ty ''u32'') ''l'', field_in ''rbytes'' (Opt ''i64'') ''c'' ''bytes'', field_in
      ''wbytes'' (Opt ''i64'') ''c'' ''bytes'', field_in ''rios'' (Opt ''i64'') ''c'' ''count'',
      field_in ''wios'' (Opt ''i64'') ''c'' ''count'']"

lemma declares_OsCgroupV2Io: "declares struct_OsCgroupV2Io 1210001 ''os_cgroup_v2_io''"
  unfolding struct_OsCgroupV2Io_def by (rule declaresI) (simp_all add: declare_simps)

definition struct_OsCgroupV2Memory :: rust_struct where
  "struct_OsCgroupV2Memory = section_struct ''OsCgroupV2Memory''
     [Meta_id 1208001, Meta_name ''os_cgroup_v2_memory'', Meta_semantics ''snapshot_full'',
      Meta_sort_key [''cgroup_path'', ''cgroup_identity'', ''ts''], Meta_identity
      [''cgroup_path'', ''cgroup_identity'']]
     [field ''ts'' (Ty ''Ts'') ''t'', field ''cgroup_path'' (Ty ''StrId'') ''l'', field
      ''cgroup_identity'' (Ty ''StrId'') ''l'', field_in ''current'' (Opt ''i64'') ''g''
      ''bytes'', field_in ''max'' (Opt ''i64'') ''g'' ''bytes'', field ''max_unlimited'' (Opt
      ''bool'') ''l'', field_in ''high'' (Opt ''i64'') ''g'' ''bytes'', field ''high_unlimited''
      (Opt ''bool'') ''l'', field_in ''anon'' (Opt ''i64'') ''g'' ''bytes'', field_in ''file''
      (Opt ''i64'') ''g'' ''bytes'', field_in ''kernel'' (Opt ''i64'') ''g'' ''bytes'', field_in
      ''slab'' (Opt ''i64'') ''g'' ''bytes'', field_in ''low_events'' (Opt ''i64'') ''c''
      ''count'', field_in ''high_events'' (Opt ''i64'') ''c'' ''count'', field_in ''max_events''
      (Opt ''i64'') ''c'' ''count'', field_in ''oom_events'' (Opt ''i64'') ''c'' ''count'',
      field_in ''oom_kill'' (Opt ''i64'') ''c'' ''count'', field_in ''local_high_events'' (Opt
      ''i64'') ''c'' ''count'', field_in ''local_max_events'' (Opt ''i64'') ''c'' ''count'',
      field_in ''local_oom_events'' (Opt ''i64'') ''c'' ''count'', field_in ''local_oom_kill''
      (Opt ''i64'') ''c'' ''count'', field_in ''local_oom_group_kill'' (Opt ''i64'') ''c''
      ''count'']"

lemma declares_OsCgroupV2Memory: "declares struct_OsCgroupV2Memory 1208001 ''os_cgroup_v2_memory''"
  unfolding struct_OsCgroupV2Memory_def by (rule declaresI) (simp_all add: declare_simps)

definition struct_OsCgroupV2Pids :: rust_struct where
  "struct_OsCgroupV2Pids = section_struct ''OsCgroupV2Pids''
     [Meta_id 1209001, Meta_name ''os_cgroup_v2_pids'', Meta_semantics ''snapshot_full'',
      Meta_sort_key [''cgroup_path'', ''cgroup_identity'', ''events_source'', ''ts''],
      Meta_identity [''cgroup_path'', ''cgroup_identity'', ''events_source'']]
     [field ''ts'' (Ty ''Ts'') ''t'', field ''cgroup_path'' (Ty ''StrId'') ''l'', field
      ''cgroup_identity'' (Ty ''StrId'') ''l'', field_in ''current'' (Opt ''i64'') ''g''
      ''count'', field_in ''max'' (Opt ''i64'') ''g'' ''count'', field ''max_unlimited'' (Opt
      ''bool'') ''l'', field_in ''failure_max'' (Opt ''i64'') ''c'' ''count'', field
      ''events_source'' (Ty ''u8'') ''l'']"

lemma declares_OsCgroupV2Pids: "declares struct_OsCgroupV2Pids 1209001 ''os_cgroup_v2_pids''"
  unfolding struct_OsCgroupV2Pids_def by (rule declaresI) (simp_all add: declare_simps)

end
