(* ===== verification/Registry_Pg_Activity.thy ===== *)
theory Registry_Pg_Activity
  imports Registry_Derive
begin

text \<open>
  The row structs of sessions, locks, settings and log sections of PostgreSQL and PgBouncer
  (\<open>pg_stat_activity.rs\<close>, \<open>pg_locks.rs\<close>,
  \<open>pg_settings.rs\<close>, \<open>pg_prepared_xacts.rs\<close>,
  \<open>pg_stat_progress_vacuum.rs\<close>, \<open>pg_log.rs\<close>,
  \<open>pgbouncer_events.rs\<close>) under \<open>crates/kronika-registry/src/codec\<close>, as
  they are written: the section attributes in order and every field with its column attribute.
  Each is accepted by the macro, and its contract passes the checks.
\<close>

definition struct_PgLocksV2 :: rust_struct where
  "struct_PgLocksV2 = section_struct ''PgLocksV2''
     [Meta_id 1011002, Meta_name ''pg_locks'', Meta_semantics ''conditional_full'',
      Meta_sort_key [''pid''], Meta_identity [''pid'']]
     [field ''ts'' (Ty ''Ts'') ''t'', field ''pid'' (Ty ''i32'') ''l'', field ''blocked_by''
      (Vec ''i32'') ''l'', field ''datid'' (Ty ''u32'') ''l'', field ''datname'' (Ty ''StrId'')
      ''l'', field ''usename'' (Opt ''StrId'') ''l'', field ''application_name'' (Ty ''StrId'')
      ''l'', field ''client_addr'' (Ty ''StrId'') ''l'', field ''backend_type'' (Ty ''StrId'')
      ''l'', field ''state'' (Opt ''StrId'') ''l'', field ''wait_event_type'' (Opt ''StrId'')
      ''l'', field ''wait_event'' (Opt ''StrId'') ''l'', field ''query'' (Ty ''StrId'') ''l'',
      field_in ''backend_xid_age'' (Opt ''i64'') ''g'' ''count'', field_in ''backend_xmin_age''
      (Opt ''i64'') ''g'' ''count'', field_in ''backend_start'' (Opt ''Ts'') ''g''
      ''microseconds'', field_in ''xact_start'' (Opt ''Ts'') ''g'' ''microseconds'', field_in
      ''query_start'' (Opt ''Ts'') ''g'' ''microseconds'', field_in ''state_change'' (Opt
      ''Ts'') ''g'' ''microseconds'', field ''lock_locktype'' (Opt ''StrId'') ''l'', field
      ''lock_mode'' (Opt ''StrId'') ''l'', field ''lock_database'' (Opt ''u32'') ''l'', field
      ''lock_relation'' (Opt ''u32'') ''l'', field ''lock_relname'' (Opt ''StrId'') ''l'',
      field_in ''lock_page'' (Opt ''i32'') ''g'' ''count'', field_in ''lock_tuple'' (Opt
      ''i16'') ''g'' ''count'', field ''lock_virtualxid'' (Opt ''StrId'') ''l'', field
      ''lock_transactionid'' (Opt ''i64'') ''l'', field ''lock_classid'' (Opt ''u32'') ''l'',
      field ''lock_objid'' (Opt ''u32'') ''l'', field ''lock_objsubid'' (Opt ''i16'') ''l'',
      field ''lock_target'' (Opt ''StrId'') ''l'', field_in ''waitstart'' (Opt ''Ts'') ''g''
      ''microseconds'']"

lemma declares_PgLocksV2: "declares struct_PgLocksV2 1011002 ''pg_locks''"
  unfolding struct_PgLocksV2_def by (rule declaresI) (simp_all add: declare_simps)

definition struct_PgLocksV1 :: rust_struct where
  "struct_PgLocksV1 = section_struct ''PgLocksV1''
     [Meta_id 1011001, Meta_name ''pg_locks'', Meta_semantics ''conditional_full'',
      Meta_sort_key [''pid''], Meta_identity [''pid'']]
     [field ''ts'' (Ty ''Ts'') ''t'', field ''pid'' (Ty ''i32'') ''l'', field ''blocked_by''
      (Vec ''i32'') ''l'', field ''datid'' (Ty ''u32'') ''l'', field ''datname'' (Ty ''StrId'')
      ''l'', field ''usename'' (Opt ''StrId'') ''l'', field ''application_name'' (Ty ''StrId'')
      ''l'', field ''client_addr'' (Ty ''StrId'') ''l'', field ''backend_type'' (Ty ''StrId'')
      ''l'', field ''state'' (Opt ''StrId'') ''l'', field ''wait_event_type'' (Opt ''StrId'')
      ''l'', field ''wait_event'' (Opt ''StrId'') ''l'', field ''query'' (Ty ''StrId'') ''l'',
      field_in ''backend_xid_age'' (Opt ''i64'') ''g'' ''count'', field_in ''backend_xmin_age''
      (Opt ''i64'') ''g'' ''count'', field_in ''backend_start'' (Opt ''Ts'') ''g''
      ''microseconds'', field_in ''xact_start'' (Opt ''Ts'') ''g'' ''microseconds'', field_in
      ''query_start'' (Opt ''Ts'') ''g'' ''microseconds'', field_in ''state_change'' (Opt
      ''Ts'') ''g'' ''microseconds'', field ''lock_locktype'' (Opt ''StrId'') ''l'', field
      ''lock_mode'' (Opt ''StrId'') ''l'', field ''lock_database'' (Opt ''u32'') ''l'', field
      ''lock_relation'' (Opt ''u32'') ''l'', field ''lock_relname'' (Opt ''StrId'') ''l'',
      field_in ''lock_page'' (Opt ''i32'') ''g'' ''count'', field_in ''lock_tuple'' (Opt
      ''i16'') ''g'' ''count'', field ''lock_virtualxid'' (Opt ''StrId'') ''l'', field
      ''lock_transactionid'' (Opt ''i64'') ''l'', field ''lock_classid'' (Opt ''u32'') ''l'',
      field ''lock_objid'' (Opt ''u32'') ''l'', field ''lock_objsubid'' (Opt ''i16'') ''l'',
      field ''lock_target'' (Opt ''StrId'') ''l'']"

lemma declares_PgLocksV1: "declares struct_PgLocksV1 1011001 ''pg_locks''"
  unfolding struct_PgLocksV1_def by (rule declaresI) (simp_all add: declare_simps)

definition struct_PgLogErrors :: rust_struct where
  "struct_PgLogErrors = section_struct ''PgLogErrors''
     [Meta_id 2001001, Meta_name ''pg_log_errors'', Meta_semantics ''event_stream'',
      Meta_sort_key [''severity'', ''category'', ''pattern'', ''ts'']]
     [field ''ts'' (Ty ''Ts'') ''t'', field ''system_identifier'' (Opt ''u64'') ''l'', field
      ''source_file'' (Ty ''StrId'') ''l'', field ''severity'' (Ty ''u8'') ''l'', field
      ''category'' (Ty ''u8'') ''l'', field ''sqlstate'' (Opt ''StrId'') ''l'', field
      ''pattern'' (Ty ''StrId'') ''l'', field_in ''count'' (Ty ''u32'') ''g'' ''count'', field
      ''sample'' (Ty ''StrId'') ''l'', field ''detail'' (Opt ''StrId'') ''l'', field ''hint''
      (Opt ''StrId'') ''l'', field ''context'' (Opt ''StrId'') ''l'', field ''statement'' (Opt
      ''StrId'') ''l'', field ''database'' (Opt ''StrId'') ''l'', field ''username'' (Opt
      ''StrId'') ''l'']"

lemma declares_PgLogErrors: "declares struct_PgLogErrors 2001001 ''pg_log_errors''"
  unfolding struct_PgLogErrors_def by (rule declaresI) (simp_all add: declare_simps)

definition struct_PgLogCheckpoints :: rust_struct where
  "struct_PgLogCheckpoints = section_struct ''PgLogCheckpoints''
     [Meta_id 2002001, Meta_name ''pg_log_checkpoints'', Meta_semantics ''event_stream'',
      Meta_sort_key [''ts'', ''phase'']]
     [field ''ts'' (Ty ''Ts'') ''t'', field ''system_identifier'' (Opt ''u64'') ''l'', field
      ''source_file'' (Ty ''StrId'') ''l'', field ''phase'' (Ty ''u8'') ''l'', field ''reason''
      (Opt ''StrId'') ''l'', field_in ''seconds_apart'' (Opt ''i64'') ''g'' ''seconds'',
      field_in ''buffers_written'' (Opt ''i64'') ''g'' ''count'', field_in ''write_ms'' (Opt
      ''f64'') ''g'' ''milliseconds'', field_in ''sync_ms'' (Opt ''f64'') ''g''
      ''milliseconds'', field_in ''total_ms'' (Opt ''f64'') ''g'' ''milliseconds'', field_in
      ''distance_kb'' (Opt ''i64'') ''g'' ''kib'', field_in ''estimate_kb'' (Opt ''i64'') ''g''
      ''kib'', field_in ''wal_added'' (Opt ''i64'') ''g'' ''count'', field_in ''wal_removed''
      (Opt ''i64'') ''g'' ''count'', field_in ''wal_recycled'' (Opt ''i64'') ''g'' ''count'',
      field_in ''sync_files'' (Opt ''i64'') ''g'' ''count'', field_in ''longest_sync_ms'' (Opt
      ''f64'') ''g'' ''milliseconds'', field_in ''average_sync_ms'' (Opt ''f64'') ''g''
      ''milliseconds'']"

lemma declares_PgLogCheckpoints: "declares struct_PgLogCheckpoints 2002001 ''pg_log_checkpoints''"
  unfolding struct_PgLogCheckpoints_def by (rule declaresI) (simp_all add: declare_simps)

definition struct_PgLogAutovacuum :: rust_struct where
  "struct_PgLogAutovacuum = section_struct ''PgLogAutovacuum''
     [Meta_id 2003001, Meta_name ''pg_log_autovacuum'', Meta_semantics ''event_stream'',
      Meta_sort_key [''ts'', ''kind'', ''relation'']]
     [field ''ts'' (Ty ''Ts'') ''t'', field ''system_identifier'' (Opt ''u64'') ''l'', field
      ''source_file'' (Ty ''StrId'') ''l'', field ''kind'' (Ty ''u8'') ''l'', field ''relation''
      (Opt ''StrId'') ''l'', field_in ''index_scans'' (Opt ''i64'') ''g'' ''count'', field_in
      ''pages_removed'' (Opt ''i64'') ''g'' ''pages'', field_in ''pages_remaining'' (Opt
      ''i64'') ''g'' ''pages'', field_in ''tuples_removed'' (Opt ''i64'') ''g'' ''count'',
      field_in ''tuples_remaining'' (Opt ''i64'') ''g'' ''count'', field_in
      ''tuples_dead_not_removable'' (Opt ''i64'') ''g'' ''count'', field_in ''elapsed_ms'' (Opt
      ''f64'') ''g'' ''milliseconds'', field_in ''buffer_hits'' (Opt ''i64'') ''g'' ''count'',
      field_in ''buffer_misses'' (Opt ''i64'') ''g'' ''count'', field_in ''buffer_dirtied'' (Opt
      ''i64'') ''g'' ''count'', field_in ''avg_read_rate_mbs'' (Opt ''f64'') ''g''
      ''megabytes_per_second'', field_in ''avg_write_rate_mbs'' (Opt ''f64'') ''g''
      ''megabytes_per_second'', field_in ''cpu_user_ms'' (Opt ''f64'') ''g'' ''milliseconds'',
      field_in ''cpu_system_ms'' (Opt ''f64'') ''g'' ''milliseconds'', field_in ''wal_records''
      (Opt ''i64'') ''g'' ''count'', field_in ''wal_fpi'' (Opt ''i64'') ''g'' ''count'',
      field_in ''wal_bytes'' (Opt ''i64'') ''g'' ''bytes'']"

lemma declares_PgLogAutovacuum: "declares struct_PgLogAutovacuum 2003001 ''pg_log_autovacuum''"
  unfolding struct_PgLogAutovacuum_def by (rule declaresI) (simp_all add: declare_simps)

definition struct_PgLogSlowQueries :: rust_struct where
  "struct_PgLogSlowQueries = section_struct ''PgLogSlowQueries''
     [Meta_id 2004001, Meta_name ''pg_log_slow_queries'', Meta_semantics ''event_stream'',
      Meta_sort_key [''pattern'', ''ts'']]
     [field ''ts'' (Ty ''Ts'') ''t'', field ''system_identifier'' (Opt ''u64'') ''l'', field
      ''source_file'' (Ty ''StrId'') ''l'', field ''pattern'' (Ty ''StrId'') ''l'', field
      ''sample'' (Ty ''StrId'') ''l'', field_in ''count'' (Ty ''u32'') ''g'' ''count'', field_in
      ''max_duration_ms'' (Ty ''f64'') ''g'' ''milliseconds'', field_in ''total_duration_ms''
      (Ty ''f64'') ''g'' ''milliseconds'']"

lemma declares_PgLogSlowQueries: "declares struct_PgLogSlowQueries 2004001 ''pg_log_slow_queries''"
  unfolding struct_PgLogSlowQueries_def by (rule declaresI) (simp_all add: declare_simps)

definition struct_PgLogLockWaits :: rust_struct where
  "struct_PgLogLockWaits = section_struct ''PgLogLockWaits''
     [Meta_id 2005002, Meta_name ''pg_log_lock_waits'', Meta_semantics ''event_stream'',
      Meta_sort_key [''ts'', ''kind'', ''pid'']]
     [field ''ts'' (Ty ''Ts'') ''t'', field ''system_identifier'' (Opt ''u64'') ''l'', field
      ''source_file'' (Ty ''StrId'') ''l'', field ''kind'' (Ty ''u8'') ''l'', field ''pid'' (Opt
      ''i32'') ''l'', field ''lock_mode'' (Opt ''StrId'') ''l'', field ''lock_target'' (Opt
      ''StrId'') ''l'', field_in ''duration_ms'' (Opt ''f64'') ''g'' ''milliseconds'', field
      ''holding_pids'' (Opt ''StrId'') ''l'', field ''wait_queue'' (Opt ''StrId'') ''l'', field
      ''detail'' (Opt ''StrId'') ''l'', field ''context'' (Opt ''StrId'') ''l'', field
      ''statement'' (Opt ''StrId'') ''l'']"

lemma declares_PgLogLockWaits: "declares struct_PgLogLockWaits 2005002 ''pg_log_lock_waits''"
  unfolding struct_PgLogLockWaits_def by (rule declaresI) (simp_all add: declare_simps)

definition struct_PgLogLifecycle :: rust_struct where
  "struct_PgLogLifecycle = section_struct ''PgLogLifecycle''
     [Meta_id 2006001, Meta_name ''pg_log_lifecycle'', Meta_semantics ''event_stream'',
      Meta_sort_key [''ts'', ''kind'']]
     [field ''ts'' (Ty ''Ts'') ''t'', field ''system_identifier'' (Opt ''u64'') ''l'', field
      ''source_file'' (Ty ''StrId'') ''l'', field ''kind'' (Ty ''u8'') ''l'', field ''pid'' (Opt
      ''i32'') ''l'', field ''signal'' (Opt ''i32'') ''l'', field ''shutdown_mode'' (Opt
      ''StrId'') ''l'', field ''message'' (Ty ''StrId'') ''l'', field ''query_detail'' (Opt
      ''StrId'') ''l'']"

lemma declares_PgLogLifecycle: "declares struct_PgLogLifecycle 2006001 ''pg_log_lifecycle''"
  unfolding struct_PgLogLifecycle_def by (rule declaresI) (simp_all add: declare_simps)

definition struct_PgLogTempFiles :: rust_struct where
  "struct_PgLogTempFiles = section_struct ''PgLogTempFiles''
     [Meta_id 2007001, Meta_name ''pg_log_temp_files'', Meta_semantics ''event_stream'',
      Meta_sort_key [''ts'', ''size_bytes'']]
     [field ''ts'' (Ty ''Ts'') ''t'', field ''system_identifier'' (Opt ''u64'') ''l'', field
      ''source_file'' (Ty ''StrId'') ''l'', field ''path'' (Opt ''StrId'') ''l'', field_in
      ''size_bytes'' (Ty ''i64'') ''g'' ''bytes'', field ''statement'' (Opt ''StrId'') ''l'']"

lemma declares_PgLogTempFiles: "declares struct_PgLogTempFiles 2007001 ''pg_log_temp_files''"
  unfolding struct_PgLogTempFiles_def by (rule declaresI) (simp_all add: declare_simps)

definition struct_PgPreparedXacts :: rust_struct where
  "struct_PgPreparedXacts = section_struct ''PgPreparedXacts''
     [Meta_id 1010001, Meta_name ''pg_prepared_xacts'', Meta_semantics ''snapshot_full'',
      Meta_sort_key [''datname'', ''ts''], Meta_identity [''datname'']]
     [field ''ts'' (Ty ''Ts'') ''t'', field ''datname'' (Ty ''StrId'') ''l'', field_in
      ''prepared_count'' (Ty ''i64'') ''g'' ''count'', field_in ''max_age_us'' (Ty ''i64'')
      ''g'' ''microseconds'', field_in ''max_xid_age_tx'' (Ty ''i64'') ''g'' ''count'']"

lemma declares_PgPreparedXacts: "declares struct_PgPreparedXacts 1010001 ''pg_prepared_xacts''"
  unfolding struct_PgPreparedXacts_def by (rule declaresI) (simp_all add: declare_simps)

definition struct_PgSettings :: rust_struct where
  "struct_PgSettings = section_struct ''PgSettings''
     [Meta_id 1019001, Meta_name ''pg_settings'', Meta_semantics ''on_change'', Meta_sort_key
      [''datid'', ''usesysid'', ''name''], Meta_identity [''datid'', ''usesysid'', ''name'']]
     [field ''ts'' (Ty ''Ts'') ''t'', field ''datid'' (Ty ''u32'') ''l'', field ''datname'' (Ty
      ''StrId'') ''l'', field ''usesysid'' (Ty ''u32'') ''l'', field ''usename'' (Ty ''StrId'')
      ''l'', field ''name'' (Ty ''StrId'') ''l'', field ''setting'' (Ty ''StrId'') ''l'', field
      ''unit'' (Opt ''StrId'') ''l'', field ''source'' (Ty ''StrId'') ''l'', field
      ''sourcefile'' (Opt ''StrId'') ''l'', field ''sourceline'' (Opt ''i32'') ''l'', field
      ''pending_restart'' (Ty ''bool'') ''l'', field ''context'' (Ty ''StrId'') ''l'', field
      ''vartype'' (Ty ''StrId'') ''l'', field ''boot_val'' (Opt ''StrId'') ''l'', field
      ''reset_val'' (Opt ''StrId'') ''l'']"

lemma declares_PgSettings: "declares struct_PgSettings 1019001 ''pg_settings''"
  unfolding struct_PgSettings_def by (rule declaresI) (simp_all add: declare_simps)

definition struct_PgStatActivityV3 :: rust_struct where
  "struct_PgStatActivityV3 = section_struct ''PgStatActivityV3''
     [Meta_id 1001004, Meta_name ''pg_stat_activity'', Meta_semantics ''snapshot_full'',
      Meta_sort_key [''pid'', ''ts''], Meta_identity [''pid'']]
     [field ''ts'' (Ty ''Ts'') ''t'', field ''pid'' (Ty ''i32'') ''l'', field ''leader_pid''
      (Opt ''i32'') ''l'', field ''datid'' (Opt ''u32'') ''l'', field ''datname'' (Opt
      ''StrId'') ''l'', field ''usename'' (Opt ''StrId'') ''l'', field ''application_name'' (Ty
      ''StrId'') ''l'', field ''client_addr'' (Ty ''StrId'') ''l'', field ''backend_type'' (Ty
      ''StrId'') ''l'', field ''state'' (Opt ''StrId'') ''l'', field ''wait_event_type'' (Opt
      ''StrId'') ''l'', field ''wait_event'' (Opt ''StrId'') ''l'', field ''query'' (Opt
      ''StrId'') ''l'', field ''query_id'' (Opt ''i64'') ''l'', field_in ''backend_xid_age''
      (Opt ''i64'') ''g'' ''count'', field_in ''backend_xmin_age'' (Opt ''i64'') ''g''
      ''count'', field_in ''backend_start'' (Ty ''Ts'') ''g'' ''microseconds'', field_in
      ''xact_start'' (Opt ''Ts'') ''g'' ''microseconds'', field_in ''query_start'' (Opt ''Ts'')
      ''g'' ''microseconds'', field_in ''state_change'' (Opt ''Ts'') ''g'' ''microseconds'']"

lemma declares_PgStatActivityV3: "declares struct_PgStatActivityV3 1001004 ''pg_stat_activity''"
  unfolding struct_PgStatActivityV3_def by (rule declaresI) (simp_all add: declare_simps)

definition struct_PgStatActivityV2 :: rust_struct where
  "struct_PgStatActivityV2 = section_struct ''PgStatActivityV2''
     [Meta_id 1001002, Meta_name ''pg_stat_activity'', Meta_semantics ''snapshot_full'',
      Meta_sort_key [''pid'', ''ts''], Meta_identity [''pid'']]
     [field ''ts'' (Ty ''Ts'') ''t'', field ''pid'' (Ty ''i32'') ''l'', field ''leader_pid''
      (Opt ''i32'') ''l'', field ''datname'' (Opt ''StrId'') ''l'', field ''usename'' (Opt
      ''StrId'') ''l'', field ''application_name'' (Ty ''StrId'') ''l'', field ''client_addr''
      (Ty ''StrId'') ''l'', field ''backend_type'' (Ty ''StrId'') ''l'', field ''state'' (Opt
      ''StrId'') ''l'', field ''wait_event_type'' (Opt ''StrId'') ''l'', field ''wait_event''
      (Opt ''StrId'') ''l'', field ''query'' (Opt ''StrId'') ''l'', field_in ''backend_xid_age''
      (Opt ''i64'') ''g'' ''count'', field_in ''backend_xmin_age'' (Opt ''i64'') ''g''
      ''count'', field_in ''backend_start'' (Ty ''Ts'') ''g'' ''microseconds'', field_in
      ''xact_start'' (Opt ''Ts'') ''g'' ''microseconds'', field_in ''query_start'' (Opt ''Ts'')
      ''g'' ''microseconds'', field_in ''state_change'' (Opt ''Ts'') ''g'' ''microseconds'']"

lemma declares_PgStatActivityV2: "declares struct_PgStatActivityV2 1001002 ''pg_stat_activity''"
  unfolding struct_PgStatActivityV2_def by (rule declaresI) (simp_all add: declare_simps)

definition struct_PgStatActivityV1 :: rust_struct where
  "struct_PgStatActivityV1 = section_struct ''PgStatActivityV1''
     [Meta_id 1001001, Meta_name ''pg_stat_activity'', Meta_semantics ''snapshot_full'',
      Meta_sort_key [''pid'', ''ts''], Meta_identity [''pid'']]
     [field ''ts'' (Ty ''Ts'') ''t'', field ''pid'' (Ty ''i32'') ''l'', field ''datname'' (Opt
      ''StrId'') ''l'', field ''usename'' (Opt ''StrId'') ''l'', field ''application_name'' (Ty
      ''StrId'') ''l'', field ''client_addr'' (Ty ''StrId'') ''l'', field ''backend_type'' (Ty
      ''StrId'') ''l'', field ''state'' (Opt ''StrId'') ''l'', field ''wait_event_type'' (Opt
      ''StrId'') ''l'', field ''wait_event'' (Opt ''StrId'') ''l'', field ''query'' (Opt
      ''StrId'') ''l'', field_in ''backend_xid_age'' (Opt ''i64'') ''g'' ''count'', field_in
      ''backend_xmin_age'' (Opt ''i64'') ''g'' ''count'', field_in ''backend_start'' (Ty ''Ts'')
      ''g'' ''microseconds'', field_in ''xact_start'' (Opt ''Ts'') ''g'' ''microseconds'',
      field_in ''query_start'' (Opt ''Ts'') ''g'' ''microseconds'', field_in ''state_change''
      (Opt ''Ts'') ''g'' ''microseconds'']"

lemma declares_PgStatActivityV1: "declares struct_PgStatActivityV1 1001001 ''pg_stat_activity''"
  unfolding struct_PgStatActivityV1_def by (rule declaresI) (simp_all add: declare_simps)

definition struct_PgStatProgressVacuumV1 :: rust_struct where
  "struct_PgStatProgressVacuumV1 = section_struct ''PgStatProgressVacuumV1''
     [Meta_id 1012004, Meta_name ''pg_stat_progress_vacuum'', Meta_semantics
      ''conditional_full'', Meta_sort_key [''ts'', ''pid''], Meta_identity [''pid'', ''datid'',
      ''relid'']]
     [field ''ts'' (Ty ''Ts'') ''t'', field ''pid'' (Ty ''i32'') ''l'', field ''datid'' (Ty
      ''u32'') ''l'', field ''datname'' (Ty ''StrId'') ''l'', field ''relid'' (Ty ''u32'')
      ''l'', field ''schemaname'' (Opt ''StrId'') ''l'', field ''relname'' (Opt ''StrId'')
      ''l'', field ''is_autovacuum'' (Ty ''bool'') ''l'', field ''phase'' (Ty ''StrId'') ''l'',
      field_in ''heap_blks_total'' (Ty ''i64'') ''g'' ''count'', field_in ''heap_blks_scanned''
      (Ty ''i64'') ''g'' ''count'', field_in ''heap_blks_vacuumed'' (Ty ''i64'') ''g''
      ''count'', field_in ''index_vacuum_count'' (Ty ''i64'') ''g'' ''count'', field_in
      ''max_dead_tuples'' (Ty ''i64'') ''g'' ''count'', field_in ''num_dead_tuples'' (Ty
      ''i64'') ''g'' ''count'']"

lemma declares_PgStatProgressVacuumV1: "declares struct_PgStatProgressVacuumV1 1012004 ''pg_stat_progress_vacuum''"
  unfolding struct_PgStatProgressVacuumV1_def by (rule declaresI) (simp_all add: declare_simps)

definition struct_PgStatProgressVacuumV2 :: rust_struct where
  "struct_PgStatProgressVacuumV2 = section_struct ''PgStatProgressVacuumV2''
     [Meta_id 1012005, Meta_name ''pg_stat_progress_vacuum'', Meta_semantics
      ''conditional_full'', Meta_sort_key [''ts'', ''pid''], Meta_identity [''pid'', ''datid'',
      ''relid'']]
     [field ''ts'' (Ty ''Ts'') ''t'', field ''pid'' (Ty ''i32'') ''l'', field ''datid'' (Ty
      ''u32'') ''l'', field ''datname'' (Ty ''StrId'') ''l'', field ''relid'' (Ty ''u32'')
      ''l'', field ''schemaname'' (Opt ''StrId'') ''l'', field ''relname'' (Opt ''StrId'')
      ''l'', field ''is_autovacuum'' (Ty ''bool'') ''l'', field ''phase'' (Ty ''StrId'') ''l'',
      field_in ''heap_blks_total'' (Ty ''i64'') ''g'' ''count'', field_in ''heap_blks_scanned''
      (Ty ''i64'') ''g'' ''count'', field_in ''heap_blks_vacuumed'' (Ty ''i64'') ''g''
      ''count'', field_in ''index_vacuum_count'' (Ty ''i64'') ''g'' ''count'', field_in
      ''max_dead_tuple_bytes'' (Ty ''i64'') ''g'' ''bytes'', field_in ''dead_tuple_bytes'' (Ty
      ''i64'') ''g'' ''bytes'', field_in ''num_dead_item_ids'' (Ty ''i64'') ''g'' ''count'',
      field_in ''indexes_total'' (Ty ''i64'') ''g'' ''count'', field_in ''indexes_processed''
      (Ty ''i64'') ''g'' ''count'']"

lemma declares_PgStatProgressVacuumV2: "declares struct_PgStatProgressVacuumV2 1012005 ''pg_stat_progress_vacuum''"
  unfolding struct_PgStatProgressVacuumV2_def by (rule declaresI) (simp_all add: declare_simps)

definition struct_PgStatProgressVacuumV3 :: rust_struct where
  "struct_PgStatProgressVacuumV3 = section_struct ''PgStatProgressVacuumV3''
     [Meta_id 1012006, Meta_name ''pg_stat_progress_vacuum'', Meta_semantics
      ''conditional_full'', Meta_sort_key [''ts'', ''pid''], Meta_identity [''pid'', ''datid'',
      ''relid'']]
     [field ''ts'' (Ty ''Ts'') ''t'', field ''pid'' (Ty ''i32'') ''l'', field ''datid'' (Ty
      ''u32'') ''l'', field ''datname'' (Ty ''StrId'') ''l'', field ''relid'' (Ty ''u32'')
      ''l'', field ''schemaname'' (Opt ''StrId'') ''l'', field ''relname'' (Opt ''StrId'')
      ''l'', field ''is_autovacuum'' (Ty ''bool'') ''l'', field ''phase'' (Ty ''StrId'') ''l'',
      field_in ''heap_blks_total'' (Ty ''i64'') ''g'' ''count'', field_in ''heap_blks_scanned''
      (Ty ''i64'') ''g'' ''count'', field_in ''heap_blks_vacuumed'' (Ty ''i64'') ''g''
      ''count'', field_in ''index_vacuum_count'' (Ty ''i64'') ''g'' ''count'', field_in
      ''max_dead_tuple_bytes'' (Ty ''i64'') ''g'' ''bytes'', field_in ''dead_tuple_bytes'' (Ty
      ''i64'') ''g'' ''bytes'', field_in ''num_dead_item_ids'' (Ty ''i64'') ''g'' ''count'',
      field_in ''indexes_total'' (Ty ''i64'') ''g'' ''count'', field_in ''indexes_processed''
      (Ty ''i64'') ''g'' ''count'', field_in ''delay_time'' (Ty ''f64'') ''g''
      ''milliseconds'']"

lemma declares_PgStatProgressVacuumV3: "declares struct_PgStatProgressVacuumV3 1012006 ''pg_stat_progress_vacuum''"
  unfolding struct_PgStatProgressVacuumV3_def by (rule declaresI) (simp_all add: declare_simps)

definition struct_PgBouncerEvents :: rust_struct where
  "struct_PgBouncerEvents = section_struct ''PgBouncerEvents''
     [Meta_id 2100001, Meta_name ''pgbouncer_events'', Meta_semantics ''event_stream'',
      Meta_sort_key [''ts'', ''level'', ''text'']]
     [field ''ts'' (Ty ''Ts'') ''t'', field ''source_file'' (Ty ''StrId'') ''l'', field
      ''level'' (Ty ''u8'') ''l'', field ''database'' (Opt ''StrId'') ''l'', field ''username''
      (Opt ''StrId'') ''l'', field ''host'' (Opt ''StrId'') ''l'', field ''text'' (Ty ''StrId'')
      ''l'']"

lemma declares_PgBouncerEvents: "declares struct_PgBouncerEvents 2100001 ''pgbouncer_events''"
  unfolding struct_PgBouncerEvents_def by (rule declaresI) (simp_all add: declare_simps)

definition struct_PgBouncerEventsV2 :: rust_struct where
  "struct_PgBouncerEventsV2 = section_struct ''PgBouncerEventsV2''
     [Meta_id 2100002, Meta_name ''pgbouncer_events'', Meta_semantics ''event_stream'',
      Meta_sort_key [''ts'', ''level'', ''text'']]
     [field ''ts'' (Ty ''Ts'') ''t'', field ''source_file'' (Ty ''StrId'') ''l'', field
      ''level'' (Ty ''u8'') ''l'', field ''database'' (Opt ''StrId'') ''l'', field ''username''
      (Opt ''StrId'') ''l'', field ''host'' (Opt ''StrId'') ''l'', field ''text'' (Ty ''StrId'')
      ''l'', field ''pid'' (Opt ''i32'') ''l'', field ''side'' (Opt ''StrId'') ''l'', field
      ''port'' (Opt ''u16'') ''l'', field_in ''age_s'' (Opt ''u64'') ''l'' ''seconds'']"

lemma declares_PgBouncerEventsV2: "declares struct_PgBouncerEventsV2 2100002 ''pgbouncer_events''"
  unfolding struct_PgBouncerEventsV2_def by (rule declaresI) (simp_all add: declare_simps)

end
