(* ===== verification/Registry_Pg_Stat.thy ===== *)
theory Registry_Pg_Stat
  imports Registry_Derive
begin

text \<open>
  The row structs of the cumulative statistics of PostgreSQL (\<open>pg_stat_*.rs\<close>,
  \<open>pg_wal_storage.rs\<close>) under \<open>crates/kronika-registry/src/codec\<close>, as
  they are written: the section attributes in order and every field with its column attribute.
  Each is accepted by the macro, and its contract passes the checks.
\<close>

definition struct_PgStatArchiver :: rust_struct where
  "struct_PgStatArchiver = section_struct ''PgStatArchiver''
     [Meta_id 1008001, Meta_name ''pg_stat_archiver'', Meta_semantics ''snapshot_full'',
      Meta_sort_key [''ts'']]
     [field ''ts'' (Ty ''Ts'') ''t'', field_in ''archived_count'' (Ty ''i64'') ''c'' ''count'',
      field ''last_archived_wal'' (Opt ''StrId'') ''l'', field_in ''last_archived_time'' (Opt
      ''Ts'') ''g'' ''microseconds'', field_in ''failed_count'' (Ty ''i64'') ''c'' ''count'',
      field ''last_failed_wal'' (Opt ''StrId'') ''l'', field_in ''last_failed_time'' (Opt
      ''Ts'') ''g'' ''microseconds'', field_in ''stats_reset'' (Opt ''Ts'') ''g''
      ''microseconds'']"

lemma declares_PgStatArchiver: "declares struct_PgStatArchiver 1008001 ''pg_stat_archiver''"
  unfolding struct_PgStatArchiver_def by (rule declaresI) (simp_all add: declare_simps)

definition struct_PgStatBgwriterV1 :: rust_struct where
  "struct_PgStatBgwriterV1 = section_struct ''PgStatBgwriterV1''
     [Meta_id 1006001, Meta_name ''pg_stat_bgwriter'', Meta_semantics ''snapshot_full'',
      Meta_sort_key [''ts'']]
     [field ''ts'' (Ty ''Ts'') ''t'', field_in ''checkpoints_timed'' (Ty ''i64'') ''c''
      ''count'', field_in ''checkpoints_req'' (Ty ''i64'') ''c'' ''count'', field_in
      ''checkpoint_write_time'' (Ty ''f64'') ''c'' ''milliseconds'', field_in
      ''checkpoint_sync_time'' (Ty ''f64'') ''c'' ''milliseconds'', field_in
      ''buffers_checkpoint'' (Ty ''i64'') ''c'' ''count'', field_in ''buffers_clean'' (Ty
      ''i64'') ''c'' ''count'', field_in ''maxwritten_clean'' (Ty ''i64'') ''c'' ''count'',
      field_in ''buffers_backend'' (Ty ''i64'') ''c'' ''count'', field_in
      ''buffers_backend_fsync'' (Ty ''i64'') ''c'' ''count'', field_in ''buffers_alloc'' (Ty
      ''i64'') ''c'' ''count'', field_in ''stats_reset'' (Opt ''Ts'') ''g'' ''microseconds'']"

lemma declares_PgStatBgwriterV1: "declares struct_PgStatBgwriterV1 1006001 ''pg_stat_bgwriter''"
  unfolding struct_PgStatBgwriterV1_def by (rule declaresI) (simp_all add: declare_simps)

definition struct_PgStatBgwriterV2 :: rust_struct where
  "struct_PgStatBgwriterV2 = section_struct ''PgStatBgwriterV2''
     [Meta_id 1006002, Meta_name ''pg_stat_bgwriter'', Meta_semantics ''snapshot_full'',
      Meta_sort_key [''ts'']]
     [field ''ts'' (Ty ''Ts'') ''t'', field_in ''buffers_clean'' (Ty ''i64'') ''c'' ''count'',
      field_in ''maxwritten_clean'' (Ty ''i64'') ''c'' ''count'', field_in ''buffers_alloc'' (Ty
      ''i64'') ''c'' ''count'', field_in ''stats_reset'' (Opt ''Ts'') ''g'' ''microseconds'']"

lemma declares_PgStatBgwriterV2: "declares struct_PgStatBgwriterV2 1006002 ''pg_stat_bgwriter''"
  unfolding struct_PgStatBgwriterV2_def by (rule declaresI) (simp_all add: declare_simps)

definition struct_PgStatCheckpointerV1 :: rust_struct where
  "struct_PgStatCheckpointerV1 = section_struct ''PgStatCheckpointerV1''
     [Meta_id 1017001, Meta_name ''pg_stat_checkpointer'', Meta_semantics ''snapshot_full'',
      Meta_sort_key [''ts'']]
     [field ''ts'' (Ty ''Ts'') ''t'', field_in ''num_timed'' (Ty ''i64'') ''c'' ''count'',
      field_in ''num_requested'' (Ty ''i64'') ''c'' ''count'', field_in ''restartpoints_timed''
      (Ty ''i64'') ''c'' ''count'', field_in ''restartpoints_req'' (Ty ''i64'') ''c'' ''count'',
      field_in ''restartpoints_done'' (Ty ''i64'') ''c'' ''count'', field_in ''write_time'' (Ty
      ''f64'') ''c'' ''milliseconds'', field_in ''sync_time'' (Ty ''f64'') ''c''
      ''milliseconds'', field_in ''buffers_written'' (Ty ''i64'') ''c'' ''count'', field_in
      ''stats_reset'' (Opt ''Ts'') ''g'' ''microseconds'']"

lemma declares_PgStatCheckpointerV1: "declares struct_PgStatCheckpointerV1 1017001 ''pg_stat_checkpointer''"
  unfolding struct_PgStatCheckpointerV1_def by (rule declaresI) (simp_all add: declare_simps)

definition struct_PgStatCheckpointerV2 :: rust_struct where
  "struct_PgStatCheckpointerV2 = section_struct ''PgStatCheckpointerV2''
     [Meta_id 1017002, Meta_name ''pg_stat_checkpointer'', Meta_semantics ''snapshot_full'',
      Meta_sort_key [''ts'']]
     [field ''ts'' (Ty ''Ts'') ''t'', field_in ''num_timed'' (Ty ''i64'') ''c'' ''count'',
      field_in ''num_requested'' (Ty ''i64'') ''c'' ''count'', field_in ''num_done'' (Ty
      ''i64'') ''c'' ''count'', field_in ''restartpoints_timed'' (Ty ''i64'') ''c'' ''count'',
      field_in ''restartpoints_req'' (Ty ''i64'') ''c'' ''count'', field_in
      ''restartpoints_done'' (Ty ''i64'') ''c'' ''count'', field_in ''write_time'' (Ty ''f64'')
      ''c'' ''milliseconds'', field_in ''sync_time'' (Ty ''f64'') ''c'' ''milliseconds'',
      field_in ''buffers_written'' (Ty ''i64'') ''c'' ''count'', field_in ''slru_written'' (Ty
      ''i64'') ''c'' ''count'', field_in ''stats_reset'' (Opt ''Ts'') ''g'' ''microseconds'']"

lemma declares_PgStatCheckpointerV2: "declares struct_PgStatCheckpointerV2 1017002 ''pg_stat_checkpointer''"
  unfolding struct_PgStatCheckpointerV2_def by (rule declaresI) (simp_all add: declare_simps)

definition struct_PgStatDatabaseV4 :: rust_struct where
  "struct_PgStatDatabaseV4 = section_struct ''PgStatDatabaseV4''
     [Meta_id 1005004, Meta_name ''pg_stat_database'', Meta_semantics ''snapshot_full'',
      Meta_sort_key [''datid'', ''ts''], Meta_identity [''datid'']]
     [field ''ts'' (Ty ''Ts'') ''t'', field ''datid'' (Ty ''u32'') ''l'', field ''datname'' (Opt
      ''StrId'') ''l'', field_in ''numbackends'' (Opt ''i32'') ''g'' ''count'', field_in
      ''xact_commit'' (Ty ''i64'') ''c'' ''count'', field_in ''xact_rollback'' (Ty ''i64'')
      ''c'' ''count'', field_in ''blks_read'' (Ty ''i64'') ''c'' ''count'', field_in
      ''blks_hit'' (Ty ''i64'') ''c'' ''count'', field_in ''tup_returned'' (Ty ''i64'') ''c''
      ''count'', field_in ''tup_fetched'' (Ty ''i64'') ''c'' ''count'', field_in
      ''tup_inserted'' (Ty ''i64'') ''c'' ''count'', field_in ''tup_updated'' (Ty ''i64'') ''c''
      ''count'', field_in ''tup_deleted'' (Ty ''i64'') ''c'' ''count'', field_in ''conflicts''
      (Ty ''i64'') ''c'' ''count'', field_in ''temp_files'' (Ty ''i64'') ''c'' ''count'',
      field_in ''temp_bytes'' (Ty ''i64'') ''c'' ''bytes'', field_in ''deadlocks'' (Ty ''i64'')
      ''c'' ''count'', field_in ''blk_read_time'' (Ty ''f64'') ''c'' ''milliseconds'', field_in
      ''blk_write_time'' (Ty ''f64'') ''c'' ''milliseconds'', field_in ''stats_reset'' (Opt
      ''Ts'') ''g'' ''microseconds'', field_in ''frozen_xid_age'' (Opt ''i64'') ''g'' ''count'',
      field_in ''min_mxid_age'' (Opt ''i64'') ''g'' ''count'', field_in ''datconnlimit'' (Opt
      ''i32'') ''g'' ''count'', field ''datallowconn'' (Opt ''bool'') ''l'', field
      ''datistemplate'' (Opt ''bool'') ''l'', field_in ''checksum_failures'' (Opt ''i64'') ''c''
      ''count'', field_in ''checksum_last_failure'' (Opt ''Ts'') ''g'' ''microseconds'',
      field_in ''session_time'' (Ty ''f64'') ''c'' ''milliseconds'', field_in ''active_time''
      (Ty ''f64'') ''c'' ''milliseconds'', field_in ''idle_in_transaction_time'' (Ty ''f64'')
      ''c'' ''milliseconds'', field_in ''sessions'' (Ty ''i64'') ''c'' ''count'', field_in
      ''sessions_abandoned'' (Ty ''i64'') ''c'' ''count'', field_in ''sessions_fatal'' (Ty
      ''i64'') ''c'' ''count'', field_in ''sessions_killed'' (Ty ''i64'') ''c'' ''count'',
      field_in ''parallel_workers_to_launch'' (Ty ''i64'') ''c'' ''count'', field_in
      ''parallel_workers_launched'' (Ty ''i64'') ''c'' ''count'']"

lemma declares_PgStatDatabaseV4: "declares struct_PgStatDatabaseV4 1005004 ''pg_stat_database''"
  unfolding struct_PgStatDatabaseV4_def by (rule declaresI) (simp_all add: declare_simps)

definition struct_PgStatDatabaseV3 :: rust_struct where
  "struct_PgStatDatabaseV3 = section_struct ''PgStatDatabaseV3''
     [Meta_id 1005003, Meta_name ''pg_stat_database'', Meta_semantics ''snapshot_full'',
      Meta_sort_key [''datid'', ''ts''], Meta_identity [''datid'']]
     [field ''ts'' (Ty ''Ts'') ''t'', field ''datid'' (Ty ''u32'') ''l'', field ''datname'' (Opt
      ''StrId'') ''l'', field_in ''numbackends'' (Opt ''i32'') ''g'' ''count'', field_in
      ''xact_commit'' (Ty ''i64'') ''c'' ''count'', field_in ''xact_rollback'' (Ty ''i64'')
      ''c'' ''count'', field_in ''blks_read'' (Ty ''i64'') ''c'' ''count'', field_in
      ''blks_hit'' (Ty ''i64'') ''c'' ''count'', field_in ''tup_returned'' (Ty ''i64'') ''c''
      ''count'', field_in ''tup_fetched'' (Ty ''i64'') ''c'' ''count'', field_in
      ''tup_inserted'' (Ty ''i64'') ''c'' ''count'', field_in ''tup_updated'' (Ty ''i64'') ''c''
      ''count'', field_in ''tup_deleted'' (Ty ''i64'') ''c'' ''count'', field_in ''conflicts''
      (Ty ''i64'') ''c'' ''count'', field_in ''temp_files'' (Ty ''i64'') ''c'' ''count'',
      field_in ''temp_bytes'' (Ty ''i64'') ''c'' ''bytes'', field_in ''deadlocks'' (Ty ''i64'')
      ''c'' ''count'', field_in ''blk_read_time'' (Ty ''f64'') ''c'' ''milliseconds'', field_in
      ''blk_write_time'' (Ty ''f64'') ''c'' ''milliseconds'', field_in ''stats_reset'' (Opt
      ''Ts'') ''g'' ''microseconds'', field_in ''frozen_xid_age'' (Opt ''i64'') ''g'' ''count'',
      field_in ''min_mxid_age'' (Opt ''i64'') ''g'' ''count'', field_in ''datconnlimit'' (Opt
      ''i32'') ''g'' ''count'', field ''datallowconn'' (Opt ''bool'') ''l'', field
      ''datistemplate'' (Opt ''bool'') ''l'', field_in ''checksum_failures'' (Opt ''i64'') ''c''
      ''count'', field_in ''checksum_last_failure'' (Opt ''Ts'') ''g'' ''microseconds'',
      field_in ''session_time'' (Ty ''f64'') ''c'' ''milliseconds'', field_in ''active_time''
      (Ty ''f64'') ''c'' ''milliseconds'', field_in ''idle_in_transaction_time'' (Ty ''f64'')
      ''c'' ''milliseconds'', field_in ''sessions'' (Ty ''i64'') ''c'' ''count'', field_in
      ''sessions_abandoned'' (Ty ''i64'') ''c'' ''count'', field_in ''sessions_fatal'' (Ty
      ''i64'') ''c'' ''count'', field_in ''sessions_killed'' (Ty ''i64'') ''c'' ''count'']"

lemma declares_PgStatDatabaseV3: "declares struct_PgStatDatabaseV3 1005003 ''pg_stat_database''"
  unfolding struct_PgStatDatabaseV3_def by (rule declaresI) (simp_all add: declare_simps)

definition struct_PgStatDatabaseV2 :: rust_struct where
  "struct_PgStatDatabaseV2 = section_struct ''PgStatDatabaseV2''
     [Meta_id 1005002, Meta_name ''pg_stat_database'', Meta_semantics ''snapshot_full'',
      Meta_sort_key [''datid'', ''ts''], Meta_identity [''datid'']]
     [field ''ts'' (Ty ''Ts'') ''t'', field ''datid'' (Ty ''u32'') ''l'', field ''datname'' (Opt
      ''StrId'') ''l'', field_in ''numbackends'' (Opt ''i32'') ''g'' ''count'', field_in
      ''xact_commit'' (Ty ''i64'') ''c'' ''count'', field_in ''xact_rollback'' (Ty ''i64'')
      ''c'' ''count'', field_in ''blks_read'' (Ty ''i64'') ''c'' ''count'', field_in
      ''blks_hit'' (Ty ''i64'') ''c'' ''count'', field_in ''tup_returned'' (Ty ''i64'') ''c''
      ''count'', field_in ''tup_fetched'' (Ty ''i64'') ''c'' ''count'', field_in
      ''tup_inserted'' (Ty ''i64'') ''c'' ''count'', field_in ''tup_updated'' (Ty ''i64'') ''c''
      ''count'', field_in ''tup_deleted'' (Ty ''i64'') ''c'' ''count'', field_in ''conflicts''
      (Ty ''i64'') ''c'' ''count'', field_in ''temp_files'' (Ty ''i64'') ''c'' ''count'',
      field_in ''temp_bytes'' (Ty ''i64'') ''c'' ''bytes'', field_in ''deadlocks'' (Ty ''i64'')
      ''c'' ''count'', field_in ''blk_read_time'' (Ty ''f64'') ''c'' ''milliseconds'', field_in
      ''blk_write_time'' (Ty ''f64'') ''c'' ''milliseconds'', field_in ''stats_reset'' (Opt
      ''Ts'') ''g'' ''microseconds'', field_in ''frozen_xid_age'' (Opt ''i64'') ''g'' ''count'',
      field_in ''min_mxid_age'' (Opt ''i64'') ''g'' ''count'', field_in ''datconnlimit'' (Opt
      ''i32'') ''g'' ''count'', field ''datallowconn'' (Opt ''bool'') ''l'', field
      ''datistemplate'' (Opt ''bool'') ''l'', field_in ''checksum_failures'' (Opt ''i64'') ''c''
      ''count'', field_in ''checksum_last_failure'' (Opt ''Ts'') ''g'' ''microseconds'']"

lemma declares_PgStatDatabaseV2: "declares struct_PgStatDatabaseV2 1005002 ''pg_stat_database''"
  unfolding struct_PgStatDatabaseV2_def by (rule declaresI) (simp_all add: declare_simps)

definition struct_PgStatDatabaseV1 :: rust_struct where
  "struct_PgStatDatabaseV1 = section_struct ''PgStatDatabaseV1''
     [Meta_id 1005001, Meta_name ''pg_stat_database'', Meta_semantics ''snapshot_full'',
      Meta_sort_key [''datid'', ''ts''], Meta_identity [''datid'']]
     [field ''ts'' (Ty ''Ts'') ''t'', field ''datid'' (Ty ''u32'') ''l'', field ''datname'' (Opt
      ''StrId'') ''l'', field_in ''numbackends'' (Opt ''i32'') ''g'' ''count'', field_in
      ''xact_commit'' (Ty ''i64'') ''c'' ''count'', field_in ''xact_rollback'' (Ty ''i64'')
      ''c'' ''count'', field_in ''blks_read'' (Ty ''i64'') ''c'' ''count'', field_in
      ''blks_hit'' (Ty ''i64'') ''c'' ''count'', field_in ''tup_returned'' (Ty ''i64'') ''c''
      ''count'', field_in ''tup_fetched'' (Ty ''i64'') ''c'' ''count'', field_in
      ''tup_inserted'' (Ty ''i64'') ''c'' ''count'', field_in ''tup_updated'' (Ty ''i64'') ''c''
      ''count'', field_in ''tup_deleted'' (Ty ''i64'') ''c'' ''count'', field_in ''conflicts''
      (Ty ''i64'') ''c'' ''count'', field_in ''temp_files'' (Ty ''i64'') ''c'' ''count'',
      field_in ''temp_bytes'' (Ty ''i64'') ''c'' ''bytes'', field_in ''deadlocks'' (Ty ''i64'')
      ''c'' ''count'', field_in ''blk_read_time'' (Ty ''f64'') ''c'' ''milliseconds'', field_in
      ''blk_write_time'' (Ty ''f64'') ''c'' ''milliseconds'', field_in ''stats_reset'' (Opt
      ''Ts'') ''g'' ''microseconds'', field_in ''frozen_xid_age'' (Opt ''i64'') ''g'' ''count'',
      field_in ''min_mxid_age'' (Opt ''i64'') ''g'' ''count'', field_in ''datconnlimit'' (Opt
      ''i32'') ''g'' ''count'', field ''datallowconn'' (Opt ''bool'') ''l'', field
      ''datistemplate'' (Opt ''bool'') ''l'']"

lemma declares_PgStatDatabaseV1: "declares struct_PgStatDatabaseV1 1005001 ''pg_stat_database''"
  unfolding struct_PgStatDatabaseV1_def by (rule declaresI) (simp_all add: declare_simps)

definition struct_PgStatIoV1 :: rust_struct where
  "struct_PgStatIoV1 = section_struct ''PgStatIoV1''
     [Meta_id 1009001, Meta_name ''pg_stat_io'', Meta_semantics ''snapshot_full'', Meta_sort_key
      [''backend_type'', ''object'', ''context'', ''ts''], Meta_identity [''backend_type'',
      ''object'', ''context'']]
     [field ''ts'' (Ty ''Ts'') ''t'', field ''backend_type'' (Ty ''StrId'') ''l'', field
      ''object'' (Ty ''StrId'') ''l'', field ''context'' (Ty ''StrId'') ''l'', field_in
      ''reads'' (Opt ''i64'') ''c'' ''count'', field_in ''read_time'' (Opt ''f64'') ''c''
      ''milliseconds'', field_in ''writes'' (Opt ''i64'') ''c'' ''count'', field_in
      ''write_time'' (Opt ''f64'') ''c'' ''milliseconds'', field_in ''writebacks'' (Opt ''i64'')
      ''c'' ''count'', field_in ''writeback_time'' (Opt ''f64'') ''c'' ''milliseconds'',
      field_in ''extends'' (Opt ''i64'') ''c'' ''count'', field_in ''extend_time'' (Opt ''f64'')
      ''c'' ''milliseconds'', field_in ''op_bytes'' (Opt ''i64'') ''g'' ''bytes'', field_in
      ''hits'' (Opt ''i64'') ''c'' ''count'', field_in ''evictions'' (Opt ''i64'') ''c''
      ''count'', field_in ''reuses'' (Opt ''i64'') ''c'' ''count'', field_in ''fsyncs'' (Opt
      ''i64'') ''c'' ''count'', field_in ''fsync_time'' (Opt ''f64'') ''c'' ''milliseconds'',
      field_in ''stats_reset'' (Opt ''Ts'') ''g'' ''microseconds'']"

lemma declares_PgStatIoV1: "declares struct_PgStatIoV1 1009001 ''pg_stat_io''"
  unfolding struct_PgStatIoV1_def by (rule declaresI) (simp_all add: declare_simps)

definition struct_PgStatIoV2 :: rust_struct where
  "struct_PgStatIoV2 = section_struct ''PgStatIoV2''
     [Meta_id 1009002, Meta_name ''pg_stat_io'', Meta_semantics ''snapshot_full'', Meta_sort_key
      [''backend_type'', ''object'', ''context'', ''ts''], Meta_identity [''backend_type'',
      ''object'', ''context'']]
     [field ''ts'' (Ty ''Ts'') ''t'', field ''backend_type'' (Ty ''StrId'') ''l'', field
      ''object'' (Ty ''StrId'') ''l'', field ''context'' (Ty ''StrId'') ''l'', field_in
      ''reads'' (Opt ''i64'') ''c'' ''count'', field_in ''read_bytes'' (Opt ''i64'') ''c''
      ''bytes'', field_in ''read_time'' (Opt ''f64'') ''c'' ''milliseconds'', field_in
      ''writes'' (Opt ''i64'') ''c'' ''count'', field_in ''write_bytes'' (Opt ''i64'') ''c''
      ''bytes'', field_in ''write_time'' (Opt ''f64'') ''c'' ''milliseconds'', field_in
      ''writebacks'' (Opt ''i64'') ''c'' ''count'', field_in ''writeback_time'' (Opt ''f64'')
      ''c'' ''milliseconds'', field_in ''extends'' (Opt ''i64'') ''c'' ''count'', field_in
      ''extend_bytes'' (Opt ''i64'') ''c'' ''bytes'', field_in ''extend_time'' (Opt ''f64'')
      ''c'' ''milliseconds'', field_in ''hits'' (Opt ''i64'') ''c'' ''count'', field_in
      ''evictions'' (Opt ''i64'') ''c'' ''count'', field_in ''reuses'' (Opt ''i64'') ''c''
      ''count'', field_in ''fsyncs'' (Opt ''i64'') ''c'' ''count'', field_in ''fsync_time'' (Opt
      ''f64'') ''c'' ''milliseconds'', field_in ''stats_reset'' (Opt ''Ts'') ''g''
      ''microseconds'']"

lemma declares_PgStatIoV2: "declares struct_PgStatIoV2 1009002 ''pg_stat_io''"
  unfolding struct_PgStatIoV2_def by (rule declaresI) (simp_all add: declare_simps)

definition struct_PgStatUserIndexesV2 :: rust_struct where
  "struct_PgStatUserIndexesV2 = section_struct ''PgStatUserIndexesV2''
     [Meta_id 1014004, Meta_name ''pg_stat_user_indexes'', Meta_semantics ''snapshot_full'',
      Meta_sort_key [''datid'', ''indexrelid'', ''ts''], Meta_identity [''datid'',
      ''indexrelid'']]
     [field ''ts'' (Ty ''Ts'') ''t'', field ''datid'' (Ty ''u32'') ''l'', field ''datname'' (Ty
      ''StrId'') ''l'', field ''indexrelid'' (Ty ''u32'') ''l'', field ''relid'' (Ty ''u32'')
      ''l'', field ''schemaname'' (Ty ''StrId'') ''l'', field ''relname'' (Ty ''StrId'') ''l'',
      field ''indexrelname'' (Ty ''StrId'') ''l'', field ''tablespace_oid'' (Ty ''u32'') ''l'',
      field ''tablespace'' (Opt ''StrId'') ''l'', field_in ''idx_scan'' (Ty ''i64'') ''c''
      ''count'', field_in ''idx_tup_read'' (Ty ''i64'') ''c'' ''count'', field_in
      ''idx_tup_fetch'' (Ty ''i64'') ''c'' ''count'', field_in ''main_fork_bytes'' (Ty ''i64'')
      ''g'' ''bytes'', field_in ''last_idx_scan'' (Opt ''Ts'') ''g'' ''microseconds'', field
      ''indisunique'' (Ty ''bool'') ''l'', field ''indisprimary'' (Ty ''bool'') ''l'', field
      ''indisvalid'' (Ty ''bool'') ''l'', field ''indisexclusion'' (Ty ''bool'') ''l'', field
      ''indisready'' (Ty ''bool'') ''l'', field ''amname'' (Ty ''StrId'') ''l'', field
      ''indexdef'' (Opt ''StrId'') ''l'', field_in ''idx_blks_read'' (Ty ''i64'') ''c''
      ''count'', field_in ''idx_blks_hit'' (Ty ''i64'') ''c'' ''count'']"

lemma declares_PgStatUserIndexesV2: "declares struct_PgStatUserIndexesV2 1014004 ''pg_stat_user_indexes''"
  unfolding struct_PgStatUserIndexesV2_def by (rule declaresI) (simp_all add: declare_simps)

definition struct_PgStatUserIndexesV1 :: rust_struct where
  "struct_PgStatUserIndexesV1 = section_struct ''PgStatUserIndexesV1''
     [Meta_id 1014003, Meta_name ''pg_stat_user_indexes'', Meta_semantics ''snapshot_full'',
      Meta_sort_key [''datid'', ''indexrelid'', ''ts''], Meta_identity [''datid'',
      ''indexrelid'']]
     [field ''ts'' (Ty ''Ts'') ''t'', field ''datid'' (Ty ''u32'') ''l'', field ''datname'' (Ty
      ''StrId'') ''l'', field ''indexrelid'' (Ty ''u32'') ''l'', field ''relid'' (Ty ''u32'')
      ''l'', field ''schemaname'' (Ty ''StrId'') ''l'', field ''relname'' (Ty ''StrId'') ''l'',
      field ''indexrelname'' (Ty ''StrId'') ''l'', field ''tablespace_oid'' (Ty ''u32'') ''l'',
      field ''tablespace'' (Opt ''StrId'') ''l'', field_in ''idx_scan'' (Ty ''i64'') ''c''
      ''count'', field_in ''idx_tup_read'' (Ty ''i64'') ''c'' ''count'', field_in
      ''idx_tup_fetch'' (Ty ''i64'') ''c'' ''count'', field_in ''main_fork_bytes'' (Ty ''i64'')
      ''g'' ''bytes'', field ''indisunique'' (Ty ''bool'') ''l'', field ''indisprimary'' (Ty
      ''bool'') ''l'', field ''indisvalid'' (Ty ''bool'') ''l'', field ''indisexclusion'' (Ty
      ''bool'') ''l'', field ''indisready'' (Ty ''bool'') ''l'', field ''amname'' (Ty ''StrId'')
      ''l'', field ''indexdef'' (Opt ''StrId'') ''l'', field_in ''idx_blks_read'' (Ty ''i64'')
      ''c'' ''count'', field_in ''idx_blks_hit'' (Ty ''i64'') ''c'' ''count'']"

lemma declares_PgStatUserIndexesV1: "declares struct_PgStatUserIndexesV1 1014003 ''pg_stat_user_indexes''"
  unfolding struct_PgStatUserIndexesV1_def by (rule declaresI) (simp_all add: declare_simps)

definition struct_PgStatUserTablesV4 :: rust_struct where
  "struct_PgStatUserTablesV4 = section_struct ''PgStatUserTablesV4''
     [Meta_id 1013008, Meta_name ''pg_stat_user_tables'', Meta_semantics ''snapshot_full'',
      Meta_sort_key [''datid'', ''relid'', ''ts''], Meta_identity [''datid'', ''relid'']]
     [field ''ts'' (Ty ''Ts'') ''t'', field ''datid'' (Ty ''u32'') ''l'', field ''datname'' (Ty
      ''StrId'') ''l'', field ''relid'' (Ty ''u32'') ''l'', field ''schemaname'' (Ty ''StrId'')
      ''l'', field ''relname'' (Ty ''StrId'') ''l'', field ''tablespace_oid'' (Opt ''u32'')
      ''l'', field ''tablespace'' (Opt ''StrId'') ''l'', field_in ''seq_scan'' (Ty ''i64'')
      ''c'' ''count'', field_in ''seq_tup_read'' (Ty ''i64'') ''c'' ''count'', field_in
      ''idx_scan'' (Opt ''i64'') ''c'' ''count'', field_in ''idx_tup_fetch'' (Opt ''i64'') ''c''
      ''count'', field_in ''n_tup_ins'' (Ty ''i64'') ''c'' ''count'', field_in ''n_tup_upd'' (Ty
      ''i64'') ''c'' ''count'', field_in ''n_tup_del'' (Ty ''i64'') ''c'' ''count'', field_in
      ''n_tup_hot_upd'' (Ty ''i64'') ''c'' ''count'', field_in ''n_tup_newpage_upd'' (Ty
      ''i64'') ''c'' ''count'', field_in ''n_live_tup'' (Ty ''i64'') ''g'' ''count'', field_in
      ''n_dead_tup'' (Ty ''i64'') ''g'' ''count'', field_in ''n_mod_since_analyze'' (Ty ''i64'')
      ''g'' ''count'', field_in ''n_ins_since_vacuum'' (Ty ''i64'') ''g'' ''count'', field_in
      ''vacuum_count'' (Ty ''i64'') ''c'' ''count'', field_in ''autovacuum_count'' (Ty ''i64'')
      ''c'' ''count'', field_in ''analyze_count'' (Ty ''i64'') ''c'' ''count'', field_in
      ''autoanalyze_count'' (Ty ''i64'') ''c'' ''count'', field_in ''last_vacuum'' (Opt ''Ts'')
      ''g'' ''microseconds'', field_in ''last_autovacuum'' (Opt ''Ts'') ''g'' ''microseconds'',
      field_in ''last_analyze'' (Opt ''Ts'') ''g'' ''microseconds'', field_in
      ''last_autoanalyze'' (Opt ''Ts'') ''g'' ''microseconds'', field_in ''last_seq_scan'' (Opt
      ''Ts'') ''g'' ''microseconds'', field_in ''last_idx_scan'' (Opt ''Ts'') ''g''
      ''microseconds'', field_in ''total_vacuum_time'' (Ty ''f64'') ''c'' ''milliseconds'',
      field_in ''total_autovacuum_time'' (Ty ''f64'') ''c'' ''milliseconds'', field_in
      ''total_analyze_time'' (Ty ''f64'') ''c'' ''milliseconds'', field_in
      ''total_autoanalyze_time'' (Ty ''f64'') ''c'' ''milliseconds'', field_in
      ''main_fork_bytes'' (Ty ''i64'') ''g'' ''bytes'', field_in ''toast_bytes'' (Opt ''i64'')
      ''g'' ''bytes'', field_in ''toast_n_live_tup'' (Opt ''i64'') ''g'' ''count'', field_in
      ''toast_n_dead_tup'' (Opt ''i64'') ''g'' ''count'', field_in ''toast_last_autovacuum''
      (Opt ''Ts'') ''g'' ''microseconds'', field_in ''xid_age'' (Opt ''i64'') ''g'' ''count'',
      field_in ''mxid_age'' (Opt ''i64'') ''g'' ''count'', field_in ''reltuples'' (Ty ''i64'')
      ''g'' ''count'', field_in ''heap_blks_read'' (Ty ''i64'') ''c'' ''count'', field_in
      ''heap_blks_hit'' (Ty ''i64'') ''c'' ''count'', field_in ''idx_blks_read'' (Opt ''i64'')
      ''c'' ''count'', field_in ''idx_blks_hit'' (Opt ''i64'') ''c'' ''count'', field_in
      ''toast_blks_read'' (Opt ''i64'') ''c'' ''count'', field_in ''toast_blks_hit'' (Opt
      ''i64'') ''c'' ''count'', field_in ''tidx_blks_read'' (Opt ''i64'') ''c'' ''count'',
      field_in ''tidx_blks_hit'' (Opt ''i64'') ''c'' ''count'']"

lemma declares_PgStatUserTablesV4: "declares struct_PgStatUserTablesV4 1013008 ''pg_stat_user_tables''"
  unfolding struct_PgStatUserTablesV4_def by (rule declaresI) (simp_all add: declare_simps)

definition struct_PgStatUserTablesV3 :: rust_struct where
  "struct_PgStatUserTablesV3 = section_struct ''PgStatUserTablesV3''
     [Meta_id 1013007, Meta_name ''pg_stat_user_tables'', Meta_semantics ''snapshot_full'',
      Meta_sort_key [''datid'', ''relid'', ''ts''], Meta_identity [''datid'', ''relid'']]
     [field ''ts'' (Ty ''Ts'') ''t'', field ''datid'' (Ty ''u32'') ''l'', field ''datname'' (Ty
      ''StrId'') ''l'', field ''relid'' (Ty ''u32'') ''l'', field ''schemaname'' (Ty ''StrId'')
      ''l'', field ''relname'' (Ty ''StrId'') ''l'', field ''tablespace_oid'' (Opt ''u32'')
      ''l'', field ''tablespace'' (Opt ''StrId'') ''l'', field_in ''seq_scan'' (Ty ''i64'')
      ''c'' ''count'', field_in ''seq_tup_read'' (Ty ''i64'') ''c'' ''count'', field_in
      ''idx_scan'' (Opt ''i64'') ''c'' ''count'', field_in ''idx_tup_fetch'' (Opt ''i64'') ''c''
      ''count'', field_in ''n_tup_ins'' (Ty ''i64'') ''c'' ''count'', field_in ''n_tup_upd'' (Ty
      ''i64'') ''c'' ''count'', field_in ''n_tup_del'' (Ty ''i64'') ''c'' ''count'', field_in
      ''n_tup_hot_upd'' (Ty ''i64'') ''c'' ''count'', field_in ''n_tup_newpage_upd'' (Ty
      ''i64'') ''c'' ''count'', field_in ''n_live_tup'' (Ty ''i64'') ''g'' ''count'', field_in
      ''n_dead_tup'' (Ty ''i64'') ''g'' ''count'', field_in ''n_mod_since_analyze'' (Ty ''i64'')
      ''g'' ''count'', field_in ''n_ins_since_vacuum'' (Ty ''i64'') ''g'' ''count'', field_in
      ''vacuum_count'' (Ty ''i64'') ''c'' ''count'', field_in ''autovacuum_count'' (Ty ''i64'')
      ''c'' ''count'', field_in ''analyze_count'' (Ty ''i64'') ''c'' ''count'', field_in
      ''autoanalyze_count'' (Ty ''i64'') ''c'' ''count'', field_in ''last_vacuum'' (Opt ''Ts'')
      ''g'' ''microseconds'', field_in ''last_autovacuum'' (Opt ''Ts'') ''g'' ''microseconds'',
      field_in ''last_analyze'' (Opt ''Ts'') ''g'' ''microseconds'', field_in
      ''last_autoanalyze'' (Opt ''Ts'') ''g'' ''microseconds'', field_in ''last_seq_scan'' (Opt
      ''Ts'') ''g'' ''microseconds'', field_in ''last_idx_scan'' (Opt ''Ts'') ''g''
      ''microseconds'', field_in ''main_fork_bytes'' (Ty ''i64'') ''g'' ''bytes'', field_in
      ''toast_bytes'' (Opt ''i64'') ''g'' ''bytes'', field_in ''toast_n_live_tup'' (Opt ''i64'')
      ''g'' ''count'', field_in ''toast_n_dead_tup'' (Opt ''i64'') ''g'' ''count'', field_in
      ''toast_last_autovacuum'' (Opt ''Ts'') ''g'' ''microseconds'', field_in ''xid_age'' (Opt
      ''i64'') ''g'' ''count'', field_in ''mxid_age'' (Opt ''i64'') ''g'' ''count'', field_in
      ''reltuples'' (Ty ''i64'') ''g'' ''count'', field_in ''heap_blks_read'' (Ty ''i64'') ''c''
      ''count'', field_in ''heap_blks_hit'' (Ty ''i64'') ''c'' ''count'', field_in
      ''idx_blks_read'' (Opt ''i64'') ''c'' ''count'', field_in ''idx_blks_hit'' (Opt ''i64'')
      ''c'' ''count'', field_in ''toast_blks_read'' (Opt ''i64'') ''c'' ''count'', field_in
      ''toast_blks_hit'' (Opt ''i64'') ''c'' ''count'', field_in ''tidx_blks_read'' (Opt
      ''i64'') ''c'' ''count'', field_in ''tidx_blks_hit'' (Opt ''i64'') ''c'' ''count'']"

lemma declares_PgStatUserTablesV3: "declares struct_PgStatUserTablesV3 1013007 ''pg_stat_user_tables''"
  unfolding struct_PgStatUserTablesV3_def by (rule declaresI) (simp_all add: declare_simps)

definition struct_PgStatUserTablesV2 :: rust_struct where
  "struct_PgStatUserTablesV2 = section_struct ''PgStatUserTablesV2''
     [Meta_id 1013006, Meta_name ''pg_stat_user_tables'', Meta_semantics ''snapshot_full'',
      Meta_sort_key [''datid'', ''relid'', ''ts''], Meta_identity [''datid'', ''relid'']]
     [field ''ts'' (Ty ''Ts'') ''t'', field ''datid'' (Ty ''u32'') ''l'', field ''datname'' (Ty
      ''StrId'') ''l'', field ''relid'' (Ty ''u32'') ''l'', field ''schemaname'' (Ty ''StrId'')
      ''l'', field ''relname'' (Ty ''StrId'') ''l'', field ''tablespace_oid'' (Opt ''u32'')
      ''l'', field ''tablespace'' (Opt ''StrId'') ''l'', field_in ''seq_scan'' (Ty ''i64'')
      ''c'' ''count'', field_in ''seq_tup_read'' (Ty ''i64'') ''c'' ''count'', field_in
      ''idx_scan'' (Opt ''i64'') ''c'' ''count'', field_in ''idx_tup_fetch'' (Opt ''i64'') ''c''
      ''count'', field_in ''n_tup_ins'' (Ty ''i64'') ''c'' ''count'', field_in ''n_tup_upd'' (Ty
      ''i64'') ''c'' ''count'', field_in ''n_tup_del'' (Ty ''i64'') ''c'' ''count'', field_in
      ''n_tup_hot_upd'' (Ty ''i64'') ''c'' ''count'', field_in ''n_live_tup'' (Ty ''i64'') ''g''
      ''count'', field_in ''n_dead_tup'' (Ty ''i64'') ''g'' ''count'', field_in
      ''n_mod_since_analyze'' (Ty ''i64'') ''g'' ''count'', field_in ''n_ins_since_vacuum'' (Ty
      ''i64'') ''g'' ''count'', field_in ''vacuum_count'' (Ty ''i64'') ''c'' ''count'', field_in
      ''autovacuum_count'' (Ty ''i64'') ''c'' ''count'', field_in ''analyze_count'' (Ty ''i64'')
      ''c'' ''count'', field_in ''autoanalyze_count'' (Ty ''i64'') ''c'' ''count'', field_in
      ''last_vacuum'' (Opt ''Ts'') ''g'' ''microseconds'', field_in ''last_autovacuum'' (Opt
      ''Ts'') ''g'' ''microseconds'', field_in ''last_analyze'' (Opt ''Ts'') ''g''
      ''microseconds'', field_in ''last_autoanalyze'' (Opt ''Ts'') ''g'' ''microseconds'',
      field_in ''main_fork_bytes'' (Ty ''i64'') ''g'' ''bytes'', field_in ''toast_bytes'' (Opt
      ''i64'') ''g'' ''bytes'', field_in ''toast_n_live_tup'' (Opt ''i64'') ''g'' ''count'',
      field_in ''toast_n_dead_tup'' (Opt ''i64'') ''g'' ''count'', field_in
      ''toast_last_autovacuum'' (Opt ''Ts'') ''g'' ''microseconds'', field_in ''xid_age'' (Opt
      ''i64'') ''g'' ''count'', field_in ''mxid_age'' (Opt ''i64'') ''g'' ''count'', field_in
      ''reltuples'' (Ty ''i64'') ''g'' ''count'', field_in ''heap_blks_read'' (Ty ''i64'') ''c''
      ''count'', field_in ''heap_blks_hit'' (Ty ''i64'') ''c'' ''count'', field_in
      ''idx_blks_read'' (Opt ''i64'') ''c'' ''count'', field_in ''idx_blks_hit'' (Opt ''i64'')
      ''c'' ''count'', field_in ''toast_blks_read'' (Opt ''i64'') ''c'' ''count'', field_in
      ''toast_blks_hit'' (Opt ''i64'') ''c'' ''count'', field_in ''tidx_blks_read'' (Opt
      ''i64'') ''c'' ''count'', field_in ''tidx_blks_hit'' (Opt ''i64'') ''c'' ''count'']"

lemma declares_PgStatUserTablesV2: "declares struct_PgStatUserTablesV2 1013006 ''pg_stat_user_tables''"
  unfolding struct_PgStatUserTablesV2_def by (rule declaresI) (simp_all add: declare_simps)

definition struct_PgStatUserTablesV1 :: rust_struct where
  "struct_PgStatUserTablesV1 = section_struct ''PgStatUserTablesV1''
     [Meta_id 1013005, Meta_name ''pg_stat_user_tables'', Meta_semantics ''snapshot_full'',
      Meta_sort_key [''datid'', ''relid'', ''ts''], Meta_identity [''datid'', ''relid'']]
     [field ''ts'' (Ty ''Ts'') ''t'', field ''datid'' (Ty ''u32'') ''l'', field ''datname'' (Ty
      ''StrId'') ''l'', field ''relid'' (Ty ''u32'') ''l'', field ''schemaname'' (Ty ''StrId'')
      ''l'', field ''relname'' (Ty ''StrId'') ''l'', field ''tablespace_oid'' (Opt ''u32'')
      ''l'', field ''tablespace'' (Opt ''StrId'') ''l'', field_in ''seq_scan'' (Ty ''i64'')
      ''c'' ''count'', field_in ''seq_tup_read'' (Ty ''i64'') ''c'' ''count'', field_in
      ''idx_scan'' (Opt ''i64'') ''c'' ''count'', field_in ''idx_tup_fetch'' (Opt ''i64'') ''c''
      ''count'', field_in ''n_tup_ins'' (Ty ''i64'') ''c'' ''count'', field_in ''n_tup_upd'' (Ty
      ''i64'') ''c'' ''count'', field_in ''n_tup_del'' (Ty ''i64'') ''c'' ''count'', field_in
      ''n_tup_hot_upd'' (Ty ''i64'') ''c'' ''count'', field_in ''n_live_tup'' (Ty ''i64'') ''g''
      ''count'', field_in ''n_dead_tup'' (Ty ''i64'') ''g'' ''count'', field_in
      ''n_mod_since_analyze'' (Ty ''i64'') ''g'' ''count'', field_in ''vacuum_count'' (Ty
      ''i64'') ''c'' ''count'', field_in ''autovacuum_count'' (Ty ''i64'') ''c'' ''count'',
      field_in ''analyze_count'' (Ty ''i64'') ''c'' ''count'', field_in ''autoanalyze_count''
      (Ty ''i64'') ''c'' ''count'', field_in ''last_vacuum'' (Opt ''Ts'') ''g''
      ''microseconds'', field_in ''last_autovacuum'' (Opt ''Ts'') ''g'' ''microseconds'',
      field_in ''last_analyze'' (Opt ''Ts'') ''g'' ''microseconds'', field_in
      ''last_autoanalyze'' (Opt ''Ts'') ''g'' ''microseconds'', field_in ''main_fork_bytes'' (Ty
      ''i64'') ''g'' ''bytes'', field_in ''toast_bytes'' (Opt ''i64'') ''g'' ''bytes'', field_in
      ''toast_n_live_tup'' (Opt ''i64'') ''g'' ''count'', field_in ''toast_n_dead_tup'' (Opt
      ''i64'') ''g'' ''count'', field_in ''toast_last_autovacuum'' (Opt ''Ts'') ''g''
      ''microseconds'', field_in ''xid_age'' (Opt ''i64'') ''g'' ''count'', field_in
      ''mxid_age'' (Opt ''i64'') ''g'' ''count'', field_in ''reltuples'' (Ty ''i64'') ''g''
      ''count'', field_in ''heap_blks_read'' (Ty ''i64'') ''c'' ''count'', field_in
      ''heap_blks_hit'' (Ty ''i64'') ''c'' ''count'', field_in ''idx_blks_read'' (Opt ''i64'')
      ''c'' ''count'', field_in ''idx_blks_hit'' (Opt ''i64'') ''c'' ''count'', field_in
      ''toast_blks_read'' (Opt ''i64'') ''c'' ''count'', field_in ''toast_blks_hit'' (Opt
      ''i64'') ''c'' ''count'', field_in ''tidx_blks_read'' (Opt ''i64'') ''c'' ''count'',
      field_in ''tidx_blks_hit'' (Opt ''i64'') ''c'' ''count'']"

lemma declares_PgStatUserTablesV1: "declares struct_PgStatUserTablesV1 1013005 ''pg_stat_user_tables''"
  unfolding struct_PgStatUserTablesV1_def by (rule declaresI) (simp_all add: declare_simps)

definition struct_PgStatWalV1 :: rust_struct where
  "struct_PgStatWalV1 = section_struct ''PgStatWalV1''
     [Meta_id 1007001, Meta_name ''pg_stat_wal'', Meta_semantics ''snapshot_full'',
      Meta_sort_key [''ts'']]
     [field ''ts'' (Ty ''Ts'') ''t'', field_in ''wal_records'' (Ty ''i64'') ''c'' ''count'',
      field_in ''wal_fpi'' (Ty ''i64'') ''c'' ''count'', field_in ''wal_bytes'' (Ty ''i64'')
      ''c'' ''bytes'', field_in ''wal_buffers_full'' (Ty ''i64'') ''c'' ''count'', field_in
      ''wal_write'' (Ty ''i64'') ''c'' ''count'', field_in ''wal_sync'' (Ty ''i64'') ''c''
      ''count'', field_in ''wal_write_time'' (Ty ''f64'') ''c'' ''milliseconds'', field_in
      ''wal_sync_time'' (Ty ''f64'') ''c'' ''milliseconds'', field_in ''stats_reset'' (Opt
      ''Ts'') ''g'' ''microseconds'']"

lemma declares_PgStatWalV1: "declares struct_PgStatWalV1 1007001 ''pg_stat_wal''"
  unfolding struct_PgStatWalV1_def by (rule declaresI) (simp_all add: declare_simps)

definition struct_PgStatWalV2 :: rust_struct where
  "struct_PgStatWalV2 = section_struct ''PgStatWalV2''
     [Meta_id 1007002, Meta_name ''pg_stat_wal'', Meta_semantics ''snapshot_full'',
      Meta_sort_key [''ts'']]
     [field ''ts'' (Ty ''Ts'') ''t'', field_in ''wal_records'' (Ty ''i64'') ''c'' ''count'',
      field_in ''wal_fpi'' (Ty ''i64'') ''c'' ''count'', field_in ''wal_bytes'' (Ty ''i64'')
      ''c'' ''bytes'', field_in ''wal_buffers_full'' (Ty ''i64'') ''c'' ''count'', field_in
      ''stats_reset'' (Opt ''Ts'') ''g'' ''microseconds'']"

lemma declares_PgStatWalV2: "declares struct_PgStatWalV2 1007002 ''pg_stat_wal''"
  unfolding struct_PgStatWalV2_def by (rule declaresI) (simp_all add: declare_simps)

definition struct_PgWalStorage :: rust_struct where
  "struct_PgWalStorage = section_struct ''PgWalStorage''
     [Meta_id 1020001, Meta_name ''pg_wal_storage'', Meta_semantics ''snapshot_full'',
      Meta_sort_key [''ts'']]
     [field ''ts'' (Ty ''Ts'') ''t'', field_in ''wal_files_bytes'' (Ty ''i64'') ''g''
      ''bytes'']"

lemma declares_PgWalStorage: "declares struct_PgWalStorage 1020001 ''pg_wal_storage''"
  unfolding struct_PgWalStorage_def by (rule declaresI) (simp_all add: declare_simps)

end
