(* ===== verification/Registry_Pg_Statements.thy ===== *)
theory Registry_Pg_Statements
  imports Registry_Derive
begin

text \<open>
  The row structs of the statement and plan sections (\<open>pg_stat_statements.rs\<close>,
  \<open>pg_store_plans.rs\<close> and their info sections) under \<open>crates/kronika-
  registry/src/codec\<close>, as they are written: the section attributes in order and every
  field with its column attribute. Each is accepted by the macro, and its contract passes the
  checks.
\<close>

definition struct_PgStatStatementsV6 :: rust_struct where
  "struct_PgStatStatementsV6 = section_struct ''PgStatStatementsV6''
     [Meta_id 1002006, Meta_name ''pg_stat_statements'', Meta_semantics ''conditional_full'',
      Meta_sort_key [''dbid'', ''userid'', ''queryid'', ''toplevel'', ''ts''], Meta_identity
      [''queryid'', ''userid'', ''dbid'', ''toplevel'']]
     [field ''ts'' (Ty ''Ts'') ''t'', field ''queryid'' (Opt ''i64'') ''l'', field ''userid''
      (Ty ''u32'') ''l'', field ''dbid'' (Ty ''u32'') ''l'', field ''toplevel'' (Ty ''bool'')
      ''l'', field ''datname'' (Opt ''StrId'') ''l'', field ''usename'' (Opt ''StrId'') ''l'',
      field ''query'' (Opt ''StrId'') ''l'', field_in ''calls'' (Ty ''i64'') ''c'' ''count'',
      field_in ''rows'' (Ty ''i64'') ''c'' ''count'', field_in ''plans'' (Ty ''i64'') ''c''
      ''count'', field_in ''total_exec_time'' (Ty ''f64'') ''c'' ''milliseconds'', field_in
      ''total_plan_time'' (Ty ''f64'') ''c'' ''milliseconds'', field_in ''min_exec_time'' (Ty
      ''f64'') ''g'' ''milliseconds'', field_in ''max_exec_time'' (Ty ''f64'') ''g''
      ''milliseconds'', field_in ''mean_exec_time'' (Ty ''f64'') ''g'' ''milliseconds'',
      field_in ''stddev_exec_time'' (Ty ''f64'') ''g'' ''milliseconds'', field_in
      ''min_plan_time'' (Ty ''f64'') ''g'' ''milliseconds'', field_in ''max_plan_time'' (Ty
      ''f64'') ''g'' ''milliseconds'', field_in ''mean_plan_time'' (Ty ''f64'') ''g''
      ''milliseconds'', field_in ''stddev_plan_time'' (Ty ''f64'') ''g'' ''milliseconds'',
      field_in ''shared_blks_hit'' (Ty ''i64'') ''c'' ''count'', field_in ''shared_blks_read''
      (Ty ''i64'') ''c'' ''count'', field_in ''shared_blks_dirtied'' (Ty ''i64'') ''c''
      ''count'', field_in ''shared_blks_written'' (Ty ''i64'') ''c'' ''count'', field_in
      ''local_blks_hit'' (Ty ''i64'') ''c'' ''count'', field_in ''local_blks_read'' (Ty ''i64'')
      ''c'' ''count'', field_in ''local_blks_dirtied'' (Ty ''i64'') ''c'' ''count'', field_in
      ''local_blks_written'' (Ty ''i64'') ''c'' ''count'', field_in ''temp_blks_read'' (Ty
      ''i64'') ''c'' ''count'', field_in ''temp_blks_written'' (Ty ''i64'') ''c'' ''count'',
      field_in ''shared_blk_read_time'' (Ty ''f64'') ''c'' ''milliseconds'', field_in
      ''shared_blk_write_time'' (Ty ''f64'') ''c'' ''milliseconds'', field_in
      ''local_blk_read_time'' (Ty ''f64'') ''c'' ''milliseconds'', field_in
      ''local_blk_write_time'' (Ty ''f64'') ''c'' ''milliseconds'', field_in
      ''temp_blk_read_time'' (Ty ''f64'') ''c'' ''milliseconds'', field_in
      ''temp_blk_write_time'' (Ty ''f64'') ''c'' ''milliseconds'', field_in ''wal_records'' (Ty
      ''i64'') ''c'' ''count'', field_in ''wal_fpi'' (Ty ''i64'') ''c'' ''count'', field_in
      ''wal_bytes'' (Ty ''i64'') ''c'' ''bytes'', field_in ''wal_buffers_full'' (Ty ''i64'')
      ''c'' ''count'', field_in ''jit_functions'' (Ty ''i64'') ''c'' ''count'', field_in
      ''jit_generation_time'' (Ty ''f64'') ''c'' ''milliseconds'', field_in
      ''jit_inlining_count'' (Ty ''i64'') ''c'' ''count'', field_in ''jit_inlining_time'' (Ty
      ''f64'') ''c'' ''milliseconds'', field_in ''jit_optimization_count'' (Ty ''i64'') ''c''
      ''count'', field_in ''jit_optimization_time'' (Ty ''f64'') ''c'' ''milliseconds'',
      field_in ''jit_emission_count'' (Ty ''i64'') ''c'' ''count'', field_in
      ''jit_emission_time'' (Ty ''f64'') ''c'' ''milliseconds'', field_in ''jit_deform_count''
      (Ty ''i64'') ''c'' ''count'', field_in ''jit_deform_time'' (Ty ''f64'') ''c''
      ''milliseconds'', field_in ''parallel_workers_to_launch'' (Ty ''i64'') ''c'' ''count'',
      field_in ''parallel_workers_launched'' (Ty ''i64'') ''c'' ''count'', field_in
      ''stats_since'' (Ty ''Ts'') ''g'' ''microseconds'', field_in ''minmax_stats_since'' (Ty
      ''Ts'') ''g'' ''microseconds'']"

lemma declares_PgStatStatementsV6: "declares struct_PgStatStatementsV6 1002006 ''pg_stat_statements''"
  unfolding struct_PgStatStatementsV6_def by (rule declaresI) (simp_all add: declare_simps)

definition struct_PgStatStatementsV5 :: rust_struct where
  "struct_PgStatStatementsV5 = section_struct ''PgStatStatementsV5''
     [Meta_id 1002005, Meta_name ''pg_stat_statements'', Meta_semantics ''conditional_full'',
      Meta_sort_key [''dbid'', ''userid'', ''queryid'', ''toplevel'', ''ts''], Meta_identity
      [''queryid'', ''userid'', ''dbid'', ''toplevel'']]
     [field ''ts'' (Ty ''Ts'') ''t'', field ''queryid'' (Opt ''i64'') ''l'', field ''userid''
      (Ty ''u32'') ''l'', field ''dbid'' (Ty ''u32'') ''l'', field ''toplevel'' (Ty ''bool'')
      ''l'', field ''datname'' (Opt ''StrId'') ''l'', field ''usename'' (Opt ''StrId'') ''l'',
      field ''query'' (Opt ''StrId'') ''l'', field_in ''calls'' (Ty ''i64'') ''c'' ''count'',
      field_in ''rows'' (Ty ''i64'') ''c'' ''count'', field_in ''plans'' (Ty ''i64'') ''c''
      ''count'', field_in ''total_exec_time'' (Ty ''f64'') ''c'' ''milliseconds'', field_in
      ''total_plan_time'' (Ty ''f64'') ''c'' ''milliseconds'', field_in ''min_exec_time'' (Ty
      ''f64'') ''g'' ''milliseconds'', field_in ''max_exec_time'' (Ty ''f64'') ''g''
      ''milliseconds'', field_in ''mean_exec_time'' (Ty ''f64'') ''g'' ''milliseconds'',
      field_in ''stddev_exec_time'' (Ty ''f64'') ''g'' ''milliseconds'', field_in
      ''min_plan_time'' (Ty ''f64'') ''g'' ''milliseconds'', field_in ''max_plan_time'' (Ty
      ''f64'') ''g'' ''milliseconds'', field_in ''mean_plan_time'' (Ty ''f64'') ''g''
      ''milliseconds'', field_in ''stddev_plan_time'' (Ty ''f64'') ''g'' ''milliseconds'',
      field_in ''shared_blks_hit'' (Ty ''i64'') ''c'' ''count'', field_in ''shared_blks_read''
      (Ty ''i64'') ''c'' ''count'', field_in ''shared_blks_dirtied'' (Ty ''i64'') ''c''
      ''count'', field_in ''shared_blks_written'' (Ty ''i64'') ''c'' ''count'', field_in
      ''local_blks_hit'' (Ty ''i64'') ''c'' ''count'', field_in ''local_blks_read'' (Ty ''i64'')
      ''c'' ''count'', field_in ''local_blks_dirtied'' (Ty ''i64'') ''c'' ''count'', field_in
      ''local_blks_written'' (Ty ''i64'') ''c'' ''count'', field_in ''temp_blks_read'' (Ty
      ''i64'') ''c'' ''count'', field_in ''temp_blks_written'' (Ty ''i64'') ''c'' ''count'',
      field_in ''shared_blk_read_time'' (Ty ''f64'') ''c'' ''milliseconds'', field_in
      ''shared_blk_write_time'' (Ty ''f64'') ''c'' ''milliseconds'', field_in
      ''local_blk_read_time'' (Ty ''f64'') ''c'' ''milliseconds'', field_in
      ''local_blk_write_time'' (Ty ''f64'') ''c'' ''milliseconds'', field_in
      ''temp_blk_read_time'' (Ty ''f64'') ''c'' ''milliseconds'', field_in
      ''temp_blk_write_time'' (Ty ''f64'') ''c'' ''milliseconds'', field_in ''wal_records'' (Ty
      ''i64'') ''c'' ''count'', field_in ''wal_fpi'' (Ty ''i64'') ''c'' ''count'', field_in
      ''wal_bytes'' (Ty ''i64'') ''c'' ''bytes'', field_in ''jit_functions'' (Ty ''i64'') ''c''
      ''count'', field_in ''jit_generation_time'' (Ty ''f64'') ''c'' ''milliseconds'', field_in
      ''jit_inlining_count'' (Ty ''i64'') ''c'' ''count'', field_in ''jit_inlining_time'' (Ty
      ''f64'') ''c'' ''milliseconds'', field_in ''jit_optimization_count'' (Ty ''i64'') ''c''
      ''count'', field_in ''jit_optimization_time'' (Ty ''f64'') ''c'' ''milliseconds'',
      field_in ''jit_emission_count'' (Ty ''i64'') ''c'' ''count'', field_in
      ''jit_emission_time'' (Ty ''f64'') ''c'' ''milliseconds'', field_in ''jit_deform_count''
      (Ty ''i64'') ''c'' ''count'', field_in ''jit_deform_time'' (Ty ''f64'') ''c''
      ''milliseconds'', field_in ''stats_since'' (Ty ''Ts'') ''g'' ''microseconds'', field_in
      ''minmax_stats_since'' (Ty ''Ts'') ''g'' ''microseconds'']"

lemma declares_PgStatStatementsV5: "declares struct_PgStatStatementsV5 1002005 ''pg_stat_statements''"
  unfolding struct_PgStatStatementsV5_def by (rule declaresI) (simp_all add: declare_simps)

definition struct_PgStatStatementsV4 :: rust_struct where
  "struct_PgStatStatementsV4 = section_struct ''PgStatStatementsV4''
     [Meta_id 1002004, Meta_name ''pg_stat_statements'', Meta_semantics ''conditional_full'',
      Meta_sort_key [''dbid'', ''userid'', ''queryid'', ''toplevel'', ''ts''], Meta_identity
      [''queryid'', ''userid'', ''dbid'', ''toplevel'']]
     [field ''ts'' (Ty ''Ts'') ''t'', field ''queryid'' (Opt ''i64'') ''l'', field ''userid''
      (Ty ''u32'') ''l'', field ''dbid'' (Ty ''u32'') ''l'', field ''toplevel'' (Ty ''bool'')
      ''l'', field ''datname'' (Opt ''StrId'') ''l'', field ''usename'' (Opt ''StrId'') ''l'',
      field ''query'' (Opt ''StrId'') ''l'', field_in ''calls'' (Ty ''i64'') ''c'' ''count'',
      field_in ''rows'' (Ty ''i64'') ''c'' ''count'', field_in ''plans'' (Ty ''i64'') ''c''
      ''count'', field_in ''total_exec_time'' (Ty ''f64'') ''c'' ''milliseconds'', field_in
      ''total_plan_time'' (Ty ''f64'') ''c'' ''milliseconds'', field_in ''min_exec_time'' (Ty
      ''f64'') ''g'' ''milliseconds'', field_in ''max_exec_time'' (Ty ''f64'') ''g''
      ''milliseconds'', field_in ''mean_exec_time'' (Ty ''f64'') ''g'' ''milliseconds'',
      field_in ''stddev_exec_time'' (Ty ''f64'') ''g'' ''milliseconds'', field_in
      ''min_plan_time'' (Ty ''f64'') ''g'' ''milliseconds'', field_in ''max_plan_time'' (Ty
      ''f64'') ''g'' ''milliseconds'', field_in ''mean_plan_time'' (Ty ''f64'') ''g''
      ''milliseconds'', field_in ''stddev_plan_time'' (Ty ''f64'') ''g'' ''milliseconds'',
      field_in ''shared_blks_hit'' (Ty ''i64'') ''c'' ''count'', field_in ''shared_blks_read''
      (Ty ''i64'') ''c'' ''count'', field_in ''shared_blks_dirtied'' (Ty ''i64'') ''c''
      ''count'', field_in ''shared_blks_written'' (Ty ''i64'') ''c'' ''count'', field_in
      ''local_blks_hit'' (Ty ''i64'') ''c'' ''count'', field_in ''local_blks_read'' (Ty ''i64'')
      ''c'' ''count'', field_in ''local_blks_dirtied'' (Ty ''i64'') ''c'' ''count'', field_in
      ''local_blks_written'' (Ty ''i64'') ''c'' ''count'', field_in ''temp_blks_read'' (Ty
      ''i64'') ''c'' ''count'', field_in ''temp_blks_written'' (Ty ''i64'') ''c'' ''count'',
      field_in ''blk_read_time'' (Ty ''f64'') ''c'' ''milliseconds'', field_in
      ''blk_write_time'' (Ty ''f64'') ''c'' ''milliseconds'', field_in ''temp_blk_read_time''
      (Ty ''f64'') ''c'' ''milliseconds'', field_in ''temp_blk_write_time'' (Ty ''f64'') ''c''
      ''milliseconds'', field_in ''wal_records'' (Ty ''i64'') ''c'' ''count'', field_in
      ''wal_fpi'' (Ty ''i64'') ''c'' ''count'', field_in ''wal_bytes'' (Ty ''i64'') ''c''
      ''bytes'', field_in ''jit_functions'' (Ty ''i64'') ''c'' ''count'', field_in
      ''jit_generation_time'' (Ty ''f64'') ''c'' ''milliseconds'', field_in
      ''jit_inlining_count'' (Ty ''i64'') ''c'' ''count'', field_in ''jit_inlining_time'' (Ty
      ''f64'') ''c'' ''milliseconds'', field_in ''jit_optimization_count'' (Ty ''i64'') ''c''
      ''count'', field_in ''jit_optimization_time'' (Ty ''f64'') ''c'' ''milliseconds'',
      field_in ''jit_emission_count'' (Ty ''i64'') ''c'' ''count'', field_in
      ''jit_emission_time'' (Ty ''f64'') ''c'' ''milliseconds'']"

lemma declares_PgStatStatementsV4: "declares struct_PgStatStatementsV4 1002004 ''pg_stat_statements''"
  unfolding struct_PgStatStatementsV4_def by (rule declaresI) (simp_all add: declare_simps)

definition struct_PgStatStatementsV3 :: rust_struct where
  "struct_PgStatStatementsV3 = section_struct ''PgStatStatementsV3''
     [Meta_id 1002003, Meta_name ''pg_stat_statements'', Meta_semantics ''conditional_full'',
      Meta_sort_key [''dbid'', ''userid'', ''queryid'', ''toplevel'', ''ts''], Meta_identity
      [''queryid'', ''userid'', ''dbid'', ''toplevel'']]
     [field ''ts'' (Ty ''Ts'') ''t'', field ''queryid'' (Opt ''i64'') ''l'', field ''userid''
      (Ty ''u32'') ''l'', field ''dbid'' (Ty ''u32'') ''l'', field ''toplevel'' (Ty ''bool'')
      ''l'', field ''datname'' (Opt ''StrId'') ''l'', field ''usename'' (Opt ''StrId'') ''l'',
      field ''query'' (Opt ''StrId'') ''l'', field_in ''calls'' (Ty ''i64'') ''c'' ''count'',
      field_in ''rows'' (Ty ''i64'') ''c'' ''count'', field_in ''plans'' (Ty ''i64'') ''c''
      ''count'', field_in ''total_exec_time'' (Ty ''f64'') ''c'' ''milliseconds'', field_in
      ''total_plan_time'' (Ty ''f64'') ''c'' ''milliseconds'', field_in ''min_exec_time'' (Ty
      ''f64'') ''g'' ''milliseconds'', field_in ''max_exec_time'' (Ty ''f64'') ''g''
      ''milliseconds'', field_in ''mean_exec_time'' (Ty ''f64'') ''g'' ''milliseconds'',
      field_in ''stddev_exec_time'' (Ty ''f64'') ''g'' ''milliseconds'', field_in
      ''min_plan_time'' (Ty ''f64'') ''g'' ''milliseconds'', field_in ''max_plan_time'' (Ty
      ''f64'') ''g'' ''milliseconds'', field_in ''mean_plan_time'' (Ty ''f64'') ''g''
      ''milliseconds'', field_in ''stddev_plan_time'' (Ty ''f64'') ''g'' ''milliseconds'',
      field_in ''shared_blks_hit'' (Ty ''i64'') ''c'' ''count'', field_in ''shared_blks_read''
      (Ty ''i64'') ''c'' ''count'', field_in ''shared_blks_dirtied'' (Ty ''i64'') ''c''
      ''count'', field_in ''shared_blks_written'' (Ty ''i64'') ''c'' ''count'', field_in
      ''local_blks_hit'' (Ty ''i64'') ''c'' ''count'', field_in ''local_blks_read'' (Ty ''i64'')
      ''c'' ''count'', field_in ''local_blks_dirtied'' (Ty ''i64'') ''c'' ''count'', field_in
      ''local_blks_written'' (Ty ''i64'') ''c'' ''count'', field_in ''temp_blks_read'' (Ty
      ''i64'') ''c'' ''count'', field_in ''temp_blks_written'' (Ty ''i64'') ''c'' ''count'',
      field_in ''blk_read_time'' (Ty ''f64'') ''c'' ''milliseconds'', field_in
      ''blk_write_time'' (Ty ''f64'') ''c'' ''milliseconds'', field_in ''wal_records'' (Ty
      ''i64'') ''c'' ''count'', field_in ''wal_fpi'' (Ty ''i64'') ''c'' ''count'', field_in
      ''wal_bytes'' (Ty ''i64'') ''c'' ''bytes'']"

lemma declares_PgStatStatementsV3: "declares struct_PgStatStatementsV3 1002003 ''pg_stat_statements''"
  unfolding struct_PgStatStatementsV3_def by (rule declaresI) (simp_all add: declare_simps)

definition struct_PgStatStatementsV2 :: rust_struct where
  "struct_PgStatStatementsV2 = section_struct ''PgStatStatementsV2''
     [Meta_id 1002002, Meta_name ''pg_stat_statements'', Meta_semantics ''conditional_full'',
      Meta_sort_key [''dbid'', ''userid'', ''queryid'', ''ts''], Meta_identity [''queryid'',
      ''userid'', ''dbid'']]
     [field ''ts'' (Ty ''Ts'') ''t'', field ''queryid'' (Opt ''i64'') ''l'', field ''userid''
      (Ty ''u32'') ''l'', field ''dbid'' (Ty ''u32'') ''l'', field ''datname'' (Opt ''StrId'')
      ''l'', field ''usename'' (Opt ''StrId'') ''l'', field ''query'' (Opt ''StrId'') ''l'',
      field_in ''calls'' (Ty ''i64'') ''c'' ''count'', field_in ''rows'' (Ty ''i64'') ''c''
      ''count'', field_in ''plans'' (Ty ''i64'') ''c'' ''count'', field_in ''total_exec_time''
      (Ty ''f64'') ''c'' ''milliseconds'', field_in ''total_plan_time'' (Ty ''f64'') ''c''
      ''milliseconds'', field_in ''min_exec_time'' (Ty ''f64'') ''g'' ''milliseconds'', field_in
      ''max_exec_time'' (Ty ''f64'') ''g'' ''milliseconds'', field_in ''mean_exec_time'' (Ty
      ''f64'') ''g'' ''milliseconds'', field_in ''stddev_exec_time'' (Ty ''f64'') ''g''
      ''milliseconds'', field_in ''min_plan_time'' (Ty ''f64'') ''g'' ''milliseconds'', field_in
      ''max_plan_time'' (Ty ''f64'') ''g'' ''milliseconds'', field_in ''mean_plan_time'' (Ty
      ''f64'') ''g'' ''milliseconds'', field_in ''stddev_plan_time'' (Ty ''f64'') ''g''
      ''milliseconds'', field_in ''shared_blks_hit'' (Ty ''i64'') ''c'' ''count'', field_in
      ''shared_blks_read'' (Ty ''i64'') ''c'' ''count'', field_in ''shared_blks_dirtied'' (Ty
      ''i64'') ''c'' ''count'', field_in ''shared_blks_written'' (Ty ''i64'') ''c'' ''count'',
      field_in ''local_blks_hit'' (Ty ''i64'') ''c'' ''count'', field_in ''local_blks_read'' (Ty
      ''i64'') ''c'' ''count'', field_in ''local_blks_dirtied'' (Ty ''i64'') ''c'' ''count'',
      field_in ''local_blks_written'' (Ty ''i64'') ''c'' ''count'', field_in ''temp_blks_read''
      (Ty ''i64'') ''c'' ''count'', field_in ''temp_blks_written'' (Ty ''i64'') ''c'' ''count'',
      field_in ''blk_read_time'' (Ty ''f64'') ''c'' ''milliseconds'', field_in
      ''blk_write_time'' (Ty ''f64'') ''c'' ''milliseconds'', field_in ''wal_records'' (Ty
      ''i64'') ''c'' ''count'', field_in ''wal_fpi'' (Ty ''i64'') ''c'' ''count'', field_in
      ''wal_bytes'' (Ty ''i64'') ''c'' ''bytes'']"

lemma declares_PgStatStatementsV2: "declares struct_PgStatStatementsV2 1002002 ''pg_stat_statements''"
  unfolding struct_PgStatStatementsV2_def by (rule declaresI) (simp_all add: declare_simps)

definition struct_PgStatStatementsV1 :: rust_struct where
  "struct_PgStatStatementsV1 = section_struct ''PgStatStatementsV1''
     [Meta_id 1002001, Meta_name ''pg_stat_statements'', Meta_semantics ''conditional_full'',
      Meta_sort_key [''dbid'', ''userid'', ''queryid'', ''ts''], Meta_identity [''queryid'',
      ''userid'', ''dbid'']]
     [field ''ts'' (Ty ''Ts'') ''t'', field ''queryid'' (Opt ''i64'') ''l'', field ''userid''
      (Ty ''u32'') ''l'', field ''dbid'' (Ty ''u32'') ''l'', field ''datname'' (Opt ''StrId'')
      ''l'', field ''usename'' (Opt ''StrId'') ''l'', field ''query'' (Opt ''StrId'') ''l'',
      field_in ''calls'' (Ty ''i64'') ''c'' ''count'', field_in ''rows'' (Ty ''i64'') ''c''
      ''count'', field_in ''total_time'' (Ty ''f64'') ''c'' ''milliseconds'', field_in
      ''min_time'' (Ty ''f64'') ''g'' ''milliseconds'', field_in ''max_time'' (Ty ''f64'') ''g''
      ''milliseconds'', field_in ''mean_time'' (Ty ''f64'') ''g'' ''milliseconds'', field_in
      ''stddev_time'' (Ty ''f64'') ''g'' ''milliseconds'', field_in ''shared_blks_hit'' (Ty
      ''i64'') ''c'' ''count'', field_in ''shared_blks_read'' (Ty ''i64'') ''c'' ''count'',
      field_in ''shared_blks_dirtied'' (Ty ''i64'') ''c'' ''count'', field_in
      ''shared_blks_written'' (Ty ''i64'') ''c'' ''count'', field_in ''local_blks_hit'' (Ty
      ''i64'') ''c'' ''count'', field_in ''local_blks_read'' (Ty ''i64'') ''c'' ''count'',
      field_in ''local_blks_dirtied'' (Ty ''i64'') ''c'' ''count'', field_in
      ''local_blks_written'' (Ty ''i64'') ''c'' ''count'', field_in ''temp_blks_read'' (Ty
      ''i64'') ''c'' ''count'', field_in ''temp_blks_written'' (Ty ''i64'') ''c'' ''count'',
      field_in ''blk_read_time'' (Ty ''f64'') ''c'' ''milliseconds'', field_in
      ''blk_write_time'' (Ty ''f64'') ''c'' ''milliseconds'']"

lemma declares_PgStatStatementsV1: "declares struct_PgStatStatementsV1 1002001 ''pg_stat_statements''"
  unfolding struct_PgStatStatementsV1_def by (rule declaresI) (simp_all add: declare_simps)

definition struct_PgStatStatementsInfo :: rust_struct where
  "struct_PgStatStatementsInfo = section_struct ''PgStatStatementsInfo''
     [Meta_id 1015001, Meta_name ''pg_stat_statements_info'', Meta_semantics ''snapshot_full'',
      Meta_sort_key [''ts'']]
     [field ''ts'' (Ty ''Ts'') ''t'', field_in ''dealloc'' (Ty ''i64'') ''c'' ''count'',
      field_in ''stats_reset'' (Ty ''Ts'') ''g'' ''microseconds'']"

lemma declares_PgStatStatementsInfo: "declares struct_PgStatStatementsInfo 1015001 ''pg_stat_statements_info''"
  unfolding struct_PgStatStatementsInfo_def by (rule declaresI) (simp_all add: declare_simps)

definition struct_PgStorePlansVadvV1 :: rust_struct where
  "struct_PgStorePlansVadvV1 = section_struct ''PgStorePlansVadvV1''
     [Meta_id 1004001, Meta_name ''pg_store_plans_vadv'', Meta_semantics ''conditional_full'',
      Meta_sort_key [''dbid'', ''userid'', ''queryid'', ''planid''], Meta_identity [''userid'',
      ''dbid'', ''queryid'', ''planid'']]
     [field ''ts'' (Ty ''Ts'') ''t'', field ''userid'' (Ty ''u32'') ''l'', field ''dbid'' (Ty
      ''u32'') ''l'', field ''queryid'' (Ty ''i64'') ''l'', field ''planid'' (Ty ''i64'') ''l'',
      field ''queryid_stat_statements'' (Ty ''i64'') ''l'', field ''datname'' (Opt ''StrId'')
      ''l'', field ''usename'' (Opt ''StrId'') ''l'', field ''plan'' (Opt ''StrId'') ''l'',
      field_in ''calls'' (Ty ''i64'') ''c'' ''count'', field_in ''slow_log_calls'' (Ty ''i64'')
      ''c'' ''count'', field_in ''total_time'' (Ty ''f64'') ''c'' ''milliseconds'', field_in
      ''min_time'' (Ty ''f64'') ''g'' ''milliseconds'', field_in ''max_time'' (Ty ''f64'') ''g''
      ''milliseconds'', field_in ''mean_time'' (Ty ''f64'') ''g'' ''milliseconds'', field_in
      ''stddev_time'' (Ty ''f64'') ''g'' ''milliseconds'', field_in ''rows'' (Ty ''i64'') ''c''
      ''count'', field_in ''shared_blks_hit'' (Ty ''i64'') ''c'' ''count'', field_in
      ''shared_blks_read'' (Ty ''i64'') ''c'' ''count'', field_in ''shared_blks_dirtied'' (Ty
      ''i64'') ''c'' ''count'', field_in ''shared_blks_written'' (Ty ''i64'') ''c'' ''count'',
      field_in ''local_blks_hit'' (Ty ''i64'') ''c'' ''count'', field_in ''local_blks_read'' (Ty
      ''i64'') ''c'' ''count'', field_in ''local_blks_dirtied'' (Ty ''i64'') ''c'' ''count'',
      field_in ''local_blks_written'' (Ty ''i64'') ''c'' ''count'', field_in ''temp_blks_read''
      (Ty ''i64'') ''c'' ''count'', field_in ''temp_blks_written'' (Ty ''i64'') ''c'' ''count'',
      field_in ''blk_read_time'' (Ty ''f64'') ''c'' ''milliseconds'', field_in
      ''blk_write_time'' (Ty ''f64'') ''c'' ''milliseconds'', field_in ''first_call'' (Ty
      ''Ts'') ''g'' ''microseconds'', field_in ''last_call'' (Ty ''Ts'') ''g'' ''microseconds'',
      field_in ''total_plan_time'' (Ty ''f64'') ''c'' ''milliseconds'', field_in
      ''min_plan_time'' (Ty ''f64'') ''g'' ''milliseconds'', field_in ''max_plan_time'' (Ty
      ''f64'') ''g'' ''milliseconds'', field_in ''mean_plan_time'' (Ty ''f64'') ''g''
      ''milliseconds'']"

lemma declares_PgStorePlansVadvV1: "declares struct_PgStorePlansVadvV1 1004001 ''pg_store_plans_vadv''"
  unfolding struct_PgStorePlansVadvV1_def by (rule declaresI) (simp_all add: declare_simps)

definition struct_PgStorePlansOsscV1 :: rust_struct where
  "struct_PgStorePlansOsscV1 = section_struct ''PgStorePlansOsscV1''
     [Meta_id 1003001, Meta_name ''pg_store_plans_ossc'', Meta_semantics ''conditional_full'',
      Meta_identity [''userid'', ''dbid'', ''queryid'', ''planid''], Meta_sort_key [''dbid'',
      ''userid'', ''queryid'', ''planid'']]
     [field ''ts'' (Ty ''Ts'') ''t'', field ''queryid'' (Ty ''i64'') ''l'', field ''planid'' (Ty
      ''i64'') ''l'', field ''userid'' (Ty ''u32'') ''l'', field ''dbid'' (Ty ''u32'') ''l'',
      field ''datname'' (Opt ''StrId'') ''l'', field ''usename'' (Opt ''StrId'') ''l'', field
      ''plan'' (Opt ''StrId'') ''l'', field_in ''calls'' (Ty ''i64'') ''c'' ''count'', field_in
      ''total_time'' (Ty ''f64'') ''c'' ''milliseconds'', field_in ''min_time'' (Ty ''f64'')
      ''g'' ''milliseconds'', field_in ''max_time'' (Ty ''f64'') ''g'' ''milliseconds'',
      field_in ''mean_time'' (Ty ''f64'') ''g'' ''milliseconds'', field_in ''stddev_time'' (Ty
      ''f64'') ''g'' ''milliseconds'', field_in ''rows'' (Ty ''i64'') ''c'' ''count'', field_in
      ''shared_blks_hit'' (Ty ''i64'') ''c'' ''count'', field_in ''shared_blks_read'' (Ty
      ''i64'') ''c'' ''count'', field_in ''shared_blks_dirtied'' (Ty ''i64'') ''c'' ''count'',
      field_in ''shared_blks_written'' (Ty ''i64'') ''c'' ''count'', field_in ''local_blks_hit''
      (Ty ''i64'') ''c'' ''count'', field_in ''local_blks_read'' (Ty ''i64'') ''c'' ''count'',
      field_in ''local_blks_dirtied'' (Ty ''i64'') ''c'' ''count'', field_in
      ''local_blks_written'' (Ty ''i64'') ''c'' ''count'', field_in ''temp_blks_read'' (Ty
      ''i64'') ''c'' ''count'', field_in ''temp_blks_written'' (Ty ''i64'') ''c'' ''count'',
      field_in ''shared_blk_read_time'' (Ty ''f64'') ''c'' ''milliseconds'', field_in
      ''shared_blk_write_time'' (Ty ''f64'') ''c'' ''milliseconds'', field_in
      ''local_blk_read_time'' (Ty ''f64'') ''c'' ''milliseconds'', field_in
      ''local_blk_write_time'' (Ty ''f64'') ''c'' ''milliseconds'', field_in
      ''temp_blk_read_time'' (Ty ''f64'') ''c'' ''milliseconds'', field_in
      ''temp_blk_write_time'' (Ty ''f64'') ''c'' ''milliseconds'', field_in ''first_call'' (Ty
      ''Ts'') ''g'' ''microseconds'', field_in ''last_call'' (Ty ''Ts'') ''g''
      ''microseconds'']"

lemma declares_PgStorePlansOsscV1: "declares struct_PgStorePlansOsscV1 1003001 ''pg_store_plans_ossc''"
  unfolding struct_PgStorePlansOsscV1_def by (rule declaresI) (simp_all add: declare_simps)

definition struct_PgStorePlansDatasentinelV1 :: rust_struct where
  "struct_PgStorePlansDatasentinelV1 = section_struct ''PgStorePlansDatasentinelV1''
     [Meta_id 1018001, Meta_name ''pg_store_plans_datasentinel'', Meta_semantics
      ''conditional_full'', Meta_identity [''userid'', ''dbid'', ''queryid'', ''planid''],
      Meta_sort_key [''dbid'', ''userid'', ''queryid'', ''planid'']]
     [field ''ts'' (Ty ''Ts'') ''t'', field ''queryid'' (Ty ''i64'') ''l'', field ''planid'' (Ty
      ''i64'') ''l'', field ''userid'' (Ty ''u32'') ''l'', field ''dbid'' (Ty ''u32'') ''l'',
      field ''datname'' (Opt ''StrId'') ''l'', field ''usename'' (Opt ''StrId'') ''l'', field
      ''plan'' (Opt ''StrId'') ''l'', field ''relids'' (Opt ''StrId'') ''l'', field ''cmd_type''
      (Opt ''StrId'') ''l'', field_in ''calls'' (Ty ''i64'') ''c'' ''count'', field_in
      ''total_time'' (Ty ''f64'') ''c'' ''milliseconds'', field_in ''min_time'' (Ty ''f64'')
      ''g'' ''milliseconds'', field_in ''max_time'' (Ty ''f64'') ''g'' ''milliseconds'',
      field_in ''mean_time'' (Ty ''f64'') ''g'' ''milliseconds'', field_in ''stddev_time'' (Ty
      ''f64'') ''g'' ''milliseconds'', field_in ''rows'' (Ty ''i64'') ''c'' ''count'', field_in
      ''shared_blks_hit'' (Ty ''i64'') ''c'' ''count'', field_in ''shared_blks_read'' (Ty
      ''i64'') ''c'' ''count'', field_in ''shared_blks_dirtied'' (Ty ''i64'') ''c'' ''count'',
      field_in ''shared_blks_written'' (Ty ''i64'') ''c'' ''count'', field_in ''local_blks_hit''
      (Ty ''i64'') ''c'' ''count'', field_in ''local_blks_read'' (Ty ''i64'') ''c'' ''count'',
      field_in ''local_blks_dirtied'' (Ty ''i64'') ''c'' ''count'', field_in
      ''local_blks_written'' (Ty ''i64'') ''c'' ''count'', field_in ''temp_blks_read'' (Ty
      ''i64'') ''c'' ''count'', field_in ''temp_blks_written'' (Ty ''i64'') ''c'' ''count'',
      field_in ''shared_blk_read_time'' (Ty ''f64'') ''c'' ''milliseconds'', field_in
      ''shared_blk_write_time'' (Ty ''f64'') ''c'' ''milliseconds'', field_in
      ''local_blk_read_time'' (Ty ''f64'') ''c'' ''milliseconds'', field_in
      ''local_blk_write_time'' (Ty ''f64'') ''c'' ''milliseconds'', field_in
      ''temp_blk_read_time'' (Ty ''f64'') ''c'' ''milliseconds'', field_in
      ''temp_blk_write_time'' (Ty ''f64'') ''c'' ''milliseconds'', field_in ''first_call'' (Opt
      ''Ts'') ''g'' ''microseconds'', field_in ''last_call'' (Opt ''Ts'') ''g''
      ''microseconds'']"

lemma declares_PgStorePlansDatasentinelV1: "declares struct_PgStorePlansDatasentinelV1 1018001 ''pg_store_plans_datasentinel''"
  unfolding struct_PgStorePlansDatasentinelV1_def by (rule declaresI) (simp_all add: declare_simps)

definition struct_PgStorePlansInfo :: rust_struct where
  "struct_PgStorePlansInfo = section_struct ''PgStorePlansInfo''
     [Meta_id 1016001, Meta_name ''pg_store_plans_info'', Meta_semantics ''snapshot_full'',
      Meta_sort_key [''ts'']]
     [field ''ts'' (Ty ''Ts'') ''t'', field_in ''dealloc'' (Ty ''i64'') ''c'' ''count'',
      field_in ''stats_reset'' (Ty ''Ts'') ''g'' ''microseconds'']"

lemma declares_PgStorePlansInfo: "declares struct_PgStorePlansInfo 1016001 ''pg_store_plans_info''"
  unfolding struct_PgStorePlansInfo_def by (rule declaresI) (simp_all add: declare_simps)

end
