(* ===== verification/Registry_Unions.thy ===== *)
theory Registry_Unions
  imports Registry_Os Registry_Cgroup Registry_Pg_Activity Registry_Pg_Stat Registry_Pg_Statements
begin

text \<open>
  Layout versions that share a logical name: the union of their columns, as readers merge them,
  and the proof that every version conforms to it.
\<close>

section \<open>Layout versions that share a name\<close>

text \<open>
  The union of the columns of the layouts that share a logical name, as readers merge them: the
  type, class and unit of every column name.
\<close>

type_synonym union_schema = "(string \<times> column_type \<times> column_class \<times> column_unit option) list"

definition union_instance_metadata :: union_schema where
  "union_instance_metadata =
    [(''ts'', Ts, Timestamp, None), (''hostname'', StrId, Label, None), (''kernel_version'',
     StrId, Label, None), (''environment'', U8, Label, None), (''clock_ticks_per_sec'', I64,
     Label, None), (''page_size_bytes'', I64, Label, None), (''boot_id'', StrId, Label, None),
     (''btime'', Ts, Label, None), (''postgresql_enabled'', Bool, Label, None),
     (''postgresql_interval_seconds'', U64, Label, Some Seconds),
     (''postgresql_effective_cpus'', U32, Label, None), (''os_enabled'', Bool, Label, None),
     (''postgresql_processes_shared'', Bool, Label, None),
     (''postgresql_instance_interval_seconds'', U64, Label, Some Seconds),
     (''postgresql_relations_interval_seconds'', U64, Label, Some Seconds),
     (''postgresql_statements_interval_seconds'', U64, Label, Some Seconds)]"

definition union_os_cgroup_cpu :: union_schema where
  "union_os_cgroup_cpu =
    [(''ts'', Ts, Timestamp, None), (''cgroup_path'', StrId, Label, None), (''usage_usec'', I64,
     Cumulative, Some Microseconds), (''user_usec'', I64, Cumulative, Some Microseconds),
     (''system_usec'', I64, Cumulative, Some Microseconds), (''throttled_usec'', I64,
     Cumulative, Some Microseconds), (''nr_throttled'', I64, Cumulative, Some Count),
     (''quota_usec'', I64, Gauge, Some Microseconds), (''period_usec'', I64, Gauge, Some
     Microseconds), (''scope'', U8, Label, None), (''cpuset_cpus'', I64, Gauge, Some Count),
     (''cgroup_identity'', StrId, Label, None)]"

definition union_os_cgroup_memory :: union_schema where
  "union_os_cgroup_memory =
    [(''ts'', Ts, Timestamp, None), (''cgroup_path'', StrId, Label, None), (''current'', I64,
     Gauge, Some Bytes), (''max'', I64, Gauge, Some Bytes), (''anon'', I64, Gauge, Some Bytes),
     (''file'', I64, Gauge, Some Bytes), (''kernel'', I64, Gauge, Some Bytes), (''slab'', I64,
     Gauge, Some Bytes), (''low_events'', I64, Cumulative, Some Count), (''high_events'', I64,
     Cumulative, Some Count), (''max_events'', I64, Cumulative, Some Count), (''oom_events'',
     I64, Cumulative, Some Count), (''oom_kill'', I64, Cumulative, Some Count), (''scope'', U8,
     Label, None), (''shmem'', I64, Gauge, Some Bytes), (''cgroup_identity'', StrId, Label,
     None), (''max_unlimited'', Bool, Label, None)]"

definition union_os_cgroup_io :: union_schema where
  "union_os_cgroup_io =
    [(''ts'', Ts, Timestamp, None), (''cgroup_path'', StrId, Label, None), (''major'', U32,
     Label, None), (''minor'', U32, Label, None), (''rbytes'', I64, Cumulative, Some Bytes),
     (''wbytes'', I64, Cumulative, Some Bytes), (''rios'', I64, Cumulative, Some Count),
     (''wios'', I64, Cumulative, Some Count), (''scope'', U8, Label, None),
     (''cgroup_identity'', StrId, Label, None)]"

definition union_os_cgroup_context :: union_schema where
  "union_os_cgroup_context =
    [(''ts'', Ts, Timestamp, None), (''cgroup_version'', U8, Label, None), (''cpu_path'', StrId,
     Label, None), (''memory_path'', StrId, Label, None), (''io_path'', StrId, Label, None),
     (''cpuset_cpus'', I64, Gauge, Some Count), (''effective_cpu_quota_usec'', I64, Gauge, Some
     Microseconds), (''effective_cpu_period_usec'', I64, Gauge, Some Microseconds),
     (''effective_memory_max'', I64, Gauge, Some Bytes), (''scope'', U8, Label, None),
     (''pids_path'', StrId, Label, None), (''cpu_identity'', StrId, Label, None),
     (''memory_identity'', StrId, Label, None), (''io_identity'', StrId, Label, None),
     (''pids_identity'', StrId, Label, None), (''cpu_root'', StrId, Label, None),
     (''memory_root'', StrId, Label, None), (''io_root'', StrId, Label, None), (''pids_root'',
     StrId, Label, None)]"

definition union_pg_stat_bgwriter :: union_schema where
  "union_pg_stat_bgwriter =
    [(''ts'', Ts, Timestamp, None), (''checkpoints_timed'', I64, Cumulative, Some Count),
     (''checkpoints_req'', I64, Cumulative, Some Count), (''checkpoint_write_time'', F64,
     Cumulative, Some Milliseconds), (''checkpoint_sync_time'', F64, Cumulative, Some
     Milliseconds), (''buffers_checkpoint'', I64, Cumulative, Some Count), (''buffers_clean'',
     I64, Cumulative, Some Count), (''maxwritten_clean'', I64, Cumulative, Some Count),
     (''buffers_backend'', I64, Cumulative, Some Count), (''buffers_backend_fsync'', I64,
     Cumulative, Some Count), (''buffers_alloc'', I64, Cumulative, Some Count),
     (''stats_reset'', Ts, Gauge, Some Microseconds)]"

definition union_pg_stat_database :: union_schema where
  "union_pg_stat_database =
    [(''ts'', Ts, Timestamp, None), (''datid'', U32, Label, None), (''datname'', StrId, Label,
     None), (''numbackends'', I32, Gauge, Some Count), (''xact_commit'', I64, Cumulative, Some
     Count), (''xact_rollback'', I64, Cumulative, Some Count), (''blks_read'', I64, Cumulative,
     Some Count), (''blks_hit'', I64, Cumulative, Some Count), (''tup_returned'', I64,
     Cumulative, Some Count), (''tup_fetched'', I64, Cumulative, Some Count), (''tup_inserted'',
     I64, Cumulative, Some Count), (''tup_updated'', I64, Cumulative, Some Count),
     (''tup_deleted'', I64, Cumulative, Some Count), (''conflicts'', I64, Cumulative, Some
     Count), (''temp_files'', I64, Cumulative, Some Count), (''temp_bytes'', I64, Cumulative,
     Some Bytes), (''deadlocks'', I64, Cumulative, Some Count), (''blk_read_time'', F64,
     Cumulative, Some Milliseconds), (''blk_write_time'', F64, Cumulative, Some Milliseconds),
     (''stats_reset'', Ts, Gauge, Some Microseconds), (''frozen_xid_age'', I64, Gauge, Some
     Count), (''min_mxid_age'', I64, Gauge, Some Count), (''datconnlimit'', I32, Gauge, Some
     Count), (''datallowconn'', Bool, Label, None), (''datistemplate'', Bool, Label, None),
     (''checksum_failures'', I64, Cumulative, Some Count), (''checksum_last_failure'', Ts,
     Gauge, Some Microseconds), (''session_time'', F64, Cumulative, Some Milliseconds),
     (''active_time'', F64, Cumulative, Some Milliseconds), (''idle_in_transaction_time'', F64,
     Cumulative, Some Milliseconds), (''sessions'', I64, Cumulative, Some Count),
     (''sessions_abandoned'', I64, Cumulative, Some Count), (''sessions_fatal'', I64,
     Cumulative, Some Count), (''sessions_killed'', I64, Cumulative, Some Count),
     (''parallel_workers_to_launch'', I64, Cumulative, Some Count),
     (''parallel_workers_launched'', I64, Cumulative, Some Count)]"

definition union_pg_stat_io :: union_schema where
  "union_pg_stat_io =
    [(''ts'', Ts, Timestamp, None), (''backend_type'', StrId, Label, None), (''object'', StrId,
     Label, None), (''context'', StrId, Label, None), (''reads'', I64, Cumulative, Some Count),
     (''read_time'', F64, Cumulative, Some Milliseconds), (''writes'', I64, Cumulative, Some
     Count), (''write_time'', F64, Cumulative, Some Milliseconds), (''writebacks'', I64,
     Cumulative, Some Count), (''writeback_time'', F64, Cumulative, Some Milliseconds),
     (''extends'', I64, Cumulative, Some Count), (''extend_time'', F64, Cumulative, Some
     Milliseconds), (''op_bytes'', I64, Gauge, Some Bytes), (''hits'', I64, Cumulative, Some
     Count), (''evictions'', I64, Cumulative, Some Count), (''reuses'', I64, Cumulative, Some
     Count), (''fsyncs'', I64, Cumulative, Some Count), (''fsync_time'', F64, Cumulative, Some
     Milliseconds), (''stats_reset'', Ts, Gauge, Some Microseconds), (''read_bytes'', I64,
     Cumulative, Some Bytes), (''write_bytes'', I64, Cumulative, Some Bytes), (''extend_bytes'',
     I64, Cumulative, Some Bytes)]"

definition union_pg_stat_activity :: union_schema where
  "union_pg_stat_activity =
    [(''ts'', Ts, Timestamp, None), (''pid'', I32, Label, None), (''leader_pid'', I32, Label,
     None), (''datid'', U32, Label, None), (''datname'', StrId, Label, None), (''usename'',
     StrId, Label, None), (''application_name'', StrId, Label, None), (''client_addr'', StrId,
     Label, None), (''backend_type'', StrId, Label, None), (''state'', StrId, Label, None),
     (''wait_event_type'', StrId, Label, None), (''wait_event'', StrId, Label, None),
     (''query'', StrId, Label, None), (''query_id'', I64, Label, None), (''backend_xid_age'',
     I64, Gauge, Some Count), (''backend_xmin_age'', I64, Gauge, Some Count),
     (''backend_start'', Ts, Gauge, Some Microseconds), (''xact_start'', Ts, Gauge, Some
     Microseconds), (''query_start'', Ts, Gauge, Some Microseconds), (''state_change'', Ts,
     Gauge, Some Microseconds)]"

definition union_pg_stat_progress_vacuum :: union_schema where
  "union_pg_stat_progress_vacuum =
    [(''ts'', Ts, Timestamp, None), (''pid'', I32, Label, None), (''datid'', U32, Label, None),
     (''datname'', StrId, Label, None), (''relid'', U32, Label, None), (''schemaname'', StrId,
     Label, None), (''relname'', StrId, Label, None), (''is_autovacuum'', Bool, Label, None),
     (''phase'', StrId, Label, None), (''heap_blks_total'', I64, Gauge, Some Count),
     (''heap_blks_scanned'', I64, Gauge, Some Count), (''heap_blks_vacuumed'', I64, Gauge, Some
     Count), (''index_vacuum_count'', I64, Gauge, Some Count), (''max_dead_tuples'', I64, Gauge,
     Some Count), (''num_dead_tuples'', I64, Gauge, Some Count), (''max_dead_tuple_bytes'', I64,
     Gauge, Some Bytes), (''dead_tuple_bytes'', I64, Gauge, Some Bytes), (''num_dead_item_ids'',
     I64, Gauge, Some Count), (''indexes_total'', I64, Gauge, Some Count),
     (''indexes_processed'', I64, Gauge, Some Count), (''delay_time'', F64, Gauge, Some
     Milliseconds)]"

definition union_pg_stat_user_indexes :: union_schema where
  "union_pg_stat_user_indexes =
    [(''ts'', Ts, Timestamp, None), (''datid'', U32, Label, None), (''datname'', StrId, Label,
     None), (''indexrelid'', U32, Label, None), (''relid'', U32, Label, None), (''schemaname'',
     StrId, Label, None), (''relname'', StrId, Label, None), (''indexrelname'', StrId, Label,
     None), (''tablespace_oid'', U32, Label, None), (''tablespace'', StrId, Label, None),
     (''idx_scan'', I64, Cumulative, Some Count), (''idx_tup_read'', I64, Cumulative, Some
     Count), (''idx_tup_fetch'', I64, Cumulative, Some Count), (''main_fork_bytes'', I64, Gauge,
     Some Bytes), (''last_idx_scan'', Ts, Gauge, Some Microseconds), (''indisunique'', Bool,
     Label, None), (''indisprimary'', Bool, Label, None), (''indisvalid'', Bool, Label, None),
     (''indisexclusion'', Bool, Label, None), (''indisready'', Bool, Label, None), (''amname'',
     StrId, Label, None), (''indexdef'', StrId, Label, None), (''idx_blks_read'', I64,
     Cumulative, Some Count), (''idx_blks_hit'', I64, Cumulative, Some Count)]"

definition union_pg_stat_user_tables :: union_schema where
  "union_pg_stat_user_tables =
    [(''ts'', Ts, Timestamp, None), (''datid'', U32, Label, None), (''datname'', StrId, Label,
     None), (''relid'', U32, Label, None), (''schemaname'', StrId, Label, None), (''relname'',
     StrId, Label, None), (''tablespace_oid'', U32, Label, None), (''tablespace'', StrId, Label,
     None), (''seq_scan'', I64, Cumulative, Some Count), (''seq_tup_read'', I64, Cumulative,
     Some Count), (''idx_scan'', I64, Cumulative, Some Count), (''idx_tup_fetch'', I64,
     Cumulative, Some Count), (''n_tup_ins'', I64, Cumulative, Some Count), (''n_tup_upd'', I64,
     Cumulative, Some Count), (''n_tup_del'', I64, Cumulative, Some Count), (''n_tup_hot_upd'',
     I64, Cumulative, Some Count), (''n_tup_newpage_upd'', I64, Cumulative, Some Count),
     (''n_live_tup'', I64, Gauge, Some Count), (''n_dead_tup'', I64, Gauge, Some Count),
     (''n_mod_since_analyze'', I64, Gauge, Some Count), (''n_ins_since_vacuum'', I64, Gauge,
     Some Count), (''vacuum_count'', I64, Cumulative, Some Count), (''autovacuum_count'', I64,
     Cumulative, Some Count), (''analyze_count'', I64, Cumulative, Some Count),
     (''autoanalyze_count'', I64, Cumulative, Some Count), (''last_vacuum'', Ts, Gauge, Some
     Microseconds), (''last_autovacuum'', Ts, Gauge, Some Microseconds), (''last_analyze'', Ts,
     Gauge, Some Microseconds), (''last_autoanalyze'', Ts, Gauge, Some Microseconds),
     (''last_seq_scan'', Ts, Gauge, Some Microseconds), (''last_idx_scan'', Ts, Gauge, Some
     Microseconds), (''total_vacuum_time'', F64, Cumulative, Some Milliseconds),
     (''total_autovacuum_time'', F64, Cumulative, Some Milliseconds), (''total_analyze_time'',
     F64, Cumulative, Some Milliseconds), (''total_autoanalyze_time'', F64, Cumulative, Some
     Milliseconds), (''main_fork_bytes'', I64, Gauge, Some Bytes), (''toast_bytes'', I64, Gauge,
     Some Bytes), (''toast_n_live_tup'', I64, Gauge, Some Count), (''toast_n_dead_tup'', I64,
     Gauge, Some Count), (''toast_last_autovacuum'', Ts, Gauge, Some Microseconds),
     (''xid_age'', I64, Gauge, Some Count), (''mxid_age'', I64, Gauge, Some Count),
     (''reltuples'', I64, Gauge, Some Count), (''heap_blks_read'', I64, Cumulative, Some Count),
     (''heap_blks_hit'', I64, Cumulative, Some Count), (''idx_blks_read'', I64, Cumulative, Some
     Count), (''idx_blks_hit'', I64, Cumulative, Some Count), (''toast_blks_read'', I64,
     Cumulative, Some Count), (''toast_blks_hit'', I64, Cumulative, Some Count),
     (''tidx_blks_read'', I64, Cumulative, Some Count), (''tidx_blks_hit'', I64, Cumulative,
     Some Count)]"

definition union_pg_store_plans :: union_schema where
  "union_pg_store_plans =
    [(''ts'', Ts, Timestamp, None), (''userid'', U32, Label, None), (''dbid'', U32, Label,
     None), (''queryid'', I64, Label, None), (''planid'', I64, Label, None),
     (''queryid_stat_statements'', I64, Label, None), (''datname'', StrId, Label, None),
     (''usename'', StrId, Label, None), (''plan'', StrId, Label, None), (''calls'', I64,
     Cumulative, Some Count), (''slow_log_calls'', I64, Cumulative, Some Count),
     (''total_time'', F64, Cumulative, Some Milliseconds), (''min_time'', F64, Gauge, Some
     Milliseconds), (''max_time'', F64, Gauge, Some Milliseconds), (''mean_time'', F64, Gauge,
     Some Milliseconds), (''stddev_time'', F64, Gauge, Some Milliseconds), (''rows'', I64,
     Cumulative, Some Count), (''shared_blks_hit'', I64, Cumulative, Some Count),
     (''shared_blks_read'', I64, Cumulative, Some Count), (''shared_blks_dirtied'', I64,
     Cumulative, Some Count), (''shared_blks_written'', I64, Cumulative, Some Count),
     (''local_blks_hit'', I64, Cumulative, Some Count), (''local_blks_read'', I64, Cumulative,
     Some Count), (''local_blks_dirtied'', I64, Cumulative, Some Count),
     (''local_blks_written'', I64, Cumulative, Some Count), (''temp_blks_read'', I64,
     Cumulative, Some Count), (''temp_blks_written'', I64, Cumulative, Some Count),
     (''blk_read_time'', F64, Cumulative, Some Milliseconds), (''blk_write_time'', F64,
     Cumulative, Some Milliseconds), (''first_call'', Ts, Gauge, Some Microseconds),
     (''last_call'', Ts, Gauge, Some Microseconds), (''total_plan_time'', F64, Cumulative, Some
     Milliseconds), (''min_plan_time'', F64, Gauge, Some Milliseconds), (''max_plan_time'', F64,
     Gauge, Some Milliseconds), (''mean_plan_time'', F64, Gauge, Some Milliseconds),
     (''shared_blk_read_time'', F64, Cumulative, Some Milliseconds), (''shared_blk_write_time'',
     F64, Cumulative, Some Milliseconds), (''local_blk_read_time'', F64, Cumulative, Some
     Milliseconds), (''local_blk_write_time'', F64, Cumulative, Some Milliseconds),
     (''temp_blk_read_time'', F64, Cumulative, Some Milliseconds), (''temp_blk_write_time'',
     F64, Cumulative, Some Milliseconds), (''relids'', StrId, Label, None), (''cmd_type'',
     StrId, Label, None)]"

definition union_pg_stat_checkpointer :: union_schema where
  "union_pg_stat_checkpointer =
    [(''ts'', Ts, Timestamp, None), (''num_timed'', I64, Cumulative, Some Count),
     (''num_requested'', I64, Cumulative, Some Count), (''restartpoints_timed'', I64,
     Cumulative, Some Count), (''restartpoints_req'', I64, Cumulative, Some Count),
     (''restartpoints_done'', I64, Cumulative, Some Count), (''write_time'', F64, Cumulative,
     Some Milliseconds), (''sync_time'', F64, Cumulative, Some Milliseconds),
     (''buffers_written'', I64, Cumulative, Some Count), (''stats_reset'', Ts, Gauge, Some
     Microseconds), (''num_done'', I64, Cumulative, Some Count), (''slru_written'', I64,
     Cumulative, Some Count)]"

definition union_pg_stat_statements :: union_schema where
  "union_pg_stat_statements =
    [(''ts'', Ts, Timestamp, None), (''queryid'', I64, Label, None), (''userid'', U32, Label,
     None), (''dbid'', U32, Label, None), (''toplevel'', Bool, Label, None), (''datname'',
     StrId, Label, None), (''usename'', StrId, Label, None), (''query'', StrId, Label, None),
     (''calls'', I64, Cumulative, Some Count), (''rows'', I64, Cumulative, Some Count),
     (''plans'', I64, Cumulative, Some Count), (''total_exec_time'', F64, Cumulative, Some
     Milliseconds), (''total_plan_time'', F64, Cumulative, Some Milliseconds),
     (''min_exec_time'', F64, Gauge, Some Milliseconds), (''max_exec_time'', F64, Gauge, Some
     Milliseconds), (''mean_exec_time'', F64, Gauge, Some Milliseconds), (''stddev_exec_time'',
     F64, Gauge, Some Milliseconds), (''min_plan_time'', F64, Gauge, Some Milliseconds),
     (''max_plan_time'', F64, Gauge, Some Milliseconds), (''mean_plan_time'', F64, Gauge, Some
     Milliseconds), (''stddev_plan_time'', F64, Gauge, Some Milliseconds), (''shared_blks_hit'',
     I64, Cumulative, Some Count), (''shared_blks_read'', I64, Cumulative, Some Count),
     (''shared_blks_dirtied'', I64, Cumulative, Some Count), (''shared_blks_written'', I64,
     Cumulative, Some Count), (''local_blks_hit'', I64, Cumulative, Some Count),
     (''local_blks_read'', I64, Cumulative, Some Count), (''local_blks_dirtied'', I64,
     Cumulative, Some Count), (''local_blks_written'', I64, Cumulative, Some Count),
     (''temp_blks_read'', I64, Cumulative, Some Count), (''temp_blks_written'', I64, Cumulative,
     Some Count), (''shared_blk_read_time'', F64, Cumulative, Some Milliseconds),
     (''shared_blk_write_time'', F64, Cumulative, Some Milliseconds), (''local_blk_read_time'',
     F64, Cumulative, Some Milliseconds), (''local_blk_write_time'', F64, Cumulative, Some
     Milliseconds), (''temp_blk_read_time'', F64, Cumulative, Some Milliseconds),
     (''temp_blk_write_time'', F64, Cumulative, Some Milliseconds), (''wal_records'', I64,
     Cumulative, Some Count), (''wal_fpi'', I64, Cumulative, Some Count), (''wal_bytes'', I64,
     Cumulative, Some Bytes), (''wal_buffers_full'', I64, Cumulative, Some Count),
     (''jit_functions'', I64, Cumulative, Some Count), (''jit_generation_time'', F64,
     Cumulative, Some Milliseconds), (''jit_inlining_count'', I64, Cumulative, Some Count),
     (''jit_inlining_time'', F64, Cumulative, Some Milliseconds), (''jit_optimization_count'',
     I64, Cumulative, Some Count), (''jit_optimization_time'', F64, Cumulative, Some
     Milliseconds), (''jit_emission_count'', I64, Cumulative, Some Count),
     (''jit_emission_time'', F64, Cumulative, Some Milliseconds), (''jit_deform_count'', I64,
     Cumulative, Some Count), (''jit_deform_time'', F64, Cumulative, Some Milliseconds),
     (''parallel_workers_to_launch'', I64, Cumulative, Some Count),
     (''parallel_workers_launched'', I64, Cumulative, Some Count), (''stats_since'', Ts, Gauge,
     Some Microseconds), (''minmax_stats_since'', Ts, Gauge, Some Microseconds),
     (''blk_read_time'', F64, Cumulative, Some Milliseconds), (''blk_write_time'', F64,
     Cumulative, Some Milliseconds), (''total_time'', F64, Cumulative, Some Milliseconds),
     (''min_time'', F64, Gauge, Some Milliseconds), (''max_time'', F64, Gauge, Some
     Milliseconds), (''mean_time'', F64, Gauge, Some Milliseconds), (''stddev_time'', F64,
     Gauge, Some Milliseconds)]"

definition union_pg_stat_wal :: union_schema where
  "union_pg_stat_wal =
    [(''ts'', Ts, Timestamp, None), (''wal_records'', I64, Cumulative, Some Count),
     (''wal_fpi'', I64, Cumulative, Some Count), (''wal_bytes'', I64, Cumulative, Some Bytes),
     (''wal_buffers_full'', I64, Cumulative, Some Count), (''wal_write'', I64, Cumulative, Some
     Count), (''wal_sync'', I64, Cumulative, Some Count), (''wal_write_time'', F64, Cumulative,
     Some Milliseconds), (''wal_sync_time'', F64, Cumulative, Some Milliseconds),
     (''stats_reset'', Ts, Gauge, Some Microseconds)]"

definition union_pg_locks :: union_schema where
  "union_pg_locks =
    [(''ts'', Ts, Timestamp, None), (''pid'', I32, Label, None), (''blocked_by'', ListI32,
     Label, None), (''datid'', U32, Label, None), (''datname'', StrId, Label, None),
     (''usename'', StrId, Label, None), (''application_name'', StrId, Label, None),
     (''client_addr'', StrId, Label, None), (''backend_type'', StrId, Label, None), (''state'',
     StrId, Label, None), (''wait_event_type'', StrId, Label, None), (''wait_event'', StrId,
     Label, None), (''query'', StrId, Label, None), (''backend_xid_age'', I64, Gauge, Some
     Count), (''backend_xmin_age'', I64, Gauge, Some Count), (''backend_start'', Ts, Gauge, Some
     Microseconds), (''xact_start'', Ts, Gauge, Some Microseconds), (''query_start'', Ts, Gauge,
     Some Microseconds), (''state_change'', Ts, Gauge, Some Microseconds), (''lock_locktype'',
     StrId, Label, None), (''lock_mode'', StrId, Label, None), (''lock_database'', U32, Label,
     None), (''lock_relation'', U32, Label, None), (''lock_relname'', StrId, Label, None),
     (''lock_page'', I32, Gauge, Some Count), (''lock_tuple'', I16, Gauge, Some Count),
     (''lock_virtualxid'', StrId, Label, None), (''lock_transactionid'', I64, Label, None),
     (''lock_classid'', U32, Label, None), (''lock_objid'', U32, Label, None),
     (''lock_objsubid'', I16, Label, None), (''lock_target'', StrId, Label, None),
     (''waitstart'', Ts, Gauge, Some Microseconds)]"

definition union_pgbouncer_events :: union_schema where
  "union_pgbouncer_events =
    [(''ts'', Ts, Timestamp, None), (''source_file'', StrId, Label, None), (''level'', U8,
     Label, None), (''database'', StrId, Label, None), (''username'', StrId, Label, None),
     (''host'', StrId, Label, None), (''text'', StrId, Label, None), (''pid'', I32, Label,
     None), (''side'', StrId, Label, None), (''port'', U16, Label, None), (''age_s'', U64,
     Label, Some Seconds)]"

primrec schema_lookup :: "union_schema \<Rightarrow> string \<Rightarrow> (column_type \<times> column_class \<times> column_unit option) option" where
  "schema_lookup [] n = None"
| "schema_lookup (x # u) n = (if fst x = n then Some (snd x) else schema_lookup u n)"

definition conforming :: "union_schema \<Rightarrow> column \<Rightarrow> bool" where
  "conforming u col \<longleftrightarrow>
     schema_lookup u (col_name col) = Some (col_ty col, col_class col, col_unit col)"

primrec all_conforming :: "union_schema \<Rightarrow> column list \<Rightarrow> bool" where
  "all_conforming u [] \<longleftrightarrow> True"
| "all_conforming u (col # cols) \<longleftrightarrow> conforming u col \<and> all_conforming u cols"

definition conforms :: "rust_struct \<Rightarrow> union_schema \<Rightarrow> bool" where
  "conforms s u \<longleftrightarrow>
     (\<exists>cols. collect_results field_column (rs_fields s) = Ok cols \<and> all_conforming u cols)"

lemma conformsI:
  assumes "all_conforming u cols" and "collect_results field_column fs = Ok cols"
  shows "conforms (section_struct n ms fs) u"
  using assms by (auto simp: conforms_def section_struct_def)

text \<open>Congruences that keep the simplifier out of the schema while it walks the columns.\<close>

lemma conforming_congs:
  "n = m \<Longrightarrow> schema_lookup u n = schema_lookup u m"
  "col = col' \<Longrightarrow> conforming u col = conforming u col'"
  "cols = cols' \<Longrightarrow> all_conforming u cols = all_conforming u cols'"
  by simp_all

lemma conforms_InstanceMetadataV1: "conforms struct_InstanceMetadataV1 union_instance_metadata"
  unfolding struct_InstanceMetadataV1_def union_instance_metadata_def
  by (rule conformsI; simp add: expand_simps conforming_def cong: conforming_congs)

lemma conforms_InstanceMetadata: "conforms struct_InstanceMetadata union_instance_metadata"
  unfolding struct_InstanceMetadata_def union_instance_metadata_def
  by (rule conformsI; simp add: expand_simps conforming_def cong: conforming_congs)

lemma conforms_InstanceMetadataV3: "conforms struct_InstanceMetadataV3 union_instance_metadata"
  unfolding struct_InstanceMetadataV3_def union_instance_metadata_def
  by (rule conformsI; simp add: expand_simps conforming_def cong: conforming_congs)

lemma conforms_InstanceMetadataV4: "conforms struct_InstanceMetadataV4 union_instance_metadata"
  unfolding struct_InstanceMetadataV4_def union_instance_metadata_def
  by (rule conformsI; simp add: expand_simps conforming_def cong: conforming_congs)

lemma conforms_OsCgroupCpu: "conforms struct_OsCgroupCpu union_os_cgroup_cpu"
  unfolding struct_OsCgroupCpu_def union_os_cgroup_cpu_def
  by (rule conformsI; simp add: expand_simps conforming_def cong: conforming_congs)

lemma conforms_OsCgroupCpuV2: "conforms struct_OsCgroupCpuV2 union_os_cgroup_cpu"
  unfolding struct_OsCgroupCpuV2_def union_os_cgroup_cpu_def
  by (rule conformsI; simp add: expand_simps conforming_def cong: conforming_congs)

lemma conforms_OsCgroupCpuV3: "conforms struct_OsCgroupCpuV3 union_os_cgroup_cpu"
  unfolding struct_OsCgroupCpuV3_def union_os_cgroup_cpu_def
  by (rule conformsI; simp add: expand_simps conforming_def cong: conforming_congs)

lemma conforms_OsCgroupMemory: "conforms struct_OsCgroupMemory union_os_cgroup_memory"
  unfolding struct_OsCgroupMemory_def union_os_cgroup_memory_def
  by (rule conformsI; simp add: expand_simps conforming_def cong: conforming_congs)

lemma conforms_OsCgroupMemoryV2: "conforms struct_OsCgroupMemoryV2 union_os_cgroup_memory"
  unfolding struct_OsCgroupMemoryV2_def union_os_cgroup_memory_def
  by (rule conformsI; simp add: expand_simps conforming_def cong: conforming_congs)

lemma conforms_OsCgroupMemoryV3: "conforms struct_OsCgroupMemoryV3 union_os_cgroup_memory"
  unfolding struct_OsCgroupMemoryV3_def union_os_cgroup_memory_def
  by (rule conformsI; simp add: expand_simps conforming_def cong: conforming_congs)

lemma conforms_OsCgroupIo: "conforms struct_OsCgroupIo union_os_cgroup_io"
  unfolding struct_OsCgroupIo_def union_os_cgroup_io_def
  by (rule conformsI; simp add: expand_simps conforming_def cong: conforming_congs)

lemma conforms_OsCgroupIoV2: "conforms struct_OsCgroupIoV2 union_os_cgroup_io"
  unfolding struct_OsCgroupIoV2_def union_os_cgroup_io_def
  by (rule conformsI; simp add: expand_simps conforming_def cong: conforming_congs)

lemma conforms_OsCgroupContext: "conforms struct_OsCgroupContext union_os_cgroup_context"
  unfolding struct_OsCgroupContext_def union_os_cgroup_context_def
  by (rule conformsI; simp add: expand_simps conforming_def cong: conforming_congs)

lemma conforms_OsCgroupContextV2: "conforms struct_OsCgroupContextV2 union_os_cgroup_context"
  unfolding struct_OsCgroupContextV2_def union_os_cgroup_context_def
  by (rule conformsI; simp add: expand_simps conforming_def cong: conforming_congs)

lemma conforms_PgStatBgwriterV1: "conforms struct_PgStatBgwriterV1 union_pg_stat_bgwriter"
  unfolding struct_PgStatBgwriterV1_def union_pg_stat_bgwriter_def
  by (rule conformsI; simp add: expand_simps conforming_def cong: conforming_congs)

lemma conforms_PgStatBgwriterV2: "conforms struct_PgStatBgwriterV2 union_pg_stat_bgwriter"
  unfolding struct_PgStatBgwriterV2_def union_pg_stat_bgwriter_def
  by (rule conformsI; simp add: expand_simps conforming_def cong: conforming_congs)

lemma conforms_PgStatDatabaseV4: "conforms struct_PgStatDatabaseV4 union_pg_stat_database"
  unfolding struct_PgStatDatabaseV4_def union_pg_stat_database_def
  by (rule conformsI; simp add: expand_simps conforming_def cong: conforming_congs)

lemma conforms_PgStatDatabaseV3: "conforms struct_PgStatDatabaseV3 union_pg_stat_database"
  unfolding struct_PgStatDatabaseV3_def union_pg_stat_database_def
  by (rule conformsI; simp add: expand_simps conforming_def cong: conforming_congs)

lemma conforms_PgStatDatabaseV2: "conforms struct_PgStatDatabaseV2 union_pg_stat_database"
  unfolding struct_PgStatDatabaseV2_def union_pg_stat_database_def
  by (rule conformsI; simp add: expand_simps conforming_def cong: conforming_congs)

lemma conforms_PgStatDatabaseV1: "conforms struct_PgStatDatabaseV1 union_pg_stat_database"
  unfolding struct_PgStatDatabaseV1_def union_pg_stat_database_def
  by (rule conformsI; simp add: expand_simps conforming_def cong: conforming_congs)

lemma conforms_PgStatIoV1: "conforms struct_PgStatIoV1 union_pg_stat_io"
  unfolding struct_PgStatIoV1_def union_pg_stat_io_def
  by (rule conformsI; simp add: expand_simps conforming_def cong: conforming_congs)

lemma conforms_PgStatIoV2: "conforms struct_PgStatIoV2 union_pg_stat_io"
  unfolding struct_PgStatIoV2_def union_pg_stat_io_def
  by (rule conformsI; simp add: expand_simps conforming_def cong: conforming_congs)

lemma conforms_PgStatActivityV3: "conforms struct_PgStatActivityV3 union_pg_stat_activity"
  unfolding struct_PgStatActivityV3_def union_pg_stat_activity_def
  by (rule conformsI; simp add: expand_simps conforming_def cong: conforming_congs)

lemma conforms_PgStatActivityV2: "conforms struct_PgStatActivityV2 union_pg_stat_activity"
  unfolding struct_PgStatActivityV2_def union_pg_stat_activity_def
  by (rule conformsI; simp add: expand_simps conforming_def cong: conforming_congs)

lemma conforms_PgStatActivityV1: "conforms struct_PgStatActivityV1 union_pg_stat_activity"
  unfolding struct_PgStatActivityV1_def union_pg_stat_activity_def
  by (rule conformsI; simp add: expand_simps conforming_def cong: conforming_congs)

lemma conforms_PgStatProgressVacuumV1: "conforms struct_PgStatProgressVacuumV1 union_pg_stat_progress_vacuum"
  unfolding struct_PgStatProgressVacuumV1_def union_pg_stat_progress_vacuum_def
  by (rule conformsI; simp add: expand_simps conforming_def cong: conforming_congs)

lemma conforms_PgStatProgressVacuumV2: "conforms struct_PgStatProgressVacuumV2 union_pg_stat_progress_vacuum"
  unfolding struct_PgStatProgressVacuumV2_def union_pg_stat_progress_vacuum_def
  by (rule conformsI; simp add: expand_simps conforming_def cong: conforming_congs)

lemma conforms_PgStatProgressVacuumV3: "conforms struct_PgStatProgressVacuumV3 union_pg_stat_progress_vacuum"
  unfolding struct_PgStatProgressVacuumV3_def union_pg_stat_progress_vacuum_def
  by (rule conformsI; simp add: expand_simps conforming_def cong: conforming_congs)

lemma conforms_PgStatUserIndexesV2: "conforms struct_PgStatUserIndexesV2 union_pg_stat_user_indexes"
  unfolding struct_PgStatUserIndexesV2_def union_pg_stat_user_indexes_def
  by (rule conformsI; simp add: expand_simps conforming_def cong: conforming_congs)

lemma conforms_PgStatUserIndexesV1: "conforms struct_PgStatUserIndexesV1 union_pg_stat_user_indexes"
  unfolding struct_PgStatUserIndexesV1_def union_pg_stat_user_indexes_def
  by (rule conformsI; simp add: expand_simps conforming_def cong: conforming_congs)

lemma conforms_PgStatUserTablesV4: "conforms struct_PgStatUserTablesV4 union_pg_stat_user_tables"
  unfolding struct_PgStatUserTablesV4_def union_pg_stat_user_tables_def
  by (rule conformsI; simp add: expand_simps conforming_def cong: conforming_congs)

lemma conforms_PgStatUserTablesV3: "conforms struct_PgStatUserTablesV3 union_pg_stat_user_tables"
  unfolding struct_PgStatUserTablesV3_def union_pg_stat_user_tables_def
  by (rule conformsI; simp add: expand_simps conforming_def cong: conforming_congs)

lemma conforms_PgStatUserTablesV2: "conforms struct_PgStatUserTablesV2 union_pg_stat_user_tables"
  unfolding struct_PgStatUserTablesV2_def union_pg_stat_user_tables_def
  by (rule conformsI; simp add: expand_simps conforming_def cong: conforming_congs)

lemma conforms_PgStatUserTablesV1: "conforms struct_PgStatUserTablesV1 union_pg_stat_user_tables"
  unfolding struct_PgStatUserTablesV1_def union_pg_stat_user_tables_def
  by (rule conformsI; simp add: expand_simps conforming_def cong: conforming_congs)

lemma conforms_PgStorePlansVadvV1: "conforms struct_PgStorePlansVadvV1 union_pg_store_plans"
  unfolding struct_PgStorePlansVadvV1_def union_pg_store_plans_def
  by (rule conformsI; simp add: expand_simps conforming_def cong: conforming_congs)

lemma conforms_PgStorePlansOsscV1: "conforms struct_PgStorePlansOsscV1 union_pg_store_plans"
  unfolding struct_PgStorePlansOsscV1_def union_pg_store_plans_def
  by (rule conformsI; simp add: expand_simps conforming_def cong: conforming_congs)

lemma conforms_PgStorePlansDatasentinelV1: "conforms struct_PgStorePlansDatasentinelV1 union_pg_store_plans"
  unfolding struct_PgStorePlansDatasentinelV1_def union_pg_store_plans_def
  by (rule conformsI; simp add: expand_simps conforming_def cong: conforming_congs)

lemma conforms_PgStatCheckpointerV1: "conforms struct_PgStatCheckpointerV1 union_pg_stat_checkpointer"
  unfolding struct_PgStatCheckpointerV1_def union_pg_stat_checkpointer_def
  by (rule conformsI; simp add: expand_simps conforming_def cong: conforming_congs)

lemma conforms_PgStatCheckpointerV2: "conforms struct_PgStatCheckpointerV2 union_pg_stat_checkpointer"
  unfolding struct_PgStatCheckpointerV2_def union_pg_stat_checkpointer_def
  by (rule conformsI; simp add: expand_simps conforming_def cong: conforming_congs)

lemma conforms_PgStatStatementsV6: "conforms struct_PgStatStatementsV6 union_pg_stat_statements"
  unfolding struct_PgStatStatementsV6_def union_pg_stat_statements_def
  by (rule conformsI; simp add: expand_simps conforming_def cong: conforming_congs)

lemma conforms_PgStatStatementsV5: "conforms struct_PgStatStatementsV5 union_pg_stat_statements"
  unfolding struct_PgStatStatementsV5_def union_pg_stat_statements_def
  by (rule conformsI; simp add: expand_simps conforming_def cong: conforming_congs)

lemma conforms_PgStatStatementsV4: "conforms struct_PgStatStatementsV4 union_pg_stat_statements"
  unfolding struct_PgStatStatementsV4_def union_pg_stat_statements_def
  by (rule conformsI; simp add: expand_simps conforming_def cong: conforming_congs)

lemma conforms_PgStatStatementsV3: "conforms struct_PgStatStatementsV3 union_pg_stat_statements"
  unfolding struct_PgStatStatementsV3_def union_pg_stat_statements_def
  by (rule conformsI; simp add: expand_simps conforming_def cong: conforming_congs)

lemma conforms_PgStatStatementsV2: "conforms struct_PgStatStatementsV2 union_pg_stat_statements"
  unfolding struct_PgStatStatementsV2_def union_pg_stat_statements_def
  by (rule conformsI; simp add: expand_simps conforming_def cong: conforming_congs)

lemma conforms_PgStatStatementsV1: "conforms struct_PgStatStatementsV1 union_pg_stat_statements"
  unfolding struct_PgStatStatementsV1_def union_pg_stat_statements_def
  by (rule conformsI; simp add: expand_simps conforming_def cong: conforming_congs)

lemma conforms_PgStatWalV1: "conforms struct_PgStatWalV1 union_pg_stat_wal"
  unfolding struct_PgStatWalV1_def union_pg_stat_wal_def
  by (rule conformsI; simp add: expand_simps conforming_def cong: conforming_congs)

lemma conforms_PgStatWalV2: "conforms struct_PgStatWalV2 union_pg_stat_wal"
  unfolding struct_PgStatWalV2_def union_pg_stat_wal_def
  by (rule conformsI; simp add: expand_simps conforming_def cong: conforming_congs)

lemma conforms_PgLocksV1: "conforms struct_PgLocksV1 union_pg_locks"
  unfolding struct_PgLocksV1_def union_pg_locks_def
  by (rule conformsI; simp add: expand_simps conforming_def cong: conforming_congs)

lemma conforms_PgLocksV2: "conforms struct_PgLocksV2 union_pg_locks"
  unfolding struct_PgLocksV2_def union_pg_locks_def
  by (rule conformsI; simp add: expand_simps conforming_def cong: conforming_congs)

lemma conforms_PgBouncerEvents: "conforms struct_PgBouncerEvents union_pgbouncer_events"
  unfolding struct_PgBouncerEvents_def union_pgbouncer_events_def
  by (rule conformsI; simp add: expand_simps conforming_def cong: conforming_congs)

lemma conforms_PgBouncerEventsV2: "conforms struct_PgBouncerEventsV2 union_pgbouncer_events"
  unfolding struct_PgBouncerEventsV2_def union_pgbouncer_events_def
  by (rule conformsI; simp add: expand_simps conforming_def cong: conforming_congs)

end
