(* ===== verification/Registry.thy ===== *)
theory Registry
  imports Registry_Unions
begin

text \<open>
  The registry table (\<open>crates/kronika-registry/src/catalog.rs\<close>): every section type of this build
  in registry order, its lookup functions, and the proof that the table as it is shipped is
  clean: the macro accepts every struct, the linter finds nothing, and the properties that
  writers and readers rely on hold of all contracts.
\<close>

section \<open>The table\<close>

definition registry_structs :: "rust_struct list" where
  "registry_structs =
    [struct_InstanceMetadataV1, struct_InstanceMetadata, struct_InstanceMetadataV3,
     struct_InstanceMetadataV4, struct_OsProcess, struct_OsProcessStatus, struct_OsCpu,
     struct_OsStat, struct_OsMeminfo, struct_OsLoadavg, struct_OsVmstat, struct_OsPsi,
     struct_OsDiskstats, struct_OsNetdev, struct_OsSnmp, struct_OsNetstat, struct_OsMountinfo,
     struct_OsTopology, struct_OsCpufreqPolicy, struct_OsCpufreq, struct_OsBlockTopology,
     struct_OsUser, struct_OsCgroupMapping, struct_OsCgroupCpu, struct_OsCgroupCpuV2,
     struct_OsCgroupCpuV3, struct_OsCgroupMemory, struct_OsCgroupMemoryV2,
     struct_OsCgroupMemoryV3, struct_OsCgroupIo, struct_OsCgroupIoV2, struct_OsCgroupPids,
     struct_OsCgroupContext, struct_OsCgroupContextV2, struct_OsCgroupV2Group,
     struct_OsCgroupV2Cpu, struct_OsCgroupV2Memory, struct_OsCgroupV2Pids, struct_OsCgroupV2Io,
     struct_OsInterrupts, struct_OsSoftirq, struct_OsKernelLimits, struct_OsNuma,
     struct_OsSnmp6, struct_OsNfsClient, struct_OsNfsServer, struct_PgSettings,
     struct_PgStatArchiver, struct_PgStatBgwriterV1, struct_PgStatBgwriterV2,
     struct_PgPreparedXacts, struct_PgStatDatabaseV4, struct_PgStatDatabaseV3,
     struct_PgStatDatabaseV2, struct_PgStatDatabaseV1, struct_PgStatIoV1, struct_PgStatIoV2,
     struct_PgStatActivityV3, struct_PgStatActivityV2, struct_PgStatActivityV1,
     struct_PgStatProgressVacuumV1, struct_PgStatProgressVacuumV2,
     struct_PgStatProgressVacuumV3, struct_PgStatUserIndexesV2, struct_PgStatUserIndexesV1,
     struct_PgStatUserTablesV4, struct_PgStatUserTablesV3, struct_PgStatUserTablesV2,
     struct_PgStatUserTablesV1, struct_PgStorePlansVadvV1, struct_PgStorePlansOsscV1,
     struct_PgStorePlansDatasentinelV1, struct_PgStatStatementsInfo, struct_PgStorePlansInfo,
     struct_PgStatCheckpointerV1, struct_PgStatCheckpointerV2, struct_PgStatStatementsV6,
     struct_PgStatStatementsV5, struct_PgStatStatementsV4, struct_PgStatStatementsV3,
     struct_PgStatStatementsV2, struct_PgStatStatementsV1, struct_PgStatWalV1,
     struct_PgStatWalV2, struct_PgWalStorage, struct_PgLocksV1, struct_PgLocksV2,
     struct_PgLogErrors, struct_PgLogCheckpoints, struct_PgLogAutovacuum,
     struct_PgLogSlowQueries, struct_PgLogLockWaits, struct_PgLogLifecycle,
     struct_PgLogTempFiles, struct_PgBouncerEvents, struct_PgBouncerEventsV2]"

text \<open>A macro error stops the build, so a registry without all its contracts does not exist.\<close>

definition registry :: "macro_error + type_contract list" where
  "registry = collect_results expand registry_structs"

definition contract :: "u32 \<Rightarrow> type_contract option" where
  "contract i =
     (case registry of
        Err _ \<Rightarrow> None
      | Ok cs \<Rightarrow> find (\<lambda>c. raw_id (tc_type_id c) = i) cs)"

definition section_name :: "u32 \<Rightarrow> string option" where
  "section_name i =
     (if i = DICT_STRINGS_TYPE_ID then Some ''dict.strings''
      else if i = DICT_BLOBS_TYPE_ID then Some ''dict.blobs''
      else map_option tc_name (contract i))"

definition logical_section_name :: "u32 \<Rightarrow> string option" where
  "logical_section_name i =
     (if i = 1003001 \<or> i = 1004001 \<or> i = 1018001 then Some ''pg_store_plans'' else section_name i)"

definition section_implementation :: "u32 \<Rightarrow> string option" where
  "section_implementation i =
     (if i = 1003001 then Some ''ossc'' else if i = 1004001 then Some ''vadv''
      else if i = 1018001 then Some ''datasentinel'' else None)"

definition lint_registry :: "lint_error list + unit" where
  "lint_registry = (case registry of Err _ \<Rightarrow> Err [] | Ok cs \<Rightarrow> lint cs)"

section \<open>The declared ids and names\<close>

definition declared :: "(u32 \<times> string) list" where
  "declared =
    [(1021001, ''instance_metadata''), (1021002, ''instance_metadata''), (1021003,
     ''instance_metadata''), (1021004, ''instance_metadata''), (1100001, ''os_process''),
     (1101001, ''os_process_status''), (1102001, ''os_cpu''), (1103001, ''os_stat''), (1104001,
     ''os_meminfo''), (1105001, ''os_loadavg''), (1106001, ''os_vmstat''), (1107001,
     ''os_psi''), (1108001, ''os_diskstats''), (1109001, ''os_netdev''), (1110001, ''os_snmp''),
     (1111001, ''os_netstat''), (1112002, ''os_mountinfo''), (1113001, ''os_topology''),
     (1121001, ''os_cpufreq_policy''), (1122001, ''os_cpufreq''), (1123001,
     ''os_block_topology''), (1124002, ''os_user''), (1200001, ''os_cgroup_mapping''), (1201001,
     ''os_cgroup_cpu''), (1201002, ''os_cgroup_cpu''), (1201003, ''os_cgroup_cpu''), (1202001,
     ''os_cgroup_memory''), (1202002, ''os_cgroup_memory''), (1202003, ''os_cgroup_memory''),
     (1203002, ''os_cgroup_io''), (1203003, ''os_cgroup_io''), (1204001, ''os_cgroup_pids''),
     (1205001, ''os_cgroup_context''), (1205002, ''os_cgroup_context''), (1206001,
     ''os_cgroup_v2_group''), (1207001, ''os_cgroup_v2_cpu''), (1208001,
     ''os_cgroup_v2_memory''), (1209001, ''os_cgroup_v2_pids''), (1210001, ''os_cgroup_v2_io''),
     (1114001, ''os_interrupts''), (1115001, ''os_softirq''), (1116001, ''os_kernel_limits''),
     (1117001, ''os_numa''), (1118001, ''os_snmp6''), (1119001, ''os_nfs_client''), (1120001,
     ''os_nfs_server''), (1019001, ''pg_settings''), (1008001, ''pg_stat_archiver''), (1006001,
     ''pg_stat_bgwriter''), (1006002, ''pg_stat_bgwriter''), (1010001, ''pg_prepared_xacts''),
     (1005004, ''pg_stat_database''), (1005003, ''pg_stat_database''), (1005002,
     ''pg_stat_database''), (1005001, ''pg_stat_database''), (1009001, ''pg_stat_io''),
     (1009002, ''pg_stat_io''), (1001004, ''pg_stat_activity''), (1001002,
     ''pg_stat_activity''), (1001001, ''pg_stat_activity''), (1012004,
     ''pg_stat_progress_vacuum''), (1012005, ''pg_stat_progress_vacuum''), (1012006,
     ''pg_stat_progress_vacuum''), (1014004, ''pg_stat_user_indexes''), (1014003,
     ''pg_stat_user_indexes''), (1013008, ''pg_stat_user_tables''), (1013007,
     ''pg_stat_user_tables''), (1013006, ''pg_stat_user_tables''), (1013005,
     ''pg_stat_user_tables''), (1004001, ''pg_store_plans_vadv''), (1003001,
     ''pg_store_plans_ossc''), (1018001, ''pg_store_plans_datasentinel''), (1015001,
     ''pg_stat_statements_info''), (1016001, ''pg_store_plans_info''), (1017001,
     ''pg_stat_checkpointer''), (1017002, ''pg_stat_checkpointer''), (1002006,
     ''pg_stat_statements''), (1002005, ''pg_stat_statements''), (1002004,
     ''pg_stat_statements''), (1002003, ''pg_stat_statements''), (1002002,
     ''pg_stat_statements''), (1002001, ''pg_stat_statements''), (1007001, ''pg_stat_wal''),
     (1007002, ''pg_stat_wal''), (1020001, ''pg_wal_storage''), (1011001, ''pg_locks''),
     (1011002, ''pg_locks''), (2001001, ''pg_log_errors''), (2002001, ''pg_log_checkpoints''),
     (2003001, ''pg_log_autovacuum''), (2004001, ''pg_log_slow_queries''), (2005002,
     ''pg_log_lock_waits''), (2006001, ''pg_log_lifecycle''), (2007001, ''pg_log_temp_files''),
     (2100001, ''pgbouncer_events''), (2100002, ''pgbouncer_events'')]"

lemmas declares_all =
  declares_InstanceMetadataV1 declares_InstanceMetadata declares_InstanceMetadataV3
  declares_InstanceMetadataV4 declares_OsProcess declares_OsProcessStatus declares_OsCpu
  declares_OsStat declares_OsMeminfo declares_OsLoadavg declares_OsVmstat declares_OsPsi
  declares_OsDiskstats declares_OsNetdev declares_OsSnmp declares_OsNetstat
  declares_OsMountinfo declares_OsTopology declares_OsCpufreqPolicy declares_OsCpufreq
  declares_OsBlockTopology declares_OsUser declares_OsCgroupMapping declares_OsCgroupCpu
  declares_OsCgroupCpuV2 declares_OsCgroupCpuV3 declares_OsCgroupMemory
  declares_OsCgroupMemoryV2 declares_OsCgroupMemoryV3 declares_OsCgroupIo
  declares_OsCgroupIoV2 declares_OsCgroupPids declares_OsCgroupContext
  declares_OsCgroupContextV2 declares_OsCgroupV2Group declares_OsCgroupV2Cpu
  declares_OsCgroupV2Memory declares_OsCgroupV2Pids declares_OsCgroupV2Io
  declares_OsInterrupts declares_OsSoftirq declares_OsKernelLimits declares_OsNuma
  declares_OsSnmp6 declares_OsNfsClient declares_OsNfsServer declares_PgSettings
  declares_PgStatArchiver declares_PgStatBgwriterV1 declares_PgStatBgwriterV2
  declares_PgPreparedXacts declares_PgStatDatabaseV4 declares_PgStatDatabaseV3
  declares_PgStatDatabaseV2 declares_PgStatDatabaseV1 declares_PgStatIoV1 declares_PgStatIoV2
  declares_PgStatActivityV3 declares_PgStatActivityV2 declares_PgStatActivityV1
  declares_PgStatProgressVacuumV1 declares_PgStatProgressVacuumV2
  declares_PgStatProgressVacuumV3 declares_PgStatUserIndexesV2 declares_PgStatUserIndexesV1
  declares_PgStatUserTablesV4 declares_PgStatUserTablesV3 declares_PgStatUserTablesV2
  declares_PgStatUserTablesV1 declares_PgStorePlansVadvV1 declares_PgStorePlansOsscV1
  declares_PgStorePlansDatasentinelV1 declares_PgStatStatementsInfo declares_PgStorePlansInfo
  declares_PgStatCheckpointerV1 declares_PgStatCheckpointerV2 declares_PgStatStatementsV6
  declares_PgStatStatementsV5 declares_PgStatStatementsV4 declares_PgStatStatementsV3
  declares_PgStatStatementsV2 declares_PgStatStatementsV1 declares_PgStatWalV1
  declares_PgStatWalV2 declares_PgWalStorage declares_PgLocksV1 declares_PgLocksV2
  declares_PgLogErrors declares_PgLogCheckpoints declares_PgLogAutovacuum
  declares_PgLogSlowQueries declares_PgLogLockWaits declares_PgLogLifecycle
  declares_PgLogTempFiles declares_PgBouncerEvents declares_PgBouncerEventsV2

lemma registry_declared: "list_all2 (\<lambda>s (i, nm). declares s i nm) registry_structs declared"
  by (simp add: registry_structs_def declared_def declares_all)

lemma declared_ids: "distinct (map fst declared)"
  by (simp add: declared_def)

lemma declared_data: "\<forall>(i, nm) \<in> set declared. i < DICT_STRINGS_TYPE_ID"
  by (simp add: declared_def DICT_STRINGS_TYPE_ID_def)

section \<open>The table is built\<close>

definition contract_of_entry :: "rust_struct \<Rightarrow> u32 \<times> string \<Rightarrow> type_contract \<Rightarrow> bool" where
  "contract_of_entry s e c \<longleftrightarrow> expand s = Ok c \<and> tc_type_id c = TypeId (fst e) \<and>
     tc_name c = snd e \<and> contract_checked c"

lemma registry_Ok:
  obtains cs where "registry = Ok cs" and "length cs = length declared"
    and "length registry_structs = length declared"
    and "\<And>k. k < length cs \<Longrightarrow> contract_of_entry (registry_structs ! k) (declared ! k) (cs ! k)"
proof -
  have len: "length registry_structs = length declared"
    using registry_declared by (rule list_all2_lengthD)
  have "\<forall>k < length declared. \<exists>c. contract_of_entry (registry_structs ! k) (declared ! k) c"
  proof (intro allI impI)
    fix k assume k: "k < length declared"
    have "declares (registry_structs ! k) (fst (declared ! k)) (snd (declared ! k))"
      using list_all2_nthD2 [OF registry_declared k] by (simp add: split_beta)
    then show "\<exists>c. contract_of_entry (registry_structs ! k) (declared ! k) c"
      by (simp add: declares_def contract_of_entry_def)
  qed
  then obtain f where f: "contract_of_entry (registry_structs ! k) (declared ! k) (f k)"
    if "k < length declared" for k
    by metis
  let ?cs = "map f [0..<length declared]"
  have "registry = Ok ?cs"
    using f len unfolding registry_def collect_results_Ok
    by (simp add: list_all2_conv_all_nth contract_of_entry_def)
  then show thesis using that [of ?cs] len f by simp
qed

lemma registry_entry:
  assumes "registry = Ok cs"
  shows "length cs = length declared"
    and "k < length cs \<Longrightarrow> contract_of_entry (registry_structs ! k) (declared ! k) (cs ! k)"
    and "k < length cs \<Longrightarrow> registry_structs ! k \<in> set registry_structs"
  using assms by (metis registry_Ok sum.inject(2) nth_mem)+

lemma registry_ids:
  assumes "registry = Ok cs"
  shows "map (raw_id \<circ> tc_type_id) cs = map fst declared"
  using registry_entry [OF assms]
  by (intro nth_equalityI) (simp_all add: contract_of_entry_def)

lemma registry_distinct_ids:
  assumes "registry = Ok cs" and "c \<in> set cs" and "d \<in> set cs"
    and "raw_id (tc_type_id c) = raw_id (tc_type_id d)"
  shows "c = d"
proof -
  have "distinct (map (raw_id \<circ> tc_type_id) cs)"
    using registry_ids [OF assms(1)] declared_ids by simp
  then show ?thesis using assms(2-4) by (auto simp: distinct_map inj_on_def)
qed

lemma contract_Some:
  assumes "registry = Ok cs"
  shows "contract i = Some c \<longleftrightarrow> c \<in> set cs \<and> raw_id (tc_type_id c) = i"
proof
  assume "contract i = Some c"
  then have "find (\<lambda>c. raw_id (tc_type_id c) = i) cs = Some c" by (simp add: contract_def assms)
  then show "c \<in> set cs \<and> raw_id (tc_type_id c) = i" unfolding find_Some_iff by auto
next
  assume c: "c \<in> set cs \<and> raw_id (tc_type_id c) = i"
  then obtain d where d: "find (\<lambda>c. raw_id (tc_type_id c) = i) cs = Some d"
    using find_None_iff [of "\<lambda>c. raw_id (tc_type_id c) = i" cs] by (cases "find (\<lambda>c. raw_id (tc_type_id c) = i) cs") auto
  then have "d \<in> set cs" "raw_id (tc_type_id d) = i" unfolding find_Some_iff by auto
  then have "d = c" using registry_distinct_ids [OF assms] c by blast
  with d show "contract i = Some c" by (simp add: contract_def assms)
qed

lemma registry_member:
  assumes "registry = Ok cs" and "c \<in> set cs"
  shows "\<exists>s e. s \<in> set registry_structs \<and> e \<in> set declared \<and> contract_of_entry s e c \<and>
    (\<exists>k < length declared. s = registry_structs ! k \<and> e = declared ! k)"
proof -
  from assms(2) obtain k where k: "k < length cs" "c = cs ! k" by (auto simp: in_set_conv_nth)
  have e: "declared ! k \<in> set declared" and d: "k < length declared"
    using k(1) registry_entry(1) [OF assms(1)] by auto
  show ?thesis
    using registry_entry(2,3) [OF assms(1) k(1)] k(2) e d by blast
qed

text \<open>The linter accepts the table.\<close>

lemma registry_lints:
  assumes "registry = Ok cs"
  shows "lint cs = Ok ()"
proof -
  have "\<not> lint_violation cs e" for e
  proof (cases "\<exists>t. e = DuplicateTypeId t")
    case True
    then obtain t where e: "e = DuplicateTypeId t" by blast
    have "distinct (map (raw_id \<circ> tc_type_id) cs)"
      using registry_ids [OF assms] declared_ids by simp
    then have "raw_id (tc_type_id (cs ! i)) \<noteq> raw_id (tc_type_id (cs ! j))"
      if "i < j" "j < length cs" for i j
      using that by (auto simp: distinct_conv_nth)
    then show ?thesis unfolding e lint_violation.simps by (metis type_id.sel)
  next
    case False
    have "lint_contract c = []" if "c \<in> set cs" for c
      using registry_member [OF assms that] by (auto simp: contract_of_entry_def contract_checked_def)
    then have "\<not> (\<exists>c \<in> set cs. lint_violation [c] e)"
      unfolding lint_contract_set [symmetric] by simp
    with False show ?thesis using lint_violation_single [of e cs] by blast
  qed
  then have "lint_loop [] cs = []" using lint_loop_violation by (metis list.set_intros(1) list.exhaust)
  then show ?thesis by (simp add: lint_def)
qed

section \<open>What writers and readers rely on\<close>

definition required_ts :: "column \<Rightarrow> bool" where
  "required_ts col \<longleftrightarrow> col_name col = ''ts'' \<and> col_ty col = Ts \<and> col_class col = Timestamp \<and> \<not> col_nullable col"

lemma checked_ts:
  assumes "contract_checked c"
  shows "\<exists>col cols. tc_columns c = col # cols \<and> required_ts col \<and> (\<forall>d \<in> set cols. col_class d \<noteq> Timestamp)"
proof -
  from assms obtain col cols where c: "tc_columns c = col # cols"
    and t: "col_class col = Timestamp" "\<forall>d \<in> set cols. col_class d \<noteq> Timestamp"
    and l: "lint_contract c = []"
    by (auto simp: contract_checked_def split: list.splits)
  have "lint_column c col = []" using l by (simp add: lint_contract_def c)
  then have "required_ts col" using t(1) by (auto simp: lint_column_def required_ts_def split: if_splits)
  with c t(2) show ?thesis by blast
qed

text \<open>
  C32: the registry of this build exists and is clean. The macro accepts every row struct, the
  linter accepts the table of 96 contracts, the lookup by id finds exactly the registered
  contract, and of every contract: the id names a data section and sorts before both
  dictionaries, the first column is the one timestamp, the required \<open>ts\<close>, and column names are
  distinct.
\<close>

theorem registry_clean:
  "\<exists>cs. registry = Ok cs \<and> length cs = 96 \<and> lint_registry = Ok () \<and>
    (\<forall>i c. contract i = Some c \<longleftrightarrow> c \<in> set cs \<and> raw_id (tc_type_id c) = i) \<and>
    (\<forall>c \<in> set cs. section_order_of (raw_id (tc_type_id c)) = Data (raw_id (tc_type_id c)) \<and>
       raw_id (tc_type_id c) < DICT_STRINGS_TYPE_ID \<and> distinct (map col_name (tc_columns c)) \<and>
       (\<exists>col cols. tc_columns c = col # cols \<and> required_ts col \<and>
          (\<forall>d \<in> set cols. col_class d \<noteq> Timestamp)))"
proof -
  obtain cs where cs: "registry = Ok cs" and len: "length cs = length declared" by (rule registry_Ok)
  have each: "section_order_of (raw_id (tc_type_id c)) = Data (raw_id (tc_type_id c)) \<and>
       raw_id (tc_type_id c) < DICT_STRINGS_TYPE_ID \<and> distinct (map col_name (tc_columns c)) \<and>
       (\<exists>col cols. tc_columns c = col # cols \<and> required_ts col \<and>
          (\<forall>d \<in> set cols. col_class d \<noteq> Timestamp))"
    if c: "c \<in> set cs" for c
  proof -
    from registry_member [OF cs c] obtain i nm where e: "(i, nm) \<in> set declared"
      and "tc_type_id c = TypeId i" and ok: "contract_checked c"
      by (auto simp: contract_of_entry_def)
    moreover have lt: "i < DICT_STRINGS_TYPE_ID" using declared_data e by blast
    moreover from lt have "i \<noteq> DICT_STRINGS_TYPE_ID" "i \<noteq> DICT_BLOBS_TYPE_ID"
      by (auto simp: DICT_STRINGS_TYPE_ID_def DICT_BLOBS_TYPE_ID_def)
    ultimately show ?thesis
      using checked_ts [OF ok] ok by (simp add: section_order_of_def contract_checked_def)
  qed
  have n: "length cs = 96" using len by (simp add: declared_def)
  have l: "lint_registry = Ok ()" using registry_lints [OF cs] by (simp add: lint_registry_def cs)
  show ?thesis using cs n l contract_Some [OF cs] each by blast
qed

theorem registry_clean_witness:
  "\<exists>cs c. registry = Ok cs \<and> contract 1107001 = Some c \<and> tc_name c = ''os_psi'' \<and> c \<in> set cs \<and>
     (\<exists>col cols. tc_columns c = col # cols \<and> required_ts col)"
proof -
  from registry_clean obtain cs where cs: "registry = Ok cs"
    and look: "\<forall>i c. contract i = Some c \<longleftrightarrow> c \<in> set cs \<and> raw_id (tc_type_id c) = i"
    and all: "\<forall>c \<in> set cs. \<exists>col cols. tc_columns c = col # cols \<and> required_ts col"
    by blast
  have "declared ! 11 = (1107001, ''os_psi'')" "11 < length declared" by (simp_all add: declared_def)
  then have "contract_of_entry (registry_structs ! 11) (1107001, ''os_psi'') (cs ! 11)" "cs ! 11 \<in> set cs"
    using registry_entry(1,2) [OF cs] by (metis, simp)
  then have c: "contract 1107001 = Some (cs ! 11)" "tc_name (cs ! 11) = ''os_psi''" "cs ! 11 \<in> set cs"
    using look by (auto simp: contract_of_entry_def)
  with cs all show ?thesis by blast
qed

section \<open>Layout versions\<close>

definition union_schemas :: "(string \<times> union_schema) list" where
  "union_schemas =
    [(''instance_metadata'', union_instance_metadata), (''os_cgroup_cpu'', union_os_cgroup_cpu),
     (''os_cgroup_memory'', union_os_cgroup_memory), (''os_cgroup_io'', union_os_cgroup_io),
     (''os_cgroup_context'', union_os_cgroup_context), (''pg_stat_bgwriter'',
     union_pg_stat_bgwriter), (''pg_stat_database'', union_pg_stat_database), (''pg_stat_io'',
     union_pg_stat_io), (''pg_stat_activity'', union_pg_stat_activity),
     (''pg_stat_progress_vacuum'', union_pg_stat_progress_vacuum), (''pg_stat_user_indexes'',
     union_pg_stat_user_indexes), (''pg_stat_user_tables'', union_pg_stat_user_tables),
     (''pg_store_plans'', union_pg_store_plans), (''pg_stat_checkpointer'',
     union_pg_stat_checkpointer), (''pg_stat_statements'', union_pg_stat_statements),
     (''pg_stat_wal'', union_pg_stat_wal), (''pg_locks'', union_pg_locks),
     (''pgbouncer_events'', union_pgbouncer_events)]"

definition logical_of :: "u32 \<times> string \<Rightarrow> string" where
  "logical_of e =
     (if fst e = 1003001 \<or> fst e = 1004001 \<or> fst e = 1018001 then ''pg_store_plans'' else snd e)"

lemmas conforms_all =
  conforms_InstanceMetadataV1 conforms_InstanceMetadata conforms_InstanceMetadataV3
  conforms_InstanceMetadataV4 conforms_OsCgroupCpu conforms_OsCgroupCpuV2
  conforms_OsCgroupCpuV3 conforms_OsCgroupMemory conforms_OsCgroupMemoryV2
  conforms_OsCgroupMemoryV3 conforms_OsCgroupIo conforms_OsCgroupIoV2 conforms_OsCgroupContext
  conforms_OsCgroupContextV2 conforms_PgStatBgwriterV1 conforms_PgStatBgwriterV2
  conforms_PgStatDatabaseV4 conforms_PgStatDatabaseV3 conforms_PgStatDatabaseV2
  conforms_PgStatDatabaseV1 conforms_PgStatIoV1 conforms_PgStatIoV2 conforms_PgStatActivityV3
  conforms_PgStatActivityV2 conforms_PgStatActivityV1 conforms_PgStatProgressVacuumV1
  conforms_PgStatProgressVacuumV2 conforms_PgStatProgressVacuumV3 conforms_PgStatUserIndexesV2
  conforms_PgStatUserIndexesV1 conforms_PgStatUserTablesV4 conforms_PgStatUserTablesV3
  conforms_PgStatUserTablesV2 conforms_PgStatUserTablesV1 conforms_PgStorePlansVadvV1
  conforms_PgStorePlansOsscV1 conforms_PgStorePlansDatasentinelV1
  conforms_PgStatCheckpointerV1 conforms_PgStatCheckpointerV2 conforms_PgStatStatementsV6
  conforms_PgStatStatementsV5 conforms_PgStatStatementsV4 conforms_PgStatStatementsV3
  conforms_PgStatStatementsV2 conforms_PgStatStatementsV1 conforms_PgStatWalV1
  conforms_PgStatWalV2 conforms_PgLocksV1 conforms_PgLocksV2 conforms_PgBouncerEvents
  conforms_PgBouncerEventsV2

lemma registry_conforms:
  "list_all2 (\<lambda>s e. case map_of union_schemas (logical_of e) of None \<Rightarrow> True | Some u \<Rightarrow> conforms s u)
     registry_structs declared"
  by (simp add: registry_structs_def declared_def logical_of_def union_schemas_def conforms_all)

lemma single_layouts:
  "distinct (map logical_of (filter (\<lambda>e. map_of union_schemas (logical_of e) = None) declared))"
  by (simp add: declared_def logical_of_def union_schemas_def)

lemma distinct_filter_inj:
  "distinct (map f (filter P xs)) \<Longrightarrow> x \<in> set xs \<Longrightarrow> y \<in> set xs \<Longrightarrow> P x \<Longrightarrow> P y \<Longrightarrow> f x = f y \<Longrightarrow> x = y"
  unfolding distinct_map inj_on_def by auto

lemma logical_section_name_entry:
  assumes "registry = Ok cs" and "c \<in> set cs" and "contract_of_entry s e c" and "e \<in> set declared"
  shows "logical_section_name (raw_id (tc_type_id c)) = Some (logical_of e)"
proof -
  have i: "raw_id (tc_type_id c) = fst e" and nm: "tc_name c = snd e"
    using assms(3) by (simp_all add: contract_of_entry_def)
  have "fst e < DICT_STRINGS_TYPE_ID" using declared_data assms(4) by (cases e) auto
  then have "fst e \<noteq> DICT_STRINGS_TYPE_ID" "fst e \<noteq> DICT_BLOBS_TYPE_ID"
    by (auto simp: DICT_STRINGS_TYPE_ID_def DICT_BLOBS_TYPE_ID_def)
  moreover have "contract (fst e) = Some c" using contract_Some [OF assms(1)] assms(2) i by simp
  ultimately show ?thesis by (simp add: logical_section_name_def section_name_def logical_of_def i nm)
qed

definition columns_agree :: "type_contract \<Rightarrow> type_contract \<Rightarrow> bool" where
  "columns_agree c d \<longleftrightarrow> (\<forall>a \<in> set (tc_columns c). \<forall>b \<in> set (tc_columns d). col_name a = col_name b \<longrightarrow>
     col_ty a = col_ty b \<and> col_class a = col_class b \<and> col_unit a = col_unit b)"

lemma expand_columns: "expand s = Ok c \<Longrightarrow> collect_results field_column (rs_fields s) = Ok (tc_columns c)"
  by (auto simp: expand_def and_then_Ok_iff build_contract_def collect_field_column)

lemma all_conforming_iff: "all_conforming u cols \<longleftrightarrow> (\<forall>col \<in> set cols. conforming u col)"
  by (induction cols) simp_all

lemma conforms_agree:
  assumes "conforms s u" and "conforms t u" and "expand s = Ok c" and "expand t = Ok d"
  shows "columns_agree c d"
  using assms
  by (fastforce simp: conforms_def expand_columns all_conforming_iff conforming_def columns_agree_def)

text \<open>
  Layouts that readers serve under one logical name never disagree: whenever two registered
  contracts have the same logical section name, columns of the same name have the same type,
  class and unit, so the union of their columns is a schema. The linter does not check this.
\<close>

lemma registry_layouts_agree:
  assumes "contract i = Some c" and "contract j = Some d"
    and "logical_section_name i = logical_section_name j"
  shows "columns_agree c d"
proof -
  obtain cs where cs: "registry = Ok cs" by (rule registry_Ok)
  from assms(1,2) have c: "c \<in> set cs" "raw_id (tc_type_id c) = i"
    and d: "d \<in> set cs" "raw_id (tc_type_id d) = j" by (simp_all add: contract_Some [OF cs])
  from registry_member [OF cs c(1)] obtain k where k: "k < length declared"
    and ck: "contract_of_entry (registry_structs ! k) (declared ! k) c" by blast
  from registry_member [OF cs d(1)] obtain l where l: "l < length declared"
    and dl: "contract_of_entry (registry_structs ! l) (declared ! l) d" by blast
  have logical: "logical_of (declared ! k) = logical_of (declared ! l)"
    using logical_section_name_entry [OF cs c(1) ck] logical_section_name_entry [OF cs d(1) dl]
      assms(3) c(2) d(2) k l by simp
  have conf: "case map_of union_schemas (logical_of (declared ! m)) of None \<Rightarrow> True
      | Some u \<Rightarrow> conforms (registry_structs ! m) u" if "m < length declared" for m
    using registry_conforms that by (auto simp: list_all2_conv_all_nth)
  show ?thesis
  proof (cases "map_of union_schemas (logical_of (declared ! k))")
    case None
    then have "declared ! k = declared ! l"
      using distinct_filter_inj [OF single_layouts nth_mem [OF k] nth_mem [OF l]] logical by simp
    then have "c = d"
      using registry_distinct_ids [OF cs c(1) d(1)] ck dl by (simp add: contract_of_entry_def)
    moreover have "distinct (map col_name (tc_columns d))"
      using dl by (simp add: contract_of_entry_def contract_checked_def)
    ultimately show ?thesis by (auto simp: columns_agree_def distinct_map inj_on_def)
  next
    case (Some u)
    then show ?thesis
      using conf [OF k] conf [OF l] logical ck dl
      by (auto simp: contract_of_entry_def intro: conforms_agree)
  qed
qed

end
