(* ===== verification/Codec_Bounds.thy ===== *)
theory Codec_Bounds
  imports Registry Dictionary
begin

text \<open>
  The size bounds of section bodies (\<open>crates/kronika-registry/src/codec.rs\<close>, \<open>codec/error.rs\<close>,
  \<open>codec/bounds.rs\<close> and the dictionary bound of \<open>crates/kronika-writer/src/dict.rs\<close>): the
  checked computation of the conservative final-body bound, and its exact value over the
  natural numbers. The Parquet codec the bounds speak about is a third-party library.
\<close>

section \<open>Errors and constants\<close>

text \<open>\<open>Arrow\<close> and \<open>Parquet\<close> carry an error of the library, here its text.\<close>

datatype codec_error =
    Arrow string
  | Parquet string
  | TooManyRows (tmr_rows: usize) (tmr_max: usize)
  | InvalidRowCount i64
  | CodecRowCountMismatch (crm_expected: u64) (crm_got: u64)
  | SectionTooLarge (stl_len: usize) (stl_max: usize)
  | DecodedSectionTooLarge usize usize
  | TooManyRowGroups usize usize
  | InvalidPageLayout
  | DictionaryEncodingUnsupported
  | UnsupportedPageEncoding "32 word"
  | MissingColumn string
  | ColumnTypeError string
  | NullInRequiredColumn string
  | TooManyListValues string usize usize
  | UnknownType u32
  | SchemaMismatch
  | SectionCrcMismatch (scm_expected: u32) (scm_got: u32)
  | SectionError u32 usize codec_error

fun section_type_id :: "codec_error \<Rightarrow> u32 option" where
  "section_type_id (UnknownType t) = Some t"
| "section_type_id (SectionError t _ _) = Some t"
| "section_type_id _ = None"

definition MAX_SECTION_ROWS :: usize where "MAX_SECTION_ROWS = 2 ^ 32 - 1"
definition SECTION_WRITE_BATCH_ROWS :: usize where "SECTION_WRITE_BATCH_ROWS = 65536"
definition MAX_SECTION_BYTES :: usize where "MAX_SECTION_BYTES = unat MAX_PHYSICAL_SECTION_BYTES"
definition MAX_LIST_I32_VALUES_PER_SECTION :: usize where
  "MAX_LIST_I32_VALUES_PER_SECTION = MAX_SECTION_BYTES div 4"
definition FINAL_DATA_PAGE_BYTES :: usize where "FINAL_DATA_PAGE_BYTES = 1024 * 1024"
definition FINAL_PAGE_FRAMING_BOUND :: usize where "FINAL_PAGE_FRAMING_BOUND = 4 * 1024"
definition FINAL_FILE_FRAMING_BOUND :: usize where "FINAL_FILE_FRAMING_BOUND = 64 * 1024"
definition FINAL_DICT_WRITE_BATCH_ROWS :: usize where "FINAL_DICT_WRITE_BATCH_ROWS = 1024"

lemma MAX_SECTION_BYTES_eq: "MAX_SECTION_BYTES = 2 ^ 30"
  by (simp add: MAX_SECTION_BYTES_def MAX_PHYSICAL_SECTION_BYTES_def MAX_JOURNAL_LEN_def)

definition checked_mul_usize :: "usize \<Rightarrow> usize \<Rightarrow> usize option" where
  "checked_mul_usize a b = (if a * b \<le> usize_max then Some (a * b) else None)"

definition div_ceil :: "usize \<Rightarrow> usize \<Rightarrow> usize" where
  "div_ceil a b = (a + b - 1) div b"

definition check_row_cap :: "usize \<Rightarrow> codec_error + unit" where
  "check_row_cap rows =
     (if u32_try_from rows = None then Err (TooManyRows rows MAX_SECTION_ROWS) else Ok ())"

definition VerifiedSection_verify :: "bytes \<Rightarrow> u32 \<Rightarrow> (bytes \<Rightarrow> u32) \<Rightarrow> codec_error + bytes" where
  "VerifiedSection_verify bs expected crc =
     (let got = crc bs in if got = expected then Ok bs else Err (SectionCrcMismatch expected got))"

section \<open>The bounds\<close>

record plain_column =
  value_bytes :: usize
  level_bytes :: usize

text \<open>Every overflow is reported as a section of \<open>usize::MAX\<close> bytes.\<close>

definition too_large :: codec_error where
  "too_large = SectionTooLarge usize_max MAX_SECTION_BYTES"

fun plain_body_loop :: "usize \<Rightarrow> usize \<Rightarrow> plain_column list \<Rightarrow> usize \<Rightarrow> codec_error + usize" where
  "plain_body_loop overhead framing [] body = Ok body"
| "plain_body_loop overhead framing (c # cs) body =
     and_then (ok_or (checked_add_usize (value_bytes c) (level_bytes c)) too_large) (\<lambda>page_input.
     and_then (ok_or (Option.bind (checked_add_usize page_input (page_input div 256))
         (\<lambda>n. checked_add_usize n overhead)) too_large) (\<lambda>compressed.
     and_then (ok_or (Option.bind (checked_add_usize body compressed)
         (\<lambda>n. checked_add_usize n framing)) too_large) (\<lambda>body.
       plain_body_loop overhead framing cs body)))"

definition final_single_batch_plain_body_bound ::
  "plain_column list \<Rightarrow> usize \<Rightarrow> codec_error + usize" where
  "final_single_batch_plain_body_bound columns pages =
     (if pages = 0 then Err InvalidPageLayout
      else and_then (ok_or (checked_mul_usize pages 64) too_large) (\<lambda>overhead.
        and_then (ok_or (checked_mul_usize pages FINAL_PAGE_FRAMING_BOUND) too_large) (\<lambda>framing.
        and_then (plain_body_loop overhead framing columns FINAL_FILE_FRAMING_BOUND) (\<lambda>body.
          if body > MAX_SECTION_BYTES then Err (SectionTooLarge body MAX_SECTION_BYTES) else Ok body))))"

text \<open>The width of a scalar column in bytes; lists are handled before.\<close>

fun scalar_width :: "column_type \<Rightarrow> usize" where
  "scalar_width I8 = 4" | "scalar_width I16 = 4" | "scalar_width I32 = 4"
| "scalar_width U8 = 4" | "scalar_width U16 = 4" | "scalar_width U32 = 4" | "scalar_width F32 = 4"
| "scalar_width I64 = 8" | "scalar_width U64 = 8" | "scalar_width F64 = 8"
| "scalar_width Ts = 8" | "scalar_width StrId = 8"
| "scalar_width Bool = 1"
| "scalar_width ListI32 = 0"

definition column_plain_size :: "usize \<Rightarrow> usize \<Rightarrow> column \<Rightarrow> codec_error + plain_column" where
  "column_plain_size rows list_values col =
     (if col_ty col = ListI32 then
        and_then (ok_or (checked_mul_usize list_values 4) too_large) (\<lambda>values.
        and_then (ok_or (Option.bind (Option.bind (checked_add_usize rows list_values)
            (\<lambda>n. checked_mul_usize n 4)) (\<lambda>n. checked_add_usize n 16)) too_large) (\<lambda>levels.
          Ok \<lparr>value_bytes = values, level_bytes = levels\<rparr>))
      else
        and_then (ok_or (checked_mul_usize rows (scalar_width (col_ty col))) too_large) (\<lambda>values.
        and_then (if col_nullable col
            then ok_or (Option.bind (checked_mul_usize rows 2) (\<lambda>n. checked_add_usize n 8)) too_large
            else Ok 0) (\<lambda>levels.
          Ok \<lparr>value_bytes = values, level_bytes = levels\<rparr>)))"

text \<open>The loop over the contract's columns, with the largest page count so far.\<close>

fun data_columns_loop ::
  "usize \<Rightarrow> usize \<Rightarrow> column list \<Rightarrow> usize \<Rightarrow> codec_error + plain_column list \<times> usize" where
  "data_columns_loop rows list_values [] pages = Ok ([], pages)"
| "data_columns_loop rows list_values (col # cols) pages =
     and_then (column_plain_size rows list_values col) (\<lambda>c.
     and_then (ok_or (checked_add_usize (value_bytes c) (level_bytes c)) too_large) (\<lambda>total.
     and_then (data_columns_loop rows list_values cols
         (max pages (max (div_ceil total FINAL_DATA_PAGE_BYTES) 1))) (\<lambda>(cs, pages).
       Ok (c # cs, pages))))"

definition final_data_body_bound :: "u32 \<Rightarrow> usize \<Rightarrow> usize \<Rightarrow> codec_error + usize" where
  "final_data_body_bound t rows list_values =
     and_then (check_row_cap rows) (\<lambda>_.
     and_then (ok_or (contract t) (UnknownType t)) (\<lambda>c.
     let list_column = find (\<lambda>col. col_ty col = ListI32) (tc_columns c) in
     if list_values > MAX_LIST_I32_VALUES_PER_SECTION
     then Err (TooManyListValues (case list_column of None \<Rightarrow> ''ListI32'' | Some col \<Rightarrow> col_name col)
       list_values MAX_LIST_I32_VALUES_PER_SECTION)
     else if list_values \<noteq> 0 \<and> \<not> (\<exists>col \<in> set (tc_columns c). col_ty col = ListI32) then Err SchemaMismatch
     else and_then (data_columns_loop rows list_values (tc_columns c)
         (max (div_ceil rows SECTION_WRITE_BATCH_ROWS) 1)) (\<lambda>(columns, pages).
       final_single_batch_plain_body_bound columns pages)))"

definition check_dict_rows :: "usize \<Rightarrow> codec_error + unit" where
  "check_dict_rows rows = (if rows > MAX_SECTION_ROWS then Err (TooManyRows rows MAX_SECTION_ROWS) else Ok ())"

definition final_dictionary_body_bound ::
  "placement \<Rightarrow> usize \<Rightarrow> usize \<Rightarrow> usize \<Rightarrow> codec_error + usize" where
  "final_dictionary_body_bound p rows stored_bytes truncated_rows =
     and_then (check_dict_rows rows) (\<lambda>_.
     if truncated_rows > rows \<or> (p = placement.Strings \<and> truncated_rows \<noteq> 0) then Err SchemaMismatch
     else and_then (ok_or (checked_mul_usize rows 8) too_large) (\<lambda>ids.
       and_then (ok_or (Option.bind (checked_mul_usize rows 4)
           (\<lambda>offsets. checked_add_usize offsets stored_bytes)) too_large) (\<lambda>binary.
       and_then (if p = placement.Blobs then
           and_then (ok_or (checked_mul_usize rows 8) too_large) (\<lambda>full_len.
           and_then (ok_or (checked_mul_usize truncated_rows 32) too_large) (\<lambda>sha.
           and_then (ok_or (Option.bind (checked_mul_usize rows 2) (\<lambda>n. checked_add_usize n 8)) too_large)
             (\<lambda>sha_levels.
             Ok [\<lparr>value_bytes = full_len, level_bytes = 0\<rparr>, \<lparr>value_bytes = rows, level_bytes = 0\<rparr>,
                 \<lparr>value_bytes = sha, level_bytes = sha_levels\<rparr>])))
         else Ok []) (\<lambda>more.
         final_single_batch_plain_body_bound
           (\<lparr>value_bytes = ids, level_bytes = 0\<rparr> # \<lparr>value_bytes = binary, level_bytes = 0\<rparr> # more)
           (max (div_ceil rows FINAL_DICT_WRITE_BATCH_ROWS) 1)))))"

text \<open>\<open>validate_dict_limits_for_write\<close>: one value at the truncation limit must fit.\<close>

definition validate_dict_limits_for_write :: "dict_limits \<Rightarrow> codec_error + unit" where
  "validate_dict_limits_for_write l =
     and_then (final_dictionary_body_bound placement.Strings 1 (truncate_limit l) 0) (\<lambda>_.
     and_then (final_dictionary_body_bound placement.Blobs 1 (truncate_limit l) 1) (\<lambda>_. Ok ()))"

section \<open>Exact values\<close>

text \<open>The bound over the natural numbers, without overflow.\<close>

definition column_cost :: "usize \<Rightarrow> plain_column \<Rightarrow> nat" where
  "column_cost pages c =
     (let n = value_bytes c + level_bytes c
      in n + n div 256 + pages * 64 + pages * FINAL_PAGE_FRAMING_BOUND)"

definition body_cost :: "usize \<Rightarrow> plain_column list \<Rightarrow> nat" where
  "body_cost pages cs = FINAL_FILE_FRAMING_BOUND + (\<Sum>c \<leftarrow> cs. column_cost pages c)"

lemma checked_mul_usize_Some [simp]:
  "checked_mul_usize a b = Some c \<longleftrightarrow> c = a * b \<and> a * b \<le> usize_max"
  by (auto simp: checked_mul_usize_def)

lemma bind_Some_iff: "Option.bind x f = Some y \<longleftrightarrow> (\<exists>z. x = Some z \<and> f z = Some y)"
  by (cases x) auto

lemma plain_body_loop_Ok:
  "plain_body_loop (pages * 64) (pages * FINAL_PAGE_FRAMING_BOUND) cs body = Ok n \<longleftrightarrow>
     n = body + (\<Sum>c \<leftarrow> cs. column_cost pages c) \<and> (cs = [] \<or> n \<le> usize_max)"
proof (induction cs arbitrary: body)
  case (Cons c cs)
  have tail: "body' + (\<Sum>c \<leftarrow> cs. column_cost pages c) \<le> usize_max \<longrightarrow> body' \<le> usize_max" for body'
    by simp
  have cost: "column_cost pages c = value_bytes c + level_bytes c + (value_bytes c + level_bytes c) div 256 +
      pages * 64 + pages * FINAL_PAGE_FRAMING_BOUND"
    by (simp add: column_cost_def Let_def)
  show ?case
    unfolding plain_body_loop.simps and_then_Ok_iff ok_or_Ok_iff bind_Some_iff checked_add_usize_Some Cons.IH
    using tail [of "body + column_cost pages c"]
    by (auto simp: cost)
qed auto

text \<open>What a column occupies, and the page count the loop arrives at.\<close>

definition plain_size :: "usize \<Rightarrow> usize \<Rightarrow> column \<Rightarrow> plain_column" where
  "plain_size rows lvals col =
     (if col_ty col = ListI32 then \<lparr>value_bytes = lvals * 4, level_bytes = (rows + lvals) * 4 + 16\<rparr>
      else \<lparr>value_bytes = rows * scalar_width (col_ty col),
            level_bytes = (if col_nullable col then rows * 2 + 8 else 0)\<rparr>)"

definition pages_of :: "plain_column \<Rightarrow> nat" where
  "pages_of c = max (div_ceil (value_bytes c + level_bytes c) FINAL_DATA_PAGE_BYTES) 1"

definition data_pages :: "usize \<Rightarrow> usize \<Rightarrow> column list \<Rightarrow> nat" where
  "data_pages rows lvals cols =
     foldl (\<lambda>p col. max p (pages_of (plain_size rows lvals col)))
       (max (div_ceil rows SECTION_WRITE_BATCH_ROWS) 1) cols"

lemma scalar_width_le: "scalar_width t \<le> 8"
  by (cases t) simp_all

lemma width_bound:
  assumes "rows < 2 ^ 32"
  shows "rows * scalar_width t \<le> 2 ^ 35"
proof -
  have "rows * scalar_width t \<le> 2 ^ 32 * 8"
    using assms scalar_width_le [of t] by (intro mult_le_mono) simp_all
  then show ?thesis by simp
qed

lemma plain_size_total:
  assumes "rows < 2 ^ 32" and "lvals \<le> 2 ^ 28"
  shows "value_bytes (plain_size rows lvals col) + level_bytes (plain_size rows lvals col) < 2 ^ 36"
  using assms width_bound [OF assms(1), of "col_ty col"] by (auto simp: plain_size_def)

lemma column_plain_size_eq:
  assumes "rows < 2 ^ 32" and "lvals \<le> 2 ^ 28"
  shows "column_plain_size rows lvals col = Ok (plain_size rows lvals col)"
proof -
  have "rows * scalar_width (col_ty col) \<le> usize_max"
    using width_bound [OF assms(1), of "col_ty col"] by simp
  then show ?thesis
    using assms
    by (simp add: column_plain_size_def plain_size_def checked_mul_usize_def checked_add_usize_def del: mult_le_cancel1 mult_le_cancel2)
qed

lemma data_columns_loop_eq:
  assumes "rows < 2 ^ 32" and "lvals \<le> 2 ^ 28"
  shows "data_columns_loop rows lvals cols p =
    Ok (map (plain_size rows lvals) cols, foldl (\<lambda>p col. max p (pages_of (plain_size rows lvals col))) p cols)"
proof (induction cols arbitrary: p)
  case (Cons col cols)
  have "value_bytes (plain_size rows lvals col) + level_bytes (plain_size rows lvals col) \<le> usize_max"
    using plain_size_total [OF assms, of col] by simp
  then show ?case
    by (simp add: column_plain_size_eq [OF assms] checked_add_usize_def Cons.IH pages_of_def)
qed simp

lemma data_pages_bound:
  assumes "rows < 2 ^ 32" and "lvals \<le> 2 ^ 28"
  shows "0 < data_pages rows lvals cols" and "data_pages rows lvals cols \<le> 2 ^ 17"
proof -
  have each: "pages_of (plain_size rows lvals col) \<le> 2 ^ 17" for col
    using plain_size_total [OF assms, of col]
    by (simp add: pages_of_def div_ceil_def FINAL_DATA_PAGE_BYTES_def)
  have "0 < p \<and> p \<le> 2 ^ 17 \<Longrightarrow>
      0 < foldl (\<lambda>p col. max p (pages_of (plain_size rows lvals col))) p cols \<and>
      foldl (\<lambda>p col. max p (pages_of (plain_size rows lvals col))) p cols \<le> 2 ^ 17" for p
    using each by (induction cols arbitrary: p) auto
  moreover have "max (div_ceil rows SECTION_WRITE_BATCH_ROWS) 1 \<le> 2 ^ 17"
    using assms(1) by (simp add: div_ceil_def SECTION_WRITE_BATCH_ROWS_def)
  ultimately show "0 < data_pages rows lvals cols" and "data_pages rows lvals cols \<le> 2 ^ 17"
    by (simp_all add: data_pages_def)
qed

lemma data_columns_pages:
  assumes "rows < 2 ^ 32" and "lvals \<le> 2 ^ 28"
  shows "data_columns_loop rows lvals cols (max (div_ceil rows SECTION_WRITE_BATCH_ROWS) 1) =
    Ok (map (plain_size rows lvals) cols, data_pages rows lvals cols)"
  unfolding data_columns_loop_eq [OF assms] data_pages_def ..

lemma check_row_cap_eq:
  "check_row_cap rows = (if rows < 2 ^ 32 then Ok () else Err (TooManyRows rows (2 ^ 32 - 1)))"
  by (auto simp: check_row_cap_def u32_try_from_def MAX_SECTION_ROWS_def)

lemma and_then_Err_iff: "and_then r f = Err e \<longleftrightarrow> r = Err e \<or> (\<exists>x. r = Ok x \<and> f x = Err e)"
  by (cases r) auto

lemma ok_or_Err_iff: "ok_or x e = Err e' \<longleftrightarrow> x = None \<and> e' = e"
  by (cases x) (auto simp: ok_or_def)

lemma plain_body_loop_Err: "plain_body_loop overhead framing cs body = Err e \<Longrightarrow> e = too_large"
  by (induction cs arbitrary: body) (auto simp: and_then_Err_iff ok_or_Err_iff)

text \<open>The bound of the columns: exact, with a size that does not fit the machine reported as its largest value.\<close>

lemma plain_bound_eq:
  assumes "0 < pages" and "pages * FINAL_PAGE_FRAMING_BOUND \<le> usize_max"
  shows "final_single_batch_plain_body_bound cs pages =
    (if body_cost pages cs > 2 ^ 30 then Err (SectionTooLarge (min (body_cost pages cs) usize_max) (2 ^ 30))
     else Ok (body_cost pages cs))"
proof -
  have start: "FINAL_FILE_FRAMING_BOUND \<le> usize_max" by (simp add: FINAL_FILE_FRAMING_BOUND_def)
  have "plain_body_loop (pages * 64) (pages * FINAL_PAGE_FRAMING_BOUND) cs FINAL_FILE_FRAMING_BOUND =
      (if body_cost pages cs \<le> usize_max then Ok (body_cost pages cs) else Err too_large)"
  proof (cases "plain_body_loop (pages * 64) (pages * FINAL_PAGE_FRAMING_BOUND) cs FINAL_FILE_FRAMING_BOUND")
    case (Inl e)
    have "\<not> (body_cost pages cs = FINAL_FILE_FRAMING_BOUND + (\<Sum>c \<leftarrow> cs. column_cost pages c) \<and>
        (cs = [] \<or> body_cost pages cs \<le> usize_max))"
      using plain_body_loop_Ok [of pages cs FINAL_FILE_FRAMING_BOUND "body_cost pages cs"] Inl by simp
    then show ?thesis using Inl plain_body_loop_Err [OF Inl] by (auto simp: body_cost_def)
  next
    case (Inr n)
    then have "n = body_cost pages cs \<and> (cs = [] \<or> n \<le> usize_max)"
      unfolding plain_body_loop_Ok body_cost_def by auto
    moreover from this have "body_cost pages cs \<le> usize_max"
      using start by (cases "cs = []") (auto simp: body_cost_def)
    ultimately show ?thesis using Inr by simp
  qed
  moreover have "pages * 64 \<le> usize_max" using assms(2) by (simp add: FINAL_PAGE_FRAMING_BOUND_def)
  ultimately show ?thesis
    using assms
    by (auto simp: final_single_batch_plain_body_bound_def checked_mul_usize_def ok_or_def too_large_def MAX_SECTION_BYTES_eq)
qed

text \<open>
  C25: the size bound is exact and cannot be defeated by overflow, and every refusal names its reason.
  In the order of the checks: a row count that does not fit the catalog field is \<open>TooManyRows\<close>,
  a type outside the registry is \<open>UnknownType\<close>, list values above their cap are \<open>TooManyListValues\<close> with the
  first list column, list values without a list column are \<open>SchemaMismatch\<close>, and otherwise the
  size, computed over the natural numbers from the columns of the contract, is returned when it is at most
  one gibibyte and reported as \<open>SectionTooLarge\<close> when it is above.
\<close>

theorem final_data_body_bound_exact:
  "final_data_body_bound t rows lvals =
     (if rows \<ge> 2 ^ 32 then Err (TooManyRows rows (2 ^ 32 - 1))
      else case contract t of
        None \<Rightarrow> Err (UnknownType t)
      | Some c \<Rightarrow>
          (let list_columns = filter (\<lambda>col. col_ty col = ListI32) (tc_columns c);
               n = body_cost (data_pages rows lvals (tc_columns c)) (map (plain_size rows lvals) (tc_columns c))
           in if lvals > 2 ^ 28
              then Err (TooManyListValues (if list_columns = [] then ''ListI32'' else col_name (hd list_columns))
                lvals (2 ^ 28))
              else if lvals \<noteq> 0 \<and> list_columns = [] then Err SchemaMismatch
              else if n > 2 ^ 30 then Err (SectionTooLarge (min n usize_max) (2 ^ 30))
              else Ok n))"
proof (cases "rows < 2 ^ 32")
  case rows: True
  show ?thesis
  proof (cases "contract t")
    case None
    then show ?thesis using rows by (simp add: final_data_body_bound_def check_row_cap_eq ok_or_def)
  next
    case (Some c)
    have lists: "(\<exists>col \<in> set cols. col_ty col = ListI32) \<longleftrightarrow> filter (\<lambda>col. col_ty col = ListI32) cols \<noteq> []"
      "List.find (\<lambda>col. col_ty col = ListI32) cols =
         (if filter (\<lambda>col. col_ty col = ListI32) cols = [] then None else Some (hd (filter (\<lambda>col. col_ty col = ListI32) cols)))"
      for cols by (induction cols) auto
    show ?thesis
    proof (cases "lvals \<le> 2 ^ 28")
      case True
      have "data_pages rows lv cols * FINAL_PAGE_FRAMING_BOUND \<le> usize_max" "0 < data_pages rows lv cols"
        if "lv \<le> 2 ^ 28" for cols lv
        using data_pages_bound [of rows lv cols] that rows by (simp_all add: FINAL_PAGE_FRAMING_BOUND_def)
      then show ?thesis
        using True rows Some
        by (simp add: final_data_body_bound_def check_row_cap_eq ok_or_def Let_def lists plain_bound_eq
            data_columns_pages [unfolded One_nat_def] MAX_LIST_I32_VALUES_PER_SECTION_def MAX_SECTION_BYTES_eq)
    next
      case False
      then show ?thesis
        using rows Some
        by (simp add: final_data_body_bound_def check_row_cap_eq ok_or_def Let_def lists
            MAX_LIST_I32_VALUES_PER_SECTION_def MAX_SECTION_BYTES_eq)
    qed
  qed
qed (simp add: final_data_body_bound_def check_row_cap_eq)

end
