(* ===== verification/Segment_Finish.thy ===== *)
theory Segment_Finish
  imports Codec_Bounds Journal
begin

text \<open>
  Assembly of a finished segment from spooled section bodies
  (\<open>crates/kronika-writer/src/segment.rs\<close>, \<open>segment/error.rs\<close>): section descriptors, the
  canonical plan, the chunked copy with its checksum, and the container that is written around
  the bodies. Every function takes the output stream and returns it after the call; any call on
  a stream or a file may fail. Failing allocations are not modelled.
\<close>

section \<open>Errors\<close>

datatype write_error =
    WriteIo io_error
  | WriteLayout layout_error
  | WriteJournal journal_error
  | WritePart part_error
  | Codec codec_error
  | WriteEmpty
  | DestinationMismatch (dm_journal: segment_id) (dm_destination: segment_id)
  | GeneratedSegmentInvalid
  | ExistingSegmentInvalid
  | ExistingSegmentMismatch
  | CatalogTooLarge (attempted_entries: usize) (max_entries: usize)
  | UnsupportedFormat u32
  | WriteRowCountMismatch (wrm_type_id: u32) (wrm_declared: u32) (wrm_decoded: usize)
  | DictionaryConflict u64
  | InvalidTimestampBounds i64 i64
  | ArithmeticOverflow string
  | TooManySections usize usize

section \<open>Constants\<close>

definition MAX_CATALOG_BYTES :: usize where "MAX_CATALOG_BYTES = 64 * 1024 * 1024"
definition COMPARE_BUFFER_BYTES :: usize where "COMPARE_BUFFER_BYTES = 64 * 1024"
definition MAX_CATALOG_ENTRIES :: usize where
  "MAX_CATALOG_ENTRIES = (MAX_CATALOG_BYTES - META_LEN) div ENTRY_LEN"

section \<open>Output streams\<close>

text \<open>
  A buffered writer: what was written, and for each coming call whether it fails. Where the
  bytes of a failed stream end does not matter, because every caller discards the file.
\<close>

record out_stream =
  written :: bytes
  out_faults :: "io_error option list"

definition next_out :: "out_stream \<Rightarrow> io_error option \<times> out_stream" where
  "next_out out =
     (case out_faults out of
        [] \<Rightarrow> (None, out)
      | x # xs \<Rightarrow> (x, out\<lparr>out_faults := xs\<rparr>))"

definition out_write_all :: "bytes \<Rightarrow> out_stream \<Rightarrow> (io_error + unit) \<times> out_stream" where
  "out_write_all bs out =
     (case next_out out of
        (Some e, out) \<Rightarrow> (Err e, out)
      | (None, out) \<Rightarrow> (Ok (), out\<lparr>written := written out @ bs\<rparr>))"

definition out_flush :: "out_stream \<Rightarrow> (io_error + unit) \<times> out_stream" where
  "out_flush out = (case next_out out of (Some e, out) \<Rightarrow> (Err e, out) | (None, out) \<Rightarrow> (Ok (), out))"

text \<open>\<open>?\<close> on a call that threads the stream.\<close>

definition then_out :: "('e + 'a) \<times> 's \<Rightarrow> ('a \<Rightarrow> 's \<Rightarrow> ('e + 'b) \<times> 's) \<Rightarrow> ('e + 'b) \<times> 's" where
  "then_out r k = (case r of (Err e, s) \<Rightarrow> (Err e, s) | (Ok x, s) \<Rightarrow> k x s)"

definition err_out :: "('e \<Rightarrow> 'f) \<Rightarrow> ('e + 'a) \<times> 's \<Rightarrow> ('f + 'a) \<times> 's" where
  "err_out f r = (map_err f (fst r), snd r)"

section \<open>Section descriptors\<close>

record finished_section =
  fs_type_id :: u32
  fs_rows :: u32
  fs_offset :: u64
  fs_len :: u64
  fs_crc32c :: u32

definition check_final_section_len :: "u64 \<Rightarrow> write_error + unit" where
  "check_final_section_len len =
     (if unat len = 0 \<or> unat len > MAX_SECTION_BYTES
      then Err (Codec (SectionTooLarge (unat len) MAX_SECTION_BYTES)) else Ok ())"

definition FinishedSection_new ::
  "u32 \<Rightarrow> u32 \<Rightarrow> u64 \<Rightarrow> u64 \<Rightarrow> u32 \<Rightarrow> write_error + finished_section" where
  "FinishedSection_new t rows off len crc =
     (if contract t = None \<and> t \<noteq> DICT_STRINGS_TYPE_ID \<and> t \<noteq> DICT_BLOBS_TYPE_ID
      then Err (Codec (UnknownType t))
      else if unat rows = 0 \<or> unat rows > MAX_SECTION_ROWS
      then Err (Codec (TooManyRows (unat rows) MAX_SECTION_ROWS))
      else and_then (check_final_section_len len) (\<lambda>_.
        and_then (ok_or (checked_add_word off len) (ArithmeticOverflow ''spool section end'')) (\<lambda>_.
          Ok \<lparr>fs_type_id = t, fs_rows = rows, fs_offset = off, fs_len = len, fs_crc32c = crc\<rparr>)))"

section \<open>The plan of a finished container\<close>

definition checked_catalog_entries :: "usize \<Rightarrow> usize \<Rightarrow> write_error + usize" where
  "checked_catalog_entries current additional =
     and_then (ok_or (checked_add_usize current additional) (CatalogTooLarge usize_max MAX_CATALOG_ENTRIES))
       (\<lambda>attempted.
         if attempted > MAX_CATALOG_ENTRIES then Err (CatalogTooLarge attempted MAX_CATALOG_ENTRIES)
         else Ok attempted)"

record finished_zms_plan =
  fp_sections :: "finished_section list"
  fp_min_ts :: i64
  fp_max_ts :: i64
  fp_window_count :: u32

text \<open>
  The order of equal types under the unstable sort does not matter: they are rejected next.
\<close>

definition FinishedZmsPlan_new ::
  "finished_section list \<Rightarrow> i64 \<Rightarrow> i64 \<Rightarrow> u32 \<Rightarrow> write_error + finished_zms_plan" where
  "FinishedZmsPlan_new sections lo hi windows =
     (if sint lo > sint hi then Err (InvalidTimestampBounds lo hi)
      else and_then (checked_catalog_entries 0 (length sections)) (\<lambda>_.
        let sections = sort_key (\<lambda>s. unat (fs_type_id s)) sections in
        if \<exists>i < length sections - 1. fs_type_id (sections ! i) = fs_type_id (sections ! Suc i)
        then Err (Codec SchemaMismatch)
        else Ok \<lparr>fp_sections = sections, fp_min_ts = lo, fp_max_ts = hi, fp_window_count = windows\<rparr>))"

section \<open>Copying one body\<close>

text \<open>Every round advances, and never past the end.\<close>

lemma copy_chunk_advances:
  assumes "copied < len" and "checked_add_word copied (of_nat (min (unat (len - copied)) COMPARE_BUFFER_BYTES)) = Some c"
  shows "unat c = unat copied + min (unat len - unat copied) COMPARE_BUFFER_BYTES"
    and "unat copied < unat c" and "unat c \<le> unat (len :: u64)"
proof -
  have lt: "unat copied < unat len" using assms(1) by (simp add: word_less_nat_alt)
  have sub: "unat (len - copied) = unat len - unat copied"
    using assms(1) by (simp add: unat_sub_if_size word_le_nat_alt word_less_nat_alt)
  have "min (unat (len - copied)) COMPARE_BUFFER_BYTES < 2 ^ 64"
    by (simp add: COMPARE_BUFFER_BYTES_def)
  then have "unat (of_nat (min (unat (len - copied)) COMPARE_BUFFER_BYTES) :: u64) =
      min (unat len - unat copied) COMPARE_BUFFER_BYTES"
    using unat_of_nat_u64 sub by simp
  then show c: "unat c = unat copied + min (unat len - unat copied) COMPARE_BUFFER_BYTES"
    using checked_add_word_Some [OF assms(2)] by simp
  show "unat copied < unat c" "unat c \<le> unat len"
    using lt by (simp_all add: c COMPARE_BUFFER_BYTES_def)
qed

text \<open>One chunk per round, at most 64 KiB, until \<open>len\<close> bytes are copied.\<close>

function copy_loop ::
  "'d crc_alg \<Rightarrow> os_file \<Rightarrow> finished_section \<Rightarrow> u64 \<Rightarrow> 'd crc32c_state \<Rightarrow> out_stream \<Rightarrow>
     (write_error + 'd crc32c_state) \<times> out_stream" where
  "copy_loop A spool s copied acc out =
     (if copied < fs_len s then
        let chunk = min (unat (fs_len s - copied)) COMPARE_BUFFER_BYTES in
        (case checked_add_word (fs_offset s) copied of
           None \<Rightarrow> (Err (ArithmeticOverflow ''spool read offset''), out)
         | Some at \<Rightarrow>
             (case file_read_exact_at spool chunk (unat at) of
                Err e \<Rightarrow> (Err (WriteIo e), out)
              | Ok bs \<Rightarrow>
                  (case out_write_all bs out of
                     (Err e, out) \<Rightarrow> (Err (WriteIo e), out)
                   | (Ok _, out) \<Rightarrow>
                       (case checked_add_word copied (of_nat chunk) of
                          None \<Rightarrow> (Err (ArithmeticOverflow ''spool copy length''), out)
                        | Some copied \<Rightarrow>
                            copy_loop A spool s copied (Crc32c_update A acc bs) out))))
      else (Ok acc, out))"
  by pat_completeness auto
termination
proof (relation "measure (\<lambda>(A, spool, s, copied, acc, out). unat (fs_len s) - unat copied)", goal_cases)
  case 1
  then show ?case by simp
next
  case (2 A spool s copied acc out chunk at bs r out' u c)
  then show ?case
    using copy_chunk_advances(2,3) [of copied "fs_len s" c] by simp
qed

declare copy_loop.simps [simp del]

definition copy_spooled_section ::
  "'d crc_alg \<Rightarrow> os_file \<Rightarrow> finished_section \<Rightarrow> out_stream \<Rightarrow> (write_error + unit) \<times> out_stream" where
  "copy_spooled_section A spool s out =
     then_out (copy_loop A spool s 0 (Crc32c_new A) out) (\<lambda>acc out.
       let got = Crc32c_finalize A acc in
       if got \<noteq> fs_crc32c s then (Err (Codec (SectionCrcMismatch (fs_crc32c s) got)), out)
       else (Ok (), out))"

section \<open>Writing the container\<close>

definition push_section_entry ::
  "entry list \<Rightarrow> u64 \<Rightarrow> finished_section \<Rightarrow> write_error + entry list \<times> u64" where
  "push_section_entry es off s =
     (if es \<noteq> [] \<and> e_type_id (List.last es) \<ge> fs_type_id s then Err (Codec SchemaMismatch)
      else and_then (checked_catalog_entries (length es) 1) (\<lambda>_.
        let e = \<lparr>e_type_id = fs_type_id s, e_flags = 0, e_offset = off, e_len = fs_len s,
                 e_rows = fs_rows s, e_crc32c = fs_crc32c s\<rparr> in
        and_then (ok_or (checked_add_word off (fs_len s)) (ArithmeticOverflow ''segment offset'')) (\<lambda>off.
          Ok (es @ [e], off))))"

fun write_bodies ::
  "'d crc_alg \<Rightarrow> os_file \<Rightarrow> finished_section list \<Rightarrow> entry list \<Rightarrow> u64 \<Rightarrow> out_stream \<Rightarrow>
     (write_error + entry list \<times> u64) \<times> out_stream" where
  "write_bodies A spool [] es off out = (Ok (es, off), out)"
| "write_bodies A spool (s # ss) es off out =
     then_out (copy_spooled_section A spool s out) (\<lambda>_ out.
     then_out (push_section_entry es off s, out) (\<lambda>(es, off) out.
       write_bodies A spool ss es off out))"

record write_summary =
  ws_sections :: usize
  ws_bytes :: u64
  ws_min_ts :: i64
  ws_max_ts :: i64

definition write_finished_zms_core ::
  "'d crc_alg \<Rightarrow> os_file \<Rightarrow> finished_zms_plan \<Rightarrow> out_stream \<Rightarrow> (write_error + write_summary) \<times> out_stream" where
  "write_finished_zms_core A spool plan out =
     then_out (err_out WriteIo (out_write_all MAGIC out)) (\<lambda>_ out.
     then_out (write_bodies A spool (fp_sections plan) [] (of_nat (length MAGIC)) out) (\<lambda>(es, off) out.
     let c = \<lparr>entries = es, min_ts = fp_min_ts plan, max_ts = fp_max_ts plan,
              format_version = FORMAT_VERSION, window_count = fp_window_count plan\<rparr> in
     then_out (ok_or (checked_add_usize (encoded_len c) TAIL_INDEX_LEN)
         (ArithmeticOverflow ''finished catalog length''), out) (\<lambda>catalog_bytes out.
     then_out (ok_or (checked_add_word off (of_nat catalog_bytes))
         (ArithmeticOverflow ''finished segment length''), out) (\<lambda>all_bytes out.
     then_out (map_err WriteIo (Catalog_write_encoded A c), out) (\<lambda>encoded out.
     then_out (err_out WriteIo (out_write_all encoded out)) (\<lambda>_ out.
       (Ok \<lparr>ws_sections = length es, ws_bytes = all_bytes, ws_min_ts = fp_min_ts plan,
            ws_max_ts = fp_max_ts plan\<rparr>, out)))))))"

definition write_finished_zms ::
  "'d crc_alg \<Rightarrow> os_file \<Rightarrow> finished_zms_plan \<Rightarrow> out_stream \<Rightarrow> (write_error + write_summary) \<times> out_stream" where
  "write_finished_zms A spool plan out =
     then_out (write_finished_zms_core A spool plan out) (\<lambda>summary out.
     then_out (err_out WriteIo (out_flush out)) (\<lambda>_ out. (Ok summary, out)))"

end
