(* ===== verification/Segment_Plan.thy ===== *)
theory Segment_Plan
  imports Segment_Finish Journal_Repr
begin

text \<open>
  The plan of a segment (\<open>crates/kronika-writer/src/segment/plan.rs\<close>): the catalogs of the
  journal's parts are read again by positional reads, their sections are grouped by type, and
  bodies are read through the journal's handle. The lemmas show that the positional reads parse
  what the whole part would parse, and that the plan of a healthy journal lists every section
  of every part exactly once.
\<close>

section \<open>Definitions\<close>

record section_descriptor =
  sd_part :: journal_part_ref
  sd_entry :: entry

record segment_plan =
  by_type :: "(u32, section_descriptor list) omap"
  sp_min_ts :: i64
  sp_max_ts :: i64
  sp_window_count :: u32

definition min_i64 :: "i64 \<Rightarrow> i64 \<Rightarrow> i64" where
  "min_i64 a b = (if sint a \<le> sint b then a else b)"

definition max_i64 :: "i64 \<Rightarrow> i64 \<Rightarrow> i64" where
  "max_i64 a b = (if sint a \<le> sint b then b else a)"

definition read_part_catalog :: "'d crc_alg \<Rightarrow> journal \<Rightarrow> journal_part_ref \<Rightarrow> write_error + catalog" where
  "read_part_catalog A j part =
     (let len = ref_len part in
      if len < length MAGIC + META_LEN + TAIL_INDEX_LEN then Err (WritePart (TooShort len))
      else and_then (map_err WriteJournal (read_part_range j part 0 (length MAGIC))) (\<lambda>magic.
        if magic \<noteq> MAGIC then Err (WritePart (PartBadMagic magic))
        else
          let tail_at = len - TAIL_INDEX_LEN in
          and_then (map_err WriteJournal (read_part_range j part tail_at TAIL_INDEX_LEN)) (\<lambda>bs.
          and_then (map_err (WritePart \<circ> Tail) (TailIndex_decode bs)) (\<lambda>tail.
            let n = unat (catalog_len tail) in
            case checked_sub_usize tail_at n of
              None \<Rightarrow> Err (WritePart (PartBadCatalogLen (catalog_len tail)))
            | Some catalog_at \<Rightarrow>
                if catalog_at < length MAGIC then Err (WritePart (PartBadCatalogLen (catalog_len tail)))
                else
                  and_then (map_err WriteJournal (read_part_range j part catalog_at n)) (\<lambda>bs.
                  and_then (map_err (WritePart \<circ> CatalogErr) (Catalog_decode A bs)) (\<lambda>c.
                  and_then (map_err (WritePart \<circ> Layout) (validate_catalog_layout c (of_nat catalog_at))) (\<lambda>_.
                    Ok c)))))))"

text \<open>The map under construction and the number of descriptors in it.\<close>

type_synonym grouped = "(u32, section_descriptor list) omap \<times> usize"

definition push_descriptor :: "section_descriptor \<Rightarrow> grouped \<Rightarrow> write_error + grouped" where
  "push_descriptor d g =
     and_then (ok_or (checked_add_usize (snd g) 1) (ArithmeticOverflow ''section descriptor count'')) (\<lambda>n.
       if n > MAX_SECTION_ROWS then Err (TooManySections n MAX_SECTION_ROWS)
       else
         let t = e_type_id (sd_entry d);
             ds = (case map_of (fst g) t of None \<Rightarrow> [] | Some ds \<Rightarrow> ds)
         in Ok (om_insert t (ds @ [d]) (fst g), n))"

fun push_entries :: "journal_part_ref \<Rightarrow> entry list \<Rightarrow> grouped \<Rightarrow> write_error + grouped" where
  "push_entries r [] g = Ok g"
| "push_entries r (e # es) g =
     and_then (push_descriptor \<lparr>sd_part = r, sd_entry = e\<rparr> g) (push_entries r es)"

fun plan_parts ::
  "'d crc_alg \<Rightarrow> journal \<Rightarrow> journal_part_ref list \<Rightarrow> grouped \<Rightarrow> i64 \<Rightarrow> i64 \<Rightarrow>
     write_error + grouped \<times> i64 \<times> i64" where
  "plan_parts A j [] g lo hi = Ok (g, lo, hi)"
| "plan_parts A j (r # rs) g lo hi =
     and_then (read_part_catalog A j r) (\<lambda>c.
       if format_version c \<noteq> FORMAT_VERSION then Err (UnsupportedFormat (format_version c))
       else and_then (push_entries r (entries c) g) (\<lambda>g.
         plan_parts A j rs g (min_i64 lo (min_ts c)) (max_i64 hi (max_ts c))))"

definition plan_segment :: "'d crc_alg \<Rightarrow> journal \<Rightarrow> write_error + segment_plan" where
  "plan_segment A j =
     and_then (ok_or (u32_try_from (length (j_parts j))) (ArithmeticOverflow ''window count'')) (\<lambda>windows.
     and_then (plan_parts A j (j_parts j) ([], 0) i64_max i64_min) (\<lambda>((m, _), lo, hi).
       let empty = sint lo > sint hi in
       Ok \<lparr>by_type = m, sp_min_ts = (if empty then 0 else lo), sp_max_ts = (if empty then 0 else hi),
            sp_window_count = windows\<rparr>))"

fun sum_rows :: "section_descriptor list \<Rightarrow> usize \<Rightarrow> write_error + usize" where
  "sum_rows [] rows = Ok rows"
| "sum_rows (d # ds) rows =
     and_then (ok_or (checked_add_usize rows (unat (e_rows (sd_entry d)))) (ArithmeticOverflow ''section row count''))
       (sum_rows ds)"

definition aggregate_rows :: "u32 \<Rightarrow> section_descriptor list \<Rightarrow> write_error + usize" where
  "aggregate_rows t ds =
     and_then (sum_rows ds 0) (\<lambda>rows.
       if rows > MAX_SECTION_ROWS then Err (Codec (TooManyRows rows MAX_SECTION_ROWS))
       else if t = 0 then Err (Codec (UnknownType t))
       else Ok rows)"

text \<open>A \<open>u64\<close> always fits a \<open>usize\<close> on the 64-bit targets.\<close>

definition read_section_body :: "journal \<Rightarrow> section_descriptor \<Rightarrow> write_error + bytes" where
  "read_section_body j d =
     map_err WriteJournal
       (read_part_range j (sd_part d) (unat (e_offset (sd_entry d))) (unat (e_len (sd_entry d))))"

definition read_verified_body :: "'d crc_alg \<Rightarrow> journal \<Rightarrow> section_descriptor \<Rightarrow> write_error + bytes" where
  "read_verified_body A j d =
     and_then (read_section_body j d) (\<lambda>body.
       map_err Codec (VerifiedSection_verify body (e_crc32c (sd_entry d)) (crc32c A)))"

section \<open>Positional reads of a healthy journal\<close>

text \<open>The part behind a reference of a healthy journal.\<close>

definition part_of :: "journal \<Rightarrow> bytes list \<Rightarrow> journal_part_ref \<Rightarrow> bytes \<Rightarrow> bool" where
  "part_of j ps r p \<longleftrightarrow> (\<exists>i < length ps. r = j_parts j ! i \<and> p = ps ! i)"

lemma part_of_slice:
  assumes repr: "journal_repr A j ps" and "part_of j ps r p"
  shows "p_len (r_part r) = length p"
    and "r \<in> set (j_parts j)"
    and "p_offset (r_part r) + length p \<le> length (content (j_file j))"
    and "slice_of (p_offset (r_part r)) (length p) (content (j_file j)) = p"
proof -
  from assms(2) obtain i where i: "i < length ps" and r: "r = j_parts j ! i" and p: "p = ps ! i"
    by (auto simp: part_of_def)
  have "r = JournalPartRef_new (refs_from 36 ps ! i) (j_generation j)"
    using repr i by (simp add: journal_repr_def r)
  then have rp: "r_part r = \<lparr>p_offset = 36 + length (frames_bytes A (take i ps)) + 16, p_len = length p\<rparr>"
    using refs_from_nth [OF i, of 36 A] by (simp add: JournalPartRef_new_def p)
  have c: "content (j_file j) = JournalHeader_encode A (current_header j) @ frames_bytes A ps"
    using repr by (simp add: journal_repr_def)
  show "p_len (r_part r) = length p" by (simp add: rp)
  show "r \<in> set (j_parts j)" using i repr_facts(5) [OF repr] by (simp add: r)
  show "p_offset (r_part r) + length p \<le> length (content (j_file j))"
    using part_slice(2) [OF i, of A] by (simp add: rp p c)
  show "slice_of (p_offset (r_part r)) (length p) (content (j_file j)) = p"
    using part_slice(1) [OF i, of A "current_header j"] by (simp add: rp p c)
qed

lemma slice_of_slice:
  "off + n \<le> m \<Longrightarrow> slice_of off n (slice_of at m xs) = slice_of (at + off) n xs"
  by (simp add: slice_of_def take_drop add.commute)

lemma read_part_range_part:
  assumes repr: "journal_repr A j ps" and rd: "readable (j_file j)" and pt: "part_of j ps r p"
    and bound: "off + n \<le> length p"
  shows "read_part_range j r off n = Ok (slice_of off n p)"
proof -
  note s = part_of_slice [OF repr pt]
  have small: "length (content (j_file j)) \<le> 2 ^ 30"
    using repr_facts(3) [OF repr] repr by (simp add: journal_repr_def)
  have "file_read_exact_at (j_file j) n (p_offset (r_part r) + off) =
      Ok (slice_of (p_offset (r_part r) + off) n (content (j_file j)))"
    using rd s(3) bound small
    by (simp add: file_read_exact_at_def readable_def slice_read_exact_at_def checked_add_usize_def)
  also have "slice_of (p_offset (r_part r) + off) n (content (j_file j)) = slice_of off n p"
    by (metis slice_of_slice [OF bound] s(4))
  finally show ?thesis
    using check_ref_iff [OF repr, of r] s bound small
    by (simp add: read_part_range_def checked_add_usize_def)
qed

text \<open>Reading a catalog through the journal is parsing the part in memory.\<close>

lemma read_part_catalog_eq:
  assumes repr: "journal_repr A j ps" and rd: "readable (j_file j)" and pt: "part_of j ps r p"
  shows "read_part_catalog A j r = map_err WritePart (decode_and_bound A p)"
proof (cases "length p < length MAGIC + META_LEN + TAIL_INDEX_LEN")
  case True
  then show ?thesis
    using part_of_slice(1) [OF repr pt] by (simp add: read_part_catalog_def decode_and_bound_def ref_len_def)
next
  case False
  let ?body_end = "length p - TAIL_INDEX_LEN"
  note range = read_part_range_part [OF repr rd pt]
  have len: "ref_len r = length p" using part_of_slice(1) [OF repr pt] by (simp add: ref_len_def)
  have head: "read_part_range j r 0 4 = Ok (take 4 p)"
    using range [of 0 4] False by (simp add: slice_of_def)
  have tail: "read_part_range j r ?body_end TAIL_INDEX_LEN = Ok (drop ?body_end p)"
    using range [of ?body_end TAIL_INDEX_LEN] False by (simp add: slice_of_def)
  show ?thesis
  proof (cases "take 4 p = MAGIC \<and> (\<exists>t. TailIndex_decode (drop ?body_end p) = Ok t \<and> unat (catalog_len t) \<le> ?body_end)")
    case True
    then obtain t where magic: "take 4 p = MAGIC" and t: "TailIndex_decode (drop ?body_end p) = Ok t"
      and n: "unat (catalog_len t) \<le> ?body_end" by blast
    let ?at = "?body_end - unat (catalog_len t)"
    have at: "checked_sub_usize ?body_end (unat (catalog_len t)) = Some ?at" "?body_end - ?at = unat (catalog_len t)"
      using n by simp_all
    have cat: "read_part_range j r ?at (unat (catalog_len t)) = Ok (slice_of ?at (unat (catalog_len t)) p)"
      using range [of ?at "unat (catalog_len t)"] n by simp
    show ?thesis
      using False cat
      by (simp add: read_part_catalog_def decode_and_bound_def len head tail magic t at Let_def and_then_def map_err_def
          split: sum.split)
  next
    case no: False
    show ?thesis
    proof (cases "take 4 p = MAGIC")
      case True
      then show ?thesis
        using no False
        by (cases "TailIndex_decode (drop ?body_end p)")
          (auto simp: read_part_catalog_def decode_and_bound_def len head tail checked_sub_usize_def)
    qed (use False in \<open>simp add: read_part_catalog_def decode_and_bound_def len head Let_def\<close>)
  qed
qed

section \<open>Grouping\<close>

definition group_of :: "u32 \<Rightarrow> section_descriptor list \<Rightarrow> section_descriptor list option" where
  "group_of t ds =
     (let xs = filter (\<lambda>d. e_type_id (sd_entry d) = t) ds in if xs = [] then None else Some xs)"

definition grouped_as :: "grouped \<Rightarrow> section_descriptor list \<Rightarrow> bool" where
  "grouped_as g ds \<longleftrightarrow> om_valid (fst g) \<and> (\<forall>t. map_of (fst g) t = group_of t ds) \<and> snd g = length ds"

definition descriptors :: "journal_part_ref \<Rightarrow> catalog \<Rightarrow> section_descriptor list" where
  "descriptors r c = map (\<lambda>e. \<lparr>sd_part = r, sd_entry = e\<rparr>) (entries c)"

lemma grouped_as_empty [simp]: "grouped_as ([], 0) []"
  by (simp add: grouped_as_def group_of_def)

lemma push_descriptor_Ok:
  assumes "grouped_as g ds" and "length ds < MAX_SECTION_ROWS"
  shows "\<exists>g'. push_descriptor d g = Ok g' \<and> grouped_as g' (ds @ [d])"
proof -
  let ?t = "e_type_id (sd_entry d)"
  let ?old = "case map_of (fst g) ?t of None \<Rightarrow> [] | Some ds \<Rightarrow> ds"
  let ?g = "(om_insert ?t (?old @ [d]) (fst g), Suc (length ds))"
  have g: "om_valid (fst g)" "\<forall>t. map_of (fst g) t = group_of t ds" "snd g = length ds"
    using assms(1) by (simp_all add: grouped_as_def)
  have "push_descriptor d g = Ok ?g"
    using assms(2) by (simp add: push_descriptor_def Let_def g(3) checked_add_usize_def MAX_SECTION_ROWS_def)
  moreover have "grouped_as ?g (ds @ [d])"
    using g by (auto simp: grouped_as_def om_valid_insert om_get_insert group_of_def Let_def)
  ultimately show ?thesis by blast
qed

lemma push_entries_Ok:
  assumes "grouped_as g ds" and "length ds + length es \<le> MAX_SECTION_ROWS"
  shows "\<exists>g'. push_entries r es g = Ok g' \<and> grouped_as g' (ds @ map (\<lambda>e. \<lparr>sd_part = r, sd_entry = e\<rparr>) es)"
  using assms
proof (induction es arbitrary: g ds)
  case (Cons e es)
  have "length ds < MAX_SECTION_ROWS" using Cons.prems(2) by simp
  from push_descriptor_Ok [OF Cons.prems(1) this] obtain g'
    where g': "push_descriptor \<lparr>sd_part = r, sd_entry = e\<rparr> g = Ok g'"
      "grouped_as g' (ds @ [\<lparr>sd_part = r, sd_entry = e\<rparr>])"
    by blast
  from Cons.IH [OF g'(2)] Cons.prems(2) g'(1) show ?case by simp
qed simp

text \<open>The running bounds.\<close>

lemma sint_min_i64: "sint (min_i64 a b) = min (sint a) (sint b)"
  by (simp add: min_i64_def)

lemma sint_max_i64: "sint (max_i64 a b) = max (sint a) (sint b)"
  by (simp add: max_i64_def)

definition low_bound :: "i64 \<Rightarrow> catalog list \<Rightarrow> i64" where
  "low_bound lo cs = fold (\<lambda>c lo. min_i64 lo (min_ts c)) cs lo"

definition high_bound :: "i64 \<Rightarrow> catalog list \<Rightarrow> i64" where
  "high_bound hi cs = fold (\<lambda>c hi. max_i64 hi (max_ts c)) cs hi"

lemma sint_low_bound: "sint (low_bound lo cs) = Min (insert (sint lo) ((sint \<circ> min_ts) ` set cs))"
proof (induction cs arbitrary: lo)
  case (Cons c cs)
  have "sint (low_bound lo (c # cs)) = Min (insert (min (sint lo) (sint (min_ts c))) ((sint \<circ> min_ts) ` set cs))"
    using Cons [of "min_i64 lo (min_ts c)"] by (simp add: low_bound_def sint_min_i64)
  then show ?case by (cases "cs = []") (simp_all add: min.assoc)
qed (simp add: low_bound_def)

lemma sint_high_bound: "sint (high_bound hi cs) = Max (insert (sint hi) ((sint \<circ> max_ts) ` set cs))"
proof (induction cs arbitrary: hi)
  case (Cons c cs)
  have "sint (high_bound hi (c # cs)) = Max (insert (max (sint hi) (sint (max_ts c))) ((sint \<circ> max_ts) ` set cs))"
    using Cons [of "max_i64 hi (max_ts c)"] by (simp add: high_bound_def sint_max_i64)
  then show ?case by (cases "cs = []") (simp_all add: max.assoc)
qed (simp add: high_bound_def)

lemma plan_parts_Ok:
  assumes "list_all2 (\<lambda>r c. read_part_catalog A j r = Ok c \<and> format_version c = FORMAT_VERSION) rs cs"
    and "grouped_as g ds" and "length ds + (\<Sum>c \<leftarrow> cs. length (entries c)) \<le> MAX_SECTION_ROWS"
  shows "\<exists>g'. plan_parts A j rs g lo hi = Ok (g', low_bound lo cs, high_bound hi cs) \<and>
    grouped_as g' (ds @ concat (map2 descriptors rs cs))"
  using assms
proof (induction rs cs arbitrary: g ds lo hi rule: list_all2_induct)
  case (Cons r rs c cs)
  obtain g' where g': "push_entries r (entries c) g = Ok g'" "grouped_as g' (ds @ descriptors r c)"
    using push_entries_Ok [OF Cons.prems(1), of "entries c" r] Cons.prems(2) by (auto simp: descriptors_def)
  have "length (ds @ descriptors r c) + (\<Sum>c \<leftarrow> cs. length (entries c)) \<le> MAX_SECTION_ROWS"
    using Cons.prems(2) by (simp add: descriptors_def)
  from Cons.IH [OF g'(2) this] obtain g'' where
    "plan_parts A j rs g' (min_i64 lo (min_ts c)) (max_i64 hi (max_ts c)) =
       Ok (g'', low_bound (min_i64 lo (min_ts c)) cs, high_bound (max_i64 hi (max_ts c)) cs)"
    "grouped_as g'' ((ds @ descriptors r c) @ concat (map2 descriptors rs cs))"
    by blast
  then show ?case using Cons.hyps g'(1) by (simp add: low_bound_def high_bound_def)
qed (simp add: low_bound_def high_bound_def)

section \<open>The plan of a healthy journal\<close>

definition all_descriptors :: "journal \<Rightarrow> catalog list \<Rightarrow> section_descriptor list" where
  "all_descriptors j cs = concat (map2 descriptors (j_parts j) cs)"

text \<open>The catalogs together have no more entries than the journal has bytes.\<close>

lemma part_entries_bound:
  assumes "crc_laws A" and "length p < 2 ^ 64" and "validate_part A p = Ok c"
  shows "length (entries c) \<le> length p"
proof -
  from assms(3) obtain bodies where "p = part_bytes A bodies c"
    unfolding validate_part_Ok [OF assms(1,2)] by blast
  then show ?thesis by (simp add: encoded_len_def)
qed

lemma entries_bound:
  assumes "crc_laws A" and "list_all2 (\<lambda>p c. validate_part A p = Ok c) ps cs" and "\<forall>p \<in> set ps. length p < 2 ^ 64"
  shows "(\<Sum>c \<leftarrow> cs. length (entries c)) \<le> length (frames_bytes A ps)"
  using assms(2,3)
proof (induction ps cs rule: list_all2_induct)
  case (Cons p ps c cs)
  then show ?case using part_entries_bound [OF assms(1), of p c] by (auto simp: frame_bytes_def)
qed simp

lemma plan_segment_Ok:
  assumes laws: "crc_laws A" and repr: "journal_repr A j ps" and rd: "readable (j_file j)"
    and cs: "list_all2 (\<lambda>p c. validate_part A p = Ok c \<and> format_version c = FORMAT_VERSION) ps cs"
  obtains p g where "plan_segment A j = Ok p" and "by_type p = fst g" and "grouped_as g (all_descriptors j cs)"
    and "unat (sp_window_count p) = length ps"
    and "let lo = low_bound i64_max cs; hi = high_bound i64_min cs; empty = sint lo > sint hi
      in sp_min_ts p = (if empty then 0 else lo) \<and> sp_max_ts p = (if empty then 0 else hi)"
proof -
  have small: "length (j_parts j) < 2 ^ 32"
    using repr by (simp add: journal_repr_def validate_config_Ok MAX_JOURNAL_PARTS_def) 
  have "list_all2 (\<lambda>r c. read_part_catalog A j r = Ok c \<and> format_version c = FORMAT_VERSION) (j_parts j) cs"
  proof (rule list_all2_all_nthI)
    show "length (j_parts j) = length cs" using repr_facts(5) [OF repr] list_all2_lengthD [OF cs] by simp
    fix i assume "i < length (j_parts j)"
    then have i: "i < length ps" by (simp add: repr_facts(5) [OF repr])
    have "part_of j ps (j_parts j ! i) (ps ! i)" using i by (auto simp: part_of_def)
    from read_part_catalog_eq [OF repr rd this] list_all2_nthD [OF cs i]
    show "read_part_catalog A j (j_parts j ! i) = Ok (cs ! i) \<and> format_version (cs ! i) = FORMAT_VERSION"
      by (auto simp: validate_part_def and_then_Ok_iff)
  qed
  moreover have "(\<Sum>c \<leftarrow> cs. length (entries c)) \<le> MAX_SECTION_ROWS"
  proof -
    have "\<forall>p \<in> set ps. length p < 2 ^ 64" using repr good_part_small by (auto simp: journal_repr_def)
    moreover have "list_all2 (\<lambda>p c. validate_part A p = Ok c) ps cs"
      using cs by (rule list_all2_mono) simp
    ultimately have "(\<Sum>c \<leftarrow> cs. length (entries c)) \<le> length (frames_bytes A ps)"
      by (intro entries_bound [OF laws])
    then show ?thesis using repr_facts(1,3) [OF repr] by (simp add: MAX_SECTION_ROWS_def)
  qed
  ultimately obtain g where
    g: "plan_parts A j (j_parts j) ([], 0) i64_max i64_min = Ok (g, low_bound i64_max cs, high_bound i64_min cs)"
      "grouped_as g (all_descriptors j cs)"
    using plan_parts_Ok [of A j "j_parts j" cs "([], 0)" "[]" i64_max i64_min] by (auto simp: all_descriptors_def)
  let ?lo = "low_bound i64_max cs" and ?hi = "high_bound i64_min cs"
  let ?p = "\<lparr>by_type = fst g, sp_min_ts = (if sint ?lo > sint ?hi then 0 else ?lo),
    sp_max_ts = (if sint ?lo > sint ?hi then 0 else ?hi), sp_window_count = of_nat (length ps) :: u32\<rparr>"
  have windows: "u32_try_from (length (j_parts j)) = Some (of_nat (length ps))"
    using small repr_facts(5) [OF repr] by (simp add: u32_try_from_def)
  have plan: "plan_segment A j = Ok ?p"
    unfolding plan_segment_def windows ok_or_simps and_then_simps g(1) by (simp add: Let_def split_beta)
  show thesis
    by (rule that [OF plan]) (use g(2) small repr_facts(5) [OF repr] in \<open>simp_all add: Let_def unat_of_nat_u32\<close>)
qed

end
