(* ===== verification/Segment_Dictionary.thy ===== *)
theory Segment_Dictionary
  imports Segment_Plan
begin

text \<open>
  The dictionary of a finished segment (\<open>crates/kronika-writer/src/segment/dictionary.rs\<close> and the
  final encoder's checks in \<open>dict.rs\<close>): values from the windows' dictionary sections are merged by
  id, with conflicting representations rejected and the caps of a final section enforced. What
  the Parquet library reads from a body, and what it writes for a batch, are parameters.
\<close>

section \<open>The dictionary\<close>

datatype dictionary_value =
    DictString (dv_bytes: bytes)
  | DictBlob (dv_bytes: bytes) (dv_full_len: u64) (dv_truncated: bool) (dv_sha: "bytes option")

record finished_dictionary =
  fd_values :: "(str_id, dictionary_value) omap"
  string_rows :: usize
  blob_rows :: usize
  fd_string_bytes :: usize
  fd_blob_bytes :: usize

definition empty_dictionary :: finished_dictionary where
  "empty_dictionary =
     \<lparr>fd_values = [], string_rows = 0, blob_rows = 0, fd_string_bytes = 0, fd_blob_bytes = 0\<rparr>"

definition is_string_value :: "dictionary_value \<Rightarrow> bool" where
  "is_string_value v = (case v of DictString _ \<Rightarrow> True | DictBlob _ _ _ _ \<Rightarrow> False)"

definition insert_value :: "str_id \<Rightarrow> dictionary_value \<Rightarrow> finished_dictionary \<Rightarrow> write_error + finished_dictionary" where
  "insert_value i v fd =
     (case map_of (fd_values fd) i of
        Some existing \<Rightarrow> if existing = v then Ok fd else Err (DictionaryConflict i)
      | None \<Rightarrow>
          let rows = (if is_string_value v then string_rows fd else blob_rows fd);
              stored = (if is_string_value v then fd_string_bytes fd else fd_blob_bytes fd)
          in and_then (ok_or (checked_add_usize rows 1) (ArithmeticOverflow ''dictionary row count'')) (\<lambda>next_rows.
             if next_rows > MAX_SECTION_ROWS then Err (Codec (TooManyRows next_rows MAX_SECTION_ROWS))
             else and_then (ok_or (checked_add_usize stored (length (dv_bytes v)))
                 (ArithmeticOverflow ''dictionary stored bytes'')) (\<lambda>next_bytes.
               if next_bytes > MAX_SECTION_BYTES then Err (Codec (SectionTooLarge next_bytes MAX_SECTION_BYTES))
               else Ok ((if is_string_value v
                   then fd\<lparr>string_rows := next_rows, fd_string_bytes := next_bytes\<rparr>
                   else fd\<lparr>blob_rows := next_rows, fd_blob_bytes := next_bytes\<rparr>)
                 \<lparr>fd_values := om_insert i v (fd_values fd)\<rparr>))))"

text \<open>The lengths are compared as \<open>u64\<close>; a slice is shorter than 2^63 bytes.\<close>

definition valid_blob :: "hashes \<Rightarrow> str_id \<Rightarrow> bytes \<Rightarrow> u64 \<Rightarrow> bool \<Rightarrow> bytes option \<Rightarrow> bool" where
  "valid_blob h i bs full_len truncated sha \<longleftrightarrow>
     (if truncated then length bs < unat full_len \<and> sha \<noteq> None
      else length bs = unat full_len \<and> sha = None \<and> StrId_of h bs = Some i)"

definition insert_owned_string ::
  "hashes \<Rightarrow> str_id \<Rightarrow> bytes \<Rightarrow> finished_dictionary \<Rightarrow> write_error + finished_dictionary" where
  "insert_owned_string h i bs fd =
     (if StrId_of h bs \<noteq> Some i then Err (Codec SchemaMismatch) else insert_value i (DictString bs) fd)"

definition insert_owned_blob ::
  "hashes \<Rightarrow> str_id \<Rightarrow> bytes \<Rightarrow> u64 \<Rightarrow> bool \<Rightarrow> bytes option \<Rightarrow> finished_dictionary \<Rightarrow>
     write_error + finished_dictionary" where
  "insert_owned_blob h i bs full_len truncated sha fd =
     (if \<not> valid_blob h i bs full_len truncated sha then Err (Codec SchemaMismatch)
      else insert_value i (DictBlob bs full_len truncated sha) fd)"

text \<open>A borrowed representation; the copy is made only for a new entry.\<close>

definition finished_insert :: "hashes \<Rightarrow> str_id \<Rightarrow> resolved \<Rightarrow> finished_dictionary \<Rightarrow> write_error + finished_dictionary" where
  "finished_insert h i r fd =
     (case r of
        ResolvedStr bs \<Rightarrow>
          if StrId_of h bs \<noteq> Some i then Err (Codec SchemaMismatch)
          else (case map_of (fd_values fd) i of
              Some existing \<Rightarrow>
                (case existing of
                   DictString stored \<Rightarrow> if stored = bs then Ok fd else Err (DictionaryConflict i)
                 | DictBlob _ _ _ _ \<Rightarrow> Err (DictionaryConflict i))
            | None \<Rightarrow> insert_value i (DictString bs) fd)
      | ResolvedBlob b \<Rightarrow>
          if be_str_id b \<noteq> i then Err (Codec SchemaMismatch)
          else if \<not> valid_blob h i (be_stored_bytes b) (of_nat (be_full_len b)) (be_truncated b) (be_full_sha256 b)
          then Err (Codec SchemaMismatch)
          else (case map_of (fd_values fd) i of
              Some existing \<Rightarrow>
                (case existing of
                   DictString _ \<Rightarrow> Err (DictionaryConflict i)
                 | DictBlob stored full_len truncated sha \<Rightarrow>
                     if stored = be_stored_bytes b \<and> full_len = of_nat (be_full_len b) \<and>
                        truncated = be_truncated b \<and> sha = be_full_sha256 b
                     then Ok fd else Err (DictionaryConflict i))
            | None \<Rightarrow> insert_value i (DictBlob (be_stored_bytes b) (of_nat (be_full_len b)) (be_truncated b)
                (be_full_sha256 b)) fd))"

section \<open>Reading a dictionary section\<close>

datatype arrow_type = UInt64 | Binary | Boolean | FixedSizeBinary nat | OtherArrow string

datatype arrow_column =
    U64Column "u64 option list"
  | BinaryColumn "bytes option list"
  | BoolColumn "bool option list"
  | FixedColumn "bytes option list"
  | OtherColumn

record dict_batch =
  db_num_rows :: usize
  db_columns :: "(string \<times> arrow_column) list"

text \<open>What the Parquet reader reports of a body; each batch is read when it is asked for.\<close>

record parquet_body =
  pq_row_groups :: usize
  pq_num_rows :: i64
  pq_schema :: "(string \<times> arrow_type \<times> bool) list"
  pq_batches :: "(codec_error + dict_batch) list"

definition dictionary_schema_matches :: "(string \<times> arrow_type \<times> bool) list \<Rightarrow> bool \<Rightarrow> bool" where
  "dictionary_schema_matches schema blob \<longleftrightarrow>
     (if blob then
        schema = [(''str_id'', UInt64, False), (''stored_bytes'', Binary, False), (''full_len'', UInt64, False),
          (''truncated'', Boolean, False), (''full_sha256'', FixedSizeBinary 32, True)]
      else schema = [(''str_id'', UInt64, False), (''bytes'', Binary, False)])"

definition reject_nulls :: "string \<Rightarrow> 'a option list \<Rightarrow> codec_error + 'a list" where
  "reject_nulls name xs =
     (if list_all (\<lambda>x. x \<noteq> None) xs then Ok (map the xs) else Err (NullInRequiredColumn name))"

definition required_u64 :: "dict_batch \<Rightarrow> string \<Rightarrow> codec_error + u64 list" where
  "required_u64 b name =
     (case map_of (db_columns b) name of
        Some (U64Column xs) \<Rightarrow> reject_nulls name xs | _ \<Rightarrow> Err (ColumnTypeError name))"

definition required_binary :: "dict_batch \<Rightarrow> string \<Rightarrow> codec_error + bytes list" where
  "required_binary b name =
     (case map_of (db_columns b) name of
        Some (BinaryColumn xs) \<Rightarrow> reject_nulls name xs | _ \<Rightarrow> Err (ColumnTypeError name))"

definition required_bool :: "dict_batch \<Rightarrow> string \<Rightarrow> codec_error + bool list" where
  "required_bool b name =
     (case map_of (db_columns b) name of
        Some (BoolColumn xs) \<Rightarrow> reject_nulls name xs | _ \<Rightarrow> Err (ColumnTypeError name))"

definition fixed_binary :: "dict_batch \<Rightarrow> string \<Rightarrow> codec_error + bytes option list" where
  "fixed_binary b name =
     (case map_of (db_columns b) name of Some (FixedColumn xs) \<Rightarrow> Ok xs | _ \<Rightarrow> Err (ColumnTypeError name))"

definition ordered_str_id :: "u64 \<Rightarrow> u64 \<Rightarrow> write_error + str_id" where
  "ordered_str_id raw previous =
     and_then (ok_or (StrId_from_raw raw) (Codec SchemaMismatch)) (\<lambda>i.
       if raw \<le> previous then Err (Codec SchemaMismatch) else Ok i)"

text \<open>The rows of one batch, with the last id seen.\<close>

fun insert_strings ::
  "hashes \<Rightarrow> (u64 \<times> bytes) list \<Rightarrow> u64 \<Rightarrow> finished_dictionary \<Rightarrow> write_error + u64 \<times> finished_dictionary" where
  "insert_strings h [] previous fd = Ok (previous, fd)"
| "insert_strings h ((raw, bs) # rows) previous fd =
     and_then (ordered_str_id raw previous) (\<lambda>i.
       if StrId_of h bs \<noteq> Some i then Err (Codec SchemaMismatch)
       else and_then (insert_value i (DictString bs) fd) (insert_strings h rows raw))"

definition sha_of :: "bytes option \<Rightarrow> write_error + bytes option" where
  "sha_of x =
     (case x of None \<Rightarrow> Ok None
      | Some bs \<Rightarrow> if length bs = 32 then Ok (Some bs) else Err (Codec SchemaMismatch))"

fun insert_blobs ::
  "hashes \<Rightarrow> (u64 \<times> bytes \<times> u64 \<times> bool \<times> bytes option) list \<Rightarrow> u64 \<Rightarrow> finished_dictionary \<Rightarrow>
     write_error + u64 \<times> finished_dictionary" where
  "insert_blobs h [] previous fd = Ok (previous, fd)"
| "insert_blobs h ((raw, bs, full_len, truncated, sha) # rows) previous fd =
     and_then (ordered_str_id raw previous) (\<lambda>i.
     and_then (sha_of sha) (\<lambda>sha.
       if \<not> valid_blob h i bs full_len truncated sha then Err (Codec SchemaMismatch)
       else and_then (insert_value i (DictBlob bs full_len truncated sha) fd) (insert_blobs h rows raw)))"

definition insert_batch ::
  "hashes \<Rightarrow> bool \<Rightarrow> dict_batch \<Rightarrow> u64 \<Rightarrow> finished_dictionary \<Rightarrow> write_error + u64 \<times> finished_dictionary" where
  "insert_batch h blob b previous fd =
     and_then (map_err Codec (required_u64 b ''str_id'')) (\<lambda>ids.
     if blob then
       and_then (map_err Codec (required_binary b ''stored_bytes'')) (\<lambda>bytes.
       and_then (map_err Codec (required_u64 b ''full_len'')) (\<lambda>full_len.
       and_then (map_err Codec (required_bool b ''truncated'')) (\<lambda>truncated.
       and_then (map_err Codec (fixed_binary b ''full_sha256'')) (\<lambda>sha.
         insert_blobs h (take (db_num_rows b) (zip ids (zip bytes (zip full_len (zip truncated sha))))) previous fd))))
     else
       and_then (map_err Codec (required_binary b ''bytes'')) (\<lambda>bytes.
         insert_strings h (take (db_num_rows b) (zip ids bytes)) previous fd))"

fun insert_batches ::
  "hashes \<Rightarrow> bool \<Rightarrow> (codec_error + dict_batch) list \<Rightarrow> u64 \<Rightarrow> usize \<Rightarrow> finished_dictionary \<Rightarrow>
     write_error + usize \<times> finished_dictionary" where
  "insert_batches h blob [] previous rows fd = Ok (rows, fd)"
| "insert_batches h blob (b # bs) previous rows fd =
     and_then (map_err Codec b) (\<lambda>b.
     and_then (ok_or (checked_add_usize rows (db_num_rows b)) (ArithmeticOverflow ''dictionary row count'')) (\<lambda>rows.
     and_then (insert_batch h blob b previous fd) (\<lambda>(previous, fd).
       insert_batches h blob bs previous rows fd)))"

definition MAX_ROW_GROUPS :: usize where
  "MAX_ROW_GROUPS = div_ceil MAX_SECTION_ROWS SECTION_WRITE_BATCH_ROWS"

text \<open>
  \<open>preflight\<close> is \<open>validate_plain_parquet_decode_work\<close> with its cap, \<open>reader\<close> the Parquet reader.
\<close>

definition decode_dictionary_body ::
  "'d crc_alg \<Rightarrow> hashes \<Rightarrow> (bytes \<Rightarrow> codec_error + unit) \<Rightarrow> (bytes \<Rightarrow> codec_error + parquet_body) \<Rightarrow> journal \<Rightarrow>
     section_descriptor \<Rightarrow> finished_dictionary \<Rightarrow> write_error + finished_dictionary" where
  "decode_dictionary_body A h preflight reader j d fd =
     (let t = e_type_id (sd_entry d); declared = e_rows (sd_entry d); blob = (t = DICT_BLOBS_TYPE_ID) in
      if t \<noteq> DICT_STRINGS_TYPE_ID \<and> t \<noteq> DICT_BLOBS_TYPE_ID then Err (Codec (UnknownType t))
      else
        and_then (read_verified_body A j d) (\<lambda>body.
        and_then (map_err Codec (preflight body)) (\<lambda>_.
        and_then (map_err Codec (reader body)) (\<lambda>pq.
        if pq_row_groups pq > MAX_ROW_GROUPS then Err (Codec (TooManyRowGroups (pq_row_groups pq) MAX_ROW_GROUPS))
        else if sint (pq_num_rows pq) < 0 then Err (Codec (InvalidRowCount (pq_num_rows pq)))
        else
          let claimed = unat (pq_num_rows pq) in
          if claimed > MAX_SECTION_ROWS then Err (Codec (TooManyRows claimed MAX_SECTION_ROWS))
          else if claimed \<noteq> unat declared then Err (WriteRowCountMismatch t declared claimed)
          else if \<not> dictionary_schema_matches (pq_schema pq) blob then Err (Codec SchemaMismatch)
          else and_then (insert_batches h blob (pq_batches pq) 0 0 fd) (\<lambda>(rows, fd).
            if rows \<noteq> claimed then Err (WriteRowCountMismatch t declared rows) else Ok fd)))))"

fun decode_dictionaries ::
  "'d crc_alg \<Rightarrow> hashes \<Rightarrow> (bytes \<Rightarrow> codec_error + unit) \<Rightarrow> (bytes \<Rightarrow> codec_error + parquet_body) \<Rightarrow> journal \<Rightarrow>
     section_descriptor list \<Rightarrow> finished_dictionary \<Rightarrow> write_error + finished_dictionary" where
  "decode_dictionaries A h preflight reader j [] fd = Ok fd"
| "decode_dictionaries A h preflight reader j (d # ds) fd =
     and_then (decode_dictionary_body A h preflight reader j d fd) (decode_dictionaries A h preflight reader j ds)"

definition normalize_dictionary ::
  "'d crc_alg \<Rightarrow> hashes \<Rightarrow> (bytes \<Rightarrow> codec_error + unit) \<Rightarrow> (bytes \<Rightarrow> codec_error + parquet_body) \<Rightarrow> journal \<Rightarrow>
     section_descriptor list \<Rightarrow> section_descriptor list \<Rightarrow> write_error + finished_dictionary" where
  "normalize_dictionary A h preflight reader j strings blobs =
     decode_dictionaries A h preflight reader j (strings @ blobs) empty_dictionary"

end
