(* ===== verification/Segment_Spool.thy ===== *)
theory Segment_Spool
  imports Segment_Dictionary
begin

text \<open>
  Spooling the sections of a segment (\<open>crates/kronika-writer/src/segment/spool.rs\<close>, \<open>dict.rs\<close>,
  \<open>dict/finalize.rs\<close>): every type is encoded once into the spool behind a sink that counts and
  checksums what is written, then the dictionary pair is. The encoders end in the Parquet library and are
  parameters: the data encoder is a tree of the calls it makes, which may read any section any
  number of times and write any bytes, the dictionary encoder a list of writes.
\<close>

section \<open>The counting sink\<close>

record 'd section_sink =
  sk_len :: u64
  sk_checksum :: "'d crc32c_state"

definition SectionSink_new :: "'d crc_alg \<Rightarrow> 'd section_sink" where
  "SectionSink_new A = \<lparr>sk_len = 0, sk_checksum = Crc32c_new A\<rparr>"

definition sink_finish :: "'d crc_alg \<Rightarrow> 'd section_sink \<Rightarrow> u64 \<times> u32" where
  "sink_finish A s = (sk_len s, Crc32c_finalize A (sk_checksum s))"

text \<open>A \<open>u64\<close> and a \<open>usize\<close> have the same range, so the sum of a length overflows for both alike.\<close>

definition sink_write ::
  "'d crc_alg \<Rightarrow> bytes \<Rightarrow> 'd section_sink \<Rightarrow> out_stream \<Rightarrow> (io_error + 'd section_sink) \<times> out_stream" where
  "sink_write A bs s out =
     then_out (out_write_all bs out) (\<lambda>_ out.
     then_out (ok_or (checked_add_usize (unat (sk_len s)) (length bs)) InvalidData, out) (\<lambda>len out.
       (Ok \<lparr>sk_len = of_nat len, sk_checksum = Crc32c_update A (sk_checksum s) bs\<rparr>, out)))"

text \<open>The Parquet writer reports a failed write as its own error, which carries a text.\<close>

definition parquet_write_error :: "io_error \<Rightarrow> write_error" where
  "parquet_write_error e = Codec (Parquet ''write'')"

section \<open>The data encoder\<close>

datatype encoder =
    EncRead nat "bytes \<Rightarrow> encoder"
  | EncWrite bytes encoder
  | EncFail codec_error
  | EncDone

text \<open>The closure that opens a section: the first read of each is verified against its checksum.\<close>

definition open_section ::
  "'d crc_alg \<Rightarrow> journal \<Rightarrow> section_descriptor list \<Rightarrow> nat \<Rightarrow> bool list \<Rightarrow> write_error + bytes \<times> bool list" where
  "open_section A j ds i verified =
     (if length ds \<le> i then Err (Codec SchemaMismatch)
      else if verified ! i then and_then (read_section_body j (ds ! i)) (\<lambda>bs. Ok (bs, verified))
      else and_then (read_verified_body A j (ds ! i)) (\<lambda>bs. Ok (bs, verified[i := True])))"

primrec run_encoder ::
  "'d crc_alg \<Rightarrow> journal \<Rightarrow> section_descriptor list \<Rightarrow> encoder \<Rightarrow> bool list \<Rightarrow> 'd section_sink \<Rightarrow> out_stream \<Rightarrow>
     (write_error + 'd section_sink) \<times> out_stream" where
  "run_encoder A j ds (EncRead i k) = (\<lambda>verified s out.
     (case open_section A j ds i verified of
        Err e \<Rightarrow> (Err e, out)
      | Ok (bs, verified) \<Rightarrow> run_encoder A j ds (k bs) verified s out))"
| "run_encoder A j ds (EncWrite bs k) = (\<lambda>verified s out.
     then_out (err_out parquet_write_error (sink_write A bs s out)) (\<lambda>s out.
       run_encoder A j ds k verified s out))"
| "run_encoder A j ds (EncFail e) = (\<lambda>verified s out. (Err (Codec e), out))"
| "run_encoder A j ds EncDone = (\<lambda>verified s out. (Ok s, out))"

text \<open>\<open>encode\<close> is the registry's \<open>encode_final_sections_to\<close> for a type and the rows of its sections.\<close>

definition spool_data_section ::
  "'d crc_alg \<Rightarrow> (u32 \<Rightarrow> u32 list \<Rightarrow> encoder) \<Rightarrow> journal \<Rightarrow> u32 \<Rightarrow> section_descriptor list \<Rightarrow> u64 \<Rightarrow> out_stream \<Rightarrow>
     (write_error + finished_section) \<times> out_stream" where
  "spool_data_section A encode j t ds off out =
     then_out (aggregate_rows t ds, out) (\<lambda>declared out.
     then_out (run_encoder A j ds (encode t (map (e_rows \<circ> sd_entry) ds)) (replicate (length ds) False)
         (SectionSink_new A) out) (\<lambda>s out.
     let (len, crc) = sink_finish A s in
     then_out (check_final_section_len len, out) (\<lambda>_ out.
     then_out (ok_or (u32_try_from declared) (ArithmeticOverflow ''section row count''), out) (\<lambda>rows out.
       (FinishedSection_new t rows off len crc, out)))))"

section \<open>The dictionary pair\<close>

record parquet_writes =
  pw_writes :: "bytes list"
  pw_error :: "codec_error option"

fun run_writes ::
  "'d crc_alg \<Rightarrow> bytes list \<Rightarrow> 'd section_sink \<Rightarrow> out_stream \<Rightarrow> (write_error + 'd section_sink) \<times> out_stream" where
  "run_writes A [] s out = (Ok s, out)"
| "run_writes A (bs # ws) s out =
     then_out (err_out parquet_write_error (sink_write A bs s out)) (\<lambda>s out. run_writes A ws s out)"

record written_dict_section =
  wd_type_id :: u32
  wd_rows :: u32
  wd_len :: u64
  wd_crc32c :: u32

definition write_final_dictionary ::
  "'d crc_alg \<Rightarrow> (u32 \<Rightarrow> entry_snapshot list \<Rightarrow> parquet_writes) \<Rightarrow> u32 \<Rightarrow> entry_snapshot list \<Rightarrow> out_stream \<Rightarrow>
     (write_error + written_dict_section) \<times> out_stream" where
  "write_final_dictionary A parquet t es out =
     then_out (map_err Codec (check_dict_rows (length es)), out) (\<lambda>_ out.
     if t \<noteq> DICT_STRINGS_TYPE_ID \<and> t \<noteq> DICT_BLOBS_TYPE_ID then (Err (Codec (UnknownType t)), out)
     else
       let p = parquet t es in
       then_out (run_writes A (pw_writes p) (SectionSink_new A) out) (\<lambda>s out.
       then_out (case pw_error p of None \<Rightarrow> Ok () | Some e \<Rightarrow> Err (Codec e), out) (\<lambda>_ out.
       let (len, crc) = sink_finish A s in
       if unat len = 0 \<or> unat len > MAX_SECTION_BYTES
       then (Err (Codec (SectionTooLarge (unat len) MAX_SECTION_BYTES)), out)
       else (Ok \<lparr>wd_type_id = t,
           wd_rows = (case u32_try_from (length es) of Some n \<Rightarrow> n | None \<Rightarrow> - 1),
           wd_len = len, wd_crc32c = crc\<rparr>, out))))"

text \<open>The totals of one placement: rows, stored bytes and truncated rows.\<close>

fun placement_totals :: "placement \<Rightarrow> entry_snapshot list \<Rightarrow> usize \<times> usize \<times> usize \<Rightarrow> codec_error + usize \<times> usize \<times> usize" where
  "placement_totals p [] acc = Ok acc"
| "placement_totals p (e # es) (rows, stored, truncated) =
     (if es_placement e \<noteq> p then placement_totals p es (rows, stored, truncated)
      else and_then (ok_or (checked_add_usize stored (length (es_stored_bytes e)))
          (SectionTooLarge usize_max MAX_SECTION_BYTES)) (\<lambda>stored.
        placement_totals p es (rows + 1, stored, truncated + of_bool (es_truncated e))))"

definition validate_final_entries :: "entry_snapshot list \<Rightarrow> codec_error + unit" where
  "validate_final_entries es =
     and_then (placement_totals placement.Strings es (0, 0, 0)) (\<lambda>(srows, sbytes, _).
     and_then (placement_totals placement.Blobs es (0, 0, 0)) (\<lambda>(brows, bbytes, truncated).
     and_then (if srows \<noteq> 0 then final_dictionary_body_bound placement.Strings srows sbytes 0 else Ok 0) (\<lambda>_.
     and_then (if brows \<noteq> 0 then final_dictionary_body_bound placement.Blobs brows bbytes truncated else Ok 0)
       (\<lambda>_. Ok ()))))"

definition encode_final_entries_to ::
  "'d crc_alg \<Rightarrow> (u32 \<Rightarrow> entry_snapshot list \<Rightarrow> parquet_writes) \<Rightarrow> entry_snapshot list \<Rightarrow> out_stream \<Rightarrow>
     (write_error + written_dict_section list) \<times> out_stream" where
  "encode_final_entries_to A parquet es out =
     then_out (map_err Codec (validate_final_entries es), out) (\<lambda>_ out.
     let by_id = sort_key (\<lambda>e. unat (es_str_id e));
         strings = by_id (filter (\<lambda>e. es_placement e = placement.Strings) es);
         blobs = by_id (filter (\<lambda>e. es_placement e \<noteq> placement.Strings) es) in
     then_out (if strings = [] then (Ok [], out)
         else then_out (write_final_dictionary A parquet DICT_STRINGS_TYPE_ID strings out) (\<lambda>w out. (Ok [w], out)))
       (\<lambda>written out.
     then_out (if blobs = [] then (Ok [], out)
         else then_out (write_final_dictionary A parquet DICT_BLOBS_TYPE_ID blobs out) (\<lambda>w out. (Ok [w], out)))
       (\<lambda>more out. (Ok (written @ more), out))))"

definition final_snapshot :: "str_id \<times> dictionary_value \<Rightarrow> entry_snapshot" where
  "final_snapshot = (\<lambda>(i, v).
     (case v of
        DictString bs \<Rightarrow> \<lparr>es_str_id = i, es_stored_bytes = bs, es_full_len = length bs, es_truncated = False,
          es_full_sha256 = None, es_placement = placement.Strings, es_hot = HotNone, es_blob_required = False\<rparr>
      | DictBlob bs full_len truncated sha \<Rightarrow> \<lparr>es_str_id = i, es_stored_bytes = bs, es_full_len = unat full_len,
          es_truncated = truncated, es_full_sha256 = sha, es_placement = placement.Blobs, es_hot = HotNone,
          es_blob_required = True\<rparr>))"

fun describe_sections :: "written_dict_section list \<Rightarrow> u64 \<Rightarrow> write_error + finished_section list" where
  "describe_sections [] off = Ok []"
| "describe_sections (w # ws) off =
     and_then (FinishedSection_new (wd_type_id w) (wd_rows w) off (wd_len w) (wd_crc32c w)) (\<lambda>s.
     and_then (ok_or (checked_add_word off (wd_len w)) (ArithmeticOverflow ''dictionary spool offset'')) (\<lambda>off.
     and_then (describe_sections ws off) (\<lambda>ss. Ok (s # ss))))"

definition write_sections_to ::
  "'d crc_alg \<Rightarrow> (u32 \<Rightarrow> entry_snapshot list \<Rightarrow> parquet_writes) \<Rightarrow> finished_dictionary \<Rightarrow> u64 \<Rightarrow> out_stream \<Rightarrow>
     (write_error + finished_section list) \<times> out_stream" where
  "write_sections_to A parquet fd off out =
     then_out (encode_final_entries_to A parquet (map final_snapshot (fd_values fd)) out) (\<lambda>ws out.
       (describe_sections ws off, out))"

end
