(* ===== verification/Segment_Finish_Props.thy ===== *)
theory Segment_Finish_Props
  imports Segment_Finish
begin

text \<open>
  What a finished container is: whenever the writer reports success, under any failing calls,
  the bytes it wrote are a valid container whose catalog lists the spooled bodies in canonical
  order, and they do not depend on the order in which the sections were given.
\<close>

section \<open>Streams\<close>

lemma then_out_Ok: "then_out r k = (Ok y, s') \<longleftrightarrow> (\<exists>x s. r = (Ok x, s) \<and> k x s = (Ok y, s'))"
  by (auto simp: then_out_def split: prod.splits sum.splits)

lemma err_out_Ok: "err_out f r = (Ok y, s) \<longleftrightarrow> r = (Ok y, s)"
  by (cases r) (auto simp: err_out_def)

lemma out_write_all_Ok: "out_write_all bs out = (Ok u, out') \<Longrightarrow> written out' = written out @ bs"
  by (auto simp: out_write_all_def next_out_def split: prod.splits option.splits list.splits)

lemma out_flush_Ok: "out_flush out = (Ok u, out') \<Longrightarrow> written out' = written out"
  by (auto simp: out_flush_def next_out_def split: prod.splits option.splits list.splits)

lemma file_read_exact_at_Ok:
  assumes "file_read_exact_at f n off = Ok bs"
  shows "bs = slice_of off n (content f)" and "off + n \<le> length (content f)" and "length bs = n"
  using assms
  by (auto simp: file_read_exact_at_def slice_read_exact_at_def and_then_Ok_iff split: option.splits if_splits)

section \<open>One body\<close>

definition spooled_body :: "os_file \<Rightarrow> finished_section \<Rightarrow> bytes" where
  "spooled_body spool s = slice_of (unat (fs_offset s)) (unat (fs_len s)) (content spool)"

lemma Crc32c_update_append:
  "crc_laws A \<Longrightarrow> Crc32c_update A (Crc32c_update A s xs) ys = Crc32c_update A s (xs @ ys)"
  by (simp add: Crc32c_update_def crc_laws_def)

lemma Crc32c_update_Nil: "crc_laws A \<Longrightarrow> Crc32c_update A s [] = s"
  by (simp add: Crc32c_update_def crc_laws_def)

lemma slice_of_split:
  "at + (m + n) \<le> length xs \<Longrightarrow> slice_of at (m + n) xs = slice_of at m xs @ slice_of (at + m) n xs"
  by (simp add: slice_of_append)

lemma copy_loop_step:
  assumes "copied < fs_len s" and "copy_loop A spool s copied acc out = (Ok acc', out')"
  obtains at bs out1 c where "checked_add_word (fs_offset s) copied = Some at"
    and "file_read_exact_at spool (min (unat (fs_len s - copied)) COMPARE_BUFFER_BYTES) (unat at) = Ok bs"
    and "out_write_all bs out = (Ok (), out1)"
    and "checked_add_word copied (of_nat (min (unat (fs_len s - copied)) COMPARE_BUFFER_BYTES)) = Some c"
    and "copy_loop A spool s c (Crc32c_update A acc bs) out1 = (Ok acc', out')"
  using assms(2) unfolding copy_loop.simps [of A spool s copied]
  by (simp add: assms(1) Let_def split: option.splits sum.splits prod.splits)

text \<open>The bytes still to copy.\<close>

definition rest_of :: "os_file \<Rightarrow> finished_section \<Rightarrow> u64 \<Rightarrow> bytes" where
  "rest_of spool s copied =
     slice_of (unat (fs_offset s) + unat copied) (unat (fs_len s) - unat copied) (content spool)"

lemma copy_loop_Ok:
  assumes "crc_laws A" and "copy_loop A spool s copied acc out = (Ok acc', out')"
    and "unat copied \<le> unat (fs_len s)" and "unat (fs_offset s) + unat copied \<le> length (content spool)"
  shows "unat (fs_offset s) + unat (fs_len s) \<le> length (content spool) \<and>
    written out' = written out @ rest_of spool s copied \<and> acc' = Crc32c_update A acc (rest_of spool s copied)"
  using assms
proof (induction "unat (fs_len s) - unat copied" arbitrary: copied acc out rule: less_induct)
  case less
  show ?case
  proof (cases "copied < fs_len s")
    case False
    then have "unat copied = unat (fs_len s)" using less.prems(3) by (simp add: word_less_nat_alt)
    with False less.prems show ?thesis
      by (auto simp: copy_loop.simps [of A] rest_of_def slice_of_def Crc32c_update_Nil)
  next
    case True
    let ?n = "min (unat (fs_len s - copied)) COMPARE_BUFFER_BYTES"
    from True less.prems(2) obtain at bs out1 c where at: "checked_add_word (fs_offset s) copied = Some at"
      and rd: "file_read_exact_at spool ?n (unat at) = Ok bs" and wr: "out_write_all bs out = (Ok (), out1)"
      and c: "checked_add_word copied (of_nat ?n) = Some c"
      and next_run: "copy_loop A spool s c (Crc32c_update A acc bs) out1 = (Ok acc', out')"
      by (rule copy_loop_step)
    note adv = copy_chunk_advances [OF True c] and bs = file_read_exact_at_Ok [OF rd]
    have at': "unat at = unat (fs_offset s) + unat copied" by (rule checked_add_word_Some [OF at])
    have sub: "unat (fs_len s - copied) = unat (fs_len s) - unat copied"
      using True by (simp add: unat_sub_if_size word_le_nat_alt word_less_nat_alt)
    have n: "?n = unat c - unat copied" using adv(1) sub by simp
    have IH: "unat (fs_offset s) + unat (fs_len s) \<le> length (content spool) \<and>
        written out' = written out1 @ rest_of spool s c \<and>
        acc' = Crc32c_update A (Crc32c_update A acc bs) (rest_of spool s c)"
    proof (rule less.hyps [OF _ less.prems(1) next_run])
      show "unat (fs_len s) - unat c < unat (fs_len s) - unat copied" using adv(2,3) by linarith
      show "unat c \<le> unat (fs_len s)" by (rule adv(3))
      show "unat (fs_offset s) + unat c \<le> length (content spool)" using bs(2) at' n adv(2) by linarith
    qed
    have "unat (fs_len s) - unat copied = (unat c - unat copied) + (unat (fs_len s) - unat c)"
      and "unat (fs_offset s) + unat c = (unat (fs_offset s) + unat copied) + (unat c - unat copied)"
      using adv(2,3) by simp_all
    then have "rest_of spool s copied = slice_of (unat at) ?n (content spool) @ rest_of spool s c"
      unfolding rest_of_def at' n by (simp only: slice_of_append)
    then show ?thesis
      using IH out_write_all_Ok [OF wr] bs(1) Crc32c_update_append [OF less.prems(1)] by simp
  qed
qed

lemma copy_spooled_section_Ok:
  assumes laws: "crc_laws A" and run: "copy_spooled_section A spool s out = (Ok u, out')"
    and ne: "fs_len s \<noteq> 0"
  shows "written out' = written out @ spooled_body spool s"
    and "length (spooled_body spool s) = unat (fs_len s)"
    and "crc32c A (spooled_body spool s) = fs_crc32c s"
proof -
  from run obtain acc where copy: "copy_loop A spool s 0 (Crc32c_new A) out = (Ok acc, out')"
    and crc: "Crc32c_finalize A acc = fs_crc32c s"
    by (auto simp: copy_spooled_section_def then_out_Ok Let_def split: if_splits)
  from ne have pos: "0 < fs_len s" by (simp add: word_gt_0)
  obtain at bs where "checked_add_word (fs_offset s) 0 = Some at"
    and "file_read_exact_at spool (min (unat (fs_len s - 0)) COMPARE_BUFFER_BYTES) (unat at) = Ok bs"
    by (rule copy_loop_step [OF pos copy])
  then have start: "unat (fs_offset s) \<le> length (content spool)"
    using file_read_exact_at_Ok(2) checked_add_word_Some by fastforce
  have c: "unat (fs_offset s) + unat (fs_len s) \<le> length (content spool) \<and>
      written out' = written out @ rest_of spool s 0 \<and> acc = Crc32c_update A (Crc32c_new A) (rest_of spool s 0)"
    using start by (intro copy_loop_Ok [OF laws copy]) simp_all
  have body: "rest_of spool s 0 = spooled_body spool s" by (simp add: rest_of_def spooled_body_def)
  show "written out' = written out @ spooled_body spool s" using c body by simp
  show "length (spooled_body spool s) = unat (fs_len s)" using conjunct1 [OF c] by (simp add: spooled_body_def min_def)
  have "Crc32c_finalize A (foldl (Crc32c_update A) (Crc32c_new A) [spooled_body spool s]) =
      crc32c A (concat [spooled_body spool s])"
    by (rule Crc32c_chunks [OF laws])
  then show "crc32c A (spooled_body spool s) = fs_crc32c s" using c crc body by simp
qed

section \<open>All bodies\<close>

text \<open>The sections as the part assembly takes them.\<close>

definition input_of :: "os_file \<Rightarrow> finished_section \<Rightarrow> section_input" where
  "input_of spool s = \<lparr>si_type_id = fs_type_id s, si_rows = fs_rows s, si_body = spooled_body spool s\<rparr>"

lemma push_section_entry_Ok:
  assumes "push_section_entry es off s = Ok (es', off')"
  shows "es' = es @ [\<lparr>e_type_id = fs_type_id s, e_flags = 0, e_offset = off, e_len = fs_len s,
      e_rows = fs_rows s, e_crc32c = fs_crc32c s\<rparr>] \<and> unat off' = unat off + unat (fs_len s)"
  using assms
  by (auto simp: push_section_entry_def and_then_Ok_iff Let_def dest: checked_add_word_Some split: if_splits)

lemma write_bodies_Ok:
  assumes laws: "crc_laws A" and "write_bodies A spool ss es off out = (Ok (es', off'), out')"
    and "\<forall>s \<in> set ss. fs_len s \<noteq> 0" and "unat off = length rel"
  shows "es' = es @ snd (place_sections A rel (map (input_of spool) ss)) \<and>
    written out' = written out @ bodies_of (map (input_of spool) ss) \<and>
    unat off' = length rel + length (bodies_of (map (input_of spool) ss)) \<and>
    (\<forall>s \<in> set ss. length (spooled_body spool s) = unat (fs_len s))"
  using assms(2-)
proof (induction ss arbitrary: es off out rel)
  case Nil
  then show ?case by (auto simp: bodies_of_def)
next
  case (Cons s ss)
  from Cons.prems(1) obtain u es1 off1 out1 where cp: "copy_spooled_section A spool s out = (Ok u, out1)"
    and push: "push_section_entry es off s = Ok (es1, off1)"
    and rest: "write_bodies A spool ss es1 off1 out1 = (Ok (es', off'), out')"
    by (auto simp: then_out_Ok)
  have ne: "fs_len s \<noteq> 0" using Cons.prems(2) by simp
  note body = copy_spooled_section_Ok [OF laws cp ne] and p = push_section_entry_Ok [OF push]
  have "unat off1 = length (rel @ spooled_body spool s)" using p body(2) Cons.prems(3) by simp
  from Cons.IH [OF rest _ this] Cons.prems(2) have IH:
    "es' = es1 @ snd (place_sections A (rel @ spooled_body spool s) (map (input_of spool) ss))"
    "written out' = written out1 @ bodies_of (map (input_of spool) ss)"
    "unat off' = length (rel @ spooled_body spool s) + length (bodies_of (map (input_of spool) ss))"
    "\<forall>s \<in> set ss. length (spooled_body spool s) = unat (fs_len s)"
    by auto
  have "off = of_nat (length rel)" "fs_len s = of_nat (length (spooled_body spool s))"
    by (simp_all add: body(2) flip: Cons.prems(3))
  then show ?case
    using IH p body unfolding list.map place_sections_Cons
    by (simp add: input_of_def bodies_of_def)
qed

section \<open>The container\<close>

definition zms_inputs :: "os_file \<Rightarrow> finished_zms_plan \<Rightarrow> section_input list" where
  "zms_inputs spool p = map (input_of spool) (fp_sections p)"

definition zms_catalog :: "'d crc_alg \<Rightarrow> os_file \<Rightarrow> finished_zms_plan \<Rightarrow> catalog" where
  "zms_catalog A spool p =
     \<lparr>entries = snd (place_sections A MAGIC (zms_inputs spool p)), min_ts = fp_min_ts p, max_ts = fp_max_ts p,
      format_version = FORMAT_VERSION, window_count = fp_window_count p\<rparr>"

definition zms_bytes :: "'d crc_alg \<Rightarrow> os_file \<Rightarrow> finished_zms_plan \<Rightarrow> bytes" where
  "zms_bytes A spool p = part_bytes A (bodies_of (zms_inputs spool p)) (zms_catalog A spool p)"

lemma length_zms_bytes:
  "length (zms_bytes A spool p) =
     12 + length (bodies_of (zms_inputs spool p)) + encoded_len (zms_catalog A spool p)"
  by (simp add: zms_bytes_def)

lemma write_finished_zms_Ok:
  assumes laws: "crc_laws A" and run: "write_finished_zms A spool p out = (Ok sm, out')"
    and ne: "\<forall>s \<in> set (fp_sections p). fs_len s \<noteq> 0"
  shows "written out' = written out @ zms_bytes A spool p"
    and "encoded_len (zms_catalog A spool p) < 2 ^ 32"
    and "length (zms_bytes A spool p) < 2 ^ 64"
    and "sm = \<lparr>ws_sections = length (fp_sections p), ws_bytes = of_nat (length (zms_bytes A spool p)),
      ws_min_ts = fp_min_ts p, ws_max_ts = fp_max_ts p\<rparr>"
    and "\<forall>s \<in> set (fp_sections p). length (spooled_body spool s) = unat (fs_len s)"
proof -
  let ?c = "zms_catalog A spool p"
  from run obtain out3 w where core: "write_finished_zms_core A spool p out = (Ok sm, out3)"
    and fl: "out_flush out3 = (Ok w, out')"
    by (auto simp: write_finished_zms_def then_out_Ok err_out_Ok)
  from core obtain v1 out1 es off out2 where m: "out_write_all MAGIC out = (Ok v1, out1)"
    and b: "write_bodies A spool (fp_sections p) [] 4 out1 = (Ok (es, off), out2)"
    by (auto simp: write_finished_zms_core_def then_out_Ok err_out_Ok Let_def)
  have bodies: "es = [] @ snd (place_sections A MAGIC (map (input_of spool) (fp_sections p))) \<and>
      written out2 = written out1 @ bodies_of (map (input_of spool) (fp_sections p)) \<and>
      unat off = length MAGIC + length (bodies_of (map (input_of spool) (fp_sections p))) \<and>
      (\<forall>s \<in> set (fp_sections p). length (spooled_body spool s) = unat (fs_len s))"
    by (rule write_bodies_Ok [OF laws b ne]) simp
  then have c: "\<lparr>entries = es, min_ts = fp_min_ts p, max_ts = fp_max_ts p, format_version = FORMAT_VERSION,
      window_count = fp_window_count p\<rparr> = ?c"
    by (simp add: zms_catalog_def zms_inputs_def)
  obtain n v2 enc where n: "checked_add_word off (of_nat (encoded_len ?c + 8)) = Some n"
    and e: "Catalog_write_encoded A ?c = Ok enc" and we: "out_write_all enc out2 = (Ok v2, out3)"
    and sm: "sm = \<lparr>ws_sections = length es, ws_bytes = n, ws_min_ts = fp_min_ts p, ws_max_ts = fp_max_ts p\<rparr>"
    using core m b by (auto simp: write_finished_zms_core_def then_out_Ok err_out_Ok Let_def c)
  from e show fits: "encoded_len ?c < 2 ^ 32"
    by (simp add: Catalog_write_encoded_eq [OF laws] split: if_splits)
  then have enc: "enc = catalog_block A ?c @ TailIndex_encode \<lparr>catalog_len = of_nat (encoded_len ?c)\<rparr>"
    using e by (simp add: Catalog_write_encoded_eq [OF laws])
  show "written out' = written out @ zms_bytes A spool p"
    using out_write_all_Ok [OF m] out_write_all_Ok [OF we] out_flush_Ok [OF fl] bodies enc
    by (simp add: zms_bytes_def part_bytes_def zms_inputs_def)
  have "unat (of_nat (encoded_len ?c + 8) :: u64) = encoded_len ?c + 8"
    using fits by (intro unat_of_nat_u64) simp
  then have nn: "unat n = length (zms_bytes A spool p)"
    using checked_add_word_Some [OF n] bodies by (simp add: length_zms_bytes zms_inputs_def)
  then show "length (zms_bytes A spool p) < 2 ^ 64" using unat_lt2p [of n] by simp
  have "n = of_nat (length (zms_bytes A spool p))" by (simp flip: nn)
  then show "sm = \<lparr>ws_sections = length (fp_sections p), ws_bytes = of_nat (length (zms_bytes A spool p)),
      ws_min_ts = fp_min_ts p, ws_max_ts = fp_max_ts p\<rparr>"
    using sm bodies by simp
  show "\<forall>s \<in> set (fp_sections p). length (spooled_body spool s) = unat (fs_len s)"
    using bodies by blast
qed

section \<open>Canonical plans\<close>

text \<open>A descriptor exists only as a result of its constructor.\<close>

definition constructed :: "finished_section \<Rightarrow> bool" where
  "constructed s \<longleftrightarrow>
     FinishedSection_new (fs_type_id s) (fs_rows s) (fs_offset s) (fs_len s) (fs_crc32c s) = Ok s"

lemma contract_data_id:
  assumes "contract t = Some c"
  shows "t < DICT_STRINGS_TYPE_ID"
proof -
  obtain cs where cs: "registry = Ok cs" by (rule registry_Ok)
  have c: "c \<in> set cs" "raw_id (tc_type_id c) = t" using assms contract_Some [OF cs] by simp_all
  from registry_member [OF cs c(1)] obtain st e where e: "e \<in> set declared" "contract_of_entry st e c"
    by blast
  have "fst e < DICT_STRINGS_TYPE_ID" using bspec [OF declared_data e(1)] by (simp add: case_prod_unfold)
  moreover have "tc_type_id c = TypeId (fst e)" using e(2) unfolding contract_of_entry_def by blast
  ultimately show ?thesis using c(2) by simp
qed

lemma constructed_facts:
  assumes "constructed s"
  shows "fs_rows s \<noteq> 0" and "fs_len s \<noteq> 0" and "unat (fs_len s) \<le> MAX_SECTION_BYTES"
    and "fs_type_id s < DICT_STRINGS_TYPE_ID \<or> fs_type_id s = DICT_STRINGS_TYPE_ID \<or> fs_type_id s = DICT_BLOBS_TYPE_ID"
  using assms contract_data_id
  by (auto simp: constructed_def FinishedSection_new_def check_final_section_len_def and_then_Ok_iff
      split: if_splits)

text \<open>On the types a descriptor can have, ascending ids are the canonical section order.\<close>

lemma section_order_mono:
  assumes "constructed s" and "constructed t" and "fs_type_id s < fs_type_id t"
  shows "section_order_of (fs_type_id s) < section_order_of (fs_type_id t)"
  using constructed_facts(4) [OF assms(1)] constructed_facts(4) [OF assms(2)] assms(3)
  by (auto simp: section_order_of_def DICT_STRINGS_TYPE_ID_def DICT_BLOBS_TYPE_ID_def word_less_nat_alt)

lemma sorted_adjacent_distinct:
  assumes "sorted (map f xs)" and "\<not> (\<exists>i < length xs - 1. f (xs ! i) = f (xs ! Suc i))"
  shows "sorted_wrt (\<lambda>a b. f a < (f b :: nat)) xs"
  using assms
proof (induction xs)
  case (Cons x xs)
  have "\<not> (\<exists>i < length xs - 1. f (xs ! i) = f (xs ! Suc i))"
    using Cons.prems(2) by (metis One_nat_def Suc_less_eq diff_Suc_1 less_diff_conv list.size(4) nth_Cons_Suc
        plus_1_eq_Suc add.commute)
  then have IH: "sorted_wrt (\<lambda>a b. f a < f b) xs" using Cons by simp
  show ?case
  proof (cases xs)
    case (Cons y ys)
    have "f x < f y" using Cons.prems Cons \<open>xs = y # ys\<close> by force
    then show ?thesis using IH Cons by auto
  qed simp
qed simp

lemma FinishedZmsPlan_new_Ok:
  assumes "FinishedZmsPlan_new ss lo hi w = Ok p"
  shows "fp_sections p = sort_key (\<lambda>s. unat (fs_type_id s)) ss"
    and "sorted_wrt (\<lambda>a b. fs_type_id a < fs_type_id b) (fp_sections p)"
    and "fp_min_ts p = lo" and "fp_max_ts p = hi" and "fp_window_count p = w" and "sint lo \<le> sint hi"
proof -
  let ?k = "\<lambda>s. unat (fs_type_id s)"
  show p: "fp_sections p = sort_key ?k ss" and "fp_min_ts p = lo" "fp_max_ts p = hi" "fp_window_count p = w"
    and "sint lo \<le> sint hi"
    using assms by (auto simp: FinishedZmsPlan_new_def and_then_Ok_iff Let_def split: if_splits)
  have "\<not> (\<exists>i < length (sort_key ?k ss) - 1. ?k (sort_key ?k ss ! i) = ?k (sort_key ?k ss ! Suc i))"
    using assms by (auto simp: FinishedZmsPlan_new_def and_then_Ok_iff Let_def word_unat_eq_iff split: if_splits)
  then have "sorted_wrt (\<lambda>a b. ?k a < ?k b) (sort_key ?k ss)"
    by (intro sorted_adjacent_distinct) simp
  then show "sorted_wrt (\<lambda>a b. fs_type_id a < fs_type_id b) (fp_sections p)"
    by (simp add: p word_less_nat_alt)
qed

text \<open>A plan of constructed sections writes a canonical container.\<close>

lemma zms_canonical:
  assumes plan: "FinishedZmsPlan_new ss lo hi w = Ok p" and con: "\<forall>s \<in> set ss. constructed s"
    and lens: "\<forall>s \<in> set (fp_sections p). length (spooled_body spool s) = unat (fs_len s)"
  shows "sections_ok (zms_inputs spool p)"
proof -
  have members: "set (fp_sections p) = set ss" by (simp add: FinishedZmsPlan_new_Ok(1) [OF plan])
  have "sorted_wrt (\<lambda>a b. section_order_of (fs_type_id a) < section_order_of (fs_type_id b)) (fp_sections p)"
  proof (rule sorted_wrt_mono_rel [OF _ FinishedZmsPlan_new_Ok(2) [OF plan]])
    fix a b
    assume "a \<in> set (fp_sections p)" "b \<in> set (fp_sections p)" "fs_type_id a < fs_type_id b"
    then show "section_order_of (fs_type_id a) < section_order_of (fs_type_id b)"
      using con section_order_mono by (simp add: members)
  qed
  then have "sorted_wrt (<) (map (\<lambda>s. section_order_of (si_type_id s)) (zms_inputs spool p))"
    by (simp add: zms_inputs_def input_of_def sorted_wrt_map)
  moreover have "si_rows x \<noteq> 0 \<and> si_body x \<noteq> [] \<and> length (si_body x) \<le> MAX_JOURNAL_LEN"
    if x: "x \<in> set (zms_inputs spool p)" for x
  proof -
    from x obtain s where s: "s \<in> set (fp_sections p)" "x = input_of spool s" by (auto simp: zms_inputs_def)
    note c = constructed_facts [of s]
    have "constructed s" using s(1) con members by blast
    moreover have "length (spooled_body spool s) = unat (fs_len s)" using lens s(1) by blast
    moreover from this have "spooled_body spool s \<noteq> []"
      using c(2) \<open>constructed s\<close> by (metis list.size(3) unat_eq_zero)
    ultimately show ?thesis
      using c by (simp add: s(2) input_of_def MAX_SECTION_BYTES_eq MAX_JOURNAL_LEN_def)
  qed
  ultimately show ?thesis by (simp add: sections_ok_def)
qed

lemma zms_validates:
  assumes laws: "crc_laws A" and ok: "sections_ok (zms_inputs spool p)"
    and fits: "encoded_len (zms_catalog A spool p) < 2 ^ 32" and small: "length (zms_bytes A spool p) < 2 ^ 64"
  shows "validate_part A (zms_bytes A spool p) = Ok (zms_catalog A spool p)"
    and "map (section_body (zms_bytes A spool p)) (entries (zms_catalog A spool p))
      = map (spooled_body spool) (fp_sections p)"
proof -
  let ?c = "zms_catalog A spool p" and ?in = "zms_inputs spool p"
  have es: "entries ?c = snd (place_sections A MAGIC ?in)" by (simp add: zms_catalog_def)
  have short: "length MAGIC + length (bodies_of ?in) < 2 ^ 64"
    using small by (simp add: length_zms_bytes)
  from place_sections_bodies [OF short] have bod: "map (section_body (zms_bytes A spool p)) (entries ?c) = map si_body ?in"
    by (simp add: zms_bytes_def part_bytes_def es)
  then show "map (section_body (zms_bytes A spool p)) (entries ?c) = map (spooled_body spool) (fp_sections p)"
    by (simp add: zms_inputs_def input_of_def comp_def)
  have "map (crc32c A \<circ> section_body (zms_bytes A spool p)) (entries ?c) = map (crc32c A) (map si_body ?in)"
    by (simp flip: bod)
  also have "\<dots> = map e_crc32c (entries ?c)" by (simp add: es place_sections_entries)
  finally have crcs: "\<forall>e \<in> set (entries ?c). crc32c A (section_body (zms_bytes A spool p) e) = e_crc32c e" by simp
  have "canonical_layout (entries ?c) (4 + length (bodies_of ?in))"
    unfolding es using ok short by (intro place_sections_canonical) simp_all
  then show "validate_part A (zms_bytes A spool p) = Ok ?c"
    unfolding validate_part_Ok [OF laws small] using crcs fits by (auto simp: zms_bytes_def)
qed

lemma zms_catalog_types:
  "map e_type_id (entries (zms_catalog A spool p)) = map fs_type_id (fp_sections p)"
  "map e_rows (entries (zms_catalog A spool p)) = map fs_rows (fp_sections p)"
  by (simp_all add: zms_catalog_def place_sections_entries zms_inputs_def input_of_def comp_def)

section \<open>A sample container\<close>

definition sample_spool :: os_file where
  "sample_spool = \<lparr>content = [7, 9], cursor = 2, durable = [], faults = [],
     read_fault = (\<lambda>n off. None), len_fault = None\<rparr>"

definition sample_finished :: "u32 \<Rightarrow> u64 \<Rightarrow> u8 \<Rightarrow> finished_section" where
  "sample_finished t off b = \<lparr>fs_type_id = t, fs_rows = 1, fs_offset = off, fs_len = 1, fs_crc32c = crc32c crc_sum [b]\<rparr>"

definition sample_plan :: finished_zms_plan where
  "sample_plan = \<lparr>fp_sections = [sample_finished 3001001 1 9, sample_finished 3002001 0 7],
     fp_min_ts = 5, fp_max_ts = 6, fp_window_count = 1\<rparr>"

lemma sample_constructed: "t \<in> {3001001, 3002001} \<Longrightarrow> off \<in> {0, 1} \<Longrightarrow> constructed (sample_finished t off b)"
  by (auto simp: constructed_def FinishedSection_new_def sample_finished_def check_final_section_len_def
      checked_add_word_def MAX_SECTION_ROWS_def MAX_SECTION_BYTES_eq DICT_STRINGS_TYPE_ID_def DICT_BLOBS_TYPE_ID_def)

lemma sample_plan_new:
  "FinishedZmsPlan_new [sample_finished 3002001 0 7, sample_finished 3001001 1 9] 5 6 1 = Ok sample_plan"
  by (simp add: FinishedZmsPlan_new_def sample_plan_def sample_finished_def checked_catalog_entries_def
      checked_add_usize_def MAX_CATALOG_ENTRIES_def MAX_CATALOG_BYTES_def)

lemma sample_copy:
  "(off, b) \<in> {(0, 7), (1, 9)} \<Longrightarrow>
     copy_spooled_section crc_sum sample_spool (sample_finished t off b) \<lparr>written = bs, out_faults = []\<rparr>
     = (Ok (), \<lparr>written = bs @ [b], out_faults = []\<rparr>)"
  by (auto simp: copy_spooled_section_def copy_loop.simps sample_finished_def sample_spool_def COMPARE_BUFFER_BYTES_def
      checked_add_word_def file_read_exact_at_def slice_read_exact_at_def checked_add_usize_def slice_of_def
      out_write_all_def next_out_def then_out_def Let_def crc32c_def Crc32c_finalize_def Crc32c_update_def Crc32c_new_def crc_sum_def)

lemma sample_fields [simp]:
  "fs_type_id (sample_finished t off b) = t" "fs_rows (sample_finished t off b) = 1"
  "fs_len (sample_finished t off b) = 1" "fs_crc32c (sample_finished t off b) = crc32c crc_sum [b]"
  by (simp_all add: sample_finished_def)

lemma sample_container_run:
  "\<exists>sm out'. write_finished_zms crc_sum sample_spool sample_plan \<lparr>written = [], out_faults = []\<rparr> = (Ok sm, out')"
  by (simp add: write_finished_zms_def write_finished_zms_core_def sample_plan_def sample_copy err_out_def then_out_def
      out_write_all_def next_out_def out_flush_def push_section_entry_def checked_catalog_entries_def
      checked_add_usize_def checked_add_word_def MAX_CATALOG_ENTRIES_def MAX_CATALOG_BYTES_def Let_def
      Catalog_write_encoded_eq encoded_len_def)

section \<open>The container is valid\<close>

text \<open>
  A successful \<open>write_finished_zms\<close>, whichever calls were made to fail before, has written a
  valid container: it validates, its catalog lists the sections in ascending type order with
  their row counts and the plan's time range and window count, every entry locates the spooled
  body of its section byte for byte, and the summary gives the section count and the length.
\<close>

lemma finished_zms_facts:
  assumes "crc_laws A" and "FinishedZmsPlan_new ss lo hi w = Ok p" and "\<forall>s \<in> set ss. constructed s"
    and "write_finished_zms A spool p out = (Ok sm, out')"
  shows "\<exists>bs c. written out' = written out @ bs \<and> validate_part A bs = Ok c \<and>
      map e_type_id (entries c) = map fs_type_id (sort_key (\<lambda>s. unat (fs_type_id s)) ss) \<and>
      map e_rows (entries c) = map fs_rows (sort_key (\<lambda>s. unat (fs_type_id s)) ss) \<and>
      map (section_body bs) (entries c) = map (spooled_body spool) (sort_key (\<lambda>s. unat (fs_type_id s)) ss) \<and>
      min_ts c = lo \<and> max_ts c = hi \<and> window_count c = w \<and> format_version c = FORMAT_VERSION \<and>
      unat (ws_bytes sm) = length bs \<and> ws_sections sm = length ss \<and> ws_min_ts sm = lo \<and> ws_max_ts sm = hi \<and>
      length bs < 2 ^ 64 \<and> encoded_len c \<le> MAX_CATALOG_BYTES"
proof -
  note p = FinishedZmsPlan_new_Ok [OF assms(2)]
  have "\<forall>s \<in> set (fp_sections p). fs_len s \<noteq> 0"
    using assms(3) constructed_facts(2) by (simp add: p(1))
  note w = write_finished_zms_Ok [OF assms(1,4) this]
  have "sections_ok (zms_inputs spool p)" by (rule zms_canonical [OF assms(2,3) w(5)])
  note v = zms_validates [OF assms(1) this w(2,3)]
  have "unat (ws_bytes sm) = length (zms_bytes A spool p)" "ws_sections sm = length ss"
    using w(3) unat_of_nat_u64 by (simp_all add: w(4) p(1))
  moreover have "encoded_len (zms_catalog A spool p) \<le> MAX_CATALOG_BYTES"
  proof -
    have "length ss \<le> MAX_CATALOG_ENTRIES"
      using assms(2) by (auto simp: FinishedZmsPlan_new_def checked_catalog_entries_def and_then_Ok_iff split: if_splits)
    then show ?thesis
      by (simp add: zms_catalog_def encoded_len_def zms_inputs_def p(1) MAX_CATALOG_ENTRIES_def MAX_CATALOG_BYTES_def)
  qed
  ultimately show ?thesis
    using w(1,3,4) v zms_catalog_types [of A spool p]
    by (intro exI [of _ "zms_bytes A spool p"] exI [of _ "zms_catalog A spool p"])
      (simp add: p zms_catalog_def)
qed

lemma sample_container:
  "\<exists>bs c. validate_part crc_sum bs = Ok c \<and>
     map e_type_id (entries c) = [3001001, 3002001] \<and> map (section_body bs) (entries c) = [[9], [7]] \<and> min_ts c = 5"
proof -
  obtain sm out' where run: "write_finished_zms crc_sum sample_spool sample_plan \<lparr>written = [], out_faults = []\<rparr> = (Ok sm, out')"
    using sample_container_run by blast
  have "\<forall>s \<in> set [sample_finished 3002001 0 7, sample_finished 3001001 1 9]. constructed s"
    by (simp add: sample_constructed)
  from finished_zms_facts [OF crc_sum_laws sample_plan_new this run] show ?thesis
    by (intro exI [of _ "written out'"]) (auto simp: spooled_body_def slice_of_def sample_finished_def sample_spool_def)
qed

text \<open>The plan is a function of the set of sections: their order does not matter.\<close>

lemma map_sort_key_mset:
  fixes f :: "'a \<Rightarrow> nat"
  assumes "mset xs = mset ys"
  shows "map f (sort_key f xs) = map f (sort_key f ys)"
proof -
  have "map f (sort_key f zs) = sort (map f zs)" for zs
    by (rule properties_for_sort [symmetric]) simp_all
  moreover have "sort (map f xs) = sort (map f ys)"
    using assms by (metis mset_map sorted_list_of_multiset_mset)
  ultimately show ?thesis by simp
qed

lemma sort_key_mset_inj:
  fixes f :: "'a \<Rightarrow> nat"
  assumes "mset xs = mset ys" and "distinct (map f xs)"
  shows "sort_key f xs = sort_key f ys"
  using assms by (intro sort_key_inj_key_eq) (auto simp: distinct_map)

text \<open>
  The finished container does not depend on the order in which the sections were spooled:
  two permutations of the same sections give the same plan, or the same error.
\<close>

lemma finished_plan_order_independent:
  assumes "mset ss = mset tt"
  shows "FinishedZmsPlan_new ss lo hi w = FinishedZmsPlan_new tt lo hi w"
proof -
  let ?k = "\<lambda>s. unat (fs_type_id s)"
  let ?dup = "\<lambda>l. \<exists>i < length l - 1. fs_type_id (l ! i) = fs_type_id (l ! Suc i)"
  have len: "length ss = length tt" using assms by (rule mset_eq_length)
  have ids: "map ?k (sort_key ?k ss) = map ?k (sort_key ?k tt)" by (rule map_sort_key_mset [OF assms])
  have ids_nth: "fs_type_id (sort_key ?k ss ! i) = fs_type_id (sort_key ?k tt ! i)" if "i < length ss" for i
    using arg_cong [OF ids, of "\<lambda>l. l ! i"] that len by (simp add: word_unat_eq_iff)
  have dup: "?dup (sort_key ?k ss) \<longleftrightarrow> ?dup (sort_key ?k tt)"
    using ids_nth len by (auto 0 4)
  have "sort_key ?k ss = sort_key ?k tt" if "\<not> ?dup (sort_key ?k ss)"
  proof -
    have "sorted_wrt (\<lambda>a b. ?k a < ?k b) (sort_key ?k ss)"
      using that by (intro sorted_adjacent_distinct) (simp_all add: word_unat_eq_iff)
    then have "distinct (map ?k (sort_key ?k ss))"
      by (metis sorted_wrt_map strict_sorted_iff)
    then have "distinct (map ?k ss)" by (simp add: distinct_map)
    then show ?thesis by (rule sort_key_mset_inj [OF assms])
  qed
  then show ?thesis unfolding FinishedZmsPlan_new_def Let_def len using dup by auto
qed

end
