(* ===== verification/Store_Disk.thy ===== *)
theory Store_Disk
  imports Tree_Files Journal_File
begin

text \<open>
  The file system under the data root as the writer owner uses it
  (\<open>crates/kronika-layout/src/root/fsops.rs\<close>): names that point at inodes, inodes with bytes, and for
  both what survives a crash. A name added to or removed from a directory is durable after that
  directory is synchronized, the bytes of a file after the file is. Every system call may fail,
  and a failing \<open>write\<close> may have written a prefix. An inode carries the metadata that
  \<open>FileIdentity\<close> compares; a change of its bytes or links stamps it with the reading of the clock.
\<close>

section \<open>Names and inodes\<close>

datatype node = DirNode | LinkNode | OtherNode | FileNode nat

record inode =
  in_bytes :: bytes
  in_synced :: bytes
  in_mtime :: "i64 \<times> i64"
  in_ctime :: "i64 \<times> i64"

record disk =
  dk_names :: "(path \<times> node) list"
  dk_durable :: "(path \<times> node) list"
  dk_inodes :: "nat \<Rightarrow> inode"
  dk_next :: nat
  dk_clock :: "nat \<Rightarrow> i64 \<times> i64"
  dk_time :: nat
  dk_faults :: "io_fault list"
  dk_read_fault :: "nat \<Rightarrow> nat \<Rightarrow> nat \<Rightarrow> io_error option"
  dk_len_fault :: "nat \<Rightarrow> io_error option"
  dk_device :: u64
  dk_pid :: u32
  dk_sequence :: u64

definition node_at :: "disk \<Rightarrow> path \<Rightarrow> node option" where
  "node_at d p = map_of (dk_names d) p"

definition durable_at :: "disk \<Rightarrow> path \<Rightarrow> node option" where
  "durable_at d p = map_of (dk_durable d) p"

definition set_name :: "path \<Rightarrow> node \<Rightarrow> disk \<Rightarrow> disk" where
  "set_name p n d = d\<lparr>dk_names := (p, n) # AList.delete p (dk_names d)\<rparr>"

definition drop_name :: "path \<Rightarrow> disk \<Rightarrow> disk" where
  "drop_name p d = d\<lparr>dk_names := AList.delete p (dk_names d)\<rparr>"

definition in_directory :: "path \<Rightarrow> path \<times> node \<Rightarrow> bool" where
  "in_directory p x \<longleftrightarrow> fst x \<noteq> [] \<and> butlast (fst x) = p"

text \<open>The metadata-change time moves with every change, the modification time with the bytes.\<close>

definition touch :: "bool \<Rightarrow> nat \<Rightarrow> disk \<Rightarrow> disk" where
  "touch data i d =
     (let now = dk_clock d (dk_time d); n = dk_inodes d i in
      d\<lparr>dk_time := Suc (dk_time d),
        dk_inodes := (dk_inodes d)(i := n\<lparr>in_mtime := (if data then now else in_mtime n), in_ctime := now\<rparr>)\<rparr>)"

definition put_bytes :: "nat \<Rightarrow> bytes \<Rightarrow> disk \<Rightarrow> disk" where
  "put_bytes i bs d =
     touch True i (d\<lparr>dk_inodes := (dk_inodes d)(i := (dk_inodes d i)\<lparr>in_bytes := bs\<rparr>)\<rparr>)"

definition identity_of :: "disk \<Rightarrow> nat \<Rightarrow> file_identity" where
  "identity_of d i =
     (let n = dk_inodes d i in
      \<lparr>fi_device = dk_device d, fi_inode = of_nat i, fi_len = of_nat (length (in_bytes n)),
       fi_mtime_seconds = fst (in_mtime n), fi_mtime_nanoseconds = snd (in_mtime n),
       fi_ctime_seconds = fst (in_ctime n), fi_ctime_nanoseconds = snd (in_ctime n)\<rparr>)"

text \<open>An open descriptor as the positional reads see it.\<close>

definition view_file :: "disk \<Rightarrow> nat \<Rightarrow> os_file" where
  "view_file d i =
     \<lparr>content = in_bytes (dk_inodes d i), cursor = 0, durable = in_synced (dk_inodes d i), faults = [],
      read_fault = dk_read_fault d i, len_fault = dk_len_fault d i\<rparr>"

section \<open>System calls\<close>

type_synonym 'a disk_call = "(disk, 'a) action"

definition disk_sys :: "(io_error \<Rightarrow> layout_error) \<Rightarrow> 'a disk_call \<Rightarrow> 'a disk_call" where
  "disk_sys on_fault work d =
     (let d' = d\<lparr>dk_faults := tl (dk_faults d)\<rparr> in
      case dk_faults d of
        Fault e _ # _ \<Rightarrow> (Err (on_fault e), d')
      | _ \<Rightarrow> work d')"

definition open_directory_on :: "path \<Rightarrow> unit disk_call" where
  "open_directory_on p =
     disk_sys (\<lambda>e. if e = OsError ELOOP then SymlinkNotAllowed (List.last p) else Io e)
       (\<lambda>d. (case node_at d p of
          None \<Rightarrow> fail (Io (OsError ENOENT))
        | Some DirNode \<Rightarrow> return ()
        | Some LinkNode \<Rightarrow> fail (SymlinkNotAllowed (List.last p))
        | Some _ \<Rightarrow> fail (Io (OsError ENOTDIR))) d)"

definition sync_directory :: "path \<Rightarrow> unit disk_call" where
  "sync_directory p =
     disk_sys Io (\<lambda>d. return () (d\<lparr>dk_durable :=
       filter (in_directory p) (dk_names d) @ filter (\<lambda>x. \<not> in_directory p x) (dk_durable d)\<rparr>))"

definition mkdir_at :: "path \<Rightarrow> unit disk_call" where
  "mkdir_at p =
     disk_sys Io (\<lambda>d. if node_at d p \<noteq> None then fail (Io (OsError EEXIST)) d
       else return () (set_name p DirNode d))"

definition ensure_directory_at :: "path \<Rightarrow> unit disk_call" where
  "ensure_directory_at p =
     catch (mkdir_at p)
       (\<lambda>error. if error = Io (OsError EEXIST)
         then seq (open_directory_on p) (\<lambda>_. sync_directory (butlast p))
         else fail error)
       (\<lambda>_. seq (open_directory_on p) (\<lambda>_. sync_directory (butlast p)))"

definition ensure_day :: "utc_day \<Rightarrow> unit disk_call" where
  "ensure_day day =
     seq (ensure_directory_at (year_path day)) (\<lambda>_.
     seq (ensure_directory_at (month_path day)) (\<lambda>_. ensure_directory_at (day_path day)))"

definition open_day_on :: "utc_day \<Rightarrow> unit disk_call" where
  "open_day_on day =
     seq (open_directory_on (year_path day)) (\<lambda>_.
     seq (open_directory_on (month_path day)) (\<lambda>_. open_directory_on (day_path day)))"

text \<open>The name of an unexpected leaf is reported as its hash, \<open>opaque:{:016x}\<close>.\<close>

definition hex_digit :: "nat \<Rightarrow> char" where
  "hex_digit n = (''0123456789abcdef'') ! (n mod 16)"

definition hex16 :: "u64 \<Rightarrow> string" where
  "hex16 w = map (\<lambda>k. hex_digit (unat (drop_bit (4 * k) w))) (rev [0..<16])"

definition opaque_name :: "string \<Rightarrow> string" where
  "opaque_name name = ''opaque:'' @ hex16 (hash_name (map (\<lambda>c. of_nat (of_char c)) name))"

text \<open>An open descriptor is the number of its inode; opening and the type check are two calls.\<close>

definition open_regular_at :: "path \<Rightarrow> string \<Rightarrow> nat disk_call" where
  "open_regular_at dir name =
     seq (disk_sys (\<lambda>e. if e = OsError ELOOP then SymlinkNotAllowed (opaque_name name) else Io e)
       (\<lambda>d. (case node_at d (dir @ [name]) of
          None \<Rightarrow> fail (Io (OsError ENOENT))
        | Some LinkNode \<Rightarrow> fail (SymlinkNotAllowed (opaque_name name))
        | Some n \<Rightarrow> return n) d))
     (\<lambda>n. disk_sys Io (\<lambda>d. (case n of FileNode i \<Rightarrow> return i | _ \<Rightarrow> fail (UnexpectedLeafEntryType (opaque_name name))) d))"

definition create_regular_at :: "path \<Rightarrow> string \<Rightarrow> nat disk_call" where
  "create_regular_at dir name =
     disk_sys Io (\<lambda>d.
       if node_at d (dir @ [name]) \<noteq> None then fail (Io (OsError EEXIST)) d
       else
         let i = dk_next d; now = dk_clock d (dk_time d) in
         return i (set_name (dir @ [name]) (FileNode i)
           (d\<lparr>dk_next := Suc i, dk_time := Suc (dk_time d),
              dk_inodes := (dk_inodes d)(i := \<lparr>in_bytes = [], in_synced = [], in_mtime = now, in_ctime = now\<rparr>)\<rparr>)))"

definition identity_from_file :: "nat \<Rightarrow> file_identity disk_call" where
  "identity_from_file i = disk_sys Io (\<lambda>d. return (identity_of d i) d)"

definition sync_file :: "nat \<Rightarrow> unit disk_call" where
  "sync_file i = disk_sys Io (\<lambda>d. return ()
     (d\<lparr>dk_inodes := (dk_inodes d)(i := (dk_inodes d i)\<lparr>in_synced := in_bytes (dk_inodes d i)\<rparr>)\<rparr>))"

text \<open>Linking refuses an existing name and changes the metadata of the inode.\<close>

definition link_open_file :: "nat \<Rightarrow> path \<Rightarrow> string \<Rightarrow> unit disk_call" where
  "link_open_file i dir name =
     disk_sys Io (\<lambda>d. if node_at d (dir @ [name]) \<noteq> None then fail (Io (OsError EEXIST)) d
       else return () (touch False i (set_name (dir @ [name]) (FileNode i) d)))"

definition unlink_name :: "path \<Rightarrow> string \<Rightarrow> unit disk_call" where
  "unlink_name dir name =
     disk_sys Io (\<lambda>d. (case node_at d (dir @ [name]) of
        None \<Rightarrow> fail (Io (OsError ENOENT)) d
      | Some DirNode \<Rightarrow> fail (Io (OsError EISDIR)) d
      | Some (FileNode i) \<Rightarrow> return () (touch False i (drop_name (dir @ [name]) d))
      | Some _ \<Rightarrow> return () (drop_name (dir @ [name]) d)))"

section \<open>Checks by identity\<close>

definition verify_named_identity ::
  "path \<Rightarrow> string \<Rightarrow> file_identity \<Rightarrow> string \<Rightarrow> unit disk_call" where
  "verify_named_identity dir name expected temporary =
     seq (open_regular_at dir name) (\<lambda>i.
     seq (identity_from_file i) (\<lambda>identity.
       if identity \<noteq> expected then fail (TemporaryChanged temporary) else return ()))"

definition unlink_named_if_identity ::
  "path \<Rightarrow> string \<Rightarrow> file_identity \<Rightarrow> bool disk_call" where
  "unlink_named_if_identity dir name expected =
     catch (open_regular_at dir name)
       (\<lambda>error. if error = Io (OsError ENOENT) then return False else fail error)
       (\<lambda>i. seq (identity_from_file i) (\<lambda>identity.
         if identity \<noteq> expected then return False
         else seq (unlink_name dir name) (\<lambda>_. return True)))"

end
