(* ===== verification/Zms_Temp.thy ===== *)
theory Zms_Temp
  imports Store_Disk
begin

text \<open>
  Publication of a finished segment (\<open>ZmsTemp\<close> of \<open>crates/kronika-layout/src/root/writer.rs\<close>): the
  temporary is synchronized, linked under its final name without replacing an existing one, and
  unlinked, with the day directory synchronized after each change. The property is that no
  failure at any call can overwrite a final name or show one whose bytes are not synchronized.
\<close>

section \<open>Definitions\<close>

record zms_temp =
  zt_day :: path
  zt_inode :: nat
  zt_prepared :: "file_identity option"
  zt_temp_name :: string
  zt_final_name :: string
  zt_address :: segment_address
  zt_published :: bool

text \<open>\<open>fetch_add\<close> on the process-wide sequence, which wraps.\<close>

definition next_sequence :: "u64 disk_call" where
  "next_sequence d = (Ok (dk_sequence d), d\<lparr>dk_sequence := dk_sequence d + 1\<rparr>)"

definition create_zms_temp :: "segment_address \<Rightarrow> zms_temp disk_call" where
  "create_zms_temp a =
     seq (ensure_day (addr_day a)) (\<lambda>_.
     seq next_sequence (\<lambda>q d.
       let name = temporary_name a TmpZms (dk_pid d) q in
       seq (create_regular_at (day_path (addr_day a)) name) (\<lambda>i.
         return \<lparr>zt_day = day_path (addr_day a), zt_inode = i, zt_prepared = None, zt_temp_name = name,
           zt_final_name = zms_name a, zt_address = a, zt_published = False\<rparr>) d))"

definition try_clone_file :: "zms_temp \<Rightarrow> (nat \<times> zms_temp) disk_call" where
  "try_clone_file t =
     seq (disk_sys Io (return (zt_inode t))) (\<lambda>i.
     seq (identity_from_file i) (\<lambda>identity. return (i, t\<lparr>zt_prepared := Some identity\<rparr>)))"

text \<open>The part of \<open>publish\<close> after the link.\<close>

definition finish_publish :: "zms_temp \<Rightarrow> zms_temp disk_call" where
  "finish_publish t =
     seq (identity_from_file (zt_inode t)) (\<lambda>linked.
     seq (verify_named_identity (zt_day t) (zt_final_name t) linked (zt_temp_name t)) (\<lambda>_.
     seq (sync_directory (zt_day t)) (\<lambda>_.
     seq (unlink_name (zt_day t) (zt_temp_name t)) (\<lambda>_.
     seq (sync_directory (zt_day t)) (\<lambda>_.
       return (t\<lparr>zt_published := True\<rparr>))))))"

definition publish :: "zms_temp \<Rightarrow> zms_temp disk_call" where
  "publish t =
     seq (sync_file (zt_inode t)) (\<lambda>_.
     seq (identity_from_file (zt_inode t)) (\<lambda>current.
       let expected = (case zt_prepared t of None \<Rightarrow> current | Some identity \<Rightarrow> identity) in
       if current \<noteq> expected then fail (TemporaryChanged (zt_temp_name t))
       else
         seq (verify_named_identity (zt_day t) (zt_temp_name t) expected (zt_temp_name t)) (\<lambda>_.
         catch (link_open_file (zt_inode t) (zt_day t) (zt_final_name t))
           (\<lambda>error. if error = Io (OsError EEXIST) then fail (SegmentAlreadyExists (addr_id (zt_address t)))
             else fail error)
           (\<lambda>_. finish_publish t))))"

text \<open>Dropping an unpublished temporary removes its name and ignores the outcome.\<close>

definition drop_temp :: "zms_temp \<Rightarrow> disk \<Rightarrow> disk" where
  "drop_temp t d =
     (if zt_published t then d
      else (case identity_from_file (zt_inode t) d of
          (Err _, d) \<Rightarrow> d
        | (Ok expected, d) \<Rightarrow> snd (unlink_named_if_identity (zt_day t) (zt_temp_name t) expected d)))"

text \<open>\<open>discard\<close> consumes the temporary; on an error it is dropped unpublished.\<close>

definition discard :: "zms_temp \<Rightarrow> unit disk_call" where
  "discard t =
     catch
       (seq (identity_from_file (zt_inode t)) (\<lambda>expected.
        seq (unlink_named_if_identity (zt_day t) (zt_temp_name t) expected) (\<lambda>removed.
          if \<not> removed then fail (TemporaryChanged (zt_temp_name t))
          else sync_directory (zt_day t))))
       (\<lambda>error d. (Err error, drop_temp t d))
       (\<lambda>_. return ())"

section \<open>Triples\<close>

text \<open>Partial results of a call: what holds after \<open>Ok\<close> and what after an error.\<close>

definition triple ::
  "('s \<Rightarrow> bool) \<Rightarrow> ('s \<Rightarrow> ('e + 'a) \<times> 's) \<Rightarrow> ('a \<Rightarrow> 's \<Rightarrow> bool) \<Rightarrow> ('e \<Rightarrow> 's \<Rightarrow> bool) \<Rightarrow> bool" where
  "triple P m Q E \<longleftrightarrow> (\<forall>d. P d \<longrightarrow> (case m d of (Ok x, d') \<Rightarrow> Q x d' | (Err e, d') \<Rightarrow> E e d'))"

lemma triple_Ok: "triple P m Q E \<Longrightarrow> P d \<Longrightarrow> m d = (Ok x, d') \<Longrightarrow> Q x d'"
  by (auto simp: triple_def)

lemma triple_Err: "triple P m Q E \<Longrightarrow> P d \<Longrightarrow> m d = (Err e, d') \<Longrightarrow> E e d'"
  by (auto simp: triple_def)

lemma triple_return: "(\<And>d. P d \<Longrightarrow> Q x d) \<Longrightarrow> triple P (return x) Q E"
  by (simp add: triple_def return_def)

lemma triple_fail: "(\<And>d. P d \<Longrightarrow> E e d) \<Longrightarrow> triple P (fail e) Q E"
  by (simp add: triple_def fail_def)

lemma triple_seq:
  "triple P m Q E \<Longrightarrow> (\<And>x. triple (Q x) (k x) R E) \<Longrightarrow> triple P (seq m k) R E"
  by (fastforce simp: triple_def seq_def split: prod.splits sum.splits)

lemma triple_catch:
  "triple P m Q F \<Longrightarrow> (\<And>e. triple (F e) (h e) R E) \<Longrightarrow> (\<And>x. triple (Q x) (k x) R E) \<Longrightarrow>
     triple P (catch m h k) R E"
  by (fastforce simp: triple_def catch_def split: prod.splits sum.splits)

lemma triple_weaken:
  "triple P m Q E \<Longrightarrow> (\<And>d. P' d \<Longrightarrow> P d) \<Longrightarrow> (\<And>x d. Q x d \<Longrightarrow> Q' x d) \<Longrightarrow> (\<And>e d. E e d \<Longrightarrow> E' e d) \<Longrightarrow>
     triple P' m Q' E'"
  by (fastforce simp: triple_def split: prod.splits sum.splits)

lemma triple_if:
  "(b \<Longrightarrow> triple P m Q E) \<Longrightarrow> (\<not> b \<Longrightarrow> triple P n Q E) \<Longrightarrow> triple P (if b then m else n) Q E"
  by simp

text \<open>A predicate that does not look at the failures to come.\<close>

definition quiet :: "(disk \<Rightarrow> bool) \<Rightarrow> bool" where
  "quiet P \<longleftrightarrow> (\<forall>d fs. P d \<longrightarrow> P (d\<lparr>dk_faults := fs\<rparr>))"

lemma triple_sys:
  assumes "quiet P" and "triple P work Q (\<lambda>e. E)" and "\<And>d. P d \<Longrightarrow> E d"
  shows "triple P (disk_sys f work) Q (\<lambda>e. E)"
  using assms by (fastforce simp: triple_def disk_sys_def quiet_def Let_def split: list.splits io_fault.splits)

lemma quiet_conj: "quiet P \<Longrightarrow> quiet Q \<Longrightarrow> quiet (\<lambda>d. P d \<and> Q d)"
  by (simp add: quiet_def)

lemma triple_identity:
  "quiet P \<Longrightarrow> triple P (identity_from_file i) (\<lambda>x d. P d \<and> x = identity_of d i) (\<lambda>e. P)"
  unfolding identity_from_file_def
  by (rule triple_sys) (auto simp: triple_def return_def)

lemma triple_open_regular:
  assumes "quiet P"
  shows "triple P (open_regular_at dir name) (\<lambda>i d. P d \<and> node_at d (dir @ [name]) = Some (FileNode i)) (\<lambda>e. P)"
  unfolding open_regular_at_def
proof (rule triple_seq)
  show "triple P (disk_sys (\<lambda>e. if e = OsError ELOOP then SymlinkNotAllowed (opaque_name name) else Io e)
      (\<lambda>d. (case node_at d (dir @ [name]) of None \<Rightarrow> fail (Io (OsError ENOENT))
        | Some LinkNode \<Rightarrow> fail (SymlinkNotAllowed (opaque_name name)) | Some n \<Rightarrow> return n) d))
      (\<lambda>n d. P d \<and> node_at d (dir @ [name]) = Some n) (\<lambda>e. P)"
    by (rule triple_sys [OF assms]) (auto simp: triple_def return_def fail_def split: option.split node.split)
next
  fix n
  have "quiet (\<lambda>d. P d \<and> node_at d (dir @ [name]) = Some n)"
    using assms by (simp add: quiet_def node_at_def)
  then show "triple (\<lambda>d. P d \<and> node_at d (dir @ [name]) = Some n)
      (disk_sys Io (\<lambda>d. (case n of FileNode i \<Rightarrow> return i | _ \<Rightarrow> fail (UnexpectedLeafEntryType (opaque_name name))) d))
      (\<lambda>i d. P d \<and> node_at d (dir @ [name]) = Some (FileNode i)) (\<lambda>e. P)"
    by (rule triple_sys) (auto simp: triple_def return_def fail_def split: node.split)
qed

lemma triple_identity_keep: "quiet P \<Longrightarrow> triple P (identity_from_file i) (\<lambda>_. P) (\<lambda>e. P)"
  by (rule triple_weaken [OF triple_identity]) auto

lemma triple_open_keep: "quiet P \<Longrightarrow> triple P (open_regular_at dir name) (\<lambda>_. P) (\<lambda>e. P)"
  by (rule triple_weaken [OF triple_open_regular]) auto

lemma triple_verify:
  "quiet P \<Longrightarrow> triple P (verify_named_identity dir name expected tmp) (\<lambda>_. P) (\<lambda>e. P)"
  unfolding verify_named_identity_def
  by (rule triple_seq [OF triple_open_keep triple_seq [OF triple_identity_keep triple_if]])
    (auto intro: triple_fail triple_return)

section \<open>Publication\<close>

definition temp_path :: "zms_temp \<Rightarrow> path" where "temp_path t = zt_day t @ [zt_temp_name t]"
definition final_path :: "zms_temp \<Rightarrow> path" where "final_path t = zt_day t @ [zt_final_name t]"

text \<open>No other name changed, no file changed its bytes, and only the temporary may be synchronized.\<close>

definition others_kept :: "zms_temp \<Rightarrow> disk \<Rightarrow> disk \<Rightarrow> bool" where
  "others_kept t d0 d \<longleftrightarrow>
     (\<forall>p. p \<noteq> temp_path t \<longrightarrow> p \<noteq> final_path t \<longrightarrow> node_at d p = node_at d0 p) \<and>
     (\<forall>k. in_bytes (dk_inodes d k) = in_bytes (dk_inodes d0 k)) \<and>
     (\<forall>k. k \<noteq> zt_inode t \<longrightarrow> in_synced (dk_inodes d k) = in_synced (dk_inodes d0 k)) \<and>
     dk_next d = dk_next d0"

definition file_synced :: "zms_temp \<Rightarrow> disk \<Rightarrow> bool" where
  "file_synced t d \<longleftrightarrow> in_synced (dk_inodes d (zt_inode t)) = in_bytes (dk_inodes d (zt_inode t))"

definition unlinked :: "zms_temp \<Rightarrow> disk \<Rightarrow> disk \<Rightarrow> bool" where
  "unlinked t d0 d \<longleftrightarrow> others_kept t d0 d \<and> node_at d (temp_path t) = node_at d0 (temp_path t) \<and>
     node_at d (final_path t) = node_at d0 (final_path t) \<and> durable_at d = durable_at d0"

definition linked :: "zms_temp \<Rightarrow> disk \<Rightarrow> disk \<Rightarrow> bool" where
  "linked t d0 d \<longleftrightarrow> others_kept t d0 d \<and> file_synced t d \<and> node_at d0 (final_path t) = None \<and>
     node_at d (final_path t) = Some (FileNode (zt_inode t)) \<and>
     node_at d (temp_path t) \<in> {node_at d0 (temp_path t), None} \<and>
     durable_at d (final_path t) \<in> {durable_at d0 (final_path t), Some (FileNode (zt_inode t))}"

lemma quiet_stages [simp]:
  "quiet (unlinked t d0)" "quiet (linked t d0)" "quiet (file_synced t)"
  "quiet (\<lambda>d. node_at d p = n)" "quiet (\<lambda>d. durable_at d p = n)"
  by (simp_all add: quiet_def unlinked_def linked_def file_synced_def others_kept_def node_at_def durable_at_def fun_eq_iff)

lemma node_at_names [simp]:
  "node_at (set_name p n d) q = (if q = p then Some n else node_at d q)"
  "node_at (drop_name p d) q = (if q = p then None else node_at d q)"
  "node_at (touch b i d) q = node_at d q" "durable_at (touch b i d) q = durable_at d q"
  "durable_at (set_name p n d) q = durable_at d q" "durable_at (drop_name p d) q = durable_at d q"
  by (simp_all add: node_at_def durable_at_def set_name_def drop_name_def touch_def Let_def delete_conv)

lemma next_names [simp]:
  "dk_next (set_name p n d) = dk_next d" "dk_next (drop_name p d) = dk_next d" "dk_next (touch b i d) = dk_next d"
  by (simp_all add: set_name_def drop_name_def touch_def Let_def)

lemma inodes_names [simp]:
  "dk_inodes (set_name p n d) = dk_inodes d" "dk_inodes (drop_name p d) = dk_inodes d"
  "in_bytes (dk_inodes (touch b i d) k) = in_bytes (dk_inodes d k)"
  "in_synced (dk_inodes (touch b i d) k) = in_synced (dk_inodes d k)"
  by (simp_all add: set_name_def drop_name_def touch_def Let_def)

lemma map_of_filter_key: "map_of (filter (\<lambda>x. Q (fst x)) xs) p = (if Q p then map_of xs p else None)"
  by (induction xs) auto

lemma durable_sync:
  "durable_at (d\<lparr>dk_durable := filter (in_directory dir) (dk_names d) @
       filter (\<lambda>x. \<not> in_directory dir x) (dk_durable d)\<rparr>) p =
     (if p \<noteq> [] \<and> butlast p = dir then node_at d p else durable_at d p)"
  using map_of_filter_key [of "\<lambda>q. q \<noteq> [] \<and> butlast q = dir" "dk_names d" p]
    map_of_filter_key [of "\<lambda>q. \<not> (q \<noteq> [] \<and> butlast q = dir)" "dk_durable d" p]
  by (cases "p = []") (simp_all add: durable_at_def node_at_def in_directory_def [abs_def] map_add_def split: option.split)

lemma triple_sync_directory:
  assumes "quiet P" and "\<And>d d'. P d \<Longrightarrow> dk_names d' = dk_names d \<Longrightarrow> dk_inodes d' = dk_inodes d \<Longrightarrow>
      dk_next d' = dk_next d \<Longrightarrow> (\<And>p. durable_at d' p = (if p \<noteq> [] \<and> butlast p = dir then node_at d p else durable_at d p)) \<Longrightarrow> Q d'"
    and "\<And>d. P d \<Longrightarrow> E d"
  shows "triple P (sync_directory dir) (\<lambda>_. Q) (\<lambda>e. E)"
  unfolding sync_directory_def
proof (rule triple_sys [OF assms(1) _ assms(3)])
  show "triple P (\<lambda>d. return () (d\<lparr>dk_durable := filter (in_directory dir) (dk_names d) @
      filter (\<lambda>x. \<not> in_directory dir x) (dk_durable d)\<rparr>)) (\<lambda>_. Q) (\<lambda>e. E)"
    using assms(2) durable_sync by (auto simp: triple_def return_def)
qed

lemma triple_sync_file:
  assumes "quiet P" and "\<And>d d'. P d \<Longrightarrow> dk_names d' = dk_names d \<Longrightarrow> dk_durable d' = dk_durable d \<Longrightarrow>
      dk_next d' = dk_next d \<Longrightarrow> dk_inodes d' = (dk_inodes d)(i := (dk_inodes d i)\<lparr>in_synced := in_bytes (dk_inodes d i)\<rparr>) \<Longrightarrow> Q d'"
    and "\<And>d. P d \<Longrightarrow> E d"
  shows "triple P (sync_file i) (\<lambda>_. Q) (\<lambda>e. E)"
  unfolding sync_file_def
  by (rule triple_sys [OF assms(1) _ assms(3)]) (use assms(2) in \<open>auto simp: triple_def return_def\<close>)

lemma names_differ_paths: "zt_temp_name t \<noteq> zt_final_name t \<Longrightarrow> temp_path t \<noteq> final_path t"
  by (simp add: temp_path_def final_path_def)

text \<open>The link either fails and changes nothing, or shows a synchronized file under a free name.\<close>

lemma triple_link:
  assumes "zt_temp_name t \<noteq> zt_final_name t"
  shows "triple (\<lambda>d. unlinked t d0 d \<and> file_synced t d) (link_open_file (zt_inode t) (zt_day t) (zt_final_name t))
     (\<lambda>_. linked t d0) (\<lambda>e. unlinked t d0)"
  unfolding link_open_file_def
proof (rule triple_sys)
  show "triple (\<lambda>d. unlinked t d0 d \<and> file_synced t d)
      (\<lambda>d. if node_at d (zt_day t @ [zt_final_name t]) \<noteq> None then fail (Io (OsError EEXIST)) d
        else return () (touch False (zt_inode t) (set_name (zt_day t @ [zt_final_name t]) (FileNode (zt_inode t)) d)))
      (\<lambda>_. linked t d0) (\<lambda>e. unlinked t d0)"
    using names_differ_paths [OF assms]
    by (auto simp: triple_def return_def fail_def linked_def unlinked_def others_kept_def file_synced_def
        final_path_def [symmetric])
qed (simp_all add: quiet_conj)

definition published :: "zms_temp \<Rightarrow> disk \<Rightarrow> disk \<Rightarrow> bool" where
  "published t d0 d \<longleftrightarrow> linked t d0 d \<and> durable_at d (final_path t) = Some (FileNode (zt_inode t)) \<and>
     node_at d (temp_path t) = None \<and> durable_at d (temp_path t) = None"

lemma triple_finish_publish:
  assumes "zt_temp_name t \<noteq> zt_final_name t"
  shows "triple (linked t d0) (finish_publish t) (\<lambda>t' d. t' = t\<lparr>zt_published := True\<rparr> \<and> published t d0 d)
    (\<lambda>e. linked t d0)"
proof -
  have ne: "temp_path t \<noteq> final_path t" by (rule names_differ_paths [OF assms])
  have dirs: "final_path t \<noteq> []" "butlast (final_path t) = zt_day t" "temp_path t \<noteq> []" "butlast (temp_path t) = zt_day t"
    by (simp_all add: final_path_def temp_path_def)
  let ?durable = "\<lambda>d. linked t d0 d \<and> durable_at d (final_path t) = Some (FileNode (zt_inode t))"
  have sync: "triple (linked t d0) (sync_directory (zt_day t)) (\<lambda>_. ?durable) (\<lambda>e. linked t d0)"
    by (rule triple_sync_directory) (auto simp: linked_def others_kept_def file_synced_def node_at_def dirs)
  have unlink: "triple ?durable (unlink_name (zt_day t) (zt_temp_name t))
      (\<lambda>_ d. ?durable d \<and> node_at d (temp_path t) = None) (\<lambda>e. linked t d0)"
    unfolding unlink_name_def
  proof (rule triple_sys)
    show "triple ?durable (\<lambda>d. (case node_at d (zt_day t @ [zt_temp_name t]) of None \<Rightarrow> fail (Io (OsError ENOENT)) d
        | Some DirNode \<Rightarrow> fail (Io (OsError EISDIR)) d
        | Some (FileNode i) \<Rightarrow> return () (touch False i (drop_name (zt_day t @ [zt_temp_name t]) d))
        | Some _ \<Rightarrow> return () (drop_name (zt_day t @ [zt_temp_name t]) d)))
        (\<lambda>_ d. ?durable d \<and> node_at d (temp_path t) = None) (\<lambda>e. linked t d0)"
      unfolding temp_path_def [symmetric] triple_def
      using ne by (auto simp: return_def fail_def linked_def others_kept_def file_synced_def split: option.split node.split)
  qed (simp_all add: quiet_conj)
  have sync2: "triple (\<lambda>d. ?durable d \<and> node_at d (temp_path t) = None) (sync_directory (zt_day t))
      (\<lambda>_. published t d0) (\<lambda>e. linked t d0)"
    by (rule triple_sync_directory, simp add: quiet_conj)
      (auto simp: published_def linked_def others_kept_def file_synced_def node_at_def dirs)
  show ?thesis
    unfolding finish_publish_def
    apply (rule triple_seq [OF triple_identity_keep], simp)
    apply (rule triple_seq [OF triple_verify], simp)
    apply (rule triple_seq [OF sync])
    apply (rule triple_seq [OF unlink])
    apply (rule triple_seq [OF sync2])
    apply (rule triple_return, simp)
    done
qed

text \<open>Only the link reports that the final name exists.\<close>

definition never_exists :: "'a disk_call \<Rightarrow> bool" where
  "never_exists m \<longleftrightarrow> (\<forall>d e d' x. m d = (Err e, d') \<longrightarrow> e \<noteq> SegmentAlreadyExists x)"

lemma never_exists_seq: "never_exists m \<Longrightarrow> (\<And>x. never_exists (k x)) \<Longrightarrow> never_exists (seq m k)"
  by (fastforce simp: never_exists_def seq_def split: prod.splits sum.splits)

lemma never_exists_calls:
  "never_exists (identity_from_file i)" "never_exists (sync_directory p)" "never_exists (unlink_name dir name)"
  "never_exists (open_regular_at dir name)" "never_exists (return y)" "never_exists (fail (TemporaryChanged s))"
proof -
  have sys: "never_exists (disk_sys f work)" if "\<And>e x. f e \<noteq> SegmentAlreadyExists x" and "never_exists work"
    for f :: "io_error \<Rightarrow> layout_error" and work :: "'z disk_call"
    using that by (fastforce simp: never_exists_def disk_sys_def Let_def split: list.splits io_fault.splits)
  show "never_exists (identity_from_file i)" "never_exists (sync_directory p)" "never_exists (unlink_name dir name)"
    unfolding identity_from_file_def sync_directory_def unlink_name_def
    by (rule sys; auto simp: never_exists_def return_def fail_def split: option.splits node.splits)+
  show "never_exists (open_regular_at dir name)"
    unfolding open_regular_at_def
    by (intro never_exists_seq sys)
      (auto simp: never_exists_def return_def fail_def split: option.splits node.splits)
  show "never_exists (return y)" "never_exists (fail (TemporaryChanged s))"
    by (simp_all add: never_exists_def return_def fail_def)
qed

lemma never_exists_finish: "never_exists (finish_publish t)"
proof -
  have "never_exists (verify_named_identity dir name i tmp)" for dir name i tmp
    unfolding verify_named_identity_def using never_exists_calls by (intro never_exists_seq) auto
  then show ?thesis
    unfolding finish_publish_def by (intro never_exists_seq never_exists_calls)
qed

lemma triple_never_exists:
  "triple P m Q E \<Longrightarrow> never_exists m \<Longrightarrow> triple P m Q (\<lambda>e d. E e d \<and> (\<forall>x. e \<noteq> SegmentAlreadyExists x))"
  by (fastforce simp: triple_def never_exists_def split: prod.splits sum.splits)

definition publish_failed :: "zms_temp \<Rightarrow> disk \<Rightarrow> layout_error \<Rightarrow> disk \<Rightarrow> bool" where
  "publish_failed t d0 e d \<longleftrightarrow> unlinked t d0 d \<or> linked t d0 d \<and> (\<forall>x. e \<noteq> SegmentAlreadyExists x)"

lemma triple_publish:
  assumes "zt_temp_name t \<noteq> zt_final_name t"
  shows "triple (unlinked t d0) (publish t) (\<lambda>t' d. t' = t\<lparr>zt_published := True\<rparr> \<and> published t d0 d)
    (publish_failed t d0)"
proof -
  let ?S = "\<lambda>d. unlinked t d0 d \<and> file_synced t d" and ?E = "publish_failed t d0"
  note finish = triple_never_exists [OF triple_finish_publish [OF assms] never_exists_finish]
  have q: "quiet ?S" by (simp add: quiet_conj)
  have sync: "triple (unlinked t d0) (sync_file (zt_inode t)) (\<lambda>_. ?S) (\<lambda>e. unlinked t d0)"
    by (rule triple_sync_file)
      (auto simp: unlinked_def others_kept_def file_synced_def node_at_def durable_at_def fun_eq_iff)
  have verify: "triple ?S (verify_named_identity dir nm i tmp) (\<lambda>_. ?S) ?E" for dir nm i tmp
    by (rule triple_weaken [OF triple_verify [OF q]]) (auto simp: publish_failed_def)
  have link: "triple ?S (catch (link_open_file (zt_inode t) (zt_day t) (zt_final_name t))
      (\<lambda>error. if error = Io (OsError EEXIST) then fail (SegmentAlreadyExists (addr_id (zt_address t))) else fail error)
      (\<lambda>_. finish_publish t)) (\<lambda>t' d. t' = t\<lparr>zt_published := True\<rparr> \<and> published t d0 d) ?E"
    by (rule triple_catch [OF triple_link [OF assms] triple_if triple_weaken [OF finish]])
      (auto simp: publish_failed_def intro: triple_fail)
  show ?thesis
    unfolding publish_def Let_def
    apply (rule triple_seq [OF triple_weaken [OF sync]], assumption, assumption, simp add: publish_failed_def)
    apply (rule triple_seq [OF triple_weaken [OF triple_identity_keep [OF q]]], assumption, assumption, simp add: publish_failed_def)
    apply (rule triple_if)
     apply (rule triple_fail, simp add: publish_failed_def)
    apply (rule triple_seq [OF verify link])
    done
qed

end
