(* ===== verification/Segment_Compare.thy ===== *)
theory Segment_Compare
  imports Segment_Finish_Props Zms_Temp
begin

text \<open>
  Accepting a final file (\<open>crates/kronika-writer/src/segment/compare.rs\<close>): the structural check of a
  container against its summary, and the comparison of two files in chunks of at most 64 KiB
  between two readings of their identities.
\<close>

section \<open>Definitions\<close>

definition validate_segment :: "'d crc_alg \<Rightarrow> os_file \<Rightarrow> write_summary \<Rightarrow> io_error + bool" where
  "validate_segment A f summary =
     and_then (metadata_len f) (\<lambda>len.
     if len \<noteq> unat (ws_bytes summary) then Ok False
     else if len < length MAGIC + META_LEN + TAIL_INDEX_LEN then Ok False
     else and_then (file_read_exact_at f (length MAGIC) 0) (\<lambda>magic.
       if magic \<noteq> MAGIC then Ok False
       else
         let tail_at = len - TAIL_INDEX_LEN in
         and_then (file_read_exact_at f TAIL_INDEX_LEN tail_at) (\<lambda>bs.
         case TailIndex_decode bs of
           Err _ \<Rightarrow> Ok False
         | Ok tail \<Rightarrow>
             (case Option.bind (checked_mul_usize (ws_sections summary) ENTRY_LEN)
                 (\<lambda>n. checked_add_usize n META_LEN) of
                None \<Rightarrow> Ok False
              | Some catalog_len' \<Rightarrow>
                  if catalog_len' > MAX_CATALOG_BYTES \<or> unat (catalog_len tail) \<noteq> catalog_len' then Ok False
                  else (case checked_sub_usize tail_at (unat (catalog_len tail)) of
                      None \<Rightarrow> Ok False
                    | Some catalog_at \<Rightarrow>
                        if catalog_at < length MAGIC then Ok False
                        else and_then (file_read_exact_at f catalog_len' catalog_at) (\<lambda>bs.
                          case Catalog_view_of A bs of
                            Err _ \<Rightarrow> Ok False
                          | Ok v \<Rightarrow>
                              if v_format_version v \<noteq> FORMAT_VERSION \<or> unat (v_entry_count v) \<noteq> ws_sections summary \<or>
                                 v_min_ts v \<noteq> ws_min_ts summary \<or> v_max_ts v \<noteq> ws_max_ts summary
                              then Ok False
                              else Ok (list_all (\<lambda>e. length MAGIC \<le> unat (e_offset e) \<and>
                                  (case checked_add_word (e_offset e) (e_len e) of
                                     None \<Rightarrow> False | Some e_end \<Rightarrow> unat e_end \<le> catalog_at))
                                (CatalogView_entries v))))))))"

text \<open>The loop over the chunks of two files of \<open>len\<close> bytes, from \<open>off\<close>.\<close>

function compare_loop :: "os_file \<Rightarrow> os_file \<Rightarrow> nat \<Rightarrow> nat \<Rightarrow> io_error + bool" where
  "compare_loop l r len off =
     (if off < len then
        let remaining = min (len - off) COMPARE_BUFFER_BYTES in
        and_then (file_read_exact_at l remaining off) (\<lambda>a.
        and_then (file_read_exact_at r remaining off) (\<lambda>b.
          if a \<noteq> b then Ok False else compare_loop l r len (off + remaining)))
      else Ok True)"
  by pat_completeness auto
termination
  by (relation "measure (\<lambda>(l, r, len, off). len - off)") (auto simp: COMPARE_BUFFER_BYTES_def)

declare compare_loop.simps [simp del]

text \<open>A failed \<open>fstat\<close> in this module is a plain I/O error.\<close>

definition plain_io :: "layout_error \<Rightarrow> write_error" where
  "plain_io e = (case e of Io x \<Rightarrow> WriteIo x | _ \<Rightarrow> WriteLayout e)"

definition fstat :: "nat \<Rightarrow> disk \<Rightarrow> (write_error + file_identity) \<times> disk" where
  "fstat i d = err_out plain_io (identity_from_file i d)"

definition files_equal :: "nat \<Rightarrow> nat \<Rightarrow> disk \<Rightarrow> (write_error + bool) \<times> disk" where
  "files_equal l r d =
     then_out (fstat l d) (\<lambda>left d.
     then_out (fstat r d) (\<lambda>right d.
     if fi_len right \<noteq> fi_len left then (Ok False, d)
     else then_out (map_err WriteIo (compare_loop (view_file d l) (view_file d r) (unat (fi_len left)) 0), d) (\<lambda>same d.
       if \<not> same then (Ok False, d)
       else then_out (fstat l d) (\<lambda>left' d.
         if left' \<noteq> left then (Ok False, d)
         else then_out (fstat r d) (\<lambda>right' d. (Ok (right' = right), d))))))"

section \<open>Comparing\<close>

lemma compare_loop_step:
  assumes "off < len" and "compare_loop l r len off = Ok b"
  obtains x y where "file_read_exact_at l (min (len - off) COMPARE_BUFFER_BYTES) off = Ok x"
    and "file_read_exact_at r (min (len - off) COMPARE_BUFFER_BYTES) off = Ok y"
    and "(if x \<noteq> y then Ok False else compare_loop l r len (off + min (len - off) COMPARE_BUFFER_BYTES)) = Ok b"
  using assms by (subst (asm) compare_loop.simps) (auto simp: Let_def and_then_Ok_iff)

lemma compare_loop_Ok:
  assumes "compare_loop l r len off = Ok b" and "off \<le> len"
  shows "(b \<longleftrightarrow> slice_of off (len - off) (content l) = slice_of off (len - off) (content r)) \<and>
    (off < len \<longrightarrow> b \<longrightarrow> len \<le> length (content l) \<and> len \<le> length (content r))"
  using assms
proof (induction "len - off" arbitrary: off rule: less_induct)
  case less
  show ?case
  proof (cases "off < len")
    case False
    then show ?thesis using less.prems by (simp add: compare_loop.simps [of l] slice_of_def)
  next
    case off: True
    let ?n = "min (len - off) COMPARE_BUFFER_BYTES"
    obtain x y where rx: "file_read_exact_at l ?n off = Ok x" and ry: "file_read_exact_at r ?n off = Ok y"
      and step: "(if x \<noteq> y then Ok False else compare_loop l r len (off + ?n)) = Ok b"
      by (rule compare_loop_step [OF off less.prems(1)])
    note x = file_read_exact_at_Ok [OF rx] and y = file_read_exact_at_Ok [OF ry]
    have n: "0 < ?n" "off + ?n \<le> len" using off by (simp_all add: COMPARE_BUFFER_BYTES_def)
    have split: "slice_of off (len - off) (content f) = slice_of off ?n (content f) @
        slice_of (off + ?n) (len - (off + ?n)) (content f)" for f
      using n slice_of_append [of off ?n "content f" "len - (off + ?n)"] by simp
    show ?thesis
    proof (cases "x = y")
      case False
      moreover have "length x = length y" using x(3) y(3) by simp
      ultimately show ?thesis using step unfolding split x(1) [symmetric] y(1) [symmetric] by simp
    next
      case True
      then have next_run: "compare_loop l r len (off + ?n) = Ok b" using step by simp
      have IH: "(b \<longleftrightarrow> slice_of (off + ?n) (len - (off + ?n)) (content l) = slice_of (off + ?n) (len - (off + ?n)) (content r)) \<and>
          (off + ?n < len \<longrightarrow> b \<longrightarrow> len \<le> length (content l) \<and> len \<le> length (content r))"
        by (rule less.hyps [OF _ next_run n(2)]) (use off n in linarith)
      have "b \<longrightarrow> len \<le> length (content l) \<and> len \<le> length (content r)"
        using IH x(2) y(2) n(2) by (cases "off + ?n < len") auto
      then show ?thesis
        unfolding split using IH True x(1,3) y(1,3) by simp
    qed
  qed
qed

text \<open>Two files compare equal exactly when they hold the same bytes, whatever the chunks.\<close>

definition same_disk :: "disk \<Rightarrow> disk \<Rightarrow> bool" where
  "same_disk d d' \<longleftrightarrow> (\<exists>fs. d' = d\<lparr>dk_faults := fs\<rparr>)"

lemma same_disk_facts:
  assumes "same_disk d d'"
  shows "identity_of d' i = identity_of d i" and "view_file d' i = view_file d i" and "dk_inodes d' = dk_inodes d"
    and "node_at d' = node_at d" and "durable_at d' = durable_at d" and "dk_next d' = dk_next d"
  using assms by (auto simp: same_disk_def identity_of_def view_file_def node_at_def durable_at_def fun_eq_iff)

lemma same_disk_trans: "same_disk a b \<Longrightarrow> same_disk b c \<Longrightarrow> same_disk a c"
  by (auto simp: same_disk_def)

lemma same_disk_refl [simp]: "same_disk d d"
  by (auto simp: same_disk_def intro: exI [of _ "dk_faults d"])

lemma fstat_Ok:
  "fstat i d = (Ok x, d') \<Longrightarrow> same_disk d d' \<and> x = identity_of d i"
  by (auto simp: fstat_def err_out_def identity_from_file_def disk_sys_def Let_def return_def identity_of_def same_disk_def
      split: list.splits io_fault.splits)

lemma files_equal_Ok:
  assumes "files_equal l r d = (Ok b, d')"
    and "length (in_bytes (dk_inodes d l)) < 2 ^ 64" and "length (in_bytes (dk_inodes d r)) < 2 ^ 64"
  shows "b \<longleftrightarrow> in_bytes (dk_inodes d l) = in_bytes (dk_inodes d r)"
    and "same_disk d d'"
proof -
  let ?L = "in_bytes (dk_inodes d l)" and ?R = "in_bytes (dk_inodes d r)"
  have len: "fi_len (identity_of d i) = of_nat (length (in_bytes (dk_inodes d i)))" for i
    by (simp add: identity_of_def Let_def)
  have eq: "(fi_len (identity_of d r) = fi_len (identity_of d l)) \<longleftrightarrow> length ?L = length ?R"
    using assms(2,3) unat_of_nat_u64 by (metis len)
  have ul: "unat (fi_len (identity_of d l)) = length ?L"
    using assms(2) by (simp add: len unat_of_nat_u64)
  have loop: "c \<longleftrightarrow> ?L = ?R" if "compare_loop (view_file d l) (view_file d r) (length ?L) 0 = Ok c" and "length ?L = length ?R" for c
    using compare_loop_Ok [OF that(1)] that(2) by (simp add: view_file_def slice_of_def)
  from assms(1) obtain left d1 right d2 where f1: "fstat l d = (Ok left, d1)" and f2: "fstat r d1 = (Ok right, d2)"
    and rest: "(if fi_len right \<noteq> fi_len left then (Ok False, d2)
     else then_out (map_err WriteIo (compare_loop (view_file d2 l) (view_file d2 r) (unat (fi_len left)) 0), d2) (\<lambda>same d.
       if \<not> same then (Ok False, d)
       else then_out (fstat l d) (\<lambda>left' d.
         if left' \<noteq> left then (Ok False, d)
         else then_out (fstat r d) (\<lambda>right' d. (Ok (right' = right), d))))) = (Ok b, d')"
    by (auto simp: files_equal_def then_out_Ok)
  have s1: "same_disk d d1" "left = identity_of d l" using fstat_Ok [OF f1] by simp_all
  have s2: "same_disk d d2" "right = identity_of d r"
    using fstat_Ok [OF f2] same_disk_trans [OF s1(1)] same_disk_facts(1) [OF s1(1)] by simp_all
  note f = same_disk_facts [OF s2(1)]
  show "b \<longleftrightarrow> ?L = ?R" "same_disk d d'"
  proof -
    have "(b \<longleftrightarrow> ?L = ?R) \<and> same_disk d d'"
    proof (cases "length ?L = length ?R")
      case False
      then show ?thesis using rest eq s1(2) s2 by auto
    next
      case True
      with rest eq s1(2) s2(2) obtain c where c: "compare_loop (view_file d l) (view_file d r) (length ?L) 0 = Ok c"
        and rest: "(if \<not> c then (Ok False, d2)
          else then_out (fstat l d2) (\<lambda>left' d.
            if left' \<noteq> left then (Ok False, d)
            else then_out (fstat r d) (\<lambda>right' d. (Ok (right' = right), d)))) = (Ok b, d')"
        by (auto simp: then_out_Ok f ul)
      show ?thesis
      proof (cases c)
        case False
        then show ?thesis using rest loop [OF c True] s2(1) by auto
      next
        case c_true: True
        with rest obtain left' d3 where f3: "fstat l d2 = (Ok left', d3)"
          and rest: "(if left' \<noteq> left then (Ok False, d3)
            else then_out (fstat r d3) (\<lambda>right' d. (Ok (right' = right), d))) = (Ok b, d')"
          by (auto simp: then_out_Ok)
        have l': "left' = left" and s3: "same_disk d d3"
          using fstat_Ok [OF f3] f(1) s1(2) same_disk_trans [OF s2(1)] by simp_all
        then obtain right' where f4: "fstat r d3 = (Ok right', d')" and b: "b = (right' = right)"
          using rest by (auto simp: then_out_Ok)
        have "right' = right" "same_disk d d'"
          using fstat_Ok [OF f4] same_disk_facts(1) [OF s3] s2(2) same_disk_trans [OF s3] by simp_all
        then show ?thesis using b loop [OF c True] c_true by simp
      qed
    qed
    then show "b \<longleftrightarrow> ?L = ?R" "same_disk d d'" by blast+
  qed
qed

section \<open>A generated container passes its check\<close>

lemma metadata_len_Ok: "metadata_len f = Ok n \<Longrightarrow> n = length (content f)"
  by (auto simp: metadata_len_def split: option.splits)

lemma catalog_view_block:
  assumes "crc_laws A" and "length (entries c) < 2 ^ 32"
  obtains v where "Catalog_view_of A (catalog_block A c) = Ok v" and "CatalogView_entries v = entries c"
    and "v_format_version v = format_version c" and "v_min_ts v = min_ts c" and "v_max_ts v = max_ts c"
    and "unat (v_entry_count v) = length (entries c)"
proof -
  from decode_catalog_block [OF assms] obtain v where v: "Catalog_view_of A (catalog_block A c) = Ok v"
    and rec: "c = \<lparr>entries = CatalogView_entries v, min_ts = v_min_ts v, max_ts = v_max_ts v,
      format_version = v_format_version v, window_count = v_window_count v\<rparr>"
    by (auto simp: Catalog_decode_def and_then_Ok_iff)
  have c: "entries c = CatalogView_entries v" "format_version c = v_format_version v" "min_ts c = v_min_ts v"
    "max_ts c = v_max_ts v"
    by (subst rec, simp)+
  from v obtain body m n where b: "catalog_block A c = body @ m" "length m = 32" "length body = 32 * n" "n < 2 ^ 32"
    and veq: "v = \<lparr>v_entries = body, v_min_ts = i64_at m 0, v_max_ts = i64_at m 8,
      v_entry_count = of_nat n, v_format_version = u32_at m 20, v_window_count = u32_at m 28\<rparr>"
    by (rule Catalog_view_of_Ok)
  have "32 * n + 32 = encoded_len c" using arg_cong [OF b(1), of length] b(2,3) by simp
  then have "n = length (entries c)" by (simp add: encoded_len_def)
  then have "unat (v_entry_count v) = length (entries c)" using b(4) by (simp add: veq unat_of_nat_u32)
  then show thesis using that [OF v] c by simp
qed

lemma validate_segment_accepts:
  assumes laws: "crc_laws A" and small: "length (content f) < 2 ^ 64" and ok: "validate_part A (content f) = Ok c"
    and ver: "format_version c = FORMAT_VERSION" and cap: "encoded_len c \<le> MAX_CATALOG_BYTES"
    and sm: "unat (ws_bytes sm) = length (content f)" "ws_sections sm = length (entries c)"
      "ws_min_ts sm = min_ts c" "ws_max_ts sm = max_ts c"
    and run: "validate_segment A f sm = Ok b"
  shows "b"
proof -
  from ok obtain bodies where bs: "content f = part_bytes A bodies c" and enc: "encoded_len c < 2 ^ 32"
    and lay: "canonical_layout (entries c) (4 + length bodies)"
    unfolding validate_part_Ok [OF laws small] by blast
  have n: "length (entries c) < 2 ^ 32" and e32: "32 \<le> encoded_len c" and el: "encoded_len c = 32 * length (entries c) + 32"
    using enc by (simp_all add: encoded_len_def)
  let ?t = "\<lparr>catalog_len = of_nat (encoded_len c) :: u32\<rparr>" and ?at = "4 + length bodies"
  have len: "length (content f) = ?at + encoded_len c + 8" by (simp add: bs)
  have magic: "slice_of 0 4 (content f) = MAGIC" by (simp add: bs part_bytes_def slice_of_def)
  have tail: "TailIndex_decode (slice_of (?at + encoded_len c) 8 (content f)) = Ok ?t"
  proof -
    have "slice_of (?at + encoded_len c) 8 (content f) = TailIndex_encode ?t"
      by (simp add: bs part_bytes_def slice_of_def tail.enc_length)
    then show ?thesis by (simp only: tail.dec_enc)
  qed
  have blk: "slice_of ?at (encoded_len c) (content f) = catalog_block A c"
    by (simp add: bs part_bytes_def slice_of_def)
  obtain v where v: "Catalog_view_of A (catalog_block A c) = Ok v" "CatalogView_entries v = entries c"
    "v_format_version v = format_version c" "v_min_ts v = min_ts c" "v_max_ts v = max_ts c"
    "unat (v_entry_count v) = length (entries c)"
    by (rule catalog_view_block [OF laws n])
  have cl: "unat (of_nat (encoded_len c) :: u32) = encoded_len c" using enc by (rule unat_of_nat_u32)
  have within: "4 \<le> unat (e_offset e) \<and> (\<exists>x. checked_add_word (e_offset e) (e_len e) = Some x \<and> unat x \<le> ?at)"
    if "e \<in> set (entries c)" for e
  proof -
    have h: "4 \<le> unat (e_offset e) \<and> unat (e_offset e) + unat (e_len e) \<le> ?at"
      using lay that contiguous_body by (fastforce simp: canonical_layout_def)
    then have "unat (e_offset e) + unat (e_len e) < 2 ^ 64" using small len by linarith
    then have "checked_add_word (e_offset e) (e_len e) = Some (e_offset e + e_len e)"
      by (simp add: checked_add_word_def)
    with h checked_add_word_Some [OF this] show ?thesis by auto
  qed
  have all: "list_all (\<lambda>e. 4 \<le> unat (e_offset e) \<and> (case checked_add_word (e_offset e) (e_len e) of
      None \<Rightarrow> False | Some e_end \<Rightarrow> unat e_end \<le> ?at)) (entries c)"
    using within by (fastforce simp: list_all_iff)
  have mul: "checked_mul_usize (length (entries c)) 32 = Some (32 * length (entries c))"
    "checked_add_usize (32 * length (entries c)) 32 = Some (encoded_len c)"
    using n el by (simp_all add: checked_mul_usize_def)
  have sub: "checked_sub_usize (?at + encoded_len c) (encoded_len c) = Some ?at" by simp
  have mag: "m = MAGIC" if "file_read_exact_at f 4 0 = Ok m" for m
    using file_read_exact_at_Ok(1) [OF that] magic by simp
  have tl: "TailIndex_decode t = Ok ?t" if "file_read_exact_at f 8 (?at + encoded_len c) = Ok t" for t
    using file_read_exact_at_Ok(1) [OF that] tail by simp
  have ct: "cb = catalog_block A c" if "file_read_exact_at f (encoded_len c) ?at = Ok cb" for cb
    using file_read_exact_at_Ok(1) [OF that] blk by simp
  let ?mid = "\<lambda>bs. case Catalog_view_of A bs of Err _ \<Rightarrow> Ok False
      | Ok v \<Rightarrow> if v_format_version v \<noteq> FORMAT_VERSION \<or> unat (v_entry_count v) \<noteq> ws_sections sm \<or>
          v_min_ts v \<noteq> ws_min_ts sm \<or> v_max_ts v \<noteq> ws_max_ts sm then Ok False
        else Ok (list_all (\<lambda>e. length MAGIC \<le> unat (e_offset e) \<and> (case checked_add_word (e_offset e) (e_len e) of
          None \<Rightarrow> False | Some e_end \<Rightarrow> unat e_end \<le> ?at)) (CatalogView_entries v))"
  have m: "metadata_len f = Ok (length (content f))"
    using run by (cases "metadata_len f") (auto simp: validate_segment_def dest: metadata_len_Ok)
  have long: "\<not> length (content f) < length MAGIC + 32 + 8" and at: "length (content f) - 8 = ?at + encoded_len c"
    using len e32 by simp_all
  have r1: "file_read_exact_at f 4 0 = Ok MAGIC"
    using run mag long unfolding validate_segment_def m and_then_simps sm(1) [symmetric]
    by (cases "file_read_exact_at f 4 0") (simp_all add: sm)
  obtain t where r2: "file_read_exact_at f 8 (?at + encoded_len c) = Ok t"
    using run long unfolding validate_segment_def m and_then_simps sm(1) [symmetric]
    by (cases "file_read_exact_at f 8 (?at + encoded_len c)") (simp_all add: sm r1 at Let_def)
  have eq: "validate_segment A f sm = and_then (file_read_exact_at f (encoded_len c) ?at) ?mid"
    using long cap tl [OF r2]
    by (simp add: validate_segment_def m sm r1 r2 at Let_def mul cl sub)
  have r3: "file_read_exact_at f (encoded_len c) ?at = Ok (catalog_block A c)"
    using run ct unfolding eq by (cases "file_read_exact_at f (encoded_len c) ?at") simp_all
  show b using run all unfolding eq by (simp add: r3 v ver sm)
qed

end
