(* ===== verification/Segment_Write.thy ===== *)
theory Segment_Write
  imports Segment_Spool Segment_Compare
begin

text \<open>
  Writing and publishing a segment (\<open>crates/kronika-writer/src/segment.rs\<close>, \<open>segment/spool.rs\<close>): the
  journal is planned, every type is encoded into a spool file, the container is assembled in a
  second temporary, checked, and published under the address; an existing final file is accepted
  only when it is byte for byte what was generated. Temporaries are dropped on every error.
\<close>

section \<open>The encoders\<close>

text \<open>The registry's Parquet codec and the Parquet library, as the writer calls them.\<close>

record codec =
  cd_hashes :: hashes
  cd_encode :: "u32 \<Rightarrow> u32 list \<Rightarrow> encoder"
  cd_parquet :: "u32 \<Rightarrow> entry_snapshot list \<Rightarrow> parquet_writes"
  cd_preflight :: "bytes \<Rightarrow> codec_error + unit"
  cd_reader :: "bytes \<Rightarrow> codec_error + parquet_body"

text \<open>Which of the coming writes to the two buffered streams fail.\<close>

record stream_faults =
  spool_faults :: "io_error option list"
  final_faults :: "io_error option list"

section \<open>Spooling\<close>

fun spool_types ::
  "'d crc_alg \<Rightarrow> codec \<Rightarrow> journal \<Rightarrow> (u32 \<times> section_descriptor list) list \<Rightarrow> u64 \<Rightarrow> out_stream \<Rightarrow>
     (write_error + finished_section list \<times> u64) \<times> out_stream" where
  "spool_types A cd j [] off out = (Ok ([], off), out)"
| "spool_types A cd j ((t, ds) # types) off out =
     then_out (spool_data_section A (cd_encode cd) j t ds off out) (\<lambda>s out.
     then_out (ok_or (checked_add_word off (fs_len s)) (ArithmeticOverflow ''spool offset''), out) (\<lambda>off out.
     then_out (spool_types A cd j types off out) (\<lambda>(ss, off) out. (Ok (s # ss, off), out))))"

text \<open>The offset after the dictionary sections is only needed by its check.\<close>

fun check_spool_ends :: "finished_section list \<Rightarrow> write_error + unit" where
  "check_spool_ends [] = Ok ()"
| "check_spool_ends (s # ss) =
     and_then (ok_or (checked_add_word (fs_offset s) (fs_len s)) (ArithmeticOverflow ''spool offset'')) (\<lambda>_.
       check_spool_ends ss)"

definition spool_dictionary_sections ::
  "'d crc_alg \<Rightarrow> codec \<Rightarrow> journal \<Rightarrow> section_descriptor list \<Rightarrow> section_descriptor list \<Rightarrow> u64 \<Rightarrow> out_stream \<Rightarrow>
     (write_error + finished_section list) \<times> out_stream" where
  "spool_dictionary_sections A cd j strings blobs off out =
     then_out (normalize_dictionary A (cd_hashes cd) (cd_preflight cd) (cd_reader cd) j strings blobs, out) (\<lambda>fd out.
     then_out (write_sections_to A (cd_parquet cd) fd off out) (\<lambda>ss out.
     then_out (check_spool_ends ss, out) (\<lambda>_ out. (Ok ss, out))))"

text \<open>Larger types first, equal sizes by id.\<close>

definition section_bytes :: "section_descriptor list \<Rightarrow> nat" where
  "section_bytes ds = foldl (\<lambda>n d. saturating_add_u64 n (unat (e_len (sd_entry d)))) 0 ds"

definition spool_order :: "(u32, section_descriptor list) omap \<Rightarrow> (u32 \<times> section_descriptor list) list" where
  "spool_order m = sort_key (\<lambda>(t, ds). (u64_max - section_bytes ds, unat t)) m"

definition unwrap_or_default :: "'a list option \<Rightarrow> 'a list" where
  "unwrap_or_default x = (case x of None \<Rightarrow> [] | Some xs \<Rightarrow> xs)"

definition spool_sections ::
  "'d crc_alg \<Rightarrow> codec \<Rightarrow> journal \<Rightarrow> segment_plan \<Rightarrow> out_stream \<Rightarrow> (write_error + finished_section list) \<times> out_stream" where
  "spool_sections A cd j plan out =
     (let strings = unwrap_or_default (map_of (by_type plan) DICT_STRINGS_TYPE_ID);
          blobs = unwrap_or_default (map_of (by_type plan) DICT_BLOBS_TYPE_ID);
          data = om_remove DICT_BLOBS_TYPE_ID (om_remove DICT_STRINGS_TYPE_ID (by_type plan)) in
      then_out (spool_types A cd j (spool_order data) 0 out) (\<lambda>(spooled, off) out.
      then_out (spool_dictionary_sections A cd j strings blobs off out) (\<lambda>dicts out.
      then_out (err_out WriteIo (out_flush out)) (\<lambda>_ out. (Ok (spooled @ dicts), out)))))"

text \<open>
  \<open>write_tmp\<close>: the streams start on two fresh files; what they wrote is in the files whatever the
  result, and the final one is synchronized at the end.
\<close>

definition write_tmp ::
  "'d crc_alg \<Rightarrow> codec \<Rightarrow> stream_faults \<Rightarrow> journal \<Rightarrow> zms_temp \<Rightarrow> zms_temp \<Rightarrow> disk \<Rightarrow> (write_error + write_summary) \<times> disk" where
  "write_tmp A cd flt j temporary spool d =
     then_out (plan_segment A j, d) (\<lambda>plan d.
     let (sections, spool_out) = spool_sections A cd j plan \<lparr>written = [], out_faults = spool_faults flt\<rparr>;
         d = put_bytes (zt_inode spool) (written spool_out) d in
     then_out (sections, d) (\<lambda>spooled d.
     then_out (FinishedZmsPlan_new spooled (sp_min_ts plan) (sp_max_ts plan) (sp_window_count plan), d) (\<lambda>finished d.
     let (summary, out) = write_finished_zms A (view_file d (zt_inode spool)) finished
           \<lparr>written = [], out_faults = final_faults flt\<rparr>;
         d = put_bytes (zt_inode temporary) (written out) d in
     then_out (summary, d) (\<lambda>summary d.
     then_out (err_out plain_io (sync_file (zt_inode temporary) d)) (\<lambda>_ d. (Ok summary, d))))))"

section \<open>Publishing\<close>

definition open_zms :: "segment_address \<Rightarrow> nat disk_call" where
  "open_zms a = seq (open_day_on (addr_day a)) (\<lambda>_. open_regular_at (day_path (addr_day a)) (zms_name a))"

text \<open>An error leaves the function and drops the temporary.\<close>

definition or_drop :: "zms_temp \<Rightarrow> (write_error + 'a) \<times> disk \<Rightarrow> (write_error + 'a) \<times> disk" where
  "or_drop t r = (case r of (Err e, d) \<Rightarrow> (Err e, drop_temp t d) | (Ok x, d) \<Rightarrow> (Ok x, d))"

text \<open>The checks on a final file that exists already.\<close>

definition check_existing ::
  "'d crc_alg \<Rightarrow> segment_address \<Rightarrow> nat \<Rightarrow> write_summary \<Rightarrow> disk \<Rightarrow> (write_error + unit) \<times> disk" where
  "check_existing A a generated summary d =
     then_out (err_out WriteLayout (open_zms a d)) (\<lambda>existing d.
     then_out (fstat existing d) (\<lambda>identity d.
     then_out (map_err WriteIo (validate_segment A (view_file d existing) summary), d) (\<lambda>valid d.
     if \<not> valid then (Err ExistingSegmentInvalid, d)
     else then_out (files_equal generated existing d) (\<lambda>equal d.
     if \<not> equal then (Err ExistingSegmentMismatch, d)
     else then_out (fstat existing d) (\<lambda>again d.
     if again \<noteq> identity then (Err ExistingSegmentMismatch, d)
     else then_out (err_out WriteLayout (open_zms a d)) (\<lambda>named d.
     then_out (fstat named d) (\<lambda>named_identity d.
     if named_identity \<noteq> identity then (Err ExistingSegmentMismatch, d) else (Ok (), d))))))))"

definition publish_generated ::
  "'d crc_alg \<Rightarrow> segment_address \<Rightarrow> zms_temp \<Rightarrow> write_summary \<Rightarrow> disk \<Rightarrow> (write_error + write_summary) \<times> disk" where
  "publish_generated A a temporary summary d =
     then_out (or_drop temporary (err_out WriteLayout (try_clone_file temporary d))) (\<lambda>(generated, temporary) d.
     then_out (or_drop temporary (map_err WriteIo (validate_segment A (view_file d generated) summary), d)) (\<lambda>valid d.
     if \<not> valid then or_drop temporary (Err GeneratedSegmentInvalid, d)
     else
       (case publish temporary d of
          (Ok _, d) \<Rightarrow> (Ok summary, d)
        | (Err e, d) \<Rightarrow>
            (case e of
               SegmentAlreadyExists _ \<Rightarrow>
                 then_out (or_drop temporary (check_existing A a generated summary d)) (\<lambda>_ d.
                 then_out (err_out WriteLayout (discard temporary d)) (\<lambda>_ d. (Ok summary, d)))
             | _ \<Rightarrow> or_drop temporary (Err (WriteLayout e), d)))))"

definition check_destination :: "journal \<Rightarrow> segment_address \<Rightarrow> write_error + unit" where
  "check_destination j a =
     (case j_segment_id j of
        None \<Rightarrow> Ok ()
      | Some sid \<Rightarrow> if sid \<noteq> addr_id a then Err (DestinationMismatch sid (addr_id a)) else Ok ())"

definition write_segment ::
  "'d crc_alg \<Rightarrow> codec \<Rightarrow> stream_faults \<Rightarrow> journal \<Rightarrow> segment_address \<Rightarrow> disk \<Rightarrow> (write_error + write_summary) \<times> disk" where
  "write_segment A cd flt j a d =
     (if journal_is_empty j then (Err WriteEmpty, d)
      else then_out (check_destination j a, d) (\<lambda>_ d.
        then_out (err_out WriteLayout (create_zms_temp a d)) (\<lambda>temporary d.
        then_out (or_drop temporary (err_out WriteLayout (create_zms_temp a d))) (\<lambda>spool d.
        then_out (or_drop temporary (or_drop spool (write_tmp A cd flt j temporary spool d))) (\<lambda>summary d.
        then_out (or_drop temporary (err_out WriteLayout (discard spool d))) (\<lambda>_ d.
          publish_generated A a temporary summary d))))))"

end
