(* ===== verification/Segment_Merge.thy ===== *)
theory Segment_Merge
  imports Segment_Dictionary
begin

text \<open>
  The merged dictionary of a finished segment: its counters are the rows and bytes it holds, they stay
  within the caps of a section, every identifier fits its value, and a merge that succeeds holds
  exactly the values of all the sections it read.
\<close>

section \<open>The invariant\<close>

definition value_fits :: "hashes \<Rightarrow> str_id \<Rightarrow> dictionary_value \<Rightarrow> bool" where
  "value_fits h i v =
     (case v of
        DictString bs \<Rightarrow> StrId_of h bs = Some i
      | DictBlob bs full_len truncated sha \<Rightarrow> valid_blob h i bs full_len truncated sha)"

abbreviation rows_if :: "(dictionary_value \<Rightarrow> bool) \<Rightarrow> (str_id, dictionary_value) omap \<Rightarrow> nat" where
  "rows_if p \<equiv> om_sum (\<lambda>i v. of_bool (p v))"

abbreviation bytes_if :: "(dictionary_value \<Rightarrow> bool) \<Rightarrow> (str_id, dictionary_value) omap \<Rightarrow> nat" where
  "bytes_if p \<equiv> om_sum (\<lambda>i v. if p v then length (dv_bytes v) else 0)"

definition dictionary_ok :: "hashes \<Rightarrow> finished_dictionary \<Rightarrow> bool" where
  "dictionary_ok h fd \<longleftrightarrow>
     om_valid (fd_values fd) \<and>
     string_rows fd = rows_if is_string_value (fd_values fd) \<and>
     blob_rows fd = rows_if (Not \<circ> is_string_value) (fd_values fd) \<and>
     fd_string_bytes fd = bytes_if is_string_value (fd_values fd) \<and>
     fd_blob_bytes fd = bytes_if (Not \<circ> is_string_value) (fd_values fd) \<and>
     string_rows fd \<le> MAX_SECTION_ROWS \<and> blob_rows fd \<le> MAX_SECTION_ROWS \<and>
     fd_string_bytes fd \<le> MAX_SECTION_BYTES \<and> fd_blob_bytes fd \<le> MAX_SECTION_BYTES \<and>
     (\<forall>(i, v) \<in> set (fd_values fd). value_fits h i v)"

lemma empty_dictionary_ok [simp]: "dictionary_ok h empty_dictionary"
  by (simp add: dictionary_ok_def empty_dictionary_def)

text \<open>The keys of an ordered map are distinct, so its entries are a set of pairs.\<close>

lemma om_set_insert_new:
  fixes m :: "('a :: linorder, 'b) omap"
  assumes "om_valid m" and "map_of m k = None"
  shows "set (om_insert k v m) = insert (k, v) (set m)"
proof (rule set_eqI)
  fix x :: "'a \<times> 'b"
  obtain a b where x: "x = (a, b)" by (cases x)
  show "x \<in> set (om_insert k v m) \<longleftrightarrow> x \<in> insert (k, v) (set m)"
    using assms om_iter_get [OF om_valid_insert [OF assms(1)], of a b k v] om_iter_get [OF assms(1), of a b]
    by (auto simp: x om_get_insert)
qed

section \<open>One value\<close>

text \<open>The value is in the dictionary afterwards, nothing else changed.\<close>

definition inserted :: "hashes \<Rightarrow> (str_id \<times> dictionary_value) set \<Rightarrow> finished_dictionary \<Rightarrow> finished_dictionary \<Rightarrow> bool" where
  "inserted h vs fd fd' \<longleftrightarrow>
     (dictionary_ok h fd \<longrightarrow> dictionary_ok h fd' \<and> set (fd_values fd') = set (fd_values fd) \<union> vs)"

lemma inserted_none [simp]: "inserted h {} fd fd"
  by (simp add: inserted_def)

lemma inserted_trans: "inserted h us fd fd' \<Longrightarrow> inserted h vs fd' fd'' \<Longrightarrow> inserted h (us \<union> vs) fd fd''"
  by (auto simp: inserted_def)

lemma insert_value_cases:
  assumes "insert_value i v fd = Ok fd'"
  obtains "map_of (fd_values fd) i = Some v" and "fd' = fd"
  | "map_of (fd_values fd) i = None" and "fd_values fd' = om_insert i v (fd_values fd)"
    and "string_rows fd' = string_rows fd + of_bool (is_string_value v)"
    and "blob_rows fd' = blob_rows fd + of_bool (\<not> is_string_value v)"
    and "fd_string_bytes fd' = fd_string_bytes fd + (if is_string_value v then length (dv_bytes v) else 0)"
    and "fd_blob_bytes fd' = fd_blob_bytes fd + (if is_string_value v then 0 else length (dv_bytes v))"
    and "is_string_value v \<longrightarrow> string_rows fd' \<le> MAX_SECTION_ROWS \<and> fd_string_bytes fd' \<le> MAX_SECTION_BYTES"
    and "\<not> is_string_value v \<longrightarrow> blob_rows fd' \<le> MAX_SECTION_ROWS \<and> fd_blob_bytes fd' \<le> MAX_SECTION_BYTES"
  using assms
  by (cases "is_string_value v")
    (auto simp: insert_value_def and_then_Ok_iff Let_def split: option.splits if_splits)

lemma insert_value_inserted:
  assumes "insert_value i v fd = Ok fd'" and "value_fits h i v"
  shows "inserted h {(i, v)} fd fd'"
  unfolding inserted_def
proof
  assume ok: "dictionary_ok h fd"
  then have valid: "om_valid (fd_values fd)" by (simp add: dictionary_ok_def)
  from assms(1) show "dictionary_ok h fd' \<and> set (fd_values fd') = set (fd_values fd) \<union> {(i, v)}"
  proof (cases rule: insert_value_cases)
    case 1
    then have "(i, v) \<in> set (fd_values fd)" using om_iter_get [OF valid] by blast
    then show ?thesis using ok 1 by auto
  next
    case 2
    note set = om_set_insert_new [OF valid 2(1), of v]
    show ?thesis
      using ok assms(2) set 2(7,8)
      by (cases "is_string_value v")
        (simp_all add: dictionary_ok_def 2(2-6) om_valid_insert om_sum_insert_new 2(1))
  qed
qed

text \<open>A different value for a known identifier is a conflict; the borrowed insert agrees with the owning ones.\<close>

lemma insert_value_conflict:
  "map_of (fd_values fd) i = Some u \<Longrightarrow> u \<noteq> v \<Longrightarrow> insert_value i v fd = Err (DictionaryConflict i)"
  by (simp add: insert_value_def)

lemma finished_insert_owned:
  "finished_insert h i r fd =
     (case r of
        ResolvedStr bs \<Rightarrow> insert_owned_string h i bs fd
      | ResolvedBlob b \<Rightarrow>
          if be_str_id b \<noteq> i then Err (Codec SchemaMismatch)
          else insert_owned_blob h i (be_stored_bytes b) (of_nat (be_full_len b)) (be_truncated b) (be_full_sha256 b) fd)"
  by (auto simp: finished_insert_def insert_owned_string_def insert_owned_blob_def insert_value_def
      split: resolved.split option.split dictionary_value.split)

section \<open>The rows of a section\<close>

text \<open>Reference definitions: the values of the rows that a body's reader reports.\<close>

definition u64_cells :: "dict_batch \<Rightarrow> string \<Rightarrow> u64 list" where
  "u64_cells b name = (case map_of (db_columns b) name of Some (U64Column xs) \<Rightarrow> map the xs | _ \<Rightarrow> [])"

definition binary_cells :: "dict_batch \<Rightarrow> string \<Rightarrow> bytes list" where
  "binary_cells b name = (case map_of (db_columns b) name of Some (BinaryColumn xs) \<Rightarrow> map the xs | _ \<Rightarrow> [])"

definition bool_cells :: "dict_batch \<Rightarrow> string \<Rightarrow> bool list" where
  "bool_cells b name = (case map_of (db_columns b) name of Some (BoolColumn xs) \<Rightarrow> map the xs | _ \<Rightarrow> [])"

definition fixed_cells :: "dict_batch \<Rightarrow> string \<Rightarrow> bytes option list" where
  "fixed_cells b name = (case map_of (db_columns b) name of Some (FixedColumn xs) \<Rightarrow> xs | _ \<Rightarrow> [])"

definition batch_values :: "bool \<Rightarrow> dict_batch \<Rightarrow> (str_id \<times> dictionary_value) list" where
  "batch_values blob b =
     (let ids = u64_cells b ''str_id'' in
      if blob then
        map (\<lambda>(i, bs, n, tr, sha). (i, DictBlob bs n tr sha))
          (take (db_num_rows b) (zip ids (zip (binary_cells b ''stored_bytes'') (zip (u64_cells b ''full_len'')
            (zip (bool_cells b ''truncated'') (fixed_cells b ''full_sha256''))))))
      else
        map (\<lambda>(i, bs). (i, DictString bs)) (take (db_num_rows b) (zip ids (binary_cells b ''bytes''))))"

definition body_values :: "bool \<Rightarrow> parquet_body \<Rightarrow> (str_id \<times> dictionary_value) list" where
  "body_values blob pq = concat (map (\<lambda>b. case b of Ok b \<Rightarrow> batch_values blob b | Err _ \<Rightarrow> []) (pq_batches pq))"

definition section_values ::
  "'d crc_alg \<Rightarrow> (bytes \<Rightarrow> codec_error + parquet_body) \<Rightarrow> journal \<Rightarrow> section_descriptor \<Rightarrow> (str_id \<times> dictionary_value) list" where
  "section_values A reader j d =
     (case read_verified_body A j d of
        Err _ \<Rightarrow> []
      | Ok bs \<Rightarrow>
          (case reader bs of
             Err _ \<Rightarrow> []
           | Ok pq \<Rightarrow> body_values (e_type_id (sd_entry d) = DICT_BLOBS_TYPE_ID) pq))"

lemma required_cells:
  "required_u64 b name = Ok us \<Longrightarrow> u64_cells b name = us"
  "required_binary b name = Ok bs \<Longrightarrow> binary_cells b name = bs"
  "required_bool b name = Ok ts \<Longrightarrow> bool_cells b name = ts"
  "fixed_binary b name = Ok fs \<Longrightarrow> fixed_cells b name = fs"
  by (auto simp: required_u64_def required_binary_def required_bool_def fixed_binary_def reject_nulls_def
      u64_cells_def binary_cells_def bool_cells_def fixed_cells_def split: option.splits arrow_column.splits if_splits)

lemma ordered_str_id_Ok: "ordered_str_id raw previous = Ok i \<Longrightarrow> i = raw"
  by (auto simp: ordered_str_id_def and_then_Ok_iff StrId_from_raw_def split: if_splits)

lemma insert_strings_inserted:
  "insert_strings h rows previous fd = Ok (p, fd') \<Longrightarrow>
     inserted h (set (map (\<lambda>(i, bs). (i, DictString bs)) rows)) fd fd'"
proof (induction h rows previous fd arbitrary: rule: insert_strings.induct)
  case (2 h raw bs rows previous fd)
  from "2.prems" obtain fd1 where "ordered_str_id raw previous = Ok raw" "StrId_of h bs = Some raw"
    and v: "insert_value raw (DictString bs) fd = Ok fd1" and r: "insert_strings h rows raw fd1 = Ok (p, fd')"
    by (auto simp: and_then_Ok_iff dest: ordered_str_id_Ok split: if_splits)
  then have "inserted h (set (map (\<lambda>(i, bs). (i, DictString bs)) rows)) fd1 fd'"
    using "2.IH" [of raw fd1] by simp
  moreover have "inserted h {(raw, DictString bs)} fd fd1"
    using \<open>StrId_of h bs = Some raw\<close> by (intro insert_value_inserted [OF v]) (simp add: value_fits_def)
  ultimately show ?case using inserted_trans by fastforce
qed simp

lemma sha_of_Ok: "sha_of x = Ok y \<Longrightarrow> y = x"
  by (auto simp: sha_of_def split: option.splits if_splits)

lemma insert_blobs_inserted:
  "insert_blobs h rows previous fd = Ok (p, fd') \<Longrightarrow>
     inserted h (set (map (\<lambda>(i, bs, n, tr, sha). (i, DictBlob bs n tr sha)) rows)) fd fd'"
proof (induction h rows previous fd arbitrary: rule: insert_blobs.induct)
  case (2 h raw bs n tr sha rows previous fd)
  from "2.prems" obtain fd1 where o: "ordered_str_id raw previous = Ok raw" and s: "sha_of sha = Ok sha"
    and f: "valid_blob h raw bs n tr sha"
    and v: "insert_value raw (DictBlob bs n tr sha) fd = Ok fd1" and r: "insert_blobs h rows raw fd1 = Ok (p, fd')"
    by (auto simp: and_then_Ok_iff dest!: ordered_str_id_Ok sha_of_Ok split: if_splits)
  then have "inserted h (set (map (\<lambda>(i, bs, n, tr, sha). (i, DictBlob bs n tr sha)) rows)) fd1 fd'"
    using "2.IH" [of raw sha fd1] by simp
  moreover have "inserted h {(raw, DictBlob bs n tr sha)} fd fd1"
    using f by (intro insert_value_inserted [OF v]) (simp add: value_fits_def)
  ultimately show ?case using inserted_trans by fastforce
qed simp

lemma insert_batch_inserted:
  assumes "insert_batch h blob b previous fd = Ok (p, fd')"
  shows "inserted h (set (batch_values blob b)) fd fd'"
proof (cases blob)
  case True
  with assms obtain ids bs ns ts ss where c: "required_u64 b ''str_id'' = Ok ids" "required_binary b ''stored_bytes'' = Ok bs"
    "required_u64 b ''full_len'' = Ok ns" "required_bool b ''truncated'' = Ok ts" "fixed_binary b ''full_sha256'' = Ok ss"
    and r: "insert_blobs h (take (db_num_rows b) (zip ids (zip bs (zip ns (zip ts ss))))) previous fd = Ok (p, fd')"
    by (auto simp: insert_batch_def and_then_Ok_iff)
  from insert_blobs_inserted [OF r] show ?thesis
    by (simp add: batch_values_def True required_cells(1) [OF c(1)] required_cells(2) [OF c(2)] required_cells(1) [OF c(3)]
        required_cells(3) [OF c(4)] required_cells(4) [OF c(5)])
next
  case False
  with assms obtain ids bs where c: "required_u64 b ''str_id'' = Ok ids" "required_binary b ''bytes'' = Ok bs"
    and r: "insert_strings h (take (db_num_rows b) (zip ids bs)) previous fd = Ok (p, fd')"
    by (auto simp: insert_batch_def and_then_Ok_iff)
  from insert_strings_inserted [OF r] show ?thesis
    by (simp add: batch_values_def False required_cells(1) [OF c(1)] required_cells(2) [OF c(2)])
qed

lemma insert_batches_inserted:
  "insert_batches h blob bs previous rows fd = Ok (n, fd') \<Longrightarrow>
     inserted h (set (concat (map (\<lambda>b. case b of Ok b \<Rightarrow> batch_values blob b | Err _ \<Rightarrow> []) bs))) fd fd'"
proof (induction h blob bs previous rows fd arbitrary: rule: insert_batches.induct)
  case (2 h blob b bs previous rows fd)
  from "2.prems" obtain b' m p fd1 where b: "b = Ok b'" and i: "insert_batch h blob b' previous fd = Ok (p, fd1)"
    and m: "rows + db_num_rows b' = m" and r: "insert_batches h blob bs p m fd1 = Ok (n, fd')"
    by (auto simp: and_then_Ok_iff)
  have "inserted h (set (concat (map (\<lambda>b. case b of Ok b \<Rightarrow> batch_values blob b | Err _ \<Rightarrow> []) bs))) fd1 fd'"
    using "2.IH" r i b m by blast
  from inserted_trans [OF insert_batch_inserted [OF i] this] show ?case by (simp add: b)
qed simp

lemma decode_dictionary_body_inserted:
  assumes "decode_dictionary_body A h preflight reader j d fd = Ok fd'"
  shows "inserted h (set (section_values A reader j d)) fd fd'"
proof -
  let ?blob = "e_type_id (sd_entry d) = DICT_BLOBS_TYPE_ID"
  from assms obtain bs pq n where "read_verified_body A j d = Ok bs" "reader bs = Ok pq"
    and "insert_batches h ?blob (pq_batches pq) 0 0 fd = Ok (n, fd')"
    by (auto simp: decode_dictionary_body_def and_then_Ok_iff Let_def split: if_splits)
  then show ?thesis
    by (auto simp: section_values_def body_values_def dest: insert_batches_inserted)
qed

lemma decode_dictionaries_inserted:
  "decode_dictionaries A h preflight reader j ds fd = Ok fd' \<Longrightarrow>
     inserted h (\<Union>d \<in> set ds. set (section_values A reader j d)) fd fd'"
  by (induction ds arbitrary: fd)
    (auto simp: and_then_Ok_iff intro: inserted_trans dest!: decode_dictionary_body_inserted)

end
