(* ===== verification/Segment_Bodies.thy ===== *)
theory Segment_Bodies
  imports Segment_Write Segment_Merge
begin

text \<open>
  The bodies of the spooled sections. The meaning of a data encoder is the bytes it writes when every
  read answers the body of the section it asks for; the meaning of the dictionary pair is what the
  Parquet encoder writes for the merged values of each placement. The spool is shown to hold exactly these,
  at the offsets that its descriptors name, whatever calls fail before it is complete.
\<close>

section \<open>The meaning of the encoders\<close>

text \<open>What a data encoder writes over given bodies, when it writes all of it.\<close>

primrec encoded :: "bytes list \<Rightarrow> encoder \<Rightarrow> bytes option" where
  "encoded bodies (EncRead i k) = (if i < length bodies then encoded bodies (k (bodies ! i)) else None)"
| "encoded bodies (EncWrite bs k) = map_option ((@) bs) (encoded bodies k)"
| "encoded bodies (EncFail e) = None"
| "encoded bodies EncDone = Some []"

text \<open>The entries of the dictionary that a dictionary type stores, and a map that merges the values of bodies.\<close>

definition is_dictionary_type :: "u32 \<Rightarrow> bool" where
  "is_dictionary_type t \<longleftrightarrow> t = DICT_STRINGS_TYPE_ID \<or> t = DICT_BLOBS_TYPE_ID"

definition dict_entries :: "u32 \<Rightarrow> (str_id, dictionary_value) omap \<Rightarrow> entry_snapshot list" where
  "dict_entries t m = map final_snapshot (filter (\<lambda>(i, v). is_string_value v \<longleftrightarrow> t = DICT_STRINGS_TYPE_ID) m)"

definition read_values :: "codec \<Rightarrow> u32 \<Rightarrow> bytes \<Rightarrow> (str_id \<times> dictionary_value) list" where
  "read_values cd t body =
     (case cd_reader cd body of Err _ \<Rightarrow> [] | Ok pq \<Rightarrow> body_values (t = DICT_BLOBS_TYPE_ID) pq)"

definition wholly_read :: "codec \<Rightarrow> bytes \<Rightarrow> bool" where
  "wholly_read cd body \<longleftrightarrow>
     (case cd_reader cd body of Err _ \<Rightarrow> False | Ok pq \<Rightarrow> list_all is_ok (pq_batches pq))"

definition merges :: "codec \<Rightarrow> bytes list \<Rightarrow> bytes list \<Rightarrow> (str_id, dictionary_value) omap \<Rightarrow> bool" where
  "merges cd strings blobs m \<longleftrightarrow>
     om_valid m \<and> list_all (wholly_read cd) (strings @ blobs) \<and>
     set m = (\<Union>b \<in> set strings. set (read_values cd DICT_STRINGS_TYPE_ID b)) \<union>
       (\<Union>b \<in> set blobs. set (read_values cd DICT_BLOBS_TYPE_ID b)) \<and>
     (\<forall>(i, v) \<in> set m. value_fits (cd_hashes cd) i v)"

text \<open>
  A section of a type with its rows and body, over the sections of every type that went in, each
  with its rows and body, and the merged dictionary.
\<close>

type_synonym sections_of_type = "u32 \<Rightarrow> (u32 \<times> bytes) list"

definition rows_of :: "(u32 \<times> bytes) list \<Rightarrow> nat" where
  "rows_of xs = (\<Sum>(n, b) \<leftarrow> xs. unat n)"

definition section_made ::
  "codec \<Rightarrow> sections_of_type \<Rightarrow> (str_id, dictionary_value) omap \<Rightarrow> u32 \<times> nat \<times> bytes \<Rightarrow> bool" where
  "section_made cd inputs m = (\<lambda>(t, rows, body).
     if is_dictionary_type t then
       dict_entries t m \<noteq> [] \<and> rows = length (dict_entries t m) \<and>
       pw_error (cd_parquet cd t (dict_entries t m)) = None \<and>
       body = concat (pw_writes (cd_parquet cd t (dict_entries t m)))
     else
       inputs t \<noteq> [] \<and> rows = rows_of (inputs t) \<and>
       encoded (map snd (inputs t)) (cd_encode cd t (map fst (inputs t))) = Some body)"

text \<open>
  All sections that a set of inputs calls for: one for every data type with an input, one for every
  dictionary type with an entry, each with exactly its content.
\<close>

definition sections_made :: "codec \<Rightarrow> sections_of_type \<Rightarrow> (u32 \<times> nat \<times> bytes) list \<Rightarrow> bool" where
  "sections_made cd inputs xs \<longleftrightarrow>
     (\<exists>m. merges cd (map snd (inputs DICT_STRINGS_TYPE_ID)) (map snd (inputs DICT_BLOBS_TYPE_ID)) m \<and>
        list_all (section_made cd inputs m) xs \<and>
        (\<forall>t. t \<in> fst ` set xs \<longleftrightarrow>
           (if is_dictionary_type t then dict_entries t m \<noteq> [] else inputs t \<noteq> [])))"

lemma sections_made_set: "sections_made cd inputs xs \<Longrightarrow> set xs = set ys \<Longrightarrow> sections_made cd inputs ys"
  by (simp add: sections_made_def list_all_iff)

section \<open>Reading a section\<close>

text \<open>The bytes of a section in the journal file; every successful read returns them.\<close>

definition descriptor_body :: "journal \<Rightarrow> section_descriptor \<Rightarrow> bytes" where
  "descriptor_body j d =
     slice_of (p_offset (r_part (sd_part d)) + unat (e_offset (sd_entry d))) (unat (e_len (sd_entry d))) (content (j_file j))"

lemma read_section_body_Ok: "read_section_body j d = Ok bs \<Longrightarrow> bs = descriptor_body j d"
  unfolding read_section_body_def read_part_range_def descriptor_body_def map_err_Ok_iff and_then_Ok_iff
  by (auto simp: and_then_Ok_iff split: if_splits option.splits dest!: file_read_exact_at_Ok(1))

lemma read_verified_body_Ok: "read_verified_body A j d = Ok bs \<Longrightarrow> bs = descriptor_body j d"
  by (auto simp: read_verified_body_def and_then_Ok_iff VerifiedSection_verify_def Let_def read_section_body_Ok split: if_splits)

lemma open_section_Ok:
  "open_section A j ds i verified = Ok (bs, verified') \<Longrightarrow> i < length ds \<and> bs = descriptor_body j (ds ! i)"
  by (auto simp: open_section_def and_then_Ok_iff dest: read_section_body_Ok read_verified_body_Ok split: if_splits)

section \<open>The data encoder\<close>

lemma sink_write_Ok:
  assumes "sink_write A bs s out = (Ok s', out')"
  shows "written out' = written out @ bs" and "unat (sk_len s') = unat (sk_len s) + length bs"
  using assms
  by (auto simp: sink_write_def then_out_Ok unat_of_nat_u64 simp del: of_nat_add dest: out_write_all_Ok)

lemma run_encoder_Ok:
  "run_encoder A j ds enc verified s out = (Ok s', out') \<Longrightarrow>
     \<exists>w. encoded (map (descriptor_body j) ds) enc = Some w \<and> written out' = written out @ w \<and>
       unat (sk_len s') = unat (sk_len s) + length w"
proof (induction enc arbitrary: verified s out)
  case (EncRead i k)
  from EncRead.prems obtain bs v' where o: "open_section A j ds i verified = Ok (bs, v')"
    and r: "run_encoder A j ds (k bs) v' s out = (Ok s', out')"
    by (auto split: sum.splits)
  from EncRead.IH [OF _ r] open_section_Ok [OF o] show ?case by simp
next
  case (EncWrite bs k)
  from EncWrite.prems obtain s1 out1 where w: "sink_write A bs s out = (Ok s1, out1)"
    and r: "run_encoder A j ds k verified s1 out1 = (Ok s', out')"
    by (auto simp: then_out_Ok err_out_Ok)
  from EncWrite.IH [OF r] sink_write_Ok [OF w] show ?case by fastforce
qed simp_all

lemma run_writes_Ok:
  "run_writes A ws s out = (Ok s', out') \<Longrightarrow>
     written out' = written out @ concat ws \<and> unat (sk_len s') = unat (sk_len s) + length (concat ws)"
proof (induction A ws s out rule: run_writes.induct)
  case (2 A bs ws s out)
  from "2.prems" obtain s1 out1 where w: "sink_write A bs s out = (Ok s1, out1)"
    and r: "run_writes A ws s1 out1 = (Ok s', out')"
    by (auto simp: then_out_Ok err_out_Ok)
  from "2.IH" [OF r] sink_write_Ok [OF w] show ?case by simp
qed simp

section \<open>One spooled section\<close>

lemma FinishedSection_new_Ok:
  assumes "FinishedSection_new t rows off len crc = Ok s"
  shows "constructed s" and "fs_type_id s = t" and "fs_rows s = rows" and "fs_offset s = off" and "fs_len s = len"
proof -
  have s: "s = \<lparr>fs_type_id = t, fs_rows = rows, fs_offset = off, fs_len = len, fs_crc32c = crc\<rparr>"
    using assms by (auto simp: FinishedSection_new_def and_then_Ok_iff split: if_splits)
  then show "constructed s" "fs_type_id s = t" "fs_rows s = rows" "fs_offset s = off" "fs_len s = len"
    using assms by (simp_all add: constructed_def)
qed

text \<open>A section of the spool: its type, its rows and its bytes in the file.\<close>

definition in_spool :: "bytes \<Rightarrow> finished_section \<Rightarrow> u32 \<times> nat \<times> bytes" where
  "in_spool c s = (fs_type_id s, unat (fs_rows s), slice_of (unat (fs_offset s)) (unat (fs_len s)) c)"

lemma slice_of_middle: "slice_of (length xs) (length ys) (xs @ ys @ zs) = ys"
  by (simp add: slice_of_def)

lemma in_spool_new:
  assumes "FinishedSection_new t rows off len crc = Ok s" and "unat off = length xs" and "unat len = length ys"
  shows "in_spool (xs @ ys @ zs) s = (t, unat rows, ys)"
  by (simp add: in_spool_def FinishedSection_new_Ok [OF assms(1)] assms(2,3) slice_of_middle)

lemma sum_rows_Ok: "sum_rows ds n = Ok m \<Longrightarrow> m = n + rows_of (map (\<lambda>d. (e_rows (sd_entry d), g d)) ds)"
proof (induction ds arbitrary: n)
  case (Cons d ds)
  from Cons.prems have "sum_rows ds (n + unat (e_rows (sd_entry d))) = Ok m" by (simp add: and_then_Ok_iff)
  from Cons.IH [OF this] show ?case by (simp add: rows_of_def)
qed (simp add: rows_of_def)

text \<open>The sections of a list of descriptors, as inputs of an encoder.\<close>

definition described :: "journal \<Rightarrow> section_descriptor list \<Rightarrow> (u32 \<times> bytes) list" where
  "described j ds = map (\<lambda>d. (e_rows (sd_entry d), descriptor_body j d)) ds"

lemma described_parts: "map fst (described j ds) = map (e_rows \<circ> sd_entry) ds"
  "map snd (described j ds) = map (descriptor_body j) ds" "described j ds = [] \<longleftrightarrow> ds = []"
  by (simp_all add: described_def)

definition data_section :: "codec \<Rightarrow> journal \<Rightarrow> u32 \<times> section_descriptor list \<Rightarrow> u32 \<times> nat \<times> bytes \<Rightarrow> bool" where
  "data_section cd j = (\<lambda>(t, ds) (t', rows, body). t' = t \<and> ds \<noteq> [] \<and> rows = rows_of (described j ds) \<and>
     encoded (map snd (described j ds)) (cd_encode cd t (map fst (described j ds))) = Some body)"

lemma spool_data_section_Ok:
  assumes run: "spool_data_section A (cd_encode cd) j t ds off out = (Ok s, out')" and off: "unat off = length (written out)"
  shows "constructed s \<and> (\<exists>w. written out' = written out @ w \<and> unat (fs_len s) = length w \<and> fs_offset s = off \<and>
    (\<forall>zs. data_section cd j (t, ds) (in_spool (written out @ w @ zs) s)))"
proof -
  from run obtain n sk rows where n: "aggregate_rows t ds = Ok n" and rows: "u32_try_from n = Some rows"
    and enc: "run_encoder A j ds (cd_encode cd t (map (e_rows \<circ> sd_entry) ds)) (replicate (length ds) False)
        (SectionSink_new A) out = (Ok sk, out')"
    and s: "FinishedSection_new t rows off (sk_len sk) (Crc32c_finalize A (sk_checksum sk)) = Ok s"
    by (auto simp: spool_data_section_def then_out_Ok Let_def sink_finish_def)
  from run_encoder_Ok [OF enc] obtain w where w: "encoded (map (descriptor_body j) ds) (cd_encode cd t (map (e_rows \<circ> sd_entry) ds)) = Some w"
    "written out' = written out @ w" "unat (sk_len sk) = length w"
    by (auto simp: SectionSink_new_def)
  have "sum_rows ds 0 = Ok n"
    using n by (auto simp: aggregate_rows_def and_then_Ok_iff split: if_splits)
  from sum_rows_Ok [OF this, of "descriptor_body j"] rows have u: "unat rows = rows_of (described j ds)"
    by (simp add: described_def)
  note facts = FinishedSection_new_Ok [OF s]
  have "fs_rows s \<noteq> 0" using constructed_facts(1) [OF facts(1)] .
  then have "ds \<noteq> []" using u facts(3) by (auto simp: described_def rows_of_def unat_eq_zero)
  then show ?thesis
    using facts w u in_spool_new [OF s off w(3)] by (auto simp: data_section_def described_parts)
qed

lemma spool_types_Ok:
  assumes "spool_types A cd j types off out = (Ok (ss, off'), out')" and "unat off = length (written out)"
  shows "unat off' = length (written out') \<and> list_all constructed ss \<and>
    (\<exists>w. written out' = written out @ w \<and>
       (\<forall>zs. list_all2 (data_section cd j) types (map (in_spool (written out @ w @ zs)) ss)))"
  using assms
proof (induction A cd j types off out arbitrary: ss off' out' rule: spool_types.induct)
  case (2 A cd j t ds types off out)
  from "2.prems"(1) obtain s out1 off1 ss' where s: "spool_data_section A (cd_encode cd) j t ds off out = (Ok s, out1)"
    and o1: "checked_add_word off (fs_len s) = Some off1"
    and r: "spool_types A cd j types off1 out1 = (Ok (ss', off'), out')" and ss: "ss = s # ss'"
    by (auto simp: then_out_Ok)
  from spool_data_section_Ok [OF s "2.prems"(2)] obtain w where con: "constructed s"
    and w: "written out1 = written out @ w" "unat (fs_len s) = length w"
      "\<And>zs. data_section cd j (t, ds) (in_spool (written out @ w @ zs) s)" by blast
  have "unat off1 = length (written out1)" using checked_add_word_Some [OF o1] "2.prems"(2) w by simp
  from "2.IH" [OF r this] obtain w' where r': "unat off' = length (written out')" "list_all constructed ss'"
    "written out' = written out @ w @ w'"
    "\<And>zs. list_all2 (data_section cd j) types (map (in_spool (written out @ w @ w' @ zs)) ss')"
    by (auto simp: w(1))
  show ?case
    using con r' w(3) by (intro conjI exI [of _ "w @ w'"]) (simp_all add: ss)
qed simp

section \<open>The dictionary pair\<close>

lemma write_final_dictionary_Ok:
  assumes run: "write_final_dictionary A pq t es out = (Ok w, out')"
  shows "wd_type_id w = t \<and> unat (wd_rows w) = length es \<and> pw_error (pq t es) = None \<and>
    written out' = written out @ concat (pw_writes (pq t es)) \<and> unat (wd_len w) = length (concat (pw_writes (pq t es)))"
proof -
  from run obtain sk where e: "run_writes A (pw_writes (pq t es)) (SectionSink_new A) out = (Ok sk, out')"
    and n: "check_dict_rows (length es) = Ok ()" and err: "pw_error (pq t es) = None"
    and w: "w = \<lparr>wd_type_id = t, wd_rows = (case u32_try_from (length es) of Some n \<Rightarrow> n | None \<Rightarrow> - 1),
           wd_len = sk_len sk, wd_crc32c = Crc32c_finalize A (sk_checksum sk)\<rparr>"
    by (auto simp: write_final_dictionary_def then_out_Ok Let_def sink_finish_def split: if_splits option.splits)
  have "length es < 2 ^ 32" using n by (auto simp: check_dict_rows_def MAX_SECTION_ROWS_def split: if_splits)
  then have "(case u32_try_from (length es) of Some n \<Rightarrow> n | None \<Rightarrow> - 1) = of_nat (length es)"
    "unat (of_nat (length es) :: u32) = length es"
    by (simp_all add: u32_try_from_def unat_of_nat)
  then show ?thesis using run_writes_Ok [OF e] err by (simp add: w SectionSink_new_def)
qed

lemma final_placement [simp]: "es_placement (final_snapshot (i, v)) = placement.Strings \<longleftrightarrow> is_string_value v"
  by (cases v) (simp_all add: final_snapshot_def is_string_value_def)

lemma final_str_id [simp]: "es_str_id (final_snapshot (i, v)) = i"
  by (cases v) (simp_all add: final_snapshot_def)

text \<open>The entries of an ordered map are sorted already.\<close>

lemma dict_entries_sorted:
  assumes "om_valid m"
  shows "sort_key (\<lambda>e. unat (es_str_id e)) (map final_snapshot (filter p m)) = map final_snapshot (filter p m)"
proof (rule sort_key_id_if_sorted)
  have "sorted_wrt (<) (map fst (filter p m))"
    using assms sorted_wrt_filter by (auto simp: om_valid_def sorted_wrt_map)
  then show "sorted (map (\<lambda>e. unat (es_str_id e)) (map final_snapshot (filter p m)))"
    by (auto simp: sorted_wrt_map split_beta word_less_nat_alt intro: sorted_wrt_mono_rel [rotated])
qed

lemma dict_entries_by_id:
  assumes "om_valid m"
  shows "sort_key (\<lambda>e. unat (es_str_id e)) (filter (\<lambda>e. es_placement e = placement.Strings) (map final_snapshot m)) =
      dict_entries DICT_STRINGS_TYPE_ID m"
    and "sort_key (\<lambda>e. unat (es_str_id e)) (filter (\<lambda>e. es_placement e \<noteq> placement.Strings) (map final_snapshot m)) =
      dict_entries DICT_BLOBS_TYPE_ID m"
proof -
  have s: "(\<lambda>e. es_placement e = placement.Strings) \<circ> final_snapshot = (\<lambda>(i, v). is_string_value v)"
    "(\<lambda>e. es_placement e \<noteq> placement.Strings) \<circ> final_snapshot = (\<lambda>(i, v). \<not> is_string_value v)"
    by (auto simp: fun_eq_iff)
  show "sort_key (\<lambda>e. unat (es_str_id e)) (filter (\<lambda>e. es_placement e = placement.Strings) (map final_snapshot m)) =
      dict_entries DICT_STRINGS_TYPE_ID m"
    unfolding filter_map s dict_entries_sorted [OF assms] by (simp add: dict_entries_def)
  show "sort_key (\<lambda>e. unat (es_str_id e)) (filter (\<lambda>e. es_placement e \<noteq> placement.Strings) (map final_snapshot m)) =
      dict_entries DICT_BLOBS_TYPE_ID m"
    unfolding filter_map s dict_entries_sorted [OF assms]
    by (simp add: dict_entries_def DICT_BLOBS_TYPE_ID_def DICT_STRINGS_TYPE_ID_def)
qed

text \<open>The dictionary types with entries, and what the Parquet encoder writes for one.\<close>

definition dict_types :: "(str_id, dictionary_value) omap \<Rightarrow> u32 list" where
  "dict_types m = filter (\<lambda>t. dict_entries t m \<noteq> []) [DICT_STRINGS_TYPE_ID, DICT_BLOBS_TYPE_ID]"

definition dict_body :: "codec \<Rightarrow> (str_id, dictionary_value) omap \<Rightarrow> u32 \<Rightarrow> bytes" where
  "dict_body cd m t = concat (pw_writes (cd_parquet cd t (dict_entries t m)))"

lemma encode_final_entries_Ok:
  assumes run: "encode_final_entries_to A (cd_parquet cd) (map final_snapshot m) out = (Ok ws, out')" and m: "om_valid m"
  shows "map wd_type_id ws = dict_types m \<and> map (unat \<circ> wd_rows) ws = map (\<lambda>t. length (dict_entries t m)) (dict_types m) \<and>
    map (unat \<circ> wd_len) ws = map (\<lambda>t. length (dict_body cd m t)) (dict_types m) \<and>
    (\<forall>t \<in> set (dict_types m). pw_error (cd_parquet cd t (dict_entries t m)) = None) \<and>
    written out' = written out @ concat (map (dict_body cd m) (dict_types m))"
proof -
  let ?S = "dict_entries DICT_STRINGS_TYPE_ID m" and ?B = "dict_entries DICT_BLOBS_TYPE_ID m"
  from run [unfolded encode_final_entries_to_def Let_def dict_entries_by_id [OF m]] obtain xs out1 ys where
    x: "(if ?S = [] then (Ok [], out)
         else then_out (write_final_dictionary A (cd_parquet cd) DICT_STRINGS_TYPE_ID ?S out) (\<lambda>w out. (Ok [w], out))) = (Ok xs, out1)"
    and y: "(if ?B = [] then (Ok [], out1)
         else then_out (write_final_dictionary A (cd_parquet cd) DICT_BLOBS_TYPE_ID ?B out1) (\<lambda>w out. (Ok [w], out))) = (Ok ys, out')"
    and ws: "ws = xs @ ys"
    by (auto simp: then_out_Ok)
  have one: "map wd_type_id zs = (if es = [] then [] else [t]) \<and>
      map (unat \<circ> wd_rows) zs = (if es = [] then [] else [length es]) \<and>
      map (unat \<circ> wd_len) zs = (if es = [] then [] else [length (concat (pw_writes (cd_parquet cd t es)))]) \<and>
      (es \<noteq> [] \<longrightarrow> pw_error (cd_parquet cd t es) = None) \<and>
      written out2 = written out1 @ (if es = [] then [] else concat (pw_writes (cd_parquet cd t es)))"
    if "(if es = [] then (Ok [], out1)
         else then_out (write_final_dictionary A (cd_parquet cd) t es out1) (\<lambda>w out. (Ok [w], out))) = (Ok zs, out2)"
    for t es out1 out2 zs
    using that by (auto simp: then_out_Ok dest!: write_final_dictionary_Ok split: if_splits)
  from one [OF x] one [OF y] show ?thesis
    by (auto simp: ws dict_types_def dict_body_def)
qed

lemma describe_sections_Ok:
  assumes "describe_sections ws off = Ok ss" and "unat off = length xs" and "map (unat \<circ> wd_len) ws = map length bs"
  shows "list_all constructed ss \<and> map fs_type_id ss = map wd_type_id ws \<and>
    (\<forall>zs. map (in_spool (xs @ concat bs @ zs)) ss = zip (map wd_type_id ws) (zip (map (unat \<circ> wd_rows) ws) bs))"
  using assms
proof (induction ws arbitrary: off ss xs bs)
  case (Cons w ws)
  from Cons.prems(3) obtain b bs' where bs: "bs = b # bs'" "unat (wd_len w) = length b" "map (unat \<circ> wd_len) ws = map length bs'"
    by (cases bs) (auto simp: o_def)
  from Cons.prems(1) obtain s off1 ss' where s: "FinishedSection_new (wd_type_id w) (wd_rows w) off (wd_len w) (wd_crc32c w) = Ok s"
    and o1: "checked_add_word off (wd_len w) = Some off1" and r: "describe_sections ws off1 = Ok ss'" and ss: "ss = s # ss'"
    by (auto simp: and_then_Ok_iff)
  have "unat off1 = length (xs @ b)" using checked_add_word_Some [OF o1] Cons.prems(2) bs(2) by simp
  from Cons.IH [OF r this bs(3)] in_spool_new [OF s Cons.prems(2) bs(2)] FinishedSection_new_Ok [OF s]
  show ?case by (simp add: ss bs(1))
qed simp

lemma zip_maps: "zip xs (zip (map f xs) (map g xs)) = map (\<lambda>x. (x, f x, g x)) xs"
  "zip (map f xs) (zip (map g xs) (map h xs)) = map (\<lambda>x. (f x, g x, h x)) xs"
  by (induction xs) simp_all

text \<open>A merge that succeeds has read every batch of every section.\<close>

lemma insert_batches_read: "insert_batches h blob bs previous rows fd = Ok x \<Longrightarrow> list_all is_ok bs"
  by (induction h blob bs previous rows fd rule: insert_batches.induct) (auto simp: and_then_Ok_iff is_ok_iff)

lemma decode_dictionary_body_read:
  assumes "decode_dictionary_body A h preflight (cd_reader cd) j d fd = Ok fd'"
  shows "wholly_read cd (descriptor_body j d) \<and>
    section_values A (cd_reader cd) j d = read_values cd (e_type_id (sd_entry d)) (descriptor_body j d)"
proof -
  from assms obtain bs pq n where "read_verified_body A j d = Ok bs" "cd_reader cd bs = Ok pq"
    and "insert_batches h (e_type_id (sd_entry d) = DICT_BLOBS_TYPE_ID) (pq_batches pq) 0 0 fd = Ok (n, fd')"
    by (auto simp: decode_dictionary_body_def and_then_Ok_iff Let_def split: if_splits)
  then show ?thesis
    using read_verified_body_Ok [of A j d bs]
    by (auto simp: wholly_read_def section_values_def read_values_def dest: insert_batches_read)
qed

lemma decode_dictionaries_read:
  "decode_dictionaries A h preflight (cd_reader cd) j ds fd = Ok fd' \<Longrightarrow>
     \<forall>d \<in> set ds. wholly_read cd (descriptor_body j d) \<and>
       section_values A (cd_reader cd) j d = read_values cd (e_type_id (sd_entry d)) (descriptor_body j d)"
  by (induction ds arbitrary: fd) (auto simp: and_then_Ok_iff dest!: decode_dictionary_body_read)

lemma normalize_merges:
  assumes run: "normalize_dictionary A (cd_hashes cd) (cd_preflight cd) (cd_reader cd) j strings blobs = Ok fd"
    and types: "\<forall>d \<in> set strings. e_type_id (sd_entry d) = DICT_STRINGS_TYPE_ID"
      "\<forall>d \<in> set blobs. e_type_id (sd_entry d) = DICT_BLOBS_TYPE_ID"
  shows "merges cd (map (descriptor_body j) strings) (map (descriptor_body j) blobs) (fd_values fd)"
proof -
  note dec = run [unfolded normalize_dictionary_def]
  from decode_dictionaries_inserted [OF dec] have ok: "dictionary_ok (cd_hashes cd) fd"
    and s: "set (fd_values fd) = (\<Union>d \<in> set (strings @ blobs). set (section_values A (cd_reader cd) j d))"
    by (simp_all add: inserted_def) (simp add: empty_dictionary_def)
  note rd = decode_dictionaries_read [OF dec]
  have "set (fd_values fd) = (\<Union>d \<in> set strings. set (read_values cd DICT_STRINGS_TYPE_ID (descriptor_body j d))) \<union>
      (\<Union>d \<in> set blobs. set (read_values cd DICT_BLOBS_TYPE_ID (descriptor_body j d)))"
    unfolding s using rd types by (auto simp: UN_Un)
  then show ?thesis
    using ok rd by (auto simp: merges_def dictionary_ok_def list_all_iff)
qed

lemma spool_dictionary_Ok:
  assumes run: "spool_dictionary_sections A cd j strings blobs off out = (Ok ss, out')" and off: "unat off = length (written out)"
    and types: "\<forall>d \<in> set strings. e_type_id (sd_entry d) = DICT_STRINGS_TYPE_ID"
      "\<forall>d \<in> set blobs. e_type_id (sd_entry d) = DICT_BLOBS_TYPE_ID"
  shows "\<exists>m w. merges cd (map (descriptor_body j) strings) (map (descriptor_body j) blobs) m \<and>
    list_all constructed ss \<and> map fs_type_id ss = dict_types m \<and> written out' = written out @ w \<and>
    (\<forall>inputs zs. list_all (section_made cd inputs m) (map (in_spool (written out' @ zs)) ss))"
proof -
  from run obtain fd ws where
    n: "normalize_dictionary A (cd_hashes cd) (cd_preflight cd) (cd_reader cd) j strings blobs = Ok fd"
    and e: "encode_final_entries_to A (cd_parquet cd) (map final_snapshot (fd_values fd)) out = (Ok ws, out')"
    and d: "describe_sections ws off = Ok ss"
    by (auto simp: spool_dictionary_sections_def write_sections_to_def then_out_Ok)
  let ?m = "fd_values fd"
  note m = normalize_merges [OF n types]
  then have "om_valid ?m" by (simp add: merges_def)
  note enc = encode_final_entries_Ok [OF e this]
  then have "map (unat \<circ> wd_len) ws = map length (map (dict_body cd ?m) (dict_types ?m))" by simp
  note desc = describe_sections_Ok [OF d off this]
  have "list_all (section_made cd inputs ?m) (map (in_spool (written out' @ zs)) ss)" for inputs zs
  proof -
    have "map (in_spool (written out' @ zs)) ss =
        map (\<lambda>t. (t, length (dict_entries t ?m), dict_body cd ?m t)) (dict_types ?m)"
      using desc enc by (simp add: zip_maps)
    then show ?thesis
      using enc by (auto simp: list_all_iff section_made_def dict_body_def dict_types_def is_dictionary_type_def)
  qed
  then show ?thesis using m desc enc by auto
qed

section \<open>The whole spool\<close>

text \<open>The plan's map stays ordered, and a descriptor is listed under its own type.\<close>

definition grouped_by_type :: "(u32, section_descriptor list) omap \<Rightarrow> bool" where
  "grouped_by_type m \<longleftrightarrow> om_valid m \<and> (\<forall>t. map_of m t \<noteq> Some []) \<and>
     (\<forall>t. \<forall>d \<in> set (unwrap_or_default (map_of m t)). e_type_id (sd_entry d) = t)"

lemma unwrap_or_default_simps [simp]: "unwrap_or_default None = []" "unwrap_or_default (Some xs) = xs"
  by (simp_all add: unwrap_or_default_def)

lemma push_descriptor_grouped:
  assumes "push_descriptor d g = Ok g'" and g: "grouped_by_type (fst g)"
  shows "grouped_by_type (fst g')"
proof -
  let ?t = "e_type_id (sd_entry d)"
  have "fst g' = om_insert ?t (unwrap_or_default (map_of (fst g) ?t) @ [d]) (fst g)"
    using assms(1)
    by (auto simp: push_descriptor_def and_then_Ok_iff Let_def unwrap_or_default_def split: if_splits)
  then show ?thesis using g by (simp add: grouped_by_type_def om_valid_insert om_get_insert)
qed

lemma push_entries_grouped: "push_entries r es g = Ok g' \<Longrightarrow> grouped_by_type (fst g) \<Longrightarrow> grouped_by_type (fst g')"
  by (induction es arbitrary: g) (auto simp: and_then_Ok_iff dest: push_descriptor_grouped)

lemma plan_parts_grouped:
  "plan_parts A j rs g lo hi = Ok (g', lo', hi') \<Longrightarrow> grouped_by_type (fst g) \<Longrightarrow> grouped_by_type (fst g')"
  by (induction rs arbitrary: g lo hi) (auto simp: and_then_Ok_iff dest: push_entries_grouped split: if_splits)

lemma plan_segment_grouped: "plan_segment A j = Ok plan \<Longrightarrow> grouped_by_type (by_type plan)"
  by (auto simp: plan_segment_def and_then_Ok_iff Let_def grouped_by_type_def [of "[]"] unwrap_or_default_def dest!: plan_parts_grouped)

lemma data_types_get:
  assumes "om_valid m"
  shows "map_of (om_remove DICT_BLOBS_TYPE_ID (om_remove DICT_STRINGS_TYPE_ID m)) t =
    (if is_dictionary_type t then None else map_of m t)"
  using assms by (simp add: om_get_remove om_valid_remove is_dictionary_type_def)

text \<open>What a plan puts into a segment: the listed sections of every type, as they are in the journal.\<close>

definition plan_inputs :: "journal \<Rightarrow> segment_plan \<Rightarrow> sections_of_type" where
  "plan_inputs j plan t = described j (unwrap_or_default (map_of (by_type plan) t))"

lemma fst_image_iff: "t \<in> fst ` S \<longleftrightarrow> (\<exists>y. (t, y) \<in> S)"
  by force

lemma list_all2_right: "list_all2 P xs ys \<Longrightarrow> y \<in> set ys \<Longrightarrow> \<exists>x \<in> set xs. P x y"
  by (induction rule: list_all2_induct) auto

lemma spool_sections_Ok:
  assumes plan: "plan_segment A j = Ok plan" and run: "spool_sections A cd j plan out = (Ok ss, out')" and new: "written out = []"
  shows "list_all constructed ss \<and> sections_made cd (plan_inputs j plan) (map (in_spool (written out')) ss)"
proof -
  let ?data = "om_remove DICT_BLOBS_TYPE_ID (om_remove DICT_STRINGS_TYPE_ID (by_type plan))"
  let ?at = "\<lambda>t. unwrap_or_default (map_of (by_type plan) t)"
  note grouped = plan_segment_grouped [OF plan]
  then have v: "om_valid (by_type plan)" "om_valid ?data" by (simp_all add: grouped_by_type_def om_valid_remove)
  from run obtain spooled off out1 dicts out2 where
    t: "spool_types A cd j (spool_order ?data) 0 out = (Ok (spooled, off), out1)"
    and d: "spool_dictionary_sections A cd j (?at DICT_STRINGS_TYPE_ID) (?at DICT_BLOBS_TYPE_ID) off out1 = (Ok dicts, out2)"
    and ss: "ss = spooled @ dicts" and fl: "written out' = written out2"
    by (auto simp: spool_sections_def Let_def then_out_Ok err_out_Ok dest: out_flush_Ok)
  have typed: "\<forall>d \<in> set (?at t). e_type_id (sd_entry d) = t" for t
    using grouped by (simp add: grouped_by_type_def)
  from spool_types_Ok [OF t] new obtain w where off: "unat off = length (written out1)" and con: "list_all constructed spooled"
    and w: "written out1 = w" "\<And>zs. list_all2 (data_section cd j) (spool_order ?data) (map (in_spool (w @ zs)) spooled)"
    by auto
  from spool_dictionary_Ok [OF d off typed typed] obtain m w' where
    m: "merges cd (map (descriptor_body j) (?at DICT_STRINGS_TYPE_ID)) (map (descriptor_body j) (?at DICT_BLOBS_TYPE_ID)) m"
    and dict: "list_all constructed dicts" "map fs_type_id dicts = dict_types m" "written out2 = w @ w'"
      "\<And>inputs zs. list_all (section_made cd inputs m) (map (in_spool (written out2 @ zs)) dicts)"
    unfolding w(1) by blast
  have mem: "(t, ds) \<in> set (spool_order ?data) \<longleftrightarrow> \<not> is_dictionary_type t \<and> map_of (by_type plan) t = Some ds" for t ds
    unfolding spool_order_def set_sort om_iter_get [OF v(2)] data_types_get [OF v(1)] by simp
  have data: "list_all2 (data_section cd j) (spool_order ?data) (map (in_spool (written out')) spooled)"
    using w(2) [of w'] by (simp add: fl dict(3))
  have made: "section_made cd (plan_inputs j plan) m x" if x: "x \<in> set (map (in_spool (written out')) spooled)" for x
  proof -
    from list_all2_right [OF data x] obtain t ds where "(t, ds) \<in> set (spool_order ?data)" "data_section cd j (t, ds) x"
      by auto
    then show ?thesis
      by (cases x) (auto simp: mem data_section_def section_made_def plan_inputs_def unwrap_or_default_def described_def)
  qed
  have "fst ` set (map (in_spool (written out')) spooled) = fst ` set (spool_order ?data)"
  proof -
    have "map fst (map (in_spool (written out')) spooled) = map fst (spool_order ?data)"
      using data by (auto simp: list_all2_conv_all_nth data_section_def split_beta intro!: nth_equalityI)
    from arg_cong [OF this, of set] show ?thesis by (simp only: set_map)
  qed
  then have listed: "t \<in> fst ` set (map (in_spool (written out')) spooled) \<longleftrightarrow> (\<exists>ds. (t, ds) \<in> set (spool_order ?data))" for t
    by (simp only: fst_image_iff)
  have nonempty: "map_of (by_type plan) t \<noteq> Some []" for t using grouped by (simp add: grouped_by_type_def)
  have types: "t \<in> fst ` set (map (in_spool (written out')) spooled) \<longleftrightarrow>
      \<not> is_dictionary_type t \<and> plan_inputs j plan t \<noteq> []" for t
    unfolding listed mem using nonempty [of t]
    by (cases "map_of (by_type plan) t") (simp_all add: plan_inputs_def described_def)
  have "fst ` set (map (in_spool (written out')) dicts) = set (map fs_type_id dicts)"
    by (simp add: in_spool_def image_image)
  then have dtypes: "t \<in> fst ` set (map (in_spool (written out')) dicts) \<longleftrightarrow> is_dictionary_type t \<and> dict_entries t m \<noteq> []" for t
    by (auto simp: dict(2) dict_types_def is_dictionary_type_def)
  have "sections_made cd (plan_inputs j plan) (map (in_spool (written out')) ss)"
    unfolding sections_made_def
  proof (intro exI conjI allI)
    show "merges cd (map snd (plan_inputs j plan DICT_STRINGS_TYPE_ID)) (map snd (plan_inputs j plan DICT_BLOBS_TYPE_ID)) m"
      using m by (simp add: plan_inputs_def described_parts)
    show "list_all (section_made cd (plan_inputs j plan) m) (map (in_spool (written out')) ss)"
      using made dict(4) [of "plan_inputs j plan" "[]"] by (auto simp: ss list_all_iff fl)
    show "t \<in> fst ` set (map (in_spool (written out')) ss) \<longleftrightarrow>
        (if is_dictionary_type t then dict_entries t m \<noteq> [] else plan_inputs j plan t \<noteq> [])" for t
      using types [of t] dtypes [of t] by (auto simp: ss image_Un)
  qed
  then show ?thesis using con dict(1) by (simp add: ss)
qed

end
