(* ===== verification/Segment_Write_Props.thy ===== *)
theory Segment_Write_Props
  imports Segment_Bodies
begin

text \<open>
  What a written segment is: under any failing calls, an existing file is never changed, and when
  the final name shows the new segment its bytes are synchronized and form a valid container of the
  journal's plan; after \<open>Ok\<close> the name is durable as well.
\<close>

section \<open>The container of a plan\<close>

text \<open>
  The container of a plan: its catalog has the plan's bounds and window count, no type twice, and its
  sections are those that the plan calls for, each with the rows and the body that the encoders make
  of the listed sections.
\<close>

definition section_held :: "bytes \<Rightarrow> entry \<Rightarrow> u32 \<times> nat \<times> bytes" where
  "section_held bs e = (e_type_id e, unat (e_rows e), section_body bs e)"

definition segment_of :: "'d crc_alg \<Rightarrow> codec \<Rightarrow> journal \<Rightarrow> segment_plan \<Rightarrow> write_summary \<Rightarrow> bytes \<Rightarrow> bool" where
  "segment_of A cd j plan sm bs \<longleftrightarrow>
     (\<exists>c. validate_part A bs = Ok c \<and> format_version c = FORMAT_VERSION \<and>
        min_ts c = sp_min_ts plan \<and> max_ts c = sp_max_ts plan \<and> window_count c = sp_window_count plan \<and>
        ws_sections sm = length (entries c) \<and> unat (ws_bytes sm) = length bs \<and>
        ws_min_ts sm = min_ts c \<and> ws_max_ts sm = max_ts c \<and> encoded_len c \<le> MAX_CATALOG_BYTES \<and>
        distinct (map e_type_id (entries c)) \<and>
        sections_made cd (plan_inputs j plan) (map (section_held bs) (entries c)))"

lemma finished_types_distinct:
  assumes "FinishedZmsPlan_new ss lo hi w = Ok p"
  shows "distinct (map fs_type_id (sort_key (\<lambda>s. unat (fs_type_id s)) ss))"
  using FinishedZmsPlan_new_Ok(2) [OF assms] unfolding FinishedZmsPlan_new_Ok(1) [OF assms]
  by (metis sorted_wrt_map strict_sorted_iff)

lemma finished_segment_of:
  assumes laws: "crc_laws A" and con: "list_all constructed ss"
    and made: "sections_made cd (plan_inputs j plan) (map (in_spool (content spool)) ss)"
    and p: "FinishedZmsPlan_new ss (sp_min_ts plan) (sp_max_ts plan) (sp_window_count plan) = Ok p"
    and run: "write_finished_zms A spool p out = (Ok sm, out')"
  shows "\<exists>bs. written out' = written out @ bs \<and> segment_of A cd j plan sm bs \<and> length bs < 2 ^ 64"
proof -
  let ?ss = "sort_key (\<lambda>s. unat (fs_type_id s)) ss"
  have "\<forall>s \<in> set ss. constructed s" using con by (simp add: list_all_iff)
  from finished_zms_facts [OF laws p this run] obtain bs c where bs: "written out' = written out @ bs" "length bs < 2 ^ 64"
    and v: "validate_part A bs = Ok c" and types: "map e_type_id (entries c) = map fs_type_id ?ss"
    and rows: "map e_rows (entries c) = map fs_rows ?ss"
    and bodies: "map (section_body bs) (entries c) = map (spooled_body spool) ?ss"
    and meta: "min_ts c = sp_min_ts plan" "max_ts c = sp_max_ts plan" "window_count c = sp_window_count plan"
      "format_version c = FORMAT_VERSION" "unat (ws_bytes sm) = length bs" "ws_sections sm = length ss"
      "ws_min_ts sm = sp_min_ts plan" "ws_max_ts sm = sp_max_ts plan" "encoded_len c \<le> MAX_CATALOG_BYTES"
    by blast
  have len: "length (entries c) = length ss" using arg_cong [OF types, of length] by simp
  have nrows: "map (\<lambda>e. unat (e_rows e)) (entries c) = map (\<lambda>s. unat (fs_rows s)) ?ss"
    using arg_cong [OF rows, of "map unat"] by (simp add: o_def)
  have "map (section_held bs) (entries c) =
      zip (map e_type_id (entries c)) (zip (map (\<lambda>e. unat (e_rows e)) (entries c)) (map (section_body bs) (entries c)))"
    by (simp add: zip_maps section_held_def)
  also have "\<dots> = map (in_spool (content spool)) ?ss"
    unfolding types nrows bodies zip_maps by (simp add: in_spool_def spooled_body_def)
  finally have "set (map (in_spool (content spool)) ss) = set (map (section_held bs) (entries c))" by simp
  with sections_made_set [OF made] have "sections_made cd (plan_inputs j plan) (map (section_held bs) (entries c))" .
  moreover have "distinct (map e_type_id (entries c))" unfolding types by (rule finished_types_distinct [OF p])
  ultimately have "segment_of A cd j plan sm bs"
    unfolding segment_of_def using v meta len by (intro exI [of _ c]) simp
  with bs show ?thesis by blast
qed

lemma segment_of_accepts:
  assumes "crc_laws A" and "segment_of A cd j plan sm bs" and "length bs < 2 ^ 64" and "content f = bs"
    and "validate_segment A f sm = Ok b"
  shows "b"
proof -
  from assms(2) obtain c where c: "validate_part A bs = Ok c" "format_version c = FORMAT_VERSION"
    "ws_sections sm = length (entries c)" "unat (ws_bytes sm) = length bs" "ws_min_ts sm = min_ts c"
    "ws_max_ts sm = max_ts c" "encoded_len c \<le> MAX_CATALOG_BYTES"
    unfolding segment_of_def by blast
  show ?thesis
    by (rule validate_segment_accepts [OF assms(1) _ _ c(2) c(7) _ c(3) c(5) c(6) assms(5)])
      (use assms(3,4) c in simp_all)
qed

section \<open>Existing files\<close>

definition segment_path :: "segment_address \<Rightarrow> path" where
  "segment_path a = day_path (addr_day a) @ [zms_name a]"

text \<open>Every file name points to an inode that was handed out.\<close>

definition wf_disk :: "disk \<Rightarrow> bool" where
  "wf_disk d \<longleftrightarrow> (\<forall>p i. node_at d p = Some (FileNode i) \<longrightarrow> i < dk_next d)"

text \<open>Names that exist are kept with their nodes, and old files keep bytes and durability.\<close>

definition frame :: "disk \<Rightarrow> disk \<Rightarrow> bool" where
  "frame d0 d \<longleftrightarrow>
     (\<forall>p. node_at d0 p \<noteq> None \<longrightarrow> node_at d p = node_at d0 p) \<and> dk_next d0 \<le> dk_next d \<and>
     (\<forall>k < dk_next d0. in_bytes (dk_inodes d k) = in_bytes (dk_inodes d0 k) \<and>
        in_synced (dk_inodes d k) = in_synced (dk_inodes d0 k))"

text \<open>
  The state before the final name is linked, where no name of a segment has changed, and a temporary of
  this run.
\<close>

definition before_link :: "disk \<Rightarrow> disk \<Rightarrow> bool" where
  "before_link d0 d \<longleftrightarrow> wf_disk d \<and> frame d0 d \<and> (\<forall>b. node_at d (segment_path b) = node_at d0 (segment_path b))"

definition temp_of :: "segment_address \<Rightarrow> disk \<Rightarrow> disk \<Rightarrow> zms_temp \<Rightarrow> bool" where
  "temp_of a d0 d t \<longleftrightarrow> dk_next d0 \<le> zt_inode t \<and> zt_inode t < dk_next d \<and> node_at d0 (temp_path t) = None \<and>
     (\<forall>b. segment_path b \<noteq> temp_path t) \<and> final_path t = segment_path a \<and> zt_temp_name t \<noteq> zt_final_name t"

lemma quiet_before [simp]: "quiet (before_link d0)" "quiet (\<lambda>d. temp_of a d0 d t)"
  by (simp_all add: quiet_def before_link_def wf_disk_def frame_def node_at_def temp_of_def)

lemma before_link_refl: "wf_disk d \<Longrightarrow> before_link d d"
  by (simp add: before_link_def frame_def)

text \<open>What the run holds before the link: the frame and its temporaries.\<close>

definition held :: "segment_address \<Rightarrow> disk \<Rightarrow> zms_temp set \<Rightarrow> disk \<Rightarrow> bool" where
  "held a d0 T d \<longleftrightarrow> before_link d0 d \<and> (\<forall>t \<in> T. temp_of a d0 d t)"

lemma quiet_held [simp]: "quiet (held a d0 T)"
  by (simp add: held_def quiet_def temp_of_def before_link_def wf_disk_def frame_def node_at_def)

lemma held_mono:
  assumes "held a d0 T d" and "before_link d0 d'" and "dk_next d \<le> dk_next d'"
  shows "held a d0 T d'"
  using assms by (fastforce simp: held_def temp_of_def)

lemma held_same_names:
  assumes "held a d0 T d" and "dk_names d' = dk_names d" and "dk_inodes d' = dk_inodes d" and "dk_next d' = dk_next d"
  shows "held a d0 T d'"
  using assms by (simp add: held_def before_link_def wf_disk_def frame_def temp_of_def node_at_def)

text \<open>A new directory.\<close>

lemma held_mkdir:
  assumes "held a d0 T d" and "node_at d p = None" and "\<forall>b. segment_path b \<noteq> p"
  shows "held a d0 T (set_name p DirNode d)"
proof (rule held_mono [OF assms(1)])
  have "node_at d0 p = None" using assms(1,2) by (metis before_link_def frame_def held_def)
  then show "before_link d0 (set_name p DirNode d)"
    using assms by (auto simp: held_def before_link_def wf_disk_def frame_def set_name_def node_at_def)
qed (simp add: set_name_def)

lemma triple_mkdir:
  assumes "\<forall>b. segment_path b \<noteq> p"
  shows "triple (held a d0 T) (mkdir_at p) (\<lambda>_. held a d0 T) (\<lambda>e. held a d0 T)"
  unfolding mkdir_at_def
proof (rule triple_sys)
  show "triple (held a d0 T) (\<lambda>d. if node_at d p \<noteq> None then fail (Io (OsError EEXIST)) d else return () (set_name p DirNode d))
      (\<lambda>_. held a d0 T) (\<lambda>e. held a d0 T)"
    using held_mkdir [OF _ _ assms] by (auto simp: triple_def fail_def return_def)
qed simp_all

lemma triple_open_directory: "quiet P \<Longrightarrow> triple P (open_directory_on p) (\<lambda>_. P) (\<lambda>e. P)"
  unfolding open_directory_on_def
  by (rule triple_sys) (auto simp: triple_def fail_def return_def split: option.split node.split)

lemma triple_sync_held: "triple (held a d0 T) (sync_directory p) (\<lambda>_. held a d0 T) (\<lambda>e. held a d0 T)"
  unfolding sync_directory_def
  by (rule triple_sys) (auto simp: triple_def return_def intro: held_same_names)

lemma triple_ensure_directory:
  assumes "\<forall>b. segment_path b \<noteq> p"
  shows "triple (held a d0 T) (ensure_directory_at p) (\<lambda>_. held a d0 T) (\<lambda>e. held a d0 T)"
  unfolding ensure_directory_at_def
  by (rule triple_catch [OF triple_mkdir [OF assms]])
    (auto intro!: triple_if triple_fail triple_seq [OF triple_open_directory triple_sync_held])

lemma segment_path_length [simp]: "length (segment_path a) = 4"
  by (simp add: segment_path_def day_path_def)

lemma triple_ensure_day: "triple (held a d0 T) (ensure_day day) (\<lambda>_. held a d0 T) (\<lambda>e. held a d0 T)"
proof -
  have "length (year_path day) = 1" "length (month_path day) = 2" "length (day_path day) = 3"
    by (simp_all add: year_path_def month_path_def day_path_def)
  then have "\<forall>b. segment_path b \<noteq> year_path day" "\<forall>b. segment_path b \<noteq> month_path day" "\<forall>b. segment_path b \<noteq> day_path day"
    by (metis segment_path_length num.distinct(1,3) numeral_eq_iff one_eq_numeral_iff semiring_norm)+
  then show ?thesis
    unfolding ensure_day_def by (auto intro!: triple_seq [OF triple_ensure_directory] triple_ensure_directory)
qed

text \<open>A temporary name is never a final name.\<close>

lemma temp_name_not_final: "temporary_name a TmpZms pid q \<noteq> zms_name b"
proof
  assume h: "temporary_name a TmpZms pid q = zms_name b"
  have "List.last (temporary_name a TmpZms pid q) = CHR ''p''" by (simp add: temporary_name_def)
  moreover have "List.last (zms_name b) = CHR ''s''" by (simp add: zms_name_def)
  ultimately show False using h by simp
qed

text \<open>A call that first looks at the state.\<close>

lemma triple_reads: "(\<And>x. triple P (f x) Q E) \<Longrightarrow> triple P (\<lambda>d. f (g d) d) Q E"
  by (simp add: triple_def)

lemma triple_create_temp:
  "triple (held a d0 T) (create_zms_temp a)
     (\<lambda>t d. held a d0 (insert t T) d \<and> zt_inode t \<notin> zt_inode ` T \<and> \<not> zt_published t) (\<lambda>e. held a d0 T)"
proof -
  have next_seq: "triple (held a d0 T) next_sequence (\<lambda>_. held a d0 T) (\<lambda>e. held a d0 T)"
    by (auto simp: triple_def next_sequence_def intro: held_same_names)
  let ?mk = "\<lambda>name i. \<lparr>zt_day = day_path (addr_day a), zt_inode = i, zt_prepared = None, zt_temp_name = name,
    zt_final_name = zms_name a, zt_address = a, zt_published = False\<rparr>"
  have create: "triple (held a d0 T) (create_regular_at (day_path (addr_day a)) name)
      (\<lambda>i d. held a d0 (insert (?mk name i) T) d \<and> i \<notin> zt_inode ` T) (\<lambda>e. held a d0 T)"
    if name: "\<And>b. name \<noteq> zms_name b" for name
    unfolding create_regular_at_def
  proof (rule triple_sys)
    let ?p = "day_path (addr_day a) @ [name]"
    have ne: "segment_path b \<noteq> ?p" for b using name [of b] by (auto simp: segment_path_def)
    show "triple (held a d0 T) (\<lambda>d. if node_at d ?p \<noteq> None then fail (Io (OsError EEXIST)) d
        else let i = dk_next d; now = dk_clock d (dk_time d) in
          return i (set_name ?p (FileNode i) (d\<lparr>dk_next := Suc i, dk_time := Suc (dk_time d),
            dk_inodes := (dk_inodes d)(i := \<lparr>in_bytes = [], in_synced = [], in_mtime = now, in_ctime = now\<rparr>)\<rparr>)))
        (\<lambda>i d. held a d0 (insert (?mk name i) T) d \<and> i \<notin> zt_inode ` T) (\<lambda>e. held a d0 T)"
      unfolding triple_def
    proof (intro allI impI)
      fix d assume h: "held a d0 T d"
      then have fr: "frame d0 d" and wf: "wf_disk d" and fp: "\<forall>b. node_at d (segment_path b) = node_at d0 (segment_path b)"
        and ts: "\<forall>t \<in> T. temp_of a d0 d t"
        by (simp_all add: held_def before_link_def)
      show "case (if node_at d ?p \<noteq> None then fail (Io (OsError EEXIST)) d
        else let i = dk_next d; now = dk_clock d (dk_time d) in
          return i (set_name ?p (FileNode i) (d\<lparr>dk_next := Suc i, dk_time := Suc (dk_time d),
            dk_inodes := (dk_inodes d)(i := \<lparr>in_bytes = [], in_synced = [], in_mtime = now, in_ctime = now\<rparr>)\<rparr>)))
        of (Err e, d') \<Rightarrow> held a d0 T d' | (Ok i, d') \<Rightarrow> held a d0 (insert (?mk name i) T) d' \<and> i \<notin> zt_inode ` T"
      proof (cases "node_at d ?p = None")
        case False
        then show ?thesis using h by (auto simp: fail_def)
      next
        case True
        let ?now = "dk_clock d (dk_time d)"
        let ?d = "set_name ?p (FileNode (dk_next d)) (d\<lparr>dk_next := Suc (dk_next d), dk_time := Suc (dk_time d),
            dk_inodes := (dk_inodes d)(dk_next d := \<lparr>in_bytes = [], in_synced = [], in_mtime = ?now, in_ctime = ?now\<rparr>)\<rparr>)"
        have n: "node_at ?d q = (if q = ?p then Some (FileNode (dk_next d)) else node_at d q)" for q
          by (simp add: node_at_def set_name_def delete_conv)
        have nx: "dk_next ?d = Suc (dk_next d)" by (simp add: set_name_def)
        have p0: "node_at d0 ?p = None" using True fr by (metis frame_def)
        have "before_link d0 ?d"
          using fr wf fp ne True p0 unfolding before_link_def wf_disk_def frame_def n nx
          by (auto simp: less_Suc_eq)
        then have "held a d0 T ?d" by (rule held_mono [OF h]) (simp add: nx)
        moreover have "temp_of a d0 ?d (?mk name (dk_next d))"
          using fr p0 ne name by (simp add: temp_of_def nx temp_path_def final_path_def segment_path_def frame_def)
        moreover have "dk_next d \<notin> zt_inode ` T" using ts by (force simp: temp_of_def)
        ultimately show ?thesis using True by (simp add: Let_def return_def held_def)
      qed
    qed
  qed simp_all
  have body: "triple (held a d0 T)
      (\<lambda>d. let name = temporary_name a TmpZms (dk_pid d) q in
        seq (create_regular_at (day_path (addr_day a)) name) (\<lambda>i. return (?mk name i)) d)
      (\<lambda>t d. held a d0 (insert t T) d \<and> zt_inode t \<notin> zt_inode ` T \<and> \<not> zt_published t) (\<lambda>e. held a d0 T)" for q
    unfolding Let_def
    by (rule triple_reads [where g = dk_pid], rule triple_seq [OF create [OF temp_name_not_final] triple_return]) simp
  show ?thesis
    unfolding create_zms_temp_def by (rule triple_seq [OF triple_ensure_day triple_seq [OF next_seq body]])
qed

section \<open>Triples of the writer\<close>

lemma triple_then:
  "triple P f Q E \<Longrightarrow> (\<And>x. triple (Q x) (g x) R E) \<Longrightarrow> triple P (\<lambda>d. then_out (f d) g) R E"
  by (fastforce simp: triple_def then_out_def split: prod.splits sum.splits)

lemma triple_err_out:
  assumes "triple P f Q (\<lambda>e. E (h e))"
  shows "triple P (\<lambda>d. err_out h (f d)) Q E"
  unfolding triple_def
proof (intro allI impI)
  fix d assume p: "P d"
  obtain r d' where f: "f d = (r, d')" by fastforce
  show "case err_out h (f d) of (Err e, d') \<Rightarrow> E e d' | (Ok x, d') \<Rightarrow> Q x d'"
    using triple_Ok [OF assms p] triple_Err [OF assms p] f by (cases r) (auto simp: err_out_def)
qed

lemma triple_err_keep: "triple P f Q (\<lambda>e. E) \<Longrightarrow> triple P (\<lambda>d. err_out h (f d)) Q (\<lambda>e. E)"
  by (rule triple_err_out)

lemma triple_fact: "(F \<Longrightarrow> triple P f Q E) \<Longrightarrow> triple (\<lambda>d. P d \<and> F) f Q E"
  by (auto simp: triple_def)

lemma triple_pure:
  "(\<And>d x. P d \<Longrightarrow> r d = Ok x \<Longrightarrow> Q x d) \<Longrightarrow> (\<And>d e. P d \<Longrightarrow> r d = Err e \<Longrightarrow> E e d) \<Longrightarrow> triple P (\<lambda>d. (r d, d)) Q E"
  by (auto simp: triple_def split: sum.split)

lemma triple_or_drop:
  "triple P f Q (\<lambda>e. F) \<Longrightarrow> (\<And>d. F d \<Longrightarrow> E (drop_temp t d)) \<Longrightarrow> triple P (\<lambda>d. or_drop t (f d)) Q (\<lambda>e. E)"
  by (fastforce simp: triple_def or_drop_def split: prod.splits sum.splits)

lemma triple_guard:
  "(b \<Longrightarrow> triple P (\<lambda>d. (Err e, d)) Q E) \<Longrightarrow> (\<not> b \<Longrightarrow> triple P f Q E) \<Longrightarrow>
     triple P (\<lambda>d. if b then (Err e, d) else f d) Q E"
  by (cases b) simp_all

text \<open>The states of one run: what is held, and the bytes of one inode.\<close>

definition holding :: "segment_address \<Rightarrow> disk \<Rightarrow> zms_temp set \<Rightarrow> nat \<Rightarrow> bytes \<Rightarrow> disk \<Rightarrow> bool" where
  "holding a d0 T k bs d \<longleftrightarrow> held a d0 T d \<and> in_bytes (dk_inodes d k) = bs"

lemma quiet_holding [simp]: "quiet (holding a d0 T k bs)"
  using quiet_held by (simp add: quiet_def holding_def)

lemma held_put_bytes:
  assumes "held a d0 T d" and "t \<in> T"
  shows "held a d0 T (put_bytes (zt_inode t) bs d)"
proof (rule held_mono [OF assms(1)])
  have "dk_next d0 \<le> zt_inode t" using assms by (auto simp: held_def temp_of_def)
  then show "before_link d0 (put_bytes (zt_inode t) bs d)"
    using assms(1) by (auto simp: held_def before_link_def wf_disk_def frame_def put_bytes_def touch_def Let_def node_at_def)
qed (simp add: put_bytes_def)

lemma put_bytes_bytes: "in_bytes (dk_inodes (put_bytes i bs d) k) = (if k = i then bs else in_bytes (dk_inodes d k))"
  by (simp add: put_bytes_def)

text \<open>Removing the name of a temporary.\<close>

lemma holding_unlink:
  assumes "holding a d0 T k bs d" and "t \<in> T"
  shows "holding a d0 T k bs (touch False i (drop_name (temp_path t) d))" "holding a d0 T k bs (drop_name (temp_path t) d)"
proof -
  have h: "held a d0 T d" and ne: "\<forall>b. segment_path b \<noteq> temp_path t" and d0: "node_at d0 (temp_path t) = None"
    using assms by (auto simp: holding_def held_def temp_of_def)
  have "before_link d0 (drop_name (temp_path t) d)" "before_link d0 (touch False i (drop_name (temp_path t) d))"
    using h ne d0 by (auto simp: held_def before_link_def wf_disk_def frame_def)
  then show "holding a d0 T k bs (touch False i (drop_name (temp_path t) d))" "holding a d0 T k bs (drop_name (temp_path t) d)"
    using assms(1) held_mono [OF h] by (simp_all add: holding_def)
qed

text \<open>Predicates that survive the removal of a temporary's name.\<close>

definition removable :: "zms_temp \<Rightarrow> (disk \<Rightarrow> bool) \<Rightarrow> bool" where
  "removable t P \<longleftrightarrow> quiet P \<and>
     (\<forall>d i. P d \<longrightarrow> P (touch False i (drop_name (temp_path t) d)) \<and> P (drop_name (temp_path t) d))"

lemma removable_holding: "t \<in> T \<Longrightarrow> removable t (holding a d0 T k bs)"
  by (simp add: removable_def holding_unlink)

lemma triple_unlink_temp:
  "removable t P \<Longrightarrow> triple P (unlink_name (zt_day t) (zt_temp_name t)) (\<lambda>_. P) (\<lambda>e. P)"
  unfolding unlink_name_def temp_path_def [symmetric]
  by (rule triple_sys) (auto simp: removable_def triple_def fail_def return_def split: option.split node.split)

lemma triple_unlink_if_identity:
  assumes "removable t P"
  shows "triple P (unlink_named_if_identity (zt_day t) (zt_temp_name t) identity) (\<lambda>_. P) (\<lambda>e. P)"
proof -
  have q: "quiet P" using assms by (simp add: removable_def)
  show ?thesis
    unfolding unlink_named_if_identity_def
    by (rule triple_catch [OF triple_open_keep [OF q]])
      (auto intro!: triple_if triple_fail triple_return triple_seq [OF triple_identity_keep [OF q]]
        triple_seq [OF triple_unlink_temp [OF assms]])
qed

lemma drop_temp_keeps:
  assumes "removable t P" and "P d"
  shows "P (drop_temp t d)"
proof -
  have "triple P (identity_from_file (zt_inode t)) (\<lambda>_. P) (\<lambda>e. P)"
    using assms(1) by (intro triple_identity_keep) (simp add: removable_def)
  note identity = triple_Ok [OF this assms(2)] triple_Err [OF this assms(2)]
  obtain r d1 where i: "identity_from_file (zt_inode t) d = (r, d1)" by fastforce
  have h1: "P d1" using identity i by (cases r) auto
  have "P (snd (unlink_named_if_identity (zt_day t) (zt_temp_name t) x d1))" for x
  proof -
    note u = triple_unlink_if_identity [OF assms(1), of x]
    obtain r2 d2 where "unlink_named_if_identity (zt_day t) (zt_temp_name t) x d1 = (r2, d2)" by fastforce
    then show ?thesis using triple_Ok [OF u h1] triple_Err [OF u h1] by (cases r2) auto
  qed
  then show ?thesis using assms(2) h1 i by (cases r) (auto simp: drop_temp_def)
qed

lemmas holding_drop_temp = drop_temp_keeps [OF removable_holding]

lemma triple_discard:
  assumes t: "t \<in> T" and e: "\<And>e d. holding a d0 T k bs d \<Longrightarrow> E e d"
  shows "triple (holding a d0 T k bs) (discard t)
    (\<lambda>_ d. holding a d0 T k bs d \<and> (final_path t = segment_path a \<longrightarrow> durable_at d (segment_path a) = node_at d (segment_path a)))
    E"
proof -
  let ?H = "holding a d0 T k bs"
  have sync: "triple ?H (sync_directory (zt_day t))
      (\<lambda>_ d. ?H d \<and> (final_path t = segment_path a \<longrightarrow> durable_at d (segment_path a) = node_at d (segment_path a)))
      (\<lambda>e. ?H)"
  proof (rule triple_sync_directory)
    fix d d' assume h: "?H d" "dk_names d' = dk_names d" "dk_inodes d' = dk_inodes d" "dk_next d' = dk_next d"
      and dur: "\<And>p. durable_at d' p = (if p \<noteq> [] \<and> butlast p = zt_day t then node_at d p else durable_at d p)"
    have "?H d'" using h held_same_names [of a d0 T d d'] by (simp add: holding_def)
    moreover have "durable_at d' (segment_path a) = node_at d' (segment_path a)" if "final_path t = segment_path a"
      using dur [of "segment_path a"] h(2) that by (auto simp: final_path_def node_at_def simp flip: that)
    ultimately show "?H d' \<and> (final_path t = segment_path a \<longrightarrow> durable_at d' (segment_path a) = node_at d' (segment_path a))"
      by blast
  qed simp_all
  have inner: "triple ?H (seq (identity_from_file (zt_inode t)) (\<lambda>identity.
      seq (unlink_named_if_identity (zt_day t) (zt_temp_name t) identity) (\<lambda>removed.
        if \<not> removed then fail (TemporaryChanged (zt_temp_name t)) else sync_directory (zt_day t))))
      (\<lambda>_ d. ?H d \<and> (final_path t = segment_path a \<longrightarrow> durable_at d (segment_path a) = node_at d (segment_path a)))
      (\<lambda>e. ?H)"
    by (rule triple_seq [OF triple_identity_keep triple_seq [OF triple_unlink_if_identity [OF removable_holding [OF t]] triple_if [OF triple_fail sync]]])
      simp_all
  show ?thesis
    unfolding discard_def
    by (rule triple_catch [OF inner])
      (auto simp: triple_def return_def intro: e holding_drop_temp [OF t])
qed

text \<open>The checks on an existing file only look.\<close>

lemma triple_open_zms:
  "quiet P \<Longrightarrow> triple P (open_zms a) (\<lambda>k d. P d \<and> node_at d (segment_path a) = Some (FileNode k)) (\<lambda>e. P)"
  unfolding open_zms_def open_day_on_def segment_path_def
  by (intro triple_seq [OF triple_seq [OF triple_open_directory triple_seq [OF triple_open_directory triple_open_directory]]]
      triple_open_regular) simp_all

lemma triple_fstat: "quiet P \<Longrightarrow> triple P (fstat i) (\<lambda>_. P) (\<lambda>e. P)"
  unfolding fstat_def [abs_def] by (rule triple_err_out [OF triple_identity_keep])

lemma triple_files_equal_keep: "quiet P \<Longrightarrow> triple P (files_equal l r) (\<lambda>_. P) (\<lambda>e. P)"
proof -
  assume q: "quiet P"
  note f = triple_fstat [OF q]
  have "triple P (\<lambda>d. (Ok x, d)) (\<lambda>_. P) (\<lambda>e. P)" for x :: bool by (simp add: triple_def)
  note ok = this
  have last_step: "triple P (\<lambda>d. if left' \<noteq> left then (Ok False, d)
      else then_out (fstat r d) (\<lambda>right' d. (Ok (right' = right), d))) (\<lambda>_. P) (\<lambda>e. P)" for left' left right
    using ok [of False] triple_then [OF f [of r] ok] by (cases "left' = left") simp_all
  have mid: "triple P (\<lambda>d. if \<not> same then (Ok False, d)
      else then_out (fstat l d) (\<lambda>left' d. if left' \<noteq> left then (Ok False, d)
        else then_out (fstat r d) (\<lambda>right' d. (Ok (right' = right), d)))) (\<lambda>_. P) (\<lambda>e. P)" for same left right
    using ok [of False] triple_then [OF f [of l] last_step] by (cases same) simp_all
  have loop: "triple P (\<lambda>d. (map_err WriteIo (compare_loop (view_file d l) (view_file d r) n 0), d)) (\<lambda>_. P) (\<lambda>e. P)" for n
    by (rule triple_pure)
  have first: "triple P (\<lambda>d. if fi_len right \<noteq> fi_len left then (Ok False, d)
      else then_out (map_err WriteIo (compare_loop (view_file d l) (view_file d r) (unat (fi_len left)) 0), d) (\<lambda>same d.
        if \<not> same then (Ok False, d)
        else then_out (fstat l d) (\<lambda>left' d. if left' \<noteq> left then (Ok False, d)
          else then_out (fstat r d) (\<lambda>right' d. (Ok (right' = right), d))))) (\<lambda>_. P) (\<lambda>e. P)" for left right :: file_identity
    using ok [of False] triple_then [OF loop mid] by (cases "fi_len right = fi_len left") simp_all
  show ?thesis
    unfolding files_equal_def [abs_def] by (rule triple_then [OF f triple_then [OF f first]])
qed

lemma triple_files_equal:
  assumes q: "quiet P" and len: "\<And>d. P d \<Longrightarrow> length (in_bytes (dk_inodes d l)) < 2 ^ 64 \<and> length (in_bytes (dk_inodes d r)) < 2 ^ 64"
  shows "triple P (files_equal l r) (\<lambda>b d. P d \<and> (b \<longrightarrow> in_bytes (dk_inodes d l) = in_bytes (dk_inodes d r))) (\<lambda>e. P)"
  unfolding triple_def
proof (intro allI impI)
  fix d assume p: "P d"
  show "case files_equal l r d of
      (Err e, d') \<Rightarrow> P d' | (Ok b, d') \<Rightarrow> P d' \<and> (b \<longrightarrow> in_bytes (dk_inodes d' l) = in_bytes (dk_inodes d' r))"
  proof (cases "files_equal l r d")
    case (Pair res d')
    have keep: "P d'" using triple_files_equal_keep [OF q, of l r] p Pair by (cases res) (auto simp: triple_def)
    show ?thesis
    proof (cases res)
      case (Inr b)
      with files_equal_Ok [of l r d b d'] Pair len [OF p] keep show ?thesis by (auto simp: same_disk_facts(3))
    qed (use Pair keep in simp)
  qed
qed

lemma validate_segment_len: "validate_segment A f sm = Ok True \<Longrightarrow> length (content f) = unat (ws_bytes sm)"
  by (auto simp: validate_segment_def and_then_Ok_iff dest!: metadata_len_Ok split: if_splits)

text \<open>An existing file that passes the checks holds the generated bytes.\<close>

definition same_as_final :: "segment_address \<Rightarrow> bytes \<Rightarrow> disk \<Rightarrow> bool" where
  "same_as_final a bs d \<longleftrightarrow> (\<exists>k. node_at d (segment_path a) = Some (FileNode k) \<and> in_bytes (dk_inodes d k) = bs)"

lemma quiet_same_as_final [simp]: "quiet (same_as_final a bs)"
  by (simp add: quiet_def same_as_final_def node_at_def)

lemma triple_check_existing:
  assumes short: "length bs < 2 ^ 64"
  shows "triple (holding a d0 T g bs) (check_existing A a g sm)
    (\<lambda>_ d. holding a d0 T g bs d \<and> same_as_final a bs d) (\<lambda>e. holding a d0 T g bs)"
proof -
  let ?H = "holding a d0 T g bs"
  let ?N = "\<lambda>k d. ?H d \<and> node_at d (segment_path a) = Some (FileNode k)"
  let ?V = "\<lambda>k d. ?N k d \<and> length (in_bytes (dk_inodes d k)) < 2 ^ 64"
  let ?S = "\<lambda>d. ?H d \<and> same_as_final a bs d"
  let ?E = "\<lambda>(e :: write_error). ?H"
  have qN: "quiet (?N k)" for k by (simp add: quiet_conj)
  have "quiet (\<lambda>d. length (in_bytes (dk_inodes d k)) < 2 ^ 64)" for k by (simp add: quiet_def)
  from quiet_conj [OF qN this] have qV: "quiet (?V k)" for k .
  have qS: "quiet ?S" by (simp add: quiet_conj)
  have weak: "triple P f Q (\<lambda>e. P) \<Longrightarrow> (\<And>d. P d \<Longrightarrow> ?H d) \<Longrightarrow> triple P f Q ?E" for P f and Q :: "'z \<Rightarrow> disk \<Rightarrow> bool"
    by (rule triple_weaken)
  have err: "triple P (\<lambda>d. (Err x, d)) Q ?E" if "\<And>d. P d \<Longrightarrow> ?H d" for P x and Q :: "'y \<Rightarrow> disk \<Rightarrow> bool"
    using that by (simp add: triple_def)
  have valid: "triple (?N k) (\<lambda>d. (map_err WriteIo (validate_segment A (view_file d k) sm), d))
      (\<lambda>b d. if b then ?V k d else ?H d) ?E" for k
  proof (rule triple_pure)
    fix d b assume "?N k d" "map_err WriteIo (validate_segment A (view_file d k) sm) = Ok b"
    then show "if b then ?V k d else ?H d"
      using validate_segment_len [of A "view_file d k" sm] unat_lt2p [of "ws_bytes sm"] by (cases b) (auto simp: view_file_def)
  qed simp
  have equal: "triple (?V k) (files_equal g k) (\<lambda>b d. if b then ?S d else ?H d) ?E" for k
  proof (rule triple_weaken [OF triple_files_equal [OF qV [of k], of g k]])
    show "length (in_bytes (dk_inodes d g)) < 2 ^ 64 \<and> length (in_bytes (dk_inodes d k)) < 2 ^ 64" if "?V k d" for d
      using that short by (simp add: holding_def)
    show "if b then ?S d else ?H d" if "?V k d \<and> (b \<longrightarrow> in_bytes (dk_inodes d g) = in_bytes (dk_inodes d k))" for b d
      using that by (auto simp: same_as_final_def holding_def)
  qed auto
  have named: "triple ?S (\<lambda>d. then_out (fstat named d) (\<lambda>named_identity d.
      if named_identity \<noteq> identity then (Err ExistingSegmentMismatch, d) else (Ok (), d))) (\<lambda>_. ?S) ?E"
    for named identity
    by (rule triple_then [OF weak [OF triple_fstat [OF qS]] triple_guard [OF err]]) (auto simp: triple_def)
  have reopened: "triple ?S (\<lambda>d. then_out (err_out WriteLayout (open_zms a d)) (\<lambda>named d.
      then_out (fstat named d) (\<lambda>named_identity d.
      if named_identity \<noteq> identity then (Err ExistingSegmentMismatch, d) else (Ok (), d)))) (\<lambda>_. ?S) ?E" for identity
    by (rule triple_then [OF triple_err_out [OF triple_weaken [OF triple_open_zms [OF qS]]] named]) auto
  have again: "triple ?S (\<lambda>d. then_out (fstat existing d) (\<lambda>again d.
      if again \<noteq> identity then (Err ExistingSegmentMismatch, d)
      else then_out (err_out WriteLayout (open_zms a d)) (\<lambda>named d.
        then_out (fstat named d) (\<lambda>named_identity d.
        if named_identity \<noteq> identity then (Err ExistingSegmentMismatch, d) else (Ok (), d))))) (\<lambda>_. ?S) ?E"
    for existing identity
    by (rule triple_then [OF weak [OF triple_fstat [OF qS]] triple_guard [OF err reopened]]) auto
  have compared: "triple (?V existing) (\<lambda>d. then_out (files_equal g existing d) (\<lambda>equal d.
      if \<not> equal then (Err ExistingSegmentMismatch, d)
      else then_out (fstat existing d) (\<lambda>again d.
        if again \<noteq> identity then (Err ExistingSegmentMismatch, d)
        else then_out (err_out WriteLayout (open_zms a d)) (\<lambda>named d.
          then_out (fstat named d) (\<lambda>named_identity d.
          if named_identity \<noteq> identity then (Err ExistingSegmentMismatch, d) else (Ok (), d)))))) (\<lambda>_. ?S) ?E"
    for existing identity
    by (rule triple_then [OF equal triple_guard]) (auto intro: err again)
  show ?thesis
    unfolding check_existing_def [abs_def]
    apply (rule triple_then [OF triple_err_out [OF triple_open_zms]], simp)
    apply (rule triple_then [OF weak [OF triple_fstat [OF qN]]], blast)
    apply (rule triple_then [OF valid triple_guard])
     apply (rule err, simp)
    apply (simp only: not_not if_True)
    apply (rule compared)
    done
qed

section \<open>The outcome\<close>

text \<open>A new final name shows synchronized bytes; after success it is durable.\<close>

definition appeared :: "segment_address \<Rightarrow> disk \<Rightarrow> bytes \<Rightarrow> disk \<Rightarrow> bool" where
  "appeared a d0 bs d \<longleftrightarrow> wf_disk d \<and> frame d0 d \<and> node_at d0 (segment_path a) = None \<and>
     (\<forall>b. segment_path b \<noteq> segment_path a \<longrightarrow> node_at d (segment_path b) = node_at d0 (segment_path b)) \<and>
     (\<exists>k. dk_next d0 \<le> k \<and> node_at d (segment_path a) = Some (FileNode k) \<and> in_bytes (dk_inodes d k) = bs \<and>
        in_synced (dk_inodes d k) = bs)"

definition settled :: "segment_address \<Rightarrow> disk \<Rightarrow> bytes \<Rightarrow> disk \<Rightarrow> bool" where
  "settled a d0 bs d \<longleftrightarrow> durable_at d (segment_path a) = node_at d (segment_path a) \<and>
     (appeared a d0 bs d \<or> before_link d0 d \<and> same_as_final a bs d0)"

lemma removable_appeared:
  assumes "\<forall>b. segment_path b \<noteq> temp_path t" and "node_at d0 (temp_path t) = None"
  shows "removable t (appeared a d0 bs)"
  using assms
  by (auto simp: removable_def quiet_def appeared_def wf_disk_def frame_def node_at_def [of "_\<lparr>dk_faults := _\<rparr>"])
    (auto simp: node_at_def)

lemma linked_appeared:
  assumes h: "holding a d0 T (zt_inode t) bs d1" and t: "t \<in> T" and l: "linked t d1 d"
  shows "appeared a d0 bs d"
proof -
  have fr: "frame d0 d1" and wf: "wf_disk d1" and fp: "\<forall>b. node_at d1 (segment_path b) = node_at d0 (segment_path b)"
    and tt: "temp_of a d0 d1 t" and bs: "in_bytes (dk_inodes d1 (zt_inode t)) = bs"
    using h t by (simp_all add: holding_def held_def before_link_def)
  have ok: "others_kept t d1 d" "file_synced t d" "node_at d1 (final_path t) = None"
      "node_at d (final_path t) = Some (FileNode (zt_inode t))" "node_at d (temp_path t) \<in> {node_at d1 (temp_path t), None}"
    using l by (simp_all add: linked_def)
  have fin: "final_path t = segment_path a" and low: "dk_next d0 \<le> zt_inode t" "zt_inode t < dk_next d1"
    and t0: "node_at d0 (temp_path t) = None" and tp: "\<forall>b. segment_path b \<noteq> temp_path t"
    using tt by (simp_all add: temp_of_def)
  have d0: "node_at d0 (segment_path a) = None" using ok(3) fp by (simp add: fin)
  have nx: "dk_next d = dk_next d1" and others: "\<And>p. p \<noteq> temp_path t \<Longrightarrow> p \<noteq> segment_path a \<Longrightarrow> node_at d p = node_at d1 p"
    and bytes: "\<And>k. in_bytes (dk_inodes d k) = in_bytes (dk_inodes d1 k)"
    and synced: "\<And>k. k \<noteq> zt_inode t \<Longrightarrow> in_synced (dk_inodes d k) = in_synced (dk_inodes d1 k)"
    using ok(1) by (auto simp: others_kept_def fin)
  have "wf_disk d"
    unfolding wf_disk_def nx
  proof (intro allI impI)
    fix p i assume n: "node_at d p = Some (FileNode i)"
    consider "p = segment_path a" | "p = temp_path t" "p \<noteq> segment_path a" | "p \<noteq> temp_path t" "p \<noteq> segment_path a" by blast
    then show "i < dk_next d1"
    proof cases
      case 1
      then show ?thesis using n ok(4) low(2) by (simp add: fin)
    next
      case 2
      then have "node_at d1 p = Some (FileNode i)" using n ok(5) by auto
      then show ?thesis using wf by (auto simp: wf_disk_def)
    next
      case 3
      then show ?thesis using n others wf by (auto simp: wf_disk_def)
    qed
  qed
  moreover have "frame d0 d"
    unfolding frame_def nx
  proof (intro conjI allI impI)
    fix p assume p: "node_at d0 p \<noteq> None"
    then have "p \<noteq> temp_path t" "p \<noteq> segment_path a" using t0 d0 by auto
    then show "node_at d p = node_at d0 p" using others p fr by (simp add: frame_def)
  next
    fix k assume "k < dk_next d0"
    then show "in_bytes (dk_inodes d k) = in_bytes (dk_inodes d0 k)" "in_synced (dk_inodes d k) = in_synced (dk_inodes d0 k)"
      using bytes synced low fr by (simp_all add: frame_def)
  qed (use fr in \<open>simp add: frame_def\<close>)
  moreover have "in_bytes (dk_inodes d (zt_inode t)) = bs" "in_synced (dk_inodes d (zt_inode t)) = bs"
    using bytes bs ok(2) by (simp_all add: file_synced_def)
  ultimately show ?thesis
    using d0 low(1) ok(4) others fp tp by (auto simp: appeared_def fin intro!: exI [of _ "zt_inode t"])
qed

lemma unlinked_holding:
  assumes h: "holding a d0 T k bs d1" and t: "t \<in> T" and u: "unlinked t d1 d"
  shows "holding a d0 T k bs d"
proof -
  have fin: "final_path t = segment_path a" and low: "dk_next d0 \<le> zt_inode t"
    using h t by (auto simp: holding_def held_def temp_of_def)
  have names: "node_at d p = node_at d1 p" for p
    using u by (cases "p = temp_path t \<or> p = final_path t") (auto simp: unlinked_def others_kept_def)
  have "before_link d0 d"
    using h u low by (auto simp: holding_def held_def before_link_def wf_disk_def frame_def names unlinked_def others_kept_def)
  moreover have "dk_next d = dk_next d1" "in_bytes (dk_inodes d k) = in_bytes (dk_inodes d1 k)"
    using u by (simp_all add: unlinked_def others_kept_def)
  ultimately show ?thesis
    using h held_mono [of a d0 T d1 d] by (simp add: holding_def)
qed

lemma triple_publish_run:
  assumes t: "t \<in> T"
  shows "triple (holding a d0 T (zt_inode t) bs) (publish t) (\<lambda>_. settled a d0 bs)
    (\<lambda>e d. holding a d0 T (zt_inode t) bs d \<or> appeared a d0 bs d \<and> (\<forall>x. e \<noteq> SegmentAlreadyExists x))"
  unfolding triple_def
proof (intro allI impI)
  fix d1 assume h: "holding a d0 T (zt_inode t) bs d1"
  then have tt: "temp_of a d0 d1 t" using t by (simp add: holding_def held_def)
  then have ne: "zt_temp_name t \<noteq> zt_final_name t" and fin: "final_path t = segment_path a"
    by (simp_all add: temp_of_def)
  have u: "unlinked t d1 d1" by (simp add: unlinked_def others_kept_def)
  note run = triple_Ok [OF triple_publish [OF ne] u] triple_Err [OF triple_publish [OF ne] u]
  obtain r d where p: "publish t d1 = (r, d)" by fastforce
  show "case publish t d1 of
      (Err e, d) \<Rightarrow> holding a d0 T (zt_inode t) bs d \<or> appeared a d0 bs d \<and> (\<forall>x. e \<noteq> SegmentAlreadyExists x)
    | (Ok _, d) \<Rightarrow> settled a d0 bs d"
  proof (cases r)
    case (Inl e)
    then have "publish_failed t d1 e d" using run(2) p by simp
    then show ?thesis
      using Inl p linked_appeared [OF h t] unlinked_holding [OF h t] by (auto simp: publish_failed_def)
  next
    case (Inr x)
    then have pub: "published t d1 d" using run(1) p by simp
    then have "appeared a d0 bs d" using linked_appeared [OF h t] by (simp add: published_def)
    moreover have "durable_at d (segment_path a) = node_at d (segment_path a)"
      using pub by (simp add: published_def linked_def fin)
    ultimately show ?thesis using Inr p by (simp add: settled_def)
  qed
qed

lemma holding_subset: "holding a d0 T k bs d \<Longrightarrow> T' \<subseteq> T \<Longrightarrow> holding a d0 T' k bs d"
  by (auto simp: holding_def held_def)

lemma removable_or: "removable t P \<Longrightarrow> removable t Q \<Longrightarrow> removable t (\<lambda>d. P d \<or> Q d)"
  by (auto simp: removable_def quiet_def)

text \<open>What every failing run leaves behind, and what a successful one does.\<close>

definition left_behind :: "segment_address \<Rightarrow> disk \<Rightarrow> bytes \<Rightarrow> disk \<Rightarrow> bool" where
  "left_behind a d0 bs d \<longleftrightarrow> before_link d0 d \<or> appeared a d0 bs d"

lemma holding_left: "holding a d0 T k bs d \<Longrightarrow> left_behind a d0 x d"
  by (simp add: holding_def held_def left_behind_def)

lemma drop_left:
  assumes "holding a d0 T k bs d \<or> appeared a d0 bs d" and "t \<in> T" and "\<forall>b. segment_path b \<noteq> temp_path t"
    and "node_at d0 (temp_path t) = None"
  shows "left_behind a d0 bs (drop_temp t d)"
proof -
  have "removable t (\<lambda>d. holding a d0 T k bs d \<or> appeared a d0 bs d)"
    by (intro removable_or removable_holding removable_appeared assms(2-4))
  from drop_temp_keeps [OF this assms(1)] show ?thesis
    using holding_left [of a d0 T k bs "drop_temp t d" bs] by (auto simp: left_behind_def)
qed

lemma triple_clone:
  "triple (holding a d0 {t} (zt_inode t) bs) (try_clone_file t)
     (\<lambda>x d. fst x = zt_inode t \<and> zt_inode (snd x) = zt_inode t \<and> holding a d0 {snd x} (zt_inode t) bs d)
     (\<lambda>e. holding a d0 {t} (zt_inode t) bs)"
proof -
  let ?i = "zt_inode t" and ?H = "holding a d0 {t} (zt_inode t) bs"
  have mark: "holding a d0 {t\<lparr>zt_prepared := p\<rparr>} ?i bs d" if "?H d" for p d
    using that by (simp add: holding_def held_def temp_of_def temp_path_def final_path_def)
  have dup: "triple ?H (disk_sys Io (return ?i)) (\<lambda>i d. i = ?i \<and> ?H d) (\<lambda>e. ?H)"
    by (rule triple_sys) (auto simp: triple_def return_def)
  have stat: "triple (\<lambda>d. i = ?i \<and> ?H d)
      (seq (identity_from_file i) (\<lambda>identity. return (i, t\<lparr>zt_prepared := Some identity\<rparr>)))
      (\<lambda>x d. fst x = ?i \<and> zt_inode (snd x) = ?i \<and> holding a d0 {snd x} ?i bs d) (\<lambda>e. ?H)" for i
  proof (cases "i = ?i")
    case True
    then show ?thesis
      using mark by (simp, intro triple_seq [OF triple_identity_keep triple_return]) auto
  qed (simp add: triple_def)
  show ?thesis unfolding try_clone_file_def by (rule triple_seq [OF dup stat])
qed

lemma triple_publish_generated:
  assumes laws: "crc_laws A" and seg: "segment_of A cd j plan sm bs" and short: "length bs < 2 ^ 64" and wf: "wf_disk d0"
  shows "triple (holding a d0 {t} (zt_inode t) bs) (publish_generated A a t sm)
    (\<lambda>sm' d. sm' = sm \<and> settled a d0 bs d) (\<lambda>e. left_behind a d0 bs)"
proof -
  let ?i = "zt_inode t"
  let ?H = "\<lambda>t. holding a d0 {t} ?i bs" and ?E = "\<lambda>(e :: write_error). left_behind a d0 bs"
  let ?Q = "\<lambda>sm' d. sm' = sm \<and> settled a d0 bs d"
  have drop: "?H t' d \<Longrightarrow> left_behind a d0 bs (drop_temp t' d)" for t' d
    by (rule holding_left [OF holding_drop_temp]) simp_all
  have lost: "triple (?H t') (\<lambda>d. or_drop t' (Err e, d)) ?Q ?E" for t' e
    using drop by (simp add: triple_def or_drop_def)
  have clone: "triple (?H t) (\<lambda>d. or_drop t (err_out WriteLayout (try_clone_file t d)))
      (\<lambda>x d. fst x = ?i \<and> zt_inode (snd x) = ?i \<and> ?H (snd x) d) ?E"
    by (rule triple_or_drop [OF triple_err_keep [OF triple_clone]]) (erule drop)
  have valid: "triple (?H t') (\<lambda>d. or_drop t' (map_err WriteIo (validate_segment A (view_file d ?i) sm), d))
      (\<lambda>b d. b \<and> ?H t' d) ?E" for t'
  proof -
    have "triple (?H t') (\<lambda>d. (map_err WriteIo (validate_segment A (view_file d ?i) sm), d))
        (\<lambda>b d. b \<and> ?H t' d) (\<lambda>e. ?H t')"
    proof (rule triple_pure)
      fix d b assume h: "?H t' d" and v: "map_err WriteIo (validate_segment A (view_file d ?i) sm) = Ok b"
      have "b"
        by (rule segment_of_accepts [OF laws seg short, of "view_file d ?i"])
          (use h v in \<open>simp_all add: holding_def view_file_def\<close>)
      with h show "b \<and> ?H t' d" by simp
    qed simp
    then show ?thesis by (rule triple_or_drop) (erule drop)
  qed
  have same: "same_as_final a bs d0" if "?H t' d" "same_as_final a bs d" for t' d
  proof -
    from that obtain k where k: "node_at d0 (segment_path a) = Some (FileNode k)" "in_bytes (dk_inodes d k) = bs"
      and "frame d0 d" by (auto simp: same_as_final_def holding_def held_def before_link_def)
    moreover from k(1) have "k < dk_next d0" using wf by (simp add: wf_disk_def)
    ultimately show ?thesis by (auto simp: same_as_final_def frame_def)
  qed
  have checked: "triple (?H t') (\<lambda>d. or_drop t' (check_existing A a ?i sm d))
      (\<lambda>_ d. ?H t' d \<and> same_as_final a bs d0) ?E" for t'
  proof (rule triple_or_drop)
    show "triple (?H t') (check_existing A a ?i sm) (\<lambda>_ d. ?H t' d \<and> same_as_final a bs d0) (\<lambda>e. ?H t')"
      by (rule triple_weaken [OF triple_check_existing [OF short]]) (auto intro: same)
  qed (erule drop)
  have dis: "triple (?H t') (\<lambda>d. then_out (err_out WriteLayout (discard t' d)) (\<lambda>_ d. (Ok sm, d))) ?Q ?E"
    if "same_as_final a bs d0" "final_path t' = segment_path a" for t'
  proof (rule triple_then [OF triple_err_keep [OF triple_discard [of t' "{t'}"]]])
    show "triple (\<lambda>d. ?H t' d \<and> (final_path t' = segment_path a \<longrightarrow> durable_at d (segment_path a) = node_at d (segment_path a)))
        (\<lambda>d. (Ok sm, d)) ?Q ?E"
      using that by (auto simp: triple_def settled_def holding_def held_def)
  qed (auto intro: holding_left)
  have existing: "triple (?H t') (\<lambda>d. then_out (or_drop t' (check_existing A a ?i sm d)) (\<lambda>_ d.
      then_out (err_out WriteLayout (discard t' d)) (\<lambda>_ d. (Ok sm, d)))) ?Q ?E"
    if "final_path t' = segment_path a" for t'
    by (rule triple_then [OF checked triple_fact [OF dis [OF _ that]]])
  have publish: "triple (?H t') (\<lambda>d. case publish t' d of
          (Ok _, d) \<Rightarrow> (Ok sm, d)
        | (Err e, d) \<Rightarrow>
            (case e of
               SegmentAlreadyExists _ \<Rightarrow>
                 then_out (or_drop t' (check_existing A a ?i sm d)) (\<lambda>_ d.
                 then_out (err_out WriteLayout (discard t' d)) (\<lambda>_ d. (Ok sm, d)))
             | _ \<Rightarrow> or_drop t' (Err (WriteLayout e), d))) ?Q ?E" if i: "zt_inode t' = ?i" for t'
    unfolding triple_def
  proof (intro allI impI)
    fix d assume h: "?H t' d"
    then have tt: "final_path t' = segment_path a" "\<forall>b. segment_path b \<noteq> temp_path t'" "node_at d0 (temp_path t') = None"
      by (simp_all add: holding_def held_def temp_of_def)
    have run: "triple (?H t') (publish t') (\<lambda>_. settled a d0 bs)
        (\<lambda>e d. ?H t' d \<or> appeared a d0 bs d \<and> (\<forall>x. e \<noteq> SegmentAlreadyExists x))"
      using triple_publish_run [of t' "{t'}" a d0 bs] i by simp
    obtain r d' where p: "publish t' d = (r, d')" by fastforce
    show "case (case publish t' d of (Ok _, d) \<Rightarrow> (Ok sm, d)
        | (Err e, d) \<Rightarrow>
            (case e of
               SegmentAlreadyExists _ \<Rightarrow>
                 then_out (or_drop t' (check_existing A a ?i sm d)) (\<lambda>_ d.
                 then_out (err_out WriteLayout (discard t' d)) (\<lambda>_ d. (Ok sm, d)))
             | _ \<Rightarrow> or_drop t' (Err (WriteLayout e), d)))
      of (Err e, d') \<Rightarrow> left_behind a d0 bs d' | (Ok x, d') \<Rightarrow> ?Q x d'"
    proof (cases r)
      case (Inr x)
      then show ?thesis using triple_Ok [OF run h] p by simp
    next
      case (Inl e)
      then have e: "?H t' d' \<or> appeared a d0 bs d' \<and> (\<forall>x. e \<noteq> SegmentAlreadyExists x)"
        using triple_Err [OF run h] p by simp
      have dropped: "left_behind a d0 bs (drop_temp t' d')"
        using drop_left [of a d0 "{t'}" ?i bs d' t'] e tt(2,3) by blast
      show ?thesis
      proof (cases "\<exists>x. e = SegmentAlreadyExists x")
        case True
        then have "?H t' d'" using e by blast
        with existing [OF tt(1)] have "case then_out (or_drop t' (check_existing A a ?i sm d')) (\<lambda>_ d.
            then_out (err_out WriteLayout (discard t' d)) (\<lambda>_ d. (Ok sm, d)))
          of (Err e, d') \<Rightarrow> left_behind a d0 bs d' | (Ok x, d') \<Rightarrow> ?Q x d'" by (simp add: triple_def)
        with True p Inl show ?thesis by auto
      next
        case False
        then show ?thesis using dropped p Inl by (cases e) (simp_all add: or_drop_def)
      qed
    qed
  qed
  have guarded: "triple (\<lambda>d. valid \<and> ?H t' d) (\<lambda>d. if \<not> valid then or_drop t' (Err GeneratedSegmentInvalid, d)
      else (case publish t' d of
          (Ok _, d) \<Rightarrow> (Ok sm, d)
        | (Err e, d) \<Rightarrow>
            (case e of
               SegmentAlreadyExists _ \<Rightarrow>
                 then_out (or_drop t' (check_existing A a ?i sm d)) (\<lambda>_ d.
                 then_out (err_out WriteLayout (discard t' d)) (\<lambda>_ d. (Ok sm, d)))
             | _ \<Rightarrow> or_drop t' (Err (WriteLayout e), d)))) ?Q ?E" if "zt_inode t' = ?i" for t' valid
    using publish [OF that] by (cases valid) (simp_all add: triple_def)
  have rest: "triple (\<lambda>d. fst x = ?i \<and> zt_inode (snd x) = ?i \<and> ?H (snd x) d)
      (\<lambda>d. (\<lambda>(generated, t') d. then_out (or_drop t' (map_err WriteIo (validate_segment A (view_file d generated) sm), d)) (\<lambda>valid d.
        if \<not> valid then or_drop t' (Err GeneratedSegmentInvalid, d)
        else (case publish t' d of
          (Ok _, d) \<Rightarrow> (Ok sm, d)
        | (Err e, d) \<Rightarrow>
            (case e of
               SegmentAlreadyExists _ \<Rightarrow>
                 then_out (or_drop t' (check_existing A a generated sm d)) (\<lambda>_ d.
                 then_out (err_out WriteLayout (discard t' d)) (\<lambda>_ d. (Ok sm, d)))
             | _ \<Rightarrow> or_drop t' (Err (WriteLayout e), d))))) x d) ?Q ?E" for x
  proof (cases "fst x = ?i \<and> zt_inode (snd x) = ?i")
    case True
    obtain g t' where x: "x = (g, t')" by fastforce
    with True have g: "g = ?i" and i: "zt_inode t' = ?i" by simp_all
    show ?thesis
      unfolding x g prod.case fst_conv snd_conv i
      by (rule triple_weaken [OF triple_then [OF valid guarded [OF i]]]) auto
  qed (auto simp: triple_def)
  show ?thesis
    unfolding publish_generated_def [abs_def] by (rule triple_then [OF clone rest])
qed

section \<open>The whole run\<close>

lemma triple_sync_temp:
  assumes "t \<in> T"
  shows "triple (holding a d0 T k bs) (sync_file (zt_inode t)) (\<lambda>_. holding a d0 T k bs) (\<lambda>e. holding a d0 T k bs)"
proof (rule triple_sync_file)
  fix d d' :: disk assume h: "holding a d0 T k bs d" and n: "dk_names d' = dk_names d" "dk_next d' = dk_next d"
    and i: "dk_inodes d' = (dk_inodes d)(zt_inode t := (dk_inodes d (zt_inode t))\<lparr>in_synced := in_bytes (dk_inodes d (zt_inode t))\<rparr>)"
  have low: "dk_next d0 \<le> zt_inode t" using h assms by (auto simp: holding_def held_def temp_of_def)
  have "before_link d0 d'"
    using h low unfolding holding_def held_def before_link_def wf_disk_def frame_def node_at_def n i by auto
  then have "held a d0 T d'" using h held_mono [of a d0 T d d'] n by (simp add: holding_def)
  then show "holding a d0 T k bs d'" using h by (auto simp: holding_def i)
qed simp_all

text \<open>A generated segment: the container of the journal's plan.\<close>

definition generated :: "'d crc_alg \<Rightarrow> codec \<Rightarrow> journal \<Rightarrow> write_summary \<Rightarrow> bytes \<Rightarrow> bool" where
  "generated A cd j sm bs \<longleftrightarrow> length bs < 2 ^ 64 \<and> (\<exists>plan. plan_segment A j = Ok plan \<and> segment_of A cd j plan sm bs)"

lemma triple_write_tmp:
  assumes laws: "crc_laws A" and ne: "zt_inode temporary \<noteq> zt_inode spool"
  shows "triple (held a d0 {temporary, spool}) (write_tmp A cd flt j temporary spool)
    (\<lambda>sm d. \<exists>bs. generated A cd j sm bs \<and> holding a d0 {temporary, spool} (zt_inode temporary) bs d)
    (\<lambda>e. held a d0 {temporary, spool})"
  unfolding triple_def
proof (intro allI impI)
  let ?T = "{temporary, spool}"
  let ?Q = "\<lambda>sm d. \<exists>bs. generated A cd j sm bs \<and> holding a d0 ?T (zt_inode temporary) bs d"
  fix d assume h: "held a d0 ?T d"
  show "case write_tmp A cd flt j temporary spool d of (Err e, d) \<Rightarrow> held a d0 ?T d | (Ok sm, d) \<Rightarrow> ?Q sm d"
  proof (cases "plan_segment A j")
    case (Inl e)
    then show ?thesis using h by (simp add: write_tmp_def then_out_def)
  next
    case plan: (Inr plan)
    obtain sections so where sp: "spool_sections A cd j plan \<lparr>written = [], out_faults = spool_faults flt\<rparr> = (sections, so)"
      by fastforce
    let ?d1 = "put_bytes (zt_inode spool) (written so) d"
    have h1: "held a d0 ?T ?d1" by (rule held_put_bytes [OF h]) simp
    show ?thesis
    proof (cases sections)
      case (Inl e)
      then show ?thesis using h1 plan sp by (simp add: write_tmp_def then_out_def)
    next
      case (Inr spooled)
      with spool_sections_Ok [OF plan] sp have con: "list_all constructed spooled"
        and "sections_made cd (plan_inputs j plan) (map (in_spool (written so)) spooled)" by simp_all
      moreover have "content (view_file ?d1 (zt_inode spool)) = written so" by (simp add: view_file_def put_bytes_bytes)
      ultimately have made: "sections_made cd (plan_inputs j plan) (map (in_spool (content (view_file ?d1 (zt_inode spool)))) spooled)"
        by simp
      show ?thesis
      proof (cases "FinishedZmsPlan_new spooled (sp_min_ts plan) (sp_max_ts plan) (sp_window_count plan)")
        case (Inl e)
        then show ?thesis using h1 plan sp Inr by (simp add: write_tmp_def then_out_def)
      next
        case fin: (Inr finished)
        obtain r out where w: "write_finished_zms A (view_file ?d1 (zt_inode spool)) finished
            \<lparr>written = [], out_faults = final_faults flt\<rparr> = (r, out)" by fastforce
        let ?d2 = "put_bytes (zt_inode temporary) (written out) ?d1"
        have h2: "holding a d0 ?T (zt_inode temporary) (written out) ?d2"
          using held_put_bytes [OF h1] by (simp add: holding_def put_bytes_bytes)
        note sync = triple_sync_temp [of temporary ?T a d0 "zt_inode temporary" "written out"]
        show ?thesis
        proof (cases r)
          case (Inl e)
          then show ?thesis using h2 plan sp fin w \<open>sections = Ok spooled\<close>
            by (simp add: write_tmp_def then_out_def holding_def)
        next
          case (Inr sm)
          then have gen: "generated A cd j sm (written out)"
            using finished_segment_of [OF laws con made fin] w plan by (fastforce simp: generated_def)
          obtain r3 d3 where s3: "sync_file (zt_inode temporary) ?d2 = (r3, d3)" by fastforce
          have h3: "holding a d0 ?T (zt_inode temporary) (written out) d3"
            using triple_Ok [OF sync h2] triple_Err [OF sync h2] s3 by (cases r3) auto
          show ?thesis
            using h3 gen plan sp fin w Inr \<open>sections = Ok spooled\<close> s3
            by (cases r3) (auto simp: write_tmp_def then_out_def err_out_def holding_def)
        qed
      qed
    qed
  qed
qed

definition safe_outcome :: "'d crc_alg \<Rightarrow> codec \<Rightarrow> journal \<Rightarrow> segment_address \<Rightarrow> disk \<Rightarrow> disk \<Rightarrow> bool" where
  "safe_outcome A cd j a d0 d \<longleftrightarrow> before_link d0 d \<or> (\<exists>sm bs. generated A cd j sm bs \<and> appeared a d0 bs d)"

lemma held_safe: "held a d0 T d \<Longrightarrow> safe_outcome A cd j a d0 d"
  by (simp add: held_def safe_outcome_def)

lemma triple_write_segment:
  assumes laws: "crc_laws A" and wf: "wf_disk d0"
  shows "triple (\<lambda>d. d = d0) (write_segment A cd flt j a)
    (\<lambda>sm d. \<exists>bs. generated A cd j sm bs \<and> settled a d0 bs d) (\<lambda>e. safe_outcome A cd j a d0)"
proof -
  let ?E = "\<lambda>(e :: write_error). safe_outcome A cd j a d0"
  let ?Q = "\<lambda>sm d. \<exists>bs. generated A cd j sm bs \<and> settled a d0 bs d"
  let ?two = "\<lambda>t s. held a d0 {t, s}"
  have start: "held a d0 {} d0" using before_link_refl [OF wf] by (simp add: held_def)
  have keep: "held a d0 T (drop_temp t d)" if "held a d0 T d" "t \<in> T" for t T d
    using holding_drop_temp [OF that(2), of a d0 0 "in_bytes (dk_inodes d 0)" d] that(1) by (simp add: holding_def)
  have drop: "safe_outcome A cd j a d0 (drop_temp t d)" if "held a d0 T d" "t \<in> T" for t T d
    by (rule held_safe [OF keep [OF that]])
  have first: "triple (held a d0 {}) (\<lambda>d. err_out WriteLayout (create_zms_temp a d))
      (\<lambda>t d. held a d0 {t} d) ?E"
    by (rule triple_weaken [OF triple_err_keep [OF triple_create_temp]]) (auto intro: held_safe)
  have second: "triple (held a d0 {t}) (\<lambda>d. or_drop t (err_out WriteLayout (create_zms_temp a d)))
      (\<lambda>s d. ?two t s d \<and> zt_inode t \<noteq> zt_inode s) ?E" for t
  proof (rule triple_or_drop)
    show "triple (held a d0 {t}) (\<lambda>d. err_out WriteLayout (create_zms_temp a d))
        (\<lambda>s d. ?two t s d \<and> zt_inode t \<noteq> zt_inode s) (\<lambda>e. held a d0 {t})"
      by (rule triple_weaken [OF triple_err_keep [OF triple_create_temp]]) (auto simp: insert_commute)
  qed (erule drop, simp)
  have tmp: "triple (?two t s) (\<lambda>d. or_drop t (or_drop s (write_tmp A cd flt j t s d)))
      (\<lambda>sm d. \<exists>bs. generated A cd j sm bs \<and> holding a d0 {t, s} (zt_inode t) bs d) ?E"
    if "zt_inode t \<noteq> zt_inode s" for t s
  proof (rule triple_or_drop)
    show "triple (?two t s) (\<lambda>d. or_drop s (write_tmp A cd flt j t s d))
        (\<lambda>sm d. \<exists>bs. generated A cd j sm bs \<and> holding a d0 {t, s} (zt_inode t) bs d) (\<lambda>e. ?two t s)"
      by (rule triple_or_drop [OF triple_write_tmp [OF laws that]]) (erule keep, simp)
  qed (erule drop, simp)
  have finish: "triple (\<lambda>d. \<exists>bs. generated A cd j sm bs \<and> holding a d0 {t, s} (zt_inode t) bs d)
      (\<lambda>d. then_out (or_drop t (err_out WriteLayout (discard s d))) (\<lambda>_ d. publish_generated A a t sm d)) ?Q ?E"
    for t s sm
    unfolding triple_def
  proof (intro allI impI, elim exE conjE)
    fix d bs assume gen: "generated A cd j sm bs" and h: "holding a d0 {t, s} (zt_inode t) bs d"
    from gen obtain plan where seg: "segment_of A cd j plan sm bs" and short: "length bs < 2 ^ 64"
      by (auto simp: generated_def)
    have dis: "triple (holding a d0 {t, s} (zt_inode t) bs) (\<lambda>d. or_drop t (err_out WriteLayout (discard s d)))
        (\<lambda>_ d. holding a d0 {t} (zt_inode t) bs d) ?E"
    proof (rule triple_or_drop)
      show "triple (holding a d0 {t, s} (zt_inode t) bs) (\<lambda>d. err_out WriteLayout (discard s d))
          (\<lambda>_ d. holding a d0 {t} (zt_inode t) bs d) (\<lambda>e. ?two t s)"
        by (rule triple_weaken [OF triple_err_keep [OF triple_discard [of s "{t, s}"]]])
          (auto simp: holding_def held_def)
    qed (erule drop, simp)
    have "triple (holding a d0 {t, s} (zt_inode t) bs)
        (\<lambda>d. then_out (or_drop t (err_out WriteLayout (discard s d))) (\<lambda>_ d. publish_generated A a t sm d)) ?Q ?E"
    proof (rule triple_then [OF dis])
      show "triple (holding a d0 {t} (zt_inode t) bs) (publish_generated A a t sm) ?Q ?E"
        by (rule triple_weaken [OF triple_publish_generated [OF laws seg short wf]])
          (use gen in \<open>auto simp: left_behind_def safe_outcome_def\<close>)
    qed
    with h show "case then_out (or_drop t (err_out WriteLayout (discard s d))) (\<lambda>_ d. publish_generated A a t sm d)
      of (Err e, d') \<Rightarrow> safe_outcome A cd j a d0 d' | (Ok x, d') \<Rightarrow> ?Q x d'"
      by (simp only: triple_def)
  qed
  have spooled: "triple (\<lambda>d. ?two t s d \<and> zt_inode t \<noteq> zt_inode s)
      (\<lambda>d. then_out (or_drop t (or_drop s (write_tmp A cd flt j t s d))) (\<lambda>sm d.
        then_out (or_drop t (err_out WriteLayout (discard s d))) (\<lambda>_ d. publish_generated A a t sm d))) ?Q ?E" for t s
    by (rule triple_fact) (rule triple_then [OF tmp finish])
  have body: "triple (held a d0 {}) (\<lambda>d. then_out (err_out WriteLayout (create_zms_temp a d)) (\<lambda>t d.
      then_out (or_drop t (err_out WriteLayout (create_zms_temp a d))) (\<lambda>s d.
      then_out (or_drop t (or_drop s (write_tmp A cd flt j t s d))) (\<lambda>sm d.
      then_out (or_drop t (err_out WriteLayout (discard s d))) (\<lambda>_ d. publish_generated A a t sm d))))) ?Q ?E"
    by (rule triple_then [OF first triple_then [OF second spooled]])
  have checked: "triple (held a d0 {}) (\<lambda>d. then_out (check_destination j a, d) (\<lambda>_ d.
      then_out (err_out WriteLayout (create_zms_temp a d)) (\<lambda>t d.
      then_out (or_drop t (err_out WriteLayout (create_zms_temp a d))) (\<lambda>s d.
      then_out (or_drop t (or_drop s (write_tmp A cd flt j t s d))) (\<lambda>sm d.
      then_out (or_drop t (err_out WriteLayout (discard s d))) (\<lambda>_ d. publish_generated A a t sm d)))))) ?Q ?E"
    by (rule triple_then [OF triple_pure [where Q = "\<lambda>_. held a d0 {}"] body]) (auto intro: held_safe)
  show ?thesis
  proof (cases "journal_is_empty j")
    case True
    then show ?thesis using held_safe [OF start] by (simp add: triple_def write_segment_def)
  next
    case False
    then show ?thesis
      using checked start by (auto simp: triple_def write_segment_def)
  qed
qed

lemma write_segment_outcome:
  assumes "crc_laws A" and "wf_disk d" and "write_segment A cd flt j a d = (r, d')"
  shows "case r of Ok sm \<Rightarrow> \<exists>bs. generated A cd j sm bs \<and> settled a d bs d' | Err e \<Rightarrow> safe_outcome A cd j a d d'"
  using triple_write_segment [OF assms(1,2), of cd flt j a] assms(3)
  by (auto simp: triple_def split: sum.splits dest!: spec [of _ d])

lemma outcome_safe:
  assumes "case r of Ok sm \<Rightarrow> \<exists>bs. generated A cd j sm bs \<and> settled a d bs d' | Err e \<Rightarrow> safe_outcome A cd j a d d'"
  shows "safe_outcome A cd j a d d'"
  using assms by (auto simp: settled_def safe_outcome_def split: sum.splits)

end
