(* ===== verification/Segment_Sample.thy ===== *)
theory Segment_Sample
  imports Segment_Write_Props Journal_Props
begin

text \<open>
  A concrete run of the segment writer: a journal with one part that holds a strings dictionary,
  codecs with fixed answers, and a disk that starts empty. The lemmas evaluate the run step by step.
\<close>

section \<open>The journal\<close>

definition seg_sections :: "section_input list" where
  "seg_sections = [\<lparr>si_type_id = 3001001, si_rows = 1, si_body = [7]\<rparr>]"

definition seg_catalog :: catalog where
  "seg_catalog = part_catalog crc_sum seg_sections sample_meta"

definition seg_part :: bytes where
  "seg_part = part_bytes crc_sum (bodies_of seg_sections) seg_catalog"

definition seg_ref :: journal_part_ref where
  "seg_ref = JournalPartRef_new \<lparr>p_offset = 52, p_len = length seg_part\<rparr> 1"

definition seg_journal :: journal where
  "seg_journal = \<lparr>j_file = disk_file (JournalHeader_encode crc_sum
       \<lparr>state = Active 0, body_len = of_nat (16 + length seg_part)\<rparr> @ frame_bytes crc_sum seg_part),
     j_end = 36 + 16 + length seg_part, j_config = default_journal_config,
     j_parts = [seg_ref], j_generation = 1, j_segment_id = Some (SegmentId 0), j_poisoned = False\<rparr>"

lemma seg_sections_ok: "sections_ok seg_sections"
  unfolding sections_ok_def seg_sections_def
  by (simp add: MAX_JOURNAL_LEN_def section_order_of_def DICT_STRINGS_TYPE_ID_def DICT_BLOBS_TYPE_ID_def)

lemma length_seg_part [simp]: "length seg_part = 77"
  by (simp add: seg_part_def seg_catalog_def) (simp add: seg_sections_def bodies_of_def)

lemma seg_build: "build_part crc_sum seg_sections sample_meta = Some seg_part"
  by (simp add: build_part_eq seg_part_def seg_catalog_def seg_sections_def bodies_of_def)

lemma seg_valid: "validate_part crc_sum seg_part = Ok seg_catalog"
  using validate_built_part(1) [OF crc_sum_laws seg_sections_ok _ seg_build]
  by (simp add: seg_part_def seg_catalog_def seg_sections_def bodies_of_def)

lemma seg_repr: "journal_repr crc_sum seg_journal [seg_part]"
proof -
  have "current_header seg_journal = \<lparr>state = Active 0, body_len = of_nat (16 + length seg_part)\<rparr>"
    by (simp add: current_header_def seg_journal_def)
  moreover have "jc_limits default_journal_config = default_journal_limits" "129 \<le> jc_max_len default_journal_config"
    "1 \<le> jc_max_parts default_journal_config"
    by (simp_all add: default_journal_config_def MAX_JOURNAL_LEN_def MAX_JOURNAL_PARTS_def)
  moreover have "good_part crc_sum default_journal_limits seg_part"
    using seg_valid by (simp add: good_part_def default_journal_limits_def MAX_PART_LEN_def is_ok_iff)
  ultimately show ?thesis
    using epoch_ok default_config_ok
    unfolding journal_repr_def seg_journal_def disk_file_def seg_ref_def by simp
qed

lemma seg_readable: "readable (j_file seg_journal)"
  by (simp add: readable_def seg_journal_def disk_file_def)

lemma seg_part_of: "part_of seg_journal [seg_part] seg_ref seg_part"
  by (simp add: part_of_def seg_journal_def)

section \<open>The plan\<close>

definition seg_entry :: entry where
  "seg_entry = \<lparr>e_type_id = 3001001, e_flags = 0, e_offset = 4, e_len = 1, e_rows = 1, e_crc32c = crc32c crc_sum [7]\<rparr>"

definition seg_descriptor :: section_descriptor where
  "seg_descriptor = \<lparr>sd_part = seg_ref, sd_entry = seg_entry\<rparr>"

definition seg_plan :: segment_plan where
  "seg_plan = \<lparr>by_type = [(3001001, [seg_descriptor])], sp_min_ts = 100, sp_max_ts = 200, sp_window_count = 1\<rparr>"

lemma seg_entries: "entries seg_catalog = [seg_entry]" "min_ts seg_catalog = 100" "max_ts seg_catalog = 200"
  "format_version seg_catalog = FORMAT_VERSION"
  by (simp_all add: seg_catalog_def part_catalog_def seg_sections_def seg_entry_def sample_meta_def MAGIC_def)

lemma seg_plan_run: "plan_segment crc_sum seg_journal = Ok seg_plan"
proof -
  have "decode_and_bound crc_sum seg_part = Ok seg_catalog"
    using seg_valid by (auto simp: validate_part_def and_then_Ok_iff)
  with read_part_catalog_eq [OF seg_repr seg_readable seg_part_of]
  have cat: "read_part_catalog crc_sum seg_journal seg_ref = Ok seg_catalog" by simp
  have t: "e_type_id seg_entry = 3001001" by (simp add: seg_entry_def)
  have ps: "j_parts seg_journal = [seg_ref]" by (simp add: seg_journal_def)
  show ?thesis
    by (simp add: plan_segment_def ps cat seg_entries t
        u32_try_from_def push_descriptor_def checked_add_usize_def MAX_SECTION_ROWS_def seg_plan_def seg_descriptor_def
        min_i64_def max_i64_def)
qed

lemma seg_body: "read_verified_body crc_sum seg_journal seg_descriptor = Ok [7]"
proof -
  have "read_part_range seg_journal seg_ref 4 1 = Ok (slice_of 4 1 seg_part)"
    by (rule read_part_range_part [OF seg_repr seg_readable seg_part_of]) simp
  moreover have "slice_of 4 1 seg_part = [7]"
    by (simp add: slice_of_def seg_part_def part_bytes_def seg_sections_def bodies_of_def MAGIC_def)
  ultimately show ?thesis
    by (simp add: read_verified_body_def read_section_body_def seg_descriptor_def seg_entry_def VerifiedSection_verify_def)
qed

section \<open>The codecs\<close>

definition seg_hashes :: hashes where
  "seg_hashes = \<lparr>xxh3_64 = (\<lambda>bs. 4 + of_nat (length bs)), sha256 = (\<lambda>bs. replicate 32 0)\<rparr>"

definition seg_parquet :: parquet_body where
  "seg_parquet = \<lparr>pq_row_groups = 1, pq_num_rows = 1,
     pq_schema = [(''str_id'', UInt64, False), (''bytes'', Binary, False)],
     pq_batches = [Ok \<lparr>db_num_rows = 1, db_columns = [(''str_id'', U64Column [Some 5]), (''bytes'', BinaryColumn [Some [65]])]\<rparr>]\<rparr>"

definition seg_codec :: codec where
  "seg_codec = \<lparr>cd_hashes = seg_hashes, cd_encode = (\<lambda>t rows. EncDone),
     cd_parquet = (\<lambda>t es. \<lparr>pw_writes = [[9]], pw_error = None\<rparr>),
     cd_preflight = (\<lambda>bs. Ok ()), cd_reader = (\<lambda>bs. Ok seg_parquet)\<rparr>"

definition no_stream_faults :: stream_faults where
  "no_stream_faults = \<lparr>spool_faults = [], final_faults = []\<rparr>"

definition seg_dictionary :: finished_dictionary where
  "seg_dictionary = \<lparr>fd_values = [(5, DictString [65])], string_rows = 1, blob_rows = 0, fd_string_bytes = 1, fd_blob_bytes = 0\<rparr>"

lemma seg_normalize:
  "normalize_dictionary crc_sum seg_hashes (\<lambda>bs. Ok ()) (\<lambda>bs. Ok seg_parquet) seg_journal [seg_descriptor] [] = Ok seg_dictionary"
proof -
  have d: "e_type_id (sd_entry seg_descriptor) = 3001001" "e_rows (sd_entry seg_descriptor) = 1"
    by (simp_all add: seg_descriptor_def seg_entry_def)
  have schema: "dictionary_schema_matches (pq_schema seg_parquet) False"
    by (simp add: dictionary_schema_matches_def seg_parquet_def)
  have pq: "pq_row_groups seg_parquet = 1" "pq_num_rows seg_parquet = 1" by (simp_all add: seg_parquet_def)
  have groups: "\<not> MAX_ROW_GROUPS < 1"
    by (simp add: MAX_ROW_GROUPS_def div_ceil_def MAX_SECTION_ROWS_def SECTION_WRITE_BATCH_ROWS_def)
  have batch: "insert_batch seg_hashes False \<lparr>db_num_rows = 1, db_columns = [(''str_id'', U64Column [Some 5]), (''bytes'', BinaryColumn [Some [65]])]\<rparr>
      0 empty_dictionary = Ok (5, seg_dictionary)"
    by (simp add: insert_batch_def required_u64_def required_binary_def reject_nulls_def ordered_str_id_def
        StrId_from_raw_def StrId_of_def seg_hashes_def insert_value_def empty_dictionary_def is_string_value_def
        checked_add_usize_def MAX_SECTION_ROWS_def MAX_SECTION_BYTES_eq seg_dictionary_def)
  have batches: "insert_batches seg_hashes False (pq_batches seg_parquet) 0 0 empty_dictionary = Ok (1, seg_dictionary)"
    by (simp add: seg_parquet_def batch checked_add_usize_def del: One_nat_def)
  show ?thesis
    using schema groups batches
    by (simp add: normalize_dictionary_def decode_dictionary_body_def d seg_body DICT_STRINGS_TYPE_ID_def DICT_BLOBS_TYPE_ID_def
        pq MAX_SECTION_ROWS_def)
qed

section \<open>The temporary files\<close>

definition seg_finished :: finished_section where
  "seg_finished = \<lparr>fs_type_id = 3001001, fs_rows = 1, fs_offset = 0, fs_len = 1, fs_crc32c = crc32c crc_sum [9]\<rparr>"

definition seg_zms_plan :: finished_zms_plan where
  "seg_zms_plan = \<lparr>fp_sections = [seg_finished], fp_min_ts = 100, fp_max_ts = 200, fp_window_count = 1\<rparr>"

lemma seg_finished_new: "FinishedSection_new 3001001 1 0 1 (crc32c crc_sum [9]) = Ok seg_finished"
  by (simp add: FinishedSection_new_def seg_finished_def check_final_section_len_def checked_add_word_def
      MAX_SECTION_ROWS_def MAX_SECTION_BYTES_eq DICT_STRINGS_TYPE_ID_def)

lemma seg_encode:
  "write_sections_to crc_sum (cd_parquet seg_codec) seg_dictionary 0 \<lparr>written = [], out_faults = []\<rparr> =
     (Ok [seg_finished], \<lparr>written = [9], out_faults = []\<rparr>)"
proof -
  have entries: "map final_snapshot (fd_values seg_dictionary) = [final_snapshot (5, DictString [65])]"
    by (simp add: seg_dictionary_def)
  have "\<exists>n. final_dictionary_body_bound placement.Strings 1 1 0 = Ok n"
    by (simp add: final_dictionary_body_bound_def final_single_batch_plain_body_bound_def checked_add_usize_def
        div_ceil_def FINAL_DICT_WRITE_BATCH_ROWS_def FINAL_DATA_PAGE_BYTES_def FINAL_PAGE_FRAMING_BOUND_def
        FINAL_FILE_FRAMING_BOUND_def MAX_SECTION_BYTES_eq checked_mul_usize_def check_dict_rows_def MAX_SECTION_ROWS_def)
  then have "validate_final_entries [final_snapshot (5, DictString [65])] = Ok ()"
    by (auto simp: validate_final_entries_def final_snapshot_def checked_add_usize_def)
  moreover have "es_placement (final_snapshot (5, DictString [65])) = placement.Strings"
    by (simp add: final_snapshot_def)
  moreover have "write_final_dictionary crc_sum (cd_parquet seg_codec) DICT_STRINGS_TYPE_ID
      [final_snapshot (5, DictString [65])] \<lparr>written = [], out_faults = []\<rparr> =
      (Ok \<lparr>wd_type_id = 3001001, wd_rows = 1, wd_len = 1, wd_crc32c = crc32c crc_sum [9]\<rparr>,
       \<lparr>written = [9], out_faults = []\<rparr>)"
    by (simp add: write_final_dictionary_def check_dict_rows_def MAX_SECTION_ROWS_def seg_codec_def sink_write_def
      out_write_all_def next_out_def err_out_def then_out_def sink_finish_def SectionSink_new_def checked_add_usize_def
      Let_def MAX_SECTION_BYTES_eq u32_try_from_def DICT_STRINGS_TYPE_ID_def crc32c_def Crc32c_finalize_def Crc32c_update_def Crc32c_new_def crc_sum_def)
  ultimately show ?thesis
    by (simp add: write_sections_to_def entries encode_final_entries_to_def then_out_def seg_finished_new
        checked_add_word_def)
qed

lemma seg_spool:
  "spool_sections crc_sum seg_codec seg_journal seg_plan \<lparr>written = [], out_faults = []\<rparr> =
     (Ok [seg_finished], \<lparr>written = [9], out_faults = []\<rparr>)"
proof -
  have codec: "cd_hashes seg_codec = seg_hashes" "cd_preflight seg_codec = (\<lambda>bs. Ok ())" "cd_reader seg_codec = (\<lambda>bs. Ok seg_parquet)"
    by (simp_all add: seg_codec_def)
  have groups: "map_of (by_type seg_plan) DICT_STRINGS_TYPE_ID = Some [seg_descriptor]"
    "map_of (by_type seg_plan) DICT_BLOBS_TYPE_ID = None"
    "om_remove DICT_BLOBS_TYPE_ID (om_remove DICT_STRINGS_TYPE_ID (by_type seg_plan)) = []"
    by (simp_all add: seg_plan_def DICT_STRINGS_TYPE_ID_def DICT_BLOBS_TYPE_ID_def)
  have "check_spool_ends [seg_finished] = Ok ()"
    by (simp add: seg_finished_def checked_add_word_def)
  then have "spool_dictionary_sections crc_sum seg_codec seg_journal [seg_descriptor] [] 0 \<lparr>written = [], out_faults = []\<rparr> =
      (Ok [seg_finished], \<lparr>written = [9], out_faults = []\<rparr>)"
    by (simp add: spool_dictionary_sections_def codec seg_normalize then_out_def seg_encode)
  then show ?thesis
    by (simp add: spool_sections_def groups unwrap_or_default_def spool_order_def then_out_def err_out_def out_flush_def next_out_def)
qed

lemma seg_zms_plan_new: "FinishedZmsPlan_new [seg_finished] 100 200 1 = Ok seg_zms_plan"
  by (simp add: FinishedZmsPlan_new_def seg_zms_plan_def checked_catalog_entries_def
      checked_add_usize_def MAX_CATALOG_ENTRIES_def MAX_CATALOG_BYTES_def)

text \<open>The written container, whose bytes are only named.\<close>

lemma seg_container:
  assumes "content spool = [9]" and "\<And>n off. read_fault spool n off = None"
  shows "\<exists>sm bs. write_finished_zms crc_sum spool seg_zms_plan \<lparr>written = [], out_faults = []\<rparr> =
      (Ok sm, \<lparr>written = bs, out_faults = []\<rparr>)"
proof -
  have copy: "copy_spooled_section crc_sum spool seg_finished \<lparr>written = bs, out_faults = []\<rparr> =
      (Ok (), \<lparr>written = bs @ [9], out_faults = []\<rparr>)" for bs
    using assms
    by (auto simp: copy_spooled_section_def copy_loop.simps seg_finished_def COMPARE_BUFFER_BYTES_def
      checked_add_word_def file_read_exact_at_def slice_read_exact_at_def checked_add_usize_def slice_of_def
      out_write_all_def next_out_def then_out_def Let_def crc32c_def Crc32c_finalize_def Crc32c_update_def Crc32c_new_def crc_sum_def)
  have f: "fs_type_id seg_finished = 3001001" "fs_len seg_finished = 1" by (simp_all add: seg_finished_def)
  show ?thesis
    by (simp add: write_finished_zms_def write_finished_zms_core_def seg_zms_plan_def copy f err_out_def then_out_def
      out_write_all_def next_out_def out_flush_def push_section_entry_def checked_catalog_entries_def
      checked_add_usize_def checked_add_word_def MAX_CATALOG_ENTRIES_def MAX_CATALOG_BYTES_def Let_def
      Catalog_write_encoded_eq encoded_len_def)
qed

section \<open>The disk\<close>

definition seg_address :: segment_address where
  "seg_address = SegmentAddress (SegmentId 0) (UtcDay 1970 1 1)"

definition blank_inode :: inode where
  "blank_inode = \<lparr>in_bytes = [], in_synced = [], in_mtime = (0, 0), in_ctime = (0, 0)\<rparr>"

definition empty_disk :: disk where
  "empty_disk = \<lparr>dk_names = [], dk_durable = [], dk_inodes = (\<lambda>i. blank_inode), dk_next = 0,
     dk_clock = (\<lambda>n. (0, 0)), dk_time = 0, dk_faults = [], dk_read_fault = (\<lambda>i n off. None),
     dk_len_fault = (\<lambda>i. None), dk_device = 1, dk_pid = 7, dk_sequence = 0\<rparr>"

lemma seg_paths:
  "year_path (addr_day seg_address) = [''1970'']"
  "month_path (addr_day seg_address) = [''1970'', ''01'']"
  "day_path (addr_day seg_address) = [''1970'', ''01'', ''01'']"
  "zms_name seg_address = ''0.zms''"
  "temporary_name seg_address TmpZms 7 0 = ''0.zms.7.0.tmp''"
  "temporary_name seg_address TmpZms 7 1 = ''0.zms.7.1.tmp''"
  by code_simp+

lemmas disk_run = seq_def catch_def return_def fail_def disk_sys_def Let_def node_at_def set_name_def drop_name_def
  open_directory_on_def sync_directory_def mkdir_at_def ensure_directory_at_def ensure_day_def next_sequence_def
  create_regular_at_def in_directory_def


text \<open>The disk after the two temporaries were created.\<close>

definition seg_names :: "(path \<times> node) list" where
  "seg_names = [([''1970'', ''01'', ''01''], DirNode), ([''1970'', ''01''], DirNode), ([''1970''], DirNode)]"

definition seg_disk :: "(path \<times> node) list \<Rightarrow> (path \<times> node) list \<Rightarrow> (nat \<Rightarrow> inode) \<Rightarrow> nat \<Rightarrow> nat \<Rightarrow> u64 \<Rightarrow> disk" where
  "seg_disk names stored inodes next time q = \<lparr>dk_names = names, dk_durable = stored, dk_inodes = inodes, dk_next = next,
     dk_clock = (\<lambda>n. (0, 0)), dk_time = time, dk_faults = [], dk_read_fault = (\<lambda>i n off. None),
     dk_len_fault = (\<lambda>i. None), dk_device = 1, dk_pid = 7, dk_sequence = q\<rparr>"

definition seg_temp :: "nat \<Rightarrow> string \<Rightarrow> zms_temp" where
  "seg_temp i name = \<lparr>zt_day = [''1970'', ''01'', ''01''], zt_inode = i, zt_prepared = None, zt_temp_name = name,
     zt_final_name = ''0.zms'', zt_address = seg_address, zt_published = False\<rparr>"

abbreviation first_path :: path where "first_path \<equiv> [''1970'', ''01'', ''01'', ''0.zms.7.0.tmp'']"
abbreviation second_path :: path where "second_path \<equiv> [''1970'', ''01'', ''01'', ''0.zms.7.1.tmp'']"
abbreviation final_zms :: path where "final_zms \<equiv> [''1970'', ''01'', ''01'', ''0.zms'']"

lemma seg_create_first:
  "create_zms_temp seg_address empty_disk = (Ok (seg_temp 0 ''0.zms.7.0.tmp''),
     seg_disk ((first_path, FileNode 0) # seg_names) seg_names (\<lambda>i. blank_inode) 1 1 1)"
  by (simp add: create_zms_temp_def seg_paths disk_run empty_disk_def seg_names_def seg_disk_def seg_temp_def
      blank_inode_def fun_upd_idem)

lemma seg_create_second:
  "create_zms_temp seg_address (seg_disk ((first_path, FileNode 0) # seg_names) seg_names (\<lambda>i. blank_inode) 1 1 1) =
     (Ok (seg_temp 1 ''0.zms.7.1.tmp''),
      seg_disk ((second_path, FileNode 1) # (first_path, FileNode 0) # seg_names) seg_names (\<lambda>i. blank_inode) 2 2 2)"
  by (simp add: create_zms_temp_def seg_paths disk_run seg_names_def seg_disk_def seg_temp_def
      blank_inode_def fun_upd_idem numeral_2_eq_2)

lemma validate_no_faults:
  assumes "\<And>n off. read_fault f n off = None" and "len_fault f = None" and "length (content f) < 2 ^ 64"
  shows "\<exists>b. validate_segment A f sm = Ok b"
proof -
  have rd: "file_read_exact_at f n off = Ok (slice_of off n (content f))" if "off + n \<le> length (content f)" for n off
    using that assms by (simp add: file_read_exact_at_def slice_read_exact_at_def checked_add_usize_def)
  have len: "metadata_len f = Ok (length (content f))"
    using assms by (simp add: metadata_len_def)
  show ?thesis
    using rd by (auto simp: validate_segment_def len and_then_def Let_def split: sum.split option.split)
qed


definition seg_file :: "bytes \<Rightarrow> bytes \<Rightarrow> inode" where
  "seg_file bs stored = \<lparr>in_bytes = bs, in_synced = stored, in_mtime = (0, 0), in_ctime = (0, 0)\<rparr>"

definition seg_inodes :: "bytes \<Rightarrow> bytes \<Rightarrow> nat \<Rightarrow> inode" where
  "seg_inodes bs stored = (\<lambda>i. blank_inode)(0 := seg_file bs stored, 1 := seg_file [9] [])"

lemma seg_write_tmp:
  "\<exists>sm bs. write_tmp crc_sum seg_codec no_stream_faults seg_journal (seg_temp 0 ''0.zms.7.0.tmp'') (seg_temp 1 ''0.zms.7.1.tmp'')
      (seg_disk names stored (\<lambda>i. blank_inode) 2 2 2) =
      (Ok sm, seg_disk names stored (seg_inodes bs bs) 2 4 2) \<and>
     (\<forall>f. content f = bs \<longrightarrow> (\<forall>n off. read_fault f n off = None) \<longrightarrow> len_fault f = None \<longrightarrow> validate_segment crc_sum f sm = Ok True)"
proof -
  let ?d0 = "seg_disk names stored (\<lambda>i. blank_inode) 2 2 2"
  let ?d1 = "put_bytes 1 [9] ?d0"
  let ?spool = "view_file ?d1 1"
  have spool: "content ?spool = [9]" "\<And>n off. read_fault ?spool n off = None"
    by (simp_all add: view_file_def put_bytes_def touch_def Let_def seg_disk_def)
  obtain sm bs where run: "write_finished_zms crc_sum ?spool seg_zms_plan \<lparr>written = [], out_faults = []\<rparr> =
      (Ok sm, \<lparr>written = bs, out_faults = []\<rparr>)"
    using seg_container [OF spool] by blast
  have "\<forall>s \<in> set [seg_finished]. constructed s" using FinishedSection_new_Ok(1) [OF seg_finished_new] by simp
  from finished_zms_facts [OF crc_sum_laws seg_zms_plan_new this run] obtain c where
    c: "validate_part crc_sum bs = Ok c" "format_version c = FORMAT_VERSION" "encoded_len c \<le> MAX_CATALOG_BYTES"
      "unat (ws_bytes sm) = length bs" "length bs < 2 ^ 64" "ws_min_ts sm = min_ts c" "ws_max_ts sm = max_ts c"
      "ws_sections sm = length (entries c)"
    by (auto dest: arg_cong [of _ _ length])
  have bounds: "sp_min_ts seg_plan = 100" "sp_max_ts seg_plan = 200" "sp_window_count seg_plan = 1"
    by (simp_all add: seg_plan_def)
  have "write_tmp crc_sum seg_codec no_stream_faults seg_journal (seg_temp 0 ''0.zms.7.0.tmp'') (seg_temp 1 ''0.zms.7.1.tmp'') ?d0 =
      (Ok sm, seg_disk names stored (seg_inodes bs bs) 2 4 2)"
    using run seg_zms_plan_new
    by (simp add: write_tmp_def seg_plan_run then_out_def Let_def no_stream_faults_def seg_spool seg_temp_def bounds
        err_out_def sync_file_def disk_sys_def return_def put_bytes_def touch_def seg_disk_def seg_inodes_def seg_file_def
        blank_inode_def fun_upd_twist)
  moreover have "validate_segment crc_sum f sm = Ok True"
    if f: "content f = bs" "\<forall>n off. read_fault f n off = None" "len_fault f = None" for f
  proof -
    obtain b where b: "validate_segment crc_sum f sm = Ok b"
      using validate_no_faults [of f crc_sum sm] f c(5) by blast
    with validate_segment_accepts [OF crc_sum_laws _ _ c(2,3) _ _ _ _ b] f c show ?thesis by simp
  qed
  ultimately show ?thesis by blast
qed

lemma seg_publish_run:
  fixes bs t
  defines "d \<equiv> seg_disk ((first_path, FileNode 0) # seg_names) ((first_path, FileNode 0) # seg_names) (seg_inodes bs bs) 2 t 2"
  shows "\<exists>t' d'. publish ((seg_temp 0 ''0.zms.7.0.tmp'')\<lparr>zt_prepared := Some (identity_of d 0)\<rparr>) d = (Ok t', d')"
  by (simp add: d_def publish_def finish_publish_def disk_run sync_file_def identity_from_file_def seg_disk_def seg_temp_def
      seg_names_def identity_of_def verify_named_identity_def open_regular_at_def link_open_file_def touch_def unlink_name_def
      seg_inodes_def seg_file_def)

lemma seg_publish:
  assumes "\<forall>f. content f = bs \<longrightarrow> (\<forall>n off. read_fault f n off = None) \<longrightarrow> len_fault f = None \<longrightarrow> validate_segment crc_sum f sm = Ok True"
  shows "\<exists>d'. publish_generated crc_sum seg_address (seg_temp 0 ''0.zms.7.0.tmp'') sm
     (seg_disk ((first_path, FileNode 0) # seg_names) ((first_path, FileNode 0) # seg_names) (seg_inodes bs bs) 2 t 2) = (Ok sm, d')"
proof -
  let ?d = "seg_disk ((first_path, FileNode 0) # seg_names) ((first_path, FileNode 0) # seg_names) (seg_inodes bs bs) 2 t 2"
  have "validate_segment crc_sum (view_file ?d 0) sm = Ok True"
    using assms by (simp add: view_file_def seg_disk_def seg_inodes_def seg_file_def)
  moreover have "try_clone_file (seg_temp 0 ''0.zms.7.0.tmp'') ?d = (Ok (0, (seg_temp 0 ''0.zms.7.0.tmp'')\<lparr>zt_prepared := Some (identity_of ?d 0)\<rparr>), ?d)"
    by (simp add: try_clone_file_def disk_run identity_from_file_def seg_disk_def seg_temp_def)
  moreover note seg_publish_run [of bs t]
  ultimately show ?thesis
    by (auto simp: publish_generated_def then_out_def or_drop_def err_out_def)
qed

lemma seg_discard:
  "discard (seg_temp 1 ''0.zms.7.1.tmp'')
     (seg_disk ((second_path, FileNode 1) # (first_path, FileNode 0) # seg_names) seg_names (seg_inodes bs bs) 2 4 2) =
   (Ok (), seg_disk ((first_path, FileNode 0) # seg_names) ((first_path, FileNode 0) # seg_names) (seg_inodes bs bs) 2 5 2)"
  by (simp add: discard_def disk_run sync_file_def identity_from_file_def seg_disk_def seg_temp_def
        seg_names_def identity_of_def unlink_named_if_identity_def open_regular_at_def touch_def unlink_name_def
        seg_inodes_def seg_file_def)

lemma seg_run: "\<exists>sm d'. write_segment crc_sum seg_codec no_stream_faults seg_journal seg_address empty_disk = (Ok sm, d')"
proof -
  let ?names = "(second_path, FileNode 1) # (first_path, FileNode 0) # seg_names"
  obtain sm bs where w: "write_tmp crc_sum seg_codec no_stream_faults seg_journal (seg_temp 0 ''0.zms.7.0.tmp'') (seg_temp 1 ''0.zms.7.1.tmp'')
      (seg_disk ?names seg_names (\<lambda>i. blank_inode) 2 2 2) = (Ok sm, seg_disk ?names seg_names (seg_inodes bs bs) 2 4 2)"
    and v: "\<forall>f. content f = bs \<longrightarrow> (\<forall>n off. read_fault f n off = None) \<longrightarrow> len_fault f = None \<longrightarrow> validate_segment crc_sum f sm = Ok True"
    using seg_write_tmp by blast
  obtain d' where "publish_generated crc_sum seg_address (seg_temp 0 ''0.zms.7.0.tmp'') sm
     (seg_disk ((first_path, FileNode 0) # seg_names) ((first_path, FileNode 0) # seg_names) (seg_inodes bs bs) 2 5 2) = (Ok sm, d')"
    using seg_publish [OF v] by blast
  moreover have "\<not> journal_is_empty seg_journal" "check_destination seg_journal seg_address = Ok ()"
    by (simp_all add: journal_is_empty_def check_destination_def seg_journal_def seg_address_def)
  ultimately show ?thesis
    by (simp add: write_segment_def then_out_def err_out_def or_drop_def seg_create_first seg_create_second w seg_discard del: One_nat_def)
qed

lemma empty_disk_wf: "wf_disk empty_disk"
  by (simp add: wf_disk_def empty_disk_def node_at_def)

end
