(* ===== verification/Segment_Props.thy ===== *)
theory Segment_Props
  imports Segment_Sample Segment_Merge
begin

text \<open>
  The properties of the segment writer: the plan covers the journal, the merged dictionary is
  lossless, publication never exposes or overwrites anything by accident, and a returned segment is
  durable. Each is applied to the run of \<open>Segment_Sample\<close>.
\<close>

section \<open>The plan\<close>

lemma verified_body:
  assumes laws: "crc_laws A" and repr: "journal_repr A j ps" and rd: "readable (j_file j)" and i: "i < length ps"
    and c: "validate_part A (ps ! i) = Ok c" and e: "e \<in> set (entries c)"
  shows "read_verified_body A j \<lparr>sd_part = j_parts j ! i, sd_entry = e\<rparr> = Ok (section_body (ps ! i) e)"
proof -
  have "good_part A (jc_limits (j_config j)) (ps ! i)" using repr i by (simp add: journal_repr_def)
  then have small: "length (ps ! i) < 2 ^ 64" by (rule good_part_small)
  from c obtain bodies where bs: "ps ! i = part_bytes A bodies c" and can: "canonical_layout (entries c) (4 + length bodies)"
    and crc: "crc32c A (section_body (ps ! i) e) = e_crc32c e"
    using e by (auto simp: validate_part_Ok [OF laws small])
  have bound: "unat (e_offset e) + unat (e_len e) \<le> length (ps ! i)"
    using contiguous_body [OF _ e, of 4 "4 + length bodies"] can by (simp add: canonical_layout_def bs)
  then have "unat (e_offset e + e_len e) = unat (e_offset e) + unat (e_len e)"
    using small by (simp add: unat_word_ariths)
  moreover have "part_of j ps (j_parts j ! i) (ps ! i)" using i by (auto simp: part_of_def)
  ultimately show ?thesis
    using read_part_range_part [OF repr rd _ bound] crc
    by (simp add: read_verified_body_def read_section_body_def VerifiedSection_verify_def section_body_def)
qed

text \<open>
  C12: a segment's plan loses nothing. For a healthy readable journal the plan lists under every type
  exactly the sections of that type of all parts, in journal order, counts the windows, and reading
  any listed section gives back, checksum verified, the body that was appended.
\<close>

theorem plan_lists_every_section:
  assumes "crc_laws A" and "journal_repr A j ps" and "readable (j_file j)"
    and "list_all2 (\<lambda>p c. validate_part A p = Ok c \<and> format_version c = FORMAT_VERSION) ps cs"
  shows "\<exists>p. plan_segment A j = Ok p \<and> om_valid (by_type p) \<and>
    (\<forall>t. map_of (by_type p) t = group_of t (all_descriptors j cs)) \<and> unat (sp_window_count p) = length ps \<and>
    (\<forall>i < length ps. \<forall>e \<in> set (entries (cs ! i)).
       read_verified_body A j \<lparr>sd_part = j_parts j ! i, sd_entry = e\<rparr> = Ok (section_body (ps ! i) e))"
proof -
  obtain p g where p: "plan_segment A j = Ok p" "by_type p = fst g" "grouped_as g (all_descriptors j cs)"
    "unat (sp_window_count p) = length ps"
    by (rule plan_segment_Ok [OF assms])
  have "read_verified_body A j \<lparr>sd_part = j_parts j ! i, sd_entry = e\<rparr> = Ok (section_body (ps ! i) e)"
    if "i < length ps" "e \<in> set (entries (cs ! i))" for i e
    using verified_body [OF assms(1-3) that(1) _ that(2)] list_all2_nthD [OF assms(4) that(1)] by simp
  then show ?thesis using p by (auto simp: grouped_as_def)
qed

theorem plan_lists_every_section_witness:
  "\<exists>p. plan_segment crc_sum seg_journal = Ok p \<and> map_of (by_type p) 3001001 = Some [seg_descriptor] \<and>
     sp_window_count p = 1"
proof -
  have "list_all2 (\<lambda>p c. validate_part crc_sum p = Ok c \<and> format_version c = FORMAT_VERSION) [seg_part] [seg_catalog]"
    by (simp add: seg_valid seg_entries)
  from plan_lists_every_section [OF crc_sum_laws seg_repr seg_readable this] obtain p
    where "plan_segment crc_sum seg_journal = Ok p" "unat (sp_window_count p) = 1"
      "map_of (by_type p) 3001001 = group_of 3001001 (all_descriptors seg_journal [seg_catalog])"
    by auto
  moreover have "all_descriptors seg_journal [seg_catalog] = [seg_descriptor]"
    by (simp add: all_descriptors_def descriptors_def seg_entries seg_journal_def seg_descriptor_def)
  ultimately show ?thesis
    by (auto simp: group_of_def seg_descriptor_def seg_entry_def word_unat_eq_iff)
qed

section \<open>The dictionary\<close>

text \<open>
  C13: the merged dictionary of a segment is lossless. When \<open>normalize_dictionary\<close> succeeds, the
  dictionary holds exactly the values of all rows of all dictionary sections, one value per
  identifier, each fitting its identifier, and its four counters are the rows and bytes it
  holds, none above the caps of a section.
\<close>

theorem merged_dictionary_exact:
  assumes "normalize_dictionary A h preflight reader j strings blobs = Ok fd"
  shows "set (fd_values fd) = (\<Union>d \<in> set strings \<union> set blobs. set (section_values A reader j d)) \<and>
    distinct (map fst (fd_values fd)) \<and> (\<forall>(i, v) \<in> set (fd_values fd). value_fits h i v) \<and>
    string_rows fd = rows_if is_string_value (fd_values fd) \<and> string_rows fd \<le> MAX_SECTION_ROWS \<and>
    blob_rows fd = rows_if (Not \<circ> is_string_value) (fd_values fd) \<and> blob_rows fd \<le> MAX_SECTION_ROWS \<and>
    fd_string_bytes fd = bytes_if is_string_value (fd_values fd) \<and> fd_string_bytes fd \<le> MAX_SECTION_BYTES \<and>
    fd_blob_bytes fd = bytes_if (Not \<circ> is_string_value) (fd_values fd) \<and> fd_blob_bytes fd \<le> MAX_SECTION_BYTES"
proof -
  have "inserted h (\<Union>d \<in> set (strings @ blobs). set (section_values A reader j d)) empty_dictionary fd"
    using assms by (intro decode_dictionaries_inserted) (simp add: normalize_dictionary_def)
  then have "dictionary_ok h fd" and s: "set (fd_values fd) = (\<Union>d \<in> set strings \<union> set blobs. set (section_values A reader j d))"
    by (simp_all add: inserted_def) (simp add: empty_dictionary_def)
  then show ?thesis using om_distinct by (auto simp: dictionary_ok_def)
qed

theorem merged_dictionary_exact_witness:
  "set (fd_values seg_dictionary) = {(5, DictString [65])} \<and>
   set (section_values crc_sum (\<lambda>bs. Ok seg_parquet) seg_journal seg_descriptor) = {(5, DictString [65])}"
proof -
  have v: "set (fd_values seg_dictionary) = {(5, DictString [65])}" by (simp add: seg_dictionary_def)
  have "set (fd_values seg_dictionary) =
      (\<Union>d \<in> set [seg_descriptor] \<union> set []. set (section_values crc_sum (\<lambda>bs. Ok seg_parquet) seg_journal d))"
    by (rule merged_dictionary_exact [OF seg_normalize, THEN conjunct1])
  then show ?thesis unfolding v by simp
qed

section \<open>Publication\<close>

text \<open>
  Publication is safe under any failure of any of its calls. When \<open>publish\<close> returns, with any
  result, no other name and no file's bytes have changed, and the final name is as before or, where
  it was free, names the temporary's file, whose bytes are then synchronized. After success the final
  name survives a crash with exactly those bytes and the temporary name is gone for good.
\<close>

lemma publish_safe:
  assumes "zt_temp_name t \<noteq> zt_final_name t" and "publish t d = (r, d')"
  shows "others_kept t d d' \<and>
    (node_at d' (final_path t) = node_at d (final_path t) \<and> durable_at d' (final_path t) = durable_at d (final_path t) \<or>
     node_at d (final_path t) = None \<and> node_at d' (final_path t) = Some (FileNode (zt_inode t)) \<and>
     file_synced t d' \<and> durable_at d' (final_path t) \<in> {durable_at d (final_path t), Some (FileNode (zt_inode t))}) \<and>
    (is_ok r \<longrightarrow> node_at d (final_path t) = None \<and> durable_at d' (final_path t) = Some (FileNode (zt_inode t)) \<and>
       file_synced t d' \<and> node_at d' (temp_path t) = None \<and> durable_at d' (temp_path t) = None)"
proof -
  have "triple (unlinked t d) (publish t) (\<lambda>t' d'. t' = t\<lparr>zt_published := True\<rparr> \<and> published t d d')
      (publish_failed t d)"
    by (rule triple_publish [OF assms(1)])
  moreover have "unlinked t d d" by (simp add: unlinked_def others_kept_def)
  ultimately have "case r of Ok t' \<Rightarrow> published t d d' | Err e \<Rightarrow> publish_failed t d e d'"
    using assms(2) by (auto simp: triple_def split: sum.splits dest: spec)
  then show ?thesis
    by (cases r) (auto simp: publish_failed_def published_def linked_def unlinked_def)
qed

section \<open>Writing a segment\<close>

text \<open>
  C10: \<open>write_segment\<close> never damages stored data, whichever of its calls fail and whatever the
  encoders do. After it returns, with any result, every name that existed still names the same file,
  every file that existed has the same bytes and the same durable bytes, and the final name is as
  before or, where it was free, names a new file whose bytes are synchronized and form a valid container
  of the journal's plan, with exactly the bodies that the encoders make of the listed sections: a
  partial or invalid segment never becomes visible.
\<close>

theorem write_segment_safe:
  assumes "crc_laws A" and "wf_disk d" and "write_segment A cd flt j a d = (r, d')"
  shows "(\<forall>p. node_at d p \<noteq> None \<longrightarrow> node_at d' p = node_at d p) \<and>
    (\<forall>k < dk_next d. in_bytes (dk_inodes d' k) = in_bytes (dk_inodes d k) \<and>
       in_synced (dk_inodes d' k) = in_synced (dk_inodes d k)) \<and>
    (node_at d' (segment_path a) = node_at d (segment_path a) \<or>
     node_at d (segment_path a) = None \<and>
     (\<exists>k sm bs. dk_next d \<le> k \<and> node_at d' (segment_path a) = Some (FileNode k) \<and>
        in_bytes (dk_inodes d' k) = bs \<and> in_synced (dk_inodes d' k) = bs \<and> generated A cd j sm bs))"
  using outcome_safe [OF write_segment_outcome [OF assms]]
  by (auto simp: safe_outcome_def before_link_def appeared_def frame_def)

theorem write_segment_safe_witness:
  "\<exists>d'. (snd (write_segment crc_sum seg_codec no_stream_faults seg_journal seg_address empty_disk) = d' \<and>
     (node_at d' (segment_path seg_address) = None \<or>
      (\<exists>k sm bs. node_at d' (segment_path seg_address) = Some (FileNode k) \<and> in_synced (dk_inodes d' k) = bs \<and>
         generated crc_sum seg_codec seg_journal sm bs)))"
proof -
  obtain r d' where run: "write_segment crc_sum seg_codec no_stream_faults seg_journal seg_address empty_disk = (r, d')"
    by fastforce
  have "node_at empty_disk (segment_path seg_address) = None" by (simp add: empty_disk_def node_at_def)
  with write_segment_safe [OF crc_sum_laws empty_disk_wf run] show ?thesis by (auto simp: run)
qed

text \<open>
  C11: a journal may be reset after \<open>write_segment\<close> returned \<open>Ok\<close>: the final name is then durable
  and so are its bytes, which are a valid container of the journal's plan, as the returned summary says,
  with exactly the bodies that the encoders make of the listed sections.
  This holds whether the segment was published by this call or found published by an earlier one
  that had failed or crashed after the link, provided that an existing final file is synchronized.
\<close>

theorem write_segment_durable:
  assumes "crc_laws A" and "wf_disk d"
    and "\<forall>k. node_at d (segment_path a) = Some (FileNode k) \<longrightarrow> in_synced (dk_inodes d k) = in_bytes (dk_inodes d k)"
    and "write_segment A cd flt j a d = (Ok sm, d')"
  shows "\<exists>k bs. node_at d' (segment_path a) = Some (FileNode k) \<and> durable_at d' (segment_path a) = Some (FileNode k) \<and>
    in_bytes (dk_inodes d' k) = bs \<and> in_synced (dk_inodes d' k) = bs \<and> generated A cd j sm bs"
proof -
  from write_segment_outcome [OF assms(1,2,4)] obtain bs where gen: "generated A cd j sm bs" and s: "settled a d bs d'"
    by auto
  show ?thesis
  proof (cases "appeared a d bs d'")
    case True
    then show ?thesis using gen s by (auto simp: appeared_def settled_def)
  next
    case False
    then have b: "before_link d d'" and "same_as_final a bs d" using s by (auto simp: settled_def)
    then obtain k where k: "node_at d (segment_path a) = Some (FileNode k)" "in_bytes (dk_inodes d k) = bs"
      by (auto simp: same_as_final_def)
    then have "k < dk_next d" using assms(2) by (simp add: wf_disk_def)
    then show ?thesis
      using b k gen s assms(3) by (auto simp: before_link_def frame_def settled_def)
  qed
qed

theorem write_segment_durable_witness:
  "\<exists>sm d' k bs. write_segment crc_sum seg_codec no_stream_faults seg_journal seg_address empty_disk = (Ok sm, d') \<and>
     durable_at d' (segment_path seg_address) = Some (FileNode k) \<and> in_synced (dk_inodes d' k) = bs \<and>
     generated crc_sum seg_codec seg_journal sm bs"
proof -
  obtain sm d' where run: "write_segment crc_sum seg_codec no_stream_faults seg_journal seg_address empty_disk = (Ok sm, d')"
    using seg_run by blast
  have "\<forall>k. node_at empty_disk (segment_path seg_address) = Some (FileNode k) \<longrightarrow>
      in_synced (dk_inodes empty_disk k) = in_bytes (dk_inodes empty_disk k)"
    by (simp add: empty_disk_def node_at_def)
  from write_segment_durable [OF crc_sum_laws empty_disk_wf this run] run show ?thesis by blast
qed

end
