(* ===== verification/Section_Buffers.thy ===== *)
theory Section_Buffers
  imports Segment_Plan
begin

text \<open>
  The collection window (\<open>crates/kronika-writer/src/buffer.rs\<close>) and the dictionary sections of a
  window (\<open>encode\<close> of \<open>crates/kronika-writer/src/dict.rs\<close>): rows are buffered by section type and
  a flush encodes them, with the dictionary sections, into one part. The generated row codecs and
  the Parquet library are parameters. The property says that a flushed part is a valid part that
  lists exactly what was buffered.
\<close>

section \<open>Dictionary sections\<close>

record dict_section =
  ds_type_id :: u32
  ds_rows :: u32
  ds_body :: bytes

text \<open>\<open>parquet\<close> writes one batch with the dictionary schema of the type.\<close>

definition encode_dict_section ::
  "(u32 \<Rightarrow> entry_snapshot list \<Rightarrow> codec_error + bytes) \<Rightarrow> u32 \<Rightarrow> entry_snapshot list \<Rightarrow> codec_error + dict_section" where
  "encode_dict_section parquet t es =
     and_then (check_dict_rows (length es)) (\<lambda>_.
     and_then (parquet t (sort_key (\<lambda>e. unat (es_str_id e)) es)) (\<lambda>body.
       if length body > MAX_SECTION_BYTES then Err (SectionTooLarge (length body) MAX_SECTION_BYTES)
       else Ok \<lparr>ds_type_id = t,
         ds_rows = (case u32_try_from (length es) of Some n \<Rightarrow> n | None \<Rightarrow> - 1), ds_body = body\<rparr>))"

definition encode_entries ::
  "(u32 \<Rightarrow> entry_snapshot list \<Rightarrow> codec_error + bytes) \<Rightarrow> entry_snapshot list \<Rightarrow> codec_error + dict_section list" where
  "encode_entries parquet es =
     (let strings = filter (\<lambda>e. es_placement e = placement.Strings) es;
          blobs = filter (\<lambda>e. es_placement e = placement.Blobs) es in
      and_then (if strings = [] then Ok []
          else and_then (encode_dict_section parquet DICT_STRINGS_TYPE_ID strings) (\<lambda>s. Ok [s])) (\<lambda>ss.
      and_then (if blobs = [] then Ok []
          else and_then (encode_dict_section parquet DICT_BLOBS_TYPE_ID blobs) (\<lambda>s. Ok [s])) (\<lambda>bs.
        Ok (ss @ bs))))"

definition dict_encode ::
  "(u32 \<Rightarrow> entry_snapshot list \<Rightarrow> codec_error + bytes) \<Rightarrow> segment_dicts \<Rightarrow> codec_error + dict_section list" where
  "dict_encode parquet w = encode_entries parquet (dict_entries w)"

section \<open>Row buffers\<close>

text \<open>What the generated codec of a section type does with a list of rows.\<close>

record 'row row_codec =
  rc_encode :: "u32 \<Rightarrow> 'row list \<Rightarrow> codec_error + bytes"
  rc_ts_range :: "u32 \<Rightarrow> 'row list \<Rightarrow> (i64 \<times> i64) option"
  rc_list_values :: "u32 \<Rightarrow> 'row list \<Rightarrow> usize"

type_synonym 'row section_buffers = "(u32, 'row list) omap"

text \<open>A full buffer gives the row back.\<close>

definition buffers_push :: "u32 \<Rightarrow> 'row \<Rightarrow> 'row section_buffers \<Rightarrow> ('row + unit) \<times> 'row section_buffers" where
  "buffers_push t row b =
     (let rows = (case map_of b t of None \<Rightarrow> [] | Some rows \<Rightarrow> rows) in
      if length rows \<ge> SECTION_WRITE_BATCH_ROWS then (Err row, b)
      else (Ok (), om_insert t (rows @ [row]) b))"

definition buffers_is_empty :: "'row section_buffers \<Rightarrow> bool" where
  "buffers_is_empty b = list_all (\<lambda>(t, rows). rows = []) b"

record encoded_rows =
  er_body :: bytes
  er_rows :: u32
  er_ts_range :: "(i64 \<times> i64) option"
  er_list_values :: usize

definition encode_rows :: "'row row_codec \<Rightarrow> u32 \<Rightarrow> 'row list \<Rightarrow> codec_error + encoded_rows" where
  "encode_rows C t rows =
     and_then (rc_encode C t rows) (\<lambda>body.
       Ok \<lparr>er_body = body, er_rows = (case u32_try_from (length rows) of Some n \<Rightarrow> n | None \<Rightarrow> - 1),
            er_ts_range = rc_ts_range C t rows, er_list_values = rc_list_values C t rows\<rparr>)"

fun encode_buffers :: "'row row_codec \<Rightarrow> 'row section_buffers \<Rightarrow> codec_error + (u32 \<times> encoded_rows) list" where
  "encode_buffers C [] = Ok []"
| "encode_buffers C ((t, rows) # b) =
     (if rows = [] then encode_buffers C b
      else and_then (encode_rows C t rows) (\<lambda>e. and_then (encode_buffers C b) (\<lambda>es. Ok ((t, e) # es))))"

section \<open>The flush\<close>

record section_flush_summary =
  sf_type_id :: u32
  sf_rows :: u32
  sf_body_bytes :: usize
  sf_list_values :: usize

record flush_summary =
  fl_sections :: "section_flush_summary list"
  fl_part_bytes :: usize

record flushed_part =
  fp_body :: bytes
  fp_summary :: flush_summary

text \<open>\<open>Iterator::min\<close> and \<open>max\<close>, and the interval of a part without timestamps.\<close>

definition fold_first :: "('a \<Rightarrow> 'a \<Rightarrow> 'a) \<Rightarrow> 'a list \<Rightarrow> 'a option" where
  "fold_first f xs = (case xs of [] \<Rightarrow> None | x # xs \<Rightarrow> Some (foldl f x xs))"

definition part_interval :: "(u32 \<times> encoded_rows) list \<Rightarrow> i64 \<times> i64" where
  "part_interval es =
     (case (fold_first min_i64 (List.map_filter (\<lambda>(t, e). map_option fst (er_ts_range e)) es),
            fold_first max_i64 (List.map_filter (\<lambda>(t, e). map_option snd (er_ts_range e)) es)) of
        (Some lo, Some hi) \<Rightarrow> (lo, hi)
      | _ \<Rightarrow> (i64_max, i64_min))"

definition part_sections :: "(u32 \<times> encoded_rows) list \<Rightarrow> dict_section list \<Rightarrow> section_input list" where
  "part_sections es dicts =
     map (\<lambda>(t, e). \<lparr>si_type_id = t, si_rows = er_rows e, si_body = er_body e\<rparr>) es @
     map (\<lambda>d. \<lparr>si_type_id = ds_type_id d, si_rows = ds_rows d, si_body = ds_body d\<rparr>) dicts"

definition summary_of :: "(u32 \<times> encoded_rows) list \<Rightarrow> dict_section list \<Rightarrow> bytes \<Rightarrow> flush_summary" where
  "summary_of es dicts part =
     \<lparr>fl_sections =
        map (\<lambda>(t, e). \<lparr>sf_type_id = t, sf_rows = er_rows e, sf_body_bytes = length (er_body e), sf_list_values = er_list_values e\<rparr>) es @
        map (\<lambda>d. \<lparr>sf_type_id = ds_type_id d, sf_rows = ds_rows d, sf_body_bytes = length (ds_body d), sf_list_values = 0\<rparr>) dicts,
      fl_part_bytes = length part\<rparr>"

text \<open>\<open>None\<close> is the panic of \<open>build_part\<close>; an error leaves the rows buffered.\<close>

definition flush_with_summary ::
  "'d crc_alg \<Rightarrow> 'row row_codec \<Rightarrow> dict_section list \<Rightarrow> 'row section_buffers \<Rightarrow>
     ((codec_error + flushed_part option) \<times> 'row section_buffers) option" where
  "flush_with_summary A C dicts b =
     (case encode_buffers C b of
        Err e \<Rightarrow> Some (Err e, b)
      | Ok encoded \<Rightarrow>
          if encoded = [] \<and> dicts = [] then Some (Ok None, b)
          else
            let (lo, hi) = part_interval encoded in
            (case build_part A (part_sections encoded dicts) \<lparr>pm_min_ts = lo, pm_max_ts = hi\<rparr> of
               None \<Rightarrow> None
             | Some part \<Rightarrow>
                 Some (Ok (Some \<lparr>fp_body = part, fp_summary = summary_of encoded dicts part\<rparr>),
                       map (\<lambda>(t, rows). (t, [])) b)))"

definition buffers_flush ::
  "'d crc_alg \<Rightarrow> 'row row_codec \<Rightarrow> dict_section list \<Rightarrow> 'row section_buffers \<Rightarrow>
     ((codec_error + bytes option) \<times> 'row section_buffers) option" where
  "buffers_flush A C dicts b =
     map_option (\<lambda>(r, b). (and_then r (\<lambda>fp. Ok (map_option fp_body fp)), b)) (flush_with_summary A C dicts b)"

section \<open>The buffers' invariant\<close>

definition buffers_ok :: "'row section_buffers \<Rightarrow> bool" where
  "buffers_ok b \<longleftrightarrow> om_valid b \<and>
     (\<forall>(t, rows) \<in> set b. length rows \<le> SECTION_WRITE_BATCH_ROWS \<and> t \<noteq> DICT_STRINGS_TYPE_ID \<and> t \<noteq> DICT_BLOBS_TYPE_ID)"

lemma buffers_ok_empty [simp]: "buffers_ok []"
  by (simp add: buffers_ok_def)

lemma om_set_insert:
  assumes "om_valid m" and "(k', v') \<in> set (om_insert k v m)"
  shows "(k', v') = (k, v) \<or> (k', v') \<in> set m"
  using om_iter_get [OF om_valid_insert [OF assms(1)], of k' v' k v] om_iter_get [OF assms(1), of k' v'] assms
  by (auto simp: om_get_insert split: if_splits)

lemma buffers_ok_push:
  assumes "buffers_ok b" and "t \<noteq> DICT_STRINGS_TYPE_ID" and "t \<noteq> DICT_BLOBS_TYPE_ID"
  shows "buffers_ok (snd (buffers_push t row b))"
proof -
  have valid: "om_valid b" using assms(1) by (simp add: buffers_ok_def)
  show ?thesis
    using assms valid om_set_insert [OF valid]
    by (fastforce simp: buffers_ok_def buffers_push_def Let_def om_valid_insert)
qed

lemma buffers_ok_cleared:
  fixes b :: "'row section_buffers"
  assumes "buffers_ok b"
  shows "buffers_ok (map (\<lambda>(t, rows). (t, [] :: 'row list)) b)"
proof -
  have "map fst (map (\<lambda>(t, rows). (t, [] :: 'row list)) b) = map fst b" by (induction b) auto
  then show ?thesis using assms by (auto simp: buffers_ok_def om_valid_def simp del: map_map)
qed

section \<open>What a flush writes\<close>

abbreviation filled :: "'row section_buffers \<Rightarrow> 'row section_buffers" where
  "filled b \<equiv> filter (\<lambda>(t, rows). rows \<noteq> []) b"

lemma encode_buffers_Ok:
  "encode_buffers C b = Ok es \<longleftrightarrow>
     list_all2 (\<lambda>(t, rows) (t', e). t' = t \<and> encode_rows C t rows = Ok e) (filled b) es"
  by (induction C b arbitrary: es rule: encode_buffers.induct)
    (auto simp: and_then_Ok_iff list_all2_Cons1)

text \<open>The documented bounds of the encoders: a body is not empty and within the cap.\<close>

definition codec_ok :: "'row row_codec \<Rightarrow> bool" where
  "codec_ok C \<longleftrightarrow> (\<forall>t rows body. rc_encode C t rows = Ok body \<longrightarrow> body \<noteq> [] \<and> length body \<le> MAX_SECTION_BYTES)"

definition dict_sections_ok :: "dict_section list \<Rightarrow> bool" where
  "dict_sections_ok dicts \<longleftrightarrow>
     map ds_type_id dicts \<in> {[], [DICT_STRINGS_TYPE_ID], [DICT_BLOBS_TYPE_ID], [DICT_STRINGS_TYPE_ID, DICT_BLOBS_TYPE_ID]} \<and>
     (\<forall>d \<in> set dicts. ds_rows d \<noteq> 0 \<and> ds_body d \<noteq> [] \<and> length (ds_body d) \<le> MAX_SECTION_BYTES)"

definition parquet_ok :: "(u32 \<Rightarrow> entry_snapshot list \<Rightarrow> codec_error + bytes) \<Rightarrow> bool" where
  "parquet_ok parquet \<longleftrightarrow> (\<forall>t es body. parquet t es = Ok body \<longrightarrow> body \<noteq> [])"

lemma encode_dict_section_ok:
  assumes "encode_dict_section parquet t es = Ok d" and "es \<noteq> []" and "parquet_ok parquet"
  shows "ds_type_id d = t \<and> unat (ds_rows d) = length es \<and> ds_body d \<noteq> [] \<and> length (ds_body d) \<le> MAX_SECTION_BYTES"
proof -
  have "length es < 2 ^ 32"
    using assms(1) by (auto simp: encode_dict_section_def check_dict_rows_def MAX_SECTION_ROWS_def and_then_Ok_iff split: if_splits)
  then show ?thesis
    using assms by (auto simp: encode_dict_section_def parquet_ok_def and_then_Ok_iff u32_try_from_def unat_of_nat_u32 split: if_splits)
qed

lemma dict_encode_ok:
  assumes "dict_encode parquet w = Ok dicts" and "parquet_ok parquet"
  shows "dict_sections_ok dicts"
proof -
  have rows: "ds_rows d \<noteq> 0" if "encode_dict_section parquet t es = Ok d" "es \<noteq> []" for t es d
    using encode_dict_section_ok [OF that assms(2)] that(2) by (metis length_0_conv unat_0)
  note ok = encode_dict_section_ok [OF _ _ assms(2)]
  from assms(1) obtain ss bs where d: "dicts = ss @ bs"
    and ss: "ss = [] \<or> (\<exists>es s. es \<noteq> [] \<and> encode_dict_section parquet DICT_STRINGS_TYPE_ID es = Ok s \<and> ss = [s])"
    and bs: "bs = [] \<or> (\<exists>es s. es \<noteq> [] \<and> encode_dict_section parquet DICT_BLOBS_TYPE_ID es = Ok s \<and> bs = [s])"
    by (auto simp: dict_encode_def encode_entries_def and_then_Ok_iff Let_def split: if_splits)
  show ?thesis
    using ss bs ok rows by (auto simp: d dict_sections_ok_def)
qed

lemma distinct_u32_length: "distinct (ts :: u32 list) \<Longrightarrow> length ts \<le> 2 ^ 32"
  using card_mono [of UNIV "set ts"] by (simp add: distinct_card card_word)

lemma sorted_wrt_map_mono: "sorted_wrt P xs \<Longrightarrow> (\<And>x y. x \<in> set xs \<Longrightarrow> y \<in> set xs \<Longrightarrow> P x y \<Longrightarrow> Q (f x) (f y)) \<Longrightarrow> sorted_wrt Q (map f xs)"
  by (induction xs) auto

text \<open>The keys and contents of the encoded buffers.\<close>

lemma encoded_facts:
  assumes "buffers_ok b" and "codec_ok C" and "encode_buffers C b = Ok es"
  shows "map fst es = map fst (filled b)" and "length es \<le> 2 ^ 32"
    and "\<forall>(t, e) \<in> set es. er_rows e \<noteq> 0 \<and> er_body e \<noteq> [] \<and> length (er_body e) \<le> MAX_SECTION_BYTES"
    and "sorted_wrt (<) (map (\<lambda>(t, e). section_order_of t) es)"
    and "\<forall>(t, e) \<in> set es. section_order_of t = Data t"
proof -
  note all = assms(3) [unfolded encode_buffers_Ok]
  show fst_eq: "map fst es = map fst (filled b)"
    using all by (induction rule: list_all2_induct) auto
  have sorted: "sorted_wrt (<) (map fst (filled b))"
    using assms(1) by (auto simp: buffers_ok_def om_valid_def sorted_wrt_map intro: sorted_wrt_filter)
  then have "distinct (map fst es)" unfolding fst_eq by (simp add: strict_sorted_iff)
  from distinct_u32_length [OF this] show "length es \<le> 2 ^ 32" by simp
  have key: "fst x \<noteq> DICT_STRINGS_TYPE_ID \<and> fst x \<noteq> DICT_BLOBS_TYPE_ID" if "x \<in> set es" for x
  proof -
    have "fst x \<in> set (map fst (filled b))" using that by (simp add: fst_eq [symmetric])
    then show ?thesis using assms(1) by (auto simp: buffers_ok_def)
  qed
  then show data: "\<forall>(t, e) \<in> set es. section_order_of t = Data t" by (auto simp: section_order_of_def)
  show "sorted_wrt (<) (map (\<lambda>(t, e). section_order_of t) es)"
  proof (rule sorted_wrt_map_mono)
    show "sorted_wrt (\<lambda>x y. fst x < fst y) es" using sorted by (simp add: fst_eq [symmetric] sorted_wrt_map)
  next
    fix x y assume "x \<in> set es" "y \<in> set es" "fst x < fst y"
    moreover have "section_order_of (fst z) = Data (fst z)" if "z \<in> set es" for z using data that by fastforce
    ultimately show "(case x of (t, e) \<Rightarrow> section_order_of t) < (case y of (t, e) \<Rightarrow> section_order_of t)"
      by (simp add: case_prod_beta)
  qed
  show "\<forall>(t, e) \<in> set es. er_rows e \<noteq> 0 \<and> er_body e \<noteq> [] \<and> length (er_body e) \<le> MAX_SECTION_BYTES"
  proof
    fix x assume "x \<in> set es"
    then obtain i where i: "i < length es" "x = es ! i" by (auto simp: in_set_conv_nth)
    then have "i < length (filled b)" using list_all2_lengthD [OF all] by simp
    from list_all2_nthD [OF all this] obtain t rows e where f: "filled b ! i = (t, rows)" and x: "x = (t, e)"
      and e: "encode_rows C t rows = Ok e"
      by (cases "filled b ! i"; cases x) (auto simp: i)
    have "(t, rows) \<in> set (filled b)" using \<open>i < length (filled b)\<close> f by (metis nth_mem)
    then have "rows \<noteq> []" "length rows \<le> 65536"
      using assms(1) by (auto simp: buffers_ok_def SECTION_WRITE_BATCH_ROWS_def)
    then have "(of_nat (length rows) :: u32) \<noteq> 0"
      using unat_of_nat_u32 [of "length rows"] by (auto simp: word_unat_eq_iff)
    then show "case x of (t, e) \<Rightarrow> er_rows e \<noteq> 0 \<and> er_body e \<noteq> [] \<and> length (er_body e) \<le> MAX_SECTION_BYTES"
      using e assms(2) \<open>length rows \<le> 65536\<close>
      by (auto simp: x encode_rows_def and_then_Ok_iff codec_ok_def u32_try_from_def)
  qed
qed

lemma bodies_bound:
  assumes "\<forall>s \<in> set ss. length (si_body s) \<le> m"
  shows "length (bodies_of ss) \<le> length ss * m"
  using assms by (induction ss) (auto simp: bodies_of_def)

lemma flushed_sections_ok:
  assumes "buffers_ok b" and "codec_ok C" and "dict_sections_ok dicts" and "encode_buffers C b = Ok es"
  shows "sections_ok (part_sections es dicts)" and "length (bodies_of (part_sections es dicts)) < 2 ^ 63"
proof -
  note e = encoded_facts [OF assms(1,2,4)]
  have max: "MAX_SECTION_BYTES = MAX_JOURNAL_LEN" by (simp add: MAX_SECTION_BYTES_eq MAX_JOURNAL_LEN_def)
  have each: "\<forall>s \<in> set (part_sections es dicts). si_rows s \<noteq> 0 \<and> si_body s \<noteq> [] \<and> length (si_body s) \<le> MAX_JOURNAL_LEN"
    using e(3) assms(3) by (fastforce simp: part_sections_def dict_sections_ok_def max [symmetric])
  have data: "map (\<lambda>s. section_order_of (si_type_id s)) (part_sections es dicts) =
      map (\<lambda>(t, e). section_order_of t) es @ map section_order_of (map ds_type_id dicts)"
    by (auto simp: part_sections_def)
  have dict: "sorted_wrt (<) (map section_order_of (map ds_type_id dicts)) \<and>
      (\<forall>o' \<in> set (map section_order_of (map ds_type_id dicts)). o' = section_order.Strings \<or> o' = section_order.Blobs)"
    using assms(3)
    by (auto simp: dict_sections_ok_def section_order_of_def DICT_STRINGS_TYPE_ID_def DICT_BLOBS_TYPE_ID_def)
  have "sorted_wrt (<) (map (\<lambda>s. section_order_of (si_type_id s)) (part_sections es dicts))"
    unfolding data sorted_wrt_append using e(4,5) dict by fastforce
  with each show "sections_ok (part_sections es dicts)" by (simp add: sections_ok_def)
  have "length dicts \<le> 2"
    using assms(3) by (auto simp: dict_sections_ok_def dest: arg_cong [of _ _ length])
  then have "length (part_sections es dicts) \<le> 2 ^ 32 + 2" using e(2) by (simp add: part_sections_def)
  moreover have "length (bodies_of (part_sections es dicts)) \<le> length (part_sections es dicts) * 2 ^ 30"
    using each by (intro bodies_bound) (simp add: MAX_JOURNAL_LEN_def)
  ultimately have "length (bodies_of (part_sections es dicts)) \<le> (2 ^ 32 + 2) * 2 ^ 30"
    by (meson le_trans mult_le_mono1)
  then show "length (bodies_of (part_sections es dicts)) < 2 ^ 63" by simp
qed

section \<open>The flushed part\<close>

lemma encode_rows_fields:
  "encode_rows C t rows = Ok e \<Longrightarrow> length rows \<le> SECTION_WRITE_BATCH_ROWS \<Longrightarrow>
     rc_encode C t rows = Ok (er_body e) \<and> unat (er_rows e) = length rows \<and> er_ts_range e = rc_ts_range C t rows"
  by (auto simp: encode_rows_def and_then_Ok_iff u32_try_from_def SECTION_WRITE_BATCH_ROWS_def unat_of_nat_u32)

lemma encoded_buffers_match:
  assumes "buffers_ok b" and "encode_buffers C b = Ok es"
  shows "list_all2 (\<lambda>(t, rows) (t', e). t' = t \<and> rc_encode C t rows = Ok (er_body e) \<and> unat (er_rows e) = length rows)
    (filled b) es"
proof (rule list.rel_mono_strong)
  show "list_all2 (\<lambda>(t, rows) (t', e). t' = t \<and> encode_rows C t rows = Ok e) (filled b) es"
    using assms(2) by (simp add: encode_buffers_Ok)
qed (use assms(1) encode_rows_fields in \<open>fastforce simp: buffers_ok_def\<close>)

text \<open>
  C15: a flush writes exactly what was buffered. When \<open>flush_with_summary\<close> returns a part, the part
  validates; its catalog lists, in canonical order, one section for every type with buffered rows,
  with the row count and the encoded body of those rows, then the given dictionary sections; the
  summary repeats their sizes; and all buffers are empty. An error keeps every buffered row.
\<close>

theorem flush_exact:
  assumes "crc_laws A" and "codec_ok C" and "buffers_ok b" and "dict_sections_ok dicts"
    and "flush_with_summary A C dicts b = Some (r, b')"
  shows "(case r of
      Err e \<Rightarrow> b' = b
    | Ok None \<Rightarrow> b' = b \<and> buffers_is_empty b \<and> dicts = []
    | Ok (Some fp) \<Rightarrow> buffers_is_empty b' \<and> buffers_ok b' \<and>
       (\<exists>c es. validate_part A (fp_body fp) = Ok c \<and> format_version c = FORMAT_VERSION \<and>
          list_all2 (\<lambda>(t, rows) (t', e). t' = t \<and> rc_encode C t rows = Ok (er_body e) \<and> unat (er_rows e) = length rows)
            (filled b) es \<and>
          map e_type_id (entries c) = map fst es @ map ds_type_id dicts \<and>
          map e_rows (entries c) = map (er_rows \<circ> snd) es @ map ds_rows dicts \<and>
          map (section_body (fp_body fp)) (entries c) = map (er_body \<circ> snd) es @ map ds_body dicts \<and>
          (min_ts c, max_ts c) = part_interval es \<and>
          fp_summary fp = summary_of es dicts (fp_body fp)))"
proof (cases "encode_buffers C b")
  case (Inl e)
  then show ?thesis using assms(5) by (auto simp: flush_with_summary_def)
next
  case (Inr es)
  note match = encoded_buffers_match [OF assms(3) Inr]
  show ?thesis
  proof (cases "es = [] \<and> dicts = []")
    case True
    then have "filled b = []" using match by simp
    then have "buffers_is_empty b" by (auto simp: buffers_is_empty_def list_all_iff filter_empty_conv)
    then show ?thesis using assms(5) True Inr by (auto simp: flush_with_summary_def)
  next
    case False
    obtain lo hi where i: "part_interval es = (lo, hi)" by fastforce
    from False assms(5) Inr obtain part where build: "build_part A (part_sections es dicts) \<lparr>pm_min_ts = lo, pm_max_ts = hi\<rparr> = Some part"
      and r: "r = Ok (Some \<lparr>fp_body = part, fp_summary = summary_of es dicts part\<rparr>)" and b': "b' = map (\<lambda>(t, rows). (t, [])) b"
      by (auto simp: flush_with_summary_def i split: option.splits)
    note ok = flushed_sections_ok [OF assms(3,2,4) Inr]
    note v = validate_built_part [OF assms(1) ok build]
    let ?c = "part_catalog A (part_sections es dicts) \<lparr>pm_min_ts = lo, pm_max_ts = hi\<rparr>"
    have "map e_type_id (entries ?c) = map fst es @ map ds_type_id dicts"
      "map e_rows (entries ?c) = map (er_rows \<circ> snd) es @ map ds_rows dicts"
      "map (section_body part) (entries ?c) = map (er_body \<circ> snd) es @ map ds_body dicts"
      by (auto simp: v(2)) (auto simp: part_catalog_def place_sections_entries part_sections_def)
    moreover have "buffers_is_empty b'" by (auto simp: b' buffers_is_empty_def list_all_iff)
    moreover have "buffers_ok b'" using buffers_ok_cleared [OF assms(3)] by (simp add: b')
    ultimately show ?thesis
      using v(1) match
      by (auto simp: r i part_catalog_def intro!: exI [of _ ?c] exI [of _ es])
  qed
qed

text \<open>One buffered row, and a dictionary section.\<close>

definition sample_row_codec :: "nat row_codec" where
  "sample_row_codec = \<lparr>rc_encode = (\<lambda>t rows. Ok [7]), rc_ts_range = (\<lambda>t rows. Some (5, 9)), rc_list_values = (\<lambda>t rows. 0)\<rparr>"

definition sample_dicts :: "dict_section list" where
  "sample_dicts = [\<lparr>ds_type_id = DICT_STRINGS_TYPE_ID, ds_rows = 1, ds_body = [8]\<rparr>]"

lemma sample_flush:
  "\<exists>fp b'. flush_with_summary crc_iscsi sample_row_codec sample_dicts [(1001001, [42])] = Some (Ok (Some fp), b')"
  by (simp add: flush_with_summary_def encode_rows_def sample_row_codec_def sample_dicts_def u32_try_from_def part_sections_def
      build_part_eq part_interval_def fold_first_def List.map_filter_def)

theorem flush_exact_witness:
  "\<exists>fp c. flush_with_summary crc_iscsi sample_row_codec sample_dicts [(1001001, [42])] =
       Some (Ok (Some fp), [(1001001, [])]) \<and>
     validate_part crc_iscsi (fp_body fp) = Ok c \<and> map e_type_id (entries c) = [1001001, DICT_STRINGS_TYPE_ID] \<and>
     map (section_body (fp_body fp)) (entries c) = [[7], [8]]"
proof -
  obtain fp b' where run: "flush_with_summary crc_iscsi sample_row_codec sample_dicts [(1001001, [42])] = Some (Ok (Some fp), b')"
    using sample_flush by blast
  then have b': "b' = [(1001001, [])]" by (auto simp: flush_with_summary_def split: sum.splits if_splits prod.splits option.splits)
  have ok: "codec_ok sample_row_codec" "dict_sections_ok sample_dicts"
    by (simp_all add: codec_ok_def dict_sections_ok_def sample_row_codec_def sample_dicts_def MAX_SECTION_BYTES_eq)
  have "buffers_ok [(1001001, [42 :: nat])]"
    by (simp add: buffers_ok_def om_valid_def SECTION_WRITE_BATCH_ROWS_def DICT_STRINGS_TYPE_ID_def DICT_BLOBS_TYPE_ID_def)
  from flush_exact [OF crc_iscsi_laws ok(1) this ok(2) run] obtain c and es :: "(u32 \<times> encoded_rows) list" where
    c: "validate_part crc_iscsi (fp_body fp) = Ok c" "map e_type_id (entries c) = map fst es @ map ds_type_id sample_dicts"
      "map (section_body (fp_body fp)) (entries c) = map (er_body \<circ> snd) es @ map ds_body sample_dicts"
    and es: "list_all2 (\<lambda>(t, rows) (t', e). t' = t \<and> rc_encode sample_row_codec t rows = Ok (er_body e) \<and> unat (er_rows e) = length rows)
            [(1001001, [42])] es"
    by auto
  from es have "map fst es = [1001001]" "map (er_body \<circ> snd) es = [[7]]"
    by (auto simp: list_all2_Cons1 sample_row_codec_def)
  with c run b' show ?thesis by (auto simp: sample_dicts_def)
qed

end
