(* ===== verification/Utf8.thy ===== *)
theory Utf8
  imports Prelude
begin

text \<open>
  UTF-8 as \<open>std::str::from_utf8\<close> checks it, with the longest valid prefix that its error reports, and
  the character boundaries that \<open>crates/kronika-source-log/src/text.rs\<close> cuts texts at.
\<close>

section \<open>Well-formed sequences\<close>

text \<open>\<open>std::str::from_utf8\<close>: the well-formed sequences of the Unicode standard.\<close>

abbreviation byte_in :: "nat \<Rightarrow> nat \<Rightarrow> u8 \<Rightarrow> bool" where
  "byte_in lo hi b \<equiv> lo \<le> unat b \<and> unat b \<le> hi"

definition utf8_lead :: "u8 \<Rightarrow> ((u8 \<Rightarrow> bool) \<times> nat) option" where
  "utf8_lead b =
     (if byte_in 0xC2 0xDF b then Some (byte_in 0x80 0xBF, 0)
      else if unat b = 0xE0 then Some (byte_in 0xA0 0xBF, 1)
      else if unat b = 0xED then Some (byte_in 0x80 0x9F, 1)
      else if byte_in 0xE1 0xEF b then Some (byte_in 0x80 0xBF, 1)
      else if unat b = 0xF0 then Some (byte_in 0x90 0xBF, 2)
      else if unat b = 0xF4 then Some (byte_in 0x80 0x8F, 2)
      else if byte_in 0xF1 0xF3 b then Some (byte_in 0x80 0xBF, 2)
      else None)"

fun utf8_tail :: "nat \<Rightarrow> u8 list \<Rightarrow> u8 list option" where
  "utf8_tail 0 bs = Some bs"
| "utf8_tail (Suc n) [] = None"
| "utf8_tail (Suc n) (b # bs) = (if byte_in 0x80 0xBF b then utf8_tail n bs else None)"

lemma utf8_tail_length: "utf8_tail n bs = Some rest \<Longrightarrow> length rest \<le> length bs"
  by (induction n bs rule: utf8_tail.induct) (auto split: if_splits)

function utf8_valid :: "u8 list \<Rightarrow> bool" where
  "utf8_valid [] = True"
| "utf8_valid (b # bs) =
     (if unat b < 0x80 then utf8_valid bs
      else case utf8_lead b of
        None \<Rightarrow> False
      | Some (second, n) \<Rightarrow>
          (case bs of
             [] \<Rightarrow> False
           | c # cs \<Rightarrow> second c \<and> (case utf8_tail n cs of None \<Rightarrow> False | Some rest \<Rightarrow> utf8_valid rest)))"
  by pat_completeness auto
termination
  by (relation "measure length") (auto dest: utf8_tail_length)

text \<open>The bytes up to \<open>Utf8Error::valid_up_to\<close>.\<close>

function utf8_prefix :: "u8 list \<Rightarrow> u8 list" where
  "utf8_prefix [] = []"
| "utf8_prefix (b # bs) =
     (if unat b < 0x80 then b # utf8_prefix bs
      else case utf8_lead b of
        None \<Rightarrow> []
      | Some (second, n) \<Rightarrow>
          (case bs of
             [] \<Rightarrow> []
           | c # cs \<Rightarrow>
               if second c then
                 (case utf8_tail n cs of
                    None \<Rightarrow> []
                  | Some rest \<Rightarrow> b # c # take n cs @ utf8_prefix rest)
               else []))"
  by pat_completeness auto
termination
  by (relation "measure length") (auto dest: utf8_tail_length)

lemma utf8_tail_split: "utf8_tail n cs = Some rest \<Longrightarrow> take n cs @ rest = cs"
  by (induction n cs rule: utf8_tail.induct) (auto split: if_splits)

lemma utf8_tail_replace: "utf8_tail n cs = Some rest \<Longrightarrow> utf8_tail n (take n cs @ x) = Some x"
  by (induction n cs rule: utf8_tail.induct) (auto split: if_splits)

text \<open>A sequence of more than one byte at the front, or none.\<close>

lemma utf8_multibyte:
  assumes "\<not> unat b < 0x80"
  obtains (sequence) second n c cs rest where "utf8_lead b = Some (second, n)" "bs = c # cs" "second c"
      "utf8_tail n cs = Some rest" "utf8_prefix (b # bs) = b # c # take n cs @ utf8_prefix rest"
  | (none) "utf8_prefix (b # bs) = []" "\<not> utf8_valid (b # bs)"
proof (cases "\<exists>second n c cs rest. utf8_lead b = Some (second, n) \<and> bs = c # cs \<and> second c \<and> utf8_tail n cs = Some rest")
  case True
  then obtain second n c cs rest where
    e: "utf8_lead b = Some (second, n)" "bs = c # cs" "second c" "utf8_tail n cs = Some rest" by blast
  show thesis by (rule sequence [OF e]) (simp add: assms e)
next
  case False
  then have "utf8_prefix (b # bs) = []" "\<not> utf8_valid (b # bs)"
    using assms by (auto split: option.splits list.splits)
  then show thesis by (rule none)
qed

lemma utf8_prefix_valid: "utf8_valid (utf8_prefix bs)"
proof (induction bs rule: length_induct)
  case (1 xs)
  show ?case
  proof (cases xs)
    case (Cons b bs)
    show ?thesis
    proof (cases "unat b < 0x80")
      case True
      then show ?thesis using 1 Cons by simp
    next
      case False
      then show ?thesis
      proof (cases rule: utf8_multibyte [of b bs])
        case (sequence second n c cs rest)
        then have "utf8_valid (utf8_prefix rest)" using 1 Cons utf8_tail_length [OF sequence(4)] by simp
        then show ?thesis using False sequence(1,3) utf8_tail_replace [OF sequence(4)]
          unfolding Cons sequence(5) by simp
      qed (simp add: Cons)
    qed
  qed simp
qed

lemma utf8_prefix_is_prefix: "\<exists>rest. bs = utf8_prefix bs @ rest"
proof (induction bs rule: length_induct)
  case (1 xs)
  show ?case
  proof (cases xs)
    case (Cons b bs)
    show ?thesis
    proof (cases "unat b < 0x80")
      case True
      then show ?thesis using 1 Cons by auto
    next
      case False
      then show ?thesis
      proof (cases rule: utf8_multibyte [of b bs])
        case (sequence second n c cs rest)
        then obtain more_bytes where "rest = utf8_prefix rest @ more_bytes"
          using 1 Cons utf8_tail_length [OF sequence(4)] by fastforce
        then have "cs = take n cs @ utf8_prefix rest @ more_bytes" using utf8_tail_split [OF sequence(4)] by simp
        then have "xs = utf8_prefix xs @ more_bytes" unfolding Cons sequence(5) by (simp only: sequence(2) append.simps append_assoc)
        then show ?thesis by blast
      qed (simp add: Cons)
    qed
  qed simp
qed

lemma utf8_prefix_id: "utf8_valid bs \<Longrightarrow> utf8_prefix bs = bs"
proof (induction bs rule: length_induct)
  case (1 xs)
  show ?case
  proof (cases xs)
    case (Cons b bs)
    show ?thesis
    proof (cases "unat b < 0x80")
      case True
      then show ?thesis using 1 Cons by simp
    next
      case False
      then show ?thesis
      proof (cases rule: utf8_multibyte [of b bs])
        case (sequence second n c cs rest)
        then have "utf8_valid rest" using 1(2) Cons False by simp
        then have "utf8_prefix rest = rest" using 1(1) Cons sequence(2) utf8_tail_length [OF sequence(4)] by simp
        then show ?thesis using utf8_tail_split [OF sequence(4)] unfolding Cons sequence(5) by (simp add: sequence(2))
      qed (use 1 Cons in simp)
    qed
  qed simp
qed

section \<open>Cutting at a character boundary\<close>

text \<open>\<open>str::is_char_boundary\<close>.\<close>

definition is_char_boundary :: "u8 list \<Rightarrow> nat \<Rightarrow> bool" where
  "is_char_boundary s i \<longleftrightarrow> i = 0 \<or> i = length s \<or> i < length s \<and> \<not> byte_in 0x80 0xBF (s ! i)"

fun boundary_below :: "u8 list \<Rightarrow> nat \<Rightarrow> nat" where
  "boundary_below s 0 = 0"
| "boundary_below s (Suc n) = (if is_char_boundary s (Suc n) then Suc n else boundary_below s n)"

definition truncate_text :: "u8 list \<Rightarrow> usize \<Rightarrow> u8 list" where
  "truncate_text s max_bytes = (if length s \<le> max_bytes then s else take (boundary_below s max_bytes) s)"

lemma boundary_below_le: "boundary_below s n \<le> n"
  by (induction n) auto

lemma truncate_text_bound: "length (truncate_text s n) \<le> n"
  using boundary_below_le [of s n] by (simp add: truncate_text_def)

lemma truncate_text_short [simp]: "length s \<le> n \<Longrightarrow> truncate_text s n = s"
  by (simp add: truncate_text_def)

end
