(* ===== verification/User_Names.thy ===== *)
theory User_Names
  imports Interner_Props Layout_Entries Utf8
begin

text \<open>
  The names of process users (\<open>crates/kronika-source-os/src/passwd.rs\<close> and
  \<open>bins/kronika-collector/src/os_sources/user_names.rs\<close>): the bounded parser of
  \<open>/etc/passwd\<close>, and the set of users observed in a segment, each of which gets its name written
  at most once. Log events are left out.
\<close>

section \<open>The password file\<close>

definition MAX_PASSWD_BYTES :: usize where "MAX_PASSWD_BYTES = 256 * 1024"
definition MAX_PASSWD_LINE_BYTES :: usize where "MAX_PASSWD_LINE_BYTES = 4 * 1024"
definition MAX_PASSWD_ENTRIES :: usize where "MAX_PASSWD_ENTRIES = 4 * 1024"
definition MAX_USERNAME_BYTES :: usize where "MAX_USERNAME_BYTES = 256"

record passwd_snapshot =
  ps_users :: "(u32, bytes) omap"
  ps_rejected_lines :: usize

text \<open>An error that carries a text.\<close>

datatype passwd_error = PasswdIo io_error | PasswdTooLong | PasswdTooManyRecords

definition byte_string :: "bytes \<Rightarrow> string" where
  "byte_string bs = map (\<lambda>b. char_of (unat b)) bs"

definition strip_carriage_return :: "bytes \<Rightarrow> bytes" where
  "strip_carriage_return raw = (if raw \<noteq> [] \<and> List.last raw = 13 then butlast raw else raw)"

text \<open>One record; \<open>None\<close> is a rejected line.\<close>

definition passwd_record :: "bytes \<Rightarrow> (u32 \<times> bytes) option" where
  "passwd_record raw =
     (if length raw > MAX_PASSWD_LINE_BYTES then None
      else case split_on 58 raw of
        name # password # uid # rest \<Rightarrow>
          if name = [] \<or> length name > MAX_USERNAME_BYTES then None
          else if \<not> utf8_valid name \<or> \<not> utf8_valid uid then None
          else (case parse_unsigned (2 ^ 32 - 1) (byte_string uid) of
              None \<Rightarrow> None
            | Some uid \<Rightarrow> if length rest < 4 then None else Some (of_nat uid, name))
      | _ \<Rightarrow> None)"

text \<open>The first record of a user wins; the counts stay far below their type's maximum.\<close>

fun passwd_loop :: "bytes list \<Rightarrow> usize \<Rightarrow> passwd_snapshot \<Rightarrow> passwd_error + passwd_snapshot" where
  "passwd_loop [] records s = Ok s"
| "passwd_loop (raw # raws) records s =
     (let raw = strip_carriage_return raw in
      if raw = [] then passwd_loop raws records s
      else if Suc records > MAX_PASSWD_ENTRIES then Err PasswdTooManyRecords
      else passwd_loop raws (Suc records)
        (case passwd_record raw of
           None \<Rightarrow> s\<lparr>ps_rejected_lines := Suc (ps_rejected_lines s)\<rparr>
         | Some (uid, name) \<Rightarrow>
             (case map_of (ps_users s) uid of
                None \<Rightarrow> s\<lparr>ps_users := om_insert uid name (ps_users s)\<rparr>
              | Some _ \<Rightarrow> s)))"

definition passwd_parse :: "bytes \<Rightarrow> passwd_error + passwd_snapshot" where
  "passwd_parse bs = passwd_loop (split_on 10 bs) 0 \<lparr>ps_users = [], ps_rejected_lines = 0\<rparr>"

text \<open>\<open>contents\<close> is the file, or the error of opening or reading it.\<close>

definition passwd_read :: "io_error + bytes \<Rightarrow> passwd_error + passwd_snapshot" where
  "passwd_read contents =
     and_then (map_err PasswdIo contents) (\<lambda>contents.
       let bs = take (MAX_PASSWD_BYTES + 1) contents in
       if length bs > MAX_PASSWD_BYTES then Err PasswdTooLong else passwd_parse bs)"

definition passwd_username :: "passwd_snapshot \<Rightarrow> u32 \<Rightarrow> bytes option" where
  "passwd_username s uid = map_of (ps_users s) uid"

section \<open>The users of a segment\<close>

definition MAX_USERS_PER_SEGMENT :: usize where "MAX_USERS_PER_SEGMENT = 4 * 1024"

datatype passwd_state = PasswdUnread | PasswdReady passwd_snapshot | PasswdUnavailable

datatype user_name_state = PendingWrite | UserWritten | NameNotFound

type_synonym user_key = "u8 \<times> u32"

record segment_user_names =
  un_passwd :: passwd_state
  un_users :: "(user_key, user_name_state) omap"
  un_limit_reported :: bool

definition empty_user_names :: segment_user_names where
  "empty_user_names = \<lparr>un_passwd = PasswdUnread, un_users = [], un_limit_reported = False\<rparr>"

definition observe_user :: "u8 \<Rightarrow> u32 \<Rightarrow> segment_user_names \<Rightarrow> segment_user_names" where
  "observe_user scope uid u =
     (if map_of (un_users u) (scope, uid) \<noteq> None then u
      else if length (un_users u) \<ge> MAX_USERS_PER_SEGMENT then u\<lparr>un_limit_reported := True\<rparr>
      else u\<lparr>un_users := om_insert (scope, uid) PendingWrite (un_users u)\<rparr>)"

text \<open>\<open>system\<close> is the answer of \<open>PasswdSnapshot::system\<close>, asked for once.\<close>

definition load_passwd_once :: "passwd_error + passwd_snapshot \<Rightarrow> segment_user_names \<Rightarrow> segment_user_names" where
  "load_passwd_once system u =
     (if un_passwd u \<noteq> PasswdUnread then u
      else u\<lparr>un_passwd := (case system of Ok s \<Rightarrow> PasswdReady s | Err _ \<Rightarrow> PasswdUnavailable)\<rparr>)"

definition intern_str :: "hashes \<Rightarrow> bytes \<Rightarrow> interner \<Rightarrow> str_id option \<times> interner" where
  "intern_str h v st =
     (case interner_intern h v st of (Ok i, st) \<Rightarrow> (Some i, st) | (Err _, st) \<Rightarrow> (None, st))"

record os_user_row =
  ou_ts :: i64
  ou_uid :: u32
  ou_username :: str_id
  ou_scope :: u8

fun prepare_loop ::
  "hashes \<Rightarrow> passwd_snapshot \<Rightarrow> i64 \<Rightarrow> (user_key \<times> user_name_state) list \<Rightarrow> interner \<Rightarrow>
     (os_user_row list \<times> user_key list) \<times> (user_key \<times> user_name_state) list \<times> interner" where
  "prepare_loop h passwd ts [] st = (([], []), [], st)"
| "prepare_loop h passwd ts (((scope, uid), state) # users) st =
     (if state \<noteq> PendingWrite then
        let (out, users, st) = prepare_loop h passwd ts users st in (out, ((scope, uid), state) # users, st)
      else case passwd_username passwd uid of
        None \<Rightarrow>
          let (out, users, st) = prepare_loop h passwd ts users st in (out, ((scope, uid), NameNotFound) # users, st)
      | Some name \<Rightarrow>
          (case intern_str h name st of
             (None, st) \<Rightarrow>
               let (out, users, st) = prepare_loop h passwd ts users st in (out, ((scope, uid), state) # users, st)
           | (Some i, st) \<Rightarrow>
               let ((rows, pending), users, st) = prepare_loop h passwd ts users st in
               ((\<lparr>ou_ts = ts, ou_uid = uid, ou_username = i, ou_scope = scope\<rparr> # rows, (scope, uid) # pending),
                ((scope, uid), state) # users, st)))"

definition prepare_rows ::
  "hashes \<Rightarrow> passwd_error + passwd_snapshot \<Rightarrow> i64 \<Rightarrow> interner \<Rightarrow> segment_user_names \<Rightarrow>
     (os_user_row list \<times> user_key list) \<times> segment_user_names \<times> interner" where
  "prepare_rows h system ts st u =
     (let u = load_passwd_once system u in
      case un_passwd u of
        PasswdReady passwd \<Rightarrow>
          let (out, users, st) = prepare_loop h passwd ts (un_users u) st in (out, u\<lparr>un_users := users\<rparr>, st)
      | _ \<Rightarrow> (([], []), u, st))"

definition confirm_written :: "user_key list \<Rightarrow> segment_user_names \<Rightarrow> segment_user_names" where
  "confirm_written keys u =
     u\<lparr>un_users := map (\<lambda>(k, state). (k, if k \<in> set keys then UserWritten else state)) (un_users u)\<rparr>"

section \<open>Facts\<close>

text \<open>A parsed file resolves the first accepted record of every user.\<close>

definition passwd_records :: "bytes \<Rightarrow> (u32 \<times> bytes) list" where
  "passwd_records bs =
     List.map_filter passwd_record (filter (\<lambda>raw. raw \<noteq> []) (map strip_carriage_return (split_on 10 bs)))"

lemma passwd_loop_users:
  assumes "passwd_loop raws n s = Ok s'" and "om_valid (ps_users s)"
  shows "om_valid (ps_users s') \<and>
    map_of (ps_users s') = map_of (List.map_filter passwd_record (filter (\<lambda>raw. raw \<noteq> []) (map strip_carriage_return raws)))
      ++ map_of (ps_users s)"
  using assms
proof (induction raws n s rule: passwd_loop.induct)
  case (2 raw raws n s)
  let ?raw = "strip_carriage_return raw"
  show ?case
  proof (cases "?raw = []")
    case False
    let ?s = "case passwd_record ?raw of
           None \<Rightarrow> s\<lparr>ps_rejected_lines := Suc (ps_rejected_lines s)\<rparr>
         | Some (uid, name) \<Rightarrow>
             (case map_of (ps_users s) uid of
                None \<Rightarrow> s\<lparr>ps_users := om_insert uid name (ps_users s)\<rparr>
              | Some _ \<Rightarrow> s)"
    have n: "\<not> Suc n > MAX_PASSWD_ENTRIES" and run: "passwd_loop raws (Suc n) ?s = Ok s'"
      using "2.prems"(1) False by (auto simp: Let_def split: if_splits)
    have valid: "om_valid (ps_users ?s)"
      using "2.prems"(2) by (auto simp: om_valid_insert split: option.split prod.split)
    note IH = "2.IH"(2) [OF refl False n run valid]
    have "map_of (ps_users ?s) = (case passwd_record ?raw of None \<Rightarrow> Map.empty | Some (uid, name) \<Rightarrow> [uid \<mapsto> name]) ++ map_of (ps_users s)"
      using "2.prems"(2) by (auto simp: fun_eq_iff om_get_insert map_add_def split: option.splits prod.splits)
    then show ?thesis
      using IH False by (auto simp: List.map_filter_def map_add_assoc fun_eq_iff map_add_def split: option.splits)
  qed (use 2 in \<open>simp add: List.map_filter_def\<close>)
qed simp

lemma passwd_parse_first:
  assumes "passwd_parse bs = Ok s"
  shows "passwd_username s = map_of (passwd_records bs)"
  using passwd_loop_users [OF assms [unfolded passwd_parse_def]]
  by (simp add: passwd_username_def passwd_records_def fun_eq_iff)

text \<open>A prepared row names a pending user; users in other states are left alone.\<close>

lemma prepare_loop_facts:
  assumes "prepare_loop h passwd ts users st = ((rows, pending), users', st')" and "distinct (map fst users)"
  shows "map fst users' = map fst users \<and> map (\<lambda>r. (ou_scope r, ou_uid r)) rows = pending \<and> distinct pending \<and>
    (\<forall>k \<in> set pending. map_of users k = Some PendingWrite \<and> map_of users' k = Some PendingWrite) \<and>
    (\<forall>k state. map_of users k = Some state \<longrightarrow> state \<noteq> PendingWrite \<longrightarrow> map_of users' k = Some state)"
  using assms
proof (induction h passwd ts users st arbitrary: rows pending users' st' rule: prepare_loop.induct)
  case (2 h passwd ts scope uid state users st)
  have notin: "map_of users (scope, uid) = None" using "2.prems"(2) by (simp add: map_of_eq_None_iff)
  have d: "distinct (map fst users)" using "2.prems"(2) by simp
  show ?case
  proof (cases "state = PendingWrite")
    case False
    obtain users1 where r: "prepare_loop h passwd ts users st = ((rows, pending), users1, st')"
      and u: "users' = ((scope, uid), state) # users1"
      using "2.prems"(1) False by (auto split: prod.splits)
    show ?thesis using "2.IH"(1) [OF False r d] notin by (auto simp: u)
  next
    case True
    show ?thesis
    proof (cases "passwd_username passwd uid")
      case None
      obtain users1 where r: "prepare_loop h passwd ts users st = ((rows, pending), users1, st')"
        and u: "users' = ((scope, uid), NameNotFound) # users1"
        using "2.prems"(1) True None by (auto split: prod.splits)
      show ?thesis using "2.IH"(2) [OF _ None r d] True notin by (auto simp: u)
    next
      case (Some name)
      obtain oi st1 where i: "intern_str h name st = (oi, st1)" by fastforce
      show ?thesis
      proof (cases oi)
        case None
        obtain users1 where r: "prepare_loop h passwd ts users st1 = ((rows, pending), users1, st')"
          and u: "users' = ((scope, uid), state) # users1"
          using "2.prems"(1) True Some i None by (auto split: prod.splits)
        show ?thesis using "2.IH"(3) [OF _ Some i [symmetric] None r d] True notin by (auto simp: u)
      next
        case oi: (Some si)
        obtain rows1 pending1 users1 where r: "prepare_loop h passwd ts users st1 = ((rows1, pending1), users1, st')"
          and u: "users' = ((scope, uid), state) # users1" and p: "pending = (scope, uid) # pending1"
          and rw: "rows = \<lparr>ou_ts = ts, ou_uid = uid, ou_username = si, ou_scope = scope\<rparr> # rows1"
          using "2.prems"(1) True Some i oi by (auto split: prod.splits)
        show ?thesis using "2.IH"(4) [OF _ Some i [symmetric] oi r d] True notin by (auto simp: u p rw)
      qed
    qed
  qed
qed simp

definition written_users :: "segment_user_names \<Rightarrow> user_key set" where
  "written_users u = {k. map_of (un_users u) k = Some UserWritten}"

definition user_names_ok :: "segment_user_names \<Rightarrow> bool" where
  "user_names_ok u \<longleftrightarrow> om_valid (un_users u) \<and> length (un_users u) \<le> MAX_USERS_PER_SEGMENT"

lemma empty_user_names_ok [simp]: "user_names_ok empty_user_names" "written_users empty_user_names = {}"
  by (simp_all add: user_names_ok_def empty_user_names_def written_users_def)

lemma om_insert_length_new: "om_valid m \<Longrightarrow> map_of m k = None \<Longrightarrow> length (om_insert k v m) = Suc (length m)"
  by (induction k v m rule: om_insert.induct) (auto simp: om_valid_Cons split: if_splits)

text \<open>
  The names are written once: preparing a window never returns a confirmed user, what was
  confirmed stays confirmed, and the tracked users stay within the limit of a segment.
\<close>

lemma observe_user_ok:
  "user_names_ok u \<Longrightarrow> user_names_ok (observe_user scope uid u) \<and> written_users (observe_user scope uid u) = written_users u"
  by (auto simp: user_names_ok_def observe_user_def written_users_def om_valid_insert om_get_insert om_insert_length_new)

lemma prepare_rows_ok:
  assumes "user_names_ok u" and "prepare_rows h system ts st u = ((rows, pending), u', st')"
  shows "user_names_ok u' \<and> written_users u \<subseteq> written_users u' \<and> set pending \<inter> written_users u = {} \<and>
    map (\<lambda>r. (ou_scope r, ou_uid r)) rows = pending \<and> distinct pending \<and>
    (\<forall>k \<in> set pending. map_of (un_users u') k = Some PendingWrite)"
proof (cases "un_passwd (load_passwd_once system u)")
  case (PasswdReady passwd)
  have users: "un_users (load_passwd_once system u) = un_users u" by (simp add: load_passwd_once_def)
  obtain users' where r: "prepare_loop h passwd ts (un_users u) st = ((rows, pending), users', st')"
    and u': "un_users u' = users'"
    using assms(2) PasswdReady by (auto simp: prepare_rows_def Let_def users split: prod.splits)
  note f = prepare_loop_facts [OF r om_distinct]
  have "om_valid (un_users u)" using assms(1) by (simp add: user_names_ok_def)
  with f have f: "map fst users' = map fst (un_users u)" "map (\<lambda>r. (ou_scope r, ou_uid r)) rows = pending" "distinct pending"
    "\<forall>k \<in> set pending. map_of (un_users u) k = Some PendingWrite \<and> map_of users' k = Some PendingWrite"
    "\<forall>k state. map_of (un_users u) k = Some state \<longrightarrow> state \<noteq> PendingWrite \<longrightarrow> map_of users' k = Some state"
    by blast+
  have "length users' = length (un_users u)" using arg_cong [OF f(1), of length] by simp
  with f show ?thesis
    using assms(1) by (auto simp: user_names_ok_def om_valid_def u' written_users_def)
qed (use assms in \<open>auto simp: prepare_rows_def Let_def load_passwd_once_def written_users_def user_names_ok_def
  split: if_splits\<close>)

lemma confirm_written_ok:
  assumes "user_names_ok u"
  shows "user_names_ok (confirm_written keys u) \<and>
    written_users (confirm_written keys u) = written_users u \<union> (set keys \<inter> dom (map_of (un_users u)))"
proof -
  have "map fst (map (\<lambda>(k, state). (k, if k \<in> set keys then UserWritten else state)) m) = map fst m"
    for m :: "(user_key, user_name_state) omap"
    by (induction m) auto
  moreover have "map_of (map (\<lambda>(k, state). (k, if k \<in> set keys then UserWritten else state)) m) k =
      map_option (\<lambda>state. if k \<in> set keys then UserWritten else state) (map_of m k)" for m k
    by (induction m) auto
  ultimately show ?thesis
    using assms
    by (auto simp: user_names_ok_def om_valid_def confirm_written_def written_users_def dom_def simp del: map_map split: if_splits)
qed

section \<open>The names of a segment\<close>

text \<open>
  The life of the names of one segment, with the users whose rows reached the journal: users are
  observed; rows are prepared for a window, which is refused or written and then confirmed.
\<close>

inductive names_run :: "segment_user_names \<Rightarrow> user_key list \<Rightarrow> bool" where
  fresh: "names_run empty_user_names []"
| observed: "names_run u log \<Longrightarrow> names_run (observe_user scope uid u) log"
| refused: "names_run u log \<Longrightarrow> prepare_rows h system ts st u = ((rows, pending), u', st') \<Longrightarrow> names_run u' log"
| confirmed: "names_run u log \<Longrightarrow> prepare_rows h system ts st u = ((rows, pending), u', st') \<Longrightarrow>
    names_run (confirm_written pending u') (log @ map (\<lambda>r. (ou_scope r, ou_uid r)) rows)"

lemma names_run_ok: "names_run u log \<Longrightarrow> user_names_ok u \<and> distinct log \<and> set log \<subseteq> written_users u"
proof (induction rule: names_run.induct)
  case (observed u log scope uid)
  then show ?case using observe_user_ok by simp
next
  case (refused u log h system ts st rows pending u' st')
  then show ?case using prepare_rows_ok [of u h system ts st rows pending u' st'] by auto
next
  case (confirmed u log h system ts st rows pending u' st')
  note p = prepare_rows_ok [of u h system ts st rows pending u' st']
  then have ok: "user_names_ok u'" using confirmed by blast
  have "set pending \<subseteq> dom (map_of (un_users u'))" using p confirmed by auto
  then show ?case using p confirmed confirm_written_ok [OF ok, of pending] by auto
qed simp

text \<open>
  C31: the name of a user is written at most once per segment. Whatever is observed, whichever windows
  are refused after their rows were prepared and whatever the password file and the dictionary
  answer, no (scope, uid) pair is in two written rows of a segment, every written row is confirmed, and the
  users that are tracked, pending, written and unknown ones together, are distinct and at most 4096.
\<close>

theorem names_written_once:
  assumes "names_run u log"
  shows "distinct log \<and> length log \<le> MAX_USERS_PER_SEGMENT \<and> (\<forall>k \<in> set log. map_of (un_users u) k = Some UserWritten) \<and>
    distinct (map fst (un_users u)) \<and> length (un_users u) \<le> MAX_USERS_PER_SEGMENT \<and> MAX_USERS_PER_SEGMENT = 4096"
proof -
  from names_run_ok [OF assms] have n: "user_names_ok u" "distinct log" "set log \<subseteq> written_users u" by auto
  have "set log \<subseteq> fst ` set (un_users u)"
    using n(3) by (force simp: written_users_def dest: map_of_SomeD)
  then have "card (set log) \<le> length (un_users u)"
    by (metis (no_types, lifting) List.finite_set card_length card_mono length_map list.set_map order_trans)
  then show ?thesis
    using n distinct_card [OF n(2)] om_distinct [of "un_users u"]
    by (auto simp: user_names_ok_def written_users_def MAX_USERS_PER_SEGMENT_def)
qed

text \<open>Two users, one of them known, in two windows with the same password file.\<close>

definition sample_names_file :: "passwd_error + passwd_snapshot" where
  "sample_names_file = passwd_parse [112, 103, 58, 120, 58, 55, 58, 55, 58, 58, 58]"

definition names_hashes :: hashes where
  "names_hashes = \<lparr>xxh3_64 = (\<lambda>bs. 4 + of_nat (length bs)), sha256 = (\<lambda>bs. replicate 32 0)\<rparr>"

definition sample_names :: segment_user_names where
  "sample_names = observe_user 1 9 (observe_user 1 7 empty_user_names)"

lemma sample_names_users: "un_users sample_names = [((1, 7), PendingWrite), ((1, 9), PendingWrite)]"
  "un_passwd sample_names = PasswdUnread"
  by (simp_all add: sample_names_def observe_user_def empty_user_names_def MAX_USERS_PER_SEGMENT_def)

lemma sample_uid: "parse_unsigned 4294967295 [char_of (55 :: nat)] = Some 7"
proof -
  have "char_of (55 :: nat) = CHR ''7''" "is_ascii_digit (CHR ''7'')" "num ''7'' = 7" by code_simp+
  then show ?thesis by (simp add: parse_unsigned_def)
qed

lemma sample_names_parse: "sample_names_file = Ok \<lparr>ps_users = [(7, [112, 103])], ps_rejected_lines = 0\<rparr>"
  by (simp add: sample_names_file_def passwd_parse_def passwd_record_def MAX_PASSWD_ENTRIES_def MAX_PASSWD_LINE_BYTES_def
      MAX_USERNAME_BYTES_def strip_carriage_return_def byte_string_def sample_uid Let_def)

lemma sample_intern: "\<exists>i st. intern_str names_hashes [112, 103] (Interner_new default_dict_limits) = (Some i, st)"
  by (simp add: intern_str_def interner_eval names_hashes_def default_dict_limits_def DEFAULT_BLOB_THRESHOLD_def
      DEFAULT_TRUNCATE_LIMIT_def DEFAULT_MAX_TOTAL_BYTES_def)

theorem names_written_once_witness:
  "\<exists>u. names_run u [(1, 7)] \<and> map_of (un_users u) (1, 7) = Some UserWritten \<and> map_of (un_users u) (1, 9) = Some NameNotFound"
proof -
  obtain i st where intern: "intern_str names_hashes [112, 103] (Interner_new default_dict_limits) = (Some i, st)"
    using sample_intern by blast
  have "\<exists>(rows :: os_user_row list) (u :: segment_user_names). prepare_rows names_hashes sample_names_file 5 (Interner_new default_dict_limits) sample_names =
      ((rows, [(1, 7)]), u, st) \<and> map (\<lambda>r. (ou_scope r, ou_uid r)) rows = [(1, 7)] \<and>
      un_users u = [((1, 7), PendingWrite), ((1, 9), NameNotFound)]"
    by (simp add: prepare_rows_def load_passwd_once_def sample_names_users sample_names_parse passwd_username_def intern)
  then obtain rows :: "os_user_row list" and u :: segment_user_names
    where p: "prepare_rows names_hashes sample_names_file 5 (Interner_new default_dict_limits) sample_names =
      ((rows, [(1, 7)]), u, st)" and r: "map (\<lambda>r. (ou_scope r, ou_uid r)) rows = [(1, 7)]"
    and u: "un_users u = [((1, 7), PendingWrite), ((1, 9), NameNotFound)]"
    by (elim exE conjE) (rule that)
  have n: "map_of (un_users (confirm_written [(1, 7)] u)) (1, 9) = Some NameNotFound" by (simp add: confirm_written_def u)
  have "names_run sample_names []" unfolding sample_names_def by (intro names_run.intros)
  from names_run.confirmed [OF this p] have run: "names_run (confirm_written [(1, 7)] u) [(1, 7)]" by (simp add: r)
  from names_written_once [OF run] run n show ?thesis by auto
qed

end
