(* ===== verification/Collector_Segments.thy ===== *)
theory Collector_Segments
  imports Section_Buffers Segment_Write_Props User_Names
begin

text \<open>
  The open segment of the collector (\<open>bins/kronika-collector/src/segments.rs\<close> and
  \<open>segments/age.rs\<close>, \<open>close.rs\<close>, \<open>open.rs\<close>): a window is encoded and appended to the journal, and
  the segment is closed when the journal is full, when the caller asks for it, by size or by age:
  the journal is published as a finished segment and only then reset. Log events are left out; the
  readings of the clocks are arguments.
\<close>

section \<open>The age of a segment\<close>

text \<open>
  The time to the next moment of the period's grid that is shifted by the seed, in nanoseconds.
\<close>

definition until_next_phase :: "u64 \<Rightarrow> duration \<Rightarrow> duration \<Rightarrow> duration" where
  "until_next_phase seed period utc =
     (if period = 0 then 0
      else let phase = unat seed mod period; position = utc mod period in
        if position < phase then phase - position else period - (position - phase))"

text \<open>
  C30: segments are sealed on the grid of their period. For a period that is not zero the delay is positive
  and at most one period, and it ends at a moment that is congruent to the seed modulo the period, whenever
  the segment was opened; for the period zero there is no delay.
\<close>

theorem until_next_phase_aligned:
  "period = 0 \<and> until_next_phase seed period utc = 0 \<or>
   0 < until_next_phase seed period utc \<and> until_next_phase seed period utc \<le> period \<and>
   (utc + until_next_phase seed period utc) mod period = unat seed mod period"
proof (cases "period = 0")
  case False
  let ?phase = "unat seed mod period" and ?position = "utc mod period"
  let ?delay = "until_next_phase seed period utc"
  have less: "?phase < period" "?position < period" using False by simp_all
  have "(?position + ?delay) mod period = ?phase"
    using False less by (auto simp: until_next_phase_def Let_def not_less)
  moreover have "(utc + ?delay) mod period = (?position + ?delay) mod period" by presburger
  moreover have "0 < ?delay" "?delay \<le> period" using False less
    by (auto simp: until_next_phase_def Let_def intro: order_trans [OF diff_le_self less_imp_le])
  ultimately show ?thesis by simp
qed (simp add: until_next_phase_def)

section \<open>The open segment\<close>

record 'ctx segment_state =
  sg_first_id :: "segment_id option"
  sg_seal_seed :: u64
  sg_age_deadline :: "(instant \<times> duration) option"
  sg_interner :: interner
  sg_user_names :: segment_user_names
  sg_pg_settings_present :: bool
  sg_cgroup_context :: "'ctx option"

definition segment_with_seal_seed :: "u64 \<Rightarrow> 'ctx segment_state" where
  "segment_with_seal_seed seed =
     \<lparr>sg_first_id = None, sg_seal_seed = seed, sg_age_deadline = None, sg_interner = Interner_new default_dict_limits,
      sg_user_names = empty_user_names, sg_pg_settings_present = False, sg_cgroup_context = None\<rparr>"

definition segment_is_empty :: "'ctx segment_state \<Rightarrow> bool" where
  "segment_is_empty s \<longleftrightarrow> sg_first_id s = None"

datatype collector_error =
    EncodeDictionary codec_error
  | EncodeWindow codec_error
  | EmptyWindow
  | TimestampOutOfRange layout_error
  | ClockBeforeEpoch
  | MissingSegmentId
  | AppendFailed journal_error
  | NoAppendedWindow
  | CloseAddress layout_error
  | PublishWrite write_error
  | PublishReset journal_error
  | OpenJournal journal_error
  | ReadRecovered journal_error
  | ValidateRecovered part_error
  | RecoveredBounds i64 i64

text \<open>\<open>utc\<close> is \<open>None\<close> for a system clock before the epoch.\<close>

definition on_window_appended ::
  "segment_id \<Rightarrow> instant \<Rightarrow> duration option \<Rightarrow> duration \<Rightarrow> 'ctx segment_state \<Rightarrow> collector_error + 'ctx segment_state" where
  "on_window_appended i now utc max_age s =
     (case sg_first_id s of
        Some _ \<Rightarrow> Ok s
      | None \<Rightarrow>
          and_then (ok_or utc ClockBeforeEpoch) (\<lambda>utc.
            Ok (s\<lparr>sg_age_deadline := Some (now, until_next_phase (sg_seal_seed s) max_age utc), sg_first_id := Some i\<rparr>)))"

definition time_until_age :: "instant \<Rightarrow> 'ctx segment_state \<Rightarrow> duration option" where
  "time_until_age now s = map_option (\<lambda>(started, delay). delay - (now - started)) (sg_age_deadline s)"

definition age_expired :: "instant \<Rightarrow> 'ctx segment_state \<Rightarrow> bool" where
  "age_expired now s = (case time_until_age now s of None \<Rightarrow> False | Some remaining \<Rightarrow> remaining = 0)"

section \<open>Encoding a window\<close>

text \<open>The encoders of the collector's windows; \<open>None\<close> is the panic of \<open>build_part\<close>.\<close>

definition encode_window ::
  "'d crc_alg \<Rightarrow> (u32 \<Rightarrow> entry_snapshot list \<Rightarrow> codec_error + bytes) \<Rightarrow> 'row row_codec \<Rightarrow> 'row section_buffers \<Rightarrow> interner \<Rightarrow>
     (collector_error + flushed_part) option" where
  "encode_window A parquet C buffers st =
     (case dict_encode parquet (in_window st) of
        Err e \<Rightarrow> Some (Err (EncodeDictionary e))
      | Ok dicts \<Rightarrow>
          (case flush_with_summary A C dicts buffers of
             None \<Rightarrow> None
           | Some (Err e, _) \<Rightarrow> Some (Err (EncodeWindow e))
           | Some (Ok None, _) \<Rightarrow> Some (Err EmptyWindow)
           | Some (Ok (Some fp), _) \<Rightarrow> Some (Ok fp)))"

section \<open>Closing\<close>

record collector_store =
  cs_journal :: journal
  cs_disk :: disk
  cs_counter :: u64

definition journal_bytes :: "journal \<Rightarrow> usize" where
  "journal_bytes j = j_end j"

text \<open>Publication, then the reset of the journal; \<open>None\<close> is the panic on an exhausted counter.\<close>

definition publish_journal ::
  "'d crc_alg \<Rightarrow> codec \<Rightarrow> stream_faults \<Rightarrow> segment_address \<Rightarrow> collector_store \<Rightarrow>
     ((collector_error + segment_address) \<times> collector_store) option" where
  "publish_journal A cd flt a st =
     (case write_segment A cd flt (cs_journal st) a (cs_disk st) of
        (Err e, d) \<Rightarrow> Some (Err (PublishWrite e), st\<lparr>cs_disk := d\<rparr>)
      | (Ok _, d) \<Rightarrow>
          (case reset_journal A (cs_counter st) (cs_journal st) of
             None \<Rightarrow> None
           | Some (r, j, counter) \<Rightarrow>
               Some (map_err PublishReset (and_then r (\<lambda>_. Ok a)),
                     st\<lparr>cs_disk := d, cs_journal := j, cs_counter := counter\<rparr>)))"

definition close_open_segment ::
  "'d crc_alg \<Rightarrow> codec \<Rightarrow> stream_faults \<Rightarrow> 'ctx segment_state \<Rightarrow> collector_store \<Rightarrow>
     ((collector_error + segment_address) \<times> 'ctx segment_state \<times> collector_store) option" where
  "close_open_segment A cd flt s st =
     (case sg_first_id s of
        None \<Rightarrow> Some (Err NoAppendedWindow, s, st)
      | Some i \<Rightarrow>
          let s = segment_with_seal_seed (sg_seal_seed s) in
          (case SegmentAddress_new i of
             Err e \<Rightarrow> Some (Err (CloseAddress e), s, st)
           | Ok a \<Rightarrow> map_option (\<lambda>(r, st). (r, s, st)) (publish_journal A cd flt a st)))"

datatype close_reason = Forced | BySize | ByAge | JournalFull

text \<open>A forced close goes before the size, the size before the age.\<close>

definition close_reason_of :: "bool \<Rightarrow> bool \<Rightarrow> usize \<Rightarrow> u64 \<Rightarrow> close_reason option" where
  "close_reason_of forced expired bytes max_bytes =
     (if forced then Some Forced
      else if bytes \<ge> unat max_bytes then Some BySize
      else if expired then Some ByAge
      else None)"

section \<open>Appending a window\<close>

record segment_config =
  sc_segment_max_age_secs :: u64
  sc_segment_max_bytes :: u64

datatype append_window_error = CloseError collector_error | OtherError collector_error

text \<open>The part of the function after the append; the state is the one the append left.\<close>

definition after_append ::
  "segment_config \<Rightarrow> instant \<Rightarrow> duration option \<Rightarrow> bool \<Rightarrow> (journal_error + usize) \<Rightarrow> 'ctx segment_state \<Rightarrow> collector_store \<Rightarrow>
     append_window_error + close_reason option \<times> 'ctx segment_state" where
  "after_append cfg now utc forced r s st =
     (case r of
        Ok _ \<Rightarrow>
          and_then (ok_or (j_segment_id (cs_journal st)) (OtherError MissingSegmentId)) (\<lambda>active.
          and_then (map_err OtherError (on_window_appended active now utc (unat (sc_segment_max_age_secs cfg) * 10 ^ 9) s)) (\<lambda>s.
            Ok (close_reason_of forced (age_expired now s) (journal_bytes (cs_journal st)) (sc_segment_max_bytes cfg), s)))
      | Err e \<Rightarrow>
          (case e of
             TooManyParts _ \<Rightarrow> if sg_first_id s \<noteq> None then Ok (Some JournalFull, s) else Err (OtherError (AppendFailed e))
           | Full _ _ \<Rightarrow> if sg_first_id s \<noteq> None then Ok (Some JournalFull, s) else Err (OtherError (AppendFailed e))
           | _ \<Rightarrow> Err (OtherError (AppendFailed e))))"

definition append_window_and_maybe_close ::
  "'d crc_alg \<Rightarrow> codec \<Rightarrow> stream_faults \<Rightarrow> segment_config \<Rightarrow> instant \<Rightarrow> duration option \<Rightarrow> i64 \<Rightarrow> bool \<Rightarrow> bytes \<Rightarrow>
     'ctx segment_state \<Rightarrow> collector_store \<Rightarrow>
     ((append_window_error + (segment_address \<times> close_reason) list) \<times> 'ctx segment_state \<times> collector_store) option" where
  "append_window_and_maybe_close A cd flt cfg now utc ts forced body s st =
     (case (case sg_first_id s of Some i \<Rightarrow> Ok i | None \<Rightarrow> SegmentId_new ts) of
        Err e \<Rightarrow> Some (Err (OtherError (TimestampOutOfRange e)), s, st)
      | Ok i \<Rightarrow>
          let (appended, j) = append_part A i body (cs_journal st);
              (r, interner) = flush_window (cd_hashes cd) (\<lambda>_. and_then appended (\<lambda>_. Ok ())) (sg_interner s);
              s = s\<lparr>sg_interner := interner\<rparr>;
              st = st\<lparr>cs_journal := j\<rparr>
          in (case after_append cfg now utc forced r s st of
                Err e \<Rightarrow> Some (Err e, s, st)
              | Ok (None, s) \<Rightarrow> Some (Ok [], s, st)
              | Ok (Some why, s) \<Rightarrow>
                  map_option (\<lambda>(r, s, st). (map_err CloseError (and_then r (\<lambda>a. Ok [(a, why)])), s, st))
                    (close_open_segment A cd flt s st)))"

section \<open>Recovery at startup\<close>

fun check_recovered_parts :: "'d crc_alg \<Rightarrow> journal \<Rightarrow> journal_part_ref list \<Rightarrow> collector_error + unit" where
  "check_recovered_parts A j [] = Ok ()"
| "check_recovered_parts A j (r # rs) =
     and_then (map_err ReadRecovered (read_part j r)) (\<lambda>body.
     and_then (map_err ValidateRecovered (validate_part A body)) (\<lambda>c.
       if list_ex (\<lambda>e. e_type_id e \<noteq> DICT_STRINGS_TYPE_ID \<and> e_type_id e \<noteq> DICT_BLOBS_TYPE_ID) (entries c) \<and>
          (min_ts c = i64_max \<or> max_ts c = i64_min \<or> sint (min_ts c) > sint (max_ts c))
       then Err (RecoveredBounds (min_ts c) (max_ts c))
       else check_recovered_parts A j rs))"

definition write_recovered_journal ::
  "'d crc_alg \<Rightarrow> codec \<Rightarrow> stream_faults \<Rightarrow> collector_store \<Rightarrow> ((collector_error + segment_address) \<times> collector_store) option" where
  "write_recovered_journal A cd flt st =
     (case j_segment_id (cs_journal st) of
        None \<Rightarrow> Some (Err MissingSegmentId, st)
      | Some i \<Rightarrow>
          (case check_recovered_parts A (cs_journal st) (j_parts (cs_journal st)) of
             Err e \<Rightarrow> Some (Err e, st)
           | Ok _ \<Rightarrow>
               (case SegmentAddress_new i of
                  Err e \<Rightarrow> Some (Err (CloseAddress e), st)
                | Ok a \<Rightarrow> publish_journal A cd flt a st)))"

text \<open>The journal as \<open>Journal::open\<close> returned it, beside the disk with the segments.\<close>

definition open_collector_journal ::
  "'d crc_alg \<Rightarrow> codec \<Rightarrow> stream_faults \<Rightarrow> writer_owner \<Rightarrow> u64 \<Rightarrow> (nat \<Rightarrow> nat \<Rightarrow> nat) \<Rightarrow> u64 \<Rightarrow> disk \<Rightarrow>
     ((collector_error + segment_address option) \<times> (collector_store + disk)) option" where
  "open_collector_journal A cd flt owner max_bytes grow counter d =
     (case open_journal A owner (default_journal_config\<lparr>jc_max_len := unat max_bytes\<rparr>) grow counter of
        None \<Rightarrow> None
      | Some (Err e, _, _) \<Rightarrow> Some (Err (OpenJournal e), Inr d)
      | Some (Ok j, _, counter) \<Rightarrow>
          let st = \<lparr>cs_journal = j, cs_disk = d, cs_counter = counter\<rparr> in
          if j_parts j = [] then Some (Ok None, Inl st)
          else map_option (\<lambda>(r, st). (and_then r (\<lambda>a. Ok (Some a)), Inl st)) (write_recovered_journal A cd flt st))"

end
