(* ===== verification/Collector_Holds.thy ===== *)
theory Collector_Holds
  imports Collector_Segments
begin

text \<open>
  What it means for a finished segment to hold the windows of a journal, and the proof that a segment
  that the writer generated does, even when reads of the journal may fail: for every data type it has
  one section, whose body is what the encoder of the type makes of the bodies of all windows, in journal
  order; its dictionary sections are what the Parquet encoder makes of the merged values of all windows;
  it has no other section, and its window count and time bounds are those of the windows.
\<close>

section \<open>A plan without failing reads\<close>

text \<open>
  Whatever was read, was read correctly: an \<open>Ok\<close> answer of a journal whose reads may fail is the answer
  of the journal whose reads do not.
\<close>

definition calm :: "journal \<Rightarrow> journal" where
  "calm j = j\<lparr>j_file := (j_file j)\<lparr>read_fault := (\<lambda>n off. None), len_fault := None\<rparr>\<rparr>"

lemma calm_parts [simp]: "j_parts (calm j) = j_parts j"
  by (simp add: calm_def)

lemma calm_readable: "readable (j_file (calm j))"
  by (simp add: calm_def readable_def)

lemma calm_repr: "journal_repr A j ps \<Longrightarrow> journal_repr A (calm j) ps"
  by (rule unchanged_repr [of j]) (auto simp: unchanged_file_def calm_def)

lemma calm_range: "read_part_range j r off n = Ok bs \<Longrightarrow> read_part_range (calm j) r off n = Ok bs"
  unfolding read_part_range_def and_then_Ok_iff
  by (auto simp: check_part_ref_def ensure_healthy_def calm_def file_read_exact_at_def and_then_Ok_iff
      split: if_splits option.splits)

lemma and_then_mono:
  "and_then r f = Ok y \<Longrightarrow> (\<And>x. r = Ok x \<Longrightarrow> r' = Ok x) \<Longrightarrow> (\<And>x. f x = Ok y \<Longrightarrow> f' x = Ok y) \<Longrightarrow>
    and_then r' f' = Ok y"
  by (auto simp: and_then_Ok_iff)

lemma guard_mono:
  "(if b then Err e else m) = Ok y \<Longrightarrow> (m = Ok y \<Longrightarrow> m' = Ok y) \<Longrightarrow> (if b then Err e else m') = Ok y"
  by (simp split: if_splits)

lemma option_mono:
  "(case x of None \<Rightarrow> Err e | Some a \<Rightarrow> m a) = Ok y \<Longrightarrow> (\<And>a. m a = Ok y \<Longrightarrow> m' a = Ok y) \<Longrightarrow>
    (case x of None \<Rightarrow> Err e | Some a \<Rightarrow> m' a) = Ok y"
  by (cases x) simp_all

lemma calm_range_err:
  "map_err g (read_part_range j r off n) = Ok bs \<Longrightarrow> map_err g (read_part_range (calm j) r off n) = Ok bs"
  by (simp add: calm_range)

lemma calm_catalog: "read_part_catalog A j r = Ok c \<Longrightarrow> read_part_catalog A (calm j) r = Ok c"
  unfolding read_part_catalog_def Let_def
  by (erule guard_mono, erule and_then_mono, erule calm_range_err, erule guard_mono, erule and_then_mono, erule calm_range_err,
      erule and_then_mono, assumption, erule option_mono, erule guard_mono, erule and_then_mono, erule calm_range_err,
      assumption)

lemma plan_parts_catalogs:
  assumes "plan_parts A j rs g lo hi = Ok x"
  shows "\<exists>cs. list_all2 (\<lambda>r c. read_part_catalog A j r = Ok c \<and> format_version c = FORMAT_VERSION) rs cs"
  using assms
proof (induction rs arbitrary: g lo hi)
  case (Cons r rs)
  then obtain c g' where "read_part_catalog A j r = Ok c" "format_version c = FORMAT_VERSION"
      "plan_parts A j rs g' (min_i64 lo (min_ts c)) (max_i64 hi (max_ts c)) = Ok x"
    by (auto simp: and_then_Ok_iff simp del: split_paired_Ex split: if_splits)
  with Cons.IH [OF this(3)] obtain cs where "list_all2 (\<lambda>r c. read_part_catalog A j r = Ok c \<and> format_version c = FORMAT_VERSION) (r # rs) (c # cs)"
    by auto
  then show ?case by blast
next
  case Nil
  show ?case by (rule exI [of _ "[]"]) simp
qed

lemma calm_plan_parts:
  "plan_parts A j rs g lo hi = Ok x \<Longrightarrow> plan_parts A (calm j) rs g lo hi = Ok x"
proof (induction rs arbitrary: g lo hi)
  case (Cons r rs)
  then obtain c g' where c: "read_part_catalog A j r = Ok c" "format_version c = FORMAT_VERSION"
      "push_entries r (entries c) g = Ok g'" "plan_parts A j rs g' (min_i64 lo (min_ts c)) (max_i64 hi (max_ts c)) = Ok x"
    by (auto simp: and_then_Ok_iff simp del: split_paired_Ex split: if_splits)
  then show ?case using Cons.IH [OF c(4)] calm_catalog [OF c(1)] by simp
qed simp

lemma calm_plan: "plan_segment A j = Ok p \<Longrightarrow> plan_segment A (calm j) = Ok p"
  unfolding plan_segment_def and_then_Ok_iff calm_parts by (blast dest: calm_plan_parts)

text \<open>A plan that was made lists every section of every part.\<close>

lemma planned_sections:
  assumes laws: "crc_laws A" and repr: "journal_repr A j ps" and plan: "plan_segment A j = Ok p"
  obtains cs where "list_all2 (\<lambda>p c. validate_part A p = Ok c) ps cs" and "length (j_parts j) = length cs"
    and "\<forall>t. map_of (by_type p) t = group_of t (all_descriptors j cs)" and "unat (sp_window_count p) = length ps"
    and "let lo = low_bound i64_max cs; hi = high_bound i64_min cs; empty = sint lo > sint hi
      in sp_min_ts p = (if empty then 0 else lo) \<and> sp_max_ts p = (if empty then 0 else hi)"
proof -
  from calm_plan [OF plan] have plan': "plan_segment A (calm j) = Ok p" .
  then obtain x where "plan_parts A (calm j) (j_parts j) ([], 0) i64_max i64_min = Ok x"
    by (auto simp: plan_segment_def and_then_Ok_iff)
  from plan_parts_catalogs [OF this] obtain cs where
    cs: "list_all2 (\<lambda>r c. read_part_catalog A (calm j) r = Ok c \<and> format_version c = FORMAT_VERSION) (j_parts j) cs"
    by blast
  note repr' = calm_repr [OF repr]
  have len: "length (j_parts j) = length ps" using repr_facts(5) [OF repr] .
  have valid: "list_all2 (\<lambda>p c. validate_part A p = Ok c \<and> format_version c = FORMAT_VERSION) ps cs"
  proof (rule list_all2_all_nthI)
    show "length ps = length cs" using list_all2_lengthD [OF cs] len by simp
    fix i assume i: "i < length ps"
    then have "part_of (calm j) ps (j_parts j ! i) (ps ! i)" by (auto simp: part_of_def)
    from read_part_catalog_eq [OF repr' calm_readable this] list_all2_nthD [OF cs, of i] i len
    have "map_err WritePart (decode_and_bound A (ps ! i)) = Ok (cs ! i)" "format_version (cs ! i) = FORMAT_VERSION" by auto
    then have "decode_and_bound A (ps ! i) = Ok (cs ! i)" "format_version (cs ! i) = FORMAT_VERSION" by simp_all
    moreover have "is_ok (validate_part A (ps ! i))"
      using repr i by (auto simp: journal_repr_def good_part_def)
    ultimately show "validate_part A (ps ! i) = Ok (cs ! i) \<and> format_version (cs ! i) = FORMAT_VERSION"
      by (auto simp: validate_part_def is_ok_iff and_then_Ok_iff)
  qed
  obtain p' g where p': "plan_segment A (calm j) = Ok p'" "by_type p' = fst g" "grouped_as g (all_descriptors (calm j) cs)"
    "unat (sp_window_count p') = length ps"
    "let lo = low_bound i64_max cs; hi = high_bound i64_min cs; empty = sint lo > sint hi
      in sp_min_ts p' = (if empty then 0 else lo) \<and> sp_max_ts p' = (if empty then 0 else hi)"
    by (rule plan_segment_Ok [OF laws repr' calm_readable valid])
  have "p = p'" using plan' p'(1) by simp
  with p' have "\<forall>t. map_of (by_type p) t = group_of t (all_descriptors j cs)" "unat (sp_window_count p) = length ps"
    by (auto simp: grouped_as_def all_descriptors_def)
  moreover have "list_all2 (\<lambda>p c. validate_part A p = Ok c) ps cs" using valid by (rule list_all2_mono) simp
  moreover have "length (j_parts j) = length cs" using list_all2_lengthD [OF cs] .
  moreover note p'(5) [folded \<open>p = p'\<close>]
  ultimately show thesis by (intro that)
qed

section \<open>A segment that holds windows\<close>

text \<open>
  The sections of a type in the windows \<open>ps\<close>, in the order of the windows, each with its rows and its
  bytes, and the bounds of the windows' time ranges.
\<close>

definition container_entries :: "'d crc_alg \<Rightarrow> bytes \<Rightarrow> entry list" where
  "container_entries A bs = (case validate_part A bs of Err _ \<Rightarrow> [] | Ok c \<Rightarrow> entries c)"

definition window_sections :: "'d crc_alg \<Rightarrow> u32 \<Rightarrow> bytes \<Rightarrow> (u32 \<times> bytes) list" where
  "window_sections A t p =
     map (\<lambda>e. (e_rows e, section_body p e)) (filter (\<lambda>e. e_type_id e = t) (container_entries A p))"

definition window_inputs :: "'d crc_alg \<Rightarrow> bytes list \<Rightarrow> sections_of_type" where
  "window_inputs A ps t = concat (map (window_sections A t) ps)"

definition window_bounds :: "'d crc_alg \<Rightarrow> bytes list \<Rightarrow> int \<times> int" where
  "window_bounds A ps =
     (let lo = Min (insert (2 ^ 63 - 1) {sint (min_ts c) | c. \<exists>p \<in> set ps. validate_part A p = Ok c});
          hi = Max (insert (- (2 ^ 63)) {sint (max_ts c) | c. \<exists>p \<in> set ps. validate_part A p = Ok c})
      in if hi < lo then (0, 0) else (lo, hi))"

text \<open>
  A finished segment holds exactly the windows \<open>ps\<close>: it is a valid container with their number and their
  bounds, no type twice, and its sections, with their rows and their bytes, are exactly those that the
  encoders make of the sections of all windows: the bodies of the data types, and the dictionary with every
  value of every window.
\<close>

definition segment_holds :: "'d crc_alg \<Rightarrow> codec \<Rightarrow> bytes list \<Rightarrow> bytes \<Rightarrow> bool" where
  "segment_holds A cd ps bs \<longleftrightarrow>
     (\<exists>c. validate_part A bs = Ok c \<and> unat (window_count c) = length ps \<and>
        (sint (min_ts c), sint (max_ts c)) = window_bounds A ps \<and> distinct (map e_type_id (entries c)) \<and>
        sections_made cd (window_inputs A ps) (map (section_held bs) (entries c)))"

text \<open>The bytes of a listed section are the body in its window.\<close>

lemma descriptor_body_part:
  assumes laws: "crc_laws A" and repr: "journal_repr A j ps" and i: "i < length ps"
    and c: "validate_part A (ps ! i) = Ok c" and e: "e \<in> set (entries c)"
  shows "descriptor_body j \<lparr>sd_part = j_parts j ! i, sd_entry = e\<rparr> = section_body (ps ! i) e"
proof -
  have "good_part A (jc_limits (j_config j)) (ps ! i)" using repr i by (simp add: journal_repr_def)
  then have small: "length (ps ! i) < 2 ^ 64" by (rule good_part_small)
  from c obtain bodies where bs: "ps ! i = part_bytes A bodies c" and can: "canonical_layout (entries c) (4 + length bodies)"
    by (auto simp: validate_part_Ok [OF laws small])
  have bound: "unat (e_offset e) + unat (e_len e) \<le> length (ps ! i)"
    using contiguous_body [OF _ e, of 4 "4 + length bodies"] can by (simp add: canonical_layout_def bs)
  then have "unat (e_offset e + e_len e) = unat (e_offset e) + unat (e_len e)"
    using small by (simp add: unat_word_ariths)
  moreover have "part_of j ps (j_parts j ! i) (ps ! i)" using i by (auto simp: part_of_def)
  note part_of_slice(4) [OF repr this]
  ultimately show ?thesis
    using slice_of_slice [OF bound, of "p_offset (r_part (j_parts j ! i))" "content (j_file j)"]
    by (simp add: descriptor_body_def section_body_def)
qed

lemma described_concat:
  "described j (filter P (concat xss)) = concat (map (\<lambda>xs. described j (filter P xs)) xss)"
  by (simp add: described_def filter_concat map_concat o_def)

lemma plan_windows:
  assumes laws: "crc_laws A" and repr: "journal_repr A j ps"
    and cs: "list_all2 (\<lambda>p c. validate_part A p = Ok c) ps cs"
    and groups: "\<forall>t. map_of (by_type plan) t = group_of t (all_descriptors j cs)"
  shows "plan_inputs j plan = window_inputs A ps"
proof
  fix t
  let ?is = "\<lambda>d. e_type_id (sd_entry d) = t"
  have len: "length (j_parts j) = length ps" "length cs = length ps"
    using repr_facts(5) [OF repr] list_all2_lengthD [OF cs] by simp_all
  have one: "described j (filter ?is (descriptors (j_parts j ! i) (cs ! i))) = window_sections A t (ps ! i)" if i: "i < length ps" for i
  proof -
    have v: "validate_part A (ps ! i) = Ok (cs ! i)" by (rule list_all2_nthD [OF cs i])
    show ?thesis
      using descriptor_body_part [OF laws repr i v]
      by (simp add: described_def descriptors_def window_sections_def container_entries_def v filter_map o_def)
  qed
  have "plan_inputs j plan t = described j (filter ?is (all_descriptors j cs))"
    using groups by (simp add: plan_inputs_def group_of_def Let_def)
  also have "\<dots> = concat (map (\<lambda>xs. described j (filter ?is xs)) (map2 descriptors (j_parts j) cs))"
    by (simp add: all_descriptors_def described_concat)
  also have "map (\<lambda>xs. described j (filter ?is xs)) (map2 descriptors (j_parts j) cs) = map (window_sections A t) ps"
    using len one by (intro nth_equalityI) simp_all
  finally show "plan_inputs j plan t = window_inputs A ps t" by (simp add: window_inputs_def)
qed

lemma plan_bounds:
  assumes cs: "list_all2 (\<lambda>p c. validate_part A p = Ok c) ps cs"
    and "let lo = low_bound i64_max cs; hi = high_bound i64_min cs; empty = sint lo > sint hi
      in sp_min_ts plan = (if empty then 0 else lo) \<and> sp_max_ts plan = (if empty then 0 else hi)"
  shows "(sint (sp_min_ts plan), sint (sp_max_ts plan)) = window_bounds A ps"
proof -
  have v: "(\<exists>p \<in> set ps. validate_part A p = Ok c) \<longleftrightarrow> c \<in> set cs" for c
    using cs by (induction ps cs rule: list_all2_induct) auto
  have "{sint (f c) | c. \<exists>p \<in> set ps. validate_part A p = Ok c} = (sint \<circ> f) ` set cs" for f :: "catalog \<Rightarrow> i64"
    unfolding v by auto
  moreover have "sint i64_max = 2 ^ 63 - 1" "sint i64_min = - (2 ^ 63)" by simp_all
  ultimately show ?thesis
    using assms(2) by (auto simp: window_bounds_def Let_def sint_low_bound sint_high_bound split: if_splits)
qed

lemma generated_holds:
  assumes laws: "crc_laws A" and repr: "journal_repr A j ps" and gen: "generated A cd j sm bs"
  shows "segment_holds A cd ps bs"
proof -
  from gen obtain plan c where plan: "plan_segment A j = Ok plan" and v: "validate_part A bs = Ok c"
    and w: "window_count c = sp_window_count plan" "min_ts c = sp_min_ts plan" "max_ts c = sp_max_ts plan"
    and d: "distinct (map e_type_id (entries c))"
    and made: "sections_made cd (plan_inputs j plan) (map (section_held bs) (entries c))"
    by (auto simp: generated_def segment_of_def)
  obtain cs where cs: "list_all2 (\<lambda>p c. validate_part A p = Ok c) ps cs"
    and groups: "\<forall>t. map_of (by_type plan) t = group_of t (all_descriptors j cs)"
    and n: "unat (sp_window_count plan) = length ps"
    and bounds: "let lo = low_bound i64_max cs; hi = high_bound i64_min cs; empty = sint lo > sint hi
      in sp_min_ts plan = (if empty then 0 else lo) \<and> sp_max_ts plan = (if empty then 0 else hi)"
    by (rule planned_sections [OF laws repr plan])
  show ?thesis
    unfolding segment_holds_def
    using v w d n made plan_windows [OF laws repr cs groups] plan_bounds [OF cs bounds] by auto
qed

end
