(* ===== verification/Collector_Props.thy ===== *)
theory Collector_Props
  imports Collector_Holds Segment_Sample
begin

text \<open>
  What the collector promises about the windows it has accepted: the journal is reset only when a
  durable segment holds its windows, and over any run with any failures an accepted window is in
  the journal or in a stored segment.
\<close>

section \<open>Stored windows\<close>

text \<open>A stored segment: its name, its synchronized bytes, and in them exactly the windows.\<close>

definition stored :: "'d crc_alg \<Rightarrow> codec \<Rightarrow> bytes list \<Rightarrow> segment_address \<Rightarrow> disk \<Rightarrow> bool" where
  "stored A cd ps a d \<longleftrightarrow> (\<exists>k. node_at d (segment_path a) = Some (FileNode k) \<and>
     in_synced (dk_inodes d k) = in_bytes (dk_inodes d k) \<and> segment_holds A cd ps (in_bytes (dk_inodes d k)))"

text \<open>Every file that carries the name of a segment is synchronized. What the writer publishes always is.\<close>

definition finals_synced :: "disk \<Rightarrow> bool" where
  "finals_synced d \<longleftrightarrow> (\<forall>a k. node_at d (segment_path a) = Some (FileNode k) \<longrightarrow>
     in_synced (dk_inodes d k) = in_bytes (dk_inodes d k))"

text \<open>
  What a call of the writer leaves of the disk: every file that had a name keeps it and its bytes, and
  segment files stay synchronized.
\<close>

definition disk_kept :: "disk \<Rightarrow> disk \<Rightarrow> bool" where
  "disk_kept d d' \<longleftrightarrow> wf_disk d' \<and> frame d d' \<and> (finals_synced d \<longrightarrow> finals_synced d')"

lemma disk_kept_refl: "wf_disk d \<Longrightarrow> disk_kept d d"
  by (simp add: disk_kept_def frame_def)

lemma stored_kept:
  assumes "stored A cd ps a d" and "wf_disk d" and "disk_kept d d'"
  shows "stored A cd ps a d'"
proof -
  from assms(1) obtain k where k: "node_at d (segment_path a) = Some (FileNode k)"
    "in_synced (dk_inodes d k) = in_bytes (dk_inodes d k)" "segment_holds A cd ps (in_bytes (dk_inodes d k))"
    by (auto simp: stored_def)
  with assms(2) have "k < dk_next d" by (auto simp: wf_disk_def)
  with assms(3) k have "node_at d' (segment_path a) = Some (FileNode k)"
      "in_bytes (dk_inodes d' k) = in_bytes (dk_inodes d k)" "in_synced (dk_inodes d' k) = in_synced (dk_inodes d k)"
    by (auto simp: disk_kept_def frame_def)
  then show ?thesis using k by (auto simp: stored_def)
qed

lemma write_segment_kept:
  assumes laws: "crc_laws A" and wf: "wf_disk d" and run: "write_segment A cd flt j a d = (r, d')"
  shows "disk_kept d d'"
proof -
  have safe: "safe_outcome A cd j a d d'" by (rule outcome_safe [OF write_segment_outcome [OF assms]])
  then have fr: "wf_disk d'" "frame d d'" by (auto simp: safe_outcome_def before_link_def appeared_def)
  have "finals_synced d'" if fin: "finals_synced d"
    unfolding finals_synced_def
  proof (intro allI impI)
    fix b k assume k: "node_at d' (segment_path b) = Some (FileNode k)"
    show "in_synced (dk_inodes d' k) = in_bytes (dk_inodes d' k)"
    proof (cases "node_at d' (segment_path b) = node_at d (segment_path b)")
      case True
      then have "node_at d (segment_path b) = Some (FileNode k)" using k by simp
      then show ?thesis using wf fin fr(2) by (auto simp: wf_disk_def finals_synced_def frame_def)
    next
      case False
      then obtain sm bs where "appeared a d bs d'" and "segment_path b = segment_path a"
        using safe by (auto simp: safe_outcome_def before_link_def appeared_def)
      then show ?thesis using k by (auto simp: appeared_def)
    qed
  qed
  with fr show ?thesis by (simp add: disk_kept_def)
qed

lemma write_segment_stored:
  assumes laws: "crc_laws A" and wf: "wf_disk d" and repr: "journal_repr A j ps" and fin: "finals_synced d"
    and run: "write_segment A cd flt j a d = (Ok sm, d')"
  shows "stored A cd ps a d' \<and> durable_at d' (segment_path a) = node_at d' (segment_path a)"
proof -
  from write_segment_outcome [OF laws wf run] obtain bs where gen: "generated A cd j sm bs" and s: "settled a d bs d'"
    by auto
  note holds = generated_holds [OF laws repr gen]
  show ?thesis
  proof (cases "appeared a d bs d'")
    case True
    then show ?thesis using holds s by (auto simp: appeared_def stored_def settled_def)
  next
    case False
    then have b: "before_link d d'" and "same_as_final a bs d" using s by (auto simp: settled_def)
    then obtain k where k: "node_at d (segment_path a) = Some (FileNode k)" "in_bytes (dk_inodes d k) = bs"
      by (auto simp: same_as_final_def)
    then have "stored A cd ps a d" using fin holds by (auto simp: stored_def finals_synced_def)
    then show ?thesis
      using stored_kept [OF _ wf write_segment_kept [OF laws wf run]] s by (auto simp: settled_def)
  qed
qed

section \<open>Publication and reset\<close>

text \<open>The outcome of \<open>publish_journal\<close>; it is either a value or one of the two errors.\<close>

definition publish_outcome ::
  "'d crc_alg \<Rightarrow> codec \<Rightarrow> bytes list \<Rightarrow> segment_address \<Rightarrow> collector_store \<Rightarrow> collector_error + segment_address \<Rightarrow> collector_store \<Rightarrow> bool" where
  "publish_outcome A cd ps a st r st' \<longleftrightarrow>
     disk_kept (cs_disk st) (cs_disk st') \<and>
     (case r of
        Ok b \<Rightarrow> b = a \<and> stored A cd ps a (cs_disk st') \<and>
          durable_at (cs_disk st') (segment_path a) = node_at (cs_disk st') (segment_path a) \<and>
          journal_repr A (cs_journal st') [] \<and> j_segment_id (cs_journal st') = None
      | Err e \<Rightarrow>
          (\<exists>w. e = PublishWrite w) \<and> cs_journal st' = cs_journal st \<or>
          (\<exists>x. e = PublishReset x) \<and> stored A cd ps a (cs_disk st') \<and>
            (j_poisoned (cs_journal st') \<or>
             journal_repr A (cs_journal st') ps \<and> j_segment_id (cs_journal st') = j_segment_id (cs_journal st)))"

lemma reset_outcome:
  assumes "journal_repr A j ps" and "reset_journal A counter j = Some (r, j', counter')"
  shows "case r of Ok _ \<Rightarrow> journal_repr A j' [] \<and> j_segment_id j' = None
    | Err e \<Rightarrow> j_poisoned j' \<or> journal_repr A j' ps \<and> j_segment_id j' = j_segment_id j"
  using reset_cases [OF assms]
proof (elim disjE exE conjE)
  assume "r = Ok ()" "ps = []" "j' = j"
  then show ?thesis using assms(1) repr_facts(6) [OF assms(1)] by simp
next
  fix e assume "r = Err e" "unchanged_file j j'"
  then show ?thesis using unchanged_repr [OF _ assms(1)] by (auto simp: unchanged_file_def)
qed simp_all

lemma publish_journal_cases:
  assumes laws: "crc_laws A" and wf: "wf_disk (cs_disk st)" and repr: "journal_repr A (cs_journal st) ps"
    and fin: "finals_synced (cs_disk st)" and run: "publish_journal A cd flt a st = Some (r, st')"
  shows "publish_outcome A cd ps a st r st'"
proof (cases "write_segment A cd flt (cs_journal st) a (cs_disk st)")
  case w: (Pair x d)
  have kept: "disk_kept (cs_disk st) d" by (rule write_segment_kept [OF laws wf w])
  show ?thesis
  proof (cases x)
    case (Inl e)
    then show ?thesis using run kept w by (auto simp: publish_journal_def publish_outcome_def)
  next
    case (Inr sm)
    note s = write_segment_stored [OF laws wf repr fin w [unfolded Inr]]
    from run Inr w obtain y j c where reset: "reset_journal A (cs_counter st) (cs_journal st) = Some (y, j, c)"
      and r: "r = map_err PublishReset (and_then y (\<lambda>_. Ok a))"
      and st': "st' = st\<lparr>cs_disk := d, cs_journal := j, cs_counter := c\<rparr>"
      by (auto simp: publish_journal_def split: option.splits)
    show ?thesis
      using reset_outcome [OF repr reset] kept s
      by (cases y) (auto simp: publish_outcome_def r st')
  qed
qed

text \<open>
  C3: closing a segment loses nothing. Whichever calls fail, \<open>publish_journal\<close> on a journal with the
  windows \<open>ps\<close> ends in one of three ways: it returns the address, then a segment that holds exactly
  those windows is durable under its final name and the journal is empty; or the write failed and the
  journal is untouched; or the reset failed after the segment was stored. The segment holds exactly the
  windows when its catalog has their number and time bounds and its sections are, byte for byte and with
  no section more or less, what the encoders make of the sections of all windows, the merged dictionary
  included. No file that had a name before loses it or any of its bytes. The one assumption on the disk is
  that the segment files already there are synchronized, as all are that the writer published; the
  call keeps it.
\<close>

theorem publish_loses_nothing:
  assumes "crc_laws A" and "wf_disk (cs_disk st)" and "journal_repr A (cs_journal st) ps"
    and "finals_synced (cs_disk st)" and "publish_journal A cd flt a st = Some (r, st')"
  shows "frame (cs_disk st) (cs_disk st') \<and> wf_disk (cs_disk st') \<and> finals_synced (cs_disk st') \<and>
    (r = Ok a \<and> stored A cd ps a (cs_disk st') \<and>
       durable_at (cs_disk st') (segment_path a) = node_at (cs_disk st') (segment_path a) \<and>
       journal_repr A (cs_journal st') [] \<or>
     (\<exists>w. r = Err (PublishWrite w)) \<and> cs_journal st' = cs_journal st \<or>
     (\<exists>x. r = Err (PublishReset x)) \<and> stored A cd ps a (cs_disk st') \<and>
       (j_poisoned (cs_journal st') \<or> journal_repr A (cs_journal st') ps))"
  using publish_journal_cases [OF assms] assms(4)
  by (cases r) (auto simp: publish_outcome_def disk_kept_def)

section \<open>A concrete close\<close>

definition seg_store :: collector_store where
  "seg_store = \<lparr>cs_journal = seg_journal, cs_disk = empty_disk, cs_counter = 2\<rparr>"

lemma seg_store_ok: "wf_disk (cs_disk seg_store)" "journal_repr crc_sum (cs_journal seg_store) [seg_part]"
  "finals_synced (cs_disk seg_store)"
  using empty_disk_wf seg_repr by (simp_all add: seg_store_def finals_synced_def empty_disk_def node_at_def)

lemma seg_reset: "\<exists>j'. reset_journal crc_sum 2 seg_journal = Some (Ok (), j', 3)"
proof -
  have "next_journal_generation 2 = Some (2, 3)" by (simp add: next_journal_generation_def checked_add_word_def)
  moreover obtain m where "ResetMarker_new crc_sum (of_nat (j_end seg_journal)) (get (SegmentId 0)) = Some m"
    using reset_marker_exists [OF seg_repr] by auto
  moreover obtain j' where "reset_commit crc_sum m 2 seg_journal = (Ok (), j')"
    using reset_commit_no_faults [of seg_journal crc_sum m 2] by (auto simp: seg_journal_def disk_file_def)
  ultimately show ?thesis
    by (auto simp: reset_journal_def seg_journal_def ensure_healthy_def Let_def checked_add_usize_def
        default_journal_config_def MAX_JOURNAL_LEN_def)
qed

lemma seg_publish_journal:
  "\<exists>st'. publish_journal crc_sum seg_codec no_stream_faults seg_address seg_store = Some (Ok seg_address, st')"
proof -
  obtain sm d' where "write_segment crc_sum seg_codec no_stream_faults seg_journal seg_address empty_disk = (Ok sm, d')"
    using seg_run by blast
  moreover obtain j' where "reset_journal crc_sum 2 seg_journal = Some (Ok (), j', 3)" using seg_reset by blast
  ultimately show ?thesis by (simp add: publish_journal_def seg_store_def)
qed

theorem publish_loses_nothing_witness:
  "\<exists>st'. publish_journal crc_sum seg_codec no_stream_faults seg_address seg_store = Some (Ok seg_address, st') \<and>
     stored crc_sum seg_codec [seg_part] seg_address (cs_disk st') \<and> journal_repr crc_sum (cs_journal st') []"
proof -
  obtain st' where run: "publish_journal crc_sum seg_codec no_stream_faults seg_address seg_store = Some (Ok seg_address, st')"
    using seg_publish_journal by blast
  from publish_loses_nothing [OF crc_sum_laws seg_store_ok run] run show ?thesis by auto
qed

section \<open>Recovery at startup\<close>

lemma recovered_address:
  assumes "journal_repr A j ps" and "ps \<noteq> []"
  obtains i a where "j_segment_id j = Some i" and "SegmentAddress_new i = Ok a" and "addr_id a = i"
proof -
  from assms have "\<exists>i. j_segment_id j = Some i \<and> is_ok (utc_day_of i)"
    by (auto simp: journal_repr_def split: option.splits)
  then obtain i day where "j_segment_id j = Some i" "utc_day_of i = Ok day" by (auto simp: is_ok_iff)
  then show thesis by (intro that [of i "SegmentAddress i day"]) (simp_all add: SegmentAddress_new_def)
qed

lemma recovery_keeps_windows:
  assumes "crc_laws A" and "wf_disk d" and "finals_synced d"
    and "open_journal A owner (default_journal_config\<lparr>jc_max_len := unat max_bytes\<rparr>) grow counter = Some (Ok j, f, counter')"
    and "journal_repr A j ps"
    and "open_collector_journal A cd flt owner max_bytes grow counter d = Some (r, Inl st)"
  shows "disk_kept d (cs_disk st) \<and>
    (case r of
       Ok None \<Rightarrow> ps = [] \<and> cs_journal st = j \<and> cs_disk st = d
     | Ok (Some a) \<Rightarrow> j_segment_id j = Some (addr_id a) \<and> stored A cd ps a (cs_disk st) \<and> journal_repr A (cs_journal st) []
     | Err e \<Rightarrow> cs_journal st = j \<or>
         (\<exists>a. j_segment_id j = Some (addr_id a) \<and> stored A cd ps a (cs_disk st)) \<and>
         (j_poisoned (cs_journal st) \<or> journal_repr A (cs_journal st) ps))"
proof (cases "ps = []")
  case True
  then show ?thesis
    using assms(2,4-6) repr_facts(4) [OF assms(5)] disk_kept_refl by (auto simp: open_collector_journal_def)
next
  case False
  obtain i a where a: "j_segment_id j = Some i" "SegmentAddress_new i = Ok a" "addr_id a = i"
    by (rule recovered_address [OF assms(5) False])
  let ?st = "\<lparr>cs_journal = j, cs_disk = d, cs_counter = counter'\<rparr>"
  from assms(4,6) False repr_facts(4) [OF assms(5)] obtain q where
    q: "write_recovered_journal A cd flt ?st = Some (q, st)" and r: "r = and_then q (\<lambda>a. Ok (Some a))"
    by (auto simp: open_collector_journal_def)
  show ?thesis
  proof (cases "check_recovered_parts A j (j_parts j)")
    case (Inl e)
    then show ?thesis using q a assms(2) disk_kept_refl by (auto simp: write_recovered_journal_def r)
  next
    case (Inr u)
    with q a have "publish_journal A cd flt a ?st = Some (q, st)" by (simp add: write_recovered_journal_def)
    from publish_journal_cases [OF assms(1) _ _ _ this, of ps] assms(2,3,5) a show ?thesis
      by (cases q) (auto simp: publish_outcome_def r)
  qed
qed

text \<open>
  A journal file left by a process that died between two calls opens with the same windows, or does not
  open and is as it was.
\<close>

definition left_by :: "journal \<Rightarrow> writer_owner \<Rightarrow> bool" where
  "left_by j owner \<longleftrightarrow>
     (\<forall>f created. open_or_create_journal owner = Ok (f, created) \<longrightarrow>
        \<not> created \<and> content f = content (j_file j) \<and> durable f = durable (j_file j))"

lemma reopened:
  assumes repr: "journal_repr A j ps" and left: "left_by j owner" and limits: "jc_limits cfg = jc_limits (j_config j)"
    and run: "open_journal A owner cfg grow counter = Some (r, h, counter')"
  shows "case r of
      Err e \<Rightarrow> counter' = counter \<and> (case h of None \<Rightarrow> True | Some g \<Rightarrow> open_or_create_journal owner = Ok (g, False))
    | Ok k \<Rightarrow> journal_repr A k ps \<and> j_segment_id k = j_segment_id j"
proof (cases "open_or_create_journal owner")
  case (Inl e)
  then show ?thesis using run by (auto simp: open_journal_def split: sum.splits)
next
  case (Inr x)
  obtain f created where x: "x = (f, created)" by fastforce
  with Inr left have new: "open_or_create_journal owner = Ok (f, False)" and same: "content f = content (j_file j)" "durable f = durable (j_file j)"
    by (auto simp: left_by_def)
  obtain y g where o: "open_file A cfg grow False f = (y, g)" by fastforce
  have g: "g = f" by (rule open_file_healthy [OF repr same(1) o])
  show ?thesis
  proof (cases r)
    case (Inl e)
    then show ?thesis using run new o g
      by (auto simp: open_journal_def split: sum.splits option.splits)
  next
    case (Inr k)
    from run new o g have k: "j_file k = f" "j_config k = cfg"
      unfolding Inr by (auto simp: open_journal_def split: sum.splits option.splits)
    have "durable f = content f" using same repr by (simp add: journal_repr_def)
    with open_sound [OF run [unfolded Inr] new] obtain qs where qs: "journal_repr A k qs" by blast
    from repr_unique [OF repr qs] k same limits have "qs = ps" "j_segment_id k = j_segment_id j" by simp_all
    then show ?thesis using qs by (simp add: Inr)
  qed
qed

text \<open>
  C2: a restart loses no accepted window. A process dies between two calls with the windows \<open>ps\<close> in its
  journal and is started again, with any byte limit, while any call may fail: those of the journal's
  directory, every read of the file, the writes of the segment. Startup does not open the
  journal, and then its file is as it was; or there are no windows and it does nothing; or it
  publishes exactly them under the identifier of the segment that was open, and then empties
  the journal; or it fails with the windows still in the journal or already stored under that
  identifier. Stored means that the segment holds exactly the windows, body for body, as in C3, and the
  segment files that exist already are assumed to be synchronized, as there; startup keeps it.
\<close>

theorem restart_keeps_windows:
  assumes "crc_laws A" and "wf_disk d" and "finals_synced d" and "journal_repr A j ps"
    and "jc_limits (j_config j) = jc_limits default_journal_config" and "left_by j owner"
    and "open_collector_journal A cd flt owner max_bytes grow counter d = Some (r, x)"
  shows "case x of
      Inr d' \<Rightarrow> d' = d \<and> (\<exists>e h. r = Err (OpenJournal e) \<and>
        open_journal A owner (default_journal_config\<lparr>jc_max_len := unat max_bytes\<rparr>) grow counter = Some (Err e, h, counter) \<and>
        (\<forall>g. h = Some g \<longrightarrow> open_or_create_journal owner = Ok (g, False) \<and> content g = content (j_file j)))
    | Inl st \<Rightarrow> frame d (cs_disk st) \<and> wf_disk (cs_disk st) \<and> finals_synced (cs_disk st) \<and>
        (case r of
           Ok None \<Rightarrow> ps = [] \<and> journal_repr A (cs_journal st) []
         | Ok (Some a) \<Rightarrow> j_segment_id j = Some (addr_id a) \<and> stored A cd ps a (cs_disk st) \<and> journal_repr A (cs_journal st) []
         | Err e \<Rightarrow> journal_repr A (cs_journal st) ps \<or>
             j_poisoned (cs_journal st) \<and> (\<exists>a. j_segment_id j = Some (addr_id a) \<and> stored A cd ps a (cs_disk st)))"
proof -
  let ?cfg = "default_journal_config\<lparr>jc_max_len := unat max_bytes\<rparr>"
  from assms(7) obtain q h c where o: "open_journal A owner ?cfg grow counter = Some (q, h, c)"
    by (auto simp: open_collector_journal_def split: option.splits)
  have "jc_limits ?cfg = jc_limits (j_config j)" by (simp add: assms(5))
  note reopen = reopened [OF assms(4,6) this o]
  show ?thesis
  proof (cases q)
    case (Inl e)
    then have "r = Err (OpenJournal e)" "x = Inr d" using assms(7) o by (auto simp: open_collector_journal_def)
    then show ?thesis
      using reopen o assms(6) unfolding Inl by (auto simp: left_by_def split: option.splits)
  next
    case (Inr k)
    with reopen have k: "journal_repr A k ps" "j_segment_id k = j_segment_id j" by simp_all
    from assms(7) o Inr obtain st where x: "x = Inl st"
      by (auto simp: open_collector_journal_def Let_def split: if_splits)
    from recovery_keeps_windows [OF assms(1-3) o [unfolded Inr] k(1) assms(7) [unfolded x]] k assms(3) show ?thesis
      unfolding x by (auto simp: disk_kept_def split: sum.splits option.splits)
  qed
qed

lemma publish_returns:
  "unat (cs_counter st) < 2 ^ 64 - 1 \<Longrightarrow> publish_journal A cd flt a st \<noteq> None"
  by (auto simp: publish_journal_def reset_journal_def next_journal_generation_def checked_add_word_def
      split: sum.split option.split if_splits prod.split)

lemma recovered_returns:
  "unat (cs_counter st) < 2 ^ 64 - 1 \<Longrightarrow> write_recovered_journal A cd flt st \<noteq> None"
  by (auto simp: write_recovered_journal_def publish_returns split: sum.split option.split simp del: not_None_eq)

theorem restart_keeps_windows_witness:
  "\<exists>r st. open_collector_journal crc_sum seg_codec no_stream_faults (owner_of (restart (j_file seg_journal))) 1073741824
       (\<lambda>old len. len) 5 empty_disk = Some (r, Inl st) \<and>
     (journal_repr crc_sum (cs_journal st) [seg_part] \<or>
      (\<exists>a. addr_id a = SegmentId 0 \<and> stored crc_sum seg_codec [seg_part] a (cs_disk st)))"
proof -
  let ?owner = "owner_of (restart (j_file seg_journal))"
  let ?cfg = "default_journal_config\<lparr>jc_max_len := unat (1073741824 :: u64)\<rparr>"
  have cfg: "j_config seg_journal = ?cfg"
    by (simp add: seg_journal_def default_journal_config_def MAX_JOURNAL_LEN_def)
  have own: "clone_lease ?owner = Ok ()" "sync_root ?owner = Ok ()"
    "open_or_create_journal ?owner = Ok (restart (j_file seg_journal), False)"
    by (simp_all add: owner_of_def)
  have g: "next_journal_generation 5 = Some (5, 6)" by (simp add: next_journal_generation_def checked_add_word_def)
  have "validate_config (j_config seg_journal) = Ok ()" using seg_repr by (simp add: journal_repr_def)
  then obtain j f where o: "open_journal crc_sum ?owner (j_config seg_journal) (\<lambda>old len. len) 5 = Some (Ok j, f, 6)"
    using open_file_live [OF seg_repr refl, of "\<lambda>old len. len"] own g by (simp add: open_journal_def)
  have "open_collector_journal crc_sum seg_codec no_stream_faults ?owner 1073741824 (\<lambda>old len. len) 5 empty_disk \<noteq> None"
    using recovered_returns [of "\<lparr>cs_journal = j, cs_disk = empty_disk, cs_counter = 6\<rparr>" crc_sum seg_codec no_stream_faults]
      o [unfolded cfg]
    by (auto simp: open_collector_journal_def Let_def)
  then obtain r x where run: "open_collector_journal crc_sum seg_codec no_stream_faults ?owner 1073741824
      (\<lambda>old len. len) 5 empty_disk = Some (r, x)"
    by auto
  have id: "j_segment_id seg_journal = Some (SegmentId 0)" by (simp add: seg_journal_def)
  have "left_by seg_journal ?owner" by (simp add: left_by_def owner_of_def restart_def)
  moreover have "jc_limits (j_config seg_journal) = jc_limits default_journal_config" by (simp add: seg_journal_def)
  moreover obtain st where x: "x = Inl st"
    using run o by (auto simp: cfg open_collector_journal_def Let_def split: if_splits)
  ultimately have c: "case r of Ok None \<Rightarrow> [seg_part] = [] \<and> journal_repr crc_sum (cs_journal st) []
       | Ok (Some a) \<Rightarrow> j_segment_id seg_journal = Some (addr_id a) \<and> stored crc_sum seg_codec [seg_part] a (cs_disk st) \<and>
           journal_repr crc_sum (cs_journal st) []
       | Err e \<Rightarrow> journal_repr crc_sum (cs_journal st) [seg_part] \<or> j_poisoned (cs_journal st) \<and>
           (\<exists>a. j_segment_id seg_journal = Some (addr_id a) \<and> stored crc_sum seg_codec [seg_part] a (cs_disk st))"
    using restart_keeps_windows [OF crc_sum_laws _ _ seg_repr _ _ run] seg_store_ok(1,3) by (simp add: seg_store_def)
  have "journal_repr crc_sum (cs_journal st) [seg_part] \<or>
      (\<exists>a. addr_id a = SegmentId 0 \<and> stored crc_sum seg_codec [seg_part] a (cs_disk st))"
  proof (cases r)
    case (Inr y)
    with c id show ?thesis by (cases y) auto
  qed (use c id in auto)
  then show ?thesis using run x by blast
qed

end
