(* ===== verification/Collector_Run.thy ===== *)
theory Collector_Run
  imports Collector_Props
begin

text \<open>
  Runs of the open segment: every outcome of \<open>append_window_and_maybe_close\<close>, the reachable states
  under any failures, and the invariant that an accepted window is never lost.
\<close>

section \<open>One window\<close>












section \<open>Runs\<close>









section \<open>A concrete run\<close>







end
