(* ===== verification/Glob.thy ===== *)
theory Glob
  imports Prelude
begin

text \<open>
  The globs of the snapshot search (\<open>crates/kronika-query/src/snapshot/search/glob.rs\<close>). Texts are
  lists of Unicode scalar values, so the byte offsets of the code, which always stand on character
  boundaries, are positions in the list. \<open>lower\<close> is \<open>char::to_lowercase\<close> of the standard library,
  whose Unicode table is not part of the model. The loop with one remembered star is proved equal to
  the recursive definition of what a glob means.
\<close>

type_synonym unicode = nat

datatype glob_token = GlobStar | GlobAny | GlobLiteral unicode

type_synonym glob_pattern = "glob_token list"

definition unicode_char_equal :: "(unicode \<Rightarrow> unicode list) \<Rightarrow> unicode \<Rightarrow> unicode \<Rightarrow> bool" where
  "unicode_char_equal lower a b \<longleftrightarrow> lower a = lower b"

section \<open>Patterns\<close>

definition glob_exact :: "unicode list \<Rightarrow> glob_pattern" where
  "glob_exact raw = map GlobLiteral raw"

definition glob_contains :: "unicode list \<Rightarrow> glob_pattern" where
  "glob_contains raw = GlobStar # map GlobLiteral raw @ [GlobStar]"

text \<open>\<open>42\<close> is the star and \<open>63\<close> the question mark.\<close>

definition glob_token_of :: "unicode \<Rightarrow> glob_token" where
  "glob_token_of c = (if c = 42 then GlobStar else if c = 63 then GlobAny else GlobLiteral c)"

fun glob_new_loop :: "unicode list \<Rightarrow> glob_pattern \<Rightarrow> glob_pattern" where
  "glob_new_loop [] tokens = tokens"
| "glob_new_loop (c # raw) tokens =
     (let token = glob_token_of c in
      glob_new_loop raw
        (if token \<noteq> GlobStar \<or> \<not> (tokens \<noteq> [] \<and> List.last tokens = GlobStar) then tokens @ [token] else tokens))"

definition glob_new :: "unicode list \<Rightarrow> glob_pattern" where
  "glob_new raw =
     (let tokens = glob_new_loop raw [GlobStar] in
      if tokens \<noteq> [] \<and> List.last tokens = GlobStar then tokens else tokens @ [GlobStar])"

section \<open>Matching\<close>

definition token_at :: "glob_pattern \<Rightarrow> nat \<Rightarrow> glob_token option" where
  "token_at p i = (if i < length p then Some (p ! i) else None)"

text \<open>The loop; \<open>None\<close> is \<open>return false\<close>, otherwise the index in the pattern at the end of the text.\<close>

function glob_loop ::
  "(unicode \<Rightarrow> unicode list) \<Rightarrow> glob_pattern \<Rightarrow> unicode list \<Rightarrow> nat \<Rightarrow> nat \<Rightarrow> nat option \<Rightarrow> nat \<Rightarrow> nat option" where
  "glob_loop lower p s i at star retry =
     (if at < length s then
        if (case token_at p i of
              Some (GlobLiteral w) \<Rightarrow> unicode_char_equal lower w (s ! at)
            | Some GlobAny \<Rightarrow> True
            | _ \<Rightarrow> False)
        then glob_loop lower p s (i + 1) (at + 1) star retry
        else if token_at p i = Some GlobStar then glob_loop lower p s (i + 1) at (Some i) at
        else (case star of
            None \<Rightarrow> None
          | Some star_index \<Rightarrow>
              if retry < length s then glob_loop lower p s (star_index + 1) (retry + 1) (Some star_index) (retry + 1)
              else None)
      else Some i)"
  by pat_completeness auto
termination
  by (relation "measures [\<lambda>(lower, p, s, i, at, star, retry). if at < retry then 1 else 0,
      \<lambda>(lower, p, s, i, at, star, retry). length s - retry, \<lambda>(lower, p, s, i, at, star, retry). length p - i]")
    (auto simp: token_at_def split: if_splits)

declare glob_loop.simps [simp del]

definition skip_stars :: "glob_pattern \<Rightarrow> nat \<Rightarrow> nat" where
  "skip_stars p i = i + length (takeWhile (\<lambda>t. t = GlobStar) (drop i p))"

definition glob_matches :: "(unicode \<Rightarrow> unicode list) \<Rightarrow> glob_pattern \<Rightarrow> unicode list \<Rightarrow> bool" where
  "glob_matches lower p s =
     (case glob_loop lower p s 0 0 None 0 of None \<Rightarrow> False | Some i \<Rightarrow> skip_stars p i = length p)"

definition same_token :: "(unicode \<Rightarrow> unicode list) \<Rightarrow> glob_token \<Rightarrow> glob_token \<Rightarrow> bool" where
  "same_token lower l r =
     (case (l, r) of
        (GlobLiteral a, GlobLiteral b) \<Rightarrow> unicode_char_equal lower a b
      | _ \<Rightarrow> l = r)"

definition glob_same_exact :: "(unicode \<Rightarrow> unicode list) \<Rightarrow> glob_pattern \<Rightarrow> glob_pattern \<Rightarrow> bool" where
  "glob_same_exact lower p q \<longleftrightarrow> length p = length q \<and> list_all2 (same_token lower) p q"

section \<open>The meaning of a pattern\<close>

fun glob_spec :: "(unicode \<Rightarrow> unicode list) \<Rightarrow> glob_pattern \<Rightarrow> unicode list \<Rightarrow> bool" where
  "glob_spec lower [] s = (s = [])"
| "glob_spec lower (GlobStar # p) [] = glob_spec lower p []"
| "glob_spec lower (GlobStar # p) (c # s) = (glob_spec lower p (c # s) \<or> glob_spec lower (GlobStar # p) s)"
| "glob_spec lower (GlobAny # p) [] = False"
| "glob_spec lower (GlobAny # p) (c # s) = glob_spec lower p s"
| "glob_spec lower (GlobLiteral w # p) [] = False"
| "glob_spec lower (GlobLiteral w # p) (c # s) = (unicode_char_equal lower w c \<and> glob_spec lower p s)"

lemma glob_spec_star: "glob_spec lower (GlobStar # p) s \<longleftrightarrow> (\<exists>k \<le> length s. glob_spec lower p (drop k s))"
proof (induction s)
  case (Cons c s)
  show ?case
  proof
    assume "glob_spec lower (GlobStar # p) (c # s)"
    then consider "glob_spec lower p (c # s)" | "glob_spec lower (GlobStar # p) s" by auto
    then show "\<exists>k \<le> length (c # s). glob_spec lower p (drop k (c # s))"
    proof cases
      case 2
      with Cons.IH obtain k where "k \<le> length s" "glob_spec lower p (drop k s)" by blast
      then show ?thesis by (intro exI [of _ "Suc k"]) simp
    qed (intro exI [of _ 0], simp)
  next
    assume "\<exists>k \<le> length (c # s). glob_spec lower p (drop k (c # s))"
    then obtain k where k: "k \<le> length (c # s)" "glob_spec lower p (drop k (c # s))" by blast
    then show "glob_spec lower (GlobStar # p) (c # s)" using Cons.IH by (cases k) auto
  qed
qed simp

lemma glob_spec_stars [simp]: "glob_spec lower (GlobStar # GlobStar # p) s \<longleftrightarrow> glob_spec lower (GlobStar # p) s"
proof
  assume "glob_spec lower (GlobStar # GlobStar # p) s"
  then obtain k m where "k \<le> length s" "m \<le> length (drop k s)" "glob_spec lower p (drop m (drop k s))"
    unfolding glob_spec_star by blast
  then show "glob_spec lower (GlobStar # p) s"
    unfolding glob_spec_star by (intro exI [of _ "m + k"]) simp
qed (unfold glob_spec_star, intro exI [of _ 0], simp add: glob_spec_star)

text \<open>Tokens other than the star take one character each.\<close>

lemma glob_spec_plain:
  assumes "GlobStar \<notin> set a"
  shows "glob_spec lower (a @ p) s \<longleftrightarrow>
    length a \<le> length s \<and> glob_spec lower a (take (length a) s) \<and> glob_spec lower p (drop (length a) s)"
  using assms
proof (induction a arbitrary: s)
  case (Cons t a)
  then show ?case by (cases t; cases s) auto
qed simp

lemma glob_spec_empty: "glob_spec lower p [] \<longleftrightarrow> takeWhile (\<lambda>t. t = GlobStar) p = p"
proof (induction p)
  case (Cons t p)
  then show ?case by (cases t) auto
qed simp

lemma skip_stars_end:
  assumes "i \<le> length p"
  shows "skip_stars p i = length p \<longleftrightarrow> glob_spec lower (drop i p) []"
proof -
  have "length (takeWhile (\<lambda>t. t = GlobStar) (drop i p)) = length p - i \<longleftrightarrow>
      takeWhile (\<lambda>t. t = GlobStar) (drop i p) = drop i p"
    by (metis length_drop takeWhile_eq_take take_all_iff takeWhile_idem le_refl)
  then show ?thesis
    using assms by (auto simp: skip_stars_def glob_spec_empty)
qed

section \<open>The loop computes the meaning\<close>

text \<open>
  The state of the loop: without a star everything so far was forced; with one, the tokens after the
  star have matched the characters since \<open>retry\<close> one by one.
\<close>

definition loop_state :: "glob_pattern \<Rightarrow> unicode list \<Rightarrow> nat \<Rightarrow> nat \<Rightarrow> nat option \<Rightarrow> nat \<Rightarrow> bool" where
  "loop_state p s i at star retry \<longleftrightarrow> i \<le> length p \<and> at \<le> length s \<and>
     (case star of
        None \<Rightarrow> True
      | Some si \<Rightarrow> si < i \<and> retry \<le> at \<and> at - retry = i - (si + 1) \<and>
          GlobStar \<notin> set (take (i - (si + 1)) (drop (si + 1) p)))"

definition later_start :: "(unicode \<Rightarrow> unicode list) \<Rightarrow> glob_pattern \<Rightarrow> unicode list \<Rightarrow> nat option \<Rightarrow> nat \<Rightarrow> bool" where
  "later_start lower p s star retry \<longleftrightarrow>
     (case star of
        None \<Rightarrow> False
      | Some si \<Rightarrow> \<exists>k. retry < k \<and> k \<le> length s \<and> glob_spec lower (drop (si + 1) p) (drop k s))"

text \<open>A later start of the last star needs a match of the rest at the current place or later.\<close>

lemma later_start_rest:
  assumes "loop_state p s i at star retry" and "later_start lower p s star retry"
  shows "\<exists>m. at < m \<and> m \<le> length s \<and> glob_spec lower (drop i p) (drop m s)"
proof -
  from assms(2) obtain si k where si: "star = Some si" and k: "retry < k" "k \<le> length s"
    "glob_spec lower (drop (si + 1) p) (drop k s)"
    by (auto simp: later_start_def split: option.splits)
  let ?n = "i - (si + 1)"
  have st: "si < i" "retry \<le> at" "at - retry = ?n" "GlobStar \<notin> set (take ?n (drop (si + 1) p))" "i \<le> length p"
    using assms(1) by (simp_all add: loop_state_def si)
  have split: "drop (si + 1) p = take ?n (drop (si + 1) p) @ drop i p"
  proof -
    have "drop ?n (drop (si + 1) p) = drop i p" using st(1) by simp
    then show ?thesis by (metis append_take_drop_id)
  qed
  have len: "length (take ?n (drop (si + 1) p)) = ?n" using st(1,5) by simp
  have "glob_spec lower (take ?n (drop (si + 1) p) @ drop i p) (drop k s)" using k(3) split by simp
  from this [unfolded glob_spec_plain [OF st(4)] len] have "?n \<le> length (drop k s)"
      "glob_spec lower (drop i p) (drop ?n (drop k s))"
    by simp_all
  then show ?thesis using k(1,2) st(2,3) by (intro exI [of _ "?n + k"]) auto
qed

lemma take_grow:
  assumes "si < i" and "i < length p"
  shows "take (i - si) (drop (Suc si) p) = take (i - Suc si) (drop (Suc si) p) @ [p ! i]"
proof -
  have "i - si = Suc (i - Suc si)" "i - Suc si < length (drop (Suc si) p)" using assms by simp_all
  then show ?thesis using assms by (simp only: take_Suc_conv_app_nth) simp
qed

lemma glob_loop_spec:
  assumes "loop_state p s i at star retry"
  shows "(case glob_loop lower p s i at star retry of None \<Rightarrow> False | Some j \<Rightarrow> skip_stars p j = length p) \<longleftrightarrow>
    glob_spec lower (drop i p) (drop at s) \<or> later_start lower p s star retry"
  using assms
proof (induction lower p s i at star retry rule: glob_loop.induct)
  case (1 lower p s i at star retry)
  note IH = "1.IH" and state = "1.prems"
  let ?hit = "case token_at p i of Some (GlobLiteral w) \<Rightarrow> unicode_char_equal lower w (s ! at) | Some GlobAny \<Rightarrow> True | _ \<Rightarrow> False"
  show ?case
  proof (cases "at < length s")
    case False
    have "at = length s" using state False by (simp add: loop_state_def)
    moreover have "\<not> later_start lower p s star retry"
      using later_start_rest [OF state, of lower] False by auto
    moreover have "i \<le> length p" using state by (simp add: loop_state_def)
    ultimately show ?thesis using False skip_stars_end [of i p lower] by (simp add: glob_loop.simps)
  next
    case True
    then have s: "drop at s = s ! at # drop (at + 1) s" by (simp add: Cons_nth_drop_Suc)
    show ?thesis
    proof (cases ?hit)
      case hit: True
      then have i: "i < length p" "p ! i \<noteq> GlobStar" by (auto simp: token_at_def split: if_splits glob_token.splits)
      have p: "drop i p = p ! i # drop (i + 1) p" using i(1) by (simp add: Cons_nth_drop_Suc)
      have "loop_state p s (i + 1) (at + 1) star retry"
        using state i True by (auto simp: loop_state_def take_grow split: option.splits)
      note IH(1) [OF True hit this]
      moreover have "glob_spec lower (drop i p) (drop at s) \<longleftrightarrow> glob_spec lower (drop (i + 1) p) (drop (at + 1) s)"
        using hit i unfolding p s by (auto simp: token_at_def split: glob_token.splits)
      ultimately show ?thesis using True hit by (subst glob_loop.simps) simp
    next
      case miss: False
      show ?thesis
      proof (cases "token_at p i = Some GlobStar")
        case star: True
        then have i: "i < length p" "p ! i = GlobStar" by (auto simp: token_at_def split: if_splits)
        have p: "drop i p = GlobStar # drop (i + 1) p" using i by (metis Cons_nth_drop_Suc Suc_eq_plus1)
        have st: "loop_state p s (i + 1) at (Some i) at" using state i by (simp add: loop_state_def)
        have "glob_spec lower (drop (i + 1) p) (drop at s) \<or> later_start lower p s (Some i) at \<longleftrightarrow>
            (\<exists>k. at \<le> k \<and> k \<le> length s \<and> glob_spec lower (drop (i + 1) p) (drop k s))"
          using True by (auto simp: later_start_def dest: order.strict_implies_order) (metis le_neq_implies_less)
        also have "\<dots> \<longleftrightarrow> glob_spec lower (drop i p) (drop at s)"
        proof
          assume "\<exists>k. at \<le> k \<and> k \<le> length s \<and> glob_spec lower (drop (i + 1) p) (drop k s)"
          then obtain k where "at \<le> k" "k \<le> length s" "glob_spec lower (drop (i + 1) p) (drop k s)" by blast
          then show "glob_spec lower (drop i p) (drop at s)"
            unfolding p glob_spec_star by (intro exI [of _ "k - at"]) auto
        next
          assume "glob_spec lower (drop i p) (drop at s)"
          then obtain k where "k \<le> length (drop at s)" "glob_spec lower (drop (i + 1) p) (drop k (drop at s))"
            unfolding p glob_spec_star by blast
          then show "\<exists>k. at \<le> k \<and> k \<le> length s \<and> glob_spec lower (drop (i + 1) p) (drop k s)"
            using True by (intro exI [of _ "k + at"]) auto
        qed
        finally have new: "glob_spec lower (drop (i + 1) p) (drop at s) \<or> later_start lower p s (Some i) at \<longleftrightarrow>
            glob_spec lower (drop i p) (drop at s)" .
        have "glob_spec lower (drop i p) (drop at s)" if later: "later_start lower p s star retry"
        proof -
          obtain m where m: "at < m" "m \<le> length s" "glob_spec lower (drop i p) (drop m s)"
            using later_start_rest [OF state later] by blast
          then have "glob_spec lower (GlobStar # drop i p) (drop at s)"
            unfolding glob_spec_star by (intro exI [of _ "m - at"]) simp
          then show ?thesis unfolding p by simp
        qed
        then show ?thesis
          using IH(2) [OF True miss star st] True miss star new by (subst glob_loop.simps) auto
      next
        case stuck: False
        have no: "\<not> glob_spec lower (drop i p) (drop at s)"
        proof (cases "i < length p")
          case True
          then have "drop i p = p ! i # drop (i + 1) p" by (simp add: Cons_nth_drop_Suc)
          then show ?thesis
            using miss stuck True unfolding s by (auto simp: token_at_def split: glob_token.splits)
        qed (simp add: s)
        show ?thesis
        proof (cases star)
          case None
          then show ?thesis using True miss stuck no by (subst glob_loop.simps) (simp add: later_start_def)
        next
          case (Some si)
          have r: "retry < length s" "si < i" "i \<le> length p" using state True by (auto simp: loop_state_def Some)
          then have st: "loop_state p s (si + 1) (retry + 1) (Some si) (retry + 1)" by (simp add: loop_state_def)
          have "later_start lower p s star retry \<longleftrightarrow>
              glob_spec lower (drop (si + 1) p) (drop (retry + 1) s) \<or> later_start lower p s (Some si) (retry + 1)"
            using r by (auto simp: later_start_def Some intro: Suc_lessD) (metis Suc_lessI)
          then show ?thesis
            using IH(3) [OF True miss stuck Some r(1) st] True miss stuck no Some r(1) by (subst glob_loop.simps) simp
        qed
      qed
    qed
  qed
qed

lemma glob_matches_loop: "glob_matches lower p s \<longleftrightarrow> glob_spec lower p s"
proof -
  have "loop_state p s 0 0 None 0" by (simp add: loop_state_def)
  from glob_loop_spec [OF this, of lower] show ?thesis by (simp add: glob_matches_def later_start_def)
qed

text \<open>
  C33: the glob matcher is correct. The loop with one remembered star accepts exactly the texts that
  the pattern means, where a star stands for any characters, \<open>GlobAny\<close> for one and a literal for one with the
  same lower case; so the greedy retry never misses a match, and the loop ends on every input.
\<close>

theorem glob_matches_spec: "glob_matches lower p s \<longleftrightarrow> glob_spec lower p s"
  by (rule glob_matches_loop)

section \<open>The patterns\<close>

lemma literals_spec:
  "glob_spec lower (map GlobLiteral raw @ p) s \<longleftrightarrow>
     length raw \<le> length s \<and> list_all2 (unicode_char_equal lower) raw (take (length raw) s) \<and>
     glob_spec lower p (drop (length raw) s)"
proof (induction raw arbitrary: s)
  case (Cons c raw)
  then show ?case by (cases s) auto
qed simp

lemma star_matches_all [simp]: "glob_spec lower [GlobStar] s"
  by (induction s) simp_all

lemma exact_spec: "glob_spec lower (glob_exact raw) s \<longleftrightarrow> list_all2 (unicode_char_equal lower) raw s"
  using literals_spec [of lower raw "[]" s]
  by (cases "length raw = length s") (auto simp: glob_exact_def dest: list_all2_lengthD)

lemma contains_spec:
  "glob_spec lower (glob_contains raw) s \<longleftrightarrow>
     (\<exists>k \<le> length s. length raw \<le> length s - k \<and> list_all2 (unicode_char_equal lower) raw (take (length raw) (drop k s)))"
  unfolding glob_contains_def by (subst glob_spec_star) (simp add: literals_spec)

text \<open>Two stars in a row mean one.\<close>

lemma glob_spec_absorb: "glob_spec lower (pre @ GlobStar # GlobStar # p) s \<longleftrightarrow> glob_spec lower (pre @ GlobStar # p) s"
proof (induction pre arbitrary: s)
  case (Cons x pre)
  show ?case
  proof (cases "x = GlobStar")
    case True
    then show ?thesis using Cons by (simp add: glob_spec_star del: glob_spec.simps)
  next
    case False
    then show ?thesis using Cons by (cases x; cases s) auto
  qed
qed simp

lemma glob_new_loop_spec:
  assumes "tokens \<noteq> []" and "glob_spec lower (tokens @ map glob_token_of raw @ q) s \<longleftrightarrow> spec"
  shows "glob_new_loop raw tokens \<noteq> [] \<and> (glob_spec lower (glob_new_loop raw tokens @ q) s \<longleftrightarrow> spec)"
  using assms
proof (induction raw arbitrary: tokens)
  case (Cons c raw)
  let ?t = "glob_token_of c"
  show ?case
  proof (cases "?t \<noteq> GlobStar \<or> List.last tokens \<noteq> GlobStar")
    case True
    then show ?thesis using Cons.IH [of "tokens @ [?t]"] Cons.prems by simp
  next
    case False
    then obtain pre where t: "?t = GlobStar" "tokens = pre @ [GlobStar]"
      by (metis Cons.prems(1) append_butlast_last_id)
    then show ?thesis using Cons.IH [of tokens] Cons.prems by (simp add: glob_spec_absorb)
  qed
qed simp

text \<open>
  The patterns of the search language mean what they say. A \<open>contains\<close> pattern accepts a text
  exactly when the raw string is a substring of it up to case, an \<open>exact\<close> pattern when they are equal up to
  case, and a pattern of the text language, with its runs of stars collapsed, accepts what the raw
  string with a star on both sides means.
\<close>

lemma glob_patterns:
  "(glob_matches lower (glob_contains raw) s \<longleftrightarrow>
     (\<exists>pre mid post. s = pre @ mid @ post \<and> list_all2 (unicode_char_equal lower) raw mid)) \<and>
   (glob_matches lower (glob_exact raw) s \<longleftrightarrow> list_all2 (unicode_char_equal lower) raw s) \<and>
   (glob_matches lower (glob_new raw) s \<longleftrightarrow>
     glob_spec lower (GlobStar # map glob_token_of raw @ [GlobStar]) s)"
proof (intro conjI)
  show "glob_matches lower (glob_contains raw) s \<longleftrightarrow>
     (\<exists>pre mid post. s = pre @ mid @ post \<and> list_all2 (unicode_char_equal lower) raw mid)"
  proof
    assume "glob_matches lower (glob_contains raw) s"
    then obtain k where "k \<le> length s" "list_all2 (unicode_char_equal lower) raw (take (length raw) (drop k s))"
      by (auto simp: glob_matches_loop contains_spec)
    then show "\<exists>pre mid post. s = pre @ mid @ post \<and> list_all2 (unicode_char_equal lower) raw mid"
      by (metis append_take_drop_id)
  next
    assume "\<exists>pre mid post. s = pre @ mid @ post \<and> list_all2 (unicode_char_equal lower) raw mid"
    then obtain pre mid post where s: "s = pre @ mid @ post" and m: "list_all2 (unicode_char_equal lower) raw mid" by blast
    then have "length raw = length mid" by (auto dest: list_all2_lengthD)
    with s m show "glob_matches lower (glob_contains raw) s"
      by (auto simp: glob_matches_loop contains_spec intro!: exI [of _ "length pre"])
  qed
  show "glob_matches lower (glob_exact raw) s \<longleftrightarrow> list_all2 (unicode_char_equal lower) raw s"
    by (simp add: glob_matches_loop exact_spec)
  let ?t = "glob_new_loop raw [GlobStar]"
  have q: "?t \<noteq> [] \<and> (glob_spec lower (?t @ q) s \<longleftrightarrow> glob_spec lower (GlobStar # map glob_token_of raw @ q) s)" for q
    by (rule glob_new_loop_spec) simp_all
  show "glob_matches lower (glob_new raw) s \<longleftrightarrow> glob_spec lower (GlobStar # map glob_token_of raw @ [GlobStar]) s"
  proof (cases "List.last ?t = GlobStar")
    case True
    then obtain pre where t: "?t = pre @ [GlobStar]" using q by (metis append_butlast_last_id)
    then have "glob_new raw = ?t" by (simp add: glob_new_def)
    then show ?thesis using q [of "[GlobStar]"] glob_spec_absorb [of lower pre "[]" s] by (simp add: glob_matches_loop t)
  next
    case False
    then have "glob_new raw = ?t @ [GlobStar]" by (simp add: glob_new_def Let_def)
    then show ?thesis using q [of "[GlobStar]"] by (simp add: glob_matches_loop)
  qed
qed

end
