(* ===== verification/Exact_Product.thy ===== *)
theory Exact_Product
  imports Prelude
begin

text \<open>
  The exact comparison of products (\<open>crates/kronika-query/src/exact_product.rs\<close>): two products of
  128-bit factors are multiplied out in base \<open>2 ^ 32\<close>, in a fixed array of 16 limbs for up to four
  factors and in a growing vector otherwise. The \<open>as u32\<close> casts and the 64-bit sums are words; an index
  out of range is \<open>None\<close>, the early return of the fixed routine and the panic of the other.
  The property is that the comparison is the order of the products as numbers.
\<close>

type_synonym u128 = "128 word"

datatype ordering = Less | Equal | Greater

definition compare_nat :: "nat \<Rightarrow> nat \<Rightarrow> ordering" where
  "compare_nat a b = (if a < b then Less else if a = b then Equal else Greater)"

text \<open>\<open>Iterator::cmp\<close>.\<close>

fun compare_digits :: "u32 list \<Rightarrow> u32 list \<Rightarrow> ordering" where
  "compare_digits [] [] = Equal"
| "compare_digits [] (r # rs) = Less"
| "compare_digits (l # ls) [] = Greater"
| "compare_digits (l # ls) (r # rs) = (if l < r then Less else if l = r then compare_digits ls rs else Greater)"

definition factor_digits :: "u128 \<Rightarrow> u32 list" where
  "factor_digits f = [ucast f, ucast (drop_bit 32 f), ucast (drop_bit 64 f), ucast (drop_bit 96 f)]"

section \<open>One row of the multiplication\<close>

fun multiply_digits :: "u32 \<Rightarrow> u32 list \<Rightarrow> nat \<Rightarrow> u64 \<Rightarrow> u32 list \<Rightarrow> (u64 \<times> u32 list) option" where
  "multiply_digits left [] index carry slots = Some (carry, slots)"
| "multiply_digits left (right # rights) index carry slots =
     (if index < length slots then
        let value = ucast (slots ! index) + ucast left * ucast right + carry in
        multiply_digits left rights (index + 1) (drop_bit 32 value) (slots[index := ucast value])
      else None)"

text \<open>The carry of the fixed array, and of the vector, which may grow.\<close>

function carry_fixed :: "nat \<Rightarrow> u64 \<Rightarrow> u32 list \<Rightarrow> u32 list option" where
  "carry_fixed index carry slots =
     (if carry > 0 then
        if index < length slots then
          let value = ucast (slots ! index) + carry in
          carry_fixed (index + 1) (drop_bit 32 value) (slots[index := ucast value])
        else None
      else Some slots)"
  by pat_completeness auto
termination
  by (relation "measure (\<lambda>(index, carry, slots). length slots - index)") auto

declare carry_fixed.simps [simp del]

function carry_heap :: "nat \<Rightarrow> u64 \<Rightarrow> u32 list \<Rightarrow> u32 list option" where
  "carry_heap index carry slots =
     (if carry > 0 then
        if index < length slots then
          let value = ucast (slots ! index) + carry;
              slots = slots[index := ucast value];
              carry = drop_bit 32 value
          in carry_heap (index + 1) carry (if index + 1 = length slots \<and> carry > 0 then slots @ [0] else slots)
        else None
      else Some slots)"
  by pat_completeness auto
termination
proof (relation "measures [\<lambda>(index, carry, slots). length slots - index, \<lambda>(index, carry, slots). unat (slots ! index),
    \<lambda>(index, carry, slots). unat carry]", goal_cases)
  case (2 index carry slots x slots' carry')
  show ?case
  proof (cases "index + 1 = length slots \<and> carry' > 0 \<and> slots ! index = 0")
    case True
    then have "carry' = drop_bit 32 carry" using 2 by simp
    then have "unat carry' = unat carry div 2 ^ 32" by (simp add: drop_bit_eq_div unat_div)
    moreover have "0 < unat carry" using 2(1) by (simp add: word_less_nat_alt)
    ultimately have "unat carry' < unat carry" by simp
    moreover have "length slots - index = Suc 0" using True by arith
    ultimately show ?thesis using True 2 by (simp add: nth_append)
  qed (use 2 in \<open>auto simp: nth_append unat_gt_0\<close>)
qed simp

declare carry_heap.simps [simp del]

fun product_rows ::
  "(nat \<Rightarrow> u64 \<Rightarrow> u32 list \<Rightarrow> u32 list option) \<Rightarrow> u32 list \<Rightarrow> u32 list \<Rightarrow> nat \<Rightarrow> u32 list \<Rightarrow> u32 list option" where
  "product_rows carry_up [] digits left_index slots = Some slots"
| "product_rows carry_up (left # lefts) digits left_index slots =
     (case multiply_digits left digits left_index 0 slots of
        None \<Rightarrow> None
      | Some (carry, slots) \<Rightarrow>
          (case carry_up (left_index + length digits) carry slots of
             None \<Rightarrow> None
           | Some slots \<Rightarrow> product_rows carry_up lefts digits (left_index + 1) slots))"

section \<open>The two routines\<close>

record fixed_product =
  fx_digits :: "u32 list"
  fx_len :: nat

fun trim_len :: "u32 list \<Rightarrow> nat \<Rightarrow> nat" where
  "trim_len ds (Suc (Suc n)) = (if ds ! Suc n = 0 then trim_len ds (Suc n) else Suc (Suc n))"
| "trim_len ds n = n"

fun fixed_loop :: "u128 list \<Rightarrow> fixed_product \<Rightarrow> fixed_product option" where
  "fixed_loop [] acc = Some acc"
| "fixed_loop (f # fs) acc =
     (case product_rows carry_fixed (take (fx_len acc) (fx_digits acc)) (factor_digits f) 0 (replicate 16 0) of
        None \<Rightarrow> None
      | Some ds \<Rightarrow> fixed_loop fs \<lparr>fx_digits = ds, fx_len = trim_len ds (min (fx_len acc + 4) 16)\<rparr>)"

definition fixed_product_limbs :: "u128 list \<Rightarrow> fixed_product option" where
  "fixed_product_limbs fs =
     (if length fs > 4 then None else fixed_loop fs \<lparr>fx_digits = (replicate 16 0)[0 := 1], fx_len = 1\<rparr>)"

fun heap_loop :: "u128 list \<Rightarrow> u32 list \<Rightarrow> u32 list option" where
  "heap_loop [] acc = Some acc"
| "heap_loop (f # fs) acc =
     (case product_rows carry_heap acc (factor_digits f) 0 (replicate (length acc + 4) 0) of
        None \<Rightarrow> None
      | Some ds \<Rightarrow> heap_loop fs (take (trim_len ds (length ds)) ds))"

definition heap_product_limbs :: "u128 list \<Rightarrow> u32 list option" where
  "heap_product_limbs fs = map_option rev (heap_loop fs [1])"

definition then_with :: "ordering \<Rightarrow> ordering \<Rightarrow> ordering" where
  "then_with a b = (if a = Equal then b else a)"

definition compare_products :: "u128 list \<Rightarrow> u128 list \<Rightarrow> ordering option" where
  "compare_products left right =
     (case (fixed_product_limbs left, fixed_product_limbs right) of
        (Some l, Some r) \<Rightarrow>
          Some (then_with (compare_nat (fx_len l) (fx_len r))
            (compare_digits (rev (take (fx_len l) (fx_digits l))) (rev (take (fx_len r) (fx_digits r)))))
      | _ \<Rightarrow>
          (case (heap_product_limbs left, heap_product_limbs right) of
             (Some l, Some r) \<Rightarrow> Some (then_with (compare_nat (length l) (length r)) (compare_digits l r))
           | _ \<Rightarrow> None))"

section \<open>Limbs as numbers\<close>

fun limbs :: "u32 list \<Rightarrow> nat" where
  "limbs [] = 0"
| "limbs (d # ds) = unat d + 2 ^ 32 * limbs ds"

lemma limbs_append: "limbs (xs @ ys) = limbs xs + 2 ^ (32 * length xs) * limbs ys"
  by (induction xs) (simp_all add: algebra_simps power_add)

lemma limbs_zeros [simp]: "limbs (replicate n 0) = 0"
  by (induction n) simp_all

lemma limbs_bound: "limbs ds < 2 ^ (32 * length ds)"
proof (induction ds)
  case (Cons d ds)
  have "unat d < 2 ^ 32" using unat_lt2p [of d] by simp
  moreover have "2 ^ 32 * (limbs ds + 1) \<le> 2 ^ 32 * 2 ^ (32 * length ds)" using Cons by (intro mult_left_mono) simp_all
  ultimately show ?case by (simp add: power_add algebra_simps)
qed simp

lemma limbs_update:
  "i < length ds \<Longrightarrow> limbs (ds[i := x]) + 2 ^ (32 * i) * unat (ds ! i) = limbs ds + 2 ^ (32 * i) * unat x"
proof (induction ds arbitrary: i)
  case (Cons d ds)
  then show ?case
  proof (cases i)
    case (Suc j)
    with Cons.IH [of j] Cons.prems have "limbs (ds[j := x]) + 2 ^ (32 * j) * unat (ds ! j) = limbs ds + 2 ^ (32 * j) * unat x"
      by simp
    from arg_cong [OF this, of "(*) (2 ^ 32)"] show ?thesis
      by (simp add: Suc power_add algebra_simps)
  qed simp
qed simp

lemma four_limbs:
  assumes "(n :: nat) < b * b * b * b"
  shows "n mod b + b * (n div b mod b + b * (n div (b * b) mod b + b * (n div (b * b * b) mod b))) = n"
proof -
  have e: "n div (b * b) = n div b div b" "n div (b * b * b) = n div b div b div b" by (simp_all add: div_mult2_eq)
  have "n div b div b div b mod b = n div b div b div b"
    using assms by (intro mod_less) (simp add: less_mult_imp_div_less ac_simps)
  then show ?thesis unfolding e by simp
qed

lemma factor_digits_value: "limbs (factor_digits f) = unat f"
proof -
  have d: "unat (ucast (drop_bit n f) :: u32) = unat f div 2 ^ n mod 2 ^ 32" for n
  proof -
    have "unat (drop_bit n f) = unat f div 2 ^ n" by (simp only: unat_drop_bit_eq) (simp only: drop_bit_eq_div)
    then show ?thesis by (simp only: unsigned_ucast_eq take_bit_eq_mod) simp
  qed
  have b: "unat f < 2 ^ 32 * 2 ^ 32 * 2 ^ 32 * 2 ^ 32" using unat_lt2p [of f] by simp
  show ?thesis using d [of 0] d [of 32] d [of 64] d [of 96] four_limbs [OF b]
    by (simp add: factor_digits_def)
qed

section \<open>Rows\<close>

lemma unat_ucast_u64 [simp]: "unat (ucast (d :: u32) :: u64) = unat d"
  by (simp add: unsigned_ucast_eq take_bit_nat_eq_self [OF order.strict_trans [OF unat_lt2p]])

lemma split_u64:
  fixes x :: u64
  shows "unat (ucast x :: u32) = unat x mod 2 ^ 32" and "unat (drop_bit 32 x) = unat x div 2 ^ 32"
    and "unat (ucast x :: u32) + 2 ^ 32 * unat (drop_bit 32 x) = unat x"
proof -
  show m: "unat (ucast x :: u32) = unat x mod 2 ^ 32" by (simp only: unsigned_ucast_eq take_bit_eq_mod) simp
  show d: "unat (drop_bit 32 x) = unat x div 2 ^ 32" by (simp only: unat_drop_bit_eq) (simp only: drop_bit_eq_div)
  show "unat (ucast x :: u32) + 2 ^ 32 * unat (drop_bit 32 x) = unat x" unfolding m d by (metis mod_mult_div_eq)
qed

lemma step_value:
  fixes slot left right :: u32 and carry :: u64
  assumes "unat carry < 2 ^ 32"
  shows "unat (ucast slot + ucast left * ucast right + carry :: u64) = unat slot + unat left * unat right + unat carry"
proof -
  have "unat slot \<le> 2 ^ 32 - 1" "unat left \<le> 2 ^ 32 - 1" "unat right \<le> 2 ^ 32 - 1" "unat carry \<le> 2 ^ 32 - 1"
    using unat_lt2p [of slot] unat_lt2p [of left] unat_lt2p [of right] assms by simp_all
  moreover from this have "unat left * unat right \<le> (2 ^ 32 - 1) * (2 ^ 32 - 1)" by (intro mult_mono) simp_all
  ultimately have b: "unat slot + unat left * unat right + unat carry < 2 ^ 64" by simp
  have m: "unat (ucast left * ucast right :: u64) = unat left * unat right"
    using b by (simp add: unat_word_ariths)
  then show ?thesis using b by (simp add: unat_word_ariths m)
qed

lemma multiply_digits_value:
  assumes "index + length rights \<le> length slots" and "unat carry < 2 ^ 32"
  shows "\<exists>carry' slots'. multiply_digits left rights index carry slots = Some (carry', slots') \<and> unat carry' < 2 ^ 32 \<and>
    length slots' = length slots \<and>
    limbs slots' + 2 ^ (32 * (index + length rights)) * unat carry' =
      limbs slots + 2 ^ (32 * index) * (unat left * limbs rights + unat carry)"
  using assms
proof (induction left rights index carry slots rule: multiply_digits.induct)
  case (2 left right rights index carry slots)
  let ?v = "ucast (slots ! index) + ucast left * ucast right + carry :: u64"
  have i: "index < length slots" using "2.prems"(1) by simp
  have v: "unat ?v = unat (slots ! index) + unat left * unat right + unat carry" by (rule step_value [OF "2.prems"(2)])
  have "unat (drop_bit 32 ?v) < 2 ^ 32"
    using unat_lt2p [of ?v] by (simp add: split_u64(2) less_mult_imp_div_less)
  then obtain carry' slots' where run: "multiply_digits left rights (index + 1) (drop_bit 32 ?v) (slots[index := ucast ?v]) = Some (carry', slots')"
    "unat carry' < 2 ^ 32" "length slots' = length slots"
    "limbs slots' + 2 ^ (32 * (index + 1 + length rights)) * unat carry' =
       limbs (slots[index := ucast ?v]) + 2 ^ (32 * (index + 1)) * (unat left * limbs rights + unat (drop_bit 32 ?v))"
    using "2.IH" [OF i refl] "2.prems"(1) by auto
  have "limbs (slots[index := ucast ?v]) + 2 ^ (32 * index) * unat (slots ! index) =
      limbs slots + 2 ^ (32 * index) * unat (ucast ?v :: u32)"
    by (rule limbs_update [OF i])
  moreover have "2 ^ (32 * index) * (unat (ucast ?v :: u32) + 2 ^ 32 * unat (drop_bit 32 ?v)) =
      2 ^ (32 * index) * (unat (slots ! index) + unat left * unat right + unat carry)"
    using split_u64(3) [of ?v] v by simp
  ultimately have "limbs slots' + 2 ^ (32 * (index + length (right # rights))) * unat carry' =
      limbs slots + 2 ^ (32 * index) * (unat left * limbs (right # rights) + unat carry)"
    using run(4) by (simp add: algebra_simps power_add)
  then show ?case using run(1-3) i by (auto simp: Let_def)
qed simp

text \<open>While the value fits the slots the carry stays inside them, so both carries do the same.\<close>

lemma carry_fixed_value:
  assumes "limbs slots + 2 ^ (32 * index) * unat carry < 2 ^ (32 * length slots)" and "index \<le> length slots"
    and "unat carry < 2 ^ 32"
  shows "\<exists>slots'. carry_fixed index carry slots = Some slots' \<and> carry_heap index carry slots = Some slots' \<and>
    length slots' = length slots \<and> limbs slots' = limbs slots + 2 ^ (32 * index) * unat carry"
  using assms
proof (induction index carry slots rule: carry_fixed.induct)
  case (1 index carry slots)
  show ?case
  proof (cases "carry > 0")
    case False
    then have "carry = 0" by (simp add: word_gt_0)
    then show ?thesis by (simp add: carry_fixed.simps [of _ 0] carry_heap.simps [of _ 0])
  next
    case True
    have i: "index < length slots"
    proof (rule ccontr)
      assume "\<not> index < length slots"
      then have "index = length slots" using "1.prems"(2) by simp
      moreover have "1 \<le> unat carry" using True by (simp add: word_less_nat_alt)
      ultimately have "2 ^ (32 * length slots) * 1 \<le> 2 ^ (32 * index) * unat carry" by (intro mult_mono) simp_all
      then show False using "1.prems"(1) by simp
    qed
    let ?v = "ucast (slots ! index) + carry :: u64"
    let ?slots = "slots[index := ucast ?v]"
    have v: "unat ?v = unat (slots ! index) + unat carry"
      using unat_lt2p [of "slots ! index"] "1.prems"(3) by (simp add: unat_word_ariths)
    have c: "unat (drop_bit 32 ?v) < 2 ^ 32"
      using unat_lt2p [of ?v] by (simp add: split_u64(2) less_mult_imp_div_less)
    have upd: "limbs ?slots + 2 ^ (32 * index) * unat (slots ! index) = limbs slots + 2 ^ (32 * index) * unat (ucast ?v :: u32)"
      by (rule limbs_update [OF i])
    have "2 ^ (32 * index) * (unat (ucast ?v :: u32) + 2 ^ 32 * unat (drop_bit 32 ?v)) =
        2 ^ (32 * index) * (unat (slots ! index) + unat carry)"
      using split_u64(3) [of ?v] v by simp
    with upd have eq: "limbs ?slots + 2 ^ (32 * (index + 1)) * unat (drop_bit 32 ?v) = limbs slots + 2 ^ (32 * index) * unat carry"
      by (simp add: algebra_simps power_add)
    have grown: "\<not> (index + 1 = length ?slots \<and> drop_bit 32 ?v > 0)"
    proof
      assume "index + 1 = length ?slots \<and> drop_bit 32 ?v > 0"
      then have "index + 1 = length slots" "1 \<le> unat (drop_bit 32 ?v)" by (simp_all add: word_less_nat_alt)
      then have "2 ^ (32 * length slots) * 1 \<le> 2 ^ (32 * (index + 1)) * unat (drop_bit 32 ?v)" by (intro mult_mono) simp_all
      then show False using "1.prems"(1) eq by simp
    qed
    from "1.IH" [OF True i refl] eq "1.prems"(1) i c obtain slots' where
      "carry_fixed (index + 1) (drop_bit 32 ?v) ?slots = Some slots'" "carry_heap (index + 1) (drop_bit 32 ?v) ?slots = Some slots'"
      "length slots' = length slots" "limbs slots' = limbs ?slots + 2 ^ (32 * (index + 1)) * unat (drop_bit 32 ?v)"
      by auto
    then show ?thesis
      using True i grown eq by (subst carry_fixed.simps, subst carry_heap.simps) (simp add: Let_def del: One_nat_def, blast)
  qed
qed

lemma product_rows_value:
  assumes "limbs slots + 2 ^ (32 * index) * (limbs lefts * limbs digits) < 2 ^ (32 * length slots)"
    and "index + length lefts + length digits \<le> length slots"
  shows "\<exists>slots'. product_rows carry_fixed lefts digits index slots = Some slots' \<and>
    product_rows carry_heap lefts digits index slots = Some slots' \<and> length slots' = length slots \<and>
    limbs slots' = limbs slots + 2 ^ (32 * index) * (limbs lefts * limbs digits)"
  using assms
proof (induction lefts arbitrary: index slots)
  case (Cons left lefts)
  let ?row = "2 ^ (32 * index) * (unat left * limbs digits)"
  let ?rest = "2 ^ (32 * (index + 1)) * (limbs lefts * limbs digits)"
  have parts: "2 ^ (32 * index) * (limbs (left # lefts) * limbs digits) = ?row + ?rest"
    by (simp add: algebra_simps power_add)
  from multiply_digits_value [of index digits slots 0 left] Cons.prems(2) obtain carry slots1 where
    row: "multiply_digits left digits index 0 slots = Some (carry, slots1)" "unat carry < 2 ^ 32" "length slots1 = length slots"
      "limbs slots1 + 2 ^ (32 * (index + length digits)) * unat carry = limbs slots + ?row"
    by auto
  have "limbs slots + ?row < 2 ^ (32 * length slots1)" using Cons.prems(1) unfolding parts row(3) by linarith
  with carry_fixed_value [of slots1 "index + length digits" carry] row Cons.prems(2) obtain slots2 where
    up: "carry_fixed (index + length digits) carry slots1 = Some slots2"
      "carry_heap (index + length digits) carry slots1 = Some slots2"
      "length slots2 = length slots" "limbs slots2 = limbs slots + ?row"
    by auto
  have "limbs slots2 + ?rest < 2 ^ (32 * length slots2)" using Cons.prems(1) unfolding parts up(3,4) by linarith
  with Cons.IH [of slots2 "index + 1"] Cons.prems(2) up(3) obtain slots' where
    "product_rows carry_fixed lefts digits (index + 1) slots2 = Some slots'"
    "product_rows carry_heap lefts digits (index + 1) slots2 = Some slots'"
    "length slots' = length slots2" "limbs slots' = limbs slots2 + ?rest"
    by auto
  then show ?case using row(1) up parts by simp
qed simp

section \<open>Normal limbs\<close>

definition normal_limbs :: "u32 list \<Rightarrow> bool" where
  "normal_limbs ds = (ds \<noteq> [] \<and> (length ds > 1 \<longrightarrow> last ds \<noteq> 0))"

lemma trim_len_normal:
  assumes "0 < n" and "n \<le> length ds"
  shows "limbs (take (trim_len ds n) ds) = limbs (take n ds) \<and> normal_limbs (take (trim_len ds n) ds) \<and>
    0 < trim_len ds n \<and> trim_len ds n \<le> n"
  using assms
proof (induction ds n rule: trim_len.induct)
  case (1 ds n)
  have snoc: "take (Suc (Suc n)) ds = take (Suc n) ds @ [ds ! Suc n]"
    using "1.prems" by (simp add: take_Suc_conv_app_nth)
  show ?case
  proof (cases "ds ! Suc n = 0")
    case True
    then show ?thesis using 1 by (auto simp: snoc limbs_append)
  next
    case False
    then show ?thesis using 1 by (simp add: normal_limbs_def snoc del: take_Suc_conv_app_nth take_Suc)
  qed
qed (auto simp: normal_limbs_def)

lemma normal_limbs_low:
  assumes "normal_limbs ds" and "1 < length ds"
  shows "2 ^ (32 * (length ds - 1)) \<le> limbs ds"
proof -
  have "last ds \<noteq> 0" and "ds \<noteq> []" using assms by (auto simp: normal_limbs_def)
  then have "1 \<le> unat (last ds)" by (simp add: Suc_le_eq unat_gt_0)
  then have "2 ^ (32 * (length ds - 1)) * 1 \<le> 2 ^ (32 * (length ds - 1)) * unat (last ds)" by (intro mult_left_mono) simp_all
  moreover have "limbs ds = limbs (butlast ds) + 2 ^ (32 * (length ds - 1)) * unat (last ds)"
    using limbs_append [of "butlast ds" "[last ds]"] \<open>ds \<noteq> []\<close> by simp
  ultimately show ?thesis by linarith
qed

lemma normal_limbs_length:
  assumes "normal_limbs ds" and "limbs ds < 2 ^ (32 * m)" and "0 < m"
  shows "length ds \<le> m"
proof (rule ccontr)
  assume long: "\<not> length ds \<le> m"
  then have "2 ^ (32 * (length ds - 1)) \<le> limbs ds" using assms by (intro normal_limbs_low) auto
  moreover have "(2 :: nat) ^ (32 * m) \<le> 2 ^ (32 * (length ds - 1))" using long by (intro power_increasing) auto
  ultimately show False using assms(2) by linarith
qed

lemma compare_digits_value:
  "length xs = length ys \<Longrightarrow> compare_digits xs ys = compare_nat (limbs (rev xs)) (limbs (rev ys))"
proof (induction xs ys rule: list_induct2)
  case (Cons x xs y ys)
  have less: "limbs (rev as) + 2 ^ (32 * length as) * unat a < limbs (rev bs) + 2 ^ (32 * length bs) * unat b"
    if "a < b" "length as = length bs" for a b as bs
  proof -
    have "limbs (rev as) < 2 ^ (32 * length bs)" using limbs_bound [of "rev as"] that by simp
    moreover have "2 ^ (32 * length bs) * (unat a + 1) \<le> 2 ^ (32 * length bs) * unat b"
      using that by (intro mult_left_mono) (simp_all add: word_less_nat_alt)
    ultimately show ?thesis using that by (simp add: algebra_simps)
  qed
  consider "x < y" | "x = y" | "y < x" by fastforce
  then show ?case
  proof cases
    case 1
    then show ?thesis using less [of x y xs ys] Cons by (simp add: compare_nat_def limbs_append)
  next
    case 2
    then show ?thesis using Cons by (simp add: compare_nat_def limbs_append)
  next
    case 3
    then show ?thesis using less [of y x ys xs] Cons by (auto simp: compare_nat_def limbs_append)
  qed
qed (simp add: compare_nat_def)

lemma normal_limbs_shorter:
  assumes "normal_limbs xs" and "normal_limbs ys" and "length xs < length ys"
  shows "limbs xs < limbs ys"
proof -
  have one: "1 < length ys" using assms by (cases xs) (auto simp: normal_limbs_def)
  have "limbs xs < 2 ^ (32 * length xs)" by (rule limbs_bound)
  also have "(2 :: nat) ^ (32 * length xs) \<le> 2 ^ (32 * (length ys - 1))" using assms(3) by (intro power_increasing) auto
  also have "\<dots> \<le> limbs ys" by (rule normal_limbs_low [OF assms(2) one])
  finally show ?thesis .
qed

lemma compare_normal_limbs:
  assumes "normal_limbs xs" and "normal_limbs ys"
  shows "then_with (compare_nat (length xs) (length ys)) (compare_digits (rev xs) (rev ys)) = compare_nat (limbs xs) (limbs ys)"
proof -
  consider "length xs < length ys" | "length xs = length ys" | "length ys < length xs" by arith
  then show ?thesis
  proof cases
    case 1
    then show ?thesis using normal_limbs_shorter [OF assms] by (simp add: compare_nat_def then_with_def)
  next
    case 2
    then show ?thesis using compare_digits_value [of "rev xs" "rev ys"] by (simp add: compare_nat_def then_with_def)
  next
    case 3
    then show ?thesis using normal_limbs_shorter [OF assms(2,1)] by (simp add: compare_nat_def then_with_def)
  qed
qed

section \<open>Both routines compute the product\<close>

abbreviation product_of :: "u128 list \<Rightarrow> nat" where
  "product_of fs \<equiv> prod_list (map unat fs)"

lemma factor_digits_length [simp]: "length (factor_digits f) = 4"
  by (simp add: factor_digits_def)

lemma factor_bound: "unat (f :: u128) < 2 ^ (32 * 4)"
  using unat_lt2p [of f] by simp

lemma rows_from_zero:
  assumes "length acc + 4 \<le> n"
  shows "\<exists>ds. product_rows carry_fixed acc (factor_digits f) 0 (replicate n 0) = Some ds \<and>
    product_rows carry_heap acc (factor_digits f) 0 (replicate n 0) = Some ds \<and> length ds = n \<and>
    limbs ds = limbs acc * unat f \<and> limbs ds < 2 ^ (32 * (length acc + 4))"
proof -
  have "limbs acc * unat f < 2 ^ (32 * length acc) * 2 ^ (32 * 4)"
    by (intro mult_strict_mono limbs_bound factor_bound) simp_all
  then have b: "limbs acc * unat f < 2 ^ (32 * (length acc + 4))" by (simp add: power_add algebra_simps)
  also have "(2 :: nat) ^ (32 * (length acc + 4)) \<le> 2 ^ (32 * n)" using assms by (intro power_increasing) auto
  finally show ?thesis
    using product_rows_value [of "replicate n 0" 0 acc "factor_digits f"] assms b by (auto simp: factor_digits_value)
qed

lemma heap_loop_value:
  "normal_limbs acc \<Longrightarrow> \<exists>ds. heap_loop fs acc = Some ds \<and> normal_limbs ds \<and> limbs ds = limbs acc * product_of fs"
proof (induction fs arbitrary: acc)
  case (Cons f fs)
  from rows_from_zero [of acc "length acc + 4" f] obtain ds where
    ds: "product_rows carry_heap acc (factor_digits f) 0 (replicate (length acc + 4) 0) = Some ds"
      "length ds = length acc + 4" "limbs ds = limbs acc * unat f" by auto
  with trim_len_normal [of "length ds" ds] have
    "normal_limbs (take (trim_len ds (length ds)) ds)" "limbs (take (trim_len ds (length ds)) ds) = limbs acc * unat f" by simp_all
  then show ?case using Cons.IH [of "take (trim_len ds (length ds)) ds"] ds(1) by (auto simp: mult.assoc)
qed simp

lemma limbs_take_all:
  assumes "limbs ds < 2 ^ (32 * n)" and "n \<le> length ds"
  shows "limbs (take n ds) = limbs ds"
proof -
  have eq: "limbs ds = limbs (take n ds) + 2 ^ (32 * n) * limbs (drop n ds)"
    using limbs_append [of "take n ds" "drop n ds"] assms(2) by simp
  have "limbs (drop n ds) = 0"
  proof (rule ccontr)
    assume "limbs (drop n ds) \<noteq> 0"
    then have "2 ^ (32 * n) * 1 \<le> 2 ^ (32 * n) * limbs (drop n ds)" by (intro mult_left_mono) simp_all
    then show False using eq assms(1) by linarith
  qed
  then show ?thesis using eq by simp
qed

definition fixed_inv :: "nat \<Rightarrow> fixed_product \<Rightarrow> bool" where
  "fixed_inv k acc = (length (fx_digits acc) = 16 \<and> fx_len acc \<le> 16 \<and> normal_limbs (take (fx_len acc) (fx_digits acc)) \<and>
     limbs (take (fx_len acc) (fx_digits acc)) \<le> (2 ^ 128 - 1) ^ k)"

lemma factors_bound: "(2 ^ 128 - 1 :: nat) ^ k < 2 ^ (32 * max 1 (4 * k))"
proof (cases k)
  case (Suc j)
  have "(2 ^ 128 - 1 :: nat) ^ Suc j < (2 ^ 128) ^ Suc j" by (rule power_strict_mono) simp_all
  also have "\<dots> = 2 ^ (32 * max 1 (4 * k))" by (simp only: Suc flip: power_mult) (simp add: max_def)
  finally show ?thesis using Suc by simp
qed simp

lemma fixed_loop_value:
  assumes "fixed_inv k acc" and "k + length fs \<le> 4"
  shows "\<exists>acc'. fixed_loop fs acc = Some acc' \<and> fixed_inv (k + length fs) acc' \<and>
    limbs (take (fx_len acc') (fx_digits acc')) = limbs (take (fx_len acc) (fx_digits acc)) * product_of fs"
  using assms
proof (induction fs arbitrary: k acc)
  case (Cons f fs)
  let ?acc = "take (fx_len acc) (fx_digits acc)"
  have len: "length ?acc = fx_len acc" using Cons.prems(1) by (simp add: fixed_inv_def)
  have "limbs ?acc < 2 ^ (32 * max 1 (4 * k))"
    using Cons.prems(1) factors_bound [of k] by (simp add: fixed_inv_def)
  then have short: "fx_len acc \<le> max 1 (4 * k)"
    using normal_limbs_length [of ?acc "max 1 (4 * k)"] Cons.prems(1) by (simp add: fixed_inv_def len)
  then have fits: "length ?acc + 4 \<le> 16" using Cons.prems(2) len by simp
  from rows_from_zero [OF fits, of f] obtain ds where
    ds: "product_rows carry_fixed ?acc (factor_digits f) 0 (replicate 16 0) = Some ds" "length ds = 16"
      "limbs ds = limbs ?acc * unat f" "limbs ds < 2 ^ (32 * (fx_len acc + 4))"
    unfolding len by blast
  let ?n = "fx_len acc + 4"
  let ?next = "\<lparr>fx_digits = ds, fx_len = trim_len ds ?n\<rparr>"
  have n: "min ?n 16 = ?n" "?n \<le> length ds" using fits ds(2) len by auto
  note trim = trim_len_normal [of ?n ds] limbs_take_all [OF ds(4) n(2)]
  have "limbs ?acc * unat f \<le> (2 ^ 128 - 1) ^ k * (2 ^ 128 - 1)"
    using Cons.prems(1) factor_bound [of f] by (intro mult_mono) (auto simp: fixed_inv_def)
  then have "fixed_inv (Suc k) ?next"
    using trim n ds by (auto simp: fixed_inv_def power_add algebra_simps)
  from Cons.IH [OF this] Cons.prems(2) show ?case using ds trim n by (auto simp: mult.assoc)
qed simp

lemma fixed_product_value:
  assumes "length fs \<le> 4"
  shows "\<exists>p. fixed_product_limbs fs = Some p \<and> fx_len p \<le> length (fx_digits p) \<and>
    normal_limbs (take (fx_len p) (fx_digits p)) \<and> limbs (take (fx_len p) (fx_digits p)) = product_of fs"
proof -
  let ?one = "\<lparr>fx_digits = (replicate 16 0)[0 := 1], fx_len = 1\<rparr> :: fixed_product"
  have one: "take (fx_len ?one) (fx_digits ?one) = [1]" by (simp add: numeral_eq_Suc)
  have "fixed_inv 0 ?one" unfolding fixed_inv_def one by (simp add: normal_limbs_def)
  from fixed_loop_value [OF this, of fs] assms obtain p where
    p: "fixed_loop fs ?one = Some p" "fixed_inv (length fs) p" "limbs (take (fx_len p) (fx_digits p)) = product_of fs"
    unfolding one by auto
  then have "fx_len p \<le> length (fx_digits p)" "normal_limbs (take (fx_len p) (fx_digits p))"
    by (simp_all add: fixed_inv_def)
  moreover have "fixed_product_limbs fs = Some p" using assms p(1) by (simp add: fixed_product_limbs_def)
  ultimately show ?thesis using p(3) by blast
qed

lemma heap_product_value:
  "\<exists>ds. heap_product_limbs fs = Some (rev ds) \<and> normal_limbs ds \<and> limbs ds = product_of fs"
  using heap_loop_value [of "[1]" fs] by (auto simp: heap_product_limbs_def normal_limbs_def)

text \<open>
  C34: the comparison of two products never fails, whatever the number of factors and whichever routine runs,
  and orders them as the numbers they are.\<close>

theorem compare_products_exact:
  "compare_products left right = Some (compare_nat (prod_list (map unat left)) (prod_list (map unat right)))"
proof (cases "length left \<le> 4 \<and> length right \<le> 4")
  case True
  then obtain l r where
    "fixed_product_limbs left = Some l" "fx_len l \<le> length (fx_digits l)" "normal_limbs (take (fx_len l) (fx_digits l))"
      "limbs (take (fx_len l) (fx_digits l)) = product_of left"
    "fixed_product_limbs right = Some r" "fx_len r \<le> length (fx_digits r)" "normal_limbs (take (fx_len r) (fx_digits r))"
      "limbs (take (fx_len r) (fx_digits r)) = product_of right"
    using fixed_product_value [of left] fixed_product_value [of right] by blast
  then show ?thesis
    using compare_normal_limbs [of "take (fx_len l) (fx_digits l)" "take (fx_len r) (fx_digits r)"]
    by (simp add: compare_products_def)
next
  case False
  obtain l r where
    "heap_product_limbs left = Some (rev l)" "normal_limbs l" "limbs l = product_of left"
    "heap_product_limbs right = Some (rev r)" "normal_limbs r" "limbs r = product_of right"
    using heap_product_value [of left] heap_product_value [of right] by blast
  moreover have "fixed_product_limbs left = None \<or> fixed_product_limbs right = None"
    using False by (auto simp: fixed_product_limbs_def)
  ultimately show ?thesis
    using compare_normal_limbs [of l r] by (auto simp: compare_products_def split: option.splits)
qed

end
