(* ===== verification/Log_Tail.thy ===== *)
theory Log_Tail
  imports Utf8
begin

text \<open>
  Following a growing log file (\<open>crates/kronika-source-log/src/tail.rs\<close> and \<open>tail/framing.rs\<close>).
  A file is its identity and its bytes at the time of a call; each \<open>read\<close> may fail or return fewer
  bytes than asked for, and the rule that says whether a line continues the open record is a
  parameter. File offsets are naturals below \<open>2 ^ 64\<close>.
\<close>

definition READ_BUF_BYTES :: usize where "READ_BUF_BYTES = 65536"
definition MAX_LINE_BYTES :: usize where "MAX_LINE_BYTES = 65536"
definition MAX_READ_BYTES :: usize where "MAX_READ_BYTES = 4 * 1048576"

section \<open>Physical lines\<close>

record partial_line =
  pl_bytes :: bytes
  pl_truncated :: bool
  pl_quotes_odd :: bool

record physical_line =
  ph_end :: nat
  ph_text :: "bytes option"
  ph_truncated :: bool
  ph_quotes_odd :: bool

definition PartialLine_new :: partial_line where
  "PartialLine_new = \<lparr>pl_bytes = [], pl_truncated = False, pl_quotes_odd = False\<rparr>"

definition partial_is_empty :: "partial_line \<Rightarrow> bool" where
  "partial_is_empty p \<longleftrightarrow> pl_bytes p = [] \<and> \<not> pl_truncated p"

definition quote_parity :: "bytes \<Rightarrow> bool" where
  "quote_parity bs \<longleftrightarrow> length (filter (\<lambda>b. b = 34) bs) mod 2 = 1"

definition partial_push :: "bytes \<Rightarrow> bool \<Rightarrow> partial_line \<Rightarrow> partial_line" where
  "partial_push chunk track p =
     (let p = (if track then p\<lparr>pl_quotes_odd := (pl_quotes_odd p \<noteq> quote_parity chunk)\<rparr> else p) in
      if pl_truncated p then p
      else
        let kept = take (min (MAX_LINE_BYTES - length (pl_bytes p)) (length chunk)) chunk;
            p = p\<lparr>pl_bytes := pl_bytes p @ kept\<rparr>
        in if length kept < length chunk then p\<lparr>pl_truncated := True\<rparr> else p)"

text \<open>The finished line, and the fresh \<open>PartialLine\<close> that replaces the old one.\<close>

definition partial_finish :: "nat \<Rightarrow> partial_line \<Rightarrow> physical_line \<times> partial_line" where
  "partial_finish end_at p =
     (let raw = pl_bytes p;
          raw = (if \<not> pl_truncated p \<and> raw \<noteq> [] \<and> List.last raw = 13 then butlast raw else raw)
      in (if utf8_valid raw
          then \<lparr>ph_end = end_at, ph_text = Some raw, ph_truncated = pl_truncated p, ph_quotes_odd = pl_quotes_odd p\<rparr>
          else \<lparr>ph_end = end_at, ph_text = (if utf8_valid (utf8_prefix raw) then Some (utf8_prefix raw) else None),
                ph_truncated = True, ph_quotes_odd = pl_quotes_odd p\<rparr>,
          PartialLine_new))"

section \<open>Logical records\<close>

record open_record =
  op_lines :: "bytes list"
  op_bytes :: usize
  op_end :: nat
  op_truncated :: bool
  op_quotes_odd :: bool

record log_record =
  lr_lines :: "bytes list"
  lr_truncated :: bool

definition record_first :: "log_record \<Rightarrow> bytes" where
  "record_first r = (case lr_lines r of [] \<Rightarrow> [] | l # _ \<Rightarrow> l)"

definition record_rest :: "log_record \<Rightarrow> bytes list" where
  "record_rest r = drop 1 (lr_lines r)"

fun join_lines :: "bytes list \<Rightarrow> bytes" where
  "join_lines [] = []"
| "join_lines [l] = l"
| "join_lines (l # ls) = l @ 10 # join_lines ls"

definition record_joined :: "log_record \<Rightarrow> bytes" where
  "record_joined r = join_lines (lr_lines r)"

definition OpenRecord_new :: open_record where
  "OpenRecord_new = \<lparr>op_lines = [], op_bytes = 0, op_end = 0, op_truncated = False, op_quotes_odd = False\<rparr>"

definition open_push :: "physical_line \<Rightarrow> open_record \<Rightarrow> open_record" where
  "open_push line r =
     (let r = r\<lparr>op_end := ph_end line, op_quotes_odd := (op_quotes_odd r \<noteq> ph_quotes_odd line),
                op_truncated := (op_truncated r \<or> ph_truncated line)\<rparr>
      in case ph_text line of
           None \<Rightarrow> r
         | Some text \<Rightarrow>
             let separator = (if op_lines r = [] then 0 else 1) in
             (case Option.bind (checked_sub_usize MAX_LINE_BYTES (op_bytes r)) (\<lambda>room. checked_sub_usize room separator) of
                None \<Rightarrow> r\<lparr>op_truncated := True\<rparr>
              | Some room \<Rightarrow>
                  let retained = truncate_text text room;
                      r = (if length retained < length text then r\<lparr>op_truncated := True\<rparr> else r)
                  in r\<lparr>op_bytes := op_bytes r + separator + length retained, op_lines := op_lines r @ [retained]\<rparr>))"

text \<open>\<open>continues open line raw_quotes_odd\<close>.\<close>

type_synonym continues = "bytes list \<Rightarrow> bytes \<Rightarrow> bool \<Rightarrow> bool"

section \<open>The tail\<close>

record log_position =
  lp_dev :: u64
  lp_inode :: u64
  lp_offset :: nat

definition default_position :: log_position where
  "default_position = \<lparr>lp_dev = 0, lp_inode = 0, lp_offset = 0\<rparr>"

record tail =
  tt_position :: log_position
  tt_scan_offset :: nat
  tt_partial :: partial_line
  tt_open :: "open_record option"
  tt_staged :: "physical_line option"
  tt_pending_end :: "log_position option"

record tail_batch =
  tb_records :: "log_record list"
  tb_raw_bytes :: usize
  tb_at_eof :: bool
  tb_needs_ack :: bool

datatype tail_error = RecordBoundZero | RawBoundZero | NotAcknowledged | TailIo string

definition Tail_new :: "log_position \<Rightarrow> tail" where
  "Tail_new p = \<lparr>tt_position = p, tt_scan_offset = lp_offset p, tt_partial = PartialLine_new, tt_open = None,
     tt_staged = None, tt_pending_end = None\<rparr>"

definition tail_acknowledge :: "tail \<Rightarrow> log_position option \<times> tail" where
  "tail_acknowledge t =
     (case tt_pending_end t of
        None \<Rightarrow> (None, t)
      | Some p \<Rightarrow> (Some p, t\<lparr>tt_pending_end := None, tt_position := p\<rparr>))"

definition reset_volatile :: "tail \<Rightarrow> tail" where
  "reset_volatile t = t\<lparr>tt_scan_offset := lp_offset (tt_position t), tt_partial := PartialLine_new, tt_open := None,
     tt_staged := None, tt_pending_end := None\<rparr>"

definition tail_retry :: "tail \<Rightarrow> tail" where
  "tail_retry t = reset_volatile t"

definition tail_reset :: "u64 \<Rightarrow> u64 \<Rightarrow> tail \<Rightarrow> tail" where
  "tail_reset dev inode t = reset_volatile (t\<lparr>tt_position := \<lparr>lp_dev = dev, lp_inode = inode, lp_offset = 0\<rparr>\<rparr>)"

text \<open>The records of the batch so far and the candidate position travel with the tail.\<close>

type_synonym progress = "tail \<times> log_record list \<times> nat option"

definition flush_open :: "progress \<Rightarrow> progress" where
  "flush_open s =
     (case s of (t, records, candidate_end) \<Rightarrow>
        (case tt_open t of
           None \<Rightarrow> s
         | Some r \<Rightarrow>
             (t\<lparr>tt_open := None\<rparr>,
              if list_ex (\<lambda>l. l \<noteq> []) (op_lines r)
              then records @ [\<lparr>lr_lines = op_lines r, lr_truncated = op_truncated r\<rparr>] else records,
              Some (op_end r))))"

definition push_to_open :: "physical_line \<Rightarrow> tail \<Rightarrow> tail" where
  "push_to_open line t =
     t\<lparr>tt_open := Some (open_push line (case tt_open t of None \<Rightarrow> OpenRecord_new | Some r \<Rightarrow> r))\<rparr>"

definition accept_line :: "continues \<Rightarrow> usize \<Rightarrow> physical_line \<Rightarrow> progress \<Rightarrow> bool \<times> progress" where
  "accept_line cont max_records line s =
     (case s of (t, records, candidate_end) \<Rightarrow>
        let line_text = (case ph_text line of None \<Rightarrow> [] | Some text \<Rightarrow> text);
            starts_new = (case tt_open t of
                None \<Rightarrow> False
              | Some r \<Rightarrow> \<not> cont (op_lines r) line_text (op_quotes_odd r))
        in if starts_new then
             (case flush_open s of (t, records, candidate_end) \<Rightarrow>
                if length records \<ge> max_records
                then (True, t\<lparr>tt_staged := Some line\<rparr>, records, candidate_end)
                else (False, push_to_open line t, records, candidate_end))
           else (False, push_to_open line t, records, candidate_end))"

section \<open>Reading\<close>

datatype read_call = ReadFails string | ReadAtMost nat

definition memchr :: "u8 \<Rightarrow> bytes \<Rightarrow> nat option" where
  "memchr b bs = (if b \<in> set bs then Some (length (takeWhile (\<lambda>x. x \<noteq> b) bs)) else None)"

lemma memchr_less: "memchr b bs = Some i \<Longrightarrow> i < length bs"
proof -
  have "b \<in> set bs \<Longrightarrow> length (takeWhile (\<lambda>x. x \<noteq> b) bs) < length bs" by (induction bs) auto
  then show "memchr b bs = Some i \<Longrightarrow> i < length bs" by (auto simp: memchr_def split: if_splits)
qed

text \<open>The inner loop over the bytes of one \<open>read\<close>; the flag is \<open>stop\<close>.\<close>

function scan_chunk :: "continues \<Rightarrow> bool \<Rightarrow> usize \<Rightarrow> bytes \<Rightarrow> progress \<Rightarrow> bool \<times> progress" where
  "scan_chunk cont track max_records chunk s =
     (if chunk = [] then (False, s)
      else case s of (t, records, candidate_end) \<Rightarrow>
        (case memchr 10 chunk of
           None \<Rightarrow>
             (False, t\<lparr>tt_partial := partial_push chunk track (tt_partial t),
                       tt_scan_offset := saturating_add_u64 (tt_scan_offset t) (length chunk)\<rparr>, records, candidate_end)
         | Some end_at \<Rightarrow>
             let before_newline = take end_at chunk;
                 scan_offset = saturating_add_u64 (tt_scan_offset t) (length before_newline + 1);
                 (line, fresh) = partial_finish scan_offset (partial_push before_newline track (tt_partial t));
                 (stop, s) = accept_line cont max_records line
                   (t\<lparr>tt_partial := fresh, tt_scan_offset := scan_offset\<rparr>, records, candidate_end)
             in if stop then (True, s) else scan_chunk cont track max_records (drop (end_at + 1) chunk) s))"
  by pat_completeness auto
termination
  by (relation "measure (\<lambda>(cont, track, max_records, chunk, s). length chunk)") auto

declare scan_chunk.simps [simp del]

text \<open>\<open>file.read\<close> at the file's cursor; without a scheduled outcome it fills the buffer.\<close>

definition file_read :: "bytes \<Rightarrow> nat \<Rightarrow> nat \<Rightarrow> read_call list \<Rightarrow> (tail_error + bytes) \<times> read_call list" where
  "file_read content cursor want calls =
     (case calls of
        [] \<Rightarrow> (Ok (take want (drop cursor content)), [])
      | ReadFails e # calls \<Rightarrow> (Err (TailIo e), calls)
      | ReadAtMost n # calls \<Rightarrow> (Ok (take (min n want) (drop cursor content)), calls))"

text \<open>The outer loop; \<open>cursor\<close> is the cursor of the opened file.\<close>

function scan_loop ::
  "continues \<Rightarrow> bool \<Rightarrow> usize \<Rightarrow> usize \<Rightarrow> bytes \<Rightarrow> nat \<Rightarrow> nat \<Rightarrow> read_call list \<Rightarrow> bool \<Rightarrow> usize \<Rightarrow> progress \<Rightarrow>
     (tail_error + usize \<times> progress) \<times> tail" where
  "scan_loop cont track max_records raw_limit content len cursor calls stop raw_bytes s =
     (if \<not> stop \<and> raw_bytes < raw_limit \<and> tt_scan_offset (fst s) < len then
        let want = min (min READ_BUF_BYTES (raw_limit - raw_bytes)) (len - tt_scan_offset (fst s)) in
        (case file_read content cursor want calls of
           (Err e, calls) \<Rightarrow> (Err e, fst s)
         | (Ok chunk, calls) \<Rightarrow>
             if chunk = [] then (Ok (raw_bytes, s), fst s)
             else (case scan_chunk cont track max_records chunk s of (stop, s) \<Rightarrow>
               scan_loop cont track max_records raw_limit content len (cursor + length chunk) calls stop
                 (raw_bytes + length chunk) s))
      else (Ok (raw_bytes, s), fst s))"
  by pat_completeness auto
termination
  by (relation "measure (\<lambda>(cont, track, max_records, raw_limit, content, len, cursor, calls, stop, raw_bytes, s).
      raw_limit - raw_bytes)") (auto intro!: diff_less_mono2)

declare scan_loop.simps [simp del]

text \<open>The end of the file closes an open record that an empty line would not continue.\<close>

definition flush_at_eof :: "continues \<Rightarrow> usize \<Rightarrow> nat \<Rightarrow> progress \<Rightarrow> progress" where
  "flush_at_eof cont max_records len s =
     (case s of (t, records, candidate_end) \<Rightarrow>
        if tt_scan_offset t \<ge> len \<and> length records < max_records \<and> tt_staged t = None \<and>
           partial_is_empty (tt_partial t) \<and>
           (case tt_open t of None \<Rightarrow> False | Some r \<Rightarrow> \<not> cont (op_lines r) [] (op_quotes_odd r))
        then flush_open s else s)"

definition scan_staged :: "continues \<Rightarrow> usize \<Rightarrow> tail \<Rightarrow> progress" where
  "scan_staged cont max_records t =
     (case tt_staged t of
        None \<Rightarrow> (t, [], None)
      | Some line \<Rightarrow> snd (accept_line cont max_records line (t\<lparr>tt_staged := None\<rparr>, [], None)))"

definition scan_end :: "nat \<Rightarrow> usize \<Rightarrow> progress \<Rightarrow> tail_batch \<times> tail" where
  "scan_end len raw_bytes s =
     (case s of (t, records, candidate_end) \<Rightarrow>
        let t = (case candidate_end of
                   None \<Rightarrow> t
                 | Some offset \<Rightarrow> t\<lparr>tt_pending_end := Some ((tt_position t)\<lparr>lp_offset := offset\<rparr>)\<rparr>)
        in (\<lparr>tb_records = records, tb_raw_bytes = raw_bytes,
             tb_at_eof = (tt_scan_offset t \<ge> len \<and> tt_staged t = None),
             tb_needs_ack = (tt_pending_end t \<noteq> None)\<rparr>, t))"

definition tail_scan ::
  "continues \<Rightarrow> bool \<Rightarrow> usize \<Rightarrow> usize \<Rightarrow> bytes \<Rightarrow> nat \<Rightarrow> read_call list \<Rightarrow> tail \<Rightarrow> (tail_error + tail_batch) \<times> tail" where
  "tail_scan cont track max_records raw_limit content cursor calls t =
     (let s = scan_staged cont max_records t;
          stop = (fst (snd s) \<noteq> [] \<and> length (fst (snd s)) \<ge> max_records)
      in case scan_loop cont track max_records raw_limit content (length content) cursor calls stop 0 s of
           (Err e, t) \<Rightarrow> (Err e, t)
         | (Ok (raw_bytes, s), _) \<Rightarrow>
             (case scan_end (length content) raw_bytes (flush_at_eof cont max_records (length content) s) of
                (batch, t) \<Rightarrow> (Ok batch, t)))"

record followed_file =
  ff_dev :: u64
  ff_inode :: u64
  ff_content :: bytes

record tail_calls =
  tc_open :: "string option"
  tc_seek :: "string option"
  tc_reads :: "read_call list"

definition read_batch_configured ::
  "continues \<Rightarrow> usize \<Rightarrow> usize \<Rightarrow> bool \<Rightarrow> followed_file \<Rightarrow> tail_calls \<Rightarrow> tail \<Rightarrow> (tail_error + tail_batch) \<times> tail" where
  "read_batch_configured cont max_records raw_limit track f io t =
     (if max_records = 0 then (Err RecordBoundZero, t)
      else if raw_limit = 0 then (Err RawBoundZero, t)
      else if tt_pending_end t \<noteq> None then (Err NotAcknowledged, t)
      else case tc_open io of
        Some e \<Rightarrow> (Err (TailIo e), t)
      | None \<Rightarrow>
          let len = length (ff_content f);
              t = (if ff_dev f \<noteq> lp_dev (tt_position t) \<or> ff_inode f \<noteq> lp_inode (tt_position t) \<or>
                      len < tt_scan_offset t
                   then tail_reset (ff_dev f) (ff_inode f) t else t)
          in (case tc_seek io of
                Some e \<Rightarrow> (Err (TailIo e), t)
              | None \<Rightarrow>
                  (case tail_scan cont track max_records raw_limit (ff_content f) (tt_scan_offset t) (tc_reads io) t of
                     (Ok batch, t) \<Rightarrow> (Ok batch, t)
                   | (Err e, t) \<Rightarrow> (Err e, reset_volatile t))))"

definition read_batch ::
  "continues \<Rightarrow> usize \<Rightarrow> followed_file \<Rightarrow> tail_calls \<Rightarrow> tail \<Rightarrow> (tail_error + tail_batch) \<times> tail" where
  "read_batch cont max_records = read_batch_configured cont max_records MAX_READ_BYTES True"

definition read_batch_without_quote_tracking ::
  "continues \<Rightarrow> usize \<Rightarrow> followed_file \<Rightarrow> tail_calls \<Rightarrow> tail \<Rightarrow> (tail_error + tail_batch) \<times> tail" where
  "read_batch_without_quote_tracking cont max_records = read_batch_configured cont max_records MAX_READ_BYTES False"

end
