(* ===== verification/Log_Tail_Props.thy ===== *)
theory Log_Tail_Props
  imports Log_Tail
begin

text \<open>
  What the tail delivers: the acknowledged records of a file are an exact grouping of its first
  \<open>offset\<close> bytes into logical records, whatever the batches, short reads, failures, retries, restarts
  and growth in between.
\<close>

section \<open>Lines and records of raw bytes\<close>

definition partial_of :: "bool \<Rightarrow> bytes \<Rightarrow> partial_line" where
  "partial_of track bs =
     \<lparr>pl_bytes = take MAX_LINE_BYTES bs, pl_truncated = (length bs > MAX_LINE_BYTES),
      pl_quotes_odd = (track \<and> quote_parity bs)\<rparr>"

definition line_of :: "bool \<Rightarrow> nat \<Rightarrow> bytes \<Rightarrow> physical_line" where
  "line_of track end_at bs = fst (partial_finish end_at (partial_of track bs))"

definition unlines :: "bytes list \<Rightarrow> bytes" where
  "unlines g = concat (map (\<lambda>l. l @ [10]) g)"

fun open_from :: "bool \<Rightarrow> open_record \<Rightarrow> nat \<Rightarrow> bytes list \<Rightarrow> open_record" where
  "open_from track r at [] = r"
| "open_from track r at (l # ls) =
     open_from track (open_push (line_of track (at + length l + 1) l) r) (at + length l + 1) ls"

definition open_of :: "bool \<Rightarrow> nat \<Rightarrow> bytes list \<Rightarrow> open_record" where
  "open_of track at g = open_from track OpenRecord_new at g"

text \<open>Whether a raw line continues the record of the lines \<open>g\<close>.\<close>

definition line_said :: "bytes \<Rightarrow> bytes option" where
  "line_said l = ph_text (line_of False 0 l)"

definition line_cut :: "bytes \<Rightarrow> bool" where
  "line_cut l = ph_truncated (line_of False 0 l)"

definition line_text :: "bytes \<Rightarrow> bytes" where
  "line_text l = (case line_said l of None \<Rightarrow> [] | Some text \<Rightarrow> text)"

definition continues_with :: "continues \<Rightarrow> bool \<Rightarrow> bytes list \<Rightarrow> bytes \<Rightarrow> bool" where
  "continues_with cont track g text = cont (op_lines (open_of track 0 g)) text (op_quotes_odd (open_of track 0 g))"

fun chain_from :: "continues \<Rightarrow> bool \<Rightarrow> bytes list \<Rightarrow> bytes list \<Rightarrow> bool" where
  "chain_from cont track p [] = True"
| "chain_from cont track p (l # ls) =
     ((p \<noteq> [] \<longrightarrow> continues_with cont track p (line_text l)) \<and> chain_from cont track (p @ [l]) ls)"

text \<open>
  A record ends where the next line does not continue it, or where an empty line would not; the latter
  happens at the end of the file as it was then.
\<close>

definition ended :: "continues \<Rightarrow> bool \<Rightarrow> bytes list \<Rightarrow> bytes \<Rightarrow> bool" where
  "ended cont track g rest \<longleftrightarrow> \<not> continues_with cont track g [] \<or>
     10 \<in> set rest \<and> \<not> continues_with cont track g (line_text (takeWhile (\<lambda>b. b \<noteq> 10) rest))"

fun grouped :: "continues \<Rightarrow> bool \<Rightarrow> bytes \<Rightarrow> bytes list list \<Rightarrow> bool" where
  "grouped cont track c [] = True"
| "grouped cont track c (g # gs) =
     (g \<noteq> [] \<and> (\<forall>l \<in> set g. 10 \<notin> set l) \<and> chain_from cont track [] g \<and>
      take (length (unlines g)) c = unlines g \<and> ended cont track g (drop (length (unlines g)) c) \<and>
      grouped cont track (drop (length (unlines g)) c) gs)"

definition records_of :: "bool \<Rightarrow> bytes list \<Rightarrow> log_record list" where
  "records_of track g =
     (if list_ex (\<lambda>l. l \<noteq> []) (op_lines (open_of track 0 g))
      then [\<lparr>lr_lines = op_lines (open_of track 0 g), lr_truncated = op_truncated (open_of track 0 g)\<rparr>] else [])"

section \<open>Their laws\<close>

lemma quote_parity_append: "quote_parity (a @ b) \<longleftrightarrow> (quote_parity a \<noteq> quote_parity b)"
  by (simp add: quote_parity_def) presburger

lemma partial_of_Nil [simp]: "partial_of track [] = PartialLine_new"
  by (simp add: partial_of_def PartialLine_new_def quote_parity_def)

lemma partial_of_empty [simp]: "partial_is_empty (partial_of track bs) \<longleftrightarrow> bs = []"
  by (auto simp: partial_is_empty_def partial_of_def MAX_LINE_BYTES_def)

lemma partial_new_empty [simp]: "partial_is_empty PartialLine_new"
  by (simp add: partial_is_empty_def PartialLine_new_def)

lemma partial_push_of [simp]: "partial_push chunk track (partial_of track bs) = partial_of track (bs @ chunk)"
  by (auto simp: partial_push_def partial_of_def quote_parity_append Let_def min_def)

lemma partial_finish_fresh: "partial_finish end_at p = (fst (partial_finish end_at p), PartialLine_new)"
  by (simp add: partial_finish_def Let_def)

lemma partial_finish_of: "partial_finish end_at (partial_of track bs) = (line_of track end_at bs, PartialLine_new)"
  by (subst partial_finish_fresh) (simp add: line_of_def)

lemma line_of_fields [simp]:
  "ph_end (line_of track at bs) = at"
  "ph_text (line_of track at bs) = line_said bs"
  "ph_truncated (line_of track at bs) = line_cut bs"
  "ph_quotes_odd (line_of track at bs) = (track \<and> quote_parity bs)"
  by (simp_all add: line_said_def line_cut_def line_of_def partial_finish_def partial_of_def Let_def)

lemma takeWhile_line: "b \<notin> set l \<Longrightarrow> takeWhile (\<lambda>x. x \<noteq> b) (l @ b # rest) = l"
  by (induction l) auto

lemma take_glue:
  assumes "take (length a) c = a" and "take (length b) (drop (length a) c) = b"
  shows "take (length (a @ b)) c = a @ b"
  using assms by (simp add: take_add)

lemma take_glueD:
  assumes "take (length (a @ b)) c = a @ b"
  shows "take (length a) c = a" and "take (length b) (drop (length a) c) = b"
proof -
  show "take (length a) c = a" using arg_cong [OF assms, of "take (length a)"] by simp
  show "take (length b) (drop (length a) c) = b"
    using arg_cong [OF assms, of "drop (length a)"] by (simp add: drop_take)
qed

lemma unlines_simps [simp]:
  "unlines [] = []" "unlines (l # g) = l @ 10 # unlines g" "unlines (g @ h) = unlines g @ unlines h"
  by (simp_all add: unlines_def)

lemma open_push_end:
  "open_push line (r\<lparr>op_end := x\<rparr>) = (open_push (line\<lparr>ph_end := e\<rparr>) (r\<lparr>op_end := y\<rparr>))\<lparr>op_end := ph_end line\<rparr>"
proof (cases "ph_text line")
  case None
  then show ?thesis by (simp add: open_push_def)
next
  case (Some bs)
  show ?thesis
    by (cases "Option.bind (checked_sub_usize MAX_LINE_BYTES (op_bytes r))
          (\<lambda>room. checked_sub_usize room (if op_lines r = [] then 0 else 1))")
      (simp_all add: open_push_def Some Let_def)
qed

lemma line_of_at: "(line_of track at l)\<lparr>ph_end := at'\<rparr> = line_of track at' l"
  by (simp add: line_of_def partial_finish_def Let_def)

lemma open_push_at:
  "open_push (line_of track at l) (r\<lparr>op_end := x\<rparr>) = (open_push (line_of track at' l) (r\<lparr>op_end := y\<rparr>))\<lparr>op_end := at\<rparr>"
  using open_push_end [where line = "line_of track at l" and r = r and x = x and e = at' and y = y] by (simp add: line_of_at)

lemma open_from_at:
  "open_from track (r\<lparr>op_end := x\<rparr>) at g =
     (open_from track (r\<lparr>op_end := y\<rparr>) at' g)\<lparr>op_end := (if g = [] then x else at + length (unlines g))\<rparr>"
proof (induction g arbitrary: r x y at at')
  case (Cons l ls)
  let ?r = "open_push (line_of track (at' + length l + 1) l) (r\<lparr>op_end := y\<rparr>)"
  have "open_push (line_of track (at + length l + 1) l) (r\<lparr>op_end := x\<rparr>) = ?r\<lparr>op_end := at + length l + 1\<rparr>"
    by (rule open_push_at)
  moreover have "?r = ?r\<lparr>op_end := op_end ?r\<rparr>" by simp
  ultimately show ?case
    using Cons.IH [where r = ?r and x = "at + length l + 1" and at = "at + length l + 1" and y = "op_end ?r" and at' = "at' + length l + 1"] by (simp add: ac_simps)
qed simp

lemma open_of_at:
  "g \<noteq> [] \<Longrightarrow> open_of track at g = (open_of track 0 g)\<lparr>op_end := at + length (unlines g)\<rparr>"
  using open_from_at [where track = track and r = OpenRecord_new and x = 0 and at = at and g = g and y = 0 and at' = 0] by (simp add: open_of_def OpenRecord_new_def)

lemma open_from_snoc:
  "open_from track r at (g @ [l]) =
     open_push (line_of track (at + length (unlines g) + length l + 1) l) (open_from track r at g)"
  by (induction g arbitrary: r at) (simp_all add: ac_simps)

lemma open_of_snoc:
  "open_of track at (g @ [l]) = open_push (line_of track (at + length (unlines g) + length l + 1) l) (open_of track at g)"
  by (simp add: open_of_def open_from_snoc)

lemma open_of_parts:
  assumes "g \<noteq> []"
  shows "op_lines (open_of track at g) = op_lines (open_of track 0 g)"
    and "op_quotes_odd (open_of track at g) = op_quotes_odd (open_of track 0 g)"
    and "op_truncated (open_of track at g) = op_truncated (open_of track 0 g)"
    and "op_end (open_of track at g) = at + length (unlines g)"
  by (simp_all only: open_of_at [OF assms, of track at]) simp_all

lemma chain_from_append:
  "chain_from cont track p (xs @ ys) \<longleftrightarrow> chain_from cont track p xs \<and> chain_from cont track (p @ xs) ys"
  by (induction xs arbitrary: p) auto

lemma grouped_append:
  "grouped cont track c (gs @ hs) \<longleftrightarrow>
     grouped cont track c gs \<and> grouped cont track (drop (length (unlines (concat gs))) c) hs"
  by (induction gs arbitrary: c) (auto simp: add.commute)

lemma ended_grow: "ended cont track g rest \<Longrightarrow> ended cont track g (rest @ x)"
  by (auto simp: ended_def takeWhile_append1)

lemma grouped_grow: "grouped cont track c gs \<Longrightarrow> grouped cont track (c @ x) gs"
proof (induction gs arbitrary: c)
  case (Cons g gs)
  have len: "length (unlines g) \<le> length c" using Cons.prems by (metis grouped.simps(2) length_take min.bounded_iff order_refl)
  have "grouped cont track (drop (length (unlines g)) c @ x) gs" using Cons by simp
  moreover have "ended cont track g (drop (length (unlines g)) c @ x)" using Cons.prems by (intro ended_grow) simp
  ultimately show ?case using Cons.prems len by simp
qed simp

section \<open>The state of a scan\<close>

text \<open>
  From the position \<open>p0\<close> on, the scan has flushed the groups \<open>gs\<close>, holds the lines \<open>op\<close> open, perhaps one
  line staged, and the bytes \<open>part\<close> of an unfinished line.
\<close>

definition staged_bytes :: "bytes option \<Rightarrow> bytes" where
  "staged_bytes st = (case st of None \<Rightarrow> [] | Some l \<Rightarrow> l @ [10])"

definition scan_state ::
  "continues \<Rightarrow> bool \<Rightarrow> bytes \<Rightarrow> nat \<Rightarrow> usize \<Rightarrow> bytes list list \<Rightarrow> bytes list \<Rightarrow> bytes option \<Rightarrow> bytes \<Rightarrow> progress \<Rightarrow> bool" where
  "scan_state cont track c p0 max_records gs op st part s \<longleftrightarrow>
     (case s of (t, records, candidate_end) \<Rightarrow>
        let seen = unlines (concat gs) @ unlines op @ staged_bytes st @ part in
        tt_scan_offset t = p0 + length seen \<and> p0 \<le> length c \<and>
        take (length seen) (drop p0 c) = seen \<and>
        grouped cont track (drop p0 c) gs \<and>
        tt_open t = (if op = [] then None else Some (open_of track (p0 + length (unlines (concat gs))) op)) \<and>
        chain_from cont track [] op \<and> (\<forall>l \<in> set op. 10 \<notin> set l) \<and>
        tt_staged t = map_option (line_of track (tt_scan_offset t)) st \<and>
        (st \<noteq> None \<longrightarrow> op = [] \<and> part = [] \<and> 10 \<notin> set (the st)) \<and>
        tt_partial t = partial_of track part \<and> 10 \<notin> set part \<and>
        records = concat (map (records_of track) gs) \<and> (st = None \<longrightarrow> length records < max_records) \<and>
        candidate_end = (if gs = [] then None else Some (p0 + length (unlines (concat gs)))))"

lemma open_of_Nil [simp]: "open_of track at [] = OpenRecord_new"
  by (simp add: open_of_def)

lemma scan_stateI:
  assumes "tt_scan_offset t = p0 + length (unlines (concat gs) @ unlines op @ staged_bytes st @ part)" and "p0 \<le> length c"
    and "take (length (unlines (concat gs) @ unlines op @ staged_bytes st @ part)) (drop p0 c) =
      unlines (concat gs) @ unlines op @ staged_bytes st @ part"
    and "grouped cont track (drop p0 c) gs"
    and "tt_open t = (if op = [] then None else Some (open_of track (p0 + length (unlines (concat gs))) op))"
    and "chain_from cont track [] op" and "\<forall>l \<in> set op. 10 \<notin> set l"
    and "tt_staged t = map_option (line_of track (tt_scan_offset t)) st"
    and "st \<noteq> None \<longrightarrow> op = [] \<and> part = [] \<and> 10 \<notin> set (the st)"
    and "tt_partial t = partial_of track part" and "10 \<notin> set part"
    and "records = concat (map (records_of track) gs)" and "st = None \<longrightarrow> length records < max_records"
    and "cand = (if gs = [] then None else Some (p0 + length (unlines (concat gs))))"
  shows "scan_state cont track c p0 max_records gs op st part (t, records, cand)"
  using assms unfolding scan_state_def Let_def prod.case by blast

lemma scan_stateD:
  assumes "scan_state cont track c p0 max_records gs op st part (t, records, cand)"
  shows "tt_scan_offset t = p0 + length (unlines (concat gs) @ unlines op @ staged_bytes st @ part)" and "p0 \<le> length c"
    and "take (length (unlines (concat gs) @ unlines op @ staged_bytes st @ part)) (drop p0 c) =
      unlines (concat gs) @ unlines op @ staged_bytes st @ part"
    and "grouped cont track (drop p0 c) gs"
    and "tt_open t = (if op = [] then None else Some (open_of track (p0 + length (unlines (concat gs))) op))"
    and "chain_from cont track [] op" and "\<forall>l \<in> set op. 10 \<notin> set l"
    and "tt_staged t = map_option (line_of track (tt_scan_offset t)) st"
    and "st \<noteq> None \<longrightarrow> op = [] \<and> part = [] \<and> 10 \<notin> set (the st)"
    and "tt_partial t = partial_of track part" and "10 \<notin> set part"
    and "records = concat (map (records_of track) gs)" and "st = None \<longrightarrow> length records < max_records"
    and "cand = (if gs = [] then None else Some (p0 + length (unlines (concat gs))))"
  using assms unfolding scan_state_def Let_def prod.case by blast+

lemma staged_bytes_simps [simp]: "staged_bytes None = []" "staged_bytes (Some l) = l @ [10]"
  by (simp_all add: staged_bytes_def)

text \<open>A flush moves the open lines to the groups.\<close>

lemma flush_open_some:
  assumes "tt_open t = Some (open_of track at op)" and "op \<noteq> []"
  shows "flush_open (t, records, cand) = (t\<lparr>tt_open := None\<rparr>, records @ records_of track op, Some (at + length (unlines op)))"
  using assms(1) by (simp add: flush_open_def records_of_def open_of_parts [OF assms(2), of track at])

lemma grouped_snoc:
  assumes "grouped cont track c gs" and "op \<noteq> []" and "\<forall>l \<in> set op. 10 \<notin> set l" and "chain_from cont track [] op"
    and "take (length (unlines (concat gs) @ unlines op)) c = unlines (concat gs) @ unlines op"
    and "ended cont track op (drop (length (unlines (concat gs) @ unlines op)) c)"
  shows "grouped cont track c (gs @ [op])"
proof -
  note take_glueD(2) [OF assms(5)]
  then show ?thesis using assms by (simp add: grouped_append add.commute)
qed

lemma accept_line_state:
  assumes state: "scan_state cont track c p0 max_records gs op None [] (t, records, cand)"
    and room: "take (length l + 1) (drop (tt_scan_offset t) c) = l @ [10]" and nonl: "10 \<notin> set l"
    and t': "t' = t\<lparr>tt_scan_offset := tt_scan_offset t + length l + 1\<rparr>"
    and run: "accept_line cont max_records (line_of track (tt_scan_offset t + length l + 1) l) (t', records, cand) = (stop, s)"
  shows "\<exists>gs' op' st'. scan_state cont track c p0 max_records gs' op' st' [] s \<and> (stop \<longleftrightarrow> st' \<noteq> None) \<and>
    tt_scan_offset (fst s) = tt_scan_offset t + length l + 1 \<and> tt_position (fst s) = tt_position t \<and>
    tt_pending_end (fst s) = tt_pending_end t"
proof -
  let ?at = "p0 + length (unlines (concat gs))"
  let ?fin = "tt_scan_offset t + length l + 1"
  let ?seen = "unlines (concat gs) @ unlines op"
  note st = scan_stateD [OF state]
  have off: "tt_scan_offset t = ?at + length (unlines op)" using st(1) by simp
  have seen: "take (length (?seen @ l @ [10])) (drop p0 c) = ?seen @ l @ [10]"
    using take_glue [of ?seen "drop p0 c" "l @ [10]"] st(3) room by (simp add: off ac_simps)
  have said: "(case line_said l of None \<Rightarrow> [] | Some t \<Rightarrow> t) = line_text l"
    by (simp add: line_text_def)
  let ?new = "op \<noteq> [] \<and> \<not> continues_with cont track op (line_text l)"
  have new: "(case tt_open t' of None \<Rightarrow> False | Some r \<Rightarrow> \<not> cont (op_lines r) (line_text l) (op_quotes_odd r)) \<longleftrightarrow> ?new"
  proof (cases "op = []")
    case False
    show ?thesis using False unfolding continues_with_def by (simp add: t' st(5) open_of_parts(1,2) [OF False, of track ?at])
  qed (simp add: t' st(5))
  show ?thesis
  proof (cases ?new)
    case False
    have "(stop, s) = (False, push_to_open (line_of track ?fin l) t', records, cand)"
      using run False new by (simp add: accept_line_def said)
    moreover have "push_to_open (line_of track ?fin l) t' = t'\<lparr>tt_open := Some (open_of track ?at (op @ [l]))\<rparr>"
      by (simp add: push_to_open_def t' st(5) open_of_snoc off)
    ultimately have s: "stop = False" "s = (t'\<lparr>tt_open := Some (open_of track ?at (op @ [l]))\<rparr>, records, cand)" by simp_all
    have "scan_state cont track c p0 max_records gs (op @ [l]) None [] s"
      unfolding s(2)
    proof (rule scan_stateI)
      show "chain_from cont track [] (op @ [l])" using st(6) False by (auto simp: chain_from_append)
    qed (use st seen nonl in \<open>simp_all add: t' off\<close>)
    then show ?thesis using s by (intro exI [of _ gs] exI [of _ "op @ [l]"] exI [of _ None]) (simp add: t')
  next
    case True
    have rest: "drop (length ?seen) (drop p0 c) = l @ 10 # drop (length l + 1) (drop (tt_scan_offset t) c)"
      using append_take_drop_id [of "length l + 1" "drop (tt_scan_offset t) c"] unfolding room by (simp add: off ac_simps)
    have "ended cont track op (drop (length ?seen) (drop p0 c))"
      unfolding rest using True by (simp add: ended_def takeWhile_line [OF nonl])
    then have grp: "grouped cont track (drop p0 c) (gs @ [op])"
      using st True by (intro grouped_snoc) auto
    have recs: "concat (map (records_of track) (gs @ [op])) = records @ records_of track op" using st(12) by simp
    have flush: "flush_open (t', records, cand) =
        (t'\<lparr>tt_open := None\<rparr>, records @ records_of track op, Some (?at + length (unlines op)))"
      using True by (intro flush_open_some) (simp_all add: t' st(5))
    show ?thesis
    proof (cases "max_records \<le> length (records @ records_of track op)")
      case full: True
      have s: "stop = True" "s = (t'\<lparr>tt_open := None, tt_staged := Some (line_of track ?fin l)\<rparr>, records @ records_of track op,
          Some (?at + length (unlines op)))"
        using run True new flush full by (simp_all add: accept_line_def said)
      have "scan_state cont track c p0 max_records (gs @ [op]) [] (Some l) [] s"
        unfolding s(2) by (rule scan_stateI) (use st seen nonl grp recs in \<open>simp_all add: t' off\<close>)
      then show ?thesis using s by (intro exI [of _ "gs @ [op]"] exI [of _ "[]"] exI [of _ "Some l"]) (simp add: t')
    next
      case False
      have "push_to_open (line_of track ?fin l) (t'\<lparr>tt_open := None\<rparr>) =
          t'\<lparr>tt_open := Some (open_of track (p0 + length (unlines (concat (gs @ [op])))) [l])\<rparr>"
        using open_of_snoc [of track "p0 + length (unlines (concat (gs @ [op])))" "[]" l]
        by (simp add: push_to_open_def t' off add.assoc)
      then have s: "stop = False"
        "s = (t'\<lparr>tt_open := Some (open_of track (p0 + length (unlines (concat (gs @ [op])))) [l])\<rparr>, records @ records_of track op,
          Some (?at + length (unlines op)))"
        using run True new flush False by (simp_all add: accept_line_def said)
      have "scan_state cont track c p0 max_records (gs @ [op]) [l] None [] s"
        unfolding s(2) by (rule scan_stateI) (use st seen nonl grp recs False in \<open>simp_all add: t' off\<close>)
      then show ?thesis using s by (intro exI [of _ "gs @ [op]"] exI [of _ "[l]"] exI [of _ None]) (simp add: t')
    qed
  qed
qed

lemma memchr_Some:
  assumes "memchr b bs = Some e"
  shows "bs = take e bs @ b # drop (e + 1) bs" and "b \<notin> set (take e bs)" and "take (e + 1) bs = take e bs @ [b]"
proof -
  have e: "e = length (takeWhile (\<lambda>x. x \<noteq> b) bs)" "b \<in> set bs" using assms by (auto simp: memchr_def split: if_splits)
  obtain pre rest where split: "bs = pre @ b # rest" "b \<notin> set pre" using split_list_first [OF e(2)] by blast
  then have "e = length pre" using e(1) takeWhile_line [OF split(2)] by simp
  then show "bs = take e bs @ b # drop (e + 1) bs" and "b \<notin> set (take e bs)" and "take (e + 1) bs = take e bs @ [b]"
    using split by simp_all
qed

text \<open>A line whose first bytes were already in the partial line is accepted like a fresh one.\<close>

lemma drop_partial:
  assumes "scan_state cont track c p0 max_records gs op None part (t, records, cand)"
  shows "scan_state cont track c p0 max_records gs op None []
    (t\<lparr>tt_partial := PartialLine_new, tt_scan_offset := tt_scan_offset t - length part\<rparr>, records, cand)"
    and "length part \<le> tt_scan_offset t" and "take (length part) (drop (tt_scan_offset t - length part) c) = part"
proof -
  note st = scan_stateD [OF assms]
  have split: "take (length ((unlines (concat gs) @ unlines op) @ part)) (drop p0 c) = (unlines (concat gs) @ unlines op) @ part"
    using st(3) by simp
  note parts = take_glueD [OF split]
  show "length part \<le> tt_scan_offset t" using st(1) by simp
  show "take (length part) (drop (tt_scan_offset t - length part) c) = part"
    using parts(2) st(1) by (simp add: ac_simps)
  show "scan_state cont track c p0 max_records gs op None []
    (t\<lparr>tt_partial := PartialLine_new, tt_scan_offset := tt_scan_offset t - length part\<rparr>, records, cand)"
    by (rule scan_stateI) (use st parts(1) in simp_all)
qed

lemma scan_chunk_state:
  assumes "scan_state cont track c p0 max_records gs op None part s"
    and "take (length chunk) (drop (tt_scan_offset (fst s)) c) = chunk" and "length c < 2 ^ 64"
    and "scan_chunk cont track max_records chunk s = (stop, s')"
  shows "\<exists>gs' op' st' part'. scan_state cont track c p0 max_records gs' op' st' part' s' \<and> (stop \<longleftrightarrow> st' \<noteq> None) \<and>
    (\<not> stop \<longrightarrow> tt_scan_offset (fst s') = tt_scan_offset (fst s) + length chunk) \<and>
    tt_position (fst s') = tt_position (fst s) \<and> tt_pending_end (fst s') = tt_pending_end (fst s)"
  using assms
proof (induction "length chunk" arbitrary: chunk s gs op part rule: less_induct)
  case less
  obtain t records cand where s: "s = (t, records, cand)" by (cases s)
  let ?off = "tt_scan_offset t"
  note st = scan_stateD [OF less.prems(1) [unfolded s]]
  have fits: "?off + length chunk \<le> length c" if "chunk \<noteq> []"
  proof -
    have "min (length c - ?off) (length chunk) = length chunk"
      using arg_cong [OF less.prems(2), of length] by (simp add: s)
    moreover have "0 < length chunk" using that by simp
    ultimately show ?thesis by linarith
  qed
  show ?case
  proof (cases "chunk = []")
    case True
    then show ?thesis using less.prems by (auto simp: scan_chunk.simps [of _ _ _ "[]"] intro!: exI)
  next
    case False
    note fits = fits [OF False]
    show ?thesis
    proof (cases "memchr 10 chunk")
      case None
      then have no: "10 \<notin> set chunk" by (auto simp: memchr_def split: if_splits)
      have s': "stop = False" "s' = (t\<lparr>tt_partial := partial_of track (part @ chunk), tt_scan_offset := ?off + length chunk\<rparr>, records, cand)"
        using less.prems(3,4) False None fits st(10)
        by (simp_all add: s scan_chunk.simps [of _ _ _ chunk] saturating_add_u64_def)
      have glue: "take (length ((unlines (concat gs) @ unlines op @ part) @ chunk)) (drop p0 c) = (unlines (concat gs) @ unlines op @ part) @ chunk"
        using st(1,3) less.prems(2) by (rule_tac take_glue) (simp_all add: s ac_simps)
      have "scan_state cont track c p0 max_records gs op None (part @ chunk) s'"
        unfolding s'(2) by (rule scan_stateI) (use st no glue in simp_all)
      then show ?thesis using s' by (intro exI [of _ gs] exI [of _ op] exI [of _ None] exI [of _ "part @ chunk"]) (simp add: s)
    next
      case (Some e)
      let ?b = "take e chunk" and ?rest = "drop (e + 1) chunk"
      let ?t0 = "t\<lparr>tt_partial := PartialLine_new, tt_scan_offset := ?off - length part\<rparr>"
      let ?t' = "t\<lparr>tt_partial := PartialLine_new, tt_scan_offset := ?off + length ?b + 1\<rparr>"
      note chunk = memchr_Some [OF Some]
      note e = memchr_less [OF Some]
      note prior = drop_partial [OF less.prems(1) [unfolded s]]
      obtain stop1 s1 where acc: "accept_line cont max_records (line_of track (?off + length ?b + 1) (part @ ?b)) (?t', records, cand) = (stop1, s1)"
        by (rule prod.exhaust)
      have sat: "saturating_add_u64 ?off (e + 1) = ?off + e + 1"
        using fits e less.prems(3) by (simp add: saturating_add_u64_def min_def)
      have go: "(stop, s') = (if stop1 then (True, s1) else scan_chunk cont track max_records ?rest s1)"
        using less.prems(4) False Some e st(10) acc
        by (simp add: s scan_chunk.simps [of _ _ _ chunk] sat Let_def partial_finish_of del: One_nat_def)
      have "take (length (?b @ [10])) (drop ?off c) = ?b @ [10]"
        using arg_cong [OF less.prems(2) [unfolded s fst_conv], of "take (e + 1)"] e chunk(1)
        using chunk(3) by simp
      with prior(2,3) have room: "take (length (part @ ?b) + 1) (drop (tt_scan_offset ?t0) c) = (part @ ?b) @ [10]"
        using take_glue [of part "drop (?off - length part) c" "?b @ [10]"] by simp
      have same: "tt_scan_offset ?t0 + length (part @ ?b) + 1 = ?off + length ?b + 1" using prior(2) by simp
      from accept_line_state [OF prior(1) room _ refl, unfolded same, of stop1 s1] acc st(11) chunk(2)
      obtain gs1 op1 st1 where s1: "scan_state cont track c p0 max_records gs1 op1 st1 [] s1" "stop1 \<longleftrightarrow> st1 \<noteq> None"
        "tt_scan_offset (fst s1) = ?off + length ?b + 1" "tt_position (fst s1) = tt_position t"
        "tt_pending_end (fst s1) = tt_pending_end t" by auto
      show ?thesis
      proof (cases stop1)
        case True
        then show ?thesis using go s1 by (intro exI [of _ gs1] exI [of _ op1] exI [of _ st1] exI [of _ "[]"]) (simp add: s)
      next
        case no: False
        have "take (length ?rest) (drop (tt_scan_offset (fst s1)) c) = ?rest"
          using arg_cong [OF less.prems(2) [unfolded s fst_conv], of "drop (e + 1)"] e
          by (simp add: s1(3) drop_take ac_simps)
        moreover have "length ?rest < length chunk" using e by simp
        moreover have "st1 = None" using s1(2) no by blast
        moreover have "scan_chunk cont track max_records ?rest s1 = (stop, s')" using go no by simp
        ultimately obtain gs' op' st' part' where
          "scan_state cont track c p0 max_records gs' op' st' part' s'" "stop \<longleftrightarrow> st' \<noteq> None"
          "\<not> stop \<longrightarrow> tt_scan_offset (fst s') = tt_scan_offset (fst s1) + length ?rest"
          "tt_position (fst s') = tt_position (fst s1)" "tt_pending_end (fst s') = tt_pending_end (fst s1)"
          using less.hyps [of ?rest gs1 op1 "[]" s1] s1(1) less.prems(3) by blast
        then show ?thesis
          using s1(3,4,5) e by (intro exI [of _ gs'] exI [of _ op'] exI [of _ st'] exI [of _ part']) (simp add: s, arith)
      qed
    qed
  qed
qed

lemma file_read_chunk:
  "file_read c cursor want calls = (Ok chunk, calls') \<Longrightarrow> take (length chunk) (drop cursor c) = chunk"
  by (auto simp: file_read_def min_def split: list.splits read_call.splits)

lemma scan_loop_state:
  assumes "scan_state cont track c p0 max_records gs op st part s" and "stop \<longleftrightarrow> st \<noteq> None"
    and "\<not> stop \<longrightarrow> cursor = tt_scan_offset (fst s)" and "length c < 2 ^ 64"
    and "scan_loop cont track max_records raw_limit c (length c) cursor calls stop raw s = (r, t')"
  shows "case r of
      Err e \<Rightarrow> tt_position t' = tt_position (fst s)
    | Ok (raw', s') \<Rightarrow> (\<exists>gs' op' st' part'. scan_state cont track c p0 max_records gs' op' st' part' s') \<and>
        tt_position (fst s') = tt_position (fst s) \<and> tt_pending_end (fst s') = tt_pending_end (fst s)"
  using assms
proof (induction "raw_limit - raw" arbitrary: gs op st part s stop cursor calls raw rule: less_induct)
  case less
  let ?want = "min (min READ_BUF_BYTES (raw_limit - raw)) (length c - tt_scan_offset (fst s))"
  show ?case
  proof (cases "\<not> stop \<and> raw < raw_limit \<and> tt_scan_offset (fst s) < length c")
    case False
    then have "(r, t') = (Ok (raw, s), fst s)" using less.prems(5) by (subst (asm) scan_loop.simps) (simp split: if_splits)
    then show ?thesis using less.prems(1) by auto
  next
    case True
    have st: "st = None" using True less.prems(2) by blast
    obtain got calls' where read: "file_read c cursor ?want calls = (got, calls')" by (rule prod.exhaust)
    show ?thesis
    proof (cases got)
      case (Inl e)
      then have "(r, t') = (Err e, fst s)" using less.prems(5) True read by (subst (asm) scan_loop.simps) simp
      then show ?thesis by simp
    next
      case (Inr chunk)
      have chunk: "take (length chunk) (drop (tt_scan_offset (fst s)) c) = chunk"
        using file_read_chunk [OF read [unfolded Inr]] True less.prems(3) by simp
      show ?thesis
      proof (cases "chunk = []")
        case empty: True
        then have "(r, t') = (Ok (raw, s), fst s)" using less.prems(5) True read Inr by (subst (asm) scan_loop.simps) simp
        then show ?thesis using less.prems(1) by auto
      next
        case some: False
        obtain stop1 s1 where sc: "scan_chunk cont track max_records chunk s = (stop1, s1)" by (rule prod.exhaust)
        have go: "scan_loop cont track max_records raw_limit c (length c) (cursor + length chunk) calls' stop1 (raw + length chunk) s1 = (r, t')"
          using less.prems(5) True read Inr some sc by (subst (asm) scan_loop.simps) simp
        from scan_chunk_state [OF less.prems(1) [unfolded st] chunk less.prems(4) sc] obtain gs1 op1 st1 part1 where s1:
          "scan_state cont track c p0 max_records gs1 op1 st1 part1 s1" "stop1 \<longleftrightarrow> st1 \<noteq> None"
          "\<not> stop1 \<longrightarrow> tt_scan_offset (fst s1) = tt_scan_offset (fst s) + length chunk"
          "tt_position (fst s1) = tt_position (fst s)" "tt_pending_end (fst s1) = tt_pending_end (fst s)" by blast
        have "raw_limit - (raw + length chunk) < raw_limit - raw" using True some by (intro diff_less_mono2) auto
        moreover have "\<not> stop1 \<longrightarrow> cursor + length chunk = tt_scan_offset (fst s1)" using s1(3) less.prems(3) True by simp
        ultimately show ?thesis
          using less.hyps [of "raw + length chunk" gs1 op1 st1 part1 s1 stop1 "cursor + length chunk" calls'] s1 less.prems(4) go
          by (auto split: sum.splits)
      qed
    qed
  qed
qed

section \<open>One batch\<close>

lemma scan_state_more: "scan_state cont track c p0 max_records gs op st part s \<Longrightarrow> scan_state cont track c p0 (Suc max_records) gs op st part s"
  by (cases s) (auto simp: scan_state_def Let_def)

lemma scan_staged_state:
  assumes "scan_state cont track c p0 max_records [] op st part (t, [], None)" and "0 < max_records"
  shows "\<exists>op' part' t'. scan_staged cont max_records t = (t', [], None) \<and>
    scan_state cont track c p0 max_records [] op' None part' (t', [], None) \<and>
    tt_scan_offset t' = tt_scan_offset t \<and> tt_position t' = tt_position t \<and> tt_pending_end t' = tt_pending_end t"
proof -
  note st = scan_stateD [OF assms(1)]
  show ?thesis
  proof (cases st)
    case None
    then have "scan_staged cont max_records t = (t, [], None)" using st(8) by (simp add: scan_staged_def)
    then show ?thesis using assms(1) None by blast
  next
    case (Some l)
    have nil: "op = []" "part = []" "10 \<notin> set l" using st(9) Some by auto
    let ?off = "tt_scan_offset t"
    let ?t0 = "t\<lparr>tt_staged := None, tt_scan_offset := p0\<rparr>"
    have off: "?off = p0 + length l + 1" using st(1) nil Some by simp
    have t0: "scan_state cont track c p0 max_records [] [] None [] (?t0, [], None)"
      by (rule scan_stateI) (use st nil assms(2) in simp_all)
    have room: "take (length l + 1) (drop (tt_scan_offset ?t0) c) = l @ [10]" using st(3) nil Some by simp
    let ?fin = "tt_scan_offset ?t0 + length l + 1"
    have fin: "?fin = ?off" using off by simp
    have same: "t\<lparr>tt_staged := None\<rparr> = ?t0\<lparr>tt_scan_offset := ?fin\<rparr>" by (cases t) (use off in simp)
    have run: "accept_line cont max_records (line_of track ?fin l) (t\<lparr>tt_staged := None\<rparr>, [], None) =
        (False, push_to_open (line_of track ?fin l) (t\<lparr>tt_staged := None\<rparr>), [], None)"
      using st(5) nil by (simp add: accept_line_def)
    have "scan_staged cont max_records t = (push_to_open (line_of track ?fin l) (t\<lparr>tt_staged := None\<rparr>), [], None)"
      using st(8) Some run unfolding fin by (simp add: scan_staged_def)
    moreover obtain gs' op' where "scan_state cont track c p0 max_records gs' op' None [] (push_to_open (line_of track ?fin l) (t\<lparr>tt_staged := None\<rparr>), [], None)"
      using accept_line_state [OF t0 room nil(3) same run] by (elim exE conjE) (simp only: simp_thms)
    moreover from scan_stateD(14) [OF this] have "gs' = []" by (simp split: if_splits)
    ultimately show ?thesis unfolding push_to_open_def by fastforce
  qed
qed

lemma flush_at_eof_state:
  assumes "scan_state cont track c p0 max_records gs op st part (t, records, cand)"
  shows "\<exists>gs' op' t' records' cand'. flush_at_eof cont max_records (length c) (t, records, cand) = (t', records', cand') \<and>
    scan_state cont track c p0 (Suc max_records) gs' op' st part (t', records', cand') \<and>
    (length c \<le> tt_scan_offset t \<and> st = None \<longrightarrow> op' = [] \<or> part \<noteq> [] \<or> continues_with cont track op' []) \<and>
    tt_scan_offset t' = tt_scan_offset t \<and> tt_position t' = tt_position t \<and> tt_pending_end t' = tt_pending_end t"
proof -
  let ?at = "p0 + length (unlines (concat gs))"
  note st = scan_stateD [OF assms]
  show ?thesis
  proof (cases "length c \<le> tt_scan_offset t \<and> st = None \<and> part = [] \<and> op \<noteq> [] \<and> \<not> continues_with cont track op []")
    case True
    have open_end: "op_lines (open_of track ?at op) = op_lines (open_of track 0 op)" "op_quotes_odd (open_of track ?at op) = op_quotes_odd (open_of track 0 op)"
      using open_of_parts(1,2) [of op track ?at] True by blast+
    have "flush_at_eof cont max_records (length c) (t, records, cand) = flush_open (t, records, cand)"
      using True st(5,8,10,13) open_end by (simp add: flush_at_eof_def continues_with_def)
    also have "\<dots> = (t\<lparr>tt_open := None\<rparr>, records @ records_of track op, Some (?at + length (unlines op)))"
      using True by (intro flush_open_some) (simp_all add: st(5))
    finally have run: "flush_at_eof cont max_records (length c) (t, records, cand) =
        (t\<lparr>tt_open := None\<rparr>, records @ records_of track op, Some (?at + length (unlines op)))" .
    have grp: "grouped cont track (drop p0 c) (gs @ [op])"
      using st True by (intro grouped_snoc) (auto simp: ended_def)
    have "length (records_of track op) \<le> 1" by (simp add: records_of_def)
    then have "scan_state cont track c p0 (Suc max_records) (gs @ [op]) [] None []
        (t\<lparr>tt_open := None\<rparr>, records @ records_of track op, Some (?at + length (unlines op)))"
      by (intro scan_stateI) (use st True grp in simp_all)
    then show ?thesis using run True by auto
  next
    case False
    have "flush_at_eof cont max_records (length c) (t, records, cand) = (t, records, cand)"
    proof (cases "op = []")
      case op: False
      have open_end: "op_lines (open_of track ?at op) = op_lines (open_of track 0 op)" "op_quotes_odd (open_of track ?at op) = op_quotes_odd (open_of track 0 op)"
        using open_of_parts(1,2) [OF op, of track ?at] by blast+
      show ?thesis using False op st(5,8,10) open_end by (auto simp: flush_at_eof_def continues_with_def)
    qed (use st(5) in \<open>simp add: flush_at_eof_def\<close>)
    then show ?thesis using scan_state_more [OF assms] False by blast
  qed
qed

text \<open>Between batches: nothing is flushed since the position.\<close>

definition volatile_state :: "continues \<Rightarrow> bool \<Rightarrow> bytes \<Rightarrow> nat \<Rightarrow> tail \<Rightarrow> bool" where
  "volatile_state cont track c p0 t \<longleftrightarrow> (\<exists>op st part. scan_state cont track c p0 1 [] op st part (t, [], None))"

definition batch_state :: "continues \<Rightarrow> bool \<Rightarrow> bytes \<Rightarrow> nat \<Rightarrow> bytes list list \<Rightarrow> tail \<Rightarrow> log_record list \<Rightarrow> bool" where
  "batch_state cont track c p0 gs t records \<longleftrightarrow>
     (\<exists>op st part m cand. scan_state cont track c p0 m gs op st part (t, records, cand))"

lemma scan_state_other_fields:
  assumes "scan_state cont track c p0 m gs op st part (t, records, cand)"
    and "tt_scan_offset t' = tt_scan_offset t" "tt_partial t' = tt_partial t" "tt_open t' = tt_open t" "tt_staged t' = tt_staged t"
  shows "scan_state cont track c p0 m gs op st part (t', records, cand)"
  by (rule scan_stateI) (use scan_stateD [OF assms(1)] assms(2-) in simp_all)

lemma volatile_any:
  assumes "scan_state cont track c p0 m [] op st part (t, records, cand)" and "0 < m'"
  shows "scan_state cont track c p0 m' [] op st part (t, [], None)"
  by (rule scan_stateI) (use scan_stateD [OF assms(1)] assms(2) in simp_all)

lemma volatile_batch: "volatile_state cont track c p0 t \<longleftrightarrow> batch_state cont track c p0 [] t []"
  unfolding volatile_state_def batch_state_def using volatile_any by (metis zero_less_one)

lemma batch_rebase:
  assumes "batch_state cont track c p0 gs t records"
    and "tt_scan_offset t' = tt_scan_offset t" "tt_partial t' = tt_partial t" "tt_open t' = tt_open t" "tt_staged t' = tt_staged t"
  shows "volatile_state cont track c (p0 + length (unlines (concat gs))) t'"
proof -
  obtain op st part m cand where state: "scan_state cont track c p0 m gs op st part (t, records, cand)"
    using assms(1) by (auto simp: batch_state_def)
  note st = scan_stateD [OF state]
  let ?g = "unlines (concat gs)" and ?rest = "unlines op @ staged_bytes st @ part"
  have "take (length (?g @ ?rest)) (drop p0 c) = ?g @ ?rest" using st(3) by simp
  note parts = take_glueD [OF this]
  have "length ?g \<le> length c - p0" using arg_cong [OF parts(1), of length] by simp
  then have "p0 + length ?g \<le> length c" using st(2) by simp
  then have "scan_state cont track c (p0 + length ?g) 1 [] op st part (t', [], None)"
    by (intro scan_stateI) (use st assms(2-) parts(2) in \<open>simp_all add: ac_simps\<close>)
  then show ?thesis by (auto simp: volatile_state_def)
qed

lemma fresh_volatile:
  assumes "lp_offset (tt_position t) \<le> length c"
  shows "volatile_state cont track c (lp_offset (tt_position t)) (reset_volatile t)"
proof -
  have "scan_state cont track c (lp_offset (tt_position t)) 1 [] [] None [] (reset_volatile t, [], None)"
    by (rule scan_stateI) (use assms in \<open>simp_all add: reset_volatile_def\<close>)
  then show ?thesis by (auto simp: volatile_state_def)
qed

lemma batch_grow:
  assumes "batch_state cont track c p0 gs t records"
  shows "batch_state cont track (c @ x) p0 gs t records"
proof -
  obtain op st part m cand where state: "scan_state cont track c p0 m gs op st part (t, records, cand)"
    using assms by (auto simp: batch_state_def)
  note st = scan_stateD [OF state]
  let ?seen = "unlines (concat gs) @ unlines op @ staged_bytes st @ part"
  have "length ?seen \<le> length (drop p0 c)" using arg_cong [OF st(3), of length] by simp
  then have "take (length ?seen) (drop p0 (c @ x)) = ?seen" using st(2,3) by simp
  then have "scan_state cont track (c @ x) p0 m gs op st part (t, records, cand)"
    by (intro scan_stateI) (use st grouped_grow [OF st(4), of x] in simp_all)
  then show ?thesis unfolding batch_state_def by blast
qed

text \<open>What one scan returns.\<close>

definition batch_of :: "continues \<Rightarrow> bool \<Rightarrow> bytes \<Rightarrow> tail \<Rightarrow> bytes list list \<Rightarrow> tail_batch \<Rightarrow> tail \<Rightarrow> bool" where
  "batch_of cont track c t gs b t' \<longleftrightarrow>
     (\<exists>op st part m cand. scan_state cont track c (lp_offset (tt_position t)) m gs op st part (t', tb_records b, cand) \<and>
        (tb_at_eof b \<longrightarrow> st = None \<and> length c \<le> tt_scan_offset t' \<and> (op = [] \<or> part \<noteq> [] \<or> continues_with cont track op []))) \<and>
     tt_position t' = tt_position t \<and> (tb_needs_ack b \<longleftrightarrow> gs \<noteq> []) \<and>
     tt_pending_end t' = (if gs = [] then None
       else Some ((tt_position t)\<lparr>lp_offset := lp_offset (tt_position t) + length (unlines (concat gs))\<rparr>))"

lemma tail_scan_state:
  assumes "volatile_state cont track c (lp_offset (tt_position t)) t" and "tt_pending_end t = None"
    and "length c < 2 ^ 64" and "0 < max_records"
    and "tail_scan cont track max_records raw_limit c (tt_scan_offset t) calls t = (r, t')"
  shows "case r of Err e \<Rightarrow> tt_position t' = tt_position t | Ok b \<Rightarrow> \<exists>gs. batch_of cont track c t gs b t'"
proof -
  let ?p0 = "lp_offset (tt_position t)"
  obtain op0 st0 part0 where "scan_state cont track c ?p0 1 [] op0 st0 part0 (t, [], None)"
    using assms(1) by (auto simp: volatile_state_def)
  from scan_staged_state [OF volatile_any [OF this assms(4)] assms(4)] obtain op1 part1 t1 where
    t1: "scan_staged cont max_records t = (t1, [], None)" "scan_state cont track c ?p0 max_records [] op1 None part1 (t1, [], None)"
      "tt_scan_offset t1 = tt_scan_offset t" "tt_position t1 = tt_position t" "tt_pending_end t1 = tt_pending_end t" by blast
  obtain r2 t2 where loop: "scan_loop cont track max_records raw_limit c (length c) (tt_scan_offset t) calls False 0 (t1, [], None) = (r2, t2)"
    by (rule prod.exhaust)
  note looped = scan_loop_state [OF t1(2) _ _ assms(3) loop, simplified t1(3-5), simplified]
  show ?thesis
  proof (cases r2)
    case (Inl e)
    then show ?thesis using assms(5) loop looped t1 by (auto simp: tail_scan_def)
  next
    case (Inr x)
    obtain raw t3 records cand where x: "x = (raw, t3, records, cand)" by (cases x)
    from looped Inr x obtain gs3 op3 st3 part3 where
      t3: "scan_state cont track c ?p0 max_records gs3 op3 st3 part3 (t3, records, cand)"
        "tt_position t3 = tt_position t" "tt_pending_end t3 = tt_pending_end t" using t1 by auto
    from flush_at_eof_state [OF t3(1)] obtain gs op t4 records4 cand4 where
      t4: "flush_at_eof cont max_records (length c) (t3, records, cand) = (t4, records4, cand4)"
        "scan_state cont track c ?p0 (Suc max_records) gs op st3 part3 (t4, records4, cand4)"
        "length c \<le> tt_scan_offset t3 \<and> st3 = None \<longrightarrow> op = [] \<or> part3 \<noteq> [] \<or> continues_with cont track op []"
        "tt_scan_offset t4 = tt_scan_offset t3" "tt_position t4 = tt_position t3" "tt_pending_end t4 = tt_pending_end t3" by blast
    obtain b where b: "scan_end (length c) raw (t4, records4, cand4) = (b, t')" "r = Ok b"
      using assms(5) loop Inr x t1 t4(1) by (auto simp: tail_scan_def split: prod.splits)
    note st = scan_stateD [OF t4(2)]
    have fields: "tt_scan_offset t' = tt_scan_offset t4" "tt_partial t' = tt_partial t4" "tt_open t' = tt_open t4"
      "tt_staged t' = tt_staged t4" "tb_records b = records4" "tt_position t' = tt_position t4"
      "tb_at_eof b \<longleftrightarrow> length c \<le> tt_scan_offset t4 \<and> tt_staged t4 = None"
      "tb_needs_ack b \<longleftrightarrow> tt_pending_end t' \<noteq> None"
      "tt_pending_end t' = (case cand4 of None \<Rightarrow> tt_pending_end t4 | Some off \<Rightarrow> Some ((tt_position t4)\<lparr>lp_offset := off\<rparr>))"
      using b(1) by (auto simp: scan_end_def Let_def split: option.splits)
    have "scan_state cont track c ?p0 (Suc max_records) gs op st3 part3 (t', tb_records b, cand4)"
      unfolding fields(5) by (rule scan_state_other_fields [OF t4(2)]) (simp_all add: fields(1-4))
    moreover have "tb_at_eof b \<longrightarrow> st3 = None \<and> length c \<le> tt_scan_offset t' \<and> (op = [] \<or> part3 \<noteq> [] \<or> continues_with cont track op [])"
      using st(8) t4(3,4) fields(1,7) by auto
    moreover have p: "tt_pending_end t' = (if gs = [] then None else Some ((tt_position t)\<lparr>lp_offset := ?p0 + length (unlines (concat gs))\<rparr>))"
      using st(14) t3(2,3) t4(5,6) assms(2) by (simp add: fields(9))
    moreover have "tb_needs_ack b \<longleftrightarrow> gs \<noteq> []" by (simp add: fields(8) p)
    moreover have "tt_position t' = tt_position t" using fields(6) t3(2) t4(5) by simp
    ultimately have "batch_of cont track c t gs b t'" unfolding batch_of_def by blast
    then show ?thesis using b(2) by auto
  qed
qed

section \<open>Runs\<close>

text \<open>
  A tail over a file, with the records acknowledged so far and those of a batch that awaits its
  acknowledgement. The file may grow between calls, and another file may take its name; reads may
  be of any size, short or failing; a restart resumes from the acknowledged position.
\<close>

definition same_file :: "followed_file \<Rightarrow> tail \<Rightarrow> bool" where
  "same_file f t \<longleftrightarrow> ff_dev f = lp_dev (tt_position t) \<and> ff_inode f = lp_inode (tt_position t)"

inductive tail_run ::
  "continues \<Rightarrow> bool \<Rightarrow> followed_file \<Rightarrow> tail \<Rightarrow> log_record list \<Rightarrow> log_record list \<Rightarrow> bool" for cont track where
  start: "tail_run cont track f (Tail_new default_position) [] []"
| grow: "tail_run cont track f t acked pending \<Longrightarrow> f' = f\<lparr>ff_content := ff_content f @ x\<rparr> \<Longrightarrow>
    tail_run cont track f' t acked pending"
| rotate: "tail_run cont track f t acked pending \<Longrightarrow> \<not> same_file f' t \<Longrightarrow> tail_run cont track f' t [] []"
| batch: "tail_run cont track f t acked pending \<Longrightarrow> length (ff_content f) < 2 ^ 64 \<Longrightarrow>
    read_batch_configured cont max_records raw_limit track f io t = (Ok b, t') \<Longrightarrow>
    tail_run cont track f t' acked (tb_records b)"
| failed: "tail_run cont track f t acked pending \<Longrightarrow> length (ff_content f) < 2 ^ 64 \<Longrightarrow>
    read_batch_configured cont max_records raw_limit track f io t = (Err e, t') \<Longrightarrow>
    tail_run cont track f t' acked pending"
| acknowledged: "tail_run cont track f t acked pending \<Longrightarrow> tail_acknowledge t = (p, t') \<Longrightarrow>
    tail_run cont track f t' (acked @ pending) []"
| retried: "tail_run cont track f t acked pending \<Longrightarrow> tail_run cont track f (tail_retry t) acked []"
| restarted: "tail_run cont track f t acked pending \<Longrightarrow> tail_run cont track f (Tail_new (tt_position t)) acked []"

definition own_candidate :: "tail \<Rightarrow> bool" where
  "own_candidate t \<longleftrightarrow>
     (\<forall>p. tt_pending_end t = Some p \<longrightarrow> lp_dev p = lp_dev (tt_position t) \<and> lp_inode p = lp_inode (tt_position t))"

definition tail_inv ::
  "continues \<Rightarrow> bool \<Rightarrow> followed_file \<Rightarrow> tail \<Rightarrow> log_record list \<Rightarrow> log_record list \<Rightarrow> bool" where
  "tail_inv cont track f t acked pending \<longleftrightarrow>
     (if same_file f t then
        \<exists>taken gs. grouped cont track (ff_content f) taken \<and> lp_offset (tt_position t) = length (unlines (concat taken)) \<and>
          acked = concat (map (records_of track) taken) \<and>
          batch_state cont track (ff_content f) (lp_offset (tt_position t)) gs t pending \<and>
          tt_pending_end t = (if gs = [] then None
            else Some ((tt_position t)\<lparr>lp_offset := lp_offset (tt_position t) + length (unlines (concat gs))\<rparr>))
      else acked = [] \<and> pending = [] \<and> own_candidate t)"

lemma tail_invI:
  assumes "same_file f t" and "grouped cont track (ff_content f) taken"
    and "lp_offset (tt_position t) = length (unlines (concat taken))" and "acked = concat (map (records_of track) taken)"
    and "batch_state cont track (ff_content f) (lp_offset (tt_position t)) gs t pending"
    and "tt_pending_end t = (if gs = [] then None
      else Some ((tt_position t)\<lparr>lp_offset := lp_offset (tt_position t) + length (unlines (concat gs))\<rparr>))"
  shows "tail_inv cont track f t acked pending"
  using assms unfolding tail_inv_def by auto

lemma tail_inv_idle:
  assumes "tail_inv cont track f t acked pending" and "same_file f t"
    and "tt_position t' = tt_position t" and "t' = reset_volatile t'"
  shows "tail_inv cont track f t' acked []"
proof -
  obtain taken gs where inv: "grouped cont track (ff_content f) taken" "lp_offset (tt_position t) = length (unlines (concat taken))"
    "acked = concat (map (records_of track) taken)" "batch_state cont track (ff_content f) (lp_offset (tt_position t)) gs t pending"
    using assms(1,2) by (auto simp: tail_inv_def)
  have "lp_offset (tt_position t') \<le> length (ff_content f)"
    using inv(4) by (auto simp: batch_state_def assms(3) dest: scan_stateD(2))
  from fresh_volatile [OF this, of cont track] have "batch_state cont track (ff_content f) (lp_offset (tt_position t')) [] t' []"
    unfolding volatile_batch assms(4) [symmetric] .
  moreover have "tt_pending_end t' = None" by (subst assms(4)) (simp add: reset_volatile_def)
  ultimately show ?thesis
    using inv(1-3) assms(2,3) by (intro tail_invI [of _ _ _ _ taken _ "[]"]) (simp_all add: same_file_def)
qed

lemma tail_new_reset: "Tail_new (tt_position t) = reset_volatile (Tail_new (tt_position t))"
  by (simp add: Tail_new_def reset_volatile_def)

lemma reset_volatile_idem: "reset_volatile t = reset_volatile (reset_volatile t)"
  by (simp add: reset_volatile_def)

lemma tail_inv_fresh:
  assumes "lp_offset (tt_position t) = 0" and "t = reset_volatile t"
  shows "tail_inv cont track f t [] []"
proof (cases "same_file f t")
  case True
  have "batch_state cont track (ff_content f) (lp_offset (tt_position t)) [] t []"
    using fresh_volatile [of t "ff_content f" cont track] assms unfolding volatile_batch by simp
  moreover have "tt_pending_end t = None" by (subst assms(2)) (simp add: reset_volatile_def)
  ultimately show ?thesis using True assms(1) by (intro tail_invI [of _ _ _ _ "[]" _ "[]"]) simp_all
next
  case False
  have "tt_pending_end t = None" by (subst assms(2)) (simp add: reset_volatile_def)
  then show ?thesis using False by (simp add: tail_inv_def own_candidate_def)
qed

lemma tail_inv_stale:
  "\<not> same_file f t \<Longrightarrow> tail_inv cont track f t acked pending \<longleftrightarrow> acked = [] \<and> pending = [] \<and> own_candidate t"
  by (simp add: tail_inv_def)

lemma tail_inv_candidate:
  assumes "tail_inv cont track f t acked pending"
  shows "own_candidate t"
proof (cases "same_file f t")
  case True
  then obtain gs :: "bytes list list" where "tt_pending_end t = (if gs = [] then None
      else Some ((tt_position t)\<lparr>lp_offset := lp_offset (tt_position t) + length (unlines (concat gs))\<rparr>))"
    using assms unfolding tail_inv_def by auto
  then show ?thesis by (cases "gs = []") (simp_all add: own_candidate_def)
qed (use assms in \<open>simp add: tail_inv_stale\<close>)

text \<open>A scan of the tail's own file, and a whole call of \<open>read_batch\<close>.\<close>

lemma idle_state:
  assumes "tail_inv cont track f t acked pending" and "same_file f t" and "tt_pending_end t = None"
  obtains taken where "grouped cont track (ff_content f) taken" and "lp_offset (tt_position t) = length (unlines (concat taken))"
    and "acked = concat (map (records_of track) taken)" and "volatile_state cont track (ff_content f) (lp_offset (tt_position t)) t"
    and "pending = []" and "tt_scan_offset t \<le> length (ff_content f)"
proof -
  obtain taken gs where inv: "grouped cont track (ff_content f) taken" "lp_offset (tt_position t) = length (unlines (concat taken))"
    "acked = concat (map (records_of track) taken)" "batch_state cont track (ff_content f) (lp_offset (tt_position t)) gs t pending" "gs = []"
    using assms by (auto simp: tail_inv_def split: if_splits)
  obtain op st part m cand where sc: "scan_state cont track (ff_content f) (lp_offset (tt_position t)) m [] op st part (t, pending, cand)"
    using inv(4,5) by (auto simp: batch_state_def)
  note sd = scan_stateD [OF sc]
  have "pending = []" using sd(12) by simp
  moreover have "tt_scan_offset t \<le> length (ff_content f)" using arg_cong [OF sd(3), of length] sd(1,2) by simp
  moreover have "volatile_state cont track (ff_content f) (lp_offset (tt_position t)) t"
    using inv(4,5) calculation(1) by (simp add: volatile_batch)
  ultimately show thesis using that [OF inv(1-3)] by blast
qed

lemma scan_inv:
  assumes inv: "tail_inv cont track f t acked pending" and same: "same_file f t" and idle: "tt_pending_end t = None"
    and len: "length (ff_content f) < 2 ^ 64" and max: "0 < max_records"
    and run: "tail_scan cont track max_records raw_limit (ff_content f) (tt_scan_offset t) calls t = (r, t')"
  shows "case r of Err e \<Rightarrow> tail_inv cont track f (reset_volatile t') acked [] | Ok b \<Rightarrow> tail_inv cont track f t' acked (tb_records b)"
proof -
  obtain taken where inv': "grouped cont track (ff_content f) taken" "lp_offset (tt_position t) = length (unlines (concat taken))"
    "acked = concat (map (records_of track) taken)" "volatile_state cont track (ff_content f) (lp_offset (tt_position t)) t"
    by (rule idle_state [OF inv same idle])
  note scanned = tail_scan_state [OF inv'(4) idle len max run]
  show "case r of Err e \<Rightarrow> tail_inv cont track f (reset_volatile t') acked [] | Ok b \<Rightarrow> tail_inv cont track f t' acked (tb_records b)"
  proof (cases r)
    case (Inl e)
    then have "tt_position (reset_volatile t') = tt_position t"
      using scanned by (simp add: reset_volatile_def)
    then show ?thesis using tail_inv_idle [OF inv same _ reset_volatile_idem] Inl by simp
  next
    case (Inr b)
    then obtain gs' where b: "batch_of cont track (ff_content f) t gs' b t'"
      using scanned by auto
    have pos: "tt_position t' = tt_position t" using b by (simp add: batch_of_def)
    have "batch_state cont track (ff_content f) (lp_offset (tt_position t')) gs' t' (tb_records b)"
      unfolding batch_state_def pos using b unfolding batch_of_def by blast
    then have "tail_inv cont track f t' acked (tb_records b)"
      using b inv'(1-3) same by (intro tail_invI [of _ _ _ _ taken _ gs']) (simp_all add: batch_of_def same_file_def)
    then show ?thesis using Inr by simp
  qed
qed

text \<open>A call starts from the tail's own file: from the tail as it is, or reset when the file is another one.\<close>

lemma read_batch_start:
  assumes inv: "tail_inv cont track f t acked pending"
    and called: "max_records \<noteq> 0" "raw_limit \<noteq> 0" "tt_pending_end t = None" "tc_open io = None"
  obtains t1 where "tail_inv cont track f t1 acked pending" and "same_file f t1" and "tt_pending_end t1 = None"
    and "read_batch_configured cont max_records raw_limit track f io t =
      (case tc_seek io of Some e \<Rightarrow> (Err (TailIo e), t1)
       | None \<Rightarrow> (case tail_scan cont track max_records raw_limit (ff_content f) (tt_scan_offset t1) (tc_reads io) t1 of
           (Ok b, t2) \<Rightarrow> (Ok b, t2) | (Err e, t2) \<Rightarrow> (Err e, reset_volatile t2)))"
proof -
  let ?t0 = "tail_reset (ff_dev f) (ff_inode f) t"
  let ?t1 = "if same_file f t then t else ?t0"
  have fresh: "lp_offset (tt_position ?t0) = 0" "?t0 = reset_volatile ?t0" "same_file f ?t0" "tt_pending_end ?t0 = None"
    by (simp_all add: tail_reset_def reset_volatile_def same_file_def)
  have t1: "tail_inv cont track f ?t1 acked pending" "same_file f ?t1" "tt_pending_end ?t1 = None"
  proof -
    show "tail_inv cont track f ?t1 acked pending"
    proof (cases "same_file f t")
      case other: False
      then have "acked = []" "pending = []" using inv by (simp_all add: tail_inv_def)
      then show ?thesis using tail_inv_fresh [OF fresh(1,2)] other by simp
    qed (use inv in simp)
  qed (use fresh called(3) in simp_all)
  have "tt_scan_offset ?t1 \<le> length (ff_content f)" by (rule idle_state [OF t1], blast)
  then have "(if ff_dev f \<noteq> lp_dev (tt_position t) \<or> ff_inode f \<noteq> lp_inode (tt_position t) \<or> length (ff_content f) < tt_scan_offset t
      then ?t0 else t) = ?t1"
    by (auto simp: same_file_def split: if_splits)
  then have "read_batch_configured cont max_records raw_limit track f io t =
      (case tc_seek io of Some e \<Rightarrow> (Err (TailIo e), ?t1)
       | None \<Rightarrow> (case tail_scan cont track max_records raw_limit (ff_content f) (tt_scan_offset ?t1) (tc_reads io) ?t1 of
           (Ok b, t2) \<Rightarrow> (Ok b, t2) | (Err e, t2) \<Rightarrow> (Err e, reset_volatile t2)))"
    using called by (simp only: read_batch_configured_def Let_def option.case if_False not_True_eq_False refl)
  then show thesis by (rule that [OF t1])
qed

lemma read_batch_inv:
  assumes inv: "tail_inv cont track f t acked pending" and len: "length (ff_content f) < 2 ^ 64"
    and run: "read_batch_configured cont max_records raw_limit track f io t = (r, t')"
  shows "case r of Err e \<Rightarrow> tail_inv cont track f t' acked pending | Ok b \<Rightarrow> tail_inv cont track f t' acked (tb_records b)"
proof (cases "max_records = 0 \<or> raw_limit = 0 \<or> tt_pending_end t \<noteq> None \<or> tc_open io \<noteq> None")
  case True
  then have "\<exists>e. (r, t') = (Err e, t)" using run by (auto simp: read_batch_configured_def split: if_splits option.splits)
  then show ?thesis using inv by auto
next
  case False
  then have called: "max_records \<noteq> 0" "raw_limit \<noteq> 0" "tt_pending_end t = None" "tc_open io = None" by auto
  obtain t1 where t1: "tail_inv cont track f t1 acked pending" "same_file f t1" "tt_pending_end t1 = None"
    and read: "read_batch_configured cont max_records raw_limit track f io t =
      (case tc_seek io of Some e \<Rightarrow> (Err (TailIo e), t1)
       | None \<Rightarrow> (case tail_scan cont track max_records raw_limit (ff_content f) (tt_scan_offset t1) (tc_reads io) t1 of
           (Ok b, t2) \<Rightarrow> (Ok b, t2) | (Err e, t2) \<Rightarrow> (Err e, reset_volatile t2)))"
    by (rule read_batch_start [OF inv called])
  obtain r1 t2 where sc: "tail_scan cont track max_records raw_limit (ff_content f) (tt_scan_offset t1) (tc_reads io) t1 = (r1, t2)"
    by (rule prod.exhaust)
  have max: "0 < max_records" using called by simp
  note scan = scan_inv [OF t1 len max sc]
  have start: "pending = []" by (rule idle_state [OF t1])
  have "(r, t') = (case tc_seek io of Some e \<Rightarrow> (Err (TailIo e), t1)
      | None \<Rightarrow> (case r1 of Inl e \<Rightarrow> (Err e, reset_volatile t2) | Inr b \<Rightarrow> (Ok b, t2)))"
    using run read sc by (auto split: option.splits sum.splits)
  then show ?thesis using t1(1) scan start by (auto split: option.splits sum.splits)
qed

lemma tail_run_invariant: "tail_run cont track f t acked pending \<Longrightarrow> tail_inv cont track f t acked pending"
proof (induction rule: tail_run.induct)
  case (start f)
  show ?case by (rule tail_inv_fresh) (simp_all add: Tail_new_def default_position_def reset_volatile_def)
next
  case (grow f t acked pending f' x)
  then show ?case
    using grouped_grow batch_grow by (fastforce simp: tail_inv_def same_file_def split: if_splits)
next
  case (rotate f t acked pending f')
  then show ?case using tail_inv_candidate by (simp add: tail_inv_def)
next
  case (batch f t acked pending max_records raw_limit io b t')
  then show ?case using read_batch_inv by fastforce
next
  case (failed f t acked pending max_records raw_limit io e t')
  then show ?case using read_batch_inv by fastforce
next
  case (acknowledged f t acked pending p t')
  show ?case
  proof (cases "same_file f t")
    case False
    have "lp_dev (tt_position t') = lp_dev (tt_position t) \<and> lp_inode (tt_position t') = lp_inode (tt_position t)"
      using tail_inv_candidate [OF acknowledged.IH] acknowledged.hyps(2)
      by (auto simp: own_candidate_def tail_acknowledge_def split: option.splits)
    moreover have "own_candidate t'"
      using tail_inv_candidate [OF acknowledged.IH] acknowledged.hyps(2)
      by (auto simp: own_candidate_def tail_acknowledge_def split: option.splits)
    moreover from calculation(1) False have "\<not> same_file f t'" by (simp add: same_file_def)
    ultimately show ?thesis using acknowledged.IH False by (simp add: tail_inv_stale)
  next
    case True
    obtain taken gs where inv: "grouped cont track (ff_content f) taken" "lp_offset (tt_position t) = length (unlines (concat taken))"
      "acked = concat (map (records_of track) taken)" "batch_state cont track (ff_content f) (lp_offset (tt_position t)) gs t pending"
      "tt_pending_end t = (if gs = [] then None
        else Some ((tt_position t)\<lparr>lp_offset := lp_offset (tt_position t) + length (unlines (concat gs))\<rparr>))"
      using acknowledged.IH True unfolding tail_inv_def by auto
    obtain op st part m cand where sc: "scan_state cont track (ff_content f) (lp_offset (tt_position t)) m gs op st part (t, pending, cand)"
      using inv(4) unfolding batch_state_def by blast
    let ?t = "t\<lparr>tt_position := (tt_position t)\<lparr>lp_offset := lp_offset (tt_position t) + length (unlines (concat gs))\<rparr>, tt_pending_end := None\<rparr>"
    have t': "t' = ?t" using acknowledged.hyps(2) inv(5) by (auto simp: tail_acknowledge_def split: if_splits)
    have "volatile_state cont track (ff_content f) (lp_offset (tt_position t) + length (unlines (concat gs))) t'"
      by (rule batch_rebase [OF inv(4)]) (simp_all add: t')
    moreover have "grouped cont track (ff_content f) (taken @ gs)"
      using inv(1,2) scan_stateD(4) [OF sc] by (simp add: grouped_append)
    ultimately show ?thesis
      using True inv(2,3) scan_stateD(12) [OF sc]
      by (intro tail_invI [of _ _ _ _ "taken @ gs" _ "[]"]) (simp_all add: t' same_file_def volatile_batch)
  qed
next
  case (retried f t acked pending)
  show ?case
  proof (cases "same_file f t")
    case True
    have "reset_volatile t = reset_volatile (reset_volatile t)" by (rule reset_volatile_idem)
    then show ?thesis
      unfolding tail_retry_def using tail_inv_idle [OF retried.IH True] by (simp add: reset_volatile_def)
  next
    case False
    moreover have "\<not> same_file f (tail_retry t)" "own_candidate (tail_retry t)"
      using False by (simp_all add: same_file_def tail_retry_def reset_volatile_def own_candidate_def)
    ultimately show ?thesis using retried.IH by (simp add: tail_inv_stale)
  qed
next
  case (restarted f t acked pending)
  show ?case
  proof (cases "same_file f t")
    case True
    show ?thesis by (rule tail_inv_idle [OF restarted.IH True _ tail_new_reset]) (simp add: Tail_new_def)
  next
    case False
    moreover have "\<not> same_file f (Tail_new (tt_position t))" "own_candidate (Tail_new (tt_position t))"
      using False by (simp_all add: same_file_def Tail_new_def own_candidate_def)
    ultimately show ?thesis using restarted.IH by (simp add: tail_inv_stale)
  qed
qed

section \<open>What is delivered\<close>

lemma grouped_bytes: "grouped cont track c gs \<Longrightarrow> take (length (unlines (concat gs))) c = unlines (concat gs)"
proof (induction gs arbitrary: c)
  case (Cons g gs)
  then show ?case using take_glue [of "unlines g" c "unlines (concat gs)"] by simp
qed simp

text \<open>The retained text of a record is bounded, and short plain lines are retained as they are.\<close>

lemma length_join_snoc: "length (join_lines (ls @ [l])) = length (join_lines ls) + (if ls = [] then 0 else 1) + length l"
  by (induction ls rule: join_lines.induct) simp_all

lemma open_push_bound:
  assumes "op_bytes r \<le> MAX_LINE_BYTES" and "op_bytes r = length (join_lines (op_lines r))"
  shows "op_bytes (open_push line r) \<le> MAX_LINE_BYTES \<and>
    op_bytes (open_push line r) = length (join_lines (op_lines (open_push line r)))"
proof -
  note join = length_join_snoc
  show ?thesis
  proof (cases "ph_text line")
    case None
    then show ?thesis using assms by (simp add: open_push_def)
  next
    case (Some bs)
    let ?sep = "if op_lines r = [] then 0 else 1 :: nat"
    show ?thesis
    proof (cases "Option.bind (checked_sub_usize MAX_LINE_BYTES (op_bytes r)) (\<lambda>room. checked_sub_usize room ?sep)")
      case None
      then show ?thesis using assms by (simp add: open_push_def Some Let_def)
    next
      case room: (Some room)
      then have "room = MAX_LINE_BYTES - op_bytes r - ?sep" "op_bytes r + ?sep \<le> MAX_LINE_BYTES"
        by (auto simp: bind_eq_Some_conv split: if_splits)
      then have fit: "op_bytes r + ?sep + length (truncate_text bs room) \<le> MAX_LINE_BYTES"
        using truncate_text_bound [of bs room] by linarith
      have "op_bytes (open_push line r) = op_bytes r + ?sep + length (truncate_text bs room)"
        "op_lines (open_push line r) = op_lines r @ [truncate_text bs room]"
        using room by (simp_all add: open_push_def Some Let_def)
      then show ?thesis using fit assms(2) join [of "op_lines r"] by simp
    qed
  qed
qed

lemma open_from_bound:
  assumes "op_bytes r \<le> MAX_LINE_BYTES" and "op_bytes r = length (join_lines (op_lines r))"
  shows "length (join_lines (op_lines (open_from track r at g))) \<le> MAX_LINE_BYTES"
  using assms
proof (induction g arbitrary: r at)
  case (Cons l g)
  note pushed = open_push_bound [OF Cons.prems, of "line_of track (at + length l + 1) l"]
  show ?case using Cons.IH [OF pushed [THEN conjunct1] pushed [THEN conjunct2], of "at + length l + 1"] by simp
qed simp

lemma records_of_bound: "rec \<in> set (records_of track g) \<Longrightarrow> length (record_joined rec) \<le> MAX_LINE_BYTES"
  using open_from_bound [of OpenRecord_new track 0 g]
  by (auto simp: records_of_def record_joined_def open_of_def OpenRecord_new_def split: if_splits)

lemma plain_line:
  assumes "utf8_valid l" and "l \<noteq> [] \<longrightarrow> List.last l \<noteq> 13" and "length l \<le> MAX_LINE_BYTES"
  shows "line_said l = Some l" and "\<not> line_cut l"
  using assms by (auto simp: line_said_def line_cut_def line_of_def partial_finish_def partial_of_def Let_def)

lemma open_of_plain:
  assumes "\<forall>l \<in> set g. utf8_valid l \<and> (l \<noteq> [] \<longrightarrow> List.last l \<noteq> 13)" and "length (join_lines g) \<le> MAX_LINE_BYTES"
  shows "op_lines (open_of track at g) = g \<and> \<not> op_truncated (open_of track at g) \<and>
    op_bytes (open_of track at g) = length (join_lines g)"
  using assms
proof (induction g rule: rev_induct)
  case (snoc l g)
  let ?r = "open_of track at g" and ?line = "line_of track (at + length (unlines g) + length l + 1) l"
  let ?sep = "if g = [] then 0 else 1 :: nat"
  have len: "length (join_lines g) + ?sep + length l \<le> MAX_LINE_BYTES" using snoc.prems(2) by (simp add: length_join_snoc)
  then have r: "op_lines ?r = g" "\<not> op_truncated ?r" "op_bytes ?r = length (join_lines g)" using snoc by simp_all
  have l: "ph_text ?line = Some l" "\<not> ph_truncated ?line" using plain_line [of l] snoc.prems(1) len by simp_all
  have "Option.bind (checked_sub_usize MAX_LINE_BYTES (op_bytes ?r)) (\<lambda>room. checked_sub_usize room ?sep) =
      Some (MAX_LINE_BYTES - length (join_lines g) - ?sep)"
    using len by (simp add: r(3) checked_sub_usize_def)
  moreover have "length l \<le> MAX_LINE_BYTES - length (join_lines g) - ?sep" using len by linarith
  ultimately show ?case
    using r l by (simp add: open_of_snoc open_push_def Let_def length_join_snoc)
qed (simp add: OpenRecord_new_def)

text \<open>So a record of short plain lines is delivered as it stands in the file.\<close>

lemma records_of_plain:
  assumes "\<forall>l \<in> set g. utf8_valid l \<and> (l \<noteq> [] \<longrightarrow> List.last l \<noteq> 13)" and "length (join_lines g) \<le> MAX_LINE_BYTES"
    and "\<exists>l \<in> set g. l \<noteq> []"
  shows "records_of track g = [\<lparr>lr_lines = g, lr_truncated = False\<rparr>]"
  using open_of_plain [OF assms(1,2), of track 0] assms(3) by (auto simp: records_of_def list_ex_iff)

text \<open>
  C35: a log file is read exactly once. In every run, whatever the batch sizes, short or failing reads, retries,
  restarts, growth and rotations, the acknowledged records of the current file are the records of the lines
  before the acknowledged offset, in order: the bytes before it are complete lines, they fall into groups of which every line
  continues the ones before, each group ends where the next line or an empty line does not continue it, and
  each group was delivered once. So no line is lost, repeated or torn by where a batch happened to end, and no
  record is longer than the limit.
\<close>

theorem acknowledged_exact:
  assumes "tail_run cont track f t acked pending" and "same_file f t"
  shows "\<exists>groups. grouped cont track (ff_content f) groups \<and>
    take (lp_offset (tt_position t)) (ff_content f) = unlines (concat groups) \<and>
    acked = concat (map (records_of track) groups) \<and> (\<forall>r \<in> set acked. length (record_joined r) \<le> MAX_LINE_BYTES)"
proof -
  obtain taken where "grouped cont track (ff_content f) taken" "lp_offset (tt_position t) = length (unlines (concat taken))"
    "acked = concat (map (records_of track) taken)"
    using tail_run_invariant [OF assms(1)] assms(2) unfolding tail_inv_def by auto
  then show ?thesis using grouped_bytes records_of_bound by (intro exI [of _ taken]) auto
qed

text \<open>
  C36: a batch that reports the end of the file has everything. Whether the tail was following this file, sees it for
  the first time or finds that another file took the name of the old one, the records of the batch and the ones
  of this file that were acknowledged before are those of all lines of the file, except for a last record that the
  rule holds open: what is left after the groups is a run of lines that continue each other and an unfinished line
  without a newline, and if lines are held back then the line is not finished or an empty line would
  continue them. A file is appended to or replaced, and shorter than \<open>2 ^ 64\<close> bytes.
\<close>

theorem eof_delivers_all:
  assumes "tail_run cont track f t acked pending" and "length (ff_content f) < 2 ^ 64"
    and "read_batch_configured cont max_records raw_limit track f io t = (Ok b, t')" and "tb_at_eof b"
  shows "(\<not> same_file f t \<longrightarrow> acked = []) \<and> same_file f t' \<and>
    (\<exists>groups held part. grouped cont track (ff_content f) groups \<and>
      ff_content f = unlines (concat groups) @ unlines held @ part \<and> 10 \<notin> set part \<and>
      chain_from cont track [] held \<and> (held = [] \<or> part \<noteq> [] \<or> continues_with cont track held []) \<and>
      acked @ tb_records b = concat (map (records_of track) groups))"
proof -
  note inv = tail_run_invariant [OF assms(1)]
  have called: "max_records \<noteq> 0" "raw_limit \<noteq> 0" "tt_pending_end t = None" "tc_open io = None"
    using assms(3) by (auto simp: read_batch_configured_def split: if_splits option.splits)
  obtain t1 where t1: "tail_inv cont track f t1 acked pending" "same_file f t1" "tt_pending_end t1 = None"
    and read: "read_batch_configured cont max_records raw_limit track f io t =
      (case tc_seek io of Some e \<Rightarrow> (Err (TailIo e), t1)
       | None \<Rightarrow> (case tail_scan cont track max_records raw_limit (ff_content f) (tt_scan_offset t1) (tc_reads io) t1 of
           (Ok b, t2) \<Rightarrow> (Ok b, t2) | (Err e, t2) \<Rightarrow> (Err e, reset_volatile t2)))"
    by (rule read_batch_start [OF inv called])
  obtain taken where start: "grouped cont track (ff_content f) taken" "lp_offset (tt_position t1) = length (unlines (concat taken))"
    "acked = concat (map (records_of track) taken)" "volatile_state cont track (ff_content f) (lp_offset (tt_position t1)) t1"
    "tt_scan_offset t1 \<le> length (ff_content f)"
    by (rule idle_state [OF t1])
  have "tail_scan cont track max_records raw_limit (ff_content f) (tt_scan_offset t1) (tc_reads io) t1 = (Ok b, t')"
    using assms(3) read by (auto split: option.splits sum.splits prod.splits)
  from tail_scan_state [OF start(4) t1(3) assms(2) _ this] called(1)
  obtain gs where gs: "batch_of cont track (ff_content f) t1 gs b t'" by auto
  then obtain op part m cand where
    sc: "scan_state cont track (ff_content f) (lp_offset (tt_position t1)) m gs op None part (t', tb_records b, cand)"
    and reached: "length (ff_content f) \<le> tt_scan_offset t'" and held: "op = [] \<or> part \<noteq> [] \<or> continues_with cont track op []"
    using assms(4) unfolding batch_of_def by auto
  note sd = scan_stateD [OF sc]
  let ?seen = "unlines (concat gs) @ unlines op @ part"
  have "drop (lp_offset (tt_position t1)) (ff_content f) = ?seen"
    using sd(1,3) reached by simp
  moreover have "take (lp_offset (tt_position t1)) (ff_content f) = unlines (concat taken)"
    using grouped_bytes [OF start(1)] start(2) by simp
  ultimately have "ff_content f = unlines (concat (taken @ gs)) @ unlines op @ part"
    using append_take_drop_id [of "lp_offset (tt_position t1)" "ff_content f"] by simp
  moreover have "grouped cont track (ff_content f) (taken @ gs)" using start(1,2) sd(4) by (simp add: grouped_append)
  moreover have "acked @ tb_records b = concat (map (records_of track) (taken @ gs))" using start(3) sd(12) by simp
  moreover have "same_file f t'" using gs t1(2) by (simp add: batch_of_def same_file_def)
  moreover have "\<not> same_file f t \<longrightarrow> acked = []" using inv by (simp add: tail_inv_def)
  ultimately show ?thesis using sd(6,11) held by blast
qed

section \<open>A concrete file\<close>

definition tab_continues :: continues where
  "tab_continues lines line odd_quotes \<longleftrightarrow> line \<noteq> [] \<and> hd line = 9"

definition sample_log :: followed_file where
  "sample_log = \<lparr>ff_dev = 1, ff_inode = 2, ff_content = [65, 10, 9, 66, 10, 67, 10]\<rparr>"

definition plain_calls :: tail_calls where
  "plain_calls = \<lparr>tc_open = None, tc_seek = None, tc_reads = [ReadAtMost 3]\<rparr>"

lemmas tail_eval = read_batch_configured_def sample_log_def plain_calls_def Tail_new_def default_position_def tail_reset_def
  reset_volatile_def tail_scan_def scan_staged_def scan_loop.simps scan_chunk.simps file_read_def memchr_def READ_BUF_BYTES_def
  partial_push_def PartialLine_new_def partial_finish_def MAX_LINE_BYTES_def quote_parity_def accept_line_def push_to_open_def
  open_push_def OpenRecord_new_def saturating_add_u64_def checked_sub_usize_def tab_continues_def flush_open_def
  flush_at_eof_def scan_end_def Let_def truncate_text_def partial_is_empty_def

lemma sample_first_batch:
  "\<exists>t. read_batch_configured tab_continues 1 100 True sample_log plain_calls (Tail_new default_position) =
     (Ok \<lparr>tb_records = [\<lparr>lr_lines = [[65], [9, 66]], lr_truncated = False\<rparr>], tb_raw_bytes = 7, tb_at_eof = False, tb_needs_ack = True\<rparr>, t) \<and>
     tt_pending_end t = Some \<lparr>lp_dev = 1, lp_inode = 2, lp_offset = 5\<rparr>"
  by (simp add: tail_eval)

lemma sample_whole_batch:
  "\<exists>b t. read_batch_configured tab_continues 5 100 True sample_log plain_calls
       (Tail_new \<lparr>lp_dev = 1, lp_inode = 2, lp_offset = 5\<rparr>) = (Ok b, t) \<and>
     tb_at_eof b \<and> tb_records b = [\<lparr>lr_lines = [[67]], lr_truncated = False\<rparr>]"
  by (simp add: tail_eval)

lemma sample_tail_run:
  "tail_run tab_continues True sample_log (Tail_new \<lparr>lp_dev = 1, lp_inode = 2, lp_offset = 5\<rparr>)
     [\<lparr>lr_lines = [[65], [9, 66]], lr_truncated = False\<rparr>] []"
proof -
  have len: "length (ff_content sample_log) < 2 ^ 64" by (simp add: sample_log_def)
  obtain t where t: "read_batch_configured tab_continues 1 100 True sample_log plain_calls (Tail_new default_position) =
     (Ok \<lparr>tb_records = [\<lparr>lr_lines = [[65], [9, 66]], lr_truncated = False\<rparr>], tb_raw_bytes = 7, tb_at_eof = False, tb_needs_ack = True\<rparr>, t)"
    "tt_pending_end t = Some \<lparr>lp_dev = 1, lp_inode = 2, lp_offset = 5\<rparr>"
    using sample_first_batch by blast
  obtain p t' where a: "tail_acknowledge t = (p, t')" by (rule prod.exhaust)
  then have "tt_position t' = \<lparr>lp_dev = 1, lp_inode = 2, lp_offset = 5\<rparr>" using t(2) by (auto simp: tail_acknowledge_def)
  with tail_run.restarted [OF tail_run.acknowledged [OF tail_run.batch [OF tail_run.start len t(1)] a]] show ?thesis by simp
qed

theorem acknowledged_exact_witness:
  "\<exists>groups. grouped tab_continues True (ff_content sample_log) groups \<and>
     take 5 (ff_content sample_log) = unlines (concat groups) \<and>
     [\<lparr>lr_lines = [[65], [9, 66]], lr_truncated = False\<rparr>] = concat (map (records_of True) groups)"
  using acknowledged_exact [OF sample_tail_run] by (auto simp: same_file_def Tail_new_def sample_log_def)

text \<open>The last batch of the file the tail follows, and the first batch of the file, with a tail that starts.\<close>

lemma sample_first_whole_batch:
  "\<exists>b t. read_batch_configured tab_continues 5 100 True sample_log plain_calls (Tail_new default_position) = (Ok b, t) \<and>
     tb_at_eof b \<and> tb_records b = [\<lparr>lr_lines = [[65], [9, 66]], lr_truncated = False\<rparr>, \<lparr>lr_lines = [[67]], lr_truncated = False\<rparr>]"
  by (simp add: tail_eval)

theorem eof_delivers_all_witness:
  "(\<exists>groups held part. grouped tab_continues True (ff_content sample_log) groups \<and>
     ff_content sample_log = unlines (concat groups) @ unlines held @ part \<and>
     [\<lparr>lr_lines = [[65], [9, 66]], lr_truncated = False\<rparr>] @ [\<lparr>lr_lines = [[67]], lr_truncated = False\<rparr>] =
       concat (map (records_of True) groups)) \<and>
   \<not> same_file sample_log (Tail_new default_position) \<and>
   (\<exists>groups held part. grouped tab_continues True (ff_content sample_log) groups \<and>
     ff_content sample_log = unlines (concat groups) @ unlines held @ part \<and>
     [] @ [\<lparr>lr_lines = [[65], [9, 66]], lr_truncated = False\<rparr>, \<lparr>lr_lines = [[67]], lr_truncated = False\<rparr>] =
       concat (map (records_of True) groups))"
proof -
  obtain b t where b: "read_batch_configured tab_continues 5 100 True sample_log plain_calls
       (Tail_new \<lparr>lp_dev = 1, lp_inode = 2, lp_offset = 5\<rparr>) = (Ok b, t)"
     "tb_at_eof b" "tb_records b = [\<lparr>lr_lines = [[67]], lr_truncated = False\<rparr>]"
    using sample_whole_batch by blast
  obtain b0 t0 where b0: "read_batch_configured tab_continues 5 100 True sample_log plain_calls (Tail_new default_position) = (Ok b0, t0)"
     "tb_at_eof b0" "tb_records b0 = [\<lparr>lr_lines = [[65], [9, 66]], lr_truncated = False\<rparr>, \<lparr>lr_lines = [[67]], lr_truncated = False\<rparr>]"
    using sample_first_whole_batch by blast
  have len: "length (ff_content sample_log) < 2 ^ 64" by (simp add: sample_log_def)
  have other: "\<not> same_file sample_log (Tail_new default_position)"
    by (simp add: sample_log_def same_file_def Tail_new_def default_position_def)
  note first = eof_delivers_all [OF tail_run.start len b0(1,2), unfolded b0(3), THEN conjunct2, THEN conjunct2]
  note later = eof_delivers_all [OF sample_tail_run len b(1,2), unfolded b(3), THEN conjunct2, THEN conjunct2]
  show ?thesis
  proof (intro conjI)
    show "\<not> same_file sample_log (Tail_new default_position)" by (rule other)
  qed (use first later in blast)+
qed

end
