(* ===== verification/Log_Offsets.thy ===== *)
theory Log_Offsets
  imports Log_Tail Ordered_Map Decimal "HOL-Library.List_Lexorder" "HOL-Library.Char_ord"
begin

text \<open>
  The offsets file of the followed logs (\<open>crates/kronika-source-log/src/offsets.rs\<close>): one line
  per source, rendered, parsed back after a restart, and replaced by a rename. Texts are lists of characters below
  256, so white space is the white space of that range.
\<close>

section \<open>Splitting\<close>

definition is_whitespace :: "char \<Rightarrow> bool" where
  "is_whitespace c \<longleftrightarrow> (let n = of_char c :: nat in 9 \<le> n \<and> n \<le> 13 \<or> n = 32 \<or> n = 0x85 \<or> n = 0xA0)"

text \<open>\<open>str::split_whitespace\<close>; the second argument is the word read so far.\<close>

fun split_words :: "string \<Rightarrow> string \<Rightarrow> string list" where
  "split_words [] word = (if word = [] then [] else [word])"
| "split_words (c # cs) word =
     (if is_whitespace c then (if word = [] then split_words cs [] else word # split_words cs [])
      else split_words cs (word @ [c]))"

text \<open>\<open>str::lines\<close>: a line ends at a newline, before which one carriage return is dropped.\<close>

definition chomp :: "string \<Rightarrow> string" where
  "chomp line = (if line \<noteq> [] \<and> List.last line = CHR 0x0D then butlast line else line)"

fun text_lines :: "string \<Rightarrow> string \<Rightarrow> string list" where
  "text_lines [] line = (if line = [] then [] else [line])"
| "text_lines (c # cs) line =
     (if c = CHR 0x0A then chomp line # text_lines cs [] else text_lines cs (line @ [c]))"

section \<open>Rendering and parsing\<close>



definition parse_u64 :: "string \<Rightarrow> nat option" where
  "parse_u64 = parse_unsigned u64_max"

definition parse_position :: "string \<Rightarrow> (string \<times> log_position) option" where
  "parse_position line =
     (case split_words line [] of
        name # dev # inode # offset # _ \<Rightarrow>
          Option.bind (parse_u64 dev) (\<lambda>dev.
          Option.bind (parse_u64 inode) (\<lambda>inode.
          Option.bind (parse_u64 offset) (\<lambda>offset.
            Some (name, \<lparr>lp_dev = of_nat dev, lp_inode = of_nat inode, lp_offset = offset\<rparr>))))
      | _ \<Rightarrow> None)"

fun parse_loop :: "string list \<Rightarrow> (string, log_position) omap \<Rightarrow> (string, log_position) omap" where
  "parse_loop [] positions = positions"
| "parse_loop (line # ls) positions =
     (case parse_position line of
        None \<Rightarrow> parse_loop ls positions
      | Some (name, p) \<Rightarrow> parse_loop ls (om_insert name p positions))"

definition parse_offsets :: "string \<Rightarrow> (string, log_position) omap" where
  "parse_offsets text = parse_loop (text_lines text []) []"

section \<open>The file\<close>

text \<open>
  The two names in the storage directory. Reading may fail, apart from a missing file, which is an empty one, and a
  call of \<open>save\<close> may fail at each of its steps.
\<close>

record offsets_dir =
  od_offsets :: "string option"
  od_temp :: "string option"


definition offsets_load :: "string option \<Rightarrow> offsets_dir \<Rightarrow> string + (string, log_position) omap" where
  "offsets_load fault d =
     (case fault of
        Some e \<Rightarrow> Err e
      | None \<Rightarrow> Ok (parse_offsets (case od_offsets d of None \<Rightarrow> [] | Some text \<Rightarrow> text)))"

definition offsets_get :: "(string, log_position) omap \<Rightarrow> string \<Rightarrow> log_position" where
  "offsets_get positions name = (case map_of positions name of None \<Rightarrow> default_position | Some p \<Rightarrow> p)"

definition offsets_set :: "string \<Rightarrow> log_position \<Rightarrow> (string, log_position) omap \<Rightarrow> (string, log_position) omap" where
  "offsets_set name p positions = om_insert name p positions"


section \<open>Lines and words read back\<close>

definition plain_name :: "string \<Rightarrow> bool" where
  "plain_name name \<longleftrightarrow> name \<noteq> [] \<and> list_all (\<lambda>c. \<not> is_whitespace c) name"


lemma digit_not_whitespace: "is_ascii_digit c \<Longrightarrow> \<not> is_whitespace c"
  by (auto simp: is_ascii_digit_def is_whitespace_def Let_def)

lemma plain_dec [simp]: "plain_name (dec n)"
  using dec_digits [of n] digit_not_whitespace by (auto simp: plain_name_def list_all_iff)




lemma split_words_all_plain:
  "list_all (\<lambda>c. \<not> is_whitespace c) word \<Longrightarrow> w \<in> set (split_words cs word) \<Longrightarrow> plain_name w"
  by (induction cs word rule: split_words.induct) (auto simp: plain_name_def split: if_splits)










text \<open>Only plain names are ever read back.\<close>

lemma parse_position_plain: "parse_position line = Some (name, p) \<Longrightarrow> plain_name name"
  using split_words_all_plain [of "[]" name line]
  by (auto simp: parse_position_def bind_eq_Some_conv split: list.splits)

lemma parse_loop_plain:
  "fst ` set positions \<subseteq> {n. plain_name n} \<Longrightarrow> fst ` set (parse_loop ls positions) \<subseteq> {n. plain_name n}"
proof (induction ls positions rule: parse_loop.induct)
  case (2 line ls positions)
  then show ?case
    using parse_position_plain by (auto split: option.splits simp: set_om_insert_keys)
qed simp


text \<open>
  The names are file paths, and a path with white space is not read back: after a restart
  its log is read from the start again.
\<close>

lemma spaced_name_lost:
  assumes "\<not> plain_name name" and "offsets_load None d = Ok positions"
  shows "offsets_get positions name = default_position"
proof -
  have "name \<notin> fst ` set positions"
    using parse_loop_plain [of "[]"] assms by (auto simp: offsets_load_def parse_offsets_def)
  then have "map_of positions name = None" by (simp only: map_of_eq_None_iff not_False_eq_True)
  then show ?thesis by (simp add: offsets_get_def)
qed


end
