(* ===== verification/Log_Paths.thy ===== *)
theory Log_Paths
  imports Glob "HOL-Library.List_Lexorder"
begin

text \<open>
  The filename patterns of the configured logs
  (\<open>bins/kronika-collector/src/log_sources/paths.rs\<close>). The matcher keeps the pattern as
  characters and remembers one star; it accepts the same names as a glob of the search that compares
  characters exactly. A directory is the list of its entries, each of which may fail.
\<close>

section \<open>Matching a name\<close>

text \<open>\<open>42\<close> is the star and \<open>63\<close> the question mark; \<open>None\<close> is \<open>return false\<close>.\<close>

function path_loop ::
  "unicode list \<Rightarrow> unicode list \<Rightarrow> nat \<Rightarrow> nat \<Rightarrow> nat option \<Rightarrow> nat \<Rightarrow> nat option" where
  "path_loop pattern name p n star resume =
     (if n < length name then
        (if p < length pattern \<and> pattern ! p = 42 then path_loop pattern name (p + 1) n (Some p) n
         else if p < length pattern \<and> pattern ! p = 63 then path_loop pattern name (p + 1) (n + 1) star resume
         else if p < length pattern \<and> pattern ! p = name ! n then path_loop pattern name (p + 1) (n + 1) star resume
         else case star of
                None \<Rightarrow> None
              | Some last_star \<Rightarrow> path_loop pattern name (last_star + 1) (resume + 1) star (resume + 1))
      else Some p)"
  by pat_completeness auto
termination
  by (relation "measures [\<lambda>(pattern, name, p, n, star, resume). if n < resume then 1 else 0,
      \<lambda>(pattern, name, p, n, star, resume). length name - resume,
      \<lambda>(pattern, name, p, n, star, resume). length pattern - p]") auto

declare path_loop.simps [simp del]

definition path_matches :: "unicode list \<Rightarrow> unicode list \<Rightarrow> bool" where
  "path_matches pattern name =
     (case path_loop pattern name 0 0 None 0 of
        None \<Rightarrow> False
      | Some p \<Rightarrow> list_all (\<lambda>c. c = 42) (drop p pattern))"

definition is_pattern :: "unicode list \<Rightarrow> bool" where
  "is_pattern entry \<longleftrightarrow> 42 \<in> set entry \<or> 63 \<in> set entry"

section \<open>Expanding an entry\<close>

text \<open>
  An entry of the directory: its name, when that is text, and the answer of \<open>file_type\<close>, whether it is a
  regular file. \<open>parts\<close> stands for \<open>Path\<close>: it splits an entry into its directory and file name.
\<close>

record log_dir_entry =
  le_name :: "unicode list option"
  le_path :: "unicode list"
  le_is_file :: "string + bool"

record expansion =
  ex_paths :: "unicode list list"
  ex_complete :: bool

fun matching_loop :: "unicode list \<Rightarrow> (string + log_dir_entry) list \<Rightarrow> expansion \<Rightarrow> expansion" where
  "matching_loop pattern [] x = x"
| "matching_loop pattern (Inl e # es) x = matching_loop pattern es (x\<lparr>ex_complete := False\<rparr>)"
| "matching_loop pattern (Inr entry # es) x =
     (if \<not> (case le_name entry of None \<Rightarrow> False | Some name \<Rightarrow> path_matches pattern name) then matching_loop pattern es x
      else case le_is_file entry of
        Ok True \<Rightarrow> matching_loop pattern es (x\<lparr>ex_paths := ex_paths x @ [le_path entry]\<rparr>)
      | Ok False \<Rightarrow> matching_loop pattern es x
      | Err e \<Rightarrow> matching_loop pattern es (x\<lparr>ex_complete := False\<rparr>))"

definition matching_files :: "unicode list \<Rightarrow> (string + log_dir_entry) list \<Rightarrow> expansion" where
  "matching_files pattern es =
     (let x = matching_loop pattern es \<lparr>ex_paths = [], ex_complete = True\<rparr> in x\<lparr>ex_paths := sort (ex_paths x)\<rparr>)"

definition expand_entry ::
  "(unicode list \<Rightarrow> unicode list \<times> unicode list option) \<Rightarrow> (unicode list \<Rightarrow> string + (string + log_dir_entry) list) \<Rightarrow>
     unicode list \<Rightarrow> expansion" where
  "expand_entry parts read_dir entry =
     (if \<not> is_pattern entry then \<lparr>ex_paths = [entry], ex_complete = True\<rparr>
      else case parts entry of
        (_, None) \<Rightarrow> \<lparr>ex_paths = [], ex_complete = False\<rparr>
      | (parent, Some pattern) \<Rightarrow>
          (case read_dir (if parent = [] then [46] else parent) of
             Err e \<Rightarrow> \<lparr>ex_paths = [], ex_complete = False\<rparr>
           | Ok es \<Rightarrow> matching_files pattern es))"

section \<open>The matcher is a glob that compares exactly\<close>

lemma glob_token_of_cases [simp]:
  "glob_token_of 42 = GlobStar" "glob_token_of 63 = GlobAny" "c \<noteq> 42 \<Longrightarrow> c \<noteq> 63 \<Longrightarrow> glob_token_of c = GlobLiteral c"
  "glob_token_of c = GlobStar \<longleftrightarrow> c = 42"
  by (simp_all add: glob_token_of_def)

lemma path_loop_glob:
  assumes "star \<noteq> None \<longrightarrow> resume \<le> n"
  shows "path_loop pattern name p n star resume = glob_loop (\<lambda>c. [c]) (map glob_token_of pattern) name p n star resume"
  using assms
proof (induction pattern name p n star resume rule: path_loop.induct)
  case (1 pattern name p n star resume)
  have tok: "token_at (map glob_token_of pattern) p = (if p < length pattern then Some (glob_token_of (pattern ! p)) else None)"
    by (simp add: token_at_def)
  show ?case
  proof (cases "n < length name")
    case True
    note ih = "1.IH" [OF True]
    consider (star) "p < length pattern \<and> pattern ! p = 42" | (any) "p < length pattern \<and> pattern ! p = 63"
      | (literal) "p < length pattern \<and> pattern ! p \<noteq> 42 \<and> pattern ! p \<noteq> 63 \<and> pattern ! p = name ! n"
      | (miss) "\<not> (p < length pattern \<and> (pattern ! p = 42 \<or> pattern ! p = 63 \<or> pattern ! p = name ! n))" by blast
    then show ?thesis
    proof cases
      case star
      with ih(1) True show ?thesis
        by (simp add: path_loop.simps [of _ _ p] glob_loop.simps [of _ _ _ p] tok)
    next
      case any
      moreover have "star \<noteq> None \<longrightarrow> resume \<le> n + 1" using "1.prems" by auto
      ultimately show ?thesis using ih(2) True
        by (simp add: path_loop.simps [of _ _ p] glob_loop.simps [of _ _ _ p] tok)
    next
      case literal
      moreover have "star \<noteq> None \<longrightarrow> resume \<le> n + 1" using "1.prems" by auto
      ultimately show ?thesis using ih(3) True
        by (simp add: path_loop.simps [of _ _ p] glob_loop.simps [of _ _ _ p] tok unicode_char_equal_def)
    next
      case miss
      show ?thesis
      proof (cases star)
        case None
        with miss True show ?thesis
          by (auto simp: path_loop.simps [of _ _ p] glob_loop.simps [of _ _ _ p] tok unicode_char_equal_def)
      next
        case (Some k)
        have "path_loop pattern name (k + 1) (resume + 1) star (resume + 1) =
            glob_loop (\<lambda>c. [c]) (map glob_token_of pattern) name (k + 1) (resume + 1) star (resume + 1)"
          using ih(4) miss Some by blast
        moreover have "resume < length name" using True "1.prems" Some by simp
        ultimately show ?thesis using miss True Some
          by (auto simp: path_loop.simps [of _ _ p] glob_loop.simps [of _ _ _ p] tok unicode_char_equal_def)
      qed
    qed
  qed (simp add: path_loop.simps [of _ _ p] glob_loop.simps [of _ _ _ p])
qed

lemma skip_stars_all:
  "p \<le> length pattern \<Longrightarrow>
     skip_stars (map glob_token_of pattern) p = length pattern \<longleftrightarrow> list_all (\<lambda>c. c = 42) (drop p pattern)"
proof -
  assume p: "p \<le> length pattern"
  have "length (takeWhile (\<lambda>c. c = 42) xs) = length xs \<longleftrightarrow> list_all (\<lambda>c. c = 42) xs" for xs :: "unicode list"
    by (induction xs) auto
  from this [of "drop p pattern"] show ?thesis
    using p by (auto simp: skip_stars_def drop_map takeWhile_map comp_def)
qed

lemma path_loop_index:
  assumes "p \<le> length pattern" and "star \<noteq> None \<longrightarrow> the star < length pattern"
    and "path_loop pattern name p n star resume = Some j"
  shows "j \<le> length pattern"
  using assms
proof (induction pattern name p n star resume rule: path_loop.induct)
  case (1 pattern name p n star resume)
  then show ?case
    by (subst (asm) (2) path_loop.simps) (auto split: if_splits option.splits)
qed

text \<open>
  C40: the patterns of log files select by shell rules. A name matches when it is what the pattern
  means, with a star for any characters, a question mark for one, and every other character for itself; and the matcher is the
  one of the search with exact comparison.
\<close>

theorem path_matches_spec:
  "path_matches pattern name \<longleftrightarrow> glob_spec (\<lambda>c. [c]) (map glob_token_of pattern) name"
proof -
  have "path_loop pattern name 0 0 None 0 = glob_loop (\<lambda>c. [c]) (map glob_token_of pattern) name 0 0 None 0"
    by (rule path_loop_glob) simp
  then have "path_matches pattern name \<longleftrightarrow> glob_matches (\<lambda>c. [c]) (map glob_token_of pattern) name"
    using path_loop_index [of 0 pattern None name 0 0]
    by (auto simp: path_matches_def glob_matches_def skip_stars_all split: option.splits)
  then show ?thesis by (simp add: glob_matches_loop)
qed

text \<open>What an expansion lists: the regular files whose names match, sorted; complete when nothing failed.\<close>

lemma matching_loop_paths:
  "ex_paths (matching_loop pattern es x) = ex_paths x @
     map le_path (filter (\<lambda>e. (\<exists>name. le_name e = Some name \<and> path_matches pattern name) \<and> le_is_file e = Ok True)
       (List.map_filter (\<lambda>r. case r of Inl _ \<Rightarrow> None | Inr e \<Rightarrow> Some e) es))"
  by (induction pattern es x rule: matching_loop.induct)
    (auto simp: map_filter_simps split: option.splits sum.splits bool.splits)

end
