(* ===== verification/Log_Normalize.thy ===== *)
theory Log_Normalize
  imports Utf8
begin

text \<open>
  Grouping the errors of a PostgreSQL log by what they say
  (\<open>crates/kronika-source-log/src/postgres/normalize.rs\<close> and the error groups of
  \<open>postgres/events.rs\<close>). Texts are the bytes of their UTF-8 encoding; every byte the code looks for
  is an ASCII character, which no other character's encoding contains.
\<close>

definition MAX_PATTERN_BYTES :: usize where "MAX_PATTERN_BYTES = 256"
definition MAX_TEXT_BYTES :: usize where "MAX_TEXT_BYTES = 5120"

section \<open>Texts\<close>

definition ascii :: "string \<Rightarrow> bytes" where "ascii s = map of_char s"

definition starts_with :: "bytes \<Rightarrow> bytes \<Rightarrow> bool" where
  "starts_with s p \<longleftrightarrow> take (length p) s = p"

text \<open>\<open>str::find\<close> of a text, and \<open>str::contains\<close>.\<close>

fun find_text :: "bytes \<Rightarrow> bytes \<Rightarrow> nat option" where
  "find_text [] p = (if p = [] then Some 0 else None)"
| "find_text (b # s) p = (if starts_with (b # s) p then Some 0 else map_option Suc (find_text s p))"

definition contains_text :: "bytes \<Rightarrow> bytes \<Rightarrow> bool" where
  "contains_text s p \<longleftrightarrow> find_text s p \<noteq> None"

definition is_digit :: "u8 \<Rightarrow> bool" where "is_digit b \<longleftrightarrow> byte_in 48 57 b"
definition is_alphanumeric :: "u8 \<Rightarrow> bool" where
  "is_alphanumeric b \<longleftrightarrow> byte_in 48 57 b \<or> byte_in 65 90 b \<or> byte_in 97 122 b"
definition is_hexdigit :: "u8 \<Rightarrow> bool" where
  "is_hexdigit b \<longleftrightarrow> byte_in 48 57 b \<or> byte_in 65 70 b \<or> byte_in 97 102 b"
definition is_ident_byte :: "u8 \<Rightarrow> bool" where
  "is_ident_byte b \<longleftrightarrow> is_alphanumeric b \<or> b = 95"

definition ascii_lowercase :: "bytes \<Rightarrow> bytes" where
  "ascii_lowercase s = map (\<lambda>b. if byte_in 65 90 b then b + 32 else b) s"

definition byte_at :: "bytes \<Rightarrow> nat \<Rightarrow> u8 option" where
  "byte_at s i = (if i < length s then Some (s ! i) else None)"

definition byte_is :: "(u8 \<Rightarrow> bool) \<Rightarrow> bytes \<Rightarrow> nat \<Rightarrow> bool" where
  "byte_is P s i \<longleftrightarrow> (case byte_at s i of None \<Rightarrow> False | Some b \<Rightarrow> P b)"

section \<open>Replacing the values of a message\<close>

definition strip_at_character :: "bytes \<Rightarrow> bytes" where
  "strip_at_character s = (case find_text s (ascii '' at character '') of None \<Rightarrow> s | Some pos \<Rightarrow> take pos s)"

text \<open>
  The iterator of the inner loop is the one of the outer loop, so a quote without a partner
  consumes the rest of the text.
\<close>

function replace_quoted_loop :: "u8 \<Rightarrow> bytes \<Rightarrow> bytes \<Rightarrow> bytes" where
  "replace_quoted_loop q r [] = []"
| "replace_quoted_loop q r (b # s) =
     (if b \<noteq> q then b # replace_quoted_loop q r s
      else case dropWhile (\<lambda>x. x \<noteq> q) s of
        [] \<Rightarrow> [q]
      | _ # rest \<Rightarrow>
          (if takeWhile (\<lambda>x. x \<noteq> q) s = [] then [q, q] else r) @ replace_quoted_loop q r rest)"
  by pat_completeness auto
termination
proof (relation "measure (\<lambda>(q, r, s). length s)", goal_cases)
  case (3 q r b s x rest)
  have "length (dropWhile (\<lambda>x. x \<noteq> q) s) \<le> length s" by (rule length_dropWhile_le)
  then show ?case using 3 by simp
qed simp_all

definition replace_quoted :: "u8 \<Rightarrow> bytes \<Rightarrow> bytes \<Rightarrow> bytes" where
  "replace_quoted q r s = (if q \<notin> set s then s else replace_quoted_loop q r s)"

function replace_delimited_loop :: "u8 \<Rightarrow> u8 \<Rightarrow> bytes \<Rightarrow> bytes \<Rightarrow> bytes" where
  "replace_delimited_loop open_at close r [] = []"
| "replace_delimited_loop open_at close r (b # s) =
     (if b \<noteq> open_at then b # replace_delimited_loop open_at close r s
      else case dropWhile (\<lambda>x. x \<noteq> close) s of
        [] \<Rightarrow> [open_at]
      | _ # rest \<Rightarrow> r @ replace_delimited_loop open_at close r rest)"
  by pat_completeness auto
termination
proof (relation "measure (\<lambda>(open_at, close, r, s). length s)", goal_cases)
  case (3 open_at close r b s x rest)
  have "length (dropWhile (\<lambda>x. x \<noteq> close) s) \<le> length s" by (rule length_dropWhile_le)
  then show ?case using 3 by simp
qed simp_all

definition replace_delimited :: "u8 \<Rightarrow> u8 \<Rightarrow> bytes \<Rightarrow> bytes \<Rightarrow> bytes" where
  "replace_delimited open_at close r s = (if open_at \<notin> set s then s else replace_delimited_loop open_at close r s)"

definition replace_after :: "bytes \<Rightarrow> (u8 \<Rightarrow> bool) \<Rightarrow> bytes \<Rightarrow> bytes" where
  "replace_after prefix keep s =
     (case find_text s prefix of
        None \<Rightarrow> s
      | Some pos \<Rightarrow>
          let after = pos + length prefix;
              rest = drop after s
          in if \<not> byte_is keep rest 0 then s
             else take after s @ ascii ''...'' @ drop (length (takeWhile keep rest)) rest)"

text \<open>One byte at a time where the code copies a character: no byte of a longer encoding is a digit.\<close>

function wal_address_loop :: "bytes \<Rightarrow> nat \<Rightarrow> bytes \<Rightarrow> bytes" where
  "wal_address_loop s idx out =
     (if idx < length s then
        if \<not> is_hexdigit (s ! idx) then wal_address_loop s (idx + 1) (out @ [s ! idx])
        else
          let first_len = length (takeWhile is_hexdigit (drop idx s));
              slash = idx + first_len
          in if byte_at s slash \<noteq> Some 47 \<or> \<not> (1 \<le> first_len \<and> first_len \<le> 8)
             then wal_address_loop s slash (out @ slice_of idx first_len s)
             else
               let second_len = length (takeWhile is_hexdigit (drop (slash + 1) s));
                   idx2 = slash + 1 + second_len;
                   before_ok = (idx = 0 \<or> \<not> byte_is is_alphanumeric s (idx - 1));
                   after_ok = (\<not> byte_is is_alphanumeric s idx2)
               in wal_address_loop s idx2
                    (if 1 \<le> second_len \<and> second_len \<le> 8 \<and> before_ok \<and> after_ok then out @ ascii ''x/x''
                     else out @ slice_of idx (idx2 - idx) s)
      else out)"
  by pat_completeness auto
termination
proof (relation "measure (\<lambda>(s, idx, out). length s - idx)", goal_cases)
  case (3 s idx out first_len slash)
  then have "0 < first_len" by (cases "drop idx s") (auto simp: hd_drop_conv_nth [symmetric] drop_eq_Nil)
  then show ?case using 3 by (simp add: diff_less_mono2)
qed auto

definition replace_wal_address :: "bytes \<Rightarrow> bytes" where
  "replace_wal_address s = (if 47 \<in> set s then wal_address_loop s 0 [] else s)"

definition cut_at :: "nat \<Rightarrow> bytes \<Rightarrow> bytes \<Rightarrow> bytes" where
  "cut_at pos suffix s = take pos s @ suffix"

definition replace_syntax_value :: "bytes \<Rightarrow> bytes" where
  "replace_syntax_value s =
     (case find_text s (ascii ''invalid input syntax for '') of
        None \<Rightarrow> s
      | Some pos \<Rightarrow>
          (case find_text (drop pos s) (ascii '': '') of
             None \<Rightarrow> s
           | Some colon \<Rightarrow> cut_at (pos + colon + 2) (ascii ''...'') s))"

definition DENIED_OBJECTS :: "bytes list" where
  "DENIED_OBJECTS = map ascii [''permission denied for table '', ''permission denied for schema '',
     ''permission denied for sequence '', ''permission denied for function '', ''permission denied for database '']"

fun replace_denied :: "bytes list \<Rightarrow> bytes \<Rightarrow> bytes \<Rightarrow> bytes" where
  "replace_denied [] lower s = s"
| "replace_denied (object # objects) lower s =
     (case find_text lower object of
        None \<Rightarrow> replace_denied objects lower s
      | Some pos \<Rightarrow> cut_at (pos + length object) (ascii ''...'') s)"

definition replace_encoding :: "bytes \<Rightarrow> bytes" where
  "replace_encoding s =
     (let marker = ascii ''byte sequence for encoding'' in
      case find_text s marker of None \<Rightarrow> s | Some pos \<Rightarrow> cut_at (pos + length marker) (ascii '' ...'') s)"

definition COUNTED_PREFIXES :: "bytes list" where
  "COUNTED_PREFIXES = map ascii [''transaction '', ''relation '', ''process '', ''database '', ''PID '', ''signal '', ''on page '']"

definition replace_word_patterns :: "bytes \<Rightarrow> bytes" where
  "replace_word_patterns s =
     (let s = foldl (\<lambda>s prefix. replace_after prefix is_digit s) s COUNTED_PREFIXES;
          s = replace_after (ascii ''after '') (\<lambda>b. is_digit b \<or> b = 46) s;
          s = replace_wal_address s;
          s = replace_syntax_value s;
          s = replace_denied DENIED_OBJECTS (ascii_lowercase s) s
      in replace_encoding s)"

definition normalize_error :: "bytes \<Rightarrow> bytes" where
  "normalize_error message =
     (let s = strip_at_character message;
          s = replace_quoted 34 (ascii ''\"...\"'') s;
          s = replace_quoted 39 ([39] @ ascii ''...'' @ [39]) s;
          s = replace_delimited 40 41 (ascii ''(...)'') s;
          s = replace_delimited 91 93 (ascii ''[...]'') s
      in truncate_text (replace_word_patterns s) MAX_PATTERN_BYTES)"

function numeric_loop :: "bytes \<Rightarrow> nat \<Rightarrow> bytes \<Rightarrow> bytes" where
  "numeric_loop s idx out =
     (if idx < length s then
        if \<not> is_digit (s ! idx) then numeric_loop s (idx + 1) (out @ [s ! idx])
        else
          let n = length (takeWhile (\<lambda>b. is_digit b \<or> b = 46) (drop idx s));
              before_ok = (idx = 0 \<or> \<not> byte_is is_ident_byte s (idx - 1));
              after_ok = (\<not> byte_is is_ident_byte s (idx + n))
          in numeric_loop s (idx + n) (if before_ok \<and> after_ok then out @ ascii ''...'' else out @ slice_of idx n s)
      else out)"
  by pat_completeness auto
termination
proof (relation "measure (\<lambda>(s, idx, out). length s - idx)", goal_cases)
  case (3 s idx out n before_ok after_ok)
  then have "0 < n" by (cases "drop idx s") (auto simp: hd_drop_conv_nth [symmetric] drop_eq_Nil)
  then show ?case using 3 by (simp add: diff_less_mono2)
qed auto

definition normalize_sql :: "bytes \<Rightarrow> bytes" where
  "normalize_sql sql = truncate_text (numeric_loop (normalize_error sql) 0 []) MAX_PATTERN_BYTES"

declare wal_address_loop.simps [simp del] numeric_loop.simps [simp del]

section \<open>Classifying\<close>

datatype severity = SevLog | SevWarning | SevError | SevFatal | SevPanic

fun severity_code :: "severity \<Rightarrow> nat" where
  "severity_code SevError = 0"
| "severity_code SevFatal = 1"
| "severity_code SevPanic = 2"
| "severity_code SevWarning = 3"
| "severity_code SevLog = 4"

definition severity_parse :: "bytes \<Rightarrow> severity option" where
  "severity_parse value =
     (if value = ascii ''LOG'' then Some SevLog
      else if value = ascii ''WARNING'' then Some SevWarning
      else if value = ascii ''ERROR'' then Some SevError
      else if value = ascii ''FATAL'' then Some SevFatal
      else if value = ascii ''PANIC'' then Some SevPanic
      else None)"

datatype error_category =
  CatLock | CatConstraint | CatSerialization | CatTimeout | CatResource | CatDataCorruption | CatSystem | CatConnection
  | CatAuth | CatSyntax | CatOther

fun category_code :: "error_category \<Rightarrow> nat" where
  "category_code CatLock = 0"
| "category_code CatConstraint = 1"
| "category_code CatSerialization = 2"
| "category_code CatTimeout = 3"
| "category_code CatResource = 4"
| "category_code CatDataCorruption = 5"
| "category_code CatSystem = 6"
| "category_code CatConnection = 7"
| "category_code CatAuth = 8"
| "category_code CatSyntax = 9"
| "category_code CatOther = 10"

definition FAMILIES :: "(error_category \<times> string list) list" where
  "FAMILIES =
    [(CatLock, [''deadlock detected'', ''could not obtain lock'', ''lock timeout'', ''still waiting for'']),
     (CatConstraint, [''duplicate key'', ''violates foreign key'', ''violates not-null'', ''violates check'',
        ''violates exclusion'', ''null value in column'']),
     (CatSerialization, [''could not serialize access'']),
     (CatTimeout, [''statement timeout'', ''idle-in-transaction session timeout'', ''transaction timeout'',
        ''idle session timeout'', ''canceling statement due to user request'']),
     (CatResource, [''out of memory'', ''out of shared memory'', ''too many connections'', ''disk full'',
        ''could not extend'', ''remaining connection slots'']),
     (CatDataCorruption, [''invalid page'', ''could not read block'', ''data corrupted'', ''index corrupted'',
        ''unexpected zero page'', ''invalid checkpoint record'', ''invalid memory alloc'']),
     (CatSystem, [''could not open file'', ''i/o error'', ''crash shutdown'', ''server process'', ''shutting down'']),
     (CatConnection, [''connection reset by peer'', ''unexpected eof'', ''broken pipe'', ''could not receive data'',
        ''could not send data'', ''terminating connection'']),
     (CatAuth, [''password authentication failed'', ''no pg_hba.conf entry'', ''role '', ''permission denied'',
        ''ssl connection is required'']),
     (CatSyntax, [''syntax error'', ''does not exist'', ''invalid input syntax'', ''division by zero'', ''value too long''])]"

definition is_oom_kill :: "bytes \<Rightarrow> bool" where
  "is_oom_kill lower \<longleftrightarrow> contains_text lower (ascii ''terminated by signal'') \<and> contains_text lower (ascii '': killed'')"

definition first_match :: "bytes \<Rightarrow> error_category option" where
  "first_match lower =
     (if is_oom_kill lower then Some CatResource
      else map_option fst (List.find (\<lambda>(category, phrases). list_ex (\<lambda>phrase. contains_text lower (ascii phrase)) phrases) FAMILIES))"

definition classify_error :: "bytes \<Rightarrow> severity \<Rightarrow> error_category" where
  "classify_error pattern severity =
     (if severity = SevPanic then CatDataCorruption
      else
        let category = (case first_match (ascii_lowercase pattern) of None \<Rightarrow> CatOther | Some c \<Rightarrow> c)
        in if category = CatOther \<and> severity = SevFatal then CatSystem else category)"

section \<open>Error groups\<close>

record pg_record =
  pr_ts :: i64
  pr_severity :: severity
  pr_sqlstate :: "bytes option"
  pr_message :: bytes
  pr_detail :: "bytes option"
  pr_hint :: "bytes option"
  pr_context :: "bytes option"
  pr_statement :: "bytes option"
  pr_database :: "bytes option"
  pr_username :: "bytes option"

record error_group =
  eg_ts :: i64
  eg_severity :: severity
  eg_category :: error_category
  eg_sqlstate :: "bytes option"
  eg_pattern :: bytes
  eg_count :: u32
  eg_sample :: bytes
  eg_detail :: "bytes option"
  eg_hint :: "bytes option"
  eg_context :: "bytes option"
  eg_statement :: "bytes option"
  eg_database :: "bytes option"
  eg_username :: "bytes option"

type_synonym error_key = "severity \<times> error_category \<times> bytes"

record error_groups =
  ev_errors :: "error_group list"
  ev_grouped :: "(error_key \<times> nat) list"

definition saturating_inc :: "u32 \<Rightarrow> u32" where
  "saturating_inc n = (if n = 2 ^ 32 - 1 then n else n + 1)"

definition key_of :: "pg_record \<Rightarrow> error_key" where
  "key_of r = (let pattern = normalize_error (pr_message r) in
     (pr_severity r, classify_error pattern (pr_severity r), pattern))"

definition group_of_record :: "pg_record \<Rightarrow> error_group" where
  "group_of_record r =
     (let pattern = normalize_error (pr_message r) in
      \<lparr>eg_ts = pr_ts r, eg_severity = pr_severity r, eg_category = classify_error pattern (pr_severity r),
       eg_sqlstate = pr_sqlstate r, eg_pattern = pattern, eg_count = 1, eg_sample = truncate_text (pr_message r) MAX_TEXT_BYTES,
       eg_detail = pr_detail r, eg_hint = pr_hint r, eg_context = pr_context r, eg_statement = pr_statement r,
       eg_database = pr_database r, eg_username = pr_username r\<rparr>)"

definition add_error :: "pg_record \<Rightarrow> error_groups \<Rightarrow> error_groups" where
  "add_error r ev =
     (case map_of (ev_grouped ev) (key_of r) of
        Some index \<Rightarrow>
          if index < length (ev_errors ev)
          then let g = ev_errors ev ! index in
               ev\<lparr>ev_errors := (ev_errors ev)[index := g\<lparr>eg_count := saturating_inc (eg_count g)\<rparr>]\<rparr>
          else ev\<lparr>ev_grouped := (key_of r, length (ev_errors ev)) # ev_grouped ev, ev_errors := ev_errors ev @ [group_of_record r]\<rparr>
      | None \<Rightarrow>
          ev\<lparr>ev_grouped := (key_of r, length (ev_errors ev)) # ev_grouped ev, ev_errors := ev_errors ev @ [group_of_record r]\<rparr>)"

definition no_groups :: error_groups where
  "no_groups = \<lparr>ev_errors = [], ev_grouped = []\<rparr>"

definition finish_groups :: "error_groups \<Rightarrow> error_groups" where
  "finish_groups ev = ev\<lparr>ev_grouped := []\<rparr>"

definition group_errors :: "pg_record list \<Rightarrow> error_group list" where
  "group_errors rs = ev_errors (finish_groups (foldl (\<lambda>ev r. add_error r ev) no_groups rs))"

section \<open>What the groups are\<close>

definition first_keys :: "error_key list \<Rightarrow> error_key list" where
  "first_keys ks = rev (remdups (rev ks))"

definition occurrences :: "pg_record list \<Rightarrow> error_key \<Rightarrow> pg_record list" where
  "occurrences rs k = filter (\<lambda>r. key_of r = k) rs"

definition group_for :: "pg_record list \<Rightarrow> error_key \<Rightarrow> error_group" where
  "group_for rs k = (group_of_record (hd (occurrences rs k)))
     \<lparr>eg_count := of_nat (min (length (occurrences rs k)) (2 ^ 32 - 1))\<rparr>"

lemma first_keys_snoc: "first_keys (ks @ [k]) = (if k \<in> set ks then first_keys ks else first_keys ks @ [k])"
  by (simp add: first_keys_def)

lemma set_first_keys [simp]: "set (first_keys ks) = set ks"
  by (simp add: first_keys_def)

lemma distinct_first_keys [simp]: "distinct (first_keys ks)"
  by (simp add: first_keys_def)

lemma saturating_inc_min: "saturating_inc (of_nat (min n (2 ^ 32 - 1))) = of_nat (min (Suc n) (2 ^ 32 - 1))"
proof (cases "n < 2 ^ 32 - 1")
  case True
  then have "unat (of_nat n :: u32) = n" by (simp add: unat_of_nat_u32)
  then have "of_nat n \<noteq> (2 ^ 32 - 1 :: u32)" using True by auto
  then show ?thesis using True by (simp add: saturating_inc_def min_def)
qed (simp add: saturating_inc_def min_def)

definition groups_inv :: "pg_record list \<Rightarrow> error_groups \<Rightarrow> bool" where
  "groups_inv rs ev \<longleftrightarrow>
     ev_errors ev = map (group_for rs) (first_keys (map key_of rs)) \<and>
     (\<forall>k i. map_of (ev_grouped ev) k = Some i \<longleftrightarrow> i < length (first_keys (map key_of rs)) \<and> first_keys (map key_of rs) ! i = k)"

lemma occurrences_snoc: "occurrences (rs @ [r]) k = occurrences rs k @ (if key_of r = k then [r] else [])"
  by (simp add: occurrences_def)

lemma add_error_inv:
  assumes "groups_inv rs ev"
  shows "groups_inv (rs @ [r]) (add_error r ev)"
proof -
  let ?ks = "first_keys (map key_of rs)" and ?k = "key_of r"
  have errors: "ev_errors ev = map (group_for rs) ?ks"
    and index: "\<And>k i. map_of (ev_grouped ev) k = Some i \<longleftrightarrow> i < length ?ks \<and> ?ks ! i = k"
    using assms by (auto simp: groups_inv_def)
  have other: "group_for (rs @ [r]) k = group_for rs k" if "k \<noteq> ?k" for k
    using that by (simp add: group_for_def occurrences_snoc)
  show ?thesis
  proof (cases "?k \<in> set ?ks")
    case True
    then obtain i where i: "i < length ?ks" "?ks ! i = ?k" unfolding in_set_conv_nth by blast
    then have look: "map_of (ev_grouped ev) ?k = Some i" by (simp add: index)
    have some: "occurrences rs ?k \<noteq> []" using True by (auto simp: occurrences_def filter_empty_conv)
    have "group_for (rs @ [r]) ?k = (group_for rs ?k)\<lparr>eg_count := saturating_inc (eg_count (group_for rs ?k))\<rparr>"
      using some saturating_inc_min [of "length (occurrences rs ?k)"]
      by (simp add: group_for_def occurrences_snoc)
    moreover have "group_for (rs @ [r]) (?ks ! j) = group_for rs (?ks ! j)" if "j < length ?ks" "j \<noteq> i" for j
      using that i distinct_first_keys [of "map key_of rs"] by (intro other) (metis nth_eq_iff_index_eq)
    ultimately have "map (group_for (rs @ [r])) ?ks =
        (map (group_for rs) ?ks)[i := (group_for rs ?k)\<lparr>eg_count := saturating_inc (eg_count (group_for rs ?k))\<rparr>]"
      using i by (intro nth_equalityI) (auto simp add: nth_list_update)
    then have "ev_errors (add_error r ev) = map (group_for (rs @ [r])) ?ks" "ev_grouped (add_error r ev) = ev_grouped ev"
      using i by (simp_all add: add_error_def look errors Let_def)
    moreover have "first_keys (map key_of (rs @ [r])) = ?ks" using True by (simp add: first_keys_snoc)
    ultimately show ?thesis unfolding groups_inv_def by (simp only: index) simp
  next
    case False
    then have look: "map_of (ev_grouped ev) ?k = None"
      using index by (metis not_None_eq nth_mem)
    have "key_of x \<noteq> ?k" if "x \<in> set rs" for x using False that by (metis imageI list.set_map set_first_keys)
    then have new: "occurrences rs ?k = []" by (simp add: occurrences_def filter_empty_conv)
    have "map (group_for (rs @ [r])) ?ks = map (group_for rs) ?ks" using False by (intro map_cong refl other) blast
    moreover have "group_for (rs @ [r]) ?k = group_of_record r"
      by (simp add: group_for_def occurrences_snoc new group_of_record_def Let_def)
    moreover have "first_keys (map key_of (rs @ [r])) = ?ks @ [?k]" using False by (simp add: first_keys_snoc)
    ultimately have "ev_errors (add_error r ev) = map (group_for (rs @ [r])) (first_keys (map key_of (rs @ [r])))"
      by (simp add: add_error_def look errors)
    moreover have "map_of (ev_grouped (add_error r ev)) k = Some j \<longleftrightarrow> j < length (?ks @ [?k]) \<and> (?ks @ [?k]) ! j = k" for k j
      using index [of k j] False by (auto simp: add_error_def look errors nth_append less_Suc_eq)
    ultimately show ?thesis using \<open>first_keys (map key_of (rs @ [r])) = ?ks @ [?k]\<close> by (simp add: groups_inv_def)
  qed
qed

lemma groups_inv_fold: "groups_inv rs (foldl (\<lambda>ev r. add_error r ev) no_groups rs)"
proof (induction rs rule: rev_induct)
  case Nil
  show ?case by (simp add: groups_inv_def no_groups_def first_keys_def)
qed (simp add: add_error_inv)

text \<open>
  C38: the rows of a read are its errors, grouped. There is one row for every combination of severity, category and pattern
  that occurs, in the order of their first occurrences; it counts the records of its group, up to the
  largest 32-bit number, and everything else in it is of the first record of the group.
\<close>

theorem error_groups_exact: "group_errors rs = map (group_for rs) (first_keys (map key_of rs))"
  using groups_inv_fold [of rs] by (simp add: group_errors_def finish_groups_def groups_inv_def)

section \<open>What a pattern keeps\<close>

lemma normalize_error_bound: "length (normalize_error message) \<le> MAX_PATTERN_BYTES"
  by (simp add: normalize_error_def Let_def truncate_text_bound)

lemma normalize_sql_bound: "length (normalize_sql sql) \<le> MAX_PATTERN_BYTES"
  by (simp add: normalize_sql_def truncate_text_bound)

lemma takeWhile_until: "q \<notin> set v \<Longrightarrow> takeWhile (\<lambda>x. x \<noteq> q) (v @ q # s) = v \<and> dropWhile (\<lambda>x. x \<noteq> q) (v @ q # s) = q # s"
  by (induction v) auto

lemma dropWhile_none: "q \<notin> set v \<Longrightarrow> dropWhile (\<lambda>x. x \<noteq> q) v = []"
  by (induction v) auto

lemma replace_quoted_loop_skip: "q \<notin> set a \<Longrightarrow> replace_quoted_loop q r (a @ s) = a @ replace_quoted_loop q r s"
  by (induction a) auto

text \<open>A quoted value that is not empty is replaced whatever it is.\<close>

lemma replace_quoted_value:
  assumes "q \<notin> set a" and "q \<notin> set v" and "v \<noteq> []"
  shows "replace_quoted q r (a @ q # v @ q # s) = a @ r @ replace_quoted_loop q r s"
  using assms takeWhile_until [OF assms(2), of s] by (simp add: replace_quoted_def replace_quoted_loop_skip)

lemma quoted_values_grouped:
  assumes "34 \<notin> set a" and "34 \<notin> set v" "v \<noteq> []" and "34 \<notin> set w" "w \<noteq> []"
    and "find_text (a @ 34 # v @ 34 # s) (ascii '' at character '') = None"
    and "find_text (a @ 34 # w @ 34 # s) (ascii '' at character '') = None"
  shows "normalize_error (a @ 34 # v @ 34 # s) = normalize_error (a @ 34 # w @ 34 # s)"
  using assms replace_quoted_value [OF assms(1,2,3)] replace_quoted_value [OF assms(1,4,5)]
  by (simp add: normalize_error_def strip_at_character_def)

text \<open>A quote without a partner, such as an apostrophe, takes the rest of the message with it.\<close>

lemma unmatched_quote_drops_rest:
  assumes "q \<notin> set a" and "q \<notin> set s"
  shows "replace_quoted q r (a @ q # s) = a @ [q]"
  using assms(1) by (simp add: replace_quoted_def replace_quoted_loop_skip dropWhile_none [OF assms(2)])

lemma unmatched_delimiter_drops_rest:
  assumes "open_at \<notin> set a" and "close \<notin> set s"
  shows "replace_delimited open_at close r (a @ open_at # s) = a @ [open_at]"
proof -
  have "replace_delimited_loop open_at close r (a @ t) = a @ replace_delimited_loop open_at close r t" for t
    using assms(1) by (induction a) auto
  then show ?thesis by (simp add: replace_delimited_def dropWhile_none [OF assms(2)])
qed

end
