(* ===== verification/Log_Records.thy ===== *)
theory Log_Records
  imports Log_Tail Log_Normalize
begin

text \<open>
  The records of a PostgreSQL log: bounded texts (\<open>crates/kronika-source-log/src/text.rs\<close>), the CSV
  records of \<open>postgres/csvlog.rs\<close> and the records of \<open>postgres/stderr.rs\<close> with the rule that
  joins their lines. The time of a record is parsed by a library with a time zone table, so
  \<open>parse_time\<close> is a parameter: the time and the rest of the text.
\<close>

section \<open>Bounded texts\<close>

text \<open>The encodings of the characters with the property \<open>White_Space\<close>.\<close>

definition WHITE_SPACE :: "bytes list" where
  "WHITE_SPACE = map (\<lambda>b. [b]) [9, 10, 11, 12, 13, 32] @
     [[0xC2, 0x85], [0xC2, 0xA0], [0xE1, 0x9A, 0x80]] @
     map (\<lambda>b. [0xE2, 0x80, b]) [0x80, 0x81, 0x82, 0x83, 0x84, 0x85, 0x86, 0x87, 0x88, 0x89, 0x8A, 0xA8, 0xA9, 0xAF] @
     [[0xE2, 0x81, 0x9F], [0xE3, 0x80, 0x80]]"

lemma WHITE_SPACE_length: "w \<in> set WHITE_SPACE \<Longrightarrow> 0 < length w"
  by (auto simp: WHITE_SPACE_def)

function trim_start :: "bytes \<Rightarrow> bytes" where
  "trim_start s =
     (case List.find (\<lambda>w. starts_with s w) WHITE_SPACE of
        None \<Rightarrow> s
      | Some w \<Rightarrow> trim_start (drop (length w) s))"
  by pat_completeness auto
termination
proof (relation "measure length", goal_cases)
  case (2 s w)
  then have "0 < length w" "starts_with s w" using WHITE_SPACE_length by (auto simp: find_Some_iff)
  then show ?case by (cases s) (auto simp: starts_with_def)
qed simp

declare trim_start.simps [simp del]

definition ends_with :: "bytes \<Rightarrow> bytes \<Rightarrow> bool" where
  "ends_with s p \<longleftrightarrow> starts_with (rev s) (rev p)"

function trim_end :: "bytes \<Rightarrow> bytes" where
  "trim_end s =
     (case List.find (\<lambda>w. ends_with s w) WHITE_SPACE of
        None \<Rightarrow> s
      | Some w \<Rightarrow> trim_end (take (length s - length w) s))"
  by pat_completeness auto
termination
proof (relation "measure length", goal_cases)
  case (2 s w)
  then have "0 < length w" "starts_with (rev s) (rev w)" using WHITE_SPACE_length by (auto simp: find_Some_iff ends_with_def)
  then show ?case by (cases s) (auto simp: starts_with_def)
qed simp

declare trim_end.simps [simp del]

definition trim_text :: "bytes \<Rightarrow> bytes" where
  "trim_text s = trim_end (trim_start s)"

definition bounded_text :: "bytes \<Rightarrow> bytes option" where
  "bounded_text s = (let t = trim_text s in if t = [] then None else Some (truncate_text t MAX_TEXT_BYTES))"

definition append_str :: "bytes \<Rightarrow> bytes \<Rightarrow> bytes" where
  "append_str target s =
     (let t = trim_text s in
      if t = [] \<or> length target \<ge> MAX_TEXT_BYTES then target
      else
        let target = (if target \<noteq> [] then target @ [32] else target);
            room = MAX_TEXT_BYTES - length target
        in target @ truncate_text t room)"

definition append_text :: "bytes option \<Rightarrow> bytes \<Rightarrow> bytes option" where
  "append_text target s = Some (append_str (case target of None \<Rightarrow> [] | Some t \<Rightarrow> t) s)"

lemma bounded_text_bound: "bounded_text s = Some t \<Longrightarrow> length t \<le> MAX_TEXT_BYTES \<and> t = truncate_text (trim_text s) MAX_TEXT_BYTES"
  by (auto simp: bounded_text_def Let_def truncate_text_bound split: if_splits)

lemma append_str_bound: "length target \<le> MAX_TEXT_BYTES \<Longrightarrow> length (append_str target s) \<le> MAX_TEXT_BYTES"
  using truncate_text_bound [of "trim_text s" "MAX_TEXT_BYTES - length (target @ [32])"] truncate_text_bound [of "trim_text s" "MAX_TEXT_BYTES"]
  by (auto simp: append_str_def Let_def)

section \<open>CSV records\<close>

definition MIN_FIELDS :: nat where "MIN_FIELDS = 23"

definition csv_continues :: continues where
  "csv_continues lines line raw_quotes_odd = raw_quotes_odd"

fun decode_loop :: "bytes \<Rightarrow> bool \<Rightarrow> bytes" where
  "decode_loop [] quoted = []"
| "decode_loop (c # cs) quoted =
     (if c = 34 then
        if quoted \<and> cs \<noteq> [] \<and> hd cs = 34 then 34 # decode_loop (drop 1 cs) quoted
        else decode_loop cs (\<not> quoted)
      else c # decode_loop cs quoted)"

definition decode_field :: "bytes \<Rightarrow> bytes" where
  "decode_field field = (if 34 \<notin> set field then field else decode_loop field False)"

text \<open>\<open>field\<close> is the record from \<open>start\<close> to the current character.\<close>

function csv_loop :: "bytes \<Rightarrow> bytes \<Rightarrow> bool \<Rightarrow> bytes list \<Rightarrow> bytes list" where
  "csv_loop [] field quoted fs = fs @ [decode_field field]"
| "csv_loop (c # cs) field quoted fs =
     (if c = 34 \<and> quoted \<and> cs \<noteq> [] \<and> hd cs = 34 then csv_loop (drop 1 cs) (field @ [34, 34]) quoted fs
      else if c = 34 then csv_loop cs (field @ [c]) (\<not> quoted) fs
      else if c = 44 \<and> \<not> quoted then
        let fs = fs @ [decode_field field] in
        if length fs = MIN_FIELDS then fs else csv_loop cs [] quoted fs
      else csv_loop cs (field @ [c]) quoted fs)"
  by pat_completeness auto
termination
  by (relation "measure (\<lambda>(cs, field, quoted, fs). length cs)") auto

definition split_csv :: "bytes \<Rightarrow> bytes list" where
  "split_csv record = csv_loop record [] False []"

definition field_at :: "bytes list \<Rightarrow> nat \<Rightarrow> bytes option" where
  "field_at fs i = (if i < length fs then Some (fs ! i) else None)"

definition PgRecord_new :: "i64 \<Rightarrow> severity \<Rightarrow> bytes \<Rightarrow> pg_record" where
  "PgRecord_new ts sev message =
     \<lparr>pr_ts = ts, pr_severity = sev, pr_sqlstate = None, pr_message = truncate_text (trim_text message) MAX_TEXT_BYTES,
      pr_detail = None, pr_hint = None, pr_context = None, pr_statement = None, pr_database = None, pr_username = None\<rparr>"

type_synonym time_parser = "bytes \<Rightarrow> (i64 \<times> bytes) option"

definition whole_time :: "time_parser \<Rightarrow> i64 \<Rightarrow> bytes option \<Rightarrow> i64" where
  "whole_time parse_time now field =
     (case Option.bind field parse_time of Some (ts, []) \<Rightarrow> ts | _ \<Rightarrow> now)"

definition csv_parse :: "time_parser \<Rightarrow> i64 \<Rightarrow> bytes \<Rightarrow> pg_record option" where
  "csv_parse parse_time now record =
     (let fs = split_csv record; text = (\<lambda>i. Option.bind (field_at fs i) bounded_text) in
      if length fs < MIN_FIELDS then None
      else Option.bind (Option.bind (field_at fs 11) severity_parse) (\<lambda>sev.
        Option.bind (field_at fs 13) (\<lambda>message.
          Some ((PgRecord_new (whole_time parse_time now (field_at fs 0)) sev message)
            \<lparr>pr_sqlstate := text 12, pr_detail := text 14, pr_hint := text 15, pr_context := text 18,
             pr_statement := text 19, pr_database := text 2, pr_username := text 1\<rparr>))))"

section \<open>The split inverts the server's writer\<close>

text \<open>A field as the server writes it: quoted with doubled quotes, or as it is when it needs no quotes.\<close>

definition quote_csv :: "bytes \<Rightarrow> bytes" where
  "quote_csv v = 34 # concat (map (\<lambda>b. if b = 34 then [34, 34] else [b]) v) @ [34]"

definition csv_field :: "bool \<Rightarrow> bytes \<Rightarrow> bytes" where
  "csv_field plain v = (if plain \<and> 34 \<notin> set v \<and> 44 \<notin> set v then v else quote_csv v)"

fun csv_line :: "(bool \<times> bytes) list \<Rightarrow> bytes" where
  "csv_line [] = []"
| "csv_line [(plain, v)] = csv_field plain v"
| "csv_line ((plain, v) # fs) = csv_field plain v @ 44 # csv_line fs"

abbreviation doubled :: "bytes \<Rightarrow> bytes" where
  "doubled v \<equiv> concat (map (\<lambda>b. if b = 34 then [34, 34] else [b]) v)"

lemma decode_doubled: "decode_loop (doubled v @ 34 # rest) True = v @ decode_loop rest False" if "rest = [] \<or> hd rest \<noteq> 34"
  using that by (induction v) auto

lemma decode_quoted: "decode_field (quote_csv v) = v"
  using decode_doubled [of "[]" v] by (simp add: decode_field_def quote_csv_def)

lemma csv_loop_doubled:
  "rest = [] \<or> hd rest \<noteq> 34 \<Longrightarrow>
     csv_loop (doubled v @ 34 # rest) field True fs = csv_loop rest (field @ doubled v @ [34]) False fs"
  by (induction v arbitrary: field) auto

lemma csv_loop_plain:
  "34 \<notin> set v \<Longrightarrow> 44 \<notin> set v \<Longrightarrow> csv_loop (v @ rest) field False fs = csv_loop rest (field @ v) False fs"
  by (induction v arbitrary: field) auto

lemma csv_loop_field:
  assumes "rest = [] \<or> hd rest = 44"
  shows "csv_loop (csv_field plain v @ rest) [] False fs = csv_loop rest (csv_field plain v) False fs"
proof -
  have "rest = [] \<or> hd rest \<noteq> 34" using assms by auto
  from csv_loop_doubled [OF this, of v "[34]" fs] show ?thesis
    using csv_loop_plain [of v rest "[]" fs] by (auto simp: csv_field_def quote_csv_def)
qed

lemma decode_csv_field: "decode_field (csv_field plain v) = v"
  by (auto simp: csv_field_def decode_quoted) (simp add: decode_field_def)

lemma split_csv_line:
  assumes "vs \<noteq> []" and "length fs < MIN_FIELDS"
  shows "csv_loop (csv_line vs) [] False fs = take MIN_FIELDS (fs @ map snd vs)"
  using assms
proof (induction vs arbitrary: fs rule: csv_line.induct)
  case (2 plain v)
  then show ?case using csv_loop_field [of "[]" plain v fs] by (simp add: decode_csv_field)
next
  case (3 plain v f vs)
  have "csv_loop (csv_line ((plain, v) # f # vs)) [] False fs = csv_loop (44 # csv_line (f # vs)) (csv_field plain v) False fs"
    using csv_loop_field [of "44 # csv_line (f # vs)" plain v fs] by simp
  moreover obtain k where k: "MIN_FIELDS - length fs = Suc k" "MIN_FIELDS - Suc (length fs) = k"
    using "3.prems"(2) by (metis Suc_diff_Suc)
  moreover have "Suc (length fs) = MIN_FIELDS \<longleftrightarrow> k = 0" using k "3.prems"(2) by auto
  moreover have "csv_loop (csv_line (f # vs)) [] False (fs @ [v]) = take MIN_FIELDS ((fs @ [v]) @ map snd (f # vs))" if "k \<noteq> 0"
    using "3.IH" [of "fs @ [v]"] that k by simp
  ultimately show ?case using "3.prems"(2) by (auto simp: decode_csv_field Let_def)
qed simp

text \<open>
  C39: CSV records are read as they were written. Splitting the line of any fields, each quoted by the server's rule or
  plain where that is allowed, returns the first 23 fields byte for byte: commas, quotes and newlines inside a
  value never shift a column.
\<close>

theorem csv_roundtrip:
  assumes "vs \<noteq> []"
  shows "split_csv (csv_line vs) = take MIN_FIELDS (map snd vs)"
  using split_csv_line [OF assms, of "[]"] by (simp add: split_csv_def MIN_FIELDS_def)

theorem csv_roundtrip_witness:
  "split_csv (csv_line [(True, [97]), (True, [98, 44, 99]), (False, [34, 10]), (True, [])]) = [[97], [98, 44, 99], [34, 10], []]"
  using csv_roundtrip [of "[(True, [97]), (True, [98, 44, 99]), (False, [34, 10]), (True, [])]"] by (simp add: MIN_FIELDS_def)

end
