(* ===== verification/Spec2Isabelle.thy ===== *)
theory Spec2Isabelle
  imports Journal_Props Layout_Inventory Interner_Props Scheduler Rotation_Props Registry Segment_Props Collector_Run Glob Exact_Product Log_Tail_Props Log_Offsets Log_Paths Log_Records
begin

text \<open>
  \<^bold>\<open>Verification of Kronika.\<close> Kronika is a flight recorder for PostgreSQL hosts. A collector process reads the
  operating system, the database and its logs in short windows. Every window is encoded into column sections,
  its texts are replaced by ids of a dictionary, and the window is appended as one \<^emph>\<open>part\<close> to the active journal
  \<open>active.wal\<close>. When the open segment is old or large enough the journal is merged into one immutable
  \<open>.zms\<close> file of the dated data tree and reset. Rotation removes old segments. Readers and the query layer
  work on the finished files. The development follows the write path bottom up and adds some self-contained
  algorithms of the readers.

  \<^bold>\<open>Conventions.\<close> Machine integers are words of their width, lengths and positions that the code
  holds in \<open>usize\<close> are naturals with the checked, saturating or wrapping operation written out
  (\<open>Prelude\<close>). \<open>Result\<close> is a sum with \<open>Err\<close> for \<open>Inl\<close> and \<open>Ok\<close> for \<open>Inr\<close>, and \<open>None\<close> of an outer
  option is a panic of the code; the theorems show where it cannot happen. Enums are datatypes with the constructors of the
  source, structs are records, \<open>BTreeMap\<close> and \<open>HashMap\<close> are association lists behind the interface
  \<open>ordered_map\<close> (\<open>Ordered_Map\<close>). Mutable state is passed and returned. Files are records with a content, a durable content
  and a list of outcomes for the coming system calls, so every call may fail, and may fail half way.
  The digest of the crate \<open>crc\<close>, the hashes xxh3 and SHA-256, the Parquet encoder and the
  password database are parameters with documented laws as hypotheses; witnesses instantiate them.

  \<^bold>\<open>Theories.\<close>
  \<^item> \<open>Prelude\<close>, \<open>Ordered_Map\<close>, \<open>Decimal\<close>: byte orders, checked arithmetic, results, the locale \<open>fixed_codec\<close> of
    fixed-size layouts, maps kept in key order, and decimal text as Rust prints and parses it.
  \<^item> \<open>Crc\<close>, \<open>Catalog\<close>, \<open>Catalog_Layout\<close>, \<open>Part_Frame\<close>, \<open>Journal_Header\<close>, \<open>Journal_Scan\<close>
    (\<open>crates/kronika-format\<close>: \<open>crc.rs\<close>, \<open>catalog.rs\<close>, \<open>catalog/\<close>, \<open>parts.rs\<close>, \<open>parts/\<close>, \<open>read_at.rs\<close>): the bytes
    of containers, frames, the journal header and the reset marker with their decoders, the layout validator, part assembly
    and validation, and the streaming scanner. The lemmas are round trips, exact characterisations of what is accepted,
    and that the scanner returns the longest run of valid frames for any source that keeps the \<open>ReadAt\<close> contract
    (locale \<open>byte_source\<close>).
  \<^item> \<open>Dictionary\<close>, \<open>Dictionary_Props\<close> (\<open>str_id.rs\<close>, \<open>dictionary.rs\<close>, \<open>dictionary/\<close>): interning with
    placement, caps and collisions; the invariant \<open>dicts_wf\<close>, every branch of an insertion, and independence of the order.
  \<^item> \<open>Layout_Civil\<close>, \<open>Layout_Time\<close>, \<open>Layout_Names\<close>, \<open>Layout_Entries\<close>, \<open>Layout_Walk\<close>,
    \<open>Layout_Discovery\<close>, \<open>Layout_Inventory\<close> (\<open>crates/kronika-layout\<close>: \<open>time.rs\<close>, \<open>limits.rs\<close>, \<open>root/names.rs\<close>,
    \<open>root/entry.rs\<close>, \<open>root/scan.rs\<close>, \<open>root/discovery.rs\<close>): civil dates, segment addresses, the name grammar and the bounded
    traversal of the data tree; the snapshot of a scan is the inventory of the tree. Nothing changes the tree during one
    attempt except where an entry is lost between listing and opening, which the retry loop handles.
  \<^item> \<open>Tree_Files\<close>, \<open>Tree_Listing\<close>: removal of segments, temporaries, orphans and empty directories
    (\<open>root/writer.rs\<close>, \<open>root/fsops.rs\<close>, \<open>root/index.rs\<close>) over such a tree.
  \<^item> \<open>Journal_File\<close>, \<open>Journal\<close>, \<open>Journal_Open\<close>, \<open>Journal_Repr\<close>, \<open>Journal_Recovery\<close>,
    \<open>Journal_Crash\<close>, \<open>Journal_Props\<close> (\<open>crates/kronika-writer\<close>: \<open>journal.rs\<close>, \<open>journal/\<close>): append, reset, reads and
    opening. \<open>journal_repr\<close> relates a handle to the list of its parts; the properties are atomicity under any failing
    calls, recovery from a crash between any two effects, and the invariant of reachable handles.
  \<^item> \<open>Interner\<close>, \<open>Interner_Window\<close>, \<open>Interner_Refine\<close>, \<open>Interner_Stats\<close>, \<open>Interner_Props\<close> (\<open>interner.rs\<close>):
    the interner keeps one window and a summary of what was flushed, and refines one dictionary of the segment.
  \<^item> \<open>Codec_Bounds\<close> (\<open>crates/kronika-registry/src/codec/\<close>): row caps and the checked size bounds.
  \<^item> \<open>Segment_Plan\<close>, \<open>Segment_Dictionary\<close>, \<open>Segment_Merge\<close>, \<open>Segment_Spool\<close>,
    \<open>Segment_Finish\<close>, \<open>Segment_Finish_Props\<close>, \<open>Segment_Compare\<close>, \<open>Store_Disk\<close>, \<open>Zms_Temp\<close>,
    \<open>Segment_Write\<close>, \<open>Segment_Write_Props\<close>, \<open>Segment_Sample\<close>, \<open>Segment_Props\<close>
    (\<open>segment.rs\<close>, \<open>segment/\<close>, \<open>dict.rs\<close>, and \<open>create_zms_temp\<close>, \<open>publish\<close> of the layout):
    the plan over all parts, the merged dictionary, spooling, the final file, its validation, and the publication by a link from a
    temporary name, over a disk with durable and volatile names and bytes.
  \<^item> \<open>Registry_Contract\<close>, \<open>Registry_Derive\<close>, \<open>Registry_Os\<close>, \<open>Registry_Cgroup\<close>,
    \<open>Registry_Pg_Activity\<close>, \<open>Registry_Pg_Stat\<close>, \<open>Registry_Pg_Statements\<close>, \<open>Registry_Unions\<close>, \<open>Registry\<close>
    (\<open>crates/kronika-registry\<close>, \<open>crates/kronika-derive\<close>): type ids, contracts, the linter, what the derive macro makes of a
    struct, every section struct, and the shipped registry.
  \<^item> \<open>Section_Buffers\<close> (\<open>buffer.rs\<close>, \<open>dict.rs\<close>), \<open>User_Names\<close> (\<open>passwd.rs\<close>, \<open>user_names.rs\<close>), \<open>Collector_Segments\<close>,
    \<open>Collector_Holds\<close>, \<open>Collector_Props\<close>, \<open>Collector_Run\<close> (\<open>bins/kronika-collector/src/segments.rs\<close>, \<open>segments/\<close>):
    the window, the names of users, and the open segment; the run theorem says that an accepted
    window is never lost, whatever fails.
  \<^item> \<open>Rotation\<close>, \<open>Rotation_Props\<close> (\<open>rotation.rs\<close>, \<open>rotation/files.rs\<close>, \<open>config/retention.rs\<close>) and \<open>Scheduler\<close>
    (\<open>scheduler.rs\<close>, \<open>scheduler/sources.rs\<close>): what is deleted and why, and when each source is read.
  \<^item> \<open>Glob\<close> and \<open>Exact_Product\<close> (\<open>crates/kronika-query\<close>: \<open>snapshot/search/glob.rs\<close>, \<open>exact_product.rs\<close>): the text
    patterns of the search and the exact comparison of products of counters.
  \<^item> \<open>Utf8\<close>, \<open>Log_Tail\<close>, \<open>Log_Tail_Props\<close>, \<open>Log_Offsets\<close>, \<open>Log_Paths\<close>
    (\<open>crates/kronika-source-log\<close>: \<open>text.rs\<close>, \<open>tail.rs\<close>, \<open>tail/framing.rs\<close>, \<open>offsets.rs\<close>, and
    \<open>bins/kronika-collector/src/log_sources/paths.rs\<close>): following a log file that grows, is rotated or cut, in bounded
    batches; the resume points; the patterns that choose the files. The runs of a tail are an inductive relation over any
    sequence of batches, failures, acknowledgements, retries, restarts and changes of the file, and its invariant says which lines have been delivered.
  \<^item> \<open>Log_Normalize\<close>, \<open>Log_Records\<close> (\<open>postgres/normalize.rs\<close>, \<open>postgres/events.rs\<close>, \<open>postgres/csvlog.rs\<close>):
    the patterns of errors and their groups, and the CSV records with their bounded texts.

  \<^bold>\<open>Bounds and fuel.\<close> Loops that consume a list or approach a bound are structural or have a measure.
  The scan of the journal is bounded by the number of bytes left, since every frame is at least a header long. The retry of the
  tree scan ends after the four attempts of the source. The carry loop of a growing product ends because the carry shrinks.
  No definition takes fuel.

  \<^bold>\<open>Not modelled.\<close> System call wrappers, locks and the seal seed of the layout, the
  index owner; Arrow and Parquet encoding, decoding and page inspection; time zones, JSON, prefixed and PgBouncer log records and the typed events of server messages; the readers of \<open>/proc\<close>, \<open>/sys\<close>, cgroups and PostgreSQL
  and the assembly of their rows; log events, display texts of errors, configuration files and command lines; the
  segment reader, store, slices and section index; the query engine apart from the parts named above; the web server, the reports and
  the WebAssembly front end; the demo and test harnesses. They are input and output around the modelled core,
  or depend on crates that are not part of the repository.
\<close>

end
